(* ===== verification/Prelude.thy ===== *)
theory Prelude
  imports Main "HOL-Library.Word" "HOL-Library.Monad_Syntax"
begin

unbundle bit_operations_syntax

text \<open>
  Shared types, byte-buffer primitives and word lemmas.

  C integers are words of their width, so \<open>+\<close>, \<open>-\<close>, \<open>*\<close> wrap as in C.
  A byte buffer (\<open>const uint8_t *buf, size_t len\<close>) is a \<open>u8 list\<close>; its length is
  \<open>len\<close>.  An access of the C code that leaves its buffer is undefined behaviour there:
  the checked accessors below return \<^const>\<open>None\<close> for it, and a function that uses
  them returns \<^const>\<open>None\<close> exactly when some access left its buffer.  A memory-safety
  theorem is then the statement that the result is not \<^const>\<open>None\<close>.
  Pointers are never NULL in the model, so the guards \<open>if (!p) return ...\<close> have no branch.
\<close>

type_synonym u8 = "8 word"
type_synonym u16 = "16 word"
type_synonym u32 = "32 word"
type_synonym u64 = "64 word"

named_theorems unat_bridge \<open>rules that move word equations to natural numbers\<close>

section \<open>Little-endian accessors over byte buffers\<close>

definition rd8 :: "u8 list \<Rightarrow> nat \<Rightarrow> u8 option" where
  "rd8 b i = (if i < length b then Some (b ! i) else None)"

definition le16 :: "u8 \<Rightarrow> u8 \<Rightarrow> u16" where
  "le16 b0 b1 = ucast b0 OR push_bit 8 (ucast b1)"

definition le32 :: "u8 \<Rightarrow> u8 \<Rightarrow> u8 \<Rightarrow> u8 \<Rightarrow> u32" where
  "le32 b0 b1 b2 b3 = ucast b0 OR push_bit 8 (ucast b1) OR push_bit 16 (ucast b2)
                      OR push_bit 24 (ucast b3)"

definition ld16 :: "u8 list \<Rightarrow> nat \<Rightarrow> u16 option" where
  "ld16 b i = do { b0 \<leftarrow> rd8 b i; b1 \<leftarrow> rd8 b (i + 1); Some (le16 b0 b1) }"

definition ld32 :: "u8 list \<Rightarrow> nat \<Rightarrow> u32 option" where
  "ld32 b i = do { b0 \<leftarrow> rd8 b i; b1 \<leftarrow> rd8 b (i + 1); b2 \<leftarrow> rd8 b (i + 2);
                   b3 \<leftarrow> rd8 b (i + 3); Some (le32 b0 b1 b2 b3) }"

definition ld64 :: "u8 list \<Rightarrow> nat \<Rightarrow> u64 option" where
  "ld64 b i = do { lo \<leftarrow> ld32 b i; hi \<leftarrow> ld32 b (i + 4);
                   Some (ucast lo OR push_bit 32 (ucast hi)) }"

definition wr8 :: "u8 list \<Rightarrow> nat \<Rightarrow> u8 \<Rightarrow> u8 list option" where
  "wr8 b i v = (if i < length b then Some (b[i := v]) else None)"

definition bytes32 :: "u32 \<Rightarrow> u8 list" where
  "bytes32 v = [ucast v, ucast (drop_bit 8 v), ucast (drop_bit 16 v), ucast (drop_bit 24 v)]"

definition bytes64 :: "u64 \<Rightarrow> u8 list" where
  "bytes64 v = map (\<lambda>i. ucast (drop_bit (8 * i) v)) [0..<8]"

text \<open>Overwrite a run of bytes (\<open>memcpy\<close> into a buffer).\<close>

definition splice :: "'a list \<Rightarrow> nat \<Rightarrow> 'a list \<Rightarrow> 'a list" where
  "splice b i xs = take i b @ xs @ drop (i + length xs) b"

definition wr_bytes :: "u8 list \<Rightarrow> nat \<Rightarrow> u8 list \<Rightarrow> u8 list option" where
  "wr_bytes b i xs = (if i + length xs \<le> length b then Some (splice b i xs) else None)"

definition st32 :: "u8 list \<Rightarrow> nat \<Rightarrow> u32 \<Rightarrow> u8 list option" where
  "st32 b i v = wr_bytes b i (bytes32 v)"

definition st64 :: "u8 list \<Rightarrow> nat \<Rightarrow> u64 \<Rightarrow> u8 list option" where
  "st64 b i v = wr_bytes b i (bytes64 v)"

definition rd_bytes :: "u8 list \<Rightarrow> nat \<Rightarrow> nat \<Rightarrow> u8 list option" where
  "rd_bytes b i n = (if i + n \<le> length b then Some (take n (drop i b)) else None)"

text \<open>The bounds test every parser of the driver uses: \<open>off <= len && need <= len - off\<close>.\<close>

definition fits :: "nat \<Rightarrow> nat \<Rightarrow> nat \<Rightarrow> bool" where
  "fits off need len \<longleftrightarrow> off \<le> len \<and> need \<le> len - off"

lemma fits_iff [simp]: "fits off need len \<longleftrightarrow> off + need \<le> len"
  by (auto simp: fits_def)

lemma rd8_Some [simp]: "i < length b \<Longrightarrow> rd8 b i = Some (b ! i)"
  by (simp add: rd8_def)

lemma rd8_None_iff [simp]: "rd8 b i = None \<longleftrightarrow> length b \<le> i"
  by (simp add: rd8_def)

lemma ld16_Some [simp]: "i + 2 \<le> length b \<Longrightarrow> ld16 b i = Some (le16 (b ! i) (b ! (i + 1)))"
  by (simp add: ld16_def)

lemma ld32_Some [simp]:
  "i + 4 \<le> length b \<Longrightarrow> ld32 b i = Some (le32 (b ! i) (b ! (i + 1)) (b ! (i + 2)) (b ! (i + 3)))"
  by (simp add: ld32_def)

lemma ld64_ex: "i + 8 \<le> length b \<Longrightarrow> \<exists>v. ld64 b i = Some v"
  by (simp add: ld64_def)

lemma ld64_not_None [simp]: "i + 8 \<le> length b \<Longrightarrow> ld64 b i \<noteq> None"
  by (simp add: ld64_def)

lemma length_bytes32 [simp]: "length (bytes32 v) = 4"
  by (simp add: bytes32_def)

lemma length_bytes64 [simp]: "length (bytes64 v) = 8"
  by (simp add: bytes64_def)

lemma length_splice [simp]: "i + length xs \<le> length b \<Longrightarrow> length (splice b i xs) = length b"
  by (simp add: splice_def)

lemma wr_bytes_Some_iff: "wr_bytes b i xs = Some b' \<longleftrightarrow> i + length xs \<le> length b \<and> b' = splice b i xs"
  by (auto simp: wr_bytes_def)

lemma nth_splice:
  "i + length xs \<le> length b \<Longrightarrow> j < length b \<Longrightarrow>
   splice b i xs ! j = (if i \<le> j \<and> j < i + length xs then xs ! (j - i) else b ! j)"
  by (auto simp: splice_def nth_append min_def)

section \<open>Powers of two and rounding\<close>

text \<open>
  The driver rounds with \<open>(v + a - 1) & ~(a - 1)\<close> and \<open>v & ~(a - 1)\<close> and tests
  \<open>a & (a - 1)\<close>.  These lemmas read the three expressions as operations on naturals.
\<close>

lemma nat_and_pred_pow2: "0 < n \<Longrightarrow> n AND (n - 1) = (0::nat) \<Longrightarrow> \<exists>k. n = 2 ^ k"
proof (induction n rule: less_induct)
  case (less n)
  show ?case
  proof (cases "even n")
    case True
    then obtain m where m: "n = 2 * m" by (elim evenE)
    with less.prems have "0 < m" by simp
    have "n - 1 = 2 * (m - 1) + 1" using m \<open>0 < m\<close> by simp
    then have "n AND (n - 1) = 2 * (m AND (m - 1))"
      using m by (simp add: and_rec [of "2 * m"])
    then have "m AND (m - 1) = 0" using less.prems by simp
    with less.IH [of m] m \<open>0 < m\<close> obtain k where "m = 2 ^ k" by auto
    then have "n = 2 ^ Suc k" using m by simp
    then show ?thesis by blast
  next
    case False
    then obtain m where m: "n = 2 * m + 1" by (elim oddE)
    have "n AND (n - 1) = 2 * m"
      using m by (simp add: and_rec [of "Suc (2 * m)"])
    then have "n = 2 ^ 0" using m less.prems by simp
    then show ?thesis by blast
  qed
qed
lemma unat_and_not_mask:
  "unat (x AND NOT (mask k) :: 'a::len word) = unat x div 2 ^ k * 2 ^ k"
proof -
  have "x AND NOT (mask k) = push_bit k (drop_bit k x)"
    by (rule bit_word_eqI) (auto simp: bit_simps)
  then have "x AND NOT (mask k) = x - take_bit k x"
    by (metis add_diff_cancel_right' bits_ident)
  moreover have "unat (x - take_bit k x) = unat x - unat x mod 2 ^ k"
  proof -
    have t: "unat (take_bit k x) = unat x mod 2 ^ k"
      using take_bit_eq_mod [of k "unat x"] by (metis unsigned_take_bit_eq)
    then have "take_bit k x \<le> x" by (simp add: word_le_nat_alt)
    then show ?thesis using t by (simp add: unat_sub)
  qed
  ultimately show ?thesis by (simp add: minus_mod_eq_div_mult)
qed
lemma word_pow2_mask: "unat (a :: 'a::len word) = 2 ^ k \<Longrightarrow> a - 1 = mask k"
proof -
  assume "unat a = 2 ^ k"
  then have "a = 2 ^ k" by (metis of_nat_numeral of_nat_power of_nat_unat ucast_id)
  then show "a - 1 = mask k" by (simp add: mask_eq_exp_minus_1)
qed
lemma word_pow2_cases: 
  assumes "a \<noteq> (0 :: 'a::len word)" "a AND (a - 1) = 0"
  shows "\<exists>k. unat a = 2 ^ k"
proof (rule nat_and_pred_pow2)
  show "0 < unat a" using assms(1) by (simp add: unat_gt_0)
  have "unat a AND (unat a - 1) = unat (a AND (a - 1))"
    using assms(1) by (simp add: unsigned_and_eq unat_minus_one)
  then show "unat a AND (unat a - 1) = 0" using assms(2) by simp
qed

definition roundup :: "nat \<Rightarrow> nat \<Rightarrow> nat" where
  "roundup d v = (v + d - 1) div d * d"

lemma roundup_ge: "0 < d \<Longrightarrow> v \<le> roundup d v"
proof -
  assume d: "0 < d"
  have "(v + d - 1) mod d < d" using d by simp
  moreover have "(v + d - 1) div d * d + (v + d - 1) mod d = v + d - 1" by (rule div_mult_mod_eq)
  ultimately show ?thesis unfolding roundup_def by linarith
qed

lemma roundup_dvd [simp]: "d dvd roundup d v"
  by (simp add: roundup_def)

lemma roundup_less: "0 < d \<Longrightarrow> roundup d v < v + d"
proof -
  assume d: "0 < d"
  have "(v + d - 1) div d * d \<le> v + d - 1" by (rule div_times_less_eq_dividend)
  with d show ?thesis unfolding roundup_def by linarith
qed

lemma roundup_least: "0 < d \<Longrightarrow> v \<le> y \<Longrightarrow> d dvd y \<Longrightarrow> roundup d v \<le> y"
proof -
  assume d: "0 < d" and le: "v \<le> y" and dv: "d dvd y"
  from dv obtain q where q: "y = d * q" ..
  have "(v + d - 1) div d \<le> q"
  proof -
    have "v + d - 1 < d * (q + 1)" using le q d by simp
    then have "(v + d - 1) div d < q + 1" by (simp add: less_mult_imp_div_less mult.commute)
    then show ?thesis by simp
  qed
  then show ?thesis unfolding roundup_def q by (simp add: mult.commute)
qed

lemma roundup_self: "0 < d \<Longrightarrow> d dvd v \<Longrightarrow> roundup d v = v"
  by (meson dvd_refl le_antisym order_refl roundup_ge roundup_least)

lemma unat_align_up:
  assumes "unat (a :: 'a::len word) = 2 ^ k" and "unat v + (2 ^ k - 1) < 2 ^ LENGTH('a)"
  shows "unat ((v + a - 1) AND NOT (a - 1)) = roundup (2 ^ k) (unat v)"
proof -
  have m: "a - 1 = mask k" using assms(1) by (rule word_pow2_mask)
  have "a \<noteq> 0" using assms(1) by auto
  have a1: "unat (a - 1) = 2 ^ k - 1"
    using \<open>a \<noteq> 0\<close> assms(1) by (simp add: unat_minus_one)
  have e: "v + a - 1 = v + (a - 1)" by simp
  have n: "unat v + (2 ^ k - 1) = unat v + 2 ^ k - (1::nat)" by simp
  have u: "unat (v + a - 1) = unat v + 2 ^ k - 1"
    unfolding e n [symmetric] a1 [symmetric]
    by (rule unat_add_lem [THEN iffD1]) (use assms(2) a1 in simp)
  show ?thesis
    unfolding m unat_and_not_mask roundup_def u ..
qed

lemma unat_align_down:
  "unat (a :: 'a::len word) = 2 ^ k \<Longrightarrow> unat (v AND NOT (a - 1)) = unat v div 2 ^ k * 2 ^ k"
  by (simp add: word_pow2_mask unat_and_not_mask)

lemma unat_and_mask: "unat (x AND mask k :: 'a::len word) = unat x mod 2 ^ k"
  by (metis take_bit_eq_mask take_bit_eq_mod unsigned_take_bit_eq)

lemma dvd_mask_iff: "x AND mask k = (0 :: 'a::len word) \<longleftrightarrow> 2 ^ k dvd unat x"
proof -
  have "x AND mask k = 0 \<longleftrightarrow> unat (x AND mask k) = 0" by (simp add: unsigned_eq_0_iff)
  also have "\<dots> \<longleftrightarrow> 2 ^ k dvd unat x" unfolding unat_and_mask by (simp add: dvd_eq_mod_eq_0)
  finally show ?thesis .
qed

lemma unat_add_small: "unat a + unat b < 2 ^ LENGTH('a) \<Longrightarrow> unat (a + b) = unat a + unat (b :: 'a::len word)"
  by (simp add: unat_add_lem)

lemma unat_sub_small: "unat b \<le> unat a \<Longrightarrow> unat (a - b) = unat a - unat (b :: 'a::len word)"
  by (simp add: unat_sub word_le_nat_alt)

lemma u64_less: "unat (x :: u64) < 18446744073709551616"
proof -
  have "unat x < 2 ^ LENGTH(64)" by (rule unsigned_less)
  then show ?thesis by simp
qed

lemma u32_less: "unat (x :: u32) < 4294967296"
proof -
  have "unat x < 2 ^ LENGTH(32)" by (rule unsigned_less)
  then show ?thesis by simp
qed

lemma unat_of_nat_small: "n < 2 ^ LENGTH('a) \<Longrightarrow> unat (of_nat n :: 'a::len word) = n"
  by (simp add: unat_of_nat)

lemma u8_less: "unat (x :: u8) < 256"
proof -
  have "unat x < 2 ^ LENGTH(8)" by (rule unsigned_less)
  then show ?thesis by simp
qed

lemma u16_less: "unat (x :: u16) < 65536"
proof -
  have "unat x < 2 ^ LENGTH(16)" by (rule unsigned_less)
  then show ?thesis by simp
qed

lemma unat_max_minus: "unat (0xFFFFFFFFFFFFFFFF - x :: u64) = 18446744073709551615 - unat x"
proof -
  have m: "unat (0xFFFFFFFFFFFFFFFF :: u64) = 18446744073709551615" by simp
  have "unat x \<le> unat (0xFFFFFFFFFFFFFFFF :: u64)" using u64_less [of x] m by linarith
  then show ?thesis using m by (simp only: unat_sub_small)
qed

text \<open>The overflow-free bounds test \<open>off > size || n > size - off\<close>.\<close>

lemma word_bounds_guard:
  "(off > s \<or> n > s - off) \<longleftrightarrow> \<not> unat off + unat n \<le> unat (s :: 'a::len word)"
proof (cases "unat off \<le> unat s")
  case True
  then show ?thesis by (auto simp: word_less_nat_alt unat_sub_small)
next
  case False
  then show ?thesis by (auto simp: word_less_nat_alt)
qed

lemma word_or_zero_iff: "x OR y = (0 :: 'a::len word) \<longleftrightarrow> x = 0 \<and> y = 0"
  by (auto simp: bit_eq_iff bit_simps)

lemma word_less_Suc: "x + 1 \<noteq> 0 \<Longrightarrow> x < x + (1 :: 'a::len word)"
  using unatSuc [of x] by (simp add: word_less_nat_alt add.commute)

section \<open>Counting loops\<close>

text \<open>
  \<open>for (i = i0; i < lim; i += step) body\<close> at the width of \<open>i\<close>.  The increment
  wraps as in C, so a limit close to the type's maximum makes a loop that never ends: the
  combinator is then \<^const>\<open>None\<close>, as it is when the body fails.
\<close>

partial_function (option) for_upto ::
  "'a::len word \<Rightarrow> 'a word \<Rightarrow> ('a word \<Rightarrow> 's \<Rightarrow> 's option) \<Rightarrow> 'a word \<Rightarrow> 's \<Rightarrow> 's option" where
  "for_upto step lim body i s =
     (if i < lim then do { s' \<leftarrow> body i s; for_upto step lim body (i + step) s' } else Some s)"

declare for_upto.simps [code]

primrec mfold :: "('x \<Rightarrow> 's \<Rightarrow> 's option) \<Rightarrow> 'x list \<Rightarrow> 's \<Rightarrow> 's option" where
  "mfold f [] s = Some s"
| "mfold f (x # xs) s = do { s' \<leftarrow> f x s; mfold f xs s' }"

lemma mfold_pure [simp]: "mfold (\<lambda>x s. Some (f x s)) xs s = Some (fold f xs s)"
  by (induction xs arbitrary: s) auto

lemma mfold_append: "mfold f (xs @ ys) s = do { s' \<leftarrow> mfold f xs s; mfold f ys s' }"
  by (induction xs arbitrary: s) (auto split: bind_splits)

lemma mfold_cong_set: "(\<And>x s. x \<in> set xs \<Longrightarrow> f x s = g x s) \<Longrightarrow> mfold f xs s = mfold g xs s"
  by (induction xs arbitrary: s) (auto cong: Option.bind_cong)

lemma for_upto_from:
  fixes step lim :: "'a::len word"
  defines "n \<equiv> (unat lim + unat step - 1) div unat step"
  assumes step: "0 < unat step" and fit: "unat lim + unat step \<le> 2 ^ LENGTH('a)" and k: "k \<le> n"
  shows "for_upto step lim body (of_nat k * step) s = mfold (\<lambda>k. body (of_nat k * step)) [k..<n] s"
  using k
proof (induction "n - k" arbitrary: k s rule: less_induct)
  case less
  have n: "n * unat step < unat lim + unat step"
    using roundup_less [OF step, of "unat lim"] unfolding roundup_def n_def .
  have "k * unat step \<le> n * unat step" using less.prems by (rule mult_le_mono1)
  then have "k * unat step < 2 ^ LENGTH('a)" using n fit by linarith
  then have u: "unat (of_nat k * step) = k * unat step"
    using unat_of_nat [of "k * unat step", where 'a = 'a] by simp
  have lt: "of_nat k * step < lim \<longleftrightarrow> k < n"
  proof
    assume "of_nat k * step < lim"
    then have "k * unat step < unat lim" using u by (simp add: word_less_nat_alt)
    also have "\<dots> \<le> n * unat step" using roundup_ge [OF step, of "unat lim"] unfolding roundup_def n_def .
    finally show "k < n" by (simp add: step)
  next
    assume "k < n"
    then have "Suc k * unat step \<le> n * unat step" by (intro mult_le_mono1) simp
    then have "k * unat step < unat lim" using n by simp
    then show "of_nat k * step < lim" using u by (simp add: word_less_nat_alt)
  qed
  show ?case
  proof (cases "k < n")
    case True
    have "for_upto step lim body (of_nat k * step + step) = mfold (\<lambda>k. body (of_nat k * step)) [Suc k..<n]"
      using less.hyps [of "Suc k"] True by (intro ext) (simp add: algebra_simps)
    then show ?thesis using True lt by (subst for_upto.simps) (simp add: upt_conv_Cons)
  next
    case False
    then show ?thesis using lt less.prems by (subst for_upto.simps) simp
  qed
qed

lemma for_upto_mfold:
  fixes step lim :: "'a::len word"
  assumes "0 < unat step" "unat lim + unat step \<le> 2 ^ LENGTH('a)"
  shows "for_upto step lim body 0 s =
    mfold (\<lambda>k. body (of_nat k * step)) [0..<(unat lim + unat step - 1) div unat step] s"
  using for_upto_from [OF assms, of 0] by simp

lemma mfold_inv:
  assumes "P 0 s" "\<And>k s. k < n \<Longrightarrow> P k s \<Longrightarrow> \<exists>s'. f k s = Some s' \<and> P (Suc k) s'"
  shows "\<exists>s'. mfold f [0..<n] s = Some s' \<and> P n s'"
  using assms
proof (induction n)
  case (Suc n)
  then obtain s' where "mfold f [0..<n] s = Some s'" "P n s'" by auto
  with Suc.prems(2) [of n s'] show ?case by (auto simp: mfold_append)
qed simp

text \<open>The invariant rule for counting loops: \<open>k\<close> rounds done, \<open>P k\<close> holds.\<close>

lemma for_upto_inv:
  fixes step lim :: "'a::len word"
  assumes "0 < unat step" "unat lim + unat step \<le> 2 ^ LENGTH('a)"
    and "n = (unat lim + unat step - 1) div unat step" "P 0 s"
    and "\<And>k s. k < n \<Longrightarrow> P k s \<Longrightarrow> \<exists>s'. body (of_nat k * step) s = Some s' \<and> P (Suc k) s'"
  shows "\<exists>s'. for_upto step lim body 0 s = Some s' \<and> P n s'"
  unfolding for_upto_mfold [OF assms(1,2)] assms(3) [symmetric]
  by (rule mfold_inv) (use assms(4,5) in auto)

lemma push_low_and: "take_bit k c = c \<Longrightarrow> push_bit k x AND c = (0 :: 'a::len word)"
proof (rule bit_word_eqI)
  fix n assume c: "take_bit k c = c"
  then have "bit c n \<longleftrightarrow> n < k \<and> bit c n" by (metis bit_take_bit_iff)
  then show "bit (push_bit k x AND c) n = bit (0 :: 'a word) n" by (auto simp: bit_simps)
qed

lemma unat_drop_bit: "unat (drop_bit n w :: 'a::len word) = unat w div 2 ^ n"
proof -
  have "unat (drop_bit n w) = drop_bit n (unat w)" by (rule unat_drop_bit_eq)
  then show ?thesis by (simp only: drop_bit_eq_div)
qed

lemma unat_ucast_mod: "unat (ucast (w :: 'a::len word) :: 'b::len word) = unat w mod 2 ^ LENGTH('b)"
  by (simp add: unsigned_ucast_eq take_bit_eq_mod)

lemma unat_ucast_small:
  "unat w < 2 ^ LENGTH('b) \<Longrightarrow> unat (ucast (w :: 'a::len word) :: 'b::len word) = unat w"
  by (simp add: unat_ucast_mod)

lemma unat_push_bit_small:
  "unat w * 2 ^ n < 2 ^ LENGTH('a) \<Longrightarrow> unat (push_bit n w :: 'a::len word) = unat w * 2 ^ n"
proof -
  assume b: "unat w * 2 ^ n < 2 ^ LENGTH('a)"
  have "unat (push_bit n w) = take_bit LENGTH('a) (push_bit n (unat w))" by (rule unsigned_push_bit_eq)
  then show ?thesis using b by (simp only: take_bit_eq_mod push_bit_eq_mult) simp
qed

lemma div_add_le: "0 < d \<Longrightarrow> (a + b) div d \<le> a div d + b div d + (1::nat)"
proof -
  assume d: "0 < d"
  have "a mod d + b mod d < 2 * d" using mod_less_divisor [OF d, of a] mod_less_divisor [OF d, of b] by linarith
  then have "(a mod d + b mod d) div d < 2" using d by (simp add: less_mult_imp_div_less)
  then show ?thesis by (subst div_add1_eq) simp
qed

lemma page_mask: "(4095 :: u64) = mask 12" "(4096 - 1 :: u64) = mask 12"
  by (simp_all add: mask_eq_exp_minus_1)

lemma page_or_iff: "(a OR b OR c) AND (4096 - 1) = (0 :: u64) \<longleftrightarrow> 4096 dvd unat a \<and> 4096 dvd unat b \<and> 4096 dvd unat c"
proof -
  have "(a OR b OR c) AND (4096 - 1) = (a AND mask 12) OR (b AND mask 12) OR (c AND mask 12)"
    unfolding page_mask by (simp add: bit.conj_disj_distrib2)
  then show ?thesis by (simp add: word_or_zero_iff dvd_mask_iff del: take_bit_eq_mask)
qed

lemma page_iff: "a AND (4096 - 1) = (0 :: u64) \<longleftrightarrow> 4096 dvd unat a"
  using page_or_iff [of a 0 0] by simp

lemma unat_mult_small: "unat a * unat b < 2 ^ LENGTH('a) \<Longrightarrow> unat (a * b) = unat a * unat (b :: 'a::len word)"
  by (simp add: unat_mult_lem)

lemma mfold_upt_Suc: "mfold f [Suc 0..<Suc n] s = mfold (\<lambda>k. f (Suc k)) [0..<n] s"
proof -
  have "mfold f (map Suc xs) s = mfold (\<lambda>k. f (Suc k)) xs s" for xs
    by (induction xs arbitrary: s) (auto cong: Option.bind_cong)
  then show ?thesis by (metis map_Suc_upt)
qed

end
