(* ===== verification/Mmio.thy ===== *)
theory Mmio
  imports Prelude
begin

text \<open>
  \<open>nv_mmio_t\<close> of \<open>driver/gsp/falcon.h\<close>: the callbacks through which all
  hardware access goes.  The hardware is not part of the program, so its state is a type
  variable \<open>'w\<close> and the callbacks are functions on it; a read may change the state (a
  register that clears on read, time passing).  The log callback has no effect the program can see
  and is left out.
\<close>

record 'w mmio =
  io_rd :: "u32 \<Rightarrow> 'w \<Rightarrow> u32 \<times> 'w"
  io_wr :: "u32 \<Rightarrow> u32 \<Rightarrow> 'w \<Rightarrow> 'w"
  io_udelay :: "u32 \<Rightarrow> 'w \<Rightarrow> 'w"

text \<open>
  The order in which registers are written is what the hardware sees of the program.  A logged
  port is a port whose state remembers the writes; any port becomes one with \<open>traced\<close>, which
  pairs the hardware state with the list of writes so far and changes nothing else.
\<close>

type_synonym reg_write = "u32 \<times> u32"

locale logged_port =
  fixes io :: "'w mmio" and wlog :: "'w \<Rightarrow> reg_write list"
  assumes log_rd: "io_rd io r w = (v, w') \<Longrightarrow> wlog w' = wlog w"
    and log_wr: "wlog (io_wr io r v w) = wlog w @ [(r, v)]"
    and log_udelay: "wlog (io_udelay io d w) = wlog w"
begin

lemmas log_simps = log_wr log_udelay

lemma log_rd_snd: "wlog (snd (io_rd io r w)) = wlog w"
  by (metis log_rd prod.collapse)

end

definition traced :: "'w mmio \<Rightarrow> ('w \<times> reg_write list) mmio" where
  "traced io = \<lparr> io_rd = (\<lambda>r (w, l). let (v, w) = io_rd io r w in (v, (w, l))),
                 io_wr = (\<lambda>r v (w, l). (io_wr io r v w, l @ [(r, v)])),
                 io_udelay = (\<lambda>d (w, l). (io_udelay io d w, l)) \<rparr>"

interpretation tr: logged_port "traced io" snd for io :: "'w mmio"
  by unfold_locales (auto simp: traced_def Let_def split: prod.splits)

end
