(* ===== verification/Bytes.thy ===== *)
theory Bytes
  imports Prelude
begin

text \<open>
  Read-over-write lemmas for byte buffers, and the block of field stores that every message
  builder of the driver consists of.
\<close>

section \<open>Fields of a buffer\<close>

definition fld :: "'a list \<Rightarrow> nat \<Rightarrow> nat \<Rightarrow> 'a list" where
  "fld b i n = take n (drop i b)"

lemma length_fld [simp]: "i + n \<le> length b \<Longrightarrow> length (fld b i n) = n"
  by (simp add: fld_def)

lemma nth_fld: "k < n \<Longrightarrow> i + n \<le> length b \<Longrightarrow> fld b i n ! k = b ! (i + k)"
  by (simp add: fld_def)

lemma fld_0 [simp]: "fld b i 0 = []" "fld b 0 (length b) = b"
  by (simp_all add: fld_def)

lemma fld_eqI:
  "i + n \<le> length b \<Longrightarrow> length xs = n \<Longrightarrow> (\<And>k. k < n \<Longrightarrow> b ! (i + k) = xs ! k) \<Longrightarrow> fld b i n = xs"
  by (rule nth_equalityI) (simp_all add: nth_fld)

lemma fld_splice_same: "i + length xs \<le> length b \<Longrightarrow> fld (splice b i xs) i (length xs) = xs"
  by (rule fld_eqI) (auto simp: nth_splice)

lemma fld_splice_disj:
  "i + length xs \<le> length b \<Longrightarrow> j + n \<le> i \<or> i + length xs \<le> j \<Longrightarrow> fld (splice b i xs) j n = fld b j n"
proof (elim disjE)
  assume "i + length xs \<le> length b" "j + n \<le> i"
  then show ?thesis by (auto simp: fld_def splice_def drop_take)
next
  assume a: "i + length xs \<le> length b" "i + length xs \<le> j"
  then have "drop j (splice b i xs) = drop j b" by (simp add: splice_def)
  then show ?thesis by (simp add: fld_def)
qed

lemma fld_splice_inside:
  "i + length xs \<le> length b \<Longrightarrow> i \<le> j \<Longrightarrow> j + n \<le> i + length xs \<Longrightarrow>
   fld (splice b i xs) j n = fld xs (j - i) n"
  by (rule fld_eqI) (auto simp: nth_splice nth_fld)

lemma fld_splice_around:
  "i + length xs \<le> length b \<Longrightarrow> j \<le> i \<Longrightarrow> i + length xs \<le> j + n \<Longrightarrow> j + n \<le> length b \<Longrightarrow>
   fld (splice b i xs) j n = splice (fld b j n) (i - j) xs"
  by (rule fld_eqI) (auto simp: nth_splice nth_fld add.commute)

lemma fld_replicate: "i + n \<le> m \<Longrightarrow> fld (replicate m x) i n = replicate n x"
  by (rule fld_eqI) auto

lemma fld_fld: "i + n \<le> m \<Longrightarrow> fld (fld b j m) i n = fld b (j + i) n"
  by (simp add: fld_def drop_take add.commute)

lemma splice_splice_inside:
  "i + length xs \<le> length b \<Longrightarrow> j + length ys \<le> length xs \<Longrightarrow>
   splice (splice b i xs) (i + j) ys = splice b i (splice xs j ys)"
  by (rule nth_equalityI) (auto simp: nth_splice)

lemma rd_bytes_fld: "i + n \<le> length b \<Longrightarrow> rd_bytes b i n = Some (fld b i n)"
  by (simp add: rd_bytes_def fld_def)

lemma wr_bytes_ok [simp]: "i + length xs \<le> length b \<Longrightarrow> wr_bytes b i xs = Some (splice b i xs)"
  by (simp add: wr_bytes_def)

section \<open>Words and their bytes\<close>

lemma bytes32_le32: "bytes32 (le32 a b c d) = [a, b, c, d]"
  by (auto simp: bytes32_def le32_def intro!: bit_word_eqI) (auto simp: bit_simps dest: bit_imp_le_length)

lemma le32_bytes32: "le32 (ucast v) (ucast (drop_bit 8 v)) (ucast (drop_bit 16 v)) (ucast (drop_bit 24 v)) = v"
proof (rule bit_word_eqI)
  fix n assume "n < LENGTH(32)"
  then have n: "n < 8 \<or> 8 \<le> n \<and> n < 16 \<or> 16 \<le> n \<and> n < 24 \<or> 24 \<le> n \<and> n < 32" by auto
  then show "bit (le32 (ucast v) (ucast (drop_bit 8 v)) (ucast (drop_bit 16 v)) (ucast (drop_bit 24 v))) n = bit v n"
    by (elim disjE) (auto simp: le32_def bit_simps)
qed

lemma bytes32_inj [simp]: "bytes32 x = bytes32 y \<longleftrightarrow> x = y"
proof
  have get: "le32 (bytes32 z ! 0) (bytes32 z ! 1) (bytes32 z ! 2) (bytes32 z ! 3) = z" for z
    using le32_bytes32 [of z] by (simp only: bytes32_def) simp
  assume "bytes32 x = bytes32 y"
  then show "x = y" using get [of x] get [of y] by simp
qed simp

lemma fld4: "i + 4 \<le> length b \<Longrightarrow> fld b i 4 = [b ! i, b ! (i + 1), b ! (i + 2), b ! (i + 3)]"
  by (rule fld_eqI) (auto simp: less_Suc_eq numeral_eq_Suc)

lemma ld32_iff: "ld32 b i = Some v \<longleftrightarrow> i + 4 \<le> length b \<and> fld b i 4 = bytes32 v"
proof (cases "i + 4 \<le> length b")
  case True
  have "fld b i 4 = bytes32 v \<longleftrightarrow> bytes32 (le32 (b ! i) (b ! (i + 1)) (b ! (i + 2)) (b ! (i + 3))) = bytes32 v"
    unfolding fld4 [OF True] bytes32_le32 ..
  then have "fld b i 4 = bytes32 v \<longleftrightarrow> le32 (b ! i) (b ! (i + 1)) (b ! (i + 2)) (b ! (i + 3)) = v"
    by (simp only: bytes32_inj)
  then show ?thesis using True by (simp only: ld32_Some [OF True] option.inject simp_thms)
next
  case False
  then show ?thesis by (auto simp: ld32_def rd8_def split: bind_splits if_splits)
qed

lemma ld32_fldD: "fld b i 4 = bytes32 v \<Longrightarrow> i + 4 \<le> length b \<Longrightarrow> ld32 b i = Some v"
  by (simp only: ld32_iff simp_thms)

lemma fld_sub: "fld b' q m = fld b q m \<Longrightarrow> j + n \<le> m \<Longrightarrow> fld b' (q + j) n = fld b (q + j) n"
  using fld_fld [of j n m b q] fld_fld [of j n m b' q] by simp

lemma ld32_cong: "fld b' i 4 = fld b i 4 \<Longrightarrow> length b' = length b \<Longrightarrow> ld32 b' i = ld32 b i"
proof -
  assume "fld b' i 4 = fld b i 4" "length b' = length b"
  then have "ld32 b' i = Some v \<longleftrightarrow> ld32 b i = Some v" for v unfolding ld32_iff by simp
  then show ?thesis by (metis not_Some_eq)
qed

lemma bytes64_halves: "bytes64 v = bytes32 (ucast v) @ bytes32 (ucast (drop_bit 32 v))"
proof -
  have "[0..<8] = [0, 1, 2, 3, 4, 5, 6, 7 :: nat]" by (simp add: upt_rec)
  then show ?thesis
    by (auto simp: bytes64_def bytes32_def intro!: bit_word_eqI) (auto simp: bit_simps)
qed

lemma join_w64_halves: "ucast (ucast v :: u32) OR push_bit 32 (ucast (ucast (drop_bit 32 v) :: u32)) = (v :: u64)"
proof (rule bit_word_eqI)
  fix n assume "n < LENGTH(64)"
  then have "n < 32 \<or> 32 \<le> n \<and> n < 64" by auto
  then show "bit (ucast (ucast v :: u32) OR push_bit 32 (ucast (ucast (drop_bit 32 v) :: u32)) :: u64) n = bit v n"
    by (elim disjE) (auto simp: bit_simps)
qed

lemma fld_append_split: "fld b i (m + n) = fld b i m @ fld b (i + m) n"
  by (simp add: fld_def take_add add.commute)

lemma split_halves:
  "ucast (ucast lo OR push_bit 32 (ucast hi) :: u64) = (lo :: u32)"
  "ucast (drop_bit 32 (ucast lo OR push_bit 32 (ucast hi) :: u64)) = (hi :: u32)"
  by (rule bit_word_eqI, auto simp: bit_simps dest: bit_imp_le_length)+

lemma ld64_iff: "ld64 b i = Some v \<longleftrightarrow> i + 8 \<le> length b \<and> fld b i 8 = bytes64 v"
proof (cases "i + 8 \<le> length b")
  case True
  obtain lo where lo: "ld32 b i = Some lo" using True by simp
  obtain hi where hi: "ld32 b (i + 4) = Some hi" using True by simp
  have "fld b i 8 = fld b i 4 @ fld b (i + 4) 4" using fld_append_split [of b i 4 4] by simp
  then have f: "fld b i 8 = bytes32 lo @ bytes32 hi" using lo hi by (simp add: ld32_iff)
  have v: "ld64 b i = Some (ucast lo OR push_bit 32 (ucast hi))" by (simp add: ld64_def lo hi)
  have "bytes32 lo @ bytes32 hi = bytes32 (ucast v) @ bytes32 (ucast (drop_bit 32 v))
      \<longleftrightarrow> lo = ucast v \<and> hi = ucast (drop_bit 32 v)" by simp
  also have "\<dots> \<longleftrightarrow> ucast lo OR push_bit 32 (ucast hi) = v"
    using split_halves [of lo hi] join_w64_halves [of v] by metis
  finally show ?thesis unfolding f bytes64_halves v using True by simp
next
  case False
  then have "ld32 b (i + 4) = None" using ld32_iff [of b "i + 4"] by (cases "ld32 b (i + 4)") auto
  then show ?thesis using False by (auto simp: ld64_def split: bind_splits)
qed

lemma bytes64_inj [simp]: "bytes64 x = bytes64 y \<longleftrightarrow> x = y"
  using ld64_iff [of "bytes64 x" 0 x] ld64_iff [of "bytes64 x" 0 y] by (auto simp: fld_def)

lemma st32_ok [simp]: "i + 4 \<le> length b \<Longrightarrow> st32 b i v = Some (splice b i (bytes32 v))"
  by (simp add: st32_def)

lemma st64_ok [simp]: "i + 8 \<le> length b \<Longrightarrow> st64 b i v = Some (splice b i (bytes64 v))"
  by (simp add: st64_def)

lemma bytes_0 [simp]: "bytes32 0 = replicate 4 0" "bytes64 0 = replicate 8 0"
  by (simp_all add: bytes32_def bytes64_halves numeral_eq_Suc)

section \<open>A block of field stores\<close>

text \<open>
  The builders of the driver clear a buffer and then store fields at fixed offsets
  (\<open>st32(p + OFF, v)\<close>, \<open>st64(p + OFF, v)\<close>, \<open>p[OFF] = v\<close>).  \<open>stores\<close> runs such a block in order.
\<close>

datatype cell = B8 u8 | W32 u32 | W64 u64

primrec cell_bytes :: "cell \<Rightarrow> u8 list" where
  "cell_bytes (B8 v) = [v]"
| "cell_bytes (W32 v) = bytes32 v"
| "cell_bytes (W64 v) = bytes64 v"

primrec stores :: "u8 list \<Rightarrow> nat \<Rightarrow> (nat \<times> cell) list \<Rightarrow> u8 list option" where
  "stores b p [] = Some b"
| "stores b p (f # fs) = do { b \<leftarrow> wr_bytes b (p + fst f) (cell_bytes (snd f)); stores b p fs }"

definition cell_end :: "nat \<times> cell \<Rightarrow> nat" where
  "cell_end f = fst f + length (cell_bytes (snd f))"

lemma cell_end_simps [simp]:
  "cell_end (o', B8 v) = o' + 1" "cell_end (o', W32 w) = o' + 4" "cell_end (o', W64 x) = o' + 8"
  by (simp_all add: cell_end_def)

text \<open>The fields of a block lie in \<open>lim\<close> bytes and none of them overlaps a later one.\<close>

primrec cells_ok :: "nat \<Rightarrow> (nat \<times> cell) list \<Rightarrow> bool" where
  "cells_ok lim [] \<longleftrightarrow> True"
| "cells_ok lim (f # fs) \<longleftrightarrow> cell_end f \<le> lim \<and>
     list_all (\<lambda>g. cell_end f \<le> fst g \<or> cell_end g \<le> fst f) fs \<and> cells_ok lim fs"

lemma stores_frame:
  "stores b p fs = Some b' \<Longrightarrow> \<forall>f\<in>set fs. p + cell_end f \<le> j \<or> j + n \<le> p + fst f \<Longrightarrow>
   length b' = length b \<and> fld b' j n = fld b j n"
proof (induction fs arbitrary: b)
  case (Cons f fs)
  then obtain b1 where b1: "wr_bytes b (p + fst f) (cell_bytes (snd f)) = Some b1" "stores b1 p fs = Some b'"
    by (auto split: bind_splits)
  then have s: "p + fst f + length (cell_bytes (snd f)) \<le> length b" "b1 = splice b (p + fst f) (cell_bytes (snd f))"
    by (simp_all add: wr_bytes_Some_iff)
  have "fld b1 j n = fld b j n"
    unfolding s(2) using Cons.prems(2) s(1) by (intro fld_splice_disj) (auto simp: cell_end_def)
  then show ?case using Cons.IH [OF b1(2)] Cons.prems(2) s by simp
qed simp

lemma stores_total: "list_all (\<lambda>f. p + cell_end f \<le> length b) fs \<Longrightarrow> \<exists>b'. stores b p fs = Some b'"
  by (induction fs arbitrary: b) (auto simp: cell_end_def add.assoc)

lemma cells_ok_ends: "cells_ok lim fs \<Longrightarrow> f \<in> set fs \<Longrightarrow> cell_end f \<le> lim"
  by (induction fs) auto

lemma stores_fields:
  "stores b p fs = Some b' \<Longrightarrow> cells_ok lim fs \<Longrightarrow> (o', c) \<in> set fs \<Longrightarrow>
   fld b' (p + o') (length (cell_bytes c)) = cell_bytes c"
proof (induction fs arbitrary: b)
  case (Cons f fs)
  then obtain b1 where b1: "wr_bytes b (p + fst f) (cell_bytes (snd f)) = Some b1" "stores b1 p fs = Some b'"
    by (auto split: bind_splits)
  then have s: "p + fst f + length (cell_bytes (snd f)) \<le> length b" "b1 = splice b (p + fst f) (cell_bytes (snd f))"
    by (simp_all add: wr_bytes_Some_iff)
  show ?case
  proof (cases "(o', c) \<in> set fs")
    case True
    then show ?thesis using Cons.IH [OF b1(2)] Cons.prems(2) by simp
  next
    case False
    then have f: "f = (o', c)" using Cons.prems(3) by simp
    have "fld b' (p + o') (length (cell_bytes c)) = fld b1 (p + o') (length (cell_bytes c))"
      using stores_frame [OF b1(2), of "p + o'" "length (cell_bytes c)"] Cons.prems(2) f
      by (auto simp: cell_end_def list_all_iff)
    also have "\<dots> = cell_bytes c" unfolding s(2) f using s(1) f by (simp add: fld_splice_same)
    finally show ?thesis .
  qed
qed simp

text \<open>What a block of stores does, in one statement.\<close>

lemma stores_spec:
  assumes "cells_ok lim fs" "p + lim \<le> length b"
  obtains b' where "stores b p fs = Some b'" "length b' = length b"
    "\<And>o' c. (o', c) \<in> set fs \<Longrightarrow> fld b' (p + o') (length (cell_bytes c)) = cell_bytes c"
    "\<And>j n. j + n \<le> p \<or> p + lim \<le> j \<Longrightarrow> fld b' j n = fld b j n"
    "\<And>j n. \<forall>f\<in>set fs. p + cell_end f \<le> j \<or> j + n \<le> p + fst f \<Longrightarrow> fld b' j n = fld b j n"
proof -
  have ends: "cell_end f \<le> lim" if "f \<in> set fs" for f using cells_ok_ends [OF assms(1) that] .
  have "\<forall>f\<in>set fs. p + cell_end f \<le> length b"
    using ends assms(2) by (meson add_left_mono order_trans)
  then obtain b' where b': "stores b p fs = Some b'"
    using stores_total [of p b fs] by (auto simp: list_all_iff)
  show thesis
  proof (rule that [OF b'])
    show "length b' = length b" using stores_frame [OF b', of 0 0] stores_frame [OF b', of "length b + p + lim" 0] ends
      by (metis add_leD2 le_add2 order_trans trans_le_add1 add.commute add_le_mono)
    show "fld b' (p + o') (length (cell_bytes c)) = cell_bytes c" if "(o', c) \<in> set fs" for o' c
      using stores_fields [OF b' assms(1) that] .
    show "fld b' j n = fld b j n" if "j + n \<le> p \<or> p + lim \<le> j" for j n
      using stores_frame [OF b', of j n] ends that by (meson add_le_cancel_left order_trans le_add1)
    show "fld b' j n = fld b j n" if "\<forall>f\<in>set fs. p + cell_end f \<le> j \<or> j + n \<le> p + fst f" for j n
      using stores_frame [OF b' that] by simp
  qed
qed

text \<open>Fields stored at consecutive offsets are one run of bytes.\<close>

primrec pack :: "nat \<Rightarrow> cell list \<Rightarrow> (nat \<times> cell) list" where
  "pack k [] = []"
| "pack k (c # cs) = (k, c) # pack (k + length (cell_bytes c)) cs"

lemma splice_splice_after:
  "i + length xs + length ys \<le> length b \<Longrightarrow> splice (splice b i xs) (i + length xs) ys = splice b i (xs @ ys)"
  by (rule nth_equalityI) (auto simp: nth_splice nth_append)

lemma stores_pack:
  "p + k + length (concat (map cell_bytes cs)) \<le> length b \<Longrightarrow>
   stores b p (pack k cs) = Some (splice b (p + k) (concat (map cell_bytes cs)))"
proof (induction cs arbitrary: b k)
  case Nil
  then show ?case by (simp add: splice_def)
next
  case (Cons c cs)
  let ?b = "splice b (p + k) (cell_bytes c)"
  have "stores ?b p (pack (k + length (cell_bytes c)) cs) =
      Some (splice ?b (p + (k + length (cell_bytes c))) (concat (map cell_bytes cs)))"
    using Cons.prems by (intro Cons.IH) simp
  moreover have "splice ?b (p + (k + length (cell_bytes c))) (concat (map cell_bytes cs)) =
      splice b (p + k) (cell_bytes c @ concat (map cell_bytes cs))"
    using splice_splice_after [of "p + k" "cell_bytes c" "concat (map cell_bytes cs)" b] Cons.prems
    by (simp add: add.assoc)
  ultimately show ?case using Cons.prems by simp
qed

section \<open>Total correctness of buffer code\<close>

text \<open>
  \<open>returns m Q\<close>: every access of \<open>m\<close> stays in its buffer, it ends, and its result satisfies
  \<open>Q\<close>.  The rules follow the shape of the code, so a parser's proof is the list of its bounds tests.
\<close>

definition returns :: "'r option \<Rightarrow> ('r \<Rightarrow> bool) \<Rightarrow> bool" where
  "returns m Q \<longleftrightarrow> (\<exists>r. m = Some r \<and> Q r)"

named_theorems ret_rules \<open>rules for total correctness, one per construct\<close>

lemma returnsD: "returns m Q \<Longrightarrow> \<exists>r. m = Some r \<and> Q r"
  by (simp add: returns_def)

lemma returns_mono: "returns m P \<Longrightarrow> (\<And>r. P r \<Longrightarrow> Q r) \<Longrightarrow> returns m Q"
  by (auto simp: returns_def)

lemma ret_Some [ret_rules]: "Q r \<Longrightarrow> returns (Some r) Q"
  by (simp add: returns_def)

lemma ret_if [ret_rules]: "(c \<Longrightarrow> returns a Q) \<Longrightarrow> (\<not> c \<Longrightarrow> returns b Q) \<Longrightarrow> returns (if c then a else b) Q"
  by simp

lemma ret_let [ret_rules]: "(\<And>x. x = v \<Longrightarrow> returns (f x) Q) \<Longrightarrow> returns (let x = v in f x) Q"
  by simp

lemma ret_rd8 [ret_rules]:
  "i < length b \<Longrightarrow> (\<And>v. v = b ! i \<Longrightarrow> returns (f v) Q) \<Longrightarrow> returns (rd8 b i \<bind> f) Q"
  by simp

lemma ret_ld16 [ret_rules]:
  "i + 2 \<le> length b \<Longrightarrow> (\<And>v. ld16 b i = Some v \<Longrightarrow> returns (f v) Q) \<Longrightarrow> returns (ld16 b i \<bind> f) Q"
  by simp

lemma ret_ld32 [ret_rules]:
  "i + 4 \<le> length b \<Longrightarrow> (\<And>v. ld32 b i = Some v \<Longrightarrow> returns (f v) Q) \<Longrightarrow> returns (ld32 b i \<bind> f) Q"
  by simp

lemma ret_ld64 [ret_rules]:
  "i + 8 \<le> length b \<Longrightarrow> (\<And>v. ld64 b i = Some v \<Longrightarrow> returns (f v) Q) \<Longrightarrow> returns (ld64 b i \<bind> f) Q"
  using ld64_ex [of i b] by auto

lemma ret_rd_bytes [ret_rules]:
  "i + n \<le> length b \<Longrightarrow> returns (f (fld b i n)) Q \<Longrightarrow> returns (rd_bytes b i n \<bind> f) Q"
  by (simp add: rd_bytes_fld)

lemma ret_wr_bytes [ret_rules]:
  "i + length xs \<le> length b \<Longrightarrow> returns (f (splice b i xs)) Q \<Longrightarrow> returns (wr_bytes b i xs \<bind> f) Q"
  by simp

lemma ret_st32 [ret_rules]:
  "i + 4 \<le> length b \<Longrightarrow> returns (f (splice b i (bytes32 v))) Q \<Longrightarrow> returns (st32 b i v \<bind> f) Q"
  by simp

lemma ret_bind: "returns m P \<Longrightarrow> (\<And>r. P r \<Longrightarrow> returns (f r) Q) \<Longrightarrow> returns (m \<bind> f) Q"
  by (auto simp: returns_def)

lemma ret_for_upto:
  fixes step lim :: "'a::len word"
  assumes "0 < unat step" "unat lim + unat step \<le> 2 ^ LENGTH('a)"
    and "n = (unat lim + unat step - 1) div unat step" "P 0 s"
    and "\<And>k s. k < n \<Longrightarrow> P k s \<Longrightarrow> returns (body (of_nat k * step) s) (P (Suc k))"
  shows "returns (for_upto step lim body 0 s) (P n)"
  unfolding returns_def by (rule for_upto_inv [OF assms(1-3)]) (use assms(4,5) in \<open>auto simp: returns_def\<close>)

section \<open>32-bit values in 64-bit arithmetic\<close>

lemma unat_widen: "unat (ucast (a :: u32) :: u64) = unat a"
  using u32_less [of a] by (simp add: unat_ucast_small)

lemma ucast_sum_less_iff:
  "(ucast (c :: u32) :: u64) < ucast (a :: u32) + ucast (b :: u32) \<longleftrightarrow> unat c < unat a + unat b"
  using u32_less [of a] u32_less [of b] by (simp add: word_less_nat_alt unat_add_small unat_widen)

section \<open>Buffers of words\<close>

definition words :: "u32 list \<Rightarrow> u8 list" where
  "words ws = concat (map bytes32 ws)"

lemma words_simps [simp]: "words [] = []" "words (w # ws) = bytes32 w @ words ws"
  by (simp_all add: words_def)

lemma length_words [simp]: "length (words ws) = 4 * length ws"
  by (induction ws) simp_all

lemma drop_words: "drop (4 * k) (words ws) = words (drop k ws)"
proof (induction k arbitrary: ws)
  case (Suc k)
  show ?case
  proof (cases ws)
    case (Cons w ws')
    have "drop (4 * Suc k) (words ws) = drop (4 * k) (drop 4 (words ws))" by (simp add: drop_drop add.commute)
    then show ?thesis using Suc.IH [of ws'] by (simp add: Cons)
  qed simp
qed simp

lemma fld_words: "k < length ws \<Longrightarrow> fld (words ws) (4 * k) 4 = bytes32 (ws ! k)"
  using nth_via_drop [of k ws] by (cases "drop k ws") (simp_all add: fld_def drop_words)

lemma ld32_words: "i mod 4 = 0 \<Longrightarrow> i div 4 < length ws \<Longrightarrow> ld32 (words ws) i = Some (ws ! (i div 4))"
  using fld_words [of "i div 4" ws] by (intro ld32_fldD) (auto simp: mult.commute mult_div_mod_eq div_mult_mod_eq)

section \<open>Search loops\<close>

text \<open>\<open>for (i = 0; i < lim; i++)\<close> whose body either continues (\<^const>\<open>None\<close>) or returns a value.\<close>

partial_function (option) find_upto ::
  "'a::len word \<Rightarrow> ('a word \<Rightarrow> 'r option option) \<Rightarrow> 'a word \<Rightarrow> 'r option option" where
  "find_upto lim body i =
     (if i < lim then do { r \<leftarrow> body i; case r of Some x \<Rightarrow> Some (Some x) | None \<Rightarrow> find_upto lim body (i + 1) }
      else Some None)"

declare find_upto.simps [code]

lemma ret_find_upto_from:
  fixes lim :: "'a::len word"
  assumes "\<And>k. k < unat lim \<Longrightarrow> (\<And>j. j < k \<Longrightarrow> P j) \<Longrightarrow>
      returns (body (of_nat k)) (\<lambda>r. case r of None \<Rightarrow> P k | Some x \<Rightarrow> Q k x)"
    and "j \<le> unat lim" "\<And>k. k < j \<Longrightarrow> P k"
  shows "returns (find_upto lim body (of_nat j)) (\<lambda>r. case r of None \<Rightarrow> \<forall>k < unat lim. P k
           | Some x \<Rightarrow> \<exists>k < unat lim. (\<forall>j < k. P j) \<and> Q k x)"
  using assms(2,3)
proof (induction "unat lim - j" arbitrary: j)
  case 0
  then have "of_nat j = lim" by (metis diff_is_0_eq' le_antisym of_nat_unat ucast_id diff_diff_cancel minus_nat.diff_0)
  then show ?case using 0 by (subst find_upto.simps) (simp add: returns_def)
next
  case (Suc m)
  then have j: "j < unat lim" by simp
  then have uj: "unat (of_nat j :: 'a word) = j" by (meson unat_of_nat_small less_trans unsigned_less)
  obtain r where r: "body (of_nat j) = Some r" "case r of None \<Rightarrow> P j | Some x \<Rightarrow> Q j x"
    using assms(1) [OF j Suc.prems(2)] by (auto simp: returns_def)
  show ?case
  proof (cases r)
    case None
    have "returns (find_upto lim body (of_nat (Suc j))) (\<lambda>r. case r of None \<Rightarrow> \<forall>k < unat lim. P k
           | Some x \<Rightarrow> \<exists>k < unat lim. (\<forall>j < k. P j) \<and> Q k x)"
      using Suc r None j by (intro Suc.hyps(1)) (auto simp: less_Suc_eq)
    then show ?thesis using r None j uj by (subst find_upto.simps) (simp add: word_less_nat_alt add.commute)
  next
    case (Some x)
    then show ?thesis using r j uj Suc.prems by (subst find_upto.simps) (auto simp: returns_def word_less_nat_alt)
  qed
qed

lemma ret_find_upto:
  fixes lim :: "'a::len word"
  assumes "\<And>k. k < unat lim \<Longrightarrow> (\<And>j. j < k \<Longrightarrow> P j) \<Longrightarrow>
      returns (body (of_nat k)) (\<lambda>r. case r of None \<Rightarrow> P k | Some x \<Rightarrow> Q k x)"
  shows "returns (find_upto lim body 0) (\<lambda>r. case r of None \<Rightarrow> \<forall>k < unat lim. P k
           | Some x \<Rightarrow> \<exists>k < unat lim. (\<forall>j < k. P j) \<and> Q k x)"
  using ret_find_upto_from [where j = 0 and body = body and P = P and Q = Q] assms by simp

end
