(* ===== verification/Vram.thy ===== *)
theory Vram
  imports Prelude
begin

text \<open>
  \<open>driver/gsp/vram.c\<close>: accounting of the VRAM ranges the driver owns.
  \<open>nv_vram_find_range\<close> picks one range out of a list of free spans that avoids a list of
  excluded ones; the pool hands out numbered allocations inside one owned range.
  Both searches share one loop (\<open>gap_scan\<close>): try a candidate, jump past the blockers it
  hits, round up, repeat.  The locale \<open>gap_search\<close> states what the loop needs and proves
  that it ends and that it finds the lowest free aligned place, if there is one.
\<close>

section \<open>Data\<close>

abbreviation NV_VRAM_PAGE_BYTES :: u64 where "NV_VRAM_PAGE_BYTES \<equiv> 4096"
abbreviation NV_VRAM_MAX_ALLOCS :: nat where "NV_VRAM_MAX_ALLOCS \<equiv> 128"
abbreviation UINT64_MAX :: u64 where "UINT64_MAX \<equiv> 0xFFFFFFFFFFFFFFFF"

record nv_vram_span =
  sp_base :: u64
  sp_size :: u64

record nv_vram_allocation =
  al_handle :: u64
  al_offset :: u64
  al_size :: u64

record nv_vram_pool =
  pl_phys :: u64
  pl_va :: u64
  pl_size :: u64
  pl_used :: u64
  pl_next_handle :: u64
  pl_allocations :: "nv_vram_allocation list"

section \<open>Operations\<close>

definition span_valid :: "u64 \<Rightarrow> u64 \<Rightarrow> bool" where
  "span_valid base sz \<longleftrightarrow> sz \<noteq> 0 \<and> sz \<le> UINT64_MAX - base"

definition alignment_valid :: "u64 \<Rightarrow> bool" where
  "alignment_valid al \<longleftrightarrow> NV_VRAM_PAGE_BYTES \<le> al \<and> al AND (al - 1) = 0"

definition align_up :: "u64 \<Rightarrow> u64 \<Rightarrow> u64 option" where
  "align_up v al =
     (if v > UINT64_MAX - (al - 1) then None else Some ((v + al - 1) AND NOT (al - 1)))"

text \<open>
  The search loop \<open>while (candidate <= end && bytes <= end - candidate)\<close>.  \<open>nxt\<close> is the
  inner loop over the blockers, \<open>step\<close> the rounding that yields the next candidate.
  The outer \<^const>\<open>None\<close> stands for a loop that does not end.
\<close>

partial_function (option) gap_scan ::
  "(u64 \<Rightarrow> u64) \<Rightarrow> (u64 \<Rightarrow> u64 option) \<Rightarrow> u64 \<Rightarrow> u64 \<Rightarrow> u64 \<Rightarrow> u64 option option" where
  "gap_scan nxt step bytes limit candidate =
     (if candidate \<le> limit \<and> bytes \<le> limit - candidate then
        let next = nxt candidate in
        if next = candidate then Some (Some candidate)
        else case step next of
               None \<Rightarrow> Some None
             | Some c \<Rightarrow> gap_scan nxt step bytes limit c
      else Some None)"

definition excluded_next :: "nv_vram_span list \<Rightarrow> u64 \<Rightarrow> u64 \<Rightarrow> u64" where
  "excluded_next excluded bytes candidate =
     fold (\<lambda>e next. let ex_end = sp_base e + sp_size e in
             if candidate < ex_end \<and> sp_base e < candidate + bytes \<and> ex_end > next
             then ex_end else next) excluded candidate"

fun find_range_in ::
  "nv_vram_span list \<Rightarrow> nv_vram_span list \<Rightarrow> u64 \<Rightarrow> u64 \<Rightarrow> (int \<times> nv_vram_span) option" where
  "find_range_in [] excluded bytes al = Some (-2, \<lparr>sp_base = 0, sp_size = 0\<rparr>)"
| "find_range_in (a # rest) excluded bytes al =
     (case align_up (sp_base a) al of
        None \<Rightarrow> find_range_in rest excluded bytes al
      | Some candidate \<Rightarrow>
          do { r \<leftarrow> gap_scan (excluded_next excluded bytes) (\<lambda>next. align_up next al) bytes
                      (sp_base a + sp_size a) candidate;
               case r of
                 Some c \<Rightarrow> Some (0, \<lparr>sp_base = c, sp_size = bytes\<rparr>)
               | None \<Rightarrow> find_range_in rest excluded bytes al })"

definition nv_vram_find_range ::
  "nv_vram_span list \<Rightarrow> nv_vram_span list \<Rightarrow> u64 \<Rightarrow> u64 \<Rightarrow> (int \<times> nv_vram_span) option" where
  "nv_vram_find_range available excluded bytes al =
     (if available = [] \<or> bytes = 0 \<or> \<not> alignment_valid al
         \<or> bytes AND (NV_VRAM_PAGE_BYTES - 1) \<noteq> 0
      then Some (-1, \<lparr>sp_base = 0, sp_size = 0\<rparr>)
      else if \<exists>a \<in> set available. \<not> span_valid (sp_base a) (sp_size a)
      then Some (-1, \<lparr>sp_base = 0, sp_size = 0\<rparr>)
      else if \<exists>e \<in> set excluded. \<not> span_valid (sp_base e) (sp_size e)
      then Some (-1, \<lparr>sp_base = 0, sp_size = 0\<rparr>)
      else find_range_in available excluded bytes al)"

abbreviation no_allocation :: nv_vram_allocation where
  "no_allocation \<equiv> \<lparr>al_handle = 0, al_offset = 0, al_size = 0\<rparr>"

definition nv_vram_pool_init ::
  "nv_vram_pool \<Rightarrow> u64 \<Rightarrow> u64 \<Rightarrow> u64 \<Rightarrow> int \<times> nv_vram_pool" where
  "nv_vram_pool_init p phys va sz =
     (if (phys OR va OR sz) AND (NV_VRAM_PAGE_BYTES - 1) \<noteq> 0
         \<or> \<not> span_valid phys sz \<or> \<not> span_valid va sz
      then (-1, p)
      else (0, \<lparr>pl_phys = phys, pl_va = va, pl_size = sz, pl_used = 0, pl_next_handle = 1,
                pl_allocations = replicate NV_VRAM_MAX_ALLOCS no_allocation\<rparr>))"

text \<open>First entry of the table whose handle is \<open>h\<close>; the table's length if there is none.\<close>

definition entry_index :: "nv_vram_allocation list \<Rightarrow> u64 \<Rightarrow> nat" where
  "entry_index as h = length (takeWhile (\<lambda>a. al_handle a \<noteq> h) as)"

definition alloc_next :: "nv_vram_allocation list \<Rightarrow> u64 \<Rightarrow> u64 \<Rightarrow> u64" where
  "alloc_next as bytes candidate =
     fold (\<lambda>a next.
             if al_handle a \<noteq> 0 \<and> candidate < al_offset a + al_size a
                \<and> al_offset a < candidate + bytes \<and> al_offset a + al_size a > next
             then al_offset a + al_size a else next) as candidate"

definition va_step :: "u64 \<Rightarrow> u64 \<Rightarrow> u64 \<Rightarrow> u64 option" where
  "va_step va al off = (case align_up (va + off) al of None \<Rightarrow> None | Some a \<Rightarrow> Some (a - va))"

definition nv_vram_alloc ::
  "nv_vram_pool \<Rightarrow> u64 \<Rightarrow> u64 \<Rightarrow> (int \<times> u64 \<times> nv_vram_pool) option" where
  "nv_vram_alloc p bytes0 al =
     (if pl_size p = 0 \<or> bytes0 = 0 \<or> \<not> alignment_valid al then Some (-1, 0, p)
      else case align_up bytes0 NV_VRAM_PAGE_BYTES of
        None \<Rightarrow> Some (-1, 0, p)
      | Some bytes \<Rightarrow>
          if pl_next_handle p = 0 \<or> pl_next_handle p = UINT64_MAX \<or> pl_used p > pl_size p
             \<or> bytes > pl_size p - pl_used p
          then Some (-2, 0, p)
          else let slot = entry_index (pl_allocations p) 0 in
          if slot = NV_VRAM_MAX_ALLOCS then Some (-2, 0, p)
          else case va_step (pl_va p) al 0 of
            None \<Rightarrow> Some (-2, 0, p)
          | Some candidate \<Rightarrow>
              do { r \<leftarrow> gap_scan (alloc_next (pl_allocations p) bytes) (va_step (pl_va p) al)
                          bytes (pl_size p) candidate;
                   case r of
                     None \<Rightarrow> Some (-2, 0, p)
                   | Some c \<Rightarrow>
                       Some (0, pl_next_handle p,
                         p\<lparr>pl_next_handle := pl_next_handle p + 1,
                           pl_allocations := (pl_allocations p)[slot :=
                             \<lparr>al_handle = pl_next_handle p, al_offset = c, al_size = bytes\<rparr>],
                           pl_used := pl_used p + bytes\<rparr>) })"

definition nv_vram_free :: "nv_vram_pool \<Rightarrow> u64 \<Rightarrow> int \<times> nv_vram_pool" where
  "nv_vram_free p h =
     (if h = 0 then (-1, p)
      else let i = entry_index (pl_allocations p) h in
           if i < NV_VRAM_MAX_ALLOCS
           then (0, p\<lparr>pl_used := pl_used p - al_size (pl_allocations p ! i),
                      pl_allocations := (pl_allocations p)[i := no_allocation]\<rparr>)
           else (-1, p))"

definition nv_vram_resolve ::
  "nv_vram_pool \<Rightarrow> u64 \<Rightarrow> u64 \<Rightarrow> u64 \<Rightarrow> int \<times> u64 \<times> u64" where
  "nv_vram_resolve p h off bytes =
     (if h = 0 \<or> bytes = 0 then (-1, 0, 0)
      else let i = entry_index (pl_allocations p) h in
           if i < NV_VRAM_MAX_ALLOCS
           then let a = pl_allocations p ! i in
                if off > al_size a \<or> bytes > al_size a - off then (-1, 0, 0)
                else (0, pl_phys p + al_offset a + off, pl_va p + al_offset a + off)
           else (-1, 0, 0))"

section \<open>The search loop\<close>

text \<open>
  Blockers are half-open intervals of naturals.  \<open>free_at\<close> says that the block of
  \<open>n\<close> bytes at \<open>c\<close> meets none of them.
\<close>

definition free_at :: "(nat \<times> nat) list \<Rightarrow> nat \<Rightarrow> nat \<Rightarrow> bool" where
  "free_at blk n c \<longleftrightarrow> (\<forall>(s, e) \<in> set blk. c + n \<le> s \<or> e \<le> c)"

locale gap_search =
  fixes nxt :: "'x \<Rightarrow> u64 \<Rightarrow> u64" and step :: "'x \<Rightarrow> u64 \<Rightarrow> u64 option"
    and bytes :: "'x \<Rightarrow> u64" and limit :: "'x \<Rightarrow> u64"
    and aligned :: "'x \<Rightarrow> nat \<Rightarrow> bool" and blk :: "'x \<Rightarrow> (nat \<times> nat) list" and ok :: "'x \<Rightarrow> bool"
  assumes nxt_free: "\<lbrakk>ok x; unat c + unat (bytes x) \<le> unat (limit x); nxt x c = c\<rbrakk> \<Longrightarrow> free_at (blk x) (unat (bytes x)) (unat c)"
    and nxt_skip: "\<lbrakk>ok x; unat c + unat (bytes x) \<le> unat (limit x); nxt x c \<noteq> c\<rbrakk> \<Longrightarrow>
          \<exists>s. (s, unat (nxt x c)) \<in> set (blk x) \<and> s < unat c + unat (bytes x) \<and> unat c < unat (nxt x c)"
    and step_Some: "\<lbrakk>ok x; (s, unat n) \<in> set (blk x); step x n = Some c\<rbrakk> \<Longrightarrow>
          unat n \<le> unat c \<and> aligned x (unat c) \<and> (\<forall>y. unat n \<le> y \<and> aligned x y \<longrightarrow> unat c \<le> y)"
    and step_None: "\<lbrakk>ok x; (s, unat n) \<in> set (blk x); step x n = None; unat n \<le> y; aligned x y\<rbrakk> \<Longrightarrow>
          \<not> y + unat (bytes x) \<le> unat (limit x)"
begin

text \<open>
  The loop ends, and its answer is the lowest aligned place at or above the start that is free
  and within the limit; \<^term>\<open>None\<close> means there is none.
\<close>

lemma skipped_not_free:
  assumes ok: "ok x" and fit: "unat c + unat (bytes x) \<le> unat (limit x)" and ne: "nxt x c \<noteq> c"
    and y: "unat c \<le> y" "y < unat (nxt x c)"
  shows "\<not> free_at (blk x) (unat (bytes x)) y"
proof -
  from nxt_skip [OF ok fit ne] obtain s where "(s, unat (nxt x c)) \<in> set (blk x)" "s < unat c + unat (bytes x)"
    by blast
  then show ?thesis using y by (force simp: free_at_def)
qed

lemma gap_scan_spec:
  assumes ok: "ok x" and "aligned x (unat c)"
  shows "\<exists>r. gap_scan (nxt x) (step x) (bytes x) (limit x) c = Some r \<and>
    (case r of
       Some d \<Rightarrow> unat c \<le> unat d \<and> aligned x (unat d) \<and> unat d + unat (bytes x) \<le> unat (limit x)
                 \<and> free_at (blk x) (unat (bytes x)) (unat d)
                 \<and> (\<forall>y. unat c \<le> y \<and> y < unat d \<and> aligned x y \<longrightarrow> \<not> free_at (blk x) (unat (bytes x)) y)
     | None \<Rightarrow> \<forall>y. unat c \<le> y \<and> aligned x y \<and> y + unat (bytes x) \<le> unat (limit x)
                 \<longrightarrow> \<not> free_at (blk x) (unat (bytes x)) y)"
  using assms(2)
proof (induction "2 ^ 64 - unat c" arbitrary: c rule: less_induct)
  case less
  let ?N = "unat (bytes x)" and ?L = "unat (limit x)"
  have guard: "c \<le> limit x \<and> bytes x \<le> limit x - c \<longleftrightarrow> unat c + ?N \<le> ?L"
    by (auto simp: word_le_nat_alt unat_sub_small)
  note unf = gap_scan.simps [of "nxt x" "step x" "bytes x" "limit x" c]
  consider (stop) "\<not> unat c + ?N \<le> ?L" | (found) "unat c + ?N \<le> ?L" "nxt x c = c"
    | (skip) "unat c + ?N \<le> ?L" "nxt x c \<noteq> c" by blast
  then show ?case
  proof cases
    case stop
    then show ?thesis using guard by (auto simp: unf)
  next
    case found
    then show ?thesis using guard nxt_free [OF ok, of c] less.prems by (auto simp: unf)
  next
    case skip
    then obtain s where s: "(s, unat (nxt x c)) \<in> set (blk x)" "unat c < unat (nxt x c)"
      using nxt_skip [OF ok] by blast
    note sk = skipped_not_free [OF ok skip]
    show ?thesis
    proof (cases "step x (nxt x c)")
      case None
      with skip guard have "gap_scan (nxt x) (step x) (bytes x) (limit x) c = Some None" by (simp add: unf)
      moreover have "\<not> free_at (blk x) ?N y" if "unat c \<le> y" "aligned x y" "y + ?N \<le> ?L" for y
        using sk [of y] step_None [OF ok s(1) None, of y] that by (cases "y < unat (nxt x c)") auto
      ultimately show ?thesis by auto
    next
      case (Some d)
      with skip guard have eq: "gap_scan (nxt x) (step x) (bytes x) (limit x) c = gap_scan (nxt x) (step x) (bytes x) (limit x) d"
        by (simp add: unf)
      from step_Some [OF ok s(1) Some] have d: "unat (nxt x c) \<le> unat d" "aligned x (unat d)"
        and low: "\<And>y. unat (nxt x c) \<le> y \<Longrightarrow> aligned x y \<Longrightarrow> unat d \<le> y" by auto
      have "2 ^ 64 - unat d < (2::nat) ^ 64 - unat c"
        using d(1) s(2) u64_less [of c] by (simp add: diff_less_mono2)
      from less.hyps [OF this d(2)] obtain r where r: "gap_scan (nxt x) (step x) (bytes x) (limit x) d = Some r"
        and post: "case r of
       Some d' \<Rightarrow> unat d \<le> unat d' \<and> aligned x (unat d') \<and> unat d' + ?N \<le> ?L \<and> free_at (blk x) ?N (unat d')
                 \<and> (\<forall>y. unat d \<le> y \<and> y < unat d' \<and> aligned x y \<longrightarrow> \<not> free_at (blk x) ?N y)
     | None \<Rightarrow> \<forall>y. unat d \<le> y \<and> aligned x y \<and> y + ?N \<le> ?L \<longrightarrow> \<not> free_at (blk x) ?N y" by blast
      have all: "unat d \<le> y" if "unat c \<le> y" "aligned x y" "free_at (blk x) ?N y" for y
        using sk [of y] low [of y] that by (meson not_le)
      show ?thesis
      proof (cases r)
        case None
        then have "\<not> free_at (blk x) ?N y" if "unat c \<le> y" "aligned x y" "y + ?N \<le> ?L" for y
          using post all [of y] that by auto
        with None r eq show ?thesis by simp
      next
        case (Some d')
        have "\<not> free_at (blk x) ?N y" if "unat c \<le> y" "y < unat d'" "aligned x y" for y
          using post all [of y] that Some by auto
        with Some r eq post d(1) s(2) show ?thesis by simp
      qed
    qed
  qed
qed

end

section \<open>Rounding and the inner loops\<close>

lemma alignment_valid_pow2:
  assumes "alignment_valid al" shows "\<exists>k \<ge> 12. k < 64 \<and> unat al = 2 ^ k"
proof -
  from assms have ge: "4096 \<le> unat al" and "al \<noteq> 0" "al AND (al - 1) = 0"
    by (auto simp: alignment_valid_def word_le_nat_alt)
  then obtain k where k: "unat al = 2 ^ k" using word_pow2_cases by blast
  have "(2::nat) ^ 12 \<le> 2 ^ k" using ge k by simp
  then have "12 \<le> k" by (rule power_le_imp_le_exp [rotated]) simp
  moreover have "(2::nat) ^ k < 2 ^ 64" using u64_less [of al] k by simp
  then have "k < 64" by (rule power_less_imp_less_exp [rotated]) simp
  ultimately show ?thesis using k by blast
qed

lemma align_up_guard: "al \<noteq> 0 \<Longrightarrow> (v > UINT64_MAX - (al - 1)) \<longleftrightarrow> 2 ^ 64 \<le> unat v + (unat al - 1)"
  unfolding word_less_nat_alt unat_max_minus
  using u64_less [of al] u64_less [of v] unat_gt_0 [of al] by (auto simp: unat_minus_one)

lemma align_up_Some:
  assumes "alignment_valid al" "align_up v al = Some r"
  shows "unat r = roundup (unat al) (unat v)"
proof -
  from alignment_valid_pow2 [OF assms(1)] obtain k where k: "unat al = 2 ^ k" by blast
  then have "al \<noteq> 0" by auto
  with assms(2) have "r = (v + al - 1) AND NOT (al - 1)" "\<not> 2 ^ 64 \<le> unat v + (unat al - 1)"
    unfolding align_up_def align_up_guard [OF \<open>al \<noteq> 0\<close>] by (simp_all split: if_splits)
  then show ?thesis using unat_align_up [OF k, of v] k by simp
qed

lemma align_up_None:
  assumes al: "alignment_valid al" and none: "align_up v al = None"
    and y: "unat v \<le> y" "unat al dvd y"
  shows "2 ^ 64 \<le> y"
proof -
  from alignment_valid_pow2 [OF al] obtain k where k: "unat al = 2 ^ k" "k < 64" by blast
  then have "al \<noteq> 0" by auto
  with none have big: "2 ^ 64 \<le> unat v + (unat al - 1)"
    unfolding align_up_def align_up_guard [OF \<open>al \<noteq> 0\<close>] by (simp split: if_splits)
  have "unat al dvd 2 ^ 64" unfolding k(1) by (rule le_imp_power_dvd) (use k in simp)
  then obtain q where q: "(2::nat) ^ 64 = unat al * q" by blast
  from y(2) obtain m where m: "y = unat al * m" by blast
  have "unat al * q < unat al * (m + 1)" using big y(1) q m k by simp
  then have "q < m + 1" by (simp only: nat_mult_less_cancel_disj)
  then show ?thesis unfolding q m by simp
qed

lemma align_up_exact:
  assumes "alignment_valid al" "align_up v al = Some c"
  shows "unat v \<le> unat c" "unat al dvd unat c"
    "\<And>y. unat v \<le> y \<Longrightarrow> unat al dvd y \<Longrightarrow> unat c \<le> y"
proof -
  have "0 < unat al" using alignment_valid_pow2 [OF assms(1)] by auto
  then show "unat v \<le> unat c" "unat al dvd unat c"
    "\<And>y. unat v \<le> y \<Longrightarrow> unat al dvd y \<Longrightarrow> unat c \<le> y"
    using align_up_Some [OF assms] by (auto intro: roundup_ge roundup_least)
qed

lemma fold_max_spec:
  fixes P :: "'a \<Rightarrow> bool" and e :: "'a \<Rightarrow> 'b::linorder"
  defines "f \<equiv> \<lambda>x n. if P x \<and> e x > n then e x else n"
  shows "c \<le> fold f xs c \<and> (\<forall>x \<in> set xs. P x \<longrightarrow> e x \<le> fold f xs c)
         \<and> (fold f xs c = c \<or> (\<exists>x \<in> set xs. P x \<and> e x = fold f xs c))"
proof (induction xs arbitrary: c)
  case Nil
  then show ?case by simp
next
  case (Cons x xs)
  have "c \<le> f x c" "P x \<longrightarrow> e x \<le> f x c" "f x c = c \<or> (P x \<and> e x = f x c)"
    by (auto simp: f_def)
  with Cons.IH [of "f x c"] show ?case
    by (auto intro: order_trans)
qed

lemma excluded_next_eq:
  "excluded_next ex bytes c =
     fold (\<lambda>e n. if (c < sp_base e + sp_size e \<and> sp_base e < c + bytes) \<and> sp_base e + sp_size e > n
                  then sp_base e + sp_size e else n) ex c"
  unfolding excluded_next_def Let_def by (rule fold_cong) (auto simp: fun_eq_iff)

lemma alloc_next_eq:
  "alloc_next as bytes c =
     fold (\<lambda>a n. if (al_handle a \<noteq> 0 \<and> c < al_offset a + al_size a \<and> al_offset a < c + bytes)
                    \<and> al_offset a + al_size a > n
                  then al_offset a + al_size a else n) as c"
  unfolding alloc_next_def by (rule fold_cong) (auto simp: fun_eq_iff)

section \<open>Finding a range outside the exclusions\<close>

definition span_interval :: "nv_vram_span \<Rightarrow> nat \<times> nat" where
  "span_interval s = (unat (sp_base s), unat (sp_base s) + unat (sp_size s))"

definition spans_ok :: "nv_vram_span list \<Rightarrow> bool" where
  "spans_ok ss \<longleftrightarrow> (\<forall>s \<in> set ss. span_valid (sp_base s) (sp_size s))"

lemma span_valid_iff: "span_valid base sz \<longleftrightarrow> 0 < unat sz \<and> unat base + unat sz < 2 ^ 64"
  unfolding span_valid_def word_le_nat_alt unat_max_minus
  using u64_less [of base] by (auto simp: unat_gt_0)

lemma span_end: "span_valid base sz \<Longrightarrow> unat (base + sz) = unat base + unat sz"
  by (rule unat_add_small) (simp add: span_valid_iff)

lemma excluded_next_spec:
  assumes ex: "spans_ok ex" and fit: "unat c + unat bytes < 2 ^ 64"
  shows "excluded_next ex bytes c = c \<Longrightarrow> free_at (map span_interval ex) (unat bytes) (unat c)"
    and "excluded_next ex bytes c \<noteq> c \<Longrightarrow>
         \<exists>s. (s, unat (excluded_next ex bytes c)) \<in> set (map span_interval ex)
             \<and> s < unat c + unat bytes \<and> unat c < unat (excluded_next ex bytes c)"
proof -
  define r where "r = excluded_next ex bytes c"
  define P where "P = (\<lambda>e :: nv_vram_span. c < sp_base e + sp_size e \<and> sp_base e < c + bytes)"
  have r: "c \<le> r" "\<And>e. e \<in> set ex \<Longrightarrow> P e \<Longrightarrow> sp_base e + sp_size e \<le> r"
    "r = c \<or> (\<exists>e \<in> set ex. P e \<and> sp_base e + sp_size e = r)"
    using fold_max_spec [where P = P and e = "\<lambda>e :: nv_vram_span. sp_base e + sp_size e" and xs = ex and c = c]
    unfolding r_def excluded_next_eq P_def by blast+
  have cb: "unat (c + bytes) = unat c + unat bytes" by (rule unat_add_small) (use fit in simp)
  have P: "P e \<longleftrightarrow> unat c < snd (span_interval e) \<and> fst (span_interval e) < unat c + unat bytes"
    and e: "unat (sp_base e + sp_size e) = snd (span_interval e)" if "e \<in> set ex" for e
    using ex that by (auto simp: spans_ok_def P_def word_less_nat_alt cb span_end span_interval_def)
  show "free_at (map span_interval ex) (unat bytes) (unat c)" if "excluded_next ex bytes c = c"
  proof -
    have "r = c" using that by (simp add: r_def)
    have "\<not> P e" if "e \<in> set ex" for e
    proof
      assume "P e"
      with r(2) [OF that this] \<open>r = c\<close> \<open>P e\<close> show False unfolding P_def by (auto dest: leD)
    qed
    then show ?thesis using P by (force simp: free_at_def not_less)
  qed
  show "\<exists>s. (s, unat (excluded_next ex bytes c)) \<in> set (map span_interval ex)
             \<and> s < unat c + unat bytes \<and> unat c < unat (excluded_next ex bytes c)"
    if "excluded_next ex bytes c \<noteq> c"
  proof -
    from that r(3) obtain x where x: "x \<in> set ex" "P x" "sp_base x + sp_size x = r"
      unfolding r_def by blast
    from P [OF x(1)] e [OF x(1)] x have "unat r = snd (span_interval x)"
      "unat c < unat r" "fst (span_interval x) < unat c + unat bytes" by auto
    with x(1) show ?thesis unfolding r_def [symmetric]
      by (intro exI [of _ "fst (span_interval x)"]) (auto simp: image_iff intro!: bexI [of _ x])
  qed
qed

interpretation fr: gap_search
  "\<lambda>(ex, bytes, al, limit). excluded_next ex bytes" "\<lambda>(ex, bytes, al, limit) n. align_up n al"
  "\<lambda>(ex, bytes, al, limit). bytes" "\<lambda>(ex, bytes, al, limit). limit"
  "\<lambda>(ex, bytes, al, limit) y. unat al dvd y" "\<lambda>(ex, bytes, al, limit). map span_interval ex"
  "\<lambda>(ex, bytes, al, limit). spans_ok ex \<and> alignment_valid al"
proof (unfold_locales, goal_cases)
  case (1 x c)
  then show ?case
    using u64_less [of "snd (snd (snd x))"] by (auto simp: split_def intro!: excluded_next_spec(1))
next
  case (2 x c)
  then show ?case
    using u64_less [of "snd (snd (snd x))"] excluded_next_spec(2) [of "fst x" c "fst (snd x)"]
    by (auto simp: split_def)
next
  case (3 x s n c)
  then show ?case using align_up_exact [of "fst (snd (snd x))" n c] by (auto simp: split_def)
next
  case (4 x s n y)
  then have "2 ^ 64 \<le> y" using align_up_None [of "fst (snd (snd x))" n y] by (auto simp: split_def)
  then show ?case using u64_less [of "snd (snd (snd x))"] by (auto simp: split_def)
qed

definition range_ok ::
  "nv_vram_span list \<Rightarrow> nv_vram_span list \<Rightarrow> u64 \<Rightarrow> u64 \<Rightarrow> nat \<Rightarrow> bool" where
  "range_ok available excluded bytes al c \<longleftrightarrow>
     unat al dvd c \<and> free_at (map span_interval excluded) (unat bytes) c \<and>
     (\<exists>a \<in> set available. fst (span_interval a) \<le> c \<and> c + unat bytes \<le> snd (span_interval a))"

abbreviation no_span :: nv_vram_span where "no_span \<equiv> \<lparr>sp_base = 0, sp_size = 0\<rparr>"

lemma find_range_in_spec:
  assumes "spans_ok ex" "alignment_valid al" "spans_ok av"
  shows "(\<exists>s. find_range_in av ex bytes al = Some (0, s) \<and> sp_size s = bytes
              \<and> range_ok av ex bytes al (unat (sp_base s)))
         \<or> (find_range_in av ex bytes al = Some (-2, no_span) \<and> (\<forall>c. \<not> range_ok av ex bytes al c))"
  using assms(3)
proof (induction av)
  case Nil
  then show ?case by (simp add: range_ok_def)
next
  case (Cons a av)
  let ?F = "free_at (map span_interval ex) (unat bytes)"
  from Cons.prems have a: "unat (sp_base a + sp_size a) = snd (span_interval a)"
    and av: "spans_ok av"
    by (auto simp: spans_ok_def span_end span_interval_def)
  note IH = Cons.IH [OF av]
  have grow: "range_ok av ex bytes al c \<Longrightarrow> range_ok (a # av) ex bytes al c" for c
    by (auto simp: range_ok_def)
  have only: "range_ok (a # av) ex bytes al c \<longleftrightarrow> range_ok av ex bytes al c"
    if "\<And>y. unat (sp_base a) \<le> y \<Longrightarrow> unat al dvd y \<Longrightarrow> y + unat bytes \<le> snd (span_interval a) \<Longrightarrow> \<not> ?F y"
    for c using that by (auto simp: range_ok_def span_interval_def)
  show ?case
  proof (cases "align_up (sp_base a) al")
    case None
    have "\<not> ?F y" if "unat (sp_base a) \<le> y" "unat al dvd y" "y + unat bytes \<le> snd (span_interval a)" for y
      using align_up_None [OF assms(2) None that(1,2)] that(3) a u64_less [of "sp_base a + sp_size a"]
      by simp
    then have "range_ok (a # av) ex bytes al c = range_ok av ex bytes al c" for c by (rule only)
    with None IH show ?thesis by simp
  next
    case (Some c0)
    note c0 = align_up_exact [OF assms(2) Some]
    from fr.gap_scan_spec [of "(ex, bytes, al, sp_base a + sp_size a)" c0] c0(2) assms(1,2) a
    obtain r where r: "gap_scan (excluded_next ex bytes) (\<lambda>n. align_up n al) bytes (sp_base a + sp_size a) c0 = Some r"
      and post: "case r of
         Some d \<Rightarrow> unat c0 \<le> unat d \<and> unat al dvd unat d \<and> unat d + unat bytes \<le> snd (span_interval a) \<and> ?F (unat d)
       | None \<Rightarrow> \<forall>y. unat c0 \<le> y \<and> unat al dvd y \<and> y + unat bytes \<le> snd (span_interval a) \<longrightarrow> \<not> ?F y"
      by (fastforce split: option.splits)
    show ?thesis
    proof (cases r)
      case None
      with post c0(3) have "range_ok (a # av) ex bytes al c = range_ok av ex bytes al c" for c
        by (intro only) auto
      with None Some r IH show ?thesis by simp
    next
      case (Some d)
      with post c0(1) have "range_ok (a # av) ex bytes al (unat d)"
        by (auto simp: range_ok_def span_interval_def)
      with Some \<open>align_up (sp_base a) al = Some c0\<close> r show ?thesis by simp
    qed
  qed
qed

lemma find_range_spec:
  assumes "available \<noteq> []" "bytes \<noteq> 0" "alignment_valid al" "4096 dvd unat bytes"
    and "spans_ok available" "spans_ok excluded"
  shows "(\<exists>s. nv_vram_find_range available excluded bytes al = Some (0, s) \<and> sp_size s = bytes
              \<and> range_ok available excluded bytes al (unat (sp_base s)))
         \<or> (nv_vram_find_range available excluded bytes al = Some (-2, no_span)
            \<and> (\<forall>c. \<not> range_ok available excluded bytes al c))"
proof -
  have "bytes AND (4096 - 1) = 0"
    using dvd_mask_iff [of bytes 12] assms(4) by (simp add: mask_eq_exp_minus_1)
  then have "nv_vram_find_range available excluded bytes al = find_range_in available excluded bytes al"
    using assms by (auto simp: nv_vram_find_range_def spans_ok_def)
  then show ?thesis using find_range_in_spec [OF assms(6,3,5), of bytes] by simp
qed

text \<open>
  On valid arguments \<open>nv_vram_find_range\<close> ends.  It returns 0 with a range of the
  requested size that is aligned, lies inside one available span and meets no excluded span, or
  it returns -2 and then no such range exists at any address.
\<close>

theorem nv_vram_find_range_correct:
  assumes "available \<noteq> []" "bytes \<noteq> 0" "alignment_valid al" "4096 dvd unat bytes"
    and "spans_ok available" "spans_ok excluded"
  shows "(\<exists>s. nv_vram_find_range available excluded bytes al = Some (0, s) \<and> sp_size s = bytes
              \<and> range_ok available excluded bytes al (unat (sp_base s)))
         \<or> (nv_vram_find_range available excluded bytes al = Some (-2, no_span)
            \<and> (\<forall>c. \<not> range_ok available excluded bytes al c))"
  using assms by (rule find_range_spec)

section \<open>The pool: invariant and abstract view\<close>

definition entry_ok :: "nv_vram_pool \<Rightarrow> nv_vram_allocation \<Rightarrow> bool" where
  "entry_ok p a \<longleftrightarrow>
     (if al_handle a = 0 then a = no_allocation
      else 0 < unat (al_size a) \<and> 4096 dvd unat (al_offset a) \<and> 4096 dvd unat (al_size a)
           \<and> unat (al_offset a) + unat (al_size a) \<le> unat (pl_size p)
           \<and> al_handle a < pl_next_handle p)"

definition entries_apart :: "nv_vram_allocation list \<Rightarrow> bool" where
  "entries_apart as \<longleftrightarrow>
     (\<forall>i < length as. \<forall>j < length as. i \<noteq> j \<and> al_handle (as ! i) \<noteq> 0 \<and> al_handle (as ! j) \<noteq> 0 \<longrightarrow>
        al_handle (as ! i) \<noteq> al_handle (as ! j) \<and>
        (unat (al_offset (as ! i)) + unat (al_size (as ! i)) \<le> unat (al_offset (as ! j))
         \<or> unat (al_offset (as ! j)) + unat (al_size (as ! j)) \<le> unat (al_offset (as ! i))))"

definition sizes_sum :: "nv_vram_allocation list \<Rightarrow> nat" where
  "sizes_sum as = (\<Sum>i < length as. unat (al_size (as ! i)))"

definition pool_inv :: "nv_vram_pool \<Rightarrow> bool" where
  "pool_inv p \<longleftrightarrow>
     length (pl_allocations p) = NV_VRAM_MAX_ALLOCS
     \<and> 0 < unat (pl_size p) \<and> pl_next_handle p \<noteq> 0
     \<and> unat (pl_phys p) + unat (pl_size p) < 2 ^ 64 \<and> unat (pl_va p) + unat (pl_size p) < 2 ^ 64
     \<and> 4096 dvd unat (pl_phys p) \<and> 4096 dvd unat (pl_va p) \<and> 4096 dvd unat (pl_size p)
     \<and> (\<forall>a \<in> set (pl_allocations p). entry_ok p a)
     \<and> entries_apart (pl_allocations p)
     \<and> unat (pl_used p) = sizes_sum (pl_allocations p)"

text \<open>What the pool promises its client: a finite map from handles to (offset, size).\<close>

definition pool_map :: "nv_vram_pool \<Rightarrow> u64 \<Rightarrow> (nat \<times> nat) option" where
  "pool_map p h =
     (let i = entry_index (pl_allocations p) h in
      if h \<noteq> 0 \<and> i < length (pl_allocations p)
      then Some (unat (al_offset (pl_allocations p ! i)), unat (al_size (pl_allocations p ! i)))
      else None)"

definition live_spans :: "nv_vram_allocation list \<Rightarrow> nv_vram_span list" where
  "live_spans as = map (\<lambda>a. \<lparr>sp_base = al_offset a, sp_size = al_size a\<rparr>)
                       (filter (\<lambda>a. al_handle a \<noteq> 0) as)"

lemma pool_inv_entry: "pool_inv p \<Longrightarrow> a \<in> set (pl_allocations p) \<Longrightarrow> entry_ok p a"
  by (simp add: pool_inv_def)

lemma entry_index_le: "entry_index as h \<le> length as"
  by (simp add: entry_index_def length_takeWhile_le)

lemma entry_index_hit: "entry_index as h < length as \<Longrightarrow> al_handle (as ! entry_index as h) = h"
  unfolding entry_index_def using nth_length_takeWhile by blast

lemma entry_index_miss: "\<not> entry_index as h < length as \<longleftrightarrow> (\<forall>a \<in> set as. al_handle a \<noteq> h)"
proof
  assume "\<not> entry_index as h < length as"
  then have "length (takeWhile (\<lambda>a. al_handle a \<noteq> h) as) = length as"
    unfolding entry_index_def using length_takeWhile_le [of "\<lambda>a. al_handle a \<noteq> h" as] by linarith
  then have "takeWhile (\<lambda>a. al_handle a \<noteq> h) as = as" by (metis takeWhile_eq_take take_all order_refl)
  then show "\<forall>a \<in> set as. al_handle a \<noteq> h" by (simp add: takeWhile_eq_all_conv)
next
  assume all: "\<forall>a \<in> set as. al_handle a \<noteq> h"
  have "takeWhile (\<lambda>a. al_handle a \<noteq> h) as = as" unfolding takeWhile_eq_all_conv using all by simp
  then show "\<not> entry_index as h < length as" unfolding entry_index_def by (simp only: less_irrefl)simp
qed

lemma entry_index_update:
  assumes "al_handle (as ! i) \<noteq> h" "al_handle e \<noteq> h"
  shows "entry_index (as[i := e]) h = entry_index as h"
proof (cases "i < length as")
  case True
  let ?P = "\<lambda>a. al_handle a \<noteq> h"
  have len: "length (takeWhile ?P xs) = length (takeWhile id (map ?P xs))" for xs
    by (simp add: takeWhile_map o_def)
  have "map ?P (as[i := e]) = map ?P as"
    using assms True by (auto simp: map_update intro!: list_update_same_conv [THEN iffD2])
  then show ?thesis unfolding entry_index_def by (simp add: len)
next
  case False
  then show ?thesis by (simp add: list_update_beyond)
qed

lemma sizes_sum_update:
  "i < length as \<Longrightarrow> sizes_sum (as[i := e]) + unat (al_size (as ! i)) = sizes_sum as + unat (al_size e)"
proof -
  assume i: "i < length as"
  let ?f = "\<lambda>xs j. unat (al_size (xs ! j :: nv_vram_allocation))"
  have "(\<Sum>j \<in> {..<length as} - {i}. ?f (as[i := e]) j) = (\<Sum>j \<in> {..<length as} - {i}. ?f as j)"
    by (rule sum.cong) auto
  then show ?thesis
    unfolding sizes_sum_def using i
    by (simp add: sum.remove [of "{..<length as}" i "?f (as[i := e])"] sum.remove [of "{..<length as}" i "?f as"])
qed

lemma alloc_next_live: "alloc_next as bytes c = excluded_next (live_spans as) bytes c"
proof -
  have "fold (\<lambda>a n. if (al_handle a \<noteq> 0 \<and> c < al_offset a + al_size a \<and> al_offset a < c + bytes)
                    \<and> al_offset a + al_size a > n
                  then al_offset a + al_size a else n) as acc
      = fold (\<lambda>e n. if (c < sp_base e + sp_size e \<and> sp_base e < c + bytes) \<and> sp_base e + sp_size e > n
                  then sp_base e + sp_size e else n) (live_spans as) acc" for acc
    by (induction as arbitrary: acc) (auto simp: live_spans_def)
  then show ?thesis unfolding alloc_next_eq excluded_next_eq .
qed

lemma live_spans_ok: "pool_inv p \<Longrightarrow> spans_ok (live_spans (pl_allocations p))"
  unfolding spans_ok_def live_spans_def
proof clarsimp
  fix a assume inv: "pool_inv p" and a: "a \<in> set (pl_allocations p)" "al_handle a \<noteq> 0"
  from pool_inv_entry [OF inv a(1)] a(2) u64_less [of "pl_size p"]
  show "span_valid (al_offset a) (al_size a)" by (auto simp: entry_ok_def span_valid_iff)
qed

lemma live_end_le:
  assumes "pool_inv p" "(s, e) \<in> set (map span_interval (live_spans (pl_allocations p)))"
  shows "e \<le> unat (pl_size p)"
  using assms pool_inv_entry [OF assms(1)]
  by (auto simp: live_spans_def span_interval_def entry_ok_def)

lemma va_step_None:
  assumes "alignment_valid al" "unat va + unat n < 2 ^ 64" "va_step va al n = None"
    "unat n \<le> y" "unat al dvd unat va + y"
  shows "2 ^ 64 \<le> unat va + y"
proof -
  have "unat (va + n) = unat va + unat n" by (rule unat_add_small) (use assms(2) in simp)
  then show ?thesis
    using assms align_up_None [of al "va + n" "unat va + y"] by (auto simp: va_step_def split: option.splits)
qed

lemma va_step_exact:
  assumes "alignment_valid al" "unat va + unat n < 2 ^ 64" "va_step va al n = Some c"
  shows "unat n \<le> unat c" "unat al dvd unat va + unat c"
    "\<And>y. unat n \<le> y \<Longrightarrow> unat al dvd unat va + y \<Longrightarrow> unat c \<le> y"
proof -
  have e: "unat (va + n) = unat va + unat n" by (rule unat_add_small) (use assms(2) in simp)
  from assms(3) obtain a where a: "align_up (va + n) al = Some a" "c = a - va"
    by (auto simp: va_step_def split: option.splits)
  note x = align_up_exact [OF assms(1) a(1), unfolded e]
  have c: "unat c = unat a - unat va" unfolding a(2) by (rule unat_sub_small) (use x(1) in simp)
  show "unat n \<le> unat c" "unat al dvd unat va + unat c" using x(1,2) c by simp_all
  show "unat c \<le> y" if "unat n \<le> y" "unat al dvd unat va + y" for y
    using x(3) [of "unat va + y"] that c by simp
qed

interpretation ps: gap_search
  "\<lambda>(p, bytes, al). alloc_next (pl_allocations p) bytes" "\<lambda>(p, bytes, al). va_step (pl_va p) al"
  "\<lambda>(p, bytes, al). bytes" "\<lambda>(p, bytes, al). pl_size p"
  "\<lambda>(p, bytes, al) y. unat al dvd unat (pl_va p) + y"
  "\<lambda>(p, bytes, al). map span_interval (live_spans (pl_allocations p))"
  "\<lambda>(p, bytes, al). pool_inv p \<and> alignment_valid al"
proof (unfold_locales, goal_cases)
  case (1 x c)
  then show ?case using u64_less [of "pl_size (fst x)"] live_spans_ok [of "fst x"]
    by (auto simp: split_def alloc_next_live intro!: excluded_next_spec(1))
next
  case (2 x c)
  then show ?case using u64_less [of "pl_size (fst x)"] live_spans_ok [of "fst x"]
      excluded_next_spec(2) [of "live_spans (pl_allocations (fst x))" c "fst (snd x)"]
    by (auto simp: split_def alloc_next_live)
next
  case (3 x s n c)
  then have "unat (pl_va (fst x)) + unat n < 2 ^ 64"
    using live_end_le [of "fst x" s "unat n"] by (auto simp: split_def pool_inv_def)
  with 3 show ?case using va_step_exact [of "snd (snd x)" "pl_va (fst x)" n c] by (auto simp: split_def)
next
  case (4 x s n y)
  then have "unat (pl_va (fst x)) + unat n < 2 ^ 64" "unat (pl_va (fst x)) + unat (pl_size (fst x)) < 2 ^ 64"
    using live_end_le [of "fst x" s "unat n"] by (auto simp: split_def pool_inv_def)
  with 4 show ?case using va_step_None [of "snd (snd x)" "pl_va (fst x)" n y] by (auto simp: split_def)
qed


section \<open>What each pool operation does\<close>

lemma pool_map_Some:
  "pool_map p h = Some v \<longleftrightarrow> h \<noteq> 0 \<and> entry_index (pl_allocations p) h < length (pl_allocations p)
     \<and> v = (unat (al_offset (pl_allocations p ! entry_index (pl_allocations p) h)),
            unat (al_size (pl_allocations p ! entry_index (pl_allocations p) h)))"
  by (auto simp: pool_map_def Let_def)

lemma sizes_le:
  assumes "entries_apart as"
    and "\<And>a. a \<in> set as \<Longrightarrow> al_handle a = 0 \<Longrightarrow> al_size a = 0"
    and "\<And>a. a \<in> set as \<Longrightarrow> unat (al_offset a) + unat (al_size a) \<le> n"
  shows "sizes_sum as \<le> n"
proof -
  let ?I = "\<lambda>i. {unat (al_offset (as ! i)) ..< unat (al_offset (as ! i)) + unat (al_size (as ! i))}"
  have disj: "?I i \<inter> ?I j = {}" if "i < length as" "j < length as" "i \<noteq> j" for i j
  proof (cases "al_handle (as ! i) = 0 \<or> al_handle (as ! j) = 0")
    case True
    then show ?thesis using assms(2) [of "as ! i"] assms(2) [of "as ! j"] that by auto
  next
    case False
    then show ?thesis using assms(1) that unfolding entries_apart_def by force
  qed
  have "sizes_sum as = (\<Sum>i \<in> {..<length as}. card (?I i))" by (simp add: sizes_sum_def)
  also have "\<dots> = card (\<Union>i \<in> {..<length as}. ?I i)"
    by (rule card_UN_disjoint [symmetric]) (use disj in auto)
  also have "\<dots> \<le> card {..<n}"
  proof (rule card_mono)
    show "(\<Union>i \<in> {..<length as}. ?I i) \<subseteq> {..<n}"
    proof clarsimp
      fix i x assume "i < length as" "x < unat (al_offset (as ! i)) + unat (al_size (as ! i))"
      then show "x < n" using assms(3) [of "as ! i"] by simp
    qed
  qed simp
  finally show ?thesis by simp
qed

lemma pool_used_le:
  assumes "pool_inv p" shows "unat (pl_used p) \<le> unat (pl_size p)"
proof -
  have "sizes_sum (pl_allocations p) \<le> unat (pl_size p)"
  proof (rule sizes_le)
    show "entries_apart (pl_allocations p)" using assms by (simp add: pool_inv_def)
  next
    fix a assume "a \<in> set (pl_allocations p)" 
    note ok = pool_inv_entry [OF assms this]
    show "al_handle a = 0 \<Longrightarrow> al_size a = 0" using ok by (simp add: entry_ok_def)
    show "unat (al_offset a) + unat (al_size a) \<le> unat (pl_size p)"
      using ok by (auto simp: entry_ok_def split: if_splits)
  qed
  then show ?thesis using assms by (simp add: pool_inv_def)
qed

lemma entry_index_nth:
  assumes "entries_apart as" "i < length as" "al_handle (as ! i) \<noteq> 0"
  shows "entry_index as (al_handle (as ! i)) = i"
proof -
  let ?j = "entry_index as (al_handle (as ! i))"
  have j: "?j < length as" using entry_index_miss [of as "al_handle (as ! i)"] assms(2) by auto
  then have "al_handle (as ! ?j) = al_handle (as ! i)" by (rule entry_index_hit)
  then show ?thesis using assms j unfolding entries_apart_def by metis
qed

text \<open>A block of \<open>n\<close> bytes at offset \<open>c\<close> meets no live allocation.\<close>

definition unused :: "nv_vram_pool \<Rightarrow> nat \<Rightarrow> nat \<Rightarrow> bool" where
  "unused p n c \<longleftrightarrow> (\<forall>h b m. pool_map p h = Some (b, m) \<longrightarrow> c + n \<le> b \<or> b + m \<le> c)"

lemma free_at_unused:
  assumes "pool_inv p"
  shows "free_at (map span_interval (live_spans (pl_allocations p))) n c \<longleftrightarrow> unused p n c"
proof -
  let ?as = "pl_allocations p"
  have ap: "entries_apart ?as" using assms by (simp add: pool_inv_def)
  have "(b, e) \<in> set (map span_interval (live_spans ?as))
        \<longleftrightarrow> (\<exists>h m. pool_map p h = Some (b, m) \<and> e = b + m)" for b e
  proof
    assume "(b, e) \<in> set (map span_interval (live_spans ?as))"
    then obtain a where a: "a \<in> set ?as" "al_handle a \<noteq> 0" "b = unat (al_offset a)" "e = b + unat (al_size a)"
      by (auto simp: live_spans_def span_interval_def)
    then obtain i where i: "i < length ?as" "?as ! i = a" by (auto simp: in_set_conv_nth)
    with a entry_index_nth [OF ap, of i] have "pool_map p (al_handle a) = Some (b, unat (al_size a))"
      by (simp add: pool_map_Some)
    with a show "\<exists>h m. pool_map p h = Some (b, m) \<and> e = b + m" by blast
  next
    assume "\<exists>h m. pool_map p h = Some (b, m) \<and> e = b + m"
    then obtain h where h: "h \<noteq> 0" "entry_index ?as h < length ?as"
      "b = unat (al_offset (?as ! entry_index ?as h))" "e = b + unat (al_size (?as ! entry_index ?as h))"
      by (auto simp: pool_map_Some)
    then have "?as ! entry_index ?as h \<in> set (filter (\<lambda>a. al_handle a \<noteq> 0) ?as)"
      using entry_index_hit [OF h(2)] by simp
    then show "(b, e) \<in> set (map span_interval (live_spans ?as))"
      using h by (force simp: live_spans_def span_interval_def image_iff)
  qed
  note * = this
  have fa: "free_at blk n c \<longleftrightarrow> (\<forall>b e. (b, e) \<in> set blk \<longrightarrow> c + n \<le> b \<or> e \<le> c)" for blk
    unfolding free_at_def by blast
  show ?thesis unfolding fa unused_def * by blast
qed

text \<open>A place the pool may hand out: aligned as a virtual address, inside, and unused.\<close>

definition place_ok :: "nv_vram_pool \<Rightarrow> nat \<Rightarrow> u64 \<Rightarrow> nat \<Rightarrow> bool" where
  "place_ok p n al c \<longleftrightarrow>
     unat al dvd unat (pl_va p) + c \<and> c + n \<le> unat (pl_size p) \<and> unused p n c"

lemma entries_live_map:
  assumes "pool_inv p" "i < length (pl_allocations p)" "al_handle (pl_allocations p ! i) \<noteq> 0"
  shows "pool_map p (al_handle (pl_allocations p ! i)) =
         Some (unat (al_offset (pl_allocations p ! i)), unat (al_size (pl_allocations p ! i)))"
  using assms entry_index_nth [of "pl_allocations p" i] by (simp add: pool_map_Some pool_inv_def)

lemma insert_entry:
  assumes inv: "pool_inv p" and slot: "slot < length (pl_allocations p)"
    and empty: "al_handle (pl_allocations p ! slot) = 0"
    and place: "unused p (unat n) (unat c)" "unat c + unat n \<le> unat (pl_size p)"
  defines "as' \<equiv> (pl_allocations p)[slot := \<lparr>al_handle = pl_next_handle p, al_offset = c, al_size = n\<rparr>]"
  shows "entries_apart as'" "sizes_sum as' = sizes_sum (pl_allocations p) + unat n"
    "sizes_sum as' \<le> unat (pl_size p)"
proof -
  let ?as = "pl_allocations p"
  have new: "al_handle (?as ! i) \<noteq> pl_next_handle p \<and>
      (unat c + unat n \<le> unat (al_offset (?as ! i)) \<or>
       unat (al_offset (?as ! i)) + unat (al_size (?as ! i)) \<le> unat c)"
    if "i < length ?as" "al_handle (?as ! i) \<noteq> 0" for i
    using entries_live_map [OF inv that] pool_inv_entry [OF inv nth_mem [OF that(1)]] place(1) that(2)
    unfolding unused_def entry_ok_def by auto
  have old: "entries_apart ?as" using inv by (simp add: pool_inv_def)
  show ap: "entries_apart as'"
    unfolding entries_apart_def
  proof (intro allI impI, elim conjE)
    fix i j assume ij: "i < length as'" "j < length as'" "i \<noteq> j"
      "al_handle (as' ! i) \<noteq> 0" "al_handle (as' ! j) \<noteq> 0"
    then show "al_handle (as' ! i) \<noteq> al_handle (as' ! j) \<and>
        (unat (al_offset (as' ! i)) + unat (al_size (as' ! i)) \<le> unat (al_offset (as' ! j))
         \<or> unat (al_offset (as' ! j)) + unat (al_size (as' ! j)) \<le> unat (al_offset (as' ! i)))"
      using new [of i] new [of j] old slot unfolding as'_def entries_apart_def
      by (auto simp: nth_list_update split: if_splits)
  qed
  have "?as ! slot \<in> set ?as" using slot by simp
  then have "al_size (?as ! slot) = 0" using pool_inv_entry [OF inv, of "?as ! slot"] empty
    by (simp add: entry_ok_def)
  then show "sizes_sum as' = sizes_sum ?as + unat n"
    using sizes_sum_update [OF slot, of "\<lparr>al_handle = pl_next_handle p, al_offset = c, al_size = n\<rparr>"]
    by (simp add: as'_def)
  show "sizes_sum as' \<le> unat (pl_size p)"
  proof (rule sizes_le [OF ap])
    have np: "pl_next_handle p \<noteq> 0" using inv by (simp add: pool_inv_def)
    fix a assume "a \<in> set as'"
    then consider "a = \<lparr>al_handle = pl_next_handle p, al_offset = c, al_size = n\<rparr>" | "a \<in> set ?as"
      unfolding as'_def using set_update_subset_insert [of ?as slot] by blast
    note cs = this
    from cs show "al_handle a = 0 \<Longrightarrow> al_size a = 0"
      by cases (use np pool_inv_entry [OF inv, of a] in \<open>auto simp: entry_ok_def\<close>)
    from cs show "unat (al_offset a) + unat (al_size a) \<le> unat (pl_size p)"
      by cases (use place(2) pool_inv_entry [OF inv, of a] in \<open>auto simp: entry_ok_def split: if_splits\<close>)
  qed
qed

text \<open>The full contract of one call of \<open>nv_vram_alloc\<close> on a well-formed pool.\<close>

definition alloc_contract ::
  "nv_vram_pool \<Rightarrow> u64 \<Rightarrow> u64 \<Rightarrow> int \<Rightarrow> u64 \<Rightarrow> nv_vram_pool \<Rightarrow> bool" where
  "alloc_contract p b al rc h p' \<longleftrightarrow>
     (let n = roundup 4096 (unat b) in
      (rc = 0 \<and> alignment_valid al \<and> h = pl_next_handle p \<and> pool_map p h = None \<and> pool_inv p' \<and>
        pl_next_handle p' = h + 1 \<and> pl_phys p' = pl_phys p \<and> pl_va p' = pl_va p \<and> pl_size p' = pl_size p \<and>
        (\<exists>c. place_ok p n al c \<and> (\<forall>y < c. \<not> place_ok p n al y)
             \<and> pool_map p' = (pool_map p)(h \<mapsto> (c, n))))
    \<or> (rc = -1 \<and> h = 0 \<and> p' = p \<and> (b = 0 \<or> \<not> alignment_valid al \<or> 2 ^ 64 - 4096 < unat b))
    \<or> (rc = -2 \<and> h = 0 \<and> p' = p \<and>
        (pl_next_handle p = UINT64_MAX \<or> (\<forall>a \<in> set (pl_allocations p). al_handle a \<noteq> 0)
         \<or> (\<forall>c. \<not> place_ok p n al c))))"

lemma pool_map_insert:
  assumes inv: "pool_inv p" and slot: "slot < length (pl_allocations p)"
    and empty: "al_handle (pl_allocations p ! slot) = 0" and h: "h = pl_next_handle p"
    and p': "pl_allocations p' = (pl_allocations p)[slot := \<lparr>al_handle = h, al_offset = c, al_size = n\<rparr>]"
    and ap: "entries_apart (pl_allocations p')"
  shows "pool_map p' = (pool_map p)(h \<mapsto> (unat c, unat n))"
proof
  fix k
  have h0: "h \<noteq> 0" using inv h by (simp add: pool_inv_def)
  show "pool_map p' k = ((pool_map p)(h \<mapsto> (unat c, unat n))) k"
  proof (cases "k = h")
    case True
    have "entry_index (pl_allocations p') h = slot"
      using entry_index_nth [OF ap, of slot] slot h0 by (simp add: p')
    then show ?thesis using True h0 slot by (simp add: pool_map_def p')
  next
    case False
    show ?thesis
    proof (cases "k = 0")
      case False
      have "entry_index (pl_allocations p') k = entry_index (pl_allocations p) k"
        unfolding p' by (rule entry_index_update) (use \<open>k \<noteq> h\<close> False empty in auto)
      moreover have "entry_index (pl_allocations p) k \<noteq> slot"
        if "entry_index (pl_allocations p) k < length (pl_allocations p)"
        using entry_index_hit [OF that] empty False by auto
      ultimately show ?thesis using \<open>k \<noteq> h\<close> by (auto simp: pool_map_def p' Let_def)
    qed (use False in \<open>simp add: pool_map_def\<close>)
  qed
qed

lemma fresh_handle: "pool_inv p \<Longrightarrow> pl_next_handle p \<le> h \<Longrightarrow> pool_map p h = None"
proof (rule ccontr)
  assume inv: "pool_inv p" and h: "pl_next_handle p \<le> h" and "pool_map p h \<noteq> None"
  then obtain v where "pool_map p h = Some v" by blast
  then have i: "h \<noteq> 0" "entry_index (pl_allocations p) h < length (pl_allocations p)"
    by (simp_all add: pool_map_Some)
  from pool_inv_entry [OF inv nth_mem [OF i(2)]] entry_index_hit [OF i(2)] i(1) h
  show False by (auto simp: entry_ok_def)
qed

lemma pool_inv_insert:
  assumes inv: "pool_inv p" and slot: "slot < length (pl_allocations p)"
    and empty: "al_handle (pl_allocations p ! slot) = 0"
    and place: "unused p (unat n) (unat c)" "unat c + unat n \<le> unat (pl_size p)"
    and n: "0 < unat n" "4096 dvd unat n" "4096 dvd unat c" and fresh: "pl_next_handle p \<noteq> UINT64_MAX"
  shows "pool_inv (p\<lparr>pl_next_handle := pl_next_handle p + 1,
      pl_allocations := (pl_allocations p)[slot := \<lparr>al_handle = pl_next_handle p, al_offset = c, al_size = n\<rparr>],
      pl_used := pl_used p + n\<rparr>)" (is "pool_inv ?p'")
proof -
  note ins = insert_entry [OF inv slot empty place]
  have len: "length (pl_allocations p) = 128" using inv by (simp add: pool_inv_def)
  have nx: "unat (pl_next_handle p + 1) = unat (pl_next_handle p) + 1"
  proof -
    have "unat (pl_next_handle p) \<noteq> unat UINT64_MAX" using fresh by (metis word_unat_eq_iff)
    then show ?thesis using unat_add_small [of "pl_next_handle p" 1] u64_less [of "pl_next_handle p"] by simp
  qed
  have us: "unat (pl_used p + n) = unat (pl_used p) + unat n"
  proof (rule unat_add_small)
    show "unat (pl_used p) + unat n < 2 ^ LENGTH(64)"
      using ins(2,3) inv u64_less [of "pl_size p"] by (simp add: pool_inv_def)
  qed
  have ent: "entry_ok ?p' a" if "a \<in> set (pl_allocations ?p')" for a
  proof -
    from that consider "a = \<lparr>al_handle = pl_next_handle p, al_offset = c, al_size = n\<rparr>" | "a \<in> set (pl_allocations p)"
      using set_update_subset_insert [of "pl_allocations p" slot] by auto
    then show ?thesis
    proof cases
      case 1
      then show ?thesis using inv n place(2) nx
        by (auto simp: entry_ok_def pool_inv_def word_less_nat_alt)
    next
      case 2
      from pool_inv_entry [OF inv 2] show ?thesis using nx
        by (auto simp: entry_ok_def word_less_nat_alt split: if_splits)
    qed
  qed
  have "pl_next_handle p + 1 \<noteq> 0" using nx by auto
  then show ?thesis using inv ins us ent len unfolding pool_inv_def by simp
qed

lemma alloc_search:
  assumes inv: "pool_inv p" and al: "alignment_valid al"
  shows "case va_step (pl_va p) al 0 of
      None \<Rightarrow> \<forall>c. \<not> place_ok p (unat n) al c
    | Some c0 \<Rightarrow> \<exists>r. gap_scan (alloc_next (pl_allocations p) n) (va_step (pl_va p) al) n (pl_size p) c0 = Some r
        \<and> (case r of None \<Rightarrow> \<forall>c. \<not> place_ok p (unat n) al c
           | Some c \<Rightarrow> place_ok p (unat n) al (unat c) \<and> (\<forall>y < unat c. \<not> place_ok p (unat n) al y))"
proof (cases "va_step (pl_va p) al 0")
  case None
  have b: "unat (pl_va p) + unat (pl_size p) < 2 ^ 64" using inv by (simp add: pool_inv_def)
  have "\<not> place_ok p (unat n) al c" for c
    using va_step_None [OF al _ None, of c] b u64_less [of "pl_va p"] by (auto simp: place_ok_def)
  with None show ?thesis by simp
next
  case (Some c0)
  note st = va_step_exact [OF al _ Some]
  have c0: "unat al dvd unat (pl_va p) + unat c0"
    and least: "\<And>y. unat al dvd unat (pl_va p) + y \<Longrightarrow> unat c0 \<le> y"
    using st u64_less [of "pl_va p"] by simp_all
  from ps.gap_scan_spec [of "(p, n, al)" c0] inv al c0
  obtain r where r: "gap_scan (alloc_next (pl_allocations p) n) (va_step (pl_va p) al) n (pl_size p) c0 = Some r"
    and post: "case r of
         Some d \<Rightarrow> unat c0 \<le> unat d \<and> unat al dvd unat (pl_va p) + unat d \<and> unat d + unat n \<le> unat (pl_size p)
            \<and> unused p (unat n) (unat d)
            \<and> (\<forall>y. unat c0 \<le> y \<and> y < unat d \<and> unat al dvd unat (pl_va p) + y \<longrightarrow> \<not> unused p (unat n) y)
       | None \<Rightarrow> \<forall>y. unat c0 \<le> y \<and> unat al dvd unat (pl_va p) + y \<and> y + unat n \<le> unat (pl_size p)
            \<longrightarrow> \<not> unused p (unat n) y"
    by (force simp: free_at_unused split: option.splits)
  show ?thesis
  proof (cases r)
    case None
    with Some r post least show ?thesis by (auto simp: place_ok_def)
  next
    case (Some d)
    with \<open>va_step (pl_va p) al 0 = Some c0\<close> r post least show ?thesis by (auto simp: place_ok_def)
  qed
qed

lemma place_page:
  assumes "pool_inv p" "alignment_valid al" "place_ok p n al c"
  shows "4096 dvd c"
proof -
  from alignment_valid_pow2 [OF assms(2)] obtain k where "12 \<le> k" "unat al = 2 ^ k" by blast
  then have "2 ^ 12 dvd unat al" by (metis le_imp_power_dvd)
  then have "4096 dvd unat (pl_va p) + c" using assms(3) unfolding place_ok_def by (simp, metis dvd_trans)
  moreover have "4096 dvd unat (pl_va p)" using assms(1) by (simp add: pool_inv_def)
  ultimately show ?thesis by (simp add: dvd_add_right_iff)
qed

lemma full_no_place:
  assumes inv: "pool_inv p" and slot: "slot < length (pl_allocations p)"
    and empty: "al_handle (pl_allocations p ! slot) = 0"
    and big: "unat (pl_size p) < unat (pl_used p) + unat (n :: u64)"
  shows "\<not> place_ok p (unat n) al c"
proof
  assume pl: "place_ok p (unat n) al c"
  then have "c < 2 ^ 64" using u64_less [of "pl_size p"] by (simp add: place_ok_def)
  then have c: "unat (of_nat c :: u64) = c" by (simp add: unat_of_nat)
  from pl have "sizes_sum (pl_allocations p) + unat n \<le> unat (pl_size p)"
    using insert_entry [OF inv slot empty, of n "of_nat c"] c by (simp add: place_ok_def)
  then show False using big inv by (simp add: pool_inv_def)
qed

lemma page_count:
  assumes "align_up b 4096 = Some n" "b \<noteq> 0"
  shows "unat n = roundup 4096 (unat b)" "0 < unat n"
proof -
  show "unat n = roundup 4096 (unat b)" using align_up_Some [OF _ assms(1)] by (simp add: alignment_valid_def)
  then show "0 < unat n" using roundup_ge [of 4096 "unat b"] assms(2) unat_gt_0 [of b] by simp
qed

lemma alloc_contract_slot:
  assumes inv: "pool_inv p" and al: "alignment_valid al" and b0: "b \<noteq> 0"
    and n: "align_up b 4096 = Some n" and fresh: "pl_next_handle p \<noteq> UINT64_MAX"
    and slot: "entry_index (pl_allocations p) 0 < length (pl_allocations p)" (is "?slot < length ?as")
  shows "\<exists>rc h p'. nv_vram_alloc p b al = Some (rc, h, p') \<and> alloc_contract p b al rc h p'"
proof -
  note un = page_count(1) [OF n b0] and n0 = page_count(2) [OF n b0]
  have len: "length ?as = 128" and sz: "pl_size p \<noteq> 0" and nh: "pl_next_handle p \<noteq> 0"
    using inv by (auto simp: pool_inv_def)
  have used: "\<not> pl_size p < pl_used p" using pool_used_le [OF inv] by (simp add: word_less_nat_alt)
  have over: "n > pl_size p - pl_used p \<longleftrightarrow> unat (pl_size p) < unat (pl_used p) + unat n"
    using pool_used_le [OF inv] by (auto simp: word_less_nat_alt unat_sub_small)
  note empty = entry_index_hit [OF slot]
  show ?thesis
  proof (cases "n > pl_size p - pl_used p")
    case True
    then have "nv_vram_alloc p b al = Some (-2, 0, p)" using b0 al n sz by (simp add: nv_vram_alloc_def)
    moreover have "\<not> place_ok p (unat n) al c" for c
      using full_no_place [OF inv slot empty] True over by blast
    ultimately show ?thesis by (auto simp: alloc_contract_def un)
  next
    case small: False
    note run = alloc_search [OF inv al, of n]
    show ?thesis
    proof (cases "va_step (pl_va p) al 0")
      case None
      with run have "\<forall>c. \<not> place_ok p (unat n) al c" by simp
      moreover have "nv_vram_alloc p b al = Some (-2, 0, p)"
        using None b0 al n sz by (simp add: nv_vram_alloc_def Let_def)
      ultimately show ?thesis by (auto simp: alloc_contract_def un)
    next
      case (Some c0)
      with run obtain r
        where r: "gap_scan (alloc_next ?as n) (va_step (pl_va p) al) n (pl_size p) c0 = Some r"
          and post: "case r of None \<Rightarrow> \<forall>c. \<not> place_ok p (unat n) al c
            | Some c \<Rightarrow> place_ok p (unat n) al (unat c) \<and> (\<forall>y < unat c. \<not> place_ok p (unat n) al y)"
        by auto
      show ?thesis
      proof (cases r)
        case None
        with Some r slot len have "nv_vram_alloc p b al = Some (-2, 0, p)"
          using b0 al n sz by (auto simp: nv_vram_alloc_def)
        with post None show ?thesis by (auto simp: alloc_contract_def un)
      next
        case found: (Some c)
        let ?p' = "p\<lparr>pl_next_handle := pl_next_handle p + 1,
          pl_allocations := ?as[?slot := \<lparr>al_handle = pl_next_handle p, al_offset = c, al_size = n\<rparr>],
          pl_used := pl_used p + n\<rparr>"
        from post found have pl: "place_ok p (unat n) al (unat c)"
          and least: "\<forall>y < unat c. \<not> place_ok p (unat n) al y" by auto
        from pl have in1: "unused p (unat n) (unat c)" "unat c + unat n \<le> unat (pl_size p)"
          by (auto simp: place_ok_def)
        have ret: "nv_vram_alloc p b al = Some (0, pl_next_handle p, ?p')"
          using Some r found b0 al n sz slot len small used nh fresh
          by (simp add: nv_vram_alloc_def)
        have "pool_inv ?p'"
          by (rule pool_inv_insert [OF inv slot empty in1 n0 _ place_page [OF inv al pl] fresh]) (simp add: un)
        moreover have "pool_map ?p' = (pool_map p)(pl_next_handle p \<mapsto> (unat c, unat n))"
          by (rule pool_map_insert [OF inv slot empty refl])
             (simp_all add: insert_entry(1) [OF inv slot empty in1])
        moreover have "pool_map p (pl_next_handle p) = None" by (rule fresh_handle [OF inv order_refl])
        ultimately show ?thesis using ret pl least al
          by (auto simp: alloc_contract_def un Let_def)
      qed
    qed
  qed
qed

lemma alloc_spec:
  assumes inv: "pool_inv p"
  shows "\<exists>rc h p'. nv_vram_alloc p b al = Some (rc, h, p') \<and> alloc_contract p b al rc h p'"
proof (cases "b = 0 \<or> \<not> alignment_valid al \<or> align_up b 4096 = None")
  case True
  have "pl_size p \<noteq> 0" using inv by (auto simp: pool_inv_def)
  moreover have "2 ^ 64 - 4096 < unat b" if "align_up b 4096 = None"
    using that unfolding align_up_def word_less_nat_alt
    by (auto simp: unat_max_minus split: if_splits)
  ultimately show ?thesis using True
    by (auto simp: nv_vram_alloc_def alloc_contract_def split: option.splits)
next
  case False
  then obtain n where al: "alignment_valid al" and b0: "b \<noteq> 0" and n: "align_up b 4096 = Some n" by auto
  let ?as = "pl_allocations p"
  have len: "length ?as = 128" and sz: "pl_size p \<noteq> 0" using inv by (auto simp: pool_inv_def)
  let ?slot = "entry_index ?as 0"
  show ?thesis
  proof (cases "pl_next_handle p = UINT64_MAX \<or> \<not> ?slot < length ?as")
    case True
    then have "nv_vram_alloc p b al = Some (-2, 0, p)"
      using b0 al n sz entry_index_le [of ?as 0] len by (auto simp: nv_vram_alloc_def)
    then show ?thesis using True entry_index_miss [of ?as 0] by (auto simp: alloc_contract_def)
  next
    case False
    then have slot: "?slot < length ?as" and fresh: "pl_next_handle p \<noteq> UINT64_MAX" by auto
    show ?thesis by (rule alloc_contract_slot [OF inv al b0 n fresh slot])
  qed
qed

text \<open>
  C6. On a well-formed pool \<open>nv_vram_alloc\<close> returns and meets its contract.  Success
  takes the next handle, keeps the pool well-formed and adds exactly one range to the handle map: the
  lowest page-rounded range that is aligned as a virtual address, inside the pool and clear of every
  live range.  -2 means that the handles or table entries are used up or that no such range
  exists, and failure leaves the pool as it was.
\<close>

theorem nv_vram_alloc_contract:
  assumes inv: "pool_inv p"
  shows "\<exists>rc h p'. nv_vram_alloc p b al = Some (rc, h, p') \<and> alloc_contract p b al rc h p'"
  using assms by (rule alloc_spec)

lemma pool_map_remove:
  assumes inv: "pool_inv p" and h: "h \<noteq> 0"
    and i: "entry_index (pl_allocations p) h < length (pl_allocations p)"
    and p': "pl_allocations p' = (pl_allocations p)[entry_index (pl_allocations p) h := no_allocation]"
  shows "pool_map p' = (pool_map p)(h := None)"
proof
  fix k
  let ?as = "pl_allocations p" and ?i = "entry_index (pl_allocations p) h"
  have ap: "entries_apart ?as" using inv by (simp add: pool_inv_def)
  note hit = entry_index_hit [OF i]
  show "pool_map p' k = ((pool_map p)(h := None)) k"
  proof (cases "k = h")
    case True
    have "al_handle a \<noteq> h" if "a \<in> set (?as[?i := no_allocation])" for a
    proof -
      from that obtain j where j: "j < length ?as" "a = ?as[?i := no_allocation] ! j"
        by (auto simp: in_set_conv_nth)
      then show ?thesis using entry_index_nth [OF ap j(1)] h
        by (cases "j = ?i") (auto simp: nth_list_update)
    qed
    then have "\<not> entry_index (pl_allocations p') h < length (pl_allocations p')"
      unfolding entry_index_miss p' by blast
    then show ?thesis using True by (simp add: pool_map_def)
  next
    case k: False
    show ?thesis
    proof (cases "k = 0")
      case False
      have "entry_index (pl_allocations p') k = entry_index ?as k"
        unfolding p' by (rule entry_index_update) (use hit k False in auto)
      moreover have "entry_index ?as k \<noteq> ?i" if "entry_index ?as k < length ?as"
        using entry_index_hit [OF that] hit k by auto
      ultimately show ?thesis using k by (auto simp: pool_map_def p' Let_def)
    qed (use k in \<open>simp add: pool_map_def\<close>)
  qed
qed

lemma pool_inv_remove:
  assumes inv: "pool_inv p" and i: "i < length (pl_allocations p)"
  shows "pool_inv (p\<lparr>pl_used := pl_used p - al_size (pl_allocations p ! i),
                     pl_allocations := (pl_allocations p)[i := no_allocation]\<rparr>)" (is "pool_inv ?p'")
proof -
  let ?as = "pl_allocations p"
  have sum: "sizes_sum (?as[i := no_allocation]) + unat (al_size (?as ! i)) = sizes_sum ?as"
    using sizes_sum_update [OF i, of no_allocation] by simp
  then have "unat (pl_used p - al_size (?as ! i)) = sizes_sum (?as[i := no_allocation])"
    using unat_sub_small [of "al_size (?as ! i)" "pl_used p"] inv by (simp add: pool_inv_def)
  moreover have "entry_ok ?p' a" if "a \<in> set (?as[i := no_allocation])" for a
  proof -
    from that consider "a = no_allocation" | "a \<in> set ?as"
      using set_update_subset_insert [of ?as i] by auto
    then show ?thesis
    proof cases
      case 2
      from pool_inv_entry [OF inv 2] show ?thesis by (auto simp: entry_ok_def)
    qed (simp add: entry_ok_def)
  qed
  moreover have "entries_apart (?as[i := no_allocation])"
  proof -
    have ap: "entries_apart ?as" using inv by (simp add: pool_inv_def)
    have keep: "j \<noteq> i" if "j < length ?as" "al_handle (?as[i := no_allocation] ! j) \<noteq> 0" for j
      using that by auto
    show ?thesis unfolding entries_apart_def length_list_update
    proof (intro allI impI, elim conjE, goal_cases)
      case (1 x y)
      then have "x \<noteq> i" "y \<noteq> i" using keep by blast+
      then show ?case using 1 ap by (simp add: entries_apart_def)
    qed
  qed
  ultimately show ?thesis using inv by (simp add: pool_inv_def)
qed

lemma free_spec:
  assumes inv: "pool_inv p"
  shows "case nv_vram_free p h of (rc, p') \<Rightarrow>
     if pool_map p h = None then rc = -1 \<and> p' = p
     else rc = 0 \<and> pool_inv p' \<and> pool_map p' = (pool_map p)(h := None)
          \<and> pl_next_handle p' = pl_next_handle p \<and> pl_phys p' = pl_phys p \<and> pl_va p' = pl_va p
          \<and> pl_size p' = pl_size p"
proof (cases "h \<noteq> 0 \<and> entry_index (pl_allocations p) h < length (pl_allocations p)")
  case True
  have len: "length (pl_allocations p) = 128" using inv by (simp add: pool_inv_def)
  from True obtain v where "pool_map p h = Some v" by (auto simp: pool_map_def Let_def)
  then show ?thesis
    using True len pool_inv_remove [OF inv, of "entry_index (pl_allocations p) h"]
      pool_map_remove [OF inv, of h "snd (nv_vram_free p h)"]
    by (auto simp: nv_vram_free_def Let_def)
next
  case False
  have len: "length (pl_allocations p) = 128" using inv by (simp add: pool_inv_def)
  have "pool_map p h = None" using False by (auto simp: pool_map_def)
  then show ?thesis using False len by (auto simp: nv_vram_free_def Let_def)
qed

text \<open>
  \<open>nv_vram_free\<close> succeeds exactly on live handles; it then removes that handle
  from the map and nothing else, and the pool stays well-formed.  A stale, foreign or zero handle is
  refused and changes nothing.
\<close>

theorem nv_vram_free_contract:
  assumes inv: "pool_inv p"
  shows "case nv_vram_free p h of (rc, p') \<Rightarrow>
     if pool_map p h = None then rc = -1 \<and> p' = p
     else rc = 0 \<and> pool_inv p' \<and> pool_map p' = (pool_map p)(h := None)
          \<and> pl_next_handle p' = pl_next_handle p \<and> pl_phys p' = pl_phys p \<and> pl_va p' = pl_va p
          \<and> pl_size p' = pl_size p"
  using assms by (rule free_spec)

lemma resolve_spec:
  assumes inv: "pool_inv p"
  shows "case nv_vram_resolve p h off n of (rc, phys, va) \<Rightarrow>
     (case pool_map p h of
        Some (b, m) \<Rightarrow>
          if 0 < unat n \<and> unat off + unat n \<le> m
          then rc = 0 \<and> unat phys = unat (pl_phys p) + b + unat off \<and> unat va = unat (pl_va p) + b + unat off
               \<and> unat phys + unat n \<le> unat (pl_phys p) + unat (pl_size p)
               \<and> unat va + unat n \<le> unat (pl_va p) + unat (pl_size p)
          else rc = -1 \<and> phys = 0 \<and> va = 0
      | None \<Rightarrow> rc = -1 \<and> phys = 0 \<and> va = 0)"
proof (cases "h \<noteq> 0 \<and> entry_index (pl_allocations p) h < length (pl_allocations p)")
  case True
  have len: "length (pl_allocations p) = 128" using inv by (simp add: pool_inv_def)
  let ?a = "pl_allocations p ! entry_index (pl_allocations p) h"
  have m: "pool_map p h = Some (unat (al_offset ?a), unat (al_size ?a))" using True by (simp add: pool_map_def Let_def)
  have ok: "unat (al_offset ?a) + unat (al_size ?a) \<le> unat (pl_size p)"
    using pool_inv_entry [OF inv nth_mem [OF conjunct2 [OF True]]] by (auto simp: entry_ok_def split: if_splits)
  have guard: "off > al_size ?a \<or> n > al_size ?a - off \<longleftrightarrow> \<not> unat off + unat n \<le> unat (al_size ?a)"
    by (rule word_bounds_guard)
  have add: "unat (x + al_offset ?a + off) = unat x + unat (al_offset ?a) + unat off"
    if "unat off \<le> unat (al_size ?a)" "unat x + unat (pl_size p) < 2 ^ 64" for x
    using that ok by (simp add: unat_add_small)
  have b: "unat (pl_phys p) + unat (pl_size p) < 2 ^ 64" "unat (pl_va p) + unat (pl_size p) < 2 ^ 64"
    using inv by (simp_all add: pool_inv_def)
  show ?thesis
    using True len m ok guard add [OF _ b(1)] add [OF _ b(2)] unat_gt_0 [of n]
    by (auto simp: nv_vram_resolve_def Let_def)
next
  case False
  have len: "length (pl_allocations p) = 128" using inv by (simp add: pool_inv_def)
  have "pool_map p h = None" using False by (auto simp: pool_map_def)
  then show ?thesis using False len by (auto simp: nv_vram_resolve_def Let_def)
qed

text \<open>
  C19. \<open>nv_vram_resolve\<close> gives out an address pair exactly when the handle is live and
  the non-empty request lies inside its range; the pair is then the pool's bases plus the same
  offset, without wrap-around, and the whole request lies inside the pool.
\<close>

theorem nv_vram_resolve_correct:
  assumes inv: "pool_inv p"
  shows "case nv_vram_resolve p h off n of (rc, phys, va) \<Rightarrow>
     (case pool_map p h of
        Some (b, m) \<Rightarrow>
          if 0 < unat n \<and> unat off + unat n \<le> m
          then rc = 0 \<and> unat phys = unat (pl_phys p) + b + unat off \<and> unat va = unat (pl_va p) + b + unat off
               \<and> unat phys + unat n \<le> unat (pl_phys p) + unat (pl_size p)
               \<and> unat va + unat n \<le> unat (pl_va p) + unat (pl_size p)
          else rc = -1 \<and> phys = 0 \<and> va = 0
      | None \<Rightarrow> rc = -1 \<and> phys = 0 \<and> va = 0)"
  using assms by (rule resolve_spec)

section \<open>Histories of a pool\<close>

lemma pool_map_inside:
  assumes "pool_inv p" "pool_map p h = Some (b, m)"
  shows "0 < m \<and> b + m \<le> unat (pl_size p)"
proof -
  let ?i = "entry_index (pl_allocations p) h"
  from assms(2) have i: "h \<noteq> 0" "?i < length (pl_allocations p)"
    and v: "b = unat (al_offset (pl_allocations p ! ?i))" "m = unat (al_size (pl_allocations p ! ?i))"
    by (auto simp: pool_map_Some)
  from pool_inv_entry [OF assms(1) nth_mem [OF i(2)]] entry_index_hit [OF i(2)] i(1) v
  show ?thesis by (auto simp: entry_ok_def)
qed

lemma pool_map_apart:
  assumes inv: "pool_inv p" and "pool_map p h = Some (b, m)" "pool_map p k = Some (c, n)" "h \<noteq> k"
  shows "b + m \<le> c \<or> c + n \<le> b"
proof -
  let ?i = "entry_index (pl_allocations p) h" and ?j = "entry_index (pl_allocations p) k"
  from assms have i: "h \<noteq> 0" "?i < length (pl_allocations p)" "k \<noteq> 0" "?j < length (pl_allocations p)"
    and v: "b = unat (al_offset (pl_allocations p ! ?i))" "m = unat (al_size (pl_allocations p ! ?i))"
      "c = unat (al_offset (pl_allocations p ! ?j))" "n = unat (al_size (pl_allocations p ! ?j))"
    by (auto simp: pool_map_Some)
  from entry_index_hit [OF i(2)] entry_index_hit [OF i(4)] i(1,3) assms(4)
  have "?i \<noteq> ?j" "al_handle (pl_allocations p ! ?i) \<noteq> 0" "al_handle (pl_allocations p ! ?j) \<noteq> 0" by auto
  moreover have "entries_apart (pl_allocations p)" using inv by (simp add: pool_inv_def)
  ultimately show ?thesis using i(2,4) unfolding v entries_apart_def by blast
qed

text \<open>
  The states a client can reach: the pool is initialised once and then only changed by the
  two operations.  The list holds the handles given out so far, newest first.
\<close>

inductive pool_run :: "nv_vram_pool \<Rightarrow> u64 list \<Rightarrow> bool" where
  init: "nv_vram_pool_init q phys va sz = (0, p) \<Longrightarrow> pool_run p []"
| alloc: "pool_run p hs \<Longrightarrow> nv_vram_alloc p b al = Some (0, h, p') \<Longrightarrow> pool_run p' (h # hs)"
| free: "pool_run p hs \<Longrightarrow> nv_vram_free p h = (rc, p') \<Longrightarrow> pool_run p' hs"

lemma pool_init_inv:
  assumes "nv_vram_pool_init q phys va sz = (0, p)"
  shows "pool_inv p" "pool_map p = Map.empty" "pl_phys p = phys" "pl_va p = va" "pl_size p = sz"
    "pl_next_handle p = 1"
proof -
  let ?e = "no_allocation"
  from assms have g: "(phys OR va OR sz) AND mask 12 = 0" "span_valid phys sz" "span_valid va sz"
    and p: "p = \<lparr>pl_phys = phys, pl_va = va, pl_size = sz, pl_used = 0, pl_next_handle = 1,
                 pl_allocations = replicate 128 ?e\<rparr>"
    by (auto simp: nv_vram_pool_init_def mask_eq_exp_minus_1 split: if_splits)
  from g(1) have "phys AND mask 12 = 0" "va AND mask 12 = 0" "sz AND mask 12 = 0"
    by (simp_all add: bit.conj_disj_distrib2 word_or_zero_iff)
  then have "4096 dvd unat phys" "4096 dvd unat va" "4096 dvd unat sz"
    unfolding dvd_mask_iff by simp_all
  then show "pool_inv p" using g(2,3) unfolding p
    by (auto simp: pool_inv_def span_valid_iff entry_ok_def entries_apart_def sizes_sum_def)
  have "\<not> entry_index (replicate 128 ?e) h < length (replicate 128 ?e)" if "h \<noteq> 0" for h
    unfolding entry_index_miss using that by simp
  then show "pool_map p = Map.empty" unfolding p by (auto simp: pool_map_def fun_eq_iff Let_def)
  show "pl_phys p = phys" "pl_va p = va" "pl_size p = sz" "pl_next_handle p = 1" by (simp_all add: p)
qed

lemma alloc_success:
  assumes "pool_inv p" "nv_vram_alloc p b al = Some (0, h, p')"
  shows "alloc_contract p b al 0 h p'"
  using alloc_spec [OF assms(1), of b al] assms(2) by auto

text \<open>
  C20. Whatever the order of calls, every pool a client can reach is well-formed; no handle is
  ever given out twice (a freed handle stays dead); only handles that were given out are live; and two
  live handles own disjoint ranges inside the pool.
\<close>

theorem pool_histories:
  assumes "pool_run p hs"
  shows "pool_inv p \<and> distinct hs \<and> (\<forall>h \<in> set hs. 0 < h \<and> h < pl_next_handle p)
    \<and> dom (pool_map p) \<subseteq> set hs
    \<and> (\<forall>h k b m c n. pool_map p h = Some (b, m) \<and> pool_map p k = Some (c, n) \<and> h \<noteq> k
          \<longrightarrow> b + m \<le> c \<or> c + n \<le> b)
    \<and> (\<forall>h b m. pool_map p h = Some (b, m) \<longrightarrow> 0 < m \<and> b + m \<le> unat (pl_size p))"
proof -
  have core: "pool_inv p \<and> distinct hs \<and> (\<forall>h \<in> set hs. 0 < h \<and> h < pl_next_handle p)
    \<and> dom (pool_map p) \<subseteq> set hs"
    using assms
  proof induction
    case (init q phys va sz p)
    then show ?case using pool_init_inv by (metis dom_empty empty_iff empty_set distinct.simps(1) subsetI)
  next
    case (alloc p hs b al h p')
    have lt: "h < h + 1" "0 < h" if "h = pl_next_handle p" "pl_next_handle p' = h + 1" "pool_inv p'" "pool_inv p"
      using that by (auto simp: pool_inv_def word_neq_0_conv intro: word_less_Suc)
    from alloc_success [OF _ alloc.hyps(2)] alloc.IH lt
    show ?case by (fastforce simp: alloc_contract_def Let_def)
  next
    case (free p hs h rc p')
    then show ?case using free_spec [of p h] by (auto split: if_splits)
  qed
  then have inv: "pool_inv p" by blast
  from core show ?thesis using pool_map_apart [OF inv] pool_map_inside [OF inv] by blast
qed

section \<open>Concrete runs\<close>

definition demo_pool :: nv_vram_pool where
  "demo_pool = \<lparr>pl_phys = 0x100000, pl_va = 0x20000000, pl_size = 0x10000, pl_used = 0,
     pl_next_handle = 1, pl_allocations = replicate NV_VRAM_MAX_ALLOCS no_allocation\<rparr>"

lemma demo_pool_init: "nv_vram_pool_init demo_pool 0x100000 0x20000000 0x10000 = (0, demo_pool)"
  by (simp add: nv_vram_pool_init_def demo_pool_def span_valid_def)

lemma demo_pool_inv: "pool_inv demo_pool"
  by (rule pool_init_inv [OF demo_pool_init])

declare gap_scan.simps [code]

lemma demo_alloc:
  "\<exists>p'. nv_vram_alloc demo_pool 0x1800 0x2000 = Some (0, 1, p')"
proof -
  have "map_option (\<lambda>(rc, h, p). (rc, h)) (nv_vram_alloc demo_pool 0x1800 0x2000) = Some (0, 1)"
    by code_simp
  then show ?thesis by auto
qed

theorem nv_vram_find_range_witness:
  "\<exists>s. nv_vram_find_range [\<lparr>sp_base = 0x1000, sp_size = 0x6000\<rparr>] [\<lparr>sp_base = 0x2000, sp_size = 0x800\<rparr>]
          0x2000 0x1000 = Some (0, s) \<and> sp_size s = 0x2000
     \<and> range_ok [\<lparr>sp_base = 0x1000, sp_size = 0x6000\<rparr>] [\<lparr>sp_base = 0x2000, sp_size = 0x800\<rparr>]
          0x2000 0x1000 (unat (sp_base s))"
proof -
  have "map_option fst (nv_vram_find_range [\<lparr>sp_base = 0x1000, sp_size = 0x6000\<rparr>]
      [\<lparr>sp_base = 0x2000, sp_size = 0x800\<rparr>] 0x2000 0x1000) = Some 0" by code_simp
  then show ?thesis
    using nv_vram_find_range_correct [where available = "[\<lparr>sp_base = 0x1000, sp_size = 0x6000\<rparr>]"
        and bytes = "0x2000" and al = "0x1000" and excluded = "[\<lparr>sp_base = 0x2000, sp_size = 0x800\<rparr>]"]
    by (auto simp: alignment_valid_def spans_ok_def span_valid_def)
qed

theorem nv_vram_alloc_witness:
  "\<exists>p'. nv_vram_alloc demo_pool 0x1800 0x2000 = Some (0, 1, p')
        \<and> alloc_contract demo_pool 0x1800 0x2000 0 1 p'"
  using nv_vram_alloc_contract [OF demo_pool_inv, of "0x1800" "0x2000"] demo_alloc by auto

theorem nv_vram_free_witness:
  "nv_vram_free demo_pool 7 = (-1, demo_pool)
   \<and> (\<exists>p. pool_map p 1 \<noteq> None \<and> fst (nv_vram_free p 1) = 0 \<and> pool_map (snd (nv_vram_free p 1)) 1 = None)"
proof -
  obtain p where p: "nv_vram_alloc demo_pool 0x1800 0x2000 = Some (0, 1, p)" using demo_alloc by blast
  from alloc_success [OF demo_pool_inv p] have "pool_inv p" "pool_map p 1 \<noteq> None"
    by (auto simp: alloc_contract_def Let_def)
  with nv_vram_free_contract [OF this(1), of 1] nv_vram_free_contract [OF demo_pool_inv, of 7]
  show ?thesis using pool_init_inv(2) [OF demo_pool_init]
    by (intro conjI exI [of _ p]) (auto split: prod.splits if_splits)
qed

theorem nv_vram_resolve_witness:
  "\<exists>p phys va. pool_map p 1 \<noteq> None \<and> nv_vram_resolve p 1 0x10 0x20 = (0, phys, va)
     \<and> unat va + 0x20 \<le> 0x20010000"
proof -
  obtain p where p: "nv_vram_alloc demo_pool 0x1800 0x2000 = Some (0, 1, p)" using demo_alloc by blast
  from alloc_success [OF demo_pool_inv p] obtain c where inv: "pool_inv p"
    and m: "pool_map p 1 = Some (c, roundup 4096 0x1800)"
    and base: "pl_va p = pl_va demo_pool" "pl_size p = pl_size demo_pool"
    by (auto simp: alloc_contract_def Let_def)
  have "0x30 \<le> roundup 4096 0x1800" by (simp add: roundup_def)
  with nv_vram_resolve_correct [OF inv, where h = 1 and off = "0x10" and n = "0x20"] m base
  show ?thesis by (intro exI [of _ p]) (auto simp: demo_pool_def split: prod.splits)
qed

theorem pool_histories_witness:
  "\<exists>p. pool_run p [1] \<and> distinct [1 :: u64] \<and> pool_inv p \<and> dom (pool_map p) \<subseteq> {1}"
proof -
  obtain p where "nv_vram_alloc demo_pool 0x1800 0x2000 = Some (0, 1, p)" using demo_alloc by blast
  then have "pool_run p [1]" using pool_run.init [OF demo_pool_init] pool_run.alloc by blast
  with pool_histories [OF this] show ?thesis by auto
qed

end
