(* ===== verification/Gmmu.thy ===== *)
theory Gmmu
  imports Mmio
begin

text \<open>
  \<open>driver/gsp/gmmu.c\<close>: access to VRAM through the 1 MiB PRAMIN window of BAR0, and
  the page tables the driver writes through it.  State is the pair of the cached window base
  (\<open>*win_base\<close>) and the hardware.  Loops are \<^const>\<open>for_upto\<close>, so a builder
  is \<^const>\<open>None\<close> only if a loop does not end.
\<close>

section \<open>PRAMIN\<close>

abbreviation NV_PBUS_BAR0_WINDOW :: u32 where "NV_PBUS_BAR0_WINDOW \<equiv> 0x1700"
abbreviation NV_PBUS_BAR0_WINDOW_BASE_SHIFT :: nat where "NV_PBUS_BAR0_WINDOW_BASE_SHIFT \<equiv> 16"
abbreviation NV_PBUS_BAR0_WINDOW_TARGET_VID_MEM :: u32 where "NV_PBUS_BAR0_WINDOW_TARGET_VID_MEM \<equiv> 0"
abbreviation NV_PRAMIN_WINDOW_OFFSET :: u32 where "NV_PRAMIN_WINDOW_OFFSET \<equiv> 0x700000"
abbreviation NV_PRAMIN_WINDOW_SIZE :: u32 where "NV_PRAMIN_WINDOW_SIZE \<equiv> 0x100000"
abbreviation NV_PRAMIN_WINDOW_MASK :: u32 where "NV_PRAMIN_WINDOW_MASK \<equiv> NV_PRAMIN_WINDOW_SIZE - 1"

type_synonym 'w pramin = "u64 \<times> 'w"

definition pramin_aim :: "'w mmio \<Rightarrow> u64 \<Rightarrow> 'w pramin \<Rightarrow> 'w pramin" where
  "pramin_aim io phys = (\<lambda>(win_base, w).
     let base = phys AND NOT (ucast NV_PRAMIN_WINDOW_MASK) in
     if win_base = base then (win_base, w)
     else let reg = ucast (drop_bit NV_PBUS_BAR0_WINDOW_BASE_SHIFT base)
                    OR push_bit 24 NV_PBUS_BAR0_WINDOW_TARGET_VID_MEM
          in (base, io_wr io NV_PBUS_BAR0_WINDOW reg w))"

definition nv_pramin_rd32 :: "'w mmio \<Rightarrow> u64 \<Rightarrow> 'w pramin \<Rightarrow> u32 \<times> 'w pramin" where
  "nv_pramin_rd32 io phys st =
     (let (win_base, w) = pramin_aim io phys st;
          off = ucast (phys AND ucast NV_PRAMIN_WINDOW_MASK);
          (v, w') = io_rd io (NV_PRAMIN_WINDOW_OFFSET + off) w
      in (v, (win_base, w')))"

definition nv_pramin_wr32 :: "'w mmio \<Rightarrow> u64 \<Rightarrow> u32 \<Rightarrow> 'w pramin \<Rightarrow> 'w pramin" where
  "nv_pramin_wr32 io phys val st =
     (let (win_base, w) = pramin_aim io phys st;
          off = ucast (phys AND ucast NV_PRAMIN_WINDOW_MASK)
      in (win_base, io_wr io (NV_PRAMIN_WINDOW_OFFSET + off) val w))"

definition nv_pramin_wr64 :: "'w mmio \<Rightarrow> u64 \<Rightarrow> u64 \<Rightarrow> 'w pramin \<Rightarrow> 'w pramin" where
  "nv_pramin_wr64 io phys val st =
     nv_pramin_wr32 io (phys + 4) (ucast (drop_bit 32 val))
       (nv_pramin_wr32 io phys (ucast (val AND 0xffffffff)) st)"

definition nv_pramin_fill ::
  "'w mmio \<Rightarrow> u64 \<Rightarrow> u32 \<Rightarrow> u32 \<Rightarrow> 'w pramin \<Rightarrow> 'w pramin option" where
  "nv_pramin_fill io phys len val =
     for_upto 4 len (\<lambda>i st. Some (nv_pramin_wr32 io (phys + ucast i) val st)) 0"

section \<open>Table geometry and entries\<close>

abbreviation NV_GMMU_VA_BITS :: nat where "NV_GMMU_VA_BITS \<equiv> 49"
abbreviation NV_GMMU_PAGE_SHIFT :: nat where "NV_GMMU_PAGE_SHIFT \<equiv> 12"
abbreviation NV_GMMU_LEVELS :: nat where "NV_GMMU_LEVELS \<equiv> 5"
abbreviation NV_GMMU_PD3_SHIFT :: nat where "NV_GMMU_PD3_SHIFT \<equiv> 47"
abbreviation NV_GMMU_PD2_SHIFT :: nat where "NV_GMMU_PD2_SHIFT \<equiv> 38"
abbreviation NV_GMMU_PD1_SHIFT :: nat where "NV_GMMU_PD1_SHIFT \<equiv> 29"
abbreviation NV_GMMU_PD0_SHIFT :: nat where "NV_GMMU_PD0_SHIFT \<equiv> 21"
abbreviation NV_GMMU_SPT_SHIFT :: nat where "NV_GMMU_SPT_SHIFT \<equiv> 12"
abbreviation NV_GMMU_PD3_ENTRIES :: u32 where "NV_GMMU_PD3_ENTRIES \<equiv> 4"
abbreviation NV_GMMU_PD2_ENTRIES :: u32 where "NV_GMMU_PD2_ENTRIES \<equiv> 512"
abbreviation NV_GMMU_PD1_ENTRIES :: u32 where "NV_GMMU_PD1_ENTRIES \<equiv> 512"
abbreviation NV_GMMU_PD0_ENTRIES :: u32 where "NV_GMMU_PD0_ENTRIES \<equiv> 256"
abbreviation NV_GMMU_SPT_ENTRIES :: u32 where "NV_GMMU_SPT_ENTRIES \<equiv> 512"
abbreviation NV_GMMU_PDE_SIZE :: u32 where "NV_GMMU_PDE_SIZE \<equiv> 8"
abbreviation NV_GMMU_PD0E_SIZE :: u32 where "NV_GMMU_PD0E_SIZE \<equiv> 16"
abbreviation NV_GMMU_PTE_SIZE :: u32 where "NV_GMMU_PTE_SIZE \<equiv> 8"
abbreviation NV_GMMU_PD0_SMALL_OFF :: u64 where "NV_GMMU_PD0_SMALL_OFF \<equiv> 8"
abbreviation NV_GMMU_PTE_VALID :: u64 where "NV_GMMU_PTE_VALID \<equiv> 1"
abbreviation NV_GMMU_PTE_PRIV :: u64 where "NV_GMMU_PTE_PRIV \<equiv> 32"
abbreviation NV_GMMU_PTE_RO :: u64 where "NV_GMMU_PTE_RO \<equiv> 64"
abbreviation NV_GMMU_PTE_ADDR_SHIFT :: nat where "NV_GMMU_PTE_ADDR_SHIFT \<equiv> 4"
abbreviation NV_GMMU_PDE_APERTURE_VIDMEM :: u64 where "NV_GMMU_PDE_APERTURE_VIDMEM \<equiv> 2"
abbreviation NV_GMMU_PDE_ADDR_SHIFT :: nat where "NV_GMMU_PDE_ADDR_SHIFT \<equiv> 4"

definition nv_gmmu_pde_index :: "u64 \<Rightarrow> nat \<Rightarrow> u32 \<Rightarrow> u32" where
  "nv_gmmu_pde_index va level_shift entries = ucast (drop_bit level_shift va AND ucast (entries - 1))"

definition nv_gmmu_make_pte_vram :: "u64 \<Rightarrow> bool \<Rightarrow> bool \<Rightarrow> u64" where
  "nv_gmmu_make_pte_vram phys read_only priv =
     (let data = drop_bit NV_GMMU_PTE_ADDR_SHIFT phys OR NV_GMMU_PTE_VALID;
          data = (if priv then data OR NV_GMMU_PTE_PRIV else data)
      in if read_only then data OR NV_GMMU_PTE_RO else data)"

definition nv_gmmu_make_pde_vram :: "u64 \<Rightarrow> u64" where
  "nv_gmmu_make_pde_vram pt_phys = drop_bit NV_GMMU_PDE_ADDR_SHIFT pt_phys OR NV_GMMU_PDE_APERTURE_VIDMEM"

section \<open>One branch of tables\<close>

record nv_gmmu_tables =
  pd3_phys :: u64
  pd2_phys :: u64
  pd1_phys :: u64
  pd0_phys :: u64
  spt_phys :: u64

definition nv_gmmu_zero_table :: "'w mmio \<Rightarrow> u64 \<Rightarrow> u32 \<Rightarrow> 'w pramin \<Rightarrow> 'w pramin option" where
  "nv_gmmu_zero_table io table_phys bytes = nv_pramin_fill io table_phys bytes 0"

definition gmmu_write_pde_chain :: "'w mmio \<Rightarrow> nv_gmmu_tables \<Rightarrow> u64 \<Rightarrow> 'w pramin \<Rightarrow> 'w pramin" where
  "gmmu_write_pde_chain io t va st =
     (let i3 = nv_gmmu_pde_index va NV_GMMU_PD3_SHIFT NV_GMMU_PD3_ENTRIES;
          st = nv_pramin_wr64 io (pd3_phys t + ucast i3 * ucast NV_GMMU_PDE_SIZE)
                 (nv_gmmu_make_pde_vram (pd2_phys t)) st;
          i2 = nv_gmmu_pde_index va NV_GMMU_PD2_SHIFT NV_GMMU_PD2_ENTRIES;
          st = nv_pramin_wr64 io (pd2_phys t + ucast i2 * ucast NV_GMMU_PDE_SIZE)
                 (nv_gmmu_make_pde_vram (pd1_phys t)) st;
          i1 = nv_gmmu_pde_index va NV_GMMU_PD1_SHIFT NV_GMMU_PD1_ENTRIES;
          st = nv_pramin_wr64 io (pd1_phys t + ucast i1 * ucast NV_GMMU_PDE_SIZE)
                 (nv_gmmu_make_pde_vram (pd0_phys t)) st;
          i0 = nv_gmmu_pde_index va NV_GMMU_PD0_SHIFT NV_GMMU_PD0_ENTRIES;
          pd0e = pd0_phys t + ucast i0 * ucast NV_GMMU_PD0E_SIZE;
          st = nv_pramin_wr64 io pd0e 0 st
      in nv_pramin_wr64 io (pd0e + NV_GMMU_PD0_SMALL_OFF) (nv_gmmu_make_pde_vram (spt_phys t)) st)"

definition gmmu_zero_branch :: "'w mmio \<Rightarrow> nv_gmmu_tables \<Rightarrow> 'w pramin \<Rightarrow> 'w pramin option" where
  "gmmu_zero_branch io t st =
     do { st \<leftarrow> nv_gmmu_zero_table io (pd3_phys t) (NV_GMMU_PD3_ENTRIES * NV_GMMU_PDE_SIZE) st;
          st \<leftarrow> nv_gmmu_zero_table io (pd2_phys t) (NV_GMMU_PD2_ENTRIES * NV_GMMU_PDE_SIZE) st;
          st \<leftarrow> nv_gmmu_zero_table io (pd1_phys t) (NV_GMMU_PD1_ENTRIES * NV_GMMU_PDE_SIZE) st;
          st \<leftarrow> nv_gmmu_zero_table io (pd0_phys t) (NV_GMMU_PD0_ENTRIES * NV_GMMU_PD0E_SIZE) st;
          nv_gmmu_zero_table io (spt_phys t) (NV_GMMU_SPT_ENTRIES * NV_GMMU_PTE_SIZE) st }"

definition nv_gmmu_build_1page ::
  "'w mmio \<Rightarrow> nv_gmmu_tables \<Rightarrow> u64 \<Rightarrow> u64 \<Rightarrow> 'w pramin \<Rightarrow> (int \<times> 'w pramin) option" where
  "nv_gmmu_build_1page io t va page_phys st =
     do { st \<leftarrow> gmmu_zero_branch io t st;
          let st = gmmu_write_pde_chain io t va st;
              is = nv_gmmu_pde_index va NV_GMMU_SPT_SHIFT NV_GMMU_SPT_ENTRIES
          in Some (0, nv_pramin_wr64 io (spt_phys t + ucast is * ucast NV_GMMU_PTE_SIZE)
                        (nv_gmmu_make_pte_vram page_phys False False) st) }"

definition nv_gmmu_map_range ::
  "'w mmio \<Rightarrow> nv_gmmu_tables \<Rightarrow> u64 \<Rightarrow> u64 \<Rightarrow> u32 \<Rightarrow> 'w pramin \<Rightarrow> (int \<times> 'w pramin) option" where
  "nv_gmmu_map_range io t va page_phys npages st =
     (let is0 = nv_gmmu_pde_index va NV_GMMU_SPT_SHIFT NV_GMMU_SPT_ENTRIES in
      if (ucast is0 :: u64) + ucast npages > ucast NV_GMMU_SPT_ENTRIES then Some (-1, st)
      else do { st \<leftarrow> gmmu_zero_branch io t st;
                let st = gmmu_write_pde_chain io t va st
                in do { st \<leftarrow> for_upto 1 npages (\<lambda>k st.
                           let pte = nv_gmmu_make_pte_vram (page_phys + ucast k * 0x1000) False False
                           in Some (nv_pramin_wr64 io
                                (spt_phys t + ucast (is0 + k) * ucast NV_GMMU_PTE_SIZE) pte st)) 0 st;
                        Some (0, st) } })"

definition nv_gmmu_read_pte :: "'w mmio \<Rightarrow> u64 \<Rightarrow> u64 \<Rightarrow> 'w pramin \<Rightarrow> u64 \<times> 'w pramin" where
  "nv_gmmu_read_pte io spt va st =
     (let is = nv_gmmu_pde_index va NV_GMMU_SPT_SHIFT NV_GMMU_SPT_ENTRIES;
          pa = spt + ucast is * ucast NV_GMMU_PTE_SIZE;
          (lo, st) = nv_pramin_rd32 io pa st;
          (hi, st) = nv_pramin_rd32 io (pa + 4) st
      in (ucast lo OR push_bit 32 (ucast hi), st))"

section \<open>A range over many branches\<close>

abbreviation PRAMIN_PHYS_END :: u64 where "PRAMIN_PHYS_END \<equiv> 0x10000000000"
abbreviation GMMU_PAGE_BYTES :: u64 where "GMMU_PAGE_BYTES \<equiv> 0x1000"

definition range_shift :: "nat \<Rightarrow> nat" where
  "range_shift level = [49, 47, 38, 29, 21] ! level"

definition range_entries :: "nat \<Rightarrow> u32" where
  "range_entries level = [4, 512, 512, 256, 512] ! level"

text \<open>The two arrays of the struct are lists of length 5.\<close>

record nv_gmmu_range =
  rg_va :: u64
  rg_bytes :: u64
  rg_table_phys :: u64
  rg_table_bytes :: u64
  rg_level_phys :: "u64 list"
  rg_level_count :: "u32 list"

abbreviation no_range :: nv_gmmu_range where
  "no_range \<equiv> \<lparr>rg_va = 0, rg_bytes = 0, rg_table_phys = 0, rg_table_bytes = 0,
     rg_level_phys = replicate NV_GMMU_LEVELS 0, rg_level_count = replicate NV_GMMU_LEVELS 0\<rparr>"

definition range_plan_level :: "u64 \<Rightarrow> nat \<Rightarrow> nv_gmmu_range \<Rightarrow> nv_gmmu_range" where
  "range_plan_level vlast level p =
     (let count = drop_bit (range_shift level) vlast - drop_bit (range_shift level) (rg_va p) + 1
      in p\<lparr>rg_level_count := (rg_level_count p)[level := ucast count],
           rg_level_phys := (rg_level_phys p)[level := rg_table_phys p + rg_table_bytes p],
           rg_table_bytes := rg_table_bytes p + count * GMMU_PAGE_BYTES\<rparr>)"

definition nv_gmmu_range_plan :: "u64 \<Rightarrow> u64 \<Rightarrow> u64 \<Rightarrow> u64 \<Rightarrow> int \<times> nv_gmmu_range" where
  "nv_gmmu_range_plan va bytes table_phys capacity =
     (let va_end = push_bit NV_GMMU_VA_BITS 1 in
      if bytes = 0 \<or> (va OR bytes OR table_phys) AND (GMMU_PAGE_BYTES - 1) \<noteq> 0
         \<or> va \<ge> va_end \<or> bytes > va_end - va
         \<or> bytes > PRAMIN_PHYS_END \<or> table_phys \<ge> PRAMIN_PHYS_END
      then (-1, no_range)
      else let p = no_range\<lparr>rg_va := va, rg_bytes := bytes, rg_table_phys := table_phys\<rparr>;
               vlast = va + bytes - 1;
               p = fold (range_plan_level vlast) [0..<NV_GMMU_LEVELS] p
           in if rg_table_bytes p > PRAMIN_PHYS_END - table_phys then (-1, no_range)
              else (if capacity < rg_table_bytes p then -2 else 0, p))"

definition range_pde :: "'w mmio \<Rightarrow> nv_gmmu_range \<Rightarrow> nat \<Rightarrow> u32 \<Rightarrow> 'w pramin \<Rightarrow> 'w pramin" where
  "range_pde io r child n st =
     (let parent = child - 1;
          first = drop_bit (range_shift child) (rg_va r);
          address = push_bit (range_shift child) (first + ucast n);
          parent_num = drop_bit (range_shift parent) address - drop_bit (range_shift parent) (rg_va r);
          index = (first + ucast n) AND ucast (range_entries parent - 1);
          stride = (if parent = 3 then ucast NV_GMMU_PD0E_SIZE else ucast NV_GMMU_PDE_SIZE);
          entry = rg_level_phys r ! parent + parent_num * GMMU_PAGE_BYTES + index * stride;
          entry = (if parent = 3 then entry + NV_GMMU_PD0_SMALL_OFF else entry)
      in nv_pramin_wr64 io entry
           (nv_gmmu_make_pde_vram (rg_level_phys r ! child + ucast n * GMMU_PAGE_BYTES)) st)"

definition range_pte :: "'w mmio \<Rightarrow> nv_gmmu_range \<Rightarrow> u64 \<Rightarrow> u64 \<Rightarrow> 'w pramin \<Rightarrow> 'w pramin" where
  "range_pte io r phys offset st =
     (let address = rg_va r + offset;
          leaf = drop_bit NV_GMMU_PD0_SHIFT address - drop_bit NV_GMMU_PD0_SHIFT (rg_va r);
          index = drop_bit NV_GMMU_PAGE_SHIFT address AND ucast (NV_GMMU_SPT_ENTRIES - 1)
      in nv_pramin_wr64 io
           (rg_level_phys r ! 4 + leaf * GMMU_PAGE_BYTES + index * ucast NV_GMMU_PTE_SIZE)
           (nv_gmmu_make_pte_vram (phys + offset) False False) st)"

definition nv_gmmu_range_build ::
  "'w mmio \<Rightarrow> nv_gmmu_range \<Rightarrow> u64 \<Rightarrow> 'w pramin \<Rightarrow> (int \<times> 'w pramin) option" where
  "nv_gmmu_range_build io r phys st =
     (let (rc, checked) = nv_gmmu_range_plan (rg_va r) (rg_bytes r) (rg_table_phys r) (rg_table_bytes r) in
      if rc \<noteq> 0 \<or> rg_table_bytes r \<noteq> rg_table_bytes checked \<or> phys AND (GMMU_PAGE_BYTES - 1) \<noteq> 0
         \<or> phys \<ge> PRAMIN_PHYS_END \<or> rg_bytes r > PRAMIN_PHYS_END - phys then Some (-1, st)
      else if \<exists>level \<in> set [0..<NV_GMMU_LEVELS].
                rg_level_phys r ! level \<noteq> rg_level_phys checked ! level
                \<or> rg_level_count r ! level \<noteq> rg_level_count checked ! level then Some (-1, st)
      else if phys < rg_table_phys r + rg_table_bytes r \<and> rg_table_phys r < phys + rg_bytes r
      then Some (-1, st)
      else do {
        st \<leftarrow> for_upto GMMU_PAGE_BYTES (rg_table_bytes r)
               (\<lambda>offset. nv_gmmu_zero_table io (rg_table_phys r + offset) (ucast GMMU_PAGE_BYTES)) 0 st;
        st \<leftarrow> mfold (\<lambda>child. for_upto 1 (rg_level_count r ! child)
                        (\<lambda>n st. Some (range_pde io r child n st)) 0) [1..<NV_GMMU_LEVELS] st;
        st \<leftarrow> for_upto GMMU_PAGE_BYTES (rg_bytes r)
               (\<lambda>offset st. Some (range_pte io r phys offset st)) 0 st;
        Some (0, st) })"

section \<open>What the window promises\<close>

text \<open>
  The hardware side, from the header's description of the two BAR0 areas: writing
  \<open>base >> 16\<close> to 0x1700 moves the window over VRAM, and the 1 MiB at 0x700000 then shows
  the VRAM behind it.  \<open>win\<close> is where the window stands, \<open>mem\<close> the VRAM contents by
  the byte address of each 32-bit word.
\<close>

definition pramin_dev :: "'w mmio \<Rightarrow> ('w \<Rightarrow> u64) \<Rightarrow> ('w \<Rightarrow> nat \<Rightarrow> u32) \<Rightarrow> bool" where
  "pramin_dev io win mem \<longleftrightarrow>
     (\<forall>w v. v < 0x1000000 \<longrightarrow>
        win (io_wr io 0x1700 v w) = push_bit 16 (ucast v) \<and> mem (io_wr io 0x1700 v w) = mem w) \<and>
     (\<forall>w off v. off < 0x100000 \<and> 4 dvd unat off \<longrightarrow>
        win (io_wr io (0x700000 + off) v w) = win w \<and>
        mem (io_wr io (0x700000 + off) v w) = (mem w)(unat (win w) + unat off := v)) \<and>
     (\<forall>w off. off < 0x100000 \<and> 4 dvd unat off \<longrightarrow>
        fst (io_rd io (0x700000 + off) w) = mem w (unat (win w) + unat off) \<and>
        win (snd (io_rd io (0x700000 + off) w)) = win w \<and>
        mem (snd (io_rd io (0x700000 + off) w)) = mem w)"

text \<open>The cached base is right, or it is a value no window base has (the initial \<open>~0\<close>).\<close>

definition coherent :: "('w \<Rightarrow> u64) \<Rightarrow> 'w pramin \<Rightarrow> bool" where
  "coherent win st \<longleftrightarrow> (fst st AND mask 20 = 0 \<longrightarrow> win (snd st) = fst st)"

text \<open>A port to 32-bit words of memory: what the table builders need from the window code.\<close>

locale pramin_port =
  fixes wr :: "'c \<Rightarrow> u64 \<Rightarrow> u32 \<Rightarrow> 's \<Rightarrow> 's" and rd :: "'c \<Rightarrow> u64 \<Rightarrow> 's \<Rightarrow> u32 \<times> 's"
    and dev :: "'c \<Rightarrow> bool" and coh :: "'c \<Rightarrow> 's \<Rightarrow> bool" and mem :: "'c \<Rightarrow> 's \<Rightarrow> nat \<Rightarrow> u32"
  assumes wr_law: "\<lbrakk>dev c; coh c s; unat a < 2 ^ 40; 4 dvd unat a\<rbrakk> \<Longrightarrow>
          coh c (wr c a v s) \<and> mem c (wr c a v s) = (mem c s)(unat a := v)"
    and rd_law: "\<lbrakk>dev c; coh c s; unat a < 2 ^ 40; 4 dvd unat a\<rbrakk> \<Longrightarrow>
          fst (rd c a s) = mem c s (unat a) \<and> coh c (snd (rd c a s)) \<and> mem c (snd (rd c a s)) = mem c s"
begin

lemma wr_rd:
  assumes "dev c" "coh c s" "unat a < 2 ^ 40" "4 dvd unat a"
  shows "fst (rd c a (wr c a v s)) = v"
  using assms wr_law rd_law by fastforce

lemma wr_fill:
  assumes "dev c" "coh c s" "4 dvd unat a" "unat a + 4 * n \<le> 2 ^ 40"
  shows "coh c (fold (\<lambda>k. wr c (a + of_nat k * 4) v) [0..<n] s) \<and>
    mem c (fold (\<lambda>k. wr c (a + of_nat k * 4) v) [0..<n] s) =
      (\<lambda>b. if unat a \<le> b \<and> b < unat a + 4 * n \<and> 4 dvd b then v else mem c s b)"
  using assms(4)
proof (induction n)
  case (Suc n)
  have "unat (of_nat n * 4 :: u64) = 4 * n"
    using Suc.prems unat_of_nat [of "4 * n", where 'a = 64] by (simp add: mult.commute)
  then have u: "unat (a + of_nat n * 4) = unat a + 4 * n"
    using Suc.prems by (subst unat_add_small) simp_all
  have d: "4 dvd unat a + 4 * n" using assms(3) by simp
  have cell: "b = unat a + 4 * n \<longleftrightarrow> unat a + 4 * n \<le> b \<and> b < unat a + 4 * Suc n" if "4 dvd b" for b
    using that d by (auto simp: dvd_def)
  let ?s = "fold (\<lambda>k. wr c (a + of_nat k * 4) v) [0..<n] s"
  have c: "coh c (wr c (a + of_nat n * 4) v ?s)"
    and m: "mem c (wr c (a + of_nat n * 4) v ?s) = (mem c ?s)(unat a + 4 * n := v)"
    using wr_law [OF assms(1), of ?s "a + of_nat n * 4" v] Suc u d by simp_all
  have "(mem c ?s)(unat a + 4 * n := v) =
      (\<lambda>b. if unat a \<le> b \<and> b < unat a + 4 * Suc n \<and> 4 dvd b then v else mem c s b)"
  proof
    fix b
    show "((mem c ?s)(unat a + 4 * n := v)) b =
        (if unat a \<le> b \<and> b < unat a + 4 * Suc n \<and> 4 dvd b then v else mem c s b)"
      using Suc cell [of b] d by (cases "4 dvd b") auto
  qed
  with c m show ?case by simp
qed (use assms in \<open>auto simp: fun_eq_iff\<close>)

end

lemma window_parts:
  fixes a :: u64
  assumes "unat a < 2 ^ 40"
  defines "base \<equiv> a AND NOT (mask 20)"
  shows "unat (ucast (a AND mask 20) :: u32) = unat a mod 2 ^ 20"
    "unat base + unat a mod 2 ^ 20 = unat a"
    "(ucast (drop_bit 16 base) :: u32) < 0x1000000"
    "push_bit 16 (ucast (ucast (drop_bit 16 base) :: u32)) = base"
    "base AND mask 20 = 0"
proof -
  have "unat a mod 2 ^ 20 < 2 ^ 32" by (rule less_trans [OF mod_less_divisor]) simp_all
  then show "unat (ucast (a AND mask 20) :: u32) = unat a mod 2 ^ 20"
    by (simp add: unsigned_ucast_eq take_bit_eq_mod unat_and_mask)
  have b: "unat base = unat a div 2 ^ 20 * 2 ^ 20" unfolding base_def by (rule unat_and_not_mask)
  then show "unat base + unat a mod 2 ^ 20 = unat a" by simp
  have q: "unat a div 2 ^ 20 < 2 ^ 20" using assms(1) by (simp add: less_mult_imp_div_less)
  have d: "unat (drop_bit 16 base) = unat a div 2 ^ 20 * 16"
    by (simp only: unat_drop_bit b) simp
  then have u: "unat (ucast (drop_bit 16 base) :: u32) = unat a div 2 ^ 20 * 16"
    using q by (simp add: unsigned_ucast_eq take_bit_eq_mod)
  then show "(ucast (drop_bit 16 base) :: u32) < 0x1000000" using q by (simp add: word_less_nat_alt)
  have "unat (push_bit 16 (ucast (ucast (drop_bit 16 base) :: u32)) :: u64) = unat base"
    using q u b unat_push_bit_small [of "ucast (ucast (drop_bit 16 base) :: u32) :: u64" 16]
      unat_ucast_small [of "ucast (drop_bit 16 base) :: u32", where 'b = 64] by simp
  then show "push_bit 16 (ucast (ucast (drop_bit 16 base) :: u32)) = base" by (simp only: word_unat_eq_iff)
  show "base AND mask 20 = 0" unfolding base_def by (simp add: bit_eq_iff bit_simps)
qed

lemma window_mask: "ucast NV_PRAMIN_WINDOW_MASK = (mask 20 :: u64)"
  by (simp add: mask_eq_exp_minus_1)

lemma aim_law:
  assumes dev: "pramin_dev io win mem" and coh: "coherent win st" and a: "unat a < 2 ^ 40"
  shows "fst (pramin_aim io a st) = a AND NOT (mask 20)"
    "win (snd (pramin_aim io a st)) = a AND NOT (mask 20)"
    "mem (snd (pramin_aim io a st)) = mem (snd st)"
proof -
  note w = window_parts [OF a] and aim = pramin_aim_def [unfolded window_mask]
  obtain wb hw where st: "st = (wb, hw)" by (cases st)
  have win: "win (io_wr io 0x1700 v x) = push_bit 16 (ucast v)" "mem (io_wr io 0x1700 v x) = mem x"
    if "v < 0x1000000" for v x using dev that unfolding pramin_dev_def by blast+
  show "fst (pramin_aim io a st) = a AND NOT (mask 20)"
    by (simp add: st aim Let_def del: take_bit_eq_mask)
  show "win (snd (pramin_aim io a st)) = a AND NOT (mask 20)"
    using coh w(3-5) by (simp add: st aim win coherent_def Let_def)
  show "mem (snd (pramin_aim io a st)) = mem (snd st)"
    using w(3) by (simp add: st aim win Let_def)
qed

lemma window_off:
  assumes "unat a < 2 ^ 40" "4 dvd unat (a :: u64)"
  shows "(ucast (a AND mask 20) :: u32) < 0x100000" "4 dvd unat (ucast (a AND mask 20) :: u32)"
    "unat (a AND NOT (mask 20)) + unat (ucast (a AND mask 20) :: u32) = unat a"
proof -
  note w = window_parts [OF assms(1)]
  have "unat a mod 2 ^ 20 < 2 ^ 20" by simp
  then show "(ucast (a AND mask 20) :: u32) < 0x100000"
    unfolding word_less_nat_alt w(1) by simp
  have "4 dvd (2::nat) ^ 20" by simp
  then show "4 dvd unat (ucast (a AND mask 20) :: u32)"
    unfolding w(1) using assms(2) by (simp add: dvd_mod_iff)
  show "unat (a AND NOT (mask 20)) + unat (ucast (a AND mask 20) :: u32) = unat a"
    unfolding w(1) by (rule w(2))
qed

interpretation pr: pramin_port "\<lambda>(io, win, mem). nv_pramin_wr32 io" "\<lambda>(io, win, mem). nv_pramin_rd32 io"
  "\<lambda>(io, win, mem). pramin_dev io win mem" "\<lambda>(io, win, mem). coherent win"
  "\<lambda>(io, win, mem) st. mem (snd st)"
proof (unfold_locales, goal_cases)
  case (1 c s a v)
  obtain io win mem where c: "c = (io, win, mem)" by (metis prod_cases3)
  with 1 have dev: "pramin_dev io win mem" and coh: "coherent win s" by simp_all
  note aim = aim_law [OF dev coh 1(3)] and off = window_off [OF 1(3,4)] and w = window_parts [OF 1(3)]
  have law: "win (io_wr io (0x700000 + x) v hw) = win hw"
    "mem (io_wr io (0x700000 + x) v hw) = (mem hw)(unat (win hw) + unat x := v)"
    if "x < 0x100000" "4 dvd unat x" for x hw using dev that unfolding pramin_dev_def by blast+
  show ?case using aim off w(5)
    by (simp add: c nv_pramin_wr32_def [unfolded window_mask] split_def Let_def coherent_def law)
next
  case (2 c s a)
  obtain io win mem where c: "c = (io, win, mem)" by (metis prod_cases3)
  with 2 have dev: "pramin_dev io win mem" and coh: "coherent win s" by simp_all
  note aim = aim_law [OF dev coh 2(3)] and off = window_off [OF 2(3,4)] and w = window_parts [OF 2(3)]
  have law: "fst (io_rd io (0x700000 + x) hw) = mem hw (unat (win hw) + unat x)"
    "win (snd (io_rd io (0x700000 + x) hw)) = win hw" "mem (snd (io_rd io (0x700000 + x) hw)) = mem hw"
    if "x < 0x100000" "4 dvd unat x" for x hw using dev that unfolding pramin_dev_def by blast+
  show ?case using aim off w(5)
    by (simp add: c nv_pramin_rd32_def [unfolded window_mask] split_def Let_def coherent_def law)
qed

section \<open>VRAM as 64-bit entries\<close>

text \<open>The device is well-behaved, the cache is coherent, and VRAM holds \<open>m\<close>.\<close>

definition vram_is ::
  "'w mmio \<Rightarrow> ('w \<Rightarrow> u64) \<Rightarrow> ('w \<Rightarrow> nat \<Rightarrow> u32) \<Rightarrow> 'w pramin \<Rightarrow> (nat \<Rightarrow> u32) \<Rightarrow> bool" where
  "vram_is io win mem st m \<longleftrightarrow> pramin_dev io win mem \<and> coherent win st \<and> mem (snd st) = m"

definition peek64 :: "(nat \<Rightarrow> u32) \<Rightarrow> nat \<Rightarrow> u64" where
  "peek64 m a = ucast (m a) OR push_bit 32 (ucast (m (a + 4)))"

definition poke64 :: "nat \<Rightarrow> u64 \<Rightarrow> (nat \<Rightarrow> u32) \<Rightarrow> nat \<Rightarrow> u32" where
  "poke64 a v m = m(a := ucast v, a + 4 := ucast (drop_bit 32 v))"

definition fill32 :: "nat \<Rightarrow> nat \<Rightarrow> u32 \<Rightarrow> (nat \<Rightarrow> u32) \<Rightarrow> nat \<Rightarrow> u32" where
  "fill32 a n v m = (\<lambda>b. if a \<le> b \<and> b < a + n \<and> 4 dvd b then v else m b)"

abbreviation poke_all :: "(nat \<times> u64) list \<Rightarrow> (nat \<Rightarrow> u32) \<Rightarrow> nat \<Rightarrow> u32" where
  "poke_all ws m \<equiv> fold (\<lambda>(a, v). poke64 a v) ws m"

lemma join_halves: "ucast (ucast v :: u32) OR push_bit 32 (ucast (ucast (drop_bit 32 v) :: u32)) = (v :: u64)"
  by (rule bit_word_eqI) (auto simp: bit_simps)

lemma peek_poke_same [simp]: "peek64 (poke64 a v m) a = v"
  by (simp add: peek64_def poke64_def join_halves)

lemma peek_poke_other: "8 dvd a \<Longrightarrow> 8 dvd b \<Longrightarrow> a \<noteq> b \<Longrightarrow> peek64 (poke64 a v m) b = peek64 m b"
  unfolding peek64_def poke64_def by (auto simp: dvd_def) presburger+

lemma peek_fill: "8 dvd a \<Longrightarrow> 8 dvd b \<Longrightarrow> 8 dvd n \<Longrightarrow>
  peek64 (fill32 a n 0 m) b = (if a \<le> b \<and> b < a + n then 0 else peek64 m b)"
  unfolding peek64_def fill32_def by (auto simp: dvd_def) presburger+

lemma fill_join: "fill32 (a + n) k v (fill32 a n v m) = fill32 a (n + k) v m"
  by (auto simp: fill32_def fun_eq_iff)

lemma fill_none [simp]: "fill32 a 0 v m = m"
  by (auto simp: fill32_def fun_eq_iff)

lemma peek_poke_all_other:
  "\<forall>(a, v) \<in> set ws. 8 dvd a \<Longrightarrow> 8 dvd b \<Longrightarrow> b \<notin> fst ` set ws \<Longrightarrow> peek64 (poke_all ws m) b = peek64 m b"
  by (induction ws arbitrary: m) (auto simp: peek_poke_other)

lemma peek_poke_all:
  "\<forall>(a, v) \<in> set ws. 8 dvd a \<Longrightarrow> distinct (map fst ws) \<Longrightarrow> (b, v) \<in> set ws \<Longrightarrow>
   peek64 (poke_all ws m) b = v"
proof (induction ws arbitrary: m)
  case (Cons w ws)
  obtain a u where w: "w = (a, u)" by (cases w)
  show ?case
  proof (cases "w = (b, v)")
    case True
    then have "b \<notin> fst ` set ws" using Cons.prems by auto
    then show ?thesis using True Cons.prems by (simp add: peek_poke_all_other)
  next
    case False
    then show ?thesis using Cons by (auto simp: w)
  qed
qed simp

lemma poke_all_outside:
  "(\<And>a v. (a, v) \<in> set ws \<Longrightarrow> b \<noteq> a \<and> b \<noteq> a + 4) \<Longrightarrow> poke_all ws m b = m b"
proof (induction ws arbitrary: m)
  case (Cons w ws)
  obtain a v where w: "w = (a, v)" by (cases w)
  have "poke_all ws (poke64 a v m) b = poke64 a v m b"
    by (rule Cons.IH) (use Cons.prems in auto)
  also have "\<dots> = m b" using Cons.prems [of a v] w by (simp add: poke64_def)
  finally show ?case by (simp add: w)
qed simp

lemma vram_wr32:
  assumes "vram_is io win mem st m" "unat a < 2 ^ 40" "4 dvd unat a"
  shows "vram_is io win mem (nv_pramin_wr32 io a v st) (m(unat a := v))"
  using assms pr.wr_law [of "(io, win, mem)" st a v] by (simp add: vram_is_def)

lemma vram_rd32:
  assumes "vram_is io win mem st m" "unat a < 2 ^ 40" "4 dvd unat a"
  shows "fst (nv_pramin_rd32 io a st) = m (unat a)" "vram_is io win mem (snd (nv_pramin_rd32 io a st)) m"
  using assms pr.rd_law [of "(io, win, mem)" st a] by (simp_all add: vram_is_def)

lemma unat_add_lit:
  fixes a :: u64
  assumes "unat a + n \<le> 2 ^ 40" "i < n" shows "unat (a + of_nat i) = unat a + i"
  using assms by (subst unat_add_small) (simp_all add: unat_of_nat)

lemma vram_wr64:
  assumes "vram_is io win mem st m" "unat a + 8 \<le> 2 ^ 40" "4 dvd unat a"
  shows "vram_is io win mem (nv_pramin_wr64 io a v st) (poke64 (unat a) v m)"
proof -
  have u: "unat (a + 4) = unat a + 4" using unat_add_lit [OF assms(2), of 4] by simp
  have lo: "ucast (v AND 0xffffffff) = (ucast v :: u32)"
  proof -
    have "(0xffffffff :: u64) = mask 32" by (simp add: mask_eq_exp_minus_1)
    then have "ucast (v AND 0xffffffff) = (ucast (v AND mask 32) :: u32)" by (simp only:)
    also have "\<dots> = ucast v" by (rule bit_word_eqI) (auto simp: bit_simps)
    finally show ?thesis .
  qed
  have "vram_is io win mem (nv_pramin_wr32 io a (ucast v) st) (m(unat a := ucast v))"
    by (rule vram_wr32) (use assms in auto)
  from vram_wr32 [OF this, of "a + 4" "ucast (drop_bit 32 v)"] assms u
  show ?thesis by (simp add: nv_pramin_wr64_def lo poke64_def)
qed

lemma vram_rd64:
  assumes "vram_is io win mem st m" "unat a + 8 \<le> 2 ^ 40" "4 dvd unat a"
  shows "case (let (lo, st) = nv_pramin_rd32 io a st; (hi, st) = nv_pramin_rd32 io (a + 4) st
               in (ucast lo OR push_bit 32 (ucast hi), st)) of
         (v, st') \<Rightarrow> v = peek64 m (unat a) \<and> vram_is io win mem st' m"
proof -
  have u: "unat (a + 4) = unat a + 4" using unat_add_lit [OF assms(2), of 4] by simp
  have a: "unat a < 2 ^ 40" "unat (a + 4) < 2 ^ 40" "4 dvd unat (a + 4)" using u assms by auto
  note r1 = vram_rd32 [OF assms(1) a(1) assms(3)]
  note r2 = vram_rd32 [OF r1(2) a(2,3)]
  show ?thesis using r1(1) r2 by (simp add: split_def Let_def peek64_def u)
qed

lemma vram_fill:
  assumes st: "vram_is io win mem st m" and a: "4 dvd unat a" "unat a + unat len \<le> 2 ^ 40"
    and len: "4 dvd unat len" "unat len + 4 \<le> 2 ^ 32"
  shows "\<exists>st'. nv_pramin_fill io a len v st = Some st' \<and> vram_is io win mem st' (fill32 (unat a) (unat len) v m)"
proof -
  from len(1) obtain n where n: "unat len = 4 * n" ..
  have nn: "(unat len + unat (4 :: u32) - 1) div unat (4 :: u32) = n" by (simp add: n)
  have nb: "n < 2 ^ 30" using len(2) n by simp
  have off: "(ucast (of_nat k * 4 :: u32) :: u64) = of_nat k * 4" if "k < n" for k
  proof -
    have "unat (of_nat k * 4 :: u32) = 4 * k" using that nb unat_of_nat [of "4 * k", where 'a = 32]
      by (simp add: mult.commute)
    then have "unat (ucast (of_nat k * 4 :: u32) :: u64) = unat (of_nat k * 4 :: u64)"
      using that nb unat_of_nat [of "4 * k", where 'a = 64] by (simp add: unat_ucast_mod mult.commute)
    then show ?thesis by (simp only: word_unat_eq_iff)
  qed
  have "nv_pramin_fill io a len v st =
      mfold (\<lambda>k st. Some (nv_pramin_wr32 io (a + of_nat k * 4) v st)) [0..<n] st"
    unfolding nv_pramin_fill_def
    by (subst for_upto_mfold, simp, use len(2) in simp, subst nn, rule mfold_cong_set) (simp add: off)
  also have "\<dots> = Some (fold (\<lambda>k. nv_pramin_wr32 io (a + of_nat k * 4) v) [0..<n] st)" by simp
  finally show ?thesis
    using st a n pr.wr_fill [of "(io, win, mem)" st a n v] by (auto simp: vram_is_def fill32_def fun_eq_iff)
qed

section \<open>The layout a plan describes\<close>

text \<open>
  The plan in natural numbers, for a range of \<open>n\<close> bytes at \<open>va\<close> with tables at
  \<open>tp\<close>.  Level \<open>p\<close> (0 = PD3 .. 4 = SPT) has one table per block of
  \<open>2 ^ gsh p\<close> bytes the range touches; an entry of a level-\<open>p\<close> table covers a block of
  \<open>2 ^ gsh (p + 1)\<close> bytes.
\<close>

definition gsh :: "nat \<Rightarrow> nat" where "gsh p = [49, 47, 38, 29, 21, 12] ! p"

definition gbits :: "nat \<Rightarrow> nat" where "gbits p = [2, 9, 9, 8, 9] ! p"

definition blk_first :: "nat \<Rightarrow> nat \<Rightarrow> nat" where "blk_first va p = va div 2 ^ gsh p"

definition blk_last :: "nat \<Rightarrow> nat \<Rightarrow> nat \<Rightarrow> nat" where "blk_last va n p = (va + n - 1) div 2 ^ gsh p"

definition blk_cnt :: "nat \<Rightarrow> nat \<Rightarrow> nat \<Rightarrow> nat" where
  "blk_cnt va n p = blk_last va n p - blk_first va p + 1"

definition tab_num :: "nat \<Rightarrow> nat \<Rightarrow> nat \<Rightarrow> nat \<Rightarrow> nat" where
  "tab_num va n p k = (\<Sum>q < p. blk_cnt va n q) + k"

definition tab :: "nat \<Rightarrow> nat \<Rightarrow> nat \<Rightarrow> nat \<Rightarrow> nat \<Rightarrow> nat" where
  "tab va n tp p k = tp + 4096 * tab_num va n p k"

definition slot_off :: "nat \<Rightarrow> nat \<Rightarrow> nat" where
  "slot_off p i = (if p = 3 then 16 * i + 8 else 8 * i)"

text \<open>Address of the level-\<open>p\<close> entry that covers block \<open>x\<close>.\<close>

definition slot :: "nat \<Rightarrow> nat \<Rightarrow> nat \<Rightarrow> nat \<Rightarrow> nat \<Rightarrow> nat" where
  "slot va n tp p x = tab va n tp p (x div 2 ^ gbits p - blk_first va p) + slot_off p (x mod 2 ^ gbits p)"

definition plan_args :: "nat \<Rightarrow> nat \<Rightarrow> nat \<Rightarrow> bool" where
  "plan_args va n tp \<longleftrightarrow> 0 < n \<and> 4096 dvd va \<and> 4096 dvd n \<and> 4096 dvd tp
     \<and> va + n \<le> 2 ^ 49 \<and> n \<le> 2 ^ 40 \<and> tp < 2 ^ 40"

lemma less_5_cases: "p < (5::nat) \<Longrightarrow> p = 0 \<or> p = 1 \<or> p = 2 \<or> p = 3 \<or> p = 4" by linarith

lemma range_shift_gsh: "p < 5 \<Longrightarrow> range_shift p = gsh p"
  by (drule less_5_cases) (auto simp: range_shift_def gsh_def)

lemma gsh_Suc: "p < 5 \<Longrightarrow> gsh p = gsh (Suc p) + gbits p"
  by (drule less_5_cases) (auto simp: gsh_def gbits_def)

lemma gsh_ge: "p \<le> 5 \<Longrightarrow> 12 \<le> gsh p"
  by (cases "p = 5") (auto simp: gsh_def dest!: less_5_cases[of p, OF le_neq_implies_less])

lemma range_entries_mask: "p < 5 \<Longrightarrow> (ucast (range_entries p - 1) :: u64) = mask (gbits p)"
  by (drule less_5_cases) (auto simp: range_entries_def gbits_def mask_eq_exp_minus_1)

lemma div_gsh: "p < 5 \<Longrightarrow> x div 2 ^ gsh (Suc p) div 2 ^ gbits p = (x :: nat) div 2 ^ gsh p"
  by (simp add: gsh_Suc power_add div_mult2_eq)

lemma mul_div_gsh: "p < 5 \<Longrightarrow> x * 2 ^ gsh (Suc p) div 2 ^ gsh p = (x :: nat) div 2 ^ gbits p"
  unfolding gsh_Suc [of p] power_add div_mult2_eq by simp

lemma blk_cnt_le:
  assumes "n \<le> 2 ^ 40" "p < 5" shows "blk_cnt va n p \<le> 2 ^ 20"
proof -
  have g: "(2::nat) ^ 21 \<le> 2 ^ gsh p" using assms(2) by (auto simp: gsh_def dest!: less_5_cases)
  have "blk_last va n p \<le> (va + n) div 2 ^ gsh p" unfolding blk_last_def by (rule div_le_mono) simp
  also have "\<dots> \<le> va div 2 ^ gsh p + n div 2 ^ gsh p + 1"
    by (rule div_add_le) simp
  also have "n div 2 ^ gsh p \<le> n div 2 ^ 21" by (rule div_le_mono2) (use g in auto)
  also have "\<dots> \<le> 2 ^ 40 div 2 ^ 21" using assms(1) by (rule div_le_mono)
  finally show ?thesis unfolding blk_cnt_def blk_first_def by simp
qed

lemma tab_num_le: "n \<le> 2 ^ 40 \<Longrightarrow> p \<le> 5 \<Longrightarrow> tab_num va n p 0 \<le> p * 2 ^ 20"
proof (induction p)
  case (Suc p)
  then show ?case using blk_cnt_le [of n p va] by (simp add: tab_num_def)
qed (simp add: tab_num_def)

lemma tab_num_Suc: "tab_num va n (Suc p) 0 = tab_num va n p 0 + blk_cnt va n p"
  by (simp add: tab_num_def)

text \<open>What the planning loop has computed after \<open>k\<close> levels.\<close>

definition plan_at :: "u64 \<Rightarrow> u64 \<Rightarrow> u64 \<Rightarrow> nat \<Rightarrow> nv_gmmu_range \<Rightarrow> bool" where
  "plan_at va n tp k r \<longleftrightarrow>
     rg_va r = va \<and> rg_bytes r = n \<and> rg_table_phys r = tp
     \<and> length (rg_level_phys r) = 5 \<and> length (rg_level_count r) = 5
     \<and> unat (rg_table_bytes r) = 4096 * tab_num (unat va) (unat n) k 0
     \<and> (\<forall>j < k. unat (rg_level_phys r ! j) = tab (unat va) (unat n) (unat tp) j 0
              \<and> unat (rg_level_count r ! j) = blk_cnt (unat va) (unat n) j)"

lemma plan_level:
  assumes args: "plan_args (unat va) (unat n) (unat tp)" and k: "k < 5" and r: "plan_at va n tp k r"
  shows "plan_at va n tp (Suc k) (range_plan_level (va + n - 1) k r)"
proof -
  let ?c = "drop_bit (range_shift k) (va + n - 1) - drop_bit (range_shift k) va + 1"
  from args have a: "0 < unat n" "unat va + unat n \<le> 2 ^ 49" "unat n \<le> 2 ^ 40" "unat tp < 2 ^ 40"
    by (auto simp: plan_args_def)
  have "unat (va + n) = unat va + unat n" by (rule unat_add_small) (use a in simp)
  then have l: "unat (va + n - 1) = unat va + unat n - 1"
    using unat_sub_small [of 1 "va + n"] a by simp
  have le: "unat va div 2 ^ gsh k \<le> (unat va + unat n - 1) div 2 ^ gsh k"
    by (rule div_le_mono) (use a in simp)
  note cl = blk_cnt_le [OF a(3) k, of "unat va"]
  have "unat (drop_bit (range_shift k) (va + n - 1) - drop_bit (range_shift k) va)
      = blk_last (unat va) (unat n) k - blk_first (unat va) k"
    using le by (subst unat_sub_small) (simp_all only: unat_drop_bit l range_shift_gsh [OF k] blk_last_def blk_first_def)
  then have c: "unat ?c = blk_cnt (unat va) (unat n) k"
    using cl unat_add_small [of "drop_bit (range_shift k) (va + n - 1) - drop_bit (range_shift k) va" 1]
    by (simp add: blk_cnt_def)
  have c32: "unat (ucast ?c :: u32) = blk_cnt (unat va) (unat n) k"
    using c cl unat_ucast_small [of ?c, where 'b = 32] by simp
  have tb: "unat (rg_table_bytes r) = 4096 * tab_num (unat va) (unat n) k 0" using r by (simp add: plan_at_def)
  have tl: "tab_num (unat va) (unat n) k 0 \<le> 4 * 2 ^ 20" using tab_num_le [OF a(3), of k "unat va"] k by simp
  have "unat (?c * 4096) = blk_cnt (unat va) (unat n) k * 4096"
    using c cl unat_mult_lem [of ?c 4096] by simp
  then have tb': "unat (rg_table_bytes r + ?c * 4096) = 4096 * tab_num (unat va) (unat n) (Suc k) 0"
    using tb tl cl by (subst unat_add_small) (simp_all add: tab_num_Suc)
  have ph: "unat (tp + rg_table_bytes r) = tab (unat va) (unat n) (unat tp) k 0"
    using tb tl a by (subst unat_add_small) (simp_all add: tab_def)
  show ?thesis
    using r c32 tb' ph k unfolding plan_at_def range_plan_level_def Let_def
    by (auto simp: nth_list_update less_Suc_eq)
qed

lemma plan_levels:
  assumes "plan_args (unat va) (unat n) (unat tp)" "k \<le> 5" "plan_at va n tp 0 r"
  shows "plan_at va n tp k (fold (range_plan_level (va + n - 1)) [0..<k] r)"
  using assms(2)
proof (induction k)
  case (Suc k)
  then show ?case using plan_level [OF assms(1), of k] by simp
qed (use assms in simp)

definition table_total :: "nat \<Rightarrow> nat \<Rightarrow> nat" where
  "table_total va n = 4096 * tab_num va n 5 0"

lemma plan_guard:
  "(n = 0 \<or> (va OR n OR tp) AND (GMMU_PAGE_BYTES - 1) \<noteq> 0 \<or> va \<ge> push_bit NV_GMMU_VA_BITS 1
     \<or> n > push_bit NV_GMMU_VA_BITS 1 - va \<or> n > PRAMIN_PHYS_END \<or> tp \<ge> PRAMIN_PHYS_END)
   \<longleftrightarrow> \<not> plan_args (unat va) (unat n) (unat tp)"
proof -
  have e: "unat (push_bit 49 1 :: u64) = 2 ^ 49" by simp
  have s: "n > push_bit 49 1 - va \<longleftrightarrow> 2 ^ 49 < unat va + unat n" if "\<not> va \<ge> push_bit 49 1"
    using that e by (simp only: word_less_nat_alt word_le_nat_alt) (subst unat_sub_small, auto)
  have "n = 0 \<longleftrightarrow> unat n = 0" by (simp add: unat_eq_0)
  then show ?thesis
    unfolding page_or_iff plan_args_def
    using s e by (auto simp: word_less_nat_alt word_le_nat_alt)
qed

lemma range_plan_spec:
  "case nv_gmmu_range_plan va n tp cap of (rc, r) \<Rightarrow>
     let total = table_total (unat va) (unat n) in
     if plan_args (unat va) (unat n) (unat tp) \<and> unat tp + total \<le> 2 ^ 40
     then rc = (if unat cap < total then -2 else 0) \<and> plan_at va n tp 5 r
     else rc = -1 \<and> r = no_range"
proof (cases "plan_args (unat va) (unat n) (unat tp)")
  case False
  then have "nv_gmmu_range_plan va n tp cap = (-1, no_range)"
    unfolding nv_gmmu_range_plan_def Let_def plan_guard by simp
  with False show ?thesis by simp
next
  case True
  let ?r = "fold (range_plan_level (va + n - 1)) [0..<5] (no_range\<lparr>rg_va := va, rg_bytes := n, rg_table_phys := tp\<rparr>)"
  have "plan_at va n tp 0 (no_range\<lparr>rg_va := va, rg_bytes := n, rg_table_phys := tp\<rparr>)"
    by (simp add: plan_at_def tab_num_def)
  from plan_levels [OF True order_refl this] have at: "plan_at va n tp 5 ?r" .
  have run: "nv_gmmu_range_plan va n tp cap =
      (if rg_table_bytes ?r > PRAMIN_PHYS_END - tp then (-1, no_range)
       else (if cap < rg_table_bytes ?r then -2 else 0, ?r))"
    unfolding nv_gmmu_range_plan_def Let_def plan_guard using True by simp
  have tb: "unat (rg_table_bytes ?r) = table_total (unat va) (unat n)"
    using at by (simp only: plan_at_def table_total_def)
  have tp: "unat tp < 2 ^ 40" using True by (simp add: plan_args_def)
  have g: "rg_table_bytes ?r > PRAMIN_PHYS_END - tp \<longleftrightarrow> 2 ^ 40 < unat tp + table_total (unat va) (unat n)"
    unfolding word_less_nat_alt tb using tp by (subst unat_sub_small) (auto simp: word_less_nat_alt)
  have c: "cap < rg_table_bytes ?r \<longleftrightarrow> unat cap < table_total (unat va) (unat n)"
    unfolding word_less_nat_alt tb ..
  show ?thesis unfolding run g c using True at by (simp add: not_less)
qed

text \<open>
  \<open>nv_gmmu_range_plan\<close> accepts exactly the page-aligned non-empty ranges inside the
  49-bit address space whose tables fit below 2^40, and lays the five levels out one after the other,
  one page per table, with the exact number of tables each level needs; it reports -2 when the
  capacity is short of the total and fills in the plan all the same.
\<close>

theorem nv_gmmu_range_plan_correct:
  "case nv_gmmu_range_plan va n tp cap of (rc, r) \<Rightarrow>
     let total = table_total (unat va) (unat n) in
     if plan_args (unat va) (unat n) (unat tp) \<and> unat tp + total \<le> 2 ^ 40
     then rc = (if unat cap < total then -2 else 0) \<and> plan_at va n tp 5 r
     else rc = -1 \<and> r = no_range"
  by (rule range_plan_spec)

section \<open>Entries never collide\<close>

definition in_level :: "nat \<Rightarrow> nat \<Rightarrow> nat \<Rightarrow> nat \<Rightarrow> bool" where
  "in_level va n p x \<longleftrightarrow> blk_first va p \<le> x div 2 ^ gbits p \<and> x div 2 ^ gbits p \<le> blk_last va n p"

lemma slot_off_less: "p < 5 \<Longrightarrow> i < 2 ^ gbits p \<Longrightarrow> slot_off p i + 8 \<le> 4096"
  by (drule less_5_cases) (auto simp: slot_off_def gbits_def)

lemma slot_off_inj: "slot_off p i = slot_off p j \<Longrightarrow> i = j"
  by (auto simp: slot_off_def split: if_splits)

lemma slot_dvd: "4096 dvd tp \<Longrightarrow> 8 dvd slot va n tp p x"
proof -
  assume "4096 dvd tp"
  then have "8 dvd tp" by (rule dvd_trans [rotated]) simp
  moreover have "8 dvd 4096 * tab_num va n p k" for k by (rule dvd_mult2) simp
  moreover have "8 dvd slot_off p i" for i by (auto simp: slot_off_def)
  ultimately show ?thesis unfolding slot_def tab_def by (intro dvd_add)
qed

lemma tab_num_mono: "p \<le> q \<Longrightarrow> tab_num va n p 0 \<le> tab_num va n q 0"
  by (induction q) (auto simp: tab_num_Suc le_Suc_eq)

lemma tab_num_less: "k < blk_cnt va n p \<Longrightarrow> p < q \<Longrightarrow> tab_num va n p k < tab_num va n q 0"
  using tab_num_mono [of "Suc p" q va n] by (simp add: tab_num_def)

lemma in_level_cnt: "in_level va n p x \<Longrightarrow> x div 2 ^ gbits p - blk_first va p < blk_cnt va n p"
  by (auto simp: in_level_def blk_cnt_def)

lemma slot_inj:
  assumes p: "p < 5" "q < 5" and x: "in_level va n p x" "in_level va n q y"
    and eq: "slot va n tp p x = slot va n tp q y"
  shows "p = q \<and> x = y"
proof -
  let ?N = "\<lambda>p x. tab_num va n p (x div 2 ^ gbits p - blk_first va p)"
  let ?o = "\<lambda>p x. slot_off p (x mod 2 ^ gbits p)"
  have o: "?o p x < 4096" "?o q y < 4096"
    using slot_off_less [OF p(1), of "x mod 2 ^ gbits p"] slot_off_less [OF p(2), of "y mod 2 ^ gbits q"] by simp_all
  have "4096 * ?N p x + ?o p x = 4096 * ?N q y + ?o q y" using eq by (simp add: slot_def tab_def)
  then have "(4096 * ?N p x + ?o p x) div 4096 = (4096 * ?N q y + ?o q y) div 4096"
    "(4096 * ?N p x + ?o p x) mod 4096 = (4096 * ?N q y + ?o q y) mod 4096" by simp_all
  then have N: "?N p x = ?N q y" and O: "?o p x = ?o q y" using o by simp_all
  have pq: "p = q"
  proof (rule ccontr)
    assume "p \<noteq> q"
    then consider "p < q" | "q < p" by linarith
    then show False
      using N tab_num_less [OF in_level_cnt [OF x(1)], of q] tab_num_less [OF in_level_cnt [OF x(2)], of p]
      by cases (simp_all add: tab_num_def)
  qed
  then have "x mod 2 ^ gbits p = y mod 2 ^ gbits p" using O slot_off_inj by blast
  moreover have "x div 2 ^ gbits p = y div 2 ^ gbits p"
    using N pq x by (auto simp: tab_num_def in_level_def)
  ultimately show ?thesis using pq by (metis div_mult_mod_eq)
qed

lemma slot_bounds:
  assumes "p < 5" "in_level va n p x"
  shows "tp \<le> slot va n tp p x" "slot va n tp p x + 8 \<le> tp + table_total va n"
proof -
  show "tp \<le> slot va n tp p x" by (simp add: slot_def tab_def)
  have "tab_num va n p (x div 2 ^ gbits p - blk_first va p) + 1 \<le> tab_num va n 5 0"
    using tab_num_less [OF in_level_cnt [OF assms(2)] assms(1)] by simp
  then have "4096 * (tab_num va n p (x div 2 ^ gbits p - blk_first va p) + 1) \<le> table_total va n"
    unfolding table_total_def by (rule mult_le_mono2)
  then show "slot va n tp p x + 8 \<le> tp + table_total va n"
    using slot_off_less [OF assms(1), of "x mod 2 ^ gbits p"] by (simp add: slot_def tab_def)
qed

lemma in_level_block:
  assumes "p < 5" "blk_first va (Suc p) \<le> x" "x \<le> blk_last va n (Suc p)"
  shows "in_level va n p x"
  using div_le_mono [OF assms(2), of "2 ^ gbits p"] div_le_mono [OF assms(3), of "2 ^ gbits p"]
  by (simp add: in_level_def blk_first_def blk_last_def div_gsh [OF assms(1)])

section \<open>What each write puts where\<close>

definition entry_value :: "nat \<Rightarrow> nat \<Rightarrow> nat \<Rightarrow> nat \<Rightarrow> nat \<Rightarrow> nat \<Rightarrow> u64" where
  "entry_value va n tp phys p x =
     (if p = 4 then nv_gmmu_make_pte_vram (of_nat (phys + (4096 * x - va))) False False
      else nv_gmmu_make_pde_vram (of_nat (tab va n tp (Suc p) (x - blk_first va (Suc p)))))"

text \<open>The preconditions under which a build runs: an accepted plan and matching arrays.\<close>

definition build_ok :: "u64 \<Rightarrow> u64 \<Rightarrow> u64 \<Rightarrow> nv_gmmu_range \<Rightarrow> bool" where
  "build_ok va n tp r \<longleftrightarrow> plan_args (unat va) (unat n) (unat tp) \<and> plan_at va n tp 5 r
     \<and> unat tp + table_total (unat va) (unat n) \<le> 2 ^ 40"

lemma entry_addr:
  fixes base k i :: u64
  assumes "unat base + unat k * 4096 + slot_off p (unat i) < 2 ^ 64" "stride = (if p = 3 then 16 else 8)"
  shows "unat (if p = 3 then base + k * 4096 + i * stride + 8 else base + k * 4096 + i * stride)
       = unat base + unat k * 4096 + slot_off p (unat i)"
proof -
  have k: "unat (k * 4096) = unat k * 4096" by (rule unat_mult_small [of k 4096, simplified]) (use assms(1) in simp)
  have i: "unat (i * stride) = unat i * unat stride"
    by (rule unat_mult_small) (use assms in \<open>auto simp: slot_off_def split: if_splits\<close>)
  have "unat (base + k * 4096) = unat base + unat k * 4096"
    using assms(1) k by (subst unat_add_small) simp_all
  then have s: "unat (base + k * 4096 + i * stride) = unat base + unat k * 4096 + unat i * unat stride"
    using assms i by (subst unat_add_small) (auto simp: slot_off_def split: if_splits)
  show ?thesis
  proof (cases "p = 3")
    case True
    then have "unat (base + k * 4096 + i * stride + 8) = unat (base + k * 4096 + i * stride) + 8"
      using assms s by (subst unat_add_small) (auto simp: slot_off_def)
    then show ?thesis using True s assms(2) by (simp add: slot_off_def)
  qed (use s assms(2) in \<open>simp add: slot_off_def\<close>)
qed

lemma tab_add: "tab va n tp p k = tab va n tp p 0 + k * 4096"
  by (simp add: tab_def tab_num_def)

lemma block_bound:
  assumes "0 < n" "x \<le> blk_last va n c"
  shows "x * 2 ^ gsh c < va + n"
proof -
  have "x * 2 ^ gsh c \<le> (va + n - 1) div 2 ^ gsh c * 2 ^ gsh c" using assms(2) by (simp add: blk_last_def)
  also have "\<dots> \<le> va + n - 1" by (rule div_times_less_eq_dividend)
  finally show ?thesis using assms(1) by simp
qed

lemma pde_parts:
  assumes ok: "build_ok va n tp r" and p: "p < 4" and k: "k < blk_cnt (unat va) (unat n) (Suc p)"
  defines "x \<equiv> blk_first (unat va) (Suc p) + k"
    and "w \<equiv> drop_bit (range_shift (Suc p)) va + ucast (of_nat k :: u32)"
  shows "unat w = x" "unat (drop_bit (range_shift p) (push_bit (range_shift (Suc p)) w)
           - drop_bit (range_shift p) va) = x div 2 ^ gbits p - blk_first (unat va) p"
    "unat (w AND ucast (range_entries p - 1)) = x mod 2 ^ gbits p" "in_level (unat va) (unat n) p x"
    "unat (ucast (of_nat k :: u32) :: u64) = k"
proof -
  from ok have a: "0 < unat n" "unat va + unat n \<le> 2 ^ 49" "unat n \<le> 2 ^ 40"
    by (auto simp: build_ok_def plan_args_def)
  have sh: "range_shift p = gsh p" "range_shift (Suc p) = gsh (Suc p)" using p by (simp_all add: range_shift_gsh)
  have "k < 2 ^ 20" using k blk_cnt_le [OF a(3), of "Suc p" "unat va"] p by simp
  then show kk: "unat (ucast (of_nat k :: u32) :: u64) = k"
    using unat_of_nat [of k, where 'a = 32] by (simp add: unat_ucast_mod)
  have le: "blk_first (unat va) (Suc p) \<le> blk_last (unat va) (unat n) (Suc p)"
    unfolding blk_first_def blk_last_def by (rule div_le_mono) (use a in simp)
  have x: "x \<le> blk_last (unat va) (unat n) (Suc p)" using k le by (simp add: x_def blk_cnt_def)
  show lv: "in_level (unat va) (unat n) p x"
    by (rule in_level_block) (use p x in \<open>simp_all add: x_def\<close>)
  have xb: "x * 2 ^ gsh (Suc p) < 2 ^ 49" using block_bound [OF a(1) x] a(2) by linarith
  have "x \<le> x * 2 ^ gsh (Suc p)" by simp
  then have xs: "x < 2 ^ 49" using xb by (rule le_less_trans)
  have f: "unat (drop_bit (range_shift (Suc p)) va) = blk_first (unat va) (Suc p)"
    by (simp only: unat_drop_bit sh blk_first_def)
  show w: "unat w = x"
    unfolding w_def x_def using xs by (subst unat_add_small) (simp_all only: f kk, simp add: x_def)
  have "unat (push_bit (range_shift (Suc p)) w) = x * 2 ^ gsh (Suc p)"
    using xb w sh by (subst unat_push_bit_small) simp_all
  then have "unat (drop_bit (range_shift p) (push_bit (range_shift (Suc p)) w)) = x div 2 ^ gbits p"
    using p mul_div_gsh [of p x] by (simp only: unat_drop_bit sh)
  moreover have "unat (drop_bit (range_shift p) va) = blk_first (unat va) p"
    by (simp only: unat_drop_bit sh blk_first_def)
  ultimately show "unat (drop_bit (range_shift p) (push_bit (range_shift (Suc p)) w)
           - drop_bit (range_shift p) va) = x div 2 ^ gbits p - blk_first (unat va) p"
    using lv by (subst unat_sub_small) (simp_all only: in_level_def)
  show "unat (w AND ucast (range_entries p - 1)) = x mod 2 ^ gbits p"
    using p by (simp only: range_entries_mask unat_and_mask w)
qed

lemma range_pde_effect:
  assumes ok: "build_ok va n tp r" and p: "p < 4" and k: "k < blk_cnt (unat va) (unat n) (Suc p)"
    and st: "vram_is io win mem st m"
  defines "x \<equiv> blk_first (unat va) (Suc p) + k"
  shows "vram_is io win mem (range_pde io r (Suc p) (of_nat k) st)
    (poke64 (slot (unat va) (unat n) (unat tp) p x) (entry_value (unat va) (unat n) (unat tp) phys p x) m)"
proof -
  note parts = pde_parts [OF ok p k, folded x_def]
  let ?w = "drop_bit (range_shift (Suc p)) va + ucast (of_nat k :: u32) :: u64"
  let ?k = "drop_bit (range_shift p) (push_bit (range_shift (Suc p)) ?w) - drop_bit (range_shift p) va"
  let ?i = "?w AND ucast (range_entries p - 1)"
  have at: "plan_at va n tp 5 r" and fit: "unat tp + table_total (unat va) (unat n) \<le> 2 ^ 40"
    and dv: "4096 dvd unat tp" using ok by (auto simp: build_ok_def plan_args_def)
  have lp: "unat (rg_level_phys r ! j) = tab (unat va) (unat n) (unat tp) j 0" if "j < 5" for j
    using at that by (simp add: plan_at_def)
  have p5: "p < 5" using p by simp
  have sl: "unat (rg_level_phys r ! p) + unat ?k * 4096 + slot_off p (unat ?i) = slot (unat va) (unat n) (unat tp) p x"
    unfolding parts(2,3) lp [OF p5] slot_def
    by (subst tab_add [of _ _ _ _ "x div 2 ^ gbits p - blk_first (unat va) p"]) simp
  note sb = slot_bounds(2) [OF p5 parts(4), of "unat tp"]
  define stride :: u64 where "stride = (if p = 3 then 16 else 8)"
  define entry where "entry = (if p = 3 then rg_level_phys r ! p + ?k * 4096 + ?i * stride + 8
                               else rg_level_phys r ! p + ?k * 4096 + ?i * stride)"
  have ea: "unat entry = slot (unat va) (unat n) (unat tp) p x"
    unfolding entry_def sl [symmetric]
    by (rule entry_addr) (use sb fit sl stride_def in simp_all)
  have "tab_num (unat va) (unat n) (Suc p) k < tab_num (unat va) (unat n) 5 0"
    using tab_num_less [OF k, of 5] p by simp
  then have "tab (unat va) (unat n) (unat tp) (Suc p) k < unat tp + table_total (unat va) (unat n)"
    by (simp add: tab_def table_total_def)
  then have tb: "tab (unat va) (unat n) (unat tp) (Suc p) k < 2 ^ 40" using fit by simp
  have "unat (rg_level_phys r ! Suc p + ucast (of_nat k :: u32) * 4096)
      = tab (unat va) (unat n) (unat tp) (Suc p) 0 + k * 4096"
  proof -
    have m: "unat (ucast (of_nat k :: u32) * 4096 :: u64) = k * 4096"
      using tb parts(5) unat_mult_small [of "ucast (of_nat k :: u32) :: u64" 4096] tab_add [of _ _ _ _ k]
      by simp
    show ?thesis using tb p m lp [of "Suc p"] tab_add [of "unat va" "unat n" "unat tp" "Suc p" k]
      by (subst unat_add_small) simp_all
  qed
  then have ch: "rg_level_phys r ! Suc p + ucast (of_nat k :: u32) * 4096 = of_nat (tab (unat va) (unat n) (unat tp) (Suc p) k)"
    by (subst tab_add) (metis of_nat_unat ucast_id)
  have "range_pde io r (Suc p) (of_nat k) st = nv_pramin_wr64 io entry
      (nv_gmmu_make_pde_vram (rg_level_phys r ! Suc p + ucast (of_nat k :: u32) * 4096)) st"
    using at by (auto simp: range_pde_def Let_def entry_def stride_def plan_at_def)
  moreover have "4 dvd unat entry" using slot_dvd [OF dv] unfolding ea by (rule dvd_trans [rotated]) simp
  ultimately show ?thesis
    using vram_wr64 [OF st, of entry "nv_gmmu_make_pde_vram (of_nat (tab (unat va) (unat n) (unat tp) (Suc p) k))"]
      sb fit ea p by (simp add: ch entry_value_def x_def)
qed

lemma pte_parts:
  fixes va n :: u64
  assumes args: "plan_args (unat va) (unat n) tp" and k: "k < unat n div 4096"
  defines "x \<equiv> blk_first (unat va) 5 + k" and "addr \<equiv> va + of_nat k * 4096"
  shows "unat (drop_bit 21 addr - drop_bit 21 va) = x div 2 ^ gbits 4 - blk_first (unat va) 4"
    "unat (drop_bit 12 addr AND ucast (NV_GMMU_SPT_ENTRIES - 1)) = x mod 2 ^ gbits 4"
    "in_level (unat va) (unat n) 4 x" "4096 * x - unat va = 4096 * k" "unat (of_nat k * 4096 :: u64) = 4096 * k"
proof -
  from args have a: "0 < unat n" "4096 dvd unat va" "4096 dvd unat n" "unat va + unat n \<le> 2 ^ 49"
    by (auto simp: plan_args_def)
  have k1: "4096 * k < unat n" using k a(3) by (auto simp: dvd_def)
  show o: "unat (of_nat k * 4096 :: u64) = 4096 * k"
    using unat_of_nat [of "4096 * k", where 'a = 64] k1 u64_less [of n] by (simp add: mult.commute)
  have ad: "unat addr = unat va + 4096 * k"
    unfolding addr_def using k1 a o by (subst unat_add_small) simp_all
  have x: "x = unat addr div 4096" using a(2) by (simp add: x_def blk_first_def gsh_def ad)
  then have x2: "unat va + 4096 * k = 4096 * x" using a(2) by (auto simp: ad dvd_def)
  then show "4096 * x - unat va = 4096 * k" by simp
  have d: "unat (drop_bit 12 addr) = x" by (simp only: unat_drop_bit x) simp
  have "x \<le> blk_last (unat va) (unat n) 5"
    using k1 x ad a(1) by (auto simp: blk_last_def gsh_def intro!: div_le_mono)
  then show lv: "in_level (unat va) (unat n) 4 x"
    using in_level_block [of 4 "unat va" x "unat n"] by (simp add: x_def)
  have "unat (drop_bit 21 addr) = x div 2 ^ gbits 4"
    by (simp only: unat_drop_bit x) (simp add: gbits_def div_mult2_eq [symmetric])
  moreover have "unat (drop_bit 21 va) = blk_first (unat va) 4"
    by (simp only: unat_drop_bit blk_first_def) (simp add: gsh_def)
  ultimately show "unat (drop_bit 21 addr - drop_bit 21 va) = x div 2 ^ gbits 4 - blk_first (unat va) 4"
    using lv by (subst unat_sub_small) (simp_all only: in_level_def)
  have "(ucast (NV_GMMU_SPT_ENTRIES - 1) :: u64) = mask 9" by (simp add: mask_eq_exp_minus_1)
  then have "unat (drop_bit 12 addr AND ucast (NV_GMMU_SPT_ENTRIES - 1)) = x mod 2 ^ 9"
    by (simp only: unat_and_mask d)
  then show "unat (drop_bit 12 addr AND ucast (NV_GMMU_SPT_ENTRIES - 1)) = x mod 2 ^ gbits 4"
    by (simp add: gbits_def)
qed

lemma range_pte_effect:
  assumes ok: "build_ok va n tp r" and k: "k < unat n div 4096" and ph: "unat phys + unat n \<le> 2 ^ 40"
    and st: "vram_is io win mem st m"
  defines "x \<equiv> blk_first (unat va) 5 + k"
  shows "vram_is io win mem (range_pte io r phys (of_nat k * 4096) st)
    (poke64 (slot (unat va) (unat n) (unat tp) 4 x) (entry_value (unat va) (unat n) (unat tp) (unat phys) 4 x) m)"
proof -
  from ok have args: "plan_args (unat va) (unat n) (unat tp)" and at: "plan_at va n tp 5 r"
    and fit: "unat tp + table_total (unat va) (unat n) \<le> 2 ^ 40" and dv: "4096 dvd unat tp"
    by (auto simp: build_ok_def plan_args_def)
  note parts = pte_parts [OF args k, folded x_def]
  let ?k = "drop_bit 21 (va + of_nat k * 4096) - drop_bit 21 va"
  let ?i = "drop_bit 12 (va + of_nat k * 4096) AND ucast (NV_GMMU_SPT_ENTRIES - 1)"
  have lp: "unat (rg_level_phys r ! 4) = tab (unat va) (unat n) (unat tp) 4 0" using at by (simp add: plan_at_def)
  have sl: "unat (rg_level_phys r ! 4) + unat ?k * 4096 + slot_off 4 (unat ?i) = slot (unat va) (unat n) (unat tp) 4 x"
    unfolding parts(1,2) lp slot_def
    by (subst tab_add [of _ _ _ _ "x div 2 ^ gbits 4 - blk_first (unat va) 4"]) simp
  note sb = slot_bounds(2) [OF _ parts(3), of "unat tp"]
  define entry where "entry = rg_level_phys r ! 4 + ?k * 4096 + ?i * 8"
  have ea: "unat entry = slot (unat va) (unat n) (unat tp) 4 x"
    unfolding entry_def sl [symmetric]
    using entry_addr [of "rg_level_phys r ! 4" ?k 4 ?i 8] sb fit sl by simp
  have pv: "phys + of_nat k * 4096 = of_nat (unat phys + (4096 * x - unat va))"
    unfolding parts(4) by (simp add: mult.commute)
  have "range_pte io r phys (of_nat k * 4096) st
      = nv_pramin_wr64 io entry (nv_gmmu_make_pte_vram (phys + of_nat k * 4096) False False) st"
    using at by (simp add: range_pte_def Let_def entry_def plan_at_def)
  moreover have "4 dvd unat entry" using slot_dvd [OF dv] unfolding ea by (rule dvd_trans [rotated]) simp
  ultimately show ?thesis
    using vram_wr64 [OF st, of entry "nv_gmmu_make_pte_vram (phys + of_nat k * 4096) False False"]
      sb fit ea by (simp add: pv entry_value_def)
qed

section \<open>The build loops\<close>

definition level_writes :: "nat \<Rightarrow> nat \<Rightarrow> nat \<Rightarrow> nat \<Rightarrow> nat \<Rightarrow> (nat \<times> u64) list" where
  "level_writes va n tp phys p =
     map (\<lambda>x. (slot va n tp p x, entry_value va n tp phys p x))
         [blk_first va (Suc p)..<Suc (blk_last va n (Suc p))]"

definition range_writes :: "nat \<Rightarrow> nat \<Rightarrow> nat \<Rightarrow> nat \<Rightarrow> nat \<Rightarrow> (nat \<times> u64) list" where
  "range_writes va n tp phys p = concat (map (level_writes va n tp phys) [0..<p])"

lemma range_writes_Suc: "range_writes va n tp phys (Suc p) = range_writes va n tp phys p @ level_writes va n tp phys p"
  by (simp add: range_writes_def)

lemma blk_count_pos: "0 < n \<Longrightarrow> blk_first va p + blk_cnt va n p = Suc (blk_last va n p)"
proof -
  assume "0 < n"
  then have "blk_first va p \<le> blk_last va n p"
    unfolding blk_first_def blk_last_def by (intro div_le_mono) simp
  then show ?thesis by (simp add: blk_cnt_def)
qed

lemma zero_tables:
  assumes st: "vram_is io win mem st m" and tp: "4096 dvd unat tp" "unat tp + unat tb \<le> 2 ^ 40" "4096 dvd unat tb"
  shows "\<exists>st'. for_upto GMMU_PAGE_BYTES tb
      (\<lambda>offset. nv_gmmu_zero_table io (tp + offset) (ucast GMMU_PAGE_BYTES)) 0 st = Some st'
    \<and> vram_is io win mem st' (fill32 (unat tp) (unat tb) 0 m)"
proof -
  from tp(3) obtain q where q: "unat tb = 4096 * q" ..
  have "\<exists>st'. for_upto GMMU_PAGE_BYTES tb
      (\<lambda>offset. nv_gmmu_zero_table io (tp + offset) (ucast GMMU_PAGE_BYTES)) 0 st = Some st'
    \<and> vram_is io win mem st' (fill32 (unat tp) (4096 * q) 0 m)"
  proof (rule for_upto_inv [where P = "\<lambda>k st. vram_is io win mem st (fill32 (unat tp) (4096 * k) 0 m)"])
    show "vram_is io win mem st (fill32 (unat tp) (4096 * 0) 0 m)" using st by simp
    show "q = (unat tb + unat GMMU_PAGE_BYTES - 1) div unat GMMU_PAGE_BYTES" by (simp add: q)
    fix k st assume k: "k < q" and st: "vram_is io win mem st (fill32 (unat tp) (4096 * k) 0 m)"
    have b: "unat tp + 4096 * k + 4096 \<le> 2 ^ 40" using k tp(2) q by simp
    have "unat (of_nat k * 4096 :: u64) = 4096 * k"
      using unat_of_nat [of "4096 * k", where 'a = 64] b by (simp add: mult.commute)
    then have a: "unat (tp + of_nat k * 4096) = unat tp + 4096 * k"
      using b by (subst unat_add_small) simp_all
    have "4 dvd unat (tp + of_nat k * 4096)"
      unfolding a using dvd_trans [of 4 4096 "unat tp"] tp(1) by simp
    then have f: "\<exists>s'. nv_pramin_fill io (tp + of_nat k * 4096) 4096 0 st = Some s' \<and>
        vram_is io win mem s' (fill32 (unat tp) (4096 * k + 4096) 0 m)"
      using vram_fill [OF st, of "tp + of_nat k * 4096" 4096 0] a b by (simp add: fill_join)
    have e: "(ucast GMMU_PAGE_BYTES :: u32) = 4096" "4096 * Suc k = 4096 * k + 4096" by simp_all
    show "\<exists>s'. nv_gmmu_zero_table io (tp + of_nat k * GMMU_PAGE_BYTES) (ucast GMMU_PAGE_BYTES) st = Some s' \<and>
        vram_is io win mem s' (fill32 (unat tp) (4096 * Suc k) 0 m)"
      unfolding nv_gmmu_zero_table_def e by (rule f)
  qed (use tp(2) in simp_all)
  then show ?thesis by (simp only: q)
qed

lemma write_level:
  assumes ok: "build_ok va n tp r" and p: "p < 4" and st: "vram_is io win mem st m"
  shows "\<exists>st'. for_upto 1 (rg_level_count r ! Suc p) (\<lambda>n st. Some (range_pde io r (Suc p) n st)) 0 st = Some st'
    \<and> vram_is io win mem st' (poke_all (level_writes (unat va) (unat n) (unat tp) phys p) m)"
proof -
  let ?c = "blk_cnt (unat va) (unat n) (Suc p)" and ?f = "blk_first (unat va) (Suc p)"
  let ?w = "\<lambda>x. (slot (unat va) (unat n) (unat tp) p x, entry_value (unat va) (unat n) (unat tp) phys p x)"
  have a: "0 < unat n" "unat n \<le> 2 ^ 40" and lc: "unat (rg_level_count r ! Suc p) = ?c"
    using ok p by (auto simp: build_ok_def plan_args_def plan_at_def)
  have cl: "?c \<le> 2 ^ 20" using blk_cnt_le [OF a(2), of "Suc p" "unat va"] p by simp
  have "\<exists>st'. for_upto 1 (rg_level_count r ! Suc p) (\<lambda>n st. Some (range_pde io r (Suc p) n st)) 0 st = Some st'
    \<and> vram_is io win mem st' (poke_all (map ?w [?f..<?f + ?c]) m)"
  proof (rule for_upto_inv [where P = "\<lambda>k st. vram_is io win mem st (poke_all (map ?w [?f..<?f + k]) m)"])
    show "vram_is io win mem st (poke_all (map ?w [?f..<?f + 0]) m)" using st by simp
    fix k st assume k: "k < ?c" and st: "vram_is io win mem st (poke_all (map ?w [?f..<?f + k]) m)"
    from range_pde_effect [OF ok p k st]
    show "\<exists>s'. Some (range_pde io r (Suc p) (of_nat k * 1) st) = Some s' \<and>
        vram_is io win mem s' (poke_all (map ?w [?f..<?f + Suc k]) m)" by simp
  qed (use cl lc in simp_all)
  then show ?thesis unfolding level_writes_def blk_count_pos [OF a(1)] .
qed

lemma write_leaves:
  assumes ok: "build_ok va n tp r" and ph: "unat phys + unat n \<le> 2 ^ 40" and st: "vram_is io win mem st m"
  shows "\<exists>st'. for_upto GMMU_PAGE_BYTES n (\<lambda>offset st. Some (range_pte io r phys offset st)) 0 st = Some st'
    \<and> vram_is io win mem st' (poke_all (level_writes (unat va) (unat n) (unat tp) (unat phys) 4) m)"
proof -
  let ?f = "blk_first (unat va) 5"
  let ?w = "\<lambda>x. (slot (unat va) (unat n) (unat tp) 4 x, entry_value (unat va) (unat n) (unat tp) (unat phys) 4 x)"
  from ok have a: "0 < unat n" "4096 dvd unat va" "4096 dvd unat n" "unat n \<le> 2 ^ 40"
    by (auto simp: build_ok_def plan_args_def)
  have c: "blk_cnt (unat va) (unat n) 5 = unat n div 4096"
    using a(1-3) by (auto simp: blk_cnt_def blk_first_def blk_last_def gsh_def dvd_def)
  have "\<exists>st'. for_upto GMMU_PAGE_BYTES n (\<lambda>offset st. Some (range_pte io r phys offset st)) 0 st = Some st'
    \<and> vram_is io win mem st' (poke_all (map ?w [?f..<?f + unat n div 4096]) m)"
  proof (rule for_upto_inv [where P = "\<lambda>k st. vram_is io win mem st (poke_all (map ?w [?f..<?f + k]) m)"])
    show "vram_is io win mem st (poke_all (map ?w [?f..<?f + 0]) m)" using st by simp
    show "unat n div 4096 = (unat n + unat GMMU_PAGE_BYTES - 1) div unat GMMU_PAGE_BYTES"
      using a(3) by (auto simp: dvd_def)
    fix k st assume k: "k < unat n div 4096" and st: "vram_is io win mem st (poke_all (map ?w [?f..<?f + k]) m)"
    from range_pte_effect [OF ok k ph st]
    show "\<exists>s'. Some (range_pte io r phys (of_nat k * GMMU_PAGE_BYTES) st) = Some s' \<and>
        vram_is io win mem s' (poke_all (map ?w [?f..<?f + Suc k]) m)" by simp
  qed (use a in simp_all)
  then show ?thesis unfolding level_writes_def using blk_count_pos [OF a(1), of "unat va" 5] c by simp
qed

lemma plan_ok_build:
  assumes "nv_gmmu_range_plan va n tp cap = (rc, r)" "rc \<noteq> -1"
  shows "build_ok va n tp r"
  using range_plan_spec [of va n tp cap] assms by (auto simp: build_ok_def Let_def split: if_splits)

text \<open>The physical range is page-aligned, within reach of the window and clear of the tables.\<close>

definition target_ok :: "nat \<Rightarrow> nat \<Rightarrow> nat \<Rightarrow> nat \<Rightarrow> bool" where
  "target_ok va n tp phys \<longleftrightarrow> 4096 dvd phys \<and> phys + n \<le> 2 ^ 40
     \<and> (tp + table_total va n \<le> phys \<or> phys + n \<le> tp)"

lemma build_guard:
  assumes ok: "build_ok va n tp r"
  shows "nv_gmmu_range_build io r phys st =
    (if target_ok (unat va) (unat n) (unat tp) (unat phys)
     then do { st \<leftarrow> for_upto GMMU_PAGE_BYTES (rg_table_bytes r)
                 (\<lambda>offset. nv_gmmu_zero_table io (tp + offset) (ucast GMMU_PAGE_BYTES)) 0 st;
               st \<leftarrow> mfold (\<lambda>child. for_upto 1 (rg_level_count r ! child)
                        (\<lambda>n st. Some (range_pde io r child n st)) 0) [1..<NV_GMMU_LEVELS] st;
               st \<leftarrow> for_upto GMMU_PAGE_BYTES n (\<lambda>offset st. Some (range_pte io r phys offset st)) 0 st;
               Some (0, st) }
     else Some (-1, st))"
proof -
  let ?T = "table_total (unat va) (unat n)"
  from ok have at: "plan_at va n tp 5 r" and args: "plan_args (unat va) (unat n) (unat tp)"
    and fit: "unat tp + ?T \<le> 2 ^ 40" by (auto simp: build_ok_def)
  have rf: "rg_va r = va" "rg_bytes r = n" "rg_table_phys r = tp" and tb: "unat (rg_table_bytes r) = ?T"
    using at by (simp_all only: plan_at_def table_total_def)
  obtain rc r' where plan: "nv_gmmu_range_plan va n tp (rg_table_bytes r) = (rc, r')" by fastforce
  have rc: "rc = 0" and at': "plan_at va n tp 5 r'"
    using range_plan_spec [of va n tp "rg_table_bytes r"] plan args fit tb
    by (auto simp: Let_def)
  have same: "rg_table_bytes r' = rg_table_bytes r" "rg_level_phys r' ! j = rg_level_phys r ! j"
    "rg_level_count r' ! j = rg_level_count r ! j" if "j < 5" for j
    using at at' that by (simp_all only: plan_at_def word_unat_eq_iff)
  have n0: "unat n \<noteq> 0" using args by (auto simp: plan_args_def)
  have g: "(phys AND (GMMU_PAGE_BYTES - 1) \<noteq> 0 \<or> phys \<ge> PRAMIN_PHYS_END \<or> n > PRAMIN_PHYS_END - phys)
    \<longleftrightarrow> \<not> (4096 dvd unat phys \<and> unat phys + unat n \<le> 2 ^ 40)"
  proof (cases "phys \<ge> PRAMIN_PHYS_END")
    case True
    then show ?thesis using n0 by (auto simp: word_le_nat_alt)
  next
    case False
    then have "n > PRAMIN_PHYS_END - phys \<longleftrightarrow> \<not> unat phys + unat n \<le> 2 ^ 40"
      by (simp only: word_less_nat_alt word_le_nat_alt) (subst unat_sub_small, auto)
    then show ?thesis using False unfolding page_iff by blast
  qed
  have o: "(phys < tp + rg_table_bytes r \<and> tp < phys + n) \<longleftrightarrow>
      \<not> (unat tp + ?T \<le> unat phys \<or> unat phys + unat n \<le> unat tp)" if "unat phys + unat n \<le> 2 ^ 40"
  proof -
    have u: "unat (tp + rg_table_bytes r) = unat tp + ?T" "unat (phys + n) = unat phys + unat n"
      using tb fit that by (simp_all add: unat_add_small)
    show ?thesis unfolding word_less_nat_alt u by linarith
  qed
  have lv: "\<not> (\<exists>level \<in> set [0..<NV_GMMU_LEVELS]. rg_level_phys r ! level \<noteq> rg_level_phys r' ! level
                \<or> rg_level_count r ! level \<noteq> rg_level_count r' ! level)"
    using same(2,3) by simp
  show ?thesis
    unfolding nv_gmmu_range_build_def rf plan Let_def prod.case
    using rc same(1) [of 0] g o lv by (simp add: target_ok_def del: set_upt)
qed

lemma build_run:
  assumes ok: "build_ok va n tp r" and target: "target_ok (unat va) (unat n) (unat tp) (unat phys)"
    and st: "vram_is io win mem st m"
  shows "\<exists>st'. nv_gmmu_range_build io r phys st = Some (0, st')
    \<and> vram_is io win mem st' (poke_all (range_writes (unat va) (unat n) (unat tp) (unat phys) 5)
         (fill32 (unat tp) (table_total (unat va) (unat n)) 0 m))"
proof -
  let ?R = "range_writes (unat va) (unat n) (unat tp) (unat phys)"
  let ?T = "table_total (unat va) (unat n)"
  let ?pde = "\<lambda>c. for_upto 1 (rg_level_count r ! c) (\<lambda>n st. Some (range_pde io r c n st)) 0"
  from ok have fit: "unat tp + ?T \<le> 2 ^ 40" "4096 dvd unat tp" and tb: "unat (rg_table_bytes r) = ?T"
    by (simp_all only: build_ok_def plan_args_def plan_at_def table_total_def)
  have ph: "unat phys + unat n \<le> 2 ^ 40" using target by (simp add: target_ok_def)
  from zero_tables [OF st fit(2), of "rg_table_bytes r"] tb fit(1)
  obtain s1 where s1: "for_upto GMMU_PAGE_BYTES (rg_table_bytes r)
      (\<lambda>offset. nv_gmmu_zero_table io (tp + offset) (ucast GMMU_PAGE_BYTES)) 0 st = Some s1"
    and v1: "vram_is io win mem s1 (fill32 (unat tp) ?T 0 m)" by (auto simp: table_total_def)
  have "\<exists>s2. mfold (\<lambda>k. ?pde (Suc k)) [0..<4] s1 = Some s2
      \<and> vram_is io win mem s2 (poke_all (?R 4) (fill32 (unat tp) ?T 0 m))"
  proof (rule mfold_inv [where P = "\<lambda>k s. vram_is io win mem s (poke_all (?R k) (fill32 (unat tp) ?T 0 m))"])
    show "vram_is io win mem s1 (poke_all (?R 0) (fill32 (unat tp) ?T 0 m))" using v1 by (simp add: range_writes_def)
  qed (use write_level [OF ok] in \<open>simp add: range_writes_Suc\<close>)
  then obtain s2 where s2: "mfold ?pde [1..<5] s1 = Some s2"
    and v2: "vram_is io win mem s2 (poke_all (?R 4) (fill32 (unat tp) ?T 0 m))"
    using mfold_upt_Suc [of ?pde 4 s1] by auto
  from write_leaves [OF ok ph v2] obtain s3
    where s3: "for_upto GMMU_PAGE_BYTES n (\<lambda>offset st. Some (range_pte io r phys offset st)) 0 s2 = Some s3"
      and v3: "vram_is io win mem s3 (poke_all (?R 5) (fill32 (unat tp) ?T 0 m))"
    using range_writes_Suc [of _ _ _ _ 4] by auto
  have "nv_gmmu_range_build io r phys st = Some (0, s3)"
    unfolding build_guard [OF ok] using target s1 s2 s3 by simp
  with v3 show ?thesis by blast
qed

section \<open>The hardware's walk\<close>

text \<open>
  Address translation as the header documents it: five levels, a PDE is a pointer to VRAM if
  its aperture field [2:1] is 1, a leaf is valid if bit 0 is set (aperture 0 = VRAM), and both hold the
  address shifted right by 4.
\<close>

definition pde_addr :: "u64 \<Rightarrow> nat option" where
  "pde_addr e = (if e AND 6 = 2 then Some (unat (push_bit 4 (e AND NOT (mask 8)))) else None)"

definition pte_addr :: "u64 \<Rightarrow> nat option" where
  "pte_addr e = (if e AND 7 = 1 then Some (unat (push_bit 4 (e AND NOT (mask 8)))) else None)"

definition walk_entry :: "(nat \<Rightarrow> u32) \<Rightarrow> nat \<Rightarrow> nat \<Rightarrow> nat \<Rightarrow> u64" where
  "walk_entry m t p a = peek64 m (t + slot_off p (a div 2 ^ gsh (Suc p) mod 2 ^ gbits p))"

definition gmmu_walk :: "(nat \<Rightarrow> u32) \<Rightarrow> nat \<Rightarrow> nat \<Rightarrow> nat option" where
  "gmmu_walk m root a =
     do { pd2 \<leftarrow> pde_addr (walk_entry m root 0 a);
          pd1 \<leftarrow> pde_addr (walk_entry m pd2 1 a);
          pd0 \<leftarrow> pde_addr (walk_entry m pd1 2 a);
          spt \<leftarrow> pde_addr (walk_entry m pd0 3 a);
          page \<leftarrow> pte_addr (walk_entry m spt 4 a);
          Some (page + a mod 4096) }"

lemma entry_decode:
  fixes p :: u64
  assumes "4096 dvd unat p" "unat p < 2 ^ 40"
  shows "pde_addr (nv_gmmu_make_pde_vram p) = Some (unat p)"
    "pte_addr (nv_gmmu_make_pte_vram p False False) = Some (unat p)"
proof -
  have low: "take_bit 12 p = 0" using dvd_mask_iff [of p 12] assms(1) by (simp add: take_bit_eq_mask)
  have nb: "\<not> bit p n" if "n < 12" for n using low that by (metis bit_0_eq bit_take_bit_iff bot_apply bot_bool_def)
  have nh: "\<not> bit p n" if "40 \<le> n" for n
  proof -
    have "take_bit 40 p = p" using assms(2)
      by (metis take_bit_nat_eq_self_iff unsigned_take_bit_eq word_unat_eq_iff)
    then show ?thesis using that by (metis bit_take_bit_iff leD)
  qed
  have d: "drop_bit 4 p = push_bit 8 (drop_bit 12 p)"
  proof (rule bit_word_eqI)
    fix n assume "n < LENGTH(64)"
    then show "bit (drop_bit 4 p) n = bit (push_bit 8 (drop_bit 12 p)) n"
      using nb [of "4 + n"] by (cases "n < 8") (auto simp: bit_simps)
  qed
  have bk: "push_bit 4 (push_bit 8 (drop_bit 12 p)) = p"
  proof (rule bit_word_eqI)
    fix n assume "n < LENGTH(64)"
    then show "bit (push_bit 4 (push_bit 8 (drop_bit 12 p))) n = bit p n"
      using nb [of n] by (cases "n < 12") (auto simp: bit_simps)
  qed
  have c: "(push_bit 8 x OR c) AND NOT (mask 8) = push_bit 8 x" if "take_bit 8 c = c" for x c :: u64
  proof (rule bit_word_eqI)
    fix n
    have "bit c n \<longleftrightarrow> n < 8 \<and> bit c n" using that by (metis bit_take_bit_iff)
    then show "bit ((push_bit 8 x OR c) AND NOT (mask 8)) n = bit (push_bit 8 x) n"
      by (auto simp: bit_simps)
  qed
  have z: "push_bit 8 x AND c = 0" if "take_bit 8 c = c" for x c :: u64 using push_low_and [OF that] .
  show "pde_addr (nv_gmmu_make_pde_vram p) = Some (unat p)"
    unfolding pde_addr_def nv_gmmu_make_pde_vram_def d
    by (subst c, simp) (simp only: bk bit.conj_disj_distrib2, simp add: z)
  show "pte_addr (nv_gmmu_make_pte_vram p False False) = Some (unat p)"
    unfolding pte_addr_def nv_gmmu_make_pte_vram_def d Let_def if_False
    by (subst c, simp) (simp only: bk bit.conj_disj_distrib2, simp add: z)
qed

lemma set_level_writes: "(a, v) \<in> set (level_writes va n tp phys p) \<longleftrightarrow>
    (\<exists>x. blk_first va (Suc p) \<le> x \<and> x \<le> blk_last va n (Suc p) \<and> a = slot va n tp p x
         \<and> v = entry_value va n tp phys p x)"
  by (auto simp: level_writes_def)

lemma set_range_writes: "(a, v) \<in> set (range_writes va n tp phys k) \<longleftrightarrow>
    (\<exists>p < k. (a, v) \<in> set (level_writes va n tp phys p))"
  by (auto simp: range_writes_def)

lemma distinct_writes: "k \<le> 5 \<Longrightarrow> distinct (map fst (range_writes va n tp phys k))"
proof (induction k)
  case (Suc k)
  have inj: "p = q \<and> x = y" if "p < 5" "q < 5" "slot va n tp p x = slot va n tp q y"
    "blk_first va (Suc p) \<le> x" "x \<le> blk_last va n (Suc p)"
    "blk_first va (Suc q) \<le> y" "y \<le> blk_last va n (Suc q)" for p q x y
    by (rule slot_inj [OF that(1,2) in_level_block in_level_block that(3)]) (use that in auto)
  have "distinct (map fst (level_writes va n tp phys k))"
    unfolding level_writes_def using inj [of k k] Suc.prems by (auto simp: distinct_map inj_on_def)
  moreover have "a \<notin> fst ` set (level_writes va n tp phys k)" if "(a, v) \<in> set (range_writes va n tp phys k)" for a v
  proof
    note mem = that
    assume "a \<in> fst ` set (level_writes va n tp phys k)"
    then obtain y where "blk_first va (Suc k) \<le> y" "y \<le> blk_last va n (Suc k)" "a = slot va n tp k y"
      by (auto simp: level_writes_def)
    moreover obtain q x where "q < k" "blk_first va (Suc q) \<le> x" "x \<le> blk_last va n (Suc q)"
      "a = slot va n tp q x" using mem by (auto simp: set_range_writes set_level_writes)
    ultimately show False using inj [of q k x y] Suc.prems by simp
  qed
  ultimately show ?case using Suc by (force simp: range_writes_Suc)
qed (simp add: range_writes_def)

lemma slot_peek:
  assumes tp: "4096 dvd tp" and p: "p < 5" and x: "in_level va n p x"
  shows "peek64 (poke_all (range_writes va n tp phys 5) (fill32 tp (table_total va n) 0 m)) (slot va n tp p x)
    = (if blk_first va (Suc p) \<le> x \<and> x \<le> blk_last va n (Suc p) then entry_value va n tp phys p x else 0)"
proof -
  let ?ws = "range_writes va n tp phys 5" and ?z = "fill32 tp (table_total va n) 0 m"
  have al: "\<forall>(a, v) \<in> set ?ws. 8 dvd a"
    using slot_dvd [OF tp] by (auto simp: set_range_writes set_level_writes)
  have "8 dvd (4096 :: nat)" by simp
  then have d8: "8 dvd tp" "8 dvd table_total va n"
    using tp dvd_trans by (blast, simp add: table_total_def)
  show ?thesis
  proof (cases "blk_first va (Suc p) \<le> x \<and> x \<le> blk_last va n (Suc p)")
    case True
    then have "(slot va n tp p x, entry_value va n tp phys p x) \<in> set ?ws"
      using p by (auto simp: set_range_writes set_level_writes)
    with True show ?thesis using peek_poke_all [OF al distinct_writes] by simp
  next
    case False
    have "slot va n tp p x \<notin> fst ` set ?ws"
    proof
      assume "slot va n tp p x \<in> fst ` set ?ws"
      then obtain q y where y: "q < 5" "blk_first va (Suc q) \<le> y" "y \<le> blk_last va n (Suc q)"
        "slot va n tp p x = slot va n tp q y" by (auto simp: set_range_writes set_level_writes)
      from slot_inj [OF p y(1) x in_level_block [OF y(1,2,3)] y(4)] False y show False by blast
    qed
    then have "peek64 (poke_all ?ws ?z) (slot va n tp p x) = peek64 ?z (slot va n tp p x)"
      by (rule peek_poke_all_other [OF al slot_dvd [OF tp]])
    then show ?thesis
      using False peek_fill [OF d8(1) slot_dvd [OF tp, of va n p x] d8(2)] slot_bounds [OF p x, of tp] by auto
  qed
qed

text \<open>The block of address \<open>a\<close> at level \<open>p\<close> is one the range touches.\<close>

definition touched :: "nat \<Rightarrow> nat \<Rightarrow> nat \<Rightarrow> nat \<Rightarrow> bool" where
  "touched va n p a \<longleftrightarrow> blk_first va p \<le> a div 2 ^ gsh p \<and> a div 2 ^ gsh p \<le> blk_last va n p"

lemma walk_slot:
  assumes "p < 5" "touched va n p a" "4096 dvd tp"
  defines "x \<equiv> a div 2 ^ gsh (Suc p)"
  shows "walk_entry (poke_all (range_writes va n tp phys 5) (fill32 tp (table_total va n) 0 m))
      (tab va n tp p (a div 2 ^ gsh p - blk_first va p)) p a
    = (if touched va n (Suc p) a then entry_value va n tp phys p x else 0)"
proof -
  have x: "x div 2 ^ gbits p = a div 2 ^ gsh p" unfolding x_def by (rule div_gsh [OF assms(1)])
  then have "in_level va n p x" using assms(2) by (simp add: in_level_def touched_def)
  from slot_peek [OF assms(3,1) this, of phys m] x
  show ?thesis by (simp add: walk_entry_def slot_def touched_def x_def)
qed

lemma walk_pde:
  assumes p: "p < 4" and t: "touched va n p a" and args: "plan_args va n tp"
    and fit: "tp + table_total va n \<le> 2 ^ 40"
  shows "pde_addr (walk_entry (poke_all (range_writes va n tp phys 5) (fill32 tp (table_total va n) 0 m))
      (tab va n tp p (a div 2 ^ gsh p - blk_first va p)) p a)
    = (if touched va n (Suc p) a
       then Some (tab va n tp (Suc p) (a div 2 ^ gsh (Suc p) - blk_first va (Suc p))) else None)"
proof -
  have tp: "4096 dvd tp" using args by (simp add: plan_args_def)
  show ?thesis
  proof (cases "touched va n (Suc p) a")
    case True
    let ?k = "a div 2 ^ gsh (Suc p) - blk_first va (Suc p)"
    have "?k < blk_cnt va n (Suc p)" using True by (auto simp: touched_def blk_cnt_def)
    then have "tab_num va n (Suc p) ?k < tab_num va n 5 0" using tab_num_less [of _ va n "Suc p" 5] p by simp
    then have b: "tab va n tp (Suc p) ?k < 2 ^ 40" using fit by (simp add: tab_def table_total_def)
    then have u: "unat (of_nat (tab va n tp (Suc p) ?k) :: u64) = tab va n tp (Suc p) ?k"
      by (simp add: unat_of_nat)
    have "4096 dvd tab va n tp (Suc p) ?k" using tp by (simp add: tab_def)
    with entry_decode(1) [of "of_nat (tab va n tp (Suc p) ?k)"] b u
    show ?thesis using True p walk_slot [OF _ t tp, of phys m] by (simp add: entry_value_def)
  next
    case False
    then show ?thesis using walk_slot [OF _ t tp, of phys m] p by (simp add: pde_addr_def)
  qed
qed

lemma touched_leaf:
  assumes "plan_args va n tp"
  shows "touched va n 5 a \<longleftrightarrow> va \<le> a \<and> a < va + n"
proof -
  from assms obtain v k where v: "va = 4096 * v" "n = 4096 * k" "0 < k"
    by (auto simp: plan_args_def dvd_def)
  have "(4096 * v + 4096 * k - 1) div 4096 = v + k - 1" using v(3) by (cases k) auto
  then have "touched va n 5 a \<longleftrightarrow> v \<le> a div 4096 \<and> a div 4096 \<le> v + k - 1"
    by (simp add: touched_def blk_first_def blk_last_def gsh_def v)
  also have "\<dots> \<longleftrightarrow> 4096 * v \<le> a \<and> a < 4096 * (v + k)"
    using v(3) by (auto simp: less_eq_div_iff_mult_less_eq)
  finally show ?thesis by (simp add: v algebra_simps)
qed

lemma touched_all:
  assumes "va \<le> a" "a < va + n" shows "touched va n p a"
  using assms by (auto simp: touched_def blk_first_def blk_last_def intro!: div_le_mono)

lemma walk_result:
  assumes args: "plan_args va n tp" and fit: "tp + table_total va n \<le> 2 ^ 40"
    and phys: "4096 dvd phys" "phys + n \<le> 2 ^ 40" and a: "a < 2 ^ 49"
  shows "gmmu_walk (poke_all (range_writes va n tp phys 5) (fill32 tp (table_total va n) 0 m)) tp a
       = (if va \<le> a \<and> a < va + n then Some (phys + (a - va)) else None)" (is "gmmu_walk ?m tp a = _")
proof -
  let ?t = "\<lambda>p. tab va n tp p (a div 2 ^ gsh p - blk_first va p)"
  have n0: "0 < n" "4096 dvd va" "va + n \<le> 2 ^ 49" and tp: "4096 dvd tp" using args by (auto simp: plan_args_def)
  have t0: "touched va n 0 a"
    using a n0 by (simp add: touched_def blk_first_def blk_last_def gsh_def)
  have root: "?t 0 = tp" using a by (simp add: tab_def tab_num_def gsh_def blk_first_def)
  have sc: "Suc 0 = 1" "Suc 1 = 2" "Suc 2 = 3" "Suc 3 = 4" by simp_all
  note walk = walk_pde [OF _ _ args fit, of _ a phys m]
  note w0 = walk [of 0, unfolded sc] and w1 = walk [of 1, unfolded sc] and w2 = walk [of 2, unfolded sc]
    and w3 = walk [of 3, unfolded sc]
  have leaf: "pte_addr (walk_entry ?m (?t 4) 4 a)
      = (if touched va n 5 a then Some (phys + (4096 * (a div 4096) - va)) else None)" if t: "touched va n 4 a"
  proof (cases "touched va n 5 a")
    case True
    then have r: "va \<le> a" "a < va + n" using touched_leaf [OF args] by auto
    have al: "va \<le> 4096 * (a div 4096)" using r(1) n0(2) by (auto simp: dvd_def less_eq_div_iff_mult_less_eq)
    have le: "4096 * (a div 4096) \<le> a" by simp
    define P where "P = phys + (4096 * (a div 4096) - va)"
    have "P < 2 ^ 40" using r le phys(2) unfolding P_def by linarith
    then have u: "unat (of_nat P :: u64) = P" by (simp add: unat_of_nat)
    have "4096 dvd P" unfolding P_def using phys(1) n0(2) by (intro dvd_add dvd_diff_nat) simp_all
    with entry_decode(2) [of "of_nat P"] u \<open>P < 2 ^ 40\<close>
    have "pte_addr (nv_gmmu_make_pte_vram (of_nat P) False False) = Some P" by simp
    moreover have "entry_value va n tp phys 4 (a div 2 ^ gsh 5) = nv_gmmu_make_pte_vram (of_nat P) False False"
      by (simp add: entry_value_def gsh_def P_def)
    ultimately show ?thesis
      using True walk_slot [OF _ t tp, of phys m] by (simp add: P_def)
  next
    case False
    then show ?thesis using walk_slot [OF _ t tp, of phys m] by (simp add: pte_addr_def)
  qed
  have "gmmu_walk ?m tp a = gmmu_walk ?m (?t 0) a" by (simp only: root)
  also have "\<dots> = (if touched va n 1 a \<and> touched va n 2 a \<and> touched va n 3 a \<and> touched va n 4 a \<and> touched va n 5 a
      then Some (phys + (4096 * (a div 4096) - va) + a mod 4096) else None)"
    unfolding gmmu_walk_def using w0 w1 w2 w3 t0 leaf
    by (simp del: One_nat_def)
  also have "\<dots> = (if va \<le> a \<and> a < va + n then Some (phys + (a - va)) else None)"
  proof (cases "va \<le> a \<and> a < va + n")
    case True
    have "4096 * (a div 4096) + a mod 4096 = a" by simp
    moreover have "va \<le> 4096 * (a div 4096)" using True n0(2) by (auto simp: dvd_def less_eq_div_iff_mult_less_eq)
    ultimately have "phys + (4096 * (a div 4096) - va) + a mod 4096 = phys + (a - va)" by linarith
    then show ?thesis using True touched_all [of va a n] by simp
  next
    case False
    then show ?thesis using touched_leaf [OF args, of a] by auto
  qed
  finally show ?thesis .
qed

lemma writes_outside:
  assumes "4096 dvd tp" "b < tp \<or> tp + table_total va n \<le> b"
  shows "poke_all (range_writes va n tp phys 5) (fill32 tp (table_total va n) 0 m) b = m b"
proof -
  have "b \<noteq> a \<and> b \<noteq> a + 4" if "(a, v) \<in> set (range_writes va n tp phys 5)" for a v
  proof -
    from that obtain p x where p: "p < 5" "blk_first va (Suc p) \<le> x" "x \<le> blk_last va n (Suc p)"
      "a = slot va n tp p x" by (auto simp: set_range_writes set_level_writes)
    from slot_bounds [OF p(1) in_level_block [OF p(1-3)], of tp] p(4) assms(2) show ?thesis by auto
  qed
  then have "poke_all (range_writes va n tp phys 5) (fill32 tp (table_total va n) 0 m) b
      = fill32 tp (table_total va n) 0 m b" by (rule poke_all_outside)
  then show ?thesis using assms(2) by (auto simp: fill32_def)
qed

lemma range_build_spec:
  assumes plan: "nv_gmmu_range_plan va n tp cap = (rc, r)" "rc \<noteq> -1"
    and st: "vram_is io win mem st m"
  shows "if target_ok (unat va) (unat n) (unat tp) (unat phys)
     then \<exists>st'. nv_gmmu_range_build io r phys st = Some (0, st') \<and> coherent win st'
       \<and> (\<forall>a < 2 ^ 49. gmmu_walk (mem (snd st')) (unat tp) a =
             (if unat va \<le> a \<and> a < unat va + unat n then Some (unat phys + (a - unat va)) else None))
       \<and> (\<forall>b. b < unat tp \<or> unat tp + table_total (unat va) (unat n) \<le> b \<longrightarrow> mem (snd st') b = m b)
     else nv_gmmu_range_build io r phys st = Some (-1, st)"
proof -
  note ok = plan_ok_build [OF plan]
  then have args: "plan_args (unat va) (unat n) (unat tp)" and tp: "4096 dvd unat tp"
    and fit: "unat tp + table_total (unat va) (unat n) \<le> 2 ^ 40" by (auto simp: build_ok_def plan_args_def)
  show ?thesis
  proof (cases "target_ok (unat va) (unat n) (unat tp) (unat phys)")
    case True
    from build_run [OF ok True st] obtain st' where run: "nv_gmmu_range_build io r phys st = Some (0, st')"
      and v: "vram_is io win mem st' (poke_all (range_writes (unat va) (unat n) (unat tp) (unat phys) 5)
         (fill32 (unat tp) (table_total (unat va) (unat n)) 0 m))" by blast
    from v have m: "mem (snd st') = poke_all (range_writes (unat va) (unat n) (unat tp) (unat phys) 5)
         (fill32 (unat tp) (table_total (unat va) (unat n)) 0 m)" and c: "coherent win st'"
      by (simp_all add: vram_is_def)
    show ?thesis
      using True run c walk_result [OF args fit, of "unat phys"] writes_outside [OF tp]
      by (intro if_P [THEN iffD2]) (auto simp: m target_ok_def)
  qed (simp add: build_guard [OF ok])
qed

lemma range_build_done:
  assumes "nv_gmmu_range_plan va n tp cap = (rc, r)" "rc \<noteq> -1" "vram_is io win mem st m"
    and t: "target_ok (unat va) (unat n) (unat tp) (unat phys)"
  shows "\<exists>st'. nv_gmmu_range_build io r phys st = Some (0, st') \<and> coherent win st'
       \<and> (\<forall>a < 2 ^ 49. gmmu_walk (mem (snd st')) (unat tp) a =
             (if unat va \<le> a \<and> a < unat va + unat n then Some (unat phys + (a - unat va)) else None))
       \<and> (\<forall>b. b < unat tp \<or> unat tp + table_total (unat va) (unat n) \<le> b \<longrightarrow> mem (snd st') b = m b)"
  using range_build_spec [OF assms(1-3), of phys, unfolded if_P [OF t]] .

text \<open>
  C5. Given a plan of \<open>nv_gmmu_range_plan\<close> and a page-aligned target that does not
  touch the tables, \<open>nv_gmmu_range_build\<close> ends with 0 and leaves tables through which
  the hardware's walk translates every address of the range to the matching physical address and no
  other 49-bit address at all; VRAM outside the table arena is untouched.  For any other target
  it returns -1 and writes nothing.
\<close>

theorem nv_gmmu_range_build_translates:
  assumes plan: "nv_gmmu_range_plan va n tp cap = (rc, r)" "rc \<noteq> -1"
    and st: "vram_is io win mem st m"
  shows "if target_ok (unat va) (unat n) (unat tp) (unat phys)
     then \<exists>st'. nv_gmmu_range_build io r phys st = Some (0, st') \<and> coherent win st'
       \<and> (\<forall>a < 2 ^ 49. gmmu_walk (mem (snd st')) (unat tp) a =
             (if unat va \<le> a \<and> a < unat va + unat n then Some (unat phys + (a - unat va)) else None))
       \<and> (\<forall>b. b < unat tp \<or> unat tp + table_total (unat va) (unat n) \<le> b \<longrightarrow> mem (snd st') b = m b)
     else nv_gmmu_range_build io r phys st = Some (-1, st)"
  using assms by (rule range_build_spec)

section \<open>A concrete device\<close>

definition demo_io :: "(u64 \<times> (nat \<Rightarrow> u32)) mmio" where
  "demo_io = \<lparr>io_rd = (\<lambda>off (w, m).
       (if off - 0x700000 < 0x100000 then m (unat w + unat (off - 0x700000)) else 0, (w, m))),
     io_wr = (\<lambda>off v (w, m).
       if off = 0x1700 then (push_bit 16 (ucast v), m)
       else if off - 0x700000 < 0x100000 then (w, m(unat w + unat (off - 0x700000) := v)) else (w, m)),
     io_udelay = (\<lambda>us w. w)\<rparr>"

lemma demo_io_dev: "pramin_dev demo_io fst snd"
proof -
  have "0x700000 + off \<noteq> (0x1700 :: u32)" if "off < 0x100000" for off
  proof
    assume "0x700000 + off = 0x1700"
    then have "off = 0x1700 - 0x700000" by (metis add_diff_cancel_left')
    then show False using that by simp
  qed
  then show ?thesis by (auto simp: pramin_dev_def demo_io_def)
qed

definition demo_vram :: "(u64 \<times> (nat \<Rightarrow> u32)) pramin" where
  "demo_vram = (0xFFFFFFFFFFFFFFFF, (0, \<lambda>_. 0xDEADBEEF))"

lemma demo_vram_is: "vram_is demo_io fst snd demo_vram (\<lambda>_. 0xDEADBEEF)"
proof -
  have "(0xFFFFFFFFFFFFFFFF :: u64) AND mask 20 \<noteq> 0" by (simp add: mask_eq_exp_minus_1)
  then show ?thesis by (simp add: vram_is_def coherent_def demo_vram_def demo_io_dev del: take_bit_eq_mask)
qed

lemma demo_total: "table_total (unat (0x40000000 :: u64)) (unat (0x3000 :: u64)) = 20480"
  by (simp add: table_total_def tab_num_def blk_cnt_def blk_last_def blk_first_def gsh_def
      lessThan_nat_numeral lessThan_Suc)

lemma demo_plan: "fst (nv_gmmu_range_plan 0x40000000 0x3000 0x100000 0x10000) = 0"
  by code_simp

theorem nv_gmmu_range_build_witness:
  "\<exists>r st'. nv_gmmu_range_plan 0x40000000 0x3000 0x100000 0x10000 = (0, r)
     \<and> nv_gmmu_range_build demo_io r 0x200000 demo_vram = Some (0, st')
     \<and> gmmu_walk (snd (snd st')) 0x100000 0x40001008 = Some 0x201008
     \<and> gmmu_walk (snd (snd st')) 0x100000 0x40003000 = None"
proof -
  obtain r where r: "nv_gmmu_range_plan 0x40000000 0x3000 0x100000 0x10000 = (0, r)"
    using demo_plan by (metis prod.collapse)
  have t: "target_ok (unat (0x40000000 :: u64)) (unat (0x3000 :: u64)) (unat (0x100000 :: u64)) (unat (0x200000 :: u64))"
    unfolding target_ok_def demo_total by simp
  from nv_gmmu_range_build_translates [OF r _ demo_vram_is, of "0x200000"] r t
  show ?thesis by auto
qed

end
