(* ===== verification/GmmuBranch.thy ===== *)
theory GmmuBranch
  imports Gmmu
begin

text \<open>
  The single-branch builders of \<open>driver/gsp/gmmu.c\<close> (\<open>nv_gmmu_build_1page\<close>,
  \<open>nv_gmmu_map_range\<close>, \<open>nv_gmmu_read_pte\<close>): five caller-supplied tables, one PDE per
  upper level, a run of PTEs in one leaf table.
\<close>

definition btab :: "nv_gmmu_tables \<Rightarrow> nat \<Rightarrow> u64" where
  "btab t p = [pd3_phys t, pd2_phys t, pd1_phys t, pd0_phys t, spt_phys t] ! p"

definition tables_ok :: "nv_gmmu_tables \<Rightarrow> bool" where
  "tables_ok t \<longleftrightarrow> (\<forall>p < 5. 4096 dvd unat (btab t p) \<and> unat (btab t p) + 4096 \<le> 2 ^ 40)
     \<and> (\<forall>p < 5. \<forall>q < 5. btab t p = btab t q \<longrightarrow> p = q)"

definition bidx :: "nat \<Rightarrow> nat \<Rightarrow> nat" where
  "bidx a p = a div 2 ^ gsh (Suc p) mod 2 ^ gbits p"

definition pde_write :: "nv_gmmu_tables \<Rightarrow> nat \<Rightarrow> nat \<Rightarrow> nat \<times> u64" where
  "pde_write t va p = (unat (btab t p) + slot_off p (bidx va p), nv_gmmu_make_pde_vram (btab t (Suc p)))"

definition pte_write :: "nv_gmmu_tables \<Rightarrow> nat \<Rightarrow> u64 \<Rightarrow> nat \<Rightarrow> nat \<times> u64" where
  "pte_write t va page k = (unat (btab t 4) + slot_off 4 (bidx va 4 + k),
     nv_gmmu_make_pte_vram (page + of_nat k * 4096) False False)"

definition branch_writes :: "nv_gmmu_tables \<Rightarrow> nat \<Rightarrow> u64 \<Rightarrow> nat \<Rightarrow> (nat \<times> u64) list" where
  "branch_writes t va page n =
     [pde_write t va 0, pde_write t va 1, pde_write t va 2,
      (unat (btab t 3) + 16 * bidx va 3, 0), pde_write t va 3] @ map (pte_write t va page) [0..<n]"

definition zeroed :: "nv_gmmu_tables \<Rightarrow> (nat \<Rightarrow> u32) \<Rightarrow> nat \<Rightarrow> u32" where
  "zeroed t m = fill32 (unat (btab t 4)) 4096 0 (fill32 (unat (btab t 3)) 4096 0
     (fill32 (unat (btab t 2)) 4096 0 (fill32 (unat (btab t 1)) 4096 0 (fill32 (unat (btab t 0)) 32 0 m))))"

lemma btab_at:
  assumes "tables_ok t" "p < 5"
  shows "4096 dvd unat (btab t p)" "unat (btab t p) + 4096 \<le> 2 ^ 40" "8 dvd unat (btab t p)" "4 dvd unat (btab t p)"
proof -
  show d: "4096 dvd unat (btab t p)" and "unat (btab t p) + 4096 \<le> 2 ^ 40"
    using assms by (auto simp: tables_ok_def)
  from d show "8 dvd unat (btab t p)" "4 dvd unat (btab t p)" by (auto intro: dvd_trans [rotated])
qed

lemma btab_inj:
  assumes ok: "tables_ok t" and p: "p < 5" "q < 5" and o: "x < 4096" "y < 4096"
    and eq: "unat (btab t p) + x = unat (btab t q) + y"
  shows "p = q \<and> x = y"
proof -
  obtain i j where ij: "unat (btab t p) = 4096 * i" "unat (btab t q) = 4096 * j"
    using btab_at(1) [OF ok] p by (metis dvdE)
  have "(4096 * i + x) div 4096 = (4096 * j + y) div 4096" using eq ij by simp
  then have "i = j" using o by simp
  then have "unat (btab t p) = unat (btab t q)" using ij by simp
  then have "btab t p = btab t q" by (simp only: word_unat_eq_iff)
  with ok p eq show ?thesis by (auto simp: tables_ok_def)
qed

lemma bidx_less: "bidx a p < 2 ^ gbits p"
  by (simp add: bidx_def)

lemma pde_index_bidx:
  "p < 5 \<Longrightarrow> unat (nv_gmmu_pde_index va (gsh (Suc p)) (range_entries p)) = bidx (unat va) p"
proof -
  assume p: "p < 5"
  have "bidx (unat va) p < 2 ^ 32" using bidx_less [of "unat va" p] p
    by (auto simp: gbits_def dest!: less_5_cases)
  then show ?thesis
    by (simp only: nv_gmmu_pde_index_def range_entries_mask [OF p] unat_ucast_mod unat_and_mask unat_drop_bit bidx_def) simp
qed

lemma vram_zero_table:
  assumes "vram_is io win mem st m" "4 dvd unat a" "unat a + unat len \<le> 2 ^ 40" "4 dvd unat len" "unat len \<le> 4096"
  shows "\<exists>st'. nv_gmmu_zero_table io a len st = Some st' \<and> vram_is io win mem st' (fill32 (unat a) (unat len) 0 m)"
  unfolding nv_gmmu_zero_table_def by (rule vram_fill) (use assms in simp_all)

lemma zero_branch_effect:
  assumes ok: "tables_ok t" and st: "vram_is io win mem st m"
  shows "\<exists>st'. gmmu_zero_branch io t st = Some st' \<and> vram_is io win mem st' (zeroed t m)"
proof -
  have b: "unat (btab t p) + k \<le> 2 ^ 40" if "p < 5" "k \<le> 4096" for p k using btab_at(2) [OF ok that(1)] that by simp
  note d = btab_at(4) [OF ok]
  have n: "btab t 0 = pd3_phys t" "btab t 1 = pd2_phys t" "btab t 2 = pd1_phys t" "btab t 3 = pd0_phys t"
    "btab t 4 = spt_phys t" by (simp_all add: btab_def)
  obtain s0 where s0: "nv_gmmu_zero_table io (btab t 0) 32 st = Some s0"
    "vram_is io win mem s0 (fill32 (unat (btab t 0)) 32 0 m)"
    using vram_zero_table [OF st, of "btab t 0" 32] d [of 0] b [of 0 32] by auto
  obtain s1 where s1: "nv_gmmu_zero_table io (btab t 1) 4096 s0 = Some s1"
    "vram_is io win mem s1 (fill32 (unat (btab t 1)) 4096 0 (fill32 (unat (btab t 0)) 32 0 m))"
    using vram_zero_table [OF s0(2), of "btab t 1" 4096] d [of 1] b [of 1 4096] by auto
  obtain s2 where s2: "nv_gmmu_zero_table io (btab t 2) 4096 s1 = Some s2"
    "vram_is io win mem s2 (fill32 (unat (btab t 2)) 4096 0 (fill32 (unat (btab t 1)) 4096 0 (fill32 (unat (btab t 0)) 32 0 m)))"
    using vram_zero_table [OF s1(2), of "btab t 2" 4096] d [of 2] b [of 2 4096] by auto
  obtain s3 where s3: "nv_gmmu_zero_table io (btab t 3) 4096 s2 = Some s3"
    "vram_is io win mem s3 (fill32 (unat (btab t 3)) 4096 0 (fill32 (unat (btab t 2)) 4096 0
       (fill32 (unat (btab t 1)) 4096 0 (fill32 (unat (btab t 0)) 32 0 m))))"
    using vram_zero_table [OF s2(2), of "btab t 3" 4096] d [of 3] b [of 3 4096] by auto
  obtain s4 where s4: "nv_gmmu_zero_table io (btab t 4) 4096 s3 = Some s4" "vram_is io win mem s4 (zeroed t m)"
    using vram_zero_table [OF s3(2), of "btab t 4" 4096] d [of 4] b [of 4 4096] by (auto simp: zeroed_def)
  show ?thesis using s0(1) s1(1) s2(1) s3(1) s4 by (simp add: gmmu_zero_branch_def n del: One_nat_def)
qed

lemma chain_effect:
  assumes ok: "tables_ok t" and st: "vram_is io win mem st m"
  shows "vram_is io win mem (gmmu_write_pde_chain io t va st)
    (poke_all [pde_write t (unat va) 0, pde_write t (unat va) 1, pde_write t (unat va) 2,
       (unat (btab t 3) + 16 * bidx (unat va) 3, 0), pde_write t (unat va) 3] m)"
proof -
  have n: "pd3_phys t = btab t 0" "pd2_phys t = btab t 1" "pd1_phys t = btab t 2" "pd0_phys t = btab t 3"
    "spt_phys t = btab t 4" by (simp_all add: btab_def)
  have ix: "unat (nv_gmmu_pde_index va 47 4) = bidx (unat va) 0" "unat (nv_gmmu_pde_index va 38 512) = bidx (unat va) 1"
    "unat (nv_gmmu_pde_index va 29 512) = bidx (unat va) 2" "unat (nv_gmmu_pde_index va 21 256) = bidx (unat va) 3"
    using pde_index_bidx [of 0 va] pde_index_bidx [of 1 va] pde_index_bidx [of 2 va] pde_index_bidx [of 3 va]
    by (simp_all add: gsh_def range_entries_def)
  have lt: "bidx (unat va) 0 < 4" "bidx (unat va) 1 < 512" "bidx (unat va) 2 < 512" "bidx (unat va) 3 < 256"
    using bidx_less [of "unat va" 0] bidx_less [of "unat va" 1] bidx_less [of "unat va" 2] bidx_less [of "unat va" 3]
    by (simp_all add: gbits_def)
  have ad: "unat (btab t p + ucast i * ucast c) = unat (btab t p) + unat i * unat c"
    if "p < 5" "unat i * unat c < 4096" for p and i c :: u32
  proof -
    have "unat (ucast i * ucast c :: u64) = unat i * unat c"
      using that(2) by (subst unat_mult_small) (simp_all add: unat_ucast_small u32_less less_trans [OF u32_less])
    then show ?thesis using btab_at(2) [OF ok that(1)] that(2) by (subst unat_add_small) simp_all
  qed
  have w: "vram_is io win mem (nv_pramin_wr64 io a v s) (poke64 x v m)"
    if "vram_is io win mem s m" "unat a = x" "x + 8 \<le> 2 ^ 40" "4 dvd x" for a v s x m
    using vram_wr64 [OF that(1), of a v] that by simp
  note b = btab_at(2) [OF ok] and d = btab_at(4) [OF ok]
  have a3: "unat (btab t 3 + ucast (nv_gmmu_pde_index va 21 256) * 16) = unat (btab t 3) + 16 * bidx (unat va) 3"
    using ad [of 3 "nv_gmmu_pde_index va 21 256" 16] ix lt by simp
  then have a3': "unat (btab t 3 + ucast (nv_gmmu_pde_index va 21 256) * 16 + 8) = unat (btab t 3) + 16 * bidx (unat va) 3 + 8"
    using b [of 3] lt(4) by (subst unat_add_small) simp_all
  have pw: "pde_write t a 0 = (unat (btab t 0) + 8 * bidx a 0, nv_gmmu_make_pde_vram (btab t 1))"
    "pde_write t a 1 = (unat (btab t 1) + 8 * bidx a 1, nv_gmmu_make_pde_vram (btab t 2))"
    "pde_write t a 2 = (unat (btab t 2) + 8 * bidx a 2, nv_gmmu_make_pde_vram (btab t 3))"
    "pde_write t a 3 = (unat (btab t 3) + 16 * bidx a 3 + 8, nv_gmmu_make_pde_vram (btab t 4))" for a
    unfolding pde_write_def slot_off_def by (simp_all add: eval_nat_numeral)
  show ?thesis
    unfolding gmmu_write_pde_chain_def Let_def n pw
    apply (simp only: fold_Cons fold_Nil o_apply id_apply prod.case)
    apply (intro w st)
    using ad [of 0 "nv_gmmu_pde_index va 47 4" 8] ad [of 1 "nv_gmmu_pde_index va 38 512" 8]
      ad [of 2 "nv_gmmu_pde_index va 29 512" 8] a3 a3' ix lt b [of 0] b [of 1] b [of 2] b [of 3]
      d [of 0] d [of 1] d [of 2] d [of 3]
    by (simp_all del: One_nat_def)
qed

lemma slot_off_ptr: "slot_off 4 i = 8 * i"
  by (simp add: slot_off_def)

lemma pte_loop_effect:
  assumes ok: "tables_ok t" and n: "bidx (unat va) 4 + unat npages \<le> 512"
    and st: "vram_is io win mem st m"
  shows "\<exists>st'. for_upto 1 npages (\<lambda>k st.
        let pte = nv_gmmu_make_pte_vram (page + ucast k * 0x1000) False False
        in Some (nv_pramin_wr64 io (spt_phys t + ucast (nv_gmmu_pde_index va 12 512 + k) * ucast NV_GMMU_PTE_SIZE) pte st)) 0 st
      = Some st'
    \<and> vram_is io win mem st' (poke_all (map (pte_write t (unat va) page) [0..<unat npages]) m)"
proof (rule for_upto_inv [where P = "\<lambda>k st. vram_is io win mem st (poke_all (map (pte_write t (unat va) page) [0..<k]) m)"])
  show "unat npages + unat (1 :: u32) \<le> 2 ^ LENGTH(32)" using n by simp
  show "vram_is io win mem st (poke_all (map (pte_write t (unat va) page) [0..<0]) m)" using st by simp
  fix k st assume k: "k < unat npages" and st: "vram_is io win mem st (poke_all (map (pte_write t (unat va) page) [0..<k]) m)"
  have "unat (nv_gmmu_pde_index va 12 512) = bidx (unat va) 4"
    using pde_index_bidx [of 4 va] by (simp add: gsh_def range_entries_def)
  moreover have uk: "unat (of_nat k :: u32) = k" using k n by (simp add: unat_of_nat)
  ultimately have i: "unat (nv_gmmu_pde_index va 12 512 + of_nat k) = bidx (unat va) 4 + k"
    using k n by (subst unat_add_small) simp_all
  have "unat (ucast (nv_gmmu_pde_index va 12 512 + of_nat k :: u32) * 8 :: u64) = 8 * (bidx (unat va) 4 + k)"
    using i k n by (subst unat_mult_small) (simp_all add: unat_ucast_small)
  then have ad: "unat (btab t 4 + ucast (nv_gmmu_pde_index va 12 512 + of_nat k :: u32) * 8)
      = unat (btab t 4) + 8 * (bidx (unat va) 4 + k)"
    using btab_at(2) [OF ok, of 4] k n by (subst unat_add_small) simp_all
  have "4 dvd unat (btab t 4) + 8 * (bidx (unat va) 4 + k)" using btab_at(4) [OF ok, of 4] by simp
  moreover have "(ucast (of_nat k :: u32) :: u64) = of_nat k"
    using uk k n by (simp add: word_unat_eq_iff unat_ucast_mod unat_of_nat)
  moreover have "spt_phys t = btab t 4" by (simp add: btab_def)
  ultimately show "\<exists>s'. (let pte = nv_gmmu_make_pte_vram (page + ucast (of_nat k * 1 :: u32) * 0x1000) False False
        in Some (nv_pramin_wr64 io (spt_phys t + ucast (nv_gmmu_pde_index va 12 512 + of_nat k * 1) * ucast NV_GMMU_PTE_SIZE) pte st))
      = Some s' \<and> vram_is io win mem s' (poke_all (map (pte_write t (unat va) page) [0..<Suc k]) m)"
    using vram_wr64 [OF st, of "btab t 4 + ucast (nv_gmmu_pde_index va 12 512 + of_nat k :: u32) * 8"
        "nv_gmmu_make_pte_vram (page + of_nat k * 4096) False False"] btab_at(2) [OF ok, of 4] k n
    by (simp add: ad pte_write_def slot_off_ptr)
qed simp_all

lemma map_range_run:
  assumes ok: "tables_ok t" and st: "vram_is io win mem st m"
  shows "if bidx (unat va) 4 + unat npages \<le> 512
    then \<exists>st'. nv_gmmu_map_range io t va page npages st = Some (0, st')
      \<and> vram_is io win mem st' (poke_all (branch_writes t (unat va) page (unat npages)) (zeroed t m))
    else nv_gmmu_map_range io t va page npages st = Some (-1, st)"
proof -
  have i: "unat (nv_gmmu_pde_index va 12 512) = bidx (unat va) 4"
    using pde_index_bidx [of 4 va] by (simp add: gsh_def range_entries_def)
  have "unat ((ucast (nv_gmmu_pde_index va 12 512) :: u64) + ucast npages) = bidx (unat va) 4 + unat npages"
    using u32_less [of npages] u32_less [of "nv_gmmu_pde_index va 12 512"] i
    by (subst unat_add_small) (simp_all add: unat_ucast_small less_trans [OF u32_less])
  then have g: "(ucast (nv_gmmu_pde_index va 12 512) :: u64) + ucast npages > ucast NV_GMMU_SPT_ENTRIES
      \<longleftrightarrow> \<not> bidx (unat va) 4 + unat npages \<le> 512" by (simp add: word_less_nat_alt not_le)
  show ?thesis
  proof (cases "bidx (unat va) 4 + unat npages \<le> 512")
    case True
    from zero_branch_effect [OF ok st] obtain s1 where s1: "gmmu_zero_branch io t st = Some s1"
      and v1: "vram_is io win mem s1 (zeroed t m)" by blast
    note v2 = chain_effect [OF ok v1, of va]
    from pte_loop_effect [OF ok True v2, of page] s1 True g v1
    show ?thesis by (auto simp: nv_gmmu_map_range_def branch_writes_def Let_def)
  next
    case False
    then show ?thesis using g by (simp add: nv_gmmu_map_range_def)
  qed
qed

section \<open>Reading the branch back\<close>

definition branch_offs :: "nat \<Rightarrow> nat \<Rightarrow> (nat \<times> nat) list" where
  "branch_offs va n = [(0, slot_off 0 (bidx va 0)), (1, slot_off 1 (bidx va 1)), (2, slot_off 2 (bidx va 2)),
     (3, 16 * bidx va 3), (3, slot_off 3 (bidx va 3))] @ map (\<lambda>k. (4, slot_off 4 (bidx va 4 + k))) [0..<n]"

lemma branch_addrs: "map fst (branch_writes t va page n) = map (\<lambda>(p, x). unat (btab t p) + x) (branch_offs va n)"
  by (simp add: branch_writes_def branch_offs_def pde_write_def pte_write_def)

lemma branch_offs_range:
  assumes "bidx va 4 + n \<le> 512" "(p, x) \<in> set (branch_offs va n)"
  shows "p < 5" "x < 4096" "8 dvd x"
proof -
  have lt: "bidx va 0 < 4" "bidx va (Suc 0) < 512" "bidx va 2 < 512" "bidx va 3 < 256"
    using bidx_less [of va 0] bidx_less [of va "Suc 0"] bidx_less [of va 2] bidx_less [of va 3]
    by (simp_all add: gbits_def)
  show "p < 5" "x < 4096" "8 dvd x"
    using assms lt by (auto simp: branch_offs_def slot_off_def)
qed

lemma branch_distinct:
  assumes ok: "tables_ok t" and n: "bidx va 4 + n \<le> 512"
  shows "distinct (map fst (branch_writes t va page n))"
  unfolding branch_addrs distinct_map
proof
  show "distinct (branch_offs va n)"
    by (auto simp: branch_offs_def slot_off_def distinct_map inj_on_def)
  show "inj_on (\<lambda>(p, x). unat (btab t p) + x) (set (branch_offs va n))"
  proof (rule inj_onI, clarify)
    fix p x q y assume a: "(p, x) \<in> set (branch_offs va n)" "(q, y) \<in> set (branch_offs va n)"
      "unat (btab t p) + x = unat (btab t q) + y"
    show "p = q \<and> x = y"
      by (rule btab_inj [OF ok _ _ _ _ a(3)]) (use branch_offs_range [OF n a(1)] branch_offs_range [OF n a(2)] in auto)
  qed
qed

lemma branch_aligned:
  assumes ok: "tables_ok t" and n: "bidx va 4 + n \<le> 512"
  shows "\<forall>(a, v) \<in> set (branch_writes t va page n). 8 dvd a"
proof -
  have "8 dvd a" if "a \<in> set (map fst (branch_writes t va page n))" for a
    using that branch_offs_range [OF n] btab_at(3) [OF ok] unfolding branch_addrs by auto
  then show ?thesis by force
qed

lemma zeroed_peek:
  assumes ok: "tables_ok t" and p: "p < 5" and i: "i < 2 ^ gbits p"
  shows "peek64 (zeroed t m) (unat (btab t p) + slot_off p i) = 0"
proof -
  have al: "8 dvd unat (btab t p) + slot_off p i" using btab_at(3) [OF ok p] by (auto simp: slot_off_def)
  have f: "peek64 (fill32 (unat (btab t q)) k 0 m') (unat (btab t p) + slot_off p i) =
      (if unat (btab t q) \<le> unat (btab t p) + slot_off p i \<and> unat (btab t p) + slot_off p i < unat (btab t q) + k
       then 0 else peek64 m' (unat (btab t p) + slot_off p i))" if "q < 5" "8 dvd k" for q k m'
    by (rule peek_fill [OF btab_at(3) [OF ok that(1)] al that(2)])
  have "slot_off p i < (if p = 0 then 32 else 4096)"
    using slot_off_less [OF p i] i by (auto simp: slot_off_def gbits_def)
  with p show ?thesis
    by (auto simp: zeroed_def f dest!: less_5_cases)
qed

lemma branch_peek:
  assumes ok: "tables_ok t" and n: "bidx va 4 + n \<le> 512" and p: "p < 5" and i: "i < 2 ^ gbits p"
  shows "peek64 (poke_all (branch_writes t va page n) (zeroed t m)) (unat (btab t p) + slot_off p i) =
    (if p < 4 then (if i = bidx va p then nv_gmmu_make_pde_vram (btab t (Suc p)) else 0)
     else if bidx va 4 \<le> i \<and> i < bidx va 4 + n
          then nv_gmmu_make_pte_vram (page + of_nat (i - bidx va 4) * 4096) False False else 0)"
    (is "peek64 ?m ?a = _")
proof -
  let ?ws = "branch_writes t va page n"
  have al: "8 dvd ?a" using btab_at(3) [OF ok p] by (auto simp: slot_off_def)
  note hit = peek_poke_all [OF branch_aligned [OF ok n] branch_distinct [OF ok n]]
  note miss = peek_poke_all_other [OF branch_aligned [OF ok n] al]
  have mem: "(p, slot_off p i) \<in> set (branch_offs va n)" if "?a \<in> fst ` set ?ws"
  proof -
    from that have "?a \<in> set (map fst ?ws)" by simp
    then obtain q x where qx: "(q, x) \<in> set (branch_offs va n)" "?a = unat (btab t q) + x"
      unfolding branch_addrs by auto
    have "p = q \<and> slot_off p i = x"
      by (rule btab_inj [OF ok p branch_offs_range(1) [OF n qx(1)] _ branch_offs_range(2) [OF n qx(1)] qx(2)])
         (use slot_off_less [OF p i] in simp)
    with qx(1) show ?thesis by blast
  qed
  consider (pde) "p < 4" "i = bidx va p" | (pte) "p = 4" "bidx va 4 \<le> i" "i < bidx va 4 + n"
    | (none) "\<not> (p < 4 \<and> i = bidx va p)" "\<not> (p = 4 \<and> bidx va 4 \<le> i \<and> i < bidx va 4 + n)"
    by (cases "p < 4") (use p in auto)
  then show ?thesis
  proof cases
    case pde
    then have "(?a, nv_gmmu_make_pde_vram (btab t (Suc p))) \<in> set ?ws"
      using less_5_cases [OF p] by (elim disjE) (simp_all add: branch_writes_def pde_write_def)
    from hit [OF this] pde show ?thesis by simp
  next
    case pte
    then have "(?a, nv_gmmu_make_pte_vram (page + of_nat (i - bidx va 4) * 4096) False False)
        \<in> pte_write t va page ` {0..<n}"
      by (auto simp: pte_write_def image_iff intro!: bexI [of _ "i - bidx va 4"])
    then have "(?a, nv_gmmu_make_pte_vram (page + of_nat (i - bidx va 4) * 4096) False False) \<in> set ?ws"
      by (auto simp: branch_writes_def)
    from hit [OF this] pte show ?thesis by simp
  next
    case none
    have "?a \<notin> fst ` set ?ws"
    proof
      assume "?a \<in> fst ` set ?ws"
      from mem [OF this] none show False
        by (auto simp: branch_offs_def slot_off_def split: if_splits)
    qed
    from miss [OF this] zeroed_peek [OF ok p i] none p show ?thesis by auto
  qed
qed

lemma walk_entry_bidx: "walk_entry m t p a = peek64 m (t + slot_off p (bidx a p))"
  by (simp add: walk_entry_def bidx_def)

lemma branch_walk_pde:
  assumes ok: "tables_ok t" and n: "bidx va 4 + n \<le> 512" and p: "p < 4"
  shows "pde_addr (walk_entry (poke_all (branch_writes t va page n) (zeroed t m)) (unat (btab t p)) p a)
    = (if bidx a p = bidx va p then Some (unat (btab t (Suc p))) else None)"
proof -
  have d: "pde_addr (nv_gmmu_make_pde_vram (btab t (Suc p))) = Some (unat (btab t (Suc p)))"
    using entry_decode(1) btab_at(1,2) [OF ok, of "Suc p"] p by simp
  show ?thesis
    using branch_peek [OF ok n, of p "bidx a p" page m] p d bidx_less [of a p]
    by (simp add: walk_entry_bidx pde_addr_def [of 0])
qed

lemma less_4_cases: "p < (4::nat) \<Longrightarrow> p = 0 \<or> p = 1 \<or> p = 2 \<or> p = 3"
  by linarith

lemma same_block:
  assumes "a < 2 ^ 49" "va < 2 ^ 49"
  shows "(\<forall>p < 4. bidx a p = bidx va p) \<longleftrightarrow> a div 2 ^ 21 = va div 2 ^ 21"
proof -
  have step: "a div 2 ^ gsh (Suc p) = va div 2 ^ gsh (Suc p)
      \<longleftrightarrow> a div 2 ^ gsh p = va div 2 ^ gsh p \<and> bidx a p = bidx va p" if "p < 5" for p
    unfolding bidx_def div_gsh [OF that, symmetric] by (metis div_mult_mod_eq)
  have sc: "Suc 0 = 1" "Suc 1 = 2" "Suc 2 = 3" "Suc 3 = 4" by simp_all
  have z: "a div 2 ^ gsh 0 = va div 2 ^ gsh 0" using assms by (simp add: gsh_def)
  have "(\<forall>p < 4. bidx a p = bidx va p) \<longleftrightarrow>
      bidx a 0 = bidx va 0 \<and> bidx a 1 = bidx va 1 \<and> bidx a 2 = bidx va 2 \<and> bidx a 3 = bidx va 3"
    by (auto simp del: One_nat_def dest: less_4_cases)
  also have "\<dots> \<longleftrightarrow> a div 2 ^ gsh 4 = va div 2 ^ gsh 4"
    using z step [of 0, unfolded sc] step [of 1, unfolded sc] step [of 2, unfolded sc] step [of 3, unfolded sc]
    by (auto simp del: One_nat_def)
  finally show ?thesis by (simp add: gsh_def)
qed

lemma page_window:
  assumes "bidx va 4 + n \<le> 512"
  shows "(a div 2 ^ 21 = va div 2 ^ 21 \<and> bidx va 4 \<le> bidx a 4 \<and> bidx a 4 < bidx va 4 + n)
     \<longleftrightarrow> va div 4096 \<le> a div 4096 \<and> a div 4096 < va div 4096 + n"
    and "va div 4096 \<le> a div 4096 \<Longrightarrow> a div 4096 < va div 4096 + n \<Longrightarrow>
      bidx a 4 - bidx va 4 = a div 4096 - va div 4096"
proof -
  have s: "x div 4096 = 512 * (x div 2 ^ 21) + bidx x 4" for x
  proof -
    have "x div 2 ^ 21 = x div 4096 div 512" by (simp add: div_mult2_eq [symmetric])
    then show ?thesis by (simp add: bidx_def gsh_def gbits_def)
  qed
  have i: "bidx a 4 < 512" using bidx_less [of a 4] by (simp add: gbits_def)
  show w: "(a div 2 ^ 21 = va div 2 ^ 21 \<and> bidx va 4 \<le> bidx a 4 \<and> bidx a 4 < bidx va 4 + n)
     \<longleftrightarrow> va div 4096 \<le> a div 4096 \<and> a div 4096 < va div 4096 + n"
  proof -
    have "(qa = qv \<and> iv \<le> ia \<and> ia < iv + n) \<longleftrightarrow> V \<le> A \<and> A < V + n"
      if "A = 512 * qa + ia" "V = 512 * qv + iv" "ia < 512" "iv + n \<le> 512" for A V qa qv ia iv :: nat
    proof
      assume w: "V \<le> A \<and> A < V + n"
      have "\<not> qa < qv"
      proof
        assume "qa < qv"
        then have "512 * qa + 512 \<le> 512 * qv" by linarith
        then show False using that w by linarith
      qed
      moreover have "\<not> qv < qa"
      proof
        assume "qv < qa"
        then have "512 * qv + 512 \<le> 512 * qa" by linarith
        then show False using that w by linarith
      qed
      ultimately have "qa = qv" by linarith
      moreover from this have "iv \<le> ia" "ia < iv + n" using that w by linarith+
      ultimately show "qa = qv \<and> iv \<le> ia \<and> ia < iv + n" by blast
    qed (use that in auto)
    from this [OF s [of a] s [of va] i assms] show ?thesis .
  qed
  show "bidx a 4 - bidx va 4 = a div 4096 - va div 4096"
    if "va div 4096 \<le> a div 4096" "a div 4096 < va div 4096 + n"
    using w that s [of a] s [of va] by auto
qed

lemma branch_walk:
  assumes ok: "tables_ok t" and n: "bidx va 4 + n \<le> 512" and a: "a < 2 ^ 49" "va < 2 ^ 49"
    and page: "4096 dvd unat page" "unat page + 4096 * n \<le> 2 ^ 40"
  shows "gmmu_walk (poke_all (branch_writes t va page n) (zeroed t m)) (unat (pd3_phys t)) a =
    (if va div 4096 \<le> a div 4096 \<and> a div 4096 < va div 4096 + n
     then Some (unat page + (a - va div 4096 * 4096)) else None)" (is "gmmu_walk ?m _ a = _")
proof -
  have sc: "Suc 0 = 1" "Suc 1 = 2" "Suc 2 = 3" "Suc 3 = 4" by simp_all
  note w = branch_walk_pde [OF ok n, where page = page and m = m and a = a]
  note ws = w [of 0, unfolded sc] w [of 1, unfolded sc] w [of 2, unfolded sc] w [of 3, unfolded sc]
  have root: "pd3_phys t = btab t 0" by (simp add: btab_def)
  have leaf: "pte_addr (walk_entry ?m (unat (btab t 4)) 4 a) =
      (if bidx va 4 \<le> bidx a 4 \<and> bidx a 4 < bidx va 4 + n
       then Some (unat page + (bidx a 4 - bidx va 4) * 4096) else None)"
  proof (cases "bidx va 4 \<le> bidx a 4 \<and> bidx a 4 < bidx va 4 + n")
    case True
    define k where "k = bidx a 4 - bidx va 4"
    have k: "k < n" using True by (auto simp: k_def)
    have "unat (of_nat k * 4096 :: u64) = k * 4096"
      using unat_of_nat [of "k * 4096", where 'a = 64] k page(2) by simp
    then have u: "unat (page + of_nat k * 4096) = unat page + k * 4096"
      using k page(2) by (subst unat_add_small) simp_all
    have "4096 dvd unat page + k * 4096" using page(1) by simp
    with entry_decode(2) [of "page + of_nat k * 4096"] u k page(2)
    have "pte_addr (nv_gmmu_make_pte_vram (page + of_nat k * 4096) False False) = Some (unat page + k * 4096)" by simp
    moreover have "walk_entry ?m (unat (btab t 4)) 4 a = nv_gmmu_make_pte_vram (page + of_nat k * 4096) False False"
      using branch_peek [OF ok n, of 4 "bidx a 4" page m] True bidx_less [of a 4]
      by (simp add: walk_entry_bidx k_def)
    ultimately show ?thesis using True by (simp add: k_def)
  next
    case False
    have "walk_entry ?m (unat (btab t 4)) 4 a = 0"
      using branch_peek [OF ok n, of 4 "bidx a 4" page m] False bidx_less [of a 4]
      by (simp add: walk_entry_bidx)
    then show ?thesis using False by (simp add: pte_addr_def)
  qed
  have all: "(\<forall>p < 4. bidx a p = bidx va p) \<longleftrightarrow>
      bidx a 0 = bidx va 0 \<and> bidx a 1 = bidx va 1 \<and> bidx a 2 = bidx va 2 \<and> bidx a 3 = bidx va 3"
    by (auto simp del: One_nat_def dest: less_4_cases)
  have "gmmu_walk ?m (unat (btab t 0)) a =
      (if a div 2 ^ 21 = va div 2 ^ 21 \<and> bidx va 4 \<le> bidx a 4 \<and> bidx a 4 < bidx va 4 + n
       then Some (unat page + (bidx a 4 - bidx va 4) * 4096 + a mod 4096) else None)"
    unfolding same_block [OF a, symmetric] all gmmu_walk_def using ws leaf by (simp del: One_nat_def)
  also have "\<dots> = (if va div 4096 \<le> a div 4096 \<and> a div 4096 < va div 4096 + n
     then Some (unat page + (a div 4096 - va div 4096) * 4096 + a mod 4096) else None)"
    using page_window [OF n, of a] by auto
  also have "\<dots> = (if va div 4096 \<le> a div 4096 \<and> a div 4096 < va div 4096 + n
     then Some (unat page + (a - va div 4096 * 4096)) else None)"
    using div_mult_mod_eq [of a 4096] by (auto simp: algebra_simps)
  finally show ?thesis unfolding root .
qed

text \<open>
  On distinct page-aligned tables \<open>nv_gmmu_map_range\<close> ends.  When the run of pages
  fits one leaf table it returns 0, and the hardware's walk then maps exactly the pages of the run, each
  to its place in the physical block; otherwise it returns -1 and writes nothing.
\<close>

theorem nv_gmmu_map_range_translates:
  assumes ok: "tables_ok t" and st: "vram_is io win mem st m" and va: "unat va < 2 ^ 49"
    and page: "4096 dvd unat page" "unat page + 4096 * unat npages \<le> 2 ^ 40"
  shows "if unat va div 4096 mod 512 + unat npages \<le> 512
    then \<exists>st'. nv_gmmu_map_range io t va page npages st = Some (0, st') \<and> coherent win st'
      \<and> (\<forall>a < 2 ^ 49. gmmu_walk (mem (snd st')) (unat (pd3_phys t)) a =
           (if unat va div 4096 \<le> a div 4096 \<and> a div 4096 < unat va div 4096 + unat npages
            then Some (unat page + (a - unat va div 4096 * 4096)) else None))
    else nv_gmmu_map_range io t va page npages st = Some (-1, st)"
proof -
  have b: "bidx (unat va) 4 = unat va div 4096 mod 512" by (simp add: bidx_def gsh_def gbits_def)
  show ?thesis
  proof (cases "bidx (unat va) 4 + unat npages \<le> 512")
    case True
    with map_range_run [OF ok st, of va npages page]
    obtain st' where r: "nv_gmmu_map_range io t va page npages st = Some (0, st')"
      and v: "vram_is io win mem st' (poke_all (branch_writes t (unat va) page (unat npages)) (zeroed t m))" by auto
    from v have m: "mem (snd st') = poke_all (branch_writes t (unat va) page (unat npages)) (zeroed t m)"
      and c: "coherent win st'" by (simp_all add: vram_is_def)
    have "(\<forall>a < 2 ^ 49. gmmu_walk (mem (snd st')) (unat (pd3_phys t)) a =
           (if unat va div 4096 \<le> a div 4096 \<and> a div 4096 < unat va div 4096 + unat npages
            then Some (unat page + (a - unat va div 4096 * 4096)) else None))"
      unfolding m using branch_walk [OF ok True _ va page] by blast
    with r c True show ?thesis unfolding b by (simp only: if_True) blast
  next
    case False
    then show ?thesis using map_range_run [OF ok st, of va npages page] unfolding b by (simp only: if_False)
  qed
qed

text \<open>
  \<open>nv_gmmu_build_1page\<close> is \<open>nv_gmmu_map_range\<close> for a single page, on every
  device and every input.
\<close>

theorem build_1page_is_map_range:
  "nv_gmmu_build_1page io t va page st = nv_gmmu_map_range io t va page 1 st"
proof -
  have "bidx (unat va) 4 < 512" using bidx_less [of "unat va" 4] by (simp add: gbits_def)
  then have i: "unat (nv_gmmu_pde_index va 12 512) < 512"
    using pde_index_bidx [of 4 va] by (simp add: gsh_def range_entries_def)
  have "unat ((ucast (nv_gmmu_pde_index va 12 512) :: u64) + 1) = unat (nv_gmmu_pde_index va 12 512) + 1"
    using i by (subst unat_add_small) (simp_all add: unat_ucast_small)
  then have g: "\<not> (ucast (nv_gmmu_pde_index va 12 512) :: u64) + 1 > 512"
    using i by (simp add: word_less_nat_alt)
  show ?thesis
    using g by (simp add: nv_gmmu_build_1page_def nv_gmmu_map_range_def Let_def for_upto.simps)
qed

text \<open>
  C21. The read-back self-test of the bring-up is sound: after mapping at least one page,
  \<open>nv_gmmu_read_pte\<close> for the mapped address returns exactly the entry
  \<open>nv_gmmu_make_pte_vram\<close> gives for the page.
\<close>

theorem map_then_read_pte:
  assumes ok: "tables_ok t" and st: "vram_is io win mem st m"
    and fit: "unat va div 4096 mod 512 + unat npages \<le> 512" and n: "npages \<noteq> 0"
  shows "\<exists>st'. nv_gmmu_map_range io t va page npages st = Some (0, st')
    \<and> fst (nv_gmmu_read_pte io (spt_phys t) va st') = nv_gmmu_make_pte_vram page False False"
proof -
  have b: "bidx (unat va) 4 + unat npages \<le> 512" using fit by (simp add: bidx_def gsh_def gbits_def)
  have lt: "bidx (unat va) 4 < 2 ^ gbits 4" by (rule bidx_less)
  from map_range_run [OF ok st, of va npages page] b
  obtain st' where r: "nv_gmmu_map_range io t va page npages st = Some (0, st')"
    and v: "vram_is io win mem st' (poke_all (branch_writes t (unat va) page (unat npages)) (zeroed t m))" by auto
  let ?i = "nv_gmmu_pde_index va 12 512"
  have i: "unat ?i = bidx (unat va) 4" using pde_index_bidx [of 4 va] by (simp add: gsh_def range_entries_def)
  have "unat (ucast ?i * 8 :: u64) = 8 * bidx (unat va) 4"
    using i lt by (subst unat_mult_small) (simp_all add: unat_ucast_small gbits_def)
  then have a: "unat (btab t 4 + ucast ?i * 8) = unat (btab t 4) + slot_off 4 (bidx (unat va) 4)"
    using btab_at(2) [OF ok, of 4] lt by (subst unat_add_small) (simp_all add: slot_off_ptr gbits_def)
  have "4 dvd unat (btab t 4) + slot_off 4 (bidx (unat va) 4)" using btab_at(4) [OF ok, of 4] by (simp add: slot_off_ptr)
  moreover have "unat (btab t 4) + slot_off 4 (bidx (unat va) 4) + 8 \<le> 2 ^ 40"
    using btab_at(2) [OF ok, of 4] slot_off_less [OF _ lt] by simp
  ultimately have "fst (nv_gmmu_read_pte io (btab t 4) va st')
      = peek64 (poke_all (branch_writes t (unat va) page (unat npages)) (zeroed t m)) (unat (btab t 4) + slot_off 4 (bidx (unat va) 4))"
    using vram_rd64 [OF v, of "btab t 4 + ucast ?i * 8"]
    by (simp add: nv_gmmu_read_pte_def Let_def a split_def)
  moreover have "0 < unat npages" using n by (simp add: unat_gt_0)
  ultimately have "fst (nv_gmmu_read_pte io (btab t 4) va st') = nv_gmmu_make_pte_vram page False False"
    using branch_peek [OF ok b _ lt, of page m] by simp
  then show ?thesis using r by (simp add: btab_def)
qed

definition demo_tables :: nv_gmmu_tables where
  "demo_tables = \<lparr>pd3_phys = 0x100000, pd2_phys = 0x101000, pd1_phys = 0x102000, pd0_phys = 0x103000,
     spt_phys = 0x104000\<rparr>"

lemma demo_tables_ok: "tables_ok demo_tables"
  unfolding tables_ok_def demo_tables_def btab_def
  by (auto dest!: less_5_cases)

theorem nv_gmmu_map_range_witness:
  "\<exists>st'. nv_gmmu_map_range demo_io demo_tables 0x20001000 0x300000 2 demo_vram = Some (0, st')
     \<and> gmmu_walk (snd (snd st')) 0x100000 0x20002010 = Some 0x301010
     \<and> gmmu_walk (snd (snd st')) 0x100000 0x20003000 = None"
  using nv_gmmu_map_range_translates [OF demo_tables_ok demo_vram_is, of "0x20001000" "0x300000" 2]
  by (auto simp: demo_tables_def)

theorem map_then_read_pte_witness:
  "\<exists>st'. nv_gmmu_map_range demo_io demo_tables 0x20001000 0x300000 2 demo_vram = Some (0, st')
     \<and> fst (nv_gmmu_read_pte demo_io 0x104000 0x20001000 st') = nv_gmmu_make_pte_vram 0x300000 False False"
  using map_then_read_pte [OF demo_tables_ok demo_vram_is, of "0x20001000" 2 "0x300000"]
  by (auto simp: demo_tables_def)

end
