(* ===== verification/FbRegion.thy ===== *)
theory FbRegion
  imports Prelude
begin

text \<open>
  The parsed reply of \<open>GET_GSP_STATIC_INFO\<close> (\<open>driver/gsp/gsp_rm.h\<close>): the VRAM
  regions GSP reports.  The array of 16 regions is a list of length 16.
\<close>

abbreviation NV_GSP_FBREGION_MAX :: u32 where "NV_GSP_FBREGION_MAX \<equiv> 16"

record nv_gsp_fb_region =
  fr_base :: u64
  fr_limit :: u64
  fr_reserved :: u64
  fr_performance :: u32
  fr_compressed :: u8
  fr_iso :: u8
  fr_prot :: u8

record nv_gsp_static_info =
  si_num_regions :: u32
  si_regions :: "nv_gsp_fb_region list"
  si_h_client :: u32
  si_h_device :: u32
  si_h_subdevice :: u32
  si_bar1_pde :: u64
  si_bar2_pde :: u64

end
