(* ===== verification/GspMemory.thy ===== *)
theory GspMemory
  imports Vram Gmmu FbRegion
begin

text \<open>
  \<open>driver/gsp/gsp_memory.c\<close>: choosing the VRAM the driver owns.  One block holds, in this
  order, the service area, the application area, the page tables that map both at
  \<open>NV_GSP_APP_VA_BASE\<close>, and the channel area.  \<open>extra\<close> may be NULL in the code, so
  it is an option here.
\<close>

abbreviation NV_GSP_SERVICE_BYTES :: u64 where "NV_GSP_SERVICE_BYTES \<equiv> 0x100000"
abbreviation NV_GSP_CHANNEL_BYTES :: u64 where "NV_GSP_CHANNEL_BYTES \<equiv> 0x10000"
abbreviation NV_GSP_APP_VA_BASE :: u64 where "NV_GSP_APP_VA_BASE \<equiv> 0x20000000"
abbreviation NV_VRAM_MIN_APP_BYTES :: u64 where "NV_VRAM_MIN_APP_BYTES \<equiv> 0x40000000"

record nv_gsp_memory_layout =
  ml_owned :: nv_vram_span
  ml_tables :: nv_gmmu_range
  ml_service_phys :: u64
  ml_app_phys :: u64
  ml_app_va :: u64
  ml_app_bytes :: u64
  ml_channel_phys :: u64

abbreviation no_layout :: nv_gsp_memory_layout where
  "no_layout \<equiv> \<lparr>ml_owned = no_span, ml_tables = no_range, ml_service_phys = 0, ml_app_phys = 0,
     ml_app_va = 0, ml_app_bytes = 0, ml_channel_phys = 0\<rparr>"

text \<open>The loop over the reported regions; \<^const>\<open>None\<close> is its \<open>return -1\<close>.\<close>

fun scan_regions ::
  "nv_gsp_fb_region list \<Rightarrow> nv_gsp_fb_region list \<Rightarrow> nv_vram_span list \<Rightarrow> nv_vram_span list option" where
  "scan_regions seen [] available = Some available"
| "scan_regions seen (r # rest) available =
     (if fr_base r > fr_limit r \<or> fr_limit r \<ge> push_bit 40 1 then None
      else if \<exists>q \<in> set seen. fr_base r \<le> fr_limit q \<and> fr_base q \<le> fr_limit r then None
      else scan_regions (seen @ [r]) rest
             (if fr_reserved r \<noteq> 0 \<or> fr_prot r \<noteq> 0 then available
              else available @ [\<lparr>sp_base = fr_base r, sp_size = fr_limit r - fr_base r + 1\<rparr>]))"

definition nv_gsp_memory_plan ::
  "nv_gsp_static_info \<Rightarrow> u64 \<Rightarrow> nv_vram_span option \<Rightarrow> (int \<times> nv_gsp_memory_layout) option" where
  "nv_gsp_memory_plan si app_bytes extra =
     (if si_num_regions si = 0 \<or> si_num_regions si > NV_GSP_FBREGION_MAX
         \<or> app_bytes < NV_VRAM_MIN_APP_BYTES \<or> app_bytes AND 0xffff \<noteq> 0 \<or> app_bytes > push_bit 39 1
      then Some (-1, no_layout)
      else
        let mapped = NV_GSP_SERVICE_BYTES + app_bytes;
            (rc, tables) = nv_gmmu_range_plan NV_GSP_APP_VA_BASE mapped 0 0 in
        if rc \<noteq> -2 then Some (-1, no_layout)
        else
          let total = mapped + rg_table_bytes tables + NV_GSP_CHANNEL_BYTES in
          case scan_regions [] (take (unat (si_num_regions si)) (si_regions si)) [] of
            None \<Rightarrow> Some (-1, no_layout)
          | Some available \<Rightarrow>
            if available = [] then Some (-2, no_layout)
            else
              let excluded = \<lparr>sp_base = 0, sp_size = 0x20000000\<rparr> #
                    (case extra of None \<Rightarrow> [] | Some x \<Rightarrow> if sp_size x \<noteq> 0 then [x] else []) in
              do { (rc, owned) \<leftarrow> nv_vram_find_range available excluded total 0x10000;
                   if rc \<noteq> 0 then Some (rc, no_layout)
                   else
                     let table_bytes = rg_table_bytes tables;
                         (rc, tables) = nv_gmmu_range_plan NV_GSP_APP_VA_BASE mapped
                                          (sp_base owned + mapped) table_bytes
                     in if rc \<noteq> 0 then Some (-1, no_layout)
                        else Some (0, \<lparr>ml_owned = owned, ml_tables = tables,
                               ml_service_phys = sp_base owned,
                               ml_app_phys = sp_base owned + NV_GSP_SERVICE_BYTES,
                               ml_app_va = NV_GSP_APP_VA_BASE + NV_GSP_SERVICE_BYTES,
                               ml_app_bytes = app_bytes,
                               ml_channel_phys = rg_table_phys tables + table_bytes\<rparr>) })"

section \<open>The layout\<close>

definition usable :: "nv_gsp_fb_region \<Rightarrow> bool" where
  "usable r \<longleftrightarrow> fr_reserved r = 0 \<and> fr_prot r = 0"

definition region_span :: "nv_gsp_fb_region \<Rightarrow> nv_vram_span" where
  "region_span r = \<lparr>sp_base = fr_base r, sp_size = fr_limit r - fr_base r + 1\<rparr>"

lemma scan_regions_Some:
  "scan_regions seen rs acc = Some av \<Longrightarrow>
     av = acc @ map region_span (filter usable rs)
     \<and> (\<forall>r \<in> set rs. unat (fr_base r) \<le> unat (fr_limit r) \<and> unat (fr_limit r) < 2 ^ 40)"
proof (induction rs arbitrary: seen acc)
  case (Cons r rs)
  then have g: "fr_base r \<le> fr_limit r" "fr_limit r < push_bit 40 1" by (auto split: if_splits)
  then have "unat (fr_base r) \<le> unat (fr_limit r)" "unat (fr_limit r) < 2 ^ 40"
    by (simp_all add: word_le_nat_alt word_less_nat_alt)
  moreover have "scan_regions (seen @ [r]) rs (acc @ (if usable r then [region_span r] else [])) = Some av"
    using Cons.prems by (auto simp: region_span_def usable_def split: if_splits)
  ultimately show ?case using Cons.IH by fastforce
qed simp

lemma region_interval:
  assumes "unat (fr_base r) \<le> unat (fr_limit r)" "unat (fr_limit r) < 2 ^ 40"
  shows "span_interval (region_span r) = (unat (fr_base r), unat (fr_limit r) + 1)"
    "span_valid (fr_base r) (fr_limit r - fr_base r + 1)"
proof -
  have d: "unat (fr_limit r - fr_base r) = unat (fr_limit r) - unat (fr_base r)"
    using assms(1) by (rule unat_sub_small)
  then have s: "unat (fr_limit r - fr_base r + 1) = unat (fr_limit r) - unat (fr_base r) + 1"
    using assms by (subst unat_add_small) simp_all
  show "span_interval (region_span r) = (unat (fr_base r), unat (fr_limit r) + 1)"
    using assms s by (simp add: span_interval_def region_span_def)
  show "span_valid (fr_base r) (fr_limit r - fr_base r + 1)"
    unfolding span_valid_iff s using assms by simp
qed

text \<open>Size of the mapped part, and of the whole block.\<close>

definition mapped_bytes :: "u64 \<Rightarrow> nat" where
  "mapped_bytes app = 0x100000 + unat app"

definition block_bytes :: "u64 \<Rightarrow> nat" where
  "block_bytes app = mapped_bytes app + table_total 0x20000000 (mapped_bytes app) + 0x10000"

lemma table_total_le: "n \<le> 2 ^ 40 \<Longrightarrow> table_total va n \<le> 2 ^ 35"
  using tab_num_le [of n 5 va] by (simp add: table_total_def)

lemma app_guard:
  assumes "app AND 0xffff = 0" "\<not> app > push_bit 39 (1 :: u64)"
  shows "2 ^ 16 dvd unat app" "unat app \<le> 2 ^ 39"
    "unat (NV_GSP_SERVICE_BYTES + app) = mapped_bytes app"
proof -
  have "(0xffff :: u64) = mask 16" by (simp add: mask_eq_exp_minus_1)
  then show "2 ^ 16 dvd unat app" using assms(1) by (simp only: dvd_mask_iff)
  show a: "unat app \<le> 2 ^ 39" using assms(2) by (simp add: word_less_nat_alt)
  then show "unat (NV_GSP_SERVICE_BYTES + app) = mapped_bytes app"
    by (subst unat_add_small) (simp_all add: mapped_bytes_def)
qed

lemma block_total:
  assumes "app AND 0xffff = 0" "\<not> app > push_bit 39 (1 :: u64)"
    and "unat tb = table_total 0x20000000 (mapped_bytes app)"
  shows "unat (NV_GSP_SERVICE_BYTES + app + tb + NV_GSP_CHANNEL_BYTES) = block_bytes app"
    "4096 dvd block_bytes app" "0 < block_bytes app" "block_bytes app < 2 ^ 41"
proof -
  note a = app_guard [OF assms(1,2)]
  have t: "table_total 0x20000000 (mapped_bytes app) \<le> 2 ^ 35"
    by (rule table_total_le) (use a(2) in \<open>simp add: mapped_bytes_def\<close>)
  have m: "mapped_bytes app \<le> 2 ^ 39 + 2 ^ 20" using a(2) by (simp add: mapped_bytes_def)
  have "unat (NV_GSP_SERVICE_BYTES + app + tb) = mapped_bytes app + table_total 0x20000000 (mapped_bytes app)"
    using a(3) assms(3) t m by (subst unat_add_small) simp_all
  then show "unat (NV_GSP_SERVICE_BYTES + app + tb + NV_GSP_CHANNEL_BYTES) = block_bytes app"
    using t m by (subst unat_add_small) (simp_all add: block_bytes_def)
  have "4096 dvd unat app" using a(1) by (rule dvd_trans [rotated]) simp
  then have "4096 dvd mapped_bytes app" unfolding mapped_bytes_def by (intro dvd_add) simp_all
  moreover have "4096 dvd table_total 0x20000000 (mapped_bytes app)" by (simp add: table_total_def)
  ultimately show "4096 dvd block_bytes app" unfolding block_bytes_def by (intro dvd_add) simp_all
  show "0 < block_bytes app" "block_bytes app < 2 ^ 41" using t m by (simp_all add: block_bytes_def)
qed

text \<open>What a successful plan promises.\<close>

definition layout_ok ::
  "nv_gsp_static_info \<Rightarrow> u64 \<Rightarrow> nv_vram_span option \<Rightarrow> nv_gsp_memory_layout \<Rightarrow> bool" where
  "layout_ok si app extra l \<longleftrightarrow>
     (let b = unat (sp_base (ml_owned l)); n = mapped_bytes app; t = table_total 0x20000000 n in
      unat (sp_size (ml_owned l)) = block_bytes app \<and> 0x10000 dvd b
      \<and> (\<exists>r \<in> set (take (unat (si_num_regions si)) (si_regions si)). usable r
            \<and> unat (fr_base r) \<le> b \<and> b + block_bytes app \<le> unat (fr_limit r) + 1
            \<and> unat (fr_limit r) < 2 ^ 40)
      \<and> b + block_bytes app \<le> 2 ^ 40
      \<and> 0x20000000 \<le> b
      \<and> (\<forall>x. extra = Some x \<and> sp_size x \<noteq> 0 \<longrightarrow>
            b + block_bytes app \<le> unat (sp_base x) \<or> unat (sp_base x) + unat (sp_size x) \<le> b)
      \<and> unat (ml_service_phys l) = b \<and> unat (ml_app_phys l) = b + 0x100000
      \<and> unat (ml_app_va l) = 0x20000000 + 0x100000 \<and> ml_app_bytes l = app
      \<and> unat (rg_table_phys (ml_tables l)) = b + n \<and> unat (ml_channel_phys l) = b + n + t
      \<and> nv_gmmu_range_plan NV_GSP_APP_VA_BASE (NV_GSP_SERVICE_BYTES + app) (rg_table_phys (ml_tables l))
           (rg_table_bytes (ml_tables l)) = (0, ml_tables l)
      \<and> target_ok 0x20000000 n (b + n) b)"

lemma block_alignment: "alignment_valid 0x10000"
  by (simp add: alignment_valid_def)

lemma chosen_block:
  assumes av: "scan_regions [] rs [] = Some av" and ok: "range_ok av ex n al (unat b)"
    and ex: "ex = \<lparr>sp_base = 0, sp_size = 0x20000000\<rparr> #
        (case extra of None \<Rightarrow> [] | Some x \<Rightarrow> if sp_size x \<noteq> 0 then [x] else [])"
  shows "\<exists>r \<in> set rs. usable r \<and> unat (fr_base r) \<le> unat b \<and> unat b + unat n \<le> unat (fr_limit r) + 1
      \<and> unat (fr_limit r) < 2 ^ 40"
    "unat n = 0 \<or> 0x20000000 \<le> unat b"
    "\<forall>x. extra = Some x \<and> sp_size x \<noteq> 0 \<longrightarrow>
        unat b + unat n \<le> unat (sp_base x) \<or> unat (sp_base x) + unat (sp_size x) \<le> unat b"
proof -
  note sc = scan_regions_Some [OF av]
  from ok obtain a where a: "a \<in> set av" "fst (span_interval a) \<le> unat b"
    "unat b + unat n \<le> snd (span_interval a)" by (auto simp: range_ok_def)
  from a(1) sc obtain r where r: "r \<in> set rs" "usable r" "a = region_span r" by auto
  from r(1) sc have "unat (fr_base r) \<le> unat (fr_limit r)" "unat (fr_limit r) < 2 ^ 40" by auto
  with r a region_interval(1) [OF this]
  show "\<exists>r \<in> set rs. usable r \<and> unat (fr_base r) \<le> unat b \<and> unat b + unat n \<le> unat (fr_limit r) + 1
      \<and> unat (fr_limit r) < 2 ^ 40" by auto
  from ok have f: "free_at (map span_interval ex) (unat n) (unat b)" by (simp add: range_ok_def)
  then show "unat n = 0 \<or> 0x20000000 \<le> unat b" by (auto simp: free_at_def ex span_interval_def)
  show "\<forall>x. extra = Some x \<and> sp_size x \<noteq> 0 \<longrightarrow>
        unat b + unat n \<le> unat (sp_base x) \<or> unat (sp_base x) + unat (sp_size x) \<le> unat b"
    using f by (auto simp: free_at_def ex span_interval_def)
qed

lemma plan_tables:
  assumes "nv_gmmu_range_plan NV_GSP_APP_VA_BASE m tp cap = (rc, t)" "rc \<noteq> -1" "unat m = n"
  shows "unat (rg_table_bytes t) = table_total 0x20000000 n" "rg_table_phys t = tp"
proof -
  have "build_ok NV_GSP_APP_VA_BASE m tp t" by (rule plan_ok_build [OF assms(1,2)])
  then show "unat (rg_table_bytes t) = table_total 0x20000000 n" "rg_table_phys t = tp"
    using assms(3) by (auto simp: build_ok_def plan_at_def table_total_def)
qed

lemma layout_built:
  assumes guard: "app AND 0xffff = 0" "\<not> app > push_bit 39 (1 :: u64)"
    and p1: "nv_gmmu_range_plan NV_GSP_APP_VA_BASE (NV_GSP_SERVICE_BYTES + app) 0 0 = (-2, t1)"
    and scan: "scan_regions [] (take (unat (si_num_regions si)) (si_regions si)) [] = Some av"
    and ex: "ex = \<lparr>sp_base = 0, sp_size = 0x20000000\<rparr> #
        (case extra of None \<Rightarrow> [] | Some x \<Rightarrow> if sp_size x \<noteq> 0 then [x] else [])"
    and own: "sp_size owned = NV_GSP_SERVICE_BYTES + app + rg_table_bytes t1 + NV_GSP_CHANNEL_BYTES"
      "range_ok av ex (sp_size owned) 0x10000 (unat (sp_base owned))"
    and p2: "nv_gmmu_range_plan NV_GSP_APP_VA_BASE (NV_GSP_SERVICE_BYTES + app)
        (sp_base owned + (NV_GSP_SERVICE_BYTES + app)) (rg_table_bytes t1) = (0, t2)"
  shows "layout_ok si app extra \<lparr>ml_owned = owned, ml_tables = t2, ml_service_phys = sp_base owned,
     ml_app_phys = sp_base owned + NV_GSP_SERVICE_BYTES, ml_app_va = NV_GSP_APP_VA_BASE + NV_GSP_SERVICE_BYTES,
     ml_app_bytes = app, ml_channel_phys = rg_table_phys t2 + rg_table_bytes t1\<rparr>"
proof -
  let ?b = "unat (sp_base owned)" and ?n = "mapped_bytes app"
  let ?t = "table_total 0x20000000 (mapped_bytes app)"
  note a = app_guard [OF guard]
  note t1 = plan_tables [OF p1 _ a(3)] and t2 = plan_tables [OF p2 _ a(3)]
  note tot = block_total [OF guard t1(1)]
  have sz: "unat (sp_size owned) = block_bytes app" unfolding own(1) using tot(1) by simp
  note ch = chosen_block [OF scan own(2) ex, unfolded sz]
  have fit: "?b + block_bytes app \<le> 2 ^ 40" using ch(1) by auto
  have parts: "?b + ?n + ?t + 0x10000 = ?b + block_bytes app" by (simp add: block_bytes_def)
  have mp: "unat (sp_base owned + (NV_GSP_SERVICE_BYTES + app)) = ?b + ?n"
    using fit parts a(3) by (subst unat_add_small) simp_all
  have tb: "rg_table_bytes t1 = rg_table_bytes t2" using t1(1) t2(1) by (simp add: word_unat_eq_iff)
  have al: "0x10000 dvd ?b" using own(2) by (simp add: range_ok_def)
  have "4096 dvd ?b" using al by (rule dvd_trans [rotated]) simp
  then have tg: "target_ok 0x20000000 ?n (?b + ?n) ?b" using fit parts by (simp add: target_ok_def)
  have sv: "unat (sp_base owned + NV_GSP_SERVICE_BYTES) = ?b + 0x100000"
    using fit parts by (subst unat_add_small) (simp_all add: mapped_bytes_def)
  have cp: "unat (rg_table_phys t2 + rg_table_bytes t1) = ?b + ?n + ?t"
    using fit parts mp t1(1) t2(2) by (subst unat_add_small) simp_all
  show ?thesis
    using sz al ch fit tot(3) sv mp t2(2) cp p2 tb tg
    by (simp add: layout_ok_def Let_def)
qed

lemma memory_plan_spec:
  "(\<exists>l. nv_gsp_memory_plan si app extra = Some (0, l) \<and> layout_ok si app extra l)
   \<or> nv_gsp_memory_plan si app extra = Some (-1, no_layout)
   \<or> nv_gsp_memory_plan si app extra = Some (-2, no_layout)"
proof -
  let ?ex = "\<lparr>sp_base = 0, sp_size = 0x20000000\<rparr> #
        (case extra of None \<Rightarrow> [] | Some x \<Rightarrow> if sp_size x \<noteq> 0 then [x] else [])"
  let ?rs = "take (unat (si_num_regions si)) (si_regions si)"
  let ?m = "NV_GSP_SERVICE_BYTES + app"
  obtain rc1 t1 where p1: "nv_gmmu_range_plan NV_GSP_APP_VA_BASE ?m 0 0 = (rc1, t1)" by fastforce
  let ?T = "?m + rg_table_bytes t1 + NV_GSP_CHANNEL_BYTES"
  note unf = nv_gsp_memory_plan_def [of si app extra] Let_def p1 prod.case
  show ?thesis
  proof (cases "si_num_regions si = 0 \<or> si_num_regions si > NV_GSP_FBREGION_MAX
         \<or> app < NV_VRAM_MIN_APP_BYTES \<or> app AND 0xffff \<noteq> 0 \<or> app > push_bit 39 1
         \<or> rc1 \<noteq> -2 \<or> scan_regions [] ?rs [] = None \<or> scan_regions [] ?rs [] = Some []")
    case True
    then have "nv_gsp_memory_plan si app extra = Some (-1, no_layout)
        \<or> nv_gsp_memory_plan si app extra = Some (-2, no_layout)"
      unfolding unf by (auto split: option.splits)
    then show ?thesis by blast
  next
    case False
    then obtain av where av: "scan_regions [] ?rs [] = Some av" "av \<noteq> []"
      and guard: "app AND 0xffff = 0" "\<not> app > push_bit 39 1" and rc1: "rc1 = -2" by auto
    have run: "nv_gsp_memory_plan si app extra =
        do { (rc, owned) \<leftarrow> nv_vram_find_range av ?ex ?T 0x10000;
             if rc \<noteq> 0 then Some (rc, no_layout)
             else let (rc, t) = nv_gmmu_range_plan NV_GSP_APP_VA_BASE ?m (sp_base owned + ?m) (rg_table_bytes t1)
                  in if rc \<noteq> 0 then Some (-1, no_layout)
                     else Some (0, \<lparr>ml_owned = owned, ml_tables = t, ml_service_phys = sp_base owned,
                               ml_app_phys = sp_base owned + NV_GSP_SERVICE_BYTES,
                               ml_app_va = NV_GSP_APP_VA_BASE + NV_GSP_SERVICE_BYTES,
                               ml_app_bytes = app,
                               ml_channel_phys = rg_table_phys t + rg_table_bytes t1\<rparr>) }"
      unfolding unf using False av rc1 by simp
    note tot = block_total [OF guard plan_tables(1) [OF p1 _ app_guard(3) [OF guard]]]
    have sav: "spans_ok av"
      using scan_regions_Some [OF av(1)] region_interval(2) by (auto simp: spans_ok_def region_span_def)
    show ?thesis
    proof (cases "spans_ok ?ex")
      case True
      have t: "?T \<noteq> 0" "4096 dvd unat ?T" using tot rc1 by auto
      from find_range_spec [OF av(2) t(1) block_alignment t(2) sav True]
      consider s where "nv_vram_find_range av ?ex ?T 0x10000 = Some (0, s)" "sp_size s = ?T"
          "range_ok av ?ex ?T 0x10000 (unat (sp_base s))"
        | "nv_vram_find_range av ?ex ?T 0x10000 = Some (-2, no_span)" by blast
      then show ?thesis
      proof cases
        case (1 s)
        then show ?thesis
          using layout_built [OF guard p1 [unfolded rc1] av(1) refl 1(2)] run by (auto split: prod.splits)
      qed (simp add: run)
    next
      case False
      then have "nv_vram_find_range av ?ex ?T 0x10000 = Some (-1, no_span)"
        by (auto simp: nv_vram_find_range_def spans_ok_def)
      then show ?thesis using run by simp
    qed
  qed
qed

text \<open>
  C16. \<open>nv_gsp_memory_plan\<close> always returns.  With 0, the owned block lies inside one
  unreserved, unprotected region below 2^40, above the low 512 MiB and clear of \<open>extra\<close>;
  service, application, table and channel areas follow one another without overlap and fill the block
  exactly; the stored tables are an accepted plan for the mapped area and its physical target does not
  touch them.  Any other result leaves the layout zeroed.
\<close>

theorem nv_gsp_memory_plan_correct:
  "(\<exists>l. nv_gsp_memory_plan si app extra = Some (0, l) \<and> layout_ok si app extra l)
   \<or> nv_gsp_memory_plan si app extra = Some (-1, no_layout)
   \<or> nv_gsp_memory_plan si app extra = Some (-2, no_layout)"
  by (rule memory_plan_spec)


definition demo_info :: nv_gsp_static_info where
  "demo_info = \<lparr>si_num_regions = 1,
     si_regions = [\<lparr>fr_base = 0, fr_limit = 0x3FFFFFFFF, fr_reserved = 0, fr_performance = 0,
                    fr_compressed = 0, fr_iso = 0, fr_prot = 0\<rparr>],
     si_h_client = 0, si_h_device = 0, si_h_subdevice = 0, si_bar1_pde = 0, si_bar2_pde = 0\<rparr>"

lemma demo_layout: "map_option fst (nv_gsp_memory_plan demo_info 0x40000000 None) = Some 0"
  by code_simp


end
