(* ===== verification/Dma.thy ===== *)
theory Dma
  imports Prelude
begin

text \<open>
  \<open>driver/gsp/nv_dma.h\<close>: the bump allocator over the one DMA buffer of the bring-up.
  The CPU pointer \<open>va\<close> is its address.
\<close>

abbreviation NV_DMA_ARENA_SIZE :: u32 where "NV_DMA_ARENA_SIZE \<equiv> 64 * 1024 * 1024"

record nv_dma_arena_t =
  ar_va :: u64
  ar_dma_addr :: u64
  ar_off :: u64
  ar_cap :: u64

definition nv_dma_arena_init :: "u64 \<Rightarrow> u64 \<Rightarrow> u64 \<Rightarrow> nv_dma_arena_t" where
  "nv_dma_arena_init va dma_addr cap = \<lparr>ar_va = va, ar_dma_addr = dma_addr, ar_off = 0, ar_cap = cap\<rparr>"

text \<open>Result: return code, CPU address, DMA address (both only meaningful with 0), new arena.\<close>

definition nv_dma_alloc :: "nv_dma_arena_t \<Rightarrow> u64 \<Rightarrow> int \<times> u64 \<times> u64 \<times> nv_dma_arena_t" where
  "nv_dma_alloc a sz =
     (let off = ar_off a;
          next = (off + sz + 0xFFF) AND NOT 0xFFF in
      if next > ar_cap a then (-1, 0, 0, a)
      else (0, ar_va a + off, ar_dma_addr a + off, a\<lparr>ar_off := next\<rparr>))"

definition nv_dma_arena_reset :: "nv_dma_arena_t \<Rightarrow> nv_dma_arena_t" where
  "nv_dma_arena_reset a = a\<lparr>ar_off := 0\<rparr>"

definition arena_inv :: "nv_dma_arena_t \<Rightarrow> bool" where
  "arena_inv a \<longleftrightarrow> 4096 dvd unat (ar_off a) \<and> unat (ar_off a) \<le> unat (ar_cap a)
     \<and> unat (ar_dma_addr a) + unat (ar_cap a) < 2 ^ 64 \<and> unat (ar_va a) + unat (ar_cap a) < 2 ^ 64"

lemma dma_alloc_spec:
  assumes inv: "arena_inv a" and sz: "unat (ar_off a) + unat sz + 0xFFF < 2 ^ 64"
  shows "nv_dma_alloc a sz =
    (if roundup 4096 (unat (ar_off a) + unat sz) \<le> unat (ar_cap a)
     then (0, ar_va a + ar_off a, ar_dma_addr a + ar_off a,
           a\<lparr>ar_off := of_nat (roundup 4096 (unat (ar_off a) + unat sz))\<rparr>)
     else (-1, 0, 0, a))"
proof -
  have u: "unat (ar_off a + sz) = unat (ar_off a) + unat sz" using sz by (subst unat_add_small) simp_all
  have "unat ((ar_off a + sz + 4096 - 1) AND NOT (4096 - 1)) = roundup (2 ^ 12) (unat (ar_off a + sz))"
    by (rule unat_align_up) (use sz u in simp_all)
  then have n: "unat ((ar_off a + sz + 0xFFF) AND NOT 0xFFF) = roundup 4096 (unat (ar_off a) + unat sz)"
    by (simp add: u add.commute [of 4095])
  then have "(ar_off a + sz + 0xFFF) AND NOT 0xFFF = of_nat (roundup 4096 (unat (ar_off a) + unat sz))"
    by (metis of_nat_unat ucast_id)
  with n show ?thesis by (simp add: nv_dma_alloc_def Let_def word_less_nat_alt)
qed

text \<open>
  Histories: the blocks handed out since the last reset, newest first, as offset and size.
  The sizes are those the bring-up can ask for: below 2^63.
\<close>

inductive dma_run :: "nv_dma_arena_t \<Rightarrow> (nat \<times> nat) list \<Rightarrow> bool" where
  init: "unat va + unat cap < 2 ^ 63 \<Longrightarrow> unat dma_addr + unat cap < 2 ^ 63 \<Longrightarrow>
         dma_run (nv_dma_arena_init va dma_addr cap) []"
| alloc: "dma_run a bs \<Longrightarrow> unat sz < 2 ^ 63 - 2 ^ 12 \<Longrightarrow> nv_dma_alloc a sz = (0, v, d, a') \<Longrightarrow>
         dma_run a' ((unat d - unat (ar_dma_addr a), unat sz) # bs)"
| reset: "dma_run a bs \<Longrightarrow> dma_run (nv_dma_arena_reset a) []"

lemma dma_run_inv:
  assumes "dma_run a bs"
  shows "arena_inv a \<and> unat (ar_dma_addr a) + unat (ar_cap a) < 2 ^ 63
    \<and> (\<forall>(b, n) \<in> set bs. 4096 dvd b \<and> b + n \<le> unat (ar_off a))
    \<and> sorted_wrt (\<lambda>(b, n) (c, m). c + m \<le> b) bs"
  using assms
proof induction
  case (init va cap dma_addr)
  then show ?case by (simp add: nv_dma_arena_init_def arena_inv_def)
next
  case (alloc a bs sz v d a')
  let ?n = "roundup 4096 (unat (ar_off a) + unat sz)"
  have inv: "arena_inv a" and cap: "unat (ar_dma_addr a) + unat (ar_cap a) < 2 ^ 63" using alloc.IH by auto
  have off: "unat (ar_off a) \<le> unat (ar_cap a)" "4096 dvd unat (ar_off a)" using inv by (auto simp: arena_inv_def)
  have "unat (ar_off a) + unat sz + 0xFFF < 2 ^ 64" using off cap alloc.hyps(2) by simp
  from dma_alloc_spec [OF inv this] alloc.hyps(3)
  have fit: "?n \<le> unat (ar_cap a)" and d: "d = ar_dma_addr a + ar_off a" and a': "a' = a\<lparr>ar_off := of_nat ?n\<rparr>"
    by (auto split: if_splits)
  have un: "unat (of_nat ?n :: u64) = ?n" using fit cap by (simp add: unat_of_nat)
  have ge: "unat (ar_off a) + unat sz \<le> ?n" by (rule roundup_ge) simp
  have "unat d = unat (ar_dma_addr a) + unat (ar_off a)"
    unfolding d using off cap by (subst unat_add_small) simp_all
  then have "unat d - unat (ar_dma_addr a) = unat (ar_off a)" by simp
  moreover have "arena_inv a'" using inv fit un by (simp add: arena_inv_def a')
  ultimately show ?case using alloc.IH off ge un by (fastforce simp: a')
next
  case (reset a bs)
  then show ?case by (simp add: arena_inv_def nv_dma_arena_reset_def)
qed


text \<open>
  The size check of \<open>nv_dma_alloc\<close> is made on a sum that may wrap: a request of
  2^64 - 4096 bytes on any arena whose offset is one page is granted although the buffer is smaller, and
  moves the offset back to the start.
\<close>

theorem nv_dma_alloc_wraps:
  "nv_dma_alloc \<lparr>ar_va = va, ar_dma_addr = d, ar_off = 0x1000, ar_cap = 0x4000000\<rparr> 0xFFFFFFFFFFFFF000
   = (0, va + 0x1000, d + 0x1000, \<lparr>ar_va = va, ar_dma_addr = d, ar_off = 0, ar_cap = 0x4000000\<rparr>)"
  by (simp add: nv_dma_alloc_def)

lemma demo_arena: "dma_run (nv_dma_arena_init 0x1000 0x100000 0x10000) []"
  by (rule dma_run.init) simp_all


end
