(* ===== verification/Regs.thy ===== *)
theory Regs
  imports Prelude
begin

text \<open>
  \<open>falcon_regs.h\<close>: the Falcon, FB and fuse registers the bring-up programs, and
  \<open>ada_regs.h\<close>: decoding the chip identification register.  Register numbers are
  input abbreviations, so proofs see plain numerals.
\<close>

section \<open>Register numbers\<close>

abbreviation (input) NV_PGSP_FALCON_BASE :: u32 where "NV_PGSP_FALCON_BASE \<equiv> 0x110000"
abbreviation (input) NV_PGSP_FALCON2_BASE :: u32 where "NV_PGSP_FALCON2_BASE \<equiv> 0x111000"
abbreviation (input) NV_PSEC_FALCON_BASE :: u32 where "NV_PSEC_FALCON_BASE \<equiv> 0x840000"
abbreviation (input) NV_PSEC_FALCON2_BASE :: u32 where "NV_PSEC_FALCON2_BASE \<equiv> 0x841000"
abbreviation (input) NV_PFALCON_FALCON_IRQSCLR_OFF :: u32 where "NV_PFALCON_FALCON_IRQSCLR_OFF \<equiv> 0x4"
abbreviation (input) NV_PFALCON_FALCON_MAILBOX0_OFF :: u32 where "NV_PFALCON_FALCON_MAILBOX0_OFF \<equiv> 0x40"
abbreviation (input) NV_PFALCON_FALCON_MAILBOX1_OFF :: u32 where "NV_PFALCON_FALCON_MAILBOX1_OFF \<equiv> 0x44"
abbreviation (input) NV_PFALCON_FALCON_OS_OFF :: u32 where "NV_PFALCON_FALCON_OS_OFF \<equiv> 0x80"
abbreviation (input) NV_PFALCON_FALCON_RM_OFF :: u32 where "NV_PFALCON_FALCON_RM_OFF \<equiv> 0x84"
abbreviation (input) NV_PFALCON_FALCON_HWCFG2_OFF :: u32 where "NV_PFALCON_FALCON_HWCFG2_OFF \<equiv> 0xF4"
abbreviation (input) NV_PFALCON_FALCON_CPUCTL_OFF :: u32 where "NV_PFALCON_FALCON_CPUCTL_OFF \<equiv> 0x100"
abbreviation (input) NV_PFALCON_FALCON_BOOTVEC_OFF :: u32 where "NV_PFALCON_FALCON_BOOTVEC_OFF \<equiv> 0x104"
abbreviation (input) NV_PFALCON_FALCON_DMACTL_OFF :: u32 where "NV_PFALCON_FALCON_DMACTL_OFF \<equiv> 0x10C"
abbreviation (input) NV_PFALCON_FALCON_DMATRFBASE_OFF :: u32 where "NV_PFALCON_FALCON_DMATRFBASE_OFF \<equiv> 0x110"
abbreviation (input) NV_PFALCON_FALCON_DMATRFMOFFS_OFF :: u32 where "NV_PFALCON_FALCON_DMATRFMOFFS_OFF \<equiv> 0x114"
abbreviation (input) NV_PFALCON_FALCON_DMATRFCMD_OFF :: u32 where "NV_PFALCON_FALCON_DMATRFCMD_OFF \<equiv> 0x118"
abbreviation (input) NV_PFALCON_FALCON_DMATRFFBOFFS_OFF :: u32 where "NV_PFALCON_FALCON_DMATRFFBOFFS_OFF \<equiv> 0x11C"
abbreviation (input) NV_PFALCON_FALCON_DMATRFBASE1_OFF :: u32 where "NV_PFALCON_FALCON_DMATRFBASE1_OFF \<equiv> 0x128"
abbreviation (input) NV_PFALCON_FALCON_HWCFG1_OFF :: u32 where "NV_PFALCON_FALCON_HWCFG1_OFF \<equiv> 0x12C"
abbreviation (input) NV_PFALCON_FALCON_CPUCTL_ALIAS_OFF :: u32 where "NV_PFALCON_FALCON_CPUCTL_ALIAS_OFF \<equiv> 0x130"
abbreviation (input) NV_PFALCON_FALCON_IMEMC_OFF :: u32 where "NV_PFALCON_FALCON_IMEMC_OFF \<equiv> 0x180"
abbreviation (input) NV_PFALCON_FALCON_IMEMD_OFF :: u32 where "NV_PFALCON_FALCON_IMEMD_OFF \<equiv> 0x184"
abbreviation (input) NV_PFALCON_FALCON_IMEMT_OFF :: u32 where "NV_PFALCON_FALCON_IMEMT_OFF \<equiv> 0x188"
abbreviation (input) NV_PFALCON_FALCON_DMEMC_OFF :: u32 where "NV_PFALCON_FALCON_DMEMC_OFF \<equiv> 0x1C0"
abbreviation (input) NV_PFALCON_FALCON_DMEMD_OFF :: u32 where "NV_PFALCON_FALCON_DMEMD_OFF \<equiv> 0x1C4"
abbreviation (input) NV_PFALCON_FALCON_ENGINE_OFF :: u32 where "NV_PFALCON_FALCON_ENGINE_OFF \<equiv> 0x3C0"
abbreviation (input) NV_PFALCON_FBIF_TRANSCFG_OFF :: u32 where "NV_PFALCON_FBIF_TRANSCFG_OFF \<equiv> 0x600"
abbreviation (input) NV_PFALCON_FBIF_CTL_OFF :: u32 where "NV_PFALCON_FBIF_CTL_OFF \<equiv> 0x624"
abbreviation (input) NV_PFALCON2_FALCON_MOD_SEL_OFF :: u32 where "NV_PFALCON2_FALCON_MOD_SEL_OFF \<equiv> 0x180"
abbreviation (input) NV_PFALCON2_FALCON_BROM_CURR_UCODE_ID_OFF :: u32 where "NV_PFALCON2_FALCON_BROM_CURR_UCODE_ID_OFF \<equiv> 0x198"
abbreviation (input) NV_PFALCON2_FALCON_BROM_ENGIDMASK_OFF :: u32 where "NV_PFALCON2_FALCON_BROM_ENGIDMASK_OFF \<equiv> 0x19C"
abbreviation (input) NV_PFALCON2_FALCON_BROM_PARAADDR_OFF :: u32 where "NV_PFALCON2_FALCON_BROM_PARAADDR_OFF \<equiv> 0x210"
abbreviation (input) NV_PRISCV_RISCV_CPUCTL_OFF :: u32 where "NV_PRISCV_RISCV_CPUCTL_OFF \<equiv> 0x388"
abbreviation (input) NV_PRISCV_RISCV_BCR_CTRL_OFF :: u32 where "NV_PRISCV_RISCV_BCR_CTRL_OFF \<equiv> 0x668"
abbreviation (input) NV_PFALCON_IRQSCLR_HALT :: u32 where "NV_PFALCON_IRQSCLR_HALT \<equiv> 16"
abbreviation (input) NV_PFALCON_IRQSCLR_SWGEN0 :: u32 where "NV_PFALCON_IRQSCLR_SWGEN0 \<equiv> 64"
abbreviation (input) NV_PFALCON_HWCFG2_RISCV :: u32 where "NV_PFALCON_HWCFG2_RISCV \<equiv> 1024"
abbreviation (input) NV_PFALCON_HWCFG2_MEM_SCRUBBING :: u32 where "NV_PFALCON_HWCFG2_MEM_SCRUBBING \<equiv> 4096"
abbreviation (input) NV_PFALCON_HWCFG2_RISCV_BR_LOCKDOWN :: u32 where "NV_PFALCON_HWCFG2_RISCV_BR_LOCKDOWN \<equiv> 8192"
abbreviation (input) NV_PFALCON_HWCFG2_RESET_READY :: u32 where "NV_PFALCON_HWCFG2_RESET_READY \<equiv> 2147483648"
abbreviation (input) NV_PFALCON_CPUCTL_STARTCPU :: u32 where "NV_PFALCON_CPUCTL_STARTCPU \<equiv> 2"
abbreviation (input) NV_PFALCON_CPUCTL_HALTED :: u32 where "NV_PFALCON_CPUCTL_HALTED \<equiv> 16"
abbreviation (input) NV_PFALCON_CPUCTL_ALIAS_EN :: u32 where "NV_PFALCON_CPUCTL_ALIAS_EN \<equiv> 64"
abbreviation (input) NV_PFALCON_CPUCTL_ALIAS_STARTCPU :: u32 where "NV_PFALCON_CPUCTL_ALIAS_STARTCPU \<equiv> 2"
abbreviation (input) NV_PFALCON_DMACTL_REQUIRE_CTX :: u32 where "NV_PFALCON_DMACTL_REQUIRE_CTX \<equiv> 1"
abbreviation (input) NV_PFALCON_DMACTL_DMEM_SCRUBBING :: u32 where "NV_PFALCON_DMACTL_DMEM_SCRUBBING \<equiv> 2"
abbreviation (input) NV_PFALCON_DMACTL_IMEM_SCRUBBING :: u32 where "NV_PFALCON_DMACTL_IMEM_SCRUBBING \<equiv> 4"
abbreviation (input) NV_PFALCON_ENGINE_RESET :: u32 where "NV_PFALCON_ENGINE_RESET \<equiv> 1"
abbreviation (input) NV_PFALCON_FBIF_CTL_ALLOW_PHYS_NO_CTX :: u32 where "NV_PFALCON_FBIF_CTL_ALLOW_PHYS_NO_CTX \<equiv> 128"
abbreviation (input) NV_PFALCON_IMEMC_AINCW :: u32 where "NV_PFALCON_IMEMC_AINCW \<equiv> 16777216"
abbreviation (input) NV_PFALCON_IMEMC_SECURE :: u32 where "NV_PFALCON_IMEMC_SECURE \<equiv> 268435456"
abbreviation (input) NV_PFALCON_DMEMC_AINCW :: u32 where "NV_PFALCON_DMEMC_AINCW \<equiv> 16777216"
abbreviation (input) NV_PFALCON_DMATRFCMD_FULL :: u32 where "NV_PFALCON_DMATRFCMD_FULL \<equiv> 1"
abbreviation (input) NV_PFALCON_DMATRFCMD_IDLE :: u32 where "NV_PFALCON_DMATRFCMD_IDLE \<equiv> 2"
abbreviation (input) NV_PFALCON_DMATRFCMD_IMEM :: u32 where "NV_PFALCON_DMATRFCMD_IMEM \<equiv> 16"
abbreviation (input) NV_PFALCON_DMATRFCMD_IS_WRITE :: u32 where "NV_PFALCON_DMATRFCMD_IS_WRITE \<equiv> 32"
abbreviation (input) NV_PFALCON_DMATRFCMD_SIZE_SHIFT :: u32 where "NV_PFALCON_DMATRFCMD_SIZE_SHIFT \<equiv> 8"
abbreviation (input) NV_PFALCON_DMATRFCMD_SEC_SHIFT :: u32 where "NV_PFALCON_DMATRFCMD_SEC_SHIFT \<equiv> 2"
abbreviation (input) NV_DMA_TRF_CMD_SIZE_256B :: u32 where "NV_DMA_TRF_CMD_SIZE_256B \<equiv> 0x6"
abbreviation (input) NV_FBIF_TARGET_LOCAL_FB :: u32 where "NV_FBIF_TARGET_LOCAL_FB \<equiv> 0"
abbreviation (input) NV_FBIF_TARGET_COHERENT_SYSMEM :: u32 where "NV_FBIF_TARGET_COHERENT_SYSMEM \<equiv> 1"
abbreviation (input) NV_FBIF_TARGET_NONCOHERENT_SYSMEM :: u32 where "NV_FBIF_TARGET_NONCOHERENT_SYSMEM \<equiv> 2"
abbreviation (input) NV_FBIF_MEM_TYPE_VIRTUAL :: u32 where "NV_FBIF_MEM_TYPE_VIRTUAL \<equiv> 0"
abbreviation (input) NV_FBIF_MEM_TYPE_PHYSICAL :: u32 where "NV_FBIF_MEM_TYPE_PHYSICAL \<equiv> 1"
abbreviation (input) NV_FALCON_SEC_MODEL_NONE :: u32 where "NV_FALCON_SEC_MODEL_NONE \<equiv> 0"
abbreviation (input) NV_FALCON_SEC_MODEL_LIGHT :: u32 where "NV_FALCON_SEC_MODEL_LIGHT \<equiv> 2"
abbreviation (input) NV_FALCON_SEC_MODEL_HEAVY :: u32 where "NV_FALCON_SEC_MODEL_HEAVY \<equiv> 3"
abbreviation (input) NV_PFB_PRI_MMU_WPR2_ADDR_LO :: u32 where "NV_PFB_PRI_MMU_WPR2_ADDR_LO \<equiv> 0x1FA824"
abbreviation (input) NV_PFB_PRI_MMU_WPR2_ADDR_HI :: u32 where "NV_PFB_PRI_MMU_WPR2_ADDR_HI \<equiv> 0x1FA828"
abbreviation (input) NV_PGC6_AON_SECURE_SCRATCH_GROUP_05_0_GFW_BOOT :: u32 where "NV_PGC6_AON_SECURE_SCRATCH_GROUP_05_0_GFW_BOOT \<equiv> 0x118234"
abbreviation (input) NV_GFW_BOOT_PROGRESS_COMPLETED :: u32 where "NV_GFW_BOOT_PROGRESS_COMPLETED \<equiv> 0xFF"
abbreviation (input) NV_PGSP_QUEUE_HEAD :: u32 where "NV_PGSP_QUEUE_HEAD \<equiv> 0x110C00"
abbreviation (input) NV_ROM_SHADOW_BASE :: u32 where "NV_ROM_SHADOW_BASE \<equiv> 0x300000"
abbreviation (input) NV_VBIOS_SCAN_MAX :: u32 where "NV_VBIOS_SCAN_MAX \<equiv> 0x100000"
abbreviation (input) NV_USABLE_FB_SIZE_IN_MB :: u32 where "NV_USABLE_FB_SIZE_IN_MB \<equiv> 0x1183A4"
abbreviation (input) NV_PDISP_VGA_WORKSPACE_BASE :: u32 where "NV_PDISP_VGA_WORKSPACE_BASE \<equiv> 0x625F04"
abbreviation (input) NV_FUSE_STATUS_OPT_DISPLAY :: u32 where "NV_FUSE_STATUS_OPT_DISPLAY \<equiv> 0x820C04"
abbreviation (input) NV_FRTS_SIZE :: u32 where "NV_FRTS_SIZE \<equiv> 0x100000"
abbreviation (input) NV_PRAMIN_SIZE :: u32 where "NV_PRAMIN_SIZE \<equiv> 0x100000"
abbreviation (input) NV_VBIOS_WORKSPACE_SIZE :: u32 where "NV_VBIOS_WORKSPACE_SIZE \<equiv> 0x20000"
abbreviation (input) NV_FRTS_ALIGN :: u32 where "NV_FRTS_ALIGN \<equiv> 0x20000"
abbreviation (input) NV_FUSE_OPT_FPF_SIZE :: u32 where "NV_FUSE_OPT_FPF_SIZE \<equiv> 16"
abbreviation (input) NV_FUSE_OPT_FPF_NVDEC_UCODE1_VERSION :: u32 where "NV_FUSE_OPT_FPF_NVDEC_UCODE1_VERSION \<equiv> 0x824100"
abbreviation (input) NV_FUSE_OPT_FPF_SEC2_UCODE1_VERSION :: u32 where "NV_FUSE_OPT_FPF_SEC2_UCODE1_VERSION \<equiv> 0x824140"
abbreviation (input) NV_FUSE_OPT_FPF_GSP_UCODE1_VERSION :: u32 where "NV_FUSE_OPT_FPF_GSP_UCODE1_VERSION \<equiv> 0x8241C0"
abbreviation (input) NV_FALCON_ENGINE_ID_SEC2 :: u32 where "NV_FALCON_ENGINE_ID_SEC2 \<equiv> 0x1"
abbreviation (input) NV_FALCON_ENGINE_ID_NVDEC :: u32 where "NV_FALCON_ENGINE_ID_NVDEC \<equiv> 0x4"
abbreviation (input) NV_FALCON_ENGINE_ID_GSP :: u32 where "NV_FALCON_ENGINE_ID_GSP \<equiv> 0x400"
abbreviation (input) NV_FALCON_MEM_BLOCK_ALIGNMENT :: u32 where "NV_FALCON_MEM_BLOCK_ALIGNMENT \<equiv> 256"
abbreviation (input) NV_FALCON_DMA_ADDR_BITS :: u32 where "NV_FALCON_DMA_ADDR_BITS \<equiv> 49"

definition nv_wpr2_bound_from_reg :: "u32 \<Rightarrow> u64" where
  "nv_wpr2_bound_from_reg reg = push_bit 12 (ucast (drop_bit 4 reg))"

section \<open>Chip identification\<close>

record nv_boot0_t =
  b0_raw :: u32
  b0_architecture :: u32
  b0_implementation :: u32
  b0_chipset :: u32
  b0_major_revision :: u32
  b0_minor_revision :: u32

definition nv_decode_boot0 :: "u32 \<Rightarrow> nv_boot0_t" where
  "nv_decode_boot0 v = \<lparr>
     b0_raw = v,
     b0_architecture = drop_bit 24 v AND 0x1F,
     b0_implementation = drop_bit 20 v AND 0xF,
     b0_chipset = drop_bit 20 v AND 0x1FF,
     b0_major_revision = drop_bit 4 v AND 0xF,
     b0_minor_revision = drop_bit 0 v AND 0xF\<rparr>"

definition nv_arch_name :: "u32 \<Rightarrow> string" where
  "nv_arch_name a = (if a = 0x16 then ''Turing (TU10x)'' else if a = 0x17 then ''Ampere (GA10x)''
     else if a = 0x19 then ''Ada Lovelace (AD10x)'' else ''unknown arch'')"

definition nv_chipset_name :: "u32 \<Rightarrow> string" where
  "nv_chipset_name c = (if c = 0x192 then ''AD102'' else if c = 0x193 then ''AD103''
     else if c = 0x194 then ''AD104'' else if c = 0x196 then ''AD106''
     else if c = 0x197 then ''AD107'' else ''unknown chipset'')"

definition nv_boot0_plausible :: "u32 \<Rightarrow> bool" where
  "nv_boot0_plausible v \<longleftrightarrow> v \<noteq> 0 \<and> v \<noteq> 0xFFFFFFFF"

lemma boot0_fields:
  "unat (b0_architecture (nv_decode_boot0 v)) = unat v div 2 ^ 24 mod 32"
  "unat (b0_implementation (nv_decode_boot0 v)) = unat v div 2 ^ 20 mod 16"
  "unat (b0_chipset (nv_decode_boot0 v)) = unat v div 2 ^ 20 mod 512"
proof -
  have m: "(0x1F :: u32) = mask 5" "(0xF :: u32) = mask 4" "(0x1FF :: u32) = mask 9"
    by (simp_all add: mask_eq_exp_minus_1)
  show "unat (b0_architecture (nv_decode_boot0 v)) = unat v div 2 ^ 24 mod 32"
    by (simp only: nv_decode_boot0_def nv_boot0_t.simps m unat_and_mask unat_drop_bit) simp
  show "unat (b0_implementation (nv_decode_boot0 v)) = unat v div 2 ^ 20 mod 16"
    by (simp only: nv_decode_boot0_def nv_boot0_t.simps m unat_and_mask unat_drop_bit) simp
  show "unat (b0_chipset (nv_decode_boot0 v)) = unat v div 2 ^ 20 mod 512"
    by (simp only: nv_decode_boot0_def nv_boot0_t.simps m unat_and_mask unat_drop_bit) simp
qed

text \<open>
  The chipset id is the architecture field followed by the implementation field, so a
  register value that decodes to an AD10x name belongs to the Ada family.
\<close>

theorem chipset_is_arch_impl:
  "unat (b0_chipset (nv_decode_boot0 v)) =
     16 * unat (b0_architecture (nv_decode_boot0 v)) + unat (b0_implementation (nv_decode_boot0 v))
   \<and> (nv_chipset_name (b0_chipset (nv_decode_boot0 v)) \<noteq> ''unknown chipset'' \<longrightarrow>
     nv_arch_name (b0_architecture (nv_decode_boot0 v)) = ''Ada Lovelace (AD10x)'')"
proof (intro conjI impI)
  have q: "x mod 512 = 16 * (x div 16 mod 32) + x mod 16" for x :: nat
    using mod_mult2_eq [of x 16 32] by simp
  have "unat v div 2 ^ 24 = unat v div 2 ^ 20 div 16" by (simp add: div_mult2_eq [symmetric])
  then show e: "unat (b0_chipset (nv_decode_boot0 v)) =
     16 * unat (b0_architecture (nv_decode_boot0 v)) + unat (b0_implementation (nv_decode_boot0 v))"
    unfolding boot0_fields using q [of "unat v div 2 ^ 20"] by simp
  have i: "unat (b0_implementation (nv_decode_boot0 v)) < 16" unfolding boot0_fields by simp
  assume "nv_chipset_name (b0_chipset (nv_decode_boot0 v)) \<noteq> ''unknown chipset''"
  then have "b0_chipset (nv_decode_boot0 v) \<in> {0x192, 0x193, 0x194, 0x196, 0x197}"
    by (auto simp: nv_chipset_name_def split: if_splits)
  then have "unat (b0_chipset (nv_decode_boot0 v)) \<in> {0x192, 0x193, 0x194, 0x196, 0x197}" by auto
  with e i have "unat (b0_architecture (nv_decode_boot0 v)) = 0x19" by auto
  then have "b0_architecture (nv_decode_boot0 v) = 0x19" by (simp add: word_unat_eq_iff)
  then show "nv_arch_name (b0_architecture (nv_decode_boot0 v)) = ''Ada Lovelace (AD10x)''"
    by (simp add: nv_arch_name_def)
qed

theorem chipset_is_arch_impl_witness:
  "nv_chipset_name (b0_chipset (nv_decode_boot0 0x194000A1)) = ''AD104''
   \<and> nv_arch_name (b0_architecture (nv_decode_boot0 0x194000A1)) = ''Ada Lovelace (AD10x)''"
proof -
  have "nv_chipset_name (b0_chipset (nv_decode_boot0 0x194000A1)) = ''AD104''" by code_simp
  with chipset_is_arch_impl [where v = "0x194000A1"] show ?thesis by simp
qed

end
