(* ===== verification/Falcon.thy ===== *)
theory Falcon
  imports Mmio Regs
begin

text \<open>
  \<open>driver/gsp/falcon.c\<close>: reset, DMA load, start and result registers of a Falcon
  microcontroller.  Every function threads the hardware state; the ones that poll are
  \<^const>\<open>None\<close> when the poll never ends.
\<close>

abbreviation (input) NV_FALCON_MEM_IMEM_SECURE :: int where "NV_FALCON_MEM_IMEM_SECURE \<equiv> 0"
abbreviation (input) NV_FALCON_MEM_IMEM_NONSECURE :: int where "NV_FALCON_MEM_IMEM_NONSECURE \<equiv> 1"
abbreviation (input) NV_FALCON_MEM_DMEM :: int where "NV_FALCON_MEM_DMEM \<equiv> 2"
abbreviation (input) NV_OK :: int where "NV_OK \<equiv> 0"
abbreviation (input) NV_ERR_TIMEOUT :: int where "NV_ERR_TIMEOUT \<equiv> -1"
abbreviation (input) NV_ERR_STATE :: int where "NV_ERR_STATE \<equiv> -2"
abbreviation (input) NV_POLL_STEP_US :: u32 where "NV_POLL_STEP_US \<equiv> 10"
abbreviation (input) NV_DMA_BLOCK :: u32 where "NV_DMA_BLOCK \<equiv> 256"
abbreviation (input) PFALCON :: "u32 \<Rightarrow> u32 \<Rightarrow> u32" where "PFALCON base off \<equiv> base + off"

record nv_dma_load_target_t =
  lt_src_start :: u32
  lt_dst_start :: u32
  lt_len :: u32

text \<open>
  The polling loop all functions share: read, test, give up when the time is used up, wait,
  count.  \<open>waited\<close> is a 32-bit counter and wraps.
\<close>

partial_function (option) poll ::
  "'w mmio \<Rightarrow> u32 \<Rightarrow> (u32 \<Rightarrow> bool) \<Rightarrow> u32 \<Rightarrow> u32 \<Rightarrow> u32 \<Rightarrow> 'w \<Rightarrow> (int \<times> 'w) option" where
  "poll io reg stop timeout step waited w =
     (let (v, w) = io_rd io reg w in
      if stop v then Some (NV_OK, w)
      else if waited \<ge> timeout then Some (NV_ERR_TIMEOUT, w)
      else poll io reg stop timeout step (waited + step) (io_udelay io step w))"

declare poll.simps [code]

section \<open>Basic primitives\<close>

definition nv_falcon_reset_engine :: "'w mmio \<Rightarrow> u32 \<Rightarrow> 'w \<Rightarrow> 'w" where
  "nv_falcon_reset_engine io base w =
     (let eng = PFALCON base NV_PFALCON_FALCON_ENGINE_OFF;
          (v, w) = io_rd io eng w;
          w = io_wr io eng (v OR NV_PFALCON_ENGINE_RESET) w;
          w = io_udelay io 10 w;
          (v, w) = io_rd io eng w;
          w = io_wr io eng (v AND NOT NV_PFALCON_ENGINE_RESET) w
      in io_udelay io 10 w)"

definition nv_falcon_wait_mem_scrubbing :: "'w mmio \<Rightarrow> u32 \<Rightarrow> u32 \<Rightarrow> 'w \<Rightarrow> (int \<times> 'w) option" where
  "nv_falcon_wait_mem_scrubbing io base timeout_us =
     poll io (PFALCON base NV_PFALCON_FALCON_HWCFG2_OFF)
       (\<lambda>v. v AND NV_PFALCON_HWCFG2_MEM_SCRUBBING = 0) timeout_us NV_POLL_STEP_US 0"

definition nv_falcon_start :: "'w mmio \<Rightarrow> u32 \<Rightarrow> 'w \<Rightarrow> 'w" where
  "nv_falcon_start io base w =
     (let cpuctl = PFALCON base NV_PFALCON_FALCON_CPUCTL_OFF;
          (v, w) = io_rd io cpuctl w in
      if v AND NV_PFALCON_CPUCTL_ALIAS_EN \<noteq> 0
      then io_wr io (PFALCON base NV_PFALCON_FALCON_CPUCTL_ALIAS_OFF) NV_PFALCON_CPUCTL_ALIAS_STARTCPU w
      else io_wr io cpuctl NV_PFALCON_CPUCTL_STARTCPU w)"

definition nv_falcon_wait_halted :: "'w mmio \<Rightarrow> u32 \<Rightarrow> u32 \<Rightarrow> 'w \<Rightarrow> (int \<times> 'w) option" where
  "nv_falcon_wait_halted io base timeout_us =
     poll io (PFALCON base NV_PFALCON_FALCON_CPUCTL_OFF)
       (\<lambda>v. v AND NV_PFALCON_CPUCTL_HALTED \<noteq> 0) timeout_us NV_POLL_STEP_US 0"

definition nv_falcon_write_mailbox0 :: "'w mmio \<Rightarrow> u32 \<Rightarrow> u32 \<Rightarrow> 'w \<Rightarrow> 'w" where
  "nv_falcon_write_mailbox0 io base v = io_wr io (PFALCON base NV_PFALCON_FALCON_MAILBOX0_OFF) v"

definition nv_falcon_write_mailbox1 :: "'w mmio \<Rightarrow> u32 \<Rightarrow> u32 \<Rightarrow> 'w \<Rightarrow> 'w" where
  "nv_falcon_write_mailbox1 io base v = io_wr io (PFALCON base NV_PFALCON_FALCON_MAILBOX1_OFF) v"

definition nv_falcon_read_mailbox0 :: "'w mmio \<Rightarrow> u32 \<Rightarrow> 'w \<Rightarrow> u32 \<times> 'w" where
  "nv_falcon_read_mailbox0 io base = io_rd io (PFALCON base NV_PFALCON_FALCON_MAILBOX0_OFF)"

definition nv_falcon_read_mailbox1 :: "'w mmio \<Rightarrow> u32 \<Rightarrow> 'w \<Rightarrow> u32 \<times> 'w" where
  "nv_falcon_read_mailbox1 io base = io_rd io (PFALCON base NV_PFALCON_FALCON_MAILBOX1_OFF)"

text \<open>
  The pairs \<open>set_mbox, mbox\<close> are options.  The result holds the return code and the
  mailbox 0 read after the run (every caller passes \<open>out_mbox0\<close>).
\<close>

definition nv_falcon_boot ::
  "'w mmio \<Rightarrow> u32 \<Rightarrow> u32 option \<Rightarrow> u32 option \<Rightarrow> u32 \<Rightarrow> 'w \<Rightarrow> (int \<times> u32 \<times> 'w) option" where
  "nv_falcon_boot io base mbox0 mbox1 timeout_us w =
     (let w = (case mbox0 of Some v \<Rightarrow> nv_falcon_write_mailbox0 io base v w | None \<Rightarrow> w);
          w = (case mbox1 of Some v \<Rightarrow> nv_falcon_write_mailbox1 io base v w | None \<Rightarrow> w);
          w = nv_falcon_start io base w
      in do { (rc, w) \<leftarrow> nv_falcon_wait_halted io base timeout_us w;
              let (v, w) = nv_falcon_read_mailbox0 io base w in Some (rc, v, w) })"

section \<open>GA102 and Ada\<close>

definition nv_falcon_select_core_ga102 :: "'w mmio \<Rightarrow> u32 \<Rightarrow> u32 \<Rightarrow> 'w \<Rightarrow> (int \<times> 'w) option" where
  "nv_falcon_select_core_ga102 io falcon2_base timeout_us w =
     (let bcr = PFALCON falcon2_base NV_PRISCV_RISCV_BCR_CTRL_OFF;
          (v, w) = io_rd io bcr w in
      if v AND push_bit 4 1 \<noteq> 0
      then poll io bcr (\<lambda>v. v AND 1 \<noteq> 0) timeout_us NV_POLL_STEP_US 0 (io_wr io bcr 0 w)
      else Some (NV_OK, w))"

definition nv_falcon_program_brom_ga102 ::
  "'w mmio \<Rightarrow> u32 \<Rightarrow> u32 \<Rightarrow> u16 \<Rightarrow> u8 \<Rightarrow> 'w \<Rightarrow> 'w" where
  "nv_falcon_program_brom_ga102 io falcon2_base pkc_data_offset engine_id_mask ucode_id w =
     (let w = io_wr io (PFALCON falcon2_base NV_PFALCON2_FALCON_BROM_PARAADDR_OFF) pkc_data_offset w;
          w = io_wr io (PFALCON falcon2_base NV_PFALCON2_FALCON_BROM_ENGIDMASK_OFF) (ucast engine_id_mask) w;
          w = io_wr io (PFALCON falcon2_base NV_PFALCON2_FALCON_BROM_CURR_UCODE_ID_OFF) (ucast ucode_id) w
      in io_wr io (PFALCON falcon2_base NV_PFALCON2_FALCON_MOD_SEL_OFF) 1 w)"

text \<open>The loop \<open>for (b = 15; b >= 0; b--) if (reg & (1u << b)) ...\<close>, 1-based result.\<close>

fun high_bit :: "nat \<Rightarrow> u16 \<Rightarrow> u32" where
  "high_bit 0 reg = 0"
| "high_bit (Suc b) reg = (if (ucast reg :: u32) AND push_bit b 1 \<noteq> 0 then of_nat b + 1 else high_bit b reg)"

definition nv_falcon_signature_fuse_version_ga102 ::
  "'w mmio \<Rightarrow> u16 \<Rightarrow> u8 \<Rightarrow> 'w \<Rightarrow> int \<times> u32 \<times> 'w" where
  "nv_falcon_signature_fuse_version_ga102 io engine_id_mask ucode_id w =
     (if ucode_id < 1 \<or> ucast ucode_id > NV_FUSE_OPT_FPF_SIZE then (NV_ERR_STATE, 0, w)
      else
        let idx = ucast ucode_id - 1;
            base = (if ucast engine_id_mask AND NV_FALCON_ENGINE_ID_SEC2 \<noteq> 0
                    then Some NV_FUSE_OPT_FPF_SEC2_UCODE1_VERSION
                    else if ucast engine_id_mask AND NV_FALCON_ENGINE_ID_NVDEC \<noteq> 0
                    then Some NV_FUSE_OPT_FPF_NVDEC_UCODE1_VERSION
                    else if ucast engine_id_mask AND NV_FALCON_ENGINE_ID_GSP \<noteq> 0
                    then Some NV_FUSE_OPT_FPF_GSP_UCODE1_VERSION else None)
        in case base of
             None \<Rightarrow> (NV_ERR_STATE, 0, w)
           | Some reg_base \<Rightarrow>
               let (v, w) = io_rd io (reg_base + idx * 4) w;
                   reg = ucast (v AND 0xFFFF)
               in (NV_OK, high_bit 16 reg, w))"

definition nv_falcon_reset_ga102 ::
  "'w mmio \<Rightarrow> u32 \<Rightarrow> u32 \<Rightarrow> u32 \<Rightarrow> u32 \<Rightarrow> 'w \<Rightarrow> (int \<times> 'w) option" where
  "nv_falcon_reset_ga102 io base falcon2_base boot0 timeout_us w =
     (let hwcfg2 = PFALCON base NV_PFALCON_FALCON_HWCFG2_OFF;
          (_, w) = io_rd io hwcfg2 w in
      do { (_, w) \<leftarrow> poll io hwcfg2 (\<lambda>v. v AND NV_PFALCON_HWCFG2_RESET_READY \<noteq> 0) 150 10 0 w;
           let w = nv_falcon_reset_engine io base w in
           do { (rc, w) \<leftarrow> nv_falcon_wait_mem_scrubbing io base timeout_us w;
                if rc \<noteq> NV_OK then Some (rc, w)
                else do { (rc, w) \<leftarrow> nv_falcon_select_core_ga102 io falcon2_base timeout_us w;
                          if rc \<noteq> NV_OK then Some (rc, w)
                          else do { (rc, w) \<leftarrow> nv_falcon_wait_mem_scrubbing io base timeout_us w;
                                    if rc \<noteq> NV_OK then Some (rc, w)
                                    else Some (NV_OK, io_wr io (PFALCON base NV_PFALCON_FALCON_RM_OFF) boot0 w) } } } })"

section \<open>DMA load\<close>

definition nv_falcon_dma_reset :: "'w mmio \<Rightarrow> u32 \<Rightarrow> 'w \<Rightarrow> 'w" where
  "nv_falcon_dma_reset io base w =
     (let ctl = PFALCON base NV_PFALCON_FBIF_CTL_OFF;
          (v, w) = io_rd io ctl w;
          w = io_wr io ctl (v OR NV_PFALCON_FBIF_CTL_ALLOW_PHYS_NO_CTX) w
      in io_wr io (PFALCON base NV_PFALCON_FALCON_DMACTL_OFF) 0 w)"

text \<open>One 256-byte block; the loop stops with the first time-out.\<close>

definition dma_wr_block ::
  "'w mmio \<Rightarrow> u32 \<Rightarrow> nv_dma_load_target_t \<Rightarrow> u32 \<Rightarrow> u32 \<Rightarrow> u32 \<Rightarrow> u32 \<Rightarrow> int \<times> 'w \<Rightarrow> (int \<times> 'w) option" where
  "dma_wr_block io base t fb_src cmd timeout_us i = (\<lambda>(rc, w).
     if rc \<noteq> NV_OK then Some (rc, w)
     else let pos = i * NV_DMA_BLOCK;
              trfcmd = PFALCON base NV_PFALCON_FALCON_DMATRFCMD_OFF;
              w = io_wr io (PFALCON base NV_PFALCON_FALCON_DMATRFMOFFS_OFF) (lt_dst_start t + pos) w;
              w = io_wr io (PFALCON base NV_PFALCON_FALCON_DMATRFFBOFFS_OFF) (fb_src + pos) w;
              w = io_wr io trfcmd cmd w
          in poll io trfcmd (\<lambda>v. v AND NV_PFALCON_DMATRFCMD_IDLE \<noteq> 0) timeout_us NV_POLL_STEP_US 0 w)"

definition nv_falcon_dma_wr ::
  "'w mmio \<Rightarrow> u32 \<Rightarrow> u64 \<Rightarrow> int \<Rightarrow> nv_dma_load_target_t \<Rightarrow> u32 \<Rightarrow> 'w \<Rightarrow> (int \<times> 'w) option" where
  "nv_falcon_dma_wr io base dma_addr target_mem t timeout_us w =
     (let is_imem = (target_mem \<noteq> NV_FALCON_MEM_DMEM);
          secure = (target_mem = NV_FALCON_MEM_IMEM_SECURE);
          fb_src = (if is_imem then lt_src_start t else 0);
          dma_start = (if is_imem then dma_addr else dma_addr + ucast (lt_src_start t)) in
      if dma_start mod ucast NV_DMA_BLOCK \<noteq> 0 then Some (NV_ERR_STATE, w)
      else
        let num = (lt_len t + NV_DMA_BLOCK - 1) div NV_DMA_BLOCK;
            w = io_wr io (PFALCON base NV_PFALCON_FALCON_DMATRFBASE_OFF) (ucast (drop_bit 8 dma_start)) w;
            w = io_wr io (PFALCON base NV_PFALCON_FALCON_DMATRFBASE1_OFF)
                  (ucast (drop_bit 40 dma_start AND 0x1FF)) w;
            cmd = push_bit 8 NV_DMA_TRF_CMD_SIZE_256B
                  OR (if is_imem then NV_PFALCON_DMATRFCMD_IMEM else 0)
                  OR push_bit 2 (if secure then 1 else 0)
        in for_upto 1 num (dma_wr_block io base t fb_src cmd timeout_us) 0 (NV_OK, w))"

definition nv_falcon_dma_load_ga102 ::
  "'w mmio \<Rightarrow> u32 \<Rightarrow> u32 \<Rightarrow> u64 \<Rightarrow> nv_dma_load_target_t \<Rightarrow> nv_dma_load_target_t \<Rightarrow> u32 \<Rightarrow> u16 \<Rightarrow> u8 \<Rightarrow>
   u32 \<Rightarrow> u32 \<Rightarrow> 'w \<Rightarrow> (int \<times> 'w) option" where
  "nv_falcon_dma_load_ga102 io base falcon2_base dma_addr imem_sec dmem pkc_data_offset engine_id_mask
     ucode_id boot_addr timeout_us w =
     (let w = nv_falcon_dma_reset io base w;
          tc = PFALCON base NV_PFALCON_FBIF_TRANSCFG_OFF;
          (v, w) = io_rd io tc w;
          v = v AND NOT 7;
          v = v OR (push_bit 2 NV_FBIF_MEM_TYPE_PHYSICAL OR NV_FBIF_TARGET_COHERENT_SYSMEM);
          w = io_wr io tc v w
      in do { (rc, w) \<leftarrow> nv_falcon_dma_wr io base dma_addr NV_FALCON_MEM_IMEM_SECURE imem_sec timeout_us w;
              if rc \<noteq> NV_OK then Some (rc, w)
              else do { (rc, w) \<leftarrow> nv_falcon_dma_wr io base dma_addr NV_FALCON_MEM_DMEM dmem timeout_us w;
                        if rc \<noteq> NV_OK then Some (rc, w)
                        else let w = nv_falcon_program_brom_ga102 io falcon2_base pkc_data_offset
                                       engine_id_mask ucode_id w
                             in Some (NV_OK, io_wr io (PFALCON base NV_PFALCON_FALCON_BOOTVEC_OFF) boot_addr w) } })"

section \<open>Result registers and the RISC-V core\<close>

definition nv_wpr2_is_set :: "'w mmio \<Rightarrow> 'w \<Rightarrow> bool \<times> u64 \<times> u64 \<times> 'w" where
  "nv_wpr2_is_set io w =
     (let (lo, w) = io_rd io NV_PFB_PRI_MMU_WPR2_ADDR_LO w;
          (hi, w) = io_rd io NV_PFB_PRI_MMU_WPR2_ADDR_HI w
      in (drop_bit 4 hi \<noteq> 0, nv_wpr2_bound_from_reg lo, nv_wpr2_bound_from_reg hi, w))"

definition nv_gfw_boot_completed :: "'w mmio \<Rightarrow> 'w \<Rightarrow> bool \<times> 'w" where
  "nv_gfw_boot_completed io w =
     (let (v, w) = io_rd io NV_PGC6_AON_SECURE_SCRATCH_GROUP_05_0_GFW_BOOT w
      in (v AND 0xFF = NV_GFW_BOOT_PROGRESS_COMPLETED, w))"

definition nv_gfw_boot_raw :: "'w mmio \<Rightarrow> 'w \<Rightarrow> u32 \<times> 'w" where
  "nv_gfw_boot_raw io = io_rd io NV_PGC6_AON_SECURE_SCRATCH_GROUP_05_0_GFW_BOOT"

definition nv_falcon_gsp_reset_riscv :: "'w mmio \<Rightarrow> u32 \<Rightarrow> u32 \<Rightarrow> u32 \<Rightarrow> 'w \<Rightarrow> (int \<times> 'w) option" where
  "nv_falcon_gsp_reset_riscv io base falcon2_base timeout_us w =
     do { (rc, w) \<leftarrow> nv_falcon_wait_mem_scrubbing io base timeout_us (nv_falcon_reset_engine io base w);
          if rc \<noteq> NV_OK then Some (rc, w)
          else let bcr = PFALCON falcon2_base NV_PRISCV_RISCV_BCR_CTRL_OFF;
                   (v, w) = io_rd io bcr w
               in Some (NV_OK, io_wr io bcr ((v AND NOT 0x111) OR 0x111) w) }"

definition nv_falcon_riscv_active :: "'w mmio \<Rightarrow> u32 \<Rightarrow> 'w \<Rightarrow> bool \<times> 'w" where
  "nv_falcon_riscv_active io falcon2_base w =
     (let (v, w) = io_rd io (PFALCON falcon2_base NV_PRISCV_RISCV_CPUCTL_OFF) w
      in (v AND push_bit 7 1 \<noteq> 0, w))"

definition nv_falcon_write_os_version :: "'w mmio \<Rightarrow> u32 \<Rightarrow> u32 \<Rightarrow> 'w \<Rightarrow> 'w" where
  "nv_falcon_write_os_version io base app_version = io_wr io (PFALCON base NV_PFALCON_FALCON_OS_OFF) app_version"

definition nv_wait_gfw_boot_completed :: "'w mmio \<Rightarrow> u32 \<Rightarrow> 'w \<Rightarrow> (int \<times> 'w) option" where
  "nv_wait_gfw_boot_completed io timeout_us =
     poll io NV_PGC6_AON_SECURE_SCRATCH_GROUP_05_0_GFW_BOOT
       (\<lambda>v. v AND 0xFF = NV_GFW_BOOT_PROGRESS_COMPLETED) timeout_us 1000 0"

section \<open>The polling loop\<close>

text \<open>The hardware state at the \<open>k\<close>-th read of a poll, and the value that read gives.\<close>

primrec poll_at :: "'w mmio \<Rightarrow> u32 \<Rightarrow> u32 \<Rightarrow> nat \<Rightarrow> 'w \<Rightarrow> 'w" where
  "poll_at io reg step 0 w = w"
| "poll_at io reg step (Suc k) w = poll_at io reg step k (io_udelay io step (snd (io_rd io reg w)))"

definition poll_reads :: "u32 \<Rightarrow> u32 \<Rightarrow> nat" where
  "poll_reads timeout step = (unat timeout + unat step - 1) div unat step"

lemma poll_from:
  fixes step timeout :: u32
  assumes step: "0 < unat step" and fit: "unat timeout + unat step \<le> 2 ^ 32"
  shows "k \<le> poll_reads timeout step \<Longrightarrow>
    poll io reg stop timeout step (of_nat k * step) w =
      (let n = poll_reads timeout step - k;
           done = (\<lambda>j. stop (fst (io_rd io reg (poll_at io reg step j w)))) in
       if \<exists>j\<le>n. done j
       then Some (NV_OK, snd (io_rd io reg (poll_at io reg step (LEAST j. done j) w)))
       else Some (NV_ERR_TIMEOUT, snd (io_rd io reg (poll_at io reg step n w))))"
proof (induction "poll_reads timeout step - k" arbitrary: k w)
  case (0 k w)
  then have k: "k = poll_reads timeout step" by simp
  have lo: "unat timeout \<le> k * unat step" and hi: "k * unat step < unat timeout + unat step"
    using roundup_ge [OF step, of "unat timeout"] roundup_less [OF step, of "unat timeout"]
    unfolding k poll_reads_def roundup_def by auto
  then have u: "unat (of_nat k * step) = k * unat step"
    using fit unat_of_nat [of "k * unat step", where 'a = 32] by simp
  have "timeout \<le> of_nat k * step" using lo u by (simp add: word_le_nat_alt)
  then show ?case unfolding k
    by (subst poll.simps) (auto simp: Let_def split: prod.splits)
next
  case (Suc n k w)
  let ?N = "poll_reads timeout step"
  let ?w = "io_udelay io step (snd (io_rd io reg w))"
  let ?done = "\<lambda>w j. stop (fst (io_rd io reg (poll_at io reg step j w)))"
  have kN: "Suc k \<le> ?N" and nk: "?N - k = Suc (?N - Suc k)" using Suc.hyps(2) by auto
  have "k * unat step < unat timeout"
  proof -
    have "Suc k * unat step \<le> ?N * unat step" using kN by (rule mult_le_mono1)
    also have "\<dots> < unat timeout + unat step"
      using roundup_less [OF step, of "unat timeout"] unfolding poll_reads_def roundup_def .
    finally show ?thesis by simp
  qed
  moreover from this have "unat (of_nat k * step) = k * unat step"
    using u32_less [of timeout] unat_of_nat [of "k * unat step", where 'a = 32] by simp
  ultimately have lt: "\<not> timeout \<le> of_nat k * step" by (simp add: word_le_nat_alt)
  have IH: "poll io reg stop timeout step (of_nat (Suc k) * step) ?w =
      (if \<exists>j\<le>?N - Suc k. ?done ?w j
       then Some (NV_OK, snd (io_rd io reg (poll_at io reg step (LEAST j. ?done ?w j) ?w)))
       else Some (NV_ERR_TIMEOUT, snd (io_rd io reg (poll_at io reg step (?N - Suc k) ?w))))"
    using Suc.hyps(1) [of "Suc k" ?w] Suc.hyps(2) kN by (simp add: Let_def)
  have un: "poll io reg stop timeout step (of_nat k * step) w =
      (if stop (fst (io_rd io reg w)) then Some (NV_OK, snd (io_rd io reg w))
       else poll io reg stop timeout step (of_nat (Suc k) * step) ?w)"
    using lt by (subst poll.simps) (simp add: case_prod_beta Let_def algebra_simps)
  show ?case
  proof (cases "stop (fst (io_rd io reg w))")
    case True
    then have "(LEAST j. ?done w j) = 0" by (intro Least_equality) auto
    moreover have "\<exists>j\<le>?N - k. ?done w j" using True by (intro exI [of _ 0]) simp
    ultimately show ?thesis unfolding un using True by (simp add: Let_def)
  next
    case False
    have ex: "(\<exists>j\<le>?N - k. ?done w j) \<longleftrightarrow> (\<exists>j\<le>?N - Suc k. ?done ?w j)"
    proof
      assume "\<exists>j\<le>?N - k. ?done w j"
      then obtain j where j: "j \<le> ?N - k" "?done w j" by auto
      with False obtain i where "j = Suc i" by (cases j) auto
      with j nk show "\<exists>j\<le>?N - Suc k. ?done ?w j" by auto
    next
      assume "\<exists>j\<le>?N - Suc k. ?done ?w j"
      then obtain j where "j \<le> ?N - Suc k" "?done w (Suc j)" by auto
      then show "\<exists>j\<le>?N - k. ?done w j" using nk by (metis Suc_le_mono)
    qed
    have least: "(LEAST j. ?done w j) = Suc (LEAST j. ?done ?w j)" if "\<exists>j. ?done ?w j"
    proof -
      obtain j where "?done ?w j" using \<open>\<exists>j. ?done ?w j\<close> by auto
      then have "?done w (Suc j)" by simp
      then have "(LEAST j. ?done w j) = Suc (LEAST j. ?done w (Suc j))"
        using Least_Suc [of "?done w" "Suc j"] False by simp
      then show ?thesis by simp
    qed
    show ?thesis
    proof (cases "\<exists>j\<le>?N - Suc k. ?done ?w j")
      case True
      then have e: "\<exists>j. ?done ?w j" and e': "\<exists>j\<le>?N - k. ?done w j" using ex by blast+
      show ?thesis
        unfolding un IH Let_def if_P [OF True] if_P [OF e'] if_not_P [OF False] least [OF e] by simp
    next
      case no: False
      then have "\<not> (\<exists>j\<le>?N - k. ?done w j)" using ex by blast
      then show ?thesis unfolding un IH Let_def if_not_P [OF no] if_not_P [OF False] nk by simp
    qed
  qed
qed

lemma poll_spec:
  fixes step timeout :: u32
  assumes "0 < unat step" "unat timeout + unat step \<le> 2 ^ 32"
  shows "poll io reg stop timeout step 0 w =
      (let n = poll_reads timeout step;
           done = (\<lambda>j. stop (fst (io_rd io reg (poll_at io reg step j w)))) in
       if \<exists>j\<le>n. done j
       then Some (NV_OK, snd (io_rd io reg (poll_at io reg step (LEAST j. done j) w)))
       else Some (NV_ERR_TIMEOUT, snd (io_rd io reg (poll_at io reg step n w))))"
  using poll_from [OF assms, of 0 io reg stop w, OF le0]
  by (simp only: semiring_1_class.of_nat_0 mult_zero_left diff_zero)

text \<open>
  C26. A poll always returns.  It makes at most \<open>ceil (timeout / step) + 1\<close> reads;
  it succeeds exactly when one of them shows the awaited condition, and then it stops at the first
  such read.  The bound on the time-out says that the counter does not wrap.
\<close>

theorem nv_falcon_wait_halted_exact:
  fixes io :: "'w mmio" and base timeout :: u32 and w :: 'w
  assumes "unat timeout + 10 \<le> 2 ^ 32"
  defines "halted \<equiv> \<lambda>j. fst (io_rd io (base + NV_PFALCON_FALCON_CPUCTL_OFF)
     (poll_at io (base + NV_PFALCON_FALCON_CPUCTL_OFF) 10 j w)) AND NV_PFALCON_CPUCTL_HALTED \<noteq> 0"
  shows "\<exists>rc w'. nv_falcon_wait_halted io base timeout w = Some (rc, w')
     \<and> (rc = NV_OK \<longleftrightarrow> (\<exists>j \<le> (unat timeout + 9) div 10. halted j))
     \<and> (rc \<noteq> NV_OK \<longrightarrow> rc = NV_ERR_TIMEOUT)
     \<and> (\<forall>j. halted j \<and> (\<forall>i<j. \<not> halted i) \<and> rc = NV_OK \<longrightarrow>
          w' = snd (io_rd io (base + NV_PFALCON_FALCON_CPUCTL_OFF)
                     (poll_at io (base + NV_PFALCON_FALCON_CPUCTL_OFF) 10 j w)))"
proof -
  have least: "(LEAST j. halted j) = j" if "halted j" "\<forall>i<j. \<not> halted i" for j
    using that by (intro Least_equality) (auto simp: not_less [symmetric])
  have n: "poll_reads timeout 10 = (unat timeout + 9) div 10" by (simp add: poll_reads_def)
  have "nv_falcon_wait_halted io base timeout w =
     (if \<exists>j\<le>(unat timeout + 9) div 10. halted j
      then Some (NV_OK, snd (io_rd io (base + NV_PFALCON_FALCON_CPUCTL_OFF)
        (poll_at io (base + NV_PFALCON_FALCON_CPUCTL_OFF) 10 (LEAST j. halted j) w)))
      else Some (NV_ERR_TIMEOUT, snd (io_rd io (base + NV_PFALCON_FALCON_CPUCTL_OFF)
        (poll_at io (base + NV_PFALCON_FALCON_CPUCTL_OFF) 10 ((unat timeout + 9) div 10) w))))"
    unfolding nv_falcon_wait_halted_def halted_def n [symmetric]
    using poll_spec [of 10 timeout io "base + NV_PFALCON_FALCON_CPUCTL_OFF"
        "\<lambda>v. v AND NV_PFALCON_CPUCTL_HALTED \<noteq> 0" w] assms(1)
    by (simp only: Let_def) simp
  then show ?thesis using least by (auto split: if_splits)
qed

definition demo_port :: "nat mmio" where
  "demo_port = \<lparr> io_rd = (\<lambda>r w. (if 3 \<le> w then 0xFFFFFFFF else 0, w)), io_wr = (\<lambda>r v w. w),
                 io_udelay = (\<lambda>d w. Suc w) \<rparr>"

theorem nv_falcon_wait_halted_witness:
  "\<exists>w'. nv_falcon_wait_halted demo_port 0x110000 100 0 = Some (NV_OK, w')"
proof -
  let ?r = "0x110000 + NV_PFALCON_FALCON_CPUCTL_OFF"
  have h: "fst (io_rd demo_port ?r (poll_at demo_port ?r 10 3 0)) AND NV_PFALCON_CPUCTL_HALTED \<noteq> 0"
    by code_simp
  have le: "(3::nat) \<le> (unat (100 :: u32) + 9) div 10" by simp
  have fit: "unat (100 :: u32) + 10 \<le> 2 ^ 32" by simp
  obtain rc w' where "nv_falcon_wait_halted demo_port 0x110000 100 0 = Some (rc, w')"
    and "rc = NV_OK \<longleftrightarrow> (\<exists>j \<le> (unat (100 :: u32) + 9) div 10.
      fst (io_rd demo_port ?r (poll_at demo_port ?r 10 j 0)) AND NV_PFALCON_CPUCTL_HALTED \<noteq> 0)"
    using nv_falcon_wait_halted_exact [OF fit, of demo_port "0x110000" 0] by blast
  with h le show ?thesis by blast
qed

section \<open>What the functions write\<close>

definition poll_fits :: "u32 \<Rightarrow> u32 \<Rightarrow> bool" where
  "poll_fits timeout step \<longleftrightarrow> 0 < unat step \<and> unat timeout + unat step \<le> 2 ^ 32"

definition dma_block :: "u32 \<Rightarrow> u32 \<Rightarrow> u32 \<Rightarrow> u32 \<Rightarrow> nat \<Rightarrow> reg_write list" where
  "dma_block base dst src cmd i =
     [(base + NV_PFALCON_FALCON_DMATRFMOFFS_OFF, dst + of_nat i * NV_DMA_BLOCK),
      (base + NV_PFALCON_FALCON_DMATRFFBOFFS_OFF, src + of_nat i * NV_DMA_BLOCK),
      (base + NV_PFALCON_FALCON_DMATRFCMD_OFF, cmd)]"

definition dma_base :: "u32 \<Rightarrow> u64 \<Rightarrow> reg_write list" where
  "dma_base base start =
     [(base + NV_PFALCON_FALCON_DMATRFBASE_OFF, ucast (drop_bit 8 start)),
      (base + NV_PFALCON_FALCON_DMATRFBASE1_OFF, ucast (drop_bit 40 start AND 0x1FF))]"

text \<open>The transfer a load asks for: DMA start address, offset in the source, command word.\<close>

definition dma_plan :: "u64 \<Rightarrow> int \<Rightarrow> nv_dma_load_target_t \<Rightarrow> u64 \<times> u32 \<times> u32" where
  "dma_plan addr mem t =
     (if mem = NV_FALCON_MEM_DMEM then (addr + ucast (lt_src_start t), 0, 0x600)
      else (addr, lt_src_start t, if mem = NV_FALCON_MEM_IMEM_SECURE then 0x614 else 0x610))"

definition dma_blocks :: "u32 \<Rightarrow> u64 \<Rightarrow> int \<Rightarrow> nv_dma_load_target_t \<Rightarrow> nat \<Rightarrow> reg_write list" where
  "dma_blocks base addr mem t n = (case dma_plan addr mem t of (start, src, cmd) \<Rightarrow>
     dma_base base start @ concat (map (dma_block base (lt_dst_start t) src cmd) [0..<n]))"

definition dma_count :: "nv_dma_load_target_t \<Rightarrow> nat" where
  "dma_count t = (unat (lt_len t) + 255) div 256"

context logged_port
begin

lemma poll_at_log: "wlog (poll_at io reg step k w) = wlog w"
  by (induction k arbitrary: w) (simp_all add: log_simps log_rd_snd)

lemma poll_ends:
  assumes "poll_fits timeout step"
  shows "\<exists>rc w'. poll io reg stop timeout step 0 w = Some (rc, w') \<and> wlog w' = wlog w
    \<and> (rc = NV_OK \<or> rc = NV_ERR_TIMEOUT)"
  using assms poll_spec [of step timeout io reg stop w] unfolding poll_fits_def Let_def
  by (auto simp: log_rd_snd poll_at_log)

lemma dma_num: "unat (lt_len t) + 255 < 2 ^ 32 \<Longrightarrow>
  unat ((lt_len t + NV_DMA_BLOCK - 1) div NV_DMA_BLOCK) = dma_count t"
proof -
  assume a: "unat (lt_len t) + 255 < 2 ^ 32"
  have e: "lt_len t + NV_DMA_BLOCK - 1 = lt_len t + 255" by simp
  have "unat (lt_len t + 255) = unat (lt_len t) + 255"
    using unat_add_small [of "lt_len t" "255"] a by simp
  then show ?thesis unfolding e by (simp add: unat_div dma_count_def)
qed

lemma dma_loop:
  assumes fit: "poll_fits timeout NV_POLL_STEP_US" and num: "unat num \<le> 2 ^ 24"
  shows "\<exists>rc w' m. for_upto 1 num (dma_wr_block io base t src cmd timeout) 0 (NV_OK, w) = Some (rc, w')
    \<and> wlog w' = wlog w @ concat (map (dma_block base (lt_dst_start t) src cmd) [0..<m])
    \<and> (rc = NV_OK \<and> m = unat num \<or> rc = NV_ERR_TIMEOUT \<and> 0 < m \<and> m \<le> unat num)"
proof -
  let ?P = "\<lambda>k (rc, w'). \<exists>m. wlog w' = wlog w @ concat (map (dma_block base (lt_dst_start t) src cmd) [0..<m])
    \<and> (rc = NV_OK \<and> m = k \<or> rc = NV_ERR_TIMEOUT \<and> 0 < m \<and> m \<le> k)"
  have step: "\<exists>s'. dma_wr_block io base t src cmd timeout (of_nat k * 1) s = Some s' \<and> ?P (Suc k) s'"
    if "?P k s" for k s
  proof (cases s)
    case (Pair rc w1)
    show ?thesis
    proof (cases "rc = NV_OK")
      case True
      then have l: "wlog w1 = wlog w @ concat (map (dma_block base (lt_dst_start t) src cmd) [0..<k])"
        using \<open>?P k s\<close> Pair by auto
      let ?trf = "base + NV_PFALCON_FALCON_DMATRFCMD_OFF"
      let ?w = "io_wr io ?trf cmd (io_wr io (base + NV_PFALCON_FALCON_DMATRFFBOFFS_OFF) (src + of_nat k * NV_DMA_BLOCK)
        (io_wr io (base + NV_PFALCON_FALCON_DMATRFMOFFS_OFF) (lt_dst_start t + of_nat k * NV_DMA_BLOCK) w1))"
      obtain rc' w2 where w2: "poll io ?trf (\<lambda>v. v AND NV_PFALCON_DMATRFCMD_IDLE \<noteq> 0) timeout NV_POLL_STEP_US 0 ?w = Some (rc', w2)"
        "wlog w2 = wlog ?w" "rc' = NV_OK \<or> rc' = NV_ERR_TIMEOUT"
        using poll_ends [OF fit, of ?trf "\<lambda>v. v AND NV_PFALCON_DMATRFCMD_IDLE \<noteq> 0" ?w] by blast
      have "dma_wr_block io base t src cmd timeout (of_nat k * 1) s = Some (rc', w2)"
        using w2(1) True Pair by (simp add: dma_wr_block_def Let_def)
      moreover have "wlog w2 = wlog w @ concat (map (dma_block base (lt_dst_start t) src cmd) [0..<Suc k])"
        using w2(2) l by (simp add: log_simps dma_block_def)
      ultimately show ?thesis using w2(3)
        by (intro exI [of _ "(rc', w2)"] conjI) (simp_all only: prod.case, intro exI [of _ "Suc k"], simp)
    next
      case False
      then show ?thesis using \<open>?P k s\<close> Pair by (auto simp: dma_wr_block_def intro: le_SucI)
    qed
  qed
  have "\<exists>s'. for_upto 1 num (dma_wr_block io base t src cmd timeout) 0 (NV_OK, w) = Some s' \<and> ?P (unat num) s'"
    by (rule for_upto_inv) (use num step in auto)
  then show ?thesis by auto
qed

lemma dma_wr_log:
  assumes fit: "poll_fits timeout NV_POLL_STEP_US" and len: "unat (lt_len t) + 255 < 2 ^ 32"
    and "fst (dma_plan addr mem t) mod 256 = 0"
  shows "\<exists>rc w' m. nv_falcon_dma_wr io base addr mem t timeout w = Some (rc, w')
    \<and> wlog w' = wlog w @ dma_blocks base addr mem t m
    \<and> (rc = NV_OK \<and> m = dma_count t \<or> rc = NV_ERR_TIMEOUT \<and> 0 < m \<and> m \<le> dma_count t)"
proof -
  let ?num = "(lt_len t + NV_DMA_BLOCK - 1) div NV_DMA_BLOCK"
  obtain start src cmd where p: "dma_plan addr mem t = (start, src, cmd)" by (cases "dma_plan addr mem t") auto
  have d: "start mod 256 = 0" using assms(3) p by simp
  let ?w = "io_wr io (base + NV_PFALCON_FALCON_DMATRFBASE1_OFF) (ucast (drop_bit 40 start AND 0x1FF))
    (io_wr io (base + NV_PFALCON_FALCON_DMATRFBASE_OFF) (ucast (drop_bit 8 start)) w)"
  have eq: "nv_falcon_dma_wr io base addr mem t timeout w =
      for_upto 1 ?num (dma_wr_block io base t src cmd timeout) 0 (NV_OK, ?w)"
    using p d by (auto simp: nv_falcon_dma_wr_def Let_def dma_plan_def split: if_splits)
  have n: "unat ?num = dma_count t" using len by (rule dma_num)
  have "dma_count t \<le> 2 ^ 24" using len by (simp add: dma_count_def)
  then obtain rc w' m where "nv_falcon_dma_wr io base addr mem t timeout w = Some (rc, w')"
    "wlog w' = wlog ?w @ concat (map (dma_block base (lt_dst_start t) src cmd) [0..<m])"
    "rc = NV_OK \<and> m = dma_count t \<or> rc = NV_ERR_TIMEOUT \<and> 0 < m \<and> m \<le> dma_count t"
    using dma_loop [OF fit, of ?num base t src cmd ?w] unfolding eq n by auto
  then show ?thesis using p by (auto simp: dma_blocks_def dma_base_def log_simps)
qed

lemma dma_wr_misaligned:
  "fst (dma_plan addr mem t) mod 256 \<noteq> 0 \<Longrightarrow>
   nv_falcon_dma_wr io base addr mem t timeout w = Some (NV_ERR_STATE, w)"
  by (auto simp: nv_falcon_dma_wr_def Let_def dma_plan_def split: if_splits)

end



context logged_port
begin

lemma reset_engine_log:
  "\<exists>a b. wlog (nv_falcon_reset_engine io base w) = wlog w @
     [(base + NV_PFALCON_FALCON_ENGINE_OFF, a OR 1), (base + NV_PFALCON_FALCON_ENGINE_OFF, b AND NOT 1)]"
proof -
  let ?e = "base + NV_PFALCON_FALCON_ENGINE_OFF"
  obtain a w1 where a: "io_rd io ?e w = (a, w1)" by (cases "io_rd io ?e w") auto
  let ?w = "io_udelay io 10 (io_wr io ?e (a OR 1) w1)"
  obtain b w2 where b: "io_rd io ?e ?w = (b, w2)" by (cases "io_rd io ?e ?w") auto
  show ?thesis
    using log_rd [OF a] log_rd [OF b]
    by (intro exI [of _ a] exI [of _ b]) (simp add: nv_falcon_reset_engine_def a b log_simps)
qed

lemma wait_mem_scrubbing_log:
  assumes "poll_fits timeout NV_POLL_STEP_US"
  obtains rc w' where "nv_falcon_wait_mem_scrubbing io base timeout w = Some (rc, w')" "wlog w' = wlog w"
    "rc = NV_OK \<or> rc = NV_ERR_TIMEOUT"
  using poll_ends [OF assms] unfolding nv_falcon_wait_mem_scrubbing_def by metis

lemma select_core_log:
  assumes "poll_fits timeout NV_POLL_STEP_US"
  obtains rc w' where "nv_falcon_select_core_ga102 io fbase timeout w = Some (rc, w')"
    "wlog w' = wlog w \<or> wlog w' = wlog w @ [(fbase + NV_PRISCV_RISCV_BCR_CTRL_OFF, 0)]"
    "rc = NV_OK \<or> rc = NV_ERR_TIMEOUT"
proof -
  let ?b = "fbase + NV_PRISCV_RISCV_BCR_CTRL_OFF"
  obtain v w1 where v: "io_rd io ?b w = (v, w1)" by (cases "io_rd io ?b w") auto
  obtain rc w2 where p: "poll io ?b (\<lambda>v. v AND 1 \<noteq> 0) timeout NV_POLL_STEP_US 0 (io_wr io ?b 0 w1) = Some (rc, w2)"
    "wlog w2 = wlog (io_wr io ?b 0 w1)" "rc = NV_OK \<or> rc = NV_ERR_TIMEOUT"
    using poll_ends [OF assms, of ?b "\<lambda>v. v AND 1 \<noteq> 0" "io_wr io ?b 0 w1"] by blast
  show thesis
  proof (cases "v AND push_bit 4 1 = 0")
    case True
    then show thesis using that [of NV_OK w1] v log_rd [OF v] by (simp add: nv_falcon_select_core_ga102_def)
  next
    case False
    then show thesis using that [of rc w2] v p log_rd [OF v]
      by (simp add: nv_falcon_select_core_ga102_def log_wr Let_def)
  qed
qed

lemma reset_ga102_log:
  assumes fit: "poll_fits timeout NV_POLL_STEP_US"
  shows "\<exists>rc w' a b sel. nv_falcon_reset_ga102 io base fbase boot timeout w = Some (rc, w')
    \<and> (rc = NV_OK \<or> rc = NV_ERR_TIMEOUT)
    \<and> (sel = [] \<or> sel = [(fbase + NV_PRISCV_RISCV_BCR_CTRL_OFF, 0)])
    \<and> wlog w' = wlog w @
       [(base + NV_PFALCON_FALCON_ENGINE_OFF, a OR 1), (base + NV_PFALCON_FALCON_ENGINE_OFF, b AND NOT 1)]
       @ sel @ (if rc = NV_OK then [(base + NV_PFALCON_FALCON_RM_OFF, boot)] else [])"
proof -
  let ?h = "base + NV_PFALCON_FALCON_HWCFG2_OFF"
  let ?stop = "\<lambda>v. v AND NV_PFALCON_HWCFG2_RESET_READY \<noteq> 0"
  obtain v w1 where r1: "io_rd io ?h w = (v, w1)" by (cases "io_rd io ?h w") auto
  have "poll_fits 150 10" by (simp add: poll_fits_def)
  then obtain rc0 w2 where r2: "poll io ?h ?stop 150 10 0 w1 = Some (rc0, w2)" "wlog w2 = wlog w1"
    using poll_ends [of 150 10 ?h ?stop w1] by blast
  let ?w3 = "nv_falcon_reset_engine io base w2"
  obtain a b where r3: "wlog ?w3 = wlog w2 @
     [(base + NV_PFALCON_FALCON_ENGINE_OFF, a OR 1), (base + NV_PFALCON_FALCON_ENGINE_OFF, b AND NOT 1)]"
    using reset_engine_log by blast
  obtain rc4 w4 where r4: "nv_falcon_wait_mem_scrubbing io base timeout ?w3 = Some (rc4, w4)"
    "wlog w4 = wlog ?w3" "rc4 = NV_OK \<or> rc4 = NV_ERR_TIMEOUT" using wait_mem_scrubbing_log [OF fit] .
  obtain rc5 w5 where r5: "nv_falcon_select_core_ga102 io fbase timeout w4 = Some (rc5, w5)"
    "wlog w5 = wlog w4 \<or> wlog w5 = wlog w4 @ [(fbase + NV_PRISCV_RISCV_BCR_CTRL_OFF, 0)]"
    "rc5 = NV_OK \<or> rc5 = NV_ERR_TIMEOUT" using select_core_log [OF fit] .
  obtain rc6 w6 where r6: "nv_falcon_wait_mem_scrubbing io base timeout w5 = Some (rc6, w6)"
    "wlog w6 = wlog w5" "rc6 = NV_OK \<or> rc6 = NV_ERR_TIMEOUT" using wait_mem_scrubbing_log [OF fit] .
  obtain sel where sel: "wlog w5 = wlog w4 @ sel" "sel = [] \<or> sel = [(fbase + NV_PRISCV_RISCV_BCR_CTRL_OFF, 0)]"
    using r5(2) by (metis append_Nil2)
  have w4: "wlog w4 = wlog w @
     [(base + NV_PFALCON_FALCON_ENGINE_OFF, a OR 1), (base + NV_PFALCON_FALCON_ENGINE_OFF, b AND NOT 1)]"
    using log_rd [OF r1] r2(2) r3 r4(2) by simp
  consider (t4) "rc4 \<noteq> NV_OK" | (t5) "rc4 = NV_OK" "rc5 \<noteq> NV_OK" | (rest) "rc4 = NV_OK" "rc5 = NV_OK" by blast
  then show ?thesis
  proof cases
    case t4
    then show ?thesis using r1 r2(1) r4 w4
      by (intro exI [of _ rc4] exI [of _ w4] exI [of _ a] exI [of _ b] exI [of _ "[]"])
        (simp add: nv_falcon_reset_ga102_def Let_def)
  next
    case t5
    then show ?thesis using r1 r2(1) r4(1) r5 w4 sel
      by (intro exI [of _ rc5] exI [of _ w5] exI [of _ a] exI [of _ b] exI [of _ sel])
        (simp add: nv_falcon_reset_ga102_def Let_def)
  next
    case rest
    then show ?thesis using r1 r2(1) r4(1) r5(1) r6 w4 sel
      by (intro exI [of _ rc6] exI [of _ "if rc6 = NV_OK then io_wr io (base + NV_PFALCON_FALCON_RM_OFF) boot w6 else w6"]
          exI [of _ a] exI [of _ b] exI [of _ sel])
        (simp add: nv_falcon_reset_ga102_def Let_def log_wr)
  qed
qed

end



section \<open>The fuse version\<close>

lemma high_bit_bounds:
  "n \<le> 16 \<Longrightarrow> unat (high_bit n r) \<le> n \<and>
   (if unat r mod 2 ^ n = 0 then high_bit n r = 0
    else 2 ^ (unat (high_bit n r) - 1) \<le> unat r mod 2 ^ n \<and> unat r mod 2 ^ n < 2 ^ unat (high_bit n r))"
proof (induction n)
  case (Suc b)
  have b: "(ucast r :: u32) AND push_bit b 1 \<noteq> 0 \<longleftrightarrow> bit r b"
  proof -
    have "(ucast r :: u32) AND push_bit b 1 = (if bit r b then push_bit b 1 else 0)"
      using Suc.prems by (intro bit_word_eqI) (auto simp: bit_simps)
    moreover have "push_bit b (1 :: u32) \<noteq> 0" using Suc.prems by (auto simp: bit_eq_iff bit_simps intro!: exI [of _ b])
    ultimately show ?thesis by simp
  qed
  have bn: "bit r b \<longleftrightarrow> unat r div 2 ^ b mod 2 = 1"
  proof -
    have "bit r b \<longleftrightarrow> bit (unat r) b" by (simp add: bit_unsigned_iff)
    then show ?thesis by (simp only: bit_iff_odd [of "unat r"] odd_iff_mod_2_eq_one)
  qed
  have m: "unat r mod 2 ^ Suc b = unat r mod 2 ^ b + (if bit r b then 2 ^ b else 0)"
  proof -
    have e: "unat r mod (2 ^ b * 2) = 2 ^ b * (unat r div 2 ^ b mod 2) + unat r mod 2 ^ b"
      by (rule mod_mult2_eq)
    have "unat r div 2 ^ b mod 2 = 0 \<or> unat r div 2 ^ b mod 2 = 1" by presburger
    then show ?thesis unfolding bn power_Suc mult.commute [of 2] e by (elim disjE) simp_all
  qed
  have u: "unat (of_nat b + 1 :: u32) = Suc b"
  proof -
    have "Suc b < 2 ^ LENGTH(32)" using Suc.prems by simp
    then have "unat (of_nat (Suc b) :: u32) = Suc b" by (rule unat_of_nat_small)
    moreover have "of_nat (Suc b) = (of_nat b + 1 :: u32)" by simp
    ultimately show ?thesis by (simp only:)
  qed
  have lt: "unat r mod 2 ^ b < 2 ^ b" by simp
  show ?case
  proof (cases "bit r b")
    case True
    then show ?thesis using b u m lt by simp
  next
    case False
    then show ?thesis using b m Suc by (simp split: if_splits)
  qed
qed simp

text \<open>The fuse register of an engine, in the order of the code's tests, and the length of a number in bits.\<close>

definition fuse_reg :: "u16 \<Rightarrow> u32 option" where
  "fuse_reg engine = (if bit engine 0 then Some 0x824140 else if bit engine 2 then Some 0x824100
     else if bit engine 10 then Some 0x8241C0 else None)"

definition bit_length :: "nat \<Rightarrow> nat \<Rightarrow> bool" where
  "bit_length n k \<longleftrightarrow> (if n = 0 then k = 0 else 2 ^ (k - 1) \<le> n \<and> n < 2 ^ k)"

lemma and_pow2_bit: "j < 16 \<Longrightarrow> (ucast (e :: u16) :: u32) AND push_bit j 1 \<noteq> 0 \<longleftrightarrow> bit e j"
proof -
  assume j: "j < 16"
  have "(ucast e :: u32) AND push_bit j 1 = (if bit e j then push_bit j 1 else 0)"
    using j by (intro bit_word_eqI) (auto simp: bit_simps)
  moreover have "push_bit j (1 :: u32) \<noteq> 0" using j by (auto simp: bit_eq_iff bit_simps intro!: exI [of _ j])
  ultimately show ?thesis by simp
qed

lemma engine_bits:
  "(ucast (e :: u16) :: u32) AND 0x1 \<noteq> 0 \<longleftrightarrow> bit e 0" "(ucast (e :: u16) :: u32) AND 0x4 \<noteq> 0 \<longleftrightarrow> bit e 2"
  "(ucast (e :: u16) :: u32) AND 0x400 \<noteq> 0 \<longleftrightarrow> bit e 10"
  using and_pow2_bit [of 0 e] and_pow2_bit [of 2 e] and_pow2_bit [of 10 e] by simp_all

text \<open>
  The fuse version of a signature is the bit length of the low 16 bits of the fuse register
  that belongs to the engine and ucode id; a ucode id outside 1..16 or an unknown engine is refused
  without touching the hardware.
\<close>

theorem fuse_version_is_bit_length:
  "case (nv_falcon_signature_fuse_version_ga102 io engine ucode w, fuse_reg engine) of
     ((rc, ver, w'), Some r) \<Rightarrow>
        if unat ucode \<in> {1..16}
        then (case io_rd io (r + (ucast ucode - 1) * 4) w of
                (v, w1) \<Rightarrow> rc = NV_OK \<and> w' = w1 \<and> bit_length (unat v mod 65536) (unat ver))
        else rc = NV_ERR_STATE \<and> w' = w
   | ((rc, ver, w'), None) \<Rightarrow> rc = NV_ERR_STATE \<and> w' = w"
proof -
  have u: "unat (ucast ucode :: u32) = unat ucode"
    using u8_less [of ucode] by (intro unat_ucast_small) simp
  have rng: "\<not> (ucode < 1 \<or> ucast ucode > NV_FUSE_OPT_FPF_SIZE) \<longleftrightarrow> unat ucode \<in> {1..16}"
    using u by (auto simp: word_less_nat_alt)
  have bl: "bit_length (unat v mod 65536) (unat (high_bit 16 (ucast (v AND 0xFFFF))))" for v :: u32
  proof -
    have m: "(0xFFFF :: u32) = mask 16" by (simp add: mask_eq_exp_minus_1)
    have "unat (ucast (v AND 0xFFFF) :: u16) = unat v mod 65536"
      unfolding m unat_ucast_mod unat_and_mask by simp
    then show ?thesis using high_bit_bounds [of 16 "ucast (v AND 0xFFFF)"]
      by (auto simp: bit_length_def)
  qed
  show ?thesis
  proof (cases "unat ucode \<in> {1..16}")
    case True
    then show ?thesis unfolding nv_falcon_signature_fuse_version_ga102_def if_not_P [OF rng [THEN iffD2, OF True]] Let_def
      fuse_reg_def engine_bits using bl by (simp split: prod.splits)
  next
    case False
    then have "ucode < 1 \<or> ucast ucode > NV_FUSE_OPT_FPF_SIZE" using rng by blast
    then show ?thesis unfolding nv_falcon_signature_fuse_version_ga102_def if_P [OF \<open>ucode < 1 \<or> ucast ucode > NV_FUSE_OPT_FPF_SIZE\<close>]
      using False by (auto split: option.splits)
  qed
qed

end
