(* ===== verification/GspRpc.thy ===== *)
theory GspRpc
  imports Bytes
begin

text \<open>
  \<open>driver/gsp/gsp_rpc.c\<close>: the shared region with the page table and the two message queues, the
  boot arguments, and the construction of a command element.  The region and the request buffers
  are byte lists; a store outside them makes the result \<^const>\<open>None\<close>.
\<close>

abbreviation (input) NV_GSP_RPC_OK :: int where "NV_GSP_RPC_OK \<equiv> 0"
abbreviation (input) NV_GSP_RPC_ERR_ARG :: int where "NV_GSP_RPC_ERR_ARG \<equiv> -1"
abbreviation (input) NV_GSP_RPC_ERR_BOUNDS :: int where "NV_GSP_RPC_ERR_BOUNDS \<equiv> -2"
abbreviation (input) GSP_PAGE :: u32 where "GSP_PAGE \<equiv> 0x1000"
abbreviation (input) NV_GSP_QUEUE_SIZE :: u32 where "NV_GSP_QUEUE_SIZE \<equiv> 0x40000"
abbreviation (input) NV_GSP_QUEUE_ENTRYOFF :: u32 where "NV_GSP_QUEUE_ENTRYOFF \<equiv> 0x1000"
abbreviation (input) NV_GSP_QUEUE_MSGSIZE :: u32 where "NV_GSP_QUEUE_MSGSIZE \<equiv> 0x1000"
abbreviation (input) NV_GSP_MSGQ_RXHDROFF :: nat where "NV_GSP_MSGQ_RXHDROFF \<equiv> 32"
abbreviation (input) NV_GSP_MSG_ELEM_HDR_SIZE :: u32 where "NV_GSP_MSG_ELEM_HDR_SIZE \<equiv> 48"
abbreviation (input) NV_GSP_RPC_HEADER_VERSION :: u32 where "NV_GSP_RPC_HEADER_VERSION \<equiv> 0x03000000"
abbreviation (input) NV_GSP_RPC_SIGNATURE :: u32 where "NV_GSP_RPC_SIGNATURE \<equiv> 0x43505256"
abbreviation (input) NV_MSGQ_TX_VERSION_OFF :: nat where "NV_MSGQ_TX_VERSION_OFF \<equiv> 0"
abbreviation (input) NV_MSGQ_TX_SIZE_OFF :: nat where "NV_MSGQ_TX_SIZE_OFF \<equiv> 4"
abbreviation (input) NV_MSGQ_TX_MSGSIZE_OFF :: nat where "NV_MSGQ_TX_MSGSIZE_OFF \<equiv> 8"
abbreviation (input) NV_MSGQ_TX_MSGCOUNT_OFF :: nat where "NV_MSGQ_TX_MSGCOUNT_OFF \<equiv> 12"
abbreviation (input) NV_MSGQ_TX_WRITEPTR_OFF :: nat where "NV_MSGQ_TX_WRITEPTR_OFF \<equiv> 16"
abbreviation (input) NV_MSGQ_TX_FLAGS_OFF :: nat where "NV_MSGQ_TX_FLAGS_OFF \<equiv> 20"
abbreviation (input) NV_MSGQ_TX_RXHDROFF_OFF :: nat where "NV_MSGQ_TX_RXHDROFF_OFF \<equiv> 24"
abbreviation (input) NV_MSGQ_TX_ENTRYOFF_OFF :: nat where "NV_MSGQ_TX_ENTRYOFF_OFF \<equiv> 28"
abbreviation (input) NV_GSP_RMARGS_SIZE :: nat where "NV_GSP_RMARGS_SIZE \<equiv> 80"
abbreviation (input) NV_RMARGS_SHARED_MEM_PHYS_OFF :: nat where "NV_RMARGS_SHARED_MEM_PHYS_OFF \<equiv> 0"
abbreviation (input) NV_RMARGS_PTE_COUNT_OFF :: nat where "NV_RMARGS_PTE_COUNT_OFF \<equiv> 8"
abbreviation (input) NV_RMARGS_CMDQ_OFF_OFF :: nat where "NV_RMARGS_CMDQ_OFF_OFF \<equiv> 16"
abbreviation (input) NV_RMARGS_STATQ_OFF_OFF :: nat where "NV_RMARGS_STATQ_OFF_OFF \<equiv> 24"
abbreviation (input) NV_VGPU_MSG_FUNCTION_GSP_SET_SYSTEM_INFO :: u32 where "NV_VGPU_MSG_FUNCTION_GSP_SET_SYSTEM_INFO \<equiv> 72"
abbreviation (input) NV_VGPU_MSG_FUNCTION_SET_REGISTRY :: u32 where "NV_VGPU_MSG_FUNCTION_SET_REGISTRY \<equiv> 73"
abbreviation (input) NV_VGPU_MSG_EVENT_GSP_INIT_DONE :: u32 where "NV_VGPU_MSG_EVENT_GSP_INIT_DONE \<equiv> 0x1001"
abbreviation (input) NV_GSP_MSG_CHECKSUM_OFF :: nat where "NV_GSP_MSG_CHECKSUM_OFF \<equiv> 32"
abbreviation (input) NV_GSP_MSG_SEQUENCE_OFF :: nat where "NV_GSP_MSG_SEQUENCE_OFF \<equiv> 36"
abbreviation (input) NV_GSP_MSG_ELEMCOUNT_OFF :: nat where "NV_GSP_MSG_ELEMCOUNT_OFF \<equiv> 40"
abbreviation (input) NV_GSP_RPC_HDR_OFF :: nat where "NV_GSP_RPC_HDR_OFF \<equiv> 48"
abbreviation (input) NV_GSP_RPC_HDR_SIZE :: u32 where "NV_GSP_RPC_HDR_SIZE \<equiv> 32"
abbreviation (input) NV_GSP_RPC_PAYLOAD_OFF :: nat where "NV_GSP_RPC_PAYLOAD_OFF \<equiv> 80"
abbreviation (input) NV_GSP_RPC_F_LENGTH :: nat where "NV_GSP_RPC_F_LENGTH \<equiv> 8"
abbreviation (input) NV_GSP_RPC_F_FUNCTION :: nat where "NV_GSP_RPC_F_FUNCTION \<equiv> 12"
abbreviation (input) NV_GSP_SYSINFO_SIZE :: nat where "NV_GSP_SYSINFO_SIZE \<equiv> 664"
abbreviation (input) NV_GSP_SYSINFO_GPUPHYS_OFF :: nat where "NV_GSP_SYSINFO_GPUPHYS_OFF \<equiv> 0"
abbreviation (input) NV_GSP_SYSINFO_FBPHYS_OFF :: nat where "NV_GSP_SYSINFO_FBPHYS_OFF \<equiv> 8"
abbreviation (input) NV_GSP_SYSINFO_INSTPHYS_OFF :: nat where "NV_GSP_SYSINFO_INSTPHYS_OFF \<equiv> 16"
abbreviation (input) NV_GSP_SYSINFO_BDF_OFF :: nat where "NV_GSP_SYSINFO_BDF_OFF \<equiv> 24"
abbreviation (input) NV_GSP_SYSINFO_MAXUSERVA_OFF :: nat where "NV_GSP_SYSINFO_MAXUSERVA_OFF \<equiv> 56"
abbreviation (input) NV_GSP_SYSINFO_MIRRORBASE_OFF :: nat where "NV_GSP_SYSINFO_MIRRORBASE_OFF \<equiv> 64"
abbreviation (input) NV_GSP_SYSINFO_MIRRORSIZE_OFF :: nat where "NV_GSP_SYSINFO_MIRRORSIZE_OFF \<equiv> 68"

section \<open>The shared region\<close>

record nv_gsp_shm_layout_t =
  sl_ptes_nr :: u32
  sl_ptes_size :: u64
  sl_cmdq_off :: u64
  sl_msgq_off :: u64
  sl_total_size :: u64
  sl_msg_count :: u32

definition nv_gsp_shm_compute :: nv_gsp_shm_layout_t where
  "nv_gsp_shm_compute =
     (let nr = (NV_GSP_QUEUE_SIZE + NV_GSP_QUEUE_SIZE) div GSP_PAGE;
          nr = nr + ucast ((ucast nr * 8 + ucast GSP_PAGE - 1 :: u64) div ucast GSP_PAGE);
          ptes_size = (ucast nr * 8 + ucast GSP_PAGE - 1 :: u64) AND NOT (ucast (GSP_PAGE - 1))
      in \<lparr> sl_ptes_nr = nr, sl_ptes_size = ptes_size, sl_cmdq_off = ptes_size,
           sl_msgq_off = ptes_size + ucast NV_GSP_QUEUE_SIZE,
           sl_total_size = ptes_size + ucast NV_GSP_QUEUE_SIZE * 2,
           sl_msg_count = (NV_GSP_QUEUE_SIZE - NV_GSP_QUEUE_ENTRYOFF) div NV_GSP_QUEUE_MSGSIZE \<rparr>)"

definition init_queue_hdr :: "u8 list \<Rightarrow> nat \<Rightarrow> u32 \<Rightarrow> u8 list option" where
  "init_queue_hdr b q msg_count = stores b q
     [(NV_MSGQ_TX_VERSION_OFF, W32 0), (NV_MSGQ_TX_SIZE_OFF, W32 NV_GSP_QUEUE_SIZE),
      (NV_MSGQ_TX_MSGSIZE_OFF, W32 NV_GSP_QUEUE_MSGSIZE), (NV_MSGQ_TX_MSGCOUNT_OFF, W32 msg_count),
      (NV_MSGQ_TX_WRITEPTR_OFF, W32 0), (NV_MSGQ_TX_FLAGS_OFF, W32 1),
      (NV_MSGQ_TX_RXHDROFF_OFF, W32 (of_nat NV_GSP_MSGQ_RXHDROFF)),
      (NV_MSGQ_TX_ENTRYOFF_OFF, W32 NV_GSP_QUEUE_ENTRYOFF), (NV_GSP_MSGQ_RXHDROFF, W32 0)]"

definition nv_gsp_shm_init :: "u8 list \<Rightarrow> u64 \<Rightarrow> (int \<times> nv_gsp_shm_layout_t \<times> u8 list) option" where
  "nv_gsp_shm_init buf dma_base =
     (let lay = nv_gsp_shm_compute in
      if unat (sl_total_size lay) > length buf then Some (NV_GSP_RPC_ERR_BOUNDS, lay, buf)
      else do { b \<leftarrow> wr_bytes buf 0 (replicate (unat (sl_total_size lay)) 0);
                b \<leftarrow> for_upto 1 (sl_ptes_nr lay)
                       (\<lambda>i b. st64 b (unat i * 8) (dma_base + ucast i * ucast GSP_PAGE)) 0 b;
                b \<leftarrow> init_queue_hdr b (unat (sl_cmdq_off lay)) (sl_msg_count lay);
                b \<leftarrow> init_queue_hdr b (unat (sl_msgq_off lay)) (sl_msg_count lay);
                Some (NV_GSP_RPC_OK, lay, b) })"

definition nv_gsp_rmargs_build :: "u8 list \<Rightarrow> u64 \<Rightarrow> nv_gsp_shm_layout_t \<Rightarrow> (int \<times> u8 list) option" where
  "nv_gsp_rmargs_build buf shm_dma lay =
     (if length buf < NV_GSP_RMARGS_SIZE then Some (NV_GSP_RPC_ERR_BOUNDS, buf)
      else do { b \<leftarrow> wr_bytes buf 0 (replicate NV_GSP_RMARGS_SIZE 0);
                b \<leftarrow> stores b 0
                  [(NV_RMARGS_SHARED_MEM_PHYS_OFF, W64 shm_dma), (NV_RMARGS_PTE_COUNT_OFF, W32 (sl_ptes_nr lay)),
                   (NV_RMARGS_CMDQ_OFF_OFF, W64 (sl_cmdq_off lay)), (NV_RMARGS_STATQ_OFF_OFF, W64 (sl_msgq_off lay))];
                Some (NV_GSP_RPC_OK, b) })"

definition nv_gsp_msgq_writeptr :: "u8 list \<Rightarrow> nv_gsp_shm_layout_t \<Rightarrow> u32 option" where
  "nv_gsp_msgq_writeptr shm lay = ld32 shm (unat (sl_msgq_off lay) + NV_MSGQ_TX_WRITEPTR_OFF)"

section \<open>Pre-boot commands\<close>

definition nv_gsp_build_sysinfo :: "u8 list \<Rightarrow> u64 \<Rightarrow> u64 \<Rightarrow> u64 \<Rightarrow> u64 \<Rightarrow> u8 list option" where
  "nv_gsp_build_sysinfo buf bar0 bar1 bar3 bdf =
     do { b \<leftarrow> wr_bytes buf 0 (replicate NV_GSP_SYSINFO_SIZE 0);
          stores b 0
            [(NV_GSP_SYSINFO_GPUPHYS_OFF, W64 bar0), (NV_GSP_SYSINFO_FBPHYS_OFF, W64 bar1),
             (NV_GSP_SYSINFO_INSTPHYS_OFF, W64 bar3), (NV_GSP_SYSINFO_BDF_OFF, W64 bdf),
             (NV_GSP_SYSINFO_MAXUSERVA_OFF, W64 0x00007ffffffff000),
             (NV_GSP_SYSINFO_MIRRORBASE_OFF, W32 0x088000), (NV_GSP_SYSINFO_MIRRORSIZE_OFF, W32 0x001000)] }"

text \<open>A string with its terminator, as \<open>cstrcpy\<close> writes it.\<close>

definition cstr :: "string \<Rightarrow> u8 list" where
  "cstr s = map of_char s @ [0]"

definition cstrcpy :: "u8 list \<Rightarrow> nat \<Rightarrow> string \<Rightarrow> (u8 list \<times> nat) option" where
  "cstrcpy b d s = do { b \<leftarrow> wr_bytes b d (cstr s); Some (b, length s + 1) }"

definition registry_names :: "string list" where
  "registry_names = [''RMSecBusResetEnable'', ''RMForcePcieConfigSave'']"

definition registry_entry :: "u32 \<Rightarrow> u8 list \<times> u32 \<Rightarrow> (u8 list \<times> u32) option" where
  "registry_entry i = (\<lambda>(b, so).
     do { b \<leftarrow> stores b (8 + unat i * 16) [(0, W32 so), (4, B8 1), (8, W32 1), (12, W32 4)];
          (b, n) \<leftarrow> cstrcpy b (unat so) (registry_names ! unat i);
          Some (b, so + of_nat n) })"

definition nv_gsp_build_registry :: "u8 list \<Rightarrow> (u32 \<times> u8 list) option" where
  "nv_gsp_build_registry buf =
     (let num = 2; hdr = 8; str_off = hdr + num * 16 :: u32 in
      if length buf < unat (str_off + 64) then Some (0, buf)
      else do { b \<leftarrow> wr_bytes buf 0 (replicate (unat str_off) 0);
                b \<leftarrow> stores b 0 [(0, W32 hdr), (4, W32 num)];
                (b, so) \<leftarrow> for_upto 1 num registry_entry 0 (b, str_off);
                Some (so, b) })"

text \<open>The command element.  \<open>cmdq\<close> is the offset of the command queue in \<open>shm\<close>.\<close>

definition element_total :: "u32 \<Rightarrow> u32" where
  "element_total payload_len =
     (let rpc_len = NV_GSP_RPC_HDR_SIZE + payload_len;
          argc = NV_GSP_MSG_ELEM_HDR_SIZE + ((rpc_len + 7) AND NOT 7)
      in (argc + (GSP_PAGE - 1)) AND NOT (GSP_PAGE - 1))"

definition csum_step :: "u8 list \<Rightarrow> nat \<Rightarrow> u32 \<Rightarrow> u64 \<Rightarrow> u64 option" where
  "csum_step b e p s = do { v \<leftarrow> ld64 b (e + unat p); Some (s XOR v) }"

definition nv_gsp_cmdq_write ::
  "u8 list \<Rightarrow> nat \<Rightarrow> u32 \<Rightarrow> u32 \<Rightarrow> u32 \<Rightarrow> u8 list \<Rightarrow> u32 \<Rightarrow> (u32 \<times> u8 list) option" where
  "nv_gsp_cmdq_write shm cmdq slot seq function payload payload_len =
     (let rpc_len = NV_GSP_RPC_HDR_SIZE + payload_len;
          total = element_total payload_len;
          elem_count = total div GSP_PAGE;
          e = cmdq + unat NV_GSP_QUEUE_ENTRYOFF + unat slot * unat NV_GSP_QUEUE_MSGSIZE;
          r = e + NV_GSP_RPC_HDR_OFF
      in do { b \<leftarrow> wr_bytes shm e (replicate (unat total) 0);
              b \<leftarrow> stores b e [(NV_GSP_MSG_SEQUENCE_OFF, W32 seq), (NV_GSP_MSG_ELEMCOUNT_OFF, W32 elem_count)];
              b \<leftarrow> stores b r
                [(0, W32 NV_GSP_RPC_HEADER_VERSION), (4, W32 NV_GSP_RPC_SIGNATURE),
                 (NV_GSP_RPC_F_LENGTH, W32 rpc_len), (NV_GSP_RPC_F_FUNCTION, W32 function),
                 (16, W32 0xffffffff), (20, W32 0xffffffff)];
              b \<leftarrow> (if payload_len \<noteq> 0
                   then do { xs \<leftarrow> rd_bytes payload 0 (unat payload_len);
                             wr_bytes b (e + NV_GSP_RPC_PAYLOAD_OFF) xs }
                   else Some b);
              csum \<leftarrow> for_upto 8 total (csum_step b e) 0 0;
              b \<leftarrow> st32 b (e + NV_GSP_MSG_CHECKSUM_OFF) (ucast (drop_bit 32 csum) XOR ucast csum);
              Some (elem_count, b) })"

definition nv_gsp_cmdq_set_writeptr :: "u8 list \<Rightarrow> nv_gsp_shm_layout_t \<Rightarrow> u32 \<Rightarrow> u8 list option" where
  "nv_gsp_cmdq_set_writeptr shm lay wptr =
     st32 shm (unat (sl_cmdq_off lay) + NV_MSGQ_TX_WRITEPTR_OFF) wptr"

lemma shm_layout: "nv_gsp_shm_compute =
  \<lparr> sl_ptes_nr = 129, sl_ptes_size = 0x1000, sl_cmdq_off = 0x1000, sl_msgq_off = 0x41000,
    sl_total_size = 0x81000, sl_msg_count = 63 \<rparr>"
  by code_simp

section \<open>Initialisation of the region\<close>

definition queue_hdr :: "u8 list \<Rightarrow> nat \<Rightarrow> u32 \<Rightarrow> bool" where
  "queue_hdr b q msg_count \<longleftrightarrow>
     map (\<lambda>i. ld32 b (q + 4 * i)) [0..<9] =
     map Some [0, NV_GSP_QUEUE_SIZE, NV_GSP_QUEUE_MSGSIZE, msg_count, 0, 1, 32, NV_GSP_QUEUE_ENTRYOFF, 0]"

lemma init_queue_hdr_spec:
  assumes "q + 36 \<le> length b"
  obtains b' where "init_queue_hdr b q c = Some b'" "length b' = length b" "queue_hdr b' q c"
    "\<And>j n. j + n \<le> q \<or> q + 36 \<le> j \<Longrightarrow> fld b' j n = fld b j n"
proof -
  let ?fs = "[(NV_MSGQ_TX_VERSION_OFF, W32 0), (NV_MSGQ_TX_SIZE_OFF, W32 NV_GSP_QUEUE_SIZE),
      (NV_MSGQ_TX_MSGSIZE_OFF, W32 NV_GSP_QUEUE_MSGSIZE), (NV_MSGQ_TX_MSGCOUNT_OFF, W32 c),
      (NV_MSGQ_TX_WRITEPTR_OFF, W32 0), (NV_MSGQ_TX_FLAGS_OFF, W32 1),
      (NV_MSGQ_TX_RXHDROFF_OFF, W32 (of_nat NV_GSP_MSGQ_RXHDROFF)),
      (NV_MSGQ_TX_ENTRYOFF_OFF, W32 NV_GSP_QUEUE_ENTRYOFF), (NV_GSP_MSGQ_RXHDROFF, W32 0)]"
  have ok: "cells_ok 36 ?fs" by simp
  obtain b' where b': "stores b q ?fs = Some b'" "length b' = length b"
    "\<And>o' c. (o', c) \<in> set ?fs \<Longrightarrow> fld b' (q + o') (length (cell_bytes c)) = cell_bytes c"
    "\<And>j n. j + n \<le> q \<or> q + 36 \<le> j \<Longrightarrow> fld b' j n = fld b j n"
    using stores_spec [OF ok assms] by metis
  have f: "ld32 b' (q + o') = Some v" if "(o', W32 v) \<in> set ?fs" for o' v
    using b'(3) [OF that] cells_ok_ends [OF ok that] assms b'(2) by (intro ld32_fldD) auto
  have "queue_hdr b' q c"
  proof -
    have "[0..<9] = [0, 1, 2, 3, 4, 5, 6, 7, 8 :: nat]" by (simp add: upt_rec)
    moreover have "ld32 b' q = Some 0" using f [of 0 0] by simp
    moreover have "ld32 b' (q + 4) = Some NV_GSP_QUEUE_SIZE" by (rule f) simp
    moreover have "ld32 b' (q + 8) = Some NV_GSP_QUEUE_MSGSIZE" by (rule f) simp
    moreover have "ld32 b' (q + 12) = Some c" by (rule f) simp
    moreover have "ld32 b' (q + 16) = Some 0" by (rule f) simp
    moreover have "ld32 b' (q + 20) = Some 1" by (rule f) simp
    moreover have "ld32 b' (q + 24) = Some 32" by (rule f) simp
    moreover have "ld32 b' (q + 28) = Some NV_GSP_QUEUE_ENTRYOFF" by (rule f) simp
    moreover have "ld32 b' (q + 32) = Some 0" by (rule f) simp
    ultimately show ?thesis unfolding queue_hdr_def by (simp del: ld32_Some)
  qed
  then show thesis using that b' by (simp add: init_queue_hdr_def)
qed

lemma queue_hdr_frame:
  assumes "queue_hdr b q c" "fld b' q 36 = fld b q 36" "length b' = length b"
  shows "queue_hdr b' q c"
proof -
  have "ld32 b' (q + 4 * i) = ld32 b (q + 4 * i)" if "i < 9" for i
    using that assms by (intro ld32_cong fld_sub) auto
  then have "map (\<lambda>i. ld32 b' (q + 4 * i)) [0..<9] = map (\<lambda>i. ld32 b (q + 4 * i)) [0..<9]"
    by (intro map_cong) (auto simp del: upt_rec_numeral)
  then show ?thesis using assms(1) unfolding queue_hdr_def by argo
qed

lemma pte_loop:
  assumes "8 * unat n \<le> length b" "unat n < 2 ^ 32 - 1"
  obtains b' where "for_upto 1 (n :: u32) (\<lambda>i b. st64 b (unat i * 8) (dma + ucast i * ucast GSP_PAGE)) 0 b = Some b'"
    "length b' = length b" "\<And>i. i < unat n \<Longrightarrow> fld b' (8 * i) 8 = bytes64 (dma + of_nat i * 0x1000)"
    "\<And>j m. 8 * unat n \<le> j \<Longrightarrow> fld b' j m = fld b j m"
proof -
  let ?P = "\<lambda>k b'. length b' = length b \<and> (\<forall>i<k. fld b' (8 * i) 8 = bytes64 (dma + of_nat i * 0x1000))
    \<and> (\<forall>j m. 8 * k \<le> j \<longrightarrow> fld b' j m = fld b j m)"
  have "\<exists>b'. for_upto 1 n (\<lambda>i b. st64 b (unat i * 8) (dma + ucast i * ucast GSP_PAGE)) 0 b = Some b' \<and> ?P (unat n) b'"
  proof (rule for_upto_inv [where P = ?P])
    fix k s assume k: "k < unat n" and s: "?P k s"
    have u: "unat (of_nat k :: u32) = k" using k assms(2) by (intro unat_of_nat_small) simp
    have "of_nat (unat (of_nat k :: u32)) = (ucast (of_nat k :: u32) :: u64)" by simp
    then have c: "ucast (of_nat k :: u32) = (of_nat k :: u64)" unfolding u by simp
    have fit: "k * 8 + 8 \<le> length s" using k assms(1) s by simp
    let ?s = "splice s (k * 8) (bytes64 (dma + of_nat k * 0x1000))"
    have "?P (Suc k) ?s"
    proof (intro conjI allI impI)
      show "length ?s = length b" using fit s by simp
      fix i assume "i < Suc k"
      then consider "i = k" | "i < k" by linarith
      then show "fld ?s (8 * i) 8 = bytes64 (dma + of_nat i * 0x1000)"
      proof cases
        case 1
        then show ?thesis using fit fld_splice_same [of "k * 8" "bytes64 (dma + of_nat k * 0x1000)" s]
          by (simp add: mult.commute)
      next
        case 2
        then show ?thesis using fit s by (subst fld_splice_disj) auto
      qed
    next
      fix j m assume "8 * Suc k \<le> j"
      then show "fld ?s j m = fld b j m" using fit s by (subst fld_splice_disj) auto
    qed
    then show "\<exists>s'. st64 s (unat (of_nat k * 1 :: u32) * 8) (dma + ucast (of_nat k * 1 :: u32) * ucast GSP_PAGE) = Some s' \<and> ?P (Suc k) s'"
      using fit u c by simp
  qed (use assms in auto)
  then show thesis using that by blast
qed

lemma shm_init_spec:
  assumes "0x81000 \<le> length buf"
  obtains b where "nv_gsp_shm_init buf dma = Some (NV_GSP_RPC_OK, nv_gsp_shm_compute, b)" "length b = length buf"
    "\<And>i. i < 129 \<Longrightarrow> ld64 b (8 * i) = Some (dma + of_nat i * 4096)" "queue_hdr b 0x1000 63" "queue_hdr b 0x41000 63"
    "drop 0x81000 b = drop 0x81000 buf"
proof -
  obtain T :: nat where T: "T = 0x81000" by blast
  let ?b0 = "splice buf 0 (replicate T 0)"
  have b0: "wr_bytes buf 0 (replicate T 0) = Some ?b0" "length ?b0 = length buf" using assms T by simp_all
  have n: "unat (129 :: u32) = 129" by simp
  have "8 * unat (129 :: u32) \<le> length ?b0" "unat (129 :: u32) < 2 ^ 32 - 1" using b0(2) assms by simp_all
  then obtain b1 where b1: "for_upto 1 (129 :: u32) (\<lambda>i b. st64 b (unat i * 8) (dma + ucast i * ucast GSP_PAGE)) 0 ?b0 = Some b1"
    "length b1 = length buf" "\<And>i. i < 129 \<Longrightarrow> fld b1 (8 * i) 8 = bytes64 (dma + of_nat i * 0x1000)"
    "\<And>j m. 1032 \<le> j \<Longrightarrow> fld b1 j m = fld ?b0 j m"
    using pte_loop [of 129 ?b0 dma] unfolding b0(2) n by auto
  have q1: "0x1000 + 36 \<le> length b1" using assms b1(2) by simp
  obtain b2 where b2: "init_queue_hdr b1 0x1000 63 = Some b2" "length b2 = length b1" "queue_hdr b2 0x1000 63"
    "\<And>j n. j + n \<le> 0x1000 \<or> 0x1000 + 36 \<le> j \<Longrightarrow> fld b2 j n = fld b1 j n"
    using init_queue_hdr_spec [OF q1] by metis
  have q2: "0x41000 + 36 \<le> length b2" using assms b1(2) b2(2) by simp
  obtain b3 where b3: "init_queue_hdr b2 0x41000 63 = Some b3" "length b3 = length b2" "queue_hdr b3 0x41000 63"
    "\<And>j n. j + n \<le> 0x41000 \<or> 0x41000 + 36 \<le> j \<Longrightarrow> fld b3 j n = fld b2 j n"
    using init_queue_hdr_spec [OF q2] by metis
  have len: "length b3 = length buf" using b1(2) b2(2) b3(2) by simp
  have run: "nv_gsp_shm_init buf dma = Some (NV_GSP_RPC_OK, nv_gsp_shm_compute, b3)"
    unfolding nv_gsp_shm_init_def shm_layout Let_def nv_gsp_shm_layout_t.simps
    using assms b0(1) b1(1) b2(1) b3(1) T by simp
  have pte: "ld64 b3 (8 * i) = Some (dma + of_nat i * 4096)" if "i < 129" for i
  proof -
    have "fld b3 (8 * i) 8 = fld b2 (8 * i) 8" "fld b2 (8 * i) 8 = fld b1 (8 * i) 8"
      using that by (intro b3(4) b2(4); simp)+
    then have "fld b3 (8 * i) 8 = bytes64 (dma + of_nat i * 4096)" using b1(3) [OF that] by simp
    moreover have "8 * i + 8 \<le> length b3" using that assms len by simp
    ultimately show ?thesis unfolding ld64_iff by blast
  qed
  have cq: "queue_hdr b3 0x1000 63" by (rule queue_hdr_frame [OF b2(3) _ b3(2)], rule b3(4)) simp
  have "drop T b3 = drop T buf"
  proof -
    let ?n = "length buf - T"
    have "fld b3 T ?n = fld buf T ?n"
      using b3(4) [of T ?n] b2(4) [of T ?n] b1(4) [of T ?n] assms T
        fld_splice_disj [of 0 "replicate T 0" buf T ?n] by simp
    then show ?thesis using len by (simp add: fld_def)
  qed
  then show thesis using that [OF run len pte cq b3(3)] T by simp
qed

text \<open>
  Initialising the shared region succeeds exactly when the buffer can hold it.  The page table
  then lists every page of the region in order (129 pages, the whole of it), both queue headers
  describe a ring of 63 entries of one page, and the bytes behind the region are untouched.
\<close>

theorem nv_gsp_shm_init_correct:
  "\<exists>rc b. nv_gsp_shm_init buf dma = Some (rc, nv_gsp_shm_compute, b)
   \<and> (rc = NV_GSP_RPC_OK \<longleftrightarrow> unat (sl_total_size nv_gsp_shm_compute) \<le> length buf)
   \<and> (rc \<noteq> NV_GSP_RPC_OK \<longrightarrow> rc = NV_GSP_RPC_ERR_BOUNDS \<and> b = buf)
   \<and> (rc = NV_GSP_RPC_OK \<longrightarrow> length b = length buf
      \<and> unat (sl_ptes_nr nv_gsp_shm_compute) * 4096 = unat (sl_total_size nv_gsp_shm_compute)
      \<and> (\<forall>i < unat (sl_ptes_nr nv_gsp_shm_compute). ld64 b (8 * i) = Some (dma + of_nat i * 4096))
      \<and> queue_hdr b (unat (sl_cmdq_off nv_gsp_shm_compute)) 63
      \<and> queue_hdr b (unat (sl_msgq_off nv_gsp_shm_compute)) 63
      \<and> drop (unat (sl_total_size nv_gsp_shm_compute)) b = drop (unat (sl_total_size nv_gsp_shm_compute)) buf)"
proof (cases "0x81000 \<le> length buf")
  case False
  then show ?thesis unfolding nv_gsp_shm_init_def shm_layout by (simp add: Let_def)
next
  case True
  obtain b where "nv_gsp_shm_init buf dma = Some (NV_GSP_RPC_OK, nv_gsp_shm_compute, b)" "length b = length buf"
    "\<And>i. i < 129 \<Longrightarrow> ld64 b (8 * i) = Some (dma + of_nat i * 4096)" "queue_hdr b 0x1000 63" "queue_hdr b 0x41000 63"
    "drop 0x81000 b = drop 0x81000 buf"
    using shm_init_spec [OF True, of dma] by metis
  then show ?thesis using True unfolding shm_layout by simp
qed

theorem nv_gsp_shm_init_witness:
  "\<exists>b. nv_gsp_shm_init (replicate 0x81000 7) 0x10000000 = Some (NV_GSP_RPC_OK, nv_gsp_shm_compute, b)
     \<and> ld64 b 8 = Some 0x10001000 \<and> queue_hdr b 0x41000 63"
proof -
  have l: "unat (sl_total_size nv_gsp_shm_compute) \<le> length (replicate 0x81000 (7 :: u8))"
    unfolding shm_layout length_replicate by simp
  have n: "(1 :: nat) < unat (sl_ptes_nr nv_gsp_shm_compute)" "unat (sl_msgq_off nv_gsp_shm_compute) = 0x41000"
    unfolding shm_layout by simp_all
  obtain b where b: "nv_gsp_shm_init (replicate 0x81000 7) 0x10000000 = Some (NV_GSP_RPC_OK, nv_gsp_shm_compute, b)"
    "\<forall>i < unat (sl_ptes_nr nv_gsp_shm_compute). ld64 b (8 * i) = Some (0x10000000 + of_nat i * 4096)"
    "queue_hdr b (unat (sl_msgq_off nv_gsp_shm_compute)) 63"
    using nv_gsp_shm_init_correct [of "replicate 0x81000 7" "0x10000000"] l by metis
  have "ld64 b (8 * 1) = Some (0x10000000 + of_nat 1 * 4096)" using b(2) n(1) by blast
  then show ?thesis using b(1,3) n(2) by (intro exI [of _ b]) simp
qed

section \<open>The command element\<close>

text \<open>The receiver's view of an element: the exclusive or of its 64-bit words, folded to 32 bits.\<close>

definition w64 :: "u8 list \<Rightarrow> nat \<Rightarrow> u64" where
  "w64 b i = (case ld64 b i of Some v \<Rightarrow> v | None \<Rightarrow> 0)"

primrec xor64 :: "u8 list \<Rightarrow> nat \<Rightarrow> nat \<Rightarrow> u64" where
  "xor64 b e 0 = 0"
| "xor64 b e (Suc n) = xor64 b e n XOR w64 b (e + 8 * n)"

definition csum_fold :: "u64 \<Rightarrow> u32" where
  "csum_fold s = ucast (drop_bit 32 s) XOR ucast s"

definition element_ok :: "u8 list \<Rightarrow> u32 \<Rightarrow> u32 \<Rightarrow> u8 list \<Rightarrow> bool" where
  "element_ok E seq fn payload \<longleftrightarrow>
     length E = roundup 4096 (48 + roundup 8 (32 + length payload))
     \<and> ld32 E NV_GSP_MSG_SEQUENCE_OFF = Some seq
     \<and> ld32 E NV_GSP_MSG_ELEMCOUNT_OFF = Some (of_nat (length E div 4096))
     \<and> ld32 E 48 = Some NV_GSP_RPC_HEADER_VERSION \<and> ld32 E 52 = Some NV_GSP_RPC_SIGNATURE
     \<and> ld32 E 56 = Some (of_nat (32 + length payload)) \<and> ld32 E 60 = Some fn
     \<and> ld32 E 64 = Some 0xffffffff \<and> ld32 E 68 = Some 0xffffffff
     \<and> fld E 80 (length payload) = payload
     \<and> csum_fold (xor64 E 0 (length E div 8)) = 0"

lemma element_total_nat:
  assumes "unat p + 8192 < 2 ^ 32"
  shows "unat (element_total p) = roundup 4096 (48 + roundup 8 (32 + unat p))"
proof -
  let ?a = "32 + p"
  have a: "unat ?a = 32 + unat p" using assms unat_add_small [of "32" p] by simp
  have m7: "(7 :: u32) = 8 - 1" by simp
  have r8: "unat ((?a + 7) AND NOT 7) = roundup 8 (32 + unat p)"
  proof -
    have "?a + 7 = ?a + 8 - 1" by simp
    then show ?thesis using unat_align_up [of "8 :: u32" 3 ?a] assms a by simp
  qed
  let ?b = "48 + ((?a + 7) AND NOT 7)"
  have lt: "roundup 8 (32 + unat p) < 32 + unat p + 8" by (rule roundup_less) simp
  have b: "unat ?b = 48 + roundup 8 (32 + unat p)"
    using unat_add_small [of "48" "(?a + 7) AND NOT 7"] lt assms unfolding r8 by simp
  have "?b + (GSP_PAGE - 1) = ?b + 4096 - 1" by simp
  then have "unat ((?b + (GSP_PAGE - 1)) AND NOT (GSP_PAGE - 1)) = roundup 4096 (unat ?b)"
    using unat_align_up [of "4096 :: u32" 12 ?b] b lt assms by simp
  then show ?thesis unfolding b element_total_def Let_def .
qed

lemmas xor_ac = xor.assoc xor.commute xor.left_commute

lemma w64_Some: "i + 8 \<le> length b \<Longrightarrow> ld64 b i = Some (w64 b i)"
  using ld64_ex [of i b] by (auto simp: w64_def)

lemma w64_cong: "fld b' i' 8 = fld b i 8 \<Longrightarrow> i + 8 \<le> length b \<Longrightarrow> i' + 8 \<le> length b' \<Longrightarrow> w64 b' i' = w64 b i"
  using w64_Some [of i b] w64_Some [of i' b'] ld64_iff by (metis option.inject)

lemma w64_halves:
  "fld b i 8 = bytes32 lo @ bytes32 hi \<Longrightarrow> i + 8 \<le> length b \<Longrightarrow> w64 b i = ucast lo OR push_bit 32 (ucast hi)"
proof -
  assume "fld b i 8 = bytes32 lo @ bytes32 hi" and b: "i + 8 \<le> length b"
  then have "fld b i 8 = bytes64 (ucast lo OR push_bit 32 (ucast hi))" by (simp only: bytes64_halves split_halves)
  then have "ld64 b i = Some (ucast lo OR push_bit 32 (ucast hi))" unfolding ld64_iff using b by simp
  then show ?thesis by (simp add: w64_def)
qed

lemma xor64_cong: "(\<And>j. j < n \<Longrightarrow> w64 b' (e' + 8 * j) = w64 b (e + 8 * j)) \<Longrightarrow> xor64 b' e' n = xor64 b e n"
  by (induction n) simp_all

lemma xor64_change:
  "k < n \<Longrightarrow> (\<And>j. j < n \<Longrightarrow> j \<noteq> k \<Longrightarrow> w64 b' (e + 8 * j) = w64 b (e + 8 * j)) \<Longrightarrow>
   xor64 b' e n = xor64 b e n XOR (w64 b (e + 8 * k) XOR w64 b' (e + 8 * k))"
proof (induction n)
  case (Suc n)
  show ?case
  proof (cases "k = n")
    case True
    then have "xor64 b' e n = xor64 b e n" using Suc.prems by (intro xor64_cong) auto
    then show ?thesis using True by (simp add: xor.assoc xor.left_commute)
  next
    case False
    then show ?thesis using Suc by (simp add: xor_ac)
  qed
qed simp

lemma csum_loop:
  assumes "e + unat tot \<le> length b" "8 dvd unat tot" "unat tot + 8 \<le> 2 ^ 32"
  shows "for_upto 8 tot (csum_step b e) 0 0 = Some (xor64 b e (unat tot div 8))"
proof -
  let ?P = "\<lambda>k s. s = xor64 b e k"
  have n: "unat tot div 8 = (unat tot + unat (8 :: u32) - 1) div unat (8 :: u32)"
    using assms(2) by (auto elim!: dvdE)
  have "\<exists>s. for_upto 8 tot (csum_step b e) 0 0 = Some s \<and> ?P (unat tot div 8) s"
  proof (rule for_upto_inv [where P = ?P])
    fix k s assume k: "k < unat tot div 8" and s: "?P k s"
    then have le: "8 * k + 8 \<le> unat tot" using assms(2) by (auto elim!: dvdE)
    have "unat (of_nat (8 * k) :: u32) = 8 * k" using le assms(3) by (intro unat_of_nat_small) simp
    then have u: "unat (of_nat k * 8 :: u32) = 8 * k" by (simp add: mult.commute)
    show "\<exists>s'. csum_step b e (of_nat k * 8) s = Some s' \<and> ?P (Suc k) s'"
      using s w64_Some [of "e + 8 * k" b] le assms(1) by (simp add: csum_step_def u)
  qed (use assms n in auto)
  then show ?thesis by auto
qed

lemma csum_fold_patch: "csum_fold (s XOR ucast (csum_fold s)) = 0"
proof -
  have "drop_bit 32 (ucast (c :: u32) :: u64) = 0" for c
    by (rule bit_word_eqI) (auto simp: bit_simps dest: bit_imp_le_length)
  moreover have "ucast (ucast (c :: u32) :: u64) = c" for c
    by (rule bit_word_eqI) (auto simp: bit_simps)
  moreover have "ucast (s XOR t :: u64) = (ucast s XOR ucast t :: u32)" for t
    by (rule bit_word_eqI) (auto simp: bit_simps)
  ultimately have "csum_fold (s XOR ucast (csum_fold s)) = csum_fold s XOR csum_fold s"
    unfolding csum_fold_def [of "s XOR _"] by (simp only: drop_bit_xor csum_fold_def xor.right_neutral xor.assoc)
  then show ?thesis by simp
qed

text \<open>What \<open>nv_gsp_cmdq_write\<close> stores: the two header blocks, the payload and the checksum.\<close>

definition elem_cells :: "u32 \<Rightarrow> u32 \<Rightarrow> (nat \<times> cell) list" where
  "elem_cells seq cnt = [(NV_GSP_MSG_SEQUENCE_OFF, W32 seq), (NV_GSP_MSG_ELEMCOUNT_OFF, W32 cnt)]"

definition rpc_cells :: "u32 \<Rightarrow> u32 \<Rightarrow> (nat \<times> cell) list" where
  "rpc_cells len fn =
     [(0, W32 NV_GSP_RPC_HEADER_VERSION), (4, W32 NV_GSP_RPC_SIGNATURE), (NV_GSP_RPC_F_LENGTH, W32 len),
      (NV_GSP_RPC_F_FUNCTION, W32 fn), (16, W32 0xffffffff), (20, W32 0xffffffff)]"

lemma elem_cells_ok: "cells_ok 44 (elem_cells seq cnt)" by (simp add: elem_cells_def)
lemma rpc_cells_ok: "cells_ok 24 (rpc_cells len fn)" by (simp add: rpc_cells_def)

lemma element_body:
  assumes fits: "e + T \<le> length shm" and T: "80 + length payload \<le> T"
  obtains b where "(do { b \<leftarrow> wr_bytes shm e (replicate T 0); b \<leftarrow> stores b e (elem_cells seq cnt);
        b \<leftarrow> stores b (e + 48) (rpc_cells len fn); wr_bytes b (e + 80) payload }) = Some b"
    "length b = length shm"
    "fld b e 36 = replicate 36 0" "fld b (e + 36) 4 = bytes32 seq" "fld b (e + 40) 4 = bytes32 cnt"
    "fld b (e + 44) 4 = replicate 4 0"
    "\<And>o' c. (o', c) \<in> set (rpc_cells len fn) \<Longrightarrow> fld b (e + 48 + o') (length (cell_bytes c)) = cell_bytes c"
    "fld b (e + 80) (length payload) = payload"
    "\<And>j n. j + n \<le> e \<or> e + T \<le> j \<Longrightarrow> fld b j n = fld shm j n"
proof -
  let ?b1 = "splice shm e (replicate T 0)"
  have z: "fld ?b1 (e + j) n = replicate n 0" if "j + n \<le> T" for j n
    using that fits by (simp add: fld_splice_inside fld_replicate)
  have p2: "e + 44 \<le> length ?b1" using fits T by simp
  obtain b2 where b2: "stores ?b1 e (elem_cells seq cnt) = Some b2" "length b2 = length ?b1"
    "\<And>o' c. (o', c) \<in> set (elem_cells seq cnt) \<Longrightarrow> fld b2 (e + o') (length (cell_bytes c)) = cell_bytes c"
    "\<And>j n. j + n \<le> e \<or> e + 44 \<le> j \<Longrightarrow> fld b2 j n = fld ?b1 j n"
    "\<And>j n. \<forall>f\<in>set (elem_cells seq cnt). e + cell_end f \<le> j \<or> j + n \<le> e + fst f \<Longrightarrow> fld b2 j n = fld ?b1 j n"
    by (rule stores_spec [OF elem_cells_ok [of seq cnt] p2]) blast
  have p3: "e + 48 + 24 \<le> length b2" using fits T b2(2) by simp
  obtain b3 where b3: "stores b2 (e + 48) (rpc_cells len fn) = Some b3" "length b3 = length b2"
    "\<And>o' c. (o', c) \<in> set (rpc_cells len fn) \<Longrightarrow> fld b3 (e + 48 + o') (length (cell_bytes c)) = cell_bytes c"
    "\<And>j n. j + n \<le> e + 48 \<or> e + 48 + 24 \<le> j \<Longrightarrow> fld b3 j n = fld b2 j n"
    by (rule stores_spec [OF rpc_cells_ok [of len fn] p3]) blast
  have p4: "e + 80 + length payload \<le> length b3" using fits T b2(2) b3(2) by simp
  let ?b = "splice b3 (e + 80) payload"
  have up: "fld ?b j n = fld b3 j n" if "j + n \<le> e + 80 \<or> e + T \<le> j" for j n
    using that p4 T by (intro fld_splice_disj) auto
  show thesis
  proof (rule that [of ?b])
    show "(do { b \<leftarrow> wr_bytes shm e (replicate T 0); b \<leftarrow> stores b e (elem_cells seq cnt);
        b \<leftarrow> stores b (e + 48) (rpc_cells len fn); wr_bytes b (e + 80) payload }) = Some ?b"
      using fits b2(1) b3(1) p4 by simp
    show "length ?b = length shm" using p4 b2(2) b3(2) fits by simp
    have "fld ?b e 36 = fld ?b1 e 36"
    proof -
      have "fld b2 e 36 = fld ?b1 e 36" by (rule b2(5)) (simp add: elem_cells_def)
      then show ?thesis using up [of e 36] b3(4) [of e 36] by simp
    qed
    then show "fld ?b e 36 = replicate 36 0" using z [of 0 36] T by simp
    have h: "fld ?b (e + 36) 4 = fld b2 (e + 36) 4" "fld ?b (e + 40) 4 = fld b2 (e + 40) 4"
      using up [of "e + 36" 4] b3(4) [of "e + 36" 4] up [of "e + 40" 4] b3(4) [of "e + 40" 4] by simp_all
    show "fld ?b (e + 36) 4 = bytes32 seq" "fld ?b (e + 40) 4 = bytes32 cnt"
      unfolding h using b2(3) [of 36 "W32 seq"] b2(3) [of 40 "W32 cnt"] by (simp_all add: elem_cells_def)
    have "fld ?b (e + 44) 4 = fld ?b1 (e + 44) 4"
      using up [of "e + 44" 4] b3(4) [of "e + 44" 4] b2(4) [of "e + 44" 4] by simp
    then show "fld ?b (e + 44) 4 = replicate 4 0" using z [of 44 4] T by simp
    show "fld ?b (e + 48 + o') (length (cell_bytes c)) = cell_bytes c" if "(o', c) \<in> set (rpc_cells len fn)" for o' c
    proof -
      have "o' + length (cell_bytes c) \<le> 24"
        using cells_ok_ends [OF rpc_cells_ok that] by (simp add: cell_end_def)
      then have "fld ?b (e + 48 + o') (length (cell_bytes c)) = fld b3 (e + 48 + o') (length (cell_bytes c))"
        by (intro up) simp
      then show ?thesis using b3(3) [OF that] by simp
    qed
    show "fld ?b (e + 80) (length payload) = payload" using p4 by (rule fld_splice_same)
    show "fld ?b j n = fld shm j n" if "j + n \<le> e \<or> e + T \<le> j" for j n
      using that up [of j n] b3(4) [of j n] b2(4) [of j n] T fits
        fld_splice_disj [of e "replicate T 0" shm j n] by auto
  qed
qed

lemma element_checksum:
  assumes fits: "e + T \<le> length b" and T: "40 \<le> T" "8 dvd T"
    and z: "fld b (e + 32) 4 = replicate 4 0" and s: "fld b (e + 36) 4 = bytes32 seq"
  shows "csum_fold (xor64 (splice b (e + 32) (bytes32 (csum_fold (xor64 b e (T div 8))))) e (T div 8)) = 0"
proof -
  let ?c = "csum_fold (xor64 b e (T div 8))"
  let ?b = "splice b (e + 32) (bytes32 ?c)"
  have len: "length ?b = length b" using fits T(1) by simp
  have w: "w64 b (e + 32) = ucast (0 :: u32) OR push_bit 32 (ucast seq)"
    using fld_append_split [of b "e + 32" 4 4] z s fits T(1) by (intro w64_halves) (simp_all add: add.commute)
  have "fld ?b (e + 32) 4 = bytes32 ?c" using fld_splice_same [of "e + 32" "bytes32 ?c" b] fits T(1) by simp
  moreover have "fld ?b (e + 36) 4 = bytes32 seq" using s fits T(1) by (subst fld_splice_disj) auto
  ultimately have w': "w64 ?b (e + 32) = ucast ?c OR push_bit 32 (ucast seq)"
    using fld_append_split [of ?b "e + 32" 4 4] len fits T(1) by (intro w64_halves) (simp_all add: add.commute)
  have x: "w64 b (e + 32) XOR w64 ?b (e + 32) = ucast ?c"
    unfolding w w' by (rule bit_word_eqI) (auto simp: bit_simps dest: bit_imp_le_length)
  have "xor64 ?b e (T div 8) = xor64 b e (T div 8) XOR (w64 b (e + 8 * 4) XOR w64 ?b (e + 8 * 4))"
  proof (rule xor64_change)
    show "4 < T div 8" using T by (auto elim!: dvdE)
    fix j assume j: "j < T div 8" "j \<noteq> 4"
    then have "8 * j + 8 \<le> T" using T(2) by (auto elim!: dvdE)
    moreover have "8 * j + 8 \<le> 32 \<or> 40 \<le> 8 * j" using j(2) by linarith
    ultimately show "w64 ?b (e + 8 * j) = w64 b (e + 8 * j)"
      using fits T(1) len by (intro w64_cong fld_splice_disj) auto
  qed
  then show ?thesis using x csum_fold_patch [of "xor64 b e (T div 8)"] by simp
qed

lemma cmdq_write_spec:
  assumes pl: "length payload = unat plen" "unat plen + 8192 < 2 ^ 32"
    and T: "T = roundup 4096 (48 + roundup 8 (32 + unat plen))"
    and e: "e = cmdq + 0x1000 + unat slot * 0x1000" and fits: "e + T \<le> length shm"
  obtains b where "nv_gsp_cmdq_write shm cmdq slot seq fn payload plen = Some (of_nat (T div 4096), b)"
    "length b = length shm" "element_ok (fld b e T) seq fn payload"
    "\<And>j n. j + n \<le> e \<or> e + T \<le> j \<Longrightarrow> fld b j n = fld shm j n"
proof -
  have tot: "unat (element_total plen) = T" using element_total_nat [OF pl(2)] T by simp
  have r8: "32 + unat plen \<le> roundup 8 (32 + unat plen)" "roundup 8 (32 + unat plen) < 40 + unat plen"
    using roundup_less [of 8 "32 + unat plen"] by (simp_all add: roundup_ge)
  have T80: "80 + length payload \<le> T"
    using r8(1) roundup_ge [of 4096 "48 + roundup 8 (32 + unat plen)"] pl(1) T by simp
  have Tlt: "T < 2 ^ 32 - 8"
    using r8(2) roundup_less [of 4096 "48 + roundup 8 (32 + unat plen)"] pl(2) T by simp
  have Td: "4096 dvd T" using T by simp
  then have T8: "8 dvd T" by (rule dvd_trans [rotated]) simp
  have cnt: "element_total plen div GSP_PAGE = of_nat (T div 4096)"
  proof -
    have "unat (element_total plen div GSP_PAGE) = T div 4096" using tot by (simp add: unat_div)
    then show ?thesis by (metis of_nat_unat ucast_id)
  qed
  let ?cnt = "element_total plen div GSP_PAGE" and ?len = "NV_GSP_RPC_HDR_SIZE + plen"
  obtain b where b: "(do { b \<leftarrow> wr_bytes shm e (replicate T 0); b \<leftarrow> stores b e (elem_cells seq ?cnt);
        b \<leftarrow> stores b (e + 48) (rpc_cells ?len fn); wr_bytes b (e + 80) payload }) = Some b"
    "length b = length shm"
    "fld b e 36 = replicate 36 0" "fld b (e + 36) 4 = bytes32 seq" "fld b (e + 40) 4 = bytes32 ?cnt"
    "fld b (e + 44) 4 = replicate 4 0"
    "\<And>o' c. (o', c) \<in> set (rpc_cells ?len fn) \<Longrightarrow> fld b (e + 48 + o') (length (cell_bytes c)) = cell_bytes c"
    "fld b (e + 80) (length payload) = payload"
    "\<And>j n. j + n \<le> e \<or> e + T \<le> j \<Longrightarrow> fld b j n = fld shm j n"
    by (rule element_body [OF fits T80]) blast
  obtain b1 b2 b3 where ch: "wr_bytes shm e (replicate T 0) = Some b1" "stores b1 e (elem_cells seq ?cnt) = Some b2"
    "stores b2 (e + 48) (rpc_cells ?len fn) = Some b3" "wr_bytes b3 (e + 80) payload = Some b"
    using b(1) by (auto simp: bind_eq_Some_conv)
  have pay: "(if plen \<noteq> 0 then do { xs \<leftarrow> rd_bytes payload 0 (unat plen); wr_bytes b3 (e + 80) xs } else Some b3) = Some b"
  proof (cases "plen = 0")
    case True
    then show ?thesis using ch(4) pl(1) by (auto simp: wr_bytes_Some_iff splice_def)
  next
    case False
    then show ?thesis using ch(4) rd_bytes_fld [of 0 "unat plen" payload] pl(1) fld_0(2) [of payload] by simp
  qed
  have cs: "for_upto 8 (element_total plen) (csum_step b e) 0 0 = Some (xor64 b e (T div 8))"
    using csum_loop [of e "element_total plen" b] fits b(2) T8 Tlt unfolding tot by simp
  let ?c = "csum_fold (xor64 b e (T div 8))"
  let ?b = "splice b (e + 32) (bytes32 ?c)"
  have s: "st32 b (e + 32) ?c = Some ?b" and lb: "length ?b = length shm" using b(2) fits T80 by simp_all
  have e': "cmdq + unat NV_GSP_QUEUE_ENTRYOFF + unat slot * unat NV_GSP_QUEUE_MSGSIZE = e"
    by (simp add: e)
  have run: "nv_gsp_cmdq_write shm cmdq slot seq fn payload plen = Some (of_nat (T div 4096), ?b)"
    by (simp only: nv_gsp_cmdq_write_def Let_def e' tot elem_cells_def [symmetric] rpc_cells_def [symmetric]
        csum_fold_def [symmetric] ch(1-3) pay cs s cnt [symmetric] bind.bind_lunit)
  have frame: "fld ?b j n = fld b j n" if "j + n \<le> e + 32 \<or> e + 36 \<le> j" for j n
    using that fits T80 b(2) by (intro fld_splice_disj) auto
  let ?E = "fld ?b e T"
  have lE: "length ?E = T" using lb fits by simp
  have sub: "fld ?E j n = fld ?b (e + j) n" if "j + n \<le> T" for j n using that by (rule fld_fld)
  have g: "ld32 ?E j = Some v" if "fld b (e + j) 4 = bytes32 v" "36 \<le> j" "j + 4 \<le> T" for j v
    using that sub [of j 4] frame [of "e + j" 4] lE by (intro ld32_fldD) simp_all
  have rh: "ld32 ?E (48 + o') = Some v" if "(o', W32 v) \<in> set (rpc_cells ?len fn)" for o' v
  proof (rule g)
    show "fld b (e + (48 + o')) 4 = bytes32 v" using b(7) [OF that] by (simp add: add.assoc)
    show "48 + o' + 4 \<le> T" using cells_ok_ends [OF rpc_cells_ok that] T80 by simp
  qed simp
  have len: "?len = of_nat (32 + length payload)" unfolding pl(1) by simp
  have "csum_fold (xor64 ?b e (T div 8)) = 0"
  proof (rule element_checksum [OF _ _ T8])
    have "fld b (e + 32) 4 = fld (fld b e 36) 32 4" by (simp add: fld_fld)
    then show "fld b (e + 32) 4 = replicate 4 0" unfolding b(3) by (simp add: fld_replicate)
  qed (use fits b(2,4) T80 in auto)
  moreover have "xor64 ?E 0 (T div 8) = xor64 ?b e (T div 8)"
  proof (rule xor64_cong)
    fix j assume "j < T div 8"
    then have "8 * j + 8 \<le> T" using T8 by (auto elim!: dvdE)
    then show "w64 ?E (0 + 8 * j) = w64 ?b (e + 8 * j)"
      using sub [of "8 * j" 8] lE lb fits by (intro w64_cong) auto
  qed
  ultimately have ck: "csum_fold (xor64 ?E 0 (length ?E div 8)) = 0" unfolding lE by simp
  have "element_ok ?E seq fn payload"
  proof -
    have "length ?E = roundup 4096 (48 + roundup 8 (32 + length payload))" using lE T pl(1) by simp
    moreover have "ld32 ?E 36 = Some seq" using b(4) T80 by (intro g) simp_all
    moreover have "ld32 ?E 40 = Some (of_nat (length ?E div 4096))"
      unfolding lE cnt [symmetric] using b(5) T80 by (intro g) simp_all
    moreover have "ld32 ?E 48 = Some NV_GSP_RPC_HEADER_VERSION" using rh [of 0] by (simp add: rpc_cells_def del: ld32_Some)
    moreover have "ld32 ?E 52 = Some NV_GSP_RPC_SIGNATURE" using rh [of 4] by (simp add: rpc_cells_def del: ld32_Some)
    moreover have "ld32 ?E 56 = Some ?len" using rh [of 8] by (simp add: rpc_cells_def del: ld32_Some)
    moreover have "ld32 ?E 60 = Some fn" using rh [of 12] by (simp add: rpc_cells_def del: ld32_Some)
    moreover have "ld32 ?E 64 = Some 0xffffffff" using rh [of 16] by (simp add: rpc_cells_def del: ld32_Some)
    moreover have "ld32 ?E 68 = Some 0xffffffff" using rh [of 20] by (simp add: rpc_cells_def del: ld32_Some)
    moreover have "fld ?E 80 (length payload) = payload"
      using sub [of 80 "length payload"] frame [of "e + 80" "length payload"] b(8) T80 by simp
    ultimately show ?thesis unfolding element_ok_def len using ck by blast
  qed
  moreover have "fld ?b j n = fld shm j n" if "j + n \<le> e \<or> e + T \<le> j" for j n
    using that frame [of j n] b(9) [of j n] T80 by auto
  ultimately show thesis using that [OF run lb] by blast
qed

text \<open>
  C27. A command element is written whole and alone: it occupies the pages its element count says,
  carries sequence, function, length and payload where the receiver looks for them, its 64-bit
  words fold to a zero checksum, and no byte outside it changes.
\<close>

theorem nv_gsp_cmdq_write_element:
  assumes "length payload = unat plen" "unat plen + 8192 < 2 ^ 32"
    and "T = roundup 4096 (48 + roundup 8 (32 + unat plen))"
    and "e = cmdq + 0x1000 + unat slot * 0x1000" and "e + T \<le> length shm"
  shows "\<exists>b. nv_gsp_cmdq_write shm cmdq slot seq fn payload plen = Some (of_nat (T div 4096), b)
    \<and> length b = length shm \<and> take e b = take e shm \<and> drop (e + T) b = drop (e + T) shm
    \<and> element_ok (take T (drop e b)) seq fn payload"
proof -
  obtain b where b: "nv_gsp_cmdq_write shm cmdq slot seq fn payload plen = Some (of_nat (T div 4096), b)"
    "length b = length shm" "element_ok (fld b e T) seq fn payload"
    "\<And>j n. j + n \<le> e \<or> e + T \<le> j \<Longrightarrow> fld b j n = fld shm j n"
    by (rule cmdq_write_spec [OF assms]) blast
  have "take e b = take e shm" using b(4) [of 0 e] by (simp add: fld_def)
  moreover have "drop (e + T) b = drop (e + T) shm"
    using b(4) [of "e + T" "length shm - (e + T)"] b(2) by (simp add: fld_def)
  ultimately show ?thesis using b(1-3) by (auto simp: fld_def)
qed

theorem nv_gsp_cmdq_write_witness:
  "\<exists>b. nv_gsp_cmdq_write (replicate 0x81000 0) 0x1000 3 7 76 (replicate 500 1) 500 = Some (1, b)
     \<and> element_ok (take 4096 (drop 0x5000 b)) 7 76 (replicate 500 1)"
proof -
  have u: "unat (500 :: u32) = 500" "unat (3 :: u32) = 3" by simp_all
  have p: "length (replicate 500 (1 :: u8)) = unat (500 :: u32)" unfolding u by (rule length_replicate)
  have q: "unat (500 :: u32) + 8192 < 2 ^ 32" unfolding u by simp
  have t: "4096 = roundup 4096 (48 + roundup 8 (32 + unat (500 :: u32)))" unfolding u by (simp add: roundup_def)
  have e: "0x5000 = 0x1000 + 0x1000 + unat (3 :: u32) * 0x1000" unfolding u by simp
  have f: "0x5000 + 4096 \<le> length (replicate 0x81000 (0 :: u8))" unfolding length_replicate by simp
  show ?thesis using nv_gsp_cmdq_write_element [OF p q t e f, of 7 76] by auto
qed

text \<open>
  The writer does not wrap at the end of the ring.  A two-page element placed in the last slot
  runs over the end of the command queue: the write pointer of the message queue, which only the GSP
  may advance, then reads as four bytes of the request.
\<close>

theorem nv_gsp_cmdq_write_overruns_ring:
  assumes "length payload = unat plen" "4036 \<le> unat plen" "unat plen \<le> 8000"
    and "length shm = unat (sl_total_size nv_gsp_shm_compute)"
  shows "\<exists>b. nv_gsp_cmdq_write shm (unat (sl_cmdq_off nv_gsp_shm_compute))
      (sl_msg_count nv_gsp_shm_compute - 1) seq fn payload plen = Some (2, b)
    \<and> nv_gsp_msgq_writeptr b nv_gsp_shm_compute = ld32 payload 4032"
proof -
  have T: "8192 = roundup 4096 (48 + roundup 8 (32 + unat plen))"
  proof -
    have "4068 \<le> roundup 8 (32 + unat plen)" "roundup 8 (32 + unat plen) < 8040"
      using assms(2,3) roundup_ge [of 8 "32 + unat plen"] roundup_less [of 8 "32 + unat plen"] by simp_all
    then have "(48 + roundup 8 (32 + unat plen) + 4096 - 1) div 4096 = 2" by (intro div_nat_eqI) simp_all
    then show ?thesis unfolding roundup_def [of 4096] by simp
  qed
  have e: "0x40000 = unat (0x1000 :: u64) + 0x1000 + unat (62 :: u32) * 0x1000" by simp
  have pl: "unat plen + 8192 < 2 ^ 32" using assms(3) by simp
  have fits: "0x40000 + 8192 \<le> length shm" using assms(4) unfolding shm_layout by simp
  obtain b where b: "nv_gsp_cmdq_write shm (unat (0x1000 :: u64)) 62 seq fn payload plen = Some (of_nat (8192 div 4096), b)"
    "length b = length shm" "element_ok (fld b 0x40000 8192) seq fn payload"
    "\<And>j n. j + n \<le> 0x40000 \<or> 0x40000 + 8192 \<le> j \<Longrightarrow> fld b j n = fld shm j n"
    by (rule cmdq_write_spec [OF assms(1) pl T e fits]) blast
  let ?E = "fld b 0x40000 8192"
  have pay: "fld ?E 80 (length payload) = payload" using b(3) by (simp add: element_ok_def)
  have "fld b 0x41010 4 = fld ?E (80 + 4032) 4" by (simp add: fld_fld)
  also have "\<dots> = fld (fld ?E 80 (length payload)) 4032 4" using assms(1,2) by (simp add: fld_fld)
  finally have f: "fld b 0x41010 4 = fld payload 4032 4" unfolding pay .
  have "ld32 b 0x41010 = ld32 payload 4032"
  proof -
    have "ld32 b 0x41010 = Some v \<longleftrightarrow> ld32 payload 4032 = Some v" for v
      unfolding ld32_iff f using fits b(2) assms(1,2) by simp
    then show ?thesis by (metis not_Some_eq)
  qed
  then show ?thesis using b(1) by (simp add: shm_layout nv_gsp_msgq_writeptr_def)
qed

theorem nv_gsp_cmdq_write_overrun_witness:
  "\<exists>b. nv_gsp_cmdq_write (replicate 0x81000 0) 0x1000 62 0 4 (replicate 5000 0x7F) 5000 = Some (2, b)
    \<and> nv_gsp_msgq_writeptr b nv_gsp_shm_compute = Some 0x7F7F7F7F"
proof -
  have u: "unat (5000 :: u32) = 5000" by simp
  have p: "length (replicate 5000 (0x7F :: u8)) = unat (5000 :: u32)" unfolding u by (rule length_replicate)
  have l: "4036 \<le> unat (5000 :: u32)" "unat (5000 :: u32) \<le> 8000" unfolding u by simp_all
  have s: "length (replicate 0x81000 (0 :: u8)) = unat (sl_total_size nv_gsp_shm_compute)"
    unfolding shm_layout length_replicate by simp
  have "ld32 (replicate 5000 (0x7F :: u8)) 4032 = Some 0x7F7F7F7F"
    by (simp add: le32_def)
  then show ?thesis using nv_gsp_cmdq_write_overruns_ring [OF p l s, of 0 4] unfolding shm_layout by auto
qed

end
