(* ===== verification/GspChan.thy ===== *)
theory GspChan
  imports GspRpc
begin

text \<open>
  The two-way call of \<open>driver/gsp/gsp_rm.c\<close>: \<open>nv_gsp_rpc_call\<close> puts a request into the
  command queue, rings the GSP and drains the message queue until the answer comes.

  The GSP shares the region and runs concurrently.  It is a parameter: an agent with a state of its
  own that may rewrite the region whenever the driver rings or waits.  A channel holds the region,
  the agent's state and the driver's queue indices.
\<close>

abbreviation (input) NV_GSP_RM_OK :: int where "NV_GSP_RM_OK \<equiv> 0"
abbreviation (input) NV_GSP_RM_ERR_ARG :: int where "NV_GSP_RM_ERR_ARG \<equiv> -1"
abbreviation (input) NV_GSP_RM_ERR_TIMEOUT :: int where "NV_GSP_RM_ERR_TIMEOUT \<equiv> -2"
abbreviation (input) NV_GSP_RM_ERR_BOUNDS :: int where "NV_GSP_RM_ERR_BOUNDS \<equiv> -3"

record 'g nv_gsp_rpc_chan =
  ch_shm :: "u8 list"
  ch_lay :: nv_gsp_shm_layout_t
  ch_cmdq_wptr :: u32
  ch_seq :: u32
  ch_msgq_rptr :: u32
  ch_gsp :: 'g

record 'g gsp_agent =
  ag_ring :: "u8 list \<times> 'g \<Rightarrow> u8 list \<times> 'g"
  ag_udelay :: "u32 \<Rightarrow> u8 list \<times> 'g \<Rightarrow> u8 list \<times> 'g"

definition gsp_acts :: "(u8 list \<times> 'g \<Rightarrow> u8 list \<times> 'g) \<Rightarrow> 'g nv_gsp_rpc_chan \<Rightarrow> 'g nv_gsp_rpc_chan" where
  "gsp_acts f ch = (let (b, g) = f (ch_shm ch, ch_gsp ch) in ch\<lparr>ch_shm := b, ch_gsp := g\<rparr>)"

text \<open>What a call gives back: an error code, or payload, its full length and the RPC result.\<close>

type_synonym rpc_reply = "int + (u8 list \<times> u32 \<times> u32)"

text \<open>\<open>while (p >= n) p -= n;\<close>\<close>

partial_function (option) ring_wrap :: "u32 \<Rightarrow> u32 \<Rightarrow> u32 option" where
  "ring_wrap n p = (if p \<ge> n then ring_wrap n (p - n) else Some p)"

declare ring_wrap.simps [code]

definition msgq_set_readptr :: "'g nv_gsp_rpc_chan \<Rightarrow> u32 \<Rightarrow> 'g nv_gsp_rpc_chan option" where
  "msgq_set_readptr ch rptr =
     do { b \<leftarrow> st32 (ch_shm ch) (unat (sl_msgq_off (ch_lay ch)) + NV_GSP_MSGQ_RXHDROFF) rptr;
          Some (ch\<lparr>ch_shm := b\<rparr>) }"

definition msgq_consume :: "'g nv_gsp_rpc_chan \<Rightarrow> u32 \<Rightarrow> 'g nv_gsp_rpc_chan option" where
  "msgq_consume ch mec =
     do { p \<leftarrow> ring_wrap (sl_msg_count (ch_lay ch)) (ch_msgq_rptr ch + mec);
          msgq_set_readptr (ch\<lparr>ch_msgq_rptr := p\<rparr>) p }"

text \<open>The inner loop \<open>while (ch->msgq_rptr != wptr)\<close>; \<^const>\<open>None\<close> in the pair: nothing for us.\<close>

partial_function (option) rpc_drain ::
  "u32 \<Rightarrow> u32 \<Rightarrow> u32 \<Rightarrow> 'g nv_gsp_rpc_chan \<Rightarrow> (rpc_reply option \<times> 'g nv_gsp_rpc_chan) option" where
  "rpc_drain fn reply_cap wptr ch =
     (if ch_msgq_rptr ch = wptr then Some (None, ch)
      else
        let b = ch_shm ch;
            count = sl_msg_count (ch_lay ch);
            e = unat (sl_msgq_off (ch_lay ch)) + unat NV_GSP_QUEUE_ENTRYOFF
                + unat (ch_msgq_rptr ch) * unat NV_GSP_QUEUE_MSGSIZE;
            r = e + NV_GSP_RPC_HDR_OFF
        in do { mec0 \<leftarrow> ld32 b (e + NV_GSP_MSG_ELEMCOUNT_OFF);
                let mec = (if mec0 = 0 \<or> mec0 > count then 1 else mec0) in
                do { mfn \<leftarrow> ld32 b (r + NV_GSP_RPC_F_FUNCTION);
                     mlen \<leftarrow> ld32 b (r + NV_GSP_RPC_F_LENGTH);
                     mres \<leftarrow> ld32 b (r + 16);
                     if mfn = fn then
                       let plen = (if mlen \<ge> NV_GSP_RPC_HDR_SIZE then mlen - NV_GSP_RPC_HDR_SIZE else 0) in
                       if ch_msgq_rptr ch + mec > count then Some (Some (Inl NV_GSP_RM_ERR_BOUNDS), ch)
                       else let n = min plen reply_cap in
                            do { data \<leftarrow> (if n = 0 then Some [] else rd_bytes b (e + NV_GSP_RPC_PAYLOAD_OFF) (unat n));
                                 ch \<leftarrow> msgq_consume ch mec;
                                 Some (Some (Inr (data, plen, mres)), ch) }
                     else do { ch \<leftarrow> msgq_consume ch mec; rpc_drain fn reply_cap wptr ch } } })"

declare rpc_drain.simps [code]

partial_function (option) rpc_poll ::
  "'g gsp_agent \<Rightarrow> u32 \<Rightarrow> u32 \<Rightarrow> u32 \<Rightarrow> u32 \<Rightarrow> 'g nv_gsp_rpc_chan \<Rightarrow> (rpc_reply \<times> 'g nv_gsp_rpc_chan) option" where
  "rpc_poll ag fn reply_cap timeout_us waited ch =
     do { wptr \<leftarrow> nv_gsp_msgq_writeptr (ch_shm ch) (ch_lay ch);
          (r, ch) \<leftarrow> rpc_drain fn reply_cap wptr ch;
          case r of
            Some res \<Rightarrow> Some (res, ch)
          | None \<Rightarrow>
              if waited \<ge> timeout_us then Some (Inl NV_GSP_RM_ERR_TIMEOUT, ch)
              else let ch = gsp_acts (ag_udelay ag 1000) ch;
                       waited = waited + 1000;
                       ch = (if waited mod 200000 = 0 then gsp_acts (ag_ring ag) ch else ch)
                   in rpc_poll ag fn reply_cap timeout_us waited ch }"

declare rpc_poll.simps [code]

definition nv_gsp_rpc_call ::
  "'g gsp_agent \<Rightarrow> 'g nv_gsp_rpc_chan \<Rightarrow> u32 \<Rightarrow> u8 list \<Rightarrow> u32 \<Rightarrow> u32 \<Rightarrow> u32 \<Rightarrow> (rpc_reply \<times> 'g nv_gsp_rpc_chan) option" where
  "nv_gsp_rpc_call ag ch fn req req_len reply_cap timeout_us =
     (let timeout_us = (if timeout_us = 0 then 4000000 else timeout_us);
          lay = ch_lay ch
      in do { (ec, b) \<leftarrow> nv_gsp_cmdq_write (ch_shm ch) (unat (sl_cmdq_off lay)) (ch_cmdq_wptr ch) (ch_seq ch) fn req req_len;
              p \<leftarrow> ring_wrap (sl_msg_count lay) (ch_cmdq_wptr ch + ec);
              b \<leftarrow> nv_gsp_cmdq_set_writeptr b lay p;
              let ch = ch\<lparr>ch_shm := b, ch_cmdq_wptr := p, ch_seq := ch_seq ch + 1\<rparr>;
                  ch = gsp_acts (ag_ring ag) ch
              in rpc_poll ag fn reply_cap timeout_us 0 ch })"

section \<open>The queue contract\<close>

text \<open>A message as it lies in its slot, and the messages between two ring indices.\<close>

record gmsg =
  gm_count :: u32
  gm_fn :: u32
  gm_len :: u32
  gm_res :: u32
  gm_data :: "u8 list"

definition slot_off :: "u32 \<Rightarrow> nat" where
  "slot_off r = 0x42000 + unat r * 0x1000"

definition msg_at :: "u8 list \<Rightarrow> nat \<Rightarrow> gmsg \<Rightarrow> bool" where
  "msg_at b e m \<longleftrightarrow> ld32 b (e + 40) = Some (gm_count m) \<and> ld32 b (e + 60) = Some (gm_fn m)
     \<and> ld32 b (e + 56) = Some (gm_len m) \<and> ld32 b (e + 64) = Some (gm_res m)
     \<and> fld b (e + 80) 4016 = gm_data m \<and> length (gm_data m) = 4016"

primrec queue_holds :: "u8 list \<Rightarrow> u32 \<Rightarrow> u32 \<Rightarrow> gmsg list \<Rightarrow> bool" where
  "queue_holds b r w [] \<longleftrightarrow> r = w"
| "queue_holds b r w (m # ms) \<longleftrightarrow> r \<noteq> w \<and> msg_at b (slot_off r) m
     \<and> 1 \<le> unat (gm_count m) \<and> unat (gm_count m) \<le> 63
     \<and> queue_holds b (of_nat ((unat r + unat (gm_count m)) mod 63)) w ms"

definition writeptr_is :: "u8 list \<Rightarrow> u32 \<Rightarrow> bool" where
  "writeptr_is b w \<longleftrightarrow> ld32 b 0x41010 = Some w"

definition readptr_is :: "u8 list \<Rightarrow> u32 \<Rightarrow> bool" where
  "readptr_is b r \<longleftrightarrow> ld32 b 0x41020 = Some r"

text \<open>
  The producer's side of the protocol: whatever the GSP does, the region keeps its size, the read
  pointer is left alone and messages are only appended behind those not yet consumed.
\<close>

definition appends :: "(u8 list \<times> 'g \<Rightarrow> u8 list \<times> 'g) \<Rightarrow> bool" where
  "appends f \<longleftrightarrow> (\<forall>b g r w ms. length b = 0x81000 \<and> readptr_is b r \<and> writeptr_is b w \<and> queue_holds b r w ms \<longrightarrow>
     (case f (b, g) of (b', g') \<Rightarrow> length b' = 0x81000 \<and> readptr_is b' r \<and>
        (\<exists>w' new. writeptr_is b' w' \<and> queue_holds b' r w' (ms @ new))))"

definition gsp_protocol :: "'g gsp_agent \<Rightarrow> bool" where
  "gsp_protocol ag \<longleftrightarrow> appends (ag_ring ag) \<and> appends (ag_udelay ag 1000)"

text \<open>The channel invariant, with the messages not yet consumed.\<close>

definition chan_ok :: "'g nv_gsp_rpc_chan \<Rightarrow> gmsg list \<Rightarrow> bool" where
  "chan_ok ch ms \<longleftrightarrow> ch_lay ch = nv_gsp_shm_compute \<and> length (ch_shm ch) = 0x81000
     \<and> unat (ch_cmdq_wptr ch) < 63 \<and> unat (ch_msgq_rptr ch) < 63 \<and> readptr_is (ch_shm ch) (ch_msgq_rptr ch)
     \<and> (\<exists>w. writeptr_is (ch_shm ch) w \<and> queue_holds (ch_shm ch) (ch_msgq_rptr ch) w ms)"

definition answer :: "u32 \<Rightarrow> gmsg \<Rightarrow> u8 list \<times> u32 \<times> u32" where
  "answer cap m = (let plen = (if 32 \<le> unat (gm_len m) then gm_len m - 32 else 0)
     in (take (unat (min plen cap)) (gm_data m), plen, gm_res m))"

section \<open>Ring arithmetic and stability\<close>

lemma ring_wrap_mod: "0 < unat n \<Longrightarrow> ring_wrap n p = Some (of_nat (unat p mod unat n))"
proof (induction "unat p" arbitrary: p rule: less_induct)
  case less
  show ?case
  proof (cases "p \<ge> n")
    case True
    then have le: "unat n \<le> unat p" by (simp add: word_le_nat_alt)
    then have d: "unat (p - n) = unat p - unat n" by (rule unat_sub_small)
    have "ring_wrap n (p - n) = Some (of_nat (unat (p - n) mod unat n))"
      using less d le by simp
    moreover have "unat (p - n) mod unat n = unat p mod unat n" unfolding d using le by (simp add: le_mod_geq)
    ultimately show ?thesis using True by (subst ring_wrap.simps) simp
  next
    case False
    then have "unat p < unat n" by (simp add: word_le_nat_alt)
    then show ?thesis using False by (subst ring_wrap.simps) simp
  qed
qed

lemma ring_wrap_63: "unat p + unat q < 2 ^ 32 \<Longrightarrow> ring_wrap 63 (p + q) = Some (of_nat ((unat p + unat q) mod 63))"
  using ring_wrap_mod [of 63 "p + q"] by (simp add: unat_add_small)

lemma unat_mod63: "unat (of_nat (n mod 63) :: u32) = n mod 63"
proof (rule unat_of_nat_small)
  have "n mod 63 < 63" by simp
  then show "n mod 63 < 2 ^ LENGTH(32)" by simp
qed

lemma ld32_stable: "(\<And>j n. P j n \<Longrightarrow> fld b' j n = fld b j n) \<Longrightarrow> length b' = length b \<Longrightarrow> P i 4 \<Longrightarrow> ld32 b' i = ld32 b i"
  by (rule ld32_cong)

lemma queue_holds_stable:
  assumes "\<And>j n. 0x42000 \<le> j \<Longrightarrow> fld b' j n = fld b j n" "length b' = length b"
  shows "queue_holds b r w ms \<Longrightarrow> queue_holds b' r w ms"
proof (induction ms arbitrary: r)
  case (Cons m ms)
  have "ld32 b' (slot_off r + k) = ld32 b (slot_off r + k)" for k
    using assms by (intro ld32_cong) (simp_all add: slot_off_def)
  moreover have "fld b' (slot_off r + 80) 4016 = fld b (slot_off r + 80) 4016"
    using assms by (simp add: slot_off_def)
  ultimately show ?case using Cons by (simp add: msg_at_def del: ld32_Some)
qed simp

lemma set_readptr_ok:
  assumes "ch_lay ch = nv_gsp_shm_compute" "length (ch_shm ch) = 0x81000"
  obtains b where "msgq_set_readptr ch r = Some (ch\<lparr>ch_shm := b\<rparr>)" "length b = 0x81000" "readptr_is b r"
    "\<And>j n. j + n \<le> 0x41020 \<or> 0x41024 \<le> j \<Longrightarrow> fld b j n = fld (ch_shm ch) j n"
proof
  let ?b = "splice (ch_shm ch) 0x41020 (bytes32 r)"
  show "msgq_set_readptr ch r = Some (ch\<lparr>ch_shm := ?b\<rparr>)"
    using assms by (simp add: msgq_set_readptr_def shm_layout)
  show "length ?b = 0x81000" using assms(2) by simp
  have "fld ?b 0x41020 (length (bytes32 r)) = bytes32 r" using assms(2) by (intro fld_splice_same) simp
  then show "readptr_is ?b r" unfolding readptr_is_def using assms(2) by (intro ld32_fldD) simp_all
  show "fld ?b j n = fld (ch_shm ch) j n" if "j + n \<le> 0x41020 \<or> 0x41024 \<le> j" for j n
    using that assms(2) by (intro fld_splice_disj) auto
qed

section \<open>Draining and polling\<close>

definition same_cmd :: "'g nv_gsp_rpc_chan \<Rightarrow> 'g nv_gsp_rpc_chan \<Rightarrow> bool" where
  "same_cmd ch ch' \<longleftrightarrow> ch_cmdq_wptr ch' = ch_cmdq_wptr ch \<and> ch_seq ch' = ch_seq ch"

lemma same_cmd_refl [simp]: "same_cmd ch ch" by (simp add: same_cmd_def)

lemma same_cmd_trans: "same_cmd a b \<Longrightarrow> same_cmd b c \<Longrightarrow> same_cmd a c" by (simp add: same_cmd_def)

text \<open>The stream of messages splits at the first one with the awaited function.\<close>

definition first_match :: "u32 \<Rightarrow> gmsg list \<Rightarrow> gmsg \<Rightarrow> gmsg list \<Rightarrow> bool" where
  "first_match fn ms m rest \<longleftrightarrow> (\<exists>pre. ms = pre @ m # rest \<and> (\<forall>x\<in>set pre. gm_fn x \<noteq> fn) \<and> gm_fn m = fn)"

definition no_match :: "u32 \<Rightarrow> gmsg list \<Rightarrow> bool" where
  "no_match fn ms \<longleftrightarrow> (\<forall>x\<in>set ms. gm_fn x \<noteq> fn)"

lemma first_match_skip: "no_match fn ms \<Longrightarrow> first_match fn s m rest \<Longrightarrow> first_match fn (ms @ s) m rest"
  unfolding first_match_def no_match_def by (metis Un_iff append_assoc set_append)

lemma first_match_append: "first_match fn ms m rest \<Longrightarrow> first_match fn (ms @ s) m (rest @ s)"
  unfolding first_match_def by auto

definition call_outcome :: "u32 \<Rightarrow> u32 \<Rightarrow> rpc_reply \<Rightarrow> gmsg list \<Rightarrow> 'g nv_gsp_rpc_chan \<Rightarrow> bool" where
  "call_outcome fn cap res s ch \<longleftrightarrow> (case res of
       Inr a \<Rightarrow> \<exists>m rest. first_match fn s m rest \<and> a = answer cap m \<and> length (gm_data m) = 4016 \<and> chan_ok ch rest
     | Inl rc \<Rightarrow> rc = NV_GSP_RM_ERR_TIMEOUT \<and> no_match fn s \<and> chan_ok ch []
         \<or> rc = NV_GSP_RM_ERR_BOUNDS \<and> (\<exists>m rest. first_match fn s m rest
             \<and> 63 < unat (ch_msgq_rptr ch) + unat (gm_count m) \<and> chan_ok ch (m # rest)))"

lemma call_outcome_skip: "no_match fn ms \<Longrightarrow> call_outcome fn cap res s ch \<Longrightarrow> call_outcome fn cap res (ms @ s) ch"
  by (auto simp: call_outcome_def no_match_def first_match_skip [unfolded no_match_def] split: sum.splits)
    (blast intro: first_match_skip [unfolded no_match_def])+

lemma consume_ok:
  assumes ch: "chan_ok ch (m # ms)" and w: "writeptr_is (ch_shm ch) w"
  obtains ch' where "msgq_consume ch (gm_count m) = Some ch'" "chan_ok ch' ms" "writeptr_is (ch_shm ch') w" "same_cmd ch ch'"
proof -
  have lay: "ch_lay ch = nv_gsp_shm_compute" "length (ch_shm ch) = 0x81000" "unat (ch_cmdq_wptr ch) < 63"
    "unat (ch_msgq_rptr ch) < 63" using ch by (simp_all add: chan_ok_def)
  have q: "queue_holds (ch_shm ch) (ch_msgq_rptr ch) w (m # ms)"
    using ch w unfolding chan_ok_def writeptr_is_def by (metis option.inject)
  let ?p = "of_nat ((unat (ch_msgq_rptr ch) + unat (gm_count m)) mod 63) :: u32"
  let ?ch = "ch\<lparr>ch_msgq_rptr := ?p\<rparr>"
  have p: "ring_wrap 63 (ch_msgq_rptr ch + gm_count m) = Some ?p"
    using q lay(4) by (intro ring_wrap_63) simp
  have lay': "ch_lay ?ch = nv_gsp_shm_compute" "length (ch_shm ?ch) = 0x81000" using lay by simp_all
  obtain b where b: "msgq_set_readptr ?ch ?p = Some (?ch\<lparr>ch_shm := b\<rparr>)" "length b = 0x81000" "readptr_is b ?p"
    "\<And>j n. j + n \<le> 0x41020 \<or> 0x41024 \<le> j \<Longrightarrow> fld b j n = fld (ch_shm ?ch) j n"
    by (rule set_readptr_ok [OF lay', of ?p]) blast
  have st: "queue_holds b ?p w ms"
    by (rule queue_holds_stable [of b "ch_shm ch"]) (use b(2,4) lay(2) q in auto)
  have wb: "writeptr_is b w"
    using ld32_cong [of b "0x41010" "ch_shm ch"] b(2) b(4) [of "0x41010" 4] lay(2) w by (simp add: writeptr_is_def del: ld32_Some)
  show thesis
  proof (rule that [of "?ch\<lparr>ch_shm := b\<rparr>"])
    show "msgq_consume ch (gm_count m) = Some (?ch\<lparr>ch_shm := b\<rparr>)"
      using p b(1) lay(1) by (simp add: msgq_consume_def shm_layout)
    show "chan_ok (?ch\<lparr>ch_shm := b\<rparr>) ms"
      using lay b(2,3) st wb unat_mod63 by (auto simp: chan_ok_def)
    show "writeptr_is (ch_shm (?ch\<lparr>ch_shm := b\<rparr>)) w" using wb by simp
    show "same_cmd ch (?ch\<lparr>ch_shm := b\<rparr>)" by (simp add: same_cmd_def)
  qed
qed

lemma gsp_acts_ok:
  assumes "chan_ok ch ms" "appends f"
  obtains new where "chan_ok (gsp_acts f ch) (ms @ new)" "same_cmd ch (gsp_acts f ch)"
proof -
  obtain w where w: "writeptr_is (ch_shm ch) w" "queue_holds (ch_shm ch) (ch_msgq_rptr ch) w ms"
    using assms(1) by (auto simp: chan_ok_def)
  obtain b g where f: "f (ch_shm ch, ch_gsp ch) = (b, g)" by (cases "f (ch_shm ch, ch_gsp ch)") auto
  have "length b = 0x81000 \<and> readptr_is b (ch_msgq_rptr ch)
    \<and> (\<exists>w' new. writeptr_is b w' \<and> queue_holds b (ch_msgq_rptr ch) w' (ms @ new))"
  proof -
    have p: "length (ch_shm ch) = 0x81000 \<and> readptr_is (ch_shm ch) (ch_msgq_rptr ch) \<and> writeptr_is (ch_shm ch) w
      \<and> queue_holds (ch_shm ch) (ch_msgq_rptr ch) w ms" using assms(1) w by (simp add: chan_ok_def)
    show ?thesis
      using assms(2) [unfolded appends_def, rule_format, OF p, of "ch_gsp ch"] unfolding f prod.case .
  qed
  then show thesis using that assms(1) f by (auto simp: chan_ok_def gsp_acts_def same_cmd_def)
qed

lemma drain_spec:
  assumes cap: "unat cap \<le> 4016"
  shows "chan_ok ch ms \<Longrightarrow> writeptr_is (ch_shm ch) w \<Longrightarrow>
    \<exists>r ch'. rpc_drain fn cap w ch = Some (r, ch') \<and> same_cmd ch ch' \<and>
      (case r of None \<Rightarrow> no_match fn ms \<and> chan_ok ch' [] | Some res \<Rightarrow> call_outcome fn cap res ms ch')"
proof (induction ms arbitrary: ch)
  case Nil
  then have "ch_msgq_rptr ch = w" unfolding chan_ok_def writeptr_is_def by auto
  then show ?case using Nil by (subst rpc_drain.simps) (simp add: no_match_def)
next
  case (Cons m ms)
  have lay: "ch_lay ch = nv_gsp_shm_compute" "length (ch_shm ch) = 0x81000" "unat (ch_msgq_rptr ch) < 63"
    using Cons.prems by (simp_all add: chan_ok_def)
  have q: "queue_holds (ch_shm ch) (ch_msgq_rptr ch) w (m # ms)"
    using Cons.prems unfolding chan_ok_def writeptr_is_def by (metis option.inject)
  let ?b = "ch_shm ch" and ?e = "slot_off (ch_msgq_rptr ch)"
  have ne: "ch_msgq_rptr ch \<noteq> w" and at: "msg_at ?b ?e m"
    and c: "1 \<le> unat (gm_count m)" "unat (gm_count m) \<le> 63" using q by simp_all
  have e: "unat (0x41000 :: u64) + unat NV_GSP_QUEUE_ENTRYOFF + unat (ch_msgq_rptr ch) * unat NV_GSP_QUEUE_MSGSIZE = ?e"
    by (simp add: slot_off_def)
  have cm: "(if gm_count m = 0 \<or> gm_count m > 63 then 1 else gm_count m) = gm_count m"
    using c by (auto simp: word_less_nat_alt)
  have rd: "ld32 ?b (?e + 40) = Some (gm_count m)" "ld32 ?b (?e + 48 + 12) = Some (gm_fn m)"
    "ld32 ?b (?e + 48 + 8) = Some (gm_len m)" "ld32 ?b (?e + 48 + 16) = Some (gm_res m)"
    using at by (simp_all add: msg_at_def add.commute del: ld32_Some)
  let ?plen = "if gm_len m \<ge> NV_GSP_RPC_HDR_SIZE then gm_len m - NV_GSP_RPC_HDR_SIZE else 0"
  have step: "rpc_drain fn cap w ch =
     (if gm_fn m = fn then
        if ch_msgq_rptr ch + gm_count m > 63 then Some (Some (Inl NV_GSP_RM_ERR_BOUNDS), ch)
        else do { data \<leftarrow> (if min ?plen cap = 0 then Some [] else rd_bytes ?b (?e + 80) (unat (min ?plen cap)));
                  ch \<leftarrow> msgq_consume ch (gm_count m);
                  Some (Some (Inr (data, ?plen, gm_res m)), ch) }
      else do { ch \<leftarrow> msgq_consume ch (gm_count m); rpc_drain fn cap w ch })"
    by (subst rpc_drain.simps)
      (simp only: ne if_False lay(1) shm_layout nv_gsp_shm_layout_t.simps e Let_def rd cm bind.bind_lunit)
  obtain ch' where ch': "msgq_consume ch (gm_count m) = Some ch'" "chan_ok ch' ms" "writeptr_is (ch_shm ch') w" "same_cmd ch ch'"
    by (rule consume_ok [OF Cons.prems]) blast
  show ?case
  proof (cases "gm_fn m = fn")
    case True
    have fm: "first_match fn (m # ms) m ms" using True unfolding first_match_def by (intro exI [of _ "[]"]) simp
    have sum: "unat (ch_msgq_rptr ch + gm_count m) = unat (ch_msgq_rptr ch) + unat (gm_count m)"
      using lay(3) c by (intro unat_add_small) simp
    show ?thesis
    proof (cases "ch_msgq_rptr ch + gm_count m > 63")
      case big: True
      then have "63 < unat (ch_msgq_rptr ch) + unat (gm_count m)" using sum by (simp add: word_less_nat_alt)
      then have "call_outcome fn cap (Inl NV_GSP_RM_ERR_BOUNDS) (m # ms) ch"
        using fm Cons.prems(1) by (auto simp: call_outcome_def)
      then show ?thesis unfolding step if_P [OF True] if_P [OF big]
        by (intro exI [of _ "Some (Inl NV_GSP_RM_ERR_BOUNDS)"] exI [of _ ch]) simp
    next
      case small: False
      let ?n = "unat (min ?plen cap)"
      have n: "?n \<le> 4016" using cap by (simp add: min_def word_le_nat_alt)
      have rng: "?e + 80 + 4016 \<le> length ?b" using lay(2,3) by (simp add: slot_off_def)
      have "fld ?b (?e + 80) ?n = take ?n (gm_data m)"
        using at fld_fld [of 0 ?n 4016 ?b "?e + 80"] n by (simp add: msg_at_def fld_def)
      then have "rd_bytes ?b (?e + 80) ?n = Some (take ?n (gm_data m))" using n rng by (subst rd_bytes_fld) simp_all
      moreover have pl: "?plen = (if 32 \<le> unat (gm_len m) then gm_len m - 32 else 0)" by (simp add: word_le_nat_alt)
      ultimately have "rpc_drain fn cap w ch = Some (Some (Inr (answer cap m)), ch')"
        unfolding step if_P [OF True] if_not_P [OF small] answer_def Let_def using ch'(1) by (auto simp: pl)
      moreover have "call_outcome fn cap (Inr (answer cap m)) (m # ms) ch'"
        using fm ch'(2) at by (auto simp: call_outcome_def msg_at_def)
      ultimately show ?thesis using ch'(4) by auto
    qed
  next
    case False
    then have nm: "no_match fn [m]" by (simp add: no_match_def)
    obtain r ch2 where IH: "rpc_drain fn cap w ch' = Some (r, ch2)" "same_cmd ch' ch2"
      "case r of None \<Rightarrow> no_match fn ms \<and> chan_ok ch2 [] | Some res \<Rightarrow> call_outcome fn cap res ms ch2"
      using Cons.IH [OF ch'(2,3)] by blast
    have "case r of None \<Rightarrow> no_match fn (m # ms) \<and> chan_ok ch2 [] | Some res \<Rightarrow> call_outcome fn cap res (m # ms) ch2"
      using IH(3) False call_outcome_skip [OF nm, of cap _ ms ch2] by (auto simp: no_match_def split: option.splits)
    then show ?thesis unfolding step if_not_P [OF False] using ch'(1) IH(1) same_cmd_trans [OF ch'(4) IH(2)] by auto
  qed
qed

lemma poll_outcome:
  assumes ag: "gsp_protocol ag" and cap: "unat cap \<le> 4016" and fit: "unat timeout + 1000 \<le> 2 ^ 32"
  shows "chan_ok ch ms \<Longrightarrow> \<exists>res ch' new. rpc_poll ag fn cap timeout waited ch = Some (res, ch') \<and> same_cmd ch ch'
    \<and> call_outcome fn cap res (ms @ new) ch'"
proof (induction "unat timeout - unat waited" arbitrary: ch ms waited rule: less_induct)
  case less
  have lay: "ch_lay ch = nv_gsp_shm_compute" using less.prems by (simp add: chan_ok_def)
  obtain w where w: "writeptr_is (ch_shm ch) w" using less.prems by (auto simp: chan_ok_def)
  have rd: "nv_gsp_msgq_writeptr (ch_shm ch) (ch_lay ch) = Some w"
    using w by (simp add: nv_gsp_msgq_writeptr_def lay shm_layout writeptr_is_def del: ld32_Some)
  obtain r ch1 where d: "rpc_drain fn cap w ch = Some (r, ch1)" "same_cmd ch ch1"
    "case r of None \<Rightarrow> no_match fn ms \<and> chan_ok ch1 [] | Some res \<Rightarrow> call_outcome fn cap res ms ch1"
    using drain_spec [OF cap less.prems w] by blast
  show ?case
  proof (cases r)
    case (Some res)
    then show ?thesis using rd d by (subst rpc_poll.simps) (auto intro!: exI [of _ "[]"])
  next
    case None
    show ?thesis
    proof (cases "waited \<ge> timeout")
      case True
      then have "rpc_poll ag fn cap timeout waited ch = Some (Inl NV_GSP_RM_ERR_TIMEOUT, ch1)"
        using rd d(1) None by (subst rpc_poll.simps) simp
      moreover have "call_outcome fn cap (Inl NV_GSP_RM_ERR_TIMEOUT) (ms @ []) ch1"
        using d(3) None by (simp add: call_outcome_def)
      ultimately show ?thesis using d(2) by blast
    next
      case False
      then have lt: "unat waited < unat timeout" by (simp add: word_le_nat_alt)
      then have u: "unat (waited + 1000) = unat waited + 1000" using fit unat_add_small [of waited 1000] by simp
      let ?ch2 = "gsp_acts (ag_udelay ag 1000) ch1"
      let ?ch3 = "if (waited + 1000) mod 200000 = 0 then gsp_acts (ag_ring ag) ?ch2 else ?ch2"
      have ap: "appends (ag_udelay ag 1000)" "appends (ag_ring ag)" using ag by (simp_all add: gsp_protocol_def)
      have nm: "no_match fn ms" and ok1: "chan_ok ch1 []" using d(3) None by simp_all
      obtain n1 where n1: "chan_ok ?ch2 ([] @ n1)" "same_cmd ch1 ?ch2" by (rule gsp_acts_ok [OF ok1 ap(1)]) blast
      obtain n2 where n2: "chan_ok ?ch3 (n1 @ n2)" "same_cmd ?ch2 ?ch3"
      proof (cases "(waited + 1000) mod 200000 = 0")
        case True
        then show thesis using gsp_acts_ok [OF n1(1) ap(2)] that by auto
      next
        case False
        then show thesis using that [of "[]"] n1 by simp
      qed
      have un: "rpc_poll ag fn cap timeout waited ch = rpc_poll ag fn cap timeout (waited + 1000) ?ch3"
        using rd d(1) None False by (subst rpc_poll.simps) (simp add: Let_def)
      have "unat timeout - unat (waited + 1000) < unat timeout - unat waited" using lt u by simp
      from less.hyps [OF this n2(1)] obtain res ch' new where
        IH: "rpc_poll ag fn cap timeout (waited + 1000) ?ch3 = Some (res, ch')" "same_cmd ?ch3 ch'"
          "call_outcome fn cap res ((n1 @ n2) @ new) ch'" by blast
      have "call_outcome fn cap res (ms @ (n1 @ n2) @ new) ch'" by (rule call_outcome_skip [OF nm IH(3)])
      moreover have "same_cmd ch ch'" using d(2) n1(2) n2(2) IH(2) by (blast intro: same_cmd_trans)
      ultimately show ?thesis unfolding un using IH(1) by blast
    qed
  qed
qed

section \<open>The call\<close>

definition cmd_slot :: "u32 \<Rightarrow> nat" where
  "cmd_slot s = 0x2000 + unat s * 0x1000"

text \<open>The region as the GSP finds it when it is rung: the element in its slot, the pointer behind it.\<close>

definition posted :: "'g nv_gsp_rpc_chan \<Rightarrow> u32 \<Rightarrow> u8 list \<Rightarrow> u8 list \<Rightarrow> bool" where
  "posted ch fn req b \<longleftrightarrow> length b = 0x81000
     \<and> element_ok (fld b (cmd_slot (ch_cmdq_wptr ch)) 4096) (ch_seq ch) fn req
     \<and> ld32 b 0x1010 = Some (of_nat ((unat (ch_cmdq_wptr ch) + 1) mod 63))
     \<and> drop 0x41000 b = drop 0x41000 (ch_shm ch)"

definition sent :: "'g nv_gsp_rpc_chan \<Rightarrow> u8 list \<Rightarrow> 'g nv_gsp_rpc_chan" where
  "sent ch b = ch\<lparr>ch_shm := b, ch_cmdq_wptr := of_nat ((unat (ch_cmdq_wptr ch) + 1) mod 63), ch_seq := ch_seq ch + 1\<rparr>"

lemma one_page:
  assumes "unat n \<le> 4016"
  shows "4096 = roundup 4096 (48 + roundup 8 (32 + unat n))"
proof -
  have "roundup 8 (32 + unat n) \<le> 4048" using assms by (intro roundup_least) auto
  moreover have "0 < roundup 8 (32 + unat n)" using roundup_ge [of 8 "32 + unat n"] by simp
  ultimately have "(48 + roundup 8 (32 + unat n) + 4096 - 1) div 4096 = 1" by (intro div_nat_eqI) simp_all
  then show ?thesis by (simp add: roundup_def [of 4096])
qed

lemma chan_ok_region:
  assumes "chan_ok ch ms" "length b = 0x81000" "drop 0x41000 b = drop 0x41000 (ch_shm ch)"
  shows "chan_ok (sent ch b) ms"
proof -
  have f: "fld b j n = fld (ch_shm ch) j n" if "0x41000 \<le> j" for j n
  proof -
    have "drop j b = drop (j - 0x41000) (drop 0x41000 b)" "drop j (ch_shm ch) = drop (j - 0x41000) (drop 0x41000 (ch_shm ch))"
      using that by simp_all
    then show ?thesis using assms(3) by (simp add: fld_def)
  qed
  have len: "length b = length (ch_shm ch)" using assms(1,2) by (simp add: chan_ok_def)
  have l: "ld32 b j = ld32 (ch_shm ch) j" if "0x41000 \<le> j" for j using that f len by (intro ld32_cong) auto
  obtain w where w: "writeptr_is (ch_shm ch) w" "queue_holds (ch_shm ch) (ch_msgq_rptr ch) w ms"
    using assms(1) by (auto simp: chan_ok_def)
  have "queue_holds b (ch_msgq_rptr ch) w ms" by (rule queue_holds_stable [OF _ len w(2)]) (simp add: f)
  moreover have "writeptr_is b w" "readptr_is b (ch_msgq_rptr ch)"
    using w(1) assms(1) by (simp_all add: writeptr_is_def readptr_is_def chan_ok_def l del: ld32_Some)
  ultimately show ?thesis using assms(1,2) unat_mod63 by (auto simp: chan_ok_def sent_def)
qed

lemma rpc_call_posts:
  assumes ch: "chan_ok ch ms" and req: "length req = unat req_len" "unat req_len \<le> 4016"
  obtains b where "posted ch fn req b"
    "nv_gsp_rpc_call ag ch fn req req_len cap timeout =
       rpc_poll ag fn cap (if timeout = 0 then 4000000 else timeout) 0 (gsp_acts (ag_ring ag) (sent ch b))"
proof -
  have lay: "ch_lay ch = nv_gsp_shm_compute" "length (ch_shm ch) = 0x81000" "unat (ch_cmdq_wptr ch) < 63"
    using ch by (simp_all add: chan_ok_def)
  let ?e = "cmd_slot (ch_cmdq_wptr ch)"
  have e: "?e = unat (0x1000 :: u64) + 0x1000 + unat (ch_cmdq_wptr ch) * 0x1000" by (simp add: cmd_slot_def)
  have le: "?e + 4096 \<le> 0x41000" "0x2000 \<le> ?e" using lay(3) by (simp_all add: cmd_slot_def)
  have pl: "unat req_len + 8192 < 2 ^ 32" using req(2) by simp
  have fits: "?e + 4096 \<le> length (ch_shm ch)" using le lay(2) by simp
  obtain b where b: "nv_gsp_cmdq_write (ch_shm ch) (unat (0x1000 :: u64)) (ch_cmdq_wptr ch) (ch_seq ch) fn req req_len
      = Some (of_nat (4096 div 4096), b)"
    "length b = length (ch_shm ch)" "element_ok (fld b ?e 4096) (ch_seq ch) fn req"
    "\<And>j n. j + n \<le> ?e \<or> ?e + 4096 \<le> j \<Longrightarrow> fld b j n = fld (ch_shm ch) j n"
    by (rule cmdq_write_spec [OF req(1) pl one_page [OF req(2)] e fits]) blast
  let ?p = "of_nat ((unat (ch_cmdq_wptr ch) + 1) mod 63) :: u32"
  let ?b = "splice b 0x1010 (bytes32 ?p)"
  have p: "ring_wrap 63 (ch_cmdq_wptr ch + 1) = Some ?p" using ring_wrap_63 [of "ch_cmdq_wptr ch" 1] lay(3) by simp
  have s: "nv_gsp_cmdq_set_writeptr b nv_gsp_shm_compute ?p = Some ?b"
    using b(2) lay(2) by (simp add: nv_gsp_cmdq_set_writeptr_def shm_layout)
  have fr: "fld ?b j n = fld b j n" if "0x1014 \<le> j" for j n using that b(2) lay(2) by (intro fld_splice_disj) auto
  have lb: "length ?b = 0x81000" using b(2) lay(2) by simp
  show thesis
  proof (rule that)
    have "fld ?b ?e 4096 = fld b ?e 4096" using le(2) by (intro fr) simp
    moreover have "ld32 ?b 0x1010 = Some ?p"
      using fld_splice_same [of "0x1010" "bytes32 ?p" b] b(2) lay(2) by (intro ld32_fldD) simp_all
    moreover have "drop 0x41000 ?b = drop 0x41000 (ch_shm ch)"
      using fr [of "0x41000" "0x40000"] b(4) [of "0x41000" "0x40000"] le(1) lb lay(2) by (simp add: fld_def)
    ultimately show "posted ch fn req ?b" using b(3) lb by (simp add: posted_def)
    have cw: "nv_gsp_cmdq_write (ch_shm ch) (unat (sl_cmdq_off nv_gsp_shm_compute)) (ch_cmdq_wptr ch) (ch_seq ch) fn req req_len
      = Some (1, b)" using b(1) by (simp add: shm_layout)
    have p': "ring_wrap (sl_msg_count nv_gsp_shm_compute) (ch_cmdq_wptr ch + 1) = Some ?p" using p by (simp add: shm_layout)
    show "nv_gsp_rpc_call ag ch fn req req_len cap timeout =
       rpc_poll ag fn cap (if timeout = 0 then 4000000 else timeout) 0 (gsp_acts (ag_ring ag) (sent ch ?b))"
      by (simp only: nv_gsp_rpc_call_def Let_def lay(1) cw p' s bind.bind_lunit prod.case sent_def)
  qed
qed

lemma rpc_call_spec:
  assumes ag: "gsp_protocol ag" and ch: "chan_ok ch ms" and req: "length req = unat req_len" "unat req_len \<le> 4016"
    and cap: "unat cap \<le> 4016" and fit: "unat timeout + 1000 \<le> 2 ^ 32"
  obtains b res ch' new where "posted ch fn req b"
    "nv_gsp_rpc_call ag ch fn req req_len cap timeout = Some (res, ch')"
    "nv_gsp_rpc_call ag ch fn req req_len cap timeout =
       rpc_poll ag fn cap (if timeout = 0 then 4000000 else timeout) 0 (gsp_acts (ag_ring ag) (sent ch b))"
    "call_outcome fn cap res (ms @ new) ch'" "same_cmd (sent ch b) ch'"
proof -
  obtain b where b: "posted ch fn req b"
    "nv_gsp_rpc_call ag ch fn req req_len cap timeout =
       rpc_poll ag fn cap (if timeout = 0 then 4000000 else timeout) 0 (gsp_acts (ag_ring ag) (sent ch b))"
    by (rule rpc_call_posts [OF ch req]) blast
  have ok: "chan_ok (sent ch b) ms" using b(1) by (intro chan_ok_region [OF ch]) (simp_all add: posted_def)
  have ap: "appends (ag_ring ag)" using ag by (simp add: gsp_protocol_def)
  obtain n1 where n1: "chan_ok (gsp_acts (ag_ring ag) (sent ch b)) (ms @ n1)" "same_cmd (sent ch b) (gsp_acts (ag_ring ag) (sent ch b))"
    by (rule gsp_acts_ok [OF ok ap]) blast
  have fit': "unat (if timeout = 0 then 4000000 else timeout) + 1000 \<le> 2 ^ 32" using fit by simp
  obtain res ch' n2 where p: "rpc_poll ag fn cap (if timeout = 0 then 4000000 else timeout) 0
      (gsp_acts (ag_ring ag) (sent ch b)) = Some (res, ch')"
    "same_cmd (gsp_acts (ag_ring ag) (sent ch b)) ch'" "call_outcome fn cap res ((ms @ n1) @ n2) ch'"
    using poll_outcome [OF ag cap fit' n1(1), of fn 0] by blast
  show thesis
    using that [OF b(1) _ b(2), of res ch' "n1 @ n2"] p b(2) same_cmd_trans [OF n1(2) p(2)] by simp
qed

text \<open>
  C8. A call posts exactly one checksummed element and its write pointer before it rings, and then
  returns.  Its answer is the first message with the called function among those queued and those the
  GSP appends meanwhile; the events before it are consumed and dropped, the messages behind it stay.
  Without such a message the call times out with everything consumed; a matching message that would
  run over the end of the ring is refused and stays.
\<close>

theorem nv_gsp_rpc_call_correct:
  assumes "gsp_protocol ag" "chan_ok ch ms" "length req = unat req_len" "unat req_len \<le> 4016"
    "unat cap \<le> 4016" "unat timeout + 1000 \<le> 2 ^ 32"
  shows "\<exists>b res ch' new. posted ch fn req b
    \<and> nv_gsp_rpc_call ag ch fn req req_len cap timeout = Some (res, ch')
    \<and> nv_gsp_rpc_call ag ch fn req req_len cap timeout =
        rpc_poll ag fn cap (if timeout = 0 then 4000000 else timeout) 0 (gsp_acts (ag_ring ag) (sent ch b))
    \<and> ch_seq ch' = ch_seq ch + 1 \<and> unat (ch_cmdq_wptr ch') = (unat (ch_cmdq_wptr ch) + 1) mod 63
    \<and> (case res of
         Inr a \<Rightarrow> \<exists>m rest. first_match fn (ms @ new) m rest \<and> a = answer cap m \<and> length (gm_data m) = 4016
           \<and> chan_ok ch' rest
       | Inl rc \<Rightarrow> rc = NV_GSP_RM_ERR_TIMEOUT \<and> no_match fn (ms @ new) \<and> chan_ok ch' []
           \<or> rc = NV_GSP_RM_ERR_BOUNDS \<and> (\<exists>m rest. first_match fn (ms @ new) m rest
               \<and> 63 < unat (ch_msgq_rptr ch') + unat (gm_count m) \<and> chan_ok ch' (m # rest)))"
proof -
  obtain b res ch' new where r: "posted ch fn req b"
    "nv_gsp_rpc_call ag ch fn req req_len cap timeout = Some (res, ch')"
    "nv_gsp_rpc_call ag ch fn req req_len cap timeout =
       rpc_poll ag fn cap (if timeout = 0 then 4000000 else timeout) 0 (gsp_acts (ag_ring ag) (sent ch b))"
    "call_outcome fn cap res (ms @ new) ch'" "same_cmd (sent ch b) ch'"
    by (rule rpc_call_spec [OF assms]) blast
  then have "ch_seq ch' = ch_seq ch + 1 \<and> unat (ch_cmdq_wptr ch') = (unat (ch_cmdq_wptr ch) + 1) mod 63"
    by (simp add: same_cmd_def sent_def unat_mod63)
  then show ?thesis using r(1-4) unfolding call_outcome_def by blast
qed

definition idle_gsp :: "unit gsp_agent" where
  "idle_gsp = \<lparr> ag_ring = (\<lambda>s. s), ag_udelay = (\<lambda>d s. s) \<rparr>"

lemma idle_gsp_protocol: "gsp_protocol idle_gsp"
proof -
  have "\<exists>new. queue_holds b r w (ms @ new)" if "queue_holds b r w ms" for b r w ms
    using that by (intro exI [of _ "[]"]) simp
  then show ?thesis by (auto simp: gsp_protocol_def appends_def idle_gsp_def)
qed

definition demo_cells :: "(nat \<times> cell) list" where
  "demo_cells = [(0x41010, W32 1), (0x42028, W32 1), (0x42038, W32 60), (0x4203C, W32 76), (0x42040, W32 0)]"

lemma demo_chan:
  obtains ch :: "unit nv_gsp_rpc_chan" and m where "chan_ok ch [m]"
    "gm_fn m = 76" "gm_len m = 60" "gm_res m = 0" "gm_count m = 1" "ch_msgq_rptr ch = 0" "length (gm_data m) = 4016"
proof -
  let ?z = "replicate 0x81000 (0 :: u8)"
  have ok: "cells_ok 0x81000 demo_cells" by (simp add: demo_cells_def)
  have fit: "0 + 0x81000 \<le> length ?z" by (simp only: length_replicate)
  obtain b where b: "length b = length ?z"
    "\<And>o' c. (o', c) \<in> set demo_cells \<Longrightarrow> fld b (0 + o') (length (cell_bytes c)) = cell_bytes c"
    "\<And>j n. \<forall>f\<in>set demo_cells. 0 + cell_end f \<le> j \<or> j + n \<le> 0 + fst f \<Longrightarrow> fld b j n = fld ?z j n"
    by (rule stores_spec [OF ok fit]) blast
  have lb: "length b = 0x81000" unfolding b(1) by (rule length_replicate)
  have f: "ld32 b o' = Some v" if "(o', W32 v) \<in> set demo_cells" for o' v
    using b(2) [OF that] cells_ok_ends [OF ok that] lb by (intro ld32_fldD) simp_all
  have z: "ld32 b 0x41020 = Some 0"
  proof -
    have "fld b 0x41020 4 = fld ?z 0x41020 4" by (rule b(3)) (simp add: demo_cells_def)
    also have "\<dots> = bytes32 0" unfolding bytes_0 by (rule fld_replicate) simp
    finally show ?thesis using lb by (intro ld32_fldD) simp_all
  qed
  let ?m = "\<lparr>gm_count = 1, gm_fn = 76, gm_len = 60, gm_res = 0, gm_data = fld b 0x42050 4016\<rparr>"
  let ?ch = "\<lparr>ch_shm = b, ch_lay = nv_gsp_shm_compute, ch_cmdq_wptr = 5, ch_seq = 5, ch_msgq_rptr = 0, ch_gsp = ()\<rparr>"
  have "ld32 b 0x42028 = Some 1" "ld32 b 0x42038 = Some 60" "ld32 b 0x4203C = Some 76" "ld32 b 0x42040 = Some 0"
    by (rule f, simp add: demo_cells_def)+
  then have "msg_at b (slot_off 0) ?m" using lb by (simp add: msg_at_def slot_off_def del: ld32_Some)
  then have "queue_holds b 0 1 [?m]" by simp
  moreover have "writeptr_is b 1" unfolding writeptr_is_def by (rule f) (simp add: demo_cells_def)
  ultimately have "chan_ok ?ch [?m]" using z lb by (auto simp: chan_ok_def readptr_is_def)
  then show thesis using that lb by simp
qed

lemma demo_outcome:
  assumes "gm_fn m = fn" "gm_count m = 1" "call_outcome fn cap res ([m] @ new) ch'"
  shows "res = Inr (answer cap m)"
proof -
  have fm: "m' = m" if "first_match fn ([m] @ new) m' rest" for m' rest
    using that assms(1) unfolding first_match_def by (auto simp: Cons_eq_append_conv)
  have nm: "\<not> no_match fn ([m] @ new)" using assms(1) by (simp add: no_match_def)
  have rp: "unat (ch_msgq_rptr ch') < 63" if "chan_ok ch' ms" for ms using that by (simp add: chan_ok_def)
  show ?thesis
  proof (cases res)
    case (Inl rc)
    then obtain m' rest where "first_match fn ([m] @ new) m' rest" "63 < unat (ch_msgq_rptr ch') + unat (gm_count m')"
      "chan_ok ch' (m' # rest)" using assms(3) nm by (auto simp: call_outcome_def)
    then show ?thesis using fm rp assms(2) by fastforce
  next
    case (Inr a)
    then show ?thesis using assms(3) fm by (auto simp: call_outcome_def)
  qed
qed

theorem nv_gsp_rpc_call_witness:
  "\<exists>(ch :: unit nv_gsp_rpc_chan) data ch'.
     nv_gsp_rpc_call idle_gsp ch 76 [1, 2] 2 4 1000 = Some (Inr (data, 28, 0), ch') \<and> length data = 4"
proof -
  obtain ch :: "unit nv_gsp_rpc_chan" and m where ch: "chan_ok ch [m]"
    "gm_fn m = 76" "gm_len m = 60" "gm_res m = 0" "gm_count m = 1" "ch_msgq_rptr ch = 0" "length (gm_data m) = 4016"
    by (rule demo_chan)
  have h: "length [1, 2 :: u8] = unat (2 :: u32)" "unat (2 :: u32) \<le> 4016" "unat (4 :: u32) \<le> 4016"
    "unat (1000 :: u32) + 1000 \<le> 2 ^ 32" by simp_all
  obtain res ch' new where r: "nv_gsp_rpc_call idle_gsp ch 76 [1, 2] 2 4 1000 = Some (res, ch')"
    and "call_outcome 76 4 res ([m] @ new) ch'"
    unfolding call_outcome_def using nv_gsp_rpc_call_correct [OF idle_gsp_protocol ch(1) h, of 76] by blast
  then have "res = Inr (answer 4 m)" using demo_outcome [OF ch(2,5)] by blast
  moreover have "answer 4 m = (take 4 (gm_data m), 28, 0)" using ch(3,4) by (simp add: answer_def)
  ultimately show ?thesis using r ch(7) by (intro exI [of _ ch] exI [of _ "take 4 (gm_data m)"] exI [of _ ch']) simp
qed

end
