(* ===== verification/GspRm.thy ===== *)
theory GspRm
  imports GspChan FbRegion
begin

text \<open>
  \<open>driver/gsp/gsp_rm.c\<close> above the call: static information, object allocation, control calls
  and the requests built on them.
\<close>

abbreviation (input) NV_VGPU_MSG_FUNCTION_GET_GSP_STATIC_INFO :: u32 where "NV_VGPU_MSG_FUNCTION_GET_GSP_STATIC_INFO \<equiv> 65"
abbreviation (input) NV_VGPU_MSG_FUNCTION_GSP_RM_CONTROL :: u32 where "NV_VGPU_MSG_FUNCTION_GSP_RM_CONTROL \<equiv> 76"
abbreviation (input) NV_VGPU_MSG_FUNCTION_GSP_RM_ALLOC :: u32 where "NV_VGPU_MSG_FUNCTION_GSP_RM_ALLOC \<equiv> 103"
abbreviation (input) NV01_ROOT :: u32 where "NV01_ROOT \<equiv> 0x0"
abbreviation (input) NV01_DEVICE_0 :: u32 where "NV01_DEVICE_0 \<equiv> 0x80"
abbreviation (input) NV20_SUBDEVICE_0 :: u32 where "NV20_SUBDEVICE_0 \<equiv> 0x2080"
abbreviation (input) FERMI_VASPACE_A :: u32 where "FERMI_VASPACE_A \<equiv> 0x90F1"
abbreviation (input) NV01_MEMORY_LIST_FBMEM :: u32 where "NV01_MEMORY_LIST_FBMEM \<equiv> 0x82"
abbreviation (input) NV01_MEMORY_LIST_SYSTEM :: u32 where "NV01_MEMORY_LIST_SYSTEM \<equiv> 0x81"
abbreviation (input) NV01_MEMORY_VIRTUAL :: u32 where "NV01_MEMORY_VIRTUAL \<equiv> 0x70"
abbreviation (input) NV_GSP_RM_CLIENT_HANDLE :: u32 where "NV_GSP_RM_CLIENT_HANDLE \<equiv> 0xC1D00000"
abbreviation (input) NV_GSP_RM_DEVICE_HANDLE :: u32 where "NV_GSP_RM_DEVICE_HANDLE \<equiv> 0xDE1D0000"
abbreviation (input) NV_GSP_RM_SUBDEV_HANDLE :: u32 where "NV_GSP_RM_SUBDEV_HANDLE \<equiv> 0x5D1D0000"
abbreviation (input) NV_GSP_RM_VASPACE_HANDLE :: u32 where "NV_GSP_RM_VASPACE_HANDLE \<equiv> 0x90F10000"
abbreviation (input) NV_GSP_RM_VRAM_HANDLE :: u32 where "NV_GSP_RM_VRAM_HANDLE \<equiv> 0xCA0001"
abbreviation (input) NV_GSP_RM_VMEM_HANDLE :: u32 where "NV_GSP_RM_VMEM_HANDLE \<equiv> 0x700001"
abbreviation (input) NV_VASPACE_FLAGS_EXTERNALLY_OWNED :: u32 where "NV_VASPACE_FLAGS_EXTERNALLY_OWNED \<equiv> 8"
abbreviation (input) NV0080_CTRL_CMD_DMA_SET_PAGE_DIRECTORY :: u32 where "NV0080_CTRL_CMD_DMA_SET_PAGE_DIRECTORY \<equiv> 0x801813"
abbreviation (input) NV0080_SET_PAGE_DIRECTORY_SIZE :: nat where "NV0080_SET_PAGE_DIRECTORY_SIZE \<equiv> 32"
abbreviation (input) NV_RM_CTRL_HDR_SIZE :: u32 where "NV_RM_CTRL_HDR_SIZE \<equiv> 24"
abbreviation (input) NV_RM_CTRL_HCLIENT_OFF :: nat where "NV_RM_CTRL_HCLIENT_OFF \<equiv> 0"
abbreviation (input) NV_RM_CTRL_HOBJECT_OFF :: nat where "NV_RM_CTRL_HOBJECT_OFF \<equiv> 4"
abbreviation (input) NV_RM_CTRL_CMD_OFF :: nat where "NV_RM_CTRL_CMD_OFF \<equiv> 8"
abbreviation (input) NV_RM_CTRL_STATUS_OFF :: nat where "NV_RM_CTRL_STATUS_OFF \<equiv> 12"
abbreviation (input) NV_RM_CTRL_PARAMSIZE_OFF :: nat where "NV_RM_CTRL_PARAMSIZE_OFF \<equiv> 16"
abbreviation (input) NV_RM_CTRL_FLAGS_OFF :: nat where "NV_RM_CTRL_FLAGS_OFF \<equiv> 20"
abbreviation (input) NV2080_CTRL_CMD_FB_GET_INFO_V2 :: u32 where "NV2080_CTRL_CMD_FB_GET_INFO_V2 \<equiv> 0x20801303"
abbreviation (input) NV2080_CTRL_FB_INFO_MAX_LIST :: u32 where "NV2080_CTRL_FB_INFO_MAX_LIST \<equiv> 54"
abbreviation (input) NV2080_CTRL_FB_GET_INFO_V2_SIZE :: nat where "NV2080_CTRL_FB_GET_INFO_V2_SIZE \<equiv> 436"
abbreviation (input) NV2080_CTRL_FB_INFO_INDEX_BAR1_SIZE :: u32 where "NV2080_CTRL_FB_INFO_INDEX_BAR1_SIZE \<equiv> 0x5"
abbreviation (input) NV2080_CTRL_FB_INFO_INDEX_RAM_SIZE :: u32 where "NV2080_CTRL_FB_INFO_INDEX_RAM_SIZE \<equiv> 0x7"
abbreviation (input) NV2080_CTRL_FB_INFO_INDEX_TOTAL_RAM_SIZE :: u32 where "NV2080_CTRL_FB_INFO_INDEX_TOTAL_RAM_SIZE \<equiv> 0x8"
abbreviation (input) NV2080_CTRL_FB_INFO_INDEX_HEAP_SIZE :: u32 where "NV2080_CTRL_FB_INFO_INDEX_HEAP_SIZE \<equiv> 0x9"
abbreviation (input) NV2080_CTRL_FB_INFO_INDEX_HEAP_FREE :: u32 where "NV2080_CTRL_FB_INFO_INDEX_HEAP_FREE \<equiv> 0x16"
abbreviation (input) NV2080_CTRL_FB_INFO_INDEX_USABLE_RAM_SIZE :: u32 where "NV2080_CTRL_FB_INFO_INDEX_USABLE_RAM_SIZE \<equiv> 0x20"
abbreviation (input) NV_VASPACE_ALLOC_PARAMS_SIZE :: nat where "NV_VASPACE_ALLOC_PARAMS_SIZE \<equiv> 48"
abbreviation (input) NV_VASPACE_ALLOCATION_INDEX_GPU_NEW :: u32 where "NV_VASPACE_ALLOCATION_INDEX_GPU_NEW \<equiv> 0"
abbreviation (input) NV90F1_CTRL_CMD_VASPACE_COPY_SERVER_RESERVED_PDES :: u32 where "NV90F1_CTRL_CMD_VASPACE_COPY_SERVER_RESERVED_PDES \<equiv> 0x90F10106"
abbreviation (input) NV90F1_COPY_PDES_PARAMS_SIZE :: nat where "NV90F1_COPY_PDES_PARAMS_SIZE \<equiv> 184"
abbreviation (input) NV90F1_COPY_PDES_HSUBDEV_OFF :: nat where "NV90F1_COPY_PDES_HSUBDEV_OFF \<equiv> 0"
abbreviation (input) NV90F1_COPY_PDES_SUBDEVID_OFF :: nat where "NV90F1_COPY_PDES_SUBDEVID_OFF \<equiv> 4"
abbreviation (input) NV90F1_COPY_PDES_PAGESIZE_OFF :: nat where "NV90F1_COPY_PDES_PAGESIZE_OFF \<equiv> 8"
abbreviation (input) NV90F1_COPY_PDES_VADDRLO_OFF :: nat where "NV90F1_COPY_PDES_VADDRLO_OFF \<equiv> 16"
abbreviation (input) NV90F1_COPY_PDES_VADDRHI_OFF :: nat where "NV90F1_COPY_PDES_VADDRHI_OFF \<equiv> 24"
abbreviation (input) NV90F1_COPY_PDES_NUMLEVELS_OFF :: nat where "NV90F1_COPY_PDES_NUMLEVELS_OFF \<equiv> 32"
abbreviation (input) NV90F1_COPY_PDES_LEVELS_OFF :: nat where "NV90F1_COPY_PDES_LEVELS_OFF \<equiv> 40"
abbreviation (input) NV90F1_COPY_PDES_LEVEL_STRIDE :: nat where "NV90F1_COPY_PDES_LEVEL_STRIDE \<equiv> 24"
abbreviation (input) NV90F1_LEVEL_PHYSADDR_OFF :: nat where "NV90F1_LEVEL_PHYSADDR_OFF \<equiv> 0"
abbreviation (input) NV90F1_LEVEL_SIZE_OFF :: nat where "NV90F1_LEVEL_SIZE_OFF \<equiv> 8"
abbreviation (input) NV90F1_LEVEL_APERTURE_OFF :: nat where "NV90F1_LEVEL_APERTURE_OFF \<equiv> 16"
abbreviation (input) NV90F1_LEVEL_PAGESHIFT_OFF :: nat where "NV90F1_LEVEL_PAGESHIFT_OFF \<equiv> 20"
abbreviation (input) NV90F1_COPY_PDES_PAGESIZE_DEFAULT :: u64 where "NV90F1_COPY_PDES_PAGESIZE_DEFAULT \<equiv> 0x20000000"
abbreviation (input) NV90F1_LEVEL_APERTURE_VIDMEM :: u32 where "NV90F1_LEVEL_APERTURE_VIDMEM \<equiv> 1"
abbreviation (input) NV90F1_LEVEL0_SIZE :: u64 where "NV90F1_LEVEL0_SIZE \<equiv> 0x20"
abbreviation (input) NV90F1_LEVEL_PT_SIZE :: u64 where "NV90F1_LEVEL_PT_SIZE \<equiv> 0x1000"
abbreviation (input) NV90F1_LEVEL0_PAGESHIFT :: u8 where "NV90F1_LEVEL0_PAGESHIFT \<equiv> 0x2F"
abbreviation (input) NV90F1_LEVEL1_PAGESHIFT :: u8 where "NV90F1_LEVEL1_PAGESHIFT \<equiv> 0x26"
abbreviation (input) NV90F1_LEVEL2_PAGESHIFT :: u8 where "NV90F1_LEVEL2_PAGESHIFT \<equiv> 0x1D"
abbreviation (input) NV_VGPU_MSG_FUNCTION_ALLOC_MEMORY :: u32 where "NV_VGPU_MSG_FUNCTION_ALLOC_MEMORY \<equiv> 4"
abbreviation (input) NV_ALLOCMEM_HCLIENT_OFF :: nat where "NV_ALLOCMEM_HCLIENT_OFF \<equiv> 0"
abbreviation (input) NV_ALLOCMEM_HDEVICE_OFF :: nat where "NV_ALLOCMEM_HDEVICE_OFF \<equiv> 4"
abbreviation (input) NV_ALLOCMEM_HMEMORY_OFF :: nat where "NV_ALLOCMEM_HMEMORY_OFF \<equiv> 8"
abbreviation (input) NV_ALLOCMEM_HCLASS_OFF :: nat where "NV_ALLOCMEM_HCLASS_OFF \<equiv> 12"
abbreviation (input) NV_ALLOCMEM_FLAGS_OFF :: nat where "NV_ALLOCMEM_FLAGS_OFF \<equiv> 16"
abbreviation (input) NV_ALLOCMEM_PTEADJUST_OFF :: nat where "NV_ALLOCMEM_PTEADJUST_OFF \<equiv> 20"
abbreviation (input) NV_ALLOCMEM_FORMAT_OFF :: nat where "NV_ALLOCMEM_FORMAT_OFF \<equiv> 24"
abbreviation (input) NV_ALLOCMEM_LENGTH_OFF :: nat where "NV_ALLOCMEM_LENGTH_OFF \<equiv> 32"
abbreviation (input) NV_ALLOCMEM_PAGECOUNT_OFF :: nat where "NV_ALLOCMEM_PAGECOUNT_OFF \<equiv> 40"
abbreviation (input) NV_ALLOCMEM_PTEDESC_OFF :: nat where "NV_ALLOCMEM_PTEDESC_OFF \<equiv> 44"
abbreviation (input) NV_ALLOCMEM_PTEARR_OFF :: nat where "NV_ALLOCMEM_PTEARR_OFF \<equiv> 48"
abbreviation (input) NVOS02_FLAGS_FBMEM_CONTIG_NOMAP :: u32 where "NVOS02_FLAGS_FBMEM_CONTIG_NOMAP \<equiv> 0x40000200"
abbreviation (input) NV_MMU_PTE_KIND_GENERIC_MEMORY :: u32 where "NV_MMU_PTE_KIND_GENERIC_MEMORY \<equiv> 6"
abbreviation (input) NV_GSP_PAGE_SHIFT :: nat where "NV_GSP_PAGE_SHIFT \<equiv> 12"
abbreviation (input) NV_VGPU_MSG_FUNCTION_MAP_MEMORY_DMA :: u32 where "NV_VGPU_MSG_FUNCTION_MAP_MEMORY_DMA \<equiv> 14"
abbreviation (input) NV_MAP_MEMORY_DMA_PARAMS_SIZE :: nat where "NV_MAP_MEMORY_DMA_PARAMS_SIZE \<equiv> 56"
abbreviation (input) NV_MAP_MEMORY_DMA_HCLIENT_OFF :: nat where "NV_MAP_MEMORY_DMA_HCLIENT_OFF \<equiv> 0"
abbreviation (input) NV_MAP_MEMORY_DMA_HDEVICE_OFF :: nat where "NV_MAP_MEMORY_DMA_HDEVICE_OFF \<equiv> 4"
abbreviation (input) NV_MAP_MEMORY_DMA_HDMA_OFF :: nat where "NV_MAP_MEMORY_DMA_HDMA_OFF \<equiv> 8"
abbreviation (input) NV_MAP_MEMORY_DMA_HMEMORY_OFF :: nat where "NV_MAP_MEMORY_DMA_HMEMORY_OFF \<equiv> 12"
abbreviation (input) NV_MAP_MEMORY_DMA_OFFSET_OFF :: nat where "NV_MAP_MEMORY_DMA_OFFSET_OFF \<equiv> 16"
abbreviation (input) NV_MAP_MEMORY_DMA_LENGTH_OFF :: nat where "NV_MAP_MEMORY_DMA_LENGTH_OFF \<equiv> 24"
abbreviation (input) NV_MAP_MEMORY_DMA_FLAGS_OFF :: nat where "NV_MAP_MEMORY_DMA_FLAGS_OFF \<equiv> 32"
abbreviation (input) NV_MAP_MEMORY_DMA_DMAOFFSET_OFF :: nat where "NV_MAP_MEMORY_DMA_DMAOFFSET_OFF \<equiv> 40"
abbreviation (input) NV_MAP_MEMORY_DMA_STATUS_OFF :: nat where "NV_MAP_MEMORY_DMA_STATUS_OFF \<equiv> 48"
abbreviation (input) NVOS46_FLAGS_DEFAULT :: u32 where "NVOS46_FLAGS_DEFAULT \<equiv> 0"
abbreviation (input) NV_VMEM_ALLOC_PARAMS_SIZE :: nat where "NV_VMEM_ALLOC_PARAMS_SIZE \<equiv> 24"
abbreviation (input) NV_VMEM_OFFSET_OFF :: nat where "NV_VMEM_OFFSET_OFF \<equiv> 0"
abbreviation (input) NV_VMEM_LIMIT_OFF :: nat where "NV_VMEM_LIMIT_OFF \<equiv> 8"
abbreviation (input) NV_VMEM_HVASPACE_OFF :: nat where "NV_VMEM_HVASPACE_OFF \<equiv> 16"
abbreviation (input) NV_RM_ALLOC_HDR_SIZE :: u32 where "NV_RM_ALLOC_HDR_SIZE \<equiv> 32"
abbreviation (input) NV_RM_ALLOC_HCLIENT_OFF :: nat where "NV_RM_ALLOC_HCLIENT_OFF \<equiv> 0"
abbreviation (input) NV_RM_ALLOC_HPARENT_OFF :: nat where "NV_RM_ALLOC_HPARENT_OFF \<equiv> 4"
abbreviation (input) NV_RM_ALLOC_HOBJECT_OFF :: nat where "NV_RM_ALLOC_HOBJECT_OFF \<equiv> 8"
abbreviation (input) NV_RM_ALLOC_HCLASS_OFF :: nat where "NV_RM_ALLOC_HCLASS_OFF \<equiv> 12"
abbreviation (input) NV_RM_ALLOC_STATUS_OFF :: nat where "NV_RM_ALLOC_STATUS_OFF \<equiv> 16"
abbreviation (input) NV_RM_ALLOC_PARAMSIZE_OFF :: nat where "NV_RM_ALLOC_PARAMSIZE_OFF \<equiv> 20"
abbreviation (input) NV_RM_ALLOC_FLAGS_OFF :: nat where "NV_RM_ALLOC_FLAGS_OFF \<equiv> 24"
abbreviation (input) NV_GSP_SCI_SIZE :: nat where "NV_GSP_SCI_SIZE \<equiv> 2168"
abbreviation (input) NV_GSP_SCI_FBREGION_OFF :: nat where "NV_GSP_SCI_FBREGION_OFF \<equiv> 840"
abbreviation (input) NV_GSP_SCI_BAR1PDE_OFF :: nat where "NV_GSP_SCI_BAR1PDE_OFF \<equiv> 2088"
abbreviation (input) NV_GSP_SCI_BAR2PDE_OFF :: nat where "NV_GSP_SCI_BAR2PDE_OFF \<equiv> 2096"
abbreviation (input) NV_GSP_SCI_HINTCLIENT_OFF :: nat where "NV_GSP_SCI_HINTCLIENT_OFF \<equiv> 2152"
abbreviation (input) NV_GSP_SCI_HINTDEVICE_OFF :: nat where "NV_GSP_SCI_HINTDEVICE_OFF \<equiv> 2156"
abbreviation (input) NV_GSP_SCI_HINTSUBDEV_OFF :: nat where "NV_GSP_SCI_HINTSUBDEV_OFF \<equiv> 2160"
abbreviation (input) NV_GSP_FBREGION_NUM_OFF :: nat where "NV_GSP_FBREGION_NUM_OFF \<equiv> 0"
abbreviation (input) NV_GSP_FBREGION_ARR_OFF :: nat where "NV_GSP_FBREGION_ARR_OFF \<equiv> 8"
abbreviation (input) NV_GSP_FBREGION_STRIDE :: nat where "NV_GSP_FBREGION_STRIDE \<equiv> 48"

text \<open>
  Out-parameters: an \<open>int *status\<close> the code may leave alone is an option in the result, an IN/OUT
  buffer is returned.  The static request buffers are cleared as far as they are sent; the model
  holds that part.
\<close>

section \<open>Static information\<close>

definition read_region :: "u8 list \<Rightarrow> nat \<Rightarrow> nv_gsp_fb_region option" where
  "read_region rep i =
     (let rg = NV_GSP_SCI_FBREGION_OFF + NV_GSP_FBREGION_ARR_OFF + i * NV_GSP_FBREGION_STRIDE in
      do { base \<leftarrow> ld64 rep rg; limit \<leftarrow> ld64 rep (rg + 8); reserved \<leftarrow> ld64 rep (rg + 16);
           performance \<leftarrow> ld32 rep (rg + 24); compressed \<leftarrow> rd8 rep (rg + 28); iso \<leftarrow> rd8 rep (rg + 29);
           prot \<leftarrow> rd8 rep (rg + 30);
           Some \<lparr>fr_base = base, fr_limit = limit, fr_reserved = reserved, fr_performance = performance,
                 fr_compressed = compressed, fr_iso = iso, fr_prot = prot\<rparr> })"

definition no_region :: nv_gsp_fb_region where
  "no_region = \<lparr>fr_base = 0, fr_limit = 0, fr_reserved = 0, fr_performance = 0, fr_compressed = 0,
     fr_iso = 0, fr_prot = 0\<rparr>"

text \<open>The loop that fills \<open>out->regions\<close>; the rest of the array stays zero.\<close>

definition read_regions :: "u8 list \<Rightarrow> u32 \<Rightarrow> nv_gsp_fb_region list option" where
  "read_regions rep n =
     for_upto 1 n (\<lambda>i rs. do { r \<leftarrow> read_region rep (unat i); Some (rs[unat i := r]) }) 0
       (replicate (unat NV_GSP_FBREGION_MAX) no_region)"

definition nv_gsp_get_static_info ::
  "'g gsp_agent \<Rightarrow> 'g nv_gsp_rpc_chan \<Rightarrow> (int \<times> nv_gsp_static_info option \<times> 'g nv_gsp_rpc_chan) option" where
  "nv_gsp_get_static_info ag ch =
     do { (reply, ch) \<leftarrow> nv_gsp_rpc_call ag ch NV_VGPU_MSG_FUNCTION_GET_GSP_STATIC_INFO
              (replicate NV_GSP_SCI_SIZE 0) (of_nat NV_GSP_SCI_SIZE) (of_nat NV_GSP_SCI_SIZE) 4000000;
          case reply of
            Inl rc \<Rightarrow> Some (rc, None, ch)
          | Inr (rep, rlen, rres) \<Rightarrow>
              if rres \<noteq> 0 then Some (NV_GSP_RM_ERR_BOUNDS, None, ch)
              else if rlen < of_nat NV_GSP_SCI_SIZE then Some (NV_GSP_RM_ERR_BOUNDS, None, ch)
              else do { n \<leftarrow> ld32 rep (NV_GSP_SCI_FBREGION_OFF + NV_GSP_FBREGION_NUM_OFF);
                        if n = 0 \<or> n > NV_GSP_FBREGION_MAX then Some (NV_GSP_RM_ERR_BOUNDS, None, ch)
                        else do { regions \<leftarrow> read_regions rep n;
                                  bar1_pde \<leftarrow> ld64 rep NV_GSP_SCI_BAR1PDE_OFF;
                                  bar2_pde \<leftarrow> ld64 rep NV_GSP_SCI_BAR2PDE_OFF;
                                  h_client \<leftarrow> ld32 rep NV_GSP_SCI_HINTCLIENT_OFF;
                                  h_device \<leftarrow> ld32 rep NV_GSP_SCI_HINTDEVICE_OFF;
                                  h_subdevice \<leftarrow> ld32 rep NV_GSP_SCI_HINTSUBDEV_OFF;
                                  Some (NV_GSP_RM_OK,
                                    Some \<lparr>si_num_regions = n, si_regions = regions, si_h_client = h_client,
                                      si_h_device = h_device, si_h_subdevice = h_subdevice,
                                      si_bar1_pde = bar1_pde, si_bar2_pde = bar2_pde\<rparr>, ch) } } }"

section \<open>Object allocation and control calls\<close>

text \<open>The body both calls share: header, parameters, exchange, status and OUT parameters.\<close>

definition rm_exchange ::
  "'g gsp_agent \<Rightarrow> 'g nv_gsp_rpc_chan \<Rightarrow> u32 \<Rightarrow> u32 \<Rightarrow> nat \<Rightarrow> (nat \<times> cell) list \<Rightarrow> u8 list \<Rightarrow> u32 \<Rightarrow>
   (int \<times> u32 option \<times> u8 list \<times> 'g nv_gsp_rpc_chan) option" where
  "rm_exchange ag ch fn hdr status_off cells params params_len =
     (let req_len = hdr + params_len in
      do { req \<leftarrow> stores (replicate (unat req_len) 0) 0 cells;
           req \<leftarrow> (if params_len \<noteq> 0
                  then do { xs \<leftarrow> rd_bytes params 0 (unat params_len); wr_bytes req (unat hdr) xs }
                  else Some req);
           (reply, ch) \<leftarrow> nv_gsp_rpc_call ag ch fn req req_len req_len 4000000;
           case reply of
             Inl rc \<Rightarrow> Some (rc, None, params, ch)
           | Inr (rep, rlen, rres) \<Rightarrow>
               if rres \<noteq> 0 then Some (NV_GSP_RM_ERR_BOUNDS, None, params, ch)
               else if rlen < hdr then Some (NV_GSP_RM_ERR_BOUNDS, None, params, ch)
               else do { status \<leftarrow> ld32 rep status_off;
                         params \<leftarrow> (if params_len \<noteq> 0
                                    then let avail = rlen - hdr; n = min params_len avail in
                                         do { xs \<leftarrow> rd_bytes rep (unat hdr) (unat n); wr_bytes params 0 xs }
                                    else Some params);
                         Some (NV_GSP_RM_OK, Some status, params, ch) } })"

definition nv_gsp_rm_alloc ::
  "'g gsp_agent \<Rightarrow> 'g nv_gsp_rpc_chan \<Rightarrow> u32 \<Rightarrow> u32 \<Rightarrow> u32 \<Rightarrow> u32 \<Rightarrow> u8 list \<Rightarrow> u32 \<Rightarrow>
   (int \<times> u32 option \<times> u8 list \<times> 'g nv_gsp_rpc_chan) option" where
  "nv_gsp_rm_alloc ag ch hClient hParent hObject hClass params params_len =
     (if params_len > 512 then Some (NV_GSP_RM_ERR_BOUNDS, None, params, ch)
      else rm_exchange ag ch NV_VGPU_MSG_FUNCTION_GSP_RM_ALLOC NV_RM_ALLOC_HDR_SIZE NV_RM_ALLOC_STATUS_OFF
        [(NV_RM_ALLOC_HCLIENT_OFF, W32 hClient), (NV_RM_ALLOC_HPARENT_OFF, W32 hParent),
         (NV_RM_ALLOC_HOBJECT_OFF, W32 hObject), (NV_RM_ALLOC_HCLASS_OFF, W32 hClass),
         (NV_RM_ALLOC_STATUS_OFF, W32 0), (NV_RM_ALLOC_PARAMSIZE_OFF, W32 params_len),
         (NV_RM_ALLOC_FLAGS_OFF, W32 0)] params params_len)"

definition nv_gsp_rm_control ::
  "'g gsp_agent \<Rightarrow> 'g nv_gsp_rpc_chan \<Rightarrow> u32 \<Rightarrow> u32 \<Rightarrow> u32 \<Rightarrow> u8 list \<Rightarrow> u32 \<Rightarrow>
   (int \<times> u32 option \<times> u8 list \<times> 'g nv_gsp_rpc_chan) option" where
  "nv_gsp_rm_control ag ch hClient hObject cmd params params_len =
     (if params_len > 3584 then Some (NV_GSP_RM_ERR_BOUNDS, None, params, ch)
      else rm_exchange ag ch NV_VGPU_MSG_FUNCTION_GSP_RM_CONTROL NV_RM_CTRL_HDR_SIZE NV_RM_CTRL_STATUS_OFF
        [(NV_RM_CTRL_HCLIENT_OFF, W32 hClient), (NV_RM_CTRL_HOBJECT_OFF, W32 hObject),
         (NV_RM_CTRL_CMD_OFF, W32 cmd), (NV_RM_CTRL_STATUS_OFF, W32 0),
         (NV_RM_CTRL_PARAMSIZE_OFF, W32 params_len), (NV_RM_CTRL_FLAGS_OFF, W32 0)] params params_len)"

text \<open>A constructor: allocate with a canonical handle and give the handle out on success.\<close>

definition ctor_result ::
  "u32 \<Rightarrow> int \<times> u32 option \<times> u8 list \<times> 'g nv_gsp_rpc_chan \<Rightarrow> int \<times> u32 option \<times> u32 option \<times> 'g nv_gsp_rpc_chan" where
  "ctor_result h = (\<lambda>(rc, status, _, ch). (rc, if rc = NV_GSP_RM_OK then Some h else None, status, ch))"

definition nv_gsp_rm_client_ctor ::
  "'g gsp_agent \<Rightarrow> 'g nv_gsp_rpc_chan \<Rightarrow> (int \<times> u32 option \<times> u32 option \<times> 'g nv_gsp_rpc_chan) option" where
  "nv_gsp_rm_client_ctor ag ch =
     (let h = NV_GSP_RM_CLIENT_HANDLE OR 0 in
      do { p \<leftarrow> stores (replicate 108 0) 0 [(0, W32 h), (4, W32 0xffffffff)];
           r \<leftarrow> nv_gsp_rm_alloc ag ch h h h NV01_ROOT p 108;
           Some (ctor_result h r) })"

definition nv_gsp_rm_device_ctor ::
  "'g gsp_agent \<Rightarrow> 'g nv_gsp_rpc_chan \<Rightarrow> u32 \<Rightarrow> (int \<times> u32 option \<times> u32 option \<times> 'g nv_gsp_rpc_chan) option" where
  "nv_gsp_rm_device_ctor ag ch hClient =
     (let h = NV_GSP_RM_DEVICE_HANDLE in
      do { p \<leftarrow> stores (replicate 56 0) 0 [(4, W32 hClient)];
           r \<leftarrow> nv_gsp_rm_alloc ag ch hClient hClient h NV01_DEVICE_0 p 56;
           Some (ctor_result h r) })"

definition nv_gsp_rm_subdevice_ctor ::
  "'g gsp_agent \<Rightarrow> 'g nv_gsp_rpc_chan \<Rightarrow> u32 \<Rightarrow> u32 \<Rightarrow>
   (int \<times> u32 option \<times> u32 option \<times> 'g nv_gsp_rpc_chan) option" where
  "nv_gsp_rm_subdevice_ctor ag ch hClient hDevice =
     (let h = NV_GSP_RM_SUBDEV_HANDLE in
      do { r \<leftarrow> nv_gsp_rm_alloc ag ch hClient hDevice h NV20_SUBDEVICE_0 [0, 0, 0, 0] 4;
           Some (ctor_result h r) })"

text \<open>The status variable of the next function starts as \<open>0xffffffff\<close> and is always copied out.\<close>

definition nv_gsp_fb_get_info ::
  "'g gsp_agent \<Rightarrow> 'g nv_gsp_rpc_chan \<Rightarrow> u32 \<Rightarrow> u32 \<Rightarrow> u32 list \<Rightarrow> u32 list \<Rightarrow> u32 \<Rightarrow>
   (int \<times> u32 option \<times> u32 list \<times> 'g nv_gsp_rpc_chan) option" where
  "nv_gsp_fb_get_info ag ch hClient hSubdevice indices out_data n =
     (if n = 0 \<or> n > NV2080_CTRL_FB_INFO_MAX_LIST then Some (NV_GSP_RM_ERR_ARG, None, out_data, ch)
      else
        do { p \<leftarrow> stores (replicate NV2080_CTRL_FB_GET_INFO_V2_SIZE 0) 0 [(0, W32 n)];
             p \<leftarrow> for_upto 1 n (\<lambda>i p. if unat i < length indices
                    then st32 p (4 + unat i * 8) (indices ! unat i) else None) 0 p;
             (rc, st, p, ch) \<leftarrow> nv_gsp_rm_control ag ch hClient hSubdevice NV2080_CTRL_CMD_FB_GET_INFO_V2
                    p (of_nat NV2080_CTRL_FB_GET_INFO_V2_SIZE);
             let status = Some (case st of Some s \<Rightarrow> s | None \<Rightarrow> 0xffffffff) in
             if rc \<noteq> NV_GSP_RM_OK then Some (rc, status, out_data, ch)
             else do { out_data \<leftarrow> for_upto 1 n (\<lambda>i out. do { v \<leftarrow> ld32 p (4 + unat i * 8 + 4);
                           if unat i < length out then Some (out[unat i := v]) else None }) 0 out_data;
                       Some (NV_GSP_RM_OK, status, out_data, ch) } })"

definition vaspace_ctor ::
  "'g gsp_agent \<Rightarrow> 'g nv_gsp_rpc_chan \<Rightarrow> u32 \<Rightarrow> u32 \<Rightarrow> u32 \<Rightarrow>
   (int \<times> u32 option \<times> u32 option \<times> 'g nv_gsp_rpc_chan) option" where
  "vaspace_ctor ag ch hClient hDevice flags =
     (let h = NV_GSP_RM_VASPACE_HANDLE in
      do { p \<leftarrow> stores (replicate NV_VASPACE_ALLOC_PARAMS_SIZE 0) 0
                  [(0, W32 NV_VASPACE_ALLOCATION_INDEX_GPU_NEW), (4, W32 flags)];
           r \<leftarrow> nv_gsp_rm_alloc ag ch hClient hDevice h FERMI_VASPACE_A p (of_nat NV_VASPACE_ALLOC_PARAMS_SIZE);
           Some (ctor_result h r) })"

definition nv_gsp_rm_vaspace_ctor ::
  "'g gsp_agent \<Rightarrow> 'g nv_gsp_rpc_chan \<Rightarrow> u32 \<Rightarrow> u32 \<Rightarrow>
   (int \<times> u32 option \<times> u32 option \<times> 'g nv_gsp_rpc_chan) option" where
  "nv_gsp_rm_vaspace_ctor ag ch hClient hDevice = vaspace_ctor ag ch hClient hDevice 0"

definition nv_gsp_rm_vaspace_external_ctor ::
  "'g gsp_agent \<Rightarrow> 'g nv_gsp_rpc_chan \<Rightarrow> u32 \<Rightarrow> u32 \<Rightarrow>
   (int \<times> u32 option \<times> u32 option \<times> 'g nv_gsp_rpc_chan) option" where
  "nv_gsp_rm_vaspace_external_ctor ag ch hClient hDevice =
     vaspace_ctor ag ch hClient hDevice NV_VASPACE_FLAGS_EXTERNALLY_OWNED"

definition nv_gsp_rm_set_page_directory ::
  "'g gsp_agent \<Rightarrow> 'g nv_gsp_rpc_chan \<Rightarrow> u32 \<Rightarrow> u32 \<Rightarrow> u32 \<Rightarrow> u64 \<Rightarrow>
   (int \<times> u32 option \<times> 'g nv_gsp_rpc_chan) option" where
  "nv_gsp_rm_set_page_directory ag ch hClient hDevice hVASpace root_phys =
     (if root_phys AND 0xfff \<noteq> 0 \<or> root_phys \<ge> push_bit 40 1 then Some (NV_GSP_RM_ERR_ARG, None, ch)
      else do { p \<leftarrow> stores (replicate NV0080_SET_PAGE_DIRECTORY_SIZE 0) 0
                       [(0, W64 root_phys), (8, W32 4), (16, W32 hVASpace)];
                (rc, status, _, ch) \<leftarrow> nv_gsp_rm_control ag ch hClient hDevice
                       NV0080_CTRL_CMD_DMA_SET_PAGE_DIRECTORY p (of_nat NV0080_SET_PAGE_DIRECTORY_SIZE);
                Some (rc, status, ch) })"

definition pdes_sizes :: "u64 list" where
  "pdes_sizes = [NV90F1_LEVEL0_SIZE, NV90F1_LEVEL_PT_SIZE, NV90F1_LEVEL_PT_SIZE]"

definition pdes_shifts :: "u8 list" where
  "pdes_shifts = [NV90F1_LEVEL0_PAGESHIFT, NV90F1_LEVEL1_PAGESHIFT, NV90F1_LEVEL2_PAGESHIFT]"

definition copy_pdes_level :: "u64 list \<Rightarrow> u32 \<Rightarrow> u8 list \<Rightarrow> u8 list option" where
  "copy_pdes_level pd_phys i p =
     (if unat i < length pd_phys \<and> unat i < length pdes_sizes
      then stores p (NV90F1_COPY_PDES_LEVELS_OFF + unat i * NV90F1_COPY_PDES_LEVEL_STRIDE)
             [(NV90F1_LEVEL_PHYSADDR_OFF, W64 (pd_phys ! unat i)), (NV90F1_LEVEL_SIZE_OFF, W64 (pdes_sizes ! unat i)),
              (NV90F1_LEVEL_APERTURE_OFF, W32 NV90F1_LEVEL_APERTURE_VIDMEM),
              (NV90F1_LEVEL_PAGESHIFT_OFF, B8 (pdes_shifts ! unat i))]
      else None)"

definition nv_gsp_rm_vaspace_copy_pdes ::
  "'g gsp_agent \<Rightarrow> 'g nv_gsp_rpc_chan \<Rightarrow> u32 \<Rightarrow> u32 \<Rightarrow> u32 \<Rightarrow> u32 \<Rightarrow> u64 \<Rightarrow> u64 \<Rightarrow> u64 list \<Rightarrow> u32 \<Rightarrow>
   (int \<times> u32 option \<times> 'g nv_gsp_rpc_chan) option" where
  "nv_gsp_rm_vaspace_copy_pdes ag ch hClient hVASpace hSubDevice subDeviceId virtAddrLo virtAddrHi pd_phys numLevels =
     (if numLevels < 2 \<or> numLevels > 3 then Some (NV_GSP_RM_ERR_ARG, None, ch)
      else do { p \<leftarrow> stores (replicate NV90F1_COPY_PDES_PARAMS_SIZE 0) 0
                       [(NV90F1_COPY_PDES_HSUBDEV_OFF, W32 hSubDevice), (NV90F1_COPY_PDES_SUBDEVID_OFF, W32 subDeviceId),
                        (NV90F1_COPY_PDES_PAGESIZE_OFF, W64 NV90F1_COPY_PDES_PAGESIZE_DEFAULT),
                        (NV90F1_COPY_PDES_VADDRLO_OFF, W64 virtAddrLo), (NV90F1_COPY_PDES_VADDRHI_OFF, W64 virtAddrHi),
                        (NV90F1_COPY_PDES_NUMLEVELS_OFF, W32 numLevels)];
                p \<leftarrow> for_upto 1 numLevels (copy_pdes_level pd_phys) 0 p;
                (rc, st, _, ch) \<leftarrow> nv_gsp_rm_control ag ch hClient hVASpace
                       NV90F1_CTRL_CMD_VASPACE_COPY_SERVER_RESERVED_PDES p (of_nat NV90F1_COPY_PDES_PARAMS_SIZE);
                Some (rc, Some (case st of Some s \<Rightarrow> s | None \<Rightarrow> 0xffffffff), ch) })"

section \<open>Memory lists and mappings\<close>

text \<open>The request is built in a static buffer of 8192 bytes, of which \<open>req_len\<close> are cleared and sent.\<close>

definition memlist_pte :: "u64 \<Rightarrow> u32 \<Rightarrow> u8 list \<Rightarrow> u8 list option" where
  "memlist_pte pfn i req = st64 req (NV_ALLOCMEM_PTEARR_OFF + unat i * 8) (pfn + ucast i)"

definition memlist_request :: "u32 \<Rightarrow> u32 \<Rightarrow> u64 \<Rightarrow> u64 \<Rightarrow> u8 list \<Rightarrow> (u32 \<times> u8 list) option" where
  "memlist_request hClient hDevice phys bytes req =
     (let pages = ucast (drop_bit NV_GSP_PAGE_SHIFT bytes) :: u32;
          req_len = of_nat NV_ALLOCMEM_PTEARR_OFF + pages * 8 in
      do { req \<leftarrow> wr_bytes req 0 (replicate (unat req_len) 0);
           req \<leftarrow> stores req 0
             [(NV_ALLOCMEM_HCLIENT_OFF, W32 hClient), (NV_ALLOCMEM_HDEVICE_OFF, W32 hDevice),
              (NV_ALLOCMEM_HMEMORY_OFF, W32 NV_GSP_RM_VRAM_HANDLE), (NV_ALLOCMEM_HCLASS_OFF, W32 NV01_MEMORY_LIST_FBMEM),
              (NV_ALLOCMEM_FLAGS_OFF, W32 NVOS02_FLAGS_FBMEM_CONTIG_NOMAP), (NV_ALLOCMEM_PTEADJUST_OFF, W32 0),
              (NV_ALLOCMEM_FORMAT_OFF, W32 NV_MMU_PTE_KIND_GENERIC_MEMORY), (NV_ALLOCMEM_LENGTH_OFF, W64 bytes),
              (NV_ALLOCMEM_PAGECOUNT_OFF, W32 pages),
              (NV_ALLOCMEM_PTEDESC_OFF, W32 (push_bit 16 (pages AND 0xffff)))];
           req \<leftarrow> for_upto 1 pages (memlist_pte (drop_bit NV_GSP_PAGE_SHIFT phys)) 0 req;
           Some (req_len, req) })"

definition nv_gsp_rm_vram_memlist ::
  "'g gsp_agent \<Rightarrow> 'g nv_gsp_rpc_chan \<Rightarrow> u32 \<Rightarrow> u32 \<Rightarrow> u64 \<Rightarrow> u64 \<Rightarrow>
   (int \<times> u32 option \<times> u32 option \<times> 'g nv_gsp_rpc_chan) option" where
  "nv_gsp_rm_vram_memlist ag ch hClient hDevice phys bytes =
     (if bytes = 0 \<or> bytes AND 0xfff \<noteq> 0 \<or> phys AND 0xfff \<noteq> 0 then Some (NV_GSP_RM_ERR_ARG, None, None, ch)
      else if of_nat NV_ALLOCMEM_PTEARR_OFF + (ucast (drop_bit NV_GSP_PAGE_SHIFT bytes) :: u32) * 8 > 8192
      then Some (NV_GSP_RM_ERR_BOUNDS, None, None, ch)
      else do { (req_len, req) \<leftarrow> memlist_request hClient hDevice phys bytes (replicate 8192 0);
                (reply, ch) \<leftarrow> nv_gsp_rpc_call ag ch NV_VGPU_MSG_FUNCTION_ALLOC_MEMORY
                     (take (unat req_len) req) req_len 0 4000000;
                case reply of
                  Inl rc \<Rightarrow> Some (rc, None, None, ch)
                | Inr (_, rlen, rres) \<Rightarrow>
                    Some (if rres = 0 then NV_GSP_RM_OK else NV_GSP_RM_ERR_BOUNDS,
                          Some NV_GSP_RM_VRAM_HANDLE, Some rres, ch) })"

definition nv_gsp_rm_vmem_ctor ::
  "'g gsp_agent \<Rightarrow> 'g nv_gsp_rpc_chan \<Rightarrow> u32 \<Rightarrow> u32 \<Rightarrow> u32 \<Rightarrow>
   (int \<times> u32 option \<times> u32 option \<times> 'g nv_gsp_rpc_chan) option" where
  "nv_gsp_rm_vmem_ctor ag ch hClient hDevice hVASpace =
     (let h = NV_GSP_RM_VMEM_HANDLE in
      do { p \<leftarrow> stores (replicate NV_VMEM_ALLOC_PARAMS_SIZE 0) 0
                  [(NV_VMEM_OFFSET_OFF, W64 0), (NV_VMEM_LIMIT_OFF, W64 0), (NV_VMEM_HVASPACE_OFF, W32 hVASpace)];
           r \<leftarrow> nv_gsp_rm_alloc ag ch hClient hDevice h NV01_MEMORY_VIRTUAL p (of_nat NV_VMEM_ALLOC_PARAMS_SIZE);
           Some (ctor_result h r) })"

text \<open>Result: return code, \<open>*dma_offset\<close>, \<open>*status\<close>, \<open>*rpc_result\<close>.\<close>

definition nv_gsp_rm_map_memory_dma ::
  "'g gsp_agent \<Rightarrow> 'g nv_gsp_rpc_chan \<Rightarrow> u32 \<Rightarrow> u32 \<Rightarrow> u32 \<Rightarrow> u32 \<Rightarrow> u64 \<Rightarrow> u64 \<Rightarrow> u32 \<Rightarrow> u64 \<Rightarrow>
   (int \<times> u64 \<times> u32 option \<times> u32 option \<times> 'g nv_gsp_rpc_chan) option" where
  "nv_gsp_rm_map_memory_dma ag ch hClient hDevice hDma hMemory off len flags dma_offset =
     (if len = 0 \<or> off + len < off then Some (NV_GSP_RM_ERR_ARG, dma_offset, None, None, ch)
      else do { req \<leftarrow> stores (replicate NV_MAP_MEMORY_DMA_PARAMS_SIZE 0) 0
                  [(NV_MAP_MEMORY_DMA_HCLIENT_OFF, W32 hClient), (NV_MAP_MEMORY_DMA_HDEVICE_OFF, W32 hDevice),
                   (NV_MAP_MEMORY_DMA_HDMA_OFF, W32 hDma), (NV_MAP_MEMORY_DMA_HMEMORY_OFF, W32 hMemory),
                   (NV_MAP_MEMORY_DMA_OFFSET_OFF, W64 off), (NV_MAP_MEMORY_DMA_LENGTH_OFF, W64 len),
                   (NV_MAP_MEMORY_DMA_FLAGS_OFF, W32 flags), (NV_MAP_MEMORY_DMA_DMAOFFSET_OFF, W64 dma_offset)];
                (reply, ch) \<leftarrow> nv_gsp_rpc_call ag ch NV_VGPU_MSG_FUNCTION_MAP_MEMORY_DMA req
                  (of_nat NV_MAP_MEMORY_DMA_PARAMS_SIZE) (of_nat NV_MAP_MEMORY_DMA_PARAMS_SIZE) 4000000;
                case reply of
                  Inl rc \<Rightarrow> Some (rc, dma_offset, None, Some 0xffffffff, ch)
                | Inr (rep, rlen, rres) \<Rightarrow>
                    if rres \<noteq> 0 then Some (NV_GSP_RM_ERR_BOUNDS, dma_offset, None, Some rres, ch)
                    else if rlen < of_nat NV_MAP_MEMORY_DMA_PARAMS_SIZE
                    then Some (NV_GSP_RM_ERR_BOUNDS, dma_offset, None, Some rres, ch)
                    else do { va \<leftarrow> ld64 rep NV_MAP_MEMORY_DMA_DMAOFFSET_OFF;
                              status \<leftarrow> ld32 rep NV_MAP_MEMORY_DMA_STATUS_OFF;
                              Some (NV_GSP_RM_OK, va, Some status, Some rres, ch) } })"

section \<open>Requests\<close>

text \<open>The request of an exchange: header fields, padding to the header size, parameters.\<close>

definition rm_req :: "nat \<Rightarrow> cell list \<Rightarrow> u8 list \<Rightarrow> u8 list" where
  "rm_req hdr cs params = (let h = concat (map cell_bytes cs) in h @ replicate (hdr - length h) 0 @ params)"

lemma rm_req_build:
  assumes "length (concat (map cell_bytes cs)) \<le> hdr" "n = hdr + length params"
  shows "(do { req \<leftarrow> stores (replicate n 0) 0 (pack 0 cs); wr_bytes req hdr params }) = Some (rm_req hdr cs params)"
proof -
  let ?h = "concat (map cell_bytes cs)"
  have "stores (replicate n 0) 0 (pack 0 cs) = Some (splice (replicate n 0) 0 ?h)"
    using assms stores_pack [of 0 0 cs "replicate n 0"] by simp
  moreover have "splice (splice (replicate n 0) 0 ?h) hdr params = rm_req hdr cs params"
    using assms by (simp add: splice_def rm_req_def Let_def drop_replicate take_replicate)
  ultimately show ?thesis using assms by simp
qed

text \<open>What a caller gets from a reply.\<close>

definition rm_result ::
  "u32 \<Rightarrow> nat \<Rightarrow> u8 list \<Rightarrow> rpc_reply \<Rightarrow> int \<Rightarrow> u32 option \<Rightarrow> u8 list \<Rightarrow> bool" where
  "rm_result hdr status_off params reply rc st params' \<longleftrightarrow> (case reply of
       Inl e \<Rightarrow> rc = e \<and> st = None \<and> params' = params
     | Inr (rep, rlen, rres) \<Rightarrow>
         if rres \<noteq> 0 \<or> unat rlen < unat hdr then rc = NV_GSP_RM_ERR_BOUNDS \<and> st = None \<and> params' = params
         else rc = NV_GSP_RM_OK \<and> st = ld32 rep status_off \<and> st \<noteq> None
           \<and> (let n = min (length params) (unat rlen - unat hdr) in
              params' = take n (drop (unat hdr) rep) @ drop n params \<and> length params' = length params))"

lemma length_answer: "length (gm_data m) = 4016 \<Longrightarrow> unat cap \<le> 4016 \<Longrightarrow> answer cap m = (rep, rlen, rres) \<Longrightarrow>
  length rep = min (unat rlen) (unat cap)"
  by (auto simp: answer_def Let_def min_def word_le_nat_alt split: if_splits)

text \<open>An exchange whose call came back: it stays in its buffers whatever the answer is.\<close>

lemma rm_exchange_steps:
  assumes pl: "length params = unat plen" and sz: "unat hdr + unat plen \<le> 4016"
    and hd: "length (concat (map cell_bytes cs)) \<le> unat hdr" and so: "so + 4 \<le> unat hdr"
    and call: "nv_gsp_rpc_call ag ch fn (rm_req (unat hdr) cs params) (hdr + plen) (hdr + plen) 4000000 = Some (reply, ch')"
    and rl: "\<And>rep rlen rres. reply = Inr (rep, rlen, rres) \<Longrightarrow> length rep = min (unat rlen) (unat hdr + unat plen)"
  obtains rc st params' where
    "rm_exchange ag ch fn hdr so (pack 0 cs) params plen = Some (rc, st, params', ch')"
    "rm_result hdr so params reply rc st params'"
proof -
  let ?req = "rm_req (unat hdr) cs params" and ?n = "hdr + plen"
  have n: "unat ?n = unat hdr + unat plen" using sz by (intro unat_add_small) simp
  obtain req0 where req0: "stores (replicate (unat ?n) 0) 0 (pack 0 cs) = Some req0" "wr_bytes req0 (unat hdr) params = Some ?req"
    using rm_req_build [OF hd, of "unat ?n" params] n pl by (auto simp: bind_eq_Some_conv)
  have par: "(if plen \<noteq> 0 then do { xs \<leftarrow> rd_bytes params 0 (unat plen); wr_bytes req0 (unat hdr) xs } else Some req0) = Some ?req"
  proof (cases "plen = 0")
    case True
    then show ?thesis using req0(2) pl by (auto simp: wr_bytes_Some_iff splice_def)
  next
    case False
    then show ?thesis using req0(2) rd_bytes_fld [of 0 "unat plen" params] pl fld_0(2) [of params] by simp
  qed
  note run = rm_exchange_def [of ag ch fn hdr so "pack 0 cs" params plen, unfolded Let_def req0(1) bind.bind_lunit
      par call prod.case]
  show thesis
  proof (cases reply)
    case (Inl e)
    then show thesis using that [of e None params] run by (simp add: rm_result_def)
  next
    case (Inr a)
    obtain rep rlen rres where a: "a = (rep, rlen, rres)" by (cases a) auto
    show thesis
    proof (cases "rres \<noteq> 0 \<or> unat rlen < unat hdr")
      case True
      then show thesis using that [of NV_GSP_RM_ERR_BOUNDS None params] run Inr a
        by (auto simp: rm_result_def word_less_nat_alt)
    next
      case False
      then have ok: "rres = 0" "unat hdr \<le> unat rlen" by auto
      have lrep: "length rep = min (unat rlen) (unat hdr + unat plen)" using rl Inr a by blast
      let ?k = "min plen (rlen - hdr)" and ?kn = "min (length params) (unat rlen - unat hdr)"
      have k: "unat ?k = ?kn"
        using ok(2) pl by (auto simp: min_def word_le_nat_alt unat_sub_small)
      have kl: "unat hdr + ?kn \<le> length rep" using lrep ok(2) pl by auto
      let ?p = "take ?kn (drop (unat hdr) rep) @ drop ?kn params"
      obtain s where s: "ld32 rep so = Some s" using so kl by simp
      have "(if plen \<noteq> 0 then do { xs \<leftarrow> rd_bytes rep (unat hdr) (unat ?k); wr_bytes params 0 xs } else Some params) = Some ?p"
      proof (cases "plen = 0")
        case True
        then show ?thesis using pl by simp
      next
        case False
        have "rd_bytes rep (unat hdr) (unat ?k) = Some (take ?kn (drop (unat hdr) rep))" using kl by (simp add: rd_bytes_def k)
        moreover have "wr_bytes params 0 (take ?kn (drop (unat hdr) rep)) = Some ?p"
        proof -
          have "length (take ?kn (drop (unat hdr) rep)) = ?kn" using kl by simp
          then show ?thesis unfolding wr_bytes_Some_iff splice_def by simp
        qed
        ultimately show ?thesis using False by simp
      qed
      then have "rm_exchange ag ch fn hdr so (pack 0 cs) params plen = Some (NV_GSP_RM_OK, Some s, ?p, ch')"
        using run Inr a ok s by (simp add: word_less_nat_alt Let_def)
      moreover have "rm_result hdr so params reply NV_GSP_RM_OK (Some s) ?p"
        using Inr a ok s kl by (auto simp: rm_result_def Let_def)
      ultimately show thesis using that by blast
    qed
  qed
qed

lemma rm_exchange_spec:
  assumes ag: "gsp_protocol ag" and ch: "chan_ok ch ms" and pl: "length params = unat plen"
    and sz: "unat hdr + unat plen \<le> 4016" and hd: "length (concat (map cell_bytes cs)) \<le> unat hdr"
    and so: "so + 4 \<le> unat hdr"
  obtains reply rc st params' ch' new where
    "nv_gsp_rpc_call ag ch fn (rm_req (unat hdr) cs params) (hdr + plen) (hdr + plen) 4000000 = Some (reply, ch')"
    "call_outcome fn (hdr + plen) reply (ms @ new) ch'"
    "rm_exchange ag ch fn hdr so (pack 0 cs) params plen = Some (rc, st, params', ch')"
    "rm_result hdr so params reply rc st params'"
proof -
  let ?req = "rm_req (unat hdr) cs params" and ?n = "hdr + plen"
  have n: "unat ?n = unat hdr + unat plen" using sz by (intro unat_add_small) simp
  have lr: "length ?req = unat ?n" using n hd pl by (simp add: rm_req_def Let_def)
  have cap: "unat ?n \<le> 4016" "unat (4000000 :: u32) + 1000 \<le> 2 ^ 32" using n sz by simp_all
  obtain b reply ch' new where r: "nv_gsp_rpc_call ag ch fn ?req ?n ?n 4000000 = Some (reply, ch')"
    "call_outcome fn ?n reply (ms @ new) ch'"
    using rpc_call_spec [OF ag ch lr cap(1) cap(1) cap(2), of fn] by metis
  have rl: "length rep = min (unat rlen) (unat hdr + unat plen)" if a: "reply = Inr (rep, rlen, rres)" for rep rlen rres
  proof -
    obtain m where "(rep, rlen, rres) = answer ?n m" "length (gm_data m) = 4016" using r(2) a by (auto simp: call_outcome_def)
    then show ?thesis using length_answer [of m ?n rep rlen rres] cap(1) n by simp
  qed
  show thesis by (rule rm_exchange_steps [OF pl sz hd so r(1)]) (erule rl, erule (1) that [OF r])
qed

text \<open>
  C28. A control call sends exactly one request: client, object, command, zero status, parameter
  length, zero flags, then the parameters.  Its result is the answer's: transport errors and RPC
  results other than zero leave status and parameters alone, otherwise status is the answer's field and
  the parameters are overwritten by as many answer bytes as both sides have, never beyond the buffer.
  Parameters over 3584 bytes are refused before anything is sent.
\<close>

theorem nv_gsp_rm_control_correct:
  assumes "gsp_protocol ag" "chan_ok ch ms" "length params = unat plen"
  shows "if unat plen > 3584
    then nv_gsp_rm_control ag ch hClient hObject cmd params plen = Some (NV_GSP_RM_ERR_BOUNDS, None, params, ch)
    else \<exists>reply rc st params' ch' new.
      nv_gsp_rm_control ag ch hClient hObject cmd params plen = Some (rc, st, params', ch')
      \<and> nv_gsp_rpc_call ag ch 76 (concat (map bytes32 [hClient, hObject, cmd, 0, plen, 0]) @ params)
          (24 + plen) (24 + plen) 4000000 = Some (reply, ch')
      \<and> call_outcome 76 (24 + plen) reply (ms @ new) ch'
      \<and> rm_result 24 12 params reply rc st params'"
proof (cases "unat plen > 3584")
  case True
  then show ?thesis by (simp add: nv_gsp_rm_control_def word_less_nat_alt)
next
  case False
  let ?cs = "[W32 hClient, W32 hObject, W32 cmd, W32 0, W32 plen, W32 0]"
  have sz: "unat (24 :: u32) + unat plen \<le> 4016" "length (concat (map cell_bytes ?cs)) \<le> unat (24 :: u32)"
    "12 + 4 \<le> unat (24 :: u32)" using False by simp_all
  have req: "rm_req (unat (24 :: u32)) ?cs params = concat (map bytes32 [hClient, hObject, cmd, 0, plen, 0]) @ params"
    by (simp add: rm_req_def)
  have c: "nv_gsp_rm_control ag ch hClient hObject cmd params plen = rm_exchange ag ch 76 24 12 (pack 0 ?cs) params plen"
    using False by (simp add: nv_gsp_rm_control_def word_less_nat_alt)
  obtain reply rc st params' ch' new where
    "nv_gsp_rpc_call ag ch 76 (rm_req (unat (24 :: u32)) ?cs params) (24 + plen) (24 + plen) 4000000 = Some (reply, ch')"
    "call_outcome 76 (24 + plen) reply (ms @ new) ch'"
    "rm_exchange ag ch 76 24 12 (pack 0 ?cs) params plen = Some (rc, st, params', ch')"
    "rm_result 24 12 params reply rc st params'"
    by (rule rm_exchange_spec [OF assms sz, of 76]) blast
  then show ?thesis unfolding c req using False by (simp only: if_False) blast
qed

theorem nv_gsp_rm_control_witness:
  "\<exists>(ch :: unit nv_gsp_rpc_chan) st params' ch'.
     nv_gsp_rm_control idle_gsp ch 1 2 3 [9, 9, 9, 9] 4 = Some (NV_GSP_RM_OK, Some st, params', ch') \<and> length params' = 4"
proof -
  obtain ch :: "unit nv_gsp_rpc_chan" and m where ch: "chan_ok ch [m]"
    "gm_fn m = 76" "gm_len m = 60" "gm_res m = 0" "gm_count m = 1" "ch_msgq_rptr ch = 0" "length (gm_data m) = 4016"
    by (rule demo_chan)
  have h: "length [9, 9, 9, 9 :: u8] = unat (4 :: u32)" and small: "\<not> unat (4 :: u32) > 3584" by simp_all
  obtain reply rc st params' ch' new where
    r: "nv_gsp_rm_control idle_gsp ch 1 2 3 [9, 9, 9, 9] 4 = Some (rc, st, params', ch')"
    and o': "call_outcome 76 (24 + 4) reply ([m] @ new) ch'"
    and res: "rm_result 24 12 [9, 9, 9, 9] reply rc st params'"
    using nv_gsp_rm_control_correct [OF idle_gsp_protocol ch(1) h, of 1 2 3, unfolded if_not_P [OF small]] by blast
  have "reply = Inr (answer 28 m)" using demo_outcome [OF ch(2,5)] o' by simp
  moreover have "answer 28 m = (take 28 (gm_data m), 28, 0)" using ch(3,4) by (simp add: answer_def)
  ultimately have "rc = NV_GSP_RM_OK \<and> st \<noteq> None \<and> length params' = 4"
    using res ch(7) by (auto simp: rm_result_def Let_def)
  then show ?thesis using r by auto
qed

end
