(* ===== verification/Booter.thy ===== *)
theory Booter
  imports Bytes
begin

text \<open>
  \<open>driver/gsp/booter.c\<close>: parsing of the signed Booter container and choice of the signature.
  A result is an error code or the descriptor; what the code leaves in \<open>*out\<close> when it fails is
  not represented, no caller reads it.
\<close>

abbreviation (input) NV_BOOTER_OK :: int where "NV_BOOTER_OK \<equiv> 0"
abbreviation (input) NV_BOOTER_ERR_ARG :: int where "NV_BOOTER_ERR_ARG \<equiv> -1"
abbreviation (input) NV_BOOTER_ERR_BOUNDS :: int where "NV_BOOTER_ERR_BOUNDS \<equiv> -2"
abbreviation (input) NV_BOOTER_ERR_MAGIC :: int where "NV_BOOTER_ERR_MAGIC \<equiv> -3"
abbreviation (input) NV_BOOTER_ERR_LAYOUT :: int where "NV_BOOTER_ERR_LAYOUT \<equiv> -4"
abbreviation (input) NV_BOOTER_BIN_MAGIC :: u32 where "NV_BOOTER_BIN_MAGIC \<equiv> 0x10de"
abbreviation (input) NV_BOOTER_MAX_APPS :: u32 where "NV_BOOTER_MAX_APPS \<equiv> 8"
abbreviation (input) NV_BOOTER_SIG_SIZE :: u32 where "NV_BOOTER_SIG_SIZE \<equiv> 384"
abbreviation (input) NV_BOOTER_FUSE_VERSION_USE_LAST_SIG :: u32 where "NV_BOOTER_FUSE_VERSION_USE_LAST_SIG \<equiv> 0"

record nv_booter_app_t =
  ba_code_offset :: u32
  ba_code_size :: u32
  ba_data_offset :: u32
  ba_data_size :: u32

record nv_booter_desc_t =
  bd_data_abs :: u32
  bd_data_size :: u32
  bd_sig_prod_abs :: u32
  bd_sig_prod_size :: u32
  bd_num_sig :: u32
  bd_patch_loc :: u32
  bd_patch_sig :: u32
  bd_meta_abs :: u32
  bd_meta_size :: u32
  bd_sig_fuse_ver :: u32
  bd_engine_id_mask :: u32
  bd_ucode_id :: u32
  bd_os_code_offset :: u32
  bd_os_code_size :: u32
  bd_os_data_offset :: u32
  bd_os_data_size :: u32
  bd_num_apps :: u32
  bd_app :: "nv_booter_app_t list"
  bd_pkc_data_offset :: u32

definition no_app :: nv_booter_app_t where
  "no_app = \<lparr>ba_code_offset = 0, ba_code_size = 0, ba_data_offset = 0, ba_data_size = 0\<rparr>"

text \<open>One entry of the application table; \<open>lh\<close> is the offset of the load header.\<close>

definition read_app :: "u8 list \<Rightarrow> nat \<Rightarrow> u32 \<Rightarrow> nv_booter_app_t list \<Rightarrow> nv_booter_app_t list option" where
  "read_app buf lh i apps =
     (let a = lh + 20 + unat (i * 16) in
      do { code_offset \<leftarrow> ld32 buf a; code_size \<leftarrow> ld32 buf (a + 4);
           data_offset \<leftarrow> ld32 buf (a + 8); data_size \<leftarrow> ld32 buf (a + 12);
           Some (apps[unat i := \<lparr>ba_code_offset = code_offset, ba_code_size = code_size,
                                ba_data_offset = data_offset, ba_data_size = data_size\<rparr>]) })"

definition nv_booter_parse :: "u8 list \<Rightarrow> (int + nv_booter_desc_t) option" where
  "nv_booter_parse buf =
     (let len = length buf in
      if \<not> fits 0 24 len then Some (Inl NV_BOOTER_ERR_BOUNDS)
      else do { magic \<leftarrow> ld32 buf 0;
      if magic \<noteq> NV_BOOTER_BIN_MAGIC then Some (Inl NV_BOOTER_ERR_MAGIC)
      else do { bin_hdr_off \<leftarrow> ld32 buf 12; data_off \<leftarrow> ld32 buf 16; data_size \<leftarrow> ld32 buf 20;
      if \<not> fits (unat data_off) (unat data_size) len then Some (Inl NV_BOOTER_ERR_BOUNDS)
      else if \<not> fits (unat bin_hdr_off) 36 len then Some (Inl NV_BOOTER_ERR_BOUNDS)
      else let h = unat bin_hdr_off in
      do { sig_prod_off \<leftarrow> ld32 buf h; sig_prod_size \<leftarrow> ld32 buf (h + 4);
           patch_loc_off \<leftarrow> ld32 buf (h + 8); patch_sig_off \<leftarrow> ld32 buf (h + 12);
           meta_off \<leftarrow> ld32 buf (h + 16); meta_size \<leftarrow> ld32 buf (h + 20);
           num_sig_off \<leftarrow> ld32 buf (h + 24); load_hdr_off \<leftarrow> ld32 buf (h + 28);
      if \<not> fits (unat sig_prod_off) (unat sig_prod_size) len then Some (Inl NV_BOOTER_ERR_BOUNDS)
      else if \<not> fits (unat patch_loc_off) 4 len \<or> \<not> fits (unat patch_sig_off) 4 len \<or> \<not> fits (unat num_sig_off) 4 len
      then Some (Inl NV_BOOTER_ERR_BOUNDS)
      else do { patch_loc \<leftarrow> ld32 buf (unat patch_loc_off); patch_sig \<leftarrow> ld32 buf (unat patch_sig_off);
                num_sig \<leftarrow> ld32 buf (unat num_sig_off);
      if ucast num_sig * ucast NV_BOOTER_SIG_SIZE \<noteq> (ucast sig_prod_size :: u64) then Some (Inl NV_BOOTER_ERR_LAYOUT)
      else if meta_size < 12 \<or> \<not> fits (unat meta_off) 12 len then Some (Inl NV_BOOTER_ERR_LAYOUT)
      else do { fuse_ver \<leftarrow> ld32 buf (unat meta_off); engine_id_mask \<leftarrow> ld32 buf (unat meta_off + 4);
                ucode_id \<leftarrow> ld32 buf (unat meta_off + 8);
      if \<not> fits (unat load_hdr_off) 20 len then Some (Inl NV_BOOTER_ERR_BOUNDS)
      else let lh = unat load_hdr_off in
      do { os_code_offset \<leftarrow> ld32 buf lh; os_code_size \<leftarrow> ld32 buf (lh + 4);
           os_data_offset \<leftarrow> ld32 buf (lh + 8); os_data_size \<leftarrow> ld32 buf (lh + 12);
           num_apps \<leftarrow> ld32 buf (lh + 16);
      if num_apps > NV_BOOTER_MAX_APPS then Some (Inl NV_BOOTER_ERR_LAYOUT)
      else if \<not> fits (unat (load_hdr_off + 20)) (unat num_apps * 16) len then Some (Inl NV_BOOTER_ERR_BOUNDS)
      else do { apps \<leftarrow> for_upto 1 num_apps (read_app buf lh) 0 (replicate (unat NV_BOOTER_MAX_APPS) no_app);
      if ucast os_code_offset + ucast os_code_size > (ucast data_size :: u64)
         \<or> ucast os_data_offset + ucast os_data_size > (ucast data_size :: u64) then Some (Inl NV_BOOTER_ERR_LAYOUT)
      else if patch_loc < os_data_offset then Some (Inl NV_BOOTER_ERR_LAYOUT)
      else Some (Inr \<lparr>bd_data_abs = data_off, bd_data_size = data_size,
             bd_sig_prod_abs = sig_prod_off, bd_sig_prod_size = sig_prod_size, bd_num_sig = num_sig,
             bd_patch_loc = patch_loc, bd_patch_sig = patch_sig, bd_meta_abs = meta_off, bd_meta_size = meta_size,
             bd_sig_fuse_ver = fuse_ver, bd_engine_id_mask = engine_id_mask, bd_ucode_id = ucode_id,
             bd_os_code_offset = os_code_offset, bd_os_code_size = os_code_size,
             bd_os_data_offset = os_data_offset, bd_os_data_size = os_data_size,
             bd_num_apps = num_apps, bd_app = apps, bd_pkc_data_offset = patch_loc - os_data_offset\<rparr>)
      } } } } } } })"

definition nv_booter_select_signature :: "nv_booter_desc_t \<Rightarrow> u32 \<Rightarrow> int + u32" where
  "nv_booter_select_signature desc reg_fuse_version =
     (if bd_num_sig desc = 0 then Inl NV_BOOTER_ERR_LAYOUT
      else
        let idx = (if reg_fuse_version = NV_BOOTER_FUSE_VERSION_USE_LAST_SIG then Inr (bd_num_sig desc - 1)
                   else if bd_sig_fuse_ver desc < reg_fuse_version then Inl NV_BOOTER_ERR_LAYOUT
                   else Inr (bd_sig_fuse_ver desc - reg_fuse_version))
        in case idx of
             Inl e \<Rightarrow> Inl e
           | Inr i \<Rightarrow> if i \<ge> bd_num_sig desc then Inl NV_BOOTER_ERR_LAYOUT else Inr i)"

section \<open>The parser\<close>

text \<open>
  What an accepted descriptor promises about the container: \<open>h\<close> is the offset of the signed header
  and \<open>lh\<close> that of the load header, both as the container states them.
\<close>

definition app_at :: "u8 list \<Rightarrow> nat \<Rightarrow> nv_booter_app_t \<Rightarrow> bool" where
  "app_at buf a p \<longleftrightarrow>
     ld32 buf a = Some (ba_code_offset p) \<and> ld32 buf (a + 4) = Some (ba_code_size p)
     \<and> ld32 buf (a + 8) = Some (ba_data_offset p) \<and> ld32 buf (a + 12) = Some (ba_data_size p)"

definition booter_fields :: "u8 list \<Rightarrow> u32 \<Rightarrow> u32 \<Rightarrow> nv_booter_desc_t \<Rightarrow> bool" where
  "booter_fields buf h lh d \<longleftrightarrow>
     ld32 buf 0 = Some NV_BOOTER_BIN_MAGIC \<and> ld32 buf 12 = Some h \<and> ld32 buf (unat h + 28) = Some lh
     \<and> ld32 buf 16 = Some (bd_data_abs d) \<and> ld32 buf 20 = Some (bd_data_size d)
     \<and> ld32 buf (unat h) = Some (bd_sig_prod_abs d) \<and> ld32 buf (unat h + 4) = Some (bd_sig_prod_size d)
     \<and> ld32 buf (unat h + 16) = Some (bd_meta_abs d) \<and> ld32 buf (unat h + 20) = Some (bd_meta_size d)
     \<and> ld32 buf (unat (bd_meta_abs d)) = Some (bd_sig_fuse_ver d)
     \<and> ld32 buf (unat (bd_meta_abs d) + 4) = Some (bd_engine_id_mask d)
     \<and> ld32 buf (unat (bd_meta_abs d) + 8) = Some (bd_ucode_id d)
     \<and> ld32 buf (unat lh) = Some (bd_os_code_offset d) \<and> ld32 buf (unat lh + 4) = Some (bd_os_code_size d)
     \<and> ld32 buf (unat lh + 8) = Some (bd_os_data_offset d) \<and> ld32 buf (unat lh + 12) = Some (bd_os_data_size d)
     \<and> ld32 buf (unat lh + 16) = Some (bd_num_apps d)
     \<and> length (bd_app d) = 8
     \<and> (\<forall>i < unat (bd_num_apps d). app_at buf (unat lh + 20 + i * 16) (bd_app d ! i))"

definition booter_bounds :: "u8 list \<Rightarrow> nv_booter_desc_t \<Rightarrow> bool" where
  "booter_bounds buf d \<longleftrightarrow>
     unat (bd_data_abs d) + unat (bd_data_size d) \<le> length buf
     \<and> unat (bd_os_code_offset d) + unat (bd_os_code_size d) \<le> unat (bd_data_size d)
     \<and> unat (bd_os_data_offset d) + unat (bd_os_data_size d) \<le> unat (bd_data_size d)
     \<and> unat (bd_sig_prod_abs d) + unat (bd_num_sig d) * 384 \<le> length buf
     \<and> unat (bd_num_apps d) \<le> 8
     \<and> unat (bd_pkc_data_offset d) + unat (bd_os_data_offset d) = unat (bd_patch_loc d)"

lemma read_apps_ok:
  assumes lh: "lh + 20 + unat n * 16 \<le> length buf" and n: "n \<le> 8"
  shows "returns (for_upto 1 n (read_app buf lh) 0 (replicate (unat (8 :: u32)) no_app))
           (\<lambda>apps. length apps = 8 \<and> (\<forall>i < unat n. app_at buf (lh + 20 + i * 16) (apps ! i)))"
proof (rule returns_mono [OF ret_for_upto [where n = "unat n" and P = "\<lambda>k apps. length apps = 8 \<and>
      (\<forall>i < k. app_at buf (lh + 20 + i * 16) (apps ! i))"]])
  have n': "unat n \<le> 8" using n by (simp add: word_le_nat_alt)
  show "unat n + unat (1::u32) \<le> 2 ^ LENGTH(32)" using n' by simp
  fix k apps
  assume k: "k < unat n" and P: "length apps = 8 \<and> (\<forall>i < k. app_at buf (lh + 20 + i * 16) (apps ! i))"
  have u: "unat (of_nat k * 1 :: u32) = k" "unat (of_nat k * 1 * 16 :: u32) = k * 16"
    using k n' by (simp_all add: unat_word_ariths unat_of_nat_small)
  have "lh + 20 + k * 16 + 16 \<le> length buf" using k lh by linarith
  then show "returns (read_app buf lh (of_nat k * 1) apps)
      (\<lambda>apps. length apps = 8 \<and> (\<forall>i < Suc k. app_at buf (lh + 20 + i * 16) (apps ! i)))"
    unfolding read_app_def u Let_def using P k n'
    by (intro ret_rules) (auto simp: app_at_def nth_list_update less_Suc_eq simp del: ld32_Some)
qed auto

lemma ucast_prod_eq_iff:
  "(ucast (n :: u32) * 384 :: u64) = ucast (s :: u32) \<longleftrightarrow> unat n * 384 = unat s"
  using u32_less [of n] u32_less [of s] unat_widen [of s]
  by (auto simp: word_unat_eq_iff unat_word_ariths unat_widen)

lemma load_table_no_wrap:
  assumes "unat (l :: u32) + 20 \<le> length b" "length b < 2 ^ 32" "unat (l + 20) + n \<le> length b"
  shows "unat l + 20 + n \<le> length b"
  using assms by (simp add: unat_word_ariths)

theorem booter_parse_spec:
  assumes "length buf < 2 ^ 32"
  shows "returns (nv_booter_parse buf) (\<lambda>r. case r of
           Inl e \<Rightarrow> e \<in> {NV_BOOTER_ERR_BOUNDS, NV_BOOTER_ERR_MAGIC, NV_BOOTER_ERR_LAYOUT}
         | Inr d \<Rightarrow> (\<exists>h lh. booter_fields buf h lh d) \<and> booter_bounds buf d)"
  unfolding nv_booter_parse_def
  apply (intro ret_rules ret_bind [OF read_apps_ok]; (simp del: ld32_Some; fail)?)
  subgoal using assms by (auto intro: load_table_no_wrap)
  subgoal premises p for len v va vb vc h vd ve vf vg vh vi vj vk vl vm vn vo vp vq lh vr vs vt vu vv apps
  proof -
    let ?d = "\<lparr>bd_data_abs = vb, bd_data_size = vc, bd_sig_prod_abs = vd,
        bd_sig_prod_size = ve, bd_num_sig = vn, bd_patch_loc = vl, bd_patch_sig = vm,
        bd_meta_abs = vh, bd_meta_size = vi, bd_sig_fuse_ver = vo, bd_engine_id_mask = vp, bd_ucode_id = vq,
        bd_os_code_offset = vr, bd_os_code_size = vs, bd_os_data_offset = vt,
        bd_os_data_size = vu, bd_num_apps = vv, bd_app = apps, bd_pkc_data_offset = vl - vt\<rparr>"
    have "booter_fields buf va vk ?d" using p by (simp add: booter_fields_def del: ld32_Some)
    moreover have "booter_bounds buf ?d" using p
      by (simp del: ld32_Some add: booter_bounds_def ucast_sum_less_iff ucast_prod_eq_iff not_less unat_sub word_le_nat_alt)
    ultimately show ?thesis by auto
  qed
  done


text \<open>
  The signature the fuse register selects: index 0 is the newest, one step back per fuse version;
  a register without a version takes the last.
\<close>

lemma select_signature_cases:
  "nv_booter_select_signature d v =
     (if bd_num_sig d = 0 then Inl NV_BOOTER_ERR_LAYOUT
      else if v = 0 then Inr (bd_num_sig d - 1)
      else if v \<le> bd_sig_fuse_ver d \<and> bd_sig_fuse_ver d - v < bd_num_sig d then Inr (bd_sig_fuse_ver d - v)
      else Inl NV_BOOTER_ERR_LAYOUT)"
proof -
  have "bd_num_sig d \<noteq> 0 \<Longrightarrow> bd_num_sig d - 1 < bd_num_sig d"
    by (simp add: word_less_nat_alt unat_minus_one unat_gt_0)
  then show ?thesis by (auto simp: nv_booter_select_signature_def Let_def dest: leD)
qed

lemma select_signature_less: "nv_booter_select_signature d v = Inr i \<Longrightarrow> unat i < unat (bd_num_sig d)"
proof -
  assume a: "nv_booter_select_signature d v = Inr i"
  have "bd_num_sig d \<noteq> 0 \<Longrightarrow> bd_num_sig d - 1 < bd_num_sig d"
    by (simp add: word_less_nat_alt unat_minus_one unat_gt_0)
  with a show ?thesis by (auto simp: select_signature_cases word_less_nat_alt split: if_splits)
qed

text \<open>A container with one signature and one application; its \<open>patch_loc\<close> is the argument.\<close>

definition demo_booter :: "u32 \<Rightarrow> u8 list" where
  "demo_booter patch = words
     ([NV_BOOTER_BIN_MAGIC, 0, 0, 24, 132, 32, 132, 384, 60, 64, 72, 12, 68, 84, 0,
      patch, 0, 1, 5, 0x400, 3, 0, 16, 16, 16, 1, 0, 16, 0, 0, 0, 0, 0] @ replicate 100 0)"

definition demo_desc :: "u32 \<Rightarrow> nv_booter_desc_t" where
  "demo_desc patch = \<lparr>bd_data_abs = 132, bd_data_size = 32, bd_sig_prod_abs = 132, bd_sig_prod_size = 384,
     bd_num_sig = 1, bd_patch_loc = patch, bd_patch_sig = 0, bd_meta_abs = 72, bd_meta_size = 12,
     bd_sig_fuse_ver = 5, bd_engine_id_mask = 0x400, bd_ucode_id = 3, bd_os_code_offset = 0, bd_os_code_size = 16,
     bd_os_data_offset = 16, bd_os_data_size = 16, bd_num_apps = 1,
     bd_app = \<lparr>ba_code_offset = 0, ba_code_size = 16, ba_data_offset = 0, ba_data_size = 0\<rparr> # replicate 7 no_app,
     bd_pkc_data_offset = patch - 16\<rparr>"

lemma length_demo_booter [simp]: "length (demo_booter patch) = 532"
  by (simp add: demo_booter_def)

lemma demo_booter_word:
  "i mod 4 = 0 \<Longrightarrow> i div 4 < 33 \<Longrightarrow> ld32 (demo_booter patch) i =
     Some ([NV_BOOTER_BIN_MAGIC, 0, 0, 24, 132, 32, 132, 384, 60, 64, 72, 12, 68, 84, 0,
      patch, 0, 1, 5, 0x400, 3, 0, 16, 16, 16, 1, 0, 16, 0, 0, 0, 0, 0] ! (i div 4))"
  unfolding demo_booter_def
  by (subst ld32_words) (simp, simp, simp add: nth_append del: append_Cons append_Nil)

lemma replicate_8: "replicate 8 x = x # replicate 7 x"
  by (simp add: numeral_eq_Suc)

lemma demo_apps: "for_upto 1 1 (read_app (demo_booter patch) 84) 0 (replicate 8 no_app) = Some (bd_app (demo_desc patch))"
  by (simp add: for_upto_mfold read_app_def demo_booter_word demo_desc_def replicate_8 del: ld32_Some)

lemma demo_booter_accepted: "16 \<le> patch \<Longrightarrow> nv_booter_parse (demo_booter patch) = Some (Inr (demo_desc patch))"
  by (simp add: nv_booter_parse_def demo_booter_word demo_apps del: ld32_Some) (simp add: demo_desc_def not_less)

section \<open>Properties\<close>



text \<open>
  The signature chosen from an accepted container lies inside it, and is the one the fuse register asks
  for: the last for a register without a version, otherwise the one as many places from the newest as the
  register is behind; a register ahead of the container, or too far behind, is refused.
\<close>

theorem nv_booter_signature_in_container:
  assumes "length buf < 2 ^ 32" "nv_booter_parse buf = Some (Inr d)"
  shows "case nv_booter_select_signature d v of
           Inr i \<Rightarrow> unat (bd_sig_prod_abs d) + (unat i + 1) * 384 \<le> length buf
                  \<and> (if v = 0 then unat i + 1 = unat (bd_num_sig d) else unat i + unat v = unat (bd_sig_fuse_ver d))
         | Inl e \<Rightarrow> e = NV_BOOTER_ERR_LAYOUT \<and> (bd_num_sig d = 0
                  \<or> v \<noteq> 0 \<and> (bd_sig_fuse_ver d < v \<or> unat (bd_num_sig d) + unat v \<le> unat (bd_sig_fuse_ver d)))"
proof (cases "nv_booter_select_signature d v")
  case (Inl e)
  then show ?thesis
    by (cases "v \<le> bd_sig_fuse_ver d")
      (auto simp: select_signature_cases not_le word_le_nat_alt word_less_nat_alt unat_sub not_less split: if_splits)
next
  case (Inr i)
  have b: "unat (bd_sig_prod_abs d) + unat (bd_num_sig d) * 384 \<le> length buf"
    using booter_parse_spec [OF assms(1)] by (simp add: assms(2) returns_def booter_bounds_def)
  have "(unat i + 1) * 384 \<le> unat (bd_num_sig d) * 384" using select_signature_less [OF Inr] by simp
  moreover have "if v = 0 then unat i + 1 = unat (bd_num_sig d) else unat i + unat v = unat (bd_sig_fuse_ver d)"
    using Inr by (auto simp: select_signature_cases word_le_nat_alt unat_sub unat_minus_one unat_gt_0 split: if_splits)
  ultimately show ?thesis using b Inr by simp
qed

theorem nv_booter_signature_witness:
  "nv_booter_select_signature (demo_desc 16) 5 = Inr 0
   \<and> unat (bd_sig_prod_abs (demo_desc 16)) + 384 \<le> length (demo_booter 16)"
proof -
  have l: "length (demo_booter 16) < 2 ^ 32" by simp
  have a: "nv_booter_parse (demo_booter 16) = Some (Inr (demo_desc 16))" by (simp add: demo_booter_accepted)
  have s: "nv_booter_select_signature (demo_desc 16) 5 = Inr 0"
    by (simp add: nv_booter_select_signature_def demo_desc_def)
  from nv_booter_signature_in_container [OF l a, of 5] show ?thesis by (simp add: s)
qed

text \<open>
  The place of the signature is not bounded by the data region: a container whose \<open>patch_loc\<close> is
  0xFFFFFFF0 is accepted, although its data region has 32 bytes.
\<close>

theorem nv_booter_patch_loc_unbounded:
  "\<exists>d. nv_booter_parse (demo_booter 0xFFFFFFF0) = Some (Inr d)
     \<and> unat (bd_patch_loc d) = 0xFFFFFFF0 \<and> unat (bd_data_size d) = 32"
  by (rule exI [of _ "demo_desc 0xFFFFFFF0"]) (simp add: demo_booter_accepted, simp add: demo_desc_def)

end
