(* ===== verification/Elf64.thy ===== *)
theory Elf64
  imports Bytes
begin

text \<open>
  \<open>driver/gsp/elf64.c\<close>: search of a section of an ELF64 file by its name.  A C string is the list of its
  bytes before the terminating NUL.
\<close>

abbreviation (input) NV_ELF_ERR_FORMAT :: int where "NV_ELF_ERR_FORMAT \<equiv> -2"
abbreviation (input) NV_ELF_ERR_BOUNDS :: int where "NV_ELF_ERR_BOUNDS \<equiv> -3"
abbreviation (input) NV_ELF_ERR_NOSEC :: int where "NV_ELF_ERR_NOSEC \<equiv> -4"

text \<open>One round of the loop over the section headers: continue, fail, or the range found.\<close>

definition elf_section_round ::
  "u8 list \<Rightarrow> u64 \<Rightarrow> u16 \<Rightarrow> u64 \<Rightarrow> u64 \<Rightarrow> u8 list \<Rightarrow> u16 \<Rightarrow> (int + u64 \<times> u64) option option" where
  "elf_section_round buf shoff shentsz str_off str_size name i =
     (let sh = unat shoff + unat (ucast i * ucast shentsz :: u64); namelen = length name in
      do { sh_name \<leftarrow> ld32 buf sh;
      if ucast sh_name \<ge> str_size then Some None
      else let s = unat str_off + unat sh_name; maxn = str_size - ucast sh_name in
      if namelen + 1 > unat maxn then Some None
      else do { t \<leftarrow> rd_bytes buf s namelen; z \<leftarrow> rd8 buf (s + namelen);
      if t \<noteq> name \<or> z \<noteq> 0 then Some None
      else do { so \<leftarrow> ld64 buf (sh + 0x18); ss \<leftarrow> ld64 buf (sh + 0x20);
      if \<not> fits (unat so) (unat ss) (length buf) then Some (Some (Inl NV_ELF_ERR_BOUNDS))
      else Some (Some (Inr (so, ss))) } } })"

definition nv_elf64_section :: "u8 list \<Rightarrow> u8 list \<Rightarrow> (int + u64 \<times> u64) option" where
  "nv_elf64_section buf name =
     (let len = length buf in
      if len < 64 then Some (Inl NV_ELF_ERR_BOUNDS)
      else do { b0 \<leftarrow> rd8 buf 0; b1 \<leftarrow> rd8 buf 1; b2 \<leftarrow> rd8 buf 2; b3 \<leftarrow> rd8 buf 3;
      if \<not> (b0 = 0x7f \<and> b1 = 69 \<and> b2 = 76 \<and> b3 = 70) then Some (Inl NV_ELF_ERR_FORMAT)
      else do { b4 \<leftarrow> rd8 buf 4; b5 \<leftarrow> rd8 buf 5;
      if b4 \<noteq> 2 \<or> b5 \<noteq> 1 then Some (Inl NV_ELF_ERR_FORMAT)
      else do { shoff \<leftarrow> ld64 buf 0x28; shentsz \<leftarrow> ld16 buf 0x3a; shnum \<leftarrow> ld16 buf 0x3c;
                shstrnd \<leftarrow> ld16 buf 0x3e;
      if shentsz < 64 \<or> shnum = 0 then Some (Inl NV_ELF_ERR_FORMAT)
      else if \<not> fits (unat shoff) (unat (ucast shnum * ucast shentsz :: u64)) len then Some (Inl NV_ELF_ERR_BOUNDS)
      else if shstrnd \<ge> shnum then Some (Inl NV_ELF_ERR_FORMAT)
      else let strsh = unat shoff + unat (ucast shstrnd * ucast shentsz :: u64) in
      do { str_off \<leftarrow> ld64 buf (strsh + 0x18); str_size \<leftarrow> ld64 buf (strsh + 0x20);
      if \<not> fits (unat str_off) (unat str_size) len then Some (Inl NV_ELF_ERR_BOUNDS)
      else do { r \<leftarrow> find_upto shnum (elf_section_round buf shoff shentsz str_off str_size name) 0;
                Some (case r of Some x \<Rightarrow> x | None \<Rightarrow> Inl NV_ELF_ERR_NOSEC) } } } } })"

section \<open>What the search promises\<close>

text \<open>
  \<open>elf_tables\<close>: the header names a section table of \<open>n\<close> entries of \<open>es\<close> bytes at \<open>sh\<close> and a string
  table at \<open>st\<close> of \<open>sz\<close> bytes, both inside the file.  \<open>sec_named\<close>: entry \<open>k\<close> has that name.
\<close>

definition elf_tables :: "u8 list \<Rightarrow> nat \<Rightarrow> nat \<Rightarrow> nat \<Rightarrow> nat \<Rightarrow> nat \<Rightarrow> bool" where
  "elf_tables buf sh es n st sz \<longleftrightarrow>
     take 6 buf = [0x7f, 69, 76, 70, 2, 1] \<and> 64 \<le> es \<and> sh + n * es \<le> length buf \<and> st + sz \<le> length buf
     \<and> (\<exists>sh' es' n' x st' sz'. ld64 buf 0x28 = Some sh' \<and> unat sh' = sh \<and> ld16 buf 0x3a = Some es' \<and> unat es' = es
          \<and> ld16 buf 0x3c = Some n' \<and> unat n' = n \<and> ld16 buf 0x3e = Some x \<and> unat x < n
          \<and> ld64 buf (sh + unat x * es + 24) = Some st' \<and> unat st' = st
          \<and> ld64 buf (sh + unat x * es + 32) = Some sz' \<and> unat sz' = sz)"

definition sec_named :: "u8 list \<Rightarrow> nat \<Rightarrow> nat \<Rightarrow> nat \<Rightarrow> nat \<Rightarrow> u8 list \<Rightarrow> nat \<Rightarrow> bool" where
  "sec_named buf sh es st sz name k \<longleftrightarrow>
     (\<exists>nm. ld32 buf (sh + k * es) = Some nm \<and> unat nm + length name + 1 \<le> sz
       \<and> fld buf (st + unat nm) (length name) = name \<and> buf ! (st + unat nm + length name) = 0)"

definition sec_range :: "u8 list \<Rightarrow> nat \<Rightarrow> nat \<Rightarrow> nat \<Rightarrow> u64 \<Rightarrow> u64 \<Rightarrow> bool" where
  "sec_range buf sh es k off sz \<longleftrightarrow>
     ld64 buf (sh + k * es + 24) = Some off \<and> ld64 buf (sh + k * es + 32) = Some sz"

lemma entry_offset: "unat (ucast (i :: u16) * ucast (es :: u16) :: u64) = unat i * unat es"
proof -
  have "unat i * unat es < 2 ^ 64"
    using mult_strict_mono' [OF u16_less [of i] u16_less [of es]] by simp
  moreover have "unat (ucast i :: u64) = unat i" "unat (ucast es :: u64) = unat es"
    using u16_less [of i] u16_less [of es] by (simp_all add: unat_ucast_small)
  ultimately show ?thesis by (simp add: unat_word_ariths)
qed

lemma round_ok:
  assumes k: "k < unat (n :: u16)" and tab: "unat sh + unat n * unat es \<le> length buf" "64 \<le> unat es"
    and str: "unat st + unat sz \<le> length buf"
  shows "returns (elf_section_round buf sh es st sz name (of_nat k)) (\<lambda>r. case r of
      None \<Rightarrow> \<not> sec_named buf (unat sh) (unat es) (unat st) (unat sz) name k
    | Some x \<Rightarrow> sec_named buf (unat sh) (unat es) (unat st) (unat sz) name k \<and> (case x of
        Inl e \<Rightarrow> e = NV_ELF_ERR_BOUNDS \<and> (\<exists>off len. sec_range buf (unat sh) (unat es) k off len
                   \<and> length buf < unat off + unat len)
      | Inr (off, len) \<Rightarrow> sec_range buf (unat sh) (unat es) k off len \<and> unat off + unat len \<le> length buf))"
proof -
  have e: "unat (ucast (of_nat k :: u16) * ucast es :: u64) = k * unat es"
    using k u16_less [of n] by (subst entry_offset) (simp add: unat_of_nat_small)
  have "Suc k * unat es \<le> unat n * unat es" using k by (intro mult_le_mono1) simp
  then have b: "unat sh + k * unat es + 64 \<le> length buf" using tab by simp
  have maxn: "unat (sz - ucast (nm :: u32)) = unat sz - unat nm" if "\<not> sz \<le> ucast nm" for nm
    using that by (simp add: unat_sub word_le_nat_alt unat_widen)
  show ?thesis
    unfolding elf_section_round_def e
    using b str
    apply (intro ret_rules; (simp del: ld32_Some; fail)?)
    apply (auto simp: sec_named_def sec_range_def word_le_nat_alt unat_widen maxn simp del: ld32_Some)
    done
qed

definition section_found :: "u8 list \<Rightarrow> u8 list \<Rightarrow> nat \<Rightarrow> nat \<Rightarrow> nat \<Rightarrow> nat \<Rightarrow> nat \<Rightarrow> nat \<Rightarrow> bool" where
  "section_found buf name sh es n st sz k \<longleftrightarrow>
     k < n \<and> sec_named buf sh es st sz name k \<and> (\<forall>j < k. \<not> sec_named buf sh es st sz name j)"

definition section_result :: "u8 list \<Rightarrow> u8 list \<Rightarrow> nat \<Rightarrow> nat \<Rightarrow> nat \<Rightarrow> nat \<Rightarrow> nat \<Rightarrow> int + u64 \<times> u64 \<Rightarrow> bool" where
  "section_result buf name sh es n st sz r \<longleftrightarrow> (case r of
      Inr (off, len) \<Rightarrow> (\<exists>k. section_found buf name sh es n st sz k \<and> sec_range buf sh es k off len
                          \<and> unat off + unat len \<le> length buf)
    | Inl e \<Rightarrow> e = NV_ELF_ERR_NOSEC \<and> (\<forall>k < n. \<not> sec_named buf sh es st sz name k)
             \<or> e = NV_ELF_ERR_BOUNDS \<and> (\<exists>k off len. section_found buf name sh es n st sz k
                   \<and> sec_range buf sh es k off len \<and> length buf < unat off + unat len))"

lemma search_ok:
  assumes tab: "unat sh + unat n * unat es \<le> length buf" "64 \<le> unat es" and str: "unat st + unat sz \<le> length buf"
  shows "returns (find_upto n (elf_section_round buf sh es st sz name) 0) (\<lambda>r.
    section_result buf name (unat sh) (unat es) (unat n) (unat st) (unat sz)
      (case r of Some x \<Rightarrow> x | None \<Rightarrow> Inl NV_ELF_ERR_NOSEC))"
proof -
  let ?N = "sec_named buf (unat sh) (unat es) (unat st) (unat sz) name"
  let ?Q = "\<lambda>k x. ?N k \<and> (case x of
        Inl e \<Rightarrow> e = NV_ELF_ERR_BOUNDS \<and> (\<exists>off len. sec_range buf (unat sh) (unat es) k off len
                   \<and> length buf < unat off + unat len)
      | Inr (off, len) \<Rightarrow> sec_range buf (unat sh) (unat es) k off len \<and> unat off + unat len \<le> length buf)"
  have "returns (find_upto n (elf_section_round buf sh es st sz name) 0)
      (\<lambda>r. case r of None \<Rightarrow> \<forall>k < unat n. \<not> ?N k | Some x \<Rightarrow> \<exists>k < unat n. (\<forall>j < k. \<not> ?N j) \<and> ?Q k x)"
    by (rule ret_find_upto) (rule round_ok [OF _ tab str])
  then show ?thesis
    by (rule returns_mono) (auto simp: section_result_def section_found_def split: option.splits sum.splits)
qed

lemma take6: "6 \<le> length b \<Longrightarrow> take 6 b = [b ! 0, b ! 1, b ! 2, b ! 3, b ! 4, b ! 5]"
  by (rule nth_equalityI) (auto simp: less_Suc_eq numeral_eq_Suc)

text \<open>A file with a string table (entry 0) and a section \<open>.a\<close> (entry 1) of \<open>n\<close> bytes at offset 4.\<close>

definition demo_elf :: "u8 \<Rightarrow> u8 list" where
  "demo_elf n =
     [0x7f, 69, 76, 70, 2, 1] @ replicate 34 0 @ [64, 0, 0, 0, 0, 0, 0, 0] @ replicate 10 0 @ [64, 0, 2, 0, 0, 0]
     @ replicate 24 0 @ [192, 0, 0, 0, 0, 0, 0, 0, 4, 0, 0, 0, 0, 0, 0, 0] @ replicate 24 0
     @ [1, 0, 0, 0] @ replicate 20 0 @ [4, 0, 0, 0, 0, 0, 0, 0, n, 0, 0, 0, 0, 0, 0, 0] @ replicate 24 0
     @ [0, 46, 97, 0]"

lemma elf64_section_spec:
  "returns (nv_elf64_section buf name) (\<lambda>r.
     r = Inl NV_ELF_ERR_FORMAT \<or> r = Inl NV_ELF_ERR_BOUNDS
     \<or> (\<exists>sh es n st sz. elf_tables buf sh es n st sz \<and> section_result buf name sh es n st sz r))"
proof -
  have strsh: "sh + x * es + 64 \<le> length buf" if "\<not> n \<le> x" "sh + n * es \<le> length buf" "64 \<le> es" for sh n x es
  proof -
    have "Suc x * es \<le> n * es" using that(1) by (intro mult_le_mono1) simp
    then show ?thesis using that by simp
  qed
  show ?thesis
    unfolding nv_elf64_section_def entry_offset
    apply (intro ret_rules ret_bind [OF search_ok]; (simp del: ld32_Some; fail)?; (fastforce; fail)?)
    subgoal for len b0 b1 b2 b3 b4 b5 shoff shentsz shnum shstrnd strsh
      using strsh [of "unat shnum" "unat shstrnd" "unat shoff" "unat shentsz"] by (simp add: word_le_nat_alt not_less)
    subgoal for len b0 b1 b2 b3 b4 b5 shoff shentsz shnum shstrnd strsh
      using strsh [of "unat shnum" "unat shstrnd" "unat shoff" "unat shentsz"] by (simp add: word_le_nat_alt not_less)
    subgoal by (simp add: word_le_nat_alt not_less)
    subgoal premises p for len b0 b1 b2 b3 b4 b5 shoff shentsz shnum shstrnd strsh str_off str_size r
    proof -
      have "elf_tables buf (unat shoff) (unat shentsz) (unat shnum) (unat str_off) (unat str_size)"
        using p by (auto simp: elf_tables_def take6 word_le_nat_alt not_le not_less simp del: ld16_Some)
      then show ?thesis using p by blast
    qed
    done
qed



end
