(* ===== verification/FbLayout.thy ===== *)
theory FbLayout
  imports Bytes Mmio Regs
begin

text \<open>
  \<open>driver/gsp/fb_layout.c\<close>: the place of the FRTS region at the end of VRAM, from three registers.
\<close>

definition nv_fb_vidmem_size :: "'w mmio \<Rightarrow> 'w \<Rightarrow> u64 \<times> 'w" where
  "nv_fb_vidmem_size io w = (let (mb, w) = io_rd io NV_USABLE_FB_SIZE_IN_MB w in (ucast mb * 0x100000, w))"

definition nv_fb_supports_display :: "'w mmio \<Rightarrow> 'w \<Rightarrow> bool \<times> 'w" where
  "nv_fb_supports_display io w = (let (f, w) = io_rd io NV_FUSE_STATUS_OPT_DISPLAY w in (f AND 1 = 0, w))"

text \<open>\<open>None\<close> is the return value -1, \<open>Some\<close> holds \<open>*out_addr\<close> and \<open>*out_size\<close>.\<close>

definition nv_fb_compute_frts :: "'w mmio \<Rightarrow> 'w \<Rightarrow> (u64 \<times> u64) option \<times> 'w" where
  "nv_fb_compute_frts io w =
     (let (fb_end, w) = nv_fb_vidmem_size io w in
      if fb_end < ucast NV_PRAMIN_SIZE then (None, w)
      else
        let base = fb_end - ucast NV_PRAMIN_SIZE;
            (disp, w) = nv_fb_supports_display io w;
            (vga_start, w) =
              (if disp then
                 let (r, w) = io_rd io NV_PDISP_VGA_WORKSPACE_BASE w in
                 if drop_bit 3 r AND 1 \<noteq> 0 then
                   let addr = push_bit 16 (ucast (drop_bit 8 r)) in
                   if addr < base then (fb_end - ucast NV_VBIOS_WORKSPACE_SIZE, w) else (addr, w)
                 else (base, w)
               else (base, w));
            aligned = vga_start AND NOT (ucast NV_FRTS_ALIGN - 1);
            frts_size = ucast NV_FRTS_SIZE
        in if aligned < frts_size then (None, w) else (Some (aligned - frts_size, frts_size), w))"

section \<open>The layout in natural numbers\<close>

text \<open>
  \<open>vga_start_of\<close>: where the VGA workspace starts in a VRAM of \<open>v\<close> bytes; \<open>ws\<close> is the workspace
  register when the display is not fused off.
\<close>

definition vga_start_of :: "nat \<Rightarrow> nat option \<Rightarrow> nat" where
  "vga_start_of v ws = (case ws of
       Some r \<Rightarrow> if odd (r div 8)
                 then (if r div 256 * 65536 < v - 2 ^ 20 then v - 2 ^ 17 else r div 256 * 65536)
                 else v - 2 ^ 20
     | None \<Rightarrow> v - 2 ^ 20)"

definition frts_of :: "nat \<Rightarrow> nat option" where
  "frts_of start = (if start div 2 ^ 17 * 2 ^ 17 < 2 ^ 20 then None else Some (start div 2 ^ 17 * 2 ^ 17 - 2 ^ 20))"

lemma align_128k: "unat (x AND NOT (0x20000 - 1) :: u64) = unat x div 2 ^ 17 * 2 ^ 17"
proof -
  have "(0x20000 - 1 :: u64) = mask 17" by (simp add: mask_eq_exp_minus_1)
  then show ?thesis by (simp only: unat_and_not_mask)
qed

lemma frts_step:
  "(if x AND NOT (0x20000 - 1) < (0x100000 :: u64) then None
    else Some (unat ((x AND NOT (0x20000 - 1)) - 0x100000))) = frts_of (unat x)"
  using align_128k [of x] by (auto simp: frts_of_def word_less_nat_alt word_le_nat_alt unat_sub not_less)

lemma vidmem_bytes: "unat (ucast (mb :: u32) * 0x100000 :: u64) = unat mb * 2 ^ 20"
  using u32_less [of mb] by (simp add: unat_word_ariths unat_widen)

lemma odd_bit: "drop_bit 3 (r :: u32) AND 1 \<noteq> 0 \<longleftrightarrow> odd (unat r div 8)"
proof -
  have "drop_bit 3 r AND 1 \<noteq> 0 \<longleftrightarrow> bit r 3" by (simp add: and_one_eq bit_iff_odd_drop_bit mod_2_eq_odd)
  also have "\<dots> \<longleftrightarrow> bit (unat r) 3" by (simp add: bit_unsigned_iff)
  finally show ?thesis by (simp add: bit_iff_odd)
qed

lemma workspace_addr: "unat (push_bit 16 (ucast (drop_bit 8 (r :: u32))) :: u64) = unat r div 256 * 65536"
proof -
  have "unat r div 256 * 65536 < 2 ^ 64" using u32_less [of r] by simp
  then show ?thesis by (simp add: push_bit_eq_mult unat_word_ariths unat_widen unat_drop_bit)
qed

lemma compute_frts_spec:
  assumes mb: "io_rd io NV_USABLE_FB_SIZE_IN_MB w = (mb, w1)"
    and f: "io_rd io NV_FUSE_STATUS_OPT_DISPLAY w1 = (f, w2)"
    and ws: "io_rd io NV_PDISP_VGA_WORKSPACE_BASE w2 = (r, w3)"
  shows "nv_fb_compute_frts io w =
    (if mb = 0 then (None, w1)
     else (map_option (\<lambda>a. (of_nat a, 0x100000))
             (frts_of (vga_start_of (unat mb * 2 ^ 20) (if f AND 1 = 0 then Some (unat r) else None))),
           if f AND 1 = 0 then w3 else w2))"
proof (cases "mb = 0")
  case True
  then show ?thesis by (simp add: nv_fb_compute_frts_def nv_fb_vidmem_size_def mb)
next
  case False
  let ?v = "ucast mb * 0x100000 :: u64" and ?V = "unat mb * 2 ^ 20"
  have V: "unat ?v = ?V" by (rule vidmem_bytes)
  have mb1: "1 \<le> unat mb" using False by (simp add: unat_gt_0 Suc_le_eq)
  have big: "\<not> ?v < 0x100000" using mb1 V by (simp add: word_less_nat_alt)
  have base: "unat (?v - 0x100000) = ?V - 2 ^ 20" "unat (?v - 0x20000) = ?V - 2 ^ 17"
    using mb1 V by (simp_all add: unat_sub word_le_nat_alt)
  let ?start = "if f AND 1 = 0 then if drop_bit 3 r AND 1 \<noteq> 0
      then if push_bit 16 (ucast (drop_bit 8 r)) < ?v - 0x100000 then ?v - 0x20000 else push_bit 16 (ucast (drop_bit 8 r))
      else ?v - 0x100000 else ?v - 0x100000"
  have start: "unat ?start = vga_start_of ?V (if f AND 1 = 0 then Some (unat r) else None)"
    by (simp add: vga_start_of_def odd_bit workspace_addr base word_less_nat_alt)
  have fin: "(if x AND NOT (0x20000 - 1) < (0x100000 :: u64) then None
      else Some ((x AND NOT (0x20000 - 1)) - 0x100000, 0x100000)) = map_option (\<lambda>a. (of_nat a, 0x100000)) (frts_of (unat x))" for x :: u64
    unfolding frts_step [symmetric] by simp
  have "nv_fb_compute_frts io w =
      (if ?start AND NOT (0x20000 - 1) < (0x100000 :: u64) then None
       else Some ((?start AND NOT (0x20000 - 1)) - 0x100000, 0x100000), if f AND 1 = 0 then w3 else w2)"
    using big by (simp add: nv_fb_compute_frts_def nv_fb_vidmem_size_def nv_fb_supports_display_def mb f ws Let_def)
  then show ?thesis using False by (simp only: fin start if_False)
qed

lemma frts_of_bounds:
  "frts_of s = Some a \<longleftrightarrow> 2 ^ 20 \<le> s \<and> a = s div 2 ^ 17 * 2 ^ 17 - 2 ^ 20"
  "frts_of s = Some a \<Longrightarrow> 2 ^ 17 dvd a \<and> a + 2 ^ 20 \<le> s \<and> s < a + 2 ^ 20 + 2 ^ 17"
proof -
  have d: "2 ^ 20 \<le> s div 2 ^ 17 * 2 ^ 17 \<longleftrightarrow> 2 ^ 20 \<le> s" by (auto; presburger)
  then show e: "frts_of s = Some a \<longleftrightarrow> 2 ^ 20 \<le> s \<and> a = s div 2 ^ 17 * 2 ^ 17 - 2 ^ 20"
    by (auto simp: frts_of_def not_less)
  assume "frts_of s = Some a"
  then have a: "a + 2 ^ 20 = s div 2 ^ 17 * 2 ^ 17" using d unfolding e by simp
  have "s div 2 ^ 17 * 2 ^ 17 \<le> s" "s < s div 2 ^ 17 * 2 ^ 17 + 2 ^ 17"
    using dividend_less_div_times [of "2 ^ 17" s] by (simp_all add: add.commute)
  moreover have "2 ^ 17 dvd a"
  proof -
    have "(2 :: nat) ^ 17 dvd a + 2 ^ 20" unfolding a by simp
    moreover have "(2 :: nat) ^ 17 dvd 2 ^ 20" by (rule le_imp_power_dvd) simp
    ultimately show ?thesis by (simp only: dvd_add_left_iff)
  qed
  ultimately show "2 ^ 17 dvd a \<and> a + 2 ^ 20 \<le> s \<and> s < a + 2 ^ 20 + 2 ^ 17" using a by simp
qed

lemma vga_start_bound:
  "vga_start_of v ws \<le> (case ws of Some r \<Rightarrow> max v (r div 256 * 65536) | None \<Rightarrow> v)"
  by (auto simp: vga_start_of_def split: option.splits)

section \<open>Properties\<close>

text \<open>
  C17. The FRTS region is 1 MiB, starts at a multiple of 128 KiB, and ends at the VGA workspace rounded
  down to 128 KiB, where the workspace starts at the register's address when display, valid bit and
  address allow it, 128 KiB below the end of VRAM when that address is too low, and 1 MiB below the end
  otherwise.  It lies in VRAM unless the register names an address beyond its end.  The computation
  fails exactly when there is no VRAM or less than 1 MiB below the workspace.
\<close>

theorem nv_fb_compute_frts_correct:
  assumes "io_rd io NV_USABLE_FB_SIZE_IN_MB w = (mb, w1)"
    and "io_rd io NV_FUSE_STATUS_OPT_DISPLAY w1 = (f, w2)"
    and "io_rd io NV_PDISP_VGA_WORKSPACE_BASE w2 = (r, w3)"
    and "V = unat mb * 2 ^ 20" "ws = (if even (unat f) then Some (unat r) else None)" "S = vga_start_of V ws"
  shows "case fst (nv_fb_compute_frts io w) of
      None \<Rightarrow> V = 0 \<or> S < 2 ^ 20
    | Some (addr, sz) \<Rightarrow> unat sz = 2 ^ 20 \<and> 2 ^ 17 dvd unat addr \<and> unat addr + 2 ^ 20 = S div 2 ^ 17 * 2 ^ 17
        \<and> (unat addr + 2 ^ 20 \<le> V \<or> even (unat f) \<and> V < unat r div 256 * 65536)"
proof -
  have f: "f AND 1 = 0 \<longleftrightarrow> even (unat f)"
  proof -
    have "f AND 1 = 0 \<longleftrightarrow> \<not> bit f 0" by (simp add: and_one_eq bit_0 mod_2_eq_odd)
    also have "\<dots> \<longleftrightarrow> \<not> bit (unat f) 0" by (simp add: bit_unsigned_iff)
    finally show ?thesis by (simp add: bit_0)
  qed
  have S: "S \<le> max V (unat r div 256 * 65536)" and S': "odd (unat f) \<Longrightarrow> S \<le> V"
    using vga_start_bound [of V ws] assms(5,6) by (auto split: if_splits)
  have S64: "S < 2 ^ 64" using S u32_less [of mb] u32_less [of r] assms(4) by auto
  have run: "fst (nv_fb_compute_frts io w) = (if V = 0 then None else map_option (\<lambda>a. (of_nat a, 0x100000)) (frts_of S))"
    using compute_frts_spec [OF assms(1-3)] assms(4-6) by (simp add: f unat_eq_0)
  show ?thesis
  proof (cases "V = 0 \<or> frts_of S = None")
    case True
    then show ?thesis using run frts_of_bounds(1) [of S "S div 2 ^ 17 * 2 ^ 17 - 2 ^ 20"] by (auto simp: not_le)
  next
    case False
    then obtain a where a: "V \<noteq> 0" "frts_of S = Some a" by auto
    have b: "2 ^ 17 dvd a" "a + 2 ^ 20 \<le> S" "a + 2 ^ 20 = S div 2 ^ 17 * 2 ^ 17"
      using frts_of_bounds [of S a] a(2) by (auto simp: frts_of_def split: if_splits)
    have "unat (of_nat a :: u64) = a" using b(2) S64 by (intro unat_of_nat_small) simp
    moreover have "a + 2 ^ 20 \<le> V \<or> even (unat f) \<and> V < unat r div 256 * 65536"
      using S S' b(2) by (cases "odd (unat f)") auto
    ultimately show ?thesis using run a b by simp
  qed
qed

text \<open>A register file: 12282 MiB of VRAM, display present, a valid workspace at the 1 MiB boundary.\<close>

definition demo_fb :: "u32 \<Rightarrow> unit \<Rightarrow> u32 \<times> unit" where
  "demo_fb reg w = (if reg = NV_USABLE_FB_SIZE_IN_MB then 12282 else if reg = NV_PDISP_VGA_WORKSPACE_BASE then 0x02FFA008 else 0, ())"

theorem nv_fb_compute_frts_witness:
  "fst (nv_fb_compute_frts \<lparr>io_rd = demo_fb, io_wr = \<lambda>_ _ w. w, io_udelay = \<lambda>_ w. w\<rparr> ()) \<noteq> None"
proof
  let ?io = "\<lparr>io_rd = demo_fb, io_wr = \<lambda>_ _ w. w, io_udelay = \<lambda>_ w. w\<rparr> :: unit mmio"
  assume n: "fst (nv_fb_compute_frts ?io ()) = None"
  have r: "io_rd ?io NV_USABLE_FB_SIZE_IN_MB () = (12282, ())" "io_rd ?io NV_FUSE_STATUS_OPT_DISPLAY () = (0, ())"
    "io_rd ?io NV_PDISP_VGA_WORKSPACE_BASE () = (0x02FFA008, ())" by (simp_all add: demo_fb_def)
  from nv_fb_compute_frts_correct [OF r refl refl refl] n show False
    by (simp add: vga_start_of_def)
qed

end
