(* ===== verification/FwsecLocate.thy ===== *)
theory FwsecLocate
  imports Bytes
begin

text \<open>
  \<open>driver/gsp/fwsec_locate.c\<close>: the chain of ROM images of the VBIOS, the BIT table of the PciAt image,
  the PMU table of the FWSEC image, and the descriptor it names.  Offsets (\<open>size_t\<close>) are naturals: each
  is a sum of an offset inside the buffer and values of at most 32 bits, far below \<open>2 ^ 64\<close>.
\<close>

abbreviation (input) NV_FWSEC_LOC_ERR_NOSIG :: int where "NV_FWSEC_LOC_ERR_NOSIG \<equiv> -1"
abbreviation (input) NV_FWSEC_LOC_ERR_NOIMG :: int where "NV_FWSEC_LOC_ERR_NOIMG \<equiv> -2"
abbreviation (input) NV_FWSEC_LOC_ERR_PARSE :: int where "NV_FWSEC_LOC_ERR_PARSE \<equiv> -3"
abbreviation (input) NV_FWSEC_LOC_ERR_BOUNDS :: int where "NV_FWSEC_LOC_ERR_BOUNDS \<equiv> -4"
abbreviation (input) ROM_SIG_PCI :: u16 where "ROM_SIG_PCI \<equiv> 0xAA55"
abbreviation (input) ROM_SIG_NV :: u16 where "ROM_SIG_NV \<equiv> 0x4E56"
abbreviation (input) CODE_TYPE_PCIAT :: u8 where "CODE_TYPE_PCIAT \<equiv> 0x00"
abbreviation (input) CODE_TYPE_NBSI :: u8 where "CODE_TYPE_NBSI \<equiv> 0x70"
abbreviation (input) CODE_TYPE_FWSEC :: u8 where "CODE_TYPE_FWSEC \<equiv> 0xE0"
abbreviation (input) BIT_TOKEN_FALCON_DATA :: u8 where "BIT_TOKEN_FALCON_DATA \<equiv> 0x70"
abbreviation (input) PMU_APPID_FWSEC_PROD :: u8 where "PMU_APPID_FWSEC_PROD \<equiv> 0x85"

record image =
  im_off :: nat
  im_size :: nat
  im_code_type :: u8
  im_last :: bool

definition image_size_and_last :: "u8 list \<Rightarrow> nat \<Rightarrow> u8 \<Rightarrow> (nat \<times> bool) option" where
  "image_size_and_last buf pcir_off code_type =
     do { pcir_len \<leftarrow> ld16 buf (pcir_off + 0x0A);
          image_blk \<leftarrow> ld16 buf (pcir_off + 0x10);
          pcir_last \<leftarrow> rd8 buf (pcir_off + 0x15);
          let sz = unat image_blk * 512;
              lst = (code_type = CODE_TYPE_NBSI \<or> pcir_last AND 0x80 \<noteq> 0);
              npde_off = roundup 16 (pcir_off + unat pcir_len)
          in if fits npde_off 0x0B (length buf) then
               do { magic \<leftarrow> rd_bytes buf npde_off 4;
                    if magic = [78, 80, 68, 69] then
                      do { subimg \<leftarrow> ld16 buf (npde_off + 0x08);
                           npde_last \<leftarrow> rd8 buf (npde_off + 0x0A);
                           if subimg \<noteq> 0 then
                             Some (unat subimg * 512,
                                   if code_type \<noteq> CODE_TYPE_NBSI then npde_last AND 0x80 \<noteq> 0 else lst)
                           else Some (sz, lst) }
                    else Some (sz, lst) }
             else Some (sz, lst) }"

text \<open>\<open>room\<close> is \<open>max - n\<close>, the number of entries of \<open>imgs\<close> still free.\<close>

fun walk_images :: "u8 list \<Rightarrow> nat \<Rightarrow> nat \<Rightarrow> image list option" where
  "walk_images buf off 0 = Some []"
| "walk_images buf off (Suc room) =
     (if \<not> fits off 0x1A (length buf) then Some []
      else do { sig \<leftarrow> ld16 buf off;
      if sig \<noteq> ROM_SIG_PCI \<and> sig \<noteq> ROM_SIG_NV then Some []
      else do { pcir_ptr \<leftarrow> ld16 buf (off + 0x18);
      let pcir = off + unat pcir_ptr in
      if \<not> fits pcir 0x16 (length buf) then Some []
      else do { magic \<leftarrow> rd_bytes buf pcir 4;
      if magic \<noteq> [80, 67, 73, 82] \<and> magic \<noteq> [78, 80, 68, 83] then Some []
      else do { code_type \<leftarrow> rd8 buf (pcir + 0x14);
                (sz, lst) \<leftarrow> image_size_and_last buf pcir code_type;
                let im = \<lparr>im_off = off, im_size = sz, im_code_type = code_type, im_last = lst\<rparr> in
                if sz = 0 \<or> lst then Some [im]
                else do { rest \<leftarrow> walk_images buf (roundup 512 (off + sz)) room; Some (im # rest) } } } } })"

text \<open>\<open>(size_t)-1\<close> is \<^const>\<open>None\<close>; \<open>base\<close> is the start of the image in the buffer.\<close>

abbreviation (input) bit_sig :: "u8 list" where "bit_sig \<equiv> [0xFF, 0xB8, 66, 73, 84, 0]"

fun find_bit_from :: "u8 list \<Rightarrow> nat \<Rightarrow> nat \<Rightarrow> nat \<Rightarrow> nat option option" where
  "find_bit_from buf base i 0 = Some None"
| "find_bit_from buf base i (Suc n) =
     do { s \<leftarrow> rd_bytes buf (base + i) 6;
          if s = bit_sig then Some (Some i) else find_bit_from buf base (i + 1) n }"

definition find_bit :: "u8 list \<Rightarrow> nat \<Rightarrow> nat \<Rightarrow> nat option option" where
  "find_bit buf base img_len = (if img_len < 6 then Some None else find_bit_from buf base 0 (img_len - 5))"

definition first_image :: "u8 \<Rightarrow> image list \<Rightarrow> image option" where
  "first_image code imgs = List.find (\<lambda>im. im_code_type im = code) imgs"

text \<open>
  The two table scans.  Each round of the loop continues, breaks with nothing found (an entry outside
  the limit) or breaks with the pointer of the entry.
\<close>

definition token_round :: "u8 list \<Rightarrow> nat \<Rightarrow> nat \<Rightarrow> nat \<Rightarrow> u8 \<Rightarrow> u32 \<Rightarrow> u16 option option option" where
  "token_round buf base img_len tokens_start token_size i =
     (let e = tokens_start + unat i * unat token_size in
      if \<not> fits e 6 img_len then Some (Some None)
      else do { app \<leftarrow> rd8 buf (base + e);
                if app = BIT_TOKEN_FALCON_DATA then do { v \<leftarrow> ld16 buf (base + e + 4); Some (Some (Some v)) }
                else Some None })"

definition plt_round :: "u8 list \<Rightarrow> nat \<Rightarrow> u8 \<Rightarrow> u8 \<Rightarrow> u32 \<Rightarrow> u32 option option option" where
  "plt_round buf plt_abs hdr_len entry_len i =
     (let e = plt_abs + unat hdr_len + unat i * unat entry_len in
      if \<not> fits e 6 (length buf) then Some (Some None)
      else do { app \<leftarrow> rd8 buf e;
                if app = PMU_APPID_FWSEC_PROD then do { v \<leftarrow> ld32 buf (e + 2); Some (Some (Some v)) }
                else Some None })"

definition nv_fwsec_locate :: "u8 list \<Rightarrow> (int + nat) option" where
  "nv_fwsec_locate vbios =
     (let len = length vbios in
      do { imgs \<leftarrow> walk_images vbios 0 32;
      if imgs = [] then Some (Inl NV_FWSEC_LOC_ERR_NOSIG)
      else case (first_image CODE_TYPE_PCIAT imgs, first_image CODE_TYPE_FWSEC imgs) of
        (Some pci_at, Some fwsec) \<Rightarrow>
          (let pci_at_abs = im_off pci_at; pci_at_size = im_size pci_at; fwsec_abs = im_off fwsec in
           if \<not> fits pci_at_abs pci_at_size len then Some (Inl NV_FWSEC_LOC_ERR_BOUNDS)
           else do { bit \<leftarrow> find_bit vbios pci_at_abs pci_at_size;
           case bit of
             None \<Rightarrow> Some (Inl NV_FWSEC_LOC_ERR_NOSIG)
           | Some bit_off \<Rightarrow>
             do { bit_header_size \<leftarrow> rd8 vbios (pci_at_abs + bit_off + 8);
                  bit_token_size \<leftarrow> rd8 vbios (pci_at_abs + bit_off + 9);
                  bit_token_count \<leftarrow> rd8 vbios (pci_at_abs + bit_off + 10);
                  tok \<leftarrow> find_upto (ucast bit_token_count)
                           (token_round vbios pci_at_abs pci_at_size (bit_off + unat bit_header_size) bit_token_size) 0;
             case tok of
               Some (Some falcon_tok_off) \<Rightarrow>
                 if \<not> fits (unat falcon_tok_off) 4 pci_at_size then Some (Inl NV_FWSEC_LOC_ERR_BOUNDS)
                 else do { falcon_ptr \<leftarrow> ld32 vbios (pci_at_abs + unat falcon_tok_off);
                 if unat falcon_ptr < pci_at_size then Some (Inl NV_FWSEC_LOC_ERR_BOUNDS)
                 else let plt_abs = fwsec_abs + (unat falcon_ptr - pci_at_size) in
                 if \<not> fits plt_abs 4 len then Some (Inl NV_FWSEC_LOC_ERR_BOUNDS)
                 else do { plt_hdr_len \<leftarrow> rd8 vbios (plt_abs + 1);
                           plt_entry_len \<leftarrow> rd8 vbios (plt_abs + 2);
                           plt_entries \<leftarrow> rd8 vbios (plt_abs + 3);
                           u \<leftarrow> find_upto (ucast plt_entries) (plt_round vbios plt_abs plt_hdr_len plt_entry_len) 0;
                 case u of
                   Some (Some ucode_ptr) \<Rightarrow>
                     if unat ucode_ptr < pci_at_size then Some (Inl NV_FWSEC_LOC_ERR_BOUNDS)
                     else let desc_abs = fwsec_abs + (unat ucode_ptr - pci_at_size) in
                     if \<not> fits desc_abs 4 len then Some (Inl NV_FWSEC_LOC_ERR_BOUNDS)
                     else Some (Inr desc_abs)
                 | _ \<Rightarrow> Some (Inl NV_FWSEC_LOC_ERR_PARSE) } }
             | _ \<Rightarrow> Some (Inl NV_FWSEC_LOC_ERR_PARSE) } })
      | _ \<Rightarrow> Some (Inl NV_FWSEC_LOC_ERR_NOIMG) })"

section \<open>What the search promises\<close>

fun rom_chain :: "u8 list \<Rightarrow> nat \<Rightarrow> image list \<Rightarrow> bool" where
  "rom_chain buf off [] \<longleftrightarrow> True"
| "rom_chain buf off (im # ims) \<longleftrightarrow>
     im_off im = off \<and> off + 26 \<le> length buf \<and> im_size im \<le> 65535 * 512
     \<and> (ld16 buf off = Some ROM_SIG_PCI \<or> ld16 buf off = Some ROM_SIG_NV)
     \<and> (ims = [] \<or> 0 < im_size im \<and> \<not> im_last im \<and> rom_chain buf (roundup 512 (off + im_size im)) ims)"

lemma image_size_ok:
  assumes "pcir + 0x16 \<le> length buf"
  shows "returns (image_size_and_last buf pcir ct) (\<lambda>(sz, lst). sz \<le> 65535 * 512)"
proof -
  have u: "unat (x :: u16) \<le> 65535" for x using u16_less [of x] by simp
  show ?thesis
    unfolding image_size_and_last_def using assms
    by (intro ret_rules) (auto simp: u)
qed

lemma ret_case_prod: "returns m (\<lambda>(x, y). P x y) \<Longrightarrow> (\<And>x y. P x y \<Longrightarrow> returns (f x y) Q) \<Longrightarrow>
  returns (m \<bind> (\<lambda>(x, y). f x y)) Q"
  by (auto simp: returns_def)

lemma walk_images_ok: "returns (walk_images buf off room) (\<lambda>ims. rom_chain buf off ims \<and> length ims \<le> room)"
proof (induction room arbitrary: off)
  case 0
  show ?case by (simp add: returns_def)
next
  case (Suc room)
  show ?case
    unfolding walk_images.simps
    apply (intro ret_rules ret_case_prod [OF image_size_ok] ret_bind [OF Suc.IH]; (simp; fail)?)
    done
qed

definition no_bit_before :: "u8 list \<Rightarrow> nat \<Rightarrow> nat \<Rightarrow> bool" where
  "no_bit_before buf base n \<longleftrightarrow> (\<forall>i < n. fld buf (base + i) 6 \<noteq> bit_sig)"

lemma find_bit_from_ok:
  "base + i + n + 5 \<le> length buf \<Longrightarrow> no_bit_before buf base i \<Longrightarrow>
   returns (find_bit_from buf base i n) (\<lambda>r. case r of
     None \<Rightarrow> no_bit_before buf base (i + n)
   | Some j \<Rightarrow> j < i + n \<and> fld buf (base + j) 6 = bit_sig \<and> no_bit_before buf base j)"
proof (induction n arbitrary: i)
  case 0
  then show ?case by (simp add: returns_def)
next
  case (Suc n)
  let ?Q = "\<lambda>r. case r of None \<Rightarrow> no_bit_before buf base (i + Suc n)
     | Some j \<Rightarrow> j < i + Suc n \<and> fld buf (base + j) 6 = bit_sig \<and> no_bit_before buf base j"
  have "returns (find_bit_from buf base (i + 1) n) ?Q" if "fld buf (base + i) 6 \<noteq> bit_sig"
  proof -
    have "no_bit_before buf base (i + 1)" using Suc.prems that by (simp add: no_bit_before_def less_Suc_eq)
    moreover have "i + 1 + n = i + Suc n" by simp
    ultimately show ?thesis using Suc.IH [of "i + 1"] Suc.prems by (simp only: add.assoc add_Suc_right add_Suc plus_1_eq_Suc)
  qed
  moreover have "?Q (Some i)" if "fld buf (base + i) 6 = bit_sig" using Suc.prems that by simp
  moreover have "base + i + 6 \<le> length buf" using Suc.prems by simp
  ultimately show ?case
    unfolding find_bit_from.simps by (intro ret_rules) auto
qed

lemma find_bit_ok:
  assumes "base + img \<le> length buf"
  shows "returns (find_bit buf base img) (\<lambda>r. case r of
     None \<Rightarrow> no_bit_before buf base (img - 5)
   | Some j \<Rightarrow> j + 6 \<le> img \<and> fld buf (base + j) 6 = bit_sig \<and> no_bit_before buf base j)"
proof (cases "img < 6")
  case True
  then show ?thesis by (auto simp: find_bit_def returns_def no_bit_before_def)
next
  case False
  have "returns (find_bit_from buf base 0 (img - 5)) (\<lambda>r. case r of
     None \<Rightarrow> no_bit_before buf base (0 + (img - 5))
   | Some j \<Rightarrow> j < 0 + (img - 5) \<and> fld buf (base + j) 6 = bit_sig \<and> no_bit_before buf base j)"
    using False assms by (intro find_bit_from_ok) (auto simp: no_bit_before_def)
  then show ?thesis using False by (auto simp: find_bit_def elim!: returns_mono split: option.splits)
qed

text \<open>
  \<open>token_at\<close>, \<open>plt_at\<close>: entry \<open>k\<close> of the table is inside its limit and has the wanted id and value;
  \<open>other_entries\<close>: the entries before it are inside as well and have other ids.
\<close>

definition table_hit :: "u8 list \<Rightarrow> nat \<Rightarrow> nat \<Rightarrow> nat \<Rightarrow> u8 \<Rightarrow> nat \<Rightarrow> bool" where
  "table_hit buf start lim esz app k \<longleftrightarrow>
     start + k * esz + 6 \<le> lim \<and> buf ! (start + k * esz) = app
     \<and> (\<forall>j < k. start + j * esz + 6 \<le> lim \<and> buf ! (start + j * esz) \<noteq> app)"

lemma token_search_ok:
  assumes "base + img \<le> length buf"
  shows "returns (find_upto (ucast (n :: u8)) (token_round buf base img ts esz) 0) (\<lambda>r. \<forall>v. r = Some (Some v) \<longrightarrow>
    (\<exists>k < unat n. table_hit buf (base + ts) (base + img) (unat esz) BIT_TOKEN_FALCON_DATA k
       \<and> ld16 buf (base + ts + k * unat esz + 4) = Some v))"
proof -
  let ?in = "\<lambda>k. base + ts + k * unat esz + 6 \<le> base + img"
  let ?P = "\<lambda>k. ?in k \<and> buf ! (base + ts + k * unat esz) \<noteq> BIT_TOKEN_FALCON_DATA"
  let ?Q = "\<lambda>k x. x \<noteq> None \<longrightarrow> ?in k \<and> buf ! (base + ts + k * unat esz) = BIT_TOKEN_FALCON_DATA
       \<and> ld16 buf (base + ts + k * unat esz + 4) = x"
  have n: "unat (ucast n :: u32) = unat n" using u8_less [of n] by (simp add: unat_ucast_small)
  have "returns (find_upto (ucast n) (token_round buf base img ts esz) 0)
     (\<lambda>r. case r of None \<Rightarrow> \<forall>k < unat (ucast n :: u32). ?P k
       | Some x \<Rightarrow> \<exists>k < unat (ucast n :: u32). (\<forall>j < k. ?P j) \<and> ?Q k x)"
  proof (rule ret_find_upto)
    fix k assume "k < unat (ucast n :: u32)"
    then have k: "unat (of_nat k :: u32) = k" using n u8_less [of n] by (simp add: unat_of_nat_small)
    show "returns (token_round buf base img ts esz (of_nat k)) (\<lambda>r. case r of None \<Rightarrow> ?P k | Some x \<Rightarrow> ?Q k x)"
      unfolding token_round_def k using assms
      by (intro ret_rules) (auto simp: add.assoc simp del: ld16_Some)
  qed
  then show ?thesis
    by (rule returns_mono) (auto simp: n table_hit_def)
qed

lemma plt_search_ok:
  "returns (find_upto (ucast (n :: u8)) (plt_round buf plt hl esz) 0) (\<lambda>r. \<forall>v. r = Some (Some v) \<longrightarrow>
    (\<exists>k < unat n. table_hit buf (plt + unat hl) (length buf) (unat esz) PMU_APPID_FWSEC_PROD k
       \<and> ld32 buf (plt + unat hl + k * unat esz + 2) = Some v))"
proof -
  let ?in = "\<lambda>k. plt + unat hl + k * unat esz + 6 \<le> length buf"
  let ?P = "\<lambda>k. ?in k \<and> buf ! (plt + unat hl + k * unat esz) \<noteq> PMU_APPID_FWSEC_PROD"
  let ?Q = "\<lambda>k x. x \<noteq> None \<longrightarrow> ?in k \<and> buf ! (plt + unat hl + k * unat esz) = PMU_APPID_FWSEC_PROD
       \<and> ld32 buf (plt + unat hl + k * unat esz + 2) = x"
  have n: "unat (ucast n :: u32) = unat n" using u8_less [of n] by (simp add: unat_ucast_small)
  have "returns (find_upto (ucast n) (plt_round buf plt hl esz) 0)
     (\<lambda>r. case r of None \<Rightarrow> \<forall>k < unat (ucast n :: u32). ?P k
       | Some x \<Rightarrow> \<exists>k < unat (ucast n :: u32). (\<forall>j < k. ?P j) \<and> ?Q k x)"
  proof (rule ret_find_upto)
    fix k assume "k < unat (ucast n :: u32)"
    then have k: "unat (of_nat k :: u32) = k" using n u8_less [of n] by (simp add: unat_of_nat_small)
    show "returns (plt_round buf plt hl esz (of_nat k)) (\<lambda>r. case r of None \<Rightarrow> ?P k | Some x \<Rightarrow> ?Q k x)"
      unfolding plt_round_def k
      by (intro ret_rules) (auto simp del: ld32_Some)
  qed
  then show ?thesis
    by (rule returns_mono) (auto simp: n table_hit_def)
qed

text \<open>The way from the image chain to the descriptor at \<open>d\<close>: images, BIT header, token, PMU table, entry.\<close>

definition located :: "u8 list \<Rightarrow> nat \<Rightarrow> bool" where
  "located buf d \<longleftrightarrow> (\<exists>imgs p f b tok ptr plt k j uc.
     rom_chain buf 0 imgs \<and> length imgs \<le> 32
     \<and> first_image CODE_TYPE_PCIAT imgs = Some p \<and> first_image CODE_TYPE_FWSEC imgs = Some f
     \<and> im_off p + im_size p \<le> length buf
     \<and> b + 6 \<le> im_size p \<and> fld buf (im_off p + b) 6 = bit_sig \<and> no_bit_before buf (im_off p) b
     \<and> k < unat (buf ! (im_off p + b + 10))
     \<and> table_hit buf (im_off p + b + unat (buf ! (im_off p + b + 8))) (im_off p + im_size p)
         (unat (buf ! (im_off p + b + 9))) BIT_TOKEN_FALCON_DATA k
     \<and> ld16 buf (im_off p + b + unat (buf ! (im_off p + b + 8)) + k * unat (buf ! (im_off p + b + 9)) + 4) = Some tok
     \<and> ld32 buf (im_off p + unat tok) = Some ptr
     \<and> plt + im_size p = im_off f + unat ptr \<and> im_off f \<le> plt
     \<and> j < unat (buf ! (plt + 3))
     \<and> table_hit buf (plt + unat (buf ! (plt + 1))) (length buf) (unat (buf ! (plt + 2))) PMU_APPID_FWSEC_PROD j
     \<and> ld32 buf (plt + unat (buf ! (plt + 1)) + j * unat (buf ! (plt + 2)) + 2) = Some uc
     \<and> d + im_size p = im_off f + unat uc \<and> im_off f \<le> d \<and> d + 4 \<le> length buf)"

definition loc_errors :: "int set" where
  "loc_errors = {NV_FWSEC_LOC_ERR_NOSIG, NV_FWSEC_LOC_ERR_NOIMG, NV_FWSEC_LOC_ERR_PARSE, NV_FWSEC_LOC_ERR_BOUNDS}"

definition loc_result :: "u8 list \<Rightarrow> int + nat \<Rightarrow> bool" where
  "loc_result buf r \<longleftrightarrow> (case r of Inl e \<Rightarrow> e \<in> loc_errors | Inr d \<Rightarrow> located buf d)"

lemma loc_error [simp]: "e \<in> loc_errors \<Longrightarrow> loc_result buf (Inl e)"
  by (simp add: loc_result_def)

lemma loc_errors_simps [simp]: "-1 \<in> loc_errors" "-2 \<in> loc_errors" "-3 \<in> loc_errors" "-4 \<in> loc_errors"
  by (simp_all add: loc_errors_def)

lemma ret_option [ret_rules]:
  "(x = None \<Longrightarrow> returns a Q) \<Longrightarrow> (\<And>y. x = Some y \<Longrightarrow> returns (f y) Q) \<Longrightarrow>
   returns (case x of None \<Rightarrow> a | Some y \<Rightarrow> f y) Q"
  by (cases x) auto

lemma ret_pair [ret_rules]:
  "(\<And>a b. x = (a, b) \<Longrightarrow> returns (f a b) Q) \<Longrightarrow> returns (case x of (a, b) \<Rightarrow> f a b) Q"
  by (cases x) auto

lemma fwsec_locate_spec:
  assumes tail: "\<And>i. fld buf i 6 = bit_sig \<Longrightarrow> i + 6 \<le> length buf \<Longrightarrow> i + 11 \<le> length buf"
  shows "returns (nv_fwsec_locate buf) (loc_result buf)"
  unfolding nv_fwsec_locate_def
  apply (intro ret_rules ret_bind [OF walk_images_ok] ret_bind [OF find_bit_ok] ret_bind [OF token_search_ok]
     ret_bind [OF plt_search_ok]; (simp; fail)?)
  subgoal for len r a b pci_at fwsec pci_at_abs pci_at_size fwsec_abs ra bit_off
    using tail [of "pci_at_abs + bit_off"] by simp
  subgoal for len r a b pci_at fwsec pci_at_abs pci_at_size fwsec_abs ra bit_off v
    using tail [of "pci_at_abs + bit_off"] by simp
  subgoal for len r a b pci_at fwsec pci_at_abs pci_at_size fwsec_abs ra bit_off v va
    using tail [of "pci_at_abs + bit_off"] by simp
  subgoal premises p for len r a b pci_at fwsec pci_at_abs pci_at_size fwsec_abs ra bit_off v va
       vb rb y tok ptr plt_abs vd ve vf rc ya ucode_ptr desc_abs
  proof -
    obtain k where k: "k < unat vb"
      "table_hit buf (pci_at_abs + (bit_off + unat v)) (pci_at_abs + pci_at_size) (unat va) BIT_TOKEN_FALCON_DATA k"
      "ld16 buf (pci_at_abs + (bit_off + unat v) + k * unat va + 4) = Some tok" using p by blast
    obtain j where j: "j < unat vf"
      "table_hit buf (plt_abs + unat vd) (length buf) (unat ve) PMU_APPID_FWSEC_PROD j"
      "ld32 buf (plt_abs + unat vd + j * unat ve + 2) = Some ucode_ptr" using p by blast
    have f: "first_image CODE_TYPE_PCIAT r = Some pci_at" "first_image CODE_TYPE_FWSEC r = Some fwsec"
      using p(4-6) by simp_all
    have plt: "plt_abs + im_size pci_at = im_off fwsec + unat ptr" "im_off fwsec \<le> plt_abs"
      using p(8,9,21,22) by simp_all
    have desc: "desc_abs + im_size pci_at = im_off fwsec + unat ucode_ptr" "im_off fwsec \<le> desc_abs" "desc_abs + 4 \<le> length buf"
      using p(1,8,9,30,31,32) by simp_all
    have b: "im_off pci_at + im_size pci_at \<le> length buf" "bit_off + 6 \<le> im_size pci_at"
      "fld buf (im_off pci_at + bit_off) 6 = bit_sig" "no_bit_before buf (im_off pci_at) bit_off"
      using p(1,7,8,10,11,12) by simp_all
    note k' = k [unfolded p(13-15), unfolded p(7,8) add.assoc [symmetric]]
    note j' = j [unfolded p(24-26)]
    have ptr: "ld32 buf (im_off pci_at + unat tok) = Some ptr" using p(20) unfolding p(7) .
    have "located buf desc_abs"
      unfolding located_def
      apply (rule exI [where x = r], rule exI [where x = pci_at], rule exI [where x = fwsec], rule exI [where x = bit_off],
          rule exI [where x = tok], rule exI [where x = ptr], rule exI [where x = plt_abs],
          rule exI [where x = k], rule exI [where x = j], rule exI [where x = ucode_ptr])
      by (intro conjI; (rule p(2) [THEN conjunct1] p(2) [THEN conjunct2] f b k' ptr plt j' desc)?)
    then show ?thesis by (simp add: loc_result_def)
  qed
  done

section \<open>Example images\<close>

text \<open>
  \<open>demo_rom\<close>: a FWSEC image at 0 whose PMU table at 64 names offset 592 behind the PciAt image, and a
  PciAt image at 512 with a BIT header.  \<open>demo_rom_bad\<close>: its PciAt image ends with the BIT signature.
\<close>

definition demo_rom_image :: "u8 list \<Rightarrow> u8 \<Rightarrow> u8 \<Rightarrow> u8 list" where
  "demo_rom_image head code lst = [0x55, 0xAA] @ head @ [0x20, 0] @ replicate 6 0
     @ [80, 67, 73, 82, 0, 0, 0, 0, 0, 0, 24, 0, 0, 0, 0, 0, 1, 0, 0, 0, code, lst] @ replicate 10 0"

definition demo_rom :: "u8 list" where
  "demo_rom = demo_rom_image (replicate 22 0) CODE_TYPE_FWSEC 0 @ [1, 4, 6, 1, 0x85, 0, 0x50, 2, 0, 0] @ replicate 438 0
     @ demo_rom_image (bit_sig @ [0, 1, 12, 6, 1, 0, 0x70, 0, 0, 0, 64, 0, 0, 0, 0, 0]) CODE_TYPE_PCIAT 0x80
     @ [0x40, 2, 0, 0] @ replicate 444 0"

definition demo_rom_bad :: "u8 list" where
  "demo_rom_bad = (demo_rom_image (replicate 22 0) CODE_TYPE_FWSEC 0 @ replicate 448 0)
     @ (demo_rom_image (replicate 22 0) CODE_TYPE_PCIAT 0x80 @ replicate 442 0) @ bit_sig"

lemma length_demo_image [simp]: "length (demo_rom_image head code lst) = length head + 42"
  by (simp add: demo_rom_image_def)

lemma demo_rom_found: "nv_fwsec_locate demo_rom = Some (Inr 80)"
  by code_simp

lemma demo_bad_bit:
  assumes "j + 6 \<le> 512" "fld demo_rom_bad (512 + j) 6 = bit_sig" shows "j = 506"
proof (rule ccontr)
  assume "j \<noteq> 506"
  then have j: "j < 506" using assms(1) by simp
  let ?img = "demo_rom_image (replicate 22 0) CODE_TYPE_PCIAT 0x80 @ replicate 442 0"
  have "demo_rom_bad ! (512 + j) = ?img ! j" using j by (simp add: demo_rom_bad_def nth_append) arith
  moreover have "\<forall>x \<in> set ?img. x \<noteq> 0xFF" by (simp add: demo_rom_image_def)
  moreover have "?img ! j \<in> set ?img" using j by (intro nth_mem) simp
  ultimately have "demo_rom_bad ! (512 + j) \<noteq> 0xFF" by metis
  moreover have "fld demo_rom_bad (512 + j) 6 ! 0 = demo_rom_bad ! (512 + j + 0)"
    using j by (intro nth_fld) (simp_all add: demo_rom_bad_def)
  ultimately show False using assms(2) by simp
qed

lemma demo_bad_images: "walk_images demo_rom_bad 0 32 = Some
   [\<lparr>im_off = 0, im_size = 512, im_code_type = CODE_TYPE_FWSEC, im_last = False\<rparr>,
    \<lparr>im_off = 512, im_size = 512, im_code_type = CODE_TYPE_PCIAT, im_last = True\<rparr>]"
  by code_simp

lemma demo_bad_find: "find_bit demo_rom_bad 512 512 = Some (Some 506)"
proof -
  have l: "512 + 512 \<le> length demo_rom_bad" by (simp add: demo_rom_bad_def)
  obtain r where r: "find_bit demo_rom_bad 512 512 = Some r" "case r of
     None \<Rightarrow> no_bit_before demo_rom_bad 512 (512 - 5)
   | Some j \<Rightarrow> j + 6 \<le> 512 \<and> fld demo_rom_bad (512 + j) 6 = bit_sig \<and> no_bit_before demo_rom_bad 512 j"
    using returnsD [OF find_bit_ok [OF l]] by blast
  have "fld demo_rom_bad (512 + 506) 6 = bit_sig" by (simp add: fld_def demo_rom_bad_def)
  then have "\<not> no_bit_before demo_rom_bad 512 (512 - 5)" unfolding no_bit_before_def by (auto intro!: exI [of _ 506])
  then show ?thesis using r demo_bad_bit by (auto split: option.splits)
qed

section \<open>Properties\<close>



text \<open>
  A VBIOS whose PciAt image ends with the BIT signature is read past its end: the header fields at
  8, 9 and 10 are read although only six bytes of the header were seen.
\<close>

theorem nv_fwsec_locate_reads_past_end: "nv_fwsec_locate demo_rom_bad = None"
proof -
  have "length demo_rom_bad = 1024" by (simp add: demo_rom_bad_def)
  then have "rd8 demo_rom_bad 1026 \<bind> f = None" for f :: "u8 \<Rightarrow> (int + nat) option" by (simp add: rd8_def)
  with \<open>length demo_rom_bad = 1024\<close> show ?thesis
    by (simp add: nv_fwsec_locate_def demo_bad_images first_image_def demo_bad_find Let_def)
qed

end
