(* ===== verification/FwsecPatch.thy ===== *)
theory FwsecPatch
  imports Bytes
begin

text \<open>
  \<open>driver/gsp/fwsec_patch.c\<close>: parsing of the FWSEC descriptor, and the changes of the ucode image before it
  runs: the FRTS command and the signature.  A function that writes returns its code and the
  image as it leaves it, on its error paths as well.
\<close>

abbreviation (input) NVFW_DMEMMAPPER_CMD_FRTS :: u32 where "NVFW_DMEMMAPPER_CMD_FRTS \<equiv> 0x15"
abbreviation (input) NV_FWSEC_OK :: int where "NV_FWSEC_OK \<equiv> 0"
abbreviation (input) NV_FWSEC_ERR_PARSE :: int where "NV_FWSEC_ERR_PARSE \<equiv> -1"
abbreviation (input) NV_FWSEC_ERR_BOUNDS :: int where "NV_FWSEC_ERR_BOUNDS \<equiv> -2"
abbreviation (input) NV_FWSEC_ERR_NOSIG :: int where "NV_FWSEC_ERR_NOSIG \<equiv> -3"
abbreviation (input) NV_BCRT30_RSA3K_SIG_SIZE :: nat where "NV_BCRT30_RSA3K_SIG_SIZE \<equiv> 384"
abbreviation (input) NVFW_FALCON_APPIF_ID_DMEMMAPPER :: u32 where "NVFW_FALCON_APPIF_ID_DMEMMAPPER \<equiv> 4"
abbreviation (input) NVFW_FRTS_REGION_TYPE_FB :: u32 where "NVFW_FRTS_REGION_TYPE_FB \<equiv> 2"
abbreviation (input) DMEMMAPPER_CMD_IN_BUFFER_OFFSET :: nat where "DMEMMAPPER_CMD_IN_BUFFER_OFFSET \<equiv> 8"
abbreviation (input) DMEMMAPPER_INIT_CMD_OFFSET :: nat where "DMEMMAPPER_INIT_CMD_OFFSET \<equiv> 44"
abbreviation (input) SZ_READVBIOS :: nat where "SZ_READVBIOS \<equiv> 24"
abbreviation (input) SZ_FRTSREGION :: nat where "SZ_FRTSREGION \<equiv> 20"

record nv_fwsec_desc_t =
  fd_version :: u8
  fd_hdr_size :: u32
  fd_imem_load_size :: u32
  fd_imem_phys_base :: u32
  fd_dmem_load_size :: u32
  fd_dmem_phys_base :: u32
  fd_interface_offset :: u32
  fd_pkc_data_offset :: u32
  fd_engine_id_mask :: u16
  fd_signature_versions :: u16
  fd_ucode_id :: u8
  fd_signature_count :: u8

definition nv_fwsec_desc_parse :: "u8 list \<Rightarrow> (int + nv_fwsec_desc_t) option" where
  "nv_fwsec_desc_parse desc =
     (let len = length desc in
      if len < 4 then Some (Inl NV_FWSEC_ERR_BOUNDS)
      else do { ver \<leftarrow> rd8 desc 1; hdr \<leftarrow> ld32 desc 0;
      let hdr_size = drop_bit 16 hdr AND 0xFFFF in
      if ver = 3 then
        if len < 44 then Some (Inl NV_FWSEC_ERR_BOUNDS)
        else do { pkc \<leftarrow> ld32 desc 8; intf \<leftarrow> ld32 desc 12; imem_base \<leftarrow> ld32 desc 16; imem_load \<leftarrow> ld32 desc 20;
                  dmem_base \<leftarrow> ld32 desc 28; dmem_load \<leftarrow> ld32 desc 32; eng \<leftarrow> ld32 desc 36;
                  ucode_id \<leftarrow> rd8 desc 38; sig_count \<leftarrow> rd8 desc 39; vers \<leftarrow> ld32 desc 40;
                  Some (Inr \<lparr>fd_version = ver, fd_hdr_size = hdr_size, fd_imem_load_size = imem_load,
                    fd_imem_phys_base = imem_base, fd_dmem_load_size = dmem_load, fd_dmem_phys_base = dmem_base,
                    fd_interface_offset = intf, fd_pkc_data_offset = pkc, fd_engine_id_mask = ucast (eng AND 0xFFFF),
                    fd_signature_versions = ucast (vers AND 0xFFFF), fd_ucode_id = ucode_id,
                    fd_signature_count = sig_count\<rparr>) }
      else if ver = 2 then
        if len < 60 then Some (Inl NV_FWSEC_ERR_BOUNDS)
        else do { intf \<leftarrow> ld32 desc 16; imem_base \<leftarrow> ld32 desc 20; imem_load \<leftarrow> ld32 desc 24;
                  dmem_base \<leftarrow> ld32 desc 44; dmem_load \<leftarrow> ld32 desc 48;
                  Some (Inr \<lparr>fd_version = ver, fd_hdr_size = hdr_size, fd_imem_load_size = imem_load,
                    fd_imem_phys_base = imem_base, fd_dmem_load_size = dmem_load, fd_dmem_phys_base = dmem_base,
                    fd_interface_offset = intf, fd_pkc_data_offset = 0, fd_engine_id_mask = 0,
                    fd_signature_versions = 0, fd_ucode_id = 0, fd_signature_count = 0\<rparr>) }
      else Some (Inl NV_FWSEC_ERR_PARSE) })"

text \<open>The command buffer: \<open>ReadVbios\<close> then \<open>FrtsRegion\<close>.\<close>

definition frts_cells :: "u64 \<Rightarrow> u64 \<Rightarrow> cell list" where
  "frts_cells frts_addr frts_size =
     [W32 1, W32 (of_nat SZ_READVBIOS), W64 0, W32 0, W32 2,
      W32 1, W32 (of_nat SZ_FRTSREGION), W32 (ucast (drop_bit 12 frts_addr)), W32 (ucast (drop_bit 12 frts_size)),
      W32 NVFW_FRTS_REGION_TYPE_FB]"

text \<open>One round over the application interface table: continue, or return with the code and the image.\<close>

definition frts_round ::
  "nv_fwsec_desc_t \<Rightarrow> u64 \<Rightarrow> u64 \<Rightarrow> nat \<Rightarrow> u8 \<Rightarrow> u8 \<Rightarrow> u8 list \<Rightarrow> u32 \<Rightarrow> (int \<times> u8 list) option option" where
  "frts_round d frts_addr frts_size hdr_off header_size entry_size ucode i =
     (let entry_off = hdr_off + unat header_size + unat i * unat entry_size; ucode_len = length ucode in
      if \<not> fits entry_off 8 ucode_len then Some (Some (NV_FWSEC_ERR_BOUNDS, ucode))
      else do { app \<leftarrow> ld32 ucode entry_off; dmem_base \<leftarrow> ld32 ucode (entry_off + 4);
      if app \<noteq> NVFW_FALCON_APPIF_ID_DMEMMAPPER then Some None
      else let mapper_off = unat (fd_imem_load_size d) + unat dmem_base in
      if \<not> fits mapper_off (DMEMMAPPER_INIT_CMD_OFFSET + 4) ucode_len then Some (Some (NV_FWSEC_ERR_BOUNDS, ucode))
      else do { ucode \<leftarrow> st32 ucode (mapper_off + DMEMMAPPER_INIT_CMD_OFFSET) NVFW_DMEMMAPPER_CMD_FRTS;
                cmd_in_off \<leftarrow> ld32 ucode (mapper_off + DMEMMAPPER_CMD_IN_BUFFER_OFFSET);
      let frts_cmd_off = unat (fd_imem_load_size d) + unat cmd_in_off in
      if \<not> fits frts_cmd_off (SZ_READVBIOS + SZ_FRTSREGION) ucode_len then Some (Some (NV_FWSEC_ERR_BOUNDS, ucode))
      else do { ucode \<leftarrow> stores ucode frts_cmd_off (pack 0 (frts_cells frts_addr frts_size));
                Some (Some (NV_FWSEC_OK, ucode)) } } })"

definition nv_fwsec_patch_frts ::
  "u8 list \<Rightarrow> nv_fwsec_desc_t \<Rightarrow> u64 \<Rightarrow> u64 \<Rightarrow> (int \<times> u8 list) option" where
  "nv_fwsec_patch_frts ucode d frts_addr frts_size =
     (let hdr_off = unat (fd_imem_load_size d) + unat (fd_interface_offset d) in
      if \<not> fits hdr_off 4 (length ucode) then Some (NV_FWSEC_ERR_BOUNDS, ucode)
      else do { appif_version \<leftarrow> rd8 ucode hdr_off; header_size \<leftarrow> rd8 ucode (hdr_off + 1);
                entry_size \<leftarrow> rd8 ucode (hdr_off + 2); entry_count \<leftarrow> rd8 ucode (hdr_off + 3);
      if appif_version \<noteq> 1 then Some (NV_FWSEC_ERR_PARSE, ucode)
      else do { r \<leftarrow> find_upto (ucast entry_count)
                       (frts_round d frts_addr frts_size hdr_off header_size entry_size ucode) 0;
                Some (case r of Some x \<Rightarrow> x | None \<Rightarrow> (NV_FWSEC_ERR_PARSE, ucode)) } })"

text \<open>\<open>while (v) { v &= v - 1; c++; }\<close>\<close>

function popcount_loop :: "u32 \<Rightarrow> u32 \<Rightarrow> u32" where
  "popcount_loop v c = (if v \<noteq> 0 then popcount_loop (v AND (v - 1)) (c + 1) else c)"
  by auto

lemma clear_lowest_less: "(v :: u32) \<noteq> 0 \<Longrightarrow> unat (v AND (v - 1)) < unat v"
proof -
  assume v: "v \<noteq> 0"
  have "v AND (v - 1) \<le> v - 1" by (rule word_and_le1)
  then show ?thesis using v by (simp add: word_le_nat_alt unat_minus_one unat_gt_0 le_less_trans)
qed

termination popcount_loop
  by (relation "measure (\<lambda>(v, c). unat v)") (simp_all add: clear_lowest_less)

declare popcount_loop.simps [simp del]

definition popcount32 :: "u32 \<Rightarrow> u32" where
  "popcount32 v = popcount_loop v 0"

definition nv_fwsec_select_signature_index :: "nv_fwsec_desc_t \<Rightarrow> u32 \<Rightarrow> int + u32" where
  "nv_fwsec_select_signature_index d fuse_version =
     (if fd_signature_count d = 0 then Inl NV_FWSEC_ERR_NOSIG
      else if fuse_version \<ge> 32 then Inl NV_FWSEC_ERR_NOSIG
      else
        let sig_versions = ucast (fd_signature_versions d); bit = push_bit (unat fuse_version) 1 in
        if sig_versions AND bit = 0 then Inl NV_FWSEC_ERR_NOSIG
        else Inr (popcount32 (sig_versions AND (bit - 1))))"

definition nv_fwsec_patch_signature :: "u8 list \<Rightarrow> nv_fwsec_desc_t \<Rightarrow> u8 list \<Rightarrow> (int \<times> u8 list) option" where
  "nv_fwsec_patch_signature ucode d sig384 =
     (let off = unat (fd_imem_load_size d) + unat (fd_pkc_data_offset d) in
      if \<not> fits off NV_BCRT30_RSA3K_SIG_SIZE (length ucode) then Some (NV_FWSEC_ERR_BOUNDS, ucode)
      else do { s \<leftarrow> rd_bytes sig384 0 NV_BCRT30_RSA3K_SIG_SIZE; ucode \<leftarrow> wr_bytes ucode off s;
                Some (NV_FWSEC_OK, ucode) })"

section \<open>Counting bits\<close>

definition bits :: "u32 \<Rightarrow> nat set" where
  "bits v = {i. bit v i}"

lemma finite_bits [simp]: "finite (bits v)"
  by (rule finite_subset [of _ "{..<32}"]) (auto simp: bits_def dest: bit_imp_le_length)

lemma nat_clear_lowest:
  "0 < n \<Longrightarrow> \<exists>k. bit n k \<and> (\<forall>i. bit (n AND (n - 1)) i \<longleftrightarrow> bit n i \<and> i \<noteq> k)" for n :: nat
proof (induction n rule: less_induct)
  case (less n)
  show ?case
  proof (cases "even n")
    case True
    then obtain m where m: "n = 2 * m" by (elim evenE)
    with less.prems have m0: "0 < m" by simp
    then obtain k where k: "bit m k" "\<forall>i. bit (m AND (m - 1)) i \<longleftrightarrow> bit m i \<and> i \<noteq> k"
      using less.IH [of m] m by auto
    have "n - 1 = 2 * (m - 1) + 1" using m m0 by simp
    then have a: "n AND (n - 1) = 2 * (m AND (m - 1))" using m by (simp add: and_rec [of "2 * m"])
    have "bit (2 * (m AND (m - 1))) i \<longleftrightarrow> bit (2 * m) i \<and> i \<noteq> Suc k" for i
      using k(2) by (cases i) (simp_all add: bit_Suc bit_0)
    then have "bit n (Suc k) \<and> (\<forall>i. bit (n AND (n - 1)) i \<longleftrightarrow> bit n i \<and> i \<noteq> Suc k)"
      unfolding a using k(1) by (simp add: m bit_Suc)
    then show ?thesis by blast
  next
    case False
    then obtain m where m: "n = 2 * m + 1" by (elim oddE)
    have a: "n AND (n - 1) = 2 * m" using m by (simp add: and_rec [of "Suc (2 * m)"])
    have "bit (2 * m) i \<longleftrightarrow> bit (2 * m + 1) i \<and> i \<noteq> 0" for i
      by (cases i) (simp_all add: bit_Suc bit_0)
    then have "bit n 0 \<and> (\<forall>i. bit (n AND (n - 1)) i \<longleftrightarrow> bit n i \<and> i \<noteq> 0)"
      unfolding a using False by (simp add: m bit_0)
    then show ?thesis by blast
  qed
qed

lemma bits_clear_lowest: "v \<noteq> 0 \<Longrightarrow> card (bits (v AND (v - 1))) + 1 = card (bits v)"
proof -
  assume v: "v \<noteq> 0"
  have u: "unat (v AND (v - 1)) = unat v AND (unat v - 1)"
    using v by (simp add: unsigned_and_eq unat_minus_one)
  obtain k where k: "bit (unat v) k" "\<forall>i. bit (unat (v AND (v - 1))) i \<longleftrightarrow> bit (unat v) i \<and> i \<noteq> k"
    using nat_clear_lowest [of "unat v"] v unfolding u by (auto simp: unat_gt_0)
  have b: "bit w i \<longleftrightarrow> bit (unat w) i" for w :: u32 and i by (simp add: bit_unsigned_iff)
  have "bits (v AND (v - 1)) = bits v - {k}" using k(2) unfolding bits_def b by blast
  moreover have "k \<in> bits v" using k(1) by (simp add: bits_def bit_unsigned_iff)
  ultimately show ?thesis by (simp add: card_gt_0_iff) (metis Suc_pred card_gt_0_iff empty_iff finite_bits)
qed

lemma popcount_loop_card: "popcount_loop v c = c + of_nat (card (bits v))"
proof (induction v c rule: popcount_loop.induct)
  case (1 v c)
  show ?case
  proof (cases "v = 0")
    case True
    then show ?thesis by (subst popcount_loop.simps) (simp add: bits_def)
  next
    case False
    have "(of_nat (card (bits v)) :: u32) = of_nat (card (bits (v AND (v - 1)))) + 1"
      unfolding bits_clear_lowest [OF False, symmetric] by simp
    then show ?thesis using False 1 by (subst popcount_loop.simps) (simp add: ac_simps)
  qed
qed

lemma unat_popcount32: "unat (popcount32 v) = card (bits v)"
proof -
  have "bits v \<subseteq> {..<32}" by (auto simp: bits_def dest: bit_imp_le_length)
  then have "card (bits v) \<le> 32" using card_mono [of "{..<32 :: nat}" "bits v"] by simp
  then show ?thesis by (simp add: popcount32_def popcount_loop_card unat_of_nat_small)
qed

section \<open>The FRTS patch\<close>

text \<open>
  The application interface table of an image: its header at \<open>appif_hdr\<close>, entry \<open>k\<close> at \<open>appif_entry\<close>.
  \<open>mapper_at k b\<close>: entry \<open>k\<close> is the first DMEMMAPPER entry and names DMEM offset \<open>b\<close>.
\<close>

definition appif_hdr :: "nv_fwsec_desc_t \<Rightarrow> nat" where
  "appif_hdr d = unat (fd_imem_load_size d) + unat (fd_interface_offset d)"

definition appif_count :: "u8 list \<Rightarrow> nv_fwsec_desc_t \<Rightarrow> nat" where
  "appif_count u d = unat (u ! (appif_hdr d + 3))"

definition appif_entry :: "u8 list \<Rightarrow> nv_fwsec_desc_t \<Rightarrow> nat \<Rightarrow> nat" where
  "appif_entry u d k = appif_hdr d + unat (u ! (appif_hdr d + 1)) + k * unat (u ! (appif_hdr d + 2))"

definition other_entry :: "u8 list \<Rightarrow> nv_fwsec_desc_t \<Rightarrow> nat \<Rightarrow> bool" where
  "other_entry u d k \<longleftrightarrow> (\<exists>x. ld32 u (appif_entry u d k) = Some x \<and> x \<noteq> NVFW_FALCON_APPIF_ID_DMEMMAPPER)"

definition mapper_at :: "u8 list \<Rightarrow> nv_fwsec_desc_t \<Rightarrow> nat \<Rightarrow> u32 \<Rightarrow> bool" where
  "mapper_at u d k b \<longleftrightarrow> k < appif_count u d
     \<and> ld32 u (appif_entry u d k) = Some NVFW_FALCON_APPIF_ID_DMEMMAPPER
     \<and> ld32 u (appif_entry u d k + 4) = Some b \<and> (\<forall>j < k. other_entry u d j)"

definition set_init_cmd :: "u8 list \<Rightarrow> nv_fwsec_desc_t \<Rightarrow> u32 \<Rightarrow> u8 list" where
  "set_init_cmd u d b = splice u (unat (fd_imem_load_size d) + unat b + 44) (bytes32 NVFW_DMEMMAPPER_CMD_FRTS)"

definition frts_bytes :: "u64 \<Rightarrow> u64 \<Rightarrow> u8 list" where
  "frts_bytes a s = concat (map cell_bytes (frts_cells a s))"

definition frts_outcome :: "u8 list \<Rightarrow> nv_fwsec_desc_t \<Rightarrow> u64 \<Rightarrow> u64 \<Rightarrow> int \<Rightarrow> u8 list \<Rightarrow> bool" where
  "frts_outcome u d a s rc u' \<longleftrightarrow>
     rc = NV_FWSEC_OK \<and> (\<exists>k b c. mapper_at u d k b \<and> unat (fd_imem_load_size d) + unat b + 48 \<le> length u
         \<and> ld32 u (unat (fd_imem_load_size d) + unat b + 8) = Some c
         \<and> unat (fd_imem_load_size d) + unat c + 44 \<le> length u
         \<and> u' = splice (set_init_cmd u d b) (unat (fd_imem_load_size d) + unat c) (frts_bytes a s))
     \<or> rc = NV_FWSEC_ERR_PARSE \<and> u' = u
         \<and> (u ! appif_hdr d \<noteq> 1 \<or> (\<forall>k < appif_count u d. other_entry u d k))
     \<or> rc = NV_FWSEC_ERR_BOUNDS \<and> (u' = u \<or> (\<exists>k b. mapper_at u d k b \<and> u' = set_init_cmd u d b))"

lemma length_frts_bytes [simp]: "length (frts_bytes a s) = 44"
  by (simp add: frts_bytes_def frts_cells_def)

lemma ld32_fld_cong: "i + 4 \<le> length b \<Longrightarrow> length b' = length b \<Longrightarrow> fld b' i 4 = fld b i 4 \<Longrightarrow> ld32 b' i = ld32 b i"
  by (rule ld32_cong)

lemma length_set_init_cmd:
  "unat (fd_imem_load_size d) + unat b + 48 \<le> length u \<Longrightarrow> length (set_init_cmd u d b) = length u"
  by (simp add: set_init_cmd_def)

lemma ld32_set_init_cmd:
  "unat (fd_imem_load_size d) + unat b + 48 \<le> length u \<Longrightarrow>
   ld32 (set_init_cmd u d b) (unat (fd_imem_load_size d) + unat b + 8) = ld32 u (unat (fd_imem_load_size d) + unat b + 8)"
  by (rule ld32_cong) (simp_all add: set_init_cmd_def fld_splice_disj)

lemma ret_stores_pack [ret_rules]:
  "p + k + length (concat (map cell_bytes cs)) \<le> length b \<Longrightarrow>
   returns (f (splice b (p + k) (concat (map cell_bytes cs)))) Q \<Longrightarrow> returns (stores b p (pack k cs) \<bind> f) Q"
  by (simp add: stores_pack)

lemma frts_round_ok:
  assumes k: "k < appif_count u d" and others: "\<forall>j < k. other_entry u d j"
  shows "returns (frts_round d a s (appif_hdr d) (u ! (appif_hdr d + 1)) (u ! (appif_hdr d + 2)) u (of_nat k))
    (\<lambda>r. case r of None \<Rightarrow> other_entry u d k | Some (rc, u') \<Rightarrow> frts_outcome u d a s rc u' \<and> length u' = length u)"
proof -
  let ?L = "unat (fd_imem_load_size d)"
  have uk: "unat (of_nat k :: u32) = k"
    using k u8_less [of "u ! (appif_hdr d + 3)"] by (simp add: appif_count_def unat_of_nat_small)
  have e: "appif_hdr d + unat (u ! (appif_hdr d + 1)) + k * unat (u ! (appif_hdr d + 2)) = appif_entry u d k"
    by (simp add: appif_entry_def)
  have len: "length (concat (map cell_bytes (frts_cells a s))) = 44" using length_frts_bytes [of a s] by (simp add: frts_bytes_def)
  have m: "mapper_at u d k b" if "ld32 u (appif_entry u d k) = Some 4" "ld32 u (appif_entry u d k + 4) = Some b" for b
    using that k others by (simp add: mapper_at_def del: ld32_Some)
  show ?thesis
    unfolding frts_round_def uk Let_def e
    apply (intro ret_rules)
    apply (simp_all add: frts_outcome_def other_entry_def len del: ld32_Some)
    subgoal for v va vb using m [of va] by (auto simp: set_init_cmd_def)
    subgoal for v va vb using m [of va] ld32_set_init_cmd [of d va u]
      by (intro exI [where x = k] exI [where x = va] conjI exI [where x = vb])
        (simp_all add: set_init_cmd_def frts_bytes_def del: ld32_Some)
    done
qed

lemma patch_frts_spec:
  "returns (nv_fwsec_patch_frts u d a s) (\<lambda>(rc, u'). frts_outcome u d a s rc u' \<and> length u' = length u)"
proof -
  have search: "returns (find_upto (ucast (u ! (appif_hdr d + 3)) :: u32)
       (frts_round d a s (appif_hdr d) (u ! (appif_hdr d + 1)) (u ! (appif_hdr d + 2)) u) 0)
     (\<lambda>r. case r of None \<Rightarrow> \<forall>k < appif_count u d. other_entry u d k
        | Some x \<Rightarrow> frts_outcome u d a s (fst x) (snd x) \<and> length (snd x) = length u)"
  proof -
    have n: "unat (ucast (u ! (appif_hdr d + 3)) :: u32) = appif_count u d"
      using u8_less [of "u ! (appif_hdr d + 3)"] by (simp add: appif_count_def unat_ucast_small)
    have "returns (find_upto (ucast (u ! (appif_hdr d + 3)) :: u32)
       (frts_round d a s (appif_hdr d) (u ! (appif_hdr d + 1)) (u ! (appif_hdr d + 2)) u) 0)
     (\<lambda>r. case r of None \<Rightarrow> \<forall>k < unat (ucast (u ! (appif_hdr d + 3)) :: u32). other_entry u d k
        | Some x \<Rightarrow> \<exists>k < unat (ucast (u ! (appif_hdr d + 3)) :: u32). (\<forall>j < k. other_entry u d j)
            \<and> frts_outcome u d a s (fst x) (snd x) \<and> length (snd x) = length u)"
      by (rule ret_find_upto, rule returns_mono [OF frts_round_ok]) (auto simp: n split: option.splits)
    then show ?thesis by (rule returns_mono) (auto simp: n split: option.splits)
  qed
  have err: "frts_outcome u d a s NV_FWSEC_ERR_BOUNDS u" by (simp add: frts_outcome_def)
  have none: "frts_outcome u d a s NV_FWSEC_ERR_PARSE u" if "\<forall>k < appif_count u d. other_entry u d k"
    using that by (simp add: frts_outcome_def)
  show ?thesis
    unfolding nv_fwsec_patch_frts_def appif_hdr_def [symmetric]
    apply (intro ret_rules; (simp add: err; fail)?)
    subgoal by (simp add: frts_outcome_def)
    subgoal by (hypsubst, rule ret_bind [OF search])
        (auto simp: returns_def none split: option.splits)
    done
qed

section \<open>Properties\<close>

text \<open>The application interface at offset 16 of the image, one entry naming the DMEMMAPPER at 32, whose buffer is at 80.\<close>

definition demo_ucode :: "u8 list" where
  "demo_ucode = replicate 16 0 @ [1, 4, 8, 1, 4, 0, 0, 0, 32, 0, 0, 0] @ replicate 4 0
     @ (replicate 8 0 @ [80, 0, 0, 0] @ replicate 36 0) @ replicate 44 0xFF"

definition demo_fwsec_desc :: nv_fwsec_desc_t where
  "demo_fwsec_desc = \<lparr>fd_version = 3, fd_hdr_size = 44, fd_imem_load_size = 0, fd_imem_phys_base = 0,
     fd_dmem_load_size = 124, fd_dmem_phys_base = 0, fd_interface_offset = 16, fd_pkc_data_offset = 0,
     fd_engine_id_mask = 0x400, fd_signature_versions = 0xB, fd_ucode_id = 9, fd_signature_count = 3\<rparr>"



text \<open>
  C32. The signature index is the number of supported versions below the fuse version, so the signatures
  of a descriptor are numbered without gaps in the order of their versions; the selection refuses exactly when
  the descriptor has no signature or does not support the version.
\<close>

theorem nv_fwsec_select_signature_index_correct:
  "case nv_fwsec_select_signature_index d fv of
     Inr i \<Rightarrow> fd_signature_count d \<noteq> 0 \<and> unat fv < 16 \<and> bit (fd_signature_versions d) (unat fv)
            \<and> unat i = card {v. v < unat fv \<and> bit (fd_signature_versions d) v}
            \<and> unat i < card {v. bit (fd_signature_versions d) v}
   | Inl e \<Rightarrow> e = NV_FWSEC_ERR_NOSIG \<and> (fd_signature_count d = 0 \<or> \<not> bit (fd_signature_versions d) (unat fv))"
proof -
  let ?sv = "fd_signature_versions d" and ?f = "unat fv"
  have hi: "\<not> bit ?sv v" if "16 \<le> v" for v using that bit_imp_le_length [of ?sv v] by auto
  have t: "(ucast ?sv :: u32) AND push_bit ?f 1 = 0 \<longleftrightarrow> \<not> bit ?sv ?f" if "?f < 32"
  proof
    assume z: "(ucast ?sv :: u32) AND push_bit ?f 1 = 0"
    have "\<not> bit ((ucast ?sv :: u32) AND push_bit ?f 1) ?f" by (subst z) simp
    then show "\<not> bit ?sv ?f" using that hi [of ?f]
      by (auto simp: bit_and_iff bit_exp_iff bit_unsigned_iff push_bit_eq_mult)
  next
    assume "\<not> bit ?sv ?f"
    then show "(ucast ?sv :: u32) AND push_bit ?f 1 = 0"
      by (intro bit_word_eqI) (auto simp: bit_and_iff bit_exp_iff bit_unsigned_iff push_bit_eq_mult)
  qed
  have m: "push_bit ?f 1 - 1 = (mask ?f :: u32)" by (simp add: mask_eq_exp_minus_1 push_bit_eq_mult)
  have b: "bits ((ucast ?sv :: u32) AND mask ?f) = {v. v < ?f \<and> bit ?sv v}"
    using hi by (auto simp: bits_def bit_and_iff bit_mask_iff bit_unsigned_iff dest: bit_imp_le_length)
  have lt: "card {v. v < ?f \<and> bit ?sv v} < card {v. bit ?sv v}" if "bit ?sv ?f"
  proof (rule psubset_card_mono)
    have "{v. bit ?sv v} \<subseteq> {..<16}"
    proof
      fix v assume "v \<in> {v. bit ?sv v}"
      then show "v \<in> {..<16}" using hi [of v] by (cases "16 \<le> v") simp_all
    qed
    then show "finite {v. bit ?sv v}" by (rule finite_subset) simp
    show "{v. v < ?f \<and> bit ?sv v} \<subset> {v. bit ?sv v}" using that by auto
  qed
  have ge: "32 \<le> fv \<longleftrightarrow> 32 \<le> ?f" by (simp add: word_le_nat_alt)
  note run = nv_fwsec_select_signature_index_def [of d fv, unfolded Let_def ge m]
  show ?thesis
  proof (cases "fd_signature_count d = 0 \<or> \<not> bit ?sv ?f")
    case True
    then have "nv_fwsec_select_signature_index d fv = Inl NV_FWSEC_ERR_NOSIG"
      using t by (cases "?f < 32") (auto simp: run)
    then show ?thesis using True by simp
  next
    case False
    then have f: "?f < 16" using hi [of ?f] by (metis not_le)
    then have "nv_fwsec_select_signature_index d fv = Inr (popcount32 (ucast ?sv AND mask ?f))"
      using False t by (simp add: run)
    then show ?thesis using False f lt by (simp add: unat_popcount32 b)
  qed
qed

theorem nv_fwsec_select_signature_index_witness:
  "nv_fwsec_select_signature_index demo_fwsec_desc 3 = Inr 2
   \<and> card {v. v < unat (3 :: u32) \<and> bit (fd_signature_versions demo_fwsec_desc) v} = 2"
proof -
  have r: "nv_fwsec_select_signature_index demo_fwsec_desc 3 = Inr 2" by code_simp
  have "unat (2 :: u32) = card {v. v < unat (3 :: u32) \<and> bit (fd_signature_versions demo_fwsec_desc) v}"
    using nv_fwsec_select_signature_index_correct [of demo_fwsec_desc 3] unfolding r by (simp only: sum.case)
  then show ?thesis using r by simp
qed

end
