(* ===== verification/GspFw.thy ===== *)
theory GspFw
  imports Elf64
begin

text \<open>
  \<open>driver/gsp/gsp_fw.c\<close>: the sections of the GSP-RM image, the GSP boot loader, the cut of VRAM around WPR2, the
  \<open>GspFwWprMeta\<close> block, the libos arguments and the three-level radix table over the image.
\<close>

abbreviation (input) NV_ELF_OK :: int where "NV_ELF_OK \<equiv> 0"
abbreviation (input) NV_GSP_OK :: int where "NV_GSP_OK \<equiv> 0"
abbreviation (input) NV_GSP_ERR_ARG :: int where "NV_GSP_ERR_ARG \<equiv> -1"
abbreviation (input) NV_GSP_ERR_BOUNDS :: int where "NV_GSP_ERR_BOUNDS \<equiv> -2"
abbreviation (input) NV_GSP_ERR_FORMAT :: int where "NV_GSP_ERR_FORMAT \<equiv> -3"
abbreviation (input) NV_GSP_ERR_NOSEC :: int where "NV_GSP_ERR_NOSEC \<equiv> -4"
abbreviation (input) NV_GSP_ERR_CAP :: int where "NV_GSP_ERR_CAP \<equiv> -5"
abbreviation (input) GSP_PAGE_SIZE :: u64 where "GSP_PAGE_SIZE \<equiv> 4096"
abbreviation (input) NV_GSP_RADIX3_ENTRIES_PER_PAGE :: u64 where "NV_GSP_RADIX3_ENTRIES_PER_PAGE \<equiv> 512"
abbreviation (input) NV_GSP_WPR_HEAP_OS_CARVEOUT :: u64 where "NV_GSP_WPR_HEAP_OS_CARVEOUT \<equiv> 0x1400000"
abbreviation (input) NV_GSP_WPR_HEAP_BASE_SIZE :: u64 where "NV_GSP_WPR_HEAP_BASE_SIZE \<equiv> 0x800000"
abbreviation (input) NV_GSP_WPR_HEAP_MIN_SIZE :: u64 where "NV_GSP_WPR_HEAP_MIN_SIZE \<equiv> 0x5400000"
abbreviation (input) NV_GSP_HEAP_SIZE_PER_GB_FB :: u64 where "NV_GSP_HEAP_SIZE_PER_GB_FB \<equiv> 0x18000"
abbreviation (input) NV_GSP_HEAP_CLIENT_ALLOC_SIZE :: u64 where "NV_GSP_HEAP_CLIENT_ALLOC_SIZE \<equiv> 0x6000000"
abbreviation (input) NV_GSP_WPR_META_SIZE :: nat where "NV_GSP_WPR_META_SIZE \<equiv> 256"
abbreviation (input) NV_GSP_WPR_META_MAGIC :: u64 where "NV_GSP_WPR_META_MAGIC \<equiv> 0xdc3aae21371a60b3"
abbreviation (input) NV_GSP_WPR_META_REVISION :: u64 where "NV_GSP_WPR_META_REVISION \<equiv> 1"
abbreviation (input) NV_GSP_LIBOS_ARG_SIZE :: nat where "NV_GSP_LIBOS_ARG_SIZE \<equiv> 32"
abbreviation (input) NV_GSP_LIBOS_KIND_CONTIGUOUS :: u8 where "NV_GSP_LIBOS_KIND_CONTIGUOUS \<equiv> 1"
abbreviation (input) NV_GSP_LIBOS_LOC_SYSMEM :: u8 where "NV_GSP_LIBOS_LOC_SYSMEM \<equiv> 1"
abbreviation (input) BIN_MAGIC :: u32 where "BIN_MAGIC \<equiv> 0x10de"

record nv_gsp_sections_t =
  sn_fwimage_off :: u64
  sn_fwimage_size :: u64
  sn_sig_off :: u64
  sn_sig_size :: u64

record nv_gsp_bootloader_t =
  bl_data_abs :: u32
  bl_data_size :: u32
  bl_app_version :: u32
  bl_code_offset :: u32
  bl_data_offset :: u32
  bl_manifest_offset :: u32
  bl_manifest_size :: u32

record nv_gsp_fb_layout_t =
  fl_fb_size :: u64
  fl_frts_addr :: u64
  fl_frts_size :: u64
  fl_boot_addr :: u64
  fl_boot_size :: u64
  fl_elf_addr :: u64
  fl_elf_size :: u64
  fl_heap_addr :: u64
  fl_heap_size :: u64
  fl_wpr2_addr :: u64
  fl_wpr2_size :: u64
  fl_wpr2_end :: u64
  fl_nonwpr_heap_addr :: u64
  fl_nonwpr_heap_size :: u64

record nv_gsp_wpr_meta_src_t =
  ws_radix3_lvl0_dma :: u64
  ws_radix3_elf_size :: u64
  ws_bootloader_dma :: u64
  ws_bootloader_size :: u64
  ws_boot_code_offset :: u32
  ws_boot_data_offset :: u32
  ws_boot_manifest_offset :: u32
  ws_signature_dma :: u64
  ws_signature_size :: u64
  ws_vga_workspace_addr :: u64
  ws_vga_workspace_size :: u64

record nv_gsp_libos_region_t =
  lr_name :: "u8 list"
  lr_pa :: u64
  lr_size :: u64

text \<open>The name \<open>.fwimage\<close>, and the translation of the errors of the section search.\<close>

definition fwimage_name :: "u8 list" where
  "fwimage_name = [46, 102, 119, 105, 109, 97, 103, 101]"

definition section_error :: "int \<Rightarrow> int" where
  "section_error rc = (if rc = NV_ELF_ERR_NOSEC then NV_GSP_ERR_NOSEC
     else if rc = NV_ELF_ERR_BOUNDS then NV_GSP_ERR_BOUNDS else NV_GSP_ERR_FORMAT)"

definition nv_gsp_rm_sections :: "u8 list \<Rightarrow> u8 list \<Rightarrow> (int + nv_gsp_sections_t) option" where
  "nv_gsp_rm_sections elf chip_sig =
     do { r \<leftarrow> nv_elf64_section elf fwimage_name;
     case r of
       Inl e \<Rightarrow> Some (Inl (section_error e))
     | Inr (io', is') \<Rightarrow> do { r \<leftarrow> nv_elf64_section elf chip_sig;
       case r of
         Inl e \<Rightarrow> Some (Inl (section_error e))
       | Inr (so, ss) \<Rightarrow> Some (Inr \<lparr>sn_fwimage_off = io', sn_fwimage_size = is', sn_sig_off = so, sn_sig_size = ss\<rparr>) } }"

definition nv_gsp_bootloader_parse :: "u8 list \<Rightarrow> (int + nv_gsp_bootloader_t) option" where
  "nv_gsp_bootloader_parse buf =
     (let len = length buf in
      if \<not> fits 0 24 len then Some (Inl NV_GSP_ERR_BOUNDS)
      else do { magic \<leftarrow> ld32 buf 0;
      if magic \<noteq> BIN_MAGIC then Some (Inl NV_GSP_ERR_FORMAT)
      else do { hdr_off \<leftarrow> ld32 buf 12; data_off \<leftarrow> ld32 buf 16; data_sz \<leftarrow> ld32 buf 20;
      if \<not> fits (unat data_off) (unat data_sz) len then Some (Inl NV_GSP_ERR_BOUNDS)
      else if \<not> fits (unat hdr_off) 84 len then Some (Inl NV_GSP_ERR_BOUNDS)
      else let d = unat hdr_off in
      do { app_version \<leftarrow> ld32 buf (d + 28); manifest_offset \<leftarrow> ld32 buf (d + 32); manifest_size \<leftarrow> ld32 buf (d + 36);
           data_offset \<leftarrow> ld32 buf (d + 40); code_offset \<leftarrow> ld32 buf (d + 48);
           Some (Inr \<lparr>bl_data_abs = data_off, bl_data_size = data_sz, bl_app_version = app_version,
             bl_code_offset = code_offset, bl_data_offset = data_offset, bl_manifest_offset = manifest_offset,
             bl_manifest_size = manifest_size\<rparr>) } } })"

section \<open>The cut of VRAM\<close>

definition align_down :: "u64 \<Rightarrow> u64 \<Rightarrow> u64" where
  "align_down v a = v AND NOT (a - 1)"

definition align_up64 :: "u64 \<Rightarrow> u64 \<Rightarrow> u64" where
  "align_up64 v a = (v + a - 1) AND NOT (a - 1)"

definition wpr_heap_size :: "u64 \<Rightarrow> u64" where
  "wpr_heap_size fb_size =
     (let fb_gb = drop_bit 30 (fb_size + push_bit 30 1 - 1);
          heap = NV_GSP_WPR_HEAP_OS_CARVEOUT + NV_GSP_WPR_HEAP_BASE_SIZE
                 + align_up64 (NV_GSP_HEAP_SIZE_PER_GB_FB * fb_gb) (push_bit 20 1)
                 + align_up64 NV_GSP_HEAP_CLIENT_ALLOC_SIZE (push_bit 20 1)
      in if heap < NV_GSP_WPR_HEAP_MIN_SIZE then NV_GSP_WPR_HEAP_MIN_SIZE else heap)"

definition nv_gsp_fb_layout :: "u64 \<Rightarrow> u64 \<Rightarrow> u64 \<Rightarrow> u64 \<Rightarrow> u64 \<Rightarrow> int + nv_gsp_fb_layout_t" where
  "nv_gsp_fb_layout fb_size frts_addr frts_size boot_size elf_size =
     (if fb_size = 0 \<or> frts_size = 0 \<or> boot_size = 0 \<or> elf_size = 0 then Inl NV_GSP_ERR_ARG
      else
        let wpr2_end = frts_addr + frts_size;
            boot_addr = align_down (frts_addr - boot_size) 0x1000;
            elf_addr = align_down (boot_addr - elf_size) 0x10000;
            heap = wpr_heap_size fb_size;
            heap_addr = align_down (elf_addr - heap) 0x100000;
            heap_size = align_down (elf_addr - heap_addr) 0x100000;
            wpr2_addr = align_down (heap_addr - of_nat NV_GSP_WPR_META_SIZE) 0x100000;
            wpr2_size = wpr2_end - wpr2_addr;
            nonwpr_heap_size = 0x100000;
            nonwpr_heap_addr = wpr2_addr - nonwpr_heap_size
        in if wpr2_end > fb_size then Inl NV_GSP_ERR_BOUNDS
           else if \<not> (nonwpr_heap_addr < wpr2_addr \<and> wpr2_addr \<le> heap_addr \<and> heap_addr < elf_addr
                      \<and> elf_addr < boot_addr \<and> boot_addr < frts_addr) then Inl NV_GSP_ERR_BOUNDS
           else Inr \<lparr>fl_fb_size = fb_size, fl_frts_addr = frts_addr, fl_frts_size = frts_size,
             fl_boot_addr = boot_addr, fl_boot_size = boot_size, fl_elf_addr = elf_addr, fl_elf_size = elf_size,
             fl_heap_addr = heap_addr, fl_heap_size = heap_size, fl_wpr2_addr = wpr2_addr, fl_wpr2_size = wpr2_size,
             fl_wpr2_end = wpr2_end, fl_nonwpr_heap_addr = nonwpr_heap_addr, fl_nonwpr_heap_size = nonwpr_heap_size\<rparr>)"

definition wpr_meta_cells :: "nv_gsp_fb_layout_t \<Rightarrow> nv_gsp_wpr_meta_src_t \<Rightarrow> (nat \<times> cell) list" where
  "wpr_meta_cells lay src =
     [(0, W64 NV_GSP_WPR_META_MAGIC), (8, W64 NV_GSP_WPR_META_REVISION),
      (16, W64 (ws_radix3_lvl0_dma src)), (24, W64 (ws_radix3_elf_size src)),
      (32, W64 (ws_bootloader_dma src)), (40, W64 (ws_bootloader_size src)),
      (48, W64 (ucast (ws_boot_code_offset src))), (56, W64 (ucast (ws_boot_data_offset src))),
      (64, W64 (ucast (ws_boot_manifest_offset src))), (72, W64 (ws_signature_dma src)),
      (80, W64 (ws_signature_size src)), (88, W64 (fl_nonwpr_heap_addr lay)), (96, W64 (fl_nonwpr_heap_addr lay)),
      (104, W64 (fl_nonwpr_heap_size lay)), (112, W64 (fl_wpr2_addr lay)), (120, W64 (fl_heap_addr lay)),
      (128, W64 (fl_heap_size lay)), (136, W64 (fl_elf_addr lay)), (144, W64 (fl_boot_addr lay)),
      (152, W64 (fl_frts_addr lay)), (160, W64 (fl_frts_size lay)), (168, W64 (fl_wpr2_end lay)),
      (176, W64 (fl_fb_size lay)), (184, W64 (ws_vga_workspace_addr src)), (192, W64 (ws_vga_workspace_size src))]"

definition nv_gsp_wpr_meta_build :: "u8 list \<Rightarrow> nv_gsp_fb_layout_t \<Rightarrow> nv_gsp_wpr_meta_src_t \<Rightarrow> (int \<times> u8 list) option" where
  "nv_gsp_wpr_meta_build buf lay src =
     (if length buf < NV_GSP_WPR_META_SIZE then Some (NV_GSP_ERR_ARG, buf)
      else do { buf \<leftarrow> wr_bytes buf 0 (replicate NV_GSP_WPR_META_SIZE 0);
                buf \<leftarrow> stores buf 0 (wpr_meta_cells lay src);
                Some (NV_GSP_OK, buf) })"

section \<open>libos arguments\<close>

text \<open>A C string is the list of its bytes before the NUL; the loop takes at most eight.\<close>

definition nv_gsp_libos_id8 :: "u8 list \<Rightarrow> u64" where
  "nv_gsp_libos_id8 name = foldl (\<lambda>i c. push_bit 8 i OR ucast c) 0 (take 8 name)"

definition libos_entry :: "nv_gsp_libos_region_t list \<Rightarrow> u32 \<Rightarrow> u8 list \<Rightarrow> u8 list option" where
  "libos_entry regions i buf =
     (let r = regions ! unat i in
      if unat i < length regions then
        stores buf (unat i * NV_GSP_LIBOS_ARG_SIZE)
          [(0, W64 (nv_gsp_libos_id8 (lr_name r))), (8, W64 (lr_pa r)), (16, W64 (lr_size r)),
           (24, B8 NV_GSP_LIBOS_KIND_CONTIGUOUS), (25, B8 NV_GSP_LIBOS_LOC_SYSMEM)]
      else None)"

definition nv_gsp_libos_build_args ::
  "u8 list \<Rightarrow> nv_gsp_libos_region_t list \<Rightarrow> u32 \<Rightarrow> (int \<times> u8 list \<times> nat) option" where
  "nv_gsp_libos_build_args buf regions n =
     (if unat n * NV_GSP_LIBOS_ARG_SIZE > length buf then Some (NV_GSP_ERR_BOUNDS, buf, 0)
      else do { buf \<leftarrow> wr_bytes buf 0 (replicate (unat n * NV_GSP_LIBOS_ARG_SIZE) 0);
                buf \<leftarrow> for_upto 1 n (libos_entry regions) 0 buf;
                Some (NV_GSP_OK, buf, unat n * NV_GSP_LIBOS_ARG_SIZE) })"

text \<open>One word of a page list: \<open>st64(buf + off + i * 8, base + i * 4096)\<close>.\<close>

definition page_entry :: "nat \<Rightarrow> u64 \<Rightarrow> 'a::len word \<Rightarrow> u8 list \<Rightarrow> u8 list option" where
  "page_entry off base i buf = st64 buf (off + unat i * 8) (base + ucast i * GSP_PAGE_SIZE)"

definition nv_gsp_pte_array_fill :: "u8 list \<Rightarrow> u64 \<Rightarrow> u64 \<Rightarrow> u64 \<Rightarrow> (int \<times> u8 list) option" where
  "nv_gsp_pte_array_fill buf off dma_base region_size =
     (if region_size = 0 then Some (NV_GSP_ERR_ARG, buf)
      else let pages = (region_size + GSP_PAGE_SIZE - 1) div GSP_PAGE_SIZE in
      if unat (off + pages * 8) > length buf then Some (NV_GSP_ERR_BOUNDS, buf)
      else do { buf \<leftarrow> for_upto 1 pages (page_entry (unat off) dma_base) 0 buf; Some (NV_GSP_OK, buf) })"

section \<open>The radix table\<close>

definition nv_gsp_radix3_levels :: "u64 \<Rightarrow> int + u32 \<times> u32" where
  "nv_gsp_radix3_levels fwimage_size =
     (if fwimage_size = 0 then Inl NV_GSP_ERR_ARG
      else let pages = (fwimage_size + GSP_PAGE_SIZE - 1) div GSP_PAGE_SIZE;
               l2_bytes = pages * 8;
               l2_pages = (l2_bytes + GSP_PAGE_SIZE - 1) div GSP_PAGE_SIZE
      in if l2_pages > NV_GSP_RADIX3_ENTRIES_PER_PAGE then Inl NV_GSP_ERR_CAP
         else Inr (ucast pages, ucast l2_pages))"

definition nv_gsp_radix3_fill ::
  "u64 \<Rightarrow> u8 list \<Rightarrow> u8 list \<Rightarrow> u8 list \<Rightarrow> u64 \<Rightarrow> u64 \<Rightarrow> u64 \<Rightarrow> (int \<times> u8 list \<times> u8 list \<times> u8 list) option" where
  "nv_gsp_radix3_fill fwimage_size lvl0 lvl1 lvl2 dma_fwimage dma_lvl2 dma_lvl1 =
     (case nv_gsp_radix3_levels fwimage_size of
        Inl e \<Rightarrow> Some (e, lvl0, lvl1, lvl2)
      | Inr (n2, l2_pages) \<Rightarrow>
          do { lvl2 \<leftarrow> for_upto 1 n2 (page_entry 0 dma_fwimage) 0 lvl2;
               lvl1 \<leftarrow> for_upto 1 l2_pages (page_entry 0 dma_lvl2) 0 lvl1;
               lvl0 \<leftarrow> st64 lvl0 0 dma_lvl1;
               Some (NV_GSP_OK, lvl0, lvl1, lvl2) })"

section \<open>Lists of pages\<close>

definition page_list :: "u8 list \<Rightarrow> nat \<Rightarrow> u64 \<Rightarrow> nat \<Rightarrow> bool" where
  "page_list b off base n \<longleftrightarrow> (\<forall>i < n. ld64 b (off + i * 8) = Some (base + of_nat i * GSP_PAGE_SIZE))"

lemma page_loop:
  fixes n :: "'a::len word"
  assumes "off + unat n * 8 \<le> length b" "unat n + 1 \<le> 2 ^ LENGTH('a)" "LENGTH('a) \<le> 64"
  shows "returns (for_upto 1 n (page_entry off base) 0 b) (\<lambda>b'. length b' = length b \<and> page_list b' off base (unat n)
    \<and> (\<forall>j m. j + m \<le> off \<or> off + unat n * 8 \<le> j \<longrightarrow> fld b' j m = fld b j m))"
proof (rule returns_mono [OF ret_for_upto [where n = "unat n" and P = "\<lambda>k b'. length b' = length b \<and> page_list b' off base k
      \<and> (\<forall>j m. j + m \<le> off \<or> off + unat n * 8 \<le> j \<longrightarrow> fld b' j m = fld b j m)"]])
  show "0 < unat (1 :: 'a word)" "unat n + unat (1 :: 'a word) \<le> 2 ^ LENGTH('a)"
    "unat n = (unat n + unat (1 :: 'a word) - 1) div unat (1 :: 'a word)" using assms(2) by simp_all
  show "length b = length b \<and> page_list b off base 0
      \<and> (\<forall>j m. j + m \<le> off \<or> off + unat n * 8 \<le> j \<longrightarrow> fld b j m = fld b j m)" by (simp add: page_list_def)
next
  fix k b'
  assume k: "k < unat n" and P: "length b' = length b \<and> page_list b' off base k
      \<and> (\<forall>j m. j + m \<le> off \<or> off + unat n * 8 \<le> j \<longrightarrow> fld b' j m = fld b j m)"
  have k': "k < 2 ^ LENGTH('a)" using k assms(2) by simp
  then have u: "unat (of_nat k :: 'a word) = k" by (simp add: unat_of_nat_small)
  have k64: "k < 2 ^ 64" using k' assms(3) by (meson less_le_trans one_le_numeral power_increasing)
  have uc: "ucast (of_nat k :: 'a word) = (of_nat k :: u64)"
    using u k64 by (intro word_unat_eq_iff [THEN iffD2]) (simp add: unat_ucast_small unat_of_nat_small)
  have in_b: "off + k * 8 + 8 \<le> length b'" using k assms(1) P by linarith
  let ?v = "base + of_nat k * GSP_PAGE_SIZE" and ?b = "splice b' (off + k * 8) (bytes64 (base + of_nat k * GSP_PAGE_SIZE))"
  have pl: "page_list ?b off base (Suc k)"
    unfolding page_list_def
  proof (intro allI impI)
    fix i assume "i < Suc k"
    then consider "i = k" | "i < k" by linarith
    then show "ld64 ?b (off + i * 8) = Some (base + of_nat i * GSP_PAGE_SIZE)"
    proof cases
      case 1
      then show ?thesis using in_b fld_splice_same [of "off + k * 8" "bytes64 ?v" b'] by (simp add: ld64_iff)
    next
      case 2
      then have "fld ?b (off + i * 8) 8 = fld b' (off + i * 8) 8" using in_b by (intro fld_splice_disj) simp_all
      moreover have "ld64 b' (off + i * 8) = Some (base + of_nat i * GSP_PAGE_SIZE)" using 2 P by (simp add: page_list_def)
      ultimately show ?thesis using in_b by (simp add: ld64_iff)
    qed
  qed
  have fr: "fld ?b j m = fld b j m" if "j + m \<le> off \<or> off + unat n * 8 \<le> j" for j m
  proof -
    have "k * 8 + 8 \<le> unat n * 8" using k by linarith
    then have "fld ?b j m = fld b' j m" using in_b that by (intro fld_splice_disj) auto
    then show ?thesis using P that by simp
  qed
  have "page_entry off base (of_nat k * 1 :: 'a word) b' = Some ?b"
    unfolding page_entry_def mult_1_right u uc using in_b by simp
  then show "returns (page_entry off base (of_nat k * 1 :: 'a word) b') (\<lambda>b'. length b' = length b \<and> page_list b' off base (Suc k)
      \<and> (\<forall>j m. j + m \<le> off \<or> off + unat n * 8 \<le> j \<longrightarrow> fld b' j m = fld b j m))"
    using pl fr in_b P by (auto simp: returns_def)
qed auto

section \<open>The radix table as a map\<close>

text \<open>
  What the GSP reads through the table: entry 0 of level 0 is level 1, entry \<open>i div 512\<close> of level 1 is a page
  of level 2, whose entry \<open>i mod 512\<close> is page \<open>i\<close> of the image.  The pages of level 2 lie at \<open>d2\<close> in DMA
  memory, so a level-1 entry \<open>a\<close> is the page at offset \<open>a - d2\<close> of the buffer.
\<close>

definition radix3_walk :: "u8 list \<Rightarrow> u8 list \<Rightarrow> u8 list \<Rightarrow> u64 \<Rightarrow> u64 \<Rightarrow> nat \<Rightarrow> u64 option" where
  "radix3_walk l0 l1 l2 d1 d2 i =
     do { a0 \<leftarrow> ld64 l0 0;
          if a0 \<noteq> d1 then None
          else do { a1 \<leftarrow> ld64 l1 (i div 512 * 8);
                    ld64 l2 (unat (a1 - d2) + i mod 512 * 8) } }"

lemma pages_ceil: "unat (v :: u64) < 2 ^ 63 \<Longrightarrow> unat ((v + GSP_PAGE_SIZE - 1) div GSP_PAGE_SIZE) = (unat v + 4095) div 4096"
proof -
  assume v: "unat v < 2 ^ 63"
  have "v + GSP_PAGE_SIZE - 1 = v + 4095" by simp
  moreover have "unat (v + 4095) = unat v + 4095" using v by (simp add: unat_add_small)
  ultimately show ?thesis by (simp only: unat_div) simp
qed

lemma radix3_levels_spec:
  assumes "0 < unat v" "unat v < 2 ^ 63"
  shows "nv_gsp_radix3_levels v =
    (if unat v \<le> 2 ^ 30 then Inr (of_nat ((unat v + 4095) div 4096), of_nat (((unat v + 4095) div 4096 + 511) div 512))
     else Inl NV_GSP_ERR_CAP)"
proof -
  let ?p = "(unat v + 4095) div 4096"
  let ?w = "(v + GSP_PAGE_SIZE - 1) div GSP_PAGE_SIZE"
  have p: "unat ?w = ?p" using assms(2) by (rule pages_ceil)
  have pb: "?p \<le> 2 ^ 51" using assms(2) by simp
  have b: "unat (?w * 8) = ?p * 8" using pb p by (simp add: unat_word_ariths)
  have "unat ((?w * 8 + GSP_PAGE_SIZE - 1) div GSP_PAGE_SIZE) = (?p * 8 + 4095) div 4096"
    using pb b pages_ceil [of "?w * 8"] by simp
  moreover have "(m * 8 + 4095) div 4096 = (m + 511) div 512" for m :: nat
  proof -
    have "(m * 8 + 4095) div 4096 = (m * 8 + 4095) div 8 div 512" by (simp add: div_mult2_eq [symmetric])
    moreover have "(m * 8 + 4095) div 8 = m + 511" by simp
    ultimately show ?thesis by simp
  qed
  ultimately have q: "unat ((?w * 8 + GSP_PAGE_SIZE - 1) div GSP_PAGE_SIZE) = (?p + 511) div 512" by simp
  have v0: "v \<noteq> 0" using assms(1) by auto
  have cap: "(?p + 511) div 512 > 512 \<longleftrightarrow> \<not> unat v \<le> 2 ^ 30"
  proof -
    have "(?p + 511) div 512 > 512 \<longleftrightarrow> 512 * 512 < ?p" by (simp add: less_eq_div_iff_mult_less_eq Suc_le_eq [symmetric])
    also have "\<dots> \<longleftrightarrow> 2 ^ 30 < unat v" by (simp add: less_eq_div_iff_mult_less_eq Suc_le_eq [symmetric])
    finally show ?thesis by (simp add: not_le)
  qed
  have c: "ucast w = (of_nat m :: u32)" if "unat w = m" for w :: u64 and m using that by (metis of_nat_unat)
  have big: "512 < (?w * 8 + GSP_PAGE_SIZE - 1) div GSP_PAGE_SIZE \<longleftrightarrow> \<not> unat v \<le> 2 ^ 30"
    unfolding word_less_nat_alt q using cap by simp
  show ?thesis
    unfolding nv_gsp_radix3_levels_def Let_def big c [OF p] c [OF q] using v0 by simp
qed

lemma radix3_fill_spec:
  assumes v: "0 < unat v" "unat v < 2 ^ 63" and n: "n = (unat v + 4095) div 4096"
    and len: "8 \<le> length l0" "4096 \<le> length l1" "n * 8 \<le> length l2"
  shows "if unat v \<le> 2 ^ 30
     then returns (nv_gsp_radix3_fill v l0 l1 l2 df d2 d1) (\<lambda>(rc, l0', l1', l2'). rc = NV_GSP_OK
        \<and> length l0' = length l0 \<and> length l1' = length l1 \<and> length l2' = length l2
        \<and> ld64 l0' 0 = Some d1 \<and> page_list l1' 0 d2 ((n + 511) div 512) \<and> page_list l2' 0 df n)
     else nv_gsp_radix3_fill v l0 l1 l2 df d2 d1 = Some (NV_GSP_ERR_CAP, l0, l1, l2)"
proof (cases "unat v \<le> 2 ^ 30")
  case False
  then show ?thesis by (simp add: nv_gsp_radix3_fill_def radix3_levels_spec [OF v])
next
  case True
  let ?q = "(n + 511) div 512"
  have b: "n \<le> 262144" "?q \<le> 512" using True n by simp_all
  have u: "unat (of_nat n :: u32) = n" "unat (of_nat ?q :: u32) = ?q" using b by (simp_all add: unat_of_nat_small)
  have lv: "nv_gsp_radix3_levels v = Inr (of_nat n, of_nat ?q)" using True by (simp add: radix3_levels_spec [OF v] n)
  have r2: "returns (for_upto 1 (of_nat n :: u32) (page_entry 0 df) 0 l2) (\<lambda>b'. length b' = length l2 \<and> page_list b' 0 df n)"
    using page_loop [of 0 "of_nat n :: u32" l2 df, unfolded u] len b by (auto simp: returns_def)
  have r1: "returns (for_upto 1 (of_nat ?q :: u32) (page_entry 0 d2) 0 l1) (\<lambda>b'. length b' = length l1 \<and> page_list b' 0 d2 ?q)"
    using page_loop [of 0 "of_nat ?q :: u32" l1 d2, unfolded u] len b by (auto simp: returns_def)
  have "ld64 (splice l0 0 (bytes64 d1)) 0 = Some d1"
    using len fld_splice_same [of 0 "bytes64 d1" l0] by (simp add: ld64_iff)
  then have "returns (nv_gsp_radix3_fill v l0 l1 l2 df d2 d1) (\<lambda>(rc, l0', l1', l2'). rc = NV_GSP_OK
        \<and> length l0' = length l0 \<and> length l1' = length l1 \<and> length l2' = length l2
        \<and> ld64 l0' 0 = Some d1 \<and> page_list l1' 0 d2 ((n + 511) div 512) \<and> page_list l2' 0 df n)"
    unfolding nv_gsp_radix3_fill_def lv using len
    by (auto intro!: ret_bind [OF r2] ret_bind [OF r1] ret_Some)
  then show ?thesis using True by simp
qed

lemma walk_page_lists:
  assumes l0: "ld64 l0 0 = Some d1" and l1: "page_list l1 0 d2 ((n + 511) div 512)" and l2: "page_list l2 0 df n"
    and i: "i < n" and n: "n \<le> 262144"
  shows "radix3_walk l0 l1 l2 d1 d2 i = Some (df + of_nat i * GSP_PAGE_SIZE)"
proof -
  have q: "i div 512 < (n + 511) div 512" using i by (simp add: less_eq_div_iff_mult_less_eq Suc_le_eq [symmetric] div_less_iff_less_mult)
  then have e1: "ld64 l1 (i div 512 * 8) = Some (d2 + of_nat (i div 512) * GSP_PAGE_SIZE)"
    using l1 by (simp add: page_list_def)
  have "i div 512 * 4096 < 2 ^ 64" using i n by simp
  then have "unat (of_nat (i div 512) * GSP_PAGE_SIZE :: u64) = i div 512 * 4096"
    by (simp add: unat_word_ariths unat_of_nat_small)
  moreover have "i div 512 * 4096 + i mod 512 * 8 = i * 8" using mult_div_mod_eq [of 512 i] by linarith
  ultimately show ?thesis using l0 l2 i unfolding radix3_walk_def by (simp add: e1 page_list_def)
qed

section \<open>Regions of VRAM\<close>

lemma align_down_nat:
  "unat (align_down v 0x1000) = unat v div 4096 * 4096"
  "unat (align_down v 0x10000) = unat v div 65536 * 65536"
  "unat (align_down v 0x100000) = unat v div 1048576 * 1048576"
proof -
  have m: "(0x1000 - 1 :: u64) = mask 12" "(0x10000 - 1 :: u64) = mask 16" "(0x100000 - 1 :: u64) = mask 20"
    by (simp_all add: mask_eq_exp_minus_1)
  show "unat (align_down v 0x1000) = unat v div 4096 * 4096"
    using unat_and_not_mask [of v 12] by (simp add: align_down_def m(1) [simplified])
  show "unat (align_down v 0x10000) = unat v div 65536 * 65536"
    using unat_and_not_mask [of v 16] by (simp add: align_down_def m(2) [simplified])
  show "unat (align_down v 0x100000) = unat v div 1048576 * 1048576"
    using unat_and_not_mask [of v 20] by (simp add: align_down_def m(3) [simplified])
qed

lemma align_down_bounds:
  "unat (align_down v 0x1000) \<le> unat v \<and> unat v < unat (align_down v 0x1000) + 4096 \<and> 4096 dvd unat (align_down v 0x1000)"
  "unat (align_down v 0x10000) \<le> unat v \<and> unat v < unat (align_down v 0x10000) + 65536 \<and> 65536 dvd unat (align_down v 0x10000)"
  "unat (align_down v 0x100000) \<le> unat v \<and> unat v < unat (align_down v 0x100000) + 1048576 \<and> 1048576 dvd unat (align_down v 0x100000)"
  unfolding align_down_nat using div_mult_mod_eq [of "unat v" 4096] div_mult_mod_eq [of "unat v" 65536] div_mult_mod_eq [of "unat v" 1048576]
  by (auto simp: dividend_less_div_times add.commute)

lemma unat_sub_cases: "unat (v - s :: u64) = (if unat s \<le> unat v then unat v - unat s else unat v + 2 ^ 64 - unat s)"
proof (cases "unat s \<le> unat v")
  case True
  then show ?thesis by (simp add: unat_sub word_le_nat_alt)
next
  case False
  then show ?thesis using unat_sub_if' [of v s] by (simp add: word_le_nat_alt)
qed

lemma wpr_heap_nat:
  assumes "unat fb < 2 ^ 62"
  shows "unat (wpr_heap_size fb) = 130023424 + roundup (2 ^ 20) (98304 * ((unat fb + (2 ^ 30 - 1)) div 2 ^ 30))"
proof -
  let ?gb = "(unat fb + (2 ^ 30 - 1)) div 2 ^ 30"
  have "fb + push_bit 30 1 - 1 = fb + 1073741823" by (simp add: push_bit_eq_mult)
  moreover have "unat (fb + 1073741823) = unat fb + 1073741823" using assms by (simp add: unat_add_small)
  ultimately have gb: "unat (drop_bit 30 (fb + push_bit 30 1 - 1)) = ?gb" by (simp only: unat_drop_bit) simp
  have gbb: "?gb \<le> 2 ^ 32" using assms by simp
  let ?per = "NV_GSP_HEAP_SIZE_PER_GB_FB * drop_bit 30 (fb + push_bit 30 1 - 1)"
  have per: "unat ?per = 98304 * ?gb" using gb gbb by (simp add: unat_word_ariths)
  have up: "unat (align_up64 w (push_bit 20 1)) = roundup (2 ^ 20) (unat w)" if "unat w < 2 ^ 62" for w
  proof -
    have "(push_bit 20 1 - 1 :: u64) = mask 20" by (simp add: mask_eq_exp_minus_1 push_bit_eq_mult)
    then have "align_up64 w (push_bit 20 1) = (w + push_bit 20 1 - 1) AND NOT (mask 20)" by (simp only: align_up64_def)
    moreover have "unat (w + push_bit 20 1 - 1) = unat w + 2 ^ 20 - 1"
      using that by (simp add: push_bit_eq_mult unat_add_small)
    ultimately show ?thesis by (simp add: unat_and_not_mask roundup_def)
  qed
  have r: "unat (align_up64 ?per (push_bit 20 1)) = roundup (2 ^ 20) (98304 * ?gb)" using per gbb up [of ?per] by simp
  have c: "unat (align_up64 NV_GSP_HEAP_CLIENT_ALLOC_SIZE (push_bit 20 1)) = 100663296"
    using up [of NV_GSP_HEAP_CLIENT_ALLOC_SIZE] by (simp add: roundup_def)
  have rb: "roundup (2 ^ 20) (98304 * ?gb) < 2 ^ 60"
    using roundup_less [of "2 ^ 20" "98304 * ?gb"] gbb by simp
  let ?h = "NV_GSP_WPR_HEAP_OS_CARVEOUT + NV_GSP_WPR_HEAP_BASE_SIZE + align_up64 ?per (push_bit 20 1)
      + align_up64 NV_GSP_HEAP_CLIENT_ALLOC_SIZE (push_bit 20 1)"
  have h: "unat ?h = 130023424 + roundup (2 ^ 20) (98304 * ?gb)"
    using r c rb by (simp add: unat_add_small)
  then have "\<not> ?h < NV_GSP_WPR_HEAP_MIN_SIZE" by (simp add: word_less_nat_alt)
  then have "wpr_heap_size fb = ?h" by (simp only: wpr_heap_size_def Let_def if_False)
  then show ?thesis using h by (simp only:)
qed

text \<open>What an accepted cut promises, bottom up, in bytes of VRAM.\<close>

definition wpr_layout_ok :: "nat \<Rightarrow> nv_gsp_fb_layout_t \<Rightarrow> bool" where
  "wpr_layout_ok heap l \<longleftrightarrow>
     unat (fl_nonwpr_heap_addr l) + unat (fl_nonwpr_heap_size l) = unat (fl_wpr2_addr l)
     \<and> unat (fl_nonwpr_heap_size l) = 2 ^ 20
     \<and> unat (fl_wpr2_addr l) + 256 \<le> unat (fl_heap_addr l)
     \<and> heap \<le> unat (fl_heap_size l) \<and> unat (fl_heap_addr l) + unat (fl_heap_size l) \<le> unat (fl_elf_addr l)
     \<and> unat (fl_elf_addr l) + unat (fl_elf_size l) \<le> unat (fl_boot_addr l)
     \<and> unat (fl_boot_addr l) + unat (fl_boot_size l) \<le> unat (fl_frts_addr l)
     \<and> unat (fl_frts_addr l) + unat (fl_frts_size l) = unat (fl_wpr2_end l)
     \<and> unat (fl_wpr2_addr l) + unat (fl_wpr2_size l) = unat (fl_wpr2_end l)
     \<and> unat (fl_wpr2_end l) \<le> unat (fl_fb_size l)
     \<and> 2 ^ 20 dvd unat (fl_wpr2_addr l) \<and> 2 ^ 20 dvd unat (fl_heap_addr l)
     \<and> 2 ^ 16 dvd unat (fl_elf_addr l) \<and> 2 ^ 12 dvd unat (fl_boot_addr l)"

lemma fb_layout_spec:
  assumes small: "unat F < 2 ^ 62" "unat A < 2 ^ 62" "unat S < 2 ^ 62" "unat B < 2 ^ 62" "unat E < 2 ^ 62"
    and pos: "F \<noteq> 0" "S \<noteq> 0" "B \<noteq> 0" "E \<noteq> 0"
  defines "H \<equiv> 130023424 + roundup (2 ^ 20) (98304 * ((unat F + (2 ^ 30 - 1)) div 2 ^ 30))"
  shows "case nv_gsp_fb_layout F A S B E of
      Inr l \<Rightarrow> wpr_layout_ok H l \<and> fl_fb_size l = F \<and> fl_frts_addr l = A \<and> fl_frts_size l = S
             \<and> fl_boot_size l = B \<and> fl_elf_size l = E
    | Inl e \<Rightarrow> e = NV_GSP_ERR_BOUNDS \<and> (unat F < unat A + unat S \<or> unat A < unat B + unat E + H + 2 ^ 22)"
proof -
  define hp ba ea ha hs wa where defs: "hp = wpr_heap_size F" "ba = align_down (A - B) 0x1000"
    "ea = align_down (ba - E) 0x10000" "ha = align_down (ea - hp) 0x100000"
    "hs = align_down (ea - ha) 0x100000" "wa = align_down (ha - 256) 0x100000"
  have hp: "unat hp = H" unfolding H_def defs(1) using small(1) by (rule wpr_heap_nat)
  have Hb: "H < 2 ^ 62"
  proof -
    have "98304 * ((unat F + (2 ^ 30 - 1)) div 2 ^ 30) \<le> 2 ^ 49" using small(1) by simp
    then show ?thesis using roundup_less [of "2 ^ 20" "98304 * ((unat F + (2 ^ 30 - 1)) div 2 ^ 30)"]
      unfolding H_def by simp
  qed
  have Hd: "1048576 dvd H" unfolding H_def by (intro dvd_add) (simp_all add: roundup_def)
  have we: "unat (A + S) = unat A + unat S" using small by (simp add: unat_add_small)
  note al = align_down_bounds(1) [of "A - B", folded defs(2)] align_down_bounds(2) [of "ba - E", folded defs(3)]
    align_down_bounds(3) [of "ea - hp", folded defs(4)] align_down_bounds(3) [of "ea - ha", folded defs(5)]
    align_down_bounds(3) [of "ha - 256", folded defs(6)]
  let ?G = "\<not> A + S > F \<and> wa - 0x100000 < wa \<and> wa \<le> ha \<and> ha < ea \<and> ea < ba \<and> ba < A"
  let ?l = "\<lparr>fl_fb_size = F, fl_frts_addr = A, fl_frts_size = S,
             fl_boot_addr = ba, fl_boot_size = B, fl_elf_addr = ea, fl_elf_size = E,
             fl_heap_addr = ha, fl_heap_size = hs, fl_wpr2_addr = wa, fl_wpr2_size = A + S - wa,
             fl_wpr2_end = A + S, fl_nonwpr_heap_addr = wa - 0x100000, fl_nonwpr_heap_size = 0x100000\<rparr>"
  have run: "nv_gsp_fb_layout F A S B E = (if ?G then Inr ?l else Inl NV_GSP_ERR_BOUNDS)"
    using pos unfolding nv_gsp_fb_layout_def Let_def of_nat_numeral defs [symmetric]
    by auto
  have sub: "unat (A - B) = (if unat B \<le> unat A then unat A - unat B else unat A + 2 ^ 64 - unat B)"
    "unat (ba - E) = (if unat E \<le> unat ba then unat ba - unat E else unat ba + 2 ^ 64 - unat E)"
    "unat (ea - hp) = (if H \<le> unat ea then unat ea - H else unat ea + 2 ^ 64 - H)"
    "unat (ea - ha) = (if unat ha \<le> unat ea then unat ea - unat ha else unat ea + 2 ^ 64 - unat ha)"
    "unat (ha - 256) = (if 256 \<le> unat ha then unat ha - 256 else unat ha + 2 ^ 64 - 256)"
    "unat (wa - 0x100000) = (if 1048576 \<le> unat wa then unat wa - 1048576 else unat wa + 2 ^ 64 - 1048576)"
    using unat_sub_cases [of A B] unat_sub_cases [of ba E] unat_sub_cases [of ea hp] unat_sub_cases [of ea ha]
      unat_sub_cases [of ha 256] unat_sub_cases [of wa "0x100000"] by (simp_all add: hp)
  show ?thesis
  proof (cases ?G)
    case True
    then have g: "unat A + unat S \<le> unat F" "unat (wa - 0x100000) < unat wa" "unat wa \<le> unat ha"
      "unat ha < unat ea" "unat ea < unat ba" "unat ba < unat A"
      using we by (simp_all only: word_less_nat_alt word_le_nat_alt not_less)
    have b: "unat B \<le> unat A" "unat (A - B) = unat A - unat B"
      using sub(1) al(1) g(6) small(4) by (auto split: if_splits)
    have e: "unat E \<le> unat ba" "unat (ba - E) = unat ba - unat E"
      using sub(2) al(2) g(5) small(5) by (auto split: if_splits)
    have h: "H \<le> unat ea" "unat (ea - hp) = unat ea - H"
      using sub(3) al(3) g(4) Hb by (auto split: if_splits)
    have d: "unat (ea - ha) = unat ea - unat ha" using sub(4) g(4) by simp
    have m: "256 \<le> unat ha" "unat (ha - 256) = unat ha - 256"
      using sub(5) al(5) g(3) by (auto split: if_splits)
    have w: "1048576 \<le> unat wa" "unat (wa - 0x100000) = unat wa - 1048576"
      using sub(6) g(2) by (auto split: if_splits)
    have ws: "unat (A + S - wa) = unat A + unat S - unat wa"
      using unat_sub_cases [of "A + S" wa] we g by simp
    have hs: "H \<le> unat hs"
    proof -
      have "H \<le> unat ea - unat ha" using al(3) h by linarith
      moreover obtain p q where "H = 1048576 * p" "unat hs = 1048576 * q" using al(4) Hd by (auto elim!: dvdE)
      ultimately show ?thesis using al(4) d by simp
    qed
    have "wpr_layout_ok H ?l"
      unfolding wpr_layout_ok_def nv_gsp_fb_layout_t.simps
    proof (intro conjI)
      show "unat (wa - 0x100000) + unat (0x100000 :: u64) = unat wa" using w by simp
      show "unat wa + 256 \<le> unat ha" using al(5) m by linarith
      show "H \<le> unat hs" by (rule hs)
      show "unat ha + unat hs \<le> unat ea" using al(4) d g(4) by linarith
      show "unat ea + unat E \<le> unat ba" using al(2) e by linarith
      show "unat ba + unat B \<le> unat A" using al(1) b by linarith
      show "unat A + unat S = unat (A + S)" using we by simp
      show "unat wa + unat (A + S - wa) = unat (A + S)" using ws we g by linarith
      show "unat (A + S) \<le> unat F" using we g(1) by simp
    qed (use al in simp_all)
    then show ?thesis using True by (simp add: run)
  next
    case False
    have "\<not> (unat A + unat S \<le> unat F \<and> unat B + unat E + H + 2 ^ 22 \<le> unat A)"
    proof
      assume a: "unat A + unat S \<le> unat F \<and> unat B + unat E + H + 2 ^ 22 \<le> unat A"
      have p: "0 < unat B" "0 < unat E" using pos by (simp_all add: unat_gt_0)
      have ba: "unat A < unat ba + unat B + 4096" "unat ba + unat B \<le> unat A" using a al(1) sub(1) by (auto split: if_splits)
      have ea: "unat ba < unat ea + unat E + 65536" "unat ea + unat E \<le> unat ba"
        using a al(2) sub(2) ba by (auto split: if_splits)
      have ha: "unat ea < unat ha + H + 1048576" "unat ha + H \<le> unat ea"
        using a al(3) sub(3) ba ea by (auto split: if_splits)
      have wa: "unat ha < unat wa + 256 + 1048576" "unat wa + 256 \<le> unat ha"
        using a al(5) sub(5) ba ea ha by (auto split: if_splits)
      have H1: "0 < H" unfolding H_def by simp
      have "unat (wa - 0x100000) < unat wa" using a sub(6) ba ea ha wa by (auto split: if_splits)
      then have ?G using a p ba ea ha wa we H1
        by (simp only: word_less_nat_alt word_le_nat_alt not_less) (intro conjI TrueI; linarith)
      then show False using False by contradiction
    qed
    then show ?thesis using False by (auto simp: run not_le)
  qed
qed

section \<open>Properties\<close>

text \<open>
  C9. For an image of at most 1 GiB the radix table, once filled, maps page \<open>i\<close> of the image to its DMA page for
  every page, through all three levels; a larger image is refused as CAP before anything is written.
  Nothing outside the three tables is touched and the tables keep their lengths.
\<close>

theorem nv_gsp_radix3_fill_translates:
  assumes "0 < unat v" "unat v < 2 ^ 63" "n = (unat v + 4095) div 4096"
    and "8 \<le> length l0" "4096 \<le> length l1" "n * 8 \<le> length l2"
  shows "if unat v \<le> 2 ^ 30
     then \<exists>l0' l1' l2'. nv_gsp_radix3_fill v l0 l1 l2 df d2 d1 = Some (NV_GSP_OK, l0', l1', l2')
        \<and> length l0' = length l0 \<and> length l1' = length l1 \<and> length l2' = length l2
        \<and> (\<forall>i < n. radix3_walk l0' l1' l2' d1 d2 i = Some (df + of_nat i * GSP_PAGE_SIZE))
     else nv_gsp_radix3_fill v l0 l1 l2 df d2 d1 = Some (NV_GSP_ERR_CAP, l0, l1, l2)"
proof (cases "unat v \<le> 2 ^ 30")
  case True
  have n: "n \<le> 262144" using True assms(3) by simp
  obtain l0' l1' l2' where r: "nv_gsp_radix3_fill v l0 l1 l2 df d2 d1 = Some (NV_GSP_OK, l0', l1', l2')"
    "length l0' = length l0" "length l1' = length l1" "length l2' = length l2"
    "ld64 l0' 0 = Some d1" "page_list l1' 0 d2 ((n + 511) div 512)" "page_list l2' 0 df n"
    using radix3_fill_spec [OF assms, of df d2 d1] True by (auto simp: returns_def)
  have "radix3_walk l0' l1' l2' d1 d2 i = Some (df + of_nat i * GSP_PAGE_SIZE)" if "i < n" for i
    by (rule walk_page_lists [OF r(5-7) that n])
  then show ?thesis using True r(1-4) by simp
next
  case False
  then show ?thesis using radix3_fill_spec [OF assms] by simp
qed

theorem nv_gsp_radix3_fill_witness:
  "\<exists>l0' l1' l2'. nv_gsp_radix3_fill 0x201000 (replicate 4096 0) (replicate 4096 0) (replicate 8192 0) 0x10000000 0x2000 0x1000
       = Some (NV_GSP_OK, l0', l1', l2') \<and> radix3_walk l0' l1' l2' 0x1000 0x2000 512 = Some 0x10200000"
proof -
  have c: "0 < unat (0x201000 :: u64)" "unat (0x201000 :: u64) < 2 ^ 63" "(513 :: nat) = (unat (0x201000 :: u64) + 4095) div 4096"
    "8 \<le> length (replicate 4096 (0 :: u8))" "4096 \<le> length (replicate 4096 (0 :: u8))"
    "513 * 8 \<le> length (replicate 8192 (0 :: u8))" "unat (0x201000 :: u64) \<le> 2 ^ 30"
    unfolding length_replicate by simp_all
  obtain l0' l1' l2' where
    r: "nv_gsp_radix3_fill 0x201000 (replicate 4096 0) (replicate 4096 0) (replicate 8192 0) 0x10000000 0x2000 0x1000
       = Some (NV_GSP_OK, l0', l1', l2')"
    and w: "\<forall>i < 513. radix3_walk l0' l1' l2' 0x1000 0x2000 i = Some (0x10000000 + of_nat i * GSP_PAGE_SIZE)"
    using nv_gsp_radix3_fill_translates [OF c(1-6), of "0x10000000" "0x2000" "0x1000", unfolded if_P [OF c(7)]] by blast
  have "radix3_walk l0' l1' l2' 0x1000 0x2000 512 = Some 0x10200000" using w [rule_format, of 512] by simp
  then show ?thesis using r by blast
qed

text \<open>
  C33. An accepted cut of VRAM stacks the regions without overlap: non-WPR heap, WPR2 with the meta block, the
  heap with at least its computed size, the image, the boot loader and FRTS, the last ending WPR2 inside
  the frame buffer, each at its alignment.  With sizes below \<open>2 ^ 62\<close> no subtraction wraps, and the cut
  is refused only when FRTS leaves the frame buffer or less than 4 MiB of slack remain below it.
\<close>

theorem nv_gsp_fb_layout_correct:
  assumes "unat F < 2 ^ 62" "unat A < 2 ^ 62" "unat S < 2 ^ 62" "unat B < 2 ^ 62" "unat E < 2 ^ 62"
    and "F \<noteq> 0" "S \<noteq> 0" "B \<noteq> 0" "E \<noteq> 0"
    and "H = 130023424 + roundup (2 ^ 20) (98304 * ((unat F + (2 ^ 30 - 1)) div 2 ^ 30))"
  shows "case nv_gsp_fb_layout F A S B E of
      Inr l \<Rightarrow> wpr_layout_ok H l \<and> fl_fb_size l = F \<and> fl_frts_addr l = A \<and> fl_frts_size l = S
             \<and> fl_boot_size l = B \<and> fl_elf_size l = E
    | Inl e \<Rightarrow> e = NV_GSP_ERR_BOUNDS \<and> (unat F < unat A + unat S \<or> unat A < unat B + unat E + H + 2 ^ 22)"
  unfolding assms(10) by (rule fb_layout_spec [OF assms(1-9)])

theorem nv_gsp_fb_layout_witness:
  "\<exists>l. nv_gsp_fb_layout 0x300000000 0x2FFE00000 0x100000 0x10000 0x2000000 = Inr l \<and> wpr_layout_ok 132120576 l"
proof -
  have c: "unat (0x300000000 :: u64) < 2 ^ 62" "unat (0x2FFE00000 :: u64) < 2 ^ 62" "unat (0x100000 :: u64) < 2 ^ 62"
    "unat (0x10000 :: u64) < 2 ^ 62" "unat (0x2000000 :: u64) < 2 ^ 62" "(0x300000000 :: u64) \<noteq> 0" "(0x100000 :: u64) \<noteq> 0"
    "(0x10000 :: u64) \<noteq> 0" "(0x2000000 :: u64) \<noteq> 0" by simp_all
  have H: "132120576 = 130023424 + roundup (2 ^ 20) (98304 * ((unat (0x300000000 :: u64) + (2 ^ 30 - 1)) div 2 ^ 30))"
    by (simp add: roundup_def)
  show ?thesis
    using nv_gsp_fb_layout_correct [OF c H] by (auto split: sum.splits)
qed

end
