(* ===== verification/GspFifo.thy ===== *)
theory GspFifo
  imports GspRm
begin

text \<open>
  \<open>driver/gsp/gsp_fifo.c\<close>: the engine table, the GPFIFO channel and its objects, and the command words of a
  copy.  A command buffer the C code fills (\<open>pb[n++] = ...\<close>) is the list of the words written.
\<close>

abbreviation (input) AMPERE_CHANNEL_GPFIFO_A :: u32 where "AMPERE_CHANNEL_GPFIFO_A \<equiv> 0xC56F"
abbreviation (input) NV_GSP_RM_CHANNEL_HANDLE :: u32 where "NV_GSP_RM_CHANNEL_HANDLE \<equiv> 0xF1F00000"
abbreviation (input) NVB0B5_ALLOC_PARAMS_SIZE :: nat where "NVB0B5_ALLOC_PARAMS_SIZE \<equiv> 8"
abbreviation (input) NVB0B5_ALLOC_VERSION_OFF :: nat where "NVB0B5_ALLOC_VERSION_OFF \<equiv> 0"
abbreviation (input) NVB0B5_ALLOC_ENGINETYPE_OFF :: nat where "NVB0B5_ALLOC_ENGINETYPE_OFF \<equiv> 4"
abbreviation (input) NVB0B5_ALLOCATION_PARAMETERS_VERSION_1 :: u32 where "NVB0B5_ALLOCATION_PARAMETERS_VERSION_1 \<equiv> 1"
abbreviation (input) NV_CHANNEL_ALLOC_PARAMS_SIZE :: nat where "NV_CHANNEL_ALLOC_PARAMS_SIZE \<equiv> 360"
abbreviation (input) NV_CHAN_GPFIFOOFFSET_OFF :: nat where "NV_CHAN_GPFIFOOFFSET_OFF \<equiv> 8"
abbreviation (input) NV_CHAN_GPFIFOENTRIES_OFF :: nat where "NV_CHAN_GPFIFOENTRIES_OFF \<equiv> 16"
abbreviation (input) NV_CHAN_FLAGS_OFF :: nat where "NV_CHAN_FLAGS_OFF \<equiv> 20"
abbreviation (input) NV_CHAN_HVASPACE_OFF :: nat where "NV_CHAN_HVASPACE_OFF \<equiv> 28"
abbreviation (input) NV_CHAN_ENGINETYPE_OFF :: nat where "NV_CHAN_ENGINETYPE_OFF \<equiv> 128"
abbreviation (input) NV_CHAN_INSTANCEMEM_OFF :: nat where "NV_CHAN_INSTANCEMEM_OFF \<equiv> 144"
abbreviation (input) NV_CHAN_USERDMEM_OFF :: nat where "NV_CHAN_USERDMEM_OFF \<equiv> 168"
abbreviation (input) NV_CHAN_RAMFCMEM_OFF :: nat where "NV_CHAN_RAMFCMEM_OFF \<equiv> 192"
abbreviation (input) NV_CHAN_MTHDBUFMEM_OFF :: nat where "NV_CHAN_MTHDBUFMEM_OFF \<equiv> 216"
abbreviation (input) NV_MEMDESC_BASE_OFF :: nat where "NV_MEMDESC_BASE_OFF \<equiv> 0"
abbreviation (input) NV_MEMDESC_SIZE_OFF :: nat where "NV_MEMDESC_SIZE_OFF \<equiv> 8"
abbreviation (input) NV_MEMDESC_ADDRSPACE_OFF :: nat where "NV_MEMDESC_ADDRSPACE_OFF \<equiv> 16"
abbreviation (input) NV_MEMDESC_CACHEATTRIB_OFF :: nat where "NV_MEMDESC_CACHEATTRIB_OFF \<equiv> 20"
abbreviation (input) NV_MEMDESC_ADDRSPACE_SYSMEM :: u32 where "NV_MEMDESC_ADDRSPACE_SYSMEM \<equiv> 1"
abbreviation (input) NV_MEMDESC_ADDRSPACE_VIDMEM :: u32 where "NV_MEMDESC_ADDRSPACE_VIDMEM \<equiv> 2"
abbreviation (input) NVOS04_FLAGS_PRIVILEGED_CHANNEL_BIT :: u32 where "NVOS04_FLAGS_PRIVILEGED_CHANNEL_BIT \<equiv> 32"
abbreviation (input) NVOS04_FLAGS_USERD_INDEX_VALUE_SHIFT :: nat where "NVOS04_FLAGS_USERD_INDEX_VALUE_SHIFT \<equiv> 8"
abbreviation (input) NVOS04_FLAGS_USERD_INDEX_PAGE_VALUE_SHIFT :: nat where "NVOS04_FLAGS_USERD_INDEX_PAGE_VALUE_SHIFT \<equiv> 12"
abbreviation (input) NVOS04_FLAGS_USERD_INDEX_PAGE_FIXED_BIT :: u32 where "NVOS04_FLAGS_USERD_INDEX_PAGE_FIXED_BIT \<equiv> 2097152"
abbreviation (input) NVA06F_CTRL_CMD_GPFIFO_SCHEDULE :: u32 where "NVA06F_CTRL_CMD_GPFIFO_SCHEDULE \<equiv> 0xA06F0103"
abbreviation (input) NVA06F_CTRL_CMD_BIND :: u32 where "NVA06F_CTRL_CMD_BIND \<equiv> 0xA06F0104"
abbreviation (input) NVA06F_CTRL_BIND_PARAMS_SIZE :: nat where "NVA06F_CTRL_BIND_PARAMS_SIZE \<equiv> 4"
abbreviation (input) NVA06F_CTRL_SCHEDULE_PARAMS_SIZE :: nat where "NVA06F_CTRL_SCHEDULE_PARAMS_SIZE \<equiv> 2"
abbreviation (input) NV2080_CTRL_CMD_FIFO_GET_DEVICE_INFO_TABLE :: u32 where "NV2080_CTRL_CMD_FIFO_GET_DEVICE_INFO_TABLE \<equiv> 0x20801112"
abbreviation (input) NV_FIFO_DEVINFO_MAX_ENTRIES :: u32 where "NV_FIFO_DEVINFO_MAX_ENTRIES \<equiv> 32"
abbreviation (input) NV_FIFO_DEVINFO_ENTRY_SIZE :: nat where "NV_FIFO_DEVINFO_ENTRY_SIZE \<equiv> 100"
abbreviation (input) NV_FIFO_DEVINFO_BASEINDEX_OFF :: nat where "NV_FIFO_DEVINFO_BASEINDEX_OFF \<equiv> 0"
abbreviation (input) NV_FIFO_DEVINFO_NUMENTRIES_OFF :: nat where "NV_FIFO_DEVINFO_NUMENTRIES_OFF \<equiv> 4"
abbreviation (input) NV_FIFO_DEVINFO_ENTRIES_OFF :: nat where "NV_FIFO_DEVINFO_ENTRIES_OFF \<equiv> 12"
abbreviation (input) ENGINE_INFO_TYPE_ENG_DESC :: nat where "ENGINE_INFO_TYPE_ENG_DESC \<equiv> 0"
abbreviation (input) ENGINE_INFO_TYPE_RM_ENGINE_TYPE :: nat where "ENGINE_INFO_TYPE_RM_ENGINE_TYPE \<equiv> 2"
abbreviation (input) ENGINE_INFO_TYPE_RUNLIST :: nat where "ENGINE_INFO_TYPE_RUNLIST \<equiv> 3"
abbreviation (input) ENGINE_INFO_TYPE_RUNLIST_PRI_BASE :: nat where "ENGINE_INFO_TYPE_RUNLIST_PRI_BASE \<equiv> 11"
abbreviation (input) NVC7B5_SET_SEMAPHORE_A :: u32 where "NVC7B5_SET_SEMAPHORE_A \<equiv> 0x240"
abbreviation (input) NVC7B5_LAUNCH_DMA :: u32 where "NVC7B5_LAUNCH_DMA \<equiv> 0x300"
abbreviation (input) NVC7B5_OFFSET_IN_UPPER :: u32 where "NVC7B5_OFFSET_IN_UPPER \<equiv> 0x400"
abbreviation (input) NVC7B5_LINE_LENGTH_IN :: u32 where "NVC7B5_LINE_LENGTH_IN \<equiv> 0x418"
abbreviation (input) NVC7B5_LD_XFER_NON_PIPELINED :: u32 where "NVC7B5_LD_XFER_NON_PIPELINED \<equiv> 0x2"
abbreviation (input) NVC7B5_LD_FLUSH_ENABLE :: u32 where "NVC7B5_LD_FLUSH_ENABLE \<equiv> 4"
abbreviation (input) NVC7B5_LD_SEM_RELEASE_ONE_WORD :: u32 where "NVC7B5_LD_SEM_RELEASE_ONE_WORD \<equiv> 8"
abbreviation (input) NVC7B5_LD_SRC_LAYOUT_PITCH :: u32 where "NVC7B5_LD_SRC_LAYOUT_PITCH \<equiv> 128"
abbreviation (input) NVC7B5_LD_DST_LAYOUT_PITCH :: u32 where "NVC7B5_LD_DST_LAYOUT_PITCH \<equiv> 256"
abbreviation (input) NVC7B5_LD_DISABLE_PLC :: u32 where "NVC7B5_LD_DISABLE_PLC \<equiv> 67108864"
abbreviation (input) NV_FIFO_SUBCH_COPY :: u32 where "NV_FIFO_SUBCH_COPY \<equiv> 4"
abbreviation (input) NVC56F_SET_OBJECT :: u32 where "NVC56F_SET_OBJECT \<equiv> 0x0"
abbreviation (input) NV906F_CTRL_GET_CLASS_ENGINEID :: u32 where "NV906F_CTRL_GET_CLASS_ENGINEID \<equiv> 0x906F0101"
abbreviation (input) NV906F_CTRL_CLASS_ENGINEID_PARAMS_SIZE :: nat where "NV906F_CTRL_CLASS_ENGINEID_PARAMS_SIZE \<equiv> 16"
abbreviation (input) NVC56F_SEM_ADDR_LO :: u32 where "NVC56F_SEM_ADDR_LO \<equiv> 0x5C"
abbreviation (input) NVC56F_SEM_EXECUTE_OPERATION_RELEASE :: u32 where "NVC56F_SEM_EXECUTE_OPERATION_RELEASE \<equiv> 0x1"
abbreviation (input) NVC56F_SEM_EXECUTE_RELEASE_WFI_EN :: u32 where "NVC56F_SEM_EXECUTE_RELEASE_WFI_EN \<equiv> 1048576"
abbreviation (input) NVC56F_DMA_INCR_OPCODE_VALUE :: u32 where "NVC56F_DMA_INCR_OPCODE_VALUE \<equiv> 0x1"
abbreviation (input) NV_FIFO_DEVINFO_PARAMS_SIZE :: nat where "NV_FIFO_DEVINFO_PARAMS_SIZE \<equiv> 3212"

record nv_gsp_chan_cfg =
  cc_hClient :: u32
  cc_hDevice :: u32
  cc_hVASpace :: u32
  cc_chid :: u32
  cc_engineType :: u32
  cc_gpfifo_va :: u64
  cc_gpfifo_entries :: u32
  cc_inst_phys :: u64
  cc_inst_size :: u64
  cc_userd_phys :: u64
  cc_userd_size :: u64
  cc_ramfc_size :: u64
  cc_mthdbuf_phys :: u64
  cc_mthdbuf_size :: u64
  cc_mthdbuf_sysmem :: u32
  cc_priv :: bool

record nv_gsp_fifo_engn =
  en_eng_desc :: u32
  en_rm_engine_type :: u32
  en_runlist :: u32
  en_runlist_pri_base :: u32

record nv_gsp_fifo_devinfo =
  di_count :: u32
  di_engines :: "nv_gsp_fifo_engn list"

section \<open>The engine table\<close>

definition no_engine :: nv_gsp_fifo_engn where
  "no_engine = \<lparr>en_eng_desc = 0, en_rm_engine_type = 0, en_runlist = 0, en_runlist_pri_base = 0\<rparr>"

definition read_engine :: "u8 list \<Rightarrow> u32 \<Rightarrow> nv_gsp_fifo_engn list \<Rightarrow> nv_gsp_fifo_engn list option" where
  "read_engine p i engines =
     (let e = NV_FIFO_DEVINFO_ENTRIES_OFF + unat i * NV_FIFO_DEVINFO_ENTRY_SIZE in
      do { eng_desc \<leftarrow> ld32 p (e + ENGINE_INFO_TYPE_ENG_DESC * 4);
           rm_engine_type \<leftarrow> ld32 p (e + ENGINE_INFO_TYPE_RM_ENGINE_TYPE * 4);
           runlist \<leftarrow> ld32 p (e + ENGINE_INFO_TYPE_RUNLIST * 4);
           pri_base \<leftarrow> ld32 p (e + ENGINE_INFO_TYPE_RUNLIST_PRI_BASE * 4);
           if unat i < length engines then
             Some (engines[unat i := \<lparr>en_eng_desc = eng_desc, en_rm_engine_type = rm_engine_type,
                                   en_runlist = runlist, en_runlist_pri_base = pri_base\<rparr>])
           else None })"

definition nv_gsp_fifo_get_device_info ::
  "'g gsp_agent \<Rightarrow> 'g nv_gsp_rpc_chan \<Rightarrow> u32 \<Rightarrow> u32 \<Rightarrow> (int \<times> nv_gsp_fifo_devinfo \<times> u32 \<times> 'g nv_gsp_rpc_chan) option" where
  "nv_gsp_fifo_get_device_info ag ch hClient hSubdevice =
     (let out = \<lparr>di_count = 0, di_engines = replicate (unat NV_FIFO_DEVINFO_MAX_ENTRIES) no_engine\<rparr> in
      do { p \<leftarrow> st32 (replicate NV_FIFO_DEVINFO_PARAMS_SIZE 0) NV_FIFO_DEVINFO_BASEINDEX_OFF 0;
           (rc, st', p, ch) \<leftarrow> nv_gsp_rm_control ag ch hClient hSubdevice
              NV2080_CTRL_CMD_FIFO_GET_DEVICE_INFO_TABLE p (of_nat NV_FIFO_DEVINFO_PARAMS_SIZE);
           let st = (case st' of Some s \<Rightarrow> s | None \<Rightarrow> 0xffffffff) in
           if rc \<noteq> NV_GSP_RM_OK then Some (rc, out, st, ch)
           else if st \<noteq> 0 then Some (NV_GSP_RM_ERR_BOUNDS, out, st, ch)
           else do { n0 \<leftarrow> ld32 p NV_FIFO_DEVINFO_NUMENTRIES_OFF;
                     let n = (if n0 > NV_FIFO_DEVINFO_MAX_ENTRIES then NV_FIFO_DEVINFO_MAX_ENTRIES else n0) in
                     do { engines \<leftarrow> for_upto 1 n (read_engine p) 0 (di_engines out);
                          Some (NV_GSP_RM_OK, \<lparr>di_count = n, di_engines = engines\<rparr>, st, ch) } } })"

definition nv_gsp_fifo_find_engine :: "nv_gsp_fifo_devinfo \<Rightarrow> u32 \<Rightarrow> int option" where
  "nv_gsp_fifo_find_engine di rm_engine_type =
     do { r \<leftarrow> find_upto (di_count di) (\<lambda>i. if unat i < length (di_engines di) then
                  Some (if en_rm_engine_type (di_engines di ! unat i) = rm_engine_type then Some (uint i) else None)
                else None) 0;
          Some (case r of Some i \<Rightarrow> i | None \<Rightarrow> -1) }"

section \<open>The channel\<close>

definition wr_memdesc :: "nat \<Rightarrow> u64 \<Rightarrow> u64 \<Rightarrow> u32 \<Rightarrow> u32 \<Rightarrow> (nat \<times> cell) list" where
  "wr_memdesc off base bytes addrspace cacheattrib =
     [(off + NV_MEMDESC_BASE_OFF, W64 base), (off + NV_MEMDESC_SIZE_OFF, W64 bytes),
      (off + NV_MEMDESC_ADDRSPACE_OFF, W32 addrspace), (off + NV_MEMDESC_CACHEATTRIB_OFF, W32 cacheattrib)]"

definition channel_flags :: "nv_gsp_chan_cfg \<Rightarrow> u32" where
  "channel_flags cfg =
     (let userd_i = cc_chid cfg mod 8; userd_p = cc_chid cfg div 8;
          flags = NVOS04_FLAGS_USERD_INDEX_PAGE_FIXED_BIT
                  OR push_bit NVOS04_FLAGS_USERD_INDEX_VALUE_SHIFT userd_i
                  OR push_bit NVOS04_FLAGS_USERD_INDEX_PAGE_VALUE_SHIFT userd_p
      in if cc_priv cfg then flags OR NVOS04_FLAGS_PRIVILEGED_CHANNEL_BIT else flags)"

definition channel_cells :: "nv_gsp_chan_cfg \<Rightarrow> (nat \<times> cell) list" where
  "channel_cells cfg =
     (let as' = (if cc_mthdbuf_sysmem cfg \<noteq> 0 then NV_MEMDESC_ADDRSPACE_SYSMEM else NV_MEMDESC_ADDRSPACE_VIDMEM);
          ca = (if cc_mthdbuf_sysmem cfg \<noteq> 0 then 0 else 1)
      in [(NV_CHAN_GPFIFOOFFSET_OFF, W64 (cc_gpfifo_va cfg)), (NV_CHAN_GPFIFOENTRIES_OFF, W32 (cc_gpfifo_entries cfg)),
          (NV_CHAN_FLAGS_OFF, W32 (channel_flags cfg)), (NV_CHAN_HVASPACE_OFF, W32 (cc_hVASpace cfg)),
          (NV_CHAN_ENGINETYPE_OFF, W32 (cc_engineType cfg))]
         @ wr_memdesc NV_CHAN_INSTANCEMEM_OFF (cc_inst_phys cfg) (cc_inst_size cfg) NV_MEMDESC_ADDRSPACE_VIDMEM 1
         @ wr_memdesc NV_CHAN_USERDMEM_OFF (cc_userd_phys cfg) (cc_userd_size cfg) NV_MEMDESC_ADDRSPACE_VIDMEM 1
         @ wr_memdesc NV_CHAN_RAMFCMEM_OFF (cc_inst_phys cfg)
             (if cc_ramfc_size cfg \<noteq> 0 then cc_ramfc_size cfg else 0x200) NV_MEMDESC_ADDRSPACE_VIDMEM 1
         @ wr_memdesc NV_CHAN_MTHDBUFMEM_OFF (cc_mthdbuf_phys cfg) (cc_mthdbuf_size cfg) as' ca)"

definition nv_gsp_rm_channel_alloc ::
  "'g gsp_agent \<Rightarrow> 'g nv_gsp_rpc_chan \<Rightarrow> nv_gsp_chan_cfg \<Rightarrow> (int \<times> u32 option \<times> u32 option \<times> 'g nv_gsp_rpc_chan) option" where
  "nv_gsp_rm_channel_alloc ag ch cfg =
     (let h = NV_GSP_RM_CHANNEL_HANDLE OR cc_chid cfg in
      do { p \<leftarrow> stores (replicate NV_CHANNEL_ALLOC_PARAMS_SIZE 0) 0 (channel_cells cfg);
           r \<leftarrow> nv_gsp_rm_alloc ag ch (cc_hClient cfg) (cc_hDevice cfg) h AMPERE_CHANNEL_GPFIFO_A p
                  (of_nat NV_CHANNEL_ALLOC_PARAMS_SIZE);
           Some (ctor_result h r) })"

definition nv_gsp_rm_channel_bind ::
  "'g gsp_agent \<Rightarrow> 'g nv_gsp_rpc_chan \<Rightarrow> u32 \<Rightarrow> u32 \<Rightarrow> u32 \<Rightarrow> (int \<times> u32 option \<times> 'g nv_gsp_rpc_chan) option" where
  "nv_gsp_rm_channel_bind ag ch hClient hChannel engineType =
     do { (rc, status, _, ch) \<leftarrow> nv_gsp_rm_control ag ch hClient hChannel NVA06F_CTRL_CMD_BIND
              (bytes32 engineType) (of_nat NVA06F_CTRL_BIND_PARAMS_SIZE);
          Some (rc, status, ch) }"

definition nv_gsp_rm_channel_schedule ::
  "'g gsp_agent \<Rightarrow> 'g nv_gsp_rpc_chan \<Rightarrow> u32 \<Rightarrow> u32 \<Rightarrow> bool \<Rightarrow> (int \<times> u32 option \<times> 'g nv_gsp_rpc_chan) option" where
  "nv_gsp_rm_channel_schedule ag ch hClient hChannel enable =
     do { p \<leftarrow> stores (replicate NVA06F_CTRL_SCHEDULE_PARAMS_SIZE 0) 0 [(0, B8 (if enable then 1 else 0)), (1, B8 0)];
          (rc, status, _, ch) \<leftarrow> nv_gsp_rm_control ag ch hClient hChannel NVA06F_CTRL_CMD_GPFIFO_SCHEDULE
              p (of_nat NVA06F_CTRL_SCHEDULE_PARAMS_SIZE);
          Some (rc, status, ch) }"

definition nv_gsp_rm_engine_obj_alloc ::
  "'g gsp_agent \<Rightarrow> 'g nv_gsp_rpc_chan \<Rightarrow> u32 \<Rightarrow> u32 \<Rightarrow> u32 \<Rightarrow> u32 \<Rightarrow> (int \<times> u32 option \<times> 'g nv_gsp_rpc_chan) option" where
  "nv_gsp_rm_engine_obj_alloc ag ch hClient hChannel hObject engineClass =
     do { (rc, status, _, ch) \<leftarrow> nv_gsp_rm_alloc ag ch hClient hChannel hObject engineClass [] 0;
          Some (rc, status, ch) }"

definition nv_gsp_rm_ce_obj_alloc ::
  "'g gsp_agent \<Rightarrow> 'g nv_gsp_rpc_chan \<Rightarrow> u32 \<Rightarrow> u32 \<Rightarrow> u32 \<Rightarrow> u32 \<Rightarrow> u32 \<Rightarrow> (int \<times> u32 option \<times> 'g nv_gsp_rpc_chan) option" where
  "nv_gsp_rm_ce_obj_alloc ag ch hClient hChannel hObject engineClass engineType =
     do { p \<leftarrow> stores (replicate NVB0B5_ALLOC_PARAMS_SIZE 0) 0
               [(NVB0B5_ALLOC_VERSION_OFF, W32 NVB0B5_ALLOCATION_PARAMETERS_VERSION_1), (NVB0B5_ALLOC_ENGINETYPE_OFF, W32 engineType)];
          (rc, status, _, ch) \<leftarrow> nv_gsp_rm_alloc ag ch hClient hChannel hObject engineClass p (of_nat NVB0B5_ALLOC_PARAMS_SIZE);
          Some (rc, status, ch) }"

definition nv_gsp_fifo_get_class_engineid ::
  "'g gsp_agent \<Rightarrow> 'g nv_gsp_rpc_chan \<Rightarrow> u32 \<Rightarrow> u32 \<Rightarrow> u32 \<Rightarrow> (int \<times> u32 \<times> u32 option \<times> 'g nv_gsp_rpc_chan) option" where
  "nv_gsp_fifo_get_class_engineid ag ch hClient hChannel hObject =
     do { p \<leftarrow> st32 (replicate NV906F_CTRL_CLASS_ENGINEID_PARAMS_SIZE 0) 0 hObject;
          (rc, status, p, ch) \<leftarrow> nv_gsp_rm_control ag ch hClient hChannel NV906F_CTRL_GET_CLASS_ENGINEID
              p (of_nat NV906F_CTRL_CLASS_ENGINEID_PARAMS_SIZE);
          class_engine_id \<leftarrow> ld32 p 4;
          Some (rc, class_engine_id, status, ch) }"

section \<open>Command words\<close>

definition nv_gsp_fifo_build_sem_release :: "u64 \<Rightarrow> u32 \<Rightarrow> u32 list" where
  "nv_gsp_fifo_build_sem_release sem_va payload =
     [push_bit 29 NVC56F_DMA_INCR_OPCODE_VALUE OR push_bit 16 5 OR push_bit 13 0 OR (drop_bit 2 NVC56F_SEM_ADDR_LO AND 0xfff),
      ucast (sem_va AND 0xfffffffc), ucast (drop_bit 32 sem_va AND 0xff), payload, 0,
      NVC56F_SEM_EXECUTE_OPERATION_RELEASE OR NVC56F_SEM_EXECUTE_RELEASE_WFI_EN]"

definition pb_hdr :: "u32 \<Rightarrow> u32 \<Rightarrow> u32 \<Rightarrow> u32" where
  "pb_hdr subch mthd cnt =
     push_bit 29 NVC56F_DMA_INCR_OPCODE_VALUE OR push_bit 16 (cnt AND 0x1fff)
     OR push_bit 13 (subch AND 7) OR (drop_bit 2 mthd AND 0xfff)"

definition nv_gsp_fifo_build_ce_copy :: "u32 \<Rightarrow> u64 \<Rightarrow> u64 \<Rightarrow> u32 \<Rightarrow> u64 \<Rightarrow> u32 \<Rightarrow> u32 list" where
  "nv_gsp_fifo_build_ce_copy class_engine_id src_va dst_va bytes sem_va payload =
     (let sc = NV_FIFO_SUBCH_COPY in
      (if class_engine_id \<noteq> 0 then [pb_hdr sc NVC56F_SET_OBJECT 1, class_engine_id] else [])
      @ [pb_hdr sc NVC7B5_SET_SEMAPHORE_A 3, ucast (drop_bit 32 sem_va AND 0x1ffff), ucast (sem_va AND 0xffffffff), payload]
      @ [pb_hdr sc NVC7B5_OFFSET_IN_UPPER 4, ucast (drop_bit 32 src_va AND 0x1ffff), ucast (src_va AND 0xffffffff),
         ucast (drop_bit 32 dst_va AND 0x1ffff), ucast (dst_va AND 0xffffffff)]
      @ [pb_hdr sc NVC7B5_LINE_LENGTH_IN 1, bytes]
      @ [pb_hdr sc NVC7B5_LAUNCH_DMA 1,
         NVC7B5_LD_XFER_NON_PIPELINED OR NVC7B5_LD_FLUSH_ENABLE OR NVC7B5_LD_SEM_RELEASE_ONE_WORD
         OR NVC7B5_LD_SRC_LAYOUT_PITCH OR NVC7B5_LD_DST_LAYOUT_PITCH OR NVC7B5_LD_DISABLE_PLC])"

definition nv_gsp_fifo_gpfifo_entry :: "u64 \<Rightarrow> u32 \<Rightarrow> u32 \<times> u32" where
  "nv_gsp_fifo_gpfifo_entry pb_va pb_dwords =
     (ucast (pb_va AND 0xfffffffc), ucast (drop_bit 32 pb_va AND 0xff) OR push_bit 10 (pb_dwords AND 0x1fffff))"

section \<open>Decoding of command words\<close>

text \<open>
  How the host reads a command buffer: a header word names opcode, count, subchannel and first method; the
  words behind it go to consecutive methods.  The result lists (subchannel, method, value); a buffer that is
  cut short or has another opcode is rejected.
\<close>

fun methods :: "u32 list \<Rightarrow> (nat \<times> nat \<times> u32) list option" where
  "methods [] = Some []"
| "methods (h # ws) =
     (let c = unat (drop_bit 16 h AND 0x1fff); sub = unat (drop_bit 13 h AND 7); a = unat (h AND 0xfff) * 4 in
      if drop_bit 29 h \<noteq> 1 \<or> length ws < c then None
      else map_option ((@) (map (\<lambda>i. (sub, a + 4 * i, ws ! i)) [0..<c])) (methods (drop c ws)))"

text \<open>The address a pair of method values stands for.\<close>

definition va_of :: "u32 \<Rightarrow> u32 \<Rightarrow> nat" where
  "va_of hi lo = unat hi * 2 ^ 32 + unat lo"

lemma mask_and: "unat (w AND 0xffffffff :: u64) = unat w mod 2 ^ 32" "unat (w AND 0x1ffff :: u64) = unat w mod 2 ^ 17"
  "unat (w AND 0xff :: u64) = unat w mod 2 ^ 8"
proof -
  have "(0xffffffff :: u64) = mask 32" "(0x1ffff :: u64) = mask 17" "(0xff :: u64) = mask 8" by (simp_all add: mask_eq_exp_minus_1)
  then show "unat (w AND 0xffffffff :: u64) = unat w mod 2 ^ 32" "unat (w AND 0x1ffff :: u64) = unat w mod 2 ^ 17"
    "unat (w AND 0xff :: u64) = unat w mod 2 ^ 8"
    by (simp_all only: take_bit_eq_mask [symmetric] unsigned_take_bit_eq take_bit_eq_mod [where 'a = nat])
qed

lemma unat_lo: "unat (ucast (w AND 0xffffffff :: u64) :: u32) = unat w mod 2 ^ 32"
  by (simp add: unat_ucast_mod mask_and)

lemma unat_hi: "unat (ucast (drop_bit 32 w AND 0x1ffff :: u64) :: u32) = unat w div 2 ^ 32 mod 2 ^ 17"
  by (simp add: unat_ucast_mod mask_and unat_drop_bit mod_mod_trivial less_imp_le)

lemma va_of_split: "unat (w :: u64) < 2 ^ 49 \<Longrightarrow> va_of (ucast (drop_bit 32 w AND 0x1ffff)) (ucast (w AND 0xffffffff)) = unat w"
proof -
  assume w: "unat w < 2 ^ 49"
  then have "unat w div 2 ^ 32 mod 2 ^ 17 = unat w div 2 ^ 32" by simp
  then show ?thesis unfolding va_of_def unat_lo unat_hi by (simp only: div_mult_mod_eq)
qed

text \<open>The methods of a copy: class, semaphore, addresses, length, launch.\<close>

definition ce_launch :: u32 where
  "ce_launch = 0x400018E"

lemma ce_copy_methods:
  "methods (nv_gsp_fifo_build_ce_copy cls src dst bytes sem payload) = Some (
     (if cls \<noteq> 0 then [(4, 0x000, cls)] else [])
     @ [(4, 0x240, ucast (drop_bit 32 sem AND 0x1ffff)), (4, 0x244, ucast (sem AND 0xffffffff)), (4, 0x248, payload),
        (4, 0x400, ucast (drop_bit 32 src AND 0x1ffff)), (4, 0x404, ucast (src AND 0xffffffff)),
        (4, 0x408, ucast (drop_bit 32 dst AND 0x1ffff)), (4, 0x40C, ucast (dst AND 0xffffffff)),
        (4, 0x418, bytes), (4, 0x300, ce_launch)])"
proof -
  have upt: "[0..<3] = [0, 1, 2 :: nat]" "[0..<4] = [0, 1, 2, 3 :: nat]" by code_simp+
  show ?thesis by (simp add: nv_gsp_fifo_build_ce_copy_def pb_hdr_def ce_launch_def upt Let_def)
qed

text \<open>How the host reads a GPFIFO entry: address bits 2 to 39, length in words.\<close>

definition entry_va :: "u32 \<times> u32 \<Rightarrow> nat" where
  "entry_va e = unat (snd e AND 0xff) * 2 ^ 32 + unat (fst e AND NOT 3)"

definition entry_len :: "u32 \<times> u32 \<Rightarrow> nat" where
  "entry_len e = unat (drop_bit 10 (snd e) AND 0x1fffff)"

lemma gpfifo_entry_decodes:
  assumes va: "unat va < 2 ^ 40" "4 dvd unat va" and n: "unat n < 2 ^ 21"
  shows "entry_va (nv_gsp_fifo_gpfifo_entry va n) = unat va" "entry_len (nv_gsp_fifo_gpfifo_entry va n) = unat n"
proof -
  let ?e0 = "ucast (va AND 0xfffffffc) :: u32"
  let ?e1 = "ucast (drop_bit 32 va AND 0xff) OR push_bit 10 (n AND 0x1fffff) :: u32"
  have m: "(0xff :: u32) = mask 8" "(0xff :: u64) = mask 8" "(0x1fffff :: u32) = mask 21" "(3 :: u32) = mask 2"
    by (simp_all add: mask_eq_exp_minus_1)
  have low: "va AND 0xfffffffc = (va AND 0xffffffff) AND NOT 3"
  proof -
    have "(0xfffffffc :: u64) = 0xffffffff AND NOT 3" by simp
    then show ?thesis by (metis and.assoc)
  qed
  have e0: "unat (?e0 AND NOT 3) = unat va mod 2 ^ 32"
  proof -
    have "unat (va AND 0xfffffffc) = unat va mod 2 ^ 32"
    proof -
      have "unat ((va AND 0xffffffff) AND NOT (mask 2)) = unat va mod 2 ^ 32 div 4 * 4"
        unfolding unat_and_not_mask mask_and(1) by simp
      moreover have "4 dvd unat va mod 2 ^ 32" using va(2) by (simp add: dvd_mod)
      moreover have "(3 :: u64) = mask 2" by (simp add: mask_eq_exp_minus_1)
      ultimately show ?thesis unfolding low by simp
    qed
    then have "unat ?e0 = unat va mod 2 ^ 32" by (simp add: unat_ucast_mod)
    then show ?thesis unfolding m(4) unat_and_not_mask using va(2) by (simp add: dvd_mod dvd_div_mult_self)
  qed
  have hi: "?e1 AND 0xff = ucast (drop_bit 32 va AND 0xff)"
    unfolding m by (rule bit_word_eqI) (auto simp: bit_and_iff bit_or_iff bit_mask_iff bit_push_bit_iff bit_unsigned_iff)
  have "unat (ucast (drop_bit 32 va AND 0xff) :: u32) = unat va div 2 ^ 32"
    using va(1) by (simp add: unat_ucast_mod mask_and unat_drop_bit)
  then show "entry_va (nv_gsp_fifo_gpfifo_entry va n) = unat va"
    by (simp only: entry_va_def nv_gsp_fifo_gpfifo_entry_def fst_conv snd_conv hi e0 div_mult_mod_eq)
  have "drop_bit 10 ?e1 AND 0x1fffff = n AND 0x1fffff"
    unfolding m by (rule bit_word_eqI)
      (auto simp: bit_and_iff bit_or_iff bit_mask_iff bit_push_bit_iff bit_unsigned_iff bit_drop_bit_eq)
  also have "\<dots> = n"
  proof -
    have "take_bit 21 (unat n) = unat n" using n by (simp add: take_bit_nat_eq_self)
    then show ?thesis unfolding m take_bit_eq_mask [symmetric] by (metis unsigned_take_bit_eq unsigned_word_eqI)
  qed
  finally show "entry_len (nv_gsp_fifo_gpfifo_entry va n) = unat n"
    by (simp only: entry_len_def nv_gsp_fifo_gpfifo_entry_def snd_conv)
qed

section \<open>Properties\<close>

text \<open>
  C18. What the host executes for a copy is what was asked: the GPFIFO entry names the command buffer and its
  length, and decoding the buffer yields the class (when given), the semaphore with its payload, source,
  destination and length on the copy subchannel, and the launch as the last method.  The buffer has at
  most 15 words.
\<close>

theorem nv_gsp_fifo_copy_decodes:
  assumes "unat src < 2 ^ 49" "unat dst < 2 ^ 49" "unat sem < 2 ^ 49" "unat pb_va < 2 ^ 40" "4 dvd unat pb_va"
    and "pb = nv_gsp_fifo_build_ce_copy cls src dst bytes sem payload"
  shows "\<exists>sh sl ah al dh dl. methods pb = Some ((if cls = 0 then [] else [(4, 0x000, cls)])
       @ [(4, 0x240, sh), (4, 0x244, sl), (4, 0x248, payload), (4, 0x400, ah), (4, 0x404, al),
          (4, 0x408, dh), (4, 0x40C, dl), (4, 0x418, bytes), (4, 0x300, ce_launch)])
     \<and> va_of sh sl = unat sem \<and> va_of ah al = unat src \<and> va_of dh dl = unat dst
     \<and> length pb \<le> 15 \<and> entry_va (nv_gsp_fifo_gpfifo_entry pb_va (of_nat (length pb))) = unat pb_va
     \<and> entry_len (nv_gsp_fifo_gpfifo_entry pb_va (of_nat (length pb))) = length pb"
proof -
  have l: "length pb \<le> 15" by (simp add: assms(6) nv_gsp_fifo_build_ce_copy_def Let_def)
  then have u: "unat (of_nat (length pb) :: u32) = length pb" by (simp add: unat_of_nat_small)
  then have n: "unat (of_nat (length pb) :: u32) < 2 ^ 21" using l by simp
  show ?thesis
    using ce_copy_methods [of cls src dst bytes sem payload, folded assms(6)] l gpfifo_entry_decodes [OF assms(4,5) n]
      va_of_split [OF assms(1)] va_of_split [OF assms(2)] va_of_split [OF assms(3)]
    unfolding u by (intro exI conjI) (simp_all split: if_splits)
qed

theorem nv_gsp_fifo_copy_witness:
  "\<exists>ms. methods (nv_gsp_fifo_build_ce_copy 0xC7B5 0x1000000 0x2000000 4096 0x3000 0xC0DE0001) = Some ms"
proof -
  have c: "unat (0x1000000 :: u64) < 2 ^ 49" "unat (0x2000000 :: u64) < 2 ^ 49" "unat (0x3000 :: u64) < 2 ^ 49"
    "unat (0x5000 :: u64) < 2 ^ 40" "4 dvd unat (0x5000 :: u64)" by simp_all
  show ?thesis using nv_gsp_fifo_copy_decodes [OF c refl, of "0xC7B5" 4096 "0xC0DE0001"] by blast
qed

end
