(* ===== verification/GspGr.thy ===== *)
theory GspGr
  imports GspRm
begin

text \<open>
  \<open>driver/gsp/gsp_gr.c\<close>: sizes of the graphics context buffers and the interrupt vector table, both read
  from the private handles of GSP.
\<close>

abbreviation (input) NV2080_CTRL_CMD_INTERNAL_STATIC_KGR_GET_CONTEXT_BUFFERS_INFO :: u32 where "NV2080_CTRL_CMD_INTERNAL_STATIC_KGR_GET_CONTEXT_BUFFERS_INFO \<equiv> 0x20800A32"
abbreviation (input) NV_GR_CTXBUF_PARAMS_SIZE :: nat where "NV_GR_CTXBUF_PARAMS_SIZE \<equiv> 1600"
abbreviation (input) NV_GR_CTXBUF_MAX_ENGINES :: u32 where "NV_GR_CTXBUF_MAX_ENGINES \<equiv> 8"
abbreviation (input) NV_GR_CTXBUF_MAX_IDS :: u32 where "NV_GR_CTXBUF_MAX_IDS \<equiv> 25"
abbreviation (input) NV_GR_CTXBUF_ENGINE_STRIDE :: nat where "NV_GR_CTXBUF_ENGINE_STRIDE \<equiv> 200"
abbreviation (input) NV2080_CTRL_CMD_INTERNAL_INTR_GET_KERNEL_TABLE :: u32 where "NV2080_CTRL_CMD_INTERNAL_INTR_GET_KERNEL_TABLE \<equiv> 0x20800A5C"
abbreviation (input) NV_INTR_TABLE_PARAMS_SIZE :: nat where "NV_INTR_TABLE_PARAMS_SIZE \<equiv> 2068"
abbreviation (input) NV_INTR_TABLE_MAX_ENTRIES :: u32 where "NV_INTR_TABLE_MAX_ENTRIES \<equiv> 128"
abbreviation (input) NV_INTR_TABLE_ENTRY_STRIDE :: nat where "NV_INTR_TABLE_ENTRY_STRIDE \<equiv> 16"

record nv_gsp_gr_ctxbuf =
  cb_size :: u32
  cb_alignment :: u32

record nv_gsp_gr_ctxbufs =
  cx_buf :: "nv_gsp_gr_ctxbuf list"
  cx_count_nonzero :: u32

record nv_gsp_intr_entry =
  ie_engine_idx :: u16
  ie_pmc_intr_mask :: u32
  ie_vector_stall :: u32
  ie_vector_nonstall :: u32

record nv_gsp_intr_table =
  it_count :: u32
  it_entry :: "nv_gsp_intr_entry list"

definition read_ctxbuf :: "u8 list \<Rightarrow> nat \<Rightarrow> u32 \<Rightarrow> nv_gsp_gr_ctxbufs \<Rightarrow> nv_gsp_gr_ctxbufs option" where
  "read_ctxbuf params eng i out =
     do { sz \<leftarrow> ld32 params (eng + unat i * 8); al \<leftarrow> ld32 params (eng + unat i * 8 + 4);
          if unat i < length (cx_buf out) then
            Some (out\<lparr>cx_buf := (cx_buf out)[unat i := \<lparr>cb_size = sz, cb_alignment = al\<rparr>],
                      cx_count_nonzero := (if sz \<noteq> 0 then cx_count_nonzero out + 1 else cx_count_nonzero out)\<rparr>)
          else None }"

definition nv_gsp_gr_parse_ctxbuf_info :: "u8 list \<Rightarrow> u32 \<Rightarrow> nv_gsp_gr_ctxbufs \<Rightarrow> nv_gsp_gr_ctxbufs option" where
  "nv_gsp_gr_parse_ctxbuf_info params gr_index out =
     (if gr_index \<ge> NV_GR_CTXBUF_MAX_ENGINES then Some out
      else for_upto 1 NV_GR_CTXBUF_MAX_IDS (read_ctxbuf params (unat gr_index * NV_GR_CTXBUF_ENGINE_STRIDE)) 0
             (out\<lparr>cx_count_nonzero := 0\<rparr>))"

definition nv_gsp_gr_get_ctxbuf_info ::
  "'g gsp_agent \<Rightarrow> 'g nv_gsp_rpc_chan \<Rightarrow> u32 \<Rightarrow> u32 \<Rightarrow> u32 \<Rightarrow> nv_gsp_gr_ctxbufs \<Rightarrow>
   (int \<times> nv_gsp_gr_ctxbufs \<times> u32 option \<times> 'g nv_gsp_rpc_chan) option" where
  "nv_gsp_gr_get_ctxbuf_info ag ch hIntClient hIntSubdevice gr_index out =
     (if gr_index \<ge> NV_GR_CTXBUF_MAX_ENGINES then Some (NV_GSP_RM_ERR_ARG, out, None, ch)
      else do { (rc, status, p, ch) \<leftarrow> nv_gsp_rm_control ag ch hIntClient hIntSubdevice
                   NV2080_CTRL_CMD_INTERNAL_STATIC_KGR_GET_CONTEXT_BUFFERS_INFO
                   (replicate NV_GR_CTXBUF_PARAMS_SIZE 0) (of_nat NV_GR_CTXBUF_PARAMS_SIZE);
                out \<leftarrow> nv_gsp_gr_parse_ctxbuf_info p gr_index out;
                let out = (if rc \<noteq> NV_GSP_RM_OK
                           then out\<lparr>cx_buf := replicate (length (cx_buf out)) \<lparr>cb_size = 0, cb_alignment = 0\<rparr>,
                                    cx_count_nonzero := 0\<rparr> else out)
                in Some (rc, out, status, ch) })"

definition read_intr_entry :: "u8 list \<Rightarrow> u32 \<Rightarrow> nv_gsp_intr_entry list \<Rightarrow> nv_gsp_intr_entry list option" where
  "read_intr_entry params i es =
     (let e = 4 + unat i * NV_INTR_TABLE_ENTRY_STRIDE in
      do { idx \<leftarrow> ld16 params e; msk \<leftarrow> ld32 params (e + 4); stall \<leftarrow> ld32 params (e + 8); nonstall \<leftarrow> ld32 params (e + 12);
           if unat i < length es then
             Some (es[unat i := \<lparr>ie_engine_idx = idx, ie_pmc_intr_mask = msk, ie_vector_stall = stall,
                                 ie_vector_nonstall = nonstall\<rparr>])
           else None })"

definition nv_gsp_intr_parse_table :: "u8 list \<Rightarrow> nv_gsp_intr_table \<Rightarrow> nv_gsp_intr_table option" where
  "nv_gsp_intr_parse_table params out =
     do { n0 \<leftarrow> ld32 params 0;
          let n = (if n0 > NV_INTR_TABLE_MAX_ENTRIES then NV_INTR_TABLE_MAX_ENTRIES else n0) in
          do { es \<leftarrow> for_upto 1 n (read_intr_entry params) 0 (it_entry out);
               Some \<lparr>it_count = n, it_entry = es\<rparr> } }"

definition nv_gsp_intr_get_table ::
  "'g gsp_agent \<Rightarrow> 'g nv_gsp_rpc_chan \<Rightarrow> u32 \<Rightarrow> u32 \<Rightarrow> nv_gsp_intr_table \<Rightarrow>
   (int \<times> nv_gsp_intr_table \<times> u32 option \<times> 'g nv_gsp_rpc_chan) option" where
  "nv_gsp_intr_get_table ag ch hIntClient hIntSubdevice out =
     do { (rc, status, p, ch) \<leftarrow> nv_gsp_rm_control ag ch hIntClient hIntSubdevice
              NV2080_CTRL_CMD_INTERNAL_INTR_GET_KERNEL_TABLE
              (replicate NV_INTR_TABLE_PARAMS_SIZE 0) (of_nat NV_INTR_TABLE_PARAMS_SIZE);
          if rc \<noteq> NV_GSP_RM_OK then Some (rc, out\<lparr>it_count := 0\<rparr>, status, ch)
          else do { out \<leftarrow> nv_gsp_intr_parse_table p (out\<lparr>it_count := 0\<rparr>); Some (rc, out, status, ch) } }"

section \<open>The interrupt table\<close>

text \<open>What the table of an answer says: entry \<open>i\<close> as the words at its stride.\<close>

definition intr_entry_at :: "u8 list \<Rightarrow> nat \<Rightarrow> nv_gsp_intr_entry \<Rightarrow> bool" where
  "intr_entry_at p i e \<longleftrightarrow>
     ld16 p (4 + i * 16) = Some (ie_engine_idx e) \<and> ld32 p (8 + i * 16) = Some (ie_pmc_intr_mask e)
     \<and> ld32 p (12 + i * 16) = Some (ie_vector_stall e) \<and> ld32 p (16 + i * 16) = Some (ie_vector_nonstall e)"

lemma intr_parse_ok:
  assumes p: "length p = 2068" and out: "length (it_entry out) = 128"
  shows "returns (nv_gsp_intr_parse_table p out) (\<lambda>t. length (it_entry t) = 128 \<and> unat (it_count t) \<le> 128
     \<and> (\<forall>n. ld32 p 0 = Some n \<longrightarrow> unat (it_count t) = min 128 (unat n))
     \<and> (\<forall>i < unat (it_count t). intr_entry_at p i (it_entry t ! i))
     \<and> (\<forall>i. unat (it_count t) \<le> i \<longrightarrow> it_entry t ! i = it_entry out ! i))"
proof -
  have loop: "returns (for_upto 1 n (read_intr_entry p) 0 (it_entry out)) (\<lambda>es. length es = 128
      \<and> (\<forall>i < unat n. intr_entry_at p i (es ! i)) \<and> (\<forall>i. unat n \<le> i \<longrightarrow> es ! i = it_entry out ! i))"
    if n: "unat (n :: u32) \<le> 128" for n
  proof (rule returns_mono [OF ret_for_upto [where n = "unat n" and P = "\<lambda>k es. length es = 128
      \<and> (\<forall>i < k. intr_entry_at p i (es ! i)) \<and> (\<forall>i. k \<le> i \<longrightarrow> es ! i = it_entry out ! i)"]])
    show "unat n + unat (1 :: u32) \<le> 2 ^ LENGTH(32)" using n by simp
    fix k es
    assume k: "k < unat n" and P: "length es = 128 \<and> (\<forall>i < k. intr_entry_at p i (es ! i))
        \<and> (\<forall>i. k \<le> i \<longrightarrow> es ! i = it_entry out ! i)"
    have u: "unat (of_nat k * 1 :: u32) = k" using k n by (simp add: unat_of_nat_small)
    have "k * 16 + 20 \<le> 2068" using k n by simp
    then show "returns (read_intr_entry p (of_nat k * 1) es) (\<lambda>es. length es = 128
        \<and> (\<forall>i < Suc k. intr_entry_at p i (es ! i)) \<and> (\<forall>i. Suc k \<le> i \<longrightarrow> es ! i = it_entry out ! i))"
      unfolding read_intr_entry_def u Let_def using P k n p
      by (intro ret_rules) (auto simp: intr_entry_at_def nth_list_update less_Suc_eq simp del: ld32_Some ld16_Some)
  qed (use out in auto)
  have l: "0 + 4 \<le> length p" using p by simp
  show ?thesis
    unfolding nv_gsp_intr_parse_table_def
    apply (rule ret_ld32 [OF l])
    apply (rule ret_let)
    apply (rule ret_bind [OF loop])
    subgoal by (auto simp: word_less_nat_alt not_less)
    subgoal by (rule ret_Some) (auto simp: word_less_nat_alt not_less min_def)
    done
qed

end
