(* ===== verification/GspService.thy ===== *)
theory GspService
  imports GspRm
begin

text \<open>
  The interface to GSP-RM.  \<open>rpc_service\<close> is what the functions of \<open>gsp_rm.c\<close>, \<open>gsp_fifo.c\<close>, \<open>gsp_gr.c\<close> and
  \<open>gsp_disp.c\<close> need of a call: it returns, its answer fits the capacity, and it keeps a property \<open>Q\<close> of the channel
  that the user chooses.  One proof per function then gives that it returns, that the channel stays usable and
  whatever else \<open>Q\<close> says.
\<close>

section \<open>Calls\<close>

lemma length_stores: "stores b p fs = Some b' \<Longrightarrow> length b' = length b"
  by (induction fs arbitrary: b) (auto simp: bind_eq_Some_conv wr_bytes_Some_iff)

lemma ret_stores_len: "list_all (\<lambda>f. p + cell_end f \<le> length b) fs \<Longrightarrow> returns (stores b p fs) (\<lambda>b'. length b' = length b)"
  using stores_total [of p b fs] length_stores by (auto simp: returns_def)

lemma ret_stores:
  "list_all (\<lambda>f. p + cell_end f \<le> length b) fs \<Longrightarrow> (\<And>b'. length b' = length b \<Longrightarrow> returns (f b') R) \<Longrightarrow>
   returns (stores b p fs \<bind> f) R"
  by (rule ret_bind [OF ret_stores_len])

text \<open>Static information whose region count fits its array.\<close>

definition info_ok :: "nv_gsp_static_info \<Rightarrow> bool" where
  "info_ok si \<longleftrightarrow> unat (si_num_regions si) \<le> 16 \<and> length (si_regions si) = 16"

locale rpc_service =
  fixes ag :: "'g gsp_agent" and Q :: "'g nv_gsp_rpc_chan \<Rightarrow> bool"
  assumes call_law: "Q ch \<Longrightarrow> length req = unat len \<Longrightarrow> unat len \<le> 4016 \<Longrightarrow> unat cap \<le> 4016 \<Longrightarrow>
      returns (nv_gsp_rpc_call ag ch fn req len cap 4000000) (\<lambda>(reply, ch'). Q ch' \<and> (case reply of
          Inl rc \<Rightarrow> rc \<noteq> NV_GSP_RM_OK | Inr (rep, rlen, rres) \<Rightarrow> length rep = min (unat rlen) (unat cap)))"
begin

text \<open>The results of the two exchanges: status and OUT parameters belong to a call that came back.\<close>

definition rm_done :: "u8 list \<Rightarrow> int \<times> u32 option \<times> u8 list \<times> 'g nv_gsp_rpc_chan \<Rightarrow> bool" where
  "rm_done params = (\<lambda>(rc, st, p, ch'). Q ch' \<and> length p = length params \<and> (st \<noteq> None \<longleftrightarrow> rc = NV_GSP_RM_OK))"

lemma exchange_ok:
  assumes "Q ch" "length params = unat plen" "unat hdr + unat plen \<le> 4016"
    "length (concat (map cell_bytes cs)) \<le> unat hdr" "so + 4 \<le> unat hdr"
  shows "returns (rm_exchange ag ch fn hdr so (pack 0 cs) params plen) (rm_done params)"
proof -
  let ?req = "rm_req (unat hdr) cs params" and ?n = "hdr + plen"
  have n: "unat ?n = unat hdr + unat plen" using assms(3) by (intro unat_add_small) simp
  have lr: "length ?req = unat ?n" "unat ?n \<le> 4016" using n assms by (simp_all add: rm_req_def Let_def)
  obtain reply ch' where r: "nv_gsp_rpc_call ag ch fn ?req ?n ?n 4000000 = Some (reply, ch')" "Q ch'"
    and rl: "case reply of Inl rc \<Rightarrow> rc \<noteq> NV_GSP_RM_OK | Inr (rep, rlen, rres) \<Rightarrow> length rep = min (unat rlen) (unat ?n)"
    using returnsD [OF call_law [OF assms(1) lr lr(2), of fn]] by auto
  have rl': "length rep = min (unat rlen) (unat hdr + unat plen)" if "reply = Inr (rep, rlen, rres)" for rep rlen rres
    using that rl n by simp
  obtain rc st p where e: "rm_exchange ag ch fn hdr so (pack 0 cs) params plen = Some (rc, st, p, ch')"
    "rm_result hdr so params reply rc st p"
    by (rule rm_exchange_steps [OF assms(2-5) r(1)]) (erule rl')
  have "length p = length params \<and> (st \<noteq> None \<longleftrightarrow> rc = NV_GSP_RM_OK)"
    using e(2) rl by (auto simp: rm_result_def Let_def split: sum.splits if_splits)
  then show ?thesis using e(1) r(2) by (auto simp: returns_def rm_done_def)
qed

lemma alloc_ok:
  assumes "Q ch" "length params = unat plen" "unat plen \<le> 512"
  shows "returns (nv_gsp_rm_alloc ag ch c p h cl params plen) (rm_done params)"
proof -
  have "nv_gsp_rm_alloc ag ch c p h cl params plen =
      rm_exchange ag ch 103 32 16 (pack 0 [W32 c, W32 p, W32 h, W32 cl, W32 0, W32 plen, W32 0]) params plen"
    using assms(3) by (simp add: nv_gsp_rm_alloc_def word_less_nat_alt)
  then show ?thesis using assms by (simp only:) (rule exchange_ok; simp)
qed

lemma control_ok:
  assumes "Q ch" "length params = unat plen" "unat plen \<le> 3584"
  shows "returns (nv_gsp_rm_control ag ch c h cmd params plen) (rm_done params)"
proof -
  have "nv_gsp_rm_control ag ch c h cmd params plen =
      rm_exchange ag ch 76 24 12 (pack 0 [W32 c, W32 h, W32 cmd, W32 0, W32 plen, W32 0]) params plen"
    using assms(3) by (simp add: nv_gsp_rm_control_def word_less_nat_alt)
  then show ?thesis using assms by (simp only:) (rule exchange_ok; simp)
qed

text \<open>A constructor and a control without OUT parameters.\<close>

definition ctor_done :: "u32 \<Rightarrow> int \<times> u32 option \<times> u32 option \<times> 'g nv_gsp_rpc_chan \<Rightarrow> bool" where
  "ctor_done h = (\<lambda>(rc, h', st, ch'). Q ch' \<and> h' = (if rc = NV_GSP_RM_OK then Some h else None)
     \<and> (st \<noteq> None \<longleftrightarrow> rc = NV_GSP_RM_OK))"

definition ctl_done :: "int \<times> u32 option \<times> 'g nv_gsp_rpc_chan \<Rightarrow> bool" where
  "ctl_done = (\<lambda>(rc, st, ch'). Q ch' \<and> (rc = NV_GSP_RM_OK \<longrightarrow> st \<noteq> None))"

lemma ctor_doneI: "rm_done p r \<Longrightarrow> ctor_done h (ctor_result h r)"
  by (auto simp: rm_done_def ctor_done_def ctor_result_def)

lemma alloc_ctor:
  assumes "Q ch" "length params = unat plen" "unat plen \<le> 512"
  shows "returns (nv_gsp_rm_alloc ag ch c p h cl params plen \<bind> (\<lambda>r. Some (ctor_result h' r))) (ctor_done h')"
  by (rule ret_bind [OF alloc_ok [OF assms]]) (rule ret_Some, erule ctor_doneI)

lemma alloc_ctl:
  assumes "Q ch" "length params = unat plen" "unat plen \<le> 512"
  shows "returns (nv_gsp_rm_alloc ag ch c p h cl params plen \<bind> (\<lambda>(rc, st, _, ch). Some (rc, st, ch))) ctl_done"
  by (rule ret_bind [OF alloc_ok [OF assms]]) (auto simp: rm_done_def ctl_done_def intro!: ret_Some)

lemma control_ctl:
  assumes "Q ch" "length params = unat plen" "unat plen \<le> 3584"
  shows "returns (nv_gsp_rm_control ag ch c h cmd params plen \<bind> (\<lambda>(rc, st, _, ch). Some (rc, st, ch))) ctl_done"
  by (rule ret_bind [OF control_ok [OF assms]]) (auto simp: rm_done_def ctl_done_def intro!: ret_Some)

text \<open>The functions of \<open>gsp_rm.c\<close>.\<close>

lemma client_ok: "Q ch \<Longrightarrow> returns (nv_gsp_rm_client_ctor ag ch) (ctor_done (NV_GSP_RM_CLIENT_HANDLE OR 0))"
  unfolding nv_gsp_rm_client_ctor_def Let_def
  by (rule ret_stores, simp) (rule alloc_ctor; simp)

lemma device_ok: "Q ch \<Longrightarrow> returns (nv_gsp_rm_device_ctor ag ch c) (ctor_done NV_GSP_RM_DEVICE_HANDLE)"
  unfolding nv_gsp_rm_device_ctor_def Let_def
  by (rule ret_stores, simp) (rule alloc_ctor; simp)

lemma subdevice_ok: "Q ch \<Longrightarrow> returns (nv_gsp_rm_subdevice_ctor ag ch c d) (ctor_done NV_GSP_RM_SUBDEV_HANDLE)"
  unfolding nv_gsp_rm_subdevice_ctor_def Let_def by (rule alloc_ctor) simp_all

lemma vaspace_ok: "Q ch \<Longrightarrow> returns (vaspace_ctor ag ch c d flags) (ctor_done NV_GSP_RM_VASPACE_HANDLE)"
  unfolding vaspace_ctor_def Let_def
  by (rule ret_stores, simp) (rule alloc_ctor; simp)

lemma set_page_directory_ok: "Q ch \<Longrightarrow> returns (nv_gsp_rm_set_page_directory ag ch c d va root) ctl_done"
  unfolding nv_gsp_rm_set_page_directory_def
  by (rule ret_if, rule ret_Some, simp add: ctl_done_def) (rule ret_stores, simp, rule control_ctl; simp)

lemma copy_pdes_ok:
  assumes "Q ch" "length pd = 3"
  shows "returns (nv_gsp_rm_vaspace_copy_pdes ag ch c va sd si lo hi pd 3) ctl_done"
proof -
  have lv: "returns (for_upto 1 3 (copy_pdes_level pd) 0 p) (\<lambda>q. length q = length p)" if p: "length p = 184" for p
  proof (rule ret_for_upto [where n = 3 and P = "\<lambda>_ q. length q = length p"])
    fix k :: nat and q :: "u8 list" assume k: "k < 3" and q: "length q = length p"
    have u: "unat (of_nat k :: u32) = k" using k by (simp add: unat_of_nat_small)
    show "returns (copy_pdes_level pd (of_nat k * 1) q) (\<lambda>q. length q = length p)"
    proof -
      have "returns (copy_pdes_level pd (of_nat k) q) (\<lambda>q'. length q' = length q)"
        unfolding copy_pdes_level_def u using k assms(2) q p
        by (simp add: pdes_sizes_def returns_def)
      then show ?thesis using q by simp
    qed
  qed simp_all
  show ?thesis
    unfolding nv_gsp_rm_vaspace_copy_pdes_def
    apply (rule ret_if)
     apply (rule ret_Some, simp add: ctl_done_def assms(1))
    apply (rule ret_stores, simp)
    apply (rule ret_bind [OF lv], simp)
    apply (rule ret_bind [OF control_ok [OF assms(1)]])
    apply (auto simp: rm_done_def ctl_done_def intro!: ret_Some)
    done
qed

lemma fb_get_info_ok:
  assumes "Q ch" "length ix = 5" "length out = 5"
  shows "returns (nv_gsp_fb_get_info ag ch c s ix out 5) (\<lambda>(rc, st, out', ch'). Q ch' \<and> length out' = 5)"
proof -
  have u: "unat (of_nat k :: u32) = k" if "k < 5" for k :: nat using that by (simp add: unat_of_nat_small)
  have l1: "returns (for_upto 1 (5 :: u32) (\<lambda>i p. if unat i < length ix then st32 p (4 + unat i * 8) (ix ! unat i) else None) 0 p)
      (\<lambda>q. length q = 436)" if "length p = 436" for p
    by (rule ret_for_upto [where n = 5 and P = "\<lambda>_ q. length q = 436"])
      (use that assms(2) in \<open>auto simp: returns_def u\<close>)
  have l2: "returns (for_upto 1 (5 :: u32) (\<lambda>i out. do { v \<leftarrow> ld32 p (4 + unat i * 8 + 4);
      if unat i < length out then Some (out[unat i := v]) else None }) 0 out) (\<lambda>o'. length o' = 5)" if "length p = 436" for p
    by (rule ret_for_upto [where n = 5 and P = "\<lambda>_ o'. length o' = 5"])
      (use that assms(3) in \<open>auto simp: returns_def u\<close>)
  show ?thesis
    unfolding nv_gsp_fb_get_info_def
    apply (rule ret_if)
     apply (rule ret_Some, simp add: assms)
    apply (rule ret_stores, simp)
    apply (rule ret_bind [OF l1], simp)
    apply (rule ret_bind [OF control_ok [OF assms(1)]])
      apply simp
     apply simp
    apply (auto simp: rm_done_def Let_def assms(3) intro!: ret_rules ret_bind [OF l2])
    done
qed

text \<open>A list of 256 pages, the only length the bring-up asks for.\<close>

lemma vram_memlist_ok:
  assumes "Q ch"
  shows "returns (nv_gsp_rm_vram_memlist ag ch c d phys 0x100000) (\<lambda>(rc, h, res, ch'). Q ch')"
proof -
  have pg: "(ucast (drop_bit 12 (0x100000 :: u64)) :: u32) = 256" by simp
  have lp: "returns (for_upto 1 256 (memlist_pte a) 0 req) (\<lambda>q. length q = 8192)" if "length req = 8192" for a req
  proof (rule ret_for_upto [where n = 256 and P = "\<lambda>_ q. length q = 8192"])
    fix k :: nat and q :: "u8 list" assume k: "k < 256" and q: "length q = 8192"
    have u: "unat (of_nat k :: u32) = k" using k by (simp add: unat_of_nat_small)
    show "returns (memlist_pte a (of_nat k * 1) q) (\<lambda>q. length q = 8192)"
      unfolding memlist_pte_def using k q u by (simp add: returns_def)
  qed (use that in simp_all)
  have req: "returns (memlist_request c d phys 0x100000 (replicate 8192 0)) (\<lambda>(n, req). n = 2096 \<and> length req = 8192)"
    unfolding memlist_request_def pg Let_def
    apply (rule ret_wr_bytes, simp)
    apply (rule ret_stores, simp)
    apply (rule ret_bind [OF lp], simp)
    apply (rule ret_Some, simp)
    done
  show ?thesis
    unfolding nv_gsp_rm_vram_memlist_def pg
    apply (rule ret_if)
     apply (rule ret_Some, simp add: assms)
    apply (rule ret_if)
     apply (rule ret_Some, simp add: assms)
    apply (rule ret_bind [OF req])
    subgoal for r
      by (cases r) (auto intro!: ret_bind [OF call_law [OF assms, of _ 2096 0]] ret_Some split: sum.splits)
    done
qed

lemma static_info_ok:
  assumes "Q ch"
  shows "returns (nv_gsp_get_static_info ag ch) (\<lambda>(rc, si, ch'). Q ch' \<and>
     (case si of None \<Rightarrow> rc \<noteq> NV_GSP_RM_OK | Some i \<Rightarrow> rc = NV_GSP_RM_OK \<and> info_ok i))"
proof -
  have reg: "returns (read_region rep i) (\<lambda>_. True)" if "length rep = 2168" "i < 16" for rep i
    unfolding read_region_def Let_def using that by (intro ret_rules) simp_all
  have rg: "returns (read_regions rep n) (\<lambda>rs. length rs = 16)" if "length rep = 2168" "unat n \<le> 16" for rep n
    unfolding read_regions_def
  proof (rule ret_for_upto [where n = "unat n" and P = "\<lambda>_ rs. length rs = 16"])
    show "unat n + unat (1 :: u32) \<le> 2 ^ LENGTH(32)" using that(2) by simp
    fix k :: nat and rs :: "nv_gsp_fb_region list" assume k: "k < unat n" and rs: "length rs = 16"
    have u: "unat (of_nat k * 1 :: u32) = k" using k that(2) by (simp add: unat_of_nat_small)
    show "returns (read_region rep (unat (of_nat k * 1 :: u32)) \<bind> (\<lambda>r. Some (rs[unat (of_nat k * 1 :: u32) := r]))) (\<lambda>rs. length rs = 16)"
      unfolding u using rs by (intro ret_bind [OF reg] ret_Some) (use k that in simp_all)
  qed simp_all
  have l: "length (replicate 2168 (0 :: u8)) = unat (of_nat 2168 :: u32)" "unat (of_nat 2168 :: u32) \<le> 4016"
    by (simp_all only: length_replicate) simp_all
  show ?thesis
    unfolding nv_gsp_get_static_info_def
    apply (rule ret_bind [OF call_law [OF assms l l(2)]])
    subgoal for r
      by (cases r; cases "fst r") (auto simp: word_less_nat_alt not_less info_ok_def min_def
          intro!: ret_rules ret_bind [OF rg])
    done
qed

end

section \<open>The channel provides it\<close>

text \<open>A usable channel to an agent that follows the protocol; \<open>P\<close> is a property of the GSP its actions keep.\<close>

definition served :: "'g gsp_agent \<Rightarrow> ('g \<Rightarrow> bool) \<Rightarrow> 'g nv_gsp_rpc_chan \<Rightarrow> bool" where
  "served ag P ch \<longleftrightarrow> gsp_protocol ag \<and> (\<exists>ms. chan_ok ch ms) \<and> P (ch_gsp ch)
     \<and> (\<forall>b g. P g \<longrightarrow> P (snd (ag_ring ag (b, g))) \<and> P (snd (ag_udelay ag 1000 (b, g))))"

lemma consume_gsp: "msgq_consume ch k = Some ch' \<Longrightarrow> ch_gsp ch' = ch_gsp ch"
  by (auto simp: msgq_consume_def msgq_set_readptr_def bind_eq_Some_conv)

definition gsp_kept :: "'g \<Rightarrow> ('a \<times> 'g nv_gsp_rpc_chan) option \<Rightarrow> bool" where
  "gsp_kept g m \<longleftrightarrow> (\<forall>r. m = Some r \<longrightarrow> ch_gsp (snd r) = g)"

lemma kept_Some: "ch_gsp (snd r) = g \<Longrightarrow> gsp_kept g (Some r)" by (simp add: gsp_kept_def)
lemma kept_if: "gsp_kept g a \<Longrightarrow> gsp_kept g b \<Longrightarrow> gsp_kept g (if c then a else b)" by simp
lemma kept_bind: "(\<And>x. gsp_kept g (f x)) \<Longrightarrow> gsp_kept g (m \<bind> f)" by (auto simp: gsp_kept_def bind_eq_Some_conv)
lemma kept_consume: "(\<And>ch'. ch_gsp ch' = ch_gsp ch \<Longrightarrow> gsp_kept g (f ch')) \<Longrightarrow> gsp_kept g (msgq_consume ch k \<bind> f)"
  using consume_gsp by (fastforce simp: gsp_kept_def bind_eq_Some_conv)

lemmas kept_rules = kept_Some kept_if kept_consume kept_bind

lemma drain_gsp: "rpc_drain fn cap wptr ch = Some r \<Longrightarrow> ch_gsp (snd r) = ch_gsp ch"
proof -
  assume a: "rpc_drain fn cap wptr ch = Some r"
  show ?thesis
  proof (rule rpc_drain.raw_induct [OF _ a, of "\<lambda>fn cap wptr ch r. ch_gsp (snd r) = ch_gsp ch"], goal_cases)
    case (1 f fn cap wptr ch r)
    have f: "gsp_kept g (f fn cap wptr ch')" if "ch_gsp ch' = g" for g ch' using 1(1) that by (simp add: gsp_kept_def)
    have "gsp_kept (ch_gsp ch) (Some r)"
      unfolding 1(2) [symmetric] Let_def by (intro kept_rules f) simp_all
    then show ?case by (simp add: gsp_kept_def)
  qed
qed

lemma poll_gsp:
  assumes k: "\<forall>b g. P g \<longrightarrow> P (snd (ag_ring ag (b, g))) \<and> P (snd (ag_udelay ag 1000 (b, g)))"
    and a: "rpc_poll ag fn cap t w ch = Some r"
  shows "P (ch_gsp ch) \<longrightarrow> P (ch_gsp (snd r))"
proof -
  have acts: "P (ch_gsp (gsp_acts (ag_ring ag) ch))" "P (ch_gsp (gsp_acts (ag_udelay ag 1000) ch))" if "P (ch_gsp ch)" for ch
    using k that by (simp_all add: gsp_acts_def split_def Let_def)
  have "ag = ag \<longrightarrow> P (ch_gsp ch) \<longrightarrow> P (ch_gsp (snd r))"
  proof (rule rpc_poll.raw_induct [OF _ a, of "\<lambda>ag' fn cap t w ch r. ag' = ag \<longrightarrow> P (ch_gsp ch) \<longrightarrow> P (ch_gsp (snd r))"], goal_cases)
    case (1 f ag' fn cap t w ch r)
    show ?case
    proof (intro impI)
      assume ag: "ag' = ag" and p: "P (ch_gsp ch)"
      from 1(2) ag obtain wptr x ch1 where d: "rpc_drain fn cap wptr ch = Some (x, ch1)"
        and c: "(case x of Some res \<Rightarrow> Some (res, ch1) | None \<Rightarrow>
              if w \<ge> t then Some (Inl NV_GSP_RM_ERR_TIMEOUT, ch1)
              else let ch = gsp_acts (ag_udelay ag 1000) ch1; waited = w + 1000;
                       ch = (if waited mod 200000 = 0 then gsp_acts (ag_ring ag) ch else ch)
                   in f ag fn cap t waited ch) = Some r"
        by (auto simp: bind_eq_Some_conv)
      have p1: "P (ch_gsp ch1)" using drain_gsp [OF d] p by simp
      show "P (ch_gsp (snd r))"
      proof (cases "x = None \<and> \<not> w \<ge> t")
        case True
        then have "f ag fn cap t (w + 1000) (if (w + 1000) mod 200000 = 0 then gsp_acts (ag_ring ag) (gsp_acts (ag_udelay ag 1000) ch1)
            else gsp_acts (ag_udelay ag 1000) ch1) = Some r" using c by (simp add: Let_def)
        from 1(1) [OF this] show ?thesis using acts [OF p1] acts(1) [OF acts(2) [OF p1]] by (simp split: if_splits)
      next
        case False
        then show ?thesis using c p1 by (auto split: option.splits if_splits)
      qed
    qed
  qed
  then show ?thesis by simp
qed

interpretation sv: rpc_service ag "served ag P" for ag :: "'g gsp_agent" and P
proof
  fix ch :: "'g nv_gsp_rpc_chan" and req :: "u8 list" and len cap fn :: u32
  assume s: "served ag P ch" and l: "length req = unat len" "unat len \<le> 4016" "unat cap \<le> 4016"
  obtain ms where ch: "chan_ok ch ms" using s by (auto simp: served_def)
  have ag: "gsp_protocol ag" and k: "\<forall>b g. P g \<longrightarrow> P (snd (ag_ring ag (b, g))) \<and> P (snd (ag_udelay ag 1000 (b, g)))"
    and p: "P (ch_gsp ch)" using s by (simp_all add: served_def)
  have t: "unat (4000000 :: u32) + 1000 \<le> 2 ^ 32" by simp
  obtain b res ch' new where r: "nv_gsp_rpc_call ag ch fn req len cap 4000000 = Some (res, ch')"
    "nv_gsp_rpc_call ag ch fn req len cap 4000000 =
       rpc_poll ag fn cap (if (4000000 :: u32) = 0 then 4000000 else 4000000) 0 (gsp_acts (ag_ring ag) (sent ch b))"
    and o': "call_outcome fn cap res (ms @ new) ch'"
    by (rule rpc_call_spec [OF ag ch l t, of fn]) blast
  have "P (ch_gsp (gsp_acts (ag_ring ag) (sent ch b)))" using k p by (simp add: gsp_acts_def sent_def split_def Let_def)
  then have p': "P (ch_gsp ch')" using poll_gsp [OF k, of fn cap 4000000 0 "gsp_acts (ag_ring ag) (sent ch b)" "(res, ch')"] r by simp
  have c': "\<exists>ms. chan_ok ch' ms" using o' by (auto simp: call_outcome_def split: sum.splits)
  have la: "length (fst (answer cap m)) = min (unat (fst (snd (answer cap m)))) (unat cap)" if "length (gm_data m) = 4016" for m
    using length_answer [OF that l(3)] by (metis prod.collapse)
  have "case res of Inl rc \<Rightarrow> rc \<noteq> NV_GSP_RM_OK | Inr (rep, rlen, rres) \<Rightarrow> length rep = min (unat rlen) (unat cap)"
    using o' la by (cases res) (auto simp: call_outcome_def split_def)
  then show "returns (nv_gsp_rpc_call ag ch fn req len cap 4000000) (\<lambda>(reply, ch'). served ag P ch' \<and> (case reply of
      Inl rc \<Rightarrow> rc \<noteq> NV_GSP_RM_OK | Inr (rep, rlen, rres) \<Rightarrow> length rep = min (unat rlen) (unat cap)))"
    using r(1) p' c' ag k by (simp add: returns_def served_def)
qed

end
