(* ===== verification/GspQuery.thy ===== *)
theory GspQuery
  imports GspFifo GspGr GspService
begin

text \<open>
  The tables the driver asks GSP for (engines, context buffers, interrupt vectors): the answer is data from
  outside, so the parsers have to stay in their buffers whatever it holds.
\<close>

section \<open>Engines\<close>

lemma read_engine_ok:
  assumes "length p = 3212" "unat i < 32" "length es = 32"
  shows "returns (read_engine p i es) (\<lambda>es'. length es' = 32)"
  unfolding read_engine_def using assms by (intro ret_rules) auto

definition devinfo_ok :: "nv_gsp_fifo_devinfo \<Rightarrow> bool" where
  "devinfo_ok di \<longleftrightarrow> length (di_engines di) = 32 \<and> unat (di_count di) \<le> 32"

lemma find_engine_ok:
  assumes "devinfo_ok di"
  shows "returns (nv_gsp_fifo_find_engine di t) (\<lambda>i.
     if i = -1 then \<forall>k < unat (di_count di). en_rm_engine_type (di_engines di ! k) \<noteq> t
     else 0 \<le> i \<and> nat i < unat (di_count di) \<and> en_rm_engine_type (di_engines di ! nat i) = t
          \<and> (\<forall>k < nat i. en_rm_engine_type (di_engines di ! k) \<noteq> t))"
proof -
  let ?T = "\<lambda>k. en_rm_engine_type (di_engines di ! k)"
  have s: "returns (find_upto (di_count di) (\<lambda>i. if unat i < length (di_engines di) then
                  Some (if en_rm_engine_type (di_engines di ! unat i) = t then Some (uint i) else None) else None) 0)
     (\<lambda>r. case r of None \<Rightarrow> \<forall>k < unat (di_count di). ?T k \<noteq> t
        | Some x \<Rightarrow> \<exists>k < unat (di_count di). (\<forall>j < k. ?T j \<noteq> t) \<and> x = int k \<and> ?T k = t)"
  proof (rule ret_find_upto)
    fix k assume k: "k < unat (di_count di)"
    then have k32: "k < 32" using assms by (simp add: devinfo_ok_def)
    then have u: "unat (of_nat k :: u32) = k" by (simp add: unat_of_nat_small)
    then have "uint (of_nat k :: u32) = int k" by (simp add: uint_nat)
    then show "returns (if unat (of_nat k :: u32) < length (di_engines di) then
                  Some (if en_rm_engine_type (di_engines di ! unat (of_nat k :: u32)) = t then Some (uint (of_nat k :: u32)) else None)
                else None)
        (\<lambda>r. case r of None \<Rightarrow> ?T k \<noteq> t | Some x \<Rightarrow> x = int k \<and> ?T k = t)"
      unfolding u using k32 assms by (simp add: returns_def devinfo_ok_def)
  qed
  show ?thesis
    unfolding nv_gsp_fifo_find_engine_def
    by (rule ret_bind [OF s], rule ret_Some) (auto split: option.splits)
qed

section \<open>Context buffers\<close>

definition ctx_count :: "nv_gsp_gr_ctxbuf list \<Rightarrow> nat" where
  "ctx_count bs = length (filter (\<lambda>b. cb_size b \<noteq> 0) bs)"

lemma ctx_count_upd: "k < length bs \<Longrightarrow> ctx_count (take (Suc k) (bs[k := b])) = ctx_count (take k bs) + (if cb_size b \<noteq> 0 then 1 else 0)"
  by (simp add: ctx_count_def take_Suc_conv_app_nth)

lemma parse_ctxbuf_ok:
  assumes p: "length p = 1600" and g: "unat g < 8" and out: "length (cx_buf out) = 25"
  shows "returns (nv_gsp_gr_parse_ctxbuf_info p g out) (\<lambda>o'. length (cx_buf o') = 25
     \<and> unat (cx_count_nonzero o') = ctx_count (cx_buf o'))"
proof -
  have "returns (for_upto 1 25 (read_ctxbuf p (unat g * 200)) 0 (out\<lparr>cx_count_nonzero := 0\<rparr>))
     (\<lambda>o'. length (cx_buf o') = 25 \<and> unat (cx_count_nonzero o') = ctx_count (take 25 (cx_buf o')))"
  proof (rule ret_for_upto [where n = 25 and P = "\<lambda>k o'. length (cx_buf o') = 25
      \<and> unat (cx_count_nonzero o') = ctx_count (take k (cx_buf o'))"])
    fix k and o' :: nv_gsp_gr_ctxbufs
    assume k: "k < 25" and P: "length (cx_buf o') = 25 \<and> unat (cx_count_nonzero o') = ctx_count (take k (cx_buf o'))"
    have u: "unat (of_nat k * 1 :: u32) = k" using k by (simp add: unat_of_nat_small)
    have c: "ctx_count (take k (cx_buf o')) \<le> k" unfolding ctx_count_def using length_filter_le [of "\<lambda>b. cb_size b \<noteq> 0" "take k (cx_buf o')"] by simp
    then have s: "unat (cx_count_nonzero o' + 1) = ctx_count (take k (cx_buf o')) + 1"
      using P k by (simp add: unat_add_small)
    have "unat g * 200 + k * 8 + 8 \<le> 1600" using g k by linarith
    then show "returns (read_ctxbuf p (unat g * 200) (of_nat k * 1) o') (\<lambda>o'. length (cx_buf o') = 25
      \<and> unat (cx_count_nonzero o') = ctx_count (take (Suc k) (cx_buf o')))"
      unfolding read_ctxbuf_def u using p P k s by (intro ret_rules) (auto simp: ctx_count_upd)
  qed (use out in \<open>auto simp: ctx_count_def\<close>)
  then show ?thesis
    using g by (simp add: nv_gsp_gr_parse_ctxbuf_info_def word_le_nat_alt) (auto simp: returns_def)
qed

section \<open>The queries\<close>

definition no_ctxbufs :: nv_gsp_gr_ctxbufs where
  "no_ctxbufs = \<lparr>cx_buf = replicate 25 \<lparr>cb_size = 0, cb_alignment = 0\<rparr>, cx_count_nonzero = 0\<rparr>"

definition no_intr_table :: nv_gsp_intr_table where
  "no_intr_table = \<lparr>it_count = 0, it_entry = replicate 128
     \<lparr>ie_engine_idx = 0, ie_pmc_intr_mask = 0, ie_vector_stall = 0, ie_vector_nonstall = 0\<rparr>\<rparr>"

context rpc_service
begin

lemma control_len:
  assumes "Q ch" "length params = unat plen" "unat plen \<le> 3584"
  shows "returns (nv_gsp_rm_control ag ch hClient hObject cmd params plen)
    (\<lambda>(rc, st, p, ch'). Q ch' \<and> length p = length params \<and> (rc = NV_GSP_RM_OK \<longrightarrow> st \<noteq> None))"
  by (rule returns_mono [OF control_ok [OF assms]]) (auto simp: rm_done_def)

lemma device_info_ok:
  assumes "Q ch"
  shows "returns (nv_gsp_fifo_get_device_info ag ch hClient hSubdevice) (\<lambda>(rc, di, st, ch'). Q ch' \<and> devinfo_ok di
    \<and> (rc \<noteq> NV_GSP_RM_OK \<longrightarrow> di_count di = 0))"
proof -
  have loop: "returns (for_upto 1 n (read_engine p) 0 es) (\<lambda>es'. length es' = 32)"
    if "unat (n :: u32) \<le> 32" "length p = 3212" "length es = 32" for n p es
  proof (rule ret_for_upto [where n = "unat n" and P = "\<lambda>_ es. length es = 32"])
    show "unat n + unat (1 :: u32) \<le> 2 ^ LENGTH(32)" using that by simp
    fix k es' assume k: "k < unat n" "length (es' :: nv_gsp_fifo_engn list) = 32"
    then have "unat (of_nat k * 1 :: u32) < 32" using that(1) by (simp add: unat_of_nat_small)
    then show "returns (read_engine p (of_nat k * 1) es') (\<lambda>es. length es = 32)"
      using that(2) k(2) by (intro read_engine_ok)
  qed (use that in auto)
  have ctl: "returns (nv_gsp_rm_control ag ch hClient hSubdevice NV2080_CTRL_CMD_FIFO_GET_DEVICE_INFO_TABLE
      (splice (replicate 3212 0) 0 (bytes32 0)) (of_nat 3212))
      (\<lambda>(rc, st, p, ch'). Q ch' \<and> length p = 3212 \<and> (rc = NV_GSP_RM_OK \<longrightarrow> st \<noteq> None))"
    using control_len [OF assms, of "splice (replicate 3212 0) 0 (bytes32 0)" "of_nat 3212" hClient hSubdevice
        NV2080_CTRL_CMD_FIFO_GET_DEVICE_INFO_TABLE] by (simp del: bytes_0)
  show ?thesis
    unfolding nv_gsp_fifo_get_device_info_def
    apply (rule ret_let)
    apply (rule ret_st32, simp)
    apply (rule ret_bind [OF ctl])
    apply (clarsimp simp del: bytes_0)
    apply (intro ret_rules ret_bind [OF loop])
    apply (auto simp: devinfo_ok_def word_less_nat_alt not_less)
    done
qed

lemma channel_alloc_ok: "Q ch \<Longrightarrow> returns (nv_gsp_rm_channel_alloc ag ch cfg) (ctor_done (NV_GSP_RM_CHANNEL_HANDLE OR cc_chid cfg))"
  unfolding nv_gsp_rm_channel_alloc_def Let_def
  by (rule ret_stores, simp add: channel_cells_def wr_memdesc_def Let_def) (rule alloc_ctor; simp)

lemma channel_bind_ok: "Q ch \<Longrightarrow> returns (nv_gsp_rm_channel_bind ag ch c h e) ctl_done"
  unfolding nv_gsp_rm_channel_bind_def by (rule control_ctl) simp_all

lemma channel_schedule_ok: "Q ch \<Longrightarrow> returns (nv_gsp_rm_channel_schedule ag ch c h e) ctl_done"
  unfolding nv_gsp_rm_channel_schedule_def
  by (rule ret_stores, simp) (rule control_ctl; simp)

lemma ce_obj_alloc_ok: "Q ch \<Longrightarrow> returns (nv_gsp_rm_ce_obj_alloc ag ch c h ob cl e) ctl_done"
  unfolding nv_gsp_rm_ce_obj_alloc_def
  by (rule ret_stores, simp) (rule alloc_ctl; simp)

lemma class_engineid_ok: "Q ch \<Longrightarrow> returns (nv_gsp_fifo_get_class_engineid ag ch c h ob) (\<lambda>(rc, id, st, ch'). Q ch')"
  unfolding nv_gsp_fifo_get_class_engineid_def
  apply (rule ret_st32, simp)
  apply (rule ret_bind [OF control_len], assumption)
    apply simp
   apply simp
  apply (auto intro!: ret_rules)
  done

lemma ctxbuf_query_ok:
  assumes "Q ch"
  shows "returns (nv_gsp_gr_get_ctxbuf_info ag ch c s g no_ctxbufs) (\<lambda>(rc, o', st, ch'). Q ch' \<and>
     length (cx_buf o') = 25 \<and> unat (cx_count_nonzero o') = ctx_count (cx_buf o') \<and> (rc \<noteq> NV_GSP_RM_OK \<longrightarrow> cx_count_nonzero o' = 0))"
proof (cases "unat g < 8")
  case False
  then show ?thesis using assms
    by (simp add: nv_gsp_gr_get_ctxbuf_info_def word_le_nat_alt returns_def no_ctxbufs_def ctx_count_def)
next
  case True
  have out: "length (cx_buf no_ctxbufs) = 25" by (simp add: no_ctxbufs_def)
  have ctl: "returns (nv_gsp_rm_control ag ch c s NV2080_CTRL_CMD_INTERNAL_STATIC_KGR_GET_CONTEXT_BUFFERS_INFO
      (replicate 1600 0) (of_nat 1600)) (\<lambda>(rc, st, p, ch'). Q ch' \<and> length p = 1600 \<and> (rc = NV_GSP_RM_OK \<longrightarrow> st \<noteq> None))"
    using control_len [OF assms, of "replicate 1600 0" "of_nat 1600" c s
        NV2080_CTRL_CMD_INTERNAL_STATIC_KGR_GET_CONTEXT_BUFFERS_INFO] unfolding length_replicate by simp
  have "\<not> 8 \<le> g" using True by (simp add: word_le_nat_alt)
  then show ?thesis
    unfolding nv_gsp_gr_get_ctxbuf_info_def
    apply (simp only: if_False)
    apply (rule ret_bind [OF ctl])
    apply clarify
    apply (rule ret_bind [OF parse_ctxbuf_ok [OF _ True out]])
    apply simp
    apply (intro ret_rules)
    apply (auto simp: ctx_count_def)
    done
qed

lemma intr_query_ok:
  assumes "Q ch"
  shows "returns (nv_gsp_intr_get_table ag ch c s no_intr_table) (\<lambda>(rc, t, st, ch'). Q ch' \<and>
     length (it_entry t) = 128 \<and> unat (it_count t) \<le> 128 \<and> (rc \<noteq> NV_GSP_RM_OK \<longrightarrow> it_count t = 0))"
proof -
  have out: "length (it_entry (no_intr_table\<lparr>it_count := 0\<rparr>)) = 128" by (simp add: no_intr_table_def)
  have ctl: "returns (nv_gsp_rm_control ag ch c s NV2080_CTRL_CMD_INTERNAL_INTR_GET_KERNEL_TABLE
      (replicate 2068 0) (of_nat 2068)) (\<lambda>(rc, st, p, ch'). Q ch' \<and> length p = 2068 \<and> (rc = NV_GSP_RM_OK \<longrightarrow> st \<noteq> None))"
    using control_len [OF assms, of "replicate 2068 0" "of_nat 2068" c s
        NV2080_CTRL_CMD_INTERNAL_INTR_GET_KERNEL_TABLE] unfolding length_replicate by simp
  show ?thesis
    unfolding nv_gsp_intr_get_table_def
    apply (rule ret_bind [OF ctl])
    apply clarify
    apply (rule ret_if)
    subgoal using out by (simp add: returns_def)
    subgoal for rc st p ch'
      by (rule ret_bind [OF intr_parse_ok [OF _ out]], simp) (auto simp: returns_def)
    done
qed

end

section \<open>Properties\<close>

text \<open>
  C34. Whatever GSP answers, the three table queries end without touching anything outside their buffers: the
  engine table has at most 32 entries and a search in it returns the first engine of the type or -1,
  the number of context buffers is the number of those with a size, the interrupt table has at most 128
  entries, and a failed query leaves each of them empty.
\<close>

theorem gsp_table_queries_total:
  assumes "gsp_protocol ag" "chan_ok ch ms"
  shows "(\<exists>rc di st ch'. nv_gsp_fifo_get_device_info ag ch c s = Some (rc, di, st, ch')
        \<and> unat (di_count di) \<le> 32 \<and> (rc = NV_GSP_RM_OK \<or> di_count di = 0)
        \<and> (\<exists>i. nv_gsp_fifo_find_engine di t = Some i \<and> (if i = -1
             then t \<notin> (\<lambda>k. en_rm_engine_type (di_engines di ! k)) ` {..<unat (di_count di)}
             else nat i < unat (di_count di) \<and> en_rm_engine_type (di_engines di ! nat i) = t)))
    \<and> (\<exists>rc o' st ch'. nv_gsp_gr_get_ctxbuf_info ag ch c s g no_ctxbufs = Some (rc, o', st, ch')
        \<and> unat (cx_count_nonzero o') = ctx_count (cx_buf o') \<and> (rc = NV_GSP_RM_OK \<or> cx_count_nonzero o' = 0))
    \<and> (\<exists>rc tb st ch'. nv_gsp_intr_get_table ag ch c s no_intr_table = Some (rc, tb, st, ch')
        \<and> unat (it_count tb) \<le> 128 \<and> (rc = NV_GSP_RM_OK \<or> it_count tb = 0))"
proof (intro conjI)
  have sv: "served ag (\<lambda>_. True) ch" using assms by (auto simp: served_def)
  obtain rc di st ch' where d: "nv_gsp_fifo_get_device_info ag ch c s = Some (rc, di, st, ch')" "devinfo_ok di"
    "rc \<noteq> NV_GSP_RM_OK \<longrightarrow> di_count di = 0"
    using returnsD [OF sv.device_info_ok [OF sv, of c s]] by auto
  show "\<exists>rc di st ch'. nv_gsp_fifo_get_device_info ag ch c s = Some (rc, di, st, ch')
        \<and> unat (di_count di) \<le> 32 \<and> (rc = NV_GSP_RM_OK \<or> di_count di = 0)
        \<and> (\<exists>i. nv_gsp_fifo_find_engine di t = Some i \<and> (if i = -1
             then t \<notin> (\<lambda>k. en_rm_engine_type (di_engines di ! k)) ` {..<unat (di_count di)}
             else nat i < unat (di_count di) \<and> en_rm_engine_type (di_engines di ! nat i) = t))"
    using returnsD [OF find_engine_ok [OF d(2), of t]] d by (fastforce simp: devinfo_ok_def image_iff)
  show "\<exists>rc o' st ch'. nv_gsp_gr_get_ctxbuf_info ag ch c s g no_ctxbufs = Some (rc, o', st, ch')
        \<and> unat (cx_count_nonzero o') = ctx_count (cx_buf o') \<and> (rc = NV_GSP_RM_OK \<or> cx_count_nonzero o' = 0)"
    using returnsD [OF sv.ctxbuf_query_ok [OF sv, of c s g]] by auto
  show "\<exists>rc tb st ch'. nv_gsp_intr_get_table ag ch c s no_intr_table = Some (rc, tb, st, ch')
        \<and> unat (it_count tb) \<le> 128 \<and> (rc = NV_GSP_RM_OK \<or> it_count tb = 0)"
    using returnsD [OF sv.intr_query_ok [OF sv, of c s]] by auto
qed

theorem gsp_table_queries_witness:
  "\<exists>(ch :: unit nv_gsp_rpc_chan) rc di st ch'. nv_gsp_fifo_get_device_info idle_gsp ch 1 2 = Some (rc, di, st, ch')
     \<and> unat (di_count di) \<le> 32"
proof -
  obtain ch :: "unit nv_gsp_rpc_chan" and m where ch: "chan_ok ch [m]" by (rule demo_chan)
  show ?thesis using gsp_table_queries_total [OF idle_gsp_protocol ch, of 1 2] by blast
qed

end
