(* ===== verification/GspExec.thy ===== *)
theory GspExec
  imports GspFifo Gmmu
begin

text \<open>
  \<open>driver/gsp/gsp_exec.c\<close>: work sent to the GPU over the live channel.  VRAM is reached through the
  PRAMIN window; the state is the window cache of the caller and the hardware.
\<close>

abbreviation (input) NV_USERD_GP_PUT_OFF :: u64 where "NV_USERD_GP_PUT_OFF \<equiv> 0x8c"
abbreviation (input) NV_VFN_DOORBELL_ADDR :: u32 where "NV_VFN_DOORBELL_ADDR \<equiv> 0x00bb0090"

record nv_gsp_gpu_ctx =
  gx_ok :: bool
  gx_external_vmm :: bool
  gx_pool_selftest_ok :: bool
  gx_h_client :: u32
  gx_h_device :: u32
  gx_h_vaspace :: u32
  gx_h_channel :: u32
  gx_h_ce :: u32
  gx_chid :: u32
  gx_runlist :: u32
  gx_engine_type :: u32
  gx_ring_va :: u64
  gx_ring_phys :: u64
  gx_ring_entries :: u32
  gx_pb_va :: u64
  gx_pb_phys :: u64
  gx_sem_va :: u64
  gx_sem_phys :: u64
  gx_userd_phys :: u64
  gx_scratch_va :: u64
  gx_scratch_phys :: u64
  gx_scratch_size :: u64
  gx_class_engine_id :: u32
  gx_gp_put :: u32
  gx_seq :: u32
  gx_object_bound :: bool
  gx_selftest_ok :: bool

section \<open>A copy\<close>

text \<open>Writes of the command words to consecutive cells.\<close>

definition write_pushbuffer :: "'w mmio \<Rightarrow> u64 \<Rightarrow> u32 list \<Rightarrow> 'w pramin \<Rightarrow> 'w pramin" where
  "write_pushbuffer io pb_phys pb =
     fold (\<lambda>i. nv_pramin_wr32 io (pb_phys + ucast (of_nat i * 4 :: u32)) (pb ! i)) [0..<length pb]"

definition ring_doorbell :: "'w mmio \<Rightarrow> nv_gsp_gpu_ctx \<Rightarrow> 'w pramin \<Rightarrow> 'w pramin" where
  "ring_doorbell io gpu = (\<lambda>(win_base, w).
     (win_base, io_wr io NV_VFN_DOORBELL_ADDR (push_bit 16 (gx_runlist gpu) OR gx_chid gpu) w))"

text \<open>One entry of the ring, \<open>GP_PUT\<close> and the doorbell.\<close>

definition post_entry :: "'w mmio \<Rightarrow> nv_gsp_gpu_ctx \<Rightarrow> u32 \<Rightarrow> 'w pramin \<Rightarrow> nv_gsp_gpu_ctx \<times> 'w pramin" where
  "post_entry io gpu nd st =
     (let slot = gx_gp_put gpu mod gx_ring_entries gpu;
          (e0, e1) = nv_gsp_fifo_gpfifo_entry (gx_pb_va gpu) nd;
          st = nv_pramin_wr32 io (gx_ring_phys gpu + ucast (slot * 8) + 0) e0 st;
          st = nv_pramin_wr32 io (gx_ring_phys gpu + ucast (slot * 8) + 4) e1 st;
          gpu = gpu\<lparr>gx_gp_put := (gx_gp_put gpu + 1) mod gx_ring_entries gpu\<rparr>
      in (gpu, nv_pramin_wr32 io (gx_userd_phys gpu + NV_USERD_GP_PUT_OFF) (gx_gp_put gpu) st))"

text \<open>The wait for the semaphore, at most \<open>n\<close> reads.\<close>

primrec sem_wait :: "'w mmio \<Rightarrow> u64 \<Rightarrow> u32 \<Rightarrow> nat \<Rightarrow> 'w pramin \<Rightarrow> bool \<times> 'w pramin" where
  "sem_wait io sem_phys payload 0 st = (False, st)"
| "sem_wait io sem_phys payload (Suc n) st =
     (let (v, win_base, w) = nv_pramin_rd32 io sem_phys st in
      if v = payload then (True, win_base, w)
      else sem_wait io sem_phys payload n (win_base, io_udelay io 20 w))"

definition nv_gsp_gpu_copy ::
  "'w mmio \<Rightarrow> nv_gsp_gpu_ctx \<Rightarrow> u64 \<Rightarrow> u64 \<Rightarrow> u32 \<Rightarrow> u32 \<Rightarrow> 'w pramin \<Rightarrow> int \<times> nv_gsp_gpu_ctx \<times> 'w pramin" where
  "nv_gsp_gpu_copy io gpu src_va dst_va bytes timeout_ms st =
     (if \<not> gx_ok gpu \<or> bytes = 0 then (-1, gpu, st)
      else if gx_ring_entries gpu = 0 then (-1, gpu, st)
      else let gpu = gpu\<lparr>gx_seq := gx_seq gpu + 1\<rparr>;
               payload = 0xC0DE0000 OR (gx_seq gpu AND 0xffff);
               set_obj = (if gx_object_bound gpu then 0 else gx_class_engine_id gpu);
               pb = nv_gsp_fifo_build_ce_copy set_obj src_va dst_va bytes (gx_sem_va gpu) payload;
               nd = of_nat (length pb)
           in if nd = 0 then (-1, gpu, st)
           else let st = nv_pramin_wr32 io (gx_sem_phys gpu) 0 st;
                    st = write_pushbuffer io (gx_pb_phys gpu) pb st;
                    (gpu, st) = post_entry io gpu nd st;
                    st = ring_doorbell io gpu st;
                    ticks = (if timeout_ms \<noteq> 0 then timeout_ms else 2000) * 50;
                    (hit, st) = sem_wait io (gx_sem_phys gpu) payload (unat ticks) st
                in if hit then (0, if set_obj \<noteq> 0 then gpu\<lparr>gx_object_bound := True\<rparr> else gpu, st)
                   else (-1, gpu\<lparr>gx_ok := False\<rparr>, snd (nv_pramin_rd32 io (gx_sem_phys gpu) st)))"

section \<open>The probe of the pool\<close>

abbreviation (input) PROBE_BYTES :: u32 where "PROBE_BYTES \<equiv> 65536"

definition probe_word :: "u32 \<Rightarrow> u32 \<Rightarrow> u32" where
  "probe_word n o' = (o' XOR 0x7f10abcd) + n"

definition probe_fill :: "'w mmio \<Rightarrow> nv_gsp_gpu_ctx \<Rightarrow> u64 \<Rightarrow> u32 \<Rightarrow> 'w pramin \<Rightarrow> 'w pramin option" where
  "probe_fill io gpu offset n =
     for_upto 4 PROBE_BYTES (\<lambda>o' st.
       let st = nv_pramin_wr32 io (gx_scratch_phys gpu + ucast o') (probe_word n o') st
       in Some (nv_pramin_wr32 io (gx_scratch_phys gpu + offset + ucast o') 0 st)) 0"

definition probe_check :: "'w mmio \<Rightarrow> nv_gsp_gpu_ctx \<Rightarrow> u64 \<Rightarrow> u32 \<Rightarrow> u32 \<times> 'w pramin \<Rightarrow> (u32 \<times> 'w pramin) option" where
  "probe_check io gpu offset n =
     for_upto 4 PROBE_BYTES (\<lambda>o' (bad, st).
       let (v, st) = nv_pramin_rd32 io (gx_scratch_phys gpu + offset + ucast o') st
       in Some (if v \<noteq> probe_word n o' then bad + 1 else bad, st)) 0"

definition pool_probe ::
  "'w mmio \<Rightarrow> u64 \<Rightarrow> u32 \<Rightarrow> nv_gsp_gpu_ctx \<times> 'w pramin \<Rightarrow> (int \<times> nv_gsp_gpu_ctx \<times> 'w pramin) option" where
  "pool_probe io offset n = (\<lambda>(gpu, st).
     if offset < ucast PROBE_BYTES \<or> offset > gx_scratch_size gpu - ucast PROBE_BYTES then Some (-1, gpu, st)
     else do { st \<leftarrow> probe_fill io gpu offset n st;
               let (rc, gpu, st) = nv_gsp_gpu_copy io gpu (gx_scratch_va gpu) (gx_scratch_va gpu + offset) PROBE_BYTES 2000 st in
               do { (bad, st) \<leftarrow> (if rc = 0 then probe_check io gpu offset n (0, st) else Some (0, st));
                    Some (if rc \<noteq> 0 \<or> bad \<noteq> 0 then -1 else 0, gpu, st) } })"

definition nv_gsp_gpu_pool_test ::
  "'w mmio \<Rightarrow> nv_gsp_gpu_ctx \<Rightarrow> 'w pramin \<Rightarrow> (int \<times> nv_gsp_gpu_ctx \<times> 'w pramin) option" where
  "nv_gsp_gpu_pool_test io gpu st =
     (if \<not> gx_ok gpu \<or> \<not> gx_external_vmm gpu \<or> gx_scratch_size gpu < 0x40000000 then Some (-1, gpu, st)
      else let boundary = (gx_scratch_va gpu OR 0x1fffffff) + 1;
               offset0 = boundary - gx_scratch_va gpu - ucast (PROBE_BYTES div 2);
               offset1 = gx_scratch_size gpu - ucast PROBE_BYTES;
               gpu = gpu\<lparr>gx_pool_selftest_ok := False\<rparr>
           in do { (rc, gpu, st) \<leftarrow> pool_probe io offset0 0 (gpu, st);
                   if rc \<noteq> 0 then Some (-1, gpu, st)
                   else do { (rc, gpu, st) \<leftarrow> pool_probe io offset1 1 (gpu, st);
                             if rc \<noteq> 0 then Some (-1, gpu, st)
                             else Some (0, gpu\<lparr>gx_pool_selftest_ok := True\<rparr>, st) } })"


section \<open>Memory at the doorbell\<close>

text \<open>The cells of the context: semaphore, command buffer, ring and \<open>GP_PUT\<close>, as byte ranges of VRAM.\<close>

definition ctx_cells :: "nv_gsp_gpu_ctx \<Rightarrow> (nat \<times> nat) list" where
  "ctx_cells gpu = [(unat (gx_sem_phys gpu), 4), (unat (gx_pb_phys gpu), 64),
     (unat (gx_ring_phys gpu), 8 * unat (gx_ring_entries gpu)), (unat (gx_userd_phys gpu) + 0x8c, 4)]"

definition ranges_disjoint :: "(nat \<times> nat) list \<Rightarrow> bool" where
  "ranges_disjoint rs \<longleftrightarrow> (\<forall>i < length rs. \<forall>j < i. fst (rs ! i) + snd (rs ! i) \<le> fst (rs ! j) \<or> fst (rs ! j) + snd (rs ! j) \<le> fst (rs ! i))"

definition ctx_placed :: "nv_gsp_gpu_ctx \<Rightarrow> bool" where
  "ctx_placed gpu \<longleftrightarrow> (\<forall>(a, n) \<in> set (ctx_cells gpu). 4 dvd a \<and> a + n \<le> 2 ^ 40) \<and> ranges_disjoint (ctx_cells gpu)
     \<and> gx_gp_put gpu < gx_ring_entries gpu \<and> unat (gx_ring_entries gpu) < 2 ^ 29"

definition words_at :: "nat \<Rightarrow> u32 list \<Rightarrow> (nat \<Rightarrow> u32) \<Rightarrow> nat \<Rightarrow> u32" where
  "words_at a ws m b = (if a \<le> b \<and> b < a + 4 * length ws \<and> 4 dvd b - a then ws ! ((b - a) div 4) else m b)"

text \<open>What the host reads: an entry of the ring, a run of words.\<close>

definition host_entry :: "(nat \<Rightarrow> u32) \<Rightarrow> nat \<Rightarrow> nat \<Rightarrow> u32 \<times> u32" where
  "host_entry m ring k = (m (ring + 8 * k), m (ring + 8 * k + 4))"

definition host_words :: "(nat \<Rightarrow> u32) \<Rightarrow> nat \<Rightarrow> nat \<Rightarrow> u32 list" where
  "host_words m a n = map (\<lambda>i. m (a + 4 * i)) [0..<n]"

lemma words_at_Nil [simp]: "words_at a [] m = m"
  by (auto simp: words_at_def fun_eq_iff)

lemma words_at_snoc: "words_at a (ws @ [w]) m = (words_at a ws m)(a + 4 * length ws := w)"
proof
  fix b
  show "words_at a (ws @ [w]) m b = ((words_at a ws m)(a + 4 * length ws := w)) b"
  proof (cases "a \<le> b \<and> 4 dvd b - a")
    case True
    then obtain k where "b = a + 4 * k" by (auto simp: dvd_def le_iff_add)
    then show ?thesis by (auto simp: words_at_def nth_append)
  qed (auto simp: words_at_def)
qed

lemma host_words_at: "host_words (words_at a ws m) a (length ws) = ws"
  by (rule nth_equalityI) (auto simp: host_words_def words_at_def)

lemma vram_write_pushbuffer:
  assumes "vram_is io win mem st m" "4 dvd unat a" "unat a + 4 * length ws \<le> 2 ^ 40" "length ws < 2 ^ 30"
  shows "vram_is io win mem (write_pushbuffer io a ws st) (words_at (unat a) ws m)"
  using assms(3,4)
proof (induction ws rule: rev_induct)
  case (snoc w ws)
  have e: "unat (ucast (of_nat (length ws) * 4 :: u32) :: u64) = 4 * length ws"
  proof -
    have "(of_nat (length ws) * 4 :: u32) = of_nat (length ws * 4)" by simp
    then show ?thesis using snoc.prems(2) by (simp add: unat_ucast_small unat_of_nat_small del: of_nat_mult)
  qed
  then have u: "unat (a + ucast (of_nat (length ws) * 4 :: u32)) = unat a + 4 * length ws"
    using snoc.prems(1) by (subst unat_add_small) simp_all
  have f: "fold (\<lambda>i. nv_pramin_wr32 io (a + ucast (of_nat i * 4 :: u32)) ((ws @ [w]) ! i)) [0..<length ws] st
    = write_pushbuffer io a ws st"
    unfolding write_pushbuffer_def by (rule fold_cong) (simp_all add: nth_append)
  have v: "vram_is io win mem (write_pushbuffer io a ws st) (words_at (unat a) ws m)" using snoc by simp
  have "4 dvd unat (a + ucast (of_nat (length ws) * 4 :: u32))" "unat (a + ucast (of_nat (length ws) * 4 :: u32)) < 2 ^ 40"
    unfolding u using assms(2) snoc.prems(1) by simp_all
  from vram_wr32 [OF v this(2,1), of w]
  show ?case unfolding u words_at_snoc
    by (simp add: write_pushbuffer_def [of io a "ws @ [w]"] f del: fun_upd_apply)
qed (use assms(1) in \<open>simp add: write_pushbuffer_def\<close>)

text \<open>The state at the \<open>i\<close>-th read of the wait, and when the wait succeeds.\<close>

primrec polled :: "'w mmio \<Rightarrow> u64 \<Rightarrow> nat \<Rightarrow> 'w pramin \<Rightarrow> 'w pramin" where
  "polled io sem_phys 0 st = st"
| "polled io sem_phys (Suc i) st =
     (let (v, win_base, w) = nv_pramin_rd32 io sem_phys st in polled io sem_phys i (win_base, io_udelay io 20 w))"

lemma sem_wait_hit: "fst (sem_wait io a p n st) \<longleftrightarrow> (\<exists>i < n. fst (nv_pramin_rd32 io a (polled io a i st)) = p)"
proof (induction n arbitrary: st)
  case (Suc n)
  obtain v wb w where r: "nv_pramin_rd32 io a st = (v, wb, w)" by (metis prod_cases3)
  show ?case
    using Suc [of "(wb, io_udelay io 20 w)"] by (auto simp: r Ex_less_Suc2)
qed simp


lemma post_entry_mem:
  assumes st: "vram_is io win mem st m"
    and ring: "4 dvd unat (gx_ring_phys gpu)" "unat (gx_ring_phys gpu) + 8 * unat (gx_ring_entries gpu) \<le> 2 ^ 40"
    and userd: "4 dvd unat (gx_userd_phys gpu) + 0x8c" "unat (gx_userd_phys gpu) + 0x8c + 4 \<le> 2 ^ 40"
    and put: "gx_gp_put gpu < gx_ring_entries gpu" "unat (gx_ring_entries gpu) < 2 ^ 29"
  shows "\<exists>p st' e. post_entry io gpu nd st = (gpu\<lparr>gx_gp_put := p\<rparr>, st')
     \<and> unat p = (unat (gx_gp_put gpu) + 1) mod unat (gx_ring_entries gpu)
     \<and> e = nv_gsp_fifo_gpfifo_entry (gx_pb_va gpu) nd
     \<and> vram_is io win mem st' (m(unat (gx_ring_phys gpu) + 8 * unat (gx_gp_put gpu) := fst e,
          unat (gx_ring_phys gpu) + 8 * unat (gx_gp_put gpu) + 4 := snd e, unat (gx_userd_phys gpu) + 0x8c := p))"
proof -
  let ?k = "unat (gx_gp_put gpu)" and ?r = "gx_ring_phys gpu" and ?u = "gx_userd_phys gpu"
  let ?p = "(gx_gp_put gpu + 1) mod gx_ring_entries gpu"
  obtain e0 e1 where e: "nv_gsp_fifo_gpfifo_entry (gx_pb_va gpu) nd = (e0, e1)" by (metis prod.collapse)
  have k: "?k < unat (gx_ring_entries gpu)" using put(1) by (simp add: word_less_nat_alt)
  have s: "gx_gp_put gpu mod gx_ring_entries gpu = gx_gp_put gpu"
    using k by (simp add: word_unat_eq_iff unat_mod_distrib)
  have k8: "unat (gx_gp_put gpu * 8) = 8 * ?k"
    using k put(2) by (subst unat_mult_small) simp_all
  then have w8: "unat (ucast (gx_gp_put gpu * 8) :: u64) = 8 * ?k"
    using k put(2) by (subst unat_ucast_small) simp_all
  have a0: "unat (?r + ucast (gx_gp_put gpu * 8)) = unat ?r + 8 * ?k"
    using w8 ring(2) k by (subst unat_add_small) simp_all
  then have a4: "unat (?r + ucast (gx_gp_put gpu * 8) + 4) = unat ?r + 8 * ?k + 4"
    using ring(2) k by (subst unat_add_small) simp_all
  have uu: "unat (?u + 0x8c) = unat ?u + 0x8c" using userd(2) by (subst unat_add_small) simp_all
  have p: "unat ?p = (?k + 1) mod unat (gx_ring_entries gpu)"
    using k put(2) by (simp add: unat_mod_distrib unat_add_small)
  have d: "4 dvd unat ?r + 8 * ?k" using ring(1) by simp
  have v0: "vram_is io win mem (nv_pramin_wr32 io (?r + ucast (gx_gp_put gpu * 8)) e0 st) (m(unat ?r + 8 * ?k := e0))"
    using vram_wr32 [OF st, of "?r + ucast (gx_gp_put gpu * 8)" e0] d ring(2) k unfolding a0 by simp
  have v4: "vram_is io win mem (nv_pramin_wr32 io (?r + ucast (gx_gp_put gpu * 8) + 4) e1
      (nv_pramin_wr32 io (?r + ucast (gx_gp_put gpu * 8)) e0 st)) (m(unat ?r + 8 * ?k := e0, unat ?r + 8 * ?k + 4 := e1))"
    using vram_wr32 [OF v0, of "?r + ucast (gx_gp_put gpu * 8) + 4" e1] d ring(2) k unfolding a4 by (simp del: fun_upd_apply)
  show ?thesis
    using vram_wr32 [OF v4, of "?u + 0x8c" ?p] userd p
    by (intro exI [of _ ?p]) (simp add: post_entry_def s e uu Let_def del: fun_upd_apply)
qed


lemma ranges_disjoint4: "ranges_disjoint [(a, n), (b, k), (c, l), (d, p)] \<longleftrightarrow>
  (b + k \<le> a \<or> a + n \<le> b) \<and> (c + l \<le> a \<or> a + n \<le> c) \<and> (c + l \<le> b \<or> b + k \<le> c)
  \<and> (d + p \<le> a \<or> a + n \<le> d) \<and> (d + p \<le> b \<or> b + k \<le> d) \<and> (d + p \<le> c \<or> c + l \<le> d)"
proof -
  have "{..<4} = {0, 1, 2, 3 :: nat}" by auto
  then show ?thesis by (auto simp: ranges_disjoint_def less_Suc_eq numeral_eq_Suc)
qed

lemma payload_not_0: "0xC0DE0000 OR (x AND 0xffff) \<noteq> (0 :: u32)"
proof
  assume "0xC0DE0000 OR (x AND 0xffff) = (0 :: u32)"
  then show False by (simp add: word_or_zero_iff)
qed

lemma ce_copy_length: "length (nv_gsp_fifo_build_ce_copy cls src dst bytes sem payload) \<in> {13 .. 15}"
  by (simp add: nv_gsp_fifo_build_ce_copy_def Let_def)

text \<open>The memory when the doorbell rings.\<close>

lemma memory_at_doorbell:
  assumes st: "vram_is io win mem st m" and pl: "ctx_placed gpu" and n: "length pb \<le> 16"
  shows "\<exists>p st1 m1 e. post_entry io gpu (of_nat (length pb)) (write_pushbuffer io (gx_pb_phys gpu) pb
           (nv_pramin_wr32 io (gx_sem_phys gpu) 0 st)) = (gpu\<lparr>gx_gp_put := p\<rparr>, st1)
     \<and> unat p = (unat (gx_gp_put gpu) + 1) mod unat (gx_ring_entries gpu)
     \<and> vram_is io win mem st1 m1 \<and> e = nv_gsp_fifo_gpfifo_entry (gx_pb_va gpu) (of_nat (length pb))
     \<and> host_entry m1 (unat (gx_ring_phys gpu)) (unat (gx_gp_put gpu)) = e
     \<and> host_words m1 (unat (gx_pb_phys gpu)) (length pb) = pb
     \<and> m1 (unat (gx_sem_phys gpu)) = 0 \<and> m1 (unat (gx_userd_phys gpu) + 0x8c) = p
     \<and> {a. m1 a \<noteq> m a} \<subseteq> (\<Union>(a, n) \<in> set (ctx_cells gpu). {a ..< a + n})"
proof -
  let ?s = "unat (gx_sem_phys gpu)" and ?b = "unat (gx_pb_phys gpu)" and ?r = "unat (gx_ring_phys gpu)"
    and ?u = "unat (gx_userd_phys gpu) + 0x8c" and ?k = "unat (gx_gp_put gpu)" and ?n = "unat (gx_ring_entries gpu)"
  have c: "4 dvd ?s" "?s + 4 \<le> 2 ^ 40" "4 dvd ?b" "?b + 64 \<le> 2 ^ 40" "4 dvd ?r" "?r + 8 * ?n \<le> 2 ^ 40"
    "4 dvd ?u" "?u + 4 \<le> 2 ^ 40" "gx_gp_put gpu < gx_ring_entries gpu" "?n < 2 ^ 29"
    using pl by (simp_all add: ctx_placed_def ctx_cells_def)
  have d: "?b + 64 \<le> ?s \<or> ?s + 4 \<le> ?b" "?r + 8 * ?n \<le> ?s \<or> ?s + 4 \<le> ?r" "?r + 8 * ?n \<le> ?b \<or> ?b + 64 \<le> ?r"
    "?u + 4 \<le> ?s \<or> ?s + 4 \<le> ?u" "?u + 4 \<le> ?b \<or> ?b + 64 \<le> ?u" "?u + 4 \<le> ?r \<or> ?r + 8 * ?n \<le> ?u"
    using pl unfolding ctx_placed_def ctx_cells_def ranges_disjoint4 by blast+
  have k: "?k < ?n" using c(9) by (simp add: word_less_nat_alt)
  have v1: "vram_is io win mem (nv_pramin_wr32 io (gx_sem_phys gpu) 0 st) (m(?s := 0))"
    using vram_wr32 [OF st, of "gx_sem_phys gpu" 0] c(1,2) by simp
  have v2: "vram_is io win mem (write_pushbuffer io (gx_pb_phys gpu) pb (nv_pramin_wr32 io (gx_sem_phys gpu) 0 st))
      (words_at ?b pb (m(?s := 0)))"
    by (rule vram_write_pushbuffer [OF v1 c(3)]) (use c(4) n in simp_all)
  obtain p st1 e where e: "post_entry io gpu (of_nat (length pb)) (write_pushbuffer io (gx_pb_phys gpu) pb
        (nv_pramin_wr32 io (gx_sem_phys gpu) 0 st)) = (gpu\<lparr>gx_gp_put := p\<rparr>, st1)"
    "unat p = (?k + 1) mod ?n" "e = nv_gsp_fifo_gpfifo_entry (gx_pb_va gpu) (of_nat (length pb))"
    "vram_is io win mem st1 ((words_at ?b pb (m(?s := 0)))(?r + 8 * ?k := fst e, ?r + 8 * ?k + 4 := snd e, ?u := p))"
    using post_entry_mem [OF v2 c(5-10), of "of_nat (length pb)"] by blast
  define m1 where "m1 = (words_at ?b pb (m(?s := 0)))(?r + 8 * ?k := fst e, ?r + 8 * ?k + 4 := snd e, ?u := p)"
  have w: "m1 b = words_at ?b pb (m(?s := 0)) b" if "b + 4 \<le> ?r \<or> ?r + 8 * ?n \<le> b" "b \<noteq> ?u" for b
    using that k by (auto simp: m1_def)
  have pb: "host_words m1 ?b (length pb) = host_words (words_at ?b pb (m(?s := 0))) ?b (length pb)"
    unfolding host_words_def by (rule map_cong [OF refl], rule w) (use d n in auto)
  have sem: "m1 ?s = 0" using w [of ?s] d n by (auto simp: words_at_def)
  have out: "m1 a = m a" if "a \<notin> (\<Union>(a, n) \<in> set (ctx_cells gpu). {a ..< a + n})" for a
  proof -
    have o: "\<not> (?s \<le> a \<and> a < ?s + 4)" "\<not> (?b \<le> a \<and> a < ?b + 64)" "\<not> (?r \<le> a \<and> a < ?r + 8 * ?n)"
      "\<not> (?u \<le> a \<and> a < ?u + 4)"
      using that by (simp_all add: ctx_cells_def)
    have "a \<noteq> ?s" "\<not> (?b \<le> a \<and> a < ?b + 4 * length pb)" "a \<noteq> ?u"
      using o n by linarith+
    moreover have "a \<noteq> ?r + 8 * ?k" "a \<noteq> ?r + 8 * ?k + 4" using o(3) k by linarith+
    ultimately show ?thesis by (auto simp: m1_def words_at_def)
  qed
  have en: "host_entry m1 ?r ?k = e" using d(6) k by (auto simp: host_entry_def m1_def)
  have pb': "host_words m1 ?b (length pb) = pb" unfolding pb host_words_at ..
  have put: "m1 ?u = p" by (simp add: m1_def)
  have sub: "{a. m1 a \<noteq> m a} \<subseteq> (\<Union>(a, n) \<in> set (ctx_cells gpu). {a ..< a + n})" using out by blast
  show ?thesis
    by (rule exI [of _ p], rule exI [of _ st1], rule exI [of _ m1], rule exI [of _ e], intro conjI, rule e(1), rule e(2),
        rule e(4) [folded m1_def], rule e(3), rule en, rule pb', rule sem, rule put, rule sub)
qed


lemma gpu_copy_run:
  fixes gpu io src dst bytes t
  defines "g \<equiv> gpu\<lparr>gx_seq := gx_seq gpu + 1\<rparr>"
  defines "payload \<equiv> 0xC0DE0000 OR ((gx_seq gpu + 1) AND 0xffff)"
  defines "cls \<equiv> (if gx_object_bound gpu then 0 else gx_class_engine_id gpu)"
  defines "pb \<equiv> nv_gsp_fifo_build_ce_copy cls src dst bytes (gx_sem_va gpu) payload"
  assumes "gx_ok gpu" "bytes \<noteq> 0" "gx_ring_entries gpu \<noteq> 0"
    and "post_entry io g (of_nat (length pb)) (write_pushbuffer io (gx_pb_phys gpu) pb
           (nv_pramin_wr32 io (gx_sem_phys gpu) 0 st)) = (g2, st1)"
    and "sem_wait io (gx_sem_phys gpu) payload (unat ((if t \<noteq> 0 then t else 2000) * 50 :: u32))
           (ring_doorbell io g2 st1) = (hit, st2)"
  shows "nv_gsp_gpu_copy io gpu src dst bytes t st =
    (if hit then (0, if cls \<noteq> 0 then g2\<lparr>gx_object_bound := True\<rparr> else g2, st2)
     else (-1, g2\<lparr>gx_ok := False\<rparr>, snd (nv_pramin_rd32 io (gx_sem_phys gpu) st2)))"
proof -
  have f: "gx_seq g = gx_seq gpu + 1" "gx_object_bound g = gx_object_bound gpu" "gx_sem_va g = gx_sem_va gpu"
    "gx_class_engine_id g = gx_class_engine_id gpu" "gx_sem_phys g = gx_sem_phys gpu" "gx_pb_phys g = gx_pb_phys gpu"
    by (simp_all add: g_def)
  have nd: "(of_nat (length pb) :: u32) \<noteq> 0"
    using ce_copy_length [of cls src dst bytes "gx_sem_va gpu" payload] unfolding pb_def
    by (auto simp: word_unat_eq_iff unat_of_nat_small)
  have s: "gx_sem_phys g2 = gx_sem_phys gpu" using assms(8) by (auto simp: post_entry_def g_def Let_def split: prod.splits)
  show ?thesis
    unfolding nv_gsp_gpu_copy_def g_def [symmetric] Let_def f payload_def [symmetric] cls_def [symmetric]
      pb_def [symmetric] assms(8) prod.case s assms(9)
    using assms(5-7) nd by (simp only: simp_thms if_False refl)
qed

text \<open>The probe of the pool ends on any hardware; success sets the flag.\<close>

lemma probe_fill_returns: "\<exists>st'. probe_fill io gpu off n st = Some st'"
  unfolding probe_fill_def Let_def by (subst for_upto_mfold) simp_all

lemma probe_check_returns: "probe_check io gpu off n s \<noteq> None"
  unfolding probe_check_def Let_def split_def by (subst for_upto_mfold) simp_all

lemma pool_probe_returns: "\<exists>rc gpu' st'. pool_probe io off n (gpu, st) = Some (rc, gpu', st') \<and> rc \<in> {0, -1}"
proof (cases "off < ucast PROBE_BYTES \<or> off > gx_scratch_size gpu - ucast PROBE_BYTES")
  case False
  obtain st1 where f: "probe_fill io gpu off n st = Some st1" using probe_fill_returns by blast
  obtain rc g st2 where c: "nv_gsp_gpu_copy io gpu (gx_scratch_va gpu) (gx_scratch_va gpu + off) PROBE_BYTES 2000 st1 = (rc, g, st2)"
    by (metis prod_cases3)
  obtain bad st3 where k: "probe_check io g off n (0, st2) = Some (bad, st3)" using probe_check_returns by (metis not_None_eq prod.collapse)
  show ?thesis using False f c k by (auto simp: pool_probe_def)
qed (auto simp: pool_probe_def)

lemma pool_test_returns:
  "\<exists>rc gpu' st'. nv_gsp_gpu_pool_test io gpu st = Some (rc, gpu', st') \<and> rc \<in> {0, -1} \<and> (rc = 0 \<longrightarrow> gx_pool_selftest_ok gpu')"
proof (cases "\<not> gx_ok gpu \<or> \<not> gx_external_vmm gpu \<or> gx_scratch_size gpu < 0x40000000")
  case False
  define off0 where "off0 = (gx_scratch_va gpu OR 0x1fffffff) + 1 - gx_scratch_va gpu - ucast (PROBE_BYTES div 2)"
  let ?g = "gpu\<lparr>gx_pool_selftest_ok := False\<rparr>" and ?off1 = "gx_scratch_size gpu - ucast PROBE_BYTES"
  obtain rc0 g0 st0 where p0: "pool_probe io off0 0 (?g, st) = Some (rc0, g0, st0)" using pool_probe_returns by blast
  obtain rc1 g1 st1 where p1: "pool_probe io ?off1 1 (g0, st0) = Some (rc1, g1, st1)" using pool_probe_returns by blast
  show ?thesis
    using False p0 p1 unfolding nv_gsp_gpu_pool_test_def Let_def off0_def [symmetric] by auto
qed (auto simp: nv_gsp_gpu_pool_test_def)

section \<open>What is submitted\<close>

text \<open>
  The host reads the entry of slot \<open>k\<close> of the ring; it names the command buffer, whose words are the methods of
  a copy of \<open>bytes\<close> from \<open>src\<close> to \<open>dst\<close>, with the release of \<open>payload\<close> at the semaphore.
\<close>

definition class_method :: "nv_gsp_gpu_ctx \<Rightarrow> (nat \<times> nat \<times> u32) list" where
  "class_method gpu =
     (if gx_object_bound gpu \<or> gx_class_engine_id gpu = 0 then [] else [(4, 0x000, gx_class_engine_id gpu)])"

definition copy_request :: "nv_gsp_gpu_ctx \<Rightarrow> (nat \<Rightarrow> u32) \<Rightarrow> nat \<Rightarrow> nat \<Rightarrow> nat \<Rightarrow> u32 \<Rightarrow> u32 \<Rightarrow> bool" where
  "copy_request gpu m k src dst bytes payload \<longleftrightarrow>
     (\<exists>e sh sl ah al dh dl. e = host_entry m (unat (gx_ring_phys gpu)) k \<and> entry_va e = unat (gx_pb_va gpu)
        \<and> methods (host_words m (unat (gx_pb_phys gpu)) (entry_len e)) = Some (class_method gpu
            @ [(4, 0x240, sh), (4, 0x244, sl), (4, 0x248, payload), (4, 0x400, ah), (4, 0x404, al),
               (4, 0x408, dh), (4, 0x40C, dl), (4, 0x418, bytes), (4, 0x300, ce_launch)])
        \<and> va_of sh sl = unat (gx_sem_va gpu) \<and> va_of ah al = src \<and> va_of dh dl = dst)"

text \<open>The context after a copy that was posted with \<open>p\<close> as the new \<open>GP_PUT\<close>.\<close>

definition ctx_after :: "nv_gsp_gpu_ctx \<Rightarrow> u32 \<Rightarrow> bool \<Rightarrow> nv_gsp_gpu_ctx" where
  "ctx_after gpu p hit = gpu\<lparr>gx_seq := gx_seq gpu + 1, gx_gp_put := p,
     gx_object_bound := gx_object_bound gpu \<or> hit \<and> gx_class_engine_id gpu \<noteq> 0, gx_ok := gx_ok gpu \<and> hit\<rparr>"

lemma memory_is_request:
  assumes va: "unat src < 2 ^ 49" "unat dst < 2 ^ 49" "unat (gx_sem_va gpu) < 2 ^ 49" "unat (gx_pb_va gpu) < 2 ^ 40"
      "4 dvd unat (gx_pb_va gpu)"
    and pb: "pb = nv_gsp_fifo_build_ce_copy (if gx_object_bound gpu then 0 else gx_class_engine_id gpu) src dst bytes
      (gx_sem_va gpu) payload"
    and e: "host_entry m1 (unat (gx_ring_phys gpu)) k = nv_gsp_fifo_gpfifo_entry (gx_pb_va gpu) (of_nat (length pb))"
    and ws: "host_words m1 (unat (gx_pb_phys gpu)) (length pb) = pb"
  shows "copy_request gpu m1 k (unat src) (unat dst) bytes payload"
proof -
  have len: "length pb \<in> {13 .. 15}" unfolding pb by (rule ce_copy_length)
  then have nd: "unat (of_nat (length pb) :: u32) = length pb" by (auto simp: unat_of_nat_small)
  have de: "entry_va (nv_gsp_fifo_gpfifo_entry (gx_pb_va gpu) (of_nat (length pb))) = unat (gx_pb_va gpu)"
    "entry_len (nv_gsp_fifo_gpfifo_entry (gx_pb_va gpu) (of_nat (length pb))) = length pb"
    using gpfifo_entry_decodes [OF va(4,5), of "of_nat (length pb)"] len unfolding nd by simp_all
  have ms: "methods pb = Some (class_method gpu
     @ [(4, 0x240, ucast (drop_bit 32 (gx_sem_va gpu) AND 0x1ffff)), (4, 0x244, ucast (gx_sem_va gpu AND 0xffffffff)),
        (4, 0x248, payload), (4, 0x400, ucast (drop_bit 32 src AND 0x1ffff)), (4, 0x404, ucast (src AND 0xffffffff)),
        (4, 0x408, ucast (drop_bit 32 dst AND 0x1ffff)), (4, 0x40C, ucast (dst AND 0xffffffff)),
        (4, 0x418, bytes), (4, 0x300, ce_launch)])"
    unfolding pb ce_copy_methods by (simp add: class_method_def)
  show ?thesis
    unfolding copy_request_def e
    by (rule exI [of _ "nv_gsp_fifo_gpfifo_entry (gx_pb_va gpu) (of_nat (length pb))"], (rule exI)+, intro conjI, rule refl,
        rule de(1), subst de(2), subst ws, rule ms)
      (rule va_of_split [OF va(3)], rule va_of_split [OF va(1)], rule va_of_split [OF va(2)])
qed

lemma gpu_copy_core:
  assumes st: "vram_is io win mem st m" and ctx: "ctx_placed gpu" "gx_ok gpu" and b: "bytes \<noteq> 0"
    and va: "unat src < 2 ^ 49" "unat dst < 2 ^ 49" "unat (gx_sem_va gpu) < 2 ^ 49" "unat (gx_pb_va gpu) < 2 ^ 40"
      "4 dvd unat (gx_pb_va gpu)"
    and payload: "payload = 0xC0DE0000 OR ((gx_seq gpu + 1) AND 0xffff)"
    and ticks: "ticks = unat ((if t \<noteq> 0 then t else 2000) * 50 :: u32)"
  shows "\<exists>st1 m1 p hit st2. vram_is io win mem st1 m1
     \<and> copy_request gpu m1 (unat (gx_gp_put gpu)) (unat src) (unat dst) bytes payload
     \<and> m1 (unat (gx_sem_phys gpu)) = 0 \<and> m1 (unat (gx_userd_phys gpu) + 0x8c) = p
     \<and> unat p = (unat (gx_gp_put gpu) + 1) mod unat (gx_ring_entries gpu)
     \<and> {a. m1 a \<noteq> m a} \<subseteq> (\<Union>(a, n) \<in> set (ctx_cells gpu). {a ..< a + n})
     \<and> sem_wait io (gx_sem_phys gpu) payload ticks (ring_doorbell io gpu st1) = (hit, st2)
     \<and> nv_gsp_gpu_copy io gpu src dst bytes t st = (if hit then 0 else -1, ctx_after gpu p hit,
          if hit then st2 else snd (nv_pramin_rd32 io (gx_sem_phys gpu) st2))"
proof -
  let ?g = "gpu\<lparr>gx_seq := gx_seq gpu + 1\<rparr>"
  define cls where "cls = (if gx_object_bound gpu then 0 else gx_class_engine_id gpu)"
  define pb where "pb = nv_gsp_fifo_build_ce_copy cls src dst bytes (gx_sem_va gpu) payload"
  have "length pb \<in> {13 .. 15}" unfolding pb_def by (rule ce_copy_length)
  then have n: "length pb \<le> 16" by simp
  have ctx': "ctx_placed ?g" using ctx(1) by (simp add: ctx_placed_def ctx_cells_def)
  then have en: "gx_ring_entries gpu \<noteq> 0" by (auto simp: ctx_placed_def)
  have f: "gx_sem_phys ?g = gx_sem_phys gpu" "gx_pb_phys ?g = gx_pb_phys gpu" "gx_ring_phys ?g = gx_ring_phys gpu"
    "gx_userd_phys ?g = gx_userd_phys gpu" "gx_gp_put ?g = gx_gp_put gpu" "gx_ring_entries ?g = gx_ring_entries gpu"
    "gx_pb_va ?g = gx_pb_va gpu" "ctx_cells ?g = ctx_cells gpu"
    by (simp_all add: ctx_cells_def)
  obtain p st1 m1 e where d: "post_entry io ?g (of_nat (length pb)) (write_pushbuffer io (gx_pb_phys gpu) pb
        (nv_pramin_wr32 io (gx_sem_phys gpu) 0 st)) = (?g\<lparr>gx_gp_put := p\<rparr>, st1)"
    "unat p = (unat (gx_gp_put gpu) + 1) mod unat (gx_ring_entries gpu)" "vram_is io win mem st1 m1"
    "e = nv_gsp_fifo_gpfifo_entry (gx_pb_va gpu) (of_nat (length pb))"
    "host_entry m1 (unat (gx_ring_phys gpu)) (unat (gx_gp_put gpu)) = e"
    "host_words m1 (unat (gx_pb_phys gpu)) (length pb) = pb" "m1 (unat (gx_sem_phys gpu)) = 0"
    "m1 (unat (gx_userd_phys gpu) + 0x8c) = p" "{a. m1 a \<noteq> m a} \<subseteq> (\<Union>(a, n) \<in> set (ctx_cells gpu). {a ..< a + n})"
    using memory_at_doorbell [OF st ctx' n, unfolded f] by blast
  obtain hit st2 where w: "sem_wait io (gx_sem_phys gpu) payload ticks (ring_doorbell io gpu st1) = (hit, st2)"
    by (metis prod.collapse)
  have db: "ring_doorbell io (?g\<lparr>gx_gp_put := p\<rparr>) = ring_doorbell io gpu" by (simp add: ring_doorbell_def)
  have run: "nv_gsp_gpu_copy io gpu src dst bytes t st =
      (if hit then (0, if cls \<noteq> 0 then ?g\<lparr>gx_gp_put := p, gx_object_bound := True\<rparr> else ?g\<lparr>gx_gp_put := p\<rparr>, st2)
       else (-1, ?g\<lparr>gx_gp_put := p, gx_ok := False\<rparr>, snd (nv_pramin_rd32 io (gx_sem_phys gpu) st2)))"
    using gpu_copy_run [where io = io and src = src and dst = dst and t = t, OF ctx(2) b en, folded payload cls_def, folded pb_def, folded ticks, OF d(1), unfolded db, OF w] .
  have af: "nv_gsp_gpu_copy io gpu src dst bytes t st = (if hit then 0 else -1, ctx_after gpu p hit,
      if hit then st2 else snd (nv_pramin_rd32 io (gx_sem_phys gpu) st2))"
    unfolding run using ctx(2) by (auto simp: ctx_after_def cls_def)
  have rq: "copy_request gpu m1 (unat (gx_gp_put gpu)) (unat src) (unat dst) bytes payload"
    by (rule memory_is_request [OF va pb_def [unfolded cls_def] d(5) [unfolded d(4)] d(6)])
  show ?thesis
    by (rule exI [of _ st1], rule exI [of _ m1], rule exI [of _ p], rule exI [of _ hit], rule exI [of _ st2], intro conjI)
      (rule d(3), rule rq, rule d(7), rule d(8), rule d(2), rule d(9), rule w, rule af)
qed

section \<open>Properties\<close>

text \<open>
  C7. A copy on a placed context always returns.  When the doorbell rings, VRAM holds what the host needs:
  the ring entry of the current slot names the command buffer, whose words decode to the requested copy
  and to the release of the payload at the semaphore; the semaphore is 0, the payload is not; \<open>GP_PUT\<close> has
  moved by one inside the ring; nothing outside the cells of the context has changed.  The result is 0
  exactly when one of the reads of the wait shows the payload, and the context stays usable exactly then.
\<close>

theorem nv_gsp_gpu_copy_submits:
  assumes st: "vram_is io win mem st m" and ctx: "ctx_placed gpu" "gx_ok gpu" and b: "bytes \<noteq> 0"
    and va: "unat src < 2 ^ 49" "unat dst < 2 ^ 49" "unat (gx_sem_va gpu) < 2 ^ 49" "unat (gx_pb_va gpu) < 2 ^ 40"
      "4 dvd unat (gx_pb_va gpu)"
    and payload: "payload = 0xC0DE0000 OR ((gx_seq gpu + 1) AND 0xffff)"
    and ticks: "ticks = unat ((if t \<noteq> 0 then t else 2000) * 50 :: u32)"
  shows "\<exists>st1 m1 rc gpu' st'. nv_gsp_gpu_copy io gpu src dst bytes t st = (rc, gpu', st')
     \<and> vram_is io win mem st1 m1
     \<and> copy_request gpu m1 (unat (gx_gp_put gpu)) (unat src) (unat dst) bytes payload
     \<and> m1 (unat (gx_sem_phys gpu)) = 0 \<and> payload \<noteq> 0 \<and> gx_gp_put gpu' = m1 (unat (gx_userd_phys gpu) + 0x8c)
     \<and> unat (gx_gp_put gpu') = (unat (gx_gp_put gpu) + 1) mod unat (gx_ring_entries gpu)
     \<and> {a. m1 a \<noteq> m a} \<subseteq> (\<Union>(a, n) \<in> set (ctx_cells gpu). {a ..< a + n})
     \<and> rc = (if \<exists>i < ticks. fst (nv_pramin_rd32 io (gx_sem_phys gpu)
               (polled io (gx_sem_phys gpu) i (ring_doorbell io gpu st1))) = payload then 0 else -1)
     \<and> (gx_ok gpu' \<longleftrightarrow> rc = 0)"
proof -
  obtain st1 m1 p hit st2 where c: "vram_is io win mem st1 m1"
    "copy_request gpu m1 (unat (gx_gp_put gpu)) (unat src) (unat dst) bytes payload"
    "m1 (unat (gx_sem_phys gpu)) = 0" "m1 (unat (gx_userd_phys gpu) + 0x8c) = p"
    "unat p = (unat (gx_gp_put gpu) + 1) mod unat (gx_ring_entries gpu)"
    "{a. m1 a \<noteq> m a} \<subseteq> (\<Union>(a, n) \<in> set (ctx_cells gpu). {a ..< a + n})"
    "sem_wait io (gx_sem_phys gpu) payload ticks (ring_doorbell io gpu st1) = (hit, st2)"
    "nv_gsp_gpu_copy io gpu src dst bytes t st = (if hit then 0 else -1, ctx_after gpu p hit,
       if hit then st2 else snd (nv_pramin_rd32 io (gx_sem_phys gpu) st2))"
    using gpu_copy_core [OF assms] by blast
  have hit: "(\<exists>i < ticks. fst (nv_pramin_rd32 io (gx_sem_phys gpu)
      (polled io (gx_sem_phys gpu) i (ring_doorbell io gpu st1))) = payload) = hit"
    using sem_wait_hit [of io "gx_sem_phys gpu" payload ticks "ring_doorbell io gpu st1"] c(7) by simp
  have "payload \<noteq> 0" unfolding payload by (rule payload_not_0)
  then show ?thesis unfolding c(8)
    by - (rule exI [of _ st1], rule exI [of _ m1], (rule exI)+, intro conjI, rule refl, rule c(1), rule c(2), rule c(3), assumption,
      use c(4-6) ctx(2) in \<open>simp_all add: hit ctx_after_def\<close>)
qed

definition demo_gpu :: nv_gsp_gpu_ctx where
  "demo_gpu = \<lparr>gx_ok = True, gx_external_vmm = True, gx_pool_selftest_ok = False, gx_h_client = 1, gx_h_device = 2,
     gx_h_vaspace = 3, gx_h_channel = 4, gx_h_ce = 5, gx_chid = 1, gx_runlist = 2, gx_engine_type = 9,
     gx_ring_va = 0x40000000, gx_ring_phys = 0x200000, gx_ring_entries = 8, gx_pb_va = 0x40001000, gx_pb_phys = 0x201000,
     gx_sem_va = 0x40002000, gx_sem_phys = 0x202000, gx_userd_phys = 0x300000, gx_scratch_va = 0x40100000,
     gx_scratch_phys = 0x400000, gx_scratch_size = 0x40000000, gx_class_engine_id = 0xC7B5, gx_gp_put = 7, gx_seq = 4,
     gx_object_bound = False, gx_selftest_ok = False\<rparr>"

lemma demo_gpu_placed: "ctx_placed demo_gpu" "gx_ok demo_gpu"
  unfolding ctx_placed_def ctx_cells_def ranges_disjoint4 demo_gpu_def by (simp_all add: word_less_nat_alt)

text \<open>The ring has eight entries and the context stands at the last: the copy uses it and \<open>GP_PUT\<close> wraps to 0.\<close>

theorem nv_gsp_gpu_copy_witness:
  "\<exists>rc gpu' st' m1. nv_gsp_gpu_copy demo_io demo_gpu 0x40100000 0x40200000 4096 1 demo_vram = (rc, gpu', st')
     \<and> entry_va (host_entry m1 0x200000 7) = 0x40001000 \<and> unat (gx_gp_put gpu') = 0
     \<and> m1 0x202000 = 0 \<and> m1 0x30008c = gx_gp_put gpu'"
proof -
  have v: "unat (0x40100000 :: u64) < 2 ^ 49" "unat (0x40200000 :: u64) < 2 ^ 49" "unat (gx_sem_va demo_gpu) < 2 ^ 49"
    "unat (gx_pb_va demo_gpu) < 2 ^ 40" "4 dvd unat (gx_pb_va demo_gpu)" "(4096 :: u32) \<noteq> 0"
    by (simp_all add: demo_gpu_def)
  have f: "unat (gx_ring_phys demo_gpu) = 0x200000" "unat (gx_gp_put demo_gpu) = 7" "unat (gx_pb_va demo_gpu) = 0x40001000"
    "unat (gx_sem_phys demo_gpu) = 0x202000" "unat (gx_userd_phys demo_gpu) + 0x8c = 0x30008c" "unat (gx_ring_entries demo_gpu) = 8"
    by (simp_all add: demo_gpu_def)
  obtain m1 rc gpu' st' where r:
    "nv_gsp_gpu_copy demo_io demo_gpu 0x40100000 0x40200000 4096 1 demo_vram = (rc, gpu', st')"
    "copy_request demo_gpu m1 7 0x40100000 0x40200000 4096 (0xC0DE0000 OR ((gx_seq demo_gpu + 1) AND 0xffff))"
    "m1 0x202000 = 0" "gx_gp_put gpu' = m1 0x30008c" "unat (gx_gp_put gpu') = (7 + 1) mod 8"
    using nv_gsp_gpu_copy_submits [OF demo_vram_is demo_gpu_placed v(6) v(1-5) refl refl, of 1, unfolded f] by auto
  have e: "entry_va (host_entry m1 0x200000 7) = 0x40001000" using r(2) unfolding copy_request_def f by (auto simp: demo_gpu_def)
  show ?thesis
    by (rule exI [of _ rc], rule exI [of _ gpu'], rule exI [of _ st'], rule exI [of _ m1]) (use r e in simp)
qed

end
