(* ===== verification/DispPush.thy ===== *)
theory DispPush
  imports Bytes
begin

text \<open>
  \<open>driver/gsp/gsp_disp.c\<close>, the part that builds data: the command streams of the core and window channels, the
  timing of a monitor, DMA descriptors and the hash table of handles.  A command buffer is a byte list with a
  32-bit offset; a builder is the list of the methods it pushes.
\<close>

abbreviation (input) NVC37D_DMA_OPCODE_METHOD :: u32 where "NVC37D_DMA_OPCODE_METHOD \<equiv> 0"
abbreviation (input) NVC37D_UPDATE :: u32 where "NVC37D_UPDATE \<equiv> 0x200"
abbreviation (input) NVC37D_UPDATE_DATA :: u32 where "NVC37D_UPDATE_DATA \<equiv> 0x1"
abbreviation (input) NVC37D_HEAD_CONTROL_PROGRESSIVE :: u32 where "NVC37D_HEAD_CONTROL_PROGRESSIVE \<equiv> 0"
abbreviation (input) NVC37D_SET_CONTEXT_DMA_NOTIFIER :: u32 where "NVC37D_SET_CONTEXT_DMA_NOTIFIER \<equiv> 0x208"
abbreviation (input) NVC37D_SET_INTERLOCK_FLAGS :: u32 where "NVC37D_SET_INTERLOCK_FLAGS \<equiv> 0x218"
abbreviation (input) NVC37D_SET_WINDOW_INTERLOCK_FLAGS :: u32 where "NVC37D_SET_WINDOW_INTERLOCK_FLAGS \<equiv> 0x21C"
abbreviation (input) NVC37D_WIN_FORMAT_USAGE_DEFAULT :: u32 where "NVC37D_WIN_FORMAT_USAGE_DEFAULT \<equiv> 0x1F"
abbreviation (input) NVC37D_WIN_USAGE_BOUNDS_DEFAULT :: u32 where "NVC37D_WIN_USAGE_BOUNDS_DEFAULT \<equiv> 0x127FFF"
abbreviation (input) NVC37E_UPDATE :: u32 where "NVC37E_UPDATE \<equiv> 0x200"
abbreviation (input) NVC37E_SET_PRESENT_CONTROL :: u32 where "NVC37E_SET_PRESENT_CONTROL \<equiv> 0x308"
abbreviation (input) NVC37E_SET_SIZE :: u32 where "NVC37E_SET_SIZE \<equiv> 0x224"
abbreviation (input) NVC37E_SET_STORAGE :: u32 where "NVC37E_SET_STORAGE \<equiv> 0x228"
abbreviation (input) NVC37E_SET_PARAMS :: u32 where "NVC37E_SET_PARAMS \<equiv> 0x22C"
abbreviation (input) NVC37E_SET_SIZE_IN :: u32 where "NVC37E_SET_SIZE_IN \<equiv> 0x298"
abbreviation (input) NVC37E_SET_SIZE_OUT :: u32 where "NVC37E_SET_SIZE_OUT \<equiv> 0x2A4"
abbreviation (input) NVC37E_SET_INTERLOCK_FLAGS :: u32 where "NVC37E_SET_INTERLOCK_FLAGS \<equiv> 0x370"
abbreviation (input) NVC37E_SET_WINDOW_INTERLOCK_FLAGS :: u32 where "NVC37E_SET_WINDOW_INTERLOCK_FLAGS \<equiv> 0x374"
abbreviation (input) NVC37E_SET_COMPOSITION_CONTROL :: u32 where "NVC37E_SET_COMPOSITION_CONTROL \<equiv> 0x2EC"
abbreviation (input) NVC37E_SET_COMPOSITION_CONSTANT_ALPHA :: u32 where "NVC37E_SET_COMPOSITION_CONSTANT_ALPHA \<equiv> 0x2F0"
abbreviation (input) NVC37E_SET_COMPOSITION_FACTOR_SELECT :: u32 where "NVC37E_SET_COMPOSITION_FACTOR_SELECT \<equiv> 0x2F4"
abbreviation (input) NVC37E_FACTOR_OPAQUE :: u32 where "NVC37E_FACTOR_OPAQUE \<equiv> 17442"
abbreviation (input) NVC37E_CONST_ALPHA_K1 :: u32 where "NVC37E_CONST_ALPHA_K1 \<equiv> 0xFF"
abbreviation (input) NVC37E_COMPOSITION_CONTROL_VAL :: u32 where "NVC37E_COMPOSITION_CONTROL_VAL \<equiv> 4080"
abbreviation (input) NVC67E_STORAGE_BLOCK_HEIGHT_ONE_GOB :: u32 where "NVC67E_STORAGE_BLOCK_HEIGHT_ONE_GOB \<equiv> 0"
abbreviation (input) NVC37E_INTERLOCK_WITH_CORE_BIT :: u32 where "NVC37E_INTERLOCK_WITH_CORE_BIT \<equiv> 1"
abbreviation (input) NV_CTXDMA_DESC_SIZE :: nat where "NV_CTXDMA_DESC_SIZE \<equiv> 24"
abbreviation (input) NV_CTXDMA_TARGET_VRAM :: u32 where "NV_CTXDMA_TARGET_VRAM \<equiv> 0x1"
abbreviation (input) NV_CTXDMA_FLAGS0_RW :: u32 where "NV_CTXDMA_FLAGS0_RW \<equiv> 0x4"
abbreviation (input) NV_CTXDMA_FLAGS0_PAGE_SP :: u32 where "NV_CTXDMA_FLAGS0_PAGE_SP \<equiv> 0x40"
abbreviation (input) NV_DISP_RAMHT_BITS :: nat where "NV_DISP_RAMHT_BITS \<equiv> 10"
abbreviation (input) NV_DISP_RAMHT_SIZE :: u32 where "NV_DISP_RAMHT_SIZE \<equiv> 1024"
abbreviation (input) NVC37D_ORESOURCE_PIXEL_DEPTH_BPP_24_444 :: u32 where "NVC37D_ORESOURCE_PIXEL_DEPTH_BPP_24_444 \<equiv> 4"
abbreviation (input) NVC77D_HEAD_SET_RASTER_SIZE :: "u32 \<Rightarrow> u32" where "NVC77D_HEAD_SET_RASTER_SIZE a \<equiv> 0x2064 + a * 0x400"
abbreviation (input) NVC37D_HEAD_SET_PIXEL_CLOCK_FREQUENCY :: "u32 \<Rightarrow> u32" where "NVC37D_HEAD_SET_PIXEL_CLOCK_FREQUENCY a \<equiv> 0x200C + a * 0x400"
abbreviation (input) NVC37D_HEAD_SET_PIXEL_CLOCK_FREQUENCY_MAX :: "u32 \<Rightarrow> u32" where "NVC37D_HEAD_SET_PIXEL_CLOCK_FREQUENCY_MAX a \<equiv> 0x2028 + a * 0x400"
abbreviation (input) NVC37D_HEAD_SET_VIEWPORT_POINT_IN :: "u32 \<Rightarrow> u32" where "NVC37D_HEAD_SET_VIEWPORT_POINT_IN a \<equiv> 0x2048 + a * 0x400"
abbreviation (input) NVC37D_HEAD_SET_RASTER_VERT_BLANK2 :: "u32 \<Rightarrow> u32" where "NVC37D_HEAD_SET_RASTER_VERT_BLANK2 a \<equiv> 0x2074 + a * 0x400"
abbreviation (input) NVC37D_WINDOW_SET_WINDOW_FORMAT_USAGE_BOUNDS :: "u32 \<Rightarrow> u32" where "NVC37D_WINDOW_SET_WINDOW_FORMAT_USAGE_BOUNDS a \<equiv> 0x1004 + a * 0x80"
abbreviation (input) NVC37D_WINDOW_SET_WINDOW_ROTATED_FORMAT_USAGE_BOUNDS :: "u32 \<Rightarrow> u32" where "NVC37D_WINDOW_SET_WINDOW_ROTATED_FORMAT_USAGE_BOUNDS a \<equiv> 0x1008 + a * 0x80"
abbreviation (input) NVC37D_WINDOW_SET_WINDOW_USAGE_BOUNDS :: "u32 \<Rightarrow> u32" where "NVC37D_WINDOW_SET_WINDOW_USAGE_BOUNDS a \<equiv> 0x1010 + a * 0x80"
abbreviation (input) NVC37D_WINDOW_SET_CONTROL_OWNER :: "u32 \<Rightarrow> u32" where "NVC37D_WINDOW_SET_CONTROL_OWNER a \<equiv> 0x1000 + a * 0x80"
abbreviation (input) NVC37E_SET_PLANAR_STORAGE :: "u32 \<Rightarrow> u32" where "NVC37E_SET_PLANAR_STORAGE a \<equiv> 0x230 + a * 0x4"
abbreviation (input) NVC37E_SET_CONTEXT_DMA_ISO :: "u32 \<Rightarrow> u32" where "NVC37E_SET_CONTEXT_DMA_ISO a \<equiv> 0x240 + a * 0x4"
abbreviation (input) NVC37E_SET_OFFSET :: "u32 \<Rightarrow> u32" where "NVC37E_SET_OFFSET a \<equiv> 0x260 + a * 0x4"
abbreviation (input) NVC37E_SET_POINT_IN :: "u32 \<Rightarrow> u32" where "NVC37E_SET_POINT_IN a \<equiv> 0x290 + a * 0x4"
abbreviation (input) NVC37D_HEAD_SET_CONTROL_OUTPUT_RESOURCE :: "u32 \<Rightarrow> u32" where "NVC37D_HEAD_SET_CONTROL_OUTPUT_RESOURCE a \<equiv> 0x2004 + a * 0x400"
abbreviation (input) NVC37D_HEAD_SET_CONTROL_METH :: "u32 \<Rightarrow> u32" where "NVC37D_HEAD_SET_CONTROL_METH a \<equiv> 0x2008 + a * 0x400"
abbreviation (input) NVC37D_HEAD_SET_VIEWPORT_SIZE_IN :: "u32 \<Rightarrow> u32" where "NVC37D_HEAD_SET_VIEWPORT_SIZE_IN a \<equiv> 0x204C + a * 0x400"
abbreviation (input) NVC37D_HEAD_SET_VIEWPORT_SIZE_OUT :: "u32 \<Rightarrow> u32" where "NVC37D_HEAD_SET_VIEWPORT_SIZE_OUT a \<equiv> 0x2058 + a * 0x400"
abbreviation (input) NVC37D_HEAD_SET_RASTER_SYNC_END :: "u32 \<Rightarrow> u32" where "NVC37D_HEAD_SET_RASTER_SYNC_END a \<equiv> 0x2068 + a * 0x400"
abbreviation (input) NVC37D_HEAD_SET_RASTER_BLANK_END :: "u32 \<Rightarrow> u32" where "NVC37D_HEAD_SET_RASTER_BLANK_END a \<equiv> 0x206C + a * 0x400"
abbreviation (input) NVC37D_HEAD_SET_RASTER_BLANK_START :: "u32 \<Rightarrow> u32" where "NVC37D_HEAD_SET_RASTER_BLANK_START a \<equiv> 0x2070 + a * 0x400"
abbreviation (input) NVC37D_SOR_SET_CONTROL :: "u32 \<Rightarrow> u32" where "NVC37D_SOR_SET_CONTROL a \<equiv> 0x300 + a * 0x20"

section \<open>Methods\<close>

definition nv_disp_method_hdr :: "u32 \<Rightarrow> u32 \<Rightarrow> u32" where
  "nv_disp_method_hdr method_addr cnt =
     push_bit 29 NVC37D_DMA_OPCODE_METHOD OR push_bit 18 (cnt AND 0x3ff) OR (method_addr AND 0x3ffc)"

type_synonym push_state = "u8 list \<times> u32"

definition nv_gsp_disp_push_method :: "u32 \<Rightarrow> u32 \<Rightarrow> push_state \<Rightarrow> push_state option" where
  "nv_gsp_disp_push_method method_addr data = (\<lambda>(pb, off).
     do { pb \<leftarrow> st32 pb (unat off) (nv_disp_method_hdr method_addr 1);
          pb \<leftarrow> st32 pb (unat off + 4) data;
          Some (pb, off + 8) })"

definition push_methods :: "(u32 \<times> u32) list \<Rightarrow> push_state \<Rightarrow> push_state option" where
  "push_methods = mfold (\<lambda>(method_addr, data). nv_gsp_disp_push_method method_addr data)"

section \<open>The timing of a monitor\<close>

record nv_edid_timing =
  et_pclk_khz :: u32
  et_hact :: u32
  et_hblank :: u32
  et_hsync_off :: u32
  et_hsync_w :: u32
  et_vact :: u32
  et_vblank :: u32
  et_vsync_off :: u32
  et_vsync_w :: u32
  et_hsync_pos :: u8
  et_vsync_pos :: u8

definition dtd_timing :: "u8 list \<Rightarrow> nv_edid_timing" where
  "dtd_timing d =
     \<lparr>et_pclk_khz = (ucast (d ! 0) OR push_bit 8 (ucast (d ! 1))) * 10,
      et_hact = ucast (d ! 2) OR push_bit 4 (ucast (d ! 4 AND 0xf0)),
      et_hblank = ucast (d ! 3) OR push_bit 8 (ucast (d ! 4 AND 0x0f)),
      et_hsync_off = ucast (d ! 8) OR push_bit 2 (ucast (d ! 11 AND 0xc0)),
      et_hsync_w = ucast (d ! 9) OR push_bit 4 (ucast (d ! 11 AND 0x30)),
      et_vact = ucast (d ! 5) OR push_bit 4 (ucast (d ! 7 AND 0xf0)),
      et_vblank = ucast (d ! 6) OR push_bit 8 (ucast (d ! 7 AND 0x0f)),
      et_vsync_off = ucast (drop_bit 4 (d ! 10)) OR push_bit 2 (ucast (d ! 11 AND 0x0c)),
      et_vsync_w = ucast (d ! 10 AND 0x0f) OR push_bit 4 (ucast (d ! 11 AND 0x03)),
      et_hsync_pos = (if d ! 17 AND 0x02 \<noteq> 0 then 1 else 0),
      et_vsync_pos = (if d ! 17 AND 0x04 \<noteq> 0 then 1 else 0)\<rparr>"

definition nv_edid_parse_dtd :: "u8 list \<Rightarrow> u32 \<Rightarrow> (int + nv_edid_timing) option" where
  "nv_edid_parse_dtd edid edid_len =
     (if edid_len < 128 then Some (Inl (-1))
      else do { d \<leftarrow> rd_bytes edid 54 18;
                let pclk = ucast (d ! 0) OR push_bit 8 (ucast (d ! 1)) :: u32 in
                if pclk = 0 then Some (Inl (-1)) else Some (Inr (dtd_timing d)) })"

section \<open>Builders\<close>

definition core_modeset_methods :: "nv_edid_timing \<Rightarrow> u32 \<Rightarrow> (u32 \<times> u32) list" where
  "core_modeset_methods t head =
     (let htotal = et_hact t + et_hblank t;
          vtotal = et_vact t + et_vblank t;
          hbe = et_hblank t - et_hsync_off t - 1;
          vbe = et_vblank t - et_vsync_off t - 1;
          hbs = hbe + et_hact t;
          vbs = vbe + et_vact t;
          hertz = et_pclk_khz t * 1000
      in [(NVC37D_HEAD_SET_VIEWPORT_POINT_IN head, 0),
          (NVC37D_HEAD_SET_VIEWPORT_SIZE_IN head, et_hact t OR push_bit 16 (et_vact t)),
          (NVC37D_HEAD_SET_VIEWPORT_SIZE_OUT head, et_hact t OR push_bit 16 (et_vact t)),
          (NVC77D_HEAD_SET_RASTER_SIZE head, htotal OR push_bit 16 vtotal),
          (NVC37D_HEAD_SET_RASTER_SYNC_END head, (et_hsync_w t - 1) OR push_bit 16 (et_vsync_w t - 1)),
          (NVC37D_HEAD_SET_RASTER_BLANK_END head, hbe OR push_bit 16 vbe),
          (NVC37D_HEAD_SET_RASTER_BLANK_START head, hbs OR push_bit 16 vbs),
          (NVC37D_HEAD_SET_RASTER_VERT_BLANK2 head, 0 OR push_bit 16 0 OR 1),
          (NVC37D_HEAD_SET_CONTROL_METH head, NVC37D_HEAD_CONTROL_PROGRESSIVE),
          (NVC37D_HEAD_SET_PIXEL_CLOCK_FREQUENCY head, hertz AND 0x7fffffff),
          (NVC37D_HEAD_SET_PIXEL_CLOCK_FREQUENCY_MAX head, hertz AND 0x7fffffff)])"

definition nv_gsp_disp_build_core_modeset :: "nv_edid_timing \<Rightarrow> u32 \<Rightarrow> push_state \<Rightarrow> push_state option" where
  "nv_gsp_disp_build_core_modeset t head = push_methods (core_modeset_methods t head)"

definition nv_gsp_disp_build_output_resource :: "u32 \<Rightarrow> u32 \<Rightarrow> u32 \<Rightarrow> push_state \<Rightarrow> push_state option" where
  "nv_gsp_disp_build_output_resource head hsync_pos vsync_pos =
     (let ores = push_bit 4 NVC37D_ORESOURCE_PIXEL_DEPTH_BPP_24_444
                 OR (if hsync_pos \<noteq> 0 then 0 else push_bit 2 1) OR (if vsync_pos \<noteq> 0 then 0 else push_bit 3 1)
      in nv_gsp_disp_push_method (NVC37D_HEAD_SET_CONTROL_OUTPUT_RESOURCE head) ores)"

definition nv_gsp_disp_build_core_sor :: "u32 \<Rightarrow> u32 \<Rightarrow> u32 \<Rightarrow> push_state \<Rightarrow> push_state option" where
  "nv_gsp_disp_build_core_sor sor head protocol =
     nv_gsp_disp_push_method (NVC37D_SOR_SET_CONTROL sor) (push_bit (unat head) 1 OR push_bit 8 protocol)"

definition core_init_methods :: "u32 \<Rightarrow> (u32 \<times> u32) list" where
  "core_init_methods notifier_handle =
     (NVC37D_SET_CONTEXT_DMA_NOTIFIER, notifier_handle)
     # concat (map (\<lambda>i. [(NVC37D_WINDOW_SET_WINDOW_FORMAT_USAGE_BOUNDS i, NVC37D_WIN_FORMAT_USAGE_DEFAULT),
                         (NVC37D_WINDOW_SET_WINDOW_ROTATED_FORMAT_USAGE_BOUNDS i, 0),
                         (NVC37D_WINDOW_SET_WINDOW_USAGE_BOUNDS i, NVC37D_WIN_USAGE_BOUNDS_DEFAULT)])
                [0, 1, 2, 3, 4, 5, 6, 7])
     @ map (\<lambda>i. (NVC37D_WINDOW_SET_CONTROL_OWNER i, drop_bit 1 i)) [0, 1, 2, 3, 4, 5, 6, 7]"

definition nv_gsp_disp_build_core_init :: "u32 \<Rightarrow> push_state \<Rightarrow> push_state option" where
  "nv_gsp_disp_build_core_init notifier_handle = push_methods (core_init_methods notifier_handle)"

definition nv_gsp_disp_build_core_update :: "u32 \<Rightarrow> push_state \<Rightarrow> push_state option" where
  "nv_gsp_disp_build_core_update wndw_interlock_mask = push_methods
     [(NVC37D_SET_INTERLOCK_FLAGS, 0), (NVC37D_SET_WINDOW_INTERLOCK_FLAGS, wndw_interlock_mask),
      (NVC37D_UPDATE, NVC37D_UPDATE_DATA)]"

definition window_image_methods :: "u32 \<Rightarrow> u32 \<Rightarrow> u32 \<Rightarrow> u32 \<Rightarrow> u64 \<Rightarrow> u32 \<Rightarrow> (u32 \<times> u32) list" where
  "window_image_methods format w h pitch fb_off iso_handle =
     [(NVC37E_SET_PRESENT_CONTROL, 0),
      (NVC37E_SET_SIZE, (w AND 0xffff) OR push_bit 16 (h AND 0xffff)),
      (NVC37E_SET_STORAGE, NVC67E_STORAGE_BLOCK_HEIGHT_ONE_GOB),
      (NVC37E_SET_PARAMS, format AND 0xff),
      (NVC37E_SET_PLANAR_STORAGE 0, drop_bit 6 pitch AND 0x1fff),
      (NVC37E_SET_CONTEXT_DMA_ISO 0, iso_handle),
      (NVC37E_SET_OFFSET 0, ucast (drop_bit 8 fb_off)),
      (NVC37E_SET_POINT_IN 0, 0),
      (NVC37E_SET_SIZE_IN, (w AND 0x7fff) OR push_bit 16 (h AND 0x7fff)),
      (NVC37E_SET_SIZE_OUT, (w AND 0x7fff) OR push_bit 16 (h AND 0x7fff)),
      (NVC37E_SET_COMPOSITION_CONTROL, NVC37E_COMPOSITION_CONTROL_VAL),
      (NVC37E_SET_COMPOSITION_CONSTANT_ALPHA, NVC37E_CONST_ALPHA_K1),
      (NVC37E_SET_COMPOSITION_FACTOR_SELECT, NVC37E_FACTOR_OPAQUE)]"

definition nv_gsp_disp_build_window_image ::
  "u32 \<Rightarrow> u32 \<Rightarrow> u32 \<Rightarrow> u32 \<Rightarrow> u64 \<Rightarrow> u32 \<Rightarrow> push_state \<Rightarrow> push_state option" where
  "nv_gsp_disp_build_window_image format w h pitch fb_off iso_handle =
     push_methods (window_image_methods format w h pitch fb_off iso_handle)"

definition nv_gsp_disp_build_window_update :: "bool \<Rightarrow> push_state \<Rightarrow> push_state option" where
  "nv_gsp_disp_build_window_update interlock_with_core = push_methods
     [(NVC37E_SET_INTERLOCK_FLAGS, if interlock_with_core then NVC37E_INTERLOCK_WITH_CORE_BIT else 0),
      (NVC37E_SET_WINDOW_INTERLOCK_FLAGS, 0), (NVC37E_UPDATE, NVC37D_UPDATE_DATA)]"

section \<open>DMA descriptors and handles\<close>

definition nv_gsp_disp_build_ctxdma_desc :: "u8 list \<Rightarrow> u64 \<Rightarrow> u64 \<Rightarrow> u32 \<Rightarrow> u8 list option" where
  "nv_gsp_disp_build_ctxdma_desc desc start limit target =
     do { desc \<leftarrow> wr_bytes desc 0 (replicate NV_CTXDMA_DESC_SIZE 0);
          let s = drop_bit 8 start; l = drop_bit 8 limit;
              flags0 = (target AND 0x3) OR NV_CTXDMA_FLAGS0_RW;
              flags0 = (if target AND 0x3 = NV_CTXDMA_TARGET_VRAM then flags0 OR NV_CTXDMA_FLAGS0_PAGE_SP else flags0) in
          stores desc 0 [(0x00, W32 flags0), (0x04, W32 (ucast (s AND 0xffffffff))), (0x08, W32 (ucast (drop_bit 32 s))),
                         (0x0c, W32 (ucast (l AND 0xffffffff))), (0x10, W32 (ucast (drop_bit 32 l)))] }"

text \<open>\<open>while (handle) { hash ^= (handle & mask); handle >>= NV_DISP_RAMHT_BITS; }\<close>\<close>

function ramht_fold :: "u32 \<Rightarrow> u32 \<Rightarrow> u32" where
  "ramht_fold handle hash =
     (if handle \<noteq> 0 then ramht_fold (drop_bit NV_DISP_RAMHT_BITS handle) (hash XOR (handle AND (push_bit NV_DISP_RAMHT_BITS 1 - 1)))
      else hash)"
  by auto

termination ramht_fold
proof (relation "measure (\<lambda>(handle, hash). unat handle)")
  fix handle :: u32 and hash :: u32 assume "handle \<noteq> 0"
  then have "0 < unat handle" by (simp add: unat_gt_0)
  then show "((drop_bit NV_DISP_RAMHT_BITS handle, hash XOR (handle AND (push_bit NV_DISP_RAMHT_BITS 1 - 1))), handle, hash)
      \<in> measure (\<lambda>(handle, hash). unat handle)" by (simp add: unat_drop_bit)
qed simp

declare ramht_fold.simps [simp del]

definition nv_disp_ramht_hash :: "u32 \<Rightarrow> u32 \<Rightarrow> u32" where
  "nv_disp_ramht_hash chid handle =
     (let hash = ramht_fold handle 0;
          hash = hash XOR push_bit (NV_DISP_RAMHT_BITS - 4) chid
      in hash mod NV_DISP_RAMHT_SIZE)"

definition nv_gsp_disp_ramht_entry :: "u32 \<Rightarrow> u32 \<Rightarrow> u32 \<Rightarrow> u32 \<Rightarrow> u32 \<times> u32" where
  "nv_gsp_disp_ramht_entry chid handle client inst_offset =
     (nv_disp_ramht_hash chid handle, push_bit 25 chid OR (client AND 0x3fff) OR push_bit 9 inst_offset)"

section \<open>Decoding\<close>

text \<open>
  How the display hardware reads a stream: bits 29 and up of a header are the opcode (0 for methods), bits 18 to
  27 the count, bits 2 to 13 the first method; the words behind the header go to consecutive methods.
\<close>

fun disp_decode :: "u32 list \<Rightarrow> (nat \<times> u32) list option" where
  "disp_decode [] = Some []"
| "disp_decode (h # ws) =
     (let c = unat (drop_bit 18 h AND 0x3ff); a = unat (h AND 0x3ffc) in
      if drop_bit 29 h \<noteq> 0 \<or> length ws < c then None
      else map_option ((@) (map (\<lambda>i. (a + 4 * i, ws ! i)) [0..<c])) (disp_decode (drop c ws)))"

definition stream :: "(u32 \<times> u32) list \<Rightarrow> u32 list" where
  "stream ms = concat (map (\<lambda>(method_addr, data). [nv_disp_method_hdr method_addr 1, data]) ms)"

lemma stream_simps [simp]: "stream [] = []" "stream ((a, d) # ms) = nv_disp_method_hdr a 1 # d # stream ms"
  by (simp_all add: stream_def)

lemma length_stream [simp]: "length (stream ms) = 2 * length ms"
  by (induction ms) auto

lemma hdr_fields: "drop_bit 29 (nv_disp_method_hdr a c) = 0" "drop_bit 18 (nv_disp_method_hdr a c) AND 0x3ff = c AND 0x3ff"
  "nv_disp_method_hdr a c AND 0x3ffc = a AND 0x3ffc"
proof -
  have m: "(0x3ff :: u32) = mask 10" "(0x3ffc :: u32) = mask 14 AND NOT (mask 2)" by (simp_all add: mask_eq_exp_minus_1)
  show "drop_bit 29 (nv_disp_method_hdr a c) = 0" "nv_disp_method_hdr a c AND 0x3ffc = a AND 0x3ffc"
    "drop_bit 18 (nv_disp_method_hdr a c) AND 0x3ff = c AND 0x3ff"
    unfolding nv_disp_method_hdr_def m
    by (rule bit_word_eqI; auto simp: bit_simps dest: bit_imp_le_length)+
qed

lemma disp_decode_stream: "disp_decode (stream ms) = Some (map (\<lambda>(a, d). (unat (a AND 0x3ffc), d)) ms)"
  by (induction ms) (auto simp: hdr_fields Let_def)

lemma push_methods_spec:
  assumes "unat off + 8 * length ms \<le> length pb" "unat off + 8 * length ms < 2 ^ 32"
  shows "push_methods ms (pb, off) = Some (splice pb (unat off) (words (stream ms)), off + of_nat (8 * length ms))"
  using assms
proof (induction ms arbitrary: pb off)
  case Nil
  then show ?case by (simp add: push_methods_def splice_def)
next
  case (Cons x ms)
  obtain a d where x: "x = (a, d)" by (cases x)
  let ?b = "splice (splice pb (unat off) (bytes32 (nv_disp_method_hdr a 1))) (unat off + 4) (bytes32 d)"
  have u: "unat (off + 8) = unat off + 8" using Cons.prems(2) by (subst unat_add_small) simp_all
  have b: "?b = splice pb (unat off) (bytes32 (nv_disp_method_hdr a 1) @ bytes32 d)"
    using splice_splice_after [of "unat off" "bytes32 (nv_disp_method_hdr a 1)" "bytes32 d" pb] Cons.prems(1) by simp
  have "push_methods (x # ms) (pb, off) = push_methods ms (?b, off + 8)"
    using Cons.prems(1) by (simp add: push_methods_def nv_gsp_disp_push_method_def x st32_def wr_bytes_def)
  also have "\<dots> = Some (splice ?b (unat off + 8) (words (stream ms)), off + 8 + of_nat (8 * length ms))"
    using Cons.IH [of "off + 8" ?b] Cons.prems unfolding u by simp
  also have "splice ?b (unat off + 8) (words (stream ms)) = splice pb (unat off) (words (stream (x # ms)))"
    unfolding b using splice_splice_after [of "unat off" "bytes32 (nv_disp_method_hdr a 1) @ bytes32 d" "words (stream ms)" pb]
      Cons.prems(1) by (simp add: x)
  finally show ?case by (simp add: algebra_simps)
qed

section \<open>Fields of a timing\<close>

lemma unat_or_low: "unat a < 2 ^ n \<Longrightarrow> 2 ^ n dvd unat b \<Longrightarrow> unat (a OR b :: 'a::len word) = unat a + unat b"
proof -
  assume a: "unat a < 2 ^ n" "2 ^ n dvd unat b"
  have "\<not> (bit a k \<and> bit b k)" for k
  proof
    assume k: "bit a k \<and> bit b k"
    have "take_bit n (unat a) = unat a" using a(1) by (simp add: take_bit_nat_eq_self)
    moreover have "bit (unat a) k" using k by (simp add: bit_unsigned_iff)
    ultimately have "k < n" by (metis bit_take_bit_iff)
    moreover have "take_bit n (unat b) = 0" using a(2) by (simp add: take_bit_eq_0_iff)
    then have "\<not> bit (unat b) k" using \<open>k < n\<close> by (metis bit_take_bit_iff bit_0_eq bot_apply bot_bool_def)
    ultimately show False using k by (simp add: bit_unsigned_iff)
  qed
  then have "unat (a OR b) = unat a OR unat b" "unat a AND unat b = 0"
    by (auto simp: unsigned_or_eq bit_eq_iff [of "unat a AND unat b"] bit_and_iff bit_unsigned_iff)
  then show ?thesis by (simp add: disjunctive_add_eq_or)
qed

lemma u8_masks:
  fixes b :: u8
  shows "unat (b AND 0xf0) = unat b div 16 * 16" "unat (b AND 0x0f) = unat b mod 16" "unat (b AND 0xc0) = unat b div 64 * 64"
    "unat (b AND 0x30) = unat b mod 64 div 16 * 16" "unat (b AND 0x0c) = unat b mod 16 div 4 * 4" "unat (b AND 0x03) = unat b mod 4"
    "unat (drop_bit 4 b) = unat b div 16"
proof -
  have m: "(0xf0 :: u8) = NOT (mask 4)" "(0x0f :: u8) = mask 4" "(0xc0 :: u8) = NOT (mask 6)" "(0x03 :: u8) = mask 2"
    by (simp_all add: mask_eq_exp_minus_1)
  have m2: "b AND 0x30 = (b AND mask 6) AND NOT (mask 4)" "b AND 0x0c = (b AND mask 4) AND NOT (mask 2)"
  proof -
    have "(0x30 :: u8) = mask 6 AND NOT (mask 4)" "(0x0c :: u8) = mask 4 AND NOT (mask 2)" by (simp_all add: mask_eq_exp_minus_1)
    then show "b AND 0x30 = (b AND mask 6) AND NOT (mask 4)" "b AND 0x0c = (b AND mask 4) AND NOT (mask 2)"
      by (simp_all only: and.assoc)
  qed
  show "unat (b AND 0xf0) = unat b div 16 * 16" "unat (b AND 0x0f) = unat b mod 16" "unat (b AND 0xc0) = unat b div 64 * 64"
    "unat (b AND 0x30) = unat b mod 64 div 16 * 16" "unat (b AND 0x0c) = unat b mod 16 div 4 * 4" "unat (b AND 0x03) = unat b mod 4"
    "unat (drop_bit 4 b) = unat b div 16"
    unfolding m m2 unat_and_not_mask unat_and_mask unat_drop_bit by simp_all
qed

lemma join_u8: "unat lo < 2 ^ m \<Longrightarrow> n \<le> 8 \<Longrightarrow> 2 ^ m dvd unat hi * 2 ^ n \<Longrightarrow>
  unat (ucast (lo :: u8) OR push_bit n (ucast (hi :: u8)) :: u32) = unat lo + unat hi * 2 ^ n"
proof -
  assume a: "unat lo < 2 ^ m" "n \<le> 8" "2 ^ m dvd unat hi * 2 ^ n"
  have u: "unat (ucast b :: u32) = unat b" for b :: u8
    using u8_less [of b] by (simp add: unat_ucast_small)
  have "unat hi * 2 ^ n < 256 * 2 ^ 8"
  proof -
    have "unat hi * 2 ^ n \<le> 255 * 2 ^ 8" using u8_less [of hi] a(2) by (intro mult_le_mono power_increasing) simp_all
    then show ?thesis by simp
  qed
  then have p: "unat (push_bit n (ucast hi :: u32)) = unat hi * 2 ^ n"
    by (subst unat_push_bit_small) (simp_all add: u)
  show ?thesis using a unat_or_low [of "ucast lo :: u32" m "push_bit n (ucast hi)"] by (simp add: u p)
qed

text \<open>The detailed timing descriptor of the EDID standard for a timing.\<close>

definition dtd_ok :: "nv_edid_timing \<Rightarrow> bool" where
  "dtd_ok t \<longleftrightarrow> 10 dvd unat (et_pclk_khz t) \<and> unat (et_pclk_khz t) div 10 \<in> {1 ..< 65536}
     \<and> unat (et_hact t) < 4096 \<and> unat (et_hblank t) < 4096 \<and> unat (et_vact t) < 4096 \<and> unat (et_vblank t) < 4096
     \<and> unat (et_hsync_off t) < 1024 \<and> unat (et_hsync_w t) < 1024 \<and> unat (et_vsync_off t) < 64 \<and> unat (et_vsync_w t) < 64
     \<and> et_hsync_pos t \<in> {0, 1} \<and> et_vsync_pos t \<in> {0, 1}"

definition dtd_bytes :: "nv_edid_timing \<Rightarrow> u8 list \<Rightarrow> u8 list" where
  "dtd_bytes t img =
     (let k = unat (et_pclk_khz t) div 10; ha = unat (et_hact t); hb = unat (et_hblank t); va = unat (et_vact t);
          vb = unat (et_vblank t); ho = unat (et_hsync_off t); hw = unat (et_hsync_w t); vo = unat (et_vsync_off t);
          vw = unat (et_vsync_w t)
      in map of_nat [k mod 256, k div 256, ha mod 256, hb mod 256, ha div 256 * 16 + hb div 256, va mod 256, vb mod 256,
           va div 256 * 16 + vb div 256, ho mod 256, hw mod 256, vo mod 16 * 16 + vw mod 16,
           ho div 256 * 64 + hw div 256 * 16 + vo div 16 * 4 + vw div 16]
         @ img @ [0x18 OR push_bit 1 (et_hsync_pos t) OR push_bit 2 (et_vsync_pos t)])"

lemma unat_of_nat8: "n < 256 \<Longrightarrow> unat (of_nat n :: u8) = n"
  by (simp add: unat_of_nat_small)

lemma nibbles: "p < 16 \<Longrightarrow> q < 16 \<Longrightarrow> p * 16 + q < (256 :: nat) \<and> (p * 16 + q) div 16 = p \<and> (p * 16 + q) mod 16 = q"
  by simp

lemma crumbs: "p < 4 \<Longrightarrow> q < 4 \<Longrightarrow> r < 4 \<Longrightarrow> s < 4 \<Longrightarrow> let x = p * 64 + q * 16 + r * 4 + s in x < (256 :: nat)
  \<and> x div 64 = p \<and> x mod 64 div 16 = q \<and> x mod 16 div 4 = r \<and> x mod 4 = s"
proof -
  assume a: "p < 4" "q < 4" "r < 4" "s < 4"
  define z where "z = r * 4 + s"
  define y where "y = q * 16 + z"
  have z: "z < 16" "z div 4 = r" "z mod 4 = s" using a(3,4) by (simp_all add: z_def)
  have y: "y < 64" "y div 16 = q" "y mod 16 = z" using a(2) z(1) by (simp_all add: y_def)
  have x: "(p * 64 + y) div 64 = p" "(p * 64 + y) mod 64 = y" "p * 64 + y < 256" using a(1) y(1) by simp_all
  have m: "(p * 64 + y) mod 16 = z" "(p * 64 + y) mod 4 = s"
    using mod_mult_self3 [of "p * 4" 16 y] mod_mult_self3 [of "p * 16 + q * 4" 4 z] y(3) z(3)
    by (simp_all add: y_def algebra_simps)
  have e: "p * 64 + q * 16 + r * 4 + s = p * 64 + y" by (simp add: y_def z_def)
  show ?thesis unfolding Let_def e using x y z m by simp
qed

lemma dtd_timing_bytes:
  assumes ok: "dtd_ok t" and img: "length img = 5"
  shows "dtd_timing (dtd_bytes t img) = t" "length (dtd_bytes t img) = 18"
    "(ucast (dtd_bytes t img ! 0) OR push_bit 8 (ucast (dtd_bytes t img ! 1)) :: u32) \<noteq> 0"
proof -
  define k ha hb va vb ho hw vo vw where d: "k = unat (et_pclk_khz t) div 10" "ha = unat (et_hact t)" "hb = unat (et_hblank t)"
    "va = unat (et_vact t)" "vb = unat (et_vblank t)" "ho = unat (et_hsync_off t)" "hw = unat (et_hsync_w t)"
    "vo = unat (et_vsync_off t)" "vw = unat (et_vsync_w t)"
  have b: "0 < k" "k < 65536" "unat (et_pclk_khz t) = 10 * k" "ha < 4096" "hb < 4096" "va < 4096" "vb < 4096" "ho < 1024" "hw < 1024"
    "vo < 64" "vw < 64" using ok by (auto simp: dtd_ok_def d)
  have h: "ha div 256 < 16" "hb div 256 < 16" "va div 256 < 16" "vb div 256 < 16" "vo mod 16 < 16" "vw mod 16 < 16"
    "ho div 256 < 4" "hw div 256 < 4" "vo div 16 < 4" "vw div 16 < 4" "k div 256 < 256"
    using b by (simp_all add: less_mult_imp_div_less)
  define d4 d7 d10 d11 where e: "d4 = ha div 256 * 16 + hb div 256" "d7 = va div 256 * 16 + vb div 256"
    "d10 = vo mod 16 * 16 + vw mod 16" "d11 = ho div 256 * 64 + hw div 256 * 16 + vo div 16 * 4 + vw div 16"
  define ft where "ft = 0x18 OR push_bit 1 (et_hsync_pos t) OR push_bit 2 (et_vsync_pos t)"
  have bs: "dtd_bytes t img = map of_nat [k mod 256, k div 256, ha mod 256, hb mod 256, d4, va mod 256, vb mod 256,
      d7, ho mod 256, hw mod 256, d10, d11] @ img @ [ft]"
    by (simp add: dtd_bytes_def Let_def d e ft_def)
  have n4: "d4 < 256 \<and> d4 div 16 = ha div 256 \<and> d4 mod 16 = hb div 256" unfolding e by (rule nibbles [OF h(1,2)])
  have n7: "d7 < 256 \<and> d7 div 16 = va div 256 \<and> d7 mod 16 = vb div 256" unfolding e by (rule nibbles [OF h(3,4)])
  have n10: "d10 < 256 \<and> d10 div 16 = vo mod 16 \<and> d10 mod 16 = vw mod 16" unfolding e by (rule nibbles [OF h(5,6)])
  have n11: "d11 < 256 \<and> d11 div 64 = ho div 256 \<and> d11 mod 64 div 16 = hw div 256 \<and> d11 mod 16 div 4 = vo div 16 \<and> d11 mod 4 = vw div 16"
    using crumbs [OF h(7-10)] unfolding e Let_def .
  show "length (dtd_bytes t img) = 18" by (simp add: bs img)
  have nth: "dtd_bytes t img ! 0 = of_nat (k mod 256)" "dtd_bytes t img ! 1 = of_nat (k div 256)" "dtd_bytes t img ! 2 = of_nat (ha mod 256)"
    "dtd_bytes t img ! 3 = of_nat (hb mod 256)" "dtd_bytes t img ! 4 = of_nat d4" "dtd_bytes t img ! 5 = of_nat (va mod 256)"
    "dtd_bytes t img ! 6 = of_nat (vb mod 256)" "dtd_bytes t img ! 7 = of_nat d7" "dtd_bytes t img ! 8 = of_nat (ho mod 256)"
    "dtd_bytes t img ! 9 = of_nat (hw mod 256)" "dtd_bytes t img ! 10 = of_nat d10" "dtd_bytes t img ! 11 = of_nat d11"
    by (simp_all add: bs)
  have n17: "dtd_bytes t img ! 17 = ft" by (simp add: bs nth_append img)
  have pol: "(ft AND 2 \<noteq> 0) = (et_hsync_pos t = 1)" "(ft AND 4 \<noteq> 0) = (et_vsync_pos t = 1)"
    "et_hsync_pos t \<in> {0, 1}" "et_vsync_pos t \<in> {0, 1}"
    using ok unfolding dtd_ok_def ft_def by (auto simp: word_eq_iff_unsigned)
  have j: "unat (ucast (of_nat (a mod 256) :: u8) OR push_bit 8 (ucast (of_nat (b div 256) :: u8)) :: u32) = a" if "b = a" "a div 256 < 256" for a b
    using join_u8 [of "of_nat (a mod 256)" 8 8 "of_nat (b div 256)"] that by (simp add: unat_of_nat8)
  have f: "unat (et_pclk_khz (dtd_timing (dtd_bytes t img))) = unat (et_pclk_khz t)"
    "unat (et_hact (dtd_timing (dtd_bytes t img))) = unat (et_hact t)"
    "unat (et_hblank (dtd_timing (dtd_bytes t img))) = unat (et_hblank t)"
    "unat (et_vact (dtd_timing (dtd_bytes t img))) = unat (et_vact t)"
    "unat (et_vblank (dtd_timing (dtd_bytes t img))) = unat (et_vblank t)"
    "unat (et_hsync_off (dtd_timing (dtd_bytes t img))) = unat (et_hsync_off t)"
    "unat (et_hsync_w (dtd_timing (dtd_bytes t img))) = unat (et_hsync_w t)"
    "unat (et_vsync_off (dtd_timing (dtd_bytes t img))) = unat (et_vsync_off t)"
    "unat (et_vsync_w (dtd_timing (dtd_bytes t img))) = unat (et_vsync_w t)"
  proof goal_cases
    case 1
    have "unat ((ucast (of_nat (k mod 256) :: u8) OR push_bit 8 (ucast (of_nat (k div 256) :: u8)) :: u32) * 10) = k * 10"
      using b(2) h(11) by (subst unat_mult_small) (simp_all add: j)
    then show ?case by (simp add: dtd_timing_def nth nth(2) [unfolded One_nat_def] b(3))
  next
    case 2 show ?case using join_u8 [of "of_nat (ha mod 256)" 8 4 "of_nat d4 AND 0xf0"] n4
      by (simp add: dtd_timing_def nth unat_of_nat8 u8_masks d(2))
  next
    case 3 show ?case using join_u8 [of "of_nat (hb mod 256)" 8 8 "of_nat d4 AND 0x0f"] n4
      by (simp add: dtd_timing_def nth unat_of_nat8 u8_masks d(3))
  next
    case 4 show ?case using join_u8 [of "of_nat (va mod 256)" 8 4 "of_nat d7 AND 0xf0"] n7
      by (simp add: dtd_timing_def nth unat_of_nat8 u8_masks d(4))
  next
    case 5 show ?case using join_u8 [of "of_nat (vb mod 256)" 8 8 "of_nat d7 AND 0x0f"] n7
      by (simp add: dtd_timing_def nth unat_of_nat8 u8_masks d(5))
  next
    case 6 show ?case using join_u8 [of "of_nat (ho mod 256)" 8 2 "of_nat d11 AND 0xc0"] n11
      by (simp add: dtd_timing_def nth unat_of_nat8 u8_masks d(6))
  next
    case 7 show ?case using join_u8 [of "of_nat (hw mod 256)" 8 4 "of_nat d11 AND 0x30"] n11
      by (simp add: dtd_timing_def nth unat_of_nat8 u8_masks d(7))
  next
    case 8 show ?case using join_u8 [of "drop_bit 4 (of_nat d10)" 4 2 "of_nat d11 AND 0x0c"] n10 n11
      by (simp add: dtd_timing_def nth unat_of_nat8 u8_masks d(8))
  next
    case 9 show ?case using join_u8 [of "of_nat d10 AND 0x0f" 4 4 "of_nat d11 AND 0x03"] n10 n11
      by (simp add: dtd_timing_def nth unat_of_nat8 u8_masks d(9))
  qed
  have "et_hsync_pos (dtd_timing (dtd_bytes t img)) = et_hsync_pos t" "et_vsync_pos (dtd_timing (dtd_bytes t img)) = et_vsync_pos t"
    using pol by (auto simp: dtd_timing_def n17)
  with f show "dtd_timing (dtd_bytes t img) = t" by (intro nv_edid_timing.equality) (simp_all add: word_unat_eq_iff)
  show "(ucast (dtd_bytes t img ! 0) OR push_bit 8 (ucast (dtd_bytes t img ! 1)) :: u32) \<noteq> 0"
    unfolding nth using j [of k k] h(11) b(1) by (metis unat_0 less_irrefl)
qed

text \<open>An EDID without a timing in its first descriptor, or cut short, is refused; every other block is read without leaving it.\<close>

lemma parse_dtd_total:
  assumes "128 \<le> length edid"
  shows "nv_edid_parse_dtd edid n = Some (if n < 128 \<or>
      (ucast (fld edid 54 18 ! 0) OR push_bit 8 (ucast (fld edid 54 18 ! 1)) :: u32) = 0 then Inl (-1) else Inr (dtd_timing (fld edid 54 18)))"
  using assms by (auto simp: nv_edid_parse_dtd_def rd_bytes_def fld_def Let_def)

section \<open>Raster\<close>

text \<open>The two 16-bit halves of a method value, and what a raster has to be for one direction of a timing.\<close>

definition lo16 :: "u32 \<Rightarrow> nat" where "lo16 w = unat w mod 65536"
definition hi16 :: "u32 \<Rightarrow> nat" where "hi16 w = unat w div 65536"

definition raster_ok :: "nat \<Rightarrow> nat \<Rightarrow> nat \<Rightarrow> nat \<Rightarrow> nat \<Rightarrow> nat \<Rightarrow> nat \<Rightarrow> nat \<Rightarrow> bool" where
  "raster_ok act blank front sync whole sync_end blank_end blank_start \<longleftrightarrow>
     whole = act + blank \<and> sync_end + 1 = sync \<and> sync_end < blank_end \<and> blank_end < blank_start
     \<and> blank_end + front + 1 = blank \<and> blank_start = blank_end + act \<and> blank_start + front + 1 = whole"

lemma halves: "unat x < 65536 \<Longrightarrow> unat y < 65536 \<Longrightarrow> lo16 (x OR push_bit 16 y) = unat x \<and> hi16 (x OR push_bit 16 y) = unat y"
proof -
  assume a: "unat x < 65536" "unat y < 65536"
  then have "unat (push_bit 16 y) = unat y * 65536" by (subst unat_push_bit_small) simp_all
  then have "unat (x OR push_bit 16 y) = unat x + unat y * 65536" using a unat_or_low [of x 16 "push_bit 16 y"] by simp
  then show ?thesis using a by (simp add: lo16_def hi16_def)
qed

definition porch_ok :: "nv_edid_timing \<Rightarrow> bool" where
  "porch_ok t \<longleftrightarrow> unat (et_hsync_off t) + unat (et_hsync_w t) < unat (et_hblank t) \<and> 0 < unat (et_hsync_w t) \<and> 0 < unat (et_hact t)
     \<and> unat (et_vsync_off t) + unat (et_vsync_w t) < unat (et_vblank t) \<and> 0 < unat (et_vsync_w t) \<and> 0 < unat (et_vact t)"

lemma head_methods: "head < 8 \<Longrightarrow> b \<in> {0x200C, 0x2028, 0x2048, 0x2074, 0x2008, 0x204C, 0x2058, 0x2068, 0x206C, 0x2070, 0x2064} \<Longrightarrow>
  unat ((b + head * 0x400) AND 0x3ffc :: u32) = unat b + unat head * 0x400"
proof -
  assume h: "head < 8" and b: "b \<in> {0x200C, 0x2028, 0x2048, 0x2074, 0x2008, 0x204C, 0x2058, 0x2068, 0x206C, 0x2070, 0x2064}"
  have "unat head < 8" using h by (simp add: word_less_nat_alt)
  then have "unat head \<in> {0, 1, 2, 3, 4, 5, 6, 7}" by auto
  then have "head \<in> {0, 1, 2, 3, 4, 5, 6, 7}" by (auto simp: word_unat_eq_iff)
  with b show ?thesis by (elim insertE emptyE) simp_all
qed

lemma raster_line:
  fixes act blank front sync :: u32
  assumes "unat act < 4096" "unat blank < 4096" "unat front + unat sync < unat blank" "0 < unat sync" "0 < unat act"
  shows "unat (act + blank) < 65536 \<and> unat (sync - 1) < 65536 \<and> unat (blank - front - 1) < 65536
    \<and> unat (blank - front - 1 + act) < 65536 \<and> raster_ok (unat act) (unat blank) (unat front) (unat sync)
      (unat (act + blank)) (unat (sync - 1)) (unat (blank - front - 1)) (unat (blank - front - 1 + act))"
proof -
  have "unat (act + blank) = unat act + unat blank" using assms by (subst unat_add_small) simp_all
  moreover have "unat (sync - 1) = unat sync - 1" using assms(4) by (subst unat_sub_small) simp_all
  moreover have d: "unat (blank - front) = unat blank - unat front" using assms(3) by (subst unat_sub_small) simp_all
  moreover have e: "unat (blank - front - 1) = unat blank - unat front - 1"
    using assms(3) d by (subst unat_sub_small) simp_all
  moreover have "unat (blank - front - 1 + act) = unat blank - unat front - 1 + unat act"
    using assms e by (subst unat_add_small) simp_all
  ultimately show ?thesis using assms unfolding raster_ok_def by linarith
qed

lemma core_modeset_decodes:
  assumes "head < 8"
  shows "disp_decode (stream (core_modeset_methods t head)) = Some (map (\<lambda>(m, d). (m + unat head * 0x400, d))
    [(0x2048, 0), (0x204C, et_hact t OR push_bit 16 (et_vact t)), (0x2058, et_hact t OR push_bit 16 (et_vact t)),
     (0x2064, (et_hact t + et_hblank t) OR push_bit 16 (et_vact t + et_vblank t)),
     (0x2068, (et_hsync_w t - 1) OR push_bit 16 (et_vsync_w t - 1)),
     (0x206C, (et_hblank t - et_hsync_off t - 1) OR push_bit 16 (et_vblank t - et_vsync_off t - 1)),
     (0x2070, (et_hblank t - et_hsync_off t - 1 + et_hact t) OR push_bit 16 (et_vblank t - et_vsync_off t - 1 + et_vact t)),
     (0x2074, 1), (0x2008, 0), (0x200C, et_pclk_khz t * 1000 AND 0x7fffffff), (0x2028, et_pclk_khz t * 1000 AND 0x7fffffff)])"
  unfolding disp_decode_stream core_modeset_methods_def Let_def
  by (simp add: head_methods [OF assms])

section \<open>Properties\<close>

text \<open>
  C35. From the EDID of a monitor to the raster: a block whose first descriptor encodes a timing is parsed back
  to that timing, and the mode set built from it fills 88 bytes of the command buffer and no other byte.  The
  words decode, for the requested head, to the viewport, to a raster whose sync ends before the blanking does,
  whose blanking starts after the active part and leaves room for the front porch, horizontally and
  vertically, and to the pixel clock in Hertz.
\<close>

theorem edid_modeset_correct:
  assumes t: "dtd_ok t" "porch_ok t" and edid: "length img = 5" "128 \<le> length edid" "128 \<le> n" "fld edid 54 18 = dtd_bytes t img"
    and head: "head < 8" and room: "unat off + 88 \<le> length pb" "unat off + 88 < 2 ^ 32"
  shows "\<exists>ws view raster sync be bs clock. nv_edid_parse_dtd edid n = Some (Inr t)
     \<and> nv_gsp_disp_build_core_modeset t head (pb, off) = Some (splice pb (unat off) (words ws), off + 88) \<and> length ws = 22
     \<and> disp_decode ws = Some (map (\<lambda>(m, d). (m + unat head * 0x400, d))
         [(0x2048, 0), (0x204C, view), (0x2058, view), (0x2064, raster), (0x2068, sync), (0x206C, be), (0x2070, bs),
          (0x2074, 1), (0x2008, 0), (0x200C, clock), (0x2028, clock)])
     \<and> lo16 view = unat (et_hact t) \<and> hi16 view = unat (et_vact t)
     \<and> raster_ok (unat (et_hact t)) (unat (et_hblank t)) (unat (et_hsync_off t)) (unat (et_hsync_w t))
         (lo16 raster) (lo16 sync) (lo16 be) (lo16 bs)
     \<and> raster_ok (unat (et_vact t)) (unat (et_vblank t)) (unat (et_vsync_off t)) (unat (et_vsync_w t))
         (hi16 raster) (hi16 sync) (hi16 be) (hi16 bs)
     \<and> unat clock = 1000 * unat (et_pclk_khz t)"
proof -
  have p: "nv_edid_parse_dtd edid n = Some (Inr t)"
    unfolding parse_dtd_total [OF edid(2)] edid(4) dtd_timing_bytes(1) [OF t(1) edid(1)]
    using dtd_timing_bytes(3) [OF t(1) edid(1)] edid(3) by (simp add: not_less)
  have b: "nv_gsp_disp_build_core_modeset t head (pb, off) =
      Some (splice pb (unat off) (words (stream (core_modeset_methods t head))), off + 88)"
    unfolding nv_gsp_disp_build_core_modeset_def using room
    by (subst push_methods_spec) (simp_all add: core_modeset_methods_def Let_def)
  have len: "length (stream (core_modeset_methods t head)) = 22" by (simp add: core_modeset_methods_def Let_def)
  have r: "unat (et_hact t) < 4096" "unat (et_hblank t) < 4096" "unat (et_vact t) < 4096" "unat (et_vblank t) < 4096"
    "unat (et_pclk_khz t) div 10 < 65536" using t(1) by (simp_all add: dtd_ok_def)
  have q: "unat (et_hsync_off t) + unat (et_hsync_w t) < unat (et_hblank t)" "0 < unat (et_hsync_w t)" "0 < unat (et_hact t)"
    "unat (et_vsync_off t) + unat (et_vsync_w t) < unat (et_vblank t)" "0 < unat (et_vsync_w t)" "0 < unat (et_vact t)"
    using t(2) by (simp_all add: porch_ok_def)
  note h = raster_line [OF r(1,2) q(1-3)] and v = raster_line [OF r(3,4) q(4-6)]
  have view: "unat (et_hact t) < 65536" "unat (et_vact t) < 65536" using r by simp_all
  have pk: "unat (et_pclk_khz t) < 655360" using r(5) by linarith
  have mul: "unat (et_pclk_khz t * 1000) = 1000 * unat (et_pclk_khz t)" using pk by (subst unat_mult_small) simp_all
  have "(0x7fffffff :: u32) = mask 31" by (simp add: mask_eq_exp_minus_1)
  then have clock: "unat (et_pclk_khz t * 1000 AND 0x7fffffff) = 1000 * unat (et_pclk_khz t)"
    using pk by (simp only: unat_and_mask mul) simp
  have rh: "raster_ok (unat (et_hact t)) (unat (et_hblank t)) (unat (et_hsync_off t)) (unat (et_hsync_w t))
      (lo16 ((et_hact t + et_hblank t) OR push_bit 16 (et_vact t + et_vblank t)))
      (lo16 ((et_hsync_w t - 1) OR push_bit 16 (et_vsync_w t - 1)))
      (lo16 ((et_hblank t - et_hsync_off t - 1) OR push_bit 16 (et_vblank t - et_vsync_off t - 1)))
      (lo16 ((et_hblank t - et_hsync_off t - 1 + et_hact t) OR push_bit 16 (et_vblank t - et_vsync_off t - 1 + et_vact t)))"
    using h v by (simp only: halves)
  have rv: "raster_ok (unat (et_vact t)) (unat (et_vblank t)) (unat (et_vsync_off t)) (unat (et_vsync_w t))
      (hi16 ((et_hact t + et_hblank t) OR push_bit 16 (et_vact t + et_vblank t)))
      (hi16 ((et_hsync_w t - 1) OR push_bit 16 (et_vsync_w t - 1)))
      (hi16 ((et_hblank t - et_hsync_off t - 1) OR push_bit 16 (et_vblank t - et_vsync_off t - 1)))
      (hi16 ((et_hblank t - et_hsync_off t - 1 + et_hact t) OR push_bit 16 (et_vblank t - et_vsync_off t - 1 + et_vact t)))"
    using h v by (simp only: halves)
  show ?thesis
    by ((rule exI)+, intro conjI, rule p, rule b, rule len, rule core_modeset_decodes [OF head],
        rule conjunct1 [OF halves [OF view]], rule conjunct2 [OF halves [OF view]], rule rh, rule rv, rule clock)
qed

text \<open>A 1920 by 1080 timing at 148.5 MHz.\<close>

definition demo_timing :: nv_edid_timing where
  "demo_timing = \<lparr>et_pclk_khz = 148500, et_hact = 1920, et_hblank = 280, et_hsync_off = 88, et_hsync_w = 44,
     et_vact = 1080, et_vblank = 45, et_vsync_off = 4, et_vsync_w = 5, et_hsync_pos = 1, et_vsync_pos = 1\<rparr>"

theorem edid_modeset_witness:
  "nv_edid_parse_dtd (splice (replicate 128 0) 54 (dtd_bytes demo_timing (replicate 5 0))) 128 = Some (Inr demo_timing)"
proof -
  let ?e = "splice (replicate 128 0) 54 (dtd_bytes demo_timing (replicate 5 0))"
  have ok: "dtd_ok demo_timing" "porch_ok demo_timing" by (simp_all add: dtd_ok_def porch_ok_def demo_timing_def)
  have i: "length (replicate 5 (0 :: u8)) = 5" by simp
  have l: "length (dtd_bytes demo_timing (replicate 5 0)) = 18" by (rule dtd_timing_bytes(2) [OF ok(1) i])
  have e: "fld ?e 54 18 = dtd_bytes demo_timing (replicate 5 0)"
    using fld_splice_same [of 54 "dtd_bytes demo_timing (replicate 5 0)" "replicate 128 0"] unfolding l by simp
  have s: "128 \<le> length ?e" using l by simp
  have r: "unat (8 :: u32) + 88 \<le> length (replicate 4096 (0 :: u8))" "unat (8 :: u32) + 88 < 2 ^ 32" by simp_all
  show ?thesis using edid_modeset_correct [OF ok i s order_refl e _ r, of 0] by fastforce
qed

text \<open>The hash of a handle is a slot of the table.\<close>

lemma ramht_slot: "fst (nv_gsp_disp_ramht_entry chid handle client inst) < NV_DISP_RAMHT_SIZE"
  by (simp add: nv_gsp_disp_ramht_entry_def nv_disp_ramht_hash_def word_less_nat_alt unat_mod_distrib)

end
