(* ===== verification/GspDisp.thy ===== *)
theory GspDisp
  imports GspQuery
begin

text \<open>
  \<open>driver/gsp/gsp_disp.c\<close>, the part that talks to GSP-RM: display objects, queries and controls.  A query
  answers with \<^const>\<open>None\<close> when the C code leaves its output parameters untouched.
\<close>

abbreviation (input) NV04_DISPLAY_COMMON :: u32 where "NV04_DISPLAY_COMMON \<equiv> 0x73"
abbreviation (input) NV_GSP_RM_DISPCOMMON_HANDLE :: u32 where "NV_GSP_RM_DISPCOMMON_HANDLE \<equiv> 0x730000"
abbreviation (input) NV2080_CTRL_CMD_INTERNAL_DISPLAY_WRITE_INST_MEM :: u32 where "NV2080_CTRL_CMD_INTERNAL_DISPLAY_WRITE_INST_MEM \<equiv> 0x20800A49"
abbreviation (input) NV_DISP_WRINST_PARAMS_SIZE :: nat where "NV_DISP_WRINST_PARAMS_SIZE \<equiv> 24"
abbreviation (input) NV_DISP_WRINST_PHYS_OFF :: nat where "NV_DISP_WRINST_PHYS_OFF \<equiv> 0"
abbreviation (input) NV_DISP_WRINST_SIZE_OFF :: nat where "NV_DISP_WRINST_SIZE_OFF \<equiv> 8"
abbreviation (input) NV_DISP_WRINST_ADDRSPACE_OFF :: nat where "NV_DISP_WRINST_ADDRSPACE_OFF \<equiv> 16"
abbreviation (input) NV_DISP_WRINST_CACHEATTR_OFF :: nat where "NV_DISP_WRINST_CACHEATTR_OFF \<equiv> 20"
abbreviation (input) NV_RM_ADDR_FBMEM :: u32 where "NV_RM_ADDR_FBMEM \<equiv> 2"
abbreviation (input) NV_MEMORY_WRITECOMBINED :: u32 where "NV_MEMORY_WRITECOMBINED \<equiv> 2"
abbreviation (input) NV2080_CTRL_CMD_INTERNAL_DISPLAY_CHANNEL_PUSHBUFFER :: u32 where "NV2080_CTRL_CMD_INTERNAL_DISPLAY_CHANNEL_PUSHBUFFER \<equiv> 0x20800A58"
abbreviation (input) NV_DISP_PB_PARAMS_SIZE :: nat where "NV_DISP_PB_PARAMS_SIZE \<equiv> 40"
abbreviation (input) NV_DISP_PB_ADDRSPACE_OFF :: nat where "NV_DISP_PB_ADDRSPACE_OFF \<equiv> 0"
abbreviation (input) NV_DISP_PB_PHYS_OFF :: nat where "NV_DISP_PB_PHYS_OFF \<equiv> 8"
abbreviation (input) NV_DISP_PB_LIMIT_OFF :: nat where "NV_DISP_PB_LIMIT_OFF \<equiv> 16"
abbreviation (input) NV_DISP_PB_CACHESNOOP_OFF :: nat where "NV_DISP_PB_CACHESNOOP_OFF \<equiv> 24"
abbreviation (input) NV_DISP_PB_HCLASS_OFF :: nat where "NV_DISP_PB_HCLASS_OFF \<equiv> 28"
abbreviation (input) NV_DISP_PB_CHANINST_OFF :: nat where "NV_DISP_PB_CHANINST_OFF \<equiv> 32"
abbreviation (input) NV_DISP_PB_VALID_OFF :: nat where "NV_DISP_PB_VALID_OFF \<equiv> 36"
abbreviation (input) NV50VAIO_CHANDMA_PARAMS_SIZE :: nat where "NV50VAIO_CHANDMA_PARAMS_SIZE \<equiv> 32"
abbreviation (input) NV50VAIO_CHANDMA_CHANINST_OFF :: nat where "NV50VAIO_CHANDMA_CHANINST_OFF \<equiv> 0"
abbreviation (input) NV50VAIO_CHANDMA_OFFSET_OFF :: nat where "NV50VAIO_CHANDMA_OFFSET_OFF \<equiv> 12"
abbreviation (input) NV0073_CTRL_CMD_DFP_ASSIGN_SOR :: u32 where "NV0073_CTRL_CMD_DFP_ASSIGN_SOR \<equiv> 0x731152"
abbreviation (input) NV0073_ASSIGN_SOR_MAX_SORS :: u32 where "NV0073_ASSIGN_SOR_MAX_SORS \<equiv> 4"
abbreviation (input) NV0073_ASSIGN_SOR_PARAMS_SIZE :: nat where "NV0073_ASSIGN_SOR_PARAMS_SIZE \<equiv> 80"
abbreviation (input) NV0073_ASSIGN_SOR_DISPLAYID_OFF :: nat where "NV0073_ASSIGN_SOR_DISPLAYID_OFF \<equiv> 4"
abbreviation (input) NV0073_ASSIGN_SOR_LISTWITHTAG_OFF :: nat where "NV0073_ASSIGN_SOR_LISTWITHTAG_OFF \<equiv> 40"
abbreviation (input) NV0073_ASSIGN_SOR_INFO_STRIDE :: nat where "NV0073_ASSIGN_SOR_INFO_STRIDE \<equiv> 8"
abbreviation (input) NV0073_CTRL_CMD_SYSTEM_GET_NUM_HEADS :: u32 where "NV0073_CTRL_CMD_SYSTEM_GET_NUM_HEADS \<equiv> 0x730102"
abbreviation (input) NV0073_CTRL_CMD_SYSTEM_GET_SUPPORTED :: u32 where "NV0073_CTRL_CMD_SYSTEM_GET_SUPPORTED \<equiv> 0x730120"
abbreviation (input) NV0073_CTRL_CMD_SYSTEM_GET_ACTIVE :: u32 where "NV0073_CTRL_CMD_SYSTEM_GET_ACTIVE \<equiv> 0x730126"
abbreviation (input) NV0073_CTRL_CMD_SPECIFIC_GET_ALL_HEAD_MASK :: u32 where "NV0073_CTRL_CMD_SPECIFIC_GET_ALL_HEAD_MASK \<equiv> 0x730287"
abbreviation (input) NV0073_CTRL_CMD_SPECIFIC_SET_HDMI_ENABLE :: u32 where "NV0073_CTRL_CMD_SPECIFIC_SET_HDMI_ENABLE \<equiv> 0x730273"
abbreviation (input) NV0073_SET_HDMI_ENABLE_PARAMS_SIZE :: nat where "NV0073_SET_HDMI_ENABLE_PARAMS_SIZE \<equiv> 12"
abbreviation (input) NV0073_SET_HDMI_DISPLAYID_OFF :: nat where "NV0073_SET_HDMI_DISPLAYID_OFF \<equiv> 4"
abbreviation (input) NV0073_SET_HDMI_ENABLE_OFF :: nat where "NV0073_SET_HDMI_ENABLE_OFF \<equiv> 8"
abbreviation (input) NV0073_HEAD_MASK_PARAMS_SIZE :: nat where "NV0073_HEAD_MASK_PARAMS_SIZE \<equiv> 8"
abbreviation (input) NV0073_HEAD_MASK_OFF :: nat where "NV0073_HEAD_MASK_OFF \<equiv> 4"
abbreviation (input) NV0073_GET_ACTIVE_PARAMS_SIZE :: nat where "NV0073_GET_ACTIVE_PARAMS_SIZE \<equiv> 16"
abbreviation (input) NV0073_GET_ACTIVE_HEAD_OFF :: nat where "NV0073_GET_ACTIVE_HEAD_OFF \<equiv> 4"
abbreviation (input) NV0073_GET_ACTIVE_DISPLAYID_OFF :: nat where "NV0073_GET_ACTIVE_DISPLAYID_OFF \<equiv> 12"
abbreviation (input) NV0073_NUM_HEADS_PARAMS_SIZE :: nat where "NV0073_NUM_HEADS_PARAMS_SIZE \<equiv> 12"
abbreviation (input) NV0073_NUM_HEADS_SUBDEV_OFF :: nat where "NV0073_NUM_HEADS_SUBDEV_OFF \<equiv> 0"
abbreviation (input) NV0073_NUM_HEADS_FLAGS_OFF :: nat where "NV0073_NUM_HEADS_FLAGS_OFF \<equiv> 4"
abbreviation (input) NV0073_NUM_HEADS_NUMHEADS_OFF :: nat where "NV0073_NUM_HEADS_NUMHEADS_OFF \<equiv> 8"
abbreviation (input) NV0073_SUPPORTED_PARAMS_SIZE :: nat where "NV0073_SUPPORTED_PARAMS_SIZE \<equiv> 12"
abbreviation (input) NV0073_SUPPORTED_SUBDEV_OFF :: nat where "NV0073_SUPPORTED_SUBDEV_OFF \<equiv> 0"
abbreviation (input) NV0073_SUPPORTED_MASK_OFF :: nat where "NV0073_SUPPORTED_MASK_OFF \<equiv> 4"
abbreviation (input) NV0073_SUPPORTED_MASKDDC_OFF :: nat where "NV0073_SUPPORTED_MASKDDC_OFF \<equiv> 8"
abbreviation (input) NV0073_CTRL_CMD_SPECIFIC_OR_GET_INFO :: u32 where "NV0073_CTRL_CMD_SPECIFIC_OR_GET_INFO \<equiv> 0x73028B"
abbreviation (input) NV0073_CTRL_CMD_SYSTEM_GET_CONNECT_STATE :: u32 where "NV0073_CTRL_CMD_SYSTEM_GET_CONNECT_STATE \<equiv> 0x730122"
abbreviation (input) NV0073_CTRL_CMD_SPECIFIC_GET_EDID_V2 :: u32 where "NV0073_CTRL_CMD_SPECIFIC_GET_EDID_V2 \<equiv> 0x730245"
abbreviation (input) NV0073_OR_GET_INFO_PARAMS_SIZE :: nat where "NV0073_OR_GET_INFO_PARAMS_SIZE \<equiv> 56"
abbreviation (input) NV0073_OR_GI_DISPLAYID_OFF :: nat where "NV0073_OR_GI_DISPLAYID_OFF \<equiv> 4"
abbreviation (input) NV0073_OR_GI_INDEX_OFF :: nat where "NV0073_OR_GI_INDEX_OFF \<equiv> 8"
abbreviation (input) NV0073_OR_GI_TYPE_OFF :: nat where "NV0073_OR_GI_TYPE_OFF \<equiv> 12"
abbreviation (input) NV0073_OR_GI_PROTOCOL_OFF :: nat where "NV0073_OR_GI_PROTOCOL_OFF \<equiv> 16"
abbreviation (input) NV0073_OR_GI_LOCATION_OFF :: nat where "NV0073_OR_GI_LOCATION_OFF \<equiv> 28"
abbreviation (input) NV0073_CONNECT_STATE_PARAMS_SIZE :: nat where "NV0073_CONNECT_STATE_PARAMS_SIZE \<equiv> 16"
abbreviation (input) NV0073_CONNECT_STATE_FLAGS_OFF :: nat where "NV0073_CONNECT_STATE_FLAGS_OFF \<equiv> 4"
abbreviation (input) NV0073_CONNECT_STATE_MASK_OFF :: nat where "NV0073_CONNECT_STATE_MASK_OFF \<equiv> 8"
abbreviation (input) NV0073_EDID_MAX_BYTES :: u32 where "NV0073_EDID_MAX_BYTES \<equiv> 2048"
abbreviation (input) NV0073_EDID_DISPLAYID_OFF :: nat where "NV0073_EDID_DISPLAYID_OFF \<equiv> 4"
abbreviation (input) NV0073_EDID_BUFSIZE_OFF :: nat where "NV0073_EDID_BUFSIZE_OFF \<equiv> 8"
abbreviation (input) NV0073_EDID_FLAGS_OFF :: nat where "NV0073_EDID_FLAGS_OFF \<equiv> 12"
abbreviation (input) NV0073_EDID_BUFFER_OFF :: nat where "NV0073_EDID_BUFFER_OFF \<equiv> 16"
abbreviation (input) NV0073_EDID_V2_PARAMS_SIZE :: nat where "NV0073_EDID_V2_PARAMS_SIZE \<equiv> 2064"

section \<open>Objects\<close>

definition nv_gsp_disp_common_alloc ::
  "'g gsp_agent \<Rightarrow> 'g nv_gsp_rpc_chan \<Rightarrow> u32 \<Rightarrow> u32 \<Rightarrow> (int \<times> u32 option \<times> u32 option \<times> 'g nv_gsp_rpc_chan) option" where
  "nv_gsp_disp_common_alloc ag ch hClient hDevice =
     (let h = NV_GSP_RM_DISPCOMMON_HANDLE in
      do { r \<leftarrow> nv_gsp_rm_alloc ag ch hClient hDevice h NV04_DISPLAY_COMMON [] 0;
           Some (ctor_result h r) })"

definition nv_gsp_disp_root_alloc ::
  "'g gsp_agent \<Rightarrow> 'g nv_gsp_rpc_chan \<Rightarrow> u32 \<Rightarrow> u32 \<Rightarrow> u32 \<Rightarrow>
   (int \<times> u32 option \<times> u32 option \<times> 'g nv_gsp_rpc_chan) option" where
  "nv_gsp_disp_root_alloc ag ch hClient hDevice dispClass =
     (let h = push_bit 16 dispClass in
      do { r \<leftarrow> nv_gsp_rm_alloc ag ch hClient hDevice h dispClass [] 0;
           Some (ctor_result h r) })"

definition nv_gsp_disp_core_channel_alloc ::
  "'g gsp_agent \<Rightarrow> 'g nv_gsp_rpc_chan \<Rightarrow> u32 \<Rightarrow> u32 \<Rightarrow> u32 \<Rightarrow> u32 \<Rightarrow>
   (int \<times> u32 option \<times> u32 option \<times> 'g nv_gsp_rpc_chan) option" where
  "nv_gsp_disp_core_channel_alloc ag ch hClient hDispRoot coreClass channelInstance =
     (let h = push_bit 16 coreClass OR channelInstance in
      do { p \<leftarrow> stores (replicate NV50VAIO_CHANDMA_PARAMS_SIZE 0) 0
                [(NV50VAIO_CHANDMA_CHANINST_OFF, W32 channelInstance), (NV50VAIO_CHANDMA_OFFSET_OFF, W32 0)];
           r \<leftarrow> nv_gsp_rm_alloc ag ch hClient hDispRoot h coreClass p (of_nat NV50VAIO_CHANDMA_PARAMS_SIZE);
           Some (ctor_result h r) })"

section \<open>Controls\<close>

definition nv_gsp_disp_set_hdmi_enable ::
  "'g gsp_agent \<Rightarrow> 'g nv_gsp_rpc_chan \<Rightarrow> u32 \<Rightarrow> u32 \<Rightarrow> u32 \<Rightarrow> bool \<Rightarrow> (int \<times> u32 option \<times> 'g nv_gsp_rpc_chan) option" where
  "nv_gsp_disp_set_hdmi_enable ag ch hClient hDispCommon displayId enable =
     do { p \<leftarrow> stores (replicate NV0073_SET_HDMI_ENABLE_PARAMS_SIZE 0) 0
               [(NV0073_SET_HDMI_DISPLAYID_OFF, W32 displayId), (NV0073_SET_HDMI_ENABLE_OFF, B8 (if enable then 1 else 0))];
          (rc, status, _, ch) \<leftarrow> nv_gsp_rm_control ag ch hClient hDispCommon
              NV0073_CTRL_CMD_SPECIFIC_SET_HDMI_ENABLE p (of_nat NV0073_SET_HDMI_ENABLE_PARAMS_SIZE);
          Some (rc, status, ch) }"

definition nv_gsp_disp_write_inst_mem ::
  "'g gsp_agent \<Rightarrow> 'g nv_gsp_rpc_chan \<Rightarrow> u32 \<Rightarrow> u32 \<Rightarrow> u64 \<Rightarrow> u64 \<Rightarrow> (int \<times> u32 option \<times> 'g nv_gsp_rpc_chan) option" where
  "nv_gsp_disp_write_inst_mem ag ch hIntClient hIntSubdevice inst_phys inst_size =
     do { p \<leftarrow> stores (replicate NV_DISP_WRINST_PARAMS_SIZE 0) 0
               [(NV_DISP_WRINST_PHYS_OFF, W64 inst_phys), (NV_DISP_WRINST_SIZE_OFF, W64 inst_size),
                (NV_DISP_WRINST_ADDRSPACE_OFF, W32 NV_RM_ADDR_FBMEM), (NV_DISP_WRINST_CACHEATTR_OFF, W32 NV_MEMORY_WRITECOMBINED)];
          (rc, status, _, ch) \<leftarrow> nv_gsp_rm_control ag ch hIntClient hIntSubdevice
              NV2080_CTRL_CMD_INTERNAL_DISPLAY_WRITE_INST_MEM p (of_nat NV_DISP_WRINST_PARAMS_SIZE);
          Some (rc, status, ch) }"

definition nv_gsp_disp_channel_pushbuffer ::
  "'g gsp_agent \<Rightarrow> 'g nv_gsp_rpc_chan \<Rightarrow> u32 \<Rightarrow> u32 \<Rightarrow> u32 \<Rightarrow> u32 \<Rightarrow> u64 \<Rightarrow> u64 \<Rightarrow>
   (int \<times> u32 option \<times> 'g nv_gsp_rpc_chan) option" where
  "nv_gsp_disp_channel_pushbuffer ag ch hIntClient hIntSubdevice hclass channelInstance pb_phys pb_limit =
     do { p \<leftarrow> stores (replicate NV_DISP_PB_PARAMS_SIZE 0) 0
               [(NV_DISP_PB_ADDRSPACE_OFF, W32 NV_RM_ADDR_FBMEM), (NV_DISP_PB_PHYS_OFF, W64 pb_phys),
                (NV_DISP_PB_LIMIT_OFF, W64 pb_limit), (NV_DISP_PB_CACHESNOOP_OFF, W32 0),
                (NV_DISP_PB_HCLASS_OFF, W32 hclass), (NV_DISP_PB_CHANINST_OFF, W32 channelInstance),
                (NV_DISP_PB_VALID_OFF, B8 1)];
          (rc, status, _, ch) \<leftarrow> nv_gsp_rm_control ag ch hIntClient hIntSubdevice
              NV2080_CTRL_CMD_INTERNAL_DISPLAY_CHANNEL_PUSHBUFFER p (of_nat NV_DISP_PB_PARAMS_SIZE);
          Some (rc, status, ch) }"

section \<open>Queries\<close>

text \<open>
  The common part of the queries: the status starts as \<open>~0\<close>, the control is sent, and the answer is read
  only when the call came back.
\<close>

definition disp_query ::
  "'g gsp_agent \<Rightarrow> 'g nv_gsp_rpc_chan \<Rightarrow> u32 \<Rightarrow> u32 \<Rightarrow> u32 \<Rightarrow> u8 list \<Rightarrow> (u8 list \<Rightarrow> 'a option) \<Rightarrow>
   (int \<times> 'a option \<times> u32 \<times> 'g nv_gsp_rpc_chan) option" where
  "disp_query ag ch hClient hDispCommon cmd p outs =
     do { (rc, st', p, ch) \<leftarrow> nv_gsp_rm_control ag ch hClient hDispCommon cmd p (of_nat (length p));
          let st = (case st' of Some s \<Rightarrow> s | None \<Rightarrow> 0xffffffff) in
          if rc \<noteq> NV_GSP_RM_OK then Some (rc, None, st, ch)
          else do { a \<leftarrow> outs p; Some (NV_GSP_RM_OK, Some a, st, ch) } }"

definition nv_gsp_disp_get_head_mask ::
  "'g gsp_agent \<Rightarrow> 'g nv_gsp_rpc_chan \<Rightarrow> u32 \<Rightarrow> u32 \<Rightarrow> (int \<times> u32 option \<times> u32 \<times> 'g nv_gsp_rpc_chan) option" where
  "nv_gsp_disp_get_head_mask ag ch hClient hDispCommon =
     disp_query ag ch hClient hDispCommon NV0073_CTRL_CMD_SPECIFIC_GET_ALL_HEAD_MASK
       (replicate NV0073_HEAD_MASK_PARAMS_SIZE 0) (\<lambda>p. ld32 p NV0073_HEAD_MASK_OFF)"

definition nv_gsp_disp_get_active ::
  "'g gsp_agent \<Rightarrow> 'g nv_gsp_rpc_chan \<Rightarrow> u32 \<Rightarrow> u32 \<Rightarrow> u32 \<Rightarrow> (int \<times> u32 option \<times> u32 \<times> 'g nv_gsp_rpc_chan) option" where
  "nv_gsp_disp_get_active ag ch hClient hDispCommon head =
     do { p \<leftarrow> st32 (replicate NV0073_GET_ACTIVE_PARAMS_SIZE 0) NV0073_GET_ACTIVE_HEAD_OFF head;
          disp_query ag ch hClient hDispCommon NV0073_CTRL_CMD_SYSTEM_GET_ACTIVE p
            (\<lambda>p. ld32 p NV0073_GET_ACTIVE_DISPLAYID_OFF) }"

definition nv_gsp_disp_get_num_heads ::
  "'g gsp_agent \<Rightarrow> 'g nv_gsp_rpc_chan \<Rightarrow> u32 \<Rightarrow> u32 \<Rightarrow> (int \<times> u32 option \<times> u32 \<times> 'g nv_gsp_rpc_chan) option" where
  "nv_gsp_disp_get_num_heads ag ch hClient hDispCommon =
     do { p \<leftarrow> stores (replicate NV0073_NUM_HEADS_PARAMS_SIZE 0) 0
               [(NV0073_NUM_HEADS_SUBDEV_OFF, W32 0), (NV0073_NUM_HEADS_FLAGS_OFF, W32 0)];
          disp_query ag ch hClient hDispCommon NV0073_CTRL_CMD_SYSTEM_GET_NUM_HEADS p
            (\<lambda>p. ld32 p NV0073_NUM_HEADS_NUMHEADS_OFF) }"

definition nv_gsp_disp_get_supported ::
  "'g gsp_agent \<Rightarrow> 'g nv_gsp_rpc_chan \<Rightarrow> u32 \<Rightarrow> u32 \<Rightarrow> (int \<times> (u32 \<times> u32) option \<times> u32 \<times> 'g nv_gsp_rpc_chan) option" where
  "nv_gsp_disp_get_supported ag ch hClient hDispCommon =
     do { p \<leftarrow> st32 (replicate NV0073_SUPPORTED_PARAMS_SIZE 0) NV0073_SUPPORTED_SUBDEV_OFF 0;
          disp_query ag ch hClient hDispCommon NV0073_CTRL_CMD_SYSTEM_GET_SUPPORTED p
            (\<lambda>p. do { mask \<leftarrow> ld32 p NV0073_SUPPORTED_MASK_OFF;
                      ddc \<leftarrow> ld32 p NV0073_SUPPORTED_MASKDDC_OFF;
                      Some (mask, ddc) }) }"

record disp_or_info =
  or_type :: u32
  or_protocol :: u32
  or_index :: u32
  or_location :: u32

definition nv_gsp_disp_or_get_info ::
  "'g gsp_agent \<Rightarrow> 'g nv_gsp_rpc_chan \<Rightarrow> u32 \<Rightarrow> u32 \<Rightarrow> u32 \<Rightarrow>
   (int \<times> disp_or_info option \<times> u32 \<times> 'g nv_gsp_rpc_chan) option" where
  "nv_gsp_disp_or_get_info ag ch hClient hDispCommon displayId =
     do { p \<leftarrow> st32 (replicate NV0073_OR_GET_INFO_PARAMS_SIZE 0) NV0073_OR_GI_DISPLAYID_OFF displayId;
          disp_query ag ch hClient hDispCommon NV0073_CTRL_CMD_SPECIFIC_OR_GET_INFO p
            (\<lambda>p. do { type \<leftarrow> ld32 p NV0073_OR_GI_TYPE_OFF;
                      protocol \<leftarrow> ld32 p NV0073_OR_GI_PROTOCOL_OFF;
                      index \<leftarrow> ld32 p NV0073_OR_GI_INDEX_OFF;
                      location \<leftarrow> ld32 p NV0073_OR_GI_LOCATION_OFF;
                      Some \<lparr>or_type = type, or_protocol = protocol, or_index = index, or_location = location\<rparr> }) }"

definition nv_gsp_disp_get_connect_state ::
  "'g gsp_agent \<Rightarrow> 'g nv_gsp_rpc_chan \<Rightarrow> u32 \<Rightarrow> u32 \<Rightarrow> u32 \<Rightarrow> (int \<times> u32 option \<times> u32 \<times> 'g nv_gsp_rpc_chan) option" where
  "nv_gsp_disp_get_connect_state ag ch hClient hDispCommon display_mask_in =
     do { p \<leftarrow> stores (replicate NV0073_CONNECT_STATE_PARAMS_SIZE 0) 0
               [(NV0073_CONNECT_STATE_FLAGS_OFF, W32 0), (NV0073_CONNECT_STATE_MASK_OFF, W32 display_mask_in)];
          disp_query ag ch hClient hDispCommon NV0073_CTRL_CMD_SYSTEM_GET_CONNECT_STATE p
            (\<lambda>p. ld32 p NV0073_CONNECT_STATE_MASK_OFF) }"

text \<open>The EDID is copied into the buffer of the caller, cut to its capacity; the size is the full one.\<close>

definition copy_edid :: "u8 list \<Rightarrow> u8 list \<Rightarrow> u32 \<Rightarrow> (u8 list \<times> u32) option" where
  "copy_edid p buf buf_cap =
     do { sz0 \<leftarrow> ld32 p NV0073_EDID_BUFSIZE_OFF;
          let sz = (if sz0 > NV0073_EDID_MAX_BYTES then NV0073_EDID_MAX_BYTES else sz0);
              n = (if sz < buf_cap then sz else buf_cap) in
          do { buf \<leftarrow> for_upto 1 n (\<lambda>i buf. do { b \<leftarrow> rd8 p (NV0073_EDID_BUFFER_OFF + unat i); wr8 buf (unat i) b }) 0 buf;
               Some (buf, sz) } }"

definition nv_gsp_disp_get_edid ::
  "'g gsp_agent \<Rightarrow> 'g nv_gsp_rpc_chan \<Rightarrow> u32 \<Rightarrow> u32 \<Rightarrow> u32 \<Rightarrow> u8 list \<Rightarrow> u32 \<Rightarrow>
   (int \<times> (u8 list \<times> u32) option \<times> u32 \<times> 'g nv_gsp_rpc_chan) option" where
  "nv_gsp_disp_get_edid ag ch hClient hDispCommon displayId buf buf_cap =
     do { p \<leftarrow> stores (replicate NV0073_EDID_V2_PARAMS_SIZE 0) 0
               [(NV0073_EDID_DISPLAYID_OFF, W32 displayId), (NV0073_EDID_FLAGS_OFF, W32 0)];
          disp_query ag ch hClient hDispCommon NV0073_CTRL_CMD_SPECIFIC_GET_EDID_V2 p (\<lambda>p. copy_edid p buf buf_cap) }"

text \<open>The first output resource whose display mask meets the request, or \<open>~0\<close>.\<close>

definition find_sor :: "u8 list \<Rightarrow> u32 \<Rightarrow> u32 option" where
  "find_sor p displayId =
     do { r \<leftarrow> find_upto NV0073_ASSIGN_SOR_MAX_SORS (\<lambda>i.
            do { dm \<leftarrow> ld32 p (NV0073_ASSIGN_SOR_LISTWITHTAG_OFF + unat i * NV0073_ASSIGN_SOR_INFO_STRIDE);
                 Some (if dm AND displayId \<noteq> 0 then Some i else None) }) 0;
          Some (case r of Some i \<Rightarrow> i | None \<Rightarrow> NOT 0) }"

definition nv_gsp_disp_assign_sor ::
  "'g gsp_agent \<Rightarrow> 'g nv_gsp_rpc_chan \<Rightarrow> u32 \<Rightarrow> u32 \<Rightarrow> u32 \<Rightarrow> (int \<times> u32 option \<times> u32 \<times> 'g nv_gsp_rpc_chan) option" where
  "nv_gsp_disp_assign_sor ag ch hClient hDispCommon displayId =
     do { p \<leftarrow> st32 (replicate NV0073_ASSIGN_SOR_PARAMS_SIZE 0) NV0073_ASSIGN_SOR_DISPLAYID_OFF displayId;
          disp_query ag ch hClient hDispCommon NV0073_CTRL_CMD_DFP_ASSIGN_SOR p (\<lambda>p. find_sor p displayId) }"

section \<open>The answers stay in their buffers\<close>

lemma copy_edid_ok:
  assumes "length p = 2064" "unat buf_cap \<le> length buf"
  shows "returns (copy_edid p buf buf_cap) (\<lambda>(buf', sz). length buf' = length buf \<and> unat sz \<le> 2048
    \<and> (\<forall>i < length buf. buf' ! i = (if i < unat sz \<and> i < unat buf_cap then p ! (16 + i) else buf ! i)))"
proof -
  have loop: "returns (for_upto 1 n (\<lambda>i buf. do { b \<leftarrow> rd8 p (16 + unat i); wr8 buf (unat i) b }) 0 buf)
      (\<lambda>b. length b = length buf \<and> (\<forall>i < length buf. b ! i = (if i < unat n then p ! (16 + i) else buf ! i)))"
    if n: "unat (n :: u32) \<le> 2048" "unat n \<le> length buf" for n
  proof (rule ret_for_upto [where n = "unat n" and P = "\<lambda>k b. length b = length buf \<and>
      (\<forall>i < length buf. b ! i = (if i < k then p ! (16 + i) else buf ! i))"])
    show "unat n + unat (1 :: u32) \<le> 2 ^ LENGTH(32)" using n by simp
    fix k b assume k: "k < unat n" "length b = length buf \<and> (\<forall>i < length buf. b ! i = (if i < k then p ! (16 + i) else buf ! i))"
    then have u: "unat (of_nat k :: u32) = k" using n by (simp add: unat_of_nat_small)
    show "returns (rd8 p (16 + unat (of_nat k * 1 :: u32)) \<bind> wr8 b (unat (of_nat k * 1 :: u32)))
        (\<lambda>b. length b = length buf \<and> (\<forall>i < length buf. b ! i = (if i < Suc k then p ! (16 + i) else buf ! i)))"
      using k n assms(1) u by (auto simp: returns_def wr8_def nth_list_update less_Suc_eq)
  qed auto
  have sz: "unat (if z > 2048 then 2048 else z :: u32) \<le> 2048" for z by (simp add: word_less_nat_alt word_le_nat_alt not_less)
  show ?thesis
    unfolding copy_edid_def
  proof (intro ret_rules, simp add: assms(1))
    fix sz0 sz n
    assume s: "sz = (if sz0 > 2048 then 2048 else sz0 :: u32)" and n: "n = (if sz < buf_cap then sz else buf_cap)"
    have "unat n = min (unat sz) (unat buf_cap)" by (simp add: n word_less_nat_alt min_def)
    then show "returns (for_upto 1 n (\<lambda>i buf. do { b \<leftarrow> rd8 p (16 + unat i); wr8 buf (unat i) b }) 0 buf \<bind> (\<lambda>buf. Some (buf, sz)))
      (\<lambda>(buf', sz). length buf' = length buf \<and> unat sz \<le> 2048
         \<and> (\<forall>i < length buf. buf' ! i = (if i < unat sz \<and> i < unat buf_cap then p ! (16 + i) else buf ! i)))"
      using sz [of sz0, folded s] assms(2) by (intro ret_bind [OF loop] ret_Some) auto
  qed
qed

lemma find_sor_ok:
  assumes "length p = 80"
  shows "returns (find_sor p d) (\<lambda>s. s = NOT 0 \<or> unat s < 4)"
proof -
  have u: "unat (of_nat k :: u32) = k" if "k < 4" for k using that by (simp add: unat_of_nat_small)
  let ?body = "\<lambda>i :: u32. do { dm \<leftarrow> ld32 p (40 + unat i * 8); Some (if dm AND d \<noteq> 0 then Some i else None) }"
  have "returns (?body (of_nat k)) (\<lambda>r. case r of None \<Rightarrow> True | Some x \<Rightarrow> x = of_nat k)" if "k < unat (4 :: u32)" for k
    using that u [of k] assms by (auto simp: returns_def)
  then have "returns (find_upto 4 ?body 0) (\<lambda>r. case r of None \<Rightarrow> \<forall>k < unat (4 :: u32). True
      | Some x \<Rightarrow> \<exists>k < unat (4 :: u32). (\<forall>j < k. True) \<and> x = of_nat k)"
    using ret_find_upto [where lim = "4 :: u32" and body = ?body and P = "\<lambda>_. True" and Q = "\<lambda>k x. x = of_nat k"] by blast
  then show ?thesis
    unfolding find_sor_def by (rule ret_bind) (auto intro!: ret_rules simp: u split: option.splits)
qed

section \<open>Every function returns\<close>

context rpc_service
begin

lemma disp_query_ok:
  assumes "Q ch" "length p \<le> 3584"
    and "\<And>q. length q = length p \<Longrightarrow> returns (outs q) R"
  shows "returns (disp_query ag ch hClient hObject cmd p outs) (\<lambda>(rc, a, st, ch'). Q ch' \<and> (
    case a of None \<Rightarrow> rc \<noteq> NV_GSP_RM_OK | Some v \<Rightarrow> rc = NV_GSP_RM_OK \<and> R v))"
proof -
  have u: "unat (of_nat (length p) :: u32) = length p" using assms(2) by (simp add: unat_of_nat_small)
  have ctl: "returns (nv_gsp_rm_control ag ch hClient hObject cmd p (of_nat (length p)))
      (\<lambda>(rc, st, q, ch'). Q ch' \<and> length q = length p \<and> (rc = NV_GSP_RM_OK \<longrightarrow> st \<noteq> None))"
    by (rule control_len [OF assms(1)]) (simp_all add: u assms(2))
  have a: "returns (outs q \<bind> (\<lambda>a. Some (NV_GSP_RM_OK, Some a, s, ch'))) (\<lambda>(rc, a, st, ch').
      Q ch' \<and> (case a of None \<Rightarrow> rc \<noteq> NV_GSP_RM_OK | Some v \<Rightarrow> rc = NV_GSP_RM_OK \<and> R v))" if "length q = length p" "Q ch'" for q s ch'
    by (rule ret_bind [OF assms(3) [OF that(1)]], rule ret_Some) (simp add: that(2))
  show ?thesis
    unfolding disp_query_def
    by (rule ret_bind [OF ctl]) (auto simp: Let_def intro!: ret_rules a)
qed

lemma get_edid_ok:
  assumes "Q ch" "unat buf_cap \<le> length buf"
  shows "returns (nv_gsp_disp_get_edid ag ch c h d buf buf_cap) (\<lambda>(rc, r, st, ch'). Q ch' \<and> (case r of None \<Rightarrow> rc \<noteq> NV_GSP_RM_OK
    | Some v \<Rightarrow> rc = NV_GSP_RM_OK \<and> (case v of (buf', sz) \<Rightarrow> unat sz \<le> 2048 \<and> length buf' = length buf
        \<and> drop (min (unat sz) (unat buf_cap)) buf' = drop (min (unat sz) (unat buf_cap)) buf)))"
proof -
  have c: "returns (copy_edid p buf buf_cap) (\<lambda>(buf', sz). unat sz \<le> 2048 \<and> length buf' = length buf
      \<and> drop (min (unat sz) (unat buf_cap)) buf' = drop (min (unat sz) (unat buf_cap)) buf)" if "length p = 2064" for p
    by (rule returns_mono [OF copy_edid_ok [OF that assms(2)]]) (auto intro!: nth_equalityI)
  show ?thesis
    unfolding nv_gsp_disp_get_edid_def
    by (simp add: wr_bytes_def) (rule disp_query_ok [OF assms(1)]; simp add: c)
qed

lemma assign_sor_ok:
  assumes "Q ch"
  shows "returns (nv_gsp_disp_assign_sor ag ch c h d) (\<lambda>(rc, r, st, ch'). Q ch' \<and> (case r of None \<Rightarrow> rc \<noteq> NV_GSP_RM_OK
    | Some s \<Rightarrow> rc = NV_GSP_RM_OK \<and> (s = NOT 0 \<or> unat s < 4)))"
  unfolding nv_gsp_disp_assign_sor_def
  by (rule ret_st32, simp) (rule disp_query_ok [OF assms]; simp add: find_sor_ok [simplified])

abbreviation answered :: "('a \<Rightarrow> bool) \<Rightarrow> int \<times> 'a option \<times> u32 \<times> 'g nv_gsp_rpc_chan \<Rightarrow> bool" where
  "answered R \<equiv> \<lambda>(rc, a, st, ch'). Q ch' \<and> (case a of None \<Rightarrow> rc \<noteq> NV_GSP_RM_OK | Some v \<Rightarrow> rc = NV_GSP_RM_OK \<and> R v)"

lemma head_mask_ok: "Q ch \<Longrightarrow> returns (nv_gsp_disp_get_head_mask ag ch c h) (answered (\<lambda>_. True))"
  unfolding nv_gsp_disp_get_head_mask_def by (rule disp_query_ok) (simp_all add: returns_def)

lemma get_active_ok: "Q ch \<Longrightarrow> returns (nv_gsp_disp_get_active ag ch c h head) (answered (\<lambda>_. True))"
  unfolding nv_gsp_disp_get_active_def
  by (rule ret_st32, simp) (rule disp_query_ok; simp add: returns_def)

lemma num_heads_ok: "Q ch \<Longrightarrow> returns (nv_gsp_disp_get_num_heads ag ch c h) (answered (\<lambda>_. True))"
  unfolding nv_gsp_disp_get_num_heads_def
  by (rule ret_stores, simp) (rule disp_query_ok; simp add: returns_def)

lemma supported_ok: "Q ch \<Longrightarrow> returns (nv_gsp_disp_get_supported ag ch c h) (answered (\<lambda>_. True))"
  unfolding nv_gsp_disp_get_supported_def
  by (rule ret_st32, simp) (rule disp_query_ok; simp add: returns_def)

lemma or_get_info_ok: "Q ch \<Longrightarrow> returns (nv_gsp_disp_or_get_info ag ch c h d) (answered (\<lambda>_. True))"
  unfolding nv_gsp_disp_or_get_info_def
  by (rule ret_st32, simp) (rule disp_query_ok; simp add: returns_def)

lemma connect_state_ok: "Q ch \<Longrightarrow> returns (nv_gsp_disp_get_connect_state ag ch c h m) (answered (\<lambda>_. True))"
  unfolding nv_gsp_disp_get_connect_state_def
  by (rule ret_stores, simp) (rule disp_query_ok; simp add: returns_def)

lemma common_alloc_ok: "Q ch \<Longrightarrow> returns (nv_gsp_disp_common_alloc ag ch c d) (ctor_done NV_GSP_RM_DISPCOMMON_HANDLE)"
  unfolding nv_gsp_disp_common_alloc_def Let_def by (rule alloc_ctor) simp_all

lemma root_alloc_ok: "Q ch \<Longrightarrow> returns (nv_gsp_disp_root_alloc ag ch c d cl) (ctor_done (push_bit 16 cl))"
  unfolding nv_gsp_disp_root_alloc_def Let_def by (rule alloc_ctor) simp_all

lemma core_channel_alloc_ok:
  "Q ch \<Longrightarrow> returns (nv_gsp_disp_core_channel_alloc ag ch c r cl n) (ctor_done (push_bit 16 cl OR n))"
  unfolding nv_gsp_disp_core_channel_alloc_def Let_def
  by (rule ret_stores, simp) (rule alloc_ctor; simp)

lemma set_hdmi_enable_ok: "Q ch \<Longrightarrow> returns (nv_gsp_disp_set_hdmi_enable ag ch c h d e) ctl_done"
  unfolding nv_gsp_disp_set_hdmi_enable_def
  by (rule ret_stores, simp) (rule control_ctl; simp)

lemma write_inst_mem_ok: "Q ch \<Longrightarrow> returns (nv_gsp_disp_write_inst_mem ag ch c s p n) ctl_done"
  unfolding nv_gsp_disp_write_inst_mem_def
  by (rule ret_stores, simp) (rule control_ctl; simp)

lemma channel_pushbuffer_ok: "Q ch \<Longrightarrow> returns (nv_gsp_disp_channel_pushbuffer ag ch c s cl n p l) ctl_done"
  unfolding nv_gsp_disp_channel_pushbuffer_def
  by (rule ret_stores, simp) (rule control_ctl; simp)

end

section \<open>Properties\<close>

text \<open>
  C36. Against a GSP that follows the queue protocol the display queries return, whatever the answer holds.  The
  EDID query writes at most the capacity it was given and at most 2048 bytes, leaves the rest of the buffer as
  it was, and reports a size of at most 2048; the output resource is one of four or \<open>~0\<close>; a query that
  fails writes none of its outputs.
\<close>

theorem disp_queries_bounded:
  assumes "gsp_protocol ag" "chan_ok ch ms" and cap: "unat buf_cap \<le> length buf"
  shows "(\<exists>rc r st ch'. nv_gsp_disp_get_edid ag ch c h d buf buf_cap = Some (rc, r, st, ch') \<and> (case r of
        None \<Rightarrow> rc \<noteq> NV_GSP_RM_OK
      | Some (buf', sz) \<Rightarrow> rc = NV_GSP_RM_OK \<and> unat sz \<le> 2048 \<and> length buf' = length buf
          \<and> drop (min (unat sz) (unat buf_cap)) buf' = drop (min (unat sz) (unat buf_cap)) buf))
    \<and> (\<exists>rc r st ch'. nv_gsp_disp_assign_sor ag ch c h d = Some (rc, r, st, ch') \<and> (case r of
        None \<Rightarrow> rc \<noteq> NV_GSP_RM_OK
      | Some sor \<Rightarrow> rc = NV_GSP_RM_OK \<and> (if sor = NOT 0 then True else unat sor < 4)))"
proof
  have sv: "served ag (\<lambda>_. True) ch" using assms(1,2) by (auto simp: served_def)
  show "\<exists>rc r st ch'. nv_gsp_disp_get_edid ag ch c h d buf buf_cap = Some (rc, r, st, ch') \<and> (case r of
        None \<Rightarrow> rc \<noteq> NV_GSP_RM_OK
      | Some (buf', sz) \<Rightarrow> rc = NV_GSP_RM_OK \<and> unat sz \<le> 2048 \<and> length buf' = length buf
          \<and> drop (min (unat sz) (unat buf_cap)) buf' = drop (min (unat sz) (unat buf_cap)) buf)"
    using returnsD [OF sv.get_edid_ok [OF sv cap, of c h d]] unfolding split_paired_Ex prod.case
    by (elim exE conjE) (intro exI conjI, assumption, auto split: option.splits)
  show "\<exists>rc r st ch'. nv_gsp_disp_assign_sor ag ch c h d = Some (rc, r, st, ch') \<and> (case r of
        None \<Rightarrow> rc \<noteq> NV_GSP_RM_OK
      | Some sor \<Rightarrow> rc = NV_GSP_RM_OK \<and> (if sor = NOT 0 then True else unat sor < 4))"
    using returnsD [OF sv.assign_sor_ok [OF sv, of c h d]] unfolding split_paired_Ex prod.case
    by (elim exE conjE) (intro exI conjI, assumption, auto split: option.splits)
qed

theorem disp_queries_witness:
  "\<exists>(ch :: unit nv_gsp_rpc_chan) rc r st ch'. nv_gsp_disp_get_edid idle_gsp ch 1 2 3 (replicate 128 0) 128 = Some (rc, r, st, ch')"
proof -
  obtain ch :: "unit nv_gsp_rpc_chan" and m where ch: "chan_ok ch [m]" by (rule demo_chan)
  have l: "unat (128 :: u32) \<le> length (replicate 128 (0 :: u8))" by simp
  show ?thesis using disp_queries_bounded [OF idle_gsp_protocol ch l, of 1 2 3] by blast
qed

end
