(* ===== verification/CpuSeq.thy ===== *)
theory CpuSeq
  imports Falcon Booter
begin

text \<open>
  The CPU sequencer of \<open>driver/gsp/gsp_bringup.c\<close>: in the middle of its start GSP-RM sends a list of register
  commands and the CPU executes them.  The command buffer is the list of the words that may be read behind
  its start; \<^const>\<open>None\<close> is a read past it, or a poll that never ends.
\<close>

abbreviation (input) TIMEOUT_US :: u32 where "TIMEOUT_US \<equiv> 2 * 1000 * 1000"
abbreviation (input) SEQ_REG_WRITE :: u32 where "SEQ_REG_WRITE \<equiv> 0"
abbreviation (input) SEQ_REG_MODIFY :: u32 where "SEQ_REG_MODIFY \<equiv> 1"
abbreviation (input) SEQ_REG_POLL :: u32 where "SEQ_REG_POLL \<equiv> 2"
abbreviation (input) SEQ_DELAY_US :: u32 where "SEQ_DELAY_US \<equiv> 3"
abbreviation (input) SEQ_REG_STORE :: u32 where "SEQ_REG_STORE \<equiv> 4"
abbreviation (input) SEQ_CORE_RESET :: u32 where "SEQ_CORE_RESET \<equiv> 5"
abbreviation (input) SEQ_CORE_START :: u32 where "SEQ_CORE_START \<equiv> 6"
abbreviation (input) SEQ_CORE_WAIT_HALT :: u32 where "SEQ_CORE_WAIT_HALT \<equiv> 7"
abbreviation (input) SEQ_CORE_RESUME :: u32 where "SEQ_CORE_RESUME \<equiv> 8"

record seq_ctx =
  sq_boot0 :: u32
  sq_libos_io :: u64
  sq_meta_io :: u64
  sq_booter_io :: u64
  sq_app_version :: u32
  sq_bd :: nv_booter_desc_t

section \<open>The commands\<close>

definition seq_poll :: "'w mmio \<Rightarrow> u32 \<Rightarrow> u32 \<Rightarrow> u32 \<Rightarrow> u32 \<Rightarrow> 'w \<Rightarrow> (int \<times> 'w) option" where
  "seq_poll io addr msk val usec =
     (let usec = (if usec = 0 then 4000000 else usec) in poll io addr (\<lambda>v. v AND msk = val) usec 10 0)"

definition seq_core_resume :: "'w mmio \<Rightarrow> seq_ctx \<Rightarrow> 'w \<Rightarrow> (int \<times> 'w) option" where
  "seq_core_resume io c w =
     do { (rc, w) \<leftarrow> nv_falcon_gsp_reset_riscv io NV_PGSP_FALCON_BASE NV_PGSP_FALCON2_BASE TIMEOUT_US w;
          if rc \<noteq> NV_OK then Some (-1, w)
          else
            let w = nv_falcon_write_mailbox0 io NV_PGSP_FALCON_BASE (ucast (sq_libos_io c)) w;
                w = nv_falcon_write_mailbox1 io NV_PGSP_FALCON_BASE (ucast (drop_bit 32 (sq_libos_io c))) w;
                w = nv_falcon_start io NV_PSEC_FALCON_BASE w in
            do { (rc, w) \<leftarrow> seq_poll io 0x1180f8 0x04000000 0x04000000 2000000 w;
                 if rc \<noteq> 0 then Some (-1, w)
                 else
                   let (mb0, w) = nv_falcon_read_mailbox0 io NV_PSEC_FALCON_BASE w in
                   if mb0 \<noteq> 0 then Some (-1, w)
                   else
                     let w = nv_falcon_write_os_version io NV_PGSP_FALCON_BASE (sq_app_version c) w;
                         (active, w) = nv_falcon_riscv_active io NV_PGSP_FALCON2_BASE w
                     in Some (if active then 0 else -1, w) } }"

definition seq_core_reset :: "'w mmio \<Rightarrow> seq_ctx \<Rightarrow> 'w \<Rightarrow> (int \<times> 'w) option" where
  "seq_core_reset io c w =
     do { (rc, w) \<leftarrow> nv_falcon_reset_ga102 io NV_PGSP_FALCON_BASE NV_PGSP_FALCON2_BASE (sq_boot0 c) TIMEOUT_US w;
          if rc \<noteq> NV_OK then Some (-1, w)
          else let a = NV_PGSP_FALCON_BASE + 0x624;
                   (v, w) = io_rd io a w;
                   w = io_wr io a ((v AND NOT 0x80) OR 0x80) w
               in Some (0, io_wr io (NV_PGSP_FALCON_BASE + 0x10c) 0 w) }"

definition cb_word :: "u32 list \<Rightarrow> u32 \<Rightarrow> u32 option" where
  "cb_word cb p = (if unat p < length cb then Some (cb ! unat p) else None)"

text \<open>One command behind its opcode: the return code, the new position, the saved registers and the hardware.\<close>

definition seq_step ::
  "'w mmio \<Rightarrow> seq_ctx \<Rightarrow> u32 list \<Rightarrow> u32 \<Rightarrow> u32 \<Rightarrow> u32 list \<Rightarrow> 'w \<Rightarrow> (int \<times> u32 \<times> u32 list \<times> 'w) option" where
  "seq_step io c cb op ptr regSave w =
     (if op = SEQ_REG_WRITE then
        do { a \<leftarrow> cb_word cb ptr; v \<leftarrow> cb_word cb (ptr + 1);
             Some (0, ptr + 2, regSave, io_wr io a v w) }
      else if op = SEQ_REG_MODIFY then
        do { a \<leftarrow> cb_word cb ptr; m \<leftarrow> cb_word cb (ptr + 1); v \<leftarrow> cb_word cb (ptr + 2);
             let (x, w) = io_rd io a w in Some (0, ptr + 3, regSave, io_wr io a ((x AND NOT m) OR v) w) }
      else if op = SEQ_REG_POLL then
        do { a \<leftarrow> cb_word cb ptr; m \<leftarrow> cb_word cb (ptr + 1); v \<leftarrow> cb_word cb (ptr + 2); t \<leftarrow> cb_word cb (ptr + 3);
             (rc, w) \<leftarrow> seq_poll io a m v t w;
             Some (if rc \<noteq> 0 then -1 else 0, ptr + 5, regSave, w) }
      else if op = SEQ_DELAY_US then
        do { u \<leftarrow> cb_word cb ptr; Some (0, ptr + 1, regSave, io_udelay io u w) }
      else if op = SEQ_REG_STORE then
        do { a \<leftarrow> cb_word cb ptr; idx \<leftarrow> cb_word cb (ptr + 1);
             if idx < 8 then let (x, w) = io_rd io a w in
               if unat idx < length regSave then Some (0, ptr + 2, regSave[unat idx := x], w) else None
             else Some (0, ptr + 2, regSave, w) }
      else if op = SEQ_CORE_RESET then
        do { (rc, w) \<leftarrow> seq_core_reset io c w; Some (if rc \<noteq> 0 then -1 else 0, ptr, regSave, w) }
      else if op = SEQ_CORE_START then Some (0, ptr, regSave, nv_falcon_start io NV_PGSP_FALCON_BASE w)
      else if op = SEQ_CORE_WAIT_HALT then
        do { (rc, w) \<leftarrow> nv_falcon_wait_halted io NV_PGSP_FALCON_BASE TIMEOUT_US w;
             Some (if rc \<noteq> NV_OK then -1 else 0, ptr, regSave, w) }
      else if op = SEQ_CORE_RESUME then
        do { (rc, w) \<leftarrow> seq_core_resume io c w; Some (if rc \<noteq> 0 then -1 else 0, ptr, regSave, w) }
      else Some (-1, ptr, regSave, w))"

partial_function (option) seq_run ::
  "'w mmio \<Rightarrow> seq_ctx \<Rightarrow> u32 list \<Rightarrow> u32 \<Rightarrow> u32 \<Rightarrow> u32 list \<Rightarrow> 'w \<Rightarrow> (int \<times> u32 list \<times> 'w) option" where
  "seq_run io c cb cmdIndex ptr regSave w =
     (if ptr < cmdIndex then
        do { op \<leftarrow> cb_word cb ptr;
             (rc, ptr, regSave, w) \<leftarrow> seq_step io c cb op (ptr + 1) regSave w;
             if rc \<noteq> 0 then Some (-1, regSave, w) else seq_run io c cb cmdIndex ptr regSave w }
      else Some (0, regSave, w))"

declare seq_run.simps [code]

definition exec_cpu_sequencer ::
  "'w mmio \<Rightarrow> seq_ctx \<Rightarrow> u32 list \<Rightarrow> u32 \<Rightarrow> u32 list \<Rightarrow> 'w \<Rightarrow> (int \<times> u32 list \<times> 'w) option" where
  "exec_cpu_sequencer io c cb cmdIndex regSave w = seq_run io c cb cmdIndex 0 regSave w"

section \<open>The list of commands a buffer stands for\<close>

datatype seq_cmd = RegWrite u32 u32 | RegModify u32 u32 u32 | RegPoll u32 u32 u32 u32 u32 | DelayUs u32
  | RegStore u32 u32 | CoreReset | CoreStart | CoreWaitHalt | CoreResume

fun cmd_words :: "seq_cmd \<Rightarrow> u32 list" where
  "cmd_words (RegWrite a v) = [0, a, v]"
| "cmd_words (RegModify a m v) = [1, a, m, v]"
| "cmd_words (RegPoll a m v t e) = [2, a, m, v, t, e]"
| "cmd_words (DelayUs u) = [3, u]"
| "cmd_words (RegStore a i) = [4, a, i]"
| "cmd_words CoreReset = [5]"
| "cmd_words CoreStart = [6]"
| "cmd_words CoreWaitHalt = [7]"
| "cmd_words CoreResume = [8]"

text \<open>What one command does; a poll with a time-out close to \<open>2 ^ 32\<close> would not end.\<close>

fun cmd_ok :: "seq_cmd \<Rightarrow> bool" where
  "cmd_ok (RegPoll a m v t e) \<longleftrightarrow> unat t + 10 \<le> 2 ^ 32"
| "cmd_ok _ \<longleftrightarrow> True"

fun run_cmd :: "'w mmio \<Rightarrow> seq_ctx \<Rightarrow> seq_cmd \<Rightarrow> u32 list \<times> 'w \<Rightarrow> (bool \<times> u32 list \<times> 'w) option" where
  "run_cmd io c (RegWrite a v) (rs, w) = Some (True, rs, io_wr io a v w)"
| "run_cmd io c (RegModify a m v) (rs, w) =
     (let (x, w) = io_rd io a w in Some (True, rs, io_wr io a ((x AND NOT m) OR v) w))"
| "run_cmd io c (RegPoll a m v t e) (rs, w) = map_option (\<lambda>(rc, w). (rc = 0, rs, w)) (seq_poll io a m v t w)"
| "run_cmd io c (DelayUs u) (rs, w) = Some (True, rs, io_udelay io u w)"
| "run_cmd io c (RegStore a i) (rs, w) =
     (if unat i < 8 then let (x, w) = io_rd io a w in Some (True, rs[unat i := x], w) else Some (True, rs, w))"
| "run_cmd io c CoreReset (rs, w) = map_option (\<lambda>(rc, w). (rc = 0, rs, w)) (seq_core_reset io c w)"
| "run_cmd io c CoreStart (rs, w) = Some (True, rs, nv_falcon_start io NV_PGSP_FALCON_BASE w)"
| "run_cmd io c CoreWaitHalt (rs, w) =
     map_option (\<lambda>(rc, w). (rc = 0, rs, w)) (nv_falcon_wait_halted io NV_PGSP_FALCON_BASE TIMEOUT_US w)"
| "run_cmd io c CoreResume (rs, w) = map_option (\<lambda>(rc, w). (rc = 0, rs, w)) (seq_core_resume io c w)"

text \<open>A list of commands runs in order and stops at the first that fails.\<close>

fun run_cmds :: "'w mmio \<Rightarrow> seq_ctx \<Rightarrow> seq_cmd list \<Rightarrow> u32 list \<times> 'w \<Rightarrow> (bool \<times> u32 list \<times> 'w) option" where
  "run_cmds io c [] s = Some (True, s)"
| "run_cmds io c (x # xs) s = do { (ok, s) \<leftarrow> run_cmd io c x s; if ok then run_cmds io c xs s else Some (False, s) }"

section \<open>The buffer is executed as the list of its commands\<close>

lemma cb_word_at:
  assumes "k < length ws" "length pre + length ws < 2 ^ 32"
  shows "cb_word (pre @ ws @ rest) (of_nat (length pre) + of_nat k) = Some (ws ! k)"
proof -
  have "unat (of_nat (length pre + k) :: u32) = length pre + k"
    using assms by (intro unat_of_nat_small) simp
  then show ?thesis using assms(1) by (simp add: cb_word_def nth_append del: unat_of_nat)
qed

lemma seq_step_cmd:
  assumes wd: "\<And>k. k < length (cmd_words x) \<Longrightarrow> cb_word cb (p + of_nat k) = Some (cmd_words x ! k)"
    and rs: "length rs = 8"
  shows "seq_step io c cb (hd (cmd_words x)) (p + 1) rs w =
     map_option (\<lambda>(ok, rs, w). (if ok then 0 else -1, p + of_nat (length (cmd_words x)), rs, w))
       (run_cmd io c x (rs, w))"
proof (cases x)
  case (RegPoll a m v t e)
  then show ?thesis using wd [of 1] wd [of 2] wd [of 3] wd [of 4]
    by (cases "seq_poll io a m v t w") (auto simp: seq_step_def add.commute [of p])
next
  case (RegStore a i)
  then show ?thesis using wd [of 1] wd [of 2] rs
    by (auto simp: seq_step_def case_prod_beta Let_def word_less_nat_alt add.commute [of p])
next
  case (RegModify a m v)
  then show ?thesis using wd [of 1] wd [of 2] wd [of 3]
    by (simp add: seq_step_def case_prod_beta Let_def add.commute [of p])
next
  case CoreReset
  then show ?thesis by (cases "seq_core_reset io c w") (auto simp: seq_step_def)
next
  case CoreWaitHalt
  then show ?thesis by (cases "nv_falcon_wait_halted io NV_PGSP_FALCON_BASE TIMEOUT_US w") (auto simp: seq_step_def)
next
  case CoreResume
  then show ?thesis by (cases "seq_core_resume io c w") (auto simp: seq_step_def)
qed (use wd [of 1] wd [of 2] in \<open>simp_all add: seq_step_def add.commute [of p]\<close>)

lemma cmd_words_Cons: "cmd_words x = hd (cmd_words x) # tl (cmd_words x)"
  by (cases x) simp_all

lemma run_cmd_saved: "run_cmd io c x (rs, w) = Some (ok, rs', w') \<Longrightarrow> length rs' = length rs"
  by (cases x) (auto simp: case_prod_beta Let_def split: if_splits)

lemma seq_run_cmds:
  "cb = pre @ concat (map cmd_words cmds) @ rest \<Longrightarrow> length pre + length (concat (map cmd_words cmds)) < 2 ^ 32 \<Longrightarrow>
   length rs = 8 \<Longrightarrow>
   seq_run io c cb (of_nat (length pre + length (concat (map cmd_words cmds)))) (of_nat (length pre)) rs w =
     map_option (\<lambda>(ok, rs, w). (if ok then 0 else -1, rs, w)) (run_cmds io c cmds (rs, w))"
proof (induction cmds arbitrary: pre rs w)
  case Nil
  then show ?case by (simp add: seq_run.simps)
next
  case (Cons x xs)
  let ?n = "length (cmd_words x)" and ?m = "length (concat (map cmd_words xs))"
  define p :: u32 where "p = of_nat (length pre)"
  define cmdIndex :: u32 where "cmdIndex = of_nat (length pre + length (concat (map cmd_words (x # xs))))"
  have n: "0 < ?n" by (subst cmd_words_Cons) simp
  have fit: "length pre + ?n + ?m < 2 ^ 32" using Cons.prems(2) by simp
  have u: "unat p = length pre" "unat cmdIndex = length pre + ?n + ?m"
    unfolding p_def cmdIndex_def using fit by (simp_all add: unat_of_nat_small del: of_nat_add)
  have lt: "p < cmdIndex" using u n by (simp add: word_less_nat_alt)
  have cb: "cb = pre @ cmd_words x @ (concat (map cmd_words xs) @ rest)" using Cons.prems(1) by simp
  have wd: "cb_word cb (p + of_nat k) = Some (cmd_words x ! k)" if "k < ?n" for k
    unfolding cb p_def using that fit by (intro cb_word_at) auto
  have op: "cb_word cb p = Some (hd (cmd_words x))"
    using wd [of 0] n by (subst cmd_words_Cons) (simp add: hd_conv_nth)
  have un: "seq_run io c cb cmdIndex p rs w =
      (case run_cmd io c x (rs, w) of None \<Rightarrow> None
       | Some (ok, rs, w) \<Rightarrow> if ok then seq_run io c cb cmdIndex (p + of_nat ?n) rs w else Some (-1, rs, w))"
    using lt by (subst seq_run.simps) (auto simp: op seq_step_cmd [OF wd Cons.prems(3)] split: option.splits)
  have "seq_run io c cb cmdIndex p rs w =
      map_option (\<lambda>(ok, rs, w). (if ok then 0 else -1, rs, w)) (run_cmds io c (x # xs) (rs, w))"
  proof (cases "run_cmd io c x (rs, w)")
    case None
    then show ?thesis using un by simp
  next
    case (Some r)
    obtain ok rs' w' where r: "r = (ok, rs', w')" by (cases r)
    have rs': "length rs' = 8" using run_cmd_saved [OF Some [unfolded r]] Cons.prems(3) by simp
    have IH: "seq_run io c cb cmdIndex (p + of_nat ?n) rs' w' =
        map_option (\<lambda>(ok, rs, w). (if ok then 0 else -1, rs, w)) (run_cmds io c xs (rs', w'))"
      using Cons.IH [of "pre @ cmd_words x" rs' w'] Cons.prems(1) fit rs'
      by (simp add: p_def cmdIndex_def add.assoc)
    show ?thesis using un IH Some by (simp add: r)
  qed
  then show ?case by (simp only: p_def cmdIndex_def)
qed

section \<open>Every command ends\<close>

text \<open>The rules that show that a step of the hardware returns.\<close>

definition ends :: "'a option \<Rightarrow> bool" where "ends f \<longleftrightarrow> (\<exists>a. f = Some a)"

lemma ends_Some: "ends (Some a)"
  by (simp add: ends_def)

lemma ends_bind: "ends f \<Longrightarrow> (\<And>a. ends (g a)) \<Longrightarrow> ends (Option.bind f g)"
  by (auto simp: ends_def)

lemma ends_if: "ends f \<Longrightarrow> ends g \<Longrightarrow> ends (if b then f else g)"
  by simp

lemma ends_prod: "(\<And>a b. ends (f a b)) \<Longrightarrow> ends (case p of (a, b) \<Rightarrow> f a b)"
  by (simp split: prod.splits)

lemma ends_map: "ends f \<Longrightarrow> ends (map_option g f)"
  by (auto simp: ends_def)

lemma wait_ends:
  "0 < unat step \<Longrightarrow> unat timeout + unat step \<le> 2 ^ 32 \<Longrightarrow> ends (poll io reg stop timeout step 0 w)"
  by (auto simp: poll_spec Let_def ends_def)

lemmas ends_rules = ends_Some ends_bind ends_if ends_prod ends_map

lemma seq_poll_ends: "unat usec + 10 \<le> 2 ^ 32 \<Longrightarrow> ends (seq_poll io a m v usec w)"
  unfolding seq_poll_def Let_def by (rule wait_ends) (simp_all split: if_splits)

lemma scrub_ends: "ends (nv_falcon_wait_mem_scrubbing io base TIMEOUT_US w)"
  unfolding nv_falcon_wait_mem_scrubbing_def by (rule wait_ends) simp_all

lemma halted_ends: "unat t + 10 \<le> 2 ^ 32 \<Longrightarrow> ends (nv_falcon_wait_halted io base t w)"
  unfolding nv_falcon_wait_halted_def by (rule wait_ends) simp_all

lemma select_ends: "ends (nv_falcon_select_core_ga102 io falcon2 TIMEOUT_US w)"
  unfolding nv_falcon_select_core_ga102_def Let_def by (intro ends_rules wait_ends) simp_all

lemma reset_ga102_ends: "ends (nv_falcon_reset_ga102 io base falcon2 boot0 TIMEOUT_US w)"
  unfolding nv_falcon_reset_ga102_def Let_def
  by (intro ends_rules scrub_ends select_ends wait_ends) simp_all

lemma reset_riscv_ends: "ends (nv_falcon_gsp_reset_riscv io base falcon2 TIMEOUT_US w)"
  unfolding nv_falcon_gsp_reset_riscv_def Let_def by (intro ends_rules scrub_ends)

lemma seq_core_reset_ends: "ends (seq_core_reset io c w)"
  unfolding seq_core_reset_def Let_def by (intro ends_rules reset_ga102_ends)

lemma seq_core_resume_ends: "ends (seq_core_resume io c w)"
  unfolding seq_core_resume_def Let_def
  by (intro ends_rules reset_riscv_ends seq_poll_ends) simp

lemma run_cmd_ends: "cmd_ok x \<Longrightarrow> ends (run_cmd io c x (rs, w))"
  by (cases x) (auto simp: Let_def intro!: ends_rules seq_poll_ends seq_core_reset_ends halted_ends
      seq_core_resume_ends simp del: not_None_eq)

lemma run_cmds_ends: "\<forall>x\<in>set cmds. cmd_ok x \<Longrightarrow> ends (run_cmds io c cmds s)"
  by (induction cmds arbitrary: s) (auto intro!: ends_rules run_cmd_ends)

section \<open>The sequencer\<close>

text \<open>
  C15. The sequencer is an interpreter of the commands in its buffer: it executes them in order, saves the registers
  that are asked for, returns 0 exactly when all of them succeed and \<open>-1\<close> at the first that fails, leaving the
  rest of the list unexecuted; and it always returns, as long as no poll has a time-out within 10 of \<open>2 ^ 32\<close>.
\<close>

theorem exec_cpu_sequencer_runs_commands:
  assumes "length (concat (map cmd_words cmds)) < 2 ^ 32" "length rs = 8" "\<forall>x\<in>set cmds. cmd_ok x"
  shows "\<exists>ok rs' w'. run_cmds io c cmds (rs, w) = Some (ok, rs', w') \<and>
    exec_cpu_sequencer io c (concat (map cmd_words cmds) @ rest) (of_nat (length (concat (map cmd_words cmds)))) rs w
      = Some (if ok then 0 else -1, rs', w')"
proof -
  obtain ok rs' w' where run: "run_cmds io c cmds (rs, w) = Some (ok, rs', w')"
    using run_cmds_ends [OF assms(3), of io c "(rs, w)"] by (auto simp: ends_def)
  have "exec_cpu_sequencer io c (concat (map cmd_words cmds) @ rest)
      (of_nat (length (concat (map cmd_words cmds)))) rs w =
      map_option (\<lambda>(ok, rs, w). (if ok then 0 else -1, rs, w)) (run_cmds io c cmds (rs, w))"
    using seq_run_cmds [of _ "[]" cmds rest rs io c w, OF refl] assms by (simp add: exec_cpu_sequencer_def)
  with run show ?thesis by auto
qed

definition demo_ctx :: seq_ctx where
  "demo_ctx = \<lparr> sq_boot0 = 0, sq_libos_io = 0, sq_meta_io = 0, sq_booter_io = 0, sq_app_version = 0,
                sq_bd = demo_desc 0 \<rparr>"

theorem exec_cpu_sequencer_witness:
  "exec_cpu_sequencer demo_port demo_ctx [0, 4, 5, 3, 7, 3, 7, 3, 7, 4, 0x110100, 2, 6, 99] 13 (replicate 8 0) 0
     = Some (0, [0, 0, 0xFFFFFFFF, 0, 0, 0, 0, 0], 3)"
proof -
  let ?cmds = "[RegWrite 4 5, DelayUs 7, DelayUs 7, DelayUs 7, RegStore 0x110100 2, CoreStart]"
  have words: "concat (map cmd_words ?cmds) = [0, 4, 5, 3, 7, 3, 7, 3, 7, 4, 0x110100, 2, 6]" by simp
  have run: "run_cmds demo_port demo_ctx ?cmds (replicate 8 0, 0) =
      Some (True, [0, 0, 0xFFFFFFFF, 0, 0, 0, 0, 0], 3)" by code_simp
  show ?thesis
    using exec_cpu_sequencer_runs_commands [of ?cmds "replicate 8 0" demo_port demo_ctx 0 "[99]",
        unfolded words run] by auto
qed

text \<open>An opcode the sequencer does not know ends the run.\<close>

lemma seq_unknown_opcode: "8 < op \<Longrightarrow> seq_step io c cb op p rs w = Some (-1, p, rs, w)"
  by (auto simp: seq_step_def)

text \<open>
  The sequencer believes the word count of the message: a count that goes past the end of the message, or ends inside
  a command, makes it read words that are not part of the message.
\<close>

lemma exec_cpu_sequencer_overread:
  "exec_cpu_sequencer io c [0] 1 rs w = None" "exec_cpu_sequencer io c [] 1 rs w = None"
  by (simp_all add: exec_cpu_sequencer_def seq_run.simps [of io c _ _ 0] seq_step_def cb_word_def)

end
