(* ===== verification/MilcorixGpu.thy ===== *)
theory MilcorixGpu
  imports GspExec
begin

text \<open>
  The operations of \<open>driver/macos/MilcorixFB.cpp\<close> a user client reaches: data goes in and out of the scratch
  area through the PRAMIN window, copies go to the GPU.  Each call takes the lock of the object for its whole
  length, so the model executes it in one step.  Status codes of IOKit are a datatype: the code only compares them.
\<close>

datatype IOReturn = kIOReturnSuccess | kIOReturnBadArgument | kIOReturnNotReady | kIOReturnIOError
  | kIOReturnVMError | kIOReturnNoMemory | kIOReturnUnsupported | kIOReturnNotAttached | kIOReturnInternalError

text \<open>What the object keeps for these operations; \<open>fb_fGpuLock\<close> says that the lock could be allocated.\<close>

record milcorix_fb =
  fb_fGpuLock :: bool
  fb_fGpuClients :: u32
  fb_fGpu :: nv_gsp_gpu_ctx

text \<open>
  What the kernel provides during one call: the registers of BAR0, the clock with its conversion to
  nanoseconds, and whether memory can be had.
\<close>

record 'w kernel =
  kn_io :: "'w mmio"
  kn_uptime :: "'w \<Rightarrow> u64"
  kn_nanos :: "u64 \<Rightarrow> u64"
  kn_IOMalloc :: bool

abbreviation (input) WIN_UNKNOWN :: u64 where "WIN_UNKNOWN \<equiv> 0xFFFFFFFFFFFFFFFF"

definition gpuReady :: "milcorix_fb \<Rightarrow> bool" where "gpuReady fb = gx_ok (fb_fGpu fb)"

definition gpuPoolVerified :: "milcorix_fb \<Rightarrow> bool" where
  "gpuPoolVerified fb = (gx_ok (fb_fGpu fb) \<and> gx_external_vmm (fb_fGpu fb) \<and> gx_pool_selftest_ok (fb_fGpu fb))"

definition gpuScratchSize :: "milcorix_fb \<Rightarrow> u64" where "gpuScratchSize fb = gx_scratch_size (fb_fGpu fb)"
definition gpuScratchVA :: "milcorix_fb \<Rightarrow> u64" where "gpuScratchVA fb = gx_scratch_va (fb_fGpu fb)"
definition gpuChannel :: "milcorix_fb \<Rightarrow> u32" where "gpuChannel fb = gx_h_channel (fb_fGpu fb)"
definition gpuCopyEngine :: "milcorix_fb \<Rightarrow> u32" where "gpuCopyEngine fb = gx_h_ce (fb_fGpu fb)"

definition gpuRegionOk :: "milcorix_fb \<Rightarrow> u64 \<Rightarrow> u32 \<Rightarrow> bool" where
  "gpuRegionOk fb offset len =
     (if \<not> gx_ok (fb_fGpu fb) \<or> len = 0 then False
      else if offset > gx_scratch_size (fb_fGpu fb) then False
      else if ucast len > gx_scratch_size (fb_fGpu fb) - offset then False
      else True)"

section \<open>Writing\<close>

text \<open>The loop over whole words; the result holds the index where it stopped.\<close>

partial_function (option) write_words ::
  "'w mmio \<Rightarrow> u8 list \<Rightarrow> u64 \<Rightarrow> u32 \<Rightarrow> u32 \<Rightarrow> 'w pramin \<Rightarrow> (u32 \<times> 'w pramin) option" where
  "write_words io src phys len i st =
     (if i + 4 \<le> len
      then do { v \<leftarrow> ld32 src (unat i); write_words io src phys len (i + 4) (nv_pramin_wr32 io (phys + ucast i) v st) }
      else Some (i, st))"

text \<open>The bytes behind the last whole word, put into the word that is there.\<close>

partial_function (option) patch_tail :: "u8 list \<Rightarrow> u32 \<Rightarrow> u32 \<Rightarrow> u32 \<Rightarrow> u32 \<Rightarrow> u32 option" where
  "patch_tail src len i b v =
     (if i + b < len
      then do { x \<leftarrow> rd8 src (unat (i + b));
                patch_tail src len i (b + 1)
                  ((v AND NOT (push_bit (unat (8 * b)) 0xff)) OR push_bit (unat (8 * b)) (ucast x)) }
      else Some v)"

declare write_words.simps [code] patch_tail.simps [code]

definition gpuWriteLocked ::
  "'w kernel \<Rightarrow> milcorix_fb \<Rightarrow> u64 \<Rightarrow> u8 list \<Rightarrow> u32 \<Rightarrow> 'w \<Rightarrow> (IOReturn \<times> 'w) option" where
  "gpuWriteLocked kn fb offset src len w =
     (if \<not> gpuRegionOk fb offset len then Some (kIOReturnBadArgument, w)
      else let io = kn_io kn; phys = gx_scratch_phys (fb_fGpu fb) + offset in
      do { (i, st) \<leftarrow> write_words io src phys len 0 (WIN_UNKNOWN, w);
           if i < len
           then let (v, st) = nv_pramin_rd32 io (phys + ucast i) st in
                do { v \<leftarrow> patch_tail src len i 0 v;
                     Some (kIOReturnSuccess, snd (nv_pramin_wr32 io (phys + ucast i) v st)) }
           else Some (kIOReturnSuccess, snd st) })"

definition gpuWrite ::
  "'w kernel \<Rightarrow> milcorix_fb \<Rightarrow> u64 \<Rightarrow> u8 list \<Rightarrow> u32 \<Rightarrow> 'w \<Rightarrow> (IOReturn \<times> 'w) option" where
  "gpuWrite kn fb offset src len w =
     (if \<not> fb_fGpuLock fb then Some (kIOReturnNotReady, w) else gpuWriteLocked kn fb offset src len w)"

section \<open>Reading\<close>

partial_function (option) read_words ::
  "'w mmio \<Rightarrow> u64 \<Rightarrow> u32 \<Rightarrow> u32 \<Rightarrow> u8 list \<Rightarrow> 'w pramin \<Rightarrow> (u32 \<times> u8 list \<times> 'w pramin) option" where
  "read_words io phys len i dst st =
     (if i + 4 \<le> len
      then let (v, st) = nv_pramin_rd32 io (phys + ucast i) st in
           do { dst \<leftarrow> st32 dst (unat i) v; read_words io phys len (i + 4) dst st }
      else Some (i, dst, st))"

partial_function (option) read_tail :: "u32 \<Rightarrow> u32 \<Rightarrow> u32 \<Rightarrow> u32 \<Rightarrow> u8 list \<Rightarrow> u8 list option" where
  "read_tail len i b v dst =
     (if i + b < len
      then do { dst \<leftarrow> wr8 dst (unat (i + b)) (ucast (drop_bit (unat (8 * b)) v)); read_tail len i (b + 1) v dst }
      else Some dst)"

declare read_words.simps [code] read_tail.simps [code]

definition gpuReadLocked ::
  "'w kernel \<Rightarrow> milcorix_fb \<Rightarrow> u64 \<Rightarrow> u8 list \<Rightarrow> u32 \<Rightarrow> 'w \<Rightarrow> (IOReturn \<times> u8 list \<times> 'w) option" where
  "gpuReadLocked kn fb offset dst len w =
     (if \<not> gpuRegionOk fb offset len then Some (kIOReturnBadArgument, dst, w)
      else let io = kn_io kn; phys = gx_scratch_phys (fb_fGpu fb) + offset in
      do { (i, dst, st) \<leftarrow> read_words io phys len 0 dst (WIN_UNKNOWN, w);
           if i < len
           then let (v, st) = nv_pramin_rd32 io (phys + ucast i) st in
                do { dst \<leftarrow> read_tail len i 0 v dst; Some (kIOReturnSuccess, dst, snd st) }
           else Some (kIOReturnSuccess, dst, snd st) })"

definition gpuRead ::
  "'w kernel \<Rightarrow> milcorix_fb \<Rightarrow> u64 \<Rightarrow> u8 list \<Rightarrow> u32 \<Rightarrow> 'w \<Rightarrow> (IOReturn \<times> u8 list \<times> 'w) option" where
  "gpuRead kn fb offset dst len w =
     (if \<not> fb_fGpuLock fb then Some (kIOReturnNotReady, dst, w) else gpuReadLocked kn fb offset dst len w)"

section \<open>Copying\<close>

text \<open>The result holds the duration, the object and the hardware.\<close>

definition gpuCopy ::
  "'w kernel \<Rightarrow> milcorix_fb \<Rightarrow> u64 \<Rightarrow> u64 \<Rightarrow> u32 \<Rightarrow> 'w \<Rightarrow> IOReturn \<times> u64 \<times> milcorix_fb \<times> 'w" where
  "gpuCopy kn fb srcOffset dstOffset bytes w =
     (if \<not> fb_fGpuLock fb then (kIOReturnNotReady, 0, fb, w)
      else if \<not> gpuRegionOk fb srcOffset bytes \<or> \<not> gpuRegionOk fb dstOffset bytes
      then (kIOReturnBadArgument, 0, fb, w)
      else if srcOffset < dstOffset + ucast bytes \<and> dstOffset < srcOffset + ucast bytes
      then (kIOReturnBadArgument, 0, fb, w)
      else let t0 = kn_uptime kn w;
               (rc, gpu, st) = nv_gsp_gpu_copy (kn_io kn) (fb_fGpu fb) (gx_scratch_va (fb_fGpu fb) + srcOffset)
                                 (gx_scratch_va (fb_fGpu fb) + dstOffset) bytes 200 (WIN_UNKNOWN, w);
               t1 = kn_uptime kn (snd st)
           in (if rc = 0 then kIOReturnSuccess else kIOReturnIOError, kn_nanos kn (t1 - t0),
               fb\<lparr>fb_fGpu := gpu\<rparr>, snd st))"

section \<open>The count of clients\<close>

definition gpuClientOpen :: "milcorix_fb \<Rightarrow> bool \<times> milcorix_fb" where
  "gpuClientOpen fb =
     (if \<not> fb_fGpuLock fb then (False, fb)
      else let ok = (fb_fGpuClients fb = 0 \<and> gx_ok (fb_fGpu fb))
           in (ok, if ok then fb\<lparr>fb_fGpuClients := 1\<rparr> else fb))"

definition gpuClientClose :: "milcorix_fb \<Rightarrow> milcorix_fb" where
  "gpuClientClose fb =
     (if \<not> fb_fGpuLock fb then fb
      else if fb_fGpuClients fb \<noteq> 0 then fb\<lparr>fb_fGpuClients := fb_fGpuClients fb - 1\<rparr> else fb)"

section \<open>VRAM as bytes\<close>

definition byte_at :: "(nat \<Rightarrow> u32) \<Rightarrow> nat \<Rightarrow> u8" where
  "byte_at m a = bytes32 (m (4 * (a div 4))) ! (a mod 4)"

definition vram_bytes :: "(nat \<Rightarrow> u32) \<Rightarrow> nat \<Rightarrow> nat \<Rightarrow> u8 list" where
  "vram_bytes m a n = map (byte_at m) [a ..< a + n]"

text \<open>Memory \<open>m\<close> with the bytes \<open>bs\<close> stored from \<open>a\<close> on.\<close>

definition put_bytes :: "nat \<Rightarrow> u8 list \<Rightarrow> (nat \<Rightarrow> u32) \<Rightarrow> nat \<Rightarrow> u32" where
  "put_bytes a bs m b =
     (let x = (\<lambda>k. if a \<le> b + k \<and> b + k < a + length bs then bs ! (b + k - a) else byte_at m (b + k))
      in if 4 dvd b then le32 (x 0) (x 1) (x 2) (x 3) else m b)"

lemma nth_bytes32_le32: "k < 4 \<Longrightarrow> bytes32 (le32 (x 0) (x 1) (x 2) (x 3)) ! k = x k"
  unfolding bytes32_le32 by (auto simp: less_Suc_eq numeral_eq_Suc)

lemma byte_at_put:
  "byte_at (put_bytes a bs m) b = (if a \<le> b \<and> b < a + length bs then bs ! (b - a) else byte_at m b)"
proof -
  let ?x = "\<lambda>k. if a \<le> 4 * (b div 4) + k \<and> 4 * (b div 4) + k < a + length bs
    then bs ! (4 * (b div 4) + k - a) else byte_at m (4 * (b div 4) + k)"
  have "byte_at (put_bytes a bs m) b = bytes32 (le32 (?x 0) (?x 1) (?x 2) (?x 3)) ! (b mod 4)"
    unfolding byte_at_def [of "put_bytes a bs m"] put_bytes_def Let_def by simp
  also have "\<dots> = ?x (b mod 4)" by (rule nth_bytes32_le32) simp
  finally show ?thesis by simp
qed

lemma byte_at_upd:
  "4 dvd a \<Longrightarrow> byte_at (m(a := v)) b = (if a \<le> b \<and> b < a + 4 then bytes32 v ! (b - a) else byte_at m b)"
proof -
  assume "4 dvd a"
  then obtain q where q: "a = 4 * q" ..
  have "b div 4 = q \<longleftrightarrow> 4 * q \<le> b \<and> b < 4 * q + 4" by linarith
  moreover have "b mod 4 = b - 4 * q" if "b div 4 = q" using that by (simp add: modulo_nat_def)
  ultimately show ?thesis unfolding q byte_at_def by auto
qed

text \<open>A memory is its bytes, and what lies at addresses no access of the driver uses.\<close>

lemma mem_eqI:
  assumes "\<And>b. byte_at m b = byte_at m' b" "\<And>b. \<not> 4 dvd b \<Longrightarrow> m b = m' b"
  shows "m = m'"
proof
  fix b
  show "m b = m' b"
  proof (cases "4 dvd b")
    case True
    then obtain q where q: "b = 4 * q" ..
    have "(4 * q + k) mod 4 = k" "(4 * q + k) div 4 = q" if "k < 4" for k using that by simp_all
    then have "bytes32 (m b) ! k = bytes32 (m' b) ! k" if "k < 4" for k
      using assms(1) [of "b + k"] that unfolding byte_at_def q by simp
    then have "bytes32 (m b) = bytes32 (m' b)" by (intro nth_equalityI) simp_all
    then show ?thesis by simp
  qed (rule assms(2))
qed

lemma put_bytes_odd: "\<not> 4 dvd b \<Longrightarrow> put_bytes a bs m b = m b"
  by (simp add: put_bytes_def)

lemma put_bytes_Nil [simp]: "put_bytes a [] m = m"
  by (rule mem_eqI) (auto simp: byte_at_put put_bytes_odd)

lemma put_bytes_word:
  assumes "4 dvd a" "4 dvd i" "i + 4 \<le> length bs"
  shows "(put_bytes a (take i bs) m)(a + i := le32 (bs ! i) (bs ! (i + 1)) (bs ! (i + 2)) (bs ! (i + 3)))
     = put_bytes a (take (i + 4) bs) m"
proof (rule mem_eqI)
  have d: "4 dvd a + i" using assms by simp
  have x: "bytes32 (le32 (bs ! i) (bs ! (i + 1)) (bs ! (i + 2)) (bs ! (i + 3))) ! k = bs ! (i + k)" if "k < 4" for k
    using nth_bytes32_le32 [of k "\<lambda>k. bs ! (i + k)"] that by simp
  show "byte_at ((put_bytes a (take i bs) m)(a + i := le32 (bs ! i) (bs ! (i + 1)) (bs ! (i + 2)) (bs ! (i + 3)))) b
     = byte_at (put_bytes a (take (i + 4) bs) m) b" for b
    using x [of "b - (a + i)"] assms(3) unfolding byte_at_upd [OF d] byte_at_put by auto
  show "\<not> 4 dvd b \<Longrightarrow> ((put_bytes a (take i bs) m)(a + i := le32 (bs ! i) (bs ! (i + 1)) (bs ! (i + 2)) (bs ! (i + 3)))) b
     = put_bytes a (take (i + 4) bs) m b" for b
    using d by (auto simp: put_bytes_odd)
qed

lemma length_vram_bytes [simp]: "length (vram_bytes m a n) = n"
  by (simp add: vram_bytes_def)

lemma vram_bytes_put: "vram_bytes (put_bytes a bs m) a (length bs) = bs"
  by (rule nth_equalityI) (simp_all add: vram_bytes_def byte_at_put)

section \<open>The loops\<close>

lemma ld32_nth: "ld32 b i = Some v \<Longrightarrow> i + 4 \<le> length b \<and> v = le32 (b ! i) (b ! (i + 1)) (b ! (i + 2)) (b ! (i + 3))"
  by (metis ld32_Some ld32_iff option.inject)

lemma word_step:
  fixes phys :: u64 and i len :: u32
  assumes "unat i = 4 * k" "4 * k + 4 \<le> unat len" "4 dvd unat phys" "unat phys + unat len \<le> 2 ^ 40"
  shows "i + 4 \<le> len" "unat (i + 4) = 4 * Suc k" "unat (phys + ucast i) = unat phys + 4 * k"
    "unat (phys + ucast i) < 2 ^ 40" "4 dvd unat (phys + ucast i)"
proof -
  have w: "unat (ucast i :: u64) = 4 * k" using assms(1) by (simp add: unat_widen)
  show i4: "unat (i + 4) = 4 * Suc k" using assms(1,2) u32_less [of len] by (subst unat_add_small) simp_all
  show a: "unat (phys + ucast i) = unat phys + 4 * k" using assms(2,4) w by (subst unat_add_small) simp_all
  show "i + 4 \<le> len" using i4 assms(2) by (simp add: word_le_nat_alt)
  show "unat (phys + ucast i) < 2 ^ 40" "4 dvd unat (phys + ucast i)" using a assms(2-4) by simp_all
qed

lemma word_stop: "unat (i :: u32) = 4 * (unat len div 4) \<Longrightarrow> unat len + 4 < 2 ^ 32 \<Longrightarrow> \<not> i + 4 \<le> len"
proof -
  assume i: "unat i = 4 * (unat len div 4)" and fit: "unat len + 4 < 2 ^ 32"
  have "4 * (unat len div 4) \<le> unat len" by simp
  then have "unat (i + 4) = unat i + 4" using i fit by (subst unat_add_small) simp_all
  then show ?thesis using i by (simp add: word_le_nat_alt)
qed

lemma write_words_ok:
  assumes phys: "4 dvd unat phys" "unat phys + unat len \<le> 2 ^ 40" and len: "unat len + 4 < 2 ^ 32" "length src = unat len"
  shows "unat i = 4 * k \<Longrightarrow> k \<le> unat len div 4 \<Longrightarrow>
    vram_is io win mem st (put_bytes (unat phys) (take (4 * k) src) m) \<Longrightarrow>
    \<exists>i' st'. write_words io src phys len i st = Some (i', st') \<and> unat i' = 4 * (unat len div 4)
       \<and> vram_is io win mem st' (put_bytes (unat phys) (take (4 * (unat len div 4)) src) m)"
proof (induction "unat len div 4 - k" arbitrary: k i st)
  case 0
  then have "unat i = 4 * (unat len div 4)" by simp
  with 0 word_stop [OF this len(1)] show ?case by (subst write_words.simps) simp
next
  case (Suc n)
  have lt: "4 * k + 4 \<le> unat len" using Suc.hyps(2) by linarith
  note s = word_step [OF Suc.prems(1) lt phys]
  have v: "ld32 src (unat i) = Some (le32 (src ! (4 * k)) (src ! (4 * k + 1)) (src ! (4 * k + 2)) (src ! (4 * k + 3)))"
    using lt len(2) Suc.prems(1) by simp
  note e = put_bytes_word [OF phys(1), of "4 * k" src m]
  have "vram_is io win mem (nv_pramin_wr32 io (phys + ucast i) (le32 (src ! (4 * k)) (src ! (4 * k + 1))
      (src ! (4 * k + 2)) (src ! (4 * k + 3))) st) (put_bytes (unat phys) (take (4 * Suc k) src) m)"
    using vram_wr32 [OF Suc.prems(3) s(4,5)] lt len(2) unfolding s(3)
    by (subst mult_Suc_right, subst add.commute, subst e [symmetric]) simp_all
  from Suc.hyps(1) [OF _ s(2) _ this] Suc.hyps(2)
  show ?case by (subst write_words.simps) (simp add: s(1) v)
qed

lemma bytes32_nth: "k < 4 \<Longrightarrow> bytes32 v ! k = ucast (drop_bit (8 * k) v)"
  by (auto simp: bytes32_def less_Suc_eq numeral_eq_Suc)

lemma patch_byte:
  assumes "j < 4" "k < 4"
  shows "bytes32 ((v AND NOT (push_bit (8 * j) 0xff)) OR push_bit (8 * j) (ucast x)) ! k =
    (if k = j then x else bytes32 v ! k)"
proof -
  have ff: "(0xff :: u32) = mask 8" by (simp add: mask_eq_exp_minus_1)
  have "bit (ucast (drop_bit (8 * k) ((v AND NOT (push_bit (8 * j) 0xff)) OR push_bit (8 * j) (ucast x))) :: u8) n
     = bit (if k = j then x else ucast (drop_bit (8 * k) v)) n" if n: "n < 8" for n
  proof (cases "k = j")
    case False
    then have "\<not> (8 * j \<le> 8 * k + n \<and> 8 * k + n - 8 * j < 8)" using n by linarith
    then show ?thesis using False assms n unfolding ff
      by (auto simp: bit_simps dest: bit_imp_le_length)
  qed (use assms n in \<open>auto simp: ff bit_simps\<close>)
  then show ?thesis using assms by (auto simp: bytes32_nth intro!: bit_word_eqI)
qed

lemma patch_tail_ok:
  assumes len: "unat i + r = unat len" "r < 4" "length src = unat len" "unat len + 4 < 2 ^ 32"
  shows "j \<le> r \<Longrightarrow> \<exists>v'. patch_tail src len i (of_nat j) v = Some v'
     \<and> (\<forall>k < 4. bytes32 v' ! k = (if j \<le> k \<and> k < r then src ! (unat i + k) else bytes32 v ! k))"
proof (induction "r - j" arbitrary: j v)
  case 0
  then show ?case using len by (subst patch_tail.simps) (auto simp: word_less_nat_alt unat_add_small unat_of_nat_small)
next
  case (Suc n)
  have j: "j < r" and n: "n = r - Suc j" and le: "Suc j \<le> r" using Suc.hyps(2) by simp_all
  have u: "unat (of_nat j :: u32) = j" using j len(2) by (simp add: unat_of_nat_small)
  have ij: "unat (i + of_nat j) = unat i + j" using j len u by (subst unat_add_small) simp_all
  have b8: "unat (8 * of_nat j :: u32) = 8 * j" using j len(2) u by (subst unat_mult_small) simp_all
  let ?v = "(v AND NOT (push_bit (8 * j) 0xff)) OR push_bit (8 * j) (ucast (src ! (unat i + j)))"
  obtain v' where v': "patch_tail src len i (of_nat (Suc j)) ?v = Some v'"
    "\<forall>k < 4. bytes32 v' ! k = (if Suc j \<le> k \<and> k < r then src ! (unat i + k) else bytes32 ?v ! k)"
    using Suc.hyps(1) [OF n le, of ?v] by blast
  have "patch_tail src len i (of_nat j) v = patch_tail src len i (of_nat (Suc j)) ?v"
    using j len ij by (subst patch_tail.simps) (simp add: word_less_nat_alt b8 add.commute)
  moreover have "bytes32 v' ! k = (if j \<le> k \<and> k < r then src ! (unat i + k) else bytes32 v ! k)" if "k < 4" for k
    using v'(2) that j len(2) patch_byte [of j k v "src ! (unat i + j)"] by (auto simp: not_less_eq_eq)
  ultimately show ?case using v'(1) by auto
qed

lemma put_bytes_tail:
  assumes "4 dvd a" "length bs = 4 * n + r" "r < 4"
    and "\<And>k. k < 4 \<Longrightarrow> bytes32 v ! k =
      (if k < r then bs ! (4 * n + k) else bytes32 (put_bytes a (take (4 * n) bs) m (a + 4 * n)) ! k)"
  shows "(put_bytes a (take (4 * n) bs) m)(a + 4 * n := v) = put_bytes a bs m" (is "?l = ?r")
proof (rule mem_eqI)
  let ?p = "put_bytes a (take (4 * n) bs) m"
  have d: "4 dvd a + 4 * n" using assms(1) by simp
  have old: "bytes32 (?p (a + 4 * n)) ! k = byte_at m (a + 4 * n + k)" if "k < 4" for k
  proof -
    obtain q where q: "a + 4 * n = 4 * q" using d ..
    have "(4 * q + k) div 4 = q" "(4 * q + k) mod 4 = k" using that by simp_all
    then have "byte_at ?p (a + 4 * n + k) = bytes32 (?p (a + 4 * n)) ! k" unfolding byte_at_def q by simp
    then show ?thesis using assms(2) by (simp add: byte_at_put)
  qed
  show "byte_at ?l b = byte_at ?r b" for b
    using assms(2,3) assms(4) [of "b - (a + 4 * n)"] old [of "b - (a + 4 * n)"]
    unfolding byte_at_upd [OF d] byte_at_put by (auto split: if_splits)
  show "\<not> 4 dvd b \<Longrightarrow> ?l b = ?r b" for b using d by (auto simp: put_bytes_odd)
qed

lemma read_words_ok:
  assumes phys: "4 dvd unat phys" "unat phys + unat len \<le> 2 ^ 40" and len: "unat len + 4 < 2 ^ 32"
  shows "unat i = 4 * k \<Longrightarrow> k \<le> unat len div 4 \<Longrightarrow> vram_is io win mem st m \<Longrightarrow>
    length dst = unat len \<Longrightarrow> take (4 * k) dst = vram_bytes m (unat phys) (4 * k) \<Longrightarrow>
    \<exists>i' dst' st'. read_words io phys len i dst st = Some (i', dst', st') \<and> unat i' = 4 * (unat len div 4)
       \<and> length dst' = unat len \<and> vram_is io win mem st' m
       \<and> take (4 * (unat len div 4)) dst' = vram_bytes m (unat phys) (4 * (unat len div 4))"
proof (induction "unat len div 4 - k" arbitrary: k i dst st)
  case 0
  then have "unat i = 4 * (unat len div 4)" by simp
  with 0 word_stop [OF this len(1)] show ?case by (subst read_words.simps) simp
next
  case (Suc n)
  have lt: "4 * k + 4 \<le> unat len" using Suc.hyps(2) by linarith
  note s = word_step [OF Suc.prems(1) lt phys]
  obtain v st1 where r: "nv_pramin_rd32 io (phys + ucast i) st = (v, st1)" by (metis prod.collapse)
  have v: "v = m (unat phys + 4 * k)" and st1: "vram_is io win mem st1 m"
    using vram_rd32 [OF Suc.prems(3) s(4,5)] unfolding r s(3) by simp_all
  have i4: "unat i + 4 \<le> length dst" using lt Suc.prems(1,4) by simp
  let ?d = "splice dst (unat i) (bytes32 v)"
  have "take (4 * Suc k) ?d = take (4 * k) dst @ bytes32 v"
    using i4 Suc.prems(1) by (simp add: splice_def)
  moreover have "bytes32 v = map (byte_at m) [unat phys + 4 * k ..< unat phys + 4 * k + 4]"
  proof (rule nth_equalityI)
    obtain q where q: "unat phys + 4 * k = 4 * q" using phys(1) by (metis dvd_add dvd_def dvd_triv_left)
    fix j assume "j < length (bytes32 v)"
    then have "(4 * q + j) div 4 = q" "(4 * q + j) mod 4 = j" by simp_all
    then show "bytes32 v ! j = map (byte_at m) [unat phys + 4 * k ..< unat phys + 4 * k + 4] ! j"
      using \<open>j < length (bytes32 v)\<close> unfolding v q by (simp add: byte_at_def)
  qed simp
  ultimately have "take (4 * Suc k) ?d = vram_bytes m (unat phys) (4 * Suc k)"
    using Suc.prems(5) upt_add_eq_append [of "unat phys" "unat phys + 4 * k" 4] by (simp add: vram_bytes_def add.commute add.left_commute)
  from Suc.hyps(1) [OF _ s(2) _ st1 _ this] Suc.hyps(2) i4 Suc.prems(4)
  show ?case by (subst read_words.simps) (simp add: s(1) r)
qed

lemma read_tail_ok:
  assumes len: "unat i + r = unat len" "r < 4" "unat len + 4 < 2 ^ 32"
  shows "j \<le> r \<Longrightarrow> length dst = unat len \<Longrightarrow> \<exists>dst'. read_tail len i (of_nat j) v dst = Some dst' \<and> length dst' = unat len
     \<and> (\<forall>k < unat len. dst' ! k = (if unat i + j \<le> k then bytes32 v ! (k - unat i) else dst ! k))"
proof (induction "r - j" arbitrary: j dst)
  case 0
  then show ?case using len by (subst read_tail.simps) (auto simp: word_less_nat_alt unat_add_small unat_of_nat_small)
next
  case (Suc n)
  have j: "j < r" and n: "n = r - Suc j" and le: "Suc j \<le> r" using Suc.hyps(2) by simp_all
  have u: "unat (of_nat j :: u32) = j" using j len(2) by (simp add: unat_of_nat_small)
  have ij: "unat (i + of_nat j) = unat i + j" using j len u by (subst unat_add_small) simp_all
  have b8: "unat (8 * of_nat j :: u32) = 8 * j" using j len(2) u by (subst unat_mult_small) simp_all
  let ?d = "dst[unat i + j := bytes32 v ! j]"
  have ld: "length ?d = unat len" using Suc.prems(2) by simp
  obtain dst' where d: "read_tail len i (of_nat (Suc j)) v ?d = Some dst'" "length dst' = unat len"
    "\<forall>k < unat len. dst' ! k = (if unat i + Suc j \<le> k then bytes32 v ! (k - unat i) else ?d ! k)"
    using Suc.hyps(1) [OF n le ld] by blast
  have "read_tail len i (of_nat j) v dst = read_tail len i (of_nat (Suc j)) v ?d"
    using j len ij Suc.prems(2)
    by (subst read_tail.simps) (simp add: word_less_nat_alt b8 add.commute wr8_def bytes32_nth)
  moreover have "dst' ! k = (if unat i + j \<le> k then bytes32 v ! (k - unat i) else dst ! k)" if "k < unat len" for k
    using d(3) that Suc.prems(2) j len(1) by (cases "k = unat i + j") auto
  ultimately show ?case using d(1,2) by auto
qed

section \<open>What the operations do\<close>

text \<open>Where the scratch area lies: at a word boundary, inside the address range of the window.\<close>

definition scratch_placed :: "nv_gsp_gpu_ctx \<Rightarrow> bool" where
  "scratch_placed gpu \<longleftrightarrow> 4 dvd unat (gx_scratch_phys gpu)
     \<and> unat (gx_scratch_phys gpu) + unat (gx_scratch_size gpu) \<le> 2 ^ 40"

lemma gpuRegionOk_iff:
  "gpuRegionOk fb offset len \<longleftrightarrow> gx_ok (fb_fGpu fb) \<and> 0 < unat len
     \<and> unat offset + unat len \<le> unat (gx_scratch_size (fb_fGpu fb))"
  using word_bounds_guard [where off = offset and s = "gx_scratch_size (fb_fGpu fb)" and n = "ucast len"]
  by (auto simp: gpuRegionOk_def unat_widen unat_gt_0)

lemma vram_is_unknown:
  "vram_is io win mem (WIN_UNKNOWN, w) m \<longleftrightarrow> pramin_dev io win mem \<and> mem w = m"
proof -
  have "(0xFFFFFFFFFFFFFFFF :: u64) AND mask 20 \<noteq> 0" by (simp add: mask_eq_exp_minus_1)
  then show ?thesis by (simp add: vram_is_def coherent_def del: take_bit_eq_mask)
qed

lemma scratch_addr:
  assumes "scratch_placed gpu" "unat offset + unat len \<le> unat (gx_scratch_size gpu)" "4 dvd unat offset"
  shows "unat (gx_scratch_phys gpu + offset) = unat (gx_scratch_phys gpu) + unat offset"
    "4 dvd unat (gx_scratch_phys gpu + offset)" "unat (gx_scratch_phys gpu + offset) + unat len \<le> 2 ^ 40"
proof -
  show u: "unat (gx_scratch_phys gpu + offset) = unat (gx_scratch_phys gpu) + unat offset"
    using assms(1,2) by (subst unat_add_small) (simp_all add: scratch_placed_def)
  show "4 dvd unat (gx_scratch_phys gpu + offset)" "unat (gx_scratch_phys gpu + offset) + unat len \<le> 2 ^ 40"
    using assms unfolding u by (simp_all add: scratch_placed_def)
qed

lemma gpuWriteLocked_ok:
  assumes dev: "pramin_dev (kn_io kn) win mem" and pl: "scratch_placed (fb_fGpu fb)" and ok: "gpuRegionOk fb offset len"
    and off: "4 dvd unat offset" and len: "unat len + 4 < 2 ^ 32" "length src = unat len"
  shows "\<exists>w'. gpuWriteLocked kn fb offset src len w = Some (kIOReturnSuccess, w')
     \<and> mem w' = put_bytes (unat (gx_scratch_phys (fb_fGpu fb)) + unat offset) src (mem w)"
proof -
  let ?io = "kn_io kn" and ?p = "gx_scratch_phys (fb_fGpu fb) + offset" and ?n = "4 * (unat len div 4)"
  note a = scratch_addr [OF pl _ off, of len]
  have fit: "unat offset + unat len \<le> unat (gx_scratch_size (fb_fGpu fb))" using ok by (simp add: gpuRegionOk_iff)
  note a = a [OF fit]
  have st: "vram_is ?io win mem (WIN_UNKNOWN, w) (put_bytes (unat ?p) (take (4 * 0) src) (mem w))"
    using dev by (simp add: vram_is_unknown)
  obtain i st1 where w1: "write_words ?io src ?p len 0 (WIN_UNKNOWN, w) = Some (i, st1)" "unat i = ?n"
    "vram_is ?io win mem st1 (put_bytes (unat ?p) (take ?n src) (mem w))"
    using write_words_ok [OF a(2,3) len _ _ st, of 0] by auto
  show ?thesis
  proof (cases "i < len")
    case False
    then have "?n = unat len" using w1(2) by (simp add: word_less_nat_alt)
    then have "take ?n src = src" using len(2) by simp
    then show ?thesis using ok w1(1,3) False unfolding a(1) by (auto simp: gpuWriteLocked_def vram_is_def)
  next
    case True
    define r where "r = unat len mod 4"
    have r: "unat i + r = unat len" "r < 4" "length src = ?n + r" "?n < unat len"
      using w1(2) True len(2) by (simp_all add: r_def word_less_nat_alt)
    have i: "unat (?p + ucast i) = unat ?p + ?n"
      using a(3) r(4) w1(2) by (subst unat_add_small) (simp_all add: unat_widen)
    then have ia: "unat (?p + ucast i) < 2 ^ 40" "4 dvd unat (?p + ucast i)" using a(2,3) r(4) by simp_all
    obtain v st2 where rd: "nv_pramin_rd32 ?io (?p + ucast i) st1 = (v, st2)" by (metis prod.collapse)
    have v: "v = put_bytes (unat ?p) (take ?n src) (mem w) (unat ?p + ?n)"
      and st2: "vram_is ?io win mem st2 (put_bytes (unat ?p) (take ?n src) (mem w))"
      using vram_rd32 [OF w1(3) ia] unfolding rd i by simp_all
    obtain v' where v': "patch_tail src len i 0 v = Some v'"
      "\<forall>k < 4. bytes32 v' ! k = (if 0 \<le> k \<and> k < r then src ! (unat i + k) else bytes32 v ! k)"
      using patch_tail_ok [OF r(1,2) len(2,1), of 0 v] by auto
    have e: "(put_bytes (unat ?p) (take ?n src) (mem w))(unat ?p + ?n := v') = put_bytes (unat ?p) src (mem w)"
      by (rule put_bytes_tail [OF a(2) r(3,2)]) (use v'(2) in \<open>simp add: w1(2) v\<close>)
    have "vram_is ?io win mem (nv_pramin_wr32 ?io (?p + ucast i) v' st2) (put_bytes (unat ?p) src (mem w))"
      using vram_wr32 [OF st2 ia, of v'] unfolding i e .
    then show ?thesis
      using ok w1(1) True rd v'(1) unfolding a(1) by (auto simp: gpuWriteLocked_def vram_is_def)
  qed
qed

lemma gpuReadLocked_ok:
  assumes dev: "pramin_dev (kn_io kn) win mem" and pl: "scratch_placed (fb_fGpu fb)" and ok: "gpuRegionOk fb offset len"
    and off: "4 dvd unat offset" and len: "unat len + 4 < 2 ^ 32" "length dst = unat len"
  shows "\<exists>w'. gpuReadLocked kn fb offset dst len w =
       Some (kIOReturnSuccess, vram_bytes (mem w) (unat (gx_scratch_phys (fb_fGpu fb)) + unat offset) (unat len), w')
     \<and> mem w' = mem w"
proof -
  let ?io = "kn_io kn" and ?p = "gx_scratch_phys (fb_fGpu fb) + offset" and ?n = "4 * (unat len div 4)" and ?m = "mem w"
  have fit: "unat offset + unat len \<le> unat (gx_scratch_size (fb_fGpu fb))" using ok by (simp add: gpuRegionOk_iff)
  note a = scratch_addr [OF pl fit off]
  have st: "vram_is ?io win mem (WIN_UNKNOWN, w) ?m" using dev by (simp add: vram_is_unknown)
  obtain i d1 st1 where w1: "read_words ?io ?p len 0 dst (WIN_UNKNOWN, w) = Some (i, d1, st1)" "unat i = ?n"
    "length d1 = unat len" "vram_is ?io win mem st1 ?m" "take ?n d1 = vram_bytes ?m (unat ?p) ?n"
    using read_words_ok [OF a(2,3) len(1) _ _ st len(2), of 0 0] by (auto simp: vram_bytes_def)
  show ?thesis
  proof (cases "i < len")
    case False
    then have "?n = unat len" using w1(2) by (simp add: word_less_nat_alt)
    then have "d1 = vram_bytes ?m (unat ?p) (unat len)" using w1(3,5) by simp
    then show ?thesis using ok w1(1,4) False unfolding a(1) by (auto simp: gpuReadLocked_def vram_is_def)
  next
    case True
    define r where "r = unat len mod 4"
    have r: "unat i + r = unat len" "r < 4" "?n < unat len"
      using w1(2) True by (simp_all add: r_def word_less_nat_alt)
    have i: "unat (?p + ucast i) = unat ?p + ?n"
      using a(3) r(3) w1(2) by (subst unat_add_small) (simp_all add: unat_widen)
    then have ia: "unat (?p + ucast i) < 2 ^ 40" "4 dvd unat (?p + ucast i)" using a(2,3) r(3) by simp_all
    obtain v st2 where rd: "nv_pramin_rd32 ?io (?p + ucast i) st1 = (v, st2)" by (metis prod.collapse)
    have v: "v = ?m (unat ?p + ?n)" and st2: "vram_is ?io win mem st2 ?m"
      using vram_rd32 [OF w1(4) ia] unfolding rd i by simp_all
    obtain d2 where d2: "read_tail len i 0 v d1 = Some d2" "length d2 = unat len"
      "\<forall>k < unat len. d2 ! k = (if unat i + 0 \<le> k then bytes32 v ! (k - unat i) else d1 ! k)"
      using read_tail_ok [OF r(1,2) len(1) le0 w1(3), of v] by auto
    have "d2 = vram_bytes ?m (unat ?p) (unat len)"
    proof (rule nth_equalityI)
      fix k assume "k < length d2"
      then have k: "k < unat len" using d2(2) by simp
      show "d2 ! k = vram_bytes ?m (unat ?p) (unat len) ! k"
      proof (cases "?n \<le> k")
        case True
        obtain q where q: "unat ?p + ?n = 4 * q" using a(2) by (metis dvd_add dvd_def dvd_triv_left)
        have "k - ?n < 4" using k by linarith
        then have "(4 * q + (k - ?n)) div 4 = q" "(4 * q + (k - ?n)) mod 4 = k - ?n" by simp_all
        moreover have "unat ?p + k = 4 * q + (k - ?n)" using q True by simp
        ultimately have "byte_at ?m (unat ?p + k) = bytes32 v ! (k - ?n)" unfolding byte_at_def v q by simp
        then show ?thesis using d2(3) k True w1(2) by (simp add: vram_bytes_def)
      next
        case False
        then have "d1 ! k = take ?n d1 ! k" by simp
        then show ?thesis using d2(3) k False w1(2) unfolding w1(5) by (simp add: vram_bytes_def)
      qed
    qed (simp add: d2(2))
    then show ?thesis using ok w1(1) True rd d2(1) st2 unfolding a(1) by (auto simp: gpuReadLocked_def vram_is_def)
  qed
qed

end
