(* ===== verification/MilcorixCopy.thy ===== *)
theory MilcorixCopy
  imports MilcorixGpu
begin

text \<open>
  Copies of \<open>MilcorixFB::gpuCopy\<close> on a GPU whose copy engine works.  What the engine does is a hypothesis on
  the hardware, \<open>copy_engine\<close>: once the semaphore shows the payload, the scratch area holds the copy.
\<close>

section \<open>The engine\<close>

text \<open>The address of the transfer in VRAM.\<close>

abbreviation vram_addr :: "milcorix_fb \<Rightarrow> u64 \<Rightarrow> nat" where
  "vram_addr fb offset \<equiv> unat (gx_scratch_phys (fb_fGpu fb)) + unat offset"

text \<open>The part of a context that submissions do not change.\<close>

definition static_ctx :: "nv_gsp_gpu_ctx \<Rightarrow> nv_gsp_gpu_ctx" where
  "static_ctx gpu = gpu\<lparr>gx_ok := True, gx_gp_put := 0, gx_seq := 0, gx_object_bound := False\<rparr>"

lemma static_ctx_fields:
  assumes "static_ctx g = static_ctx h"
  shows "gx_sem_phys g = gx_sem_phys h" "gx_pb_phys g = gx_pb_phys h" "gx_ring_phys g = gx_ring_phys h"
    "gx_userd_phys g = gx_userd_phys h" "gx_ring_entries g = gx_ring_entries h" "gx_scratch_va g = gx_scratch_va h"
    "gx_scratch_phys g = gx_scratch_phys h" "gx_scratch_size g = gx_scratch_size h" "gx_pb_va g = gx_pb_va h"
    "gx_sem_va g = gx_sem_va h" "gx_external_vmm g = gx_external_vmm h" "gx_pool_selftest_ok g = gx_pool_selftest_ok h"
    "gx_runlist g = gx_runlist h" "gx_chid g = gx_chid h" "gx_class_engine_id g = gx_class_engine_id h"
  using assms by (cases g; cases h; simp add: static_ctx_def)+

lemma static_ctx_after [simp]: "static_ctx (ctx_after gpu p hit) = static_ctx gpu"
  by (simp add: static_ctx_def ctx_after_def)

text \<open>A range of GPU addresses inside the scratch area, and where it lies in VRAM.\<close>

definition in_scratch :: "nv_gsp_gpu_ctx \<Rightarrow> nat \<Rightarrow> nat \<Rightarrow> bool" where
  "in_scratch gpu va n \<longleftrightarrow> unat (gx_scratch_va gpu) \<le> va \<and> va + n \<le> unat (gx_scratch_va gpu) + unat (gx_scratch_size gpu)"

definition scratch_at :: "nv_gsp_gpu_ctx \<Rightarrow> nat \<Rightarrow> nat" where
  "scratch_at gpu va = unat (gx_scratch_phys gpu) + (va - unat (gx_scratch_va gpu))"

definition same_scratch :: "nv_gsp_gpu_ctx \<Rightarrow> (nat \<Rightarrow> u32) \<Rightarrow> (nat \<Rightarrow> u32) \<Rightarrow> bool" where
  "same_scratch gpu m m' \<longleftrightarrow> (\<forall>b. unat (gx_scratch_phys gpu) \<le> b
     \<and> b < unat (gx_scratch_phys gpu) + unat (gx_scratch_size gpu) \<longrightarrow> byte_at m b = byte_at m' b)"

text \<open>
  The engine: for every request that is in memory when the doorbell rings, a read of the semaphore that shows
  the payload means that the copy is done.  Nothing is said of memory outside the scratch area, and nothing of
  a semaphore that never shows the payload.
\<close>

definition copy_engine :: "'w mmio \<Rightarrow> ('w \<Rightarrow> u64) \<Rightarrow> ('w \<Rightarrow> nat \<Rightarrow> u32) \<Rightarrow> nv_gsp_gpu_ctx \<Rightarrow> bool" where
  "copy_engine io win mem gpu0 \<longleftrightarrow>
     (\<forall>gpu st m k src dst n payload i.
        static_ctx gpu = static_ctx gpu0 \<and> vram_is io win mem st m \<and> k < unat (gx_ring_entries gpu)
        \<and> copy_request gpu m k src dst n payload \<and> m (unat (gx_sem_phys gpu)) = 0 \<and> payload \<noteq> 0
        \<and> unat (m (unat (gx_userd_phys gpu) + 0x8c)) = (k + 1) mod unat (gx_ring_entries gpu)
        \<and> in_scratch gpu src (unat n) \<and> in_scratch gpu dst (unat n)
        \<and> (src + unat n \<le> dst \<or> dst + unat n \<le> src)
        \<and> fst (nv_pramin_rd32 io (gx_sem_phys gpu)
                (polled io (gx_sem_phys gpu) i (ring_doorbell io gpu st))) = payload
        \<longrightarrow> (\<exists>m'. vram_is io win mem (snd (nv_pramin_rd32 io (gx_sem_phys gpu)
                   (polled io (gx_sem_phys gpu) i (ring_doorbell io gpu st)))) m'
              \<and> same_scratch gpu m' (put_bytes (scratch_at gpu dst) (vram_bytes m (scratch_at gpu src) (unat n)) m)))"

lemma copy_engine_static: "static_ctx g = static_ctx h \<Longrightarrow> copy_engine io win mem g = copy_engine io win mem h"
  by (simp add: copy_engine_def)

section \<open>A context that is ready\<close>

definition cells_apart :: "nv_gsp_gpu_ctx \<Rightarrow> bool" where
  "cells_apart gpu \<longleftrightarrow> (\<forall>(a, n) \<in> set (ctx_cells gpu). a + n \<le> unat (gx_scratch_phys gpu)
     \<or> unat (gx_scratch_phys gpu) + unat (gx_scratch_size gpu) \<le> a)"

definition ctx_ready :: "nv_gsp_gpu_ctx \<Rightarrow> bool" where
  "ctx_ready gpu \<longleftrightarrow> scratch_placed gpu \<and> ctx_placed gpu \<and> cells_apart gpu
     \<and> unat (gx_scratch_va gpu) + unat (gx_scratch_size gpu) \<le> 2 ^ 49 \<and> unat (gx_sem_va gpu) < 2 ^ 49
     \<and> unat (gx_pb_va gpu) < 2 ^ 40 \<and> 4 dvd unat (gx_pb_va gpu)"

lemma ctx_ready_after:
  assumes "ctx_ready gpu" "unat p = (unat (gx_gp_put gpu) + 1) mod unat (gx_ring_entries gpu)"
  shows "ctx_ready (ctx_after gpu p hit)"
proof -
  have "unat (gx_gp_put gpu) < unat (gx_ring_entries gpu)"
    using assms(1) by (simp add: ctx_ready_def ctx_placed_def word_less_nat_alt)
  then have "p < gx_ring_entries gpu" using assms(2) by (simp add: word_less_nat_alt)
  then show ?thesis using assms(1)
    by (simp add: ctx_ready_def ctx_placed_def ctx_cells_def scratch_placed_def cells_apart_def ctx_after_def)
qed

lemma sem_wait_state:
  "sem_wait io a p n st = (True, st2) \<Longrightarrow> \<exists>i < n. fst (nv_pramin_rd32 io a (polled io a i st)) = p
     \<and> st2 = snd (nv_pramin_rd32 io a (polled io a i st))"
proof (induction n arbitrary: st)
  case (Suc n)
  obtain v wb w where r: "nv_pramin_rd32 io a st = (v, wb, w)" by (metis prod_cases3)
  show ?case
  proof (cases "v = p")
    case True
    then show ?thesis using Suc.prems r by (intro exI [of _ 0]) simp
  next
    case False
    then have "sem_wait io a p n (wb, io_udelay io 20 w) = (True, st2)" using Suc.prems r by simp
    from Suc.IH [OF this] obtain i where "i < n" "fst (nv_pramin_rd32 io a (polled io a i (wb, io_udelay io 20 w))) = p"
      "st2 = snd (nv_pramin_rd32 io a (polled io a i (wb, io_udelay io 20 w)))" by blast
    then show ?thesis using r by (intro exI [of _ "Suc i"]) simp
  qed
qed simp

text \<open>What happens outside the cells of the context does not depend on the submission.\<close>

lemma frame_bytes:
  assumes "{a. m1 a \<noteq> m a} \<subseteq> (\<Union>(a, n) \<in> set (ctx_cells gpu). {a ..< a + n})" "ctx_ready gpu"
  shows "same_scratch gpu m1 m"
proof -
  have "m1 (4 * (b div 4)) = m (4 * (b div 4))"
    if b: "unat (gx_scratch_phys gpu) \<le> b" "b < unat (gx_scratch_phys gpu) + unat (gx_scratch_size gpu)" for b
  proof (rule ccontr)
    assume "m1 (4 * (b div 4)) \<noteq> m (4 * (b div 4))"
    then obtain a n where an: "(a, n) \<in> set (ctx_cells gpu)" "a \<le> 4 * (b div 4)" "4 * (b div 4) < a + n"
      using assms(1) by auto
    have "4 dvd unat (gx_scratch_phys gpu)" using assms(2) by (simp add: ctx_ready_def scratch_placed_def)
    then have "unat (gx_scratch_phys gpu) \<le> 4 * (b div 4)" using b(1) by (auto elim!: dvdE)
    moreover have "4 * (b div 4) \<le> b" by simp
    ultimately show False using an b assms(2) unfolding ctx_ready_def cells_apart_def by fastforce
  qed
  then show ?thesis by (simp add: same_scratch_def byte_at_def)
qed

lemma ranges_of_words:
  assumes "a < d + n" "d < a + n" shows "\<not> (a + n \<le> d \<or> d + n \<le> (a :: nat))"
  using assms by simp

text \<open>
  A copy the object accepts: the ranges lie in the scratch area and do not meet.  Everything else is refused with
  nothing done.
\<close>

definition copy_ok :: "milcorix_fb \<Rightarrow> u64 \<Rightarrow> u64 \<Rightarrow> u32 \<Rightarrow> bool" where
  "copy_ok fb src dst n \<longleftrightarrow> gpuRegionOk fb src n \<and> gpuRegionOk fb dst n
     \<and> (unat src + unat n \<le> unat dst \<or> unat dst + unat n \<le> unat src)"

lemma overlap_test:
  assumes "gpuRegionOk fb src n" "gpuRegionOk fb dst n"
  shows "(src < dst + ucast n \<and> dst < src + ucast n) \<longleftrightarrow>
    \<not> (unat src + unat n \<le> unat dst \<or> unat dst + unat n \<le> unat src)"
proof -
  have "unat (x + ucast n) = unat x + unat n" if "gpuRegionOk fb x n" for x :: u64
    using that u64_less [of "gx_scratch_size (fb_fGpu fb)"] unfolding gpuRegionOk_iff
    by (subst unat_add_small) (simp_all add: unat_widen)
  then show ?thesis using assms by (auto simp: word_less_nat_alt)
qed

lemma gpuCopy_cases:
  "gpuCopy kn fb src dst n w =
     (if \<not> fb_fGpuLock fb then (kIOReturnNotReady, 0, fb, w)
      else if \<not> copy_ok fb src dst n then (kIOReturnBadArgument, 0, fb, w)
      else let (rc, gpu, st) = nv_gsp_gpu_copy (kn_io kn) (fb_fGpu fb) (gx_scratch_va (fb_fGpu fb) + src)
                                 (gx_scratch_va (fb_fGpu fb) + dst) n 200 (WIN_UNKNOWN, w)
           in (if rc = 0 then kIOReturnSuccess else kIOReturnIOError, kn_nanos kn (kn_uptime kn (snd st) - kn_uptime kn w),
               fb\<lparr>fb_fGpu := gpu\<rparr>, snd st))"
  using overlap_test [of fb src n dst] by (auto simp: gpuCopy_def copy_ok_def Let_def case_prod_beta)

lemma scratch_va_add:
  assumes "ctx_ready gpu" "unat off + unat n \<le> unat (gx_scratch_size gpu)"
  shows "unat (gx_scratch_va gpu + off) = unat (gx_scratch_va gpu) + unat off" "in_scratch gpu (unat (gx_scratch_va gpu + off)) (unat n)"
    "scratch_at gpu (unat (gx_scratch_va gpu + off)) = unat (gx_scratch_phys gpu) + unat off"
proof -
  show u: "unat (gx_scratch_va gpu + off) = unat (gx_scratch_va gpu) + unat off"
    using assms by (subst unat_add_small) (simp_all add: ctx_ready_def)
  show "in_scratch gpu (unat (gx_scratch_va gpu + off)) (unat n)"
    "scratch_at gpu (unat (gx_scratch_va gpu + off)) = unat (gx_scratch_phys gpu) + unat off"
    using assms(2) unfolding u by (simp_all add: in_scratch_def scratch_at_def)
qed

lemma same_scratch_put:
  assumes "same_scratch gpu m m'" "unat (gx_scratch_phys gpu) \<le> a" "a + n \<le> unat (gx_scratch_phys gpu) + unat (gx_scratch_size gpu)"
  shows "same_scratch gpu (put_bytes d (vram_bytes m a n) m) (put_bytes d (vram_bytes m' a n) m')"
proof -
  have "vram_bytes m a n = vram_bytes m' a n"
    using assms by (auto simp: vram_bytes_def same_scratch_def)
  then show ?thesis using assms(1) by (simp add: same_scratch_def byte_at_put)
qed

lemma gpuCopy_done:
  assumes ready: "ctx_ready (fb_fGpu fb)" and dev: "pramin_dev (kn_io kn) win mem" and lock: "fb_fGpuLock fb"
    and ok: "copy_ok fb src dst n"
  shows "\<exists>rc ns p w'. gpuCopy kn fb src dst n w = (rc, ns, fb\<lparr>fb_fGpu := ctx_after (fb_fGpu fb) p (rc = kIOReturnSuccess)\<rparr>, w')
     \<and> rc \<in> {kIOReturnSuccess, kIOReturnIOError} \<and> ctx_ready (ctx_after (fb_fGpu fb) p (rc = kIOReturnSuccess))
     \<and> (rc = kIOReturnSuccess \<and> copy_engine (kn_io kn) win mem (fb_fGpu fb) \<longrightarrow>
          same_scratch (fb_fGpu fb) (mem w') (put_bytes (vram_addr fb dst)
            (vram_bytes (mem w) (vram_addr fb src) (unat n)) (mem w)))"
proof -
  let ?g = "fb_fGpu fb" and ?io = "kn_io kn"
  let ?src = "gx_scratch_va ?g + src" and ?dst = "gx_scratch_va ?g + dst"
  have r: "gx_ok ?g" "n \<noteq> 0" "unat src + unat n \<le> unat (gx_scratch_size ?g)" "unat dst + unat n \<le> unat (gx_scratch_size ?g)"
    using ok by (auto simp: copy_ok_def gpuRegionOk_iff)
  note s = scratch_va_add [OF ready r(3)] and d = scratch_va_add [OF ready r(4)]
  have va: "unat ?src < 2 ^ 49" "unat ?dst < 2 ^ 49" "unat (gx_sem_va ?g) < 2 ^ 49" "unat (gx_pb_va ?g) < 2 ^ 40"
    "4 dvd unat (gx_pb_va ?g)"
    using ready r unat_gt_0 [of n] unfolding s(1) d(1) ctx_ready_def by auto
  have cp: "ctx_placed ?g" using ready by (simp add: ctx_ready_def)
  have st: "vram_is ?io win mem (WIN_UNKNOWN, w) (mem w)" using dev by (simp add: vram_is_unknown)
  let ?payload = "0xC0DE0000 OR ((gx_seq ?g + 1) AND 0xffff) :: u32"
  obtain st1 m1 p hit st2 where c: "vram_is ?io win mem st1 m1"
    "copy_request ?g m1 (unat (gx_gp_put ?g)) (unat ?src) (unat ?dst) n ?payload"
    "m1 (unat (gx_sem_phys ?g)) = 0" "m1 (unat (gx_userd_phys ?g) + 0x8c) = p"
    "unat p = (unat (gx_gp_put ?g) + 1) mod unat (gx_ring_entries ?g)"
    "{a. m1 a \<noteq> mem w a} \<subseteq> (\<Union>(a, n) \<in> set (ctx_cells ?g). {a ..< a + n})"
    "sem_wait ?io (gx_sem_phys ?g) ?payload (unat ((if (200 :: u32) \<noteq> 0 then 200 else 2000) * 50 :: u32))
       (ring_doorbell ?io ?g st1) = (hit, st2)"
    "nv_gsp_gpu_copy ?io ?g ?src ?dst n 200 (WIN_UNKNOWN, w) = (if hit then 0 else -1, ctx_after ?g p hit,
       if hit then st2 else snd (nv_pramin_rd32 ?io (gx_sem_phys ?g) st2))"
    using gpu_copy_core [OF st cp r(1,2) va refl refl] by blast
  let ?rc = "if hit then kIOReturnSuccess else kIOReturnIOError"
  let ?st = "if hit then st2 else snd (nv_pramin_rd32 ?io (gx_sem_phys ?g) st2)"
  have run: "gpuCopy kn fb src dst n w = (?rc, kn_nanos kn (kn_uptime kn (snd ?st) - kn_uptime kn w),
      fb\<lparr>fb_fGpu := ctx_after ?g p (?rc = kIOReturnSuccess)\<rparr>, snd ?st)"
    using lock ok unfolding gpuCopy_cases by (simp add: c(8) Let_def)
  have fin: "same_scratch ?g (mem (snd ?st)) (put_bytes (vram_addr fb dst) (vram_bytes (mem w) (vram_addr fb src) (unat n)) (mem w))"
    if hit: hit and ce: "copy_engine ?io win mem ?g"
  proof -
    obtain i where i: "fst (nv_pramin_rd32 ?io (gx_sem_phys ?g) (polled ?io (gx_sem_phys ?g) i (ring_doorbell ?io ?g st1))) = ?payload"
      "st2 = snd (nv_pramin_rd32 ?io (gx_sem_phys ?g) (polled ?io (gx_sem_phys ?g) i (ring_doorbell ?io ?g st1)))"
      using sem_wait_state [OF c(7) [unfolded eqTrueI [OF hit]]] by blast
    have dj: "unat ?src + unat n \<le> unat ?dst \<or> unat ?dst + unat n \<le> unat ?src"
      using ok unfolding s(1) d(1) copy_ok_def by auto
    have k: "unat (gx_gp_put ?g) < unat (gx_ring_entries ?g)" using cp by (simp add: ctx_placed_def word_less_nat_alt)
    obtain m' where m': "vram_is ?io win mem st2 m'"
      "same_scratch ?g m' (put_bytes (scratch_at ?g (unat ?dst)) (vram_bytes m1 (scratch_at ?g (unat ?src)) (unat n)) m1)"
      using ce [unfolded copy_engine_def, rule_format, of ?g st1 m1 "unat (gx_gp_put ?g)" "unat ?src" "unat ?dst" n ?payload i]
        c(1-5) k payload_not_0 s(2) d(2) dj i by auto
    have "same_scratch ?g (put_bytes (vram_addr fb dst) (vram_bytes m1 (vram_addr fb src) (unat n)) m1)
        (put_bytes (vram_addr fb dst) (vram_bytes (mem w) (vram_addr fb src) (unat n)) (mem w))"
      by (rule same_scratch_put [OF frame_bytes [OF c(6) ready]]) (use r(3) in simp_all)
    then show ?thesis using m' hit unfolding s(3) d(3) by (auto simp: same_scratch_def vram_is_def)
  qed
  show ?thesis
    by (rule exI [of _ ?rc], rule exI, rule exI [of _ p], rule exI [of _ "snd ?st"], intro conjI, rule run)
      (use ctx_ready_after [OF ready c(5)] fin in auto)
qed

section \<open>An engine that works\<close>

text \<open>
  A GPU that executes the request when the doorbell rings: it decodes the command buffer of the last entry,
  copies, and releases the semaphore.
\<close>

definition method_value :: "(nat \<times> nat \<times> u32) list \<Rightarrow> nat \<Rightarrow> u32" where
  "method_value ms a = (case List.find (\<lambda>(s, b, v). b = a) ms of Some (s, b, v) \<Rightarrow> v | None \<Rightarrow> 0)"

definition ce_exec :: "nv_gsp_gpu_ctx \<Rightarrow> (nat \<Rightarrow> u32) \<Rightarrow> nat \<Rightarrow> u32" where
  "ce_exec gpu m =
     (let n = unat (gx_ring_entries gpu);
          k = (unat (m (unat (gx_userd_phys gpu) + 0x8c)) + n - 1) mod n;
          e = host_entry m (unat (gx_ring_phys gpu)) k
      in case methods (host_words m (unat (gx_pb_phys gpu)) (entry_len e)) of
           None \<Rightarrow> m
         | Some ms \<Rightarrow>
             let src = scratch_at gpu (va_of (method_value ms 0x400) (method_value ms 0x404));
                 dst = scratch_at gpu (va_of (method_value ms 0x408) (method_value ms 0x40C))
             in (put_bytes dst (vram_bytes m src (unat (method_value ms 0x418))) m)
                  (unat (gx_sem_phys gpu) := method_value ms 0x248))"

definition ce_io :: "nv_gsp_gpu_ctx \<Rightarrow> (u64 \<times> (nat \<Rightarrow> u32)) mmio" where
  "ce_io gpu = demo_io\<lparr>io_wr := (\<lambda>off v (w, m).
     if off = NV_VFN_DOORBELL_ADDR then (w, ce_exec gpu m) else io_wr demo_io off v (w, m))\<rparr>"

lemma ce_io_dev: "pramin_dev (ce_io gpu) fst snd"
proof -
  have a: "0x700000 + off \<noteq> (0xbb0090 :: u32)" if "off < 0x100000" for off
  proof
    assume "0x700000 + off = 0xbb0090"
    then have "off = 0xbb0090 - 0x700000" by (metis add_diff_cancel_left')
    then show False using that by simp
  qed
  have "io_wr (ce_io gpu) off v = io_wr demo_io off v" if "off \<noteq> 0xbb0090" for off v
    using that by (simp add: ce_io_def fun_eq_iff)
  moreover have "io_rd (ce_io gpu) = io_rd demo_io" by (simp add: ce_io_def)
  ultimately show ?thesis using demo_io_dev a unfolding pramin_dev_def by auto
qed

lemma ce_polled:
  assumes "vram_is (ce_io gpu) fst snd st m" "unat a < 2 ^ 40" "4 dvd unat a"
  shows "vram_is (ce_io gpu) fst snd (polled (ce_io gpu) a i st) m"
  using assms(1)
proof (induction i arbitrary: st)
  case (Suc i)
  obtain v wb w where r: "nv_pramin_rd32 (ce_io gpu) a st = (v, wb, w)" by (metis prod_cases3)
  have "vram_is (ce_io gpu) fst snd (wb, w) m" using vram_rd32(2) [OF Suc.prems assms(2,3)] by (simp add: r)
  moreover have "io_udelay (ce_io gpu) 20 w = w" by (simp add: ce_io_def demo_io_def)
  ultimately show ?case using Suc.IH r by simp
qed simp

lemma last_slot: "k < n \<Longrightarrow> ((k + 1) mod n + n - 1) mod n = (k :: nat)"
  by (cases "k + 1 = n") auto

lemma ce_exec_request:
  assumes st: "static_ctx gpu = static_ctx gpu0" and k: "k < unat (gx_ring_entries gpu)"
    and rq: "copy_request gpu m k src dst n payload"
    and put: "unat (m (unat (gx_userd_phys gpu) + 0x8c)) = (k + 1) mod unat (gx_ring_entries gpu)"
  shows "ce_exec gpu0 m = (put_bytes (scratch_at gpu dst) (vram_bytes m (scratch_at gpu src) (unat n)) m)
    (unat (gx_sem_phys gpu) := payload)"
proof -
  note f = static_ctx_fields [OF st]
  obtain sh sl ah al dh dl where ms: "methods (host_words m (unat (gx_pb_phys gpu))
      (entry_len (host_entry m (unat (gx_ring_phys gpu)) k))) = Some (class_method gpu
        @ [(4, 0x240, sh), (4, 0x244, sl), (4, 0x248, payload), (4, 0x400, ah), (4, 0x404, al),
           (4, 0x408, dh), (4, 0x40C, dl), (4, 0x418, n), (4, 0x300, ce_launch)])"
    and va: "va_of ah al = src" "va_of dh dl = dst"
    using rq unfolding copy_request_def by blast
  have slot: "(unat (m (unat (gx_userd_phys gpu) + 0x8c)) + unat (gx_ring_entries gpu) - 1) mod unat (gx_ring_entries gpu) = k"
    unfolding put by (rule last_slot [OF k])
  have at: "scratch_at gpu0 x = scratch_at gpu x" for x by (simp add: scratch_at_def f)
  have v: "method_value (class_method gpu @ [(4, 0x240, sh), (4, 0x244, sl), (4, 0x248, payload), (4, 0x400, ah), (4, 0x404, al),
      (4, 0x408, dh), (4, 0x40C, dl), (4, 0x418, n), (4, 0x300, ce_launch)]) a =
      (if a = 0x248 then payload else if a = 0x400 then ah else if a = 0x404 then al else if a = 0x408 then dh
       else if a = 0x40C then dl else n)" if "a \<in> {0x248, 0x400, 0x404, 0x408, 0x40C, 0x418}" for a
    using that by (auto simp: method_value_def class_method_def)
  show ?thesis
    unfolding ce_exec_def Let_def f [symmetric] slot ms option.case at by (simp add: v va)
qed

lemma ce_engine:
  assumes "ctx_ready gpu0"
  shows "copy_engine (ce_io gpu0) fst snd gpu0"
  unfolding copy_engine_def
proof (intro allI impI, elim conjE)
  fix gpu st m k src dst n payload i
  assume sc: "static_ctx gpu = static_ctx gpu0" and st: "vram_is (ce_io gpu0) fst snd st m"
    and k: "k < unat (gx_ring_entries gpu)" and rq: "copy_request gpu m k src dst n payload"
    and put: "unat (m (unat (gx_userd_phys gpu) + 0x8c)) = (k + 1) mod unat (gx_ring_entries gpu)"
  note f = static_ctx_fields [OF sc]
  let ?io = "ce_io gpu0" and ?s = "gx_sem_phys gpu" and ?c = "put_bytes (scratch_at gpu dst) (vram_bytes m (scratch_at gpu src) (unat n)) m"
  have cell: "4 dvd unat ?s" "unat ?s + 4 \<le> 2 ^ 40" "unat ?s + 4 \<le> unat (gx_scratch_phys gpu)
      \<or> unat (gx_scratch_phys gpu) + unat (gx_scratch_size gpu) \<le> unat ?s"
    using assms by (auto simp: ctx_ready_def ctx_placed_def ctx_cells_def cells_apart_def f)
  then have s40: "unat ?s < 2 ^ 40" by simp
  obtain wb w where w: "st = (wb, w, m)" using st by (cases st) (auto simp: vram_is_def)
  have "ring_doorbell ?io gpu st = (wb, w, ?c(unat ?s := payload))"
    using ce_exec_request [OF sc k rq put] by (simp add: ring_doorbell_def w ce_io_def)
  then have "vram_is ?io fst snd (ring_doorbell ?io gpu st) (?c(unat ?s := payload))"
    using st by (simp add: vram_is_def coherent_def w)
  then have v: "vram_is ?io fst snd (snd (nv_pramin_rd32 ?io ?s (polled ?io ?s i (ring_doorbell ?io gpu st)))) (?c(unat ?s := payload))"
    by (intro vram_rd32(2) ce_polled s40 cell(1))
  have "same_scratch gpu (?c(unat ?s := payload)) ?c"
    using cell(1,3) by (auto simp: same_scratch_def byte_at_upd)
  then show "\<exists>m'. vram_is ?io fst snd (snd (nv_pramin_rd32 ?io ?s (polled ?io ?s i (ring_doorbell ?io gpu st)))) m'
      \<and> same_scratch gpu m' ?c"
    using v by blast
qed

end
