(* ===== verification/UserClient.thy ===== *)
theory UserClient
  imports MilcorixCopy Vram
begin

text \<open>
  \<open>driver/macos/MilcorixUserClient.cpp\<close>: the boundary between a user process and the GPU.  A connection owns a
  pool of handles (offsets into the scratch area of its owner) and the flag \<open>fManaged\<close>, set by the first
  allocation, after which only handles are accepted.  \<open>externalMethod\<close> holds the lock of the connection for the
  whole call, so a call is one step of the model.
\<close>

abbreviation (input) MILCORIX_CONNECT_TYPE :: u32 where "MILCORIX_CONNECT_TYPE \<equiv> 0x4D4C4358"
abbreviation (input) MILCORIX_MEMORY_ABI_VERSION :: u32 where "MILCORIX_MEMORY_ABI_VERSION \<equiv> 1"
abbreviation (input) MILCORIX_MAX_XFER :: u64 where "MILCORIX_MAX_XFER \<equiv> 4 * 1024 * 1024"
abbreviation (input) MILCORIX_MEMORY_READY :: u32 where "MILCORIX_MEMORY_READY \<equiv> 1"
abbreviation (input) MILCORIX_MEMORY_EXTERNAL_VMM :: u32 where "MILCORIX_MEMORY_EXTERNAL_VMM \<equiv> 2"
abbreviation (input) MILCORIX_MEMORY_GPU_PROBES :: u32 where "MILCORIX_MEMORY_GPU_PROBES \<equiv> 4"
abbreviation (input) MILCORIX_STAGE_CHUNK :: u64 where "MILCORIX_STAGE_CHUNK \<equiv> 64 * 1024"
abbreviation (input) kMilcorixMethodGetInfo :: u32 where "kMilcorixMethodGetInfo \<equiv> 0"
abbreviation (input) kMilcorixMethodWrite :: u32 where "kMilcorixMethodWrite \<equiv> 1"
abbreviation (input) kMilcorixMethodRead :: u32 where "kMilcorixMethodRead \<equiv> 2"
abbreviation (input) kMilcorixMethodCopy :: u32 where "kMilcorixMethodCopy \<equiv> 3"
abbreviation (input) kMilcorixMethodGetMemoryInfo :: u32 where "kMilcorixMethodGetMemoryInfo \<equiv> 4"
abbreviation (input) kMilcorixMethodAlloc :: u32 where "kMilcorixMethodAlloc \<equiv> 5"
abbreviation (input) kMilcorixMethodFree :: u32 where "kMilcorixMethodFree \<equiv> 6"
abbreviation (input) kMilcorixMethodWriteBuffer :: u32 where "kMilcorixMethodWriteBuffer \<equiv> 7"
abbreviation (input) kMilcorixMethodReadBuffer :: u32 where "kMilcorixMethodReadBuffer \<equiv> 8"
abbreviation (input) kMilcorixMethodCopyBuffer :: u32 where "kMilcorixMethodCopyBuffer \<equiv> 9"
abbreviation (input) kMilcorixMethodCount :: u32 where "kMilcorixMethodCount \<equiv> 10"

text \<open>
  A memory descriptor of IOKit stands for memory of the user process: reading gives the bytes that could be read,
  writing the number of bytes that could be written.
\<close>

record io_md =
  md_getLength :: u64
  md_prepare :: bool
  md_readBytes :: "u64 \<Rightarrow> u32 \<Rightarrow> u8 list"
  md_writeBytes :: "u64 \<Rightarrow> u8 list \<Rightarrow> u64"

text \<open>
  The arguments of a call: counts are the lengths of the lists, a null pointer is \<^const>\<open>None\<close>.
  The answer: the scalars written, the structure handed back, the writes to the output descriptor.
\<close>

record ext_args =
  ea_scalarInput :: "u64 list"
  ea_structureInput :: "u8 list option"
  ea_structureInputDescriptor :: "io_md option"
  ea_scalarOutputCount :: u32
  ea_structureOutput :: "u8 list option"
  ea_structureOutputDescriptor :: "io_md option"

record ext_out =
  eo_scalarOutput :: "u64 list"
  eo_structureOutput :: "u8 list"
  eo_written :: "(u64 \<times> u8 list) list"

abbreviation (input) no_out :: ext_out where
  "no_out \<equiv> \<lparr>eo_scalarOutput = [], eo_structureOutput = [], eo_written = []\<rparr>"

text \<open>A connection with its owner and the hardware.\<close>

record 'w connection =
  cn_fb :: milcorix_fb
  cn_fPool :: nv_vram_pool
  cn_fManaged :: bool
  cn_hw :: 'w

type_synonym 'w answer = "(IOReturn \<times> ext_out \<times> 'w connection) option"

section \<open>Information\<close>

definition methodGetInfo :: "ext_args \<Rightarrow> 'w connection \<Rightarrow> 'w answer" where
  "methodGetInfo args c =
     (case ea_structureOutput args of
        None \<Rightarrow> Some (kIOReturnBadArgument, no_out, c)
      | Some buf \<Rightarrow>
          if length buf < 24 then Some (kIOReturnBadArgument, no_out, c)
          else let info = bytes32 (if gpuReady (cn_fb c) then 1 else 0) @ bytes32 (gpuChannel (cn_fb c))
                 @ bytes32 (gpuCopyEngine (cn_fb c)) @ bytes32 0 @ bytes64 (gpuScratchSize (cn_fb c))
               in Some (kIOReturnSuccess, no_out\<lparr>eo_structureOutput := info\<rparr>, c))"

definition methodMemoryInfo :: "ext_args \<Rightarrow> 'w connection \<Rightarrow> 'w answer" where
  "methodMemoryInfo args c =
     (case ea_structureOutput args of
        None \<Rightarrow> Some (kIOReturnBadArgument, no_out, c)
      | Some buf \<Rightarrow>
          if length buf < 40 then Some (kIOReturnBadArgument, no_out, c)
          else let flags = (if gpuPoolVerified (cn_fb c)
                   then MILCORIX_MEMORY_READY OR MILCORIX_MEMORY_EXTERNAL_VMM OR MILCORIX_MEMORY_GPU_PROBES else 0);
                 info = bytes32 MILCORIX_MEMORY_ABI_VERSION @ bytes32 40 @ bytes32 flags @ bytes32 4096
                   @ bytes64 (pl_size (cn_fPool c)) @ bytes64 (pl_used (cn_fPool c)) @ bytes64 MILCORIX_MAX_XFER
               in Some (kIOReturnSuccess, no_out\<lparr>eo_structureOutput := info\<rparr>, c))"

section \<open>Data in\<close>

text \<open>The chunk of a transfer at \<open>done\<close>.\<close>

definition stage_chunk :: "u64 \<Rightarrow> u64 \<Rightarrow> u32" where
  "stage_chunk amount done =
     (let left = amount - done in ucast (if left > MILCORIX_STAGE_CHUNK then MILCORIX_STAGE_CHUNK else left))"

partial_function (option) write_chunks ::
  "'w kernel \<Rightarrow> milcorix_fb \<Rightarrow> io_md \<Rightarrow> u64 \<Rightarrow> u64 \<Rightarrow> u64 \<Rightarrow> 'w \<Rightarrow> (IOReturn \<times> 'w) option" where
  "write_chunks kn fb md offset amount done w =
     (if done < amount
      then let chunk = stage_chunk amount done; stage = md_readBytes md done chunk in
           if length stage \<noteq> unat chunk then Some (kIOReturnVMError, w)
           else do { (rc, w) \<leftarrow> gpuWrite kn fb (offset + done) stage chunk w;
                     if rc \<noteq> kIOReturnSuccess then Some (rc, w)
                     else write_chunks kn fb md offset amount (done + ucast chunk) w }
      else Some (kIOReturnSuccess, w))"

declare write_chunks.simps [code]

text \<open>The number of bytes a call transfers: that of the structure, else that of the descriptor.\<close>

definition xfer_bytes :: "u8 list option \<Rightarrow> io_md option \<Rightarrow> u64" where
  "xfer_bytes buf md =
     (case buf of Some b \<Rightarrow> of_nat (length b)
      | None \<Rightarrow> (case md of Some d \<Rightarrow> md_getLength d | None \<Rightarrow> 0))"

definition resolve_offset :: "'w connection \<Rightarrow> bool \<Rightarrow> u64 list \<Rightarrow> u64 \<Rightarrow> u64 option" where
  "resolve_offset c resource scalars n =
     (if resource
      then let (rc, phys, va) = nv_vram_resolve (cn_fPool c) (scalars ! 0) (scalars ! 1) n in
           if rc \<noteq> 0 then None else Some phys
      else Some (scalars ! 0))"

definition methodWrite :: "'w kernel \<Rightarrow> bool \<Rightarrow> ext_args \<Rightarrow> 'w connection \<Rightarrow> 'w answer" where
  "methodWrite kn resource args c =
     (let bad = Some (kIOReturnBadArgument, no_out, c) in
      if length (ea_scalarInput args) \<noteq> (if resource then 2 else 1) then bad
      else let totalBytes = xfer_bytes (ea_structureInput args) (ea_structureInputDescriptor args) in
      if totalBytes = 0 \<or> totalBytes > MILCORIX_MAX_XFER then bad
      else case resolve_offset c resource (ea_scalarInput args) totalBytes of
        None \<Rightarrow> bad
      | Some offset \<Rightarrow>
        if offset AND 3 \<noteq> 0 then bad
        else case ea_structureInput args of
          Some buf \<Rightarrow>
            if of_nat (length buf) = (0 :: u32) \<or> ucast (of_nat (length buf) :: u32) > MILCORIX_MAX_XFER then bad
            else do { (rc, w) \<leftarrow> gpuWrite kn (cn_fb c) offset buf (of_nat (length buf)) (cn_hw c);
                      Some (rc, no_out, c\<lparr>cn_hw := w\<rparr>) }
        | None \<Rightarrow>
            (case ea_structureInputDescriptor args of
              None \<Rightarrow> bad
            | Some md \<Rightarrow>
              let amount = md_getLength md in
              if amount = 0 \<or> amount > MILCORIX_MAX_XFER then bad
              else if \<not> md_prepare md then Some (kIOReturnVMError, no_out, c)
              else if \<not> kn_IOMalloc kn then Some (kIOReturnNoMemory, no_out, c)
              else do { (rc, w) \<leftarrow> write_chunks kn (cn_fb c) md offset amount 0 (cn_hw c);
                        Some (rc, no_out, c\<lparr>cn_hw := w\<rparr>) }))"

section \<open>Data out\<close>

text \<open>A round uses the first \<open>chunk\<close> bytes of the staging buffer, and only the last round is shorter.\<close>

partial_function (option) read_chunks ::
  "'w kernel \<Rightarrow> milcorix_fb \<Rightarrow> io_md \<Rightarrow> u64 \<Rightarrow> u64 \<Rightarrow> u64 \<Rightarrow> (u64 \<times> u8 list) list \<Rightarrow> u8 list \<Rightarrow> 'w \<Rightarrow>
   (IOReturn \<times> (u64 \<times> u8 list) list \<times> 'w) option" where
  "read_chunks kn fb md offset amount done out stage w =
     (if done < amount
      then let chunk = stage_chunk amount done in
           do { (rc, stage, w) \<leftarrow> gpuRead kn fb (offset + done) (take (unat chunk) stage) chunk w;
                if rc \<noteq> kIOReturnSuccess then Some (rc, out, w)
                else let out = out @ [(done, stage)] in
                     if md_writeBytes md done stage \<noteq> ucast chunk then Some (kIOReturnVMError, out, w)
                     else read_chunks kn fb md offset amount (done + ucast chunk) out stage w }
      else Some (kIOReturnSuccess, out, w))"

declare read_chunks.simps [code]

text \<open>\<open>dirty\<close> is what the staging buffer holds when it is allocated.\<close>

definition methodRead :: "'w kernel \<Rightarrow> bool \<Rightarrow> u8 list \<Rightarrow> ext_args \<Rightarrow> 'w connection \<Rightarrow> 'w answer" where
  "methodRead kn resource dirty args c =
     (let bad = Some (kIOReturnBadArgument, no_out, c) in
      if length (ea_scalarInput args) \<noteq> (if resource then 2 else 1) then bad
      else let totalBytes = xfer_bytes (ea_structureOutput args) (ea_structureOutputDescriptor args) in
      if totalBytes = 0 \<or> totalBytes > MILCORIX_MAX_XFER then bad
      else case resolve_offset c resource (ea_scalarInput args) totalBytes of
        None \<Rightarrow> bad
      | Some offset \<Rightarrow>
        if offset AND 3 \<noteq> 0 then bad
        else case ea_structureOutput args of
          Some buf \<Rightarrow>
            if of_nat (length buf) = (0 :: u32) \<or> ucast (of_nat (length buf) :: u32) > MILCORIX_MAX_XFER then bad
            else do { (rc, buf, w) \<leftarrow> gpuRead kn (cn_fb c) offset buf (of_nat (length buf)) (cn_hw c);
                      Some (rc, no_out\<lparr>eo_structureOutput := buf\<rparr>, c\<lparr>cn_hw := w\<rparr>) }
        | None \<Rightarrow>
            (case ea_structureOutputDescriptor args of
              None \<Rightarrow> bad
            | Some md \<Rightarrow>
              let amount = md_getLength md in
              if amount = 0 \<or> amount > MILCORIX_MAX_XFER then bad
              else if \<not> md_prepare md then Some (kIOReturnVMError, no_out, c)
              else if \<not> kn_IOMalloc kn then Some (kIOReturnNoMemory, no_out, c)
              else do { (rc, out, w) \<leftarrow> read_chunks kn (cn_fb c) md offset amount 0 [] dirty (cn_hw c);
                        Some (rc, no_out\<lparr>eo_written := out\<rparr>, c\<lparr>cn_hw := w\<rparr>) }))"

section \<open>Copies\<close>

definition methodCopy :: "'w kernel \<Rightarrow> bool \<Rightarrow> ext_args \<Rightarrow> 'w connection \<Rightarrow> 'w answer" where
  "methodCopy kn resource args c =
     (let bad = Some (kIOReturnBadArgument, no_out, c); s = ea_scalarInput args in
      if length s \<noteq> (if resource then 5 else 3) \<or> ea_scalarOutputCount args < 1 then bad
      else let bytes = s ! (if resource then 4 else 2) in
      if bytes = 0 \<or> bytes > MILCORIX_MAX_XFER then bad
      else case (resolve_offset c resource s bytes,
                 resolve_offset c resource (if resource then drop 2 s else drop 1 s) bytes) of
        (Some srcOff, Some dstOff) \<Rightarrow>
          let (rc, nanos, fb, w) = gpuCopy kn (cn_fb c) srcOff dstOff (ucast bytes) (cn_hw c)
          in Some (rc, no_out\<lparr>eo_scalarOutput := [nanos]\<rparr>, c\<lparr>cn_fb := fb, cn_hw := w\<rparr>)
      | _ \<Rightarrow> bad)"

section \<open>Allocation\<close>

text \<open>The size of the copy that fills a resource whose first \<open>filled\<close> bytes are zero.\<close>

definition fill_chunk :: "u64 \<Rightarrow> u64 \<Rightarrow> u64" where
  "fill_chunk bytes filled =
     (let chunk = bytes - filled;
          chunk = (if chunk > filled then filled else chunk)
      in if chunk > MILCORIX_MAX_XFER then MILCORIX_MAX_XFER else chunk)"

partial_function (option) fill_copies ::
  "'w kernel \<Rightarrow> u64 \<Rightarrow> u64 \<Rightarrow> u64 \<Rightarrow> milcorix_fb \<Rightarrow> 'w \<Rightarrow> (IOReturn \<times> milcorix_fb \<times> 'w) option" where
  "fill_copies kn offset bytes filled fb w =
     (if filled < bytes
      then let chunk = fill_chunk bytes filled;
               (rc, _, fb, w) = gpuCopy kn fb offset (offset + filled) (ucast chunk) w
           in if rc = kIOReturnSuccess then fill_copies kn offset bytes (filled + chunk) fb w
              else Some (rc, fb, w)
      else Some (kIOReturnSuccess, fb, w))"

declare fill_copies.simps [code]

definition clear_resource ::
  "'w kernel \<Rightarrow> u64 \<Rightarrow> u64 \<Rightarrow> milcorix_fb \<Rightarrow> 'w \<Rightarrow> (IOReturn \<times> milcorix_fb \<times> 'w) option" where
  "clear_resource kn offset bytes fb w =
     (if \<not> kn_IOMalloc kn then Some (kIOReturnNoMemory, fb, w)
      else do { (rc, w) \<leftarrow> gpuWrite kn fb offset (replicate 4096 0) 4096 w;
                if rc = kIOReturnSuccess then fill_copies kn offset bytes 4096 fb w else Some (rc, fb, w) })"

definition methodAlloc :: "'w kernel \<Rightarrow> ext_args \<Rightarrow> 'w connection \<Rightarrow> 'w answer" where
  "methodAlloc kn args c =
     (let s = ea_scalarInput args in
      if length s \<noteq> 2 \<or> ea_scalarOutputCount args < 2 then Some (kIOReturnBadArgument, no_out, c)
      else if \<not> gpuPoolVerified (cn_fb c) then Some (kIOReturnNotReady, no_out, c)
      else let out = no_out\<lparr>eo_scalarOutput := [0, 0]\<rparr> in
      do { (err, handle, pool) \<leftarrow> nv_vram_alloc (cn_fPool c) (s ! 0) (s ! 1);
           let c = c\<lparr>cn_fPool := pool\<rparr> in
           if err \<noteq> 0 then Some (if err = -2 then kIOReturnNoMemory else kIOReturnBadArgument, out, c)
           else let bytes = (s ! 0 + 4095) AND NOT 4095;
                    (_, offset, _) = nv_vram_resolve pool handle 0 bytes
                in do { (rc, fb, w) \<leftarrow> clear_resource kn offset bytes (cn_fb c) (cn_hw c);
                        let c = c\<lparr>cn_fb := fb, cn_hw := w\<rparr> in
                        if rc \<noteq> kIOReturnSuccess
                        then Some (rc, out, c\<lparr>cn_fPool := snd (nv_vram_free pool handle)\<rparr>)
                        else Some (kIOReturnSuccess, out\<lparr>eo_scalarOutput := [handle, bytes]\<rparr>,
                                   c\<lparr>cn_fManaged := True\<rparr>) } })"

definition methodFree :: "ext_args \<Rightarrow> 'w connection \<Rightarrow> 'w answer" where
  "methodFree args c =
     (if length (ea_scalarInput args) \<noteq> 1 then Some (kIOReturnBadArgument, no_out, c)
      else let (rc, pool) = nv_vram_free (cn_fPool c) (ea_scalarInput args ! 0)
           in Some (if rc \<noteq> 0 then kIOReturnBadArgument else kIOReturnSuccess, no_out, c\<lparr>cn_fPool := pool\<rparr>))"

section \<open>The dispatch\<close>

text \<open>
  \<open>inactive\<close> is what the two tests of \<open>isInactive()\<close> give, before and after the lock is taken;
  \<open>super_rc\<close> is the answer of the base class, which gets the selectors this class does not know.
\<close>

definition externalMethod ::
  "'w kernel \<Rightarrow> bool \<times> bool \<Rightarrow> IOReturn \<Rightarrow> u8 list \<Rightarrow> u32 \<Rightarrow> ext_args \<Rightarrow> 'w connection \<Rightarrow> 'w answer" where
  "externalMethod kn inactive super_rc dirty selector args c =
     (if fst inactive then Some (kIOReturnNotAttached, no_out, c)
      else if selector \<ge> kMilcorixMethodCount then Some (super_rc, no_out, c)
      else if snd inactive then Some (kIOReturnNotAttached, no_out, c)
      else if cn_fManaged c \<and> selector \<ge> kMilcorixMethodWrite \<and> selector \<le> kMilcorixMethodCopy
      then Some (kIOReturnUnsupported, no_out, c)
      else if selector = kMilcorixMethodGetInfo then methodGetInfo args c
      else if selector = kMilcorixMethodWrite then methodWrite kn False args c
      else if selector = kMilcorixMethodRead then methodRead kn False dirty args c
      else if selector = kMilcorixMethodCopy then methodCopy kn False args c
      else if selector = kMilcorixMethodGetMemoryInfo then methodMemoryInfo args c
      else if selector = kMilcorixMethodAlloc then methodAlloc kn args c
      else if selector = kMilcorixMethodFree then methodFree args c
      else if selector = kMilcorixMethodWriteBuffer then methodWrite kn True args c
      else if selector = kMilcorixMethodReadBuffer then methodRead kn True dirty args c
      else if selector = kMilcorixMethodCopyBuffer then methodCopy kn True args c
      else Some (kIOReturnUnsupported, no_out, c))"

section \<open>Opening and closing\<close>

text \<open>What the outside world decides while a connection is opened.\<close>

record open_env =
  oe_alloc :: bool
  oe_super_init :: bool
  oe_lock :: bool
  oe_attach :: bool
  oe_super_start :: bool

definition initWithTask :: "open_env \<Rightarrow> u32 \<Rightarrow> bool" where
  "initWithTask e type =
     (if type \<noteq> MILCORIX_CONNECT_TYPE then False else if \<not> oe_super_init e then False else oe_lock e)"

text \<open>\<open>start\<close>: the result, whether the slot of the owner was taken, and the fields it sets.\<close>

definition start ::
  "open_env \<Rightarrow> nv_vram_pool \<Rightarrow> milcorix_fb \<Rightarrow> bool \<times> bool \<times> milcorix_fb \<times> nv_vram_pool \<times> bool" where
  "start e zero_pool fb =
     (if \<not> oe_super_start e then (False, False, fb, zero_pool, False)
      else let (ok, fb) = gpuClientOpen fb in
      if \<not> ok then (False, False, fb, zero_pool, False)
      else let (rc, pool) = nv_vram_pool_init zero_pool 0 (gpuScratchVA fb) (gpuScratchSize fb) in
      if rc \<noteq> 0 then (False, True, fb, pool, False)
      else (True, True, fb, pool, gpuPoolVerified fb))"

text \<open>\<open>free\<close>: gives the slot back if it was taken.\<close>

definition free_client :: "bool \<Rightarrow> milcorix_fb \<Rightarrow> milcorix_fb" where
  "free_client fCounted fb = (if fCounted then gpuClientClose fb else fb)"

abbreviation (input) zero_pool :: nv_vram_pool where
  "zero_pool \<equiv> \<lparr>pl_phys = 0, pl_va = 0, pl_size = 0, pl_used = 0, pl_next_handle = 0,
     pl_allocations = replicate NV_VRAM_MAX_ALLOCS no_allocation\<rparr>"

text \<open>
  \<open>newUserClient\<close> for the type of this class; the base class handles the others.  The result: the status,
  the owner, and pool and flag of the new connection.
\<close>

definition newUserClient ::
  "open_env \<Rightarrow> IOReturn \<Rightarrow> u32 \<Rightarrow> milcorix_fb \<Rightarrow> IOReturn \<times> milcorix_fb \<times> (nv_vram_pool \<times> bool) option" where
  "newUserClient e super_rc type fb =
     (if type \<noteq> MILCORIX_CONNECT_TYPE then (super_rc, fb, None)
      else if \<not> oe_alloc e then (kIOReturnNoMemory, fb, None)
      else if \<not> initWithTask e type \<or> \<not> oe_attach e then (kIOReturnInternalError, free_client False fb, None)
      else let (ok, fCounted, fb, pool, managed) = start e zero_pool fb in
      if \<not> ok then (kIOReturnInternalError, free_client fCounted fb, None)
      else (kIOReturnSuccess, fb, Some (pool, managed)))"

section \<open>Transfers in chunks\<close>

lemma put_bytes_append: "put_bytes (a + length xs) ys (put_bytes a xs m) = put_bytes a (xs @ ys) m"
  by (rule mem_eqI) (auto simp: byte_at_put put_bytes_odd nth_append)

lemma vram_bytes_append: "vram_bytes m a (n + k) = vram_bytes m a n @ vram_bytes m (a + n) k"
  unfolding vram_bytes_def using upt_add_eq_append [of a "a + n" k] by (simp add: add.assoc)

lemma stage_chunk_bounds:
  assumes "done < amount"
  shows "0 < unat (stage_chunk amount done)" "unat (stage_chunk amount done) \<le> 65536"
    "unat (stage_chunk amount done) \<le> unat amount - unat done"
    "unat (stage_chunk amount done) = 65536 \<or> unat done + unat (stage_chunk amount done) = unat amount"
proof -
  have l: "unat (amount - done) = unat amount - unat done" using assms by (intro unat_sub_small) (simp add: word_less_nat_alt)
  have u: "unat (stage_chunk amount done) = min 65536 (unat amount - unat done)"
    unfolding stage_chunk_def Let_def
    by (subst unat_ucast_small) (auto simp: word_less_nat_alt l min_def)
  show "0 < unat (stage_chunk amount done)" "unat (stage_chunk amount done) \<le> 65536"
    "unat (stage_chunk amount done) \<le> unat amount - unat done"
    "unat (stage_chunk amount done) = 65536 \<or> unat done + unat (stage_chunk amount done) = unat amount"
    unfolding u using assms by (auto simp: word_less_nat_alt min_def)
qed

text \<open>Where the transfer is allowed to be: inside the scratch area of a live, locked object.\<close>

definition xfer_ok :: "milcorix_fb \<Rightarrow> u64 \<Rightarrow> u64 \<Rightarrow> bool" where
  "xfer_ok fb offset amount \<longleftrightarrow> fb_fGpuLock fb \<and> gx_ok (fb_fGpu fb) \<and> scratch_placed (fb_fGpu fb)
     \<and> 4 dvd unat offset \<and> unat offset + unat amount \<le> unat (gx_scratch_size (fb_fGpu fb))"

text \<open>A descriptor that stands for the bytes \<open>data\<close> of the process.\<close>

definition md_gives :: "io_md \<Rightarrow> u8 list \<Rightarrow> bool" where
  "md_gives md data \<longleftrightarrow>
     (\<forall>a n. unat a + unat n \<le> length data \<longrightarrow> md_readBytes md a n = take (unat n) (drop (unat a) data))"

definition md_takes :: "io_md \<Rightarrow> bool" where
  "md_takes md \<longleftrightarrow> (\<forall>a bs. md_writeBytes md a bs = of_nat (length bs))"

lemma chunk_place:
  assumes x: "xfer_ok fb offset amount" and d: "done < amount" "65536 dvd unat done"
  shows "gpuRegionOk fb (offset + done) (stage_chunk amount done)" "4 dvd unat (offset + done)"
    "unat (offset + done) = unat offset + unat done" "unat (stage_chunk amount done) + 4 < 2 ^ 32"
    "unat (done + ucast (stage_chunk amount done)) = unat done + unat (stage_chunk amount done)"
proof -
  note b = stage_chunk_bounds [OF d(1)]
  have lt: "unat done < unat amount" using d(1) by (simp add: word_less_nat_alt)
  show u: "unat (offset + done) = unat offset + unat done"
    using x lt u64_less [of "gx_scratch_size (fb_fGpu fb)"] by (subst unat_add_small) (simp_all add: xfer_ok_def)
  show "gpuRegionOk fb (offset + done) (stage_chunk amount done)"
    using x b(1,3) lt unfolding gpuRegionOk_iff u xfer_ok_def by linarith
  have "(4 :: nat) dvd 65536" by simp
  then show "4 dvd unat (offset + done)" using x dvd_trans [OF _ d(2)] unfolding u xfer_ok_def by simp
  show "unat (stage_chunk amount done) + 4 < 2 ^ 32" using b(2) by simp
  show "unat (done + ucast (stage_chunk amount done)) = unat done + unat (stage_chunk amount done)"
    using b(3) lt u64_less [of amount] by (subst unat_add_small) (simp_all add: unat_widen)
qed

lemma write_chunks_ok:
  assumes dev: "pramin_dev (kn_io kn) win mem" and x: "xfer_ok fb offset amount"
  shows "done \<le> amount \<Longrightarrow> (done < amount \<Longrightarrow> 65536 dvd unat done) \<Longrightarrow>
    \<exists>rc w' bs. write_chunks kn fb md offset amount done w = Some (rc, w')
      \<and> mem w' = put_bytes (vram_addr fb offset + unat done) bs (mem w)
      \<and> length bs \<le> unat amount - unat done
      \<and> (rc = kIOReturnSuccess \<longrightarrow> length bs = unat amount - unat done)
      \<and> (\<forall>data. md_gives md data \<and> length data = unat amount \<longrightarrow> rc = kIOReturnSuccess \<and> bs = drop (unat done) data)"
proof (induction "unat amount - unat done" arbitrary: "done" w rule: less_induct)
  case less
  show ?case
  proof (cases "done < amount")
    case False
    then have "done = amount" using less.prems(1) by simp
    then show ?thesis by (subst write_chunks.simps) (auto intro!: exI [of _ "[]"])
  next
    case True
    let ?c = "stage_chunk amount done" and ?s = "md_readBytes md done (stage_chunk amount done)"
    note pl = chunk_place [OF x True less.prems(2) [OF True]] and b = stage_chunk_bounds [OF True]
    show ?thesis
    proof (cases "length ?s = unat ?c")
      case False
      then have "\<not> (md_gives md data \<and> length data = unat amount)" for data
        using b(3) True by (auto simp: md_gives_def word_less_nat_alt)
      then show ?thesis using True False
        by (subst write_chunks.simps) (auto simp: Let_def intro!: exI [of _ "[]"])
    next
      case len: True
      obtain w1 where w1: "gpuWrite kn fb (offset + done) ?s ?c w = Some (kIOReturnSuccess, w1)"
        "mem w1 = put_bytes (vram_addr fb offset + unat done) ?s (mem w)"
        using gpuWriteLocked_ok [OF dev _ pl(1,2,4) len, of w] x pl(3)
        by (auto simp: gpuWrite_def xfer_ok_def add.assoc)
      let ?d = "done + ucast ?c"
      have d: "?d \<le> amount" "?d < amount \<Longrightarrow> 65536 dvd unat ?d" "unat amount - unat ?d < unat amount - unat done"
        using pl(5) b True less.prems(2) [OF True] by (auto simp: word_le_nat_alt word_less_nat_alt)
      obtain rc w' bs where r: "write_chunks kn fb md offset amount ?d w1 = Some (rc, w')"
        "mem w' = put_bytes (vram_addr fb offset + unat ?d) bs (mem w1)" "length bs \<le> unat amount - unat ?d"
        "rc = kIOReturnSuccess \<longrightarrow> length bs = unat amount - unat ?d"
        "\<forall>data. md_gives md data \<and> length data = unat amount \<longrightarrow> rc = kIOReturnSuccess \<and> bs = drop (unat ?d) data"
        using less.hyps [OF d(3,1) d(2), of w1] by blast
      have run: "write_chunks kn fb md offset amount done w = Some (rc, w')"
        using True len w1(1) r(1) by (subst write_chunks.simps) (simp add: Let_def)
      have m: "mem w' = put_bytes (vram_addr fb offset + unat done) (?s @ bs) (mem w)"
        unfolding r(2) w1(2) pl(5) using put_bytes_append [of "vram_addr fb offset + unat done" ?s bs "mem w"] len
        by (simp add: add.assoc)
      have n: "length (?s @ bs) \<le> unat amount - unat done" using r(3) pl(5) b(3) len by simp
      have ok: "length (?s @ bs) = unat amount - unat done" if "rc = kIOReturnSuccess"
        using r(4) that pl(5) b(3) len by simp
      have gives: "rc = kIOReturnSuccess \<and> ?s @ bs = drop (unat done) data"
        if data: "md_gives md data \<and> length data = unat amount" for data
      proof -
        have "rc = kIOReturnSuccess \<and> bs = drop (unat ?d) data" using r(5) data by blast
        moreover have "?s = take (unat ?c) (drop (unat done) data)" using data b(3) True by (simp add: md_gives_def word_less_nat_alt)
        ultimately show ?thesis unfolding pl(5)
          by (metis append_take_drop_id drop_drop add.commute)
      qed
      show ?thesis
        by (rule exI [of _ rc], rule exI [of _ w'], rule exI [of _ "?s @ bs"], intro conjI impI allI, rule run, rule m, rule n)
          (use ok gives in blast)+
    qed
  qed
qed

text \<open>The pieces handed to the process are bytes of the transfer, in order.\<close>

definition pieces_ok :: "(nat \<Rightarrow> u32) \<Rightarrow> nat \<Rightarrow> nat \<Rightarrow> nat \<Rightarrow> (u64 \<times> u8 list) list \<Rightarrow> bool" where
  "pieces_ok m base lo hi ps \<longleftrightarrow> (\<forall>(d, bs) \<in> set ps. lo \<le> unat d \<and> unat d + length bs \<le> hi
     \<and> bs = vram_bytes m (base + unat d) (length bs))"

lemma read_chunks_ok:
  assumes dev: "pramin_dev (kn_io kn) win mem" and x: "xfer_ok fb offset amount"
  shows "done \<le> amount \<Longrightarrow> (done < amount \<Longrightarrow> 65536 dvd unat done) \<Longrightarrow> (done < amount \<Longrightarrow> length stage = 65536) \<Longrightarrow>
    \<exists>rc w' ps. read_chunks kn fb md offset amount done out stage w = Some (rc, out @ ps, w')
      \<and> mem w' = mem w \<and> pieces_ok (mem w) (vram_addr fb offset) (unat done) (unat amount) ps
      \<and> (rc = kIOReturnSuccess \<longrightarrow>
           concat (map snd ps) = vram_bytes (mem w) (vram_addr fb offset + unat done) (unat amount - unat done))
      \<and> (md_takes md \<longrightarrow> rc = kIOReturnSuccess)"
proof (induction "unat amount - unat done" arbitrary: "done" stage out w rule: less_induct)
  case less
  show ?case
  proof (cases "done < amount")
    case False
    then have "done = amount" using less.prems(1) by simp
    then show ?thesis
      by (subst read_chunks.simps) (auto simp: vram_bytes_def pieces_ok_def intro!: exI [of _ "[]"])
  next
    case True
    let ?c = "stage_chunk amount done" and ?A = "vram_addr fb offset"
    note pl = chunk_place [OF x True less.prems(2) [OF True]] and b = stage_chunk_bounds [OF True]
    have st: "length (take (unat ?c) stage) = unat ?c" using less.prems(3) [OF True] b(2) by simp
    define s1 where "s1 = vram_bytes (mem w) (?A + unat done) (unat ?c)"
    obtain w1 where w1: "gpuRead kn fb (offset + done) (take (unat ?c) stage) ?c w = Some (kIOReturnSuccess, s1, w1)"
      "mem w1 = mem w"
      using gpuReadLocked_ok [OF dev _ pl(1,2,4) st, of w] x pl(3)
      by (auto simp: gpuRead_def xfer_ok_def s1_def add.assoc)
    have l1: "length s1 = unat ?c" by (simp add: s1_def)
    have one: "pieces_ok (mem w) ?A (unat done) (unat amount) [(done, s1)]"
      using b(3) True by (simp add: pieces_ok_def l1 s1_def [symmetric] word_less_nat_alt)
    show ?thesis
    proof (cases "md_writeBytes md done s1 = ucast ?c")
      case False
      then have "md_writeBytes md done s1 \<noteq> of_nat (length s1)" unfolding l1 by simp
      then have "\<not> md_takes md" unfolding md_takes_def by blast
      then show ?thesis using True False w1 one
        by (subst read_chunks.simps) (auto simp: Let_def intro!: exI [of _ "[(done, s1)]"])
    next
      case sent: True
      let ?d = "done + ucast ?c"
      have d: "?d \<le> amount" "?d < amount \<Longrightarrow> 65536 dvd unat ?d" "unat amount - unat ?d < unat amount - unat done"
        "?d < amount \<Longrightarrow> length s1 = 65536"
        using pl(5) b True less.prems(2) [OF True] l1 by (auto simp: word_le_nat_alt word_less_nat_alt)
      obtain rc w' ps where r: "read_chunks kn fb md offset amount ?d (out @ [(done, s1)]) s1 w1
          = Some (rc, (out @ [(done, s1)]) @ ps, w')"
        "mem w' = mem w" "pieces_ok (mem w) ?A (unat ?d) (unat amount) ps"
        "rc = kIOReturnSuccess \<longrightarrow> concat (map snd ps) = vram_bytes (mem w) (?A + unat ?d) (unat amount - unat ?d)"
        "md_takes md \<longrightarrow> rc = kIOReturnSuccess"
        using less.hyps [OF d(3,1) d(2,4), where w = w1 and out = "out @ [(done, s1)]"] unfolding w1(2) by blast
      have run: "read_chunks kn fb md offset amount done out stage w = Some (rc, out @ ((done, s1) # ps), w')"
        using True sent w1(1) r(1) by (subst read_chunks.simps) (simp add: Let_def)
      have pcs: "pieces_ok (mem w) ?A (unat done) (unat amount) ((done, s1) # ps)"
        using one r(3) pl(5) unfolding pieces_ok_def by fastforce
      have cat: "concat (map snd ((done, s1) # ps)) = vram_bytes (mem w) (?A + unat done) (unat amount - unat done)"
        if "rc = kIOReturnSuccess"
      proof -
        have "unat amount - unat done = unat ?c + (unat amount - unat ?d)" using pl(5) b(3) True by (simp add: word_less_nat_alt)
        then show ?thesis using r(4) that unfolding pl(5)
          by (simp only: vram_bytes_append) (simp add: s1_def add.assoc)
      qed
      show ?thesis
        by (rule exI [of _ rc], rule exI [of _ w'], rule exI [of _ "(done, s1) # ps"], intro conjI impI, rule run, rule r(2), rule pcs)
          (use cat r(5) in blast)+
    qed
  qed
qed

end
