(* ===== verification/ClientStore.thy ===== *)
theory ClientStore
  imports UserClient
begin

text \<open>
  What a connection promises its process: a store of byte buffers, named by handles.  \<open>buffers\<close> reads the store
  off the pool and the memory of the GPU; every method of the handle interface is an operation on it.
\<close>

section \<open>Abstraction and invariant\<close>

definition conn_ok :: "'w connection \<Rightarrow> bool" where
  "conn_ok c \<longleftrightarrow> pool_inv (cn_fPool c) \<and> pl_phys (cn_fPool c) = 0
     \<and> pl_va (cn_fPool c) = gx_scratch_va (fb_fGpu (cn_fb c)) \<and> pl_size (cn_fPool c) = gx_scratch_size (fb_fGpu (cn_fb c))
     \<and> fb_fGpuLock (cn_fb c) \<and> ctx_ready (fb_fGpu (cn_fb c))"

definition buffers :: "('w \<Rightarrow> nat \<Rightarrow> u32) \<Rightarrow> 'w connection \<Rightarrow> u64 \<Rightarrow> u8 list option" where
  "buffers mem c h = map_option (\<lambda>(b, n). vram_bytes (mem (cn_hw c)) (unat (gx_scratch_phys (fb_fGpu (cn_fb c))) + b) n)
     (pool_map (cn_fPool c) h)"

lemma buffers_None: "buffers mem c h = None \<longleftrightarrow> pool_map (cn_fPool c) h = None"
  by (simp add: buffers_def)

lemma resolve_Some:
  assumes "conn_ok c" "resolve_offset c True s n = Some a"
  shows "\<exists>b k. pool_map (cn_fPool c) (s ! 0) = Some (b, k) \<and> 0 < unat n \<and> unat (s ! 1) + unat n \<le> k
     \<and> unat a = b + unat (s ! 1)"
proof -
  have inv: "pool_inv (cn_fPool c)" "pl_phys (cn_fPool c) = 0" using assms(1) by (simp_all add: conn_ok_def)
  obtain va where r: "nv_vram_resolve (cn_fPool c) (s ! 0) (s ! 1) n = (0, a, va)"
    using assms(2) by (auto simp: resolve_offset_def Let_def split: prod.splits if_splits)
  show ?thesis
  proof (cases "pool_map (cn_fPool c) (s ! 0)")
    case (Some bk)
    then show ?thesis using resolve_spec [OF inv(1), where h = "s ! 0" and off = "s ! 1" and n = n] inv(2) r
      by (cases bk) (simp split: if_splits)
  qed (use resolve_spec [OF inv(1), where h = "s ! 0" and off = "s ! 1" and n = n] r in simp)
qed

lemma resolve_None:
  assumes "conn_ok c" "resolve_offset c True s n = None" "pool_map (cn_fPool c) (s ! 0) = Some (b, k)"
  shows "\<not> (0 < unat n \<and> unat (s ! 1) + unat n \<le> k)"
proof -
  have inv: "pool_inv (cn_fPool c)" using assms(1) by (simp add: conn_ok_def)
  show ?thesis using resolve_spec [OF inv, where h = "s ! 0" and off = "s ! 1" and n = n] assms(2,3)
    by (auto simp: resolve_offset_def Let_def split: prod.splits if_splits)
qed

text \<open>Where a live buffer lies.\<close>

lemma buffer_place:
  assumes "conn_ok c" "pool_map (cn_fPool c) h = Some (b, k)"
  shows "0 < k" "b + k \<le> unat (gx_scratch_size (fb_fGpu (cn_fb c)))" "4096 dvd b"
proof -
  have inv: "pool_inv (cn_fPool c)" "pl_size (cn_fPool c) = gx_scratch_size (fb_fGpu (cn_fb c))"
    using assms(1) by (simp_all add: conn_ok_def)
  show "0 < k" "b + k \<le> unat (gx_scratch_size (fb_fGpu (cn_fb c)))"
    using pool_map_inside [OF inv(1) assms(2)] inv(2) by simp_all
  let ?as = "pl_allocations (cn_fPool c)" and ?i = "entry_index (pl_allocations (cn_fPool c)) h"
  have i: "h \<noteq> 0" "?i < length ?as" "b = unat (al_offset (?as ! ?i))" using assms(2) by (auto simp: pool_map_Some)
  show "4096 dvd b" using pool_inv_entry [OF inv(1) nth_mem [OF i(2)]] entry_index_hit [OF i(2)] i(1,3)
    by (auto simp: entry_ok_def)
qed

text \<open>Bytes stored inside one buffer: that buffer is patched, the others stay.\<close>

lemma vram_bytes_splice:
  assumes "off + length bs \<le> k"
  shows "vram_bytes (put_bytes (a + off) bs m) a k = splice (vram_bytes m a k) off bs"
  by (rule nth_equalityI) (use assms in \<open>auto simp: vram_bytes_def byte_at_put nth_splice\<close>)

lemma vram_bytes_apart:
  "a + n \<le> d \<or> d + length bs \<le> a \<Longrightarrow> vram_bytes (put_bytes d bs m) a n = vram_bytes m a n"
  by (auto simp: vram_bytes_def byte_at_put)

lemma buffers_put:
  assumes ok: "conn_ok c" and h: "pool_map (cn_fPool c) h = Some (b, k)" and off: "off + length bs \<le> k"
    and m: "same_scratch (fb_fGpu (cn_fb c)) (mem (cn_hw c'))
      (put_bytes (unat (gx_scratch_phys (fb_fGpu (cn_fb c))) + (b + off)) bs (mem (cn_hw c)))"
    and c': "cn_fPool c' = cn_fPool c" "gx_scratch_phys (fb_fGpu (cn_fb c')) = gx_scratch_phys (fb_fGpu (cn_fb c))"
  shows "buffers mem c' = (buffers mem c)(h \<mapsto> splice (the (buffers mem c h)) off bs)"
proof
  let ?S = "unat (gx_scratch_phys (fb_fGpu (cn_fb c)))" and ?p = "cn_fPool c"
  have inv: "pool_inv ?p" using ok by (simp add: conn_ok_def)
  have same: "vram_bytes (mem (cn_hw c')) (?S + d) n = vram_bytes (put_bytes (?S + b + off) bs (mem (cn_hw c))) (?S + d) n"
    if "d + n \<le> unat (gx_scratch_size (fb_fGpu (cn_fb c)))" for d n
    using m that by (auto simp: vram_bytes_def same_scratch_def add.assoc)
  fix g
  show "buffers mem c' g = ((buffers mem c)(h \<mapsto> splice (the (buffers mem c h)) off bs)) g"
  proof (cases "pool_map ?p g")
    case None
    then show ?thesis using h by (auto simp: buffers_def c')
  next
    case (Some r)
    obtain d n where r: "r = (d, n)" by (cases r)
    note pl = buffer_place [OF ok Some [unfolded r]]
    show ?thesis
    proof (cases "g = h")
      case True
      then have "d = b" "n = k" using h Some r by simp_all
      then show ?thesis using True Some r same [OF pl(2)] vram_bytes_splice [OF off, of "?S + b" "mem (cn_hw c)"]
        by (simp add: buffers_def c')
    next
      case False
      then have "d + n \<le> b \<or> b + k \<le> d" using pool_map_apart [OF inv Some [unfolded r] h] by simp
      then have "?S + d + n \<le> ?S + b + off \<or> ?S + b + off + length bs \<le> ?S + d" using off by linarith
      then show ?thesis using False Some r same [OF pl(2)] vram_bytes_apart [of "?S + d" n "?S + b + off" bs "mem (cn_hw c)"]
        by (simp add: buffers_def c')
    qed
  qed
qed

section \<open>Write and read\<close>

text \<open>The data of a call: a structure in the kernel, or a descriptor of memory of the process.\<close>

definition input_data :: "'w kernel \<Rightarrow> ext_args \<Rightarrow> u8 list \<Rightarrow> bool" where
  "input_data kn args data \<longleftrightarrow> length data < 2 ^ 32 \<and>
     (case ea_structureInput args of
        Some buf \<Rightarrow> buf = data
      | None \<Rightarrow> (case ea_structureInputDescriptor args of
            None \<Rightarrow> False
          | Some md \<Rightarrow> md_gives md data \<and> md_prepare md \<and> kn_IOMalloc kn \<and> md_getLength md = of_nat (length data)))"

lemma and3_iff: "(a :: u64) AND 3 \<noteq> 0 \<longleftrightarrow> \<not> 4 dvd unat a"
  using dvd_mask_iff [of a 2] by (simp add: mask_eq_exp_minus_1)

lemma transfer_ok:
  assumes "conn_ok c" "pool_map (cn_fPool c) h = Some (b, k)" "unat a = b + off" "off + unat n \<le> k"
  shows "a AND 3 \<noteq> 0 \<longleftrightarrow> \<not> 4 dvd off"
    "4 dvd off \<Longrightarrow> gx_ok (fb_fGpu (cn_fb c)) \<Longrightarrow> xfer_ok (cn_fb c) a n"
proof -
  note p = buffer_place [OF assms(1,2)]
  have b: "4 dvd b" using p(3) by (rule dvd_trans [rotated]) simp
  show al: "a AND 3 \<noteq> 0 \<longleftrightarrow> \<not> 4 dvd off" unfolding and3_iff assms(3) using b by (simp add: dvd_add_right_iff)
  show "4 dvd off \<Longrightarrow> gx_ok (fb_fGpu (cn_fb c)) \<Longrightarrow> xfer_ok (cn_fb c) a n"
    using assms p(2) b by (simp add: xfer_ok_def conn_ok_def ctx_ready_def)
qed

lemma same_hw [simp]: "c\<lparr>cn_hw := cn_hw c\<rparr> = c"
  by (cases c) simp

lemma input_bytes:
  assumes "input_data kn args data"
  shows "xfer_bytes (ea_structureInput args) (ea_structureInputDescriptor args) = of_nat (length data)"
    "unat (of_nat (length data) :: u64) = length data" "unat (of_nat (length data) :: u32) = length data"
  using assms by (auto simp: input_data_def xfer_bytes_def unat_of_nat_small split: option.splits)

text \<open>The transfer itself, once the checks are passed.\<close>

definition write_data ::
  "'w kernel \<Rightarrow> ext_args \<Rightarrow> milcorix_fb \<Rightarrow> u64 \<Rightarrow> 'w \<Rightarrow> (IOReturn \<times> 'w) option" where
  "write_data kn args fb a w =
     (case ea_structureInput args of
        Some buf \<Rightarrow> gpuWrite kn fb a buf (of_nat (length buf)) w
      | None \<Rightarrow> (case ea_structureInputDescriptor args of
            Some md \<Rightarrow> write_chunks kn fb md a (md_getLength md) 0 w | None \<Rightarrow> None))"

lemma methodWrite_run:
  assumes "input_data kn args data" "ea_scalarInput args = [h, off]"
  shows "methodWrite kn True args c =
     (if length data = 0 \<or> 4194304 < length data then Some (kIOReturnBadArgument, no_out, c)
      else case resolve_offset c True [h, off] (of_nat (length data)) of
        None \<Rightarrow> Some (kIOReturnBadArgument, no_out, c)
      | Some a \<Rightarrow> if a AND 3 \<noteq> 0 then Some (kIOReturnBadArgument, no_out, c)
          else do { (rc, w) \<leftarrow> write_data kn args (cn_fb c) a (cn_hw c); Some (rc, no_out, c\<lparr>cn_hw := w\<rparr>) })"
proof -
  note n = input_bytes [OF assms(1)]
  have z: "of_nat (length data) = (0 :: u64) \<longleftrightarrow> length data = 0" "of_nat (length data) = (0 :: u32) \<longleftrightarrow> length data = 0"
    "of_nat (length data) > (4 * 1024 * 1024 :: u64) \<longleftrightarrow> 4194304 < length data"
    "ucast (of_nat (length data) :: u32) > (4 * 1024 * 1024 :: u64) \<longleftrightarrow> 4194304 < length data"
    using n(2,3) by (simp_all add: word_unat_eq_iff word_less_nat_alt unat_widen del: of_nat_numeral)
  show ?thesis
  proof (cases "ea_structureInput args")
    case (Some buf)
    then have "buf = data" using assms(1) by (simp add: input_data_def)
    then show ?thesis using Some n(1) z assms(2)
      by (simp add: methodWrite_def write_data_def Let_def xfer_bytes_def split: option.splits)
  next
    case None
    then obtain md where md: "ea_structureInputDescriptor args = Some md" "md_prepare md" "kn_IOMalloc kn"
      "md_getLength md = of_nat (length data)"
      using assms(1) by (auto simp: input_data_def split: option.splits)
    then show ?thesis using None n(1) z(1,3) assms(2)
      by (simp add: methodWrite_def write_data_def Let_def xfer_bytes_def split: option.splits)
  qed
qed

lemma write_data_dead:
  assumes "input_data kn args data" "\<not> gx_ok (fb_fGpu fb)" "fb_fGpuLock fb" "data \<noteq> []"
  shows "write_data kn args fb a w = Some (kIOReturnBadArgument, w)"
proof (cases "ea_structureInput args")
  case (Some buf)
  then show ?thesis using assms(2,3) by (simp add: write_data_def gpuWrite_def gpuWriteLocked_def gpuRegionOk_def)
next
  case None
  then obtain md where md: "ea_structureInputDescriptor args = Some md" "md_gives md data"
    "md_getLength md = of_nat (length data)"
    using assms(1) by (auto simp: input_data_def split: option.splits)
  have n: "unat (of_nat (length data) :: u64) = length data" using input_bytes [OF assms(1)] by simp
  then have lt: "(0 :: u64) < of_nat (length data)" using assms(4) by (simp add: word_less_nat_alt)
  let ?c = "stage_chunk (of_nat (length data)) 0"
  have "unat ?c \<le> length data" using stage_chunk_bounds(3) [OF lt] n by simp
  then have "length (md_readBytes md 0 ?c) = unat ?c" using md(2) by (simp add: md_gives_def)
  then show ?thesis using None md lt assms(2,3)
    by (simp add: write_data_def write_chunks.simps [of kn fb md a _ 0] gpuWrite_def gpuWriteLocked_def gpuRegionOk_def Let_def)
qed

lemma write_data_ok:
  assumes "input_data kn args data" "pramin_dev (kn_io kn) win mem" "xfer_ok fb a (of_nat (length data))"
    "data \<noteq> []" "length data \<le> 4194304"
  shows "\<exists>w'. write_data kn args fb a w = Some (kIOReturnSuccess, w') \<and> mem w' = put_bytes (vram_addr fb a) data (mem w)"
proof (cases "ea_structureInput args")
  case (Some buf)
  then have b: "buf = data" using assms(1) by (simp add: input_data_def)
  note n = input_bytes [OF assms(1)]
  have "gpuRegionOk fb a (of_nat (length data))"
    using assms(3,4) n by (simp add: gpuRegionOk_iff xfer_ok_def)
  then show ?thesis
    using gpuWriteLocked_ok [OF assms(2) _ _ _ _ n(3) [symmetric], of fb a w] Some b assms(3,5) n
    by (simp add: write_data_def gpuWrite_def xfer_ok_def)
next
  case None
  then obtain md where md: "ea_structureInputDescriptor args = Some md" "md_gives md data"
    "md_getLength md = of_nat (length data)"
    using assms(1) by (auto simp: input_data_def split: option.splits)
  note n = input_bytes(2) [OF assms(1)]
  show ?thesis
    using write_chunks_ok [OF assms(2,3), of 0 md w] md(1,2) None n
    by (auto simp: write_data_def md(3))
qed

text \<open>When a write to a buffer is allowed, and what it makes of the store.\<close>

definition write_allowed :: "'w connection \<Rightarrow> u8 list option \<Rightarrow> nat \<Rightarrow> nat \<Rightarrow> bool" where
  "write_allowed c buf off n \<longleftrightarrow> gx_ok (fb_fGpu (cn_fb c)) \<and> 0 < n \<and> n \<le> 4194304 \<and> 4 dvd off
     \<and> (case buf of None \<Rightarrow> False | Some old \<Rightarrow> off + n \<le> length old)"

lemma buffers_Some: "pool_map (cn_fPool c) h = Some (b, k) \<Longrightarrow> \<exists>old. buffers mem c h = Some old \<and> length old = k"
  by (simp add: buffers_def)

lemma transfer_cases:
  assumes ok: "conn_ok c" and n: "unat (of_nat n :: u64) = n"
  obtains
    (refused) "\<not> write_allowed c (buffers mem c h) (unat off) n"
      "n = 0 \<or> 4194304 < n \<or> resolve_offset c True [h, off] (of_nat n) = None
        \<or> (\<exists>a. resolve_offset c True [h, off] (of_nat n) = Some a \<and> a AND 3 \<noteq> 0)"
  | (dead) a where "\<not> write_allowed c (buffers mem c h) (unat off) n" "n \<noteq> 0" "n \<le> 4194304"
      "resolve_offset c True [h, off] (of_nat n) = Some a" "a AND 3 = 0" "\<not> gx_ok (fb_fGpu (cn_fb c))"
  | (go) a b k where "write_allowed c (buffers mem c h) (unat off) n" "n \<noteq> 0" "n \<le> 4194304"
      "resolve_offset c True [h, off] (of_nat n) = Some a" "a AND 3 = 0" "xfer_ok (cn_fb c) a (of_nat n)"
      "pool_map (cn_fPool c) h = Some (b, k)" "unat off + n \<le> k" "unat a = b + unat off"
proof (cases "n = 0 \<or> 4194304 < n \<or> resolve_offset c True [h, off] (of_nat n) = None")
  case True
  have "\<not> write_allowed c (buffers mem c h) (unat off) n"
  proof (cases "n = 0 \<or> 4194304 < n")
    case False
    then have r: "resolve_offset c True [h, off] (of_nat n) = None" using True by blast
    show ?thesis using resolve_None [OF ok r] n False
      by (auto simp: write_allowed_def buffers_def split: option.splits)
  qed (auto simp: write_allowed_def)
  then show ?thesis using refused True by blast
next
  case False
  then obtain a where r: "resolve_offset c True [h, off] (of_nat n) = Some a" by blast
  obtain b k where p: "pool_map (cn_fPool c) h = Some (b, k)" "unat off + n \<le> k" "unat a = b + unat off"
    using resolve_Some [OF ok r] n by auto
  have old: "buffers mem c h \<noteq> None" "length (the (buffers mem c h)) = k" using p(1) by (simp_all add: buffers_def)
  have pn: "unat off + unat (of_nat n :: u64) \<le> k" using p(2) n by simp
  note t = transfer_ok [OF ok p(1,3) pn]
  have al: "write_allowed c (buffers mem c h) (unat off) n \<longleftrightarrow> gx_ok (fb_fGpu (cn_fb c)) \<and> 4 dvd unat off"
    using False old p(2) by (auto simp: write_allowed_def)
  have b: "n \<noteq> 0" "n \<le> 4194304" using False by simp_all
  consider "\<not> 4 dvd unat off" | "4 dvd unat off" "\<not> gx_ok (fb_fGpu (cn_fb c))" | "4 dvd unat off" "gx_ok (fb_fGpu (cn_fb c))"
    by blast
  then show ?thesis
  proof cases
    case 1
    then show ?thesis using refused r t(1) al by blast
  next
    case 2
    then show ?thesis using dead [OF _ b r] t(1) al by blast
  next
    case 3
    then show ?thesis using go [OF _ b r _ t(2) p] t(1) al by blast
  qed
qed

lemma write_buffer_spec:
  assumes ok: "conn_ok c" and dev: "pramin_dev (kn_io kn) win mem"
    and args: "input_data kn args data" "ea_scalarInput args = [h, off]"
  shows "\<exists>rc w'. methodWrite kn True args c = Some (rc, no_out, c\<lparr>cn_hw := w'\<rparr>) \<and>
    (if write_allowed c (buffers mem c h) (unat off) (length data)
     then rc = kIOReturnSuccess \<and> buffers mem (c\<lparr>cn_hw := w'\<rparr>) =
            (buffers mem c)(h \<mapsto> splice (the (buffers mem c h)) (unat off) data)
     else rc = kIOReturnBadArgument \<and> w' = cn_hw c)"
proof -
  have n: "unat (of_nat (length data) :: u64) = length data" by (rule input_bytes(2) [OF args(1)])
  note run = methodWrite_run [OF args]
  have bad: ?thesis if "methodWrite kn True args c = Some (kIOReturnBadArgument, no_out, c)"
    "\<not> write_allowed c (buffers mem c h) (unat off) (length data)"
    by (rule exI [of _ kIOReturnBadArgument], rule exI [of _ "cn_hw c"]) (use that in simp)
  show ?thesis
  proof (cases rule: transfer_cases [OF ok n, of mem h off, case_names refused dead go])
    case refused
    then show ?thesis by (intro bad) (auto simp: run)
  next
    case (dead a)
    then have "write_data kn args (cn_fb c) a (cn_hw c) = Some (kIOReturnBadArgument, cn_hw c)"
      using write_data_dead [OF args(1)] ok by (auto simp: conn_ok_def)
    then show ?thesis using dead by (intro bad) (simp_all add: run)
  next
    case (go a b k)
    obtain w' where w': "write_data kn args (cn_fb c) a (cn_hw c) = Some (kIOReturnSuccess, w')"
      "mem w' = put_bytes (vram_addr (cn_fb c) a) data (mem (cn_hw c))"
      using write_data_ok [OF args(1) dev go(6)] go(2,3) by auto
    have "buffers mem (c\<lparr>cn_hw := w'\<rparr>) = (buffers mem c)(h \<mapsto> splice (the (buffers mem c h)) (unat off) data)"
      by (rule buffers_put [OF ok go(7,8)]) (use go(9) w'(2) in \<open>simp_all add: same_scratch_def\<close>)
    then show ?thesis using go w'(1)
      by (intro exI [of _ kIOReturnSuccess] exI [of _ w']) (simp add: run)
  qed
qed

text \<open>Room for an answer of \<open>n\<close> bytes, and the bytes the process finds there afterwards.\<close>

definition output_room :: "'w kernel \<Rightarrow> u8 list \<Rightarrow> ext_args \<Rightarrow> nat \<Rightarrow> bool" where
  "output_room kn dirty args n \<longleftrightarrow> n < 2 ^ 32 \<and> length dirty = 65536 \<and>
     (case ea_structureOutput args of
        Some buf \<Rightarrow> length buf = n
      | None \<Rightarrow> (case ea_structureOutputDescriptor args of
            None \<Rightarrow> False
          | Some md \<Rightarrow> md_takes md \<and> md_prepare md \<and> kn_IOMalloc kn \<and> md_getLength md = of_nat n))"

definition out_bytes :: "ext_out \<Rightarrow> u8 list" where
  "out_bytes out = eo_structureOutput out @ concat (map snd (eo_written out))"

definition read_data ::
  "'w kernel \<Rightarrow> u8 list \<Rightarrow> ext_args \<Rightarrow> milcorix_fb \<Rightarrow> u64 \<Rightarrow> 'w \<Rightarrow> (IOReturn \<times> ext_out \<times> 'w) option" where
  "read_data kn dirty args fb a w =
     (case ea_structureOutput args of
        Some buf \<Rightarrow> map_option (\<lambda>(rc, b, w). (rc, no_out\<lparr>eo_structureOutput := b\<rparr>, w))
          (gpuRead kn fb a buf (of_nat (length buf)) w)
      | None \<Rightarrow> (case ea_structureOutputDescriptor args of
            Some md \<Rightarrow> map_option (\<lambda>(rc, l, w). (rc, no_out\<lparr>eo_written := l\<rparr>, w))
              (read_chunks kn fb md a (md_getLength md) 0 [] dirty w)
          | None \<Rightarrow> None))"

lemma output_bytes:
  assumes "output_room kn dirty args n"
  shows "xfer_bytes (ea_structureOutput args) (ea_structureOutputDescriptor args) = of_nat n"
    "unat (of_nat n :: u64) = n" "unat (of_nat n :: u32) = n"
  using assms by (auto simp: output_room_def xfer_bytes_def unat_of_nat_small split: option.splits)

lemma methodRead_run:
  assumes "output_room kn dirty args n" "ea_scalarInput args = [h, off]"
  shows "methodRead kn True dirty args c =
     (if n = 0 \<or> 4194304 < n then Some (kIOReturnBadArgument, no_out, c)
      else case resolve_offset c True [h, off] (of_nat n) of
        None \<Rightarrow> Some (kIOReturnBadArgument, no_out, c)
      | Some a \<Rightarrow> if a AND 3 \<noteq> 0 then Some (kIOReturnBadArgument, no_out, c)
          else do { (rc, out, w) \<leftarrow> read_data kn dirty args (cn_fb c) a (cn_hw c); Some (rc, out, c\<lparr>cn_hw := w\<rparr>) })"
proof -
  note u = output_bytes [OF assms(1)]
  have z: "of_nat n = (0 :: u64) \<longleftrightarrow> n = 0" "of_nat n = (0 :: u32) \<longleftrightarrow> n = 0"
    "of_nat n > (4 * 1024 * 1024 :: u64) \<longleftrightarrow> 4194304 < n" "ucast (of_nat n :: u32) > (4 * 1024 * 1024 :: u64) \<longleftrightarrow> 4194304 < n"
    using u(2,3) by (simp_all add: word_unat_eq_iff word_less_nat_alt unat_widen del: of_nat_numeral)
  show ?thesis
  proof (cases "ea_structureOutput args")
    case (Some buf)
    then have "length buf = n" using assms(1) by (simp add: output_room_def)
    then show ?thesis using Some u(1) z assms(2)
      by (simp add: methodRead_def read_data_def Let_def xfer_bytes_def case_prod_beta option.map_comp comp_def
          split: option.splits Option.bind_splits)
  next
    case None
    then obtain md where md: "ea_structureOutputDescriptor args = Some md" "md_prepare md" "kn_IOMalloc kn"
      "md_getLength md = of_nat n"
      using assms(1) by (auto simp: output_room_def split: option.splits)
    then show ?thesis using None u(1) z(1,3) assms(2)
      by (simp add: methodRead_def read_data_def Let_def xfer_bytes_def case_prod_beta
          split: option.splits Option.bind_splits)
  qed
qed

lemma read_data_dead:
  assumes "output_room kn dirty args n" "\<not> gx_ok (fb_fGpu fb)" "fb_fGpuLock fb" "n \<noteq> 0"
  shows "\<exists>out. read_data kn dirty args fb a w = Some (kIOReturnBadArgument, out, w)"
proof (cases "ea_structureOutput args")
  case (Some buf)
  then show ?thesis using assms(2,3) by (simp add: read_data_def gpuRead_def gpuReadLocked_def gpuRegionOk_def)
next
  case None
  then obtain md where md: "ea_structureOutputDescriptor args = Some md" "md_getLength md = of_nat n"
    using assms(1) by (auto simp: output_room_def split: option.splits)
  have lt: "(0 :: u64) < of_nat n" using assms(4) output_bytes(2) [OF assms(1)] by (simp add: word_less_nat_alt)
  then show ?thesis using None md assms(2,3)
    by (simp add: read_data_def read_chunks.simps [of kn fb md a _ 0] gpuRead_def gpuReadLocked_def gpuRegionOk_def Let_def)
qed

lemma read_data_ok:
  assumes "output_room kn dirty args n" "pramin_dev (kn_io kn) win mem" "xfer_ok fb a (of_nat n)" "n \<noteq> 0" "n \<le> 4194304"
  shows "\<exists>out w'. read_data kn dirty args fb a w = Some (kIOReturnSuccess, out, w') \<and> mem w' = mem w
     \<and> out_bytes out = vram_bytes (mem w) (vram_addr fb a) n"
proof (cases "ea_structureOutput args")
  case (Some buf)
  note u = output_bytes [OF assms(1)]
  have l: "length buf = unat (of_nat n :: u32)" using Some assms(1) u(3) by (simp add: output_room_def)
  have "gpuRegionOk fb a (of_nat n)" using assms(3,4) u by (simp add: gpuRegionOk_iff xfer_ok_def)
  then show ?thesis
    using gpuReadLocked_ok [OF assms(2) _ _ _ _ l, of fb a w] Some assms(3,5) u l
    by (auto simp: read_data_def gpuRead_def xfer_ok_def out_bytes_def)
next
  case None
  then obtain md where md: "ea_structureOutputDescriptor args = Some md" "md_takes md" "md_getLength md = of_nat n"
    "length dirty = 65536"
    using assms(1) by (auto simp: output_room_def split: option.splits)
  note u = output_bytes(2) [OF assms(1)]
  show ?thesis
    using read_chunks_ok [OF assms(2,3), of 0 dirty md "[]" w] md None u
    by (auto simp: read_data_def md(3) out_bytes_def)
qed

lemma read_buffer_spec:
  assumes ok: "conn_ok c" and dev: "pramin_dev (kn_io kn) win mem"
    and args: "output_room kn dirty args n" "ea_scalarInput args = [h, off]"
  shows "\<exists>rc out w'. methodRead kn True dirty args c = Some (rc, out, c\<lparr>cn_hw := w'\<rparr>) \<and> mem w' = mem (cn_hw c) \<and>
    (if write_allowed c (buffers mem c h) (unat off) n
     then rc = kIOReturnSuccess \<and> out_bytes out = fld (the (buffers mem c h)) (unat off) n
     else rc = kIOReturnBadArgument \<and> w' = cn_hw c)"
proof -
  note n = output_bytes(2) [OF args(1)] and run = methodRead_run [OF args]
  have bad: ?thesis if "methodRead kn True dirty args c = Some (kIOReturnBadArgument, out, c)"
    "\<not> write_allowed c (buffers mem c h) (unat off) n" for out
    by (rule exI [of _ kIOReturnBadArgument], rule exI [of _ out], rule exI [of _ "cn_hw c"]) (use that in simp)
  show ?thesis
  proof (cases rule: transfer_cases [OF ok n, of mem h off, case_names refused dead go])
    case refused
    then show ?thesis by (intro bad [where out = no_out]) (auto simp: run)
  next
    case (dead a)
    then obtain out where "read_data kn dirty args (cn_fb c) a (cn_hw c) = Some (kIOReturnBadArgument, out, cn_hw c)"
      using read_data_dead [OF args(1)] ok unfolding conn_ok_def by blast
    then show ?thesis using dead by (intro bad [where out = out]) (simp_all add: run)
  next
    case (go a b k)
    obtain out w' where w': "read_data kn dirty args (cn_fb c) a (cn_hw c) = Some (kIOReturnSuccess, out, w')"
      "mem w' = mem (cn_hw c)" "out_bytes out = vram_bytes (mem (cn_hw c)) (vram_addr (cn_fb c) a) n"
      using read_data_ok [OF args(1) dev go(6,2,3), of "cn_hw c"] by blast
    have "vram_bytes (mem (cn_hw c)) (vram_addr (cn_fb c) a) n = fld (the (buffers mem c h)) (unat off) n"
      by (rule nth_equalityI) (use go(7-9) in \<open>simp_all add: buffers_def nth_fld vram_bytes_def add.assoc\<close>)
    then show ?thesis using go w'
      by (intro exI [of _ kIOReturnSuccess] exI [of _ out] exI [of _ w']) (simp add: run)
  qed
qed

section \<open>Copy\<close>

definition copy_allowed :: "'w connection \<Rightarrow> (u64 \<Rightarrow> u8 list option) \<Rightarrow> u64 \<Rightarrow> nat \<Rightarrow> u64 \<Rightarrow> nat \<Rightarrow> nat \<Rightarrow> bool" where
  "copy_allowed c bufs h1 o1 h2 o2 n \<longleftrightarrow> gx_ok (fb_fGpu (cn_fb c)) \<and> 0 < n \<and> n \<le> 4194304
     \<and> (case (bufs h1, bufs h2) of
          (Some x, Some y) \<Rightarrow> o1 + n \<le> length x \<and> o2 + n \<le> length y \<and> (h1 = h2 \<longrightarrow> o1 + n \<le> o2 \<or> o2 + n \<le> o1)
        | _ \<Rightarrow> False)"

lemma conn_ok_after:
  assumes "conn_ok c" "ctx_ready (ctx_after (fb_fGpu (cn_fb c)) p hit)"
  shows "conn_ok (c\<lparr>cn_fb := (cn_fb c)\<lparr>fb_fGpu := ctx_after (fb_fGpu (cn_fb c)) p hit\<rparr>, cn_hw := w\<rparr>)"
  using assms by (simp add: conn_ok_def ctx_after_def)

lemma same_fb [simp]: "c\<lparr>cn_fb := cn_fb c, cn_hw := cn_hw c\<rparr> = c"
  by (cases c) simp

lemma methodCopy_run:
  assumes "ea_scalarInput args = [h1, o1, h2, o2, n]" "1 \<le> ea_scalarOutputCount args"
  shows "methodCopy kn True args c =
     (if n = 0 \<or> 4194304 < unat n then Some (kIOReturnBadArgument, no_out, c)
      else case (resolve_offset c True [h1, o1] n, resolve_offset c True [h2, o2] n) of
        (Some a, Some b) \<Rightarrow>
          let (rc, ns, fb, w) = gpuCopy kn (cn_fb c) a b (ucast n) (cn_hw c)
          in Some (rc, no_out\<lparr>eo_scalarOutput := [ns]\<rparr>, c\<lparr>cn_fb := fb, cn_hw := w\<rparr>)
      | _ \<Rightarrow> Some (kIOReturnBadArgument, no_out, c))"
proof -
  have "resolve_offset c True [h1, o1, h2, o2, n] n = resolve_offset c True [h1, o1] n"
    "resolve_offset c True [h2, o2, n] n = resolve_offset c True [h2, o2] n"
    by (simp_all add: resolve_offset_def)
  moreover have "\<not> ea_scalarOutputCount args < 1" using assms(2) by (simp only: not_less)
  ultimately show ?thesis using assms(1)
    by (simp add: methodCopy_def Let_def word_less_nat_alt [of _ n])
qed

lemma copy_place:
  assumes ok: "conn_ok c" and n: "n \<noteq> 0" "unat n \<le> 4194304"
    and p1: "pool_map (cn_fPool c) h1 = Some (b1, k1)" "unat o1 + unat n \<le> k1" "unat a1 = b1 + unat o1"
    and p2: "pool_map (cn_fPool c) h2 = Some (b2, k2)" "unat o2 + unat n \<le> k2" "unat a2 = b2 + unat o2"
  shows "copy_ok (cn_fb c) a1 a2 (ucast n) \<longleftrightarrow> copy_allowed c (buffers mem c) h1 (unat o1) h2 (unat o2) (unat n)"
proof -
  have u: "unat (ucast n :: u32) = unat n" using n(2) by (intro unat_ucast_small) simp
  have n0: "0 < unat n" using n(1) by (simp add: unat_gt_0)
  have fit: "unat a1 + unat n \<le> unat (gx_scratch_size (fb_fGpu (cn_fb c)))" "unat a2 + unat n \<le> unat (gx_scratch_size (fb_fGpu (cn_fb c)))"
    using buffer_place(2) [OF ok p1(1)] buffer_place(2) [OF ok p2(1)] p1(2,3) p2(2,3) by simp_all
  have apart: "b1 + k1 \<le> b2 \<or> b2 + k2 \<le> b1" if "h1 \<noteq> h2"
    using pool_map_apart [OF _ p1(1) p2(1) that] ok by (simp add: conn_ok_def)
  have same: "b1 = b2" if "h1 = h2" using that p1(1) p2(1) by simp
  have "(unat a1 + unat n \<le> unat a2 \<or> unat a2 + unat n \<le> unat a1) \<longleftrightarrow>
      (h1 = h2 \<longrightarrow> unat o1 + unat n \<le> unat o2 \<or> unat o2 + unat n \<le> unat o1)"
    using apart same p1(2,3) p2(2,3) n0 by (cases "h1 = h2") auto
  then show ?thesis
    using fit n0 n(2) p1 p2 by (simp add: copy_ok_def gpuRegionOk_iff u copy_allowed_def buffers_def)
qed

lemma copy_buffer_spec:
  assumes ok: "conn_ok c" and dev: "pramin_dev (kn_io kn) win mem"
    and args: "ea_scalarInput args = [h1, o1, h2, o2, n]" "1 \<le> ea_scalarOutputCount args"
  shows "\<exists>rc out c'. methodCopy kn True args c = Some (rc, out, c') \<and> conn_ok c' \<and> cn_fPool c' = cn_fPool c
     \<and> cn_fManaged c' = cn_fManaged c \<and> static_ctx (fb_fGpu (cn_fb c')) = static_ctx (fb_fGpu (cn_fb c)) \<and>
    (if copy_allowed c (buffers mem c) h1 (unat o1) h2 (unat o2) (unat n)
     then rc \<in> {kIOReturnSuccess, kIOReturnIOError} \<and> (gx_ok (fb_fGpu (cn_fb c')) \<longleftrightarrow> rc = kIOReturnSuccess) \<and>
       (rc = kIOReturnSuccess \<and> copy_engine (kn_io kn) win mem (fb_fGpu (cn_fb c)) \<longrightarrow>
          buffers mem c' = (buffers mem c)(h2 \<mapsto> splice (the (buffers mem c h2)) (unat o2)
            (fld (the (buffers mem c h1)) (unat o1) (unat n))))
     else rc = kIOReturnBadArgument \<and> c' = c)"
proof -
  note run = methodCopy_run [OF args]
  have bad: ?thesis if "methodCopy kn True args c = Some (kIOReturnBadArgument, out, c)"
    "\<not> copy_allowed c (buffers mem c) h1 (unat o1) h2 (unat o2) (unat n)" for out
    by (rule exI [of _ kIOReturnBadArgument], rule exI [of _ out], rule exI [of _ c]) (use that ok in simp)
  have z: "n = 0 \<longleftrightarrow> unat n = 0" by (simp add: unsigned_eq_0_iff)
  consider "n = 0 \<or> 4194304 < unat n"
    | "n \<noteq> 0" "unat n \<le> 4194304" "resolve_offset c True [h1, o1] n = None \<or> resolve_offset c True [h2, o2] n = None"
    | a1 a2 where "n \<noteq> 0" "unat n \<le> 4194304" "resolve_offset c True [h1, o1] n = Some a1" "resolve_offset c True [h2, o2] n = Some a2"
    by fastforce
  then show ?thesis
  proof cases
    case 1
    then show ?thesis by (intro bad [where out = no_out]) (auto simp: run copy_allowed_def z)
  next
    case 2
    then have "\<not> copy_allowed c (buffers mem c) h1 (unat o1) h2 (unat o2) (unat n)"
      using resolve_None [OF ok, of "[h1, o1]" n] resolve_None [OF ok, of "[h2, o2]" n] z
      by (auto simp: copy_allowed_def buffers_def split: option.splits)
    then show ?thesis using 2 by (intro bad [where out = no_out]) (auto simp: run split: option.splits)
  next
    case (3 a1 a2)
    obtain b1 k1 where p1: "pool_map (cn_fPool c) h1 = Some (b1, k1)" "unat o1 + unat n \<le> k1" "unat a1 = b1 + unat o1"
      using resolve_Some [OF ok 3(3)] by auto
    obtain b2 k2 where p2: "pool_map (cn_fPool c) h2 = Some (b2, k2)" "unat o2 + unat n \<le> k2" "unat a2 = b2 + unat o2"
      using resolve_Some [OF ok 3(4)] by auto
    note al = copy_place [OF ok 3(1,2) p1 p2, of mem]
    have lock: "fb_fGpuLock (cn_fb c)" and ready: "ctx_ready (fb_fGpu (cn_fb c))" using ok by (simp_all add: conn_ok_def)
    have u: "unat (ucast n :: u32) = unat n" using 3(2) by (intro unat_ucast_small) simp
    show ?thesis
    proof (cases "copy_ok (cn_fb c) a1 a2 (ucast n)")
      case False
      then show ?thesis using 3 lock al by (intro bad) (simp_all add: run gpuCopy_cases)
    next
      case True
      let ?g = "fb_fGpu (cn_fb c)"
      obtain rc ns p w' where r: "gpuCopy kn (cn_fb c) a1 a2 (ucast n) (cn_hw c)
          = (rc, ns, (cn_fb c)\<lparr>fb_fGpu := ctx_after ?g p (rc = kIOReturnSuccess)\<rparr>, w')"
        "rc \<in> {kIOReturnSuccess, kIOReturnIOError}" "ctx_ready (ctx_after ?g p (rc = kIOReturnSuccess))"
        "rc = kIOReturnSuccess \<and> copy_engine (kn_io kn) win mem ?g \<longrightarrow> same_scratch ?g (mem w')
           (put_bytes (vram_addr (cn_fb c) a2) (vram_bytes (mem (cn_hw c)) (vram_addr (cn_fb c) a1) (unat n)) (mem (cn_hw c)))"
        using gpuCopy_done [OF ready dev lock True, of "cn_hw c"] unfolding u by blast
      let ?c = "c\<lparr>cn_fb := (cn_fb c)\<lparr>fb_fGpu := ctx_after ?g p (rc = kIOReturnSuccess)\<rparr>, cn_hw := w'\<rparr>"
      have "buffers mem ?c = (buffers mem c)(h2 \<mapsto> splice (the (buffers mem c h2)) (unat o2)
          (fld (the (buffers mem c h1)) (unat o1) (unat n)))"
        if "rc = kIOReturnSuccess" "copy_engine (kn_io kn) win mem ?g"
      proof -
        have "fld (the (buffers mem c h1)) (unat o1) (unat n) = vram_bytes (mem (cn_hw c)) (vram_addr (cn_fb c) a1) (unat n)"
          by (rule nth_equalityI) (use p1 in \<open>simp_all add: buffers_def nth_fld vram_bytes_def add.assoc\<close>)
        then show ?thesis
          by (intro buffers_put [OF ok p2(1)])
            (use r(4) that p2(2,3) in \<open>simp_all add: ctx_after_def add.assoc\<close>)
      qed
      moreover have "gx_ok (fb_fGpu (cn_fb ?c)) \<longleftrightarrow> rc = kIOReturnSuccess"
        using True by (simp add: ctx_after_def copy_ok_def gpuRegionOk_iff)
      moreover have "methodCopy kn True args c = Some (rc, no_out\<lparr>eo_scalarOutput := [ns]\<rparr>, ?c)"
        using 3 r(1) by (simp add: run)
      ultimately show ?thesis using conn_ok_after [OF ok r(3), of w'] r(2) True al
        by (intro exI [of _ rc] exI [of _ "no_out\<lparr>eo_scalarOutput := [ns]\<rparr>"] exI [of _ ?c]) simp
    qed
  qed
qed

section \<open>Allocation\<close>

lemma same_scratch_refl [simp]: "same_scratch g m m"
  by (simp add: same_scratch_def)

lemma same_scratch_trans: "same_scratch g m1 m2 \<Longrightarrow> same_scratch g m2 m3 \<Longrightarrow> same_scratch g m1 m3"
  by (simp add: same_scratch_def)

lemma same_scratch_static: "static_ctx g = static_ctx h \<Longrightarrow> same_scratch g m m' = same_scratch h m m'"
  using static_ctx_fields [of g h] by (simp add: same_scratch_def)

lemma fill_chunk_bounds:
  assumes "filled < bytes" "0 < unat filled"
  shows "0 < unat (fill_chunk bytes filled)" "unat (fill_chunk bytes filled) \<le> unat filled"
    "unat filled + unat (fill_chunk bytes filled) \<le> unat bytes" "unat (fill_chunk bytes filled) \<le> 4194304"
proof -
  have "unat (bytes - filled) = unat bytes - unat filled"
    using assms(1) by (intro unat_sub_small) (simp add: word_less_nat_alt)
  then have u: "unat (fill_chunk bytes filled) = min (min (unat bytes - unat filled) (unat filled)) 4194304"
    by (simp add: fill_chunk_def Let_def word_less_nat_alt min_def)
  show "0 < unat (fill_chunk bytes filled)" "unat (fill_chunk bytes filled) \<le> unat filled"
    "unat filled + unat (fill_chunk bytes filled) \<le> unat bytes" "unat (fill_chunk bytes filled) \<le> 4194304"
    unfolding u using assms by (auto simp: word_less_nat_alt)
qed

text \<open>The copies that clear a resource, each from bytes that are already zero.\<close>

lemma fill_copies_ok:
  assumes dev: "pramin_dev (kn_io kn) win mem" and fit: "unat a + unat bytes \<le> unat (gx_scratch_size (fb_fGpu fb0))"
  shows "ctx_ready (fb_fGpu fb) \<Longrightarrow> fb_fGpuLock fb \<Longrightarrow> gx_ok (fb_fGpu fb) \<Longrightarrow> static_ctx (fb_fGpu fb) = static_ctx (fb_fGpu fb0) \<Longrightarrow>
    0 < unat filled \<Longrightarrow> filled \<le> bytes \<Longrightarrow>
    \<exists>rc g w'. fill_copies kn a bytes filled fb w = Some (rc, fb\<lparr>fb_fGpu := g\<rparr>, w') \<and> ctx_ready g
      \<and> static_ctx g = static_ctx (fb_fGpu fb0) \<and> rc \<in> {kIOReturnSuccess, kIOReturnIOError} \<and> (gx_ok g \<longleftrightarrow> rc = kIOReturnSuccess)
      \<and> (rc = kIOReturnSuccess \<and> copy_engine (kn_io kn) win mem (fb_fGpu fb0)
           \<and> same_scratch (fb_fGpu fb0) (mem w) (put_bytes (vram_addr fb0 a) (replicate (unat filled) 0) m)
         \<longrightarrow> same_scratch (fb_fGpu fb0) (mem w') (put_bytes (vram_addr fb0 a) (replicate (unat bytes) 0) m))"
proof (induction "unat bytes - unat filled" arbitrary: filled fb w rule: less_induct)
  case less
  note sf = static_ctx_fields [OF less.prems(4)]
  show ?case
  proof (cases "filled < bytes")
    case False
    then have "filled = bytes" using less.prems(6) by simp
    then show ?thesis using less.prems(1-4)
      by (subst fill_copies.simps) (auto intro!: exI [of _ kIOReturnSuccess] exI [of _ "fb_fGpu fb"])
  next
    case True
    define c where "c = fill_chunk bytes filled"
    note b = fill_chunk_bounds [OF True less.prems(5), folded c_def]
    have u: "unat (ucast c :: u32) = unat c" using b(4) by (intro unat_ucast_small) simp
    have af: "unat (a + filled) = unat a + unat filled"
      using fit b(3) u64_less [of "gx_scratch_size (fb_fGpu fb0)"] by (subst unat_add_small) simp_all
    have ok: "copy_ok fb a (a + filled) (ucast c)"
      using fit b(1-3) less.prems(3) sf(8) by (simp add: copy_ok_def gpuRegionOk_iff u af)
    let ?g = "fb_fGpu fb"
    obtain rc ns p w1 where r: "gpuCopy kn fb a (a + filled) (ucast c) w
        = (rc, ns, fb\<lparr>fb_fGpu := ctx_after ?g p (rc = kIOReturnSuccess)\<rparr>, w1)"
      "rc \<in> {kIOReturnSuccess, kIOReturnIOError}" "ctx_ready (ctx_after ?g p (rc = kIOReturnSuccess))"
      "rc = kIOReturnSuccess \<and> copy_engine (kn_io kn) win mem ?g \<longrightarrow> same_scratch ?g (mem w1)
         (put_bytes (vram_addr fb (a + filled)) (vram_bytes (mem w) (vram_addr fb a) (unat (ucast c :: u32))) (mem w))"
      using gpuCopy_done [OF less.prems(1) dev less.prems(2) ok, of w] by blast
    have un: "fill_copies kn a bytes filled fb w =
        (if rc = kIOReturnSuccess then fill_copies kn a bytes (filled + c) (fb\<lparr>fb_fGpu := ctx_after ?g p True\<rparr>) w1
         else Some (rc, fb\<lparr>fb_fGpu := ctx_after ?g p False\<rparr>, w1))"
      using True r(1) by (subst fill_copies.simps) (simp add: c_def [symmetric] Let_def)
    show ?thesis
    proof (cases "rc = kIOReturnSuccess")
      case False
      then show ?thesis using r(2,3) less.prems(4) unfolding un
        by (auto simp: ctx_after_def static_ctx_def intro!: exI [of _ rc] exI [of _ "ctx_after ?g p False"])
    next
      case rc: True
      let ?fb = "fb\<lparr>fb_fGpu := ctx_after ?g p True\<rparr>"
      have fc: "unat (filled + c) = unat filled + unat c" using b(3) u64_less [of bytes] by (subst unat_add_small) simp_all
      have m1: "same_scratch (fb_fGpu fb0) (mem w1) (put_bytes (vram_addr fb0 a) (replicate (unat (filled + c)) 0) m)"
        if ce: "copy_engine (kn_io kn) win mem (fb_fGpu fb0)"
          and s: "same_scratch (fb_fGpu fb0) (mem w) (put_bytes (vram_addr fb0 a) (replicate (unat filled) 0) m)"
      proof -
        let ?A = "vram_addr fb0 a" and ?z = "put_bytes (vram_addr fb0 a) (replicate (unat filled) 0) m"
        have ce': "copy_engine (kn_io kn) win mem ?g" using ce by (simp only: copy_engine_static [OF less.prems(4)])
        have g: "same_scratch (fb_fGpu fb0) (mem w1) (put_bytes (?A + unat filled) (vram_bytes (mem w) ?A (unat c)) (mem w))"
          using r(4) rc ce' same_scratch_static [OF less.prems(4)] sf(7) by (simp add: u af add.assoc)
        have "same_scratch (fb_fGpu fb0) (put_bytes (?A + unat filled) (vram_bytes (mem w) ?A (unat c)) (mem w))
            (put_bytes (?A + unat filled) (vram_bytes ?z ?A (unat c)) ?z)"
          by (rule same_scratch_put [OF s]) (use fit b(2,3) in simp_all)
        moreover have "vram_bytes ?z ?A (unat c) = replicate (unat c) 0"
          by (rule nth_equalityI) (use b(2) in \<open>simp_all add: vram_bytes_def byte_at_put\<close>)
        moreover have "put_bytes (?A + unat filled) (replicate (unat c) 0) ?z = put_bytes ?A (replicate (unat (filled + c)) 0) m"
          using put_bytes_append [of ?A "replicate (unat filled) 0" "replicate (unat c) 0" m] by (simp add: fc replicate_add)
        ultimately show ?thesis using same_scratch_trans [OF g] by simp
      qed
      have d: "unat bytes - unat (filled + c) < unat bytes - unat filled" "0 < unat (filled + c)" "filled + c \<le> bytes"
        using True b by (simp_all add: fc word_less_nat_alt word_le_nat_alt)
      have gok: "gx_ok (ctx_after ?g p True)" using less.prems(3) by (simp add: ctx_after_def)
      have pre: "ctx_ready (fb_fGpu ?fb)" "fb_fGpuLock ?fb" "gx_ok (fb_fGpu ?fb)"
        "static_ctx (fb_fGpu ?fb) = static_ctx (fb_fGpu fb0)"
        using r(3) rc less.prems(2,4) gok by simp_all
      obtain rc2 g w2 where q: "fill_copies kn a bytes (filled + c) ?fb w1 = Some (rc2, ?fb\<lparr>fb_fGpu := g\<rparr>, w2)" "ctx_ready g"
        "static_ctx g = static_ctx (fb_fGpu fb0)" "rc2 \<in> {kIOReturnSuccess, kIOReturnIOError}" "gx_ok g \<longleftrightarrow> rc2 = kIOReturnSuccess"
        "rc2 = kIOReturnSuccess \<and> copy_engine (kn_io kn) win mem (fb_fGpu fb0)
           \<and> same_scratch (fb_fGpu fb0) (mem w1) (put_bytes (vram_addr fb0 a) (replicate (unat (filled + c)) 0) m)
         \<longrightarrow> same_scratch (fb_fGpu fb0) (mem w2) (put_bytes (vram_addr fb0 a) (replicate (unat bytes) 0) m)"
        using less.hyps [OF d(1) pre d(2,3), of w1] by auto
      show ?thesis
        by (rule exI [of _ rc2], rule exI [of _ g], rule exI [of _ w2], intro conjI impI)
          (use q m1 rc in \<open>simp_all add: un\<close>)
    qed
  qed
qed

lemma clear_resource_ok:
  assumes dev: "pramin_dev (kn_io kn) win mem" and fb: "ctx_ready (fb_fGpu fb)" "fb_fGpuLock fb" "gx_ok (fb_fGpu fb)"
    and fit: "unat a + unat bytes \<le> unat (gx_scratch_size (fb_fGpu fb))" "4096 \<le> unat bytes" "4 dvd unat a"
  shows "\<exists>rc g w'. clear_resource kn a bytes fb w = Some (rc, fb\<lparr>fb_fGpu := g\<rparr>, w') \<and> ctx_ready g
      \<and> static_ctx g = static_ctx (fb_fGpu fb)
      \<and> (rc = kIOReturnSuccess \<and> copy_engine (kn_io kn) win mem (fb_fGpu fb)
         \<longrightarrow> same_scratch (fb_fGpu fb) (mem w') (put_bytes (vram_addr fb a) (replicate (unat bytes) 0) (mem w)))"
proof (cases "kn_IOMalloc kn")
  case False
  then show ?thesis using fb
    by (auto simp: clear_resource_def intro!: exI [of _ kIOReturnNoMemory] exI [of _ "fb_fGpu fb"])
next
  case True
  have pl: "scratch_placed (fb_fGpu fb)" using fb(1) by (simp add: ctx_ready_def)
  have r: "gpuRegionOk fb a 4096" using fb(3) fit(1,2) by (simp add: gpuRegionOk_iff)
  obtain w1 where w1: "gpuWriteLocked kn fb a (replicate 4096 0) 4096 w = Some (kIOReturnSuccess, w1)"
    "mem w1 = put_bytes (vram_addr fb a) (replicate 4096 0) (mem w)"
    using gpuWriteLocked_ok [OF dev pl r fit(3), of "replicate 4096 0" w] by auto
  have "(4096 :: u64) \<le> bytes" using fit(2) by (simp add: word_le_nat_alt)
  then obtain rc g w' where q: "fill_copies kn a bytes 4096 fb w1 = Some (rc, fb\<lparr>fb_fGpu := g\<rparr>, w')" "ctx_ready g"
    "static_ctx g = static_ctx (fb_fGpu fb)"
    "rc = kIOReturnSuccess \<and> copy_engine (kn_io kn) win mem (fb_fGpu fb)
       \<and> same_scratch (fb_fGpu fb) (mem w1) (put_bytes (vram_addr fb a) (replicate (unat (4096 :: u64)) 0) (mem w))
     \<longrightarrow> same_scratch (fb_fGpu fb) (mem w') (put_bytes (vram_addr fb a) (replicate (unat bytes) 0) (mem w))"
    using fill_copies_ok [OF dev fit(1) fb(1,2,3) refl, of 4096 w1 "mem w"] by auto
  have "clear_resource kn a bytes fb w = Some (rc, fb\<lparr>fb_fGpu := g\<rparr>, w')"
    using True w1(1) q(1) fb(2) by (simp add: clear_resource_def gpuWrite_def)
  then show ?thesis using q(2-4) w1(2)
    by (intro exI [of _ rc] exI [of _ g] exI [of _ w']) simp
qed

lemma round_page:
  assumes "roundup 4096 (unat b) < 2 ^ 64"
  shows "unat ((b + 4095) AND NOT 4095 :: u64) = roundup 4096 (unat b)"
proof -
  have "unat b + (2 ^ 12 - 1) < 2 ^ 64"
  proof (rule ccontr)
    assume "\<not> unat b + (2 ^ 12 - 1) < 2 ^ 64"
    then have "2 ^ 64 - 4095 \<le> unat b" by simp
    moreover have "unat b \<le> roundup 4096 (unat b)" by (rule roundup_ge) simp
    moreover obtain q where "roundup 4096 (unat b) = 4096 * q" using roundup_dvd [of 4096 "unat b"] unfolding dvd_def by blast
    ultimately show False using assms by simp
  qed
  moreover have e: "b + 4096 - 1 = b + 4095" "(4096 :: u64) - 1 = 4095" by simp_all
  ultimately show ?thesis using unat_align_up [of "4096 :: u64" 12 b, unfolded e] by simp
qed

lemma conn_ok_pool:
  assumes "conn_ok c" "pool_inv p" "pl_phys p = pl_phys (cn_fPool c)" "pl_va p = pl_va (cn_fPool c)"
    "pl_size p = pl_size (cn_fPool c)" "static_ctx (fb_fGpu fb) = static_ctx (fb_fGpu (cn_fb c))" "ctx_ready (fb_fGpu fb)"
    "fb_fGpuLock fb"
  shows "conn_ok (c\<lparr>cn_fPool := p, cn_fb := fb, cn_hw := w, cn_fManaged := mg\<rparr>)"
  using assms static_ctx_fields [OF assms(6)] by (simp add: conn_ok_def)

text \<open>A handle that was just given out, resolved at its start.\<close>

lemma resolve_new:
  assumes "pool_inv p" "pl_phys p = 0" "pool_map p h = Some (b, n)" "unat bytes = n" "0 < n"
  shows "\<exists>a va. nv_vram_resolve p h 0 bytes = (0, a, va) \<and> unat a = b"
  using resolve_spec [OF assms(1), where h = h and off = 0 and n = bytes] assms(2-5)
  by (auto split: prod.splits)

lemma alloc_placed:
  assumes "pool_inv p" "nv_vram_alloc p b al = Some (0, h, p')"
  shows "\<exists>a. pool_inv p' \<and> pool_map p h = None \<and> pool_map p' = (pool_map p)(h \<mapsto> (a, roundup 4096 (unat b)))
     \<and> pl_phys p' = pl_phys p \<and> pl_va p' = pl_va p \<and> pl_size p' = pl_size p"
  using alloc_spec [OF assms(1), of b al] assms(2) by (auto simp: alloc_contract_def Let_def)

lemma alloc_refused:
  assumes "pool_inv p" "nv_vram_alloc p b al = Some (rc, h, p')" "rc \<noteq> 0"
  shows "p' = p"
  using alloc_spec [OF assms(1), of b al] assms(2,3) by (auto simp: alloc_contract_def Let_def)

lemma alloc_buffer_spec:
  assumes ok: "conn_ok c" and dev: "pramin_dev (kn_io kn) win mem"
    and args: "ea_scalarInput args = [b, al]" "2 \<le> ea_scalarOutputCount args"
  shows "\<exists>rc out c'. methodAlloc kn args c = Some (rc, out, c') \<and> conn_ok c' \<and> fb_fGpuClients (cn_fb c') = fb_fGpuClients (cn_fb c)
     \<and> static_ctx (fb_fGpu (cn_fb c')) = static_ctx (fb_fGpu (cn_fb c))
     \<and> (rc \<noteq> kIOReturnSuccess \<longrightarrow> pool_map (cn_fPool c') = pool_map (cn_fPool c) \<and> cn_fManaged c' = cn_fManaged c)
     \<and> (rc = kIOReturnSuccess \<longrightarrow> (\<exists>h. eo_scalarOutput out = [h, of_nat (roundup 4096 (unat b))]
          \<and> buffers mem c h = None \<and> roundup 4096 (unat b) < 2 ^ 64 \<and> cn_fManaged c'
          \<and> (copy_engine (kn_io kn) win mem (fb_fGpu (cn_fb c)) \<longrightarrow>
               buffers mem c' = (buffers mem c)(h \<mapsto> replicate (roundup 4096 (unat b)) 0))))"
proof -
  let ?p = "cn_fPool c" and ?n = "roundup 4096 (unat b)" and ?g = "fb_fGpu (cn_fb c)"
  have inv: "pool_inv ?p" using ok by (simp add: conn_ok_def)
  have cnt: "\<not> ea_scalarOutputCount args < 2" using args(2) by (simp only: not_less)
  obtain err h p' where al: "nv_vram_alloc ?p b al = Some (err, h, p')" using alloc_spec [OF inv] by blast
  consider "\<not> gpuPoolVerified (cn_fb c)" | "gpuPoolVerified (cn_fb c)" "err \<noteq> 0" | "gpuPoolVerified (cn_fb c)" "err = 0" by blast
  then show ?thesis
  proof cases
    case 1
    then have "methodAlloc kn args c = Some (kIOReturnNotReady, no_out, c)" using args(1) cnt by (simp add: methodAlloc_def)
    then show ?thesis using ok by auto
  next
    case 2
    then have p': "p' = ?p" using alloc_refused [OF inv al] by simp
    have same: "c\<lparr>cn_fPool := cn_fPool c\<rparr> = c" by (cases c) simp
    have "methodAlloc kn args c = Some (if err = -2 then kIOReturnNoMemory else kIOReturnBadArgument,
        no_out\<lparr>eo_scalarOutput := [0, 0]\<rparr>, c)"
      using 2 args(1) cnt al by (simp add: methodAlloc_def p' same)
    then show ?thesis using ok by (auto split: if_splits)
  next
    case 3
    obtain a where a: "pool_inv p'" "pool_map ?p h = None" "pool_map p' = (pool_map ?p)(h \<mapsto> (a, ?n))"
      "pl_phys p' = pl_phys ?p" "pl_va p' = pl_va ?p" "pl_size p' = pl_size ?p"
      using alloc_placed [OF inv al [unfolded 3(2)]] by blast
    define bb where "bb = (b + 4095) AND NOT 4095"
    let ?c1 = "c\<lparr>cn_fPool := p'\<rparr>"
    have ok1: "conn_ok ?c1" using ok a(1,4-6) by (simp add: conn_ok_def)
    have ph: "pool_map (cn_fPool ?c1) h = Some (a, ?n)" by (simp add: a(3))
    note pl = buffer_place [OF ok1 ph]
    have n64: "?n < 2 ^ 64" using pl(2) u64_less [of "gx_scratch_size ?g"] by simp
    have ub: "unat bb = ?n" unfolding bb_def by (rule round_page [OF n64])
    have p0: "pl_phys p' = 0" and ph': "pool_map p' h = Some (a, ?n)" using ok a(4) ph by (simp_all add: conn_ok_def)
    obtain off va where res: "nv_vram_resolve p' h 0 bb = (0, off, va)" "unat off = a"
      using resolve_new [OF a(1) p0 ph' ub pl(1)] by blast
    have "4096 dvd ?n" by (rule roundup_dvd)
    then have n4: "4096 \<le> unat bb" unfolding ub using pl(1) by (rule dvd_imp_le)
    have a4: "4 dvd unat off" unfolding res(2) using pl(3) by (rule dvd_trans [rotated]) simp
    have gok: "gx_ok ?g" using 3(1) by (simp add: gpuPoolVerified_def)
    have rdy: "ctx_ready ?g" "fb_fGpuLock (cn_fb c)" using ok by (simp_all add: conn_ok_def)
    have fit: "unat off + unat bb \<le> unat (gx_scratch_size ?g)" using pl(2) by (simp add: res(2) ub)
    obtain rc g w' where cl: "clear_resource kn off bb (cn_fb c) (cn_hw c) = Some (rc, (cn_fb c)\<lparr>fb_fGpu := g\<rparr>, w')" "ctx_ready g"
      "static_ctx g = static_ctx ?g"
      "rc = kIOReturnSuccess \<and> copy_engine (kn_io kn) win mem ?g
         \<longrightarrow> same_scratch ?g (mem w') (put_bytes (vram_addr (cn_fb c) off) (replicate (unat bb) 0) (mem (cn_hw c)))"
      using clear_resource_ok [OF dev rdy gok fit n4 a4, of "cn_hw c"] by blast
    let ?fb = "(cn_fb c)\<lparr>fb_fGpu := g\<rparr>"
    show ?thesis
    proof (cases "rc = kIOReturnSuccess")
      case True
      let ?c' = "?c1\<lparr>cn_fb := ?fb, cn_hw := w', cn_fManaged := True\<rparr>"
      have run: "methodAlloc kn args c = Some (kIOReturnSuccess, no_out\<lparr>eo_scalarOutput := [h, bb]\<rparr>, ?c')"
        using 3 args(1) cnt al res(1) cl(1) True by (simp add: methodAlloc_def Let_def bb_def)
      have ok': "conn_ok ?c'"
        using conn_ok_pool [OF ok a(1,4-6), where fb = ?fb and w = w' and mg = True] cl(2,3) rdy(2) by simp
      have hb: "buffers mem c h = None" using a(2) by (simp add: buffers_def)
      have bn: "bb = of_nat ?n" using ub by (metis of_nat_unat ucast_id)
      have "buffers mem ?c' = (buffers mem c)(h \<mapsto> replicate ?n 0)" if ce: "copy_engine (kn_io kn) win mem ?g"
      proof -
        have s: "gx_scratch_phys g = gx_scratch_phys ?g" using static_ctx_fields [OF cl(3)] by simp
        have "buffers mem ?c' = (buffers mem ?c1)(h \<mapsto> splice (the (buffers mem ?c1 h)) 0 (replicate ?n 0))"
          by (rule buffers_put [OF ok1 ph]) (use cl(4) True ce res(2) ub s in \<open>simp_all\<close>)
        moreover have "splice (the (buffers mem ?c1 h)) 0 (replicate ?n 0) = replicate ?n 0"
          by (simp add: splice_def buffers_def a(3))
        moreover have "(buffers mem ?c1)(h \<mapsto> x) = (buffers mem c)(h \<mapsto> x)" for x
          by (auto simp: buffers_def a(3))
        ultimately show ?thesis by simp
      qed
      then show ?thesis using run ok' hb n64 bn cl(3)
        by (intro exI [of _ kIOReturnSuccess] exI [of _ "no_out\<lparr>eo_scalarOutput := [h, bb]\<rparr>"] exI [of _ ?c']) simp
    next
      case False
      let ?p2 = "snd (nv_vram_free p' h)"
      let ?c' = "?c1\<lparr>cn_fb := ?fb, cn_hw := w', cn_fPool := ?p2\<rparr>"
      have f: "pool_inv ?p2" "pool_map ?p2 = pool_map ?p" "pl_phys ?p2 = pl_phys p'" "pl_va ?p2 = pl_va p'" "pl_size ?p2 = pl_size p'"
        using free_spec [OF a(1), of h] a(2,3) by (auto split: prod.splits)
      have run: "methodAlloc kn args c = Some (rc, no_out\<lparr>eo_scalarOutput := [0, 0]\<rparr>, ?c')"
        using 3 args(1) cnt al res(1) cl(1) False by (simp add: methodAlloc_def Let_def bb_def)
      have "conn_ok ?c'"
        using conn_ok_pool [OF ok f(1), where fb = ?fb and w = w' and mg = "cn_fManaged c"] f(3-5) a(4-6) cl(2,3) rdy(2) by (simp add: conn_ok_def)
      then show ?thesis using run f(2) False cl(3) by auto
    qed
  qed
qed

section \<open>Free\<close>

lemma free_buffer_spec:
  assumes ok: "conn_ok c" and args: "ea_scalarInput args = [h]"
  shows "\<exists>rc c'. methodFree args c = Some (rc, no_out, c') \<and> conn_ok c' \<and> cn_fManaged c' = cn_fManaged c \<and> cn_fb c' = cn_fb c \<and> cn_hw c' = cn_hw c \<and>
     (if buffers mem c h = None then rc = kIOReturnBadArgument \<and> c' = c
      else rc = kIOReturnSuccess \<and> buffers mem c' = (buffers mem c)(h := None))"
proof -
  let ?p = "cn_fPool c"
  have inv: "pool_inv ?p" using ok by (simp add: conn_ok_def)
  obtain rc p' where f: "nv_vram_free ?p h = (rc, p')" by (cases "nv_vram_free ?p h")
  have run: "methodFree args c = Some (if rc \<noteq> 0 then kIOReturnBadArgument else kIOReturnSuccess, no_out, c\<lparr>cn_fPool := p'\<rparr>)"
    using args f by (simp add: methodFree_def)
  have same: "c\<lparr>cn_fPool := cn_fPool c\<rparr> = c" by (cases c) simp
  show ?thesis
  proof (cases "pool_map ?p h")
    case None
    then have "rc = -1" "p' = ?p" using free_spec [OF inv, of h] f by simp_all
    then show ?thesis using run same ok None by (simp add: buffers_def)
  next
    case (Some x)
    then have p': "rc = 0" "pool_inv p'" "pool_map p' = (pool_map ?p)(h := None)" "pl_phys p' = pl_phys ?p" "pl_va p' = pl_va ?p"
      "pl_size p' = pl_size ?p"
      using free_spec [OF inv, of h] f by simp_all
    then have "conn_ok (c\<lparr>cn_fPool := p'\<rparr>)" using ok by (simp add: conn_ok_def)
    moreover have "buffers mem (c\<lparr>cn_fPool := p'\<rparr>) = (buffers mem c)(h := None)" by (auto simp: buffers_def p'(3))
    ultimately show ?thesis using run p'(1) Some by (simp add: buffers_def)
  qed
qed

end
