(* ===== verification/ClientSession.thy ===== *)
theory ClientSession
  imports ClientStore
begin

text \<open>
  The boundary as a whole: every call of a process returns, stays inside the scratch area and keeps the invariant
  of the connection; a session is any sequence of opens, calls and closes.
\<close>

section \<open>Calls with any arguments\<close>

text \<open>\<open>outside_same\<close>: no byte outside the scratch area has changed.\<close>

definition outside_same :: "nv_gsp_gpu_ctx \<Rightarrow> (nat \<Rightarrow> u32) \<Rightarrow> (nat \<Rightarrow> u32) \<Rightarrow> bool" where
  "outside_same gpu m m' \<longleftrightarrow> (\<forall>b. b < unat (gx_scratch_phys gpu)
     \<or> unat (gx_scratch_phys gpu) + unat (gx_scratch_size gpu) \<le> b \<longrightarrow> byte_at m' b = byte_at m b)"

lemma outside_same_refl [simp]: "outside_same gpu m m"
  by (simp add: outside_same_def)

lemma outside_same_trans: "outside_same gpu m1 m2 \<Longrightarrow> outside_same gpu m2 m3 \<Longrightarrow> outside_same gpu m1 m3"
  by (simp add: outside_same_def)

lemma dvd4_add: "4 dvd unat (a :: u64) \<Longrightarrow> 4 dvd unat d \<Longrightarrow> 4 dvd unat (a + d)"
proof -
  assume "4 dvd unat a" "4 dvd unat d"
  then have "4 dvd (unat a + unat d) mod 2 ^ LENGTH(64)" by (intro dvd_mod dvd_add) simp_all
  then show ?thesis by (simp only: unat_word_ariths)
qed

lemma gpuWrite_total:
  assumes dev: "pramin_dev (kn_io kn) win mem" and pl: "scratch_placed (fb_fGpu fb)"
    and a: "4 dvd unat a" and len: "unat len + 4 < 2 ^ 32" "length src = unat len"
  shows "\<exists>rc w'. gpuWrite kn fb a src len w = Some (rc, w') \<and> outside_same (fb_fGpu fb) (mem w) (mem w')"
proof (cases "fb_fGpuLock fb \<and> gpuRegionOk fb a len")
  case True
  obtain w' where w': "gpuWriteLocked kn fb a src len w = Some (kIOReturnSuccess, w')"
    "mem w' = put_bytes (vram_addr fb a) src (mem w)"
    using gpuWriteLocked_ok [OF dev pl _ a len] True by blast
  have "outside_same (fb_fGpu fb) (mem w) (mem w')"
    using True len(2) unfolding w'(2) gpuRegionOk_iff by (auto simp: outside_same_def byte_at_put)
  then show ?thesis using w'(1) True by (simp add: gpuWrite_def)
qed (auto simp: gpuWrite_def gpuWriteLocked_def)

lemma gpuRead_total:
  assumes dev: "pramin_dev (kn_io kn) win mem" and pl: "scratch_placed (fb_fGpu fb)"
    and a: "4 dvd unat a" and len: "unat len + 4 < 2 ^ 32" "length dst = unat len"
  shows "\<exists>rc d w'. gpuRead kn fb a dst len w = Some (rc, d, w') \<and> mem w' = mem w \<and> length d = unat len"
proof (cases "fb_fGpuLock fb \<and> gpuRegionOk fb a len")
  case True
  then show ?thesis using gpuReadLocked_ok [OF dev pl _ a len, of w] by (auto simp: gpuRead_def)
qed (use len in \<open>auto simp: gpuRead_def gpuReadLocked_def\<close>)

text \<open>The chunks of a transfer, wherever it is asked to go.\<close>

lemma chunk_step:
  assumes "done < amount" "65536 dvd unat done" "4 dvd unat a"
  defines "c \<equiv> stage_chunk amount done"
  shows "4 dvd unat (a + done)" "unat c + 4 < 2 ^ 32" "done + ucast c \<le> amount"
    "done + ucast c < amount \<Longrightarrow> 65536 dvd unat (done + ucast c) \<and> unat c = 65536"
    "unat amount - unat (done + ucast c) < unat amount - unat done"
proof -
  note b = stage_chunk_bounds [OF assms(1), folded c_def]
  have lt: "unat done < unat amount" using assms(1) by (simp add: word_less_nat_alt)
  have u: "unat (done + ucast c) = unat done + unat c"
    using b(3) lt u64_less [of amount] by (subst unat_add_small) (simp_all add: unat_widen)
  have "(4 :: nat) dvd 65536" by simp
  then show "4 dvd unat (a + done)" using assms(3) dvd_trans [OF _ assms(2)] by (intro dvd4_add)
  show "unat c + 4 < 2 ^ 32" using b(2) by simp
  show "done + ucast c \<le> amount" using b(3) lt by (simp add: word_le_nat_alt u)
  show "done + ucast c < amount \<Longrightarrow> 65536 dvd unat (done + ucast c) \<and> unat c = 65536"
    using b(4) assms(2) by (auto simp: word_less_nat_alt u)
  show "unat amount - unat (done + ucast c) < unat amount - unat done" using b(1) lt by (simp add: u)
qed

lemma write_chunks_total:
  assumes dev: "pramin_dev (kn_io kn) win mem" and pl: "scratch_placed (fb_fGpu fb)" and a: "4 dvd unat a"
  shows "(done < amount \<Longrightarrow> 65536 dvd unat done) \<Longrightarrow>
    \<exists>rc w'. write_chunks kn fb md a amount done w = Some (rc, w') \<and> outside_same (fb_fGpu fb) (mem w) (mem w')"
proof (induction "unat amount - unat done" arbitrary: "done" w rule: less_induct)
  case less
  show ?case
  proof (cases "done < amount")
    case False
    then show ?thesis by (subst write_chunks.simps) simp
  next
    case True
    let ?c = "stage_chunk amount done" and ?s = "md_readBytes md done (stage_chunk amount done)"
    note st = chunk_step [OF True less.prems [OF True] a]
    show ?thesis
    proof (cases "length ?s = unat ?c")
      case False
      then show ?thesis using True by (subst write_chunks.simps) (simp add: Let_def)
    next
      case len: True
      obtain rc w1 where w1: "gpuWrite kn fb (a + done) ?s ?c w = Some (rc, w1)" "outside_same (fb_fGpu fb) (mem w) (mem w1)"
        using gpuWrite_total [OF dev pl st(1,2) len] by blast
      show ?thesis
      proof (cases "rc = kIOReturnSuccess")
        case False
        then show ?thesis using True len w1 by (subst write_chunks.simps) (simp add: Let_def)
      next
        case rc: True
        have al: "done + ucast ?c < amount \<Longrightarrow> 65536 dvd unat (done + ucast ?c)" using st(4) by blast
        obtain rc' w' where "write_chunks kn fb md a amount (done + ucast ?c) w1 = Some (rc', w')"
          "outside_same (fb_fGpu fb) (mem w1) (mem w')"
          using less.hyps [OF st(5) al, of w1] by blast
        then show ?thesis using True len w1(1) rc outside_same_trans [OF w1(2)]
          by (subst write_chunks.simps) (simp add: Let_def)
      qed
    qed
  qed
qed

lemma read_chunks_total:
  assumes dev: "pramin_dev (kn_io kn) win mem" and pl: "scratch_placed (fb_fGpu fb)" and a: "4 dvd unat a"
  shows "(done < amount \<Longrightarrow> 65536 dvd unat done) \<Longrightarrow> (done < amount \<Longrightarrow> length stage = 65536) \<Longrightarrow>
    \<exists>rc out' w'. read_chunks kn fb md a amount done out stage w = Some (rc, out', w') \<and> mem w' = mem w"
proof (induction "unat amount - unat done" arbitrary: "done" stage out w rule: less_induct)
  case less
  show ?case
  proof (cases "done < amount")
    case False
    then show ?thesis by (subst read_chunks.simps) simp
  next
    case True
    let ?c = "stage_chunk amount done"
    note st = chunk_step [OF True less.prems(1) [OF True] a]
    have "length (take (unat ?c) stage) = unat ?c"
      using less.prems(2) [OF True] stage_chunk_bounds(2) [OF True] by simp
    then obtain rc s1 w1 where w1: "gpuRead kn fb (a + done) (take (unat ?c) stage) ?c w = Some (rc, s1, w1)"
      "mem w1 = mem w" "length s1 = unat ?c"
      using gpuRead_total [OF dev pl st(1,2)] by blast
    show ?thesis
    proof (cases "rc = kIOReturnSuccess \<and> md_writeBytes md done s1 = ucast ?c")
      case False
      then show ?thesis using True w1(1,2) by (subst read_chunks.simps) (auto simp: Let_def)
    next
      case go: True
      have al: "done + ucast ?c < amount \<Longrightarrow> 65536 dvd unat (done + ucast ?c)"
        "done + ucast ?c < amount \<Longrightarrow> length s1 = 65536" using st(4) w1(3) by auto
      obtain rc' out' w' where "read_chunks kn fb md a amount (done + ucast ?c) (out @ [(done, s1)]) s1 w1 = Some (rc', out', w')"
        "mem w' = mem w1"
        using less.hyps [OF st(5) al, where w = w1 and out = "out @ [(done, s1)]"] by blast
      then show ?thesis using True go w1(1,2) by (subst read_chunks.simps) (simp add: Let_def)
    qed
  qed
qed

section \<open>Every method returns\<close>

text \<open>The sizes of the structures fit the 32-bit counts; the staging buffer has its size.\<close>

definition args_ok :: "u8 list \<Rightarrow> ext_args \<Rightarrow> bool" where
  "args_ok dirty args \<longleftrightarrow> length dirty = 65536
     \<and> (case ea_structureInput args of None \<Rightarrow> True | Some b \<Rightarrow> length b < 2 ^ 32)
     \<and> (case ea_structureOutput args of None \<Rightarrow> True | Some b \<Rightarrow> length b < 2 ^ 32)"

lemma small_buffer:
  assumes "length (b :: u8 list) < 2 ^ 32" "\<not> ucast (of_nat (length b) :: u32) > (4 * 1024 * 1024 :: u64)"
  shows "unat (of_nat (length b) :: u32) = length b" "unat (of_nat (length b) :: u32) + 4 < 2 ^ 32"
proof -
  show u: "unat (of_nat (length b) :: u32) = length b" using assms(1) by (intro unat_of_nat_small) simp
  show "unat (of_nat (length b) :: u32) + 4 < 2 ^ 32" using assms(2) u by (simp add: word_less_nat_alt unat_widen)
qed

lemma conn_parts:
  assumes "conn_ok c"
  shows "scratch_placed (fb_fGpu (cn_fb c))" "ctx_ready (fb_fGpu (cn_fb c))" "fb_fGpuLock (cn_fb c)"
    "conn_ok (c\<lparr>cn_hw := w\<rparr>)"
  using assms by (simp_all add: conn_ok_def ctx_ready_def)

lemma methodWrite_cases:
  obtains (refused) rc where "methodWrite kn r args c = Some (rc, no_out, c)"
  | (struct) a buf where "ea_structureInput args = Some buf" "4 dvd unat a" "\<not> ucast (of_nat (length buf) :: u32) > (4 * 1024 * 1024 :: u64)"
      "methodWrite kn r args c = do { (rc, w) \<leftarrow> gpuWrite kn (cn_fb c) a buf (of_nat (length buf)) (cn_hw c);
          Some (rc, no_out, c\<lparr>cn_hw := w\<rparr>) }"
  | (chunks) a md where "4 dvd unat a"
      "methodWrite kn r args c = do { (rc, w) \<leftarrow> write_chunks kn (cn_fb c) md a (md_getLength md) 0 (cn_hw c);
          Some (rc, no_out, c\<lparr>cn_hw := w\<rparr>) }"
proof (cases "methodWrite kn r args c = Some (kIOReturnBadArgument, no_out, c)")
  case go: False
  then obtain a where a: "resolve_offset c r (ea_scalarInput args)
      (xfer_bytes (ea_structureInput args) (ea_structureInputDescriptor args)) = Some a"
    by (simp add: methodWrite_def Let_def split: if_splits option.splits)
  have al: "4 dvd unat a" using go a and3_iff [of a] by (cases r) (simp_all add: methodWrite_def Let_def split: if_splits)
  show thesis
  proof (cases "ea_structureInput args")
    case (Some buf)
    then show thesis using go a al by (cases r; intro struct) (simp_all add: methodWrite_def Let_def split: if_splits)
  next
    case None
    then obtain md where "ea_structureInputDescriptor args = Some md"
      using go a by (cases r) (simp_all add: methodWrite_def Let_def split: if_splits option.splits)
    then show thesis using go a al None refused chunks [of a md]
      by (cases r) (simp_all add: methodWrite_def Let_def split: if_splits)
  qed
qed (rule refused)

lemma methodWrite_total:
  assumes ok: "conn_ok c" and dev: "pramin_dev (kn_io kn) win mem" and args: "args_ok dirty args"
  shows "\<exists>rc w'. methodWrite kn r args c = Some (rc, no_out, c\<lparr>cn_hw := w'\<rparr>)
     \<and> outside_same (fb_fGpu (cn_fb c)) (mem (cn_hw c)) (mem w')"
proof (cases rule: methodWrite_cases [of kn r args c, case_names refused struct chunks])
  case (refused rc)
  then show ?thesis by (intro exI [of _ rc] exI [of _ "cn_hw c"]) simp
next
  case (struct a buf)
  have "length buf < 2 ^ 32" using args struct(1) by (simp add: args_ok_def)
  note sb = small_buffer [OF this struct(3)]
  obtain rc w' where "gpuWrite kn (cn_fb c) a buf (of_nat (length buf)) (cn_hw c) = Some (rc, w')"
    "outside_same (fb_fGpu (cn_fb c)) (mem (cn_hw c)) (mem w')"
    using gpuWrite_total [OF dev conn_parts(1) [OF ok] struct(2) sb(2) sb(1) [symmetric]] by blast
  then show ?thesis by (intro exI [of _ rc] exI [of _ w']) (simp add: struct(4))
next
  case (chunks a md)
  obtain rc w' where "write_chunks kn (cn_fb c) md a (md_getLength md) 0 (cn_hw c) = Some (rc, w')"
    "outside_same (fb_fGpu (cn_fb c)) (mem (cn_hw c)) (mem w')"
    using write_chunks_total [OF dev conn_parts(1) [OF ok] chunks(1), of 0 "md_getLength md" md "cn_hw c"] by auto
  then show ?thesis by (intro exI [of _ rc] exI [of _ w']) (simp add: chunks(2))
qed

lemma methodRead_cases:
  obtains (refused) rc where "methodRead kn r dirty args c = Some (rc, no_out, c)"
  | (struct) a buf where "ea_structureOutput args = Some buf" "4 dvd unat a" "\<not> ucast (of_nat (length buf) :: u32) > (4 * 1024 * 1024 :: u64)"
      "methodRead kn r dirty args c = do { (rc, buf, w) \<leftarrow> gpuRead kn (cn_fb c) a buf (of_nat (length buf)) (cn_hw c);
          Some (rc, no_out\<lparr>eo_structureOutput := buf\<rparr>, c\<lparr>cn_hw := w\<rparr>) }"
  | (chunks) a md where "4 dvd unat a"
      "methodRead kn r dirty args c = do { (rc, out, w) \<leftarrow> read_chunks kn (cn_fb c) md a (md_getLength md) 0 [] dirty (cn_hw c);
          Some (rc, no_out\<lparr>eo_written := out\<rparr>, c\<lparr>cn_hw := w\<rparr>) }"
proof (cases "methodRead kn r dirty args c = Some (kIOReturnBadArgument, no_out, c)")
  case go: False
  then obtain a where a: "resolve_offset c r (ea_scalarInput args)
      (xfer_bytes (ea_structureOutput args) (ea_structureOutputDescriptor args)) = Some a"
    by (simp add: methodRead_def Let_def split: if_splits option.splits)
  have al: "4 dvd unat a" using go a and3_iff [of a] by (cases r) (simp_all add: methodRead_def Let_def split: if_splits)
  show thesis
  proof (cases "ea_structureOutput args")
    case (Some buf)
    then show thesis using go a al by (cases r; intro struct) (simp_all add: methodRead_def Let_def split: if_splits)
  next
    case None
    then obtain md where "ea_structureOutputDescriptor args = Some md"
      using go a by (cases r) (simp_all add: methodRead_def Let_def split: if_splits option.splits)
    then show thesis using go a al None refused chunks [of a md]
      by (cases r) (simp_all add: methodRead_def Let_def split: if_splits)
  qed
qed (rule refused)

lemma methodRead_total:
  assumes ok: "conn_ok c" and dev: "pramin_dev (kn_io kn) win mem" and args: "args_ok dirty args"
  shows "\<exists>rc out w'. methodRead kn r dirty args c = Some (rc, out, c\<lparr>cn_hw := w'\<rparr>) \<and> mem w' = mem (cn_hw c)"
proof (cases rule: methodRead_cases [of kn r dirty args c, case_names refused struct chunks])
  case (refused rc)
  then show ?thesis by (intro exI [of _ rc] exI [of _ no_out] exI [of _ "cn_hw c"]) simp
next
  case (struct a buf)
  have "length buf < 2 ^ 32" using args struct(1) by (simp add: args_ok_def)
  note sb = small_buffer [OF this struct(3)]
  obtain rc d w' where "gpuRead kn (cn_fb c) a buf (of_nat (length buf)) (cn_hw c) = Some (rc, d, w')" "mem w' = mem (cn_hw c)"
    using gpuRead_total [OF dev conn_parts(1) [OF ok] struct(2) sb(2) sb(1) [symmetric]] by blast
  then show ?thesis
    by (intro exI [of _ rc] exI [of _ "no_out\<lparr>eo_structureOutput := d\<rparr>"] exI [of _ w']) (simp add: struct(4))
next
  case (chunks a md)
  have "length dirty = 65536" using args by (simp add: args_ok_def)
  then obtain rc out w' where "read_chunks kn (cn_fb c) md a (md_getLength md) 0 [] dirty (cn_hw c) = Some (rc, out, w')"
    "mem w' = mem (cn_hw c)"
    using read_chunks_total [OF dev conn_parts(1) [OF ok] chunks(1), of 0 "md_getLength md" dirty md "[]" "cn_hw c"] by auto
  then show ?thesis
    by (intro exI [of _ rc] exI [of _ "no_out\<lparr>eo_written := out\<rparr>"] exI [of _ w']) (simp add: chunks(2))
qed

lemma gpuCopy_total:
  assumes "ctx_ready (fb_fGpu fb)" "pramin_dev (kn_io kn) win mem" "fb_fGpuLock fb"
  shows "\<exists>rc ns g w'. gpuCopy kn fb src dst n w = (rc, ns, fb\<lparr>fb_fGpu := g\<rparr>, w') \<and> ctx_ready g \<and> static_ctx g = static_ctx (fb_fGpu fb)"
proof (cases "copy_ok fb src dst n")
  case True
  then show ?thesis using gpuCopy_done [OF assms True, of w] static_ctx_after by blast
next
  case False
  have "fb\<lparr>fb_fGpu := fb_fGpu fb\<rparr> = fb" by (cases fb) simp
  then show ?thesis using False assms(1,3) by (auto simp: gpuCopy_cases intro!: exI [of _ "fb_fGpu fb"])
qed

lemma methodCopy_total:
  assumes ok: "conn_ok c" and dev: "pramin_dev (kn_io kn) win mem"
  shows "\<exists>rc out c'. methodCopy kn r args c = Some (rc, out, c') \<and> conn_ok c' \<and> cn_fManaged c' = cn_fManaged c
     \<and> fb_fGpuClients (cn_fb c') = fb_fGpuClients (cn_fb c)
     \<and> static_ctx (fb_fGpu (cn_fb c')) = static_ctx (fb_fGpu (cn_fb c))"
proof (cases "methodCopy kn r args c = Some (kIOReturnBadArgument, no_out, c)")
  case False
  then obtain a b n where run: "methodCopy kn r args c = (let (rc, ns, fb, w) = gpuCopy kn (cn_fb c) a b n (cn_hw c)
      in Some (rc, no_out\<lparr>eo_scalarOutput := [ns]\<rparr>, c\<lparr>cn_fb := fb, cn_hw := w\<rparr>))"
    unfolding methodCopy_def Let_def by (auto split: option.splits if_splits)
  obtain rc ns g w' where "gpuCopy kn (cn_fb c) a b n (cn_hw c) = (rc, ns, (cn_fb c)\<lparr>fb_fGpu := g\<rparr>, w')" "ctx_ready g"
    "static_ctx g = static_ctx (fb_fGpu (cn_fb c))"
    using gpuCopy_total [OF conn_parts(2) [OF ok] dev conn_parts(3) [OF ok]] by blast
  then show ?thesis using ok static_ctx_fields [of g "fb_fGpu (cn_fb c)"] unfolding run by (simp add: conn_ok_def)
qed (use ok in auto)

lemma methodAlloc_total:
  assumes ok: "conn_ok c" and dev: "pramin_dev (kn_io kn) win mem"
  shows "\<exists>rc out c'. methodAlloc kn args c = Some (rc, out, c') \<and> conn_ok c' \<and> (cn_fManaged c \<longrightarrow> cn_fManaged c')
     \<and> fb_fGpuClients (cn_fb c') = fb_fGpuClients (cn_fb c)
     \<and> static_ctx (fb_fGpu (cn_fb c')) = static_ctx (fb_fGpu (cn_fb c))"
proof (cases "methodAlloc kn args c = Some (kIOReturnBadArgument, no_out, c)")
  case False
  then have "length (ea_scalarInput args) = 2" "\<not> ea_scalarOutputCount args < 2"
    by (auto simp: methodAlloc_def Let_def split: if_splits)
  then obtain b al where "ea_scalarInput args = [b, al]" "2 \<le> ea_scalarOutputCount args"
    by (auto simp: length_Suc_conv numeral_2_eq_2)
  from alloc_buffer_spec [OF ok dev this] show ?thesis by blast
qed (use ok in auto)

lemma methodFree_total:
  assumes ok: "conn_ok c"
  shows "\<exists>rc out c'. methodFree args c = Some (rc, out, c') \<and> conn_ok c' \<and> cn_fManaged c' = cn_fManaged c \<and> cn_hw c' = cn_hw c
     \<and> cn_fb c' = cn_fb c"
proof (cases "length (ea_scalarInput args) = 1")
  case True
  then obtain h where a: "ea_scalarInput args = [h]" by (auto simp: length_Suc_conv)
  show ?thesis using free_buffer_spec [OF ok a] by blast
qed (use ok in \<open>auto simp: methodFree_def\<close>)

lemma external_gate:
  assumes "fst ia \<or> sel \<ge> 10 \<or> snd ia \<or> cn_fManaged c \<and> 1 \<le> sel \<and> sel \<le> 3"
  shows "\<exists>rc. externalMethod kn ia src dirty sel args c = Some (rc, no_out, c)"
  using assms by (cases "fst ia"; cases "sel \<ge> 10"; cases "snd ia") (simp_all add: externalMethod_def)

lemma external_total:
  assumes ok: "conn_ok c" and dev: "pramin_dev (kn_io kn) win mem" and args: "args_ok dirty args"
  shows "\<exists>rc out c'. externalMethod kn ia src dirty sel args c = Some (rc, out, c') \<and> conn_ok c'
     \<and> (cn_fManaged c \<longrightarrow> cn_fManaged c') \<and> fb_fGpuClients (cn_fb c') = fb_fGpuClients (cn_fb c)
     \<and> static_ctx (fb_fGpu (cn_fb c')) = static_ctx (fb_fGpu (cn_fb c))
     \<and> (sel \<notin> {3, 5, 9} \<longrightarrow> outside_same (fb_fGpu (cn_fb c)) (mem (cn_hw c)) (mem (cn_hw c')))"
proof -
  have same: ?thesis if "externalMethod kn ia src dirty sel args c = Some (rc, out, c)" for rc out
    using that ok by auto
  obtain rw w1 where w: "methodWrite kn (sel = 7) args c = Some (rw, no_out, c\<lparr>cn_hw := w1\<rparr>)"
    "outside_same (fb_fGpu (cn_fb c)) (mem (cn_hw c)) (mem w1)"
    using methodWrite_total [OF ok dev args] by blast
  obtain rr ro w2 where r: "methodRead kn (sel = 8) dirty args c = Some (rr, ro, c\<lparr>cn_hw := w2\<rparr>)" "mem w2 = mem (cn_hw c)"
    using methodRead_total [OF ok dev args] by blast
  consider (gate) "fst ia \<or> sel \<ge> 10 \<or> snd ia \<or> cn_fManaged c \<and> 1 \<le> sel \<and> sel \<le> 3"
    | (go) "externalMethod kn ia src dirty sel args c = (if sel = 0 then methodGetInfo args c
        else if sel = 1 then methodWrite kn False args c else if sel = 2 then methodRead kn False dirty args c
        else if sel = 3 then methodCopy kn False args c else if sel = 4 then methodMemoryInfo args c
        else if sel = 5 then methodAlloc kn args c else if sel = 6 then methodFree args c
        else if sel = 7 then methodWrite kn True args c else if sel = 8 then methodRead kn True dirty args c
        else if sel = 9 then methodCopy kn True args c else Some (kIOReturnUnsupported, no_out, c))"
    unfolding externalMethod_def by argo
  then show ?thesis
  proof cases
    case gate
    then have "\<exists>rc. externalMethod kn ia src dirty sel args c = Some (rc, no_out, c)" by (rule external_gate)
    then show ?thesis using same by blast
  next
    case go
    consider "sel = 0" | "sel = 1" | "sel = 2" | "sel = 3" | "sel = 4" | "sel = 5" | "sel = 6" | "sel = 7" | "sel = 8" | "sel = 9"
      | "sel \<notin> {0, 1, 2, 3, 4, 5, 6, 7, 8, 9}" by blast
    then show ?thesis
    proof cases
      case 1 then show ?thesis using go same by (auto simp: methodGetInfo_def Let_def split: option.splits)
    next case 2 then show ?thesis using go w conn_parts(4) [OF ok, of w1] by simp
    next case 3 then show ?thesis using go r conn_parts(4) [OF ok, of w2] by simp
    next case 4 then show ?thesis using go methodCopy_total [OF ok dev, of False args] by auto
    next case 5 then show ?thesis using go same by (auto simp: methodMemoryInfo_def Let_def split: option.splits)
    next case 6 then show ?thesis using go methodAlloc_total [OF ok dev, of args] by auto
    next case 7 then show ?thesis using go methodFree_total [OF ok, of args] by auto
    next case 8 then show ?thesis using go w conn_parts(4) [OF ok, of w1] by simp
    next case 9 then show ?thesis using go r conn_parts(4) [OF ok, of w2] by simp
    next case 10 then show ?thesis using go methodCopy_total [OF ok dev, of True args] by auto
    next case 11 then show ?thesis using go same by auto
    qed
  qed
qed

section \<open>Sessions\<close>

text \<open>
  The owner, the hardware and the connections, each with its pool and its flag.  A step opens a connection,
  serves a call, closes a connection, or lets the hardware move on.
\<close>

record 'w kext =
  kx_fb :: milcorix_fb
  kx_hw :: 'w
  kx_clients :: "(nv_vram_pool \<times> bool) list"

definition connection_of :: "'w kext \<Rightarrow> nat \<Rightarrow> 'w connection" where
  "connection_of s i = \<lparr>cn_fb = kx_fb s, cn_fPool = fst (kx_clients s ! i), cn_fManaged = snd (kx_clients s ! i), cn_hw = kx_hw s\<rparr>"

inductive kext_step :: "'w kernel \<Rightarrow> 'w kext \<Rightarrow> 'w kext \<Rightarrow> bool" for kn where
  opened: "newUserClient e src type (kx_fb s) = (rc, fb, cl) \<Longrightarrow>
    kext_step kn s (s\<lparr>kx_fb := fb, kx_clients := kx_clients s @ (case cl of None \<Rightarrow> [] | Some x \<Rightarrow> [x])\<rparr>)"
| called: "i < length (kx_clients s) \<Longrightarrow> args_ok dirty args \<Longrightarrow>
    externalMethod kn ia src dirty sel args (connection_of s i) = Some (rc, out, c) \<Longrightarrow>
    kext_step kn s \<lparr>kx_fb = cn_fb c, kx_hw = cn_hw c, kx_clients = (kx_clients s)[i := (cn_fPool c, cn_fManaged c)]\<rparr>"
| closed: "i < length (kx_clients s) \<Longrightarrow>
    kext_step kn s (s\<lparr>kx_fb := free_client True (kx_fb s), kx_clients := take i (kx_clients s) @ drop (Suc i) (kx_clients s)\<rparr>)"
| hardware: "kext_step kn s (s\<lparr>kx_hw := w\<rparr>)"

definition kext_ok :: "'w kext \<Rightarrow> bool" where
  "kext_ok s \<longleftrightarrow> fb_fGpuLock (kx_fb s) \<and> ctx_ready (fb_fGpu (kx_fb s)) \<and> length (kx_clients s) \<le> 1
     \<and> unat (fb_fGpuClients (kx_fb s)) = length (kx_clients s)
     \<and> (\<forall>i < length (kx_clients s). conn_ok (connection_of s i))"

lemma newUserClient_spec:
  assumes "newUserClient e src type fb = (rc, fb', cl)" "fb_fGpuLock fb" "ctx_ready (fb_fGpu fb)" "unat (fb_fGpuClients fb) \<le> 1"
  shows "fb' = (if cl = None then fb else fb\<lparr>fb_fGpuClients := 1\<rparr>)"
    "cl = Some (p, mg) \<Longrightarrow> fb_fGpuClients fb = 0 \<and> pool_map p = Map.empty
       \<and> conn_ok \<lparr>cn_fb = fb', cn_fPool = p, cn_fManaged = mg', cn_hw = w\<rparr>"
proof -
  have c01: "fb_fGpuClients fb = 0 \<or> fb_fGpuClients fb = 1"
    using assms(4) by (auto simp: le_Suc_eq word_unat_eq_iff)
  have undo: "gpuClientClose (fb\<lparr>fb_fGpuClients := 1\<rparr>) = fb" if "fb_fGpuClients fb = 0"
    using assms(2) that by (cases fb) (simp add: gpuClientClose_def)
  show "fb' = (if cl = None then fb else fb\<lparr>fb_fGpuClients := 1\<rparr>)"
    using assms(1,2) c01 undo
    by (auto simp: newUserClient_def start_def gpuClientOpen_def free_client_def Let_def split: if_splits prod.splits)
  assume cl: "cl = Some (p, mg)"
  then have n: "fb_fGpuClients fb = 0" "nv_vram_pool_init zero_pool 0 (gpuScratchVA fb) (gpuScratchSize fb) = (0, p)"
    "fb' = fb\<lparr>fb_fGpuClients := 1\<rparr>"
    using assms(1,2)
    by (auto simp: newUserClient_def start_def gpuClientOpen_def Let_def gpuScratchVA_def gpuScratchSize_def
        split: if_splits prod.splits)
  note p = pool_init_inv [OF n(2)]
  show "fb_fGpuClients fb = 0 \<and> pool_map p = Map.empty \<and> conn_ok \<lparr>cn_fb = fb', cn_fPool = p, cn_fManaged = mg', cn_hw = w\<rparr>"
    using n p assms(2,3) by (simp add: conn_ok_def gpuScratchVA_def gpuScratchSize_def)
qed

lemma kext_step_ok:
  assumes "kext_step kn s s'" "kext_ok s" "pramin_dev (kn_io kn) win mem"
  shows "kext_ok s'"
  using assms(1)
proof cases
  case (opened e src type rc fb cl)
  have fb: "fb_fGpuLock (kx_fb s)" "ctx_ready (fb_fGpu (kx_fb s))" "unat (fb_fGpuClients (kx_fb s)) \<le> 1"
    using assms(2) by (simp_all add: kext_ok_def)
  note sp = newUserClient_spec [OF opened(2) fb]
  show ?thesis
  proof (cases cl)
    case None
    then show ?thesis using assms(2) sp(1) opened(1) by (simp add: kext_ok_def connection_of_def)
  next
    case (Some x)
    obtain p mg where x: "x = (p, mg)" by (cases x)
    have c: "fb_fGpuClients (kx_fb s) = 0" "conn_ok \<lparr>cn_fb = fb, cn_fPool = p, cn_fManaged = mg, cn_hw = kx_hw s\<rparr>"
      using sp(2) [where p = p and mg = mg and mg' = mg and w = "kx_hw s"] Some x by simp_all
    then have "kx_clients s = []" using assms(2) by (simp add: kext_ok_def)
    then show ?thesis using Some x c(2) sp(1) fb opened(1) by (simp add: kext_ok_def connection_of_def)
  qed
next
  case (called i dirty args ia src sel rc out c)
  have i: "i = 0" "length (kx_clients s) = 1" and ok: "conn_ok (connection_of s i)"
    using called(2) assms(2) by (auto simp: kext_ok_def le_Suc_eq)
  obtain rc' out' c' where t: "externalMethod kn ia src dirty sel args (connection_of s i) = Some (rc', out', c')" "conn_ok c'"
    "fb_fGpuClients (cn_fb c') = fb_fGpuClients (cn_fb (connection_of s i))"
    using external_total [OF ok assms(3) called(3), of ia src sel] by blast
  then have c: "c' = c" using called(4) by simp
  have "connection_of s' 0 = c" using i called(1) by (cases c) (simp add: connection_of_def)
  then show ?thesis using t(2,3) i assms(2) called(1) unfolding c
    by (simp add: kext_ok_def conn_ok_def connection_of_def)
next
  case (closed i)
  have i: "i = 0" "length (kx_clients s) = 1" using closed(2) assms(2) by (auto simp: kext_ok_def le_Suc_eq)
  then have "fb_fGpuClients (kx_fb s) = 1" using assms(2) by (simp add: kext_ok_def word_unat_eq_iff)
  then show ?thesis using i assms(2) closed(1) by (simp add: kext_ok_def free_client_def gpuClientClose_def)
next
  case (hardware w)
  then show ?thesis using assms(2) by (simp add: kext_ok_def conn_ok_def connection_of_def)
qed

lemma kext_reach_ok:
  assumes "(kext_step kn)\<^sup>*\<^sup>* s0 s" "kext_ok s0" "pramin_dev (kn_io kn) win mem"
  shows "kext_ok s"
  using assms(1) by (induction rule: rtranclp_induct) (use assms(2,3) kext_step_ok in blast)+

end
