(* ===== verification/ClientContract.thy ===== *)
theory ClientContract
  imports ClientSession
begin

text \<open>
  The contract of the boundary: an abstract store of byte buffers, the theorem that the handle interface of
  \<open>externalMethod\<close> implements it, and the theorems on whole sessions.
\<close>

section \<open>The abstract store\<close>

type_synonym store = "u64 \<Rightarrow> u8 list option"

datatype store_op =
    Alloc u64 u64
  | Free u64
  | Write u64 u64 "u8 list"
  | Read u64 u64 nat
  | Copy u64 u64 u64 u64 u64

text \<open>The rules of the store; \<open>live\<close> says that the GPU has not failed.\<close>

definition range_in :: "store \<Rightarrow> u64 \<Rightarrow> nat \<Rightarrow> nat \<Rightarrow> bool" where
  "range_in s h off n = (0 < n \<and> n \<le> 4194304 \<and> (case s h of None \<Rightarrow> False | Some b \<Rightarrow> off + n \<le> length b))"

fun op_allowed :: "bool \<Rightarrow> store \<Rightarrow> store_op \<Rightarrow> bool" where
  "op_allowed live s (Alloc n al) = live"
| "op_allowed live s (Free h) = (s h \<noteq> None)"
| "op_allowed live s (Write h off data) = (live \<and> 4 dvd unat off \<and> range_in s h (unat off) (length data))"
| "op_allowed live s (Read h off n) = (live \<and> 4 dvd unat off \<and> range_in s h (unat off) n)"
| "op_allowed live s (Copy h1 o1 h2 o2 n) = (live \<and> range_in s h1 (unat o1) (unat n) \<and> range_in s h2 (unat o2) (unat n)
     \<and> (h1 = h2 \<longrightarrow> unat o1 + unat n \<le> unat o2 \<or> unat o2 + unat n \<le> unat o1))"

definition same_shape :: "store \<Rightarrow> store \<Rightarrow> bool" where
  "same_shape s s' \<longleftrightarrow> (\<forall>h. map_option length (s h) = map_option length (s' h))"

text \<open>One step: the operation, the status, the scalars and the bytes it answers, and the store afterwards.\<close>

inductive store_step :: "bool \<Rightarrow> store \<Rightarrow> store_op \<Rightarrow> IOReturn \<Rightarrow> u64 list \<Rightarrow> u8 list \<Rightarrow> store \<Rightarrow> bool" where
  refused: "\<not> op_allowed live s opn \<Longrightarrow> (\<forall>n al. opn \<noteq> Alloc n al) \<Longrightarrow> store_step live s opn kIOReturnBadArgument xs bs s"
| freed: "op_allowed live s (Free h) \<Longrightarrow> store_step live s (Free h) kIOReturnSuccess xs bs (s(h := None))"
| written: "op_allowed live s (Write h off data) \<Longrightarrow>
    store_step live s (Write h off data) kIOReturnSuccess xs bs (s(h \<mapsto> splice (the (s h)) (unat off) data))"
| answered: "op_allowed live s (Read h off n) \<Longrightarrow>
    store_step live s (Read h off n) kIOReturnSuccess xs (fld (the (s h)) (unat off) n) s"
| copied: "op_allowed live s (Copy h1 o1 h2 o2 n) \<Longrightarrow>
    store_step live s (Copy h1 o1 h2 o2 n) kIOReturnSuccess xs bs
      (s(h2 \<mapsto> splice (the (s h2)) (unat o2) (fld (the (s h1)) (unat o1) (unat n))))"
| copy_failed: "op_allowed live s (Copy h1 o1 h2 o2 n) \<Longrightarrow> same_shape s s' \<Longrightarrow>
    store_step live s (Copy h1 o1 h2 o2 n) kIOReturnIOError xs bs s'"
| allocated: "op_allowed live s (Alloc n al) \<Longrightarrow> s h = None \<Longrightarrow> roundup 4096 (unat n) < 2 ^ 64 \<Longrightarrow>
    store_step live s (Alloc n al) kIOReturnSuccess [h, of_nat (roundup 4096 (unat n))] bs
      (s(h \<mapsto> replicate (roundup 4096 (unat n)) 0))"
| alloc_failed: "rc \<noteq> kIOReturnSuccess \<Longrightarrow> same_shape s s' \<Longrightarrow> store_step live s (Alloc n al) rc xs bs s'"

text \<open>How a process asks for an operation.\<close>

fun op_selector :: "store_op \<Rightarrow> u32" where
  "op_selector (Alloc n al) = kMilcorixMethodAlloc"
| "op_selector (Free h) = kMilcorixMethodFree"
| "op_selector (Write h off data) = kMilcorixMethodWriteBuffer"
| "op_selector (Read h off n) = kMilcorixMethodReadBuffer"
| "op_selector (Copy h1 o1 h2 o2 n) = kMilcorixMethodCopyBuffer"

fun encodes :: "'w kernel \<Rightarrow> u8 list \<Rightarrow> ext_args \<Rightarrow> store_op \<Rightarrow> bool" where
  "encodes kn dirty args (Alloc n al) = (ea_scalarInput args = [n, al] \<and> 2 \<le> ea_scalarOutputCount args)"
| "encodes kn dirty args (Free h) = (ea_scalarInput args = [h])"
| "encodes kn dirty args (Write h off data) = (ea_scalarInput args = [h, off] \<and> input_data kn args data)"
| "encodes kn dirty args (Read h off n) = (ea_scalarInput args = [h, off] \<and> output_room kn dirty args n)"
| "encodes kn dirty args (Copy h1 o1 h2 o2 n) = (ea_scalarInput args = [h1, o1, h2, o2, n] \<and> 1 \<le> ea_scalarOutputCount args)"

section \<open>The handle interface implements the store\<close>

lemma write_allowed_op: "write_allowed c (s h) off n \<longleftrightarrow> gx_ok (fb_fGpu (cn_fb c)) \<and> 4 dvd off \<and> range_in s h off n"
  by (auto simp: write_allowed_def range_in_def split: option.splits)

lemma copy_allowed_op:
  "copy_allowed c s h1 (unat o1) h2 (unat o2) (unat n) \<longleftrightarrow> op_allowed (gx_ok (fb_fGpu (cn_fb c))) s (Copy h1 o1 h2 o2 n)"
  by (auto simp: copy_allowed_def range_in_def split: option.splits)

lemma same_pool_shape: "pool_map (cn_fPool c') = pool_map (cn_fPool c) \<Longrightarrow> same_shape (buffers mem c) (buffers mem c')"
  by (auto simp: same_shape_def buffers_def option.map_comp comp_def case_prod_beta)

lemma external_op:
  "externalMethod kn (False, False) src dirty (op_selector opn) args c = (case opn of
      Alloc n al \<Rightarrow> methodAlloc kn args c | Free h \<Rightarrow> methodFree args c
    | Write h off data \<Rightarrow> methodWrite kn True args c | Read h off n \<Rightarrow> methodRead kn True dirty args c
    | Copy h1 o1 h2 o2 n \<Rightarrow> methodCopy kn True args c)"
  by (cases opn) (simp_all add: externalMethod_def)

definition op_result ::
  "'w kernel \<Rightarrow> ('w \<Rightarrow> u64) \<Rightarrow> ('w \<Rightarrow> nat \<Rightarrow> u32) \<Rightarrow> store_op \<Rightarrow> 'w connection \<Rightarrow> IOReturn \<Rightarrow> ext_out \<Rightarrow> 'w connection \<Rightarrow> bool" where
  "op_result kn win mem opn c rc out c' \<longleftrightarrow> conn_ok c' \<and> copy_engine (kn_io kn) win mem (fb_fGpu (cn_fb c'))
     \<and> (rc \<noteq> kIOReturnIOError \<longrightarrow> (\<forall>n al. opn \<noteq> Alloc n al) \<longrightarrow> gx_ok (fb_fGpu (cn_fb c')) = gx_ok (fb_fGpu (cn_fb c)))
     \<and> store_step (gx_ok (fb_fGpu (cn_fb c))) (buffers mem c) opn rc (eo_scalarOutput out) (out_bytes out) (buffers mem c')"

lemma op_simulated:
  assumes ok: "conn_ok c" and dev: "pramin_dev (kn_io kn) win mem" and ce: "copy_engine (kn_io kn) win mem (fb_fGpu (cn_fb c))"
    and enc: "encodes kn dirty args opn"
  shows "\<exists>rc out c'. externalMethod kn (False, False) src dirty (op_selector opn) args c = Some (rc, out, c')
     \<and> op_result kn win mem opn c rc out c'"
proof (cases opn)
  case (Alloc n al)
  obtain rc out c' where r: "methodAlloc kn args c = Some (rc, out, c')" "conn_ok c'"
    "static_ctx (fb_fGpu (cn_fb c')) = static_ctx (fb_fGpu (cn_fb c))"
    "rc \<noteq> kIOReturnSuccess \<Longrightarrow> pool_map (cn_fPool c') = pool_map (cn_fPool c)"
    "rc = kIOReturnSuccess \<Longrightarrow> \<exists>h. eo_scalarOutput out = [h, of_nat (roundup 4096 (unat n))]
          \<and> buffers mem c h = None \<and> roundup 4096 (unat n) < 2 ^ 64
          \<and> buffers mem c' = (buffers mem c)(h \<mapsto> replicate (roundup 4096 (unat n)) 0)"
    using alloc_buffer_spec [OF ok dev, of args n al] enc ce unfolding Alloc by fastforce
  have live: "rc = kIOReturnSuccess \<Longrightarrow> gx_ok (fb_fGpu (cn_fb c))"
    using r(1) by (auto simp: methodAlloc_def Let_def gpuPoolVerified_def split: if_splits)
  have "store_step (gx_ok (fb_fGpu (cn_fb c))) (buffers mem c) opn rc (eo_scalarOutput out) (out_bytes out) (buffers mem c')"
  proof (cases "rc = kIOReturnSuccess")
    case True
    then show ?thesis using r(5) live by (auto simp: Alloc intro!: store_step.allocated)
  qed (use r(4) in \<open>simp add: Alloc store_step.alloc_failed same_pool_shape\<close>)
  then show ?thesis using r(1,2) ce copy_engine_static [OF r(3), of "kn_io kn" win mem]
    unfolding external_op by (simp add: Alloc op_result_def)
next
  case (Free h)
  obtain rc c' where r: "methodFree args c = Some (rc, no_out, c')" "conn_ok c'" "cn_fb c' = cn_fb c"
    "if buffers mem c h = None then rc = kIOReturnBadArgument \<and> c' = c
      else rc = kIOReturnSuccess \<and> buffers mem c' = (buffers mem c)(h := None)"
    using free_buffer_spec [OF ok, of args h mem] enc Free by auto
  have "store_step (gx_ok (fb_fGpu (cn_fb c))) (buffers mem c) opn rc [] (out_bytes no_out) (buffers mem c')"
    using r(4) by (cases "buffers mem c h = None") (simp_all add: Free store_step.refused store_step.freed)
  then show ?thesis using r(1-3) ce unfolding external_op by (simp add: Free op_result_def)
next
  case (Write h off data)
  obtain rc w' where r: "methodWrite kn True args c = Some (rc, no_out, c\<lparr>cn_hw := w'\<rparr>)"
    "if write_allowed c (buffers mem c h) (unat off) (length data)
     then rc = kIOReturnSuccess \<and> buffers mem (c\<lparr>cn_hw := w'\<rparr>) =
            (buffers mem c)(h \<mapsto> splice (the (buffers mem c h)) (unat off) data)
     else rc = kIOReturnBadArgument \<and> w' = cn_hw c"
    using write_buffer_spec [OF ok dev, of args data h off] enc Write by auto
  have "store_step (gx_ok (fb_fGpu (cn_fb c))) (buffers mem c) opn rc [] (out_bytes no_out) (buffers mem (c\<lparr>cn_hw := w'\<rparr>))"
    using r(2) by (cases "write_allowed c (buffers mem c h) (unat off) (length data)")
      (simp_all add: Write write_allowed_op store_step.refused store_step.written)
  then show ?thesis using r(1) ce conn_parts(4) [OF ok, of w'] unfolding external_op by (simp add: Write op_result_def)
next
  case (Read h off n)
  obtain rc out w' where r: "methodRead kn True dirty args c = Some (rc, out, c\<lparr>cn_hw := w'\<rparr>)" "mem w' = mem (cn_hw c)"
    "if write_allowed c (buffers mem c h) (unat off) n
     then rc = kIOReturnSuccess \<and> out_bytes out = fld (the (buffers mem c h)) (unat off) n
     else rc = kIOReturnBadArgument \<and> w' = cn_hw c"
    using read_buffer_spec [OF ok dev, of dirty args n h off] enc Read by auto
  have b: "buffers mem (c\<lparr>cn_hw := w'\<rparr>) = buffers mem c" using r(2) by (intro ext) (simp add: buffers_def)
  have "store_step (gx_ok (fb_fGpu (cn_fb c))) (buffers mem c) opn rc (eo_scalarOutput out) (out_bytes out) (buffers mem c)"
  proof (cases "write_allowed c (buffers mem c h) (unat off) n")
    case True
    then have "rc = kIOReturnSuccess" "out_bytes out = fld (the (buffers mem c h)) (unat off) n" using r(3) by simp_all
    then show ?thesis using True unfolding Read by (simp add: write_allowed_op store_step.answered)
  next
    case False
    then have "rc = kIOReturnBadArgument" using r(3) by simp
    then show ?thesis using False unfolding Read by (auto simp: write_allowed_op intro: store_step.refused)
  qed
  then show ?thesis using r(1) ce conn_parts(4) [OF ok, of w'] unfolding external_op by (simp add: Read op_result_def b)
next
  case (Copy h1 o1 h2 o2 n)
  obtain rc out c' where r: "methodCopy kn True args c = Some (rc, out, c')" "conn_ok c'" "cn_fPool c' = cn_fPool c"
    "static_ctx (fb_fGpu (cn_fb c')) = static_ctx (fb_fGpu (cn_fb c))"
    "if copy_allowed c (buffers mem c) h1 (unat o1) h2 (unat o2) (unat n)
     then rc \<in> {kIOReturnSuccess, kIOReturnIOError} \<and> (gx_ok (fb_fGpu (cn_fb c')) \<longleftrightarrow> rc = kIOReturnSuccess) \<and>
       (rc = kIOReturnSuccess \<and> copy_engine (kn_io kn) win mem (fb_fGpu (cn_fb c)) \<longrightarrow>
          buffers mem c' = (buffers mem c)(h2 \<mapsto> splice (the (buffers mem c h2)) (unat o2)
            (fld (the (buffers mem c h1)) (unat o1) (unat n))))
     else rc = kIOReturnBadArgument \<and> c' = c"
    using copy_buffer_spec [OF ok dev, of args h1 o1 h2 o2 n] enc Copy by auto
  have shape: "same_shape (buffers mem c) (buffers mem c')" using r(3) by (simp add: same_pool_shape)
  have "store_step (gx_ok (fb_fGpu (cn_fb c))) (buffers mem c) opn rc (eo_scalarOutput out) (out_bytes out) (buffers mem c')"
    "rc \<noteq> kIOReturnIOError \<longrightarrow> gx_ok (fb_fGpu (cn_fb c')) = gx_ok (fb_fGpu (cn_fb c))"
    using r(5) ce shape unfolding copy_allowed_op Copy
    by (auto simp del: op_allowed.simps intro: store_step.refused store_step.copied store_step.copy_failed split: if_splits)
      (auto intro: store_step.refused)
  then show ?thesis using r(1,2) ce copy_engine_static [OF r(4), of "kn_io kn" win mem] unfolding external_op by (simp add: Copy op_result_def)
qed

inductive_cases store_write: "store_step live s (Write h off data) rc xs bs s'"
inductive_cases store_read: "store_step live s (Read h off n) rc xs bs s'"
inductive_cases store_copy: "store_step live s (Copy h1 o1 h2 o2 n) rc xs bs s'"

lemma store_write_iff:
  assumes "op_allowed live s (Write h off data)"
  shows "store_step live s (Write h off data) rc xs bs s' \<longleftrightarrow>
    rc = kIOReturnSuccess \<and> s' = s(h \<mapsto> splice (the (s h)) (unat off) data)"
  using assms by (auto elim!: store_write intro: store_step.written simp del: op_allowed.simps)

lemma store_read_iff:
  assumes "op_allowed live s (Read h off n)"
  shows "store_step live s (Read h off n) rc xs bs s' \<longleftrightarrow>
    rc = kIOReturnSuccess \<and> bs = fld (the (s h)) (unat off) n \<and> s' = s"
  using assms by (auto elim!: store_read intro: store_step.answered simp del: op_allowed.simps)

lemma store_copy_ok:
  assumes "op_allowed live s (Copy h1 o1 h2 o2 n)" "store_step live s (Copy h1 o1 h2 o2 n) rc xs bs s'"
  shows "rc = kIOReturnIOError \<or> rc = kIOReturnSuccess
    \<and> s' = s(h2 \<mapsto> splice (the (s h2)) (unat o2) (fld (the (s h1)) (unat o1) (unat n)))"
  using assms(2,1) by (auto elim!: store_copy simp del: op_allowed.simps)

lemma fld_splice: "off + length bs \<le> length xs \<Longrightarrow> fld (splice xs off bs) off (length bs) = bs"
  by (rule nth_equalityI) (simp_all add: nth_fld nth_splice)


text \<open>C37. Data written to a buffer and copied on the GPU to another buffer are read back unchanged, unless the
  copy itself reports that the GPU failed.\<close>

theorem buffer_roundtrip:
  assumes ok: "conn_ok c" "pramin_dev (kn_io kn) win mem" "copy_engine (kn_io kn) win mem (fb_fGpu (cn_fb c))"
    and live: "gx_ok (fb_fGpu (cn_fb c))" and h: "h1 \<noteq> h2" and al: "4 dvd unat o1" "4 dvd unat o2"
    and r: "range_in (buffers mem c) h1 (unat o1) (length data)" "range_in (buffers mem c) h2 (unat o2) (length data)"
    and enc: "encodes kn dirty a1 (Write h1 o1 data)" "encodes kn dirty a2 (Copy h1 o1 h2 o2 (of_nat (length data)))"
      "encodes kn dirty a3 (Read h2 o2 (length data))"
  shows "\<exists>out1 c1 rc out2 c2. externalMethod kn (False, False) src dirty 7 a1 c = Some (kIOReturnSuccess, out1, c1)
    \<and> externalMethod kn (False, False) src dirty 9 a2 c1 = Some (rc, out2, c2)
    \<and> rc \<in> {kIOReturnSuccess, kIOReturnIOError}
    \<and> (rc = kIOReturnSuccess \<longrightarrow> (\<exists>out3 c3. externalMethod kn (False, False) src dirty 8 a3 c2 = Some (kIOReturnSuccess, out3, c3)
         \<and> out_bytes out3 = data))"
proof -
  let ?s = "buffers mem c" and ?n = "of_nat (length data) :: u64"
  obtain b1 b2 where b: "?s h1 = Some b1" "unat o1 + length data \<le> length b1" "?s h2 = Some b2" "unat o2 + length data \<le> length b2"
    and n: "0 < length data" "length data \<le> 4194304"
    using r by (auto simp: range_in_def split: option.splits)
  have un: "unat ?n = length data" using n(2) by (intro unat_of_nat_small) simp
  obtain rc1 out1 c1 where s1: "externalMethod kn (False, False) src dirty 7 a1 c = Some (rc1, out1, c1)"
    "op_result kn win mem (Write h1 o1 data) c rc1 out1 c1"
    using op_simulated [OF ok enc(1), of src] by auto
  have p1: "rc1 = kIOReturnSuccess" "buffers mem c1 = ?s(h1 \<mapsto> splice b1 (unat o1) data)"
    using s1(2) store_write_iff live al(1) r(1) b(1) unfolding op_result_def by simp_all
  then have k1: "conn_ok c1" "copy_engine (kn_io kn) win mem (fb_fGpu (cn_fb c1))" "gx_ok (fb_fGpu (cn_fb c1))"
    using s1(2) live unfolding op_result_def by simp_all
  obtain rc out2 c2 where s2: "externalMethod kn (False, False) src dirty 9 a2 c1 = Some (rc, out2, c2)"
    "op_result kn win mem (Copy h1 o1 h2 o2 ?n) c1 rc out2 c2"
    using op_simulated [OF k1(1) ok(2) k1(2) enc(2), of src] by auto
  have "op_allowed True (buffers mem c1) (Copy h1 o1 h2 o2 ?n)"
    using b n h un by (simp add: p1(2) range_in_def)
  from store_copy_ok [OF this] have p2: "rc = kIOReturnIOError \<or> rc = kIOReturnSuccess
      \<and> buffers mem c2 = (buffers mem c1)(h2 \<mapsto> splice b2 (unat o2) data)"
    using s2(2) k1(3) b(2) fld_splice [OF b(2)] h unfolding op_result_def p1(2) by (auto simp: un b(3))
  have fetched: "\<exists>out3 c3. externalMethod kn (False, False) src dirty 8 a3 c2 = Some (kIOReturnSuccess, out3, c3) \<and> out_bytes out3 = data"
    if rc: "rc = kIOReturnSuccess"
  proof -
    have k2: "conn_ok c2" "copy_engine (kn_io kn) win mem (fb_fGpu (cn_fb c2))" "gx_ok (fb_fGpu (cn_fb c2))"
      using s2(2) k1(3) rc unfolding op_result_def by simp_all
    obtain rc3 out3 c3 where s3: "externalMethod kn (False, False) src dirty 8 a3 c2 = Some (rc3, out3, c3)"
      "op_result kn win mem (Read h2 o2 (length data)) c2 rc3 out3 c3"
      using op_simulated [OF k2(1) ok(2) k2(2) enc(3), of src] by auto
    have "op_allowed True (buffers mem c2) (Read h2 o2 (length data))"
      using p2 rc b n al(2) by (simp add: range_in_def)
    from store_read_iff [OF this] have "rc3 = kIOReturnSuccess" "out_bytes out3 = data"
      using s3(2) k2(3) p2 rc fld_splice [OF b(4)] unfolding op_result_def by simp_all
    then show ?thesis using s3(1) by blast
  qed
  show ?thesis
    by (rule exI [of _ out1], rule exI [of _ c1], rule exI [of _ rc], rule exI [of _ out2], rule exI [of _ c2])
      (use s1(1) p1(1) s2(1) p2 fetched in auto)
qed


text \<open>C12. In every session, however opens, calls, closes and the hardware interleave, at most one connection exists,
  the counter of the owner is the number of connections, the open connection is consistent, and another open is
  refused and leaves the owner as it was.\<close>

theorem kext_session_safe:
  assumes "(kext_step kn)\<^sup>*\<^sup>* \<lparr>kx_fb = fb, kx_hw = w, kx_clients = []\<rparr> s" "pramin_dev (kn_io kn) win mem"
    and "fb_fGpuLock fb" "fb_fGpuClients fb = 0" "ctx_ready (fb_fGpu fb)"
  shows "length (kx_clients s) \<le> 1 \<and> unat (fb_fGpuClients (kx_fb s)) = length (kx_clients s)
     \<and> (\<forall>i < length (kx_clients s). conn_ok (connection_of s i))
     \<and> (kx_clients s \<noteq> [] \<longrightarrow> newUserClient e src MILCORIX_CONNECT_TYPE (kx_fb s) =
          (if oe_alloc e then kIOReturnInternalError else kIOReturnNoMemory, kx_fb s, None))"
proof -
  have ok: "kext_ok s" by (rule kext_reach_ok [OF assms(1) _ assms(2)]) (use assms(3-5) in \<open>simp add: kext_ok_def\<close>)
  have "newUserClient e src MILCORIX_CONNECT_TYPE (kx_fb s) =
      (if oe_alloc e then kIOReturnInternalError else kIOReturnNoMemory, kx_fb s, None)" if "kx_clients s \<noteq> []"
  proof -
    have "fb_fGpuClients (kx_fb s) \<noteq> 0" "fb_fGpuLock (kx_fb s)" using ok that by (auto simp: kext_ok_def)
    then show ?thesis by (simp add: newUserClient_def start_def gpuClientOpen_def free_client_def)
  qed
  then show ?thesis using ok by (simp add: kext_ok_def)
qed

section \<open>Concrete runs\<close>

definition demo_fb :: milcorix_fb where
  "demo_fb = \<lparr>fb_fGpuLock = True, fb_fGpuClients = 0, fb_fGpu = demo_gpu\<rparr>"

definition demo_kernel :: "(u64 \<times> (nat \<Rightarrow> u32)) kernel" where
  "demo_kernel = \<lparr>kn_io = ce_io demo_gpu, kn_uptime = (\<lambda>w. 0), kn_nanos = (\<lambda>t. t), kn_IOMalloc = True\<rparr>"

definition scratch_pool :: nv_vram_pool where
  "scratch_pool = snd (nv_vram_pool_init zero_pool 0 0x40100000 0x40000000)"

lemma scratch_pool_init: "nv_vram_pool_init zero_pool 0 0x40100000 0x40000000 = (0, scratch_pool)"
  by (simp add: scratch_pool_def nv_vram_pool_init_def span_valid_def)

lemma demo_ready: "ctx_ready demo_gpu"
  using demo_gpu_placed(1)
  unfolding ctx_ready_def scratch_placed_def cells_apart_def ctx_cells_def demo_gpu_def by simp

lemma demo_dev: "pramin_dev (kn_io demo_kernel) fst snd" "copy_engine (kn_io demo_kernel) fst snd demo_gpu"
  using ce_io_dev [of demo_gpu] ce_engine [OF demo_ready] by (simp_all add: demo_kernel_def)

text \<open>A connection with two buffers.\<close>

lemma demo_buffers: "\<exists>p a b. pool_inv p \<and> pl_phys p = 0 \<and> pl_va p = 0x40100000 \<and> pl_size p = 0x40000000
  \<and> pool_map p 1 = Some (a, 8192) \<and> pool_map p 2 = Some (b, 4096)"
proof -
  have "(case nv_vram_alloc scratch_pool 8192 4096 of None \<Rightarrow> None
      | Some (rc, h, p) \<Rightarrow> map_option (\<lambda>(rc2, h2, _). (rc, h, rc2, h2)) (nv_vram_alloc p 4096 4096)) = Some (0, 1, 0, 2)"
    by code_simp
  then obtain p p' where a: "nv_vram_alloc scratch_pool 8192 4096 = Some (0, 1, p)" "nv_vram_alloc p 4096 4096 = Some (0, 2, p')"
    by (auto split: option.splits)
  note i = pool_init_inv [OF scratch_pool_init]
  obtain x where x: "pool_inv p" "pool_map p = (pool_map scratch_pool)(1 \<mapsto> (x, 8192))" "pl_phys p = 0" "pl_va p = 0x40100000"
    "pl_size p = 0x40000000"
    using alloc_placed [OF i(1) a(1)] i by (auto simp: roundup_def)
  obtain y where "pool_inv p'" "pool_map p' = (pool_map p)(2 \<mapsto> (y, 4096))" "pl_phys p' = pl_phys p" "pl_va p' = pl_va p"
    "pl_size p' = pl_size p"
    using alloc_placed [OF x(1) a(2)] by (auto simp: roundup_def)
  then show ?thesis using x by (intro exI [of _ p'] exI [of _ x] exI [of _ y]) simp
qed

definition demo_conn :: "nv_vram_pool \<Rightarrow> (u64 \<times> (nat \<Rightarrow> u32)) connection" where
  "demo_conn p = \<lparr>cn_fb = demo_fb, cn_fPool = p, cn_fManaged = True, cn_hw = (0, \<lambda>a. 0)\<rparr>"

lemma demo_conn_ok:
  obtains p where "conn_ok (demo_conn p)" "buffers snd (demo_conn p) 1 = Some (replicate 8192 0)"
    "buffers snd (demo_conn p) 2 = Some (replicate 4096 0)"
proof -
  obtain p a b where p: "pool_inv p" "pl_phys p = 0" "pl_va p = 0x40100000" "pl_size p = 0x40000000"
    "pool_map p 1 = Some (a, 8192)" "pool_map p 2 = Some (b, 4096)" using demo_buffers by blast
  have g: "gx_scratch_va demo_gpu = 0x40100000" "gx_scratch_size demo_gpu = 0x40000000" by (simp_all add: demo_gpu_def)
  have "vram_bytes (\<lambda>a. 0) x n = replicate n 0" for x n by (rule nth_equalityI) (simp_all add: vram_bytes_def byte_at_def)
  then show thesis
    by (intro that [of p]) (use p demo_ready in \<open>simp_all add: conn_ok_def demo_conn_def demo_fb_def g buffers_def\<close>)
qed

lemma demo_conn_sel:
  "gx_ok (fb_fGpu (cn_fb (demo_conn p)))" "copy_engine (kn_io demo_kernel) fst snd (fb_fGpu (cn_fb (demo_conn p)))"
  "cn_fManaged (demo_conn p)"
  using demo_dev(2) demo_gpu_placed(2) by (simp_all add: demo_conn_def demo_fb_def)

abbreviation (input) demo_args :: "u64 list \<Rightarrow> u8 list option \<Rightarrow> u8 list option \<Rightarrow> ext_args" where
  "demo_args xs i out \<equiv> \<lparr>ea_scalarInput = xs, ea_structureInput = i, ea_structureInputDescriptor = None,
     ea_scalarOutputCount = 2, ea_structureOutput = out, ea_structureOutputDescriptor = None\<rparr>"


theorem buffer_roundtrip_witness:
  "\<exists>p out1 c1 rc out2 c2. externalMethod demo_kernel (False, False) kIOReturnSuccess (replicate 65536 0) 7
      (demo_args [1, 4] (Some [1, 2, 3, 4, 5]) None) (demo_conn p) = Some (kIOReturnSuccess, out1, c1)
    \<and> externalMethod demo_kernel (False, False) kIOReturnSuccess (replicate 65536 0) 9 (demo_args [1, 4, 2, 8, 5] None None) c1 = Some (rc, out2, c2)
    \<and> (rc = kIOReturnSuccess \<longrightarrow> (\<exists>out3 c3. externalMethod demo_kernel (False, False) kIOReturnSuccess (replicate 65536 0) 8
          (demo_args [2, 8] None (Some [0, 0, 0, 0, 0])) c2 = Some (kIOReturnSuccess, out3, c3)
         \<and> out_bytes out3 = [1, 2, 3, 4, 5]))"
proof -
  obtain p where p: "conn_ok (demo_conn p)" "buffers snd (demo_conn p) 1 = Some (replicate 8192 0)"
    "buffers snd (demo_conn p) 2 = Some (replicate 4096 0)" by (rule demo_conn_ok)
  let ?d = "replicate 65536 0 :: u8 list" and ?data = "[1, 2, 3, 4, 5] :: u8 list"
  have e: "encodes demo_kernel ?d (demo_args [1, 4] (Some ?data) None) (Write 1 4 ?data)"
    "encodes demo_kernel ?d (demo_args [1, 4, 2, 8, 5] None None) (Copy 1 4 2 8 (of_nat (length ?data)))"
    "encodes demo_kernel ?d (demo_args [2, 8] None (Some [0, 0, 0, 0, 0])) (Read 2 8 (length ?data))"
    by (simp_all add: input_data_def output_room_def)
  have r: "range_in (buffers snd (demo_conn p)) 1 (unat (4 :: u64)) (length ?data)"
    "range_in (buffers snd (demo_conn p)) 2 (unat (8 :: u64)) (length ?data)"
    by (simp_all add: range_in_def p(2,3))
  have "(1 :: u64) \<noteq> 2" "4 dvd unat (4 :: u64)" "4 dvd unat (8 :: u64)" by simp_all
  from buffer_roundtrip [OF p(1) demo_dev(1) demo_conn_sel(2,1) this r e, of kIOReturnSuccess] show ?thesis by blast
qed


theorem kext_session_safe_witness:
  "\<exists>s. (kext_step demo_kernel)\<^sup>*\<^sup>* \<lparr>kx_fb = demo_fb, kx_hw = (0, \<lambda>a. 0), kx_clients = []\<rparr> s \<and> length (kx_clients s) = 1
     \<and> conn_ok (connection_of s 0)"
proof -
  let ?s0 = "\<lparr>kx_fb = demo_fb, kx_hw = (0, \<lambda>a. 0), kx_clients = []\<rparr> :: (u64 \<times> (nat \<Rightarrow> u32)) kext"
  let ?e = "\<lparr>oe_alloc = True, oe_super_init = True, oe_lock = True, oe_attach = True, oe_super_start = True\<rparr>"
  let ?fb = "demo_fb\<lparr>fb_fGpuClients := 1\<rparr>"
  have g: "gx_scratch_va demo_gpu = 0x40100000" "gx_scratch_size demo_gpu = 0x40000000" "gx_ok demo_gpu" by (simp_all add: demo_gpu_def)
  have "newUserClient ?e kIOReturnSuccess MILCORIX_CONNECT_TYPE demo_fb = (kIOReturnSuccess, ?fb, Some (scratch_pool, gpuPoolVerified ?fb))"
    using scratch_pool_init
    by (simp add: newUserClient_def initWithTask_def start_def gpuClientOpen_def demo_fb_def g gpuScratchVA_def gpuScratchSize_def)
  from kext_step.opened [where s = ?s0 and kn = demo_kernel, simplified, OF this] obtain s where
    s: "kext_step demo_kernel ?s0 s" "length (kx_clients s) = 1" by auto
  then have reach: "(kext_step demo_kernel)\<^sup>*\<^sup>* ?s0 s" by blast
  have "fb_fGpuLock demo_fb" "fb_fGpuClients demo_fb = 0" "ctx_ready (fb_fGpu demo_fb)" using demo_ready by (simp_all add: demo_fb_def)
  from kext_session_safe [OF reach demo_dev(1) this] s(2) show ?thesis using reach by (intro exI [of _ s]) simp
qed

end
