(* ===== verification/FwsecRun.thy ===== *)
theory FwsecRun
  imports FwsecLocate FwsecPatch CpuSeq
begin

text \<open>
  The first step of \<open>driver/gsp/gsp_bringup.c\<close>: \<open>do_fwsec_frts\<close> reads the shadow of the VBIOS, finds and patches the
  FWSEC microcode and runs it on the GSP falcon, which creates the protected region WPR2.  \<^const>\<open>None\<close> is an access
  outside one of the buffers.
\<close>

abbreviation (input) FALCON_DESC_V3_SIZE :: nat where "FALCON_DESC_V3_SIZE \<equiv> 44"

section \<open>Reset, load and start of a falcon\<close>

text \<open>
  The sequence both FWSEC and the Booter go through: reset, DMA load, mailboxes and start.  \<^const>\<open>None\<close> inside the
  result says that the reset or the load failed; else it is the status of the run and mailbox 0.
\<close>

definition load_and_boot ::
  "'w mmio \<Rightarrow> u32 \<Rightarrow> u32 \<Rightarrow> u32 \<Rightarrow> u64 \<Rightarrow> nv_dma_load_target_t \<Rightarrow> nv_dma_load_target_t \<Rightarrow> u32 \<Rightarrow> u16 \<Rightarrow> u8 \<Rightarrow> u32 \<Rightarrow>
   u32 option \<Rightarrow> u32 option \<Rightarrow> 'w \<Rightarrow> ((int \<times> u32) option \<times> 'w) option" where
  "load_and_boot io base falcon2 boot0 iova im dm pkc engine_id_mask ucode_id boot_addr mbox0 mbox1 w =
     do { (rc, w) \<leftarrow> nv_falcon_reset_ga102 io base falcon2 boot0 TIMEOUT_US w;
          if rc \<noteq> NV_OK then Some (None, w)
          else do { (rc, w) \<leftarrow> nv_falcon_dma_load_ga102 io base falcon2 iova im dm pkc engine_id_mask ucode_id boot_addr TIMEOUT_US w;
                    if rc \<noteq> NV_OK then Some (None, w)
                    else do { (rc, mb, w) \<leftarrow> nv_falcon_boot io base mbox0 mbox1 TIMEOUT_US w;
                              Some (Some (rc, mb), w) } } }"

section \<open>FWSEC\<close>

text \<open>The loop that reads the shadow of the VBIOS word by word; \<open>n\<close> words are left.\<close>

primrec read_shadow :: "'w mmio \<Rightarrow> u32 \<Rightarrow> nat \<Rightarrow> 'w \<Rightarrow> u8 list \<times> 'w" where
  "read_shadow io a 0 w = ([], w)"
| "read_shadow io a (Suc n) w =
     (let (v, w) = io_rd io a w; (bs, w) = read_shadow io (a + 4) n w in (bytes32 v @ bs, w))"

text \<open>
  The image before it is signed: the place of the descriptor and the descriptor, or \<^const>\<open>None\<close> when a step refuses,
  and the buffer.
\<close>

definition fwsec_image ::
  "u8 list \<Rightarrow> u64 \<Rightarrow> u64 \<Rightarrow> u8 list \<Rightarrow> ((nat \<times> nv_fwsec_desc_t) option \<times> u8 list) option" where
  "fwsec_image vbios frts_addr frts_size ucode =
     do { loc \<leftarrow> nv_fwsec_locate vbios;
     case loc of Inl e \<Rightarrow> Some (None, ucode)
     | Inr desc_abs \<Rightarrow>
     do { p \<leftarrow> nv_fwsec_desc_parse (drop desc_abs vbios);
     case p of Inl e \<Rightarrow> Some (None, ucode)
     | Inr d \<Rightarrow>
       if fd_version d \<noteq> 3 then Some (None, ucode)
       else let uoff = desc_abs + unat (fd_hdr_size d); usz = unat (fd_imem_load_size d) + unat (fd_dmem_load_size d) in
       if usz > length ucode then Some (None, ucode)
       else do { src \<leftarrow> rd_bytes vbios uoff usz;
                 ucode \<leftarrow> wr_bytes (replicate (length ucode) 0) 0 src;
                 (rc, ucode) \<leftarrow> nv_fwsec_patch_frts ucode d frts_addr frts_size;
                 Some (if rc \<noteq> NV_FWSEC_OK then None else Some (desc_abs, d), ucode) } } }"

definition fwsec_sign ::
  "'w mmio \<Rightarrow> u8 list \<Rightarrow> nat \<Rightarrow> nv_fwsec_desc_t \<Rightarrow> u8 list \<Rightarrow> 'w \<Rightarrow> (int \<times> u8 list \<times> 'w) option" where
  "fwsec_sign io vbios desc_abs d ucode w =
     (if fd_signature_count d = 0 then Some (0, ucode, w)
      else let (rc, fv, w) = nv_falcon_signature_fuse_version_ga102 io (fd_engine_id_mask d) (fd_ucode_id d) w in
      if rc \<noteq> NV_OK then Some (-1, ucode, w)
      else case nv_fwsec_select_signature_index d fv of
        Inl e \<Rightarrow> Some (-1, ucode, w)
      | Inr si \<Rightarrow>
          let sat = desc_abs + FALCON_DESC_V3_SIZE + unat si * NV_BCRT30_RSA3K_SIG_SIZE in
          do { (rc, ucode) \<leftarrow> nv_fwsec_patch_signature ucode d (drop sat vbios);
               Some (if rc \<noteq> NV_FWSEC_OK then -1 else 0, ucode, w) })"

definition fwsec_boot :: "'w mmio \<Rightarrow> nv_fwsec_desc_t \<Rightarrow> u64 \<Rightarrow> u32 \<Rightarrow> 'w \<Rightarrow> (int \<times> 'w) option" where
  "fwsec_boot io d ucode_iova boot0 w =
     (let im = \<lparr>lt_src_start = 0, lt_dst_start = fd_imem_phys_base d, lt_len = fd_imem_load_size d\<rparr>;
          dm = \<lparr>lt_src_start = fd_imem_load_size d, lt_dst_start = fd_dmem_phys_base d, lt_len = fd_dmem_load_size d\<rparr> in
      do { (r, w) \<leftarrow> load_and_boot io NV_PGSP_FALCON_BASE NV_PGSP_FALCON2_BASE boot0 ucode_iova im dm
             (fd_pkc_data_offset d) (fd_engine_id_mask d) (fd_ucode_id d) 0 (Some 0) None w;
           case r of None \<Rightarrow> Some (-1, w)
           | Some (rc, mb) \<Rightarrow>
               let (is_set, lo, hi, w) = nv_wpr2_is_set io w in Some (if mb = 0 \<and> is_set then 0 else -1, w) })"

definition do_fwsec_frts ::
  "'w mmio \<Rightarrow> u64 \<Rightarrow> u64 \<Rightarrow> u64 \<Rightarrow> u8 list \<Rightarrow> u32 \<Rightarrow> 'w \<Rightarrow> (int \<times> u8 list \<times> 'w) option" where
  "do_fwsec_frts io frts_addr frts_size ucode_iova ucode boot0 w =
     (let (vbios, w) = read_shadow io NV_ROM_SHADOW_BASE (unat NV_VBIOS_SCAN_MAX div 4) w in
      do { (r, ucode) \<leftarrow> fwsec_image vbios frts_addr frts_size ucode;
           case r of None \<Rightarrow> Some (-1, ucode, w)
           | Some (desc_abs, d) \<Rightarrow>
             do { (rc, ucode, w) \<leftarrow> fwsec_sign io vbios desc_abs d ucode w;
                  if rc \<noteq> 0 then Some (-1, ucode, w)
                  else do { (rc, w) \<leftarrow> fwsec_boot io d ucode_iova boot0 w; Some (rc, ucode, w) } } })"

section \<open>What a run writes\<close>

text \<open>The writes of a load; \<open>v1\<close> and \<open>v2\<close> are what two registers held before.\<close>

definition load_writes ::
  "u32 \<Rightarrow> u32 \<Rightarrow> u64 \<Rightarrow> nv_dma_load_target_t \<Rightarrow> nv_dma_load_target_t \<Rightarrow> u32 \<Rightarrow> u16 \<Rightarrow> u8 \<Rightarrow> u32 \<Rightarrow> u32 \<Rightarrow> u32 \<Rightarrow> reg_write list" where
  "load_writes base falcon2 iova im dm pkc eng uc boot_addr v1 v2 =
     [(base + NV_PFALCON_FBIF_CTL_OFF, v1 OR NV_PFALCON_FBIF_CTL_ALLOW_PHYS_NO_CTX), (base + NV_PFALCON_FALCON_DMACTL_OFF, 0),
      (base + NV_PFALCON_FBIF_TRANSCFG_OFF, (v2 AND NOT 7) OR (push_bit 2 NV_FBIF_MEM_TYPE_PHYSICAL OR NV_FBIF_TARGET_COHERENT_SYSMEM))]
     @ dma_blocks base iova NV_FALCON_MEM_IMEM_SECURE im (dma_count im) @ dma_blocks base iova NV_FALCON_MEM_DMEM dm (dma_count dm)
     @ [(falcon2 + NV_PFALCON2_FALCON_BROM_PARAADDR_OFF, pkc), (falcon2 + NV_PFALCON2_FALCON_BROM_ENGIDMASK_OFF, ucast eng),
        (falcon2 + NV_PFALCON2_FALCON_BROM_CURR_UCODE_ID_OFF, ucast uc), (falcon2 + NV_PFALCON2_FALCON_MOD_SEL_OFF, 1),
        (base + NV_PFALCON_FALCON_BOOTVEC_OFF, boot_addr)]"

definition mbox_writes :: "u32 \<Rightarrow> u32 option \<Rightarrow> u32 option \<Rightarrow> reg_write list" where
  "mbox_writes base mb0 mb1 = (case mb0 of None \<Rightarrow> [] | Some v \<Rightarrow> [(base + NV_PFALCON_FALCON_MAILBOX0_OFF, v)])
     @ (case mb1 of None \<Rightarrow> [] | Some v \<Rightarrow> [(base + NV_PFALCON_FALCON_MAILBOX1_OFF, v)])"

definition start_write :: "u32 \<Rightarrow> reg_write \<Rightarrow> bool" where
  "start_write base x \<longleftrightarrow> x \<in> {(base + NV_PFALCON_FALCON_CPUCTL_ALIAS_OFF, NV_PFALCON_CPUCTL_ALIAS_STARTCPU),
     (base + NV_PFALCON_FALCON_CPUCTL_OFF, NV_PFALCON_CPUCTL_STARTCPU)}"

definition run_log ::
  "u32 \<Rightarrow> u32 \<Rightarrow> u32 \<Rightarrow> u64 \<Rightarrow> nv_dma_load_target_t \<Rightarrow> nv_dma_load_target_t \<Rightarrow> u32 \<Rightarrow> u16 \<Rightarrow> u8 \<Rightarrow> u32 \<Rightarrow>
   u32 option \<Rightarrow> u32 option \<Rightarrow> reg_write list \<Rightarrow> reg_write list \<Rightarrow> bool" where
  "run_log base falcon2 boot0 iova im dm pkc eng uc boot_addr mb0 mb1 l l' \<longleftrightarrow>
     (\<exists>a b sel v1 v2 x. (sel = [] \<or> sel = [(falcon2 + NV_PRISCV_RISCV_BCR_CTRL_OFF, 0)]) \<and> start_write base x
        \<and> l' = l @ [(base + NV_PFALCON_FALCON_ENGINE_OFF, a OR 1), (base + NV_PFALCON_FALCON_ENGINE_OFF, b AND NOT 1)]
            @ sel @ [(base + NV_PFALCON_FALCON_RM_OFF, boot0)]
            @ load_writes base falcon2 iova im dm pkc eng uc boot_addr v1 v2 @ mbox_writes base mb0 mb1 @ [x])"

lemma timeout_fits: "poll_fits TIMEOUT_US NV_POLL_STEP_US" "poll_fits TIMEOUT_US 10"
  by (simp_all add: poll_fits_def)

context logged_port
begin

lemma start_log: "\<exists>x. start_write base x \<and> wlog (nv_falcon_start io base w) = wlog w @ [x]"
  by (auto simp: nv_falcon_start_def start_write_def Let_def log_simps log_rd_snd split: prod.splits dest: log_rd)

lemma boot_log:
  "\<exists>rc mb w' x. nv_falcon_boot io base mb0 mb1 TIMEOUT_US w = Some (rc, mb, w') \<and> start_write base x
     \<and> wlog w' = wlog w @ mbox_writes base mb0 mb1 @ [x]"
proof -
  let ?w1 = "case mb0 of Some v \<Rightarrow> nv_falcon_write_mailbox0 io base v w | None \<Rightarrow> w"
  let ?w2 = "case mb1 of Some v \<Rightarrow> nv_falcon_write_mailbox1 io base v ?w1 | None \<Rightarrow> ?w1"
  have m: "wlog ?w2 = wlog w @ mbox_writes base mb0 mb1"
    by (simp add: mbox_writes_def nv_falcon_write_mailbox0_def nv_falcon_write_mailbox1_def log_wr split: option.split)
  obtain x where x: "start_write base x" "wlog (nv_falcon_start io base ?w2) = wlog ?w2 @ [x]" using start_log by blast
  obtain rc w3 where p: "nv_falcon_wait_halted io base TIMEOUT_US (nv_falcon_start io base ?w2) = Some (rc, w3)"
    "wlog w3 = wlog (nv_falcon_start io base ?w2)"
    using poll_ends [OF timeout_fits(2)] unfolding nv_falcon_wait_halted_def by metis
  obtain mb w' where r: "nv_falcon_read_mailbox0 io base w3 = (mb, w')" by (cases "nv_falcon_read_mailbox0 io base w3")
  have "wlog w' = wlog w3" using r unfolding nv_falcon_read_mailbox0_def by (rule log_rd)
  then show ?thesis using p r x m
    by (intro exI [of _ rc] exI [of _ mb] exI [of _ w'] exI [of _ x]) (simp add: nv_falcon_boot_def Let_def)
qed

lemma load_log:
  assumes len: "unat (lt_len im) + 255 < 2 ^ 32" "unat (lt_len dm) + 255 < 2 ^ 32"
  shows "\<exists>rc w'. nv_falcon_dma_load_ga102 io base falcon2 iova im dm pkc eng uc boot_addr TIMEOUT_US w = Some (rc, w')
     \<and> (rc = NV_OK \<longrightarrow> (\<exists>v1 v2. wlog w' = wlog w @ load_writes base falcon2 iova im dm pkc eng uc boot_addr v1 v2))"
proof -
  have dma: "\<exists>rc w'. nv_falcon_dma_wr io base iova mem t TIMEOUT_US u = Some (rc, w')
      \<and> (rc = NV_OK \<longrightarrow> wlog w' = wlog u @ dma_blocks base iova mem t (dma_count t))"
    if "unat (lt_len t) + 255 < 2 ^ 32" for mem t u
    using dma_wr_log [OF timeout_fits(1) that, of iova mem base u] dma_wr_misaligned [of iova mem t base TIMEOUT_US u]
    by (cases "fst (dma_plan iova mem t) mod 256 = 0") auto
  obtain v1 wa where a: "io_rd io (base + NV_PFALCON_FBIF_CTL_OFF) w = (v1, wa)" by (cases "io_rd io (base + NV_PFALCON_FBIF_CTL_OFF) w")
  let ?wb = "nv_falcon_dma_reset io base w"
  have b: "wlog ?wb = wlog w @ [(base + NV_PFALCON_FBIF_CTL_OFF, v1 OR NV_PFALCON_FBIF_CTL_ALLOW_PHYS_NO_CTX),
      (base + NV_PFALCON_FALCON_DMACTL_OFF, 0)]"
    using a log_rd [OF a] by (simp add: nv_falcon_dma_reset_def log_wr Let_def)
  obtain v2 wc where c: "io_rd io (base + NV_PFALCON_FBIF_TRANSCFG_OFF) ?wb = (v2, wc)"
    by (cases "io_rd io (base + NV_PFALCON_FBIF_TRANSCFG_OFF) ?wb")
  let ?v = "(v2 AND NOT 7) OR (push_bit 2 NV_FBIF_MEM_TYPE_PHYSICAL OR NV_FBIF_TARGET_COHERENT_SYSMEM)"
  let ?wd = "io_wr io (base + NV_PFALCON_FBIF_TRANSCFG_OFF) ?v wc"
  have d: "wlog ?wd = wlog ?wb @ [(base + NV_PFALCON_FBIF_TRANSCFG_OFF, ?v)]" using log_rd [OF c] by (simp add: log_wr)
  obtain rc1 we where e: "nv_falcon_dma_wr io base iova NV_FALCON_MEM_IMEM_SECURE im TIMEOUT_US ?wd = Some (rc1, we)"
    "rc1 = NV_OK \<Longrightarrow> wlog we = wlog ?wd @ dma_blocks base iova NV_FALCON_MEM_IMEM_SECURE im (dma_count im)"
    using dma [OF len(1)] by blast
  obtain rc2 wf where f: "nv_falcon_dma_wr io base iova NV_FALCON_MEM_DMEM dm TIMEOUT_US we = Some (rc2, wf)"
    "rc2 = NV_OK \<Longrightarrow> wlog wf = wlog we @ dma_blocks base iova NV_FALCON_MEM_DMEM dm (dma_count dm)"
    using dma [OF len(2)] by blast
  let ?wg = "io_wr io (base + NV_PFALCON_FALCON_BOOTVEC_OFF) boot_addr (nv_falcon_program_brom_ga102 io falcon2 pkc eng uc wf)"
  have g: "wlog ?wg = wlog wf @ [(falcon2 + NV_PFALCON2_FALCON_BROM_PARAADDR_OFF, pkc),
      (falcon2 + NV_PFALCON2_FALCON_BROM_ENGIDMASK_OFF, ucast eng), (falcon2 + NV_PFALCON2_FALCON_BROM_CURR_UCODE_ID_OFF, ucast uc),
      (falcon2 + NV_PFALCON2_FALCON_MOD_SEL_OFF, 1), (base + NV_PFALCON_FALCON_BOOTVEC_OFF, boot_addr)]"
    by (simp add: nv_falcon_program_brom_ga102_def Let_def log_wr)
  have run: "nv_falcon_dma_load_ga102 io base falcon2 iova im dm pkc eng uc boot_addr TIMEOUT_US w =
      (if rc1 \<noteq> NV_OK then Some (rc1, we) else if rc2 \<noteq> NV_OK then Some (rc2, wf) else Some (NV_OK, ?wg))"
    using c e(1) f(1) by (simp add: nv_falcon_dma_load_ga102_def Let_def)
  show ?thesis
  proof (cases "rc1 = NV_OK \<and> rc2 = NV_OK")
    case True
    then have "wlog ?wg = wlog w @ load_writes base falcon2 iova im dm pkc eng uc boot_addr v1 v2"
      using e(2) f(2) b d g unfolding load_writes_def by simp
    then show ?thesis using run True by auto
  qed (use run in auto)
qed

lemma load_and_boot_log:
  assumes "unat (lt_len im) + 255 < 2 ^ 32" "unat (lt_len dm) + 255 < 2 ^ 32"
  shows "\<exists>r w'. load_and_boot io base falcon2 boot0 iova im dm pkc eng uc boot_addr mb0 mb1 w = Some (r, w')
     \<and> (r \<noteq> None \<longrightarrow> run_log base falcon2 boot0 iova im dm pkc eng uc boot_addr mb0 mb1 (wlog w) (wlog w'))"
proof -
  obtain rc1 w1 a b sel where r: "nv_falcon_reset_ga102 io base falcon2 boot0 TIMEOUT_US w = Some (rc1, w1)"
    "sel = [] \<or> sel = [(falcon2 + NV_PRISCV_RISCV_BCR_CTRL_OFF, 0)]"
    "wlog w1 = wlog w @ [(base + NV_PFALCON_FALCON_ENGINE_OFF, a OR 1), (base + NV_PFALCON_FALCON_ENGINE_OFF, b AND NOT 1)]
       @ sel @ (if rc1 = NV_OK then [(base + NV_PFALCON_FALCON_RM_OFF, boot0)] else [])"
    using reset_ga102_log [OF timeout_fits(1), of base falcon2 boot0 w] by blast
  obtain rc2 w2 where ld: "nv_falcon_dma_load_ga102 io base falcon2 iova im dm pkc eng uc boot_addr TIMEOUT_US w1 = Some (rc2, w2)"
    "rc2 = NV_OK \<Longrightarrow> \<exists>v1 v2. wlog w2 = wlog w1 @ load_writes base falcon2 iova im dm pkc eng uc boot_addr v1 v2"
    using load_log [OF assms] by blast
  obtain rc3 mb w3 x where bt: "nv_falcon_boot io base mb0 mb1 TIMEOUT_US w2 = Some (rc3, mb, w3)" "start_write base x"
    "wlog w3 = wlog w2 @ mbox_writes base mb0 mb1 @ [x]"
    using boot_log by blast
  have run: "load_and_boot io base falcon2 boot0 iova im dm pkc eng uc boot_addr mb0 mb1 w =
      Some (if rc1 \<noteq> NV_OK then (None, w1) else if rc2 \<noteq> NV_OK then (None, w2) else (Some (rc3, mb), w3))"
    using r(1) ld(1) bt(1) by (simp add: load_and_boot_def)
  show ?thesis
  proof (cases "rc1 = NV_OK \<and> rc2 = NV_OK")
    case True
    then obtain v1 v2 where "wlog w2 = wlog w1 @ load_writes base falcon2 iova im dm pkc eng uc boot_addr v1 v2" using ld(2) by blast
    then have "run_log base falcon2 boot0 iova im dm pkc eng uc boot_addr mb0 mb1 (wlog w) (wlog w3)"
      using True r(2,3) bt(2,3) unfolding run_log_def
      by (intro exI [of _ a] exI [of _ b] exI [of _ sel] exI [of _ v1] exI [of _ v2] exI [of _ x]) simp
    then show ?thesis using run True by auto
  qed (use run in auto)
qed

end

section \<open>The stages of FWSEC\<close>

definition fwsec_payload :: "u8 list \<Rightarrow> nat \<Rightarrow> nv_fwsec_desc_t \<Rightarrow> nat \<Rightarrow> u8 list" where
  "fwsec_payload vbios desc_abs d cap =
     splice (replicate cap 0) 0 (fld vbios (desc_abs + unat (fd_hdr_size d)) (unat (fd_imem_load_size d) + unat (fd_dmem_load_size d)))"

definition fwsec_found :: "u8 list \<Rightarrow> nat \<Rightarrow> nat \<Rightarrow> nv_fwsec_desc_t \<Rightarrow> bool" where
  "fwsec_found vbios cap desc_abs d \<longleftrightarrow> nv_fwsec_locate vbios = Some (Inr desc_abs)
     \<and> nv_fwsec_desc_parse (drop desc_abs vbios) = Some (Inr d) \<and> fd_version d = 3
     \<and> unat (fd_imem_load_size d) + unat (fd_dmem_load_size d) \<le> cap"

text \<open>The \<open>si\<close>-th signature of the descriptor is put in; a descriptor without signatures is left as it is.\<close>

definition fwsec_signed :: "u8 list \<Rightarrow> nat \<Rightarrow> nv_fwsec_desc_t \<Rightarrow> u8 list \<Rightarrow> u8 list \<Rightarrow> bool" where
  "fwsec_signed vbios desc_abs d u u' \<longleftrightarrow>
     (if fd_signature_count d = 0 then u' = u
      else \<exists>si < 16. desc_abs + 44 + si * 384 + 384 \<le> length vbios
        \<and> u' = splice u (unat (fd_imem_load_size d) + unat (fd_pkc_data_offset d)) (fld vbios (desc_abs + 44 + si * 384) 384))"

text \<open>The complete image: the payload of the VBIOS with the FRTS command and the signature.\<close>

definition fwsec_staged :: "u8 list \<Rightarrow> u64 \<Rightarrow> u64 \<Rightarrow> nat \<Rightarrow> nv_fwsec_desc_t \<Rightarrow> u8 list \<Rightarrow> bool" where
  "fwsec_staged vbios frts_addr frts_size cap d u \<longleftrightarrow> (\<exists>desc_abs u1. fwsec_found vbios cap desc_abs d
     \<and> desc_abs + unat (fd_hdr_size d) + unat (fd_imem_load_size d) + unat (fd_dmem_load_size d) \<le> length vbios
     \<and> frts_outcome (fwsec_payload vbios desc_abs d cap) d frts_addr frts_size NV_FWSEC_OK u1 \<and> fwsec_signed vbios desc_abs d u1 u)"

text \<open>A VBIOS that makes the run read past its end.\<close>

definition fwsec_overread :: "u8 list \<Rightarrow> nat \<Rightarrow> bool" where
  "fwsec_overread vbios cap \<longleftrightarrow> nv_fwsec_locate vbios = None \<or> (\<exists>desc_abs d. fwsec_found vbios cap desc_abs d
     \<and> (length vbios < desc_abs + unat (fd_hdr_size d) + unat (fd_imem_load_size d) + unat (fd_dmem_load_size d)
        \<or> fd_signature_count d \<noteq> 0 \<and> (\<exists>si < 16. length vbios < desc_abs + 44 + si * 384 + 384)))"

lemma desc_parse_total [simp]: "nv_fwsec_desc_parse b \<noteq> None"
proof -
  have "returns (nv_fwsec_desc_parse b) (\<lambda>_. True)"
    unfolding nv_fwsec_desc_parse_def by (intro ret_rules; simp)
  then show ?thesis by (auto simp: returns_def)
qed

lemma length_read_shadow: "length (fst (read_shadow io a n w)) = 4 * n"
  by (induction n arbitrary: a w) (simp_all add: Let_def case_prod_beta)

lemma read_shadow_log: "snd (snd (read_shadow (traced io) a n (w, l))) = l"
  by (induction n arbitrary: a w l) (auto simp: Let_def case_prod_beta traced_def)

lemma fwsec_image_spec:
  "(case fwsec_image vbios a s u of
      None \<Rightarrow> fwsec_overread vbios (length u)
    | Some (None, u') \<Rightarrow> length u' = length u
    | Some (Some (at, d), u') \<Rightarrow> length u' = length u \<and> fwsec_found vbios (length u) at d
        \<and> at + unat (fd_hdr_size d) + unat (fd_imem_load_size d) + unat (fd_dmem_load_size d) \<le> length vbios
        \<and> frts_outcome (fwsec_payload vbios at d (length u)) d a s NV_FWSEC_OK u')"
proof (cases "\<exists>at d. fwsec_found vbios (length u) at d")
  case False
  then show ?thesis
    by (auto simp: fwsec_image_def fwsec_found_def fwsec_overread_def Let_def not_less
        split: option.splits sum.splits Option.bind_splits)
next
  case True
  then obtain at d where f: "fwsec_found vbios (length u) at d" by blast
  let ?o = "at + unat (fd_hdr_size d)" and ?n = "unat (fd_imem_load_size d) + unat (fd_dmem_load_size d)"
  show ?thesis
  proof (cases "?o + ?n \<le> length vbios")
    case False
    then have "fwsec_image vbios a s u = None" using f
      by (simp add: fwsec_image_def fwsec_found_def Let_def rd_bytes_def add.assoc)
    moreover have "fwsec_overread vbios (length u)"
      unfolding fwsec_overread_def using f False by (intro disjI2 exI [of _ at] exI [of _ d]) simp
    ultimately show ?thesis by simp
  next
    case fit: True
    let ?p = "fwsec_payload vbios at d (length u)"
    have l: "length (fld vbios ?o ?n) = ?n" using fit by simp
    have lp: "length ?p = length u" using f l by (simp add: fwsec_payload_def fwsec_found_def)
    obtain rc u' where r: "nv_fwsec_patch_frts ?p d a s = Some (rc, u')" "frts_outcome ?p d a s rc u'" "length u' = length ?p"
      using returnsD [OF patch_frts_spec [of ?p d a s]] by auto
    have "fwsec_image vbios a s u = Some (if rc \<noteq> NV_FWSEC_OK then None else Some (at, d), u')"
      using f fit r(1) l by (simp add: fwsec_image_def fwsec_found_def Let_def rd_bytes_fld fwsec_payload_def)
    then show ?thesis using f fit r lp by (auto simp: add.assoc)
  qed
qed

lemma signature_index_small:
  assumes "nv_fwsec_select_signature_index d fv = Inr si"
  shows "unat si < 16"
proof -
  let ?v = "ucast (fd_signature_versions d) :: u32"
  have fv: "?v AND push_bit (unat fv) 1 \<noteq> 0" "si = popcount32 (?v AND (push_bit (unat fv) 1 - 1))"
    using assms by (auto simp: nv_fwsec_select_signature_index_def Let_def split: if_splits)
  have b: "bit ?v (unat fv)"
  proof (rule ccontr)
    assume "\<not> bit ?v (unat fv)"
    then have "?v AND push_bit (unat fv) 1 = 0" by (intro bit_word_eqI) (auto simp: bit_and_iff bit_exp_iff)
    then show False using fv(1) by blast
  qed
  then have lt: "unat fv < 16" using bit_imp_le_length [of "fd_signature_versions d"] by (simp add: bit_ucast_iff)
  have "bits (?v AND (push_bit (unat fv) 1 - 1)) \<subseteq> {..< unat fv}"
    by (auto simp: bits_def bit_and_iff push_bit_of_1 mask_eq_exp_minus_1 [symmetric] bit_mask_iff)
  then have "card (bits (?v AND (push_bit (unat fv) 1 - 1))) \<le> unat fv"
    using card_mono [of "{..< unat fv}"] by fastforce
  then show ?thesis using lt fv(2) by (simp add: unat_popcount32)
qed

lemma fuse_version_log: "nv_falcon_signature_fuse_version_ga102 (traced io) m i (w, l) = (rc, fv, w') \<Longrightarrow> snd w' = l"
  by (auto simp: nv_falcon_signature_fuse_version_ga102_def Let_def traced_def split: if_splits option.splits prod.splits)

lemma fwsec_sign_spec:
  assumes "fwsec_found vbios cap at d"
  shows "(case fwsec_sign (traced io) vbios at d u (w, l) of
      None \<Rightarrow> fwsec_overread vbios cap
    | Some (rc, u', w') \<Rightarrow> snd w' = l \<and> length u' = length u \<and> (rc = 0 \<longrightarrow> fwsec_signed vbios at d u u'))"
proof (cases "fd_signature_count d = 0")
  case False
  obtain rc fv wl where f: "nv_falcon_signature_fuse_version_ga102 (traced io) (fd_engine_id_mask d) (fd_ucode_id d) (w, l) = (rc, fv, wl)"
    by (metis prod_cases3)
  have log: "snd wl = l" by (rule fuse_version_log [OF f])
  show ?thesis
  proof (cases "rc = NV_OK \<and> (\<exists>si. nv_fwsec_select_signature_index d fv = Inr si)")
    case False
    then show ?thesis using f log \<open>fd_signature_count d \<noteq> 0\<close> by (auto simp: fwsec_sign_def split: sum.splits)
  next
    case True
    then obtain si where si: "nv_fwsec_select_signature_index d fv = Inr si" by blast
    note lt = signature_index_small [OF si]
    let ?sat = "at + 44 + unat si * 384" and ?off = "unat (fd_imem_load_size d) + unat (fd_pkc_data_offset d)"
    have run: "fwsec_sign (traced io) vbios at d u (w, l) = do { (rc, u) \<leftarrow> nv_fwsec_patch_signature u d (drop ?sat vbios);
        Some (if rc \<noteq> NV_FWSEC_OK then -1 else 0, u, wl) }"
      using f True si \<open>fd_signature_count d \<noteq> 0\<close> by (simp add: fwsec_sign_def Let_def)
    show ?thesis
    proof (cases "fits ?off 384 (length u)")
      case True
      show ?thesis
      proof (cases "?sat + 384 \<le> length vbios")
        case fit: True
        then have "rd_bytes (drop ?sat vbios) 0 384 = Some (fld vbios ?sat 384)" by (simp add: rd_bytes_def fld_def)
        moreover have "?off + 384 \<le> length u" using True by (simp add: fits_iff)
        moreover have "fwsec_signed vbios at d u (splice u ?off (fld vbios ?sat 384))"
          using lt fit \<open>fd_signature_count d \<noteq> 0\<close> unfolding fwsec_signed_def by auto
        ultimately show ?thesis unfolding run using True fit log by (simp add: nv_fwsec_patch_signature_def Let_def)
      next
        case short: False
        then have "rd_bytes (drop ?sat vbios) 0 384 = None" by (simp add: rd_bytes_def)
        then have "fwsec_sign (traced io) vbios at d u (w, l) = None"
          unfolding run using True by (simp add: nv_fwsec_patch_signature_def Let_def)
        moreover have "fwsec_overread vbios cap"
          using assms \<open>fd_signature_count d \<noteq> 0\<close> lt short unfolding fwsec_overread_def by (auto simp: not_le)
        ultimately show ?thesis by simp
      qed
    next
      case False
      then show ?thesis unfolding run using log by (simp add: nv_fwsec_patch_signature_def Let_def)
    qed
  qed
qed (simp add: fwsec_sign_def fwsec_signed_def)

text \<open>
  The outcome of a run: refused before any register was written; tried with the complete image; or done: the
  complete image was loaded and started, and WPR2 is set.
\<close>

definition fwsec_targets :: "nv_fwsec_desc_t \<Rightarrow> nv_dma_load_target_t \<times> nv_dma_load_target_t" where
  "fwsec_targets d = (\<lparr>lt_src_start = 0, lt_dst_start = fd_imem_phys_base d, lt_len = fd_imem_load_size d\<rparr>,
     \<lparr>lt_src_start = fd_imem_load_size d, lt_dst_start = fd_dmem_phys_base d, lt_len = fd_dmem_load_size d\<rparr>)"

definition fwsec_done ::
  "'w mmio \<Rightarrow> nv_fwsec_desc_t \<Rightarrow> u64 \<Rightarrow> u32 \<Rightarrow> reg_write list \<Rightarrow> 'w \<times> reg_write list \<Rightarrow> bool" where
  "fwsec_done io d iova boot0 l w' \<longleftrightarrow>
     run_log NV_PGSP_FALCON_BASE NV_PGSP_FALCON2_BASE boot0 iova (fst (fwsec_targets d)) (snd (fwsec_targets d))
       (fd_pkc_data_offset d) (fd_engine_id_mask d) (fd_ucode_id d) 0 (Some 0) None l (snd w')
     \<and> (\<exists>w1 lo hi. nv_wpr2_is_set (traced io) w1 = (True, lo, hi, w'))"

definition fwsec_outcome ::
  "'w mmio \<Rightarrow> u8 list \<Rightarrow> u64 \<Rightarrow> u64 \<Rightarrow> u64 \<Rightarrow> u32 \<Rightarrow> nat \<Rightarrow> reg_write list \<Rightarrow> int \<Rightarrow> u8 list \<Rightarrow> 'w \<times> reg_write list \<Rightarrow> bool" where
  "fwsec_outcome io vbios frts_addr frts_size iova boot0 cap l rc u w' \<longleftrightarrow> length u = cap
     \<and> (rc = -1 \<and> snd w' = l \<or> (\<exists>d. fwsec_staged vbios frts_addr frts_size cap d u
          \<and> (rc = -1 \<or> rc = 0 \<and> fwsec_done io d iova boot0 l w')))"

lemma wpr2_log: "nv_wpr2_is_set (traced io) w = (b, lo, hi, w') \<Longrightarrow> snd w' = snd w"
  by (cases w) (auto simp: nv_wpr2_is_set_def Let_def traced_def split: prod.splits)

lemma fwsec_boot_spec:
  assumes "unat (fd_imem_load_size d) + unat (fd_dmem_load_size d) \<le> 0x100000"
  shows "\<exists>rc w'. fwsec_boot (traced io) d iova boot0 (w, l) = Some (rc, w') \<and> (rc = -1 \<or> rc = 0 \<and> fwsec_done io d iova boot0 l w')"
proof -
  let ?im = "fst (fwsec_targets d)" and ?dm = "snd (fwsec_targets d)"
  have "unat (lt_len ?im) + 255 < 2 ^ 32" "unat (lt_len ?dm) + 255 < 2 ^ 32" using assms by (simp_all add: fwsec_targets_def)
  from tr.load_and_boot_log [OF this, of io NV_PGSP_FALCON_BASE NV_PGSP_FALCON2_BASE boot0 iova "fd_pkc_data_offset d"
      "fd_engine_id_mask d" "fd_ucode_id d" 0 "Some 0" None "(w, l)"]
  obtain r w1 where r: "load_and_boot (traced io) NV_PGSP_FALCON_BASE NV_PGSP_FALCON2_BASE boot0 iova ?im ?dm
      (fd_pkc_data_offset d) (fd_engine_id_mask d) (fd_ucode_id d) 0 (Some 0) None (w, l) = Some (r, w1)"
    "r \<noteq> None \<Longrightarrow> run_log NV_PGSP_FALCON_BASE NV_PGSP_FALCON2_BASE boot0 iova ?im ?dm
      (fd_pkc_data_offset d) (fd_engine_id_mask d) (fd_ucode_id d) 0 (Some 0) None l (snd w1)"
    by auto
  show ?thesis
  proof (cases r)
    case None
    then show ?thesis using r(1) by (simp add: fwsec_boot_def fwsec_targets_def Let_def)
  next
    case (Some x)
    obtain rc mb where x: "x = (rc, mb)" by (cases x)
    obtain b lo hi w2 where q: "nv_wpr2_is_set (traced io) w1 = (b, lo, hi, w2)" by (metis prod_cases4)
    have "fwsec_boot (traced io) d iova boot0 (w, l) = Some (if mb = 0 \<and> b then 0 else -1, w2)"
      using r(1) Some x q by (simp add: fwsec_boot_def fwsec_targets_def Let_def)
    moreover have "fwsec_done io d iova boot0 l w2" if b
      using r(2) Some q that wpr2_log [OF q] unfolding fwsec_done_def by (cases w1) auto
    ultimately show ?thesis by auto
  qed
qed


text \<open>A machine whose registers all read zero has no VBIOS: the run is refused and writes nothing.\<close>

definition zero_io :: "unit mmio" where
  "zero_io = \<lparr>io_rd = (\<lambda>r w. (0, w)), io_wr = (\<lambda>r v w. w), io_udelay = (\<lambda>d w. w)\<rparr>"

lemma zero_shadow: "read_shadow (traced zero_io) a n (w, l) = (replicate (4 * n) 0, w, l)"
proof (induction n arbitrary: a)
  case (Suc n)
  have "bytes32 0 = replicate 4 0" by (simp add: bytes32_def numeral_eq_Suc)
  then show ?case using Suc by (simp add: traced_def zero_io_def replicate_add)
qed simp

lemma zero_locate: "nv_fwsec_locate (replicate 0x100000 0) = Some (Inl NV_FWSEC_LOC_ERR_NOSIG)"
proof -
  have z: "ld16 (replicate 0x100000 0) 0 = Some 0" by (simp add: ld16_def rd8_def le16_def)
  have "walk_images (replicate 0x100000 0) 0 (Suc 31) = Some []" by (subst walk_images.simps) (simp add: fits_iff z)
  then show ?thesis by (simp add: nv_fwsec_locate_def)
qed


end
