(* ===== verification/GspStage.thy ===== *)
theory GspStage
  imports FwsecRun GspFw GspRpc FbLayout Dma
begin

text \<open>
  The staging half of \<open>nv_gsp_bringup\<close> in \<open>driver/gsp/gsp_bringup.c\<close>: the firmware files are checked, the arena is
  cut into blocks, FWSEC is run, and the memory GSP-RM and the Booter start from is filled: firmware image with its
  radix table, boot loader, signature, the WPR2 description, the boot arguments and the two queues with the first
  two commands.  A firmware file is what \<open>nv_fw_blob_get\<close> gives for its name; \<^const>\<open>None\<close> is an access outside a
  block, and a failing return of the code is \<^const>\<open>None\<close> inside the result.
\<close>

abbreviation (input) NV_GSP_LIBOS_LOG_SIZE :: u64 where "NV_GSP_LIBOS_LOG_SIZE \<equiv> 0x10000"

type_synonym fw_blobs = "string \<Rightarrow> u8 list option"

record nv_gsp_pci_info =
  pi_bar0 :: u64
  pi_bar1 :: u64
  pi_bar3 :: u64
  pi_devid :: u64

section \<open>Firmware and blocks\<close>

definition sig_section :: "u8 list" where
  "sig_section = map of_char ''.fwsignature_ad10x''"

record firmware =
  fw_gsp :: "u8 list"
  fw_sec :: nv_gsp_sections_t
  fw_blb :: "u8 list"
  fw_bl :: nv_gsp_bootloader_t
  fw_l2p :: u32

definition load_firmware :: "fw_blobs \<Rightarrow> firmware option option" where
  "load_firmware blobs =
     (case blobs ''gsp'' of None \<Rightarrow> Some None
      | Some gsp \<Rightarrow> do { s \<leftarrow> nv_gsp_rm_sections gsp sig_section;
      case s of Inl e \<Rightarrow> Some None
      | Inr sec \<Rightarrow> (case blobs ''bootloader'' of None \<Rightarrow> Some None
      | Some blb \<Rightarrow> do { b \<leftarrow> nv_gsp_bootloader_parse blb;
      case b of Inl e \<Rightarrow> Some None
      | Inr bl \<Rightarrow> (case nv_gsp_radix3_levels (sn_fwimage_size sec) of Inl e \<Rightarrow> Some None
      | Inr (n2, l2p) \<Rightarrow> Some (Some \<lparr>fw_gsp = gsp, fw_sec = sec, fw_blb = blb, fw_bl = bl, fw_l2p = l2p\<rparr>)) }) })"

text \<open>The blocks in the order they are allocated.\<close>

definition block_sizes :: "firmware \<Rightarrow> u64 list" where
  "block_sizes fw = [0x100000, 0x100000, sn_fwimage_size (fw_sec fw), ucast (fw_l2p fw) * 0x1000, 0x1000, 0x1000,
     ucast (bl_data_size (fw_bl fw)), sn_sig_size (fw_sec fw), 0x1000, 0x1000, NV_GSP_LIBOS_LOG_SIZE, NV_GSP_LIBOS_LOG_SIZE,
     NV_GSP_LIBOS_LOG_SIZE, 0x1000, sl_total_size nv_gsp_shm_compute, ucast NV_VBIOS_SCAN_MAX]"

text \<open>Allocation stops at the first request that does not fit.\<close>

fun alloc_all :: "nv_dma_arena_t \<Rightarrow> u64 list \<Rightarrow> u64 list option \<times> nv_dma_arena_t" where
  "alloc_all ar [] = (Some [], ar)"
| "alloc_all ar (n # ns) =
     (let (rc, v, d, ar) = nv_dma_alloc ar n in
      if rc \<noteq> 0 then (None, ar)
      else let (ds, ar) = alloc_all ar ns in (map_option ((#) d) ds, ar))"

record gsp_blocks =
  bk_fwsec :: u64
  bk_booter :: u64
  bk_fwimg :: u64
  bk_lvl2 :: u64
  bk_lvl1 :: u64
  bk_lvl0 :: u64
  bk_bl :: u64
  bk_sig :: u64
  bk_meta :: u64
  bk_libos :: u64
  bk_loginit :: u64
  bk_logintr :: u64
  bk_logrm :: u64
  bk_rmargs :: u64
  bk_shm :: u64

definition blocks_of :: "u64 list \<Rightarrow> gsp_blocks" where
  "blocks_of ds = \<lparr>bk_fwsec = ds ! 0, bk_booter = ds ! 1, bk_fwimg = ds ! 2, bk_lvl2 = ds ! 3, bk_lvl1 = ds ! 4,
     bk_lvl0 = ds ! 5, bk_bl = ds ! 6, bk_sig = ds ! 7, bk_meta = ds ! 8, bk_libos = ds ! 9, bk_loginit = ds ! 10,
     bk_logintr = ds ! 11, bk_logrm = ds ! 12, bk_rmargs = ds ! 13, bk_shm = ds ! 14\<rparr>"

section \<open>The contents\<close>

record gsp_stage =
  sg_fwimg :: "u8 list"
  sg_sig :: "u8 list"
  sg_bl :: "u8 list"
  sg_lvl0 :: "u8 list"
  sg_lvl1 :: "u8 list"
  sg_lvl2 :: "u8 list"
  sg_meta :: "u8 list"
  sg_libos :: "u8 list"
  sg_loginit :: "u8 list"
  sg_logintr :: "u8 list"
  sg_logrm :: "u8 list"
  sg_rmargs :: "u8 list"
  sg_shm :: "u8 list"
  sg_lay :: nv_gsp_fb_layout_t
  sg_wptr :: u32

definition wpr_src :: "firmware \<Rightarrow> gsp_blocks \<Rightarrow> u64 \<Rightarrow> u64 \<Rightarrow> nv_gsp_wpr_meta_src_t" where
  "wpr_src fw bk frts_addr frts_size =
     \<lparr>ws_radix3_lvl0_dma = bk_lvl0 bk, ws_radix3_elf_size = sn_fwimage_size (fw_sec fw),
      ws_bootloader_dma = bk_bl bk, ws_bootloader_size = ucast (bl_data_size (fw_bl fw)),
      ws_boot_code_offset = bl_code_offset (fw_bl fw), ws_boot_data_offset = bl_data_offset (fw_bl fw),
      ws_boot_manifest_offset = bl_manifest_offset (fw_bl fw),
      ws_signature_dma = bk_sig bk, ws_signature_size = sn_sig_size (fw_sec fw),
      ws_vga_workspace_addr = frts_addr + frts_size, ws_vga_workspace_size = 0\<rparr>"

definition libos_regions :: "gsp_blocks \<Rightarrow> nv_gsp_libos_region_t list" where
  "libos_regions bk =
     [\<lparr>lr_name = map of_char ''LOGINIT'', lr_pa = bk_loginit bk, lr_size = NV_GSP_LIBOS_LOG_SIZE\<rparr>,
      \<lparr>lr_name = map of_char ''LOGINTR'', lr_pa = bk_logintr bk, lr_size = NV_GSP_LIBOS_LOG_SIZE\<rparr>,
      \<lparr>lr_name = map of_char ''LOGRM'', lr_pa = bk_logrm bk, lr_size = NV_GSP_LIBOS_LOG_SIZE\<rparr>,
      \<lparr>lr_name = map of_char ''RMARGS'', lr_pa = bk_rmargs bk, lr_size = 0x1000\<rparr>]"

definition zeros :: "nat \<Rightarrow> u8 list" where "zeros n = replicate n 0"

text \<open>A log block: zero, with its own page list at offset 8.\<close>

definition log_block :: "u64 \<Rightarrow> u8 list option" where
  "log_block d = map_option snd (nv_gsp_pte_array_fill (zeros (unat NV_GSP_LIBOS_LOG_SIZE)) 8 d NV_GSP_LIBOS_LOG_SIZE)"

text \<open>The two commands in the queue; \<open>sys0\<close> and \<open>reg0\<close> are what the stack buffers hold before.\<close>

definition preboot_commands ::
  "nv_gsp_pci_info option \<Rightarrow> u8 list \<Rightarrow> u8 list \<Rightarrow> u8 list \<Rightarrow> (u32 \<times> u8 list) option" where
  "preboot_commands pci sys0 reg0 shm =
     (let lay = nv_gsp_shm_compute; cmdq = unat (sl_cmdq_off lay);
          (bar0, bar1, bar3, devid) = (case pci of None \<Rightarrow> (0, 0, 0, 0x100)
             | Some p \<Rightarrow> (pi_bar0 p, pi_bar1 p, pi_bar3 p, pi_devid p)) in
      do { sysinfo \<leftarrow> nv_gsp_build_sysinfo sys0 bar0 bar1 bar3 devid;
           (reglen, reg) \<leftarrow> nv_gsp_build_registry reg0;
           (s0, shm) \<leftarrow> nv_gsp_cmdq_write shm cmdq 0 0 NV_VGPU_MSG_FUNCTION_GSP_SET_SYSTEM_INFO sysinfo (of_nat NV_GSP_SYSINFO_SIZE);
           (s1, shm) \<leftarrow> nv_gsp_cmdq_write shm cmdq s0 1 NV_VGPU_MSG_FUNCTION_SET_REGISTRY reg reglen;
           shm \<leftarrow> nv_gsp_cmdq_set_writeptr shm lay (s0 + s1);
           Some (s0 + s1, shm) })"

definition stage_gsp ::
  "firmware \<Rightarrow> gsp_blocks \<Rightarrow> u64 \<Rightarrow> u64 \<Rightarrow> u64 \<Rightarrow> nv_gsp_pci_info option \<Rightarrow> u8 list \<Rightarrow> u8 list \<Rightarrow> u8 list \<Rightarrow> gsp_stage option option" where
  "stage_gsp fw bk vram frts_addr frts_size pci sys0 reg0 shm0 =
     (let sec = fw_sec fw; bl = fw_bl fw; sz = sn_fwimage_size sec in
      do { fwimg \<leftarrow> rd_bytes (fw_gsp fw) (unat (sn_fwimage_off sec)) (unat sz);
           sig \<leftarrow> rd_bytes (fw_gsp fw) (unat (sn_sig_off sec)) (unat (sn_sig_size sec));
           blimg \<leftarrow> rd_bytes (fw_blb fw) (unat (bl_data_abs bl)) (unat (bl_data_size bl));
           (rc, lvl0, lvl1, lvl2) \<leftarrow> nv_gsp_radix3_fill sz (zeros 0x1000) (zeros 0x1000) (zeros (unat (fw_l2p fw) * 0x1000))
              (bk_fwimg bk) (bk_lvl2 bk) (bk_lvl1 bk);
           if rc \<noteq> NV_GSP_OK then Some None
           else case nv_gsp_fb_layout vram frts_addr frts_size (ucast (bl_data_size bl)) sz of Inl e \<Rightarrow> Some None
           | Inr lay \<Rightarrow>
           do { (rc, wmeta) \<leftarrow> nv_gsp_wpr_meta_build (zeros 0x1000) lay (wpr_src fw bk frts_addr frts_size);
           if rc \<noteq> NV_GSP_OK then Some None
           else do { (rc, libos, libos_sz) \<leftarrow> nv_gsp_libos_build_args (zeros 0x1000) (libos_regions bk) 4;
           if rc \<noteq> NV_GSP_OK then Some None
           else do { loginit \<leftarrow> log_block (bk_loginit bk); logintr \<leftarrow> log_block (bk_logintr bk); logrm \<leftarrow> log_block (bk_logrm bk);
                     (rc, shm_lay, shm) \<leftarrow> nv_gsp_shm_init shm0 (bk_shm bk);
           if rc \<noteq> NV_GSP_RPC_OK then Some None
           else do { (rc, rmargs) \<leftarrow> nv_gsp_rmargs_build (zeros 0x1000) (bk_shm bk) nv_gsp_shm_compute;
           if rc \<noteq> NV_GSP_RPC_OK then Some None
           else do { (wptr, shm) \<leftarrow> preboot_commands pci sys0 reg0 shm;
                     Some (Some \<lparr>sg_fwimg = fwimg, sg_sig = sig, sg_bl = blimg, sg_lvl0 = lvl0, sg_lvl1 = lvl1, sg_lvl2 = lvl2,
                       sg_meta = wmeta, sg_libos = libos, sg_loginit = loginit, sg_logintr = logintr, sg_logrm = logrm,
                       sg_rmargs = rmargs, sg_shm = shm, sg_lay = lay, sg_wptr = wptr\<rparr>) } } } } } })"

section \<open>The first half of the bring-up\<close>

text \<open>What the memory of the arena and the stack hold before.\<close>

record old_memory =
  om_fwsec :: "u8 list"
  om_shm :: "u8 list"
  om_sys :: "u8 list"
  om_reg :: "u8 list"

definition bringup_stage ::
  "'w mmio \<Rightarrow> nv_dma_arena_t \<Rightarrow> fw_blobs \<Rightarrow> nv_gsp_pci_info option \<Rightarrow> old_memory \<Rightarrow> 'w \<Rightarrow>
   ((u32 \<times> firmware \<times> gsp_blocks \<times> gsp_stage) option \<times> nv_dma_arena_t \<times> 'w) option" where
  "bringup_stage io ar blobs pci om w =
     (let (boot0, w) = io_rd io 0 w in
      do { (rc, w) \<leftarrow> nv_wait_gfw_boot_completed io (4 * 1000000) w;
      if rc \<noteq> NV_OK then Some (None, ar, w)
      else let (vram, w) = nv_fb_vidmem_size io w; (frts, w) = nv_fb_compute_frts io w in
      case frts of None \<Rightarrow> Some (None, ar, w)
      | Some (frts_addr, frts_size) \<Rightarrow>
      do { fw \<leftarrow> load_firmware blobs;
      case fw of None \<Rightarrow> Some (None, ar, w)
      | Some fw \<Rightarrow> (let (ds, ar) = alloc_all ar (block_sizes fw) in
      case ds of None \<Rightarrow> Some (None, ar, w)
      | Some ds \<Rightarrow> let bk = blocks_of ds in
      do { (rc, ucode, w) \<leftarrow> do_fwsec_frts io frts_addr frts_size (bk_fwsec bk) (om_fwsec om) boot0 w;
      if rc \<noteq> 0 then Some (None, ar, w)
      else let (is_set, lo, hi, w) = nv_wpr2_is_set io w in
      do { st \<leftarrow> stage_gsp fw bk vram frts_addr frts_size pci (om_sys om) (om_reg om) (om_shm om);
           Some (map_option (\<lambda>st. (boot0, fw, bk, st)) st, ar, w) } }) } })"


section \<open>The blocks of 64-bit fields\<close>

text \<open>The 64-bit fields among \<open>fs\<close>, read back.\<close>

definition fields_at :: "u8 list \<Rightarrow> nat \<Rightarrow> (nat \<times> cell) list \<Rightarrow> bool" where
  "fields_at b p fs \<longleftrightarrow> (\<forall>o' v. (o', W64 v) \<in> set fs \<longrightarrow> ld64 b (p + o') = Some v)"

lemma stores_fields_at:
  assumes "cells_ok lim fs" "p + lim \<le> length b"
  obtains b' where "stores b p fs = Some b'" "length b' = length b" "fields_at b' p fs"
    "\<And>j n. j + n \<le> p \<or> p + lim \<le> j \<Longrightarrow> fld b' j n = fld b j n"
proof -
  obtain b' where b: "stores b p fs = Some b'" "length b' = length b"
    "\<And>o' c. (o', c) \<in> set fs \<Longrightarrow> fld b' (p + o') (length (cell_bytes c)) = cell_bytes c"
    "\<And>j n. j + n \<le> p \<or> p + lim \<le> j \<Longrightarrow> fld b' j n = fld b j n"
    using stores_spec [OF assms] by metis
  have "ld64 b' (p + o') = Some v" if "(o', W64 v) \<in> set fs" for o' v
    using b(3) [OF that] cells_ok_ends [OF assms(1) that] b(2) assms(2) by (simp add: ld64_iff)
  then show thesis using that b(1,2,4) unfolding fields_at_def by blast
qed

lemma stores_ex: "cells_ok lim fs \<Longrightarrow> p + lim \<le> length b \<Longrightarrow> \<exists>b'. stores b p fs = Some b' \<and> length b' = length b"
  using stores_spec by metis

lemma fields_at_cong:
  assumes "fields_at b p fs" "cells_ok lim fs" "fld b' p lim = fld b p lim" "length b' = length b"
  shows "fields_at b' p fs"
  unfolding fields_at_def
proof (intro allI impI)
  fix o' v assume m: "(o', W64 v) \<in> set fs"
  then have "ld64 b (p + o') = Some v" using assms(1) by (simp add: fields_at_def)
  moreover have "fld b' (p + o') 8 = fld b (p + o') 8"
    using cells_ok_ends [OF assms(2) m] by (intro fld_sub [OF assms(3)]) simp
  ultimately show "ld64 b' (p + o') = Some v" using assms(4) by (simp add: ld64_iff)
qed

lemma wpr_meta_spec:
  assumes "256 \<le> length b"
  shows "returns (nv_gsp_wpr_meta_build b lay src) (\<lambda>(rc, b'). rc = NV_GSP_OK \<and> length b' = length b
    \<and> fields_at b' 0 (wpr_meta_cells lay src))"
proof -
  let ?b = "splice b 0 (replicate 256 0)"
  have ok: "cells_ok 256 (wpr_meta_cells lay src)" by (simp add: wpr_meta_cells_def)
  have "0 + 256 \<le> length ?b" using assms by simp
  from stores_fields_at [OF ok this] obtain b' where
    "stores ?b 0 (wpr_meta_cells lay src) = Some b'" "length b' = length ?b" "fields_at b' 0 (wpr_meta_cells lay src)" by blast
  then show ?thesis using assms unfolding nv_gsp_wpr_meta_build_def
    by (intro ret_rules) (auto simp: returns_def not_less intro!: ret_Some)
qed

definition libos_cells :: "nv_gsp_libos_region_t \<Rightarrow> (nat \<times> cell) list" where
  "libos_cells r = [(0, W64 (nv_gsp_libos_id8 (lr_name r))), (8, W64 (lr_pa r)), (16, W64 (lr_size r)),
     (24, B8 NV_GSP_LIBOS_KIND_CONTIGUOUS), (25, B8 NV_GSP_LIBOS_LOC_SYSMEM)]"

lemma libos_args_spec:
  assumes n: "unat n = length rs" "length rs * 32 \<le> length b" "length rs < 2 ^ 31"
  shows "returns (nv_gsp_libos_build_args b rs n) (\<lambda>(rc, b', k). rc = NV_GSP_OK \<and> length b' = length b
    \<and> (\<forall>i < length rs. fields_at b' (i * 32) (libos_cells (rs ! i))))"
proof -
  let ?P = "\<lambda>k b'. length b' = length b \<and> (\<forall>i < k. fields_at b' (i * 32) (libos_cells (rs ! i)))"
  let ?b = "splice b 0 (replicate (length rs * 32) 0)"
  have ok: "cells_ok 32 (libos_cells r)" for r by (simp add: libos_cells_def)
  have "returns (for_upto 1 n (libos_entry rs) 0 ?b) (?P (length rs))"
  proof (rule ret_for_upto [where P = ?P and n = "length rs"])
    fix k s assume k: "k < length rs" and P: "?P k s"
    have u: "unat (of_nat k * 1 :: u32) = k" using k n(3) by (simp add: unat_of_nat_small)
    have fit: "k * 32 + 32 \<le> length s" using k n(2) P by linarith
    obtain s' where s': "stores s (k * 32) (libos_cells (rs ! k)) = Some s'" "length s' = length s"
      "fields_at s' (k * 32) (libos_cells (rs ! k))" "\<And>j n. j + n \<le> k * 32 \<or> k * 32 + 32 \<le> j \<Longrightarrow> fld s' j n = fld s j n"
      using stores_fields_at [OF ok fit] by metis
    have "fields_at s' (i * 32) (libos_cells (rs ! i))" if "i < Suc k" for i
    proof (cases "i = k")
      case False
      then have "i < k" using that by simp
      then show ?thesis using P s'(2) by (intro fields_at_cong [OF _ ok s'(4)]) auto
    qed (use s'(3) in simp)
    moreover have "libos_entry rs (of_nat k * 1) s = Some s'"
      using s'(1) k unfolding libos_entry_def Let_def u libos_cells_def by simp
    ultimately show "returns (libos_entry rs (of_nat k * 1) s) (?P (Suc k))" using s'(2) P by (simp add: returns_def)
  qed (use n in simp_all)
  then show ?thesis unfolding nv_gsp_libos_build_args_def using n
    by (intro ret_rules) (auto simp: returns_def intro!: ret_Some)
qed

lemma log_block_spec: "returns (log_block d) (\<lambda>b. length b = 0x10000 \<and> page_list b 8 d 16)"
proof -
  have p: "(0x10000 + GSP_PAGE_SIZE - 1) div GSP_PAGE_SIZE = (16 :: u64)" by simp
  have u: "unat (16 :: u64) = 16" "unat (8 :: u64) = 8" "unat (8 + 16 * 8 :: u64) = 136" by simp_all
  have "returns (for_upto 1 (16 :: u64) (page_entry (unat (8 :: u64)) d) 0 (zeros 0x10000)) (\<lambda>b'. length b' = length (zeros 0x10000)
      \<and> page_list b' (unat (8 :: u64)) d (unat (16 :: u64)))"
    by (rule returns_mono [OF page_loop]) (simp_all add: zeros_def)
  then show ?thesis unfolding log_block_def nv_gsp_pte_array_fill_def Let_def p u
    by (auto simp: returns_def zeros_def)
qed

lemma rmargs_spec:
  assumes "80 \<le> length b"
  shows "returns (nv_gsp_rmargs_build b shm lay) (\<lambda>(rc, b'). rc = NV_GSP_RPC_OK \<and> length b' = length b
    \<and> ld64 b' 0 = Some shm \<and> ld64 b' 16 = Some (sl_cmdq_off lay) \<and> ld64 b' 24 = Some (sl_msgq_off lay))"
proof -
  let ?b = "splice b 0 (replicate 80 0)"
  let ?fs = "[(NV_RMARGS_SHARED_MEM_PHYS_OFF, W64 shm), (NV_RMARGS_PTE_COUNT_OFF, W32 (sl_ptes_nr lay)),
                   (NV_RMARGS_CMDQ_OFF_OFF, W64 (sl_cmdq_off lay)), (NV_RMARGS_STATQ_OFF_OFF, W64 (sl_msgq_off lay))]"
  have ok: "cells_ok 80 ?fs" by simp
  have "0 + 80 \<le> length ?b" using assms by simp
  from stores_fields_at [OF ok this] obtain b' where "stores ?b 0 ?fs = Some b'" "length b' = length ?b" "fields_at b' 0 ?fs" by blast
  then show ?thesis using assms unfolding nv_gsp_rmargs_build_def
    by (intro ret_rules) (auto simp: returns_def not_less fields_at_def intro!: ret_Some)
qed


section \<open>The first two commands\<close>

definition sysinfo_cells :: "u64 \<Rightarrow> u64 \<Rightarrow> u64 \<Rightarrow> u64 \<Rightarrow> (nat \<times> cell) list" where
  "sysinfo_cells bar0 bar1 bar3 bdf =
     [(NV_GSP_SYSINFO_GPUPHYS_OFF, W64 bar0), (NV_GSP_SYSINFO_FBPHYS_OFF, W64 bar1),
      (NV_GSP_SYSINFO_INSTPHYS_OFF, W64 bar3), (NV_GSP_SYSINFO_BDF_OFF, W64 bdf),
      (NV_GSP_SYSINFO_MAXUSERVA_OFF, W64 0x00007ffffffff000),
      (NV_GSP_SYSINFO_MIRRORBASE_OFF, W32 0x088000), (NV_GSP_SYSINFO_MIRRORSIZE_OFF, W32 0x001000)]"

lemma sysinfo_spec:
  assumes "664 \<le> length b"
  shows "returns (nv_gsp_build_sysinfo b bar0 bar1 bar3 bdf) (\<lambda>b'. length b' = length b
    \<and> fields_at b' 0 (sysinfo_cells bar0 bar1 bar3 bdf))"
proof -
  let ?b = "splice b 0 (replicate 664 0)"
  have ok: "cells_ok 664 (sysinfo_cells bar0 bar1 bar3 bdf)" by (simp add: sysinfo_cells_def)
  have "0 + 664 \<le> length ?b" using assms by simp
  from stores_fields_at [OF ok this] obtain b' where "stores ?b 0 (sysinfo_cells bar0 bar1 bar3 bdf) = Some b'"
    "length b' = length ?b" "fields_at b' 0 (sysinfo_cells bar0 bar1 bar3 bdf)" by blast
  then show ?thesis using assms unfolding nv_gsp_build_sysinfo_def sysinfo_cells_def [symmetric]
    by (intro ret_rules) (auto simp: returns_def)
qed

text \<open>Where the string of entry \<open>k\<close> of the registry lies.\<close>

definition registry_str :: "nat \<Rightarrow> nat" where
  "registry_str k = 40 + sum_list (map (\<lambda>s. length s + 1) (take k registry_names))"

lemma registry_str_simps [simp]: "registry_str 0 = 40" "registry_str (Suc 0) = 60" "registry_str 1 = 60" "registry_str 2 = 82"
  by (simp_all add: registry_str_def registry_names_def numeral_2_eq_2)

lemma registry_spec:
  assumes "length b = 256"
  shows "returns (nv_gsp_build_registry b) (\<lambda>(n, b'). n = 82 \<and> length b' = 256)"
proof -
  let ?P = "\<lambda>k (b :: u8 list, so). length b = 256 \<and> so = (of_nat (registry_str k) :: u32)"
  have u: "unat (40 :: u32) = 40" "unat (60 :: u32) = 60" by simp_all
  have two: "unat (2 :: u32) = 2" by simp
  let ?b = "splice b 0 (replicate 40 0)"
  let ?fs = "[(0, W32 8), (4, W32 2)]"
  have "0 + 8 \<le> length ?b" using assms by simp
  moreover have "cells_ok 8 ?fs" by simp
  ultimately obtain b1 where b1: "stores ?b 0 ?fs = Some b1" "length b1 = length ?b" using stores_ex by blast
  have "returns (for_upto 1 (2 :: u32) registry_entry 0 (b1, 40)) (?P 2)"
  proof (rule ret_for_upto [where P = ?P and n = 2])
    fix k and s :: "u8 list \<times> u32" assume k: "k < 2" and P: "?P k s"
    obtain b so where s: "s = (b, so)" by (cases s)
    then have l: "length b = 256" and so: "so = of_nat (registry_str k)" using P by simp_all
    have uk: "unat (of_nat k * 1 :: u32) = k" using k by (simp add: unat_of_nat_small)
    let ?cs = "[(0, W32 so), (4, B8 1), (8, W32 1), (12, W32 4)]"
    have "8 + k * 16 + 16 \<le> length b" using k l by simp
    moreover have "cells_ok 16 ?cs" by simp
    ultimately obtain b' where b': "stores b (8 + k * 16) ?cs = Some b'" "length b' = length b" using stores_ex by blast
    consider "k = 0" | "k = 1" using k by linarith
    then show "returns (registry_entry (of_nat k * 1) s) (?P (Suc k))"
    proof cases
      case 1
      then have "so = 40" using so by simp
      then show ?thesis using b' l unfolding registry_entry_def s prod.case uk
        by (simp add: 1 cstrcpy_def registry_names_def cstr_def returns_def)
    next
      case 2
      then have "so = 60" using so by simp
      then show ?thesis using b' l unfolding registry_entry_def s prod.case uk
        by (simp add: 2 cstrcpy_def registry_names_def cstr_def returns_def numeral_2_eq_2 [symmetric])
    qed
  qed (use b1 assms in simp_all)
  then obtain b2 so where "for_upto 1 (2 :: u32) registry_entry 0 (b1, 40) = Some (b2, so)" "length b2 = 256" "so = 82"
    by (auto simp: returns_def)
  then show ?thesis using b1 assms by (simp add: nv_gsp_build_registry_def Let_def returns_def)
qed

lemma cmdq_write_take:
  assumes "unat n \<le> length xs"
  shows "nv_gsp_cmdq_write shm q sl seq fn xs n = nv_gsp_cmdq_write shm q sl seq fn (take (unat n) xs) n"
proof -
  have "rd_bytes xs 0 (unat n) = rd_bytes (take (unat n) xs) 0 (unat n)" using assms by (simp add: rd_bytes_def)
  then show ?thesis by (simp only: nv_gsp_cmdq_write_def)
qed

text \<open>Both commands lie in the ring, one page each, and the queue is advanced by two.\<close>

definition preboot_ok :: "nv_gsp_pci_info option \<Rightarrow> u8 list \<Rightarrow> bool" where
  "preboot_ok pci shm \<longleftrightarrow> (\<exists>sys reg. length sys = 664 \<and> length reg = 82
     \<and> (case pci of None \<Rightarrow> fields_at sys 0 (sysinfo_cells 0 0 0 0x100)
        | Some p \<Rightarrow> fields_at sys 0 (sysinfo_cells (pi_bar0 p) (pi_bar1 p) (pi_bar3 p) (pi_devid p)))
     \<and> (\<exists>b b'. nv_gsp_build_registry b = Some (82, b') \<and> reg = take 82 b')
     \<and> element_ok (fld shm 0x2000 0x1000) 0 NV_VGPU_MSG_FUNCTION_GSP_SET_SYSTEM_INFO sys
     \<and> element_ok (fld shm 0x3000 0x1000) 1 NV_VGPU_MSG_FUNCTION_SET_REGISTRY reg
     \<and> ld32 shm 0x1010 = Some 2)"

lemma preboot_spec:
  assumes len: "length sys0 = 664" "length reg0 = 256" "length shm = 0x81000"
  shows "returns (preboot_commands pci sys0 reg0 shm) (\<lambda>(wptr, shm'). wptr = 2 \<and> length shm' = 0x81000 \<and> preboot_ok pci shm'
    \<and> (\<forall>j n. j + n \<le> 0x1010 \<or> 0x1014 \<le> j \<and> j + n \<le> 0x2000 \<or> 0x4000 \<le> j \<longrightarrow> fld shm' j n = fld shm j n))"
proof -
  define bars where "bars = (case pci of None \<Rightarrow> (0, 0, 0, 0x100) | Some p \<Rightarrow> (pi_bar0 p, pi_bar1 p, pi_bar3 p, pi_devid p))"
  obtain b0 b1 b3 bd where bars: "bars = (b0, b1, b3, bd)" by (metis prod_cases4)
  obtain sys where sys: "nv_gsp_build_sysinfo sys0 b0 b1 b3 bd = Some sys" "length sys = 664"
    "fields_at sys 0 (sysinfo_cells b0 b1 b3 bd)"
    using sysinfo_spec [of sys0 b0 b1 b3 bd] len(1) by (auto simp: returns_def)
  obtain reg where reg: "nv_gsp_build_registry reg0 = Some (82, reg)" "length reg = 256"
    using registry_spec [OF len(2)] by (auto simp: returns_def)
  have u: "unat (664 :: u32) = 664" "unat (82 :: u32) = 82" "unat (0 :: u32) = 0" "unat (1 :: u32) = 1" by simp_all
  have p1: "length sys = unat (664 :: u32)" "unat (664 :: u32) + 8192 < 2 ^ 32" using sys(2) by simp_all
  have t1: "0x1000 = roundup 4096 (48 + roundup 8 (32 + unat (664 :: u32)))" unfolding u by (simp add: roundup_def)
  have e1: "0x2000 = 0x1000 + 0x1000 + unat (0 :: u32) * 0x1000" by simp
  have f1: "0x2000 + 0x1000 \<le> length shm" using len(3) by simp
  obtain s1 where s1: "nv_gsp_cmdq_write shm 0x1000 0 0 NV_VGPU_MSG_FUNCTION_GSP_SET_SYSTEM_INFO sys 664 = Some (of_nat (0x1000 div 4096), s1)"
    "length s1 = length shm" "element_ok (fld s1 0x2000 0x1000) 0 NV_VGPU_MSG_FUNCTION_GSP_SET_SYSTEM_INFO sys"
    "\<And>j n. j + n \<le> 0x2000 \<or> 0x2000 + 0x1000 \<le> j \<Longrightarrow> fld s1 j n = fld shm j n"
    using cmdq_write_spec [OF p1 t1 e1 f1, of 0 NV_VGPU_MSG_FUNCTION_GSP_SET_SYSTEM_INFO] by metis
  let ?r = "take 82 reg"
  have p2: "length ?r = unat (82 :: u32)" "unat (82 :: u32) + 8192 < 2 ^ 32" using reg(2) by simp_all
  have t2: "0x1000 = roundup 4096 (48 + roundup 8 (32 + unat (82 :: u32)))" unfolding u by (simp add: roundup_def)
  have e2: "0x3000 = 0x1000 + 0x1000 + unat (1 :: u32) * 0x1000" by simp
  have f2: "0x3000 + 0x1000 \<le> length s1" using len(3) s1(2) by simp
  obtain s2 where s2: "nv_gsp_cmdq_write s1 0x1000 1 1 NV_VGPU_MSG_FUNCTION_SET_REGISTRY ?r 82 = Some (of_nat (0x1000 div 4096), s2)"
    "length s2 = length s1" "element_ok (fld s2 0x3000 0x1000) 1 NV_VGPU_MSG_FUNCTION_SET_REGISTRY ?r"
    "\<And>j n. j + n \<le> 0x3000 \<or> 0x3000 + 0x1000 \<le> j \<Longrightarrow> fld s2 j n = fld s1 j n"
    using cmdq_write_spec [OF p2 t2 e2 f2, of 1 NV_VGPU_MSG_FUNCTION_SET_REGISTRY] by metis
  have s2': "nv_gsp_cmdq_write s1 0x1000 1 1 NV_VGPU_MSG_FUNCTION_SET_REGISTRY reg 82 = Some (of_nat (0x1000 div 4096), s2)"
    using s2(1) cmdq_write_take [of 82 reg s1 "0x1000" 1 1 NV_VGPU_MSG_FUNCTION_SET_REGISTRY] reg(2) unfolding u by simp
  let ?s = "splice s2 0x1010 (bytes32 2)"
  have l2: "length s2 = 0x81000" using s1(2) s2(2) len(3) by simp
  have st: "st32 s2 0x1010 2 = Some ?s" using l2 by simp
  have fr: "fld ?s j n = fld s2 j n" if "j + n \<le> 0x1010 \<or> 0x1014 \<le> j" for j n
    using that l2 by (intro fld_splice_disj) auto
  have run: "preboot_commands pci sys0 reg0 shm = Some (2, ?s)"
    using sys(1) reg(1) s1(1) s2' st unfolding preboot_commands_def shm_layout Let_def bars_def [symmetric] bars nv_gsp_cmdq_set_writeptr_def
    by simp
  have "ld32 ?s 0x1010 = Some 2"
  proof (rule ld32_fldD)
    show "fld ?s 0x1010 4 = bytes32 2" using fld_splice_same [of "0x1010" "bytes32 2" s2] l2 by simp
  qed (use l2 in simp)
  moreover have "fld ?s 0x2000 0x1000 = fld s1 0x2000 0x1000" using fr [of "0x2000" "0x1000"] s2(4) [of "0x2000" "0x1000"] by simp
  moreover have "fld ?s 0x3000 0x1000 = fld s2 0x3000 0x1000" using fr [of "0x3000" "0x1000"] by simp
  moreover have "case pci of None \<Rightarrow> fields_at sys 0 (sysinfo_cells 0 0 0 0x100)
        | Some p \<Rightarrow> fields_at sys 0 (sysinfo_cells (pi_bar0 p) (pi_bar1 p) (pi_bar3 p) (pi_devid p))"
    using bars sys(3) by (auto simp: bars_def split: option.splits)
  ultimately have ok: "preboot_ok pci ?s" unfolding preboot_ok_def using sys(2) reg s1(3) s2(3)
    by (intro exI [of _ sys] exI [of _ ?r]) auto
  have "fld ?s j n = fld shm j n" if "j + n \<le> 0x1010 \<or> 0x1014 \<le> j \<and> j + n \<le> 0x2000 \<or> 0x4000 \<le> j" for j n
    using that fr [of j n] s2(4) [of j n] s1(4) [of j n] by auto
  then show ?thesis using run ok l2 by (simp add: returns_def)
qed

end
