(* ===== verification/GspBoot.thy ===== *)
theory GspBoot
  imports GspStage GspChan
begin

text \<open>
  The starting half of \<open>nv_gsp_bringup\<close> in \<open>driver/gsp/gsp_bringup.c\<close>: the GSP is reset into its RISC-V core with the
  address of the boot arguments in its mailboxes, the Booter is loaded on SEC2 with the address of the WPR2 description,
  and the driver waits until the core is active.  \<^const>\<open>None\<close> is an access outside a buffer, and a failing return of
  the code is \<^const>\<open>None\<close> inside the result.
\<close>

abbreviation (input) GSP_DOORBELL :: u32 where "GSP_DOORBELL \<equiv> NV_PGSP_FALCON_BASE + 0xc00"

section \<open>The steps\<close>

definition gsp_to_riscv :: "'w mmio \<Rightarrow> u64 \<Rightarrow> 'w \<Rightarrow> (bool \<times> 'w) option" where
  "gsp_to_riscv io libos_io w =
     do { (rc, w) \<leftarrow> nv_falcon_gsp_reset_riscv io NV_PGSP_FALCON_BASE NV_PGSP_FALCON2_BASE TIMEOUT_US w;
          if rc \<noteq> NV_OK then Some (False, w)
          else let w = nv_falcon_write_mailbox0 io NV_PGSP_FALCON_BASE (ucast libos_io) w
               in Some (True, nv_falcon_write_mailbox1 io NV_PGSP_FALCON_BASE (ucast (drop_bit 32 libos_io)) w) }"

text \<open>The container is unpacked into its block and the signature the fuse selects is put in.\<close>

definition stage_booter :: "'w mmio \<Rightarrow> u8 list \<Rightarrow> 'w \<Rightarrow> ((nv_booter_desc_t \<times> u8 list) option \<times> 'w) option" where
  "stage_booter io bb w =
     do { p \<leftarrow> nv_booter_parse bb;
     case p of Inl e \<Rightarrow> Some (None, w)
     | Inr bd \<Rightarrow>
     do { data \<leftarrow> rd_bytes bb (unat (bd_data_abs bd)) (unat (bd_data_size bd));
          va \<leftarrow> wr_bytes (zeros 0x100000) 0 data;
          let (rc, rf, w) = nv_falcon_signature_fuse_version_ga102 io (ucast (bd_engine_id_mask bd)) (ucast (bd_ucode_id bd)) w in
          if rc \<noteq> NV_OK then Some (None, w)
          else case nv_booter_select_signature bd rf of Inl e \<Rightarrow> Some (None, w)
          | Inr bi \<Rightarrow>
          do { sig \<leftarrow> rd_bytes bb (unat (bd_sig_prod_abs bd) + unat bi * unat NV_BOOTER_SIG_SIZE) (unat NV_BOOTER_SIG_SIZE);
               va \<leftarrow> wr_bytes va (unat (bd_patch_loc bd)) sig;
               Some (Some (bd, va), w) } } }"

definition run_booter :: "'w mmio \<Rightarrow> nv_booter_desc_t \<Rightarrow> u32 \<Rightarrow> u64 \<Rightarrow> u64 \<Rightarrow> 'w \<Rightarrow> ((int \<times> u32) option \<times> 'w) option" where
  "run_booter io bd boot0 booter_io meta_io w =
     (let app = bd_app bd ! 0;
          bim = \<lparr>lt_src_start = ba_code_offset app, lt_dst_start = 0, lt_len = ba_code_size app\<rparr>;
          bdm = \<lparr>lt_src_start = bd_os_data_offset bd, lt_dst_start = 0, lt_len = bd_os_data_size bd\<rparr>
      in load_and_boot io NV_PSEC_FALCON_BASE NV_PSEC_FALCON2_BASE boot0 booter_io bim bdm (bd_pkc_data_offset bd)
           (ucast (bd_engine_id_mask bd)) (ucast (bd_ucode_id bd)) (ba_code_offset app)
           (Some (ucast meta_io)) (Some (ucast (drop_bit 32 meta_io))) w)"

text \<open>The registers that are read for the log after the Booter.\<close>

definition diag_offsets :: "u32 list" where
  "diag_offsets = [0x388, 0x100, 0x104, 0x108, 0x10c, 0x110, 0x120, 0x130, 0x388, 0x668, 0x800, 0x804]"

definition booter_diag :: "'w mmio \<Rightarrow> 'w \<Rightarrow> 'w" where
  "booter_diag io w =
     (let (mb1, w) = nv_falcon_read_mailbox1 io NV_PSEC_FALCON_BASE w;
          (ws, wlo, whi, w) = nv_wpr2_is_set io w
      in fold (\<lambda>o' w. snd (io_rd io (NV_PGSP_FALCON2_BASE + o') w)) diag_offsets w)"

text \<open>At most \<open>n\<close> tests, one millisecond apart.\<close>

primrec wait_active :: "'w mmio \<Rightarrow> nat \<Rightarrow> 'w \<Rightarrow> bool \<times> 'w" where
  "wait_active io 0 w = (False, w)"
| "wait_active io (Suc n) w =
     (let (a, w) = nv_falcon_riscv_active io NV_PGSP_FALCON2_BASE w in
      if a then (True, w) else wait_active io n (io_udelay io 1000 w))"

definition boot_gsp ::
  "'w mmio \<Rightarrow> fw_blobs \<Rightarrow> u32 \<Rightarrow> gsp_blocks \<Rightarrow> u32 \<Rightarrow> 'w \<Rightarrow> ((nv_booter_desc_t \<times> u8 list \<times> int \<times> u32 \<times> bool) option \<times> 'w) option" where
  "boot_gsp io blobs app_version bk boot0 w =
     do { (ok, w) \<leftarrow> gsp_to_riscv io (bk_libos bk) w;
     if \<not> ok then Some (None, w)
     else case blobs ''booter_load'' of None \<Rightarrow> Some (None, w)
     | Some bb \<Rightarrow>
     do { (s, w) \<leftarrow> stage_booter io bb w;
     case s of None \<Rightarrow> Some (None, w)
     | Some (bd, va) \<Rightarrow>
     do { (r, w) \<leftarrow> run_booter io bd boot0 (bk_booter bk) (bk_meta bk) w;
     case r of None \<Rightarrow> Some (None, w)
     | Some (brc, mb0) \<Rightarrow>
         let w = booter_diag io w;
             w = nv_falcon_write_os_version io NV_PGSP_FALCON_BASE app_version w;
             (active, w) = wait_active io 200 w;
             (rv, w) = io_rd io (NV_PGSP_FALCON2_BASE + NV_PRISCV_RISCV_CPUCTL_OFF) w
         in Some (Some (bd, va, brc, mb0, active), io_wr io GSP_DOORBELL 0 w) } } }"

section \<open>What the steps write\<close>

definition riscv_writes :: "u32 \<Rightarrow> u32 \<Rightarrow> u32 \<Rightarrow> u64 \<Rightarrow> reg_write list" where
  "riscv_writes a b v libos_io =
     [(NV_PGSP_FALCON_BASE + NV_PFALCON_FALCON_ENGINE_OFF, a OR 1), (NV_PGSP_FALCON_BASE + NV_PFALCON_FALCON_ENGINE_OFF, b AND NOT 1),
      (NV_PGSP_FALCON2_BASE + NV_PRISCV_RISCV_BCR_CTRL_OFF, (v AND NOT 0x111) OR 0x111),
      (NV_PGSP_FALCON_BASE + NV_PFALCON_FALCON_MAILBOX0_OFF, ucast libos_io),
      (NV_PGSP_FALCON_BASE + NV_PFALCON_FALCON_MAILBOX1_OFF, ucast (drop_bit 32 libos_io))]"

context logged_port
begin

lemma to_riscv_log:
  "\<exists>ok w'. gsp_to_riscv io d w = Some (ok, w') \<and> (ok \<longrightarrow> (\<exists>a b v. wlog w' = wlog w @ riscv_writes a b v d))"
proof -
  let ?w1 = "nv_falcon_reset_engine io NV_PGSP_FALCON_BASE w"
  obtain a b where e: "wlog ?w1 = wlog w @ [(NV_PGSP_FALCON_BASE + NV_PFALCON_FALCON_ENGINE_OFF, a OR 1),
      (NV_PGSP_FALCON_BASE + NV_PFALCON_FALCON_ENGINE_OFF, b AND NOT 1)]" using reset_engine_log by blast
  obtain rc w2 where s: "nv_falcon_wait_mem_scrubbing io NV_PGSP_FALCON_BASE TIMEOUT_US ?w1 = Some (rc, w2)" "wlog w2 = wlog ?w1"
    using wait_mem_scrubbing_log [OF timeout_fits(1)] by metis
  obtain v w3 where r: "io_rd io (NV_PGSP_FALCON2_BASE + NV_PRISCV_RISCV_BCR_CTRL_OFF) w2 = (v, w3)"
    by (cases "io_rd io (NV_PGSP_FALCON2_BASE + NV_PRISCV_RISCV_BCR_CTRL_OFF) w2")
  show ?thesis
  proof (cases "rc = NV_OK")
    case True
    then show ?thesis using s r log_rd [OF r] e
      by (simp add: gsp_to_riscv_def nv_falcon_gsp_reset_riscv_def Let_def nv_falcon_write_mailbox0_def
          nv_falcon_write_mailbox1_def log_wr riscv_writes_def) blast
  next
    case False
    then show ?thesis using s by (intro exI [of _ False] exI [of _ w2]) (simp add: gsp_to_riscv_def nv_falcon_gsp_reset_riscv_def)
  qed
qed

lemma fuse_log: "nv_falcon_signature_fuse_version_ga102 io e u w = (rc, f, w') \<Longrightarrow> wlog w' = wlog w"
  by (auto simp: nv_falcon_signature_fuse_version_ga102_def Let_def split: if_splits prod.splits dest: log_rd)

lemma fold_reads_log: "wlog (fold (\<lambda>o' w. snd (io_rd io (r + o') w)) os w) = wlog w"
  by (induction os arbitrary: w) (simp_all add: log_rd_snd)

lemma diag_log: "wlog (booter_diag io w) = wlog w"
  by (simp add: booter_diag_def Let_def nv_falcon_read_mailbox1_def nv_wpr2_is_set_def fold_reads_log case_prod_beta log_rd_snd)

lemma wait_active_log: "wait_active io n w = (a, w') \<Longrightarrow> wlog w' = wlog w"
proof (induction n arbitrary: w)
  case (Suc n)
  obtain v w1 where r: "io_rd io (NV_PGSP_FALCON2_BASE + NV_PRISCV_RISCV_CPUCTL_OFF) w = (v, w1)"
    by (cases "io_rd io (NV_PGSP_FALCON2_BASE + NV_PRISCV_RISCV_CPUCTL_OFF) w")
  show ?case
    using Suc.prems Suc.IH [of "io_udelay io 1000 w1"] r log_rd [OF r]
    by (auto simp: nv_falcon_riscv_active_def Let_def log_simps split: if_splits)
qed simp

end

section \<open>The container\<close>

text \<open>A container that makes the code write outside the block of the Booter, or whose code is too long to be counted.\<close>

definition booter_oversized :: "u8 list \<Rightarrow> bool" where
  "booter_oversized bb \<longleftrightarrow> (\<exists>bd. nv_booter_parse bb = Some (Inr bd)
     \<and> (0x100000 < unat (bd_data_size bd) \<or> 0x100000 < unat (bd_patch_loc bd) + 384
        \<or> 2 ^ 32 \<le> unat (ba_code_size (bd_app bd ! 0)) + 255))"

text \<open>The block of the Booter: the data of the container with one of its signatures at the place it names.\<close>

definition booter_staged :: "u8 list \<Rightarrow> nv_booter_desc_t \<Rightarrow> u8 list \<Rightarrow> bool" where
  "booter_staged bb bd va \<longleftrightarrow> nv_booter_parse bb = Some (Inr bd) \<and> (\<exists>bi fv. nv_booter_select_signature bd fv = Inr bi
     \<and> unat (bd_sig_prod_abs bd) + unat bi * 384 + 384 \<le> length bb
     \<and> va = splice (splice (zeros 0x100000) 0 (fld bb (unat (bd_data_abs bd)) (unat (bd_data_size bd))))
           (unat (bd_patch_loc bd)) (fld bb (unat (bd_sig_prod_abs bd) + unat bi * 384) 384))"

lemma stage_booter_spec:
  assumes len: "length bb < 2 ^ 32" and fit: "\<not> booter_oversized bb"
  shows "\<exists>r w' l'. stage_booter (traced io) bb (w, l) = Some (r, w', l') \<and> l' = l
    \<and> (\<forall>bd va. r = Some (bd, va) \<longrightarrow> booter_staged bb bd va)"
proof -
  obtain p where p: "nv_booter_parse bb = Some p" "case p of
      Inl e \<Rightarrow> e \<in> {NV_BOOTER_ERR_BOUNDS, NV_BOOTER_ERR_MAGIC, NV_BOOTER_ERR_LAYOUT}
    | Inr d \<Rightarrow> (\<exists>h lh. booter_fields bb h lh d) \<and> booter_bounds bb d"
    using returnsD [OF booter_parse_spec [OF len]] by blast
  show ?thesis
  proof (cases p)
    case (Inl e)
    then show ?thesis using p(1) by (simp add: stage_booter_def)
  next
    case (Inr bd)
    have b: "booter_bounds bb bd" using p(2) Inr by simp
    note b = b [unfolded booter_bounds_def]
    let ?data = "fld bb (unat (bd_data_abs bd)) (unat (bd_data_size bd))"
    let ?va = "splice (zeros 0x100000) 0 ?data"
    have f: "unat (bd_data_size bd) \<le> 0x100000" "unat (bd_patch_loc bd) + 384 \<le> 0x100000"
      using fit p(1) Inr by (auto simp: booter_oversized_def not_less)
    have ld: "length ?data = unat (bd_data_size bd)" using b by simp
    have rd: "rd_bytes bb (unat (bd_data_abs bd)) (unat (bd_data_size bd)) = Some ?data" using b by (intro rd_bytes_fld) simp
    have lz: "length (zeros 0x100000) = 0x100000" unfolding zeros_def by (rule length_replicate)
    have wr: "wr_bytes (zeros 0x100000) 0 ?data = Some ?va" "length ?va = 0x100000" using f(1) ld lz by simp_all
    obtain rc rf w1 l1 where fu: "nv_falcon_signature_fuse_version_ga102 (traced io) (ucast (bd_engine_id_mask bd))
        (ucast (bd_ucode_id bd)) (w, l) = (rc, rf, w1, l1)" by (metis prod_cases4)
    have l1: "l1 = l" using tr.fuse_log [OF fu] by simp
    show ?thesis
    proof (cases "nv_booter_select_signature bd rf")
      case (Inl e)
      then show ?thesis using p(1) Inr rd wr fu l1 by (simp add: stage_booter_def)
    next
      case s: (Inr bi)
      let ?o = "unat (bd_sig_prod_abs bd) + unat bi * 384"
      have "(unat bi + 1) * 384 \<le> unat (bd_num_sig bd) * 384" using select_signature_less [OF s] by simp
      then have o: "?o + 384 \<le> length bb" using b by simp
      have rs: "rd_bytes bb ?o 384 = Some (fld bb ?o 384)" using o by (rule rd_bytes_fld)
      have ws: "wr_bytes ?va (unat (bd_patch_loc bd)) (fld bb ?o 384) = Some (splice ?va (unat (bd_patch_loc bd)) (fld bb ?o 384))"
        using f(2) wr(2) o by simp
      have "booter_staged bb bd (splice ?va (unat (bd_patch_loc bd)) (fld bb ?o 384))"
        unfolding booter_staged_def using p(1) Inr s o by blast
      then show ?thesis using p(1) Inr rd wr fu l1 s rs ws by (simp add: stage_booter_def)
    qed
  qed
qed

section \<open>Property\<close>

text \<open>The order of the register writes of a start that succeeds.\<close>

definition boot_log :: "gsp_blocks \<Rightarrow> nv_booter_desc_t \<Rightarrow> u32 \<Rightarrow> u32 \<Rightarrow> reg_write list \<Rightarrow> reg_write list \<Rightarrow> bool" where
  "boot_log bk bd boot0 app_version l l' \<longleftrightarrow> (\<exists>a b v m. let app = bd_app bd ! 0 in
     run_log NV_PSEC_FALCON_BASE NV_PSEC_FALCON2_BASE boot0 (bk_booter bk)
       \<lparr>lt_src_start = ba_code_offset app, lt_dst_start = 0, lt_len = ba_code_size app\<rparr>
       \<lparr>lt_src_start = bd_os_data_offset bd, lt_dst_start = 0, lt_len = bd_os_data_size bd\<rparr>
       (bd_pkc_data_offset bd) (ucast (bd_engine_id_mask bd)) (ucast (bd_ucode_id bd)) (ba_code_offset app)
       (Some (ucast (bk_meta bk))) (Some (ucast (drop_bit 32 (bk_meta bk))))
       (l @ riscv_writes a b v (bk_libos bk)) m
     \<and> l' = m @ [(NV_PGSP_FALCON_BASE + NV_PFALCON_FALCON_OS_OFF, app_version), (GSP_DOORBELL, 0)])"

text \<open>
  C39. The GSP is started in the order its boot protocol asks for.  Unless the container of the Booter overflows its
  block, the starting half always returns; and when it succeeds, the register writes are exactly: the reset of
  the GSP into its RISC-V core, the address of the boot arguments in its mailboxes, then the load of the Booter on SEC2
  with the address of the WPR2 description in the mailboxes of SEC2 before SEC2 is started, then the version of the
  application, and last the doorbell.  The block the Booter is loaded from holds the data of the container
  with a signature of the container at the place it names.
\<close>

theorem boot_gsp_sequence:
  assumes "\<forall>bb. blobs ''booter_load'' = Some bb \<longrightarrow> length bb < 2 ^ 32 \<and> \<not> booter_oversized bb"
  shows "\<exists>r w' l'. boot_gsp (traced io) blobs app_version bk boot0 (w, l) = Some (r, w', l')
    \<and> (case r of None \<Rightarrow> True
       | Some (bd, va, outcome) \<Rightarrow> (\<exists>bb. blobs ''booter_load'' = Some bb \<and> booter_staged bb bd va)
           \<and> boot_log bk bd boot0 app_version l l')"
proof -
  obtain ok w1 l1 where g: "gsp_to_riscv (traced io) (bk_libos bk) (w, l) = Some (ok, w1, l1)"
    "ok \<Longrightarrow> \<exists>a b v. l1 = l @ riscv_writes a b v (bk_libos bk)"
    using tr.to_riscv_log [of io "bk_libos bk" "(w, l)"] by (metis prod.collapse snd_conv)
  consider "\<not> ok" | "ok" "blobs ''booter_load'' = None" | bb where "ok" "blobs ''booter_load'' = Some bb" by (cases "blobs ''booter_load''") auto
  then show ?thesis
  proof cases
    case 3
    then obtain a b v where l1: "l1 = l @ riscv_writes a b v (bk_libos bk)" using g(2) by blast
    have bb: "length bb < 2 ^ 32" "\<not> booter_oversized bb" using assms 3 by simp_all
    obtain s w2 where s: "stage_booter (traced io) bb (w1, l1) = Some (s, w2, l1)"
      "\<And>bd va. s = Some (bd, va) \<Longrightarrow> booter_staged bb bd va"
      using stage_booter_spec [OF bb, of io w1 l1] by blast
    show ?thesis
    proof (cases s)
      case None
      then show ?thesis using g(1) 3 s(1) by (simp add: boot_gsp_def)
    next
      case (Some x)
      obtain bd va where x: "x = (bd, va)" by (cases x)
      have st: "booter_staged bb bd va" using s(2) Some x by simp
      let ?app = "bd_app bd ! 0"
      have "unat (ba_code_size ?app) + 255 < 2 ^ 32" "unat (bd_data_size bd) \<le> 0x100000"
        using bb(2) st by (auto simp: booter_oversized_def booter_staged_def not_le not_less)
      moreover have "unat (bd_os_data_size bd) \<le> unat (bd_data_size bd)"
        using booter_parse_spec [OF bb(1)] st by (auto simp: returns_def booter_staged_def booter_bounds_def)
      ultimately have ln: "unat (lt_len \<lparr>lt_src_start = ba_code_offset ?app, lt_dst_start = 0, lt_len = ba_code_size ?app\<rparr>) + 255 < 2 ^ 32"
        "unat (lt_len \<lparr>lt_src_start = bd_os_data_offset bd, lt_dst_start = 0, lt_len = bd_os_data_size bd\<rparr>) + 255 < 2 ^ 32" by simp_all
      obtain r w3 l3 where r: "run_booter (traced io) bd boot0 (bk_booter bk) (bk_meta bk) (w2, l1) = Some (r, w3, l3)"
        "r \<noteq> None \<Longrightarrow> run_log NV_PSEC_FALCON_BASE NV_PSEC_FALCON2_BASE boot0 (bk_booter bk)
           \<lparr>lt_src_start = ba_code_offset ?app, lt_dst_start = 0, lt_len = ba_code_size ?app\<rparr>
           \<lparr>lt_src_start = bd_os_data_offset bd, lt_dst_start = 0, lt_len = bd_os_data_size bd\<rparr>
           (bd_pkc_data_offset bd) (ucast (bd_engine_id_mask bd)) (ucast (bd_ucode_id bd)) (ba_code_offset ?app)
           (Some (ucast (bk_meta bk))) (Some (ucast (drop_bit 32 (bk_meta bk)))) l1 l3"
        using tr.load_and_boot_log [OF ln, of io NV_PSEC_FALCON_BASE NV_PSEC_FALCON2_BASE boot0 "bk_booter bk" "bd_pkc_data_offset bd"
            "ucast (bd_engine_id_mask bd)" "ucast (bd_ucode_id bd)" "ba_code_offset ?app" "Some (ucast (bk_meta bk))"
            "Some (ucast (drop_bit 32 (bk_meta bk)))" "(w2, l1)"]
        unfolding run_booter_def Let_def by fastforce
      show ?thesis
      proof (cases r)
        case None
        then show ?thesis using g(1) 3 s(1) Some x r(1) by (simp add: boot_gsp_def)
      next
        case q: (Some y)
        obtain brc mb0 where y: "y = (brc, mb0)" by (cases y)
        let ?w4 = "booter_diag (traced io) (w3, l3)"
        let ?w5 = "nv_falcon_write_os_version (traced io) NV_PGSP_FALCON_BASE app_version ?w4"
        obtain active w6 where wa: "wait_active (traced io) 200 ?w5 = (active, w6)" by (cases "wait_active (traced io) 200 ?w5")
        obtain rv w7 where rv: "io_rd (traced io) (NV_PGSP_FALCON2_BASE + NV_PRISCV_RISCV_CPUCTL_OFF) w6 = (rv, w7)"
          by (cases "io_rd (traced io) (NV_PGSP_FALCON2_BASE + NV_PRISCV_RISCV_CPUCTL_OFF) w6")
        let ?w8 = "io_wr (traced io) GSP_DOORBELL 0 w7"
        have "snd ?w8 = snd w7 @ [(GSP_DOORBELL, 0)]" by (rule tr.log_wr)
        moreover have "snd w7 = snd ?w5" using tr.log_rd [OF rv] tr.wait_active_log [OF wa] by simp
        moreover have "snd ?w5 = l3 @ [(NV_PGSP_FALCON_BASE + NV_PFALCON_FALCON_OS_OFF, app_version)]"
          unfolding nv_falcon_write_os_version_def by (simp only: tr.log_wr tr.diag_log snd_conv)
        ultimately have "boot_log bk bd boot0 app_version l (snd ?w8)"
          using r(2) q l1 unfolding boot_log_def Let_def
          by (intro exI [of _ a] exI [of _ b] exI [of _ v] exI [of _ l3]) simp
        moreover have "boot_gsp (traced io) blobs app_version bk boot0 (w, l) = Some (Some (bd, va, brc, mb0, active), ?w8)"
          using g(1) 3 s(1) Some x r(1) q y wa rv by (simp add: boot_gsp_def Let_def)
        ultimately show ?thesis using st 3(2) by (cases ?w8) auto
      qed
    qed
  qed (use g(1) in \<open>simp_all add: boot_gsp_def\<close>)
qed


definition demo_boot_blobs :: fw_blobs where
  "demo_boot_blobs s = (if s = ''booter_load'' then Some (demo_booter 16) else None)"

definition demo_blocks :: gsp_blocks where
  "demo_blocks = blocks_of (map (\<lambda>i. 0x100000000 + of_nat i * 0x100000) [0..<16])"

lemma demo_booter_fits: "\<not> booter_oversized (demo_booter 16)"
  by (simp add: booter_oversized_def demo_booter_accepted) (simp add: demo_desc_def)

theorem boot_gsp_sequence_witness:
  "\<exists>r w' l'. boot_gsp (traced zero_io) demo_boot_blobs 1 demo_blocks 0x194000A1 ((), []) = Some (r, w', l')
    \<and> (case r of None \<Rightarrow> True
       | Some (bd, va, outcome) \<Rightarrow> bd = demo_desc 16 \<and> boot_log demo_blocks bd 0x194000A1 1 [] l')"
proof -
  have "\<forall>bb. demo_boot_blobs ''booter_load'' = Some bb \<longrightarrow> length bb < 2 ^ 32 \<and> \<not> booter_oversized bb"
    using demo_booter_fits by (simp add: demo_boot_blobs_def)
  from boot_gsp_sequence [where blobs = demo_boot_blobs, OF this, of zero_io 1 demo_blocks "0x194000A1" "()" "[]"]
  obtain r w' l' where r: "boot_gsp (traced zero_io) demo_boot_blobs 1 demo_blocks 0x194000A1 ((), []) = Some (r, w', l')"
    "case r of None \<Rightarrow> True | Some (bd, va, outcome) \<Rightarrow> (\<exists>bb. demo_boot_blobs ''booter_load'' = Some bb \<and> booter_staged bb bd va)
      \<and> boot_log demo_blocks bd 0x194000A1 1 [] l'" by blast
  have "case r of None \<Rightarrow> True | Some (bd, va, outcome) \<Rightarrow> bd = demo_desc 16 \<and> boot_log demo_blocks bd 0x194000A1 1 [] l'"
    using r(2) demo_booter_accepted [of 16] by (auto simp: demo_boot_blobs_def booter_staged_def split: option.splits)
  then show ?thesis using r(1) by blast
qed

end
