(* ===== verification/GspInit.thy ===== *)
theory GspInit
  imports GspBoot
begin

text \<open>
  The last part of the start in \<open>nv_gsp_bringup\<close> (\<open>driver/gsp/gsp_bringup.c\<close>): the message queue is drained until
  \<open>GSP_INIT_DONE\<close> arrives, and the register lists GSP-RM sends on the way are executed.  The GSP writes the
  shared region while the driver runs, so the region is a part of the world the hardware acts on: every register
  access and every delay may change it.  The list of a message is read when its execution begins; the protocol of the
  queue leaves a message to the driver until it is consumed.
\<close>

abbreviation (input) NV_VGPU_MSG_EVENT_GSP_RUN_CPU_SEQUENCER :: u32 where "NV_VGPU_MSG_EVENT_GSP_RUN_CPU_SEQUENCER \<equiv> 0x1002"

type_synonym 'g shared = "u8 list \<times> 'g"

section \<open>The code\<close>

definition ld32s :: "u8 list \<Rightarrow> nat \<Rightarrow> nat \<Rightarrow> u32 list option" where
  "ld32s b o' n = those (map (\<lambda>i. ld32 b (o' + 4 * i)) [0..<n])"

text \<open>The list in the message at \<open>e\<close>; the saved registers are written back into the message.\<close>

definition run_sequencer :: "'g shared mmio \<Rightarrow> seq_ctx \<Rightarrow> nat \<Rightarrow> 'g shared \<Rightarrow> (int \<times> 'g shared) option" where
  "run_sequencer io c e w =
     (let b = fst w; pl = e + NV_GSP_RPC_PAYLOAD_OFF in
      do { cmdIndex \<leftarrow> ld32 b (pl + 4);
           regSave \<leftarrow> ld32s b (pl + 8) 8;
           cbuf \<leftarrow> ld32s b (pl + 40) ((length b - (pl + 40)) div 4);
           (rc, regSave, w) \<leftarrow> exec_cpu_sequencer io c cbuf cmdIndex regSave w;
           b \<leftarrow> wr_bytes (fst w) (pl + 8) (words regSave);
           Some (rc, (b, snd w)) })"

text \<open>
  The inner loop \<open>while (rptr != wptr)\<close>.  \<open>lst\<close> holds \<open>last_fn\<close> and \<open>sig\<close>, function and signature of the last
  message; \<open>msgs\<close> counts the messages.
\<close>

type_synonym msg_id = "u32 \<times> u32"

partial_function (option) init_drain ::
  "'g shared mmio \<Rightarrow> seq_ctx \<Rightarrow> u32 \<Rightarrow> u32 \<Rightarrow> msg_id \<Rightarrow> u32 \<Rightarrow> 'g shared \<Rightarrow> (bool \<times> u32 \<times> msg_id \<times> u32 \<times> 'g shared) option" where
  "init_drain io c wptr rptr lst msgs w =
     (if rptr = wptr then Some (False, rptr, lst, msgs, w)
      else
        let b = fst w;
            lay = nv_gsp_shm_compute;
            e = unat (sl_msgq_off lay) + unat NV_GSP_QUEUE_ENTRYOFF + unat rptr * unat NV_GSP_QUEUE_MSGSIZE;
            r = e + unat NV_GSP_MSG_ELEM_HDR_SIZE
        in do { ec0 \<leftarrow> ld32 b (e + NV_GSP_MSG_ELEMCOUNT_OFF);
                let ec = (if ec0 = 0 \<or> ec0 > sl_msg_count lay then 1 else ec0) in
                do { sig \<leftarrow> ld32 b (r + 4); len \<leftarrow> ld32 b (r + 8); fn \<leftarrow> ld32 b (r + 12);
                     w \<leftarrow> (if fn = NV_VGPU_MSG_EVENT_GSP_RUN_CPU_SEQUENCER
                          then map_option snd (run_sequencer io c e w) else Some w);
                     p \<leftarrow> ring_wrap (sl_msg_count lay) (rptr + ec);
                     b \<leftarrow> st32 (fst w) (unat (sl_msgq_off lay) + NV_GSP_MSGQ_RXHDROFF) p;
                     let w = (b, snd w) in
                     if fn = NV_VGPU_MSG_EVENT_GSP_INIT_DONE then Some (True, p, (fn, sig), msgs + 1, w)
                     else init_drain io c wptr p (fn, sig) (msgs + 1) w } })"

declare init_drain.simps [code]

text \<open>The outer loop; \<open>n\<close> of its 8000 rounds are left.\<close>

primrec init_wait ::
  "'g shared mmio \<Rightarrow> seq_ctx \<Rightarrow> nat \<Rightarrow> u32 \<Rightarrow> msg_id \<Rightarrow> u32 \<Rightarrow> 'g shared \<Rightarrow> (bool \<times> u32 \<times> msg_id \<times> u32 \<times> 'g shared) option" where
  "init_wait io c 0 rptr lst msgs w = Some (False, rptr, lst, msgs, w)"
| "init_wait io c (Suc n) rptr lst msgs w =
     do { wptr \<leftarrow> nv_gsp_msgq_writeptr (fst w) nv_gsp_shm_compute;
          (got, rptr, lst, msgs, w) \<leftarrow> init_drain io c wptr rptr lst msgs w;
          let w = (if (8000 - Suc n) mod 200 = 199 then io_wr io GSP_DOORBELL 0 w else w);
              w = io_udelay io 5000 w
          in if got then Some (True, rptr, lst, msgs, w) else init_wait io c n rptr lst msgs w }"

definition wait_init_done :: "'g shared mmio \<Rightarrow> seq_ctx \<Rightarrow> bool \<Rightarrow> 'g shared \<Rightarrow> (bool \<times> u32 \<times> msg_id \<times> u32 \<times> 'g shared) option" where
  "wait_init_done io c active w = (if active then init_wait io c 8000 0 (0, 0) 0 w else Some (False, 0, (0, 0), 0, w))"

section \<open>Relations the hardware respects\<close>

text \<open>
  A preorder on the states of the hardware that every access respects is respected by all the code built from
  accesses.
\<close>

locale port_order =
  fixes io :: "'w mmio" and R :: "'w \<Rightarrow> 'w \<Rightarrow> bool"
  assumes order_refl: "R w w"
    and order_trans: "R w w1 \<Longrightarrow> R w1 w2 \<Longrightarrow> R w w2"
    and order_rd: "R w (snd (io_rd io r w))"
    and order_wr: "R w (io_wr io r v w)"
    and order_udelay: "R w (io_udelay io d w)"
begin

definition moves :: "('r \<Rightarrow> 'w) \<Rightarrow> 'w \<Rightarrow> 'r option \<Rightarrow> bool" where
  "moves get w m \<longleftrightarrow> (\<forall>x. m = Some x \<longrightarrow> R w (get x))"

lemma wr_after: "R w0 w \<Longrightarrow> R w0 (io_wr io r v w)" using order_trans order_wr by blast
lemma udelay_after: "R w0 w \<Longrightarrow> R w0 (io_udelay io d w)" using order_trans order_udelay by blast
lemma rd_after: "R w0 w \<Longrightarrow> R w0 (snd (io_rd io r w))" using order_trans order_rd by blast

lemmas after = wr_after udelay_after rd_after order_refl

lemma moves_Some: "R w (get x) \<Longrightarrow> moves get w (Some x)" by (simp add: moves_def)

lemma moves_bind:
  "moves snd w m \<Longrightarrow> (\<And>a w1. R w w1 \<Longrightarrow> moves get w (f (a, w1))) \<Longrightarrow> moves get w (Option.bind m f)"
  by (force simp: moves_def bind_eq_Some_conv)

lemma moves_if: "moves get w a \<Longrightarrow> moves get w b \<Longrightarrow> moves get w (if c then a else b)" by simp

lemma moves_map: "moves g w m \<Longrightarrow> (\<And>x. get (f x) = g x) \<Longrightarrow> moves get w (map_option f m)"
  by (auto simp: moves_def)

lemma poll_order: "poll io reg stop timeout step waited w = Some x \<Longrightarrow> R w (snd x)"
proof -
  assume a: "poll io reg stop timeout step waited w = Some x"
  have "io = io \<longrightarrow> R w (snd x)"
  proof (rule poll.raw_induct [OF _ a, of "\<lambda>io' reg stop timeout step waited w x. io' = io \<longrightarrow> R w (snd x)"], intro impI)
    fix poll' and io' :: "'w mmio" and reg stop timeout step waited w x
    assume IH: "\<And>io' reg stop timeout step waited w x. poll' io' reg stop timeout step waited w = Some x \<Longrightarrow>
        io' = io \<longrightarrow> R w (snd x)"
      and run: "(let (v, w) = io_rd io' reg w in if stop v then Some (NV_OK, w)
        else if timeout \<le> waited then Some (NV_ERR_TIMEOUT, w)
        else poll' io' reg stop timeout step (waited + step) (io_udelay io' step w)) = Some x" and io: "io' = io"
    obtain v w1 where r: "io_rd io reg w = (v, w1)" by (cases "io_rd io reg w")
    have w1: "R w w1" using order_rd [of w reg] r by simp
    show "R w (snd x)"
    proof (cases "stop v \<or> waited \<ge> timeout")
      case True
      then show ?thesis using run io r w1 by (auto split: if_splits)
    next
      case False
      then have "poll' io reg stop timeout step (waited + step) (io_udelay io step w1) = Some x" using run io r by simp
      then have "R (io_udelay io step w1) (snd x)" using IH by blast
      then show ?thesis using order_trans udelay_after [OF w1] by blast
    qed
  qed
  then show "R w (snd x)" by simp
qed

lemma poll_moves: "R w0 w \<Longrightarrow> moves snd w0 (poll io reg stop timeout step waited w)"
  using poll_order order_trans by (auto simp: moves_def)

lemma start_after: "R w0 w \<Longrightarrow> R w0 (nv_falcon_start io base w)"
  by (simp add: nv_falcon_start_def Let_def case_prod_beta after)

lemma reset_engine_after: "R w0 w \<Longrightarrow> R w0 (nv_falcon_reset_engine io base w)"
  by (simp add: nv_falcon_reset_engine_def Let_def case_prod_beta after)

lemma scrub_moves: "R w0 w \<Longrightarrow> moves snd w0 (nv_falcon_wait_mem_scrubbing io base t w)"
  unfolding nv_falcon_wait_mem_scrubbing_def by (rule poll_moves)

lemma halted_moves: "R w0 w \<Longrightarrow> moves snd w0 (nv_falcon_wait_halted io base t w)"
  unfolding nv_falcon_wait_halted_def by (rule poll_moves)

lemma select_moves: "R w0 w \<Longrightarrow> moves snd w0 (nv_falcon_select_core_ga102 io f t w)"
  by (simp add: nv_falcon_select_core_ga102_def Let_def case_prod_beta after poll_moves moves_Some)

lemmas hw_moves = poll_moves scrub_moves halted_moves select_moves reset_engine_after start_after after

lemma reset_ga102_moves: "R w0 w \<Longrightarrow> moves snd w0 (nv_falcon_reset_ga102 io base f boot t w)"
  unfolding nv_falcon_reset_ga102_def Let_def case_prod_beta
  by (intro moves_bind moves_if moves_Some hw_moves; simp add: hw_moves)

lemma reset_riscv_moves: "R w0 w \<Longrightarrow> moves snd w0 (nv_falcon_gsp_reset_riscv io base f t w)"
  unfolding nv_falcon_gsp_reset_riscv_def Let_def case_prod_beta
  by (intro moves_bind moves_if moves_Some hw_moves; simp add: hw_moves)

lemma seq_poll_moves: "R w0 w \<Longrightarrow> moves snd w0 (seq_poll io a m v t w)"
  unfolding seq_poll_def Let_def by (rule poll_moves)

lemma core_reset_moves: "R w0 w \<Longrightarrow> moves snd w0 (seq_core_reset io c w)"
  unfolding seq_core_reset_def Let_def case_prod_beta
  by (intro moves_bind moves_if moves_Some reset_ga102_moves; simp add: hw_moves)

lemma core_resume_moves: "R w0 w \<Longrightarrow> moves snd w0 (seq_core_resume io c w)"
  unfolding seq_core_resume_def Let_def case_prod_beta nv_falcon_write_mailbox0_def nv_falcon_write_mailbox1_def
    nv_falcon_read_mailbox0_def nv_falcon_write_os_version_def nv_falcon_riscv_active_def
  by (intro moves_bind moves_if moves_Some reset_riscv_moves seq_poll_moves; simp add: hw_moves)

lemma run_cmd_moves: "moves (\<lambda>x. snd (snd x)) w (run_cmd io c x (rs, w))"
  by (cases x) (auto simp: Let_def case_prod_beta intro!: moves_Some moves_map [where g = snd] after seq_poll_moves core_reset_moves
      halted_moves core_resume_moves start_after)

lemma run_cmds_order: "run_cmds io c xs s = Some (ok, rs, w') \<Longrightarrow> R (snd s) w'"
proof (induction xs arbitrary: s)
  case Nil
  then show ?case by (auto simp: order_refl)
next
  case (Cons x xs)
  obtain rs0 w0 where s: "s = (rs0, w0)" by (cases s)
  obtain ok1 rs1 w1 where r: "run_cmd io c x (rs0, w0) = Some (ok1, rs1, w1)" using Cons.prems s by (auto simp: bind_eq_Some_conv)
  have "R w0 w1" using run_cmd_moves [of w0 c x rs0] r by (auto simp: moves_def)
  then show ?case using Cons s r order_trans by (fastforce split: if_splits)
qed

end

interpretation tr_order: port_order "traced io" "\<lambda>w w'. \<exists>l. snd w' = snd w @ l" for io :: "'w mmio"
  by unfold_locales (auto simp: traced_def Let_def split: prod.splits)


section \<open>The queue seen by the driver\<close>

definition queue_box :: "'g shared \<Rightarrow> u32 \<Rightarrow> gmsg list \<Rightarrow> bool" where
  "queue_box w r ms \<longleftrightarrow> length (fst w) = 0x81000 \<and> readptr_is (fst w) r
     \<and> (\<exists>wp. writeptr_is (fst w) wp \<and> queue_holds (fst w) r wp ms)"

definition inbox :: "'g shared \<Rightarrow> u32 \<Rightarrow> gmsg list \<Rightarrow> bool" where
  "inbox w r ms \<longleftrightarrow> queue_box w r ms \<and> unat r < 63"

lemma msg_at_unique: "msg_at b e m \<Longrightarrow> msg_at b e m' \<Longrightarrow> m = m'"
  by (cases m; cases m') (auto simp: msg_at_def simp del: ld32_Some)

lemma queue_unique: "queue_holds b r w ms \<Longrightarrow> queue_holds b r w ms' \<Longrightarrow> ms = ms'"
proof (induction ms arbitrary: r ms')
  case Nil
  then show ?case by (cases ms') auto
next
  case (Cons m ms)
  obtain m' ms2 where c: "ms' = m' # ms2" using Cons.prems by (cases ms') auto
  have "m = m'" using Cons.prems c msg_at_unique by auto
  then show ?case using Cons.IH [of _ ms2] Cons.prems c by auto
qed

text \<open>The slots the messages start in.\<close>

primrec starts :: "u32 \<Rightarrow> gmsg list \<Rightarrow> u32 list" where
  "starts r [] = []"
| "starts r (m # ms) = r # starts (of_nat ((unat r + unat (gm_count m)) mod 63)) ms"

lemma starts_suffix: "queue_holds b r w ms \<Longrightarrow> p \<in> set (starts r ms) \<Longrightarrow> \<exists>ms1 ms2. ms = ms1 @ ms2 \<and> queue_holds b p w ms2"
proof (induction ms arbitrary: r)
  case (Cons m ms)
  show ?case
  proof (cases "p = r")
    case True
    then show ?thesis using Cons.prems(1) by (metis append_Nil)
  next
    case False
    then obtain ms1 ms2 where "ms = ms1 @ ms2" "queue_holds b p w ms2"
      using Cons.IH [of "of_nat ((unat r + unat (gm_count m)) mod 63)"] Cons.prems by auto
    then show ?thesis by (metis append_Cons)
  qed
qed simp

text \<open>No message starts in the slot of an earlier one: the walk through the ring would not end.\<close>

lemma starts_fresh:
  assumes "queue_holds b r w (m # ms)"
  shows "r \<notin> set (starts (of_nat ((unat r + unat (gm_count m)) mod 63)) ms)"
proof
  assume a: "r \<in> set (starts (of_nat ((unat r + unat (gm_count m)) mod 63)) ms)"
  have q: "queue_holds b (of_nat ((unat r + unat (gm_count m)) mod 63)) w ms" using assms by simp
  obtain ms1 ms2 where s: "ms = ms1 @ ms2" "queue_holds b r w ms2" using starts_suffix [OF q a] by blast
  have "length ms2 = length (m # ms)" using queue_unique [OF s(2) assms] by simp
  then show False using s(1) by simp
qed

lemma queue_holds_slots:
  assumes "\<And>p j n. p \<in> set (starts r ms) \<Longrightarrow> slot_off p \<le> j \<Longrightarrow> j + n \<le> slot_off p + 0x1000 \<Longrightarrow> fld b' j n = fld b j n"
    and len: "length b' = length b" and q: "queue_holds b r w ms"
  shows "queue_holds b' r w ms"
  using assms(1) q
proof (induction ms arbitrary: r)
  case (Cons m ms)
  have f: "fld b' (slot_off r + k) n = fld b (slot_off r + k) n" if "k + n \<le> 0x1000" for k n
    using that by (intro Cons.prems(1) [of r]) simp_all
  have "ld32 b' (slot_off r + k) = ld32 b (slot_off r + k)" if "k + 4 \<le> 0x1000" for k
    using that len by (intro ld32_cong f)
  then have "msg_at b' (slot_off r) m" using Cons.prems(2) f by (simp add: msg_at_def del: ld32_Some)
  moreover have "queue_holds b' (of_nat ((unat r + unat (gm_count m)) mod 63)) w ms"
    using Cons.prems by (intro Cons.IH) auto
  ultimately show ?case using Cons.prems(2) by simp
qed simp

lemma queue_prefix:
  "queue_holds b r wp ms \<Longrightarrow> queue_holds b' r wp' (ms @ new) \<Longrightarrow> queue_holds b' r wp ms"
  by (induction ms arbitrary: r) auto

lemma queue_next:
  "queue_holds b r wp (m # ms) \<Longrightarrow> queue_holds b (of_nat ((unat r + unat (gm_count m)) mod 63)) wp ms"
  by simp

text \<open>Changes in the slot of the first message and of the read pointer leave the others alone.\<close>

lemma queue_rest_kept:
  assumes q: "queue_holds b r wp (m # ms)" and len: "length b' = length b" and r: "unat r < 63"
    and fr: "\<And>j n. 0x42000 \<le> j \<Longrightarrow> j + n \<le> slot_off r \<or> slot_off r + 0x1000 \<le> j \<Longrightarrow> fld b' j n = fld b j n"
  shows "queue_holds b' (of_nat ((unat r + unat (gm_count m)) mod 63)) wp ms"
proof (rule queue_holds_slots [OF _ len queue_next [OF q]])
  fix p j n assume p: "p \<in> set (starts (of_nat ((unat r + unat (gm_count m)) mod 63)) ms)" and
    j: "slot_off p \<le> j" "j + n \<le> slot_off p + 0x1000"
  have "unat p \<noteq> unat r" using starts_fresh [OF q] p by (metis word_unat_eq_iff)
  then have "unat p + 1 \<le> unat r \<or> unat r + 1 \<le> unat p" by linarith
  then have "slot_off p + 0x1000 \<le> slot_off r \<or> slot_off r + 0x1000 \<le> slot_off p" unfolding slot_off_def by linarith
  moreover have "0x42000 \<le> slot_off p" by (simp add: slot_off_def)
  ultimately show "fld b' j n = fld b j n" using j by (intro fr) auto
qed

section \<open>The producer\<close>

text \<open>The list of a sequencer message: complete, in the first slot, with polls that end.\<close>

definition seq_msg :: "gmsg \<Rightarrow> bool" where
  "seq_msg m \<longleftrightarrow> (\<exists>cmds x rs rest. length rs = 8 \<and> (\<forall>k \<in> set cmds. cmd_ok k)
     \<and> gm_data m = words ([x, of_nat (length (concat (map cmd_words cmds)))] @ rs @ concat (map cmd_words cmds) @ rest))"

text \<open>
  \<open>sent g\<close> are all messages the GSP has sent so far.  An access of the hardware keeps what the driver has not
  read and appends what is sent meanwhile; \<open>due g\<close> bounds the number of waits until \<open>GSP_INIT_DONE\<close> is sent.
\<close>

text \<open>The write pointer of the command queue; it belongs to the driver.\<close>

definition cmd_ptr :: "'g shared \<Rightarrow> u32 option" where
  "cmd_ptr w = ld32 (fst w) 0x1010"

definition sig_at :: "'g shared \<Rightarrow> u32 \<Rightarrow> u32" where
  "sig_at w r = the (ld32 (fst w) (slot_off r + 52))"

definition later :: "('g \<Rightarrow> gmsg list) \<Rightarrow> ('g \<Rightarrow> nat) \<Rightarrow> 'g shared \<Rightarrow> 'g shared \<Rightarrow> bool" where
  "later log due w w' \<longleftrightarrow> due (snd w') \<le> due (snd w) \<and> cmd_ptr w' = cmd_ptr w
     \<and> (\<forall>r ms. queue_box w r ms \<longrightarrow> (\<exists>new. queue_box w' r (ms @ new) \<and> log (snd w') = log (snd w) @ new))"

definition init_done :: "gmsg \<Rightarrow> bool" where
  "init_done m \<longleftrightarrow> gm_fn m = NV_VGPU_MSG_EVENT_GSP_INIT_DONE"

definition seq_ok :: "gmsg \<Rightarrow> bool" where
  "seq_ok m \<longleftrightarrow> (gm_fn m = NV_VGPU_MSG_EVENT_GSP_RUN_CPU_SEQUENCER \<longrightarrow> seq_msg m)"

definition gsp_delivers :: "'g shared mmio \<Rightarrow> ('g \<Rightarrow> gmsg list) \<Rightarrow> ('g \<Rightarrow> nat) \<Rightarrow> bool" where
  "gsp_delivers io log due \<longleftrightarrow>
     (\<forall>w r v d. later log due w (snd (io_rd io r w)) \<and> later log due w (io_wr io r v w) \<and> later log due w (io_udelay io d w))
     \<and> (\<forall>w. due (snd (io_udelay io 5000 w)) \<le> due (snd w) - 1)
     \<and> (\<forall>g. due g = 0 \<longrightarrow> (\<exists>m \<in> set (log g). init_done m))
     \<and> (\<forall>g. \<forall>m \<in> set (log g). seq_ok m)"

lemma later_refl: "later log due w w"
  by (auto simp: later_def intro!: exI [of _ "[]"])

lemma later_trans: "later log due w w1 \<Longrightarrow> later log due w1 w2 \<Longrightarrow> later log due w w2"
  unfolding later_def
proof (intro conjI allI impI; elim conjE)
  fix r ms
  assume "\<forall>r ms. queue_box w r ms \<longrightarrow> (\<exists>new. queue_box w1 r (ms @ new) \<and> log (snd w1) = log (snd w) @ new)"
    "\<forall>r ms. queue_box w1 r ms \<longrightarrow> (\<exists>new. queue_box w2 r (ms @ new) \<and> log (snd w2) = log (snd w1) @ new)" "queue_box w r ms"
  then show "\<exists>new. queue_box w2 r (ms @ new) \<and> log (snd w2) = log (snd w) @ new" by (metis append_assoc)
qed simp_all

lemma later_inbox:
  "later log due w w' \<Longrightarrow> inbox w r ms \<Longrightarrow> \<exists>new. inbox w' r (ms @ new) \<and> log (snd w') = log (snd w) @ new"
  by (auto simp: later_def inbox_def)

lemma delivers_order: "gsp_delivers io log due \<Longrightarrow> port_order io (later log due)"
  by unfold_locales (auto simp: gsp_delivers_def later_refl intro: later_trans)


section \<open>One message\<close>

lemma ld32_data:
  assumes "fld b o' (4 * length ws) = words ws" "o' + 4 * length ws \<le> length b" "k < length ws"
  shows "ld32 b (o' + 4 * k) = Some (ws ! k)"
proof (rule ld32_fldD)
  have "fld b (o' + 4 * k) 4 = fld (fld b o' (4 * length ws)) (4 * k) 4" using assms(3) by (simp add: fld_fld)
  then show "fld b (o' + 4 * k) 4 = bytes32 (ws ! k)" using assms(1,3) by (simp add: fld_words)
qed (use assms in simp)

lemma those_map_Some: "(\<And>i. i \<in> set xs \<Longrightarrow> f i = Some (g i)) \<Longrightarrow> those (map f xs) = Some (map g xs)"
  by (induction xs) auto

lemma ld32s_data:
  assumes "fld b o' (4 * length ws) = words ws" "o' + 4 * length ws \<le> length b"
  shows "ld32s b o' (length ws) = Some ws"
proof -
  have "ld32s b o' (length ws) = Some (map ((!) ws) [0..<length ws])"
    unfolding ld32s_def by (rule those_map_Some) (simp add: ld32_data [OF assms] del: ld32_Some)
  then show ?thesis by (simp add: map_nth)
qed

lemma ld32s_ex:
  assumes "o' + 4 * n \<le> length b"
  obtains ws where "ld32s b o' n = Some ws" "length ws = n"
proof -
  have "ld32s b o' n = Some (map (\<lambda>i. the (ld32 b (o' + 4 * i))) [0..<n])"
    unfolding ld32s_def using assms by (intro those_map_Some) simp
  then show thesis using that by simp
qed

lemma ld32s_append:
  assumes "ld32s b o' m = Some xs" "ld32s b (o' + 4 * m) n = Some ys"
  shows "ld32s b o' (m + n) = Some (xs @ ys)"
proof -
  have ap: "those (us @ vs) = (case those us of None \<Rightarrow> None | Some x \<Rightarrow> map_option ((@) x) (those vs))" for us vs :: "u32 option list"
  proof (induction us)
    case Nil
    then show ?case by (cases "those vs") simp_all
  next
    case (Cons u us)
    then show ?case by (cases u; cases "those us"; cases "those vs") simp_all
  qed
  have u: "[0..<m + n] = [0..<m] @ map (\<lambda>i. m + i) [0..<n]" using upt_add_eq_append [of 0 m n] by (simp add: map_add_upt add.commute)
  have "ld32s b o' (m + n) = those (map (\<lambda>i. ld32 b (o' + 4 * i)) [0..<m] @ map (\<lambda>i. ld32 b (o' + 4 * m + 4 * i)) [0..<n])"
    unfolding ld32s_def u by (simp add: comp_def add.assoc)
  then show ?thesis using assms by (simp add: ap ld32s_def)
qed

text \<open>The list of a well-formed message is executed; only the saved registers of the message change.\<close>

lemma run_sequencer_ok:
  assumes po: "port_order io R" and m: "msg_at (fst w) e m" "seq_msg m" and fit: "e + 0x1000 \<le> length (fst w)"
  shows "\<exists>rc w1 rs. run_sequencer io c e w =
      (if e + 120 \<le> length (fst w1) then Some (rc, (splice (fst w1) (e + 88) (words rs), snd w1)) else None)
    \<and> length rs = 8 \<and> R w w1"
proof -
  obtain cmds x rs0 rest where d: "length rs0 = 8" "\<forall>k \<in> set cmds. cmd_ok k"
    "gm_data m = words ([x, of_nat (length (concat (map cmd_words cmds)))] @ rs0 @ concat (map cmd_words cmds) @ rest)"
    using m(2) by (auto simp: seq_msg_def)
  let ?cs = "concat (map cmd_words cmds)" and ?b = "fst w"
  let ?ws = "[x, of_nat (length ?cs)] @ rs0 @ ?cs @ rest"
  have dt: "fld ?b (e + 80) 4016 = words ?ws" "length (gm_data m) = 4016" using m(1) d(3) by (simp_all add: msg_at_def)
  have "4 * length ?ws = 4016" using dt(2) unfolding d(3) length_words .
  then have lw: "length ?ws = 1004" by simp
  have sub: "fld ?b (e + 80 + 4 * k) (4 * length vs) = words vs" if "?ws = us @ vs @ ts" "length us = k" for us vs ts k
  proof -
    have "fld ?b (e + 80 + 4 * k) (4 * length vs) = fld (fld ?b (e + 80) 4016) (4 * k) (4 * length vs)"
      using arg_cong [OF that(1), of length] lw that(2) by (intro fld_fld [symmetric]) simp
    also have "\<dots> = take (4 * length vs) (drop (4 * k) (words ?ws))" unfolding dt(1) by (simp add: fld_def)
    also have "\<dots> = take (4 * length vs) (words (vs @ ts))" unfolding drop_words that(1) using that(2) by simp
    also have "\<dots> = words vs" by (simp add: words_def flip: length_words [unfolded words_def])
    finally show ?thesis .
  qed
  have l1: "ld32 ?b (e + 80 + 4) = Some (of_nat (length ?cs))"
    using ld32_data [of ?b "e + 80 + 4 * 1" "[of_nat (length ?cs)]" 0] sub [of "[x]" "[of_nat (length ?cs)]" "rs0 @ ?cs @ rest" 1] fit by simp
  have l2: "ld32s ?b (e + 80 + 8) 8 = Some rs0"
    using ld32s_data [of ?b "e + 80 + 4 * 2" rs0] sub [of "[x, of_nat (length ?cs)]" rs0 "?cs @ rest" 2] d(1) fit by simp
  have lr: "length ?cs + length rest = 994" using lw d(1) by simp
  let ?n = "(length ?b - (e + 80 + 40)) div 4"
  have n: "994 \<le> ?n" using fit by simp
  have l3: "ld32s ?b (e + 80 + 40) (length (?cs @ rest)) = Some (?cs @ rest)"
    using ld32s_data [of ?b "e + 80 + 4 * 10" "?cs @ rest"] sub [of "[x, of_nat (length ?cs)] @ rs0" "?cs @ rest" "[]" 10] d(1) lr fit by simp
  have "length (?cs @ rest) = 994" using lr by simp
  moreover have "4 * ?n \<le> length ?b - (e + 80 + 40)" by simp
  ultimately have "e + 80 + 40 + 4 * length (?cs @ rest) + 4 * (?n - 994) \<le> length ?b" using fit n by linarith
  then obtain tl where "ld32s ?b (e + 80 + 40 + 4 * length (?cs @ rest)) (?n - 994) = Some tl" by (rule ld32s_ex)
  from ld32s_append [OF l3 this] have l4: "ld32s ?b (e + 80 + 40) ?n = Some (?cs @ rest @ tl)" using lr n by simp
  have run: "exec_cpu_sequencer io c (?cs @ rest @ tl) (of_nat (length ?cs)) rs0 w =
      map_option (\<lambda>(ok, rs, w). (if ok then 0 else -1, rs, w)) (run_cmds io c cmds (rs0, w))"
    using seq_run_cmds [of _ "[]" cmds "rest @ tl" rs0 io c w, OF refl] d(1) lr by (simp add: exec_cpu_sequencer_def)
  obtain ok rs w1 where r: "run_cmds io c cmds (rs0, w) = Some (ok, rs, w1)"
    using run_cmds_ends [OF d(2), of io c "(rs0, w)"] by (auto simp: ends_def)
  have "R w w1" using port_order.run_cmds_order [OF po r] by simp
  moreover have rs: "length rs = 8"
  proof -
    have "run_cmds io c cmds (rs0, w) = Some (ok, rs, w1) \<Longrightarrow> length rs = length rs0" for cmds rs0 w
      by (induction cmds arbitrary: rs0 w) (auto simp: bind_eq_Some_conv split: if_splits dest: run_cmd_saved)
    then show ?thesis using r d(1) by simp
  qed
  moreover have "run_sequencer io c e w =
      (if e + 120 \<le> length (fst w1) then Some (if ok then 0 else -1, (splice (fst w1) (e + 88) (words rs), snd w1)) else None)"
    using l1 l2 l4 run r rs by (simp add: run_sequencer_def Let_def wr_bytes_def add.commute [of e])
  ultimately show ?thesis by blast
qed


section \<open>Draining\<close>

text \<open>What a message does before it is consumed: the region keeps the messages behind it.\<close>

definition handled :: "('g \<Rightarrow> gmsg list) \<Rightarrow> ('g \<Rightarrow> nat) \<Rightarrow> 'g shared \<Rightarrow> u32 \<Rightarrow> gmsg \<Rightarrow> gmsg list \<Rightarrow> 'g shared \<Rightarrow> bool" where
  "handled log due w r m ms w' \<longleftrightarrow> length (fst w') = 0x81000 \<and> due (snd w') \<le> due (snd w) \<and> cmd_ptr w' = cmd_ptr w
     \<and> (\<exists>new wp. writeptr_is (fst w') wp \<and> log (snd w') = log (snd w) @ new
        \<and> queue_holds (fst w') (of_nat ((unat r + unat (gm_count m)) mod 63)) wp (ms @ new))"

lemma message_handled:
  assumes po: "port_order io (later log due)" and box: "inbox w r (m # ms)" and sq: "seq_ok m"
  obtains w1 where "(if gm_fn m = NV_VGPU_MSG_EVENT_GSP_RUN_CPU_SEQUENCER
      then map_option snd (run_sequencer io c (slot_off r) w) else Some w) = Some w1"
    "handled log due w r m ms w1"
proof -
  have b: "length (fst w) = 0x81000" "unat r < 63" using box by (simp_all add: inbox_def queue_box_def)
  obtain wp where q: "writeptr_is (fst w) wp" "queue_holds (fst w) r wp (m # ms)" using box by (auto simp: inbox_def queue_box_def)
  show thesis
  proof (cases "gm_fn m = NV_VGPU_MSG_EVENT_GSP_RUN_CPU_SEQUENCER")
    case False
    have "handled log due w r m ms w" unfolding handled_def using b(1) q by (auto intro!: exI [of _ "[]"])
    then show thesis using that False by simp
  next
    case True
    have ms: "msg_at (fst w) (slot_off r) m" "seq_msg m" using q(2) sq True by (simp_all add: seq_ok_def)
    have fit: "slot_off r + 0x1000 \<le> length (fst w)" using b by (simp add: slot_off_def)
    obtain rc w1 rs where r: "run_sequencer io c (slot_off r) w = (if slot_off r + 120 \<le> length (fst w1)
        then Some (rc, (splice (fst w1) (slot_off r + 88) (words rs), snd w1)) else None)" "length rs = 8" "later log due w w1"
      using run_sequencer_ok [OF po ms fit, of c] by blast
    obtain new where n: "inbox w1 r (m # ms @ new)" "log (snd w1) = log (snd w) @ new"
      using later_inbox [OF r(3) box] by auto
    have l1: "length (fst w1) = 0x81000" using n(1) by (simp add: inbox_def queue_box_def)
    let ?b = "splice (fst w1) (slot_off r + 88) (words rs)"
    have fit1: "slot_off r + 88 + length (words rs) \<le> length (fst w1)" using r(2) l1 b(2) by (simp add: slot_off_def)
    obtain wp1 where q1: "writeptr_is (fst w1) wp1" "queue_holds (fst w1) r wp1 (m # ms @ new)"
      using n(1) by (auto simp: inbox_def queue_box_def)
    have fr: "fld ?b j k = fld (fst w1) j k" if "j + k \<le> slot_off r \<or> slot_off r + 0x1000 \<le> j" for j k
      using that r(2) fit1 by (intro fld_splice_disj) auto
    have "queue_holds ?b (of_nat ((unat r + unat (gm_count m)) mod 63)) wp1 (ms @ new)"
      using queue_rest_kept [OF q1(2) _ b(2), of ?b] fr fit1 by simp
    moreover have "writeptr_is ?b wp1"
    proof -
      have "fld ?b 0x41010 4 = fld (fst w1) 0x41010 4" by (rule fr) (simp add: slot_off_def)
      then show ?thesis using q1(1) ld32_cong [of ?b "0x41010" "fst w1"] fit1 by (simp add: writeptr_is_def del: ld32_Some)
    qed
    moreover have "cmd_ptr (?b, snd w1) = cmd_ptr w1"
      using ld32_cong [of ?b "0x1010" "fst w1"] fr [of "0x1010" 4] fit1 by (simp add: cmd_ptr_def slot_off_def del: ld32_Some)
    ultimately have "handled log due w r m ms (?b, snd w1)"
      using r(3) n(2) l1 fit1 by (auto simp: handled_def later_def)
    moreover have "run_sequencer io c (slot_off r) w = Some (rc, (?b, snd w1))" using r(1,2) fit1 by simp
    ultimately show thesis using that True by simp
  qed
qed

lemma drain_step:
  assumes "inbox w r (m # ms)" "r \<noteq> wptr"
    and h: "(if gm_fn m = NV_VGPU_MSG_EVENT_GSP_RUN_CPU_SEQUENCER
      then map_option snd (run_sequencer io c (slot_off r) w) else Some w) = Some w1" "length (fst w1) = 0x81000"
  defines "p \<equiv> of_nat ((unat r + unat (gm_count m)) mod 63)"
  shows "init_drain io c wptr r lst msgs w =
    (let w2 = (splice (fst w1) 0x41020 (bytes32 p), snd w1) in
     if init_done m then Some (True, p, (gm_fn m, sig_at w r), msgs + 1, w2)
     else init_drain io c wptr p (gm_fn m, sig_at w r) (msgs + 1) w2)"
proof -
  have q: "msg_at (fst w) (slot_off r) m" "1 \<le> unat (gm_count m)" "unat (gm_count m) \<le> 63" "unat r < 63"
    "length (fst w) = 0x81000"
    using assms(1) by (auto simp: inbox_def queue_box_def)
  have e: "unat (0x41000 :: u64) + unat NV_GSP_QUEUE_ENTRYOFF + unat r * unat NV_GSP_QUEUE_MSGSIZE = slot_off r"
    by (simp add: slot_off_def)
  have cm: "(if gm_count m = 0 \<or> gm_count m > 63 then 1 else gm_count m) = gm_count m"
    using q(2,3) by (auto simp: word_less_nat_alt)
  have u: "unat (48 :: u32) = 48" by simp
  have rd: "ld32 (fst w) (slot_off r + 40) = Some (gm_count m)" "ld32 (fst w) (slot_off r + 48 + 8) = Some (gm_len m)"
    "ld32 (fst w) (slot_off r + 48 + 12) = Some (gm_fn m)"
    using q(1) by (simp_all add: msg_at_def add.commute del: ld32_Some)
  have sg: "ld32 (fst w) (slot_off r + 48 + 4) = Some (sig_at w r)" using q(4,5) by (simp add: slot_off_def sig_at_def)
  have pw: "ring_wrap 63 (r + gm_count m) = Some p" unfolding p_def using q(3,4) by (intro ring_wrap_63) simp
  have st: "st32 (fst w1) (unat (0x41000 :: u64) + 32) p = Some (splice (fst w1) 0x41020 (bytes32 p))" using h(2) by simp
  show ?thesis
    by (subst init_drain.simps)
      (simp only: assms(2) if_False shm_layout nv_gsp_shm_layout_t.simps e u Let_def rd sg cm bind.bind_lunit h(1) pw st init_done_def)
qed

lemma consumed_box:
  assumes h: "handled log due w r m ms w1"
  defines "p \<equiv> of_nat ((unat r + unat (gm_count m)) mod 63)"
  defines "w2 \<equiv> (splice (fst w1) 0x41020 (bytes32 p), snd w1)"
  shows "\<exists>new. inbox w2 p (ms @ new) \<and> log (snd w2) = log (snd w) @ new \<and> due (snd w2) \<le> due (snd w) \<and> cmd_ptr w2 = cmd_ptr w"
proof -
  obtain new wp where n: "length (fst w1) = 0x81000" "due (snd w1) \<le> due (snd w)" "cmd_ptr w1 = cmd_ptr w" "writeptr_is (fst w1) wp"
    "log (snd w1) = log (snd w) @ new" "queue_holds (fst w1) p wp (ms @ new)"
    using h by (auto simp: handled_def p_def)
  have fr: "fld (fst w2) j k = fld (fst w1) j k" if "j + k \<le> 0x41020 \<or> 0x41024 \<le> j" for j k
    unfolding w2_def using that n(1) by (simp add: fld_splice_disj)
  have l: "length (fst w2) = length (fst w1)" using n(1) by (simp add: w2_def)
  have "queue_holds (fst w2) p wp (ms @ new)" by (rule queue_holds_stable [OF fr l n(6)]) simp
  moreover have "writeptr_is (fst w2) wp"
    using n(4) ld32_cong [of "fst w2" "0x41010" "fst w1"] fr [of "0x41010" 4] l by (simp add: writeptr_is_def del: ld32_Some)
  moreover have "readptr_is (fst w2) p"
    unfolding readptr_is_def w2_def using fld_splice_same [of "0x41020" "bytes32 p" "fst w1"] n(1) by (intro ld32_fldD) simp_all
  moreover have "unat p < 63" unfolding p_def unat_mod63 by simp
  moreover have "cmd_ptr w2 = cmd_ptr w1"
    using ld32_cong [of "fst w2" "0x1010" "fst w1"] fr [of "0x1010" 4] l by (simp add: cmd_ptr_def del: ld32_Some)
  ultimately show ?thesis using n l by (auto simp: inbox_def queue_box_def w2_def)
qed

text \<open>What a drain up to the write pointer \<open>wptr\<close> does with the messages before it.\<close>

definition drained ::
  "('g \<Rightarrow> gmsg list) \<Rightarrow> gmsg list \<Rightarrow> gmsg list \<Rightarrow> u32 \<Rightarrow> bool \<Rightarrow> u32 \<Rightarrow> msg_id \<Rightarrow> u32 \<Rightarrow> 'g shared \<Rightarrow> 'g shared \<Rightarrow> bool" where
  "drained log ms rest msgs got r' fn' msgs' w w' \<longleftrightarrow> cmd_ptr w' = cmd_ptr w \<and> (\<exists>new. log (snd w') = log (snd w) @ new \<and>
     (if got then \<exists>pre m post. ms = pre @ m # post \<and> (\<forall>x \<in> set pre. \<not> init_done x) \<and> init_done m
        \<and> fst fn' = NV_VGPU_MSG_EVENT_GSP_INIT_DONE \<and> msgs' = msgs + of_nat (length pre + 1) \<and> inbox w' r' (post @ rest @ new)
      else (\<forall>x \<in> set ms. \<not> init_done x) \<and> msgs' = msgs + of_nat (length ms) \<and> inbox w' r' (rest @ new)))"

lemma init_drain_ok:
  assumes po: "port_order io (later log due)"
  shows "inbox w r (ms @ rest) \<Longrightarrow> queue_holds (fst w) r wptr ms \<Longrightarrow> \<forall>m \<in> set ms. seq_ok m \<Longrightarrow>
    \<exists>got r' fn' msgs' w'. init_drain io c wptr r lst msgs w = Some (got, r', fn', msgs', w')
      \<and> drained log ms rest msgs got r' fn' msgs' w w' \<and> due (snd w') \<le> due (snd w)"
proof (induction ms arbitrary: w r rest lst msgs)
  case Nil
  then have "init_drain io c wptr r lst msgs w = Some (False, r, lst, msgs, w)" by (subst init_drain.simps) simp
  moreover have "drained log [] rest msgs False r lst msgs w w"
    using Nil by (auto simp: drained_def intro!: exI [of _ "[]"])
  ultimately show ?case by blast
next
  case (Cons m ms)
  have box: "inbox w r (m # (ms @ rest))" and sq: "seq_ok m" using Cons.prems by simp_all
  have ne: "r \<noteq> wptr" using Cons.prems(2) by simp
  let ?p = "of_nat ((unat r + unat (gm_count m)) mod 63) :: u32"
  obtain w1 where h: "(if gm_fn m = NV_VGPU_MSG_EVENT_GSP_RUN_CPU_SEQUENCER
      then map_option snd (run_sequencer io c (slot_off r) w) else Some w) = Some w1" "handled log due w r m (ms @ rest) w1"
    by (rule message_handled [OF po box sq])
  have l1: "length (fst w1) = 0x81000" using h(2) by (simp add: handled_def)
  let ?w2 = "(splice (fst w1) 0x41020 (bytes32 ?p), snd w1)"
  obtain new where n: "inbox ?w2 ?p (ms @ rest @ new)" "log (snd ?w2) = log (snd w) @ new" "due (snd ?w2) \<le> due (snd w)" "cmd_ptr ?w2 = cmd_ptr w"
    using consumed_box [OF h(2)] by auto
  note step = drain_step [OF box ne h(1) l1, of lst msgs, unfolded Let_def]
  show ?case
  proof (cases "init_done m")
    case True
    have "drained log (m # ms) rest msgs True ?p (gm_fn m, sig_at w r) (msgs + 1) w ?w2"
      unfolding drained_def using n True by (intro conjI exI [of _ new]) (auto simp: init_done_def intro!: exI [of _ "[]"])
    moreover have "init_drain io c wptr r lst msgs w = Some (True, ?p, (gm_fn m, sig_at w r), msgs + 1, ?w2)" using step True by simp
    ultimately show ?thesis using n(3) by blast
  next
    case False
    have q2: "queue_holds (fst ?w2) ?p wptr ms"
    proof -
      obtain wp where "queue_holds (fst ?w2) ?p wp (ms @ rest @ new)" using n(1) by (auto simp: inbox_def queue_box_def)
      moreover have "queue_holds (fst w) ?p wptr ms" using Cons.prems(2) by simp
      ultimately show ?thesis using queue_prefix by blast
    qed
    have sq2: "\<forall>m \<in> set ms. seq_ok m" using Cons.prems(3) by simp
    obtain got r' fn' msgs' w' where IH: "init_drain io c wptr ?p (gm_fn m, sig_at w r) (msgs + 1) ?w2 = Some (got, r', fn', msgs', w')"
      "drained log ms (rest @ new) (msgs + 1) got r' fn' msgs' ?w2 w'" "due (snd w') \<le> due (snd ?w2)"
      using Cons.IH [OF n(1) q2 sq2] by blast
    obtain new2 where n2: "log (snd w') = log (snd ?w2) @ new2" "if got then \<exists>pre m post. ms = pre @ m # post \<and> (\<forall>x \<in> set pre. \<not> init_done x) \<and> init_done m
        \<and> fst fn' = NV_VGPU_MSG_EVENT_GSP_INIT_DONE \<and> msgs' = (msgs + 1) + of_nat (length pre + 1) \<and> inbox w' r' (post @ (rest @ new) @ new2)
      else (\<forall>x \<in> set ms. \<not> init_done x) \<and> msgs' = (msgs + 1) + of_nat (length ms) \<and> inbox w' r' ((rest @ new) @ new2)"
      using IH(2) unfolding drained_def by blast
    have lg: "log (snd w') = log (snd w) @ (new @ new2)" "cmd_ptr w' = cmd_ptr w"
      using n(2,4) n2(1) IH(2) by (simp_all add: drained_def)
    have "drained log (m # ms) rest msgs got r' fn' msgs' w w'"
    proof (cases got)
      case True
      then obtain pre x post where x: "ms = pre @ x # post" "\<forall>x \<in> set pre. \<not> init_done x" "init_done x"
        "fst fn' = NV_VGPU_MSG_EVENT_GSP_INIT_DONE" "msgs' = (msgs + 1) + of_nat (length pre + 1)" "inbox w' r' (post @ (rest @ new) @ new2)"
        using n2(2) by auto
      then show ?thesis unfolding drained_def using lg True False
        by (intro conjI exI [of _ "new @ new2"], simp, simp, simp only: if_True, intro conjI exI [of _ "m # pre"] exI [of _ x] exI [of _ post]) simp_all
    next
      case ng: False
      then show ?thesis unfolding drained_def using lg n2(2) False by (intro conjI exI [of _ "new @ new2"]) auto
    qed
    then show ?thesis using step False IH(1,3) n(3) by auto
  qed
qed

section \<open>Waiting\<close>

definition wait_outcome :: "('g \<Rightarrow> gmsg list) \<Rightarrow> bool \<Rightarrow> u32 \<Rightarrow> msg_id \<Rightarrow> u32 \<Rightarrow> 'g shared \<Rightarrow> bool" where
  "wait_outcome log got r lst msgs w \<longleftrightarrow> (if got
     then \<exists>pre m post. log (snd w) = pre @ m # post \<and> (\<forall>x \<in> set pre. \<not> init_done x) \<and> init_done m
        \<and> fst lst = NV_VGPU_MSG_EVENT_GSP_INIT_DONE \<and> msgs = of_nat (length pre + 1) \<and> inbox w r post
     else \<exists>pre pending. log (snd w) = pre @ pending \<and> (\<forall>x \<in> set pre. \<not> init_done x) \<and> msgs = of_nat (length pre) \<and> inbox w r pending)"

lemma wait_outcome_got:
  assumes "log (snd w) = pre @ m # post" "\<forall>x \<in> set pre. \<not> init_done x" "init_done m"
    "fst fn = NV_VGPU_MSG_EVENT_GSP_INIT_DONE" "msgs = of_nat (length pre + 1)" "inbox w r post"
  shows "wait_outcome log True r fn msgs w"
  unfolding wait_outcome_def if_True using assms by blast

lemma wait_outcome_pending:
  assumes "log (snd w) = pre @ pending" "\<forall>x \<in> set pre. \<not> init_done x" "msgs = of_nat (length pre)" "inbox w r pending"
  shows "wait_outcome log False r fn msgs w"
  unfolding wait_outcome_def if_False using assms by blast

lemma init_wait_ok:
  assumes gd: "gsp_delivers io log due"
  shows "inbox w r ms \<Longrightarrow> log (snd w) = pre @ ms \<Longrightarrow> \<forall>x \<in> set pre. \<not> init_done x \<Longrightarrow> msgs = of_nat (length pre) \<Longrightarrow>
    \<exists>got r' fn' msgs' w'. init_wait io c n r lst msgs w = Some (got, r', fn', msgs', w')
      \<and> wait_outcome log got r' fn' msgs' w' \<and> cmd_ptr w' = cmd_ptr w \<and> (due (snd w) < n \<longrightarrow> got)"
proof (induction n arbitrary: w r ms pre msgs lst)
  case 0
  have "wait_outcome log False r lst msgs w"
    by (rule wait_outcome_pending [where log = log and w = w, OF 0(2,3,4,1)])
  then show ?case by (intro exI [of _ False]) auto
next
  case (Suc n)
  note po = delivers_order [OF gd]
  obtain wp where wp: "writeptr_is (fst w) wp" "queue_holds (fst w) r wp ms" using Suc.prems(1) by (auto simp: inbox_def queue_box_def)
  have rd: "nv_gsp_msgq_writeptr (fst w) nv_gsp_shm_compute = Some wp"
    using wp(1) by (simp add: nv_gsp_msgq_writeptr_def shm_layout writeptr_is_def del: ld32_Some)
  have sq: "\<forall>m \<in> set ms. seq_ok m"
  proof -
    have "\<forall>m \<in> set (log (snd w)). seq_ok m" using gd unfolding gsp_delivers_def by blast
    then show ?thesis using Suc.prems(2) by simp
  qed
  have box: "inbox w r (ms @ [])" using Suc.prems(1) by simp
  obtain got r1 fn1 msgs1 w1 where d: "init_drain io c wp r lst msgs w = Some (got, r1, fn1, msgs1, w1)"
    "drained log ms [] msgs got r1 fn1 msgs1 w w1" "due (snd w1) \<le> due (snd w)"
    using init_drain_ok [OF po box wp(2) sq] by blast
  have c1: "cmd_ptr w1 = cmd_ptr w" using d(2) by (simp add: drained_def)
  let ?w2 = "if (8000 - Suc n) mod 200 = 199 then io_wr io GSP_DOORBELL 0 w1 else w1"
  let ?w3 = "io_udelay io 5000 ?w2"
  have l12: "later log due w1 ?w2" 
  proof (cases "(8000 - Suc n) mod 200 = 199")
    case True
    have "later log due w1 (io_wr io GSP_DOORBELL 0 w1)" using gd unfolding gsp_delivers_def by blast
    then show ?thesis using True by simp
  qed (simp add: later_refl)
  have l23: "later log due ?w2 ?w3" using gd unfolding gsp_delivers_def by blast
  have lt: "later log due w1 ?w3" using later_trans [OF l12 l23] .
  have c3: "cmd_ptr ?w3 = cmd_ptr w" using lt c1 by (simp only: later_def)
  have dd: "due (snd ?w3) \<le> due (snd w) - 1"
  proof -
    have "due (snd ?w3) \<le> due (snd ?w2) - 1" using gd unfolding gsp_delivers_def by blast
    moreover have "due (snd ?w2) \<le> due (snd w1)" using l12 unfolding later_def by blast
    ultimately show ?thesis using d(3) by linarith
  qed
  have run: "init_wait io c (Suc n) r lst msgs w =
      (if got then Some (True, r1, fn1, msgs1, ?w3) else init_wait io c n r1 fn1 msgs1 ?w3)"
    using rd d(1) by (simp add: Let_def)
  obtain new where n1: "log (snd w1) = log (snd w) @ new" "if got then \<exists>pre m post. ms = pre @ m # post \<and> (\<forall>x \<in> set pre. \<not> init_done x) \<and> init_done m
        \<and> fst fn1 = NV_VGPU_MSG_EVENT_GSP_INIT_DONE \<and> msgs1 = msgs + of_nat (length pre + 1) \<and> inbox w1 r1 (post @ [] @ new)
      else (\<forall>x \<in> set ms. \<not> init_done x) \<and> msgs1 = msgs + of_nat (length ms) \<and> inbox w1 r1 ([] @ new)"
    using d(2) unfolding drained_def by blast
  show ?case
  proof (cases got)
    case True
    then obtain p m post where x: "ms = p @ m # post" "\<forall>x \<in> set p. \<not> init_done x" "init_done m"
      "fst fn1 = NV_VGPU_MSG_EVENT_GSP_INIT_DONE" "msgs1 = msgs + of_nat (length p + 1)" "inbox w1 r1 (post @ new)"
      using n1(2) by auto
    obtain new3 where n3: "inbox ?w3 r1 ((post @ new) @ new3)" "log (snd ?w3) = log (snd w1) @ new3"
      using later_inbox [OF lt x(6)] by blast
    have lg: "log (snd ?w3) = (pre @ p) @ m # (post @ new @ new3)" unfolding n3(2) n1(1) Suc.prems(2) x(1) by simp
    have ni: "\<forall>x \<in> set (pre @ p). \<not> init_done x" using x(2) Suc.prems(3) by auto
    have mc: "msgs1 = of_nat (length (pre @ p) + 1)" using x(5) Suc.prems(4) by simp
    have bx: "inbox ?w3 r1 (post @ new @ new3)" using n3(1) unfolding append_assoc .
    have out: "wait_outcome log True r1 fn1 msgs1 ?w3"
      by (rule wait_outcome_got [where log = log and w = "?w3", OF lg ni x(3) x(4) mc bx])
    have "init_wait io c (Suc n) r lst msgs w = Some (True, r1, fn1, msgs1, ?w3)" using run True by (simp only: if_True)
    with out c3 show ?thesis by blast
  next
    case False
    then have x: "\<forall>x \<in> set ms. \<not> init_done x" "msgs1 = msgs + of_nat (length ms)" "inbox w1 r1 new" using n1(2) by simp_all
    obtain new3 where n3: "inbox ?w3 r1 (new @ new3)" "log (snd ?w3) = log (snd w1) @ new3"
      using later_inbox [OF lt x(3)] by blast
    have lg: "log (snd ?w3) = (pre @ ms) @ (new @ new3)" using n3(2) n1(1) Suc.prems(2) by simp
    have ni: "\<forall>x \<in> set (pre @ ms). \<not> init_done x" using x(1) Suc.prems(3) by auto
    have mc: "msgs1 = of_nat (length (pre @ ms))" using x(2) Suc.prems(4) by simp
    obtain got' r' fn' msgs' w' where IH: "init_wait io c n r1 fn1 msgs1 ?w3 = Some (got', r', fn', msgs', w')"
      "wait_outcome log got' r' fn' msgs' w'" "cmd_ptr w' = cmd_ptr ?w3" "due (snd ?w3) < n \<longrightarrow> got'"
      using Suc.IH [OF n3(1) lg ni mc] by blast
    have "due (snd w) \<noteq> 0"
    proof
      assume "due (snd w) = 0"
      then have "\<exists>m \<in> set (log (snd w)). init_done m" using gd unfolding gsp_delivers_def by blast
      then show False using ni Suc.prems(2) by auto
    qed
    then have "due (snd w) < Suc n \<longrightarrow> got'" using IH(4) dd by linarith
    moreover have "init_wait io c (Suc n) r lst msgs w = Some (got', r', fn', msgs', w')"
      using run False IH(1) by (simp only: if_False)
    ultimately show ?thesis using IH(2,3) c3 by metis
  qed
qed

section \<open>Property\<close>

text \<open>
  C11. The wait for \<open>GSP_INIT_DONE\<close> ends, and it ends well.  Let the GSP keep to the queue protocol during every
  register access and delay, and let its sequencer messages be well formed.  Then the wait of the start always
  returns.  If the GSP sends \<open>GSP_INIT_DONE\<close> within 7999 of the 5 ms delays, the wait sees it: it has executed and
  consumed exactly the messages sent before it, in order, has counted them, and leaves the later ones in the queue and the
  write pointer of the command queue alone.  If the
  wait fails, none of the messages it consumed was \<open>GSP_INIT_DONE\<close>, and the others are still in the queue.
\<close>

theorem gsp_init_done_received:
  assumes "gsp_delivers io log due" "inbox w 0 (log (snd w))"
  shows "\<exists>got r lst msgs w'. wait_init_done io c True w = Some (got, r, lst, msgs, w') \<and> cmd_ptr w' = cmd_ptr w \<and> (due (snd w) < 8000 \<longrightarrow> got)
    \<and> (if got
       then \<exists>pre m post. log (snd w') = pre @ m # post \<and> (\<forall>x \<in> set pre. \<not> init_done x) \<and> init_done m
          \<and> fst lst = NV_VGPU_MSG_EVENT_GSP_INIT_DONE \<and> msgs = of_nat (length pre + 1) \<and> inbox w' r post
       else \<exists>pre pending. log (snd w') = pre @ pending \<and> (\<forall>x \<in> set pre. \<not> init_done x) \<and> msgs = of_nat (length pre)
          \<and> inbox w' r pending)"
proof -
  have "\<exists>got r lst msgs w'. init_wait io c 8000 0 (0, 0) 0 w = Some (got, r, lst, msgs, w')
      \<and> wait_outcome log got r lst msgs w' \<and> cmd_ptr w' = cmd_ptr w \<and> (due (snd w) < 8000 \<longrightarrow> got)"
    by (rule init_wait_ok [OF assms(1,2), of "[]"]) simp_all
  then show ?thesis unfolding wait_init_done_def wait_outcome_def if_True by blast
qed

text \<open>Two messages in the queue, the second of them \<open>GSP_INIT_DONE\<close>.\<close>

definition still_io :: "unit shared mmio" where
  "still_io = \<lparr> io_rd = (\<lambda>r w. (0, w)), io_wr = (\<lambda>r v w. w), io_udelay = (\<lambda>d w. w) \<rparr>"

definition init_cells :: "(nat \<times> cell) list" where
  "init_cells = [(0x41010, W32 2), (0x42028, W32 1), (0x42038, W32 32), (0x4203C, W32 0x1003), (0x42040, W32 0),
     (0x43028, W32 1), (0x43038, W32 32), (0x4303C, W32 0x1001), (0x43040, W32 0)]"

lemma init_box:
  obtains b m1 m2 where "inbox (b, ()) 0 [m1, m2]" "gm_fn m1 = 0x1003" "gm_fn m2 = 0x1001" "cmd_ptr (b, ()) = Some 0"
proof -
  let ?z = "replicate 0x81000 (0 :: u8)"
  have ok: "cells_ok 0x81000 init_cells" by (simp add: init_cells_def)
  have fit: "0 + 0x81000 \<le> length ?z" by (simp only: length_replicate)
  obtain b where b: "length b = length ?z"
    "\<And>o' c. (o', c) \<in> set init_cells \<Longrightarrow> fld b (0 + o') (length (cell_bytes c)) = cell_bytes c"
    "\<And>j n. \<forall>f\<in>set init_cells. 0 + cell_end f \<le> j \<or> j + n \<le> 0 + fst f \<Longrightarrow> fld b j n = fld ?z j n"
    by (rule stores_spec [OF ok fit]) blast
  have lb: "length b = 0x81000" unfolding b(1) by (rule length_replicate)
  have f: "ld32 b o' = Some v" if "(o', W32 v) \<in> set init_cells" for o' v
    using b(2) [OF that] cells_ok_ends [OF ok that] lb by (intro ld32_fldD) simp_all
  have zero: "ld32 b k = Some 0" if "\<forall>f\<in>set init_cells. 0 + cell_end f \<le> k \<or> k + 4 \<le> 0 + fst f" "k + 4 \<le> 0x81000" for k
  proof -
    have "fld b k 4 = fld ?z k 4" by (rule b(3)) (rule that(1))
    also have "\<dots> = bytes32 0" unfolding bytes_0 by (rule fld_replicate) (use that(2) in simp)
    finally show ?thesis using lb that(2) by (intro ld32_fldD) simp_all
  qed
  have z: "ld32 b 0x41020 = Some 0" "ld32 b 0x1010 = Some 0" by (rule zero; simp add: init_cells_def)+
  let ?m1 = "\<lparr>gm_count = 1, gm_fn = 0x1003, gm_len = 32, gm_res = 0, gm_data = fld b 0x42050 4016\<rparr>"
  let ?m2 = "\<lparr>gm_count = 1, gm_fn = 0x1001, gm_len = 32, gm_res = 0, gm_data = fld b 0x43050 4016\<rparr>"
  have "ld32 b 0x42028 = Some 1" "ld32 b 0x42038 = Some 32" "ld32 b 0x4203C = Some 0x1003" "ld32 b 0x42040 = Some 0"
    "ld32 b 0x43028 = Some 1" "ld32 b 0x43038 = Some 32" "ld32 b 0x4303C = Some 0x1001" "ld32 b 0x43040 = Some 0"
    by (rule f, simp add: init_cells_def)+
  then have "msg_at b (slot_off 0) ?m1" "msg_at b (slot_off 1) ?m2" using lb by (simp_all add: msg_at_def slot_off_def del: ld32_Some)
  then have "queue_holds b 0 2 [?m1, ?m2]" by simp
  moreover have "writeptr_is b 2" unfolding writeptr_is_def by (rule f) (simp add: init_cells_def)
  ultimately have "inbox (b, ()) 0 [?m1, ?m2]" using z lb by (auto simp: inbox_def queue_box_def readptr_is_def)
  then show thesis using that z(2) by (simp add: cmd_ptr_def)
qed

lemma still_delivers:
  assumes "\<exists>m \<in> set ms. init_done m" "\<forall>m \<in> set ms. seq_ok m"
  shows "gsp_delivers still_io (\<lambda>_. ms) (\<lambda>_. 0)"
  using assms by (simp add: gsp_delivers_def still_io_def later_refl)

theorem gsp_init_done_received_witness:
  "\<exists>b. \<forall>c. \<exists>r sig w'. wait_init_done still_io c True (b, ()) = Some (True, r, (0x1001, sig), 2, w')"
proof -
  obtain b m1 m2 where b: "inbox (b, ()) 0 [m1, m2]" "gm_fn m1 = 0x1003" "gm_fn m2 = 0x1001" by (rule init_box)
  have d: "gsp_delivers still_io (\<lambda>_. [m1, m2]) (\<lambda>_. 0)"
    by (rule still_delivers) (use b(2,3) in \<open>simp_all add: init_done_def seq_ok_def\<close>)
  have n: "\<not> init_done m1" using b(2) by (simp add: init_done_def)
  have one: "pre = [m1]" if "[m1, m2] = pre @ m # post" "init_done m" for pre m post
    using that n by (auto simp: Cons_eq_append_conv)
  have "\<exists>r sig w'. wait_init_done still_io c True (b, ()) = Some (True, r, (0x1001, sig), 2, w')" for c
  proof -
    obtain got r lst msgs w' where w: "wait_init_done still_io c True (b, ()) = Some (got, r, lst, msgs, w')"
      and g: "0 < (8000 :: nat) \<longrightarrow> got"
      and o': "if got then \<exists>pre m post. [m1, m2] = pre @ m # post \<and> (\<forall>x \<in> set pre. \<not> init_done x) \<and> init_done m
        \<and> fst lst = 0x1001 \<and> msgs = of_nat (length pre + 1) \<and> inbox w' r post
        else \<exists>pre pending. [m1, m2] = pre @ pending \<and> (\<forall>x \<in> set pre. \<not> init_done x) \<and> msgs = of_nat (length pre) \<and> inbox w' r pending"
      using gsp_init_done_received [OF d, of "(b, ())" c, unfolded snd_conv, OF b(1)] by (elim exE conjE) (rule that)
    have got by (rule g [rule_format]) simp
    with o' obtain pre m post where "[m1, m2] = pre @ m # post" "init_done m" "fst lst = 0x1001" "msgs = of_nat (length pre + 1)" by auto
    with one have "fst lst = 0x1001 \<and> msgs = 2" by fastforce
    with \<open>got\<close> have "wait_init_done still_io c True (b, ()) = Some (True, r, (0x1001, snd lst), 2, w')"
      by (simp add: w prod_eq_iff)
    then show ?thesis by blast
  qed
  then show ?thesis by blast
qed

end
