(* ===== verification/GspPort.thy ===== *)
theory GspPort
  imports GspInit GspService MilcorixCopy GmmuBranch
begin

text \<open>
  The interface to the registers of the code after \<open>GSP_INIT_DONE\<close>.  All of it works through the PRAMIN window and the
  doorbell of the host, or announces the other registers it writes.  A property of the hardware that the accesses to
  the announced registers keep is kept by every function built from them, and every function returns.
\<close>

lemma ret_mfold: "(\<And>x s. x \<in> set xs \<Longrightarrow> P s \<Longrightarrow> returns (f x s) P) \<Longrightarrow> P s \<Longrightarrow> returns (mfold f xs s) P"
proof (induction xs arbitrary: s)
  case (Cons x xs)
  then show ?case by (auto intro: ret_bind [of "f x s" P])
qed (simp add: returns_def)

lemma plan_bounds:
  assumes "nv_gmmu_range_plan va bytes tp cap = (0, p)"
  shows "unat bytes \<le> 2 ^ 40" "unat (rg_table_bytes p) \<le> 2 ^ 40"
proof -
  have "bytes \<le> 0x10000000000 \<and> tp < 0x10000000000 \<and> rg_table_bytes p \<le> 0x10000000000 - tp"
    using assms by (auto simp: nv_gmmu_range_plan_def Let_def split: if_splits)
  then have "bytes \<le> 0x10000000000" "rg_table_bytes p \<le> 0x10000000000"
    using word_sub_le order_trans less_imp_le by blast+
  then show "unat bytes \<le> 2 ^ 40" "unat (rg_table_bytes p) \<le> 2 ^ 40" by (simp_all add: word_le_nat_alt)
qed

lemma window_small: "(ucast (a AND 0xfffff :: u64) :: u32) < 0x100000"
proof -
  have "a AND 0xfffff = take_bit 20 a" by (simp add: take_bit_eq_mask mask_eq_exp_minus_1)
  then have "unat (a AND 0xfffff) < 2 ^ 20" by (simp only: unsigned_take_bit_eq take_bit_nat_less_exp)
  then show ?thesis by (simp add: word_less_nat_alt unat_ucast_small)
qed

locale register_port =
  fixes io :: "'w mmio" and ok :: "u32 \<Rightarrow> bool" and Q :: "'w \<Rightarrow> bool"
  assumes port_rd: "Q w \<Longrightarrow> Q (snd (io_rd io r w))"
    and port_wr: "Q w \<Longrightarrow> ok r \<Longrightarrow> Q (io_wr io r v w)"
    and port_udelay: "Q w \<Longrightarrow> Q (io_udelay io d w)"
    and ok_aim: "ok 0x1700"
    and ok_window: "off < 0x100000 \<Longrightarrow> ok (0x700000 + off)"
    and ok_bell: "ok NV_VFN_DOORBELL_ADDR"
begin

lemma aim_ok: "Q (snd st) \<Longrightarrow> Q (snd (pramin_aim io a st))"
  by (cases st) (simp add: pramin_aim_def Let_def port_wr ok_aim)

lemma wr32_ok: "Q (snd st) \<Longrightarrow> Q (snd (nv_pramin_wr32 io a v st))"
  using aim_ok [of st a] by (simp add: nv_pramin_wr32_def split_def Let_def port_wr ok_window window_small)

lemma rd32_ok: "Q (snd st) \<Longrightarrow> Q (snd (snd (nv_pramin_rd32 io a st)))"
  using aim_ok [of st a] by (simp add: nv_pramin_rd32_def split_def Let_def port_rd)

lemma wr64_ok: "Q (snd st) \<Longrightarrow> Q (snd (nv_pramin_wr64 io a v st))"
  by (simp add: nv_pramin_wr64_def wr32_ok)

lemma fold_ok: "(\<And>x st. Q (snd st) \<Longrightarrow> Q (snd (f x st))) \<Longrightarrow> Q (snd st) \<Longrightarrow> Q (snd (fold f xs st))" for st :: "'w pramin"
  by (induction xs arbitrary: st) auto

lemma loop_ok:
  fixes step lim :: "'a::len word" and f :: "'a word \<Rightarrow> 'w pramin \<Rightarrow> 'w pramin"
  assumes "0 < unat step" "unat lim + unat step \<le> 2 ^ LENGTH('a)" "\<And>i st. Q (snd st) \<Longrightarrow> Q (snd (f i st))" "Q (snd st)"
  shows "returns (for_upto step lim (\<lambda>i st. Some (f i st)) 0 st) (\<lambda>st. Q (snd st))"
  by (rule ret_for_upto [OF assms(1,2) refl, where P = "\<lambda>_ st. Q (snd st)"]) (simp_all add: assms ret_Some)

lemma fill_ok: "unat len + 4 \<le> 2 ^ 32 \<Longrightarrow> Q (snd st) \<Longrightarrow> returns (nv_pramin_fill io a len v st) (\<lambda>st. Q (snd st))"
  unfolding nv_pramin_fill_def by (rule loop_ok) (simp_all add: wr32_ok)

lemma zero_branch_ok: "Q (snd st) \<Longrightarrow> returns (gmmu_zero_branch io t st) (\<lambda>st. Q (snd st))"
  unfolding gmmu_zero_branch_def nv_gmmu_zero_table_def
  by (intro ret_bind [OF fill_ok] fill_ok) simp_all

lemma pde_chain_ok: "Q (snd st) \<Longrightarrow> Q (snd (gmmu_write_pde_chain io t va st))"
  by (simp add: gmmu_write_pde_chain_def Let_def wr64_ok)

lemma map_range_ok: "Q (snd st) \<Longrightarrow> returns (nv_gmmu_map_range io t va phys n st) (\<lambda>(rc, st). Q (snd st))"
  unfolding nv_gmmu_map_range_def Let_def
  apply (rule ret_if)
   apply (simp add: ret_Some)
  apply (rule ret_bind [OF zero_branch_ok], assumption)
  apply (rule ret_bind [OF loop_ok])
      apply (use u32_less [of n] in \<open>auto simp: wr64_ok pde_chain_ok intro: ret_Some\<close>)
  done

lemma read_pte_ok: "Q (snd st) \<Longrightarrow> Q (snd (snd (nv_gmmu_read_pte io spt va st)))"
  by (simp add: nv_gmmu_read_pte_def split_def Let_def rd32_ok)

lemma range_build_ok: "Q (snd st) \<Longrightarrow> returns (nv_gmmu_range_build io r phys st) (\<lambda>(rc, st). Q (snd st))"
proof -
  assume q: "Q (snd st)"
  obtain rc c where p: "nv_gmmu_range_plan (rg_va r) (rg_bytes r) (rg_table_phys r) (rg_table_bytes r) = (rc, c)" by force
  have tab: "returns (for_upto GMMU_PAGE_BYTES (rg_table_bytes r)
      (\<lambda>offset. nv_gmmu_zero_table io (rg_table_phys r + offset) (ucast GMMU_PAGE_BYTES)) 0 st) (\<lambda>st. Q (snd st))"
    if "unat (rg_table_bytes r) \<le> 2 ^ 40"
    by (rule ret_for_upto [where P = "\<lambda>_ st. Q (snd st)"], simp, use that in simp, rule refl, rule q)
      (simp add: nv_gmmu_zero_table_def fill_ok)
  have pde: "returns (mfold (\<lambda>child. for_upto 1 (rg_level_count r ! child) (\<lambda>n st. Some (range_pde io r child n st)) 0) [1..<5] st)
      (\<lambda>st. Q (snd st))" if "Q (snd st)" for st
  proof (rule ret_mfold [where P = "\<lambda>st. Q (snd st)"])
    fix x s assume "Q (snd (s :: 'w pramin))"
    then show "returns (for_upto 1 (rg_level_count r ! x) (\<lambda>n st. Some (range_pde io r x n st)) 0 s) (\<lambda>st. Q (snd st))"
      using u32_less [of "rg_level_count r ! x"] by (intro loop_ok) (simp_all add: range_pde_def Let_def wr64_ok)
  qed (rule that)
  have pte: "returns (for_upto GMMU_PAGE_BYTES (rg_bytes r) (\<lambda>offset st. Some (range_pte io r phys offset st)) 0 st) (\<lambda>st. Q (snd st))"
    if "unat (rg_bytes r) \<le> 2 ^ 40" "Q (snd st)" for st
    using that by (intro loop_ok) (simp_all add: range_pte_def Let_def wr64_ok)
  show ?thesis
  proof (cases "rc = 0 \<and> rg_table_bytes r = rg_table_bytes c")
    case False
    then have "nv_gmmu_range_build io r phys st = Some (-1, st)"
      by (cases "rc = 0") (simp_all add: nv_gmmu_range_build_def p)
    then show ?thesis using q by (simp add: returns_def split_def)
  next
    case True
    then have b: "unat (rg_bytes r) \<le> 2 ^ 40" "unat (rg_table_bytes r) \<le> 2 ^ 40" using plan_bounds p by metis+
    show ?thesis
      unfolding nv_gmmu_range_build_def p Let_def prod.case
      apply (intro ret_if)
         apply (simp add: ret_Some q)
        apply (simp add: ret_Some q)
       apply (simp add: ret_Some q)
      apply (rule ret_bind [OF tab [OF b(2)]])
      apply (rule ret_bind [OF pde], assumption)
      apply (rule ret_bind [OF pte [OF b(1)]], assumption)
      apply (simp add: ret_Some)
      done
  qed
qed

lemma pushbuffer_ok: "Q (snd st) \<Longrightarrow> Q (snd (write_pushbuffer io a pb st))"
  unfolding write_pushbuffer_def by (rule fold_ok) (simp_all add: wr32_ok)

lemma bell_ok: "Q (snd st) \<Longrightarrow> Q (snd (ring_doorbell io gpu st))"
  by (cases st) (simp add: ring_doorbell_def port_wr ok_bell)

lemma post_ok: "Q (snd st) \<Longrightarrow> Q (snd (snd (post_entry io gpu nd st)))"
  by (simp add: post_entry_def Let_def split_def wr32_ok)

lemma sem_wait_ok: "Q (snd st) \<Longrightarrow> Q (snd (snd (sem_wait io a p n st)))"
proof (induction n arbitrary: st)
  case (Suc n)
  then show ?case using rd32_ok [of st a] by (auto simp: split_def Let_def intro!: Suc.IH port_udelay)
qed simp

lemma gpu_copy_ok: "Q (snd st) \<Longrightarrow> Q (snd (snd (snd (nv_gsp_gpu_copy io gpu src dst n t st))))"
  by (simp add: nv_gsp_gpu_copy_def Let_def split_def rd32_ok sem_wait_ok bell_ok post_ok pushbuffer_ok wr32_ok)

lemma probe_fill_ok: "Q (snd st) \<Longrightarrow> returns (probe_fill io gpu off n st) (\<lambda>st. Q (snd st))"
  unfolding probe_fill_def Let_def by (rule loop_ok) (simp_all add: wr32_ok)

lemma probe_check_ok: "Q (snd st) \<Longrightarrow> returns (probe_check io gpu off n (bad, st)) (\<lambda>(bad, st). Q (snd st))"
  unfolding probe_check_def Let_def
  by (rule ret_for_upto [OF _ _ refl, where P = "\<lambda>_ (bad, st). Q (snd st)"]) (auto simp: rd32_ok split_def intro!: ret_Some)

lemma pool_probe_ok: "Q (snd st) \<Longrightarrow> returns (pool_probe io off n (gpu, st)) (\<lambda>(rc, gpu, st). Q (snd st))"
proof -
  assume q: "Q (snd st)"
  have c: "returns (if rc = 0 then probe_check io g off n (0, st) else Some (0, st)) (\<lambda>(bad, st). Q (snd st))"
    if "Q (snd st)" for rc :: int and g st
    using that by (simp add: probe_check_ok ret_Some)
  show ?thesis
    unfolding pool_probe_def prod.case
    apply (intro ret_if)
     apply (simp add: ret_Some q)
    apply (rule ret_bind [OF probe_fill_ok [OF q]])
    subgoal for st1
      using gpu_copy_ok [of st1 gpu "gx_scratch_va gpu" "gx_scratch_va gpu + off" PROBE_BYTES 2000]
      unfolding Let_def split_def by (intro ret_bind [OF c] ret_Some) (simp_all add: split_def)
    done
qed

lemma pool_test_ok: "Q (snd st) \<Longrightarrow> returns (nv_gsp_gpu_pool_test io gpu st) (\<lambda>(rc, gpu, st). Q (snd st))"
  unfolding nv_gsp_gpu_pool_test_def Let_def
  apply (intro ret_if)
   apply (simp add: ret_Some)
  apply (rule ret_bind [OF pool_probe_ok], assumption)
  subgoal for r
    by (cases r) (auto intro!: ret_bind [OF pool_probe_ok] ret_Some)
  done

end

section \<open>Contexts\<close>

lemma static_copy: "static_ctx (fst (snd (nv_gsp_gpu_copy io gpu src dst n t st))) = static_ctx gpu"
  by (auto simp: nv_gsp_gpu_copy_def Let_def split_def post_entry_def static_ctx_def)

lemma pool_probe_static: "pool_probe io off n (gpu, st) = Some (rc, g, st') \<Longrightarrow> static_ctx g = static_ctx gpu"
  using static_copy [of io gpu "gx_scratch_va gpu" "gx_scratch_va gpu + off" PROBE_BYTES 2000]
  by (auto simp: pool_probe_def split_def Let_def bind_eq_Some_conv split: if_splits)

end
