(* ===== verification/GspLayer4.thy ===== *)
theory GspLayer4
  imports GspPort GspMemory GspQuery
begin

text \<open>
  \<open>nv_gsp_bringup\<close> (\<open>driver/gsp/gsp_bringup.c\<close>) after \<open>GSP_INIT_DONE\<close>, up to the execution context: the two-way
  channel is opened, objects are made, VRAM is chosen and mapped, a channel of the copy engine is built and tested,
  and the context is handed to the platform.  The state is the channel, which carries the shared region and the
  hardware; where VRAM is accessed it is paired with the cache of the PRAMIN window.
\<close>

abbreviation (input) NV_GSP_RM_CE_OBJ_HANDLE :: u32 where "NV_GSP_RM_CE_OBJ_HANDLE \<equiv> 0xce00"
abbreviation (input) AMPERE_DMA_COPY_B :: u32 where "AMPERE_DMA_COPY_B \<equiv> 0xc7b5"
abbreviation (input) RM_ENGINE_TYPE_COPY0 :: u32 where "RM_ENGINE_TYPE_COPY0 \<equiv> 9"

section \<open>The channel\<close>

text \<open>\<open>gsp_rpc_doorbell\<close> and \<open>gsp_rpc_udelay\<close>: the call-backs of the channel are accesses of the same registers.\<close>

definition rpc_agent :: "'g shared mmio \<Rightarrow> 'g gsp_agent" where
  "rpc_agent io = \<lparr>ag_ring = io_wr io GSP_DOORBELL 0, ag_udelay = io_udelay io\<rparr>"

text \<open>The registers, seen from a channel.\<close>

definition chan_io :: "'g shared mmio \<Rightarrow> 'g nv_gsp_rpc_chan mmio" where
  "chan_io io = \<lparr>io_rd = (\<lambda>r ch. (fst (io_rd io r (ch_shm ch, ch_gsp ch)), gsp_acts (\<lambda>w. snd (io_rd io r w)) ch)),
     io_wr = (\<lambda>r v. gsp_acts (io_wr io r v)), io_udelay = (\<lambda>d. gsp_acts (io_udelay io d))\<rparr>"

definition open_channel :: "u32 \<Rightarrow> 'g shared \<Rightarrow> 'g nv_gsp_rpc_chan option" where
  "open_channel rptr w =
     (let lay = nv_gsp_shm_compute in
      do { wp \<leftarrow> ld32 (fst w) (unat (sl_cmdq_off lay) + NV_MSGQ_TX_WRITEPTR_OFF);
           Some \<lparr>ch_shm = fst w, ch_lay = lay, ch_cmdq_wptr = wp, ch_seq = wp, ch_msgq_rptr = rptr, ch_gsp = snd w\<rparr> })"

section \<open>Information and objects\<close>

text \<open>
  Static information and the two tables that are only reported.  \<open>si0\<close> is what the uninitialised variable \<open>si\<close>
  holds: it is used where the call fails.  The static buffers of the two tables start cleared.
\<close>

definition static_info ::
  "'g gsp_agent \<Rightarrow> nv_gsp_static_info \<Rightarrow> 'g nv_gsp_rpc_chan \<Rightarrow> (bool \<times> nv_gsp_static_info \<times> 'g nv_gsp_rpc_chan) option" where
  "static_info ag si0 ch =
     do { (rc, out, ch) \<leftarrow> nv_gsp_get_static_info ag ch;
          let si = (case out of Some i \<Rightarrow> i | None \<Rightarrow> si0) in
          if rc = NV_GSP_RM_OK then
            do { (_, _, _, ch) \<leftarrow> nv_gsp_gr_get_ctxbuf_info ag ch (si_h_client si) (si_h_subdevice si) 0 no_ctxbufs;
                 (_, _, _, ch) \<leftarrow> nv_gsp_intr_get_table ag ch (si_h_client si) (si_h_subdevice si) no_intr_table;
                 Some (True, si, ch) }
          else Some (False, si, ch) }"

text \<open>\<open>rc == NV_GSP_RM_OK && st == 0\<close>, with \<open>st\<close> preset to a value that is not 0; a handle preset to 0.\<close>

definition rm_ok :: "int \<Rightarrow> u32 option \<Rightarrow> bool" where
  "rm_ok rc st \<longleftrightarrow> rc = NV_GSP_RM_OK \<and> st = Some 0"

definition handle :: "u32 option \<Rightarrow> u32" where
  "handle h = (case h of Some x \<Rightarrow> x | None \<Rightarrow> 0)"

record rm_objects =
  ob_client :: u32
  ob_device :: u32
  ob_subdevice :: u32

definition rm_chain :: "'g gsp_agent \<Rightarrow> 'g nv_gsp_rpc_chan \<Rightarrow> (bool \<times> rm_objects \<times> 'g nv_gsp_rpc_chan) option" where
  "rm_chain ag ch =
     do { (rc0, cli, st0, ch) \<leftarrow> nv_gsp_rm_client_ctor ag ch;
          let ob = \<lparr>ob_client = handle cli, ob_device = 0, ob_subdevice = 0\<rparr> in
          if \<not> rm_ok rc0 st0 then Some (False, ob, ch)
          else do { (rc1, dev, st1, ch) \<leftarrow> nv_gsp_rm_device_ctor ag ch (ob_client ob);
                    let ob = ob\<lparr>ob_device := handle dev\<rparr> in
                    if \<not> rm_ok rc1 st1 then Some (False, ob, ch)
                    else do { (rc2, sub, st2, ch) \<leftarrow> nv_gsp_rm_subdevice_ctor ag ch (ob_client ob) (ob_device ob);
                              Some (rm_ok rc2 st2, ob\<lparr>ob_subdevice := handle sub\<rparr>, ch) } } }"

text \<open>The engine of the channel: its type, -1 without one, and its run list.\<close>

definition find_ce :: "'g gsp_agent \<Rightarrow> rm_objects \<Rightarrow> 'g nv_gsp_rpc_chan \<Rightarrow> (int \<times> u32 \<times> 'g nv_gsp_rpc_chan) option" where
  "find_ce ag ob ch =
     do { (rc, di, st, ch) \<leftarrow> nv_gsp_fifo_get_device_info ag ch (ob_client ob) (ob_subdevice ob);
          if rc = NV_GSP_RM_OK \<and> st = 0 then
            do { ce \<leftarrow> nv_gsp_fifo_find_engine di RM_ENGINE_TYPE_COPY0;
                 if ce < 0 then Some (-1, 0, ch)
                 else if nat ce < length (di_engines di) then
                   (let e = di_engines di ! nat ce in Some (sint (en_rm_engine_type e), en_runlist e, ch))
                 else None }
          else Some (-1, 0, ch) }"

definition fb_info :: "'g gsp_agent \<Rightarrow> rm_objects \<Rightarrow> 'g nv_gsp_rpc_chan \<Rightarrow> 'g nv_gsp_rpc_chan option" where
  "fb_info ag ob ch =
     do { (_, _, _, ch) \<leftarrow> nv_gsp_fb_get_info ag ch (ob_client ob) (ob_subdevice ob)
            [NV2080_CTRL_FB_INFO_INDEX_RAM_SIZE, NV2080_CTRL_FB_INFO_INDEX_TOTAL_RAM_SIZE, NV2080_CTRL_FB_INFO_INDEX_HEAP_SIZE,
             NV2080_CTRL_FB_INFO_INDEX_HEAP_FREE, NV2080_CTRL_FB_INFO_INDEX_BAR1_SIZE] [0, 0, 0, 0, 0] 5;
          Some ch }"

section \<open>VRAM\<close>

record nv_gsp_options =
  op_app_vram_bytes :: u64
  op_console_vram_base :: u64
  op_console_vram_size :: u64

text \<open>\<open>options && options->app_vram_bytes\<close>; the functions below get the options only where this holds.\<close>

definition external_vmm :: "nv_gsp_options option \<Rightarrow> nv_gsp_options option" where
  "external_vmm options = (case options of None \<Rightarrow> None | Some p \<Rightarrow> if op_app_vram_bytes p \<noteq> 0 then Some p else None)"

definition vaspace :: "'g gsp_agent \<Rightarrow> bool \<Rightarrow> rm_objects \<Rightarrow> 'g nv_gsp_rpc_chan \<Rightarrow> (bool \<times> u32 \<times> 'g nv_gsp_rpc_chan) option" where
  "vaspace ag external ob ch =
     do { (rc, va, st, ch) \<leftarrow> (if external then nv_gsp_rm_vaspace_external_ctor ag ch (ob_client ob) (ob_device ob)
                              else nv_gsp_rm_vaspace_ctor ag ch (ob_client ob) (ob_device ob));
          Some (rm_ok rc st, handle va, ch) }"

text \<open>One MiB of a region: 256 MiB behind its start where that fits, else at its start.\<close>

definition region_fit :: "nv_gsp_fb_region \<Rightarrow> u64 option" where
  "region_fit r =
     (if fr_reserved r \<noteq> 0 \<or> fr_prot r \<noteq> 0 then None
      else let base = (fr_base r + 0xfffff) AND NOT 0xfffff; cand = base + 0x10000000; vsize = 0x100000 in
           if cand + vsize - 1 \<le> fr_limit r then Some cand
           else if base + vsize - 1 \<le> fr_limit r then Some base else None)"

text \<open>The memory of the driver: the layout of the external case, and base and size of what is mapped.\<close>

definition place_vram ::
  "nv_gsp_options option \<Rightarrow> nv_gsp_static_info \<Rightarrow> (nv_gsp_memory_layout \<times> (u64 \<times> u64) option) option" where
  "place_vram ext si =
     (case ext of
        Some p \<Rightarrow> do { (rc, memory) \<leftarrow> nv_gsp_memory_plan si (op_app_vram_bytes p)
                          (Some \<lparr>sp_base = op_console_vram_base p, sp_size = op_console_vram_size p\<rparr>);
                       Some (memory, if rc = 0 then Some (ml_service_phys memory, rg_bytes (ml_tables memory)) else None) }
      | None \<Rightarrow> do { r \<leftarrow> find_upto (si_num_regions si)
                          (\<lambda>i. if unat i < length (si_regions si) then Some (region_fit (si_regions si ! unat i)) else None) 0;
                     Some (no_layout, map_option (\<lambda>phys. (phys, 0x100000)) r) })"

text \<open>The five tables behind the mapped object.\<close>

definition table_base :: "u64 \<Rightarrow> u64 \<Rightarrow> u64" where
  "table_base vphys vsize = (vphys + vsize + 0xfff) AND NOT 0xfff"

definition vram_tables :: "bool \<Rightarrow> nv_gsp_memory_layout \<Rightarrow> u64 \<Rightarrow> nv_gmmu_tables" where
  "vram_tables external memory pt_base =
     (if external then let l = rg_level_phys (ml_tables memory) in
        \<lparr>pd3_phys = l ! 0, pd2_phys = l ! 1, pd1_phys = l ! 2, pd0_phys = l ! 3, spt_phys = l ! 4\<rparr>
      else \<lparr>pd3_phys = pt_base, pd2_phys = pt_base + 0x1000, pd1_phys = pt_base + 2 * 0x1000,
            pd0_phys = pt_base + 3 * 0x1000, spt_phys = pt_base + 4 * 0x1000\<rparr>)"

definition map_vram ::
  "'g shared mmio \<Rightarrow> bool \<Rightarrow> rm_objects \<Rightarrow> u32 \<Rightarrow> nv_gsp_memory_layout \<Rightarrow> u64 \<Rightarrow> u64 \<Rightarrow> 'g nv_gsp_rpc_chan pramin \<Rightarrow>
   (bool \<times> 'g nv_gsp_rpc_chan pramin) option" where
  "map_vram io external ob hva memory vphys vsize st =
     (let t = vram_tables external memory (table_base vphys vsize);
          va = NV90F1_COPY_PDES_PAGESIZE_DEFAULT;
          npages = ucast (drop_bit 12 vsize) :: u32
      in do { (grc, st) \<leftarrow> (if external then nv_gmmu_range_build (chan_io io) (ml_tables memory) vphys st
                            else nv_gmmu_map_range (chan_io io) t va vphys npages st);
              if grc \<noteq> 0 then Some (False, st)
              else let (win, ch) = st in
                do { (cprc, cpst, ch) \<leftarrow>
                       (if external then nv_gsp_rm_set_page_directory (rpc_agent io) ch (ob_client ob) (ob_device ob) hva (pd3_phys t)
                        else nv_gsp_rm_vaspace_copy_pdes (rpc_agent io) ch (ob_client ob) hva 0 0 va
                               (va + NV90F1_COPY_PDES_PAGESIZE_DEFAULT - 1) [pd3_phys t, pd2_phys t, pd1_phys t] 3);
                     let (pte, st) = nv_gmmu_read_pte (chan_io io) (spt_phys t) va (win, ch) in
                     Some (rm_ok cprc cpst \<and> pte = nv_gmmu_make_pte_vram vphys False False, st) } })"

section \<open>The channel of the copy engine\<close>

definition channel_config :: "rm_objects \<Rightarrow> u32 \<Rightarrow> int \<Rightarrow> u64 \<Rightarrow> nv_gsp_chan_cfg" where
  "channel_config ob hva engtype buf_base =
     \<lparr>cc_hClient = ob_client ob, cc_hDevice = ob_device ob, cc_hVASpace = hva, cc_chid = 0, cc_engineType = of_int engtype,
      cc_gpfifo_va = NV90F1_COPY_PDES_PAGESIZE_DEFAULT, cc_gpfifo_entries = 0x100,
      cc_inst_phys = buf_base, cc_inst_size = 0x1000, cc_userd_phys = buf_base + 0x1000, cc_userd_size = 0x200,
      cc_ramfc_size = 0x200, cc_mthdbuf_phys = buf_base + 0x2000, cc_mthdbuf_size = 0x5000, cc_mthdbuf_sysmem = 0, cc_priv = True\<rparr>"

definition clear_channel :: "'w mmio \<Rightarrow> nv_gsp_chan_cfg \<Rightarrow> u64 \<Rightarrow> 'w pramin \<Rightarrow> 'w pramin option" where
  "clear_channel hw cfg vphys st =
     do { st \<leftarrow> nv_pramin_fill hw (cc_inst_phys cfg) (ucast (cc_inst_size cfg)) 0 st;
          st \<leftarrow> nv_pramin_fill hw (cc_userd_phys cfg) (ucast (cc_userd_size cfg)) 0 st;
          st \<leftarrow> nv_pramin_fill hw (cc_mthdbuf_phys cfg) (ucast (cc_mthdbuf_size cfg)) 0 st;
          nv_pramin_fill hw vphys (cc_gpfifo_entries cfg * 8) 0 st }"

text \<open>Allocation, binding and scheduling; the result of the binding is not looked at.\<close>

definition start_channel ::
  "'g gsp_agent \<Rightarrow> nv_gsp_chan_cfg \<Rightarrow> 'g nv_gsp_rpc_chan \<Rightarrow> (bool \<times> u32 \<times> 'g nv_gsp_rpc_chan) option" where
  "start_channel ag cfg ch =
     do { (rc, chan, st, ch) \<leftarrow> nv_gsp_rm_channel_alloc ag ch cfg;
          let hchan = handle chan in
          if \<not> rm_ok rc st then Some (False, hchan, ch)
          else do { (_, _, ch) \<leftarrow> nv_gsp_rm_channel_bind ag ch (cc_hClient cfg) hchan (cc_engineType cfg);
                    (rc, st, ch) \<leftarrow> nv_gsp_rm_channel_schedule ag ch (cc_hClient cfg) hchan True;
                    Some (rm_ok rc st, hchan, ch) } }"

text \<open>The object of the engine: whether it exists, its handle and its class engine id (0 without one).\<close>

definition ce_object ::
  "'g gsp_agent \<Rightarrow> nv_gsp_chan_cfg \<Rightarrow> u32 \<Rightarrow> 'g nv_gsp_rpc_chan \<Rightarrow> (bool \<times> u32 \<times> u32 \<times> 'g nv_gsp_rpc_chan) option" where
  "ce_object ag cfg hchan ch =
     (let hce = NV_GSP_RM_CE_OBJ_HANDLE OR 0 in
      do { (rc, st, ch) \<leftarrow> nv_gsp_rm_ce_obj_alloc ag ch (cc_hClient cfg) hchan hce AMPERE_DMA_COPY_B (cc_engineType cfg);
           if \<not> rm_ok rc st then Some (False, 0, 0, ch)
           else do { (rc, ceid, st, ch) \<leftarrow> nv_gsp_fifo_get_class_engineid ag ch (cc_hClient cfg) hchan hce;
                     Some (True, hce, if rm_ok rc st then ceid else 0, ch) } })"

primrec release_wait :: "'w mmio \<Rightarrow> u64 \<Rightarrow> u32 \<Rightarrow> nat \<Rightarrow> 'w pramin \<Rightarrow> bool \<times> 'w pramin" where
  "release_wait hw sem_phys payload 0 st = (False, st)"
| "release_wait hw sem_phys payload (Suc n) st =
     (let (v, win, w) = nv_pramin_rd32 hw sem_phys st in
      if v = payload then (True, win, w) else release_wait hw sem_phys payload n (win, io_udelay hw 1000 w))"

text \<open>The first command of the channel: the host releases a semaphore.\<close>

definition release_test :: "'w mmio \<Rightarrow> u64 \<Rightarrow> u64 \<Rightarrow> u32 \<Rightarrow> u32 \<Rightarrow> 'w pramin \<Rightarrow> bool \<times> 'w pramin" where
  "release_test hw vphys userd_phys chid runlist st =
     (let va = NV90F1_COPY_PDES_PAGESIZE_DEFAULT;
          payload = 0xcafe0001;
          st = nv_pramin_wr32 hw (vphys + 0x2000) 0 st;
          pb = nv_gsp_fifo_build_sem_release (va + 0x2000) payload;
          st = write_pushbuffer hw (vphys + 0x1000) pb st;
          (e0, e1) = nv_gsp_fifo_gpfifo_entry (va + 0x1000) (of_nat (length pb));
          st = nv_pramin_wr32 hw vphys e0 st;
          st = nv_pramin_wr32 hw (vphys + 4) e1 st;
          (win, w) = nv_pramin_wr32 hw (userd_phys + NV_USERD_GP_PUT_OFF) 1 st
      in release_wait hw (vphys + 0x2000) payload 2000
           (win, io_wr hw NV_VFN_DOORBELL_ADDR (push_bit 16 runlist OR chid) w))"

section \<open>The context\<close>

definition hand_over ::
  "bool \<Rightarrow> nv_gsp_memory_layout \<Rightarrow> nv_gsp_chan_cfg \<Rightarrow> u32 \<Rightarrow> u32 \<Rightarrow> u32 \<Rightarrow> u32 \<Rightarrow> u64 \<Rightarrow> u64 \<Rightarrow> bool \<Rightarrow> nv_gsp_gpu_ctx \<Rightarrow>
   nv_gsp_gpu_ctx" where
  "hand_over external memory cfg hchan hce ceid runlist vphys vsize ok gpu =
     (let va = NV90F1_COPY_PDES_PAGESIZE_DEFAULT;
          gpu = gpu\<lparr>gx_h_client := cc_hClient cfg, gx_h_device := cc_hDevice cfg, gx_h_vaspace := cc_hVASpace cfg,
                gx_h_channel := hchan, gx_h_ce := hce, gx_chid := cc_chid cfg, gx_runlist := runlist,
                gx_engine_type := cc_engineType cfg, gx_ring_va := va, gx_ring_phys := vphys,
                gx_ring_entries := cc_gpfifo_entries cfg, gx_pb_va := va + 0x1000, gx_pb_phys := vphys + 0x1000,
                gx_sem_va := va + 0x2000, gx_sem_phys := vphys + 0x2000, gx_userd_phys := cc_userd_phys cfg,
                gx_scratch_va := va + 0x3000, gx_scratch_phys := vphys + 0x3000,
                gx_scratch_size := (if vsize > 0x3000 then vsize - 0x3000 else 0)\<rparr>;
          gpu = (if external then gpu\<lparr>gx_scratch_va := ml_app_va memory, gx_scratch_phys := ml_app_phys memory,
                   gx_scratch_size := ml_app_bytes memory, gx_external_vmm := True\<rparr> else gpu)
      in gpu\<lparr>gx_class_engine_id := ceid, gx_gp_put := 1 mod cc_gpfifo_entries cfg, gx_seq := 0, gx_object_bound := False, gx_ok := ok\<rparr>)"

text \<open>The self-test: 64 KiB copied by the engine and compared; in the external case the far ends of the pool as well.\<close>

abbreviation (input) SELFTEST_BYTES :: u32 where "SELFTEST_BYTES \<equiv> 0x10000"

definition selftest_fill :: "'w mmio \<Rightarrow> u64 \<Rightarrow> u64 \<Rightarrow> 'w pramin \<Rightarrow> 'w pramin option" where
  "selftest_fill hw sp dp =
     for_upto 4 SELFTEST_BYTES (\<lambda>n st. let st = nv_pramin_wr32 hw (sp + ucast n) (n XOR 0x4D494C43) st
                                     in Some (nv_pramin_wr32 hw (dp + ucast n) 0 st)) 0"

definition selftest_check :: "'w mmio \<Rightarrow> u64 \<Rightarrow> u32 \<times> 'w pramin \<Rightarrow> (u32 \<times> 'w pramin) option" where
  "selftest_check hw dp =
     for_upto 4 SELFTEST_BYTES (\<lambda>n (bad, st). let (v, st) = nv_pramin_rd32 hw (dp + ucast n) st
                                            in Some (if v \<noteq> (n XOR 0x4D494C43) then bad + 1 else bad, st)) 0"

definition ce_selftest :: "'w mmio \<Rightarrow> nv_gsp_gpu_ctx \<Rightarrow> 'w pramin \<Rightarrow> (nv_gsp_gpu_ctx \<times> 'w pramin) option" where
  "ce_selftest hw gpu st =
     (if gx_ok gpu \<and> gx_scratch_size gpu \<ge> 0x20000 then
        let sp = gx_scratch_phys gpu; dp = sp + ucast SELFTEST_BYTES;
            sv = gx_scratch_va gpu; dv = sv + ucast SELFTEST_BYTES
        in do { st \<leftarrow> selftest_fill hw sp dp st;
                let (crc, gpu, st) = nv_gsp_gpu_copy hw gpu sv dv SELFTEST_BYTES 2000 st in
                do { (bad, st) \<leftarrow> (if crc = 0 then selftest_check hw dp (0, st) else Some (0, st));
                     let gpu = gpu\<lparr>gx_selftest_ok := (crc = 0 \<and> bad = 0)\<rparr> in
                     do { (gpu, st) \<leftarrow> (if gx_external_vmm gpu \<and> gx_selftest_ok gpu then
                             do { (rc, gpu, st) \<leftarrow> nv_gsp_gpu_pool_test hw gpu st;
                                  Some (if rc \<noteq> 0 then gpu\<lparr>gx_ok := False\<rparr> else gpu, st) }
                           else Some (gpu, st));
                          Some (if gx_external_vmm gpu \<and> \<not> gx_pool_selftest_ok gpu then gpu\<lparr>gx_ok := False\<rparr> else gpu, st) } } }
      else Some (gpu, st))"

section \<open>All of it\<close>

definition ce_channel ::
  "'g shared mmio \<Rightarrow> bool \<Rightarrow> nv_gsp_memory_layout \<Rightarrow> nv_gsp_chan_cfg \<Rightarrow> u32 \<Rightarrow> u64 \<Rightarrow> u64 \<Rightarrow> nv_gsp_gpu_ctx option \<Rightarrow>
   'g nv_gsp_rpc_chan pramin \<Rightarrow> (nv_gsp_gpu_ctx option \<times> 'g nv_gsp_rpc_chan pramin) option" where
  "ce_channel io external memory cfg runlist vphys vsize gpu st =
     (let hw = chan_io io; ag = rpc_agent io in
      do { (win, ch) \<leftarrow> clear_channel hw cfg vphys st;
           (sched_ok, hchan, ch) \<leftarrow> start_channel ag cfg ch;
           if \<not> sched_ok then Some (gpu, win, ch)
           else do { (ce_ok, hce, ceid, ch) \<leftarrow> ce_object ag cfg hchan ch;
                     let (exec_ok, st) = release_test hw vphys (cc_userd_phys cfg) (cc_chid cfg) runlist (win, ch) in
                     case gpu of None \<Rightarrow> Some (None, st)
                     | Some g \<Rightarrow>
                         do { (g, st) \<leftarrow> ce_selftest hw (hand_over external memory cfg hchan hce ceid runlist vphys vsize
                                              (exec_ok \<and> ce_ok \<and> ceid \<noteq> 0) g) st;
                              Some (Some g, st) } } })"

text \<open>\<open>gpu\<close> is the context to fill, \<open>None\<close> for a null pointer.\<close>

definition gpu_layers ::
  "'g shared mmio \<Rightarrow> nv_gsp_options option \<Rightarrow> nv_gsp_static_info \<Rightarrow> rm_objects \<Rightarrow> nv_gsp_gpu_ctx option \<Rightarrow>
   'g nv_gsp_rpc_chan \<Rightarrow> (nv_gsp_gpu_ctx option \<times> 'g nv_gsp_rpc_chan) option" where
  "gpu_layers io options si ob gpu ch =
     (let ag = rpc_agent io; ext = external_vmm options; external = (ext \<noteq> None) in
      do { (engtype, runlist, ch) \<leftarrow> find_ce ag ob ch;
           ch \<leftarrow> fb_info ag ob ch;
           (va_ok, hva, ch) \<leftarrow> vaspace ag external ob ch;
           (memory, place) \<leftarrow> place_vram ext si;
           case place of None \<Rightarrow> Some (gpu, ch)
           | Some (vphys, vsize) \<Rightarrow>
               do { (mrc, _, mres, ch) \<leftarrow> nv_gsp_rm_vram_memlist ag ch (ob_client ob) (ob_device ob) vphys
                                            (if external then NV_GSP_SERVICE_BYTES else vsize);
                    if \<not> (rm_ok mrc mres \<and> va_ok) then Some (gpu, ch)
                    else do { (map_ok, st) \<leftarrow> map_vram io external ob hva memory vphys vsize (-1, ch);
                              if \<not> (map_ok \<and> 0 \<le> engtype) then Some (gpu, snd st)
                              else let buf_base = (if external then ml_channel_phys memory
                                                   else table_base vphys vsize + 0x10000);
                                       cfg = channel_config ob hva engtype buf_base
                                   in do { (gpu, st) \<leftarrow> ce_channel io external memory cfg runlist vphys vsize gpu st;
                                           Some (gpu, snd st) } } } })"

section \<open>The bus\<close>

text \<open>
  What is asked of the hardware: it follows the queue protocol whichever register is accessed, and \<open>P\<close> is a property
  of it that the accesses keep.  With \<open>g\<close> the two registers that make the display read its command streams are not
  among these accesses.
\<close>

definition display_puts :: "u32 set" where
  "display_puts = {0x680000, 0x690000}"

definition bus_ok :: "'g shared mmio \<Rightarrow> bool \<Rightarrow> ('g \<Rightarrow> bool) \<Rightarrow> 'g nv_gsp_rpc_chan \<Rightarrow> bool" where
  "bus_ok io g P ch \<longleftrightarrow>
     (\<forall>r v d. appends (\<lambda>w. snd (io_rd io r w)) \<and> appends (io_wr io r v) \<and> appends (io_udelay io d))
     \<and> (\<forall>w r v d. P (snd w) \<longrightarrow> P (snd (snd (io_rd io r w))) \<and> P (snd (io_udelay io d w))
          \<and> ((g \<longrightarrow> r \<notin> display_puts) \<longrightarrow> P (snd (io_wr io r v w))))
     \<and> (\<exists>ms. chan_ok ch ms) \<and> P (ch_gsp ch)"

lemma bus_acts:
  assumes "bus_ok io g P ch" "appends f" "P (snd (f (ch_shm ch, ch_gsp ch)))"
  shows "bus_ok io g P (gsp_acts f ch)"
proof -
  obtain ms where "chan_ok ch ms" using assms(1) by (auto simp: bus_ok_def)
  from gsp_acts_ok [OF this assms(2)] obtain new where "chan_ok (gsp_acts f ch) (ms @ new)" by blast
  then show ?thesis using assms(1,3) by (auto simp: bus_ok_def gsp_acts_def split_def Let_def)
qed

lemma bus_served: "bus_ok io g P ch \<Longrightarrow> served (rpc_agent io) P ch"
  by (simp add: bus_ok_def served_def rpc_agent_def gsp_protocol_def display_puts_def)

text \<open>The interface of everything below: calls to GSP-RM and register accesses keep \<open>Q\<close>.\<close>

locale bring_up = rpc_service "rpc_agent io" Q + register_port "chan_io io" ok Q
  for io :: "'g shared mmio" and ok :: "u32 \<Rightarrow> bool" and Q :: "'g nv_gsp_rpc_chan \<Rightarrow> bool"

interpretation bu: bring_up io "\<lambda>r. g \<longrightarrow> r \<notin> display_puts" "bus_ok io g P" for io :: "'g shared mmio" and g P
proof
  fix ch :: "'g nv_gsp_rpc_chan" and req :: "u8 list" and len cap fn :: u32
  assume b: "bus_ok io g P ch" and l: "length req = unat len" "unat len \<le> 4016" "unat cap \<le> 4016"
  show "returns (nv_gsp_rpc_call (rpc_agent io) ch fn req len cap 4000000) (\<lambda>(reply, ch'). bus_ok io g P ch' \<and> (case reply of
      Inl rc \<Rightarrow> rc \<noteq> NV_GSP_RM_OK | Inr (rep, rlen, rres) \<Rightarrow> length rep = min (unat rlen) (unat cap)))"
    by (rule returns_mono [OF sv.call_law [OF bus_served [OF b] l]]) (use b in \<open>auto simp: served_def bus_ok_def\<close>)
next
  show "bus_ok io g P (snd (io_rd (chan_io io) r ch))" if "bus_ok io g P ch" for ch r
    unfolding chan_io_def using that by (simp add: bus_acts bus_ok_def [of io g P ch])
  show "bus_ok io g P (io_wr (chan_io io) r v ch)" if "bus_ok io g P ch" "g \<longrightarrow> r \<notin> display_puts" for ch r v
    unfolding chan_io_def using that by (simp add: bus_acts bus_ok_def [of io g P ch])
  show "bus_ok io g P (io_udelay (chan_io io) d ch)" if "bus_ok io g P ch" for ch d
    unfolding chan_io_def using that by (simp add: bus_acts bus_ok_def [of io g P ch])
  show "g \<longrightarrow> 0x700000 + off \<notin> display_puts" if "off < 0x100000" for off
  proof -
    have u: "unat (0x700000 + off) = 0x700000 + unat off"
      using that by (subst unat_add_small) (simp_all add: word_less_nat_alt)
    have "unat (0x700000 + off) \<noteq> unat (0x680000 :: u32)" "unat (0x700000 + off) \<noteq> unat (0x690000 :: u32)"
      unfolding u by simp_all
    then show ?thesis by (auto simp only: display_puts_def insert_iff empty_iff)
  qed
qed (simp_all add: display_puts_def)

end
