(* ===== verification/GspContext.thy ===== *)
theory GspContext
  imports GspLayer4
begin

text \<open>
  The first half of the code after \<open>GSP_INIT_DONE\<close>, proved: it returns whatever GSP-RM answers, and a context that it
  hands out as usable is one the kext can rely on.
\<close>

section \<open>What submissions do to a context\<close>

text \<open>The part of a context that is decided when it is handed over.\<close>

definition place_ctx :: "nv_gsp_gpu_ctx \<Rightarrow> nv_gsp_gpu_ctx" where
  "place_ctx gpu = (static_ctx gpu)\<lparr>gx_pool_selftest_ok := False, gx_selftest_ok := False\<rparr>"

definition ctx_step :: "nv_gsp_gpu_ctx \<Rightarrow> nv_gsp_gpu_ctx \<Rightarrow> bool" where
  "ctx_step g g' \<longleftrightarrow> place_ctx g' = place_ctx g \<and> (gx_gp_put g < gx_ring_entries g \<longrightarrow> gx_gp_put g' < gx_ring_entries g')
     \<and> (gx_ok g' \<longrightarrow> gx_ok g)"

lemma place_fields:
  assumes "place_ctx g = place_ctx h"
  shows "gx_sem_phys g = gx_sem_phys h" "gx_pb_phys g = gx_pb_phys h" "gx_ring_phys g = gx_ring_phys h"
    "gx_userd_phys g = gx_userd_phys h" "gx_ring_entries g = gx_ring_entries h" "gx_scratch_va g = gx_scratch_va h"
    "gx_scratch_phys g = gx_scratch_phys h" "gx_scratch_size g = gx_scratch_size h" "gx_pb_va g = gx_pb_va h"
    "gx_sem_va g = gx_sem_va h" "gx_external_vmm g = gx_external_vmm h" "gx_class_engine_id g = gx_class_engine_id h"
  using assms by (cases g; cases h; simp add: place_ctx_def static_ctx_def)+

lemma step_refl: "ctx_step g g" by (simp add: ctx_step_def)
lemma step_trans: "ctx_step g h \<Longrightarrow> ctx_step h k \<Longrightarrow> ctx_step g k" by (simp add: ctx_step_def)

lemma step_ready: "ctx_step g g' \<Longrightarrow> ctx_ready g \<Longrightarrow> ctx_ready g'"
  using place_fields [of g' g]
  by (simp add: ctx_step_def ctx_ready_def ctx_placed_def ctx_cells_def scratch_placed_def cells_apart_def)

text \<open>The flags are not part of \<open>place_ctx\<close>.\<close>

lemma step_flags [simp]:
  "ctx_step g (g'\<lparr>gx_pool_selftest_ok := p\<rparr>) \<longleftrightarrow> ctx_step g g'" "ctx_step g (g'\<lparr>gx_selftest_ok := q\<rparr>) \<longleftrightarrow> ctx_step g g'"
  "ctx_step (g\<lparr>gx_pool_selftest_ok := p\<rparr>) g' \<longleftrightarrow> ctx_step g g'"
  "ctx_step g g' \<Longrightarrow> ctx_step g (g'\<lparr>gx_ok := False\<rparr>)"
  by (simp_all add: ctx_step_def place_ctx_def static_ctx_def)

definition flags_kept :: "nv_gsp_gpu_ctx \<Rightarrow> nv_gsp_gpu_ctx \<Rightarrow> bool" where
  "flags_kept g g' \<longleftrightarrow> gx_pool_selftest_ok g' = gx_pool_selftest_ok g \<and> gx_selftest_ok g' = gx_selftest_ok g"

lemma copy_fields:
  "place_ctx (fst (snd (nv_gsp_gpu_copy hw g src dst n t st))) = place_ctx g"
  "flags_kept g (fst (snd (nv_gsp_gpu_copy hw g src dst n t st)))"
  "gx_ok (fst (snd (nv_gsp_gpu_copy hw g src dst n t st))) \<Longrightarrow> gx_ok g"
  "gx_gp_put (fst (snd (nv_gsp_gpu_copy hw g src dst n t st))) \<in> {gx_gp_put g, (gx_gp_put g + 1) mod gx_ring_entries g}"
     apply (auto simp: nv_gsp_gpu_copy_def Let_def split_def post_entry_def place_ctx_def static_ctx_def) [1]
    apply (auto simp: nv_gsp_gpu_copy_def Let_def split_def post_entry_def flags_kept_def) [1]
   apply (cases "gx_ok g"; simp add: nv_gsp_gpu_copy_def)
  apply (simp add: nv_gsp_gpu_copy_def Let_def split_def post_entry_def)
  done

lemma copy_step:
  assumes "nv_gsp_gpu_copy hw g src dst n t st = (rc, g', st')"
  shows "ctx_step g g'" "flags_kept g g'"
proof -
  note f = copy_fields [where hw = hw and g = g and src = src and dst = dst and n = n and t = t and st = st, unfolded assms fst_conv snd_conv]
  have "(gx_gp_put g + 1) mod gx_ring_entries g < gx_ring_entries g" if "gx_gp_put g < gx_ring_entries g"
    using that by (auto simp: word_less_nat_alt unat_mod intro!: mod_less_divisor)
  moreover have "gx_ring_entries g' = gx_ring_entries g" by (rule place_fields(5) [OF f(1)])
  ultimately show "ctx_step g g'" using f by (auto simp: ctx_step_def)
  show "flags_kept g g'" by (rule f(2))
qed

lemma pool_probe_step:
  assumes "pool_probe hw off n (g, st) = Some (rc, g', st')"
  shows "ctx_step g g'" "flags_kept g g'"
proof -
  obtain st1 where f: "probe_fill hw g off n st = Some st1" using probe_fill_returns by blast
  obtain rc1 g1 st2 where c: "nv_gsp_gpu_copy hw g (gx_scratch_va g) (gx_scratch_va g + off) PROBE_BYTES 2000 st1 = (rc1, g1, st2)"
    by (metis prod_cases3)
  have "g' = g \<or> g' = g1" using assms f c by (auto simp: pool_probe_def bind_eq_Some_conv split: if_splits)
  then show "ctx_step g g'" "flags_kept g g'" using copy_step [OF c] step_refl by (auto simp: flags_kept_def)
qed

lemma pool_test_step:
  assumes "nv_gsp_gpu_pool_test hw g st = Some (rc, g', st')"
  shows "ctx_step g g' \<and> gx_selftest_ok g' = gx_selftest_ok g
     \<and> (rc \<noteq> 0 \<longrightarrow> gx_pool_selftest_ok g' \<longrightarrow> gx_pool_selftest_ok g)"
proof (cases "\<not> gx_ok g \<or> \<not> gx_external_vmm g \<or> gx_scratch_size g < 0x40000000")
  case True
  then show ?thesis using assms step_refl by (auto simp: nv_gsp_gpu_pool_test_def)
next
  case False
  let ?g = "g\<lparr>gx_pool_selftest_ok := False\<rparr>"
  define off0 where "off0 = (gx_scratch_va g OR 0x1fffffff) + 1 - gx_scratch_va g - ucast (PROBE_BYTES div 2)"
  obtain rc0 g0 st0 where p0: "pool_probe hw off0 0 (?g, st) = Some (rc0, g0, st0)" using pool_probe_returns by blast
  obtain rc1 g1 st1 where p1: "pool_probe hw (gx_scratch_size g - ucast PROBE_BYTES) 1 (g0, st0) = Some (rc1, g1, st1)"
    using pool_probe_returns by blast
  have s: "ctx_step g g0" "ctx_step g g1" "flags_kept ?g g0" "flags_kept ?g g1"
    using pool_probe_step [OF p0] pool_probe_step [OF p1] step_trans [of g g0 g1] by (auto simp: flags_kept_def)
  show ?thesis
    using assms False p0 p1 s unfolding nv_gsp_gpu_pool_test_def Let_def off0_def [symmetric]
    by (auto simp: flags_kept_def split: if_splits)
qed

section \<open>The self-test\<close>

context bring_up
begin

lemma selftest_fill_ok: "Q (snd st) \<Longrightarrow> returns (selftest_fill (chan_io io) sp dp st) (\<lambda>st. Q (snd st))"
  unfolding selftest_fill_def Let_def by (rule loop_ok) (simp_all add: wr32_ok)

lemma selftest_check_ok: "Q (snd st) \<Longrightarrow> returns (selftest_check (chan_io io) dp (bad, st)) (\<lambda>(bad, st). Q (snd st))"
  unfolding selftest_check_def Let_def
  by (rule ret_for_upto [OF _ _ refl, where P = "\<lambda>_ (bad, st). Q (snd st)"]) (auto simp: rd32_ok split_def intro!: ret_Some)

text \<open>What the self-test leaves of a context: in the external case it is usable only if both tests passed.\<close>

definition tested :: "nv_gsp_gpu_ctx \<Rightarrow> nv_gsp_gpu_ctx \<Rightarrow> bool" where
  "tested g g' \<longleftrightarrow> ctx_step g g' \<and> (gx_ok g' \<and> gx_external_vmm g \<and> gx_scratch_size g \<ge> 0x20000
      \<longrightarrow> gx_selftest_ok g' \<and> gx_pool_selftest_ok g')"

lemma selftest_ok:
  assumes q: "Q (snd st)" and fresh: "\<not> gx_pool_selftest_ok g"
  shows "returns (ce_selftest (chan_io io) g st) (\<lambda>(g', st'). Q (snd st') \<and> tested g g')"
proof (cases "gx_ok g \<and> gx_scratch_size g \<ge> 0x20000")
  case False
  then have "ce_selftest (chan_io io) g st = Some (g, st)" unfolding ce_selftest_def by (rule if_not_P)
  then show ?thesis using q False by (auto simp: split_def tested_def step_refl intro!: ret_Some)
next
  case True
  let ?hw = "chan_io io" and ?sp = "gx_scratch_phys g" and ?sv = "gx_scratch_va g"
  obtain st1 where f: "selftest_fill ?hw ?sp (?sp + ucast SELFTEST_BYTES) st = Some st1" and q1: "Q (snd st1)"
    using returnsD [OF selftest_fill_ok [OF q, of ?sp "?sp + ucast SELFTEST_BYTES"]] by auto
  obtain crc g1 st2 where c: "nv_gsp_gpu_copy ?hw g ?sv (?sv + ucast SELFTEST_BYTES) SELFTEST_BYTES 2000 st1 = (crc, g1, st2)"
    by (metis prod_cases3)
  have q2: "Q (snd st2)" using gpu_copy_ok [OF q1, of g ?sv "?sv + ucast SELFTEST_BYTES" SELFTEST_BYTES 2000] c by simp
  obtain bad st3 where k: "(if crc = 0 then selftest_check ?hw (?sp + ucast SELFTEST_BYTES) (0, st2) else Some (0, st2)) = Some (bad, st3)"
    and q3: "Q (snd st3)"
  proof (cases "crc = 0")
    case True
    then show thesis using returnsD [OF selftest_check_ok [OF q2, of "?sp + ucast SELFTEST_BYTES" 0]] that by auto
  qed (use that q2 in simp)
  define g2 where "g2 = g1\<lparr>gx_selftest_ok := (crc = 0 \<and> bad = 0)\<rparr>"
  have s2: "ctx_step g g2" "\<not> gx_pool_selftest_ok g2" using copy_step [OF c] fresh by (simp_all add: g2_def flags_kept_def)
  have e2: "gx_external_vmm g2 = gx_external_vmm g" using s2(1) place_fields(11) unfolding ctx_step_def by blast
  obtain rc g3 st4 where p: "nv_gsp_gpu_pool_test ?hw g2 st3 = Some (rc, g3, st4)" and q4: "Q (snd st4)"
    using returnsD [OF pool_test_ok [OF q3, of g2]] by auto
  note s3 = pool_test_step [OF p]
  have e3: "gx_external_vmm g3 = gx_external_vmm g" using s3 e2 place_fields(11) unfolding ctx_step_def by metis
  have run: "ce_selftest ?hw g st =
      do { (gpu, st) \<leftarrow> (if gx_external_vmm g2 \<and> gx_selftest_ok g2 then
              do { (rc, gpu, st) \<leftarrow> nv_gsp_gpu_pool_test ?hw g2 st3; Some (if rc \<noteq> 0 then gpu\<lparr>gx_ok := False\<rparr> else gpu, st) }
            else Some (g2, st3));
           Some (if gx_external_vmm gpu \<and> \<not> gx_pool_selftest_ok gpu then gpu\<lparr>gx_ok := False\<rparr> else gpu, st) }"
    unfolding ce_selftest_def if_P [OF True] by (simp only: Let_def f c k Option.bind.simps prod.case g2_def)
  show ?thesis
  proof (cases "gx_external_vmm g2 \<and> gx_selftest_ok g2")
    case True
    then show ?thesis using run p q4 s2 e2 s3 e3 step_trans [of g g2 g3] by (auto simp: returns_def tested_def)
  next
    case False
    then show ?thesis using run q3 s2 e2 by (cases st3) (auto simp: returns_def tested_def)
  qed
qed

section \<open>Information, objects and memory\<close>

abbreviation (input) ag where "ag \<equiv> rpc_agent io"
abbreviation (input) hw where "hw \<equiv> chan_io io"

lemma static_info_step:
  assumes "Q ch" "info_ok si0"
  shows "returns (static_info ag si0 ch) (\<lambda>(ok, si, ch'). Q ch' \<and> info_ok si)"
  unfolding static_info_def
  apply (rule ret_bind [OF static_info_ok [OF assms(1)]])
  subgoal for r
    using assms(2)
    by (cases r) (auto split: option.splits intro!: ret_rules ret_bind [OF ctxbuf_query_ok] ret_bind [OF intr_query_ok])
  done

lemma rm_chain_step: "Q ch \<Longrightarrow> returns (rm_chain ag ch) (\<lambda>(ok, ob, ch'). Q ch')"
  unfolding rm_chain_def
  apply (rule ret_bind [OF client_ok], assumption)
  subgoal for r
    by (cases r) (auto simp: ctor_done_def split_def intro!: ret_rules ret_bind [OF device_ok] ret_bind [OF subdevice_ok])
  done

lemma find_ce_step: "Q ch \<Longrightarrow> returns (find_ce ag ob ch) (\<lambda>(t, rl, ch'). Q ch')"
  unfolding find_ce_def
  apply (rule ret_bind [OF device_info_ok], assumption)
  subgoal for r
    by (cases r) (auto simp: devinfo_ok_def split_def Let_def intro!: ret_rules ret_bind [OF find_engine_ok])
  done

lemma fb_info_step: "Q ch \<Longrightarrow> returns (fb_info ag ob ch) Q"
  unfolding fb_info_def
  by (rule ret_bind [OF fb_get_info_ok]) (auto intro!: ret_rules)

lemma vaspace_step: "Q ch \<Longrightarrow> returns (vaspace ag e ob ch) (\<lambda>(ok, h, ch'). Q ch')"
  unfolding vaspace_def nv_gsp_rm_vaspace_external_ctor_def nv_gsp_rm_vaspace_ctor_def
  by (cases e) (auto simp: ctor_done_def split_def intro!: ret_rules ret_bind [OF vaspace_ok])

lemma map_vram_step:
  assumes "Q (snd st)"
  shows "returns (map_vram io e ob hva memory vphys vsize st) (\<lambda>(ok, st'). Q (snd st'))"
proof -
  have tables: "returns (if e then nv_gmmu_range_build hw r vphys st else nv_gmmu_map_range hw t va vphys n st)
      (\<lambda>(rc, st). Q (snd st))" for r t va n
    using assms by (simp add: range_build_ok map_range_ok)
  show ?thesis
    unfolding map_vram_def Let_def
    apply (rule ret_bind [OF tables])
    subgoal for r
      by (cases r) (auto simp: split_def Let_def ctl_done_def intro!: ret_rules ret_bind [OF set_page_directory_ok]
          ret_bind [OF copy_pdes_ok] read_pte_ok)
    done
qed

lemma clear_channel_step:
  assumes "Q (snd st)"
  shows "returns (clear_channel hw (channel_config ob hva t buf) vphys st) (\<lambda>st'. Q (snd st'))"
  unfolding clear_channel_def
  by (rule ret_bind [OF fill_ok] | rule fill_ok | assumption | simp add: channel_config_def assms)+

lemma start_channel_step: "Q ch \<Longrightarrow> returns (start_channel ag cfg ch) (\<lambda>(ok, h, ch'). Q ch')"
  unfolding start_channel_def
  apply (rule ret_bind [OF channel_alloc_ok], assumption)
  subgoal for r
    by (cases r) (auto simp: ctor_done_def ctl_done_def split_def Let_def
        intro!: ret_rules ret_bind [OF channel_bind_ok] ret_bind [OF channel_schedule_ok])
  done

lemma ce_object_step: "Q ch \<Longrightarrow> returns (ce_object ag cfg h ch) (\<lambda>(ok, hce, ceid, ch'). Q ch')"
  unfolding ce_object_def Let_def
  apply (rule ret_bind [OF ce_obj_alloc_ok], assumption)
  subgoal for r
    by (cases r) (auto simp: ctl_done_def split_def intro!: ret_rules ret_bind [OF class_engineid_ok])
  done

lemma release_wait_ok: "Q (snd st) \<Longrightarrow> Q (snd (snd (release_wait hw a p n st)))"
proof (induction n arbitrary: st)
  case (Suc n)
  then show ?case using rd32_ok [of st a] by (auto simp: split_def Let_def intro!: Suc.IH port_udelay)
qed simp

lemma release_test_ok: "Q (snd st) \<Longrightarrow> Q (snd (snd (release_test hw vphys u c rl st)))"
  by (simp add: release_test_def Let_def split_def release_wait_ok port_wr ok_bell wr32_ok pushbuffer_ok)

end

section \<open>Placement\<close>

lemma region_fit_place:
  assumes "region_fit r = Some p" "unat (fr_limit r) < 2 ^ 39"
  shows "usable r \<and> 0x100000 dvd unat p \<and> unat p + 0x100000 \<le> 2 ^ 39"
proof -
  let ?b = "(fr_base r + 0xfffff) AND NOT 0xfffff"
  have m: "(0xfffff :: u64) = mask 20" by (simp add: mask_eq_exp_minus_1)
  have b: "0x100000 dvd unat ?b" unfolding m unat_and_not_mask by simp
  have "0x100000 dvd (unat ?b + 0x10000000) mod 2 ^ 64" using b by (auto simp: dvd_mod)
  then have c: "0x100000 dvd unat (?b + 0x10000000)" by (simp add: unat_word_ariths)
  have p: "p \<in> {?b, ?b + 0x10000000}" "p + 0xfffff \<le> fr_limit r" "usable r"
    using assms(1) by (auto simp: region_fit_def Let_def usable_def add.commute split: if_splits)
  have d: "0x100000 dvd unat p" using p(1) b c by auto
  have "unat p \<le> 2 ^ 64 - 2 ^ 20" using d u64_less [of p] by (auto elim!: dvdE)
  then have "unat (p + 0xfffff) = unat p + 0xfffff" by (subst unat_add_small) simp_all
  then have "unat p + 0xfffff \<le> unat (fr_limit r)" using p(2) by (simp add: word_le_nat_alt)
  then have "unat p + 0x100000 \<le> 2 ^ 39" using assms(2) by simp
  then show ?thesis using d p(3) by simp
qed

text \<open>The console of the options, and what is known of the regions where the driver chooses by itself.\<close>

definition console :: "nv_gsp_options \<Rightarrow> nv_vram_span option" where
  "console p = Some \<lparr>sp_base = op_console_vram_base p, sp_size = op_console_vram_size p\<rparr>"

definition low_regions :: "nv_gsp_static_info \<Rightarrow> bool" where
  "low_regions si \<longleftrightarrow> (\<forall>r \<in> set (si_regions si). unat (fr_limit r) < 2 ^ 39)"

definition placed :: "nv_gsp_options option \<Rightarrow> nv_gsp_static_info \<Rightarrow> nv_gsp_memory_layout \<Rightarrow> u64 \<Rightarrow> u64 \<Rightarrow> bool" where
  "placed ext si memory vphys vsize \<longleftrightarrow>
     (case ext of Some p \<Rightarrow> layout_ok si (op_app_vram_bytes p) (console p) memory \<and> op_app_vram_bytes p \<ge> 0x40000000
          \<and> vphys = ml_service_phys memory
      | None \<Rightarrow> vsize = 0x100000 \<and> (low_regions si \<longrightarrow> 0x100000 dvd unat vphys \<and> unat vphys + 0x100000 \<le> 2 ^ 39))"

lemma plan_min: "nv_gsp_memory_plan si app extra = Some (0, l) \<Longrightarrow> app \<ge> 0x40000000"
  by (rule ccontr) (simp add: nv_gsp_memory_plan_def not_le)

lemma place_vram_ok:
  assumes "info_ok si"
  shows "returns (place_vram ext si) (\<lambda>(memory, place). case place of None \<Rightarrow> True | Some (v, n) \<Rightarrow> placed ext si memory v n)"
proof (cases ext)
  case None
  have "returns (find_upto (si_num_regions si) (\<lambda>i. if unat i < length (si_regions si)
          then Some (region_fit (si_regions si ! unat i)) else None) 0)
      (\<lambda>r. case r of None \<Rightarrow> \<forall>k < unat (si_num_regions si). True
         | Some p \<Rightarrow> \<exists>k < unat (si_num_regions si). (\<forall>j < k. True) \<and> k < 16 \<and> region_fit (si_regions si ! k) = Some p)"
  proof (rule ret_find_upto)
    fix k assume k: "k < unat (si_num_regions si)"
    then have "k < 16" using assms by (simp add: info_ok_def)
    moreover from this have "unat (of_nat k :: u32) = k" by (simp add: unat_of_nat_small)
    ultimately show "returns (if unat (of_nat k :: u32) < length (si_regions si)
          then Some (region_fit (si_regions si ! unat (of_nat k :: u32))) else None)
        (\<lambda>r. case r of None \<Rightarrow> True | Some p \<Rightarrow> k < 16 \<and> region_fit (si_regions si ! k) = Some p)"
      using assms by (auto simp: info_ok_def returns_def split: option.splits)
  qed
  moreover have "low_regions si \<longrightarrow> 0x100000 dvd unat p \<and> unat p + 0x100000 \<le> 2 ^ 39"
    if "k < 16" "region_fit (si_regions si ! k) = Some p" for k p
    using region_fit_place [OF that(2)] that(1) assms by (auto simp: low_regions_def info_ok_def)
  ultimately show ?thesis
    unfolding place_vram_def None option.case
    by (elim ret_bind) (auto simp: placed_def intro!: ret_Some split: option.splits)
next
  case (Some p)
  then show ?thesis
    using memory_plan_spec [of si "op_app_vram_bytes p" "console p"]
      plan_min [of si "op_app_vram_bytes p" "console p"]
    by (auto simp: place_vram_def returns_def placed_def console_def)
qed

section \<open>The context that is handed over\<close>

lemma ctx_readyI:
  assumes "unat (gx_ring_phys g) = b" "unat (gx_pb_phys g) = b + 0x1000" "unat (gx_sem_phys g) = b + 0x2000"
    "unat (gx_userd_phys g) = u" "unat (gx_scratch_phys g) = s" "b + 0x3000 \<le> s" "s + unat (gx_scratch_size g) \<le> u"
    "u + 0x200 \<le> 2 ^ 40" "4 dvd b" "4 dvd u" "4 dvd s" "gx_ring_entries g = 0x100" "gx_gp_put g = 1"
    "gx_pb_va g = 0x20001000" "gx_sem_va g = 0x20002000" "unat (gx_scratch_va g) \<le> 2 ^ 30"
  shows "ctx_ready g"
proof -
  have d: "ranges_disjoint (ctx_cells g)"
    using assms(1-8,12) by (simp add: ranges_disjoint_def ctx_cells_def less_Suc_eq numeral_3_eq_3 all_conj_distrib)
  show ?thesis
    using assms d by (auto simp: ctx_ready_def ctx_placed_def scratch_placed_def cells_apart_def ctx_cells_def)
qed

definition channel_base :: "bool \<Rightarrow> nv_gsp_memory_layout \<Rightarrow> u64 \<Rightarrow> u64 \<Rightarrow> u64" where
  "channel_base external memory vphys vsize =
     (if external then ml_channel_phys memory else table_base vphys vsize + 0x10000)"

lemma hand_over_ready:
  assumes "placed ext si memory vphys vsize" "ext = None \<longrightarrow> low_regions si"
  shows "ctx_ready (hand_over (ext \<noteq> None) memory (channel_config ob hva t (channel_base (ext \<noteq> None) memory vphys vsize))
     hchan hce ceid rl vphys vsize ok g)" (is "ctx_ready ?c")
proof (cases ext)
  case (Some p)
  let ?b = "unat vphys" and ?app = "op_app_vram_bytes p"
  have l: "layout_ok si ?app (console p) memory" "vphys = ml_service_phys memory" using assms(1) Some by (simp_all add: placed_def)
  define u where "u = ?b + mapped_bytes ?app + table_total 0x20000000 (mapped_bytes ?app)"
  have v: "0x10000 dvd ?b" "u + 0x10000 \<le> 2 ^ 40" "unat (ml_app_phys memory) = ?b + 0x100000" "unat (ml_app_va memory) = 0x20100000"
    "ml_app_bytes memory = ?app" "unat (ml_channel_phys memory) = u" "?b + 0x100000 + unat ?app \<le> u"
    using l by (auto simp: layout_ok_def Let_def block_bytes_def u_def mapped_bytes_def)
  have plan: "nv_gmmu_range_plan NV_GSP_APP_VA_BASE (NV_GSP_SERVICE_BYTES + ?app) (rg_table_phys (ml_tables memory))
      (rg_table_bytes (ml_tables memory)) = (0, ml_tables memory)" "unat (rg_table_phys (ml_tables memory)) = ?b + mapped_bytes ?app"
    using l by (simp_all add: layout_ok_def Let_def)
  have "4096 dvd ?b + mapped_bytes ?app" using plan_ok_build [OF plan(1)] plan(2) by (simp add: build_ok_def plan_args_def)
  then have "4096 dvd u" unfolding u_def table_total_def by (rule dvd_add) simp
  then have d: "4 dvd u" "4 dvd ?b" using v(1) by (auto elim!: dvdE)
  have a: "unat (vphys + 0x1000) = ?b + 0x1000" "unat (vphys + 0x2000) = ?b + 0x2000"
    "unat (ml_channel_phys memory + 0x1000) = u + 0x1000" using v by (subst unat_add_small; simp)+
  show ?thesis
    by (rule ctx_readyI [where b = ?b and u = "u + 0x1000" and s = "?b + 0x100000"])
      (use a v d in \<open>simp_all add: Some hand_over_def channel_config_def channel_base_def Let_def\<close>)
next
  case None
  let ?b = "unat vphys"
  have v: "vsize = 0x100000" "0x100000 dvd ?b" "?b + 0x100000 \<le> 2 ^ 39" using assms None by (simp_all add: placed_def)
  have p: "unat (vphys + 0x100000 + 0xfff) = ?b + 0x100fff" using v(3) by (subst unat_add_small; simp)+
  have m: "(0xfff :: u64) = mask 12" by (simp add: mask_eq_exp_minus_1)
  have e: "(1048576 * k + 1052671) div 4096 * 4096 = 1048576 * k + 1048576" for k :: nat
  proof -
    have "1048576 * k + 1052671 = 4095 + (256 * k + 256) * 4096" by simp
    then show ?thesis by (simp only: div_mult_self1) simp
  qed
  have "unat (table_base vphys vsize) = ?b + 0x100000"
    unfolding table_base_def v(1) using unat_and_not_mask [of "vphys + 0x100000 + 0xfff" 12] v(2) p by (auto simp: m e elim!: dvdE)
  then have a: "unat (vphys + 0x1000) = ?b + 0x1000" "unat (vphys + 0x2000) = ?b + 0x2000" "unat (vphys + 0x3000) = ?b + 0x3000"
    "unat (table_base vphys vsize + 0x10000 + 0x1000) = ?b + 0x111000" using v(3) by (subst unat_add_small; simp)+
  have d: "4 dvd ?b" using v(2) by (rule dvd_trans [rotated]) simp
  show ?thesis
    by (rule ctx_readyI [where b = ?b and u = "?b + 0x111000" and s = "?b + 0x3000"])
      (use a v d in \<open>simp_all add: None hand_over_def channel_config_def channel_base_def Let_def add.assoc\<close>)
qed

section \<open>All of it\<close>

text \<open>
  What a usable context promises: it is placed as the kext needs it, its class is known, and in the external case both
  tests of the engine have passed and all the bytes asked for are there.
\<close>

definition usable_ctx :: "nv_gsp_options option \<Rightarrow> nv_gsp_gpu_ctx \<Rightarrow> bool" where
  "usable_ctx ext c \<longleftrightarrow> ctx_ready c \<and> gx_class_engine_id c \<noteq> 0 \<and> gx_external_vmm c = (ext \<noteq> None)
     \<and> (\<forall>p. ext = Some p \<longrightarrow> gx_selftest_ok c \<and> gx_pool_selftest_ok c \<and> gx_scratch_size c = op_app_vram_bytes p)"

text \<open>A context before the layers: nothing is set that they do not set.\<close>

definition fresh_ctx :: "nv_gsp_gpu_ctx \<Rightarrow> bool" where
  "fresh_ctx g \<longleftrightarrow> \<not> gx_ok g \<and> \<not> gx_pool_selftest_ok g \<and> \<not> gx_external_vmm g"

text \<open>\<open>memset(gpu, 0, sizeof(*gpu))\<close> at the entry of \<open>nv_gsp_bringup\<close>.\<close>

definition no_ctx :: nv_gsp_gpu_ctx where
  "no_ctx = \<lparr>gx_ok = False, gx_external_vmm = False, gx_pool_selftest_ok = False, gx_h_client = 0, gx_h_device = 0,
     gx_h_vaspace = 0, gx_h_channel = 0, gx_h_ce = 0, gx_chid = 0, gx_runlist = 0, gx_engine_type = 0, gx_ring_va = 0,
     gx_ring_phys = 0, gx_ring_entries = 0, gx_pb_va = 0, gx_pb_phys = 0, gx_sem_va = 0, gx_sem_phys = 0, gx_userd_phys = 0,
     gx_scratch_va = 0, gx_scratch_phys = 0, gx_scratch_size = 0, gx_class_engine_id = 0, gx_gp_put = 0, gx_seq = 0,
     gx_object_bound = False, gx_selftest_ok = False\<rparr>"

lemma no_ctx_fresh: "fresh_ctx no_ctx" by (simp add: fresh_ctx_def no_ctx_def)

text \<open>
  The out-parameter after the layers; a context that is not usable says so.  Where the driver chooses the memory by
  itself this needs \<open>low_regions\<close>.
\<close>

definition given :: "nv_gsp_static_info \<Rightarrow> nv_gsp_options option \<Rightarrow> nv_gsp_gpu_ctx option \<Rightarrow> nv_gsp_gpu_ctx option \<Rightarrow> bool" where
  "given si ext gpu gpu' \<longleftrightarrow> (case gpu of None \<Rightarrow> gpu' = None
     | Some g \<Rightarrow> \<exists>c. gpu' = Some c \<and> (gx_ok c \<and> (ext = None \<longrightarrow> low_regions si) \<longrightarrow> usable_ctx ext c))"

definition fresh :: "nv_gsp_gpu_ctx option \<Rightarrow> bool" where
  "fresh gpu \<longleftrightarrow> (\<forall>g. gpu = Some g \<longrightarrow> fresh_ctx g)"

lemma given_refl: "fresh gpu \<Longrightarrow> given si ext gpu gpu" by (auto simp: given_def fresh_def fresh_ctx_def split: option.splits)

context bring_up
begin

lemma tested_usable:
  assumes t: "tested (hand_over (ext \<noteq> None) memory (channel_config ob hva t (channel_base (ext \<noteq> None) memory vphys vsize))
      hchan hce ceid rl vphys vsize able g) c" (is "tested ?h c")
    and ok: "gx_ok c" "able \<longrightarrow> ceid \<noteq> 0" "fresh_ctx g"
    and p: "placed ext si memory vphys vsize" "ext = None \<longrightarrow> low_regions si"
  shows "usable_ctx ext c"
proof -
  have s: "ctx_step ?h c" using t by (simp add: tested_def)
  note f = place_fields [OF s [unfolded ctx_step_def, THEN conjunct1]]
  have "gx_ok ?h" using s ok(1) by (simp add: ctx_step_def)
  then have "able" by (simp add: hand_over_def Let_def)
  have e: "gx_external_vmm ?h = (ext \<noteq> None)" "gx_class_engine_id ?h = ceid"
    "\<forall>p. ext = Some p \<longrightarrow> gx_scratch_size ?h = op_app_vram_bytes p"
    using ok(3) p(1) by (auto simp: hand_over_def Let_def fresh_ctx_def placed_def layout_ok_def)
  have big: "op_app_vram_bytes p \<ge> 0x20000" if "ext = Some p" for p
    using p(1) that by (auto simp: placed_def intro: order_trans [of _ "0x40000000"])
  have "ctx_ready c" by (rule step_ready [OF s hand_over_ready [OF p]])
  then show ?thesis using t e f(8,11,12) big ok(1,2) \<open>able\<close> by (auto simp: usable_ctx_def tested_def)
qed

lemma ce_channel_step:
  assumes q: "Q (snd st)" and p: "placed ext si memory vphys vsize"
    and fr: "fresh gpu"
  shows "returns (ce_channel io (ext \<noteq> None) memory (channel_config ob hva t (channel_base (ext \<noteq> None) memory vphys vsize))
      rl vphys vsize gpu st) (\<lambda>(gpu', st'). Q (snd st') \<and> given si ext gpu gpu')"
proof -
  let ?cfg = "channel_config ob hva t (channel_base (ext \<noteq> None) memory vphys vsize)"
  let ?R = "\<lambda>(gpu', st'). Q (snd st') \<and> given si ext gpu gpu'"
  have test: "returns (do { (g, st) \<leftarrow> ce_selftest hw (hand_over (ext \<noteq> None) memory ?cfg hchan hce ceid rl vphys vsize
          (a \<and> b \<and> ceid \<noteq> 0) g) st; Some (Some g, st) }) ?R"
    if g: "gpu = Some g" and st: "Q (snd st)" for g st hchan hce ceid a b
  proof -
    have g': "fresh_ctx g" using fr g by (simp add: fresh_def)
    show ?thesis
      apply (rule ret_bind [OF selftest_ok [OF st]])
       apply (use g' in \<open>simp add: hand_over_def Let_def fresh_ctx_def\<close>)
      subgoal for r
        using tested_usable [OF _ _ _ g' p] by (cases r) (auto simp: given_def g intro!: ret_Some)
      done
  qed
  have object: "returns (do { (ce_ok, hce, ceid, ch) \<leftarrow> ce_object ag ?cfg hchan ch;
        let (exec_ok, st) = release_test hw vphys (cc_userd_phys ?cfg) (cc_chid ?cfg) rl (win, ch) in
        case gpu of None \<Rightarrow> Some (None, st)
        | Some g \<Rightarrow> do { (g, st) \<leftarrow> ce_selftest hw (hand_over (ext \<noteq> None) memory ?cfg hchan hce ceid rl vphys vsize
                                  (exec_ok \<and> ce_ok \<and> ceid \<noteq> 0) g) st; Some (Some g, st) } }) ?R"
    if "Q ch" for ch hchan win
    apply (rule ret_bind [OF ce_object_step [OF that]])
    subgoal for r
      using release_test_ok [of "(win, snd (snd (snd r)))" vphys "cc_userd_phys ?cfg" "cc_chid ?cfg" rl] test
      by (cases r) (auto simp: split_def Let_def given_def intro!: ret_Some split: option.splits)
    done
  show ?thesis
    unfolding ce_channel_def Let_def
    apply (rule ret_bind [OF clear_channel_step [OF q]])
    subgoal for st1
      apply (cases st1, simp only: prod.case)
      apply (rule ret_bind [OF start_channel_step], simp)
      subgoal for win ch r
        using object [unfolded Let_def] given_refl [OF fr] by (cases r) (auto intro!: ret_Some)
      done
    done
qed

lemma gpu_layers_step:
  assumes q: "Q ch" and si: "info_ok si" and fr: "fresh gpu"
  shows "returns (gpu_layers io options si ob gpu ch) (\<lambda>(gpu', ch'). Q ch' \<and> given si (external_vmm options) gpu gpu')"
proof -
  define ext where "ext = external_vmm options"
  let ?R = "\<lambda>(gpu', ch'). Q ch' \<and> given si ext gpu gpu'"
  let ?cfg = "\<lambda>hva t memory v n. channel_config ob hva t (channel_base (ext \<noteq> None) memory v n)"
  have same: "returns (Some (gpu, ch)) ?R" if "Q ch" for ch
    using that given_refl [OF fr] by (auto intro!: ret_Some)
  have mapped: "returns (do { (map_ok, st) \<leftarrow> map_vram io (ext \<noteq> None) ob hva memory v n (-1, ch);
        if \<not> (map_ok \<and> 0 \<le> t) then Some (gpu, snd st)
        else do { (gpu, st) \<leftarrow> ce_channel io (ext \<noteq> None) memory (?cfg hva t memory v n) rl v n gpu st; Some (gpu, snd st) } }) ?R"
    if pl: "placed ext si memory v n" and "Q ch" for memory v n hva t rl ch
    apply (rule ret_bind [OF map_vram_step [of "(-1, ch)"]])
     apply (simp add: that)
    subgoal for r
      apply (cases r, simp only: prod.case)
      apply (rule ret_if)
       apply (rule same, simp)
      apply (rule ret_bind [OF ce_channel_step [OF _ pl fr]])
      by (auto intro!: ret_Some)
    done
  have listed: "returns (do { (mrc, _, mres, ch) \<leftarrow> nv_gsp_rm_vram_memlist ag ch (ob_client ob) (ob_device ob) v
                                            (if ext \<noteq> None then NV_GSP_SERVICE_BYTES else n);
        if \<not> (rm_ok mrc mres \<and> va_ok) then Some (gpu, ch)
        else do { (map_ok, st) \<leftarrow> map_vram io (ext \<noteq> None) ob hva memory v n (-1, ch);
          if \<not> (map_ok \<and> 0 \<le> t) then Some (gpu, snd st)
          else do { (gpu, st) \<leftarrow> ce_channel io (ext \<noteq> None) memory (?cfg hva t memory v n) rl v n gpu st; Some (gpu, snd st) } } }) ?R"
    if pl: "placed ext si memory v n" and c: "Q ch" for memory v n hva va_ok t rl ch
  proof -
    have b: "(if ext \<noteq> None then NV_GSP_SERVICE_BYTES else n) = 0x100000" using pl by (auto simp: placed_def split: option.splits)
    show ?thesis
      unfolding b
      apply (rule ret_bind [OF vram_memlist_ok [OF c]])
      subgoal for r
        using mapped [OF pl] same by (cases r) auto
      done
  qed
  show ?thesis
    unfolding gpu_layers_def Let_def ext_def [symmetric] channel_base_def [symmetric]
    apply (rule ret_bind [OF find_ce_step [OF q]])
    subgoal for r
      apply (cases r, simp only: prod.case)
      apply (rule ret_bind [OF fb_info_step], assumption)
      apply (rule ret_bind [OF vaspace_step], assumption)
      subgoal for t rl ch ch1 r1
        apply (cases r1, simp only: prod.case)
        apply (rule ret_bind [OF place_vram_ok [OF si]])
        subgoal for va_ok hva ch2 r2
          using same listed by (cases r2) (auto split: option.splits)
        done
      done
    done
qed

end

section \<open>The property\<close>


text \<open>A device that does nothing and a GSP that never answers.\<close>

definition quiet_io :: "unit shared mmio" where
  "quiet_io = \<lparr>io_rd = (\<lambda>r w. (0, w)), io_wr = (\<lambda>r v w. w), io_udelay = (\<lambda>d w. w)\<rparr>"

lemma quiet_bus: "chan_ok ch ms \<Longrightarrow> bus_ok quiet_io g (\<lambda>_. True) ch"
proof -
  assume "chan_ok ch ms"
  moreover have "appends (\<lambda>w :: unit shared. w)"
    using idle_gsp_protocol by (simp add: gsp_protocol_def idle_gsp_def)
  ultimately show ?thesis by (auto simp: bus_ok_def quiet_io_def)
qed

definition demo_regions :: nv_gsp_static_info where
  "demo_regions = demo_info\<lparr>si_regions := si_regions demo_info @ replicate 15 no_region\<rparr>"


end
