(* ===== verification/GspLayer5.thy ===== *)
theory GspLayer5
  imports GspLayer4 GspDisp DispPush
begin

text \<open>
  The display part of \<open>nv_gsp_bringup\<close> (\<open>driver/gsp/gsp_bringup.c\<close>): outputs are listed and one of them is chosen, the
  core and the window channel are made, and the mode of the EDID is set.  The surface is handed to the platform only
  if the hardware shows that it scans.

  The model is the run without a log call-back: \<open>nv_log\<close> then does not evaluate its arguments, so the reads that only
  feed the log are left out.  The static buffers start cleared, as in the first run.
\<close>

abbreviation (input) AD102_DISP :: u32 where "AD102_DISP \<equiv> 0xc770"
abbreviation (input) NV_DISP_INST_SIZE :: u32 where "NV_DISP_INST_SIZE \<equiv> 0x10000"
abbreviation (input) AD102_DISP_CORE_CHANNEL_DMA :: u32 where "AD102_DISP_CORE_CHANNEL_DMA \<equiv> 0xc77d"
abbreviation (input) GA102_DISP_WINDOW_CHANNEL_DMA :: u32 where "GA102_DISP_WINDOW_CHANNEL_DMA \<equiv> 0xc67e"
abbreviation (input) NV_DISP_PB_SIZE :: u32 where "NV_DISP_PB_SIZE \<equiv> 0x1000"
abbreviation (input) NVC77D_CORE_USER_BASE :: u32 where "NVC77D_CORE_USER_BASE \<equiv> 0x680000"
abbreviation (input) NVC37E_WINDOW_USER_BASE :: u32 where "NVC37E_WINDOW_USER_BASE \<equiv> 0x690000"
abbreviation (input) NVC37E_PARAMS_FORMAT_X8R8G8B8 :: u32 where "NVC37E_PARAMS_FORMAT_X8R8G8B8 \<equiv> 0xE6"
abbreviation (input) NV_DISP_RAMHT_ENTRY :: u64 where "NV_DISP_RAMHT_ENTRY \<equiv> 8"
abbreviation (input) NV_DISP_CTXDMA_OFF :: u32 where "NV_DISP_CTXDMA_OFF \<equiv> 0x2000"
abbreviation (input) NV_DISP_CHID_WINDOW :: "u32 \<Rightarrow> u32" where "NV_DISP_CHID_WINDOW head \<equiv> 1 + head"
abbreviation (input) NV_DISP_HANDLE_VRAM :: u32 where "NV_DISP_HANDLE_VRAM \<equiv> 0xcaf00002"
abbreviation (input) NV0073_OR_PROTOCOL_SOR_SINGLE_TMDS_A :: u32 where "NV0073_OR_PROTOCOL_SOR_SINGLE_TMDS_A \<equiv> 1"
abbreviation (input) NV0073_OR_PROTOCOL_SOR_SINGLE_TMDS_B :: u32 where "NV0073_OR_PROTOCOL_SOR_SINGLE_TMDS_B \<equiv> 2"
abbreviation (input) NV0073_OR_PROTOCOL_SOR_DUAL_TMDS :: u32 where "NV0073_OR_PROTOCOL_SOR_DUAL_TMDS \<equiv> 5"

text \<open>Fixed places in VRAM: instance memory, the two command buffers, the surface without a provider.\<close>

abbreviation (input) disp_inst :: u64 where "disp_inst \<equiv> 0x13400000"
abbreviation (input) core_pb :: u64 where "core_pb \<equiv> 0x13410000"
abbreviation (input) win_pb :: u64 where "win_pb \<equiv> 0x13412000"
abbreviation (input) vram_fb :: u64 where "vram_fb \<equiv> 0x14000000"

section \<open>Types\<close>

record nv_gsp_scanout =
  so_fb_phys :: u64
  so_width :: u32
  so_height :: u32
  so_pitch :: u32
  so_fb_target :: u32
  so_ok :: bool
  so_edid :: "u8 list"
  so_edid_ok :: bool

text \<open>
  The provider of the surface.  \<open>fp_alloc\<close> answers width, height and pitch with a result, the address, the aperture
  and whether there is an address for the CPU; \<open>fp_store\<close> is a store of the CPU into that buffer.  The call-back
  may be missing.
\<close>

record 'g nv_gsp_fb_provider =
  fp_alloc :: "(u32 \<Rightarrow> u32 \<Rightarrow> u32 \<Rightarrow> 'g shared \<Rightarrow> (int \<times> u64 \<times> u32 \<times> bool) \<times> 'g shared) option"
  fp_store :: "u64 \<Rightarrow> u32 \<Rightarrow> 'g shared \<Rightarrow> 'g shared"
  fp_skip_modeset :: bool

text \<open>The output for the mode set, as far as it is chosen.\<close>

record md_pick =
  md_edid :: "u8 list"
  md_edid_ok :: bool
  md_did :: u32
  md_proto :: u32

section \<open>Registers beside the window\<close>

definition reg_rd :: "'w mmio \<Rightarrow> u32 \<Rightarrow> 'w pramin \<Rightarrow> u32 \<times> 'w pramin" where
  "reg_rd hw r = (\<lambda>(win, w). let (v, w) = io_rd hw r w in (v, win, w))"

definition reg_wr :: "'w mmio \<Rightarrow> u32 \<Rightarrow> u32 \<Rightarrow> 'w pramin \<Rightarrow> 'w pramin" where
  "reg_wr hw r v = (\<lambda>(win, w). (win, io_wr hw r v w))"

definition reg_delay :: "'w mmio \<Rightarrow> u32 \<Rightarrow> 'w pramin \<Rightarrow> 'w pramin" where
  "reg_delay hw d = (\<lambda>(win, w). (win, io_udelay hw d w))"

text \<open>Reads whose values do not matter.\<close>

definition reg_reads :: "'w mmio \<Rightarrow> u32 list \<Rightarrow> 'w pramin \<Rightarrow> 'w pramin" where
  "reg_reads hw = fold (\<lambda>r st. snd (reg_rd hw r st))"

text \<open>Two reads of the line counter, 20 ms apart.\<close>

definition line_counter :: "'w mmio \<Rightarrow> 'w pramin \<Rightarrow> bool \<times> 'w pramin" where
  "line_counter hw st =
     (let (vl0, st) = reg_rd hw 0x616330 st; st = reg_delay hw 20000 st; (vl1, st) = reg_rd hw 0x616330 st in (vl1 \<noteq> vl0, st))"

section \<open>Outputs\<close>

definition enum_display ::
  "'g gsp_agent \<Rightarrow> rm_objects \<Rightarrow> 'g nv_gsp_rpc_chan \<Rightarrow> (bool \<times> u32 \<times> u32 \<times> 'g nv_gsp_rpc_chan) option" where
  "enum_display ag ob ch =
     do { (drc, disp, dst, ch) \<leftarrow> nv_gsp_disp_common_alloc ag ch (ob_client ob) (ob_device ob);
          let hdisp = handle disp in
          if \<not> rm_ok drc dst then Some (False, hdisp, 0, ch)
          else do { (hrc, heads, hst, ch) \<leftarrow> nv_gsp_disp_get_num_heads ag ch (ob_client ob) hdisp;
                    (src, masks, sst, ch) \<leftarrow> nv_gsp_disp_get_supported ag ch (ob_client ob) hdisp;
                    (_, _, _, ch) \<leftarrow> nv_gsp_disp_get_head_mask ag ch (ob_client ob) hdisp;
                    let nheads = handle heads; dmask = (case masks of Some (m, _) \<Rightarrow> m | None \<Rightarrow> 0) in
                    Some (hrc = NV_GSP_RM_OK \<and> hst = 0 \<and> src = NV_GSP_RM_OK \<and> sst = 0 \<and> nheads > 0 \<and> dmask \<noteq> 0,
                          hdisp, dmask, ch) } }"

definition is_tmds :: "u32 \<Rightarrow> bool" where
  "is_tmds pr \<longleftrightarrow> pr = NV0073_OR_PROTOCOL_SOR_SINGLE_TMDS_A \<or> pr = NV0073_OR_PROTOCOL_SOR_SINGLE_TMDS_B
     \<or> pr = NV0073_OR_PROTOCOL_SOR_DUAL_TMDS"

text \<open>One output: its protocol and, where a monitor is plugged in, its EDID; the first TMDS output is preferred.\<close>

definition scan_output ::
  "'g gsp_agent \<Rightarrow> u32 \<Rightarrow> u32 \<Rightarrow> u32 \<Rightarrow> u32 \<Rightarrow> u32 \<Rightarrow> u8 list \<times> md_pick \<times> 'g nv_gsp_rpc_chan \<Rightarrow>
   (u8 list \<times> md_pick \<times> 'g nv_gsp_rpc_chan) option" where
  "scan_output ag hcli hdisp dmask conn b = (\<lambda>(edid, md, ch).
     let did = dmask AND push_bit (unat b) 1 in
     if did = 0 then Some (edid, md, ch)
     else do { (_, out, _, ch) \<leftarrow> nv_gsp_disp_or_get_info ag ch hcli hdisp did;
               let pr = (case out of Some i \<Rightarrow> or_protocol i | None \<Rightarrow> 0) in
               if conn AND did = 0 then Some (edid, md, ch)
               else do { (erc, r, est, ch) \<leftarrow> nv_gsp_disp_get_edid ag ch hcli hdisp did edid 256;
                         let (edid, esz) = (case r of Some v \<Rightarrow> v | None \<Rightarrow> (edid, 0)) in
                         Some (edid,
                               if erc = NV_GSP_RM_OK \<and> est = 0 \<and> esz \<ge> 128 \<and> (\<not> md_edid_ok md \<or> is_tmds pr \<and> md_proto md \<ge> 8)
                               then \<lparr>md_edid = edid, md_edid_ok = True, md_did = did, md_proto = pr\<rparr> else md, ch) } })"

definition scan_outputs ::
  "'g gsp_agent \<Rightarrow> u32 \<Rightarrow> u32 \<Rightarrow> u32 \<Rightarrow> 'g nv_gsp_rpc_chan \<Rightarrow> (u32 \<times> md_pick \<times> 'g nv_gsp_rpc_chan) option" where
  "scan_outputs ag hcli hdisp dmask ch =
     do { (_, c, _, ch) \<leftarrow> nv_gsp_disp_get_connect_state ag ch hcli hdisp dmask;
          let conn = handle c;
              md = \<lparr>md_edid = replicate 256 0, md_edid_ok = False, md_did = 0, md_proto = 0\<rparr> in
          do { (_, md, ch) \<leftarrow> for_upto 1 32 (scan_output ag hcli hdisp dmask conn) 0 (replicate 256 0, md, ch);
               Some (conn, md, ch) } }"

text \<open>The output resource of each connected output; that of the chosen one is kept.\<close>

definition assign_output ::
  "'g gsp_agent \<Rightarrow> u32 \<Rightarrow> u32 \<Rightarrow> u32 \<Rightarrow> u32 \<Rightarrow> u32 \<Rightarrow> u32 \<times> 'g nv_gsp_rpc_chan \<Rightarrow> (u32 \<times> 'g nv_gsp_rpc_chan) option" where
  "assign_output ag hcli hdisp conn mdid b = (\<lambda>(md_sor, ch).
     let did = conn AND push_bit (unat b) 1 in
     if did = 0 then Some (md_sor, ch)
     else do { (arc, s, ast, ch) \<leftarrow> nv_gsp_disp_assign_sor ag ch hcli hdisp did;
               let sor = (case s of Some x \<Rightarrow> x | None \<Rightarrow> NOT 0) in
               Some (if did = mdid \<and> arc = NV_GSP_RM_OK \<and> ast = 0 \<and> sor \<noteq> NOT 0 then sor else md_sor, ch) })"

section \<open>Channels\<close>

text \<open>Instance memory and display root.\<close>

definition display_root ::
  "'g shared mmio \<Rightarrow> nv_gsp_static_info \<Rightarrow> rm_objects \<Rightarrow> 'g nv_gsp_rpc_chan \<Rightarrow> (bool \<times> u32 \<times> 'g nv_gsp_rpc_chan pramin) option" where
  "display_root io si ob ch =
     do { (win, ch) \<leftarrow> nv_pramin_fill (chan_io io) disp_inst NV_DISP_INST_SIZE 0 (-1, ch);
          (_, _, ch) \<leftarrow> nv_gsp_disp_write_inst_mem (rpc_agent io) ch (si_h_client si) (si_h_subdevice si) disp_inst
                          (ucast NV_DISP_INST_SIZE);
          (rrc, root, rst, ch) \<leftarrow> nv_gsp_disp_root_alloc (rpc_agent io) ch (ob_client ob) (ob_device ob) AD102_DISP;
          Some (rm_ok rrc rst, handle root, win, ch) }"

text \<open>A command channel: its buffer is cleared and announced, the object made.\<close>

definition display_channel ::
  "'g shared mmio \<Rightarrow> nv_gsp_static_info \<Rightarrow> u32 \<Rightarrow> u32 \<Rightarrow> u32 \<Rightarrow> u64 \<Rightarrow> 'g nv_gsp_rpc_chan pramin \<Rightarrow>
   (bool \<times> 'g nv_gsp_rpc_chan pramin) option" where
  "display_channel io si hcli hroot cls pb st =
     do { (win, ch) \<leftarrow> nv_pramin_fill (chan_io io) pb NV_DISP_PB_SIZE 0 st;
          (_, _, ch) \<leftarrow> nv_gsp_disp_channel_pushbuffer (rpc_agent io) ch (si_h_client si) (si_h_subdevice si) cls 0 pb
                          (ucast (NV_DISP_PB_SIZE - 1));
          (crc, _, cst, ch) \<leftarrow> nv_gsp_disp_core_channel_alloc (rpc_agent io) ch hcli hroot cls 0;
          Some (rm_ok crc cst, win, ch) }"

text \<open>Three bands in VRAM, read back; only without a provider.\<close>

definition test_pattern :: "'w mmio \<Rightarrow> 'w pramin \<Rightarrow> 'w pramin option" where
  "test_pattern hw st =
     (let pitch = 1920 * 4 :: u32; fb_size = ucast pitch * 1080 :: u64; band = 1080 div 3; band_bytes = ucast pitch * band :: u64 in
      do { st \<leftarrow> nv_pramin_fill hw vram_fb (ucast band_bytes) 0xff0000 st;
           st \<leftarrow> nv_pramin_fill hw (vram_fb + band_bytes) (ucast band_bytes) 0xff00 st;
           st \<leftarrow> nv_pramin_fill hw (vram_fb + 2 * band_bytes) (ucast (fb_size - 2 * band_bytes)) 0xff st;
           let (_, st) = nv_pramin_rd32 hw vram_fb st; (_, st) = nv_pramin_rd32 hw (vram_fb + band_bytes) st;
               (_, st) = nv_pramin_rd32 hw (vram_fb + 2 * band_bytes) st in
           Some st })"

section \<open>Setting the mode\<close>

text \<open>The words of a command stream from one offset to another.\<close>

definition write_stream :: "'w mmio \<Rightarrow> u64 \<Rightarrow> u8 list \<Rightarrow> u32 \<Rightarrow> u32 \<Rightarrow> 'w pramin \<Rightarrow> 'w pramin option" where
  "write_stream hw pb cs start stop =
     for_upto 4 stop (\<lambda>i st. do { v \<leftarrow> ld32 cs (unat i); Some (nv_pramin_wr32 hw (pb + ucast i) v st) }) start"

text \<open>\<open>GET == PUT\<close>, looked at once in a millisecond.\<close>

primrec get_wait :: "'w mmio \<Rightarrow> u32 \<Rightarrow> u32 \<Rightarrow> nat \<Rightarrow> 'w pramin \<Rightarrow> bool \<times> 'w pramin" where
  "get_wait hw user off 0 st = (False, st)"
| "get_wait hw user off (Suc n) st =
     (let (g, st) = reg_rd hw (user + 4) st in
      if g AND 0xffc = off AND 0xffc then (True, st) else get_wait hw user off n (reg_delay hw 1000 st))"

text \<open>One submission: the words are written, the display is told, and it is waited until it has read them.\<close>

definition display_submit ::
  "'w mmio \<Rightarrow> u64 \<Rightarrow> u32 \<Rightarrow> u8 list \<Rightarrow> u32 \<Rightarrow> u32 \<Rightarrow> 'w pramin \<Rightarrow> (bool \<times> 'w pramin) option" where
  "display_submit hw pb user cs start stop st =
     do { st \<leftarrow> write_stream hw pb cs start stop st;
          Some (get_wait hw user stop 500 (reg_wr hw user stop st)) }"

text \<open>
  The surface: address, aperture, whether the platform gave it and whether the CPU can reach it; \<open>None\<close> if the
  platform refused.
\<close>

definition get_surface ::
  "'g nv_gsp_fb_provider option \<Rightarrow> u32 \<Rightarrow> u32 \<Rightarrow> u32 \<Rightarrow> 'g nv_gsp_rpc_chan \<Rightarrow>
   (u64 \<times> u32 \<times> bool \<times> bool) option \<times> 'g nv_gsp_rpc_chan" where
  "get_surface fbp w h pit ch =
     (case fbp of None \<Rightarrow> (Some (vram_fb, NV_CTXDMA_TARGET_VRAM, False, False), ch)
      | Some p \<Rightarrow> (case fp_alloc p of None \<Rightarrow> (Some (vram_fb, NV_CTXDMA_TARGET_VRAM, False, False), ch)
        | Some alloc \<Rightarrow>
            let (frc, ga, tg, cv) = fst (alloc w h pit (ch_shm ch, ch_gsp ch));
                ch = gsp_acts (\<lambda>s. snd (alloc w h pit s)) ch
            in (if frc = 0 \<and> ga \<noteq> 0 then Some (ga, tg, True, cv) else None, ch)))"

text \<open>White, where the diagnostic run can reach the surface.\<close>

definition clear_surface ::
  "'g shared mmio \<Rightarrow> bool \<Rightarrow> 'g nv_gsp_fb_provider option \<Rightarrow> u64 \<Rightarrow> u64 \<Rightarrow> bool \<Rightarrow> bool \<Rightarrow> 'g nv_gsp_rpc_chan pramin \<Rightarrow>
   'g nv_gsp_rpc_chan pramin option" where
  "clear_surface io dbg fbp fb2 fbsz from_platform cv st =
     (if \<not> from_platform then nv_pramin_fill (chan_io io) fb2 (ucast fbsz) 0xffffff st
      else if dbg \<and> cv then
        (case fbp of None \<Rightarrow> Some st
         | Some p \<Rightarrow> for_upto 1 (drop_bit 2 fbsz) (\<lambda>i (win, ch). Some (win, gsp_acts (fp_store p i 0xffffff) ch)) 0 st)
      else Some st)"

text \<open>The descriptor of the surface and its entry in the table of handles.\<close>

definition bind_surface :: "'w mmio \<Rightarrow> u32 \<Rightarrow> u64 \<Rightarrow> u64 \<Rightarrow> u32 \<Rightarrow> 'w pramin \<Rightarrow> 'w pramin option" where
  "bind_surface hw hcli fb2 fbsz target st =
     (let desc_off = NV_DISP_CTXDMA_OFF in
      do { desc \<leftarrow> nv_gsp_disp_build_ctxdma_desc (replicate NV_CTXDMA_DESC_SIZE 0) fb2 (fb2 + fbsz - 1) target;
           st \<leftarrow> write_stream hw (disp_inst + ucast desc_off) desc 0 (of_nat NV_CTXDMA_DESC_SIZE) st;
           let (rslot, rctx) = nv_gsp_disp_ramht_entry (NV_DISP_CHID_WINDOW 0) NV_DISP_HANDLE_VRAM hcli desc_off;
               ent_phys = disp_inst + ucast rslot * NV_DISP_RAMHT_ENTRY;
               st = nv_pramin_wr32 hw ent_phys NV_DISP_HANDLE_VRAM st in
           Some (nv_pramin_wr32 hw (ent_phys + 4) rctx st) })"

text \<open>The two submissions that set the mode; the second decides.  The stream goes on behind the first.\<close>

definition core_commit ::
  "'w mmio \<Rightarrow> nv_edid_timing \<Rightarrow> u32 \<Rightarrow> u32 \<Rightarrow> 'w pramin \<Rightarrow> (bool \<times> push_state \<times> 'w pramin) option" where
  "core_commit hw mt sor proto st =
     do { (cs, coff) \<leftarrow> nv_gsp_disp_build_core_init 0 (replicate 1024 0, 0);
          (cs, coff) \<leftarrow> nv_gsp_disp_build_core_update 0 (cs, coff);
          (_, st) \<leftarrow> display_submit hw core_pb NVC77D_CORE_USER_BASE cs 0 coff st;
          let c2 = coff in
          do { (cs, coff) \<leftarrow> nv_gsp_disp_build_core_sor sor 0 proto (cs, coff);
               (cs, coff) \<leftarrow> nv_gsp_disp_build_core_modeset mt 0 (cs, coff);
               (cs, coff) \<leftarrow> nv_gsp_disp_build_core_update 0 (cs, coff);
               (cdone, st) \<leftarrow> display_submit hw core_pb NVC77D_CORE_USER_BASE cs c2 coff st;
               Some (cdone, (cs, coff), st) } }"

definition output_commit :: "'w mmio \<Rightarrow> nv_edid_timing \<Rightarrow> u32 \<Rightarrow> push_state \<Rightarrow> 'w pramin \<Rightarrow> 'w pramin option" where
  "output_commit hw mt sor ps st =
     (let c3 = snd ps in
      do { (cs, coff) \<leftarrow> nv_gsp_disp_build_output_resource 0 (ucast (et_hsync_pos mt)) (ucast (et_vsync_pos mt)) ps;
           (cs, coff) \<leftarrow> nv_gsp_disp_build_core_update 0 (cs, coff);
           (_, st) \<leftarrow> display_submit hw core_pb NVC77D_CORE_USER_BASE cs c3 coff st;
           let st = reg_reads hw [0x611020, 0x688300 + (sor AND 3) * 0x20] st in
           Some (snd (line_counter hw st)) })"

definition window_flip :: "'w mmio \<Rightarrow> bool \<Rightarrow> u32 \<Rightarrow> u32 \<Rightarrow> u32 \<Rightarrow> 'w pramin \<Rightarrow> 'w pramin option" where
  "window_flip hw dbg w h pit st =
     do { (ws, woff) \<leftarrow> nv_gsp_disp_build_window_image NVC37E_PARAMS_FORMAT_X8R8G8B8 w h pit 0 NV_DISP_HANDLE_VRAM
                          (replicate 256 0, 0);
          (ws, woff) \<leftarrow> nv_gsp_disp_build_window_update False (ws, woff);
          (_, st) \<leftarrow> display_submit hw win_pb NVC37E_WINDOW_USER_BASE ws 0 woff st;
          let st = reg_reads hw [0x611020 + 1 * 12] st; (_, st) = line_counter hw st in
          Some (if dbg then reg_delay hw 15000000 st else st) }"

text \<open>What the hardware says: whether the line counter moves and whether the output resource is active.\<close>

definition scan_evidence :: "'w mmio \<Rightarrow> u32 \<Rightarrow> 'w pramin \<Rightarrow> bool \<times> bool \<times> 'w pramin" where
  "scan_evidence hw sor st =
     (let st = reg_reads hw [0x611020, 0x611024, 0x611028, 0x611020 + 1 * 12, 0x611024 + 1 * 12, 0x611c30, 0x611854] st;
          (scanning, st) = line_counter hw st;
          sorc = sor AND 0x3;
          (_, st) = reg_rd hw (0x680300 + sorc * 0x20) st;
          (arm, st) = reg_rd hw (0x688300 + sorc * 0x20) st;
          active = (arm AND 0xff \<noteq> 0 \<or> drop_bit 8 arm AND 0xf \<noteq> 0);
          (_, st) = reg_rd hw 0x616300 st
      in (scanning, active, st))"

text \<open>The geometry is noted with the submission, \<open>ok\<close> with the evidence.\<close>

definition note_surface :: "md_pick \<Rightarrow> u64 \<Rightarrow> u32 \<Rightarrow> u32 \<Rightarrow> u32 \<Rightarrow> u32 \<Rightarrow> nv_gsp_scanout \<Rightarrow> nv_gsp_scanout" where
  "note_surface md fb2 w h pit target so =
     (let so = so\<lparr>so_fb_phys := fb2, so_width := w, so_height := h, so_pitch := pit, so_fb_target := target\<rparr> in
      if md_edid_ok md then so\<lparr>so_edid := take 128 (md_edid md), so_edid_ok := True\<rparr> else so)"

definition commit_mode ::
  "'g shared mmio \<Rightarrow> bool \<Rightarrow> nv_edid_timing \<Rightarrow> md_pick \<Rightarrow> u32 \<Rightarrow> u32 \<Rightarrow> u32 \<Rightarrow> u64 \<Rightarrow> u32 \<Rightarrow> nv_gsp_scanout option \<Rightarrow>
   'g nv_gsp_rpc_chan pramin \<Rightarrow> (nv_gsp_scanout option \<times> 'g nv_gsp_rpc_chan pramin) option" where
  "commit_mode io dbg mt md sor hcli hdisp fb2 target scan st =
     (let hw = chan_io io; w = et_hact mt; h = et_vact mt; pit = w * 4 in
      do { (cdone, ps, st) \<leftarrow> core_commit hw mt sor (md_proto md) st;
           let scan = (if cdone then map_option (note_surface md fb2 w h pit target) scan else scan) in
           do { st \<leftarrow> output_commit hw mt sor ps st;
                st \<leftarrow> window_flip hw dbg w h pit st;
                let (scanning, active, win, ch) = scan_evidence hw sor st in
                do { (_, _, _, ch) \<leftarrow> nv_gsp_disp_get_active (rpc_agent io) ch hcli hdisp 0;
                     let scan = (if cdone then map_option (\<lambda>so. so\<lparr>so_ok := (scanning \<and> active)\<rparr>) scan else scan);
                         st = (win, ch) in
                     Some (scan, if dbg then reg_delay hw 5000000 st else st) } } })"

definition set_mode ::
  "'g shared mmio \<Rightarrow> bool \<Rightarrow> 'g nv_gsp_fb_provider option \<Rightarrow> md_pick \<Rightarrow> u32 \<Rightarrow> u32 \<Rightarrow> u32 \<Rightarrow> nv_gsp_scanout option \<Rightarrow>
   'g nv_gsp_rpc_chan pramin \<Rightarrow> (nv_gsp_scanout option \<times> 'g nv_gsp_rpc_chan pramin) option" where
  "set_mode io dbg fbp md sor hcli hdisp scan st =
     do { r \<leftarrow> nv_edid_parse_dtd (md_edid md) 256;
          case r of Inl _ \<Rightarrow> Some (scan, st)
          | Inr mt \<Rightarrow>
              let w = et_hact mt; h = et_vact mt; pit = w * 4; fbsz = ucast pit * ucast h; (win, ch) = st in
              do { (_, _, ch) \<leftarrow> nv_gsp_disp_set_hdmi_enable (rpc_agent io) ch hcli hdisp (md_did md) True;
                   let (surface, ch) = get_surface fbp w h pit ch in
                   case surface of None \<Rightarrow> Some (scan, win, ch)
                   | Some (fb2, target, from_platform, cv) \<Rightarrow>
                       do { st \<leftarrow> clear_surface io dbg fbp fb2 fbsz from_platform cv (win, ch);
                            st \<leftarrow> bind_surface (chan_io io) hcli fb2 fbsz target st;
                            commit_mode io dbg mt md sor hcli hdisp fb2 target scan st } } }"

section \<open>All of it\<close>

text \<open>\<open>dbg\<close> marks the diagnostic run; \<open>scan\<close> is the result to fill, \<open>None\<close> for a null pointer.\<close>

definition display_layers ::
  "'g shared mmio \<Rightarrow> bool \<Rightarrow> 'g nv_gsp_fb_provider option \<Rightarrow> nv_gsp_static_info \<Rightarrow> rm_objects \<Rightarrow> nv_gsp_scanout option \<Rightarrow>
   'g nv_gsp_rpc_chan \<Rightarrow> (nv_gsp_scanout option \<times> 'g nv_gsp_rpc_chan) option" where
  "display_layers io dbg fbp si ob scan ch =
     (let ag = rpc_agent io; hw = chan_io io; hcli = ob_client ob in
      do { (disp_ok, hdisp, dmask, ch) \<leftarrow> enum_display ag ob ch;
           if \<not> disp_ok then Some (scan, ch)
           else do { (conn, md, ch) \<leftarrow> scan_outputs ag hcli hdisp dmask ch;
                     (root_ok, hroot, st) \<leftarrow> display_root io si ob ch;
                     if \<not> root_ok then Some (scan, snd st)
                     else do { (core_ok, st) \<leftarrow> display_channel io si hcli hroot AD102_DISP_CORE_CHANNEL_DMA core_pb st;
                               if \<not> core_ok then Some (scan, snd st)
                               else let (win, ch) = st in
                                 do { (md_sor, ch) \<leftarrow> for_upto 1 32 (assign_output ag hcli hdisp conn (md_did md)) 0 (NOT 0, ch);
                                      (win_ok, st) \<leftarrow> display_channel io si hcli hroot GA102_DISP_WINDOW_CHANNEL_DMA win_pb (win, ch);
                                      st \<leftarrow> (if fbp = None then test_pattern hw st else Some st);
                                      if fbp \<noteq> None \<and> fp_skip_modeset (the fbp) then Some (scan, snd st)
                                      else if win_ok \<and> md_edid_ok md \<and> md_sor \<noteq> NOT 0 then
                                        do { (scan, st) \<leftarrow> set_mode io dbg fbp md md_sor hcli hdisp scan st;
                                             Some (scan, snd st) }
                                      else Some (scan, snd st) } } } })"

end
