(* ===== verification/GspScanout.thy ===== *)
theory GspScanout
  imports GspContext GspLayer5
begin

text \<open>
  The display part of the bring-up, proved: it returns, it leaves the output alone where it says so, and it hands a
  surface to the platform only where the hardware shows that it scans.
\<close>

section \<open>Streams\<close>

lemma push_ok:
  assumes "length pb = n" "unat off + 8 * length ms \<le> n" "n \<le> 1024"
  shows "returns (push_methods ms (pb, off)) (\<lambda>(pb', off'). length pb' = n \<and> unat off' = unat off + 8 * length ms)"
proof -
  have l: "unat (of_nat (8 * length ms) :: u32) = 8 * length ms" by (rule unat_of_nat_small) (use assms in simp)
  have u: "unat (off + of_nat (8 * length ms)) = unat off + 8 * length ms"
    by (subst unat_add_small; simp only: l; use assms in simp)
  have "push_methods ms (pb, off) = Some (splice pb (unat off) (words (stream ms)), off + of_nat (8 * length ms))"
    by (rule push_methods_spec) (use assms in simp_all)
  then show ?thesis using assms u by (simp add: returns_def length_splice del: of_nat_mult)
qed

lemma push_one: "nv_gsp_disp_push_method a d ps = push_methods [(a, d)] ps"
  by (simp add: push_methods_def)

lemma stream_lengths:
  "length (core_init_methods h) = 33" "length (core_modeset_methods mt head) = 11" "length (window_image_methods f w h' p o' i) = 13"
  by (simp_all add: core_init_methods_def core_modeset_methods_def window_image_methods_def Let_def)

text \<open>The active area of a timing fits twelve bits, so a surface fits 32.\<close>

lemma dtd_active: "unat (et_hact (dtd_timing d)) < 4096" "unat (et_vact (dtd_timing d)) < 4096"
proof -
  have "unat (ucast lo OR push_bit 4 (ucast (hi AND 0xf0)) :: u32) < 4096" for lo hi :: u8
  proof -
    have "unat (ucast lo OR push_bit 4 (ucast (hi AND 0xf0)) :: u32) = unat lo + unat (hi AND 0xf0) * 2 ^ 4"
      by (rule join_u8 [where m = 8]) (use u8_less [of lo] in \<open>simp_all add: u8_masks\<close>)
    moreover have "unat hi div 16 \<le> 15" using u8_less [of hi] by linarith
    ultimately show ?thesis using u8_less [of lo] by (simp add: u8_masks)
  qed
  then show "unat (et_hact (dtd_timing d)) < 4096" "unat (et_vact (dtd_timing d)) < 4096"
    by (simp_all add: dtd_timing_def)
qed

lemma surface_bytes:
  fixes w h :: u32
  assumes "unat w < 4096" "unat h < 4096"
  shows "unat (ucast (ucast (w * 4 :: u32) * ucast h :: u64) :: u32) + 4 \<le> 2 ^ 32"
proof -
  have a: "unat (w * 4) = unat w * 4" using assms by (simp add: unat_word_ariths)
  have l: "unat w * 4 * unat h \<le> 16380 * 4095" using assms by (intro mult_le_mono) simp_all
  have "unat (ucast (w * 4) * ucast h :: u64) = unat (ucast (w * 4) :: u64) * unat (ucast h :: u64)"
    using l by (intro unat_mult_small) (simp add: unat_widen a)
  then have "unat (ucast (w * 4) * ucast h :: u64) = unat w * 4 * unat h" by (simp add: unat_widen a)
  then show ?thesis using l by (simp add: unat_ucast_small)
qed

lemma parse_dtd_active:
  "nv_edid_parse_dtd e n = Some (Inr mt) \<Longrightarrow> unat (et_hact mt) < 4096 \<and> unat (et_vact mt) < 4096"
  by (auto simp: nv_edid_parse_dtd_def Let_def bind_eq_Some_conv dtd_active split: if_splits)

text \<open>The first block of an EDID is enough for its timing.\<close>

lemma parse_dtd_iff:
  assumes "128 \<le> length e"
  shows "nv_edid_parse_dtd e n = Some (Inr mt) \<longleftrightarrow> \<not> n < 128
    \<and> (ucast (fld e 54 18 ! 0) OR push_bit 8 (ucast (fld e 54 18 ! 1)) :: u32) \<noteq> 0 \<and> mt = dtd_timing (fld e 54 18)"
  unfolding parse_dtd_total [OF assms] by auto

lemma parse_dtd_block:
  assumes "length e = 256" "nv_edid_parse_dtd e 256 = Some (Inr mt)"
  shows "nv_edid_parse_dtd (take 128 e) 128 = Some (Inr mt)"
proof -
  have f: "fld (take 128 e) 54 18 = fld e 54 18" by (simp add: fld_def drop_take min_def)
  have l: "128 \<le> length e" "128 \<le> length (take 128 e)" using assms(1) by simp_all
  show ?thesis using assms(2) unfolding parse_dtd_iff [OF l(1)] parse_dtd_iff [OF l(2)] f by simp
qed

lemma ctxdma_desc_length: "returns (nv_gsp_disp_build_ctxdma_desc (replicate 24 0) s l t) (\<lambda>d. length d = 24)"
  unfolding nv_gsp_disp_build_ctxdma_desc_def Let_def
  by (rule ret_wr_bytes; simp add: returns_def length_splice)

section \<open>The platform\<close>

text \<open>A platform that takes the bring-up through but keeps the output: it asks for no mode set, or gives no surface.\<close>

definition refuses :: "'g nv_gsp_fb_provider option \<Rightarrow> bool" where
  "refuses fbp \<longleftrightarrow> (\<exists>p. fbp = Some p \<and> (fp_skip_modeset p \<or> (\<exists>alloc. fp_alloc p = Some alloc \<and>
     (\<forall>w h pit s. case fst (alloc w h pit s) of (rc, ga, _) \<Rightarrow> rc \<noteq> 0 \<or> ga = 0))))"

text \<open>Where the surface of a mode comes from.\<close>

definition surface_of :: "'g nv_gsp_fb_provider option \<Rightarrow> u32 \<Rightarrow> u32 \<Rightarrow> u32 \<Rightarrow> u64 \<Rightarrow> u32 \<Rightarrow> bool" where
  "surface_of fbp w h pit fb target \<longleftrightarrow> (case Option.bind fbp fp_alloc of
       None \<Rightarrow> fb = vram_fb \<and> target = NV_CTXDMA_TARGET_VRAM
     | Some alloc \<Rightarrow> fb \<noteq> 0 \<and> (\<exists>cv s. fst (alloc w h pit s) = (0, fb, target, cv)))"

text \<open>A display that is dark: its line counter stands still, or none of its output resources is active.\<close>

definition dark :: "'w mmio \<Rightarrow> ('w \<Rightarrow> bool) \<Rightarrow> bool" where
  "dark hw Q \<longleftrightarrow> (\<exists>v. \<forall>w. Q w \<longrightarrow> fst (io_rd hw 0x616330 w) = v)
     \<or> (\<forall>s w. Q w \<longrightarrow> (let arm = fst (io_rd hw (0x688300 + (s AND 3) * 0x20) w) in arm AND 0xff = 0 \<and> drop_bit 8 arm AND 0xf = 0))"

text \<open>What is handed over belongs to one timing, and is marked as good only if the display may not be dark (\<open>d\<close>).\<close>

definition noted :: "bool \<Rightarrow> md_pick \<Rightarrow> nv_edid_timing \<Rightarrow> u64 \<Rightarrow> u32 \<Rightarrow> nv_gsp_scanout option \<Rightarrow> nv_gsp_scanout option \<Rightarrow> bool" where
  "noted d md mt fb2 target scan scan' \<longleftrightarrow> scan' = scan
     \<or> (\<exists>b. (d \<longrightarrow> \<not> b) \<and> scan' = map_option (\<lambda>so. (note_surface md fb2 (et_hact mt) (et_vact mt) (et_hact mt * 4) target so)\<lparr>so_ok := b\<rparr>) scan)"

lemma noted_refl: "noted d md mt fb2 target scan scan" by (simp add: noted_def)

lemma notedI:
  "d \<longrightarrow> \<not> b \<Longrightarrow> noted d md mt fb2 target scan
     (map_option (\<lambda>so. so\<lparr>so_ok := b\<rparr>) (map_option (note_surface md fb2 (et_hact mt) (et_vact mt) (et_hact mt * 4) target) scan))"
  by (auto simp: noted_def option.map_comp comp_def)

text \<open>What the display part may do with its out-parameter.\<close>

definition shown :: "bool \<Rightarrow> 'g nv_gsp_fb_provider option \<Rightarrow> nv_gsp_scanout option \<Rightarrow> nv_gsp_scanout option \<Rightarrow> bool" where
  "shown d fbp scan scan' \<longleftrightarrow> scan' = scan \<or> (\<not> refuses fbp \<and> (\<exists>md mt fb target. length (md_edid md) = 256 \<and> md_edid_ok md
     \<and> nv_edid_parse_dtd (md_edid md) 256 = Some (Inr mt)
     \<and> surface_of fbp (et_hact mt) (et_vact mt) (et_hact mt * 4) fb target \<and> noted d md mt fb target scan scan'))"

lemma shown_refl: "shown d fbp scan scan" by (simp add: shown_def)

section \<open>Registers and streams keep the invariant\<close>

context bring_up
begin

lemma reg_rd_ok: "Q (snd st) \<Longrightarrow> Q (snd (snd (reg_rd hw r st)))"
  by (cases st) (simp add: reg_rd_def split_def Let_def port_rd)

lemma reg_delay_ok: "Q (snd st) \<Longrightarrow> Q (snd (reg_delay hw d st))"
  by (cases st) (simp add: reg_delay_def port_udelay)

lemma reg_wr_ok: "Q (snd st) \<Longrightarrow> ok r \<Longrightarrow> Q (snd (reg_wr hw r v st))"
  by (cases st) (simp add: reg_wr_def port_wr)

lemma reg_reads_ok: "Q (snd st) \<Longrightarrow> Q (snd (reg_reads hw rs st))"
  unfolding reg_reads_def by (rule fold_ok) (simp_all add: reg_rd_ok)

lemma line_counter_ok: "Q (snd st) \<Longrightarrow> Q (snd (snd (line_counter hw st)))"
  by (simp add: line_counter_def Let_def split_def reg_rd_ok reg_delay_ok)

lemmas reg_ok = reg_rd_ok reg_delay_ok reg_reads_ok line_counter_ok

lemma write_stream_ok:
  assumes q: "Q (snd st)" and s: "unat start = 4 * k" "unat stop = 4 * n" "k \<le> n" "unat stop \<le> length cs" "length cs \<le> 1024"
  shows "returns (write_stream hw pb cs start stop st) (\<lambda>st. Q (snd st))"
proof -
  have n: "(unat stop + unat (4 :: u32) - 1) div unat (4 :: u32) = n" using s(2) by simp
  have k: "start = of_nat k * 4" by (rule word_unat_eq_iff [THEN iffD2], subst s(1))
    (use s in \<open>simp add: unat_word_ariths unat_of_nat_small\<close>)
  have e: "write_stream hw pb cs start stop st =
      mfold (\<lambda>k st. do { v \<leftarrow> ld32 cs (unat (of_nat k * 4 :: u32)); Some (nv_pramin_wr32 hw (pb + ucast (of_nat k * 4 :: u32)) v st) })
        [k..<n] st"
    unfolding write_stream_def k by (subst for_upto_from) (use s n in simp_all)
  show ?thesis
    unfolding e
  proof (rule ret_mfold)
    fix x and st' :: "'g nv_gsp_rpc_chan pramin" assume x: "x \<in> set [k..<n]" and q': "Q (snd st')"
    have "unat (of_nat x * 4 :: u32) = 4 * x" using x s by (simp add: unat_word_ariths unat_of_nat_small)
    then show "returns (do { v \<leftarrow> ld32 cs (unat (of_nat x * 4 :: u32)); Some (nv_pramin_wr32 hw (pb + ucast (of_nat x * 4 :: u32)) v st') })
        (\<lambda>st. Q (snd st))" using x s q' by (auto intro!: ret_rules simp: wr32_ok)
  qed (rule q)
qed

lemma get_wait_ok: "Q (snd st) \<Longrightarrow> Q (snd (snd (get_wait hw u off n st)))"
  by (induction n arbitrary: st) (auto simp: split_def Let_def reg_ok)

lemma submit_ok:
  assumes "Q (snd st)" "ok u" "unat start = 8 * k" "unat stop = 8 * n" "k \<le> n" "unat stop \<le> length cs" "length cs \<le> 1024"
  shows "returns (display_submit hw pb u cs start stop st) (\<lambda>(d, st). Q (snd st))"
  unfolding display_submit_def
  apply (rule ret_bind [OF write_stream_ok [where k = "2 * k" and n = "2 * n"]])
        apply (use assms in simp_all)
  apply (rule ret_Some)
  apply (simp add: split_def get_wait_ok reg_wr_ok)
  done

section \<open>Outputs and channels\<close>

lemma enum_display_step: "Q ch \<Longrightarrow> returns (enum_display ag ob ch) (\<lambda>(okd, h, m, ch'). Q ch')"
  unfolding enum_display_def
  apply (rule ret_bind [OF common_alloc_ok], assumption)
  subgoal for r
    by (cases r) (auto simp: ctor_done_def split_def Let_def
        intro!: ret_rules ret_bind [OF num_heads_ok] ret_bind [OF supported_ok] ret_bind [OF head_mask_ok])
  done

definition pick_ok :: "md_pick \<Rightarrow> bool" where
  "pick_ok md \<longleftrightarrow> length (md_edid md) = 256"

lemma scan_output_step:
  assumes "length edid = 256" "pick_ok md" "Q ch"
  shows "returns (scan_output ag c h dm conn b (edid, md, ch)) (\<lambda>(edid', md', ch'). length edid' = 256 \<and> pick_ok md' \<and> Q ch')"
proof -
  have e: "returns (nv_gsp_disp_get_edid ag ch' c h d edid 256) (\<lambda>(rc, r, st, ch''). Q ch'' \<and> (case r of None \<Rightarrow> True
      | Some v \<Rightarrow> length (fst v) = 256))" if "Q ch'" for ch' d
    by (rule returns_mono [OF get_edid_ok [OF that, of 256 edid]]) (use assms(1) in \<open>auto split: option.splits\<close>)
  show ?thesis
    unfolding scan_output_def Let_def prod.case
    apply (intro ret_if)
     apply (simp add: ret_Some assms)
    apply (rule ret_bind [OF or_get_info_ok [OF assms(3)]])
    subgoal for r
      using assms by (cases r) (auto simp: split_def Let_def pick_ok_def intro!: ret_rules ret_bind [OF e] split: option.splits)
    done
qed

lemma scan_outputs_step:
  assumes "Q ch"
  shows "returns (scan_outputs ag c h dm ch) (\<lambda>(conn, md, ch'). pick_ok md \<and> Q ch')"
proof -
  have l: "returns (for_upto 1 32 (scan_output ag c h dm conn) 0 s) (\<lambda>(e, md, ch'). length e = 256 \<and> pick_ok md \<and> Q ch')"
    if "case s of (e, md, ch) \<Rightarrow> length e = 256 \<and> pick_ok md \<and> Q ch" for conn s
    by (rule ret_for_upto [OF _ _ refl, where P = "\<lambda>_ (e, md, ch). length e = 256 \<and> pick_ok md \<and> Q ch"])
      (use that scan_output_step in \<open>auto simp del: scan_output_def\<close>)
  show ?thesis
    unfolding scan_outputs_def Let_def
    apply (rule ret_bind [OF connect_state_ok [OF assms]])
    subgoal for r
      by (cases r) (auto simp: pick_ok_def intro!: ret_rules ret_bind [OF l])
    done
qed

lemma assign_output_step: "Q ch \<Longrightarrow> returns (assign_output ag c h conn d b (s, ch)) (\<lambda>(s', ch'). Q ch')"
  unfolding assign_output_def Let_def prod.case
  apply (intro ret_if)
   apply (simp add: ret_Some)
  apply (rule ret_bind [OF assign_sor_ok], assumption)
  apply (auto intro!: ret_rules)
  done

lemma assign_outputs_step: "Q ch \<Longrightarrow> returns (for_upto 1 32 (assign_output ag c h conn d) 0 (s, ch)) (\<lambda>(s', ch'). Q ch')"
  by (rule ret_for_upto [OF _ _ refl, where P = "\<lambda>_ (s, ch). Q ch"]) (auto intro: assign_output_step)

lemma display_root_step: "Q ch \<Longrightarrow> returns (display_root io si ob ch) (\<lambda>(okd, h, st). Q (snd st))"
  unfolding display_root_def
  apply (rule ret_bind [OF fill_ok])
    apply simp
   apply simp
  subgoal for r
    by (cases r) (auto simp: ctl_done_def ctor_done_def split_def intro!: ret_rules ret_bind [OF write_inst_mem_ok] ret_bind [OF root_alloc_ok])
  done

lemma display_channel_step: "Q (snd st) \<Longrightarrow> returns (display_channel io si c h cls pb st) (\<lambda>(okd, st). Q (snd st))"
  unfolding display_channel_def
  apply (rule ret_bind [OF fill_ok])
    apply simp
   apply simp
  subgoal for r
    by (cases r) (auto simp: ctl_done_def ctor_done_def split_def
        intro!: ret_rules ret_bind [OF channel_pushbuffer_ok] ret_bind [OF core_channel_alloc_ok])
  done

lemma test_pattern_step: "Q (snd st) \<Longrightarrow> returns (test_pattern hw st) (\<lambda>st. Q (snd st))"
  unfolding test_pattern_def Let_def split_def
  apply (rule ret_bind [OF fill_ok], simp, assumption)+
  apply (rule ret_Some, simp add: rd32_ok)
  done

section \<open>Submissions\<close>

abbreviation (input) stream_at :: "nat \<Rightarrow> nat \<Rightarrow> push_state \<Rightarrow> bool" where
  "stream_at n k \<equiv> \<lambda>(cs, coff). length cs = n \<and> unat coff = 8 * k"

lemma push_stream:
  assumes "stream_at n k ps" "8 * k + 8 * length ms \<le> n" "n \<le> 1024"
  shows "returns (push_methods ms ps) (stream_at n (k + length ms))"
  using push_ok [of "fst ps" n "snd ps" ms] assms by (cases ps) (auto simp: returns_def)

lemma core_commit_step:
  assumes "Q (snd st)" "ok 0x680000"
  shows "returns (core_commit hw mt sor proto st) (\<lambda>(d, ps, st). Q (snd st) \<and> stream_at 1024 51 ps)"
  unfolding core_commit_def nv_gsp_disp_build_core_init_def nv_gsp_disp_build_core_update_def nv_gsp_disp_build_core_sor_def
    nv_gsp_disp_build_core_modeset_def push_one Let_def
  apply (rule ret_bind [OF push_stream [where k = 0 and n = 1024]], simp, simp add: stream_lengths, simp)
  apply (simp only: stream_lengths split_paired_all prod.case)
  apply (rule ret_bind [OF push_stream [where k = 33 and n = 1024]], simp, simp, simp)
  apply (simp only: split_paired_all prod.case)
  apply (rule ret_bind [OF submit_ok [where k = 0 and n = 36]])
         apply (simp_all add: assms) [7]
  apply (simp only: split_paired_all prod.case)
  apply (rule ret_bind [OF push_stream [where k = 36 and n = 1024]], simp, simp, simp)
  apply (simp only: split_paired_all prod.case)
  apply (rule ret_bind [OF push_stream [where k = 37 and n = 1024]], simp, simp add: stream_lengths, simp)
  apply (simp only: stream_lengths split_paired_all prod.case)
  apply (rule ret_bind [OF push_stream [where k = 48 and n = 1024]], simp, simp, simp)
  apply (simp only: split_paired_all prod.case)
  apply (rule ret_bind [OF submit_ok [where k = 36 and n = 51]])
         apply (simp_all add: assms) [7]
  apply (auto intro!: ret_Some)
  done

lemma output_commit_step:
  assumes "Q (snd st)" "ok 0x680000" "stream_at 1024 51 ps"
  shows "returns (output_commit hw mt sor ps st) (\<lambda>st. Q (snd st))"
  unfolding output_commit_def nv_gsp_disp_build_output_resource_def nv_gsp_disp_build_core_update_def push_one Let_def
  apply (rule ret_bind [OF push_stream [where k = 51 and n = 1024]], rule assms(3), simp, simp)
  apply (simp only: split_paired_all prod.case)
  apply (rule ret_bind [OF push_stream [where k = 52 and n = 1024]], simp, simp, simp)
  apply (simp only: split_paired_all prod.case)
  apply (rule ret_bind [OF submit_ok [where k = 51 and n = 55]])
         apply (use assms in \<open>auto split: prod.splits\<close>) [7]
  apply (auto intro!: ret_Some simp: reg_ok)
  done

lemma window_flip_step:
  assumes "Q (snd st)" "ok 0x690000"
  shows "returns (window_flip hw dbg w h p st) (\<lambda>st. Q (snd st))"
  unfolding window_flip_def nv_gsp_disp_build_window_image_def nv_gsp_disp_build_window_update_def Let_def
  apply (rule ret_bind [OF push_stream [where k = 0 and n = 256]], simp, simp add: stream_lengths, simp)
  apply (simp only: stream_lengths split_paired_all prod.case)
  apply (rule ret_bind [OF push_stream [where k = 13 and n = 256]], simp, simp, simp)
  apply (simp only: split_paired_all prod.case)
  apply (rule ret_bind [OF submit_ok [where k = 0 and n = 16]])
         apply (simp_all add: assms) [7]
  apply (auto intro!: ret_Some simp: reg_ok split_def)
  done

section \<open>Evidence\<close>

lemma reg_rd_fst: "fst (reg_rd hw r st) = fst (io_rd hw r (snd st))"
  by (cases st) (simp add: reg_rd_def split_def Let_def)

lemma line_counter_dark: "Q (snd st) \<Longrightarrow> \<forall>ch. Q ch \<longrightarrow> fst (io_rd hw 0x616330 ch) = v \<Longrightarrow> \<not> fst (line_counter hw st)"
  by (simp add: line_counter_def Let_def split_def reg_rd_fst reg_rd_ok reg_delay_ok)

lemma scan_evidence_ok:
  assumes "Q (snd st)"
  shows "case scan_evidence hw sor st of (scanning, active, st') \<Rightarrow> Q (snd st') \<and> (dark hw Q \<longrightarrow> \<not> (scanning \<and> active))"
proof -
  let ?st = "reg_reads hw [0x611020, 0x611024, 0x611028, 0x611020 + 1 * 12, 0x611024 + 1 * 12, 0x611c30, 0x611854] st"
  have q: "Q (snd ?st)" using assms by (rule reg_reads_ok)
  have still: "\<not> fst (line_counter hw ?st)" if "\<forall>ch. Q ch \<longrightarrow> fst (io_rd hw 0x616330 ch) = v" for v
    by (rule line_counter_dark [OF q that])
  show ?thesis
  proof (cases "\<exists>v. \<forall>ch. Q ch \<longrightarrow> fst (io_rd hw 0x616330 ch) = v")
    case True
    then have "\<not> fst (line_counter hw ?st)" using still by blast
    then show ?thesis using q by (simp add: scan_evidence_def Let_def split_def reg_ok)
  next
    case False
    then show ?thesis using q by (auto simp: scan_evidence_def Let_def split_def reg_ok reg_rd_fst dark_def)
  qed
qed

section \<open>The mode\<close>

lemma commit_mode_step:
  assumes "Q (snd st)" "ok 0x680000" "ok 0x690000"
  shows "returns (commit_mode io dbg mt md sor c h fb2 target scan st) (\<lambda>(scan', st'). Q (snd st') \<and> noted (dark hw Q) md mt fb2 target scan scan')"
  unfolding commit_mode_def Let_def
  apply (rule ret_bind [OF core_commit_step [OF assms(1,2)]])
  apply (simp only: split_paired_all prod.case)
  apply (rule ret_bind [OF output_commit_step], simp, rule assms(2), simp)
  apply (rule ret_bind [OF window_flip_step], assumption, rule assms(3))
  subgoal for cdone cs coff win ch st1 st2
    using scan_evidence_ok [of st2 sor]
    apply (cases "scan_evidence hw sor st2")
    apply clarsimp
    apply (cases cdone; simp; rule ret_bind [OF get_active_ok], assumption)
     apply (auto simp: reg_delay_ok noted_refl intro!: ret_Some notedI)
    done
  done

section \<open>The platform's part\<close>

definition platform_ok :: "'g nv_gsp_fb_provider option \<Rightarrow> bool" where
  "platform_ok fbp \<longleftrightarrow> (\<forall>p ch. fbp = Some p \<and> Q ch \<longrightarrow>
     (\<forall>alloc w h pit. fp_alloc p = Some alloc \<longrightarrow> Q (gsp_acts (\<lambda>s. snd (alloc w h pit s)) ch))
     \<and> (\<forall>i v. Q (gsp_acts (fp_store p i v) ch)))"

lemma get_surface_ok:
  assumes "Q ch" "platform_ok fbp"
  shows "case get_surface fbp w h pit ch of (r, ch') \<Rightarrow> Q ch' \<and> (case r of None \<Rightarrow> True
     | Some (fb, target, _, _) \<Rightarrow> surface_of fbp w h pit fb target \<and> (refuses fbp \<longrightarrow> fp_skip_modeset (the fbp)))"
proof (cases "Option.bind fbp fp_alloc")
  case None
  then show ?thesis
    using assms(1) by (cases fbp) (auto simp: get_surface_def surface_of_def refuses_def)
next
  case (Some alloc)
  then obtain p where p: "fbp = Some p" "fp_alloc p = Some alloc" by (cases fbp) auto
  obtain rc ga tg cv where a: "fst (alloc w h pit (ch_shm ch, ch_gsp ch)) = (rc, ga, tg, cv)" by (metis prod_cases4)
  have "Q (gsp_acts (\<lambda>s. snd (alloc w h pit s)) ch)" using assms p by (simp add: platform_ok_def)
  moreover have "fp_skip_modeset p" if "refuses fbp" "rc = 0" "ga \<noteq> 0"
  proof (rule ccontr)
    assume "\<not> fp_skip_modeset p"
    then have "case fst (alloc w h pit (ch_shm ch, ch_gsp ch)) of (rc, ga, _) \<Rightarrow> rc \<noteq> 0 \<or> ga = 0"
      using that(1) p by (auto simp: refuses_def)
    then show False using that a by simp
  qed
  ultimately show ?thesis using p a Some by (auto simp: get_surface_def surface_of_def Let_def)
qed

lemma clear_surface_ok:
  assumes "Q (snd st)" "platform_ok fbp" "unat w < 4096" "unat h < 4096"
  shows "returns (clear_surface io dbg fbp fb2 (ucast (w * 4 :: u32) * ucast (h :: u32)) fp cv st) (\<lambda>st. Q (snd st))"
proof -
  have l: "returns (for_upto 1 (drop_bit 2 n) (\<lambda>i (win, ch). Some (win, gsp_acts (fp_store p i v) ch)) 0 st) (\<lambda>st. Q (snd st))"
    if "fbp = Some p" for p and n :: u64 and v
  proof (rule ret_for_upto [OF _ _ refl, where P = "\<lambda>_ st. Q (snd st)"])
    show "unat (drop_bit 2 n) + unat (1 :: u64) \<le> 2 ^ LENGTH(64)" using u64_less [of n] by (simp add: unat_drop_bit)
  qed (use assms(1,2) that in \<open>auto simp: platform_ok_def intro!: ret_Some\<close>)
  show ?thesis
    unfolding clear_surface_def
    using assms(1) l fill_ok [OF surface_bytes [OF assms(3,4)] assms(1)]
    by (auto intro!: ret_rules split: option.splits)
qed

lemma bind_surface_ok: "Q (snd st) \<Longrightarrow> returns (bind_surface hw c fb n target st) (\<lambda>st. Q (snd st))"
  unfolding bind_surface_def Let_def
  apply (rule ret_bind [OF ctxdma_desc_length])
  apply (rule ret_bind [OF write_stream_ok [where k = 0 and n = 6]])
        apply (simp_all add: split_def)
  apply (rule ret_Some)
  apply (simp add: wr32_ok)
  done

lemma set_mode_step:
  assumes q: "Q (snd st)" and pf: "platform_ok fbp" and md: "pick_ok md" "md_edid_ok md"
    and sk: "\<not> (fbp \<noteq> None \<and> fp_skip_modeset (the fbp))" and puts: "\<not> refuses fbp \<longrightarrow> ok 0x680000 \<and> ok 0x690000"
  shows "returns (set_mode io dbg fbp md sor c h scan st) (\<lambda>(scan', st'). Q (snd st') \<and> shown (dark hw Q) fbp scan scan')"
proof -
  obtain r where r: "nv_edid_parse_dtd (md_edid md) 256 = Some r"
    using parse_dtd_total [of "md_edid md" 256] md(1) by (simp add: pick_ok_def)
  show ?thesis
  proof (cases r)
    case (Inl e)
    then show ?thesis using r q by (auto simp: set_mode_def split_def shown_refl intro!: ret_Some)
  next
    case (Inr mt)
    note act = parse_dtd_active [OF r [unfolded Inr]]
    show ?thesis
      unfolding set_mode_def r Inr bind.bind_lunit sum.case Let_def
      apply (cases st, simp only: prod.case)
      apply (rule ret_bind [OF set_hdmi_enable_ok], use q in simp)
      subgoal for win ch r
        apply (cases r rule: prod_cases3)
        subgoal for rc v ch1
          using get_surface_ok [of ch1 fbp "et_hact mt" "et_vact mt" "et_hact mt * 4"] pf
          apply (cases "get_surface fbp (et_hact mt) (et_vact mt) (et_hact mt * 4) ch1")
          apply (simp add: ctl_done_def)
          apply (clarsimp split: option.splits)
           apply (rule ret_Some, simp add: shown_refl)
          apply (rule ret_bind [OF clear_surface_ok], simp, rule pf, use act in simp, use act in simp)
          apply (rule ret_bind [OF bind_surface_ok], assumption)
          apply (rule returns_mono [OF commit_mode_step])
             apply assumption
            apply (use sk puts md r Inr in \<open>fastforce simp: refuses_def shown_def pick_ok_def\<close>)+
          done
        done
      done
  qed
qed

lemma display_layers_step:
  assumes q: "Q ch" and pf: "platform_ok fbp" and puts: "\<not> refuses fbp \<longrightarrow> ok 0x680000 \<and> ok 0x690000"
  shows "returns (display_layers io dbg fbp si ob scan ch) (\<lambda>(scan', ch'). Q ch' \<and> shown (dark hw Q) fbp scan scan')"
proof -
  have tp: "returns (if fbp = None then test_pattern hw st else Some st) (\<lambda>st. Q (snd st))" if "Q (snd st)" for st
    using test_pattern_step [OF that] that by (auto intro: ret_Some)
  have last: "returns (if fbp \<noteq> None \<and> fp_skip_modeset (the fbp) then Some (scan, snd st)
      else if w \<and> md_edid_ok md \<and> sor \<noteq> NOT 0
        then do { (scan, st) \<leftarrow> set_mode io dbg fbp md sor hc h scan st; Some (scan, snd st) }
        else Some (scan, snd st)) (\<lambda>(scan', ch'). Q ch' \<and> shown (dark hw Q) fbp scan scan')"
    if "Q (snd st)" "pick_ok md" for st md sor w hc h
    using that set_mode_step [OF that(1) pf that(2) _ _ puts, of dbg sor hc h scan]
    by (auto simp: shown_refl intro!: ret_Some elim!: ret_bind)
  show ?thesis
    unfolding display_layers_def Let_def
    apply (rule ret_bind [OF enum_display_step [OF q]])
    apply (simp only: split_paired_all prod.case)
    apply (rule ret_if, simp add: ret_Some shown_refl)
    apply (rule ret_bind [OF scan_outputs_step], assumption)
    apply (simp only: split_paired_all prod.case, erule conjE)
    apply (rule ret_bind [OF display_root_step], assumption)
    apply (simp only: split_paired_all prod.case)
    apply (rule ret_if, simp add: ret_Some shown_refl)
    apply (rule ret_bind [OF display_channel_step], assumption)
    apply (simp only: split_paired_all prod.case)
    apply (rule ret_if, simp add: ret_Some shown_refl)
    apply (rule ret_bind [OF assign_outputs_step], simp)
    apply (simp only: split_paired_all prod.case)
    apply (rule ret_bind [OF display_channel_step], simp)
    apply (simp only: split_paired_all prod.case)
    apply (rule ret_bind [OF tp], assumption)
    apply (rule last, assumption, assumption)
    done
qed

end

section \<open>The properties\<close>

text \<open>The platform's call-backs keep what the hardware keeps.\<close>

definition provider_ok :: "('g \<Rightarrow> bool) \<Rightarrow> 'g nv_gsp_fb_provider option \<Rightarrow> bool" where
  "provider_ok P fbp \<longleftrightarrow> (\<forall>p. fbp = Some p \<longrightarrow>
     (\<forall>alloc w h pit. fp_alloc p = Some alloc \<longrightarrow> appends (\<lambda>s. snd (alloc w h pit s)) \<and> (\<forall>s. P (snd s) \<longrightarrow> P (snd (snd (alloc w h pit s)))))
     \<and> (\<forall>i v. appends (fp_store p i v) \<and> (\<forall>s. P (snd s) \<longrightarrow> P (snd (fp_store p i v s)))))"

lemma bus_platform: "provider_ok P fbp \<Longrightarrow> bu.platform_ok io g P fbp"
  unfolding bu.platform_ok_def
  by (intro allI impI conjI; elim conjE; rule bus_acts, assumption) (simp_all add: provider_ok_def bus_ok_def)

lemma chan_io_fst: "fst (io_rd (chan_io io) r ch) = fst (io_rd io r (ch_shm ch, ch_gsp ch))"
  by (simp add: chan_io_def split_def Let_def)

lemma dark_bus: "dark io (\<lambda>w. P (snd w)) \<Longrightarrow> dark (chan_io io) (bus_ok io g P)"
  unfolding dark_def chan_io_fst by (erule disj_forward) (auto simp: bus_ok_def)

text \<open>A filled surface belongs to the EDID handed over with it, and is marked as good only where the display is not dark.\<close>

definition scanout_of :: "'g shared mmio \<Rightarrow> ('g \<Rightarrow> bool) \<Rightarrow> 'g nv_gsp_fb_provider option \<Rightarrow> nv_gsp_scanout \<Rightarrow> bool" where
  "scanout_of io P fbp so \<longleftrightarrow> (\<exists>mt. so_edid_ok so \<and> nv_edid_parse_dtd (so_edid so) 128 = Some (Inr mt)
     \<and> so_width so = et_hact mt \<and> so_height so = et_vact mt \<and> so_pitch so = so_width so * 4
     \<and> surface_of fbp (so_width so) (so_height so) (so_pitch so) (so_fb_phys so) (so_fb_target so)
     \<and> (so_ok so \<longrightarrow> \<not> dark io (\<lambda>w. P (snd w))))"

lemma shown_scanout:
  assumes "shown (dark (chan_io io) (bus_ok io g P)) fbp (Some so) scan'"
  shows "scan' = Some so \<or> \<not> refuses fbp \<and> (\<exists>so'. scan' = Some so' \<and> scanout_of io P fbp so')"
proof -
  have "scanout_of io P fbp ((note_surface md fb (et_hact mt) (et_vact mt) (et_hact mt * 4) target so)\<lparr>so_ok := b\<rparr>)"
    if "length (md_edid md) = 256" "md_edid_ok md" "nv_edid_parse_dtd (md_edid md) 256 = Some (Inr mt)"
      "surface_of fbp (et_hact mt) (et_vact mt) (et_hact mt * 4) fb target"
      "dark (chan_io io) (bus_ok io g P) \<longrightarrow> \<not> b" for md mt fb target b
    using parse_dtd_block [OF that(1,3)] that(2,4,5) dark_bus [of io P g]
    by (auto simp: scanout_of_def note_surface_def Let_def)
  then show ?thesis using assms unfolding shown_def noted_def by fastforce
qed

text \<open>
  C40. The display code of the bring-up returns, whatever GSP-RM and the hardware answer, and where the platform asks
  for no mode set, or has an allocator that gives no surface, it never tells the display to read a command stream: a
  property of the hardware that every access but the writes of the two put registers keeps is still kept, and the
  result for the platform is untouched.
\<close>

theorem display_untouched:
  assumes "bus_ok io True P ch" "provider_ok P fbp" "refuses fbp"
  shows "\<exists>ch'. display_layers io dbg fbp si ob scan ch = Some (scan, ch') \<and> P (ch_gsp ch') \<and> bus_ok io True P ch'"
  using returnsD [OF bu.display_layers_step [OF assms(1) bus_platform [OF assms(2)]]] assms(3)
  by (fastforce simp: shown_def bus_ok_def)

text \<open>
  C4. The display code returns, whatever GSP-RM, the hardware and the platform's allocator answer.  The surface it
  hands out is either untouched or described by the EDID handed out with it: width and height are those of its
  detailed timing, the pitch is four bytes a pixel, and address and aperture are what the allocator gave for this
  geometry, or the driver's own place in VRAM.  It is marked as good only if the display may not be dark: where the
  line counter stands still, or no output resource is active, the mark is never set.
\<close>

theorem scanout_confirmed:
  assumes "bus_ok io False P ch" "provider_ok P fbp"
  shows "\<exists>so' ch'. display_layers io dbg fbp si ob (Some so) ch = Some (Some so', ch') \<and> bus_ok io False P ch'
    \<and> (so' = so \<or> scanout_of io P fbp so')"
  using returnsD [OF bu.display_layers_step [OF assms(1) bus_platform [OF assms(2)], where scan = "Some so"]]
  by (fastforce dest: shown_scanout)

text \<open>A platform that takes the bring-up through in the running system: it never gives a surface.\<close>

definition no_surface :: "unit nv_gsp_fb_provider" where
  "no_surface = \<lparr>fp_alloc = Some (\<lambda>w h pit s. ((-1, 0, 0, False), s)), fp_store = (\<lambda>i v s. s), fp_skip_modeset = False\<rparr>"

lemma no_surface_ok: "provider_ok (\<lambda>_. True) (Some no_surface)" "refuses (Some no_surface)"
proof -
  have "appends (\<lambda>w :: unit shared. w)"
    using idle_gsp_protocol by (simp add: gsp_protocol_def idle_gsp_def)
  then show "provider_ok (\<lambda>_. True) (Some no_surface)" by (simp add: provider_ok_def no_surface_def)
  show "refuses (Some no_surface)" by (simp add: refuses_def no_surface_def)
qed

theorem display_untouched_witness:
  "\<exists>ch ch'. display_layers quiet_io True (Some no_surface) demo_regions \<lparr>ob_client = 1, ob_device = 2, ob_subdevice = 3\<rparr> None ch
      = Some (None, ch') \<and> (\<exists>ms. chan_ok ch' ms)"
proof -
  obtain ch :: "unit nv_gsp_rpc_chan" and m where ch: "chan_ok ch [m]" by (rule demo_chan)
  from display_untouched [OF quiet_bus [OF ch] no_surface_ok, of True demo_regions
      "\<lparr>ob_client = 1, ob_device = 2, ob_subdevice = 3\<rparr>" None]
  obtain ch' where "display_layers quiet_io True (Some no_surface) demo_regions
      \<lparr>ob_client = 1, ob_device = 2, ob_subdevice = 3\<rparr> None ch = Some (None, ch')" "bus_ok quiet_io True (\<lambda>_. True) ch'" by blast
  then show ?thesis unfolding bus_ok_def by blast
qed

definition no_scanout :: nv_gsp_scanout where
  "no_scanout = \<lparr>so_fb_phys = 0, so_width = 0, so_height = 0, so_pitch = 0, so_fb_target = 0, so_ok = False,
     so_edid = replicate 128 0, so_edid_ok = False\<rparr>"

theorem scanout_confirmed_witness:
  "\<exists>ch so' ch'. display_layers quiet_io False None demo_regions \<lparr>ob_client = 1, ob_device = 2, ob_subdevice = 3\<rparr>
      (Some no_scanout) ch = Some (Some so', ch') \<and> \<not> so_ok so'"
proof -
  obtain ch :: "unit nv_gsp_rpc_chan" and m where ch: "chan_ok ch [m]" by (rule demo_chan)
  have p: "provider_ok (\<lambda>_. True) (None :: unit nv_gsp_fb_provider option)" by (simp add: provider_ok_def)
  have "dark quiet_io (\<lambda>w. True)" by (simp add: dark_def quiet_io_def)
  with scanout_confirmed [OF quiet_bus [OF ch] p, of False demo_regions
      "\<lparr>ob_client = 1, ob_device = 2, ob_subdevice = 3\<rparr>" no_scanout]
  show ?thesis by (intro exI [of _ ch]) (auto simp: scanout_of_def no_scanout_def)
qed

end
