(* ===== verification/GspStaged.thy ===== *)
theory GspStaged
  imports GspStage
begin

text \<open>
  What the staging of \<open>nv_gsp_bringup\<close> promises to its readers.  The Booter starts from the address of the WPR2
  description and GSP-RM from the address of its boot arguments; both follow DMA addresses through the blocks.
  \<open>booter_image\<close>, \<open>dma_field\<close> and \<open>gsp_shared\<close> are those walks over the memory of the arena, and the theorem says that
  they meet the bytes of the firmware files and the two queued commands.
\<close>

section \<open>DMA memory\<close>

type_synonym dma_mem = "(u64 \<times> u8 list) list"

fun dma_at :: "dma_mem \<Rightarrow> u64 \<Rightarrow> (u8 list \<times> nat) option" where
  "dma_at [] a = None"
| "dma_at ((d, b) # m) a =
     (if unat d \<le> unat a \<and> unat a < unat d + length b then Some (b, unat a - unat d) else dma_at m a)"

definition dma_ld64 :: "dma_mem \<Rightarrow> u64 \<Rightarrow> u64 option" where
  "dma_ld64 m a = do { (b, i) \<leftarrow> dma_at m a; ld64 b i }"

definition dma_rd8 :: "dma_mem \<Rightarrow> u64 \<Rightarrow> u8 option" where
  "dma_rd8 m a = do { (b, i) \<leftarrow> dma_at m a; rd8 b i }"

definition blocks_apart :: "dma_mem \<Rightarrow> bool" where
  "blocks_apart m \<longleftrightarrow> sorted_wrt (\<lambda>(d, b) (d', b'). unat d + length b \<le> unat d') m
     \<and> (\<forall>(d, b) \<in> set m. unat d + length b < 2 ^ 64)"

lemma dma_at_block:
  assumes "blocks_apart m" "(d, b) \<in> set m" "i < length b"
  shows "dma_at m (d + of_nat i) = Some (b, i)"
  using assms
proof (induction m)
  case (Cons x m)
  obtain d0 b0 where x: "x = (d0, b0)" by (cases x)
  have apart: "blocks_apart m" using Cons.prems(1) by (simp add: blocks_apart_def)
  have lt: "unat d + length b < 2 ^ 64" using Cons.prems(1,2) by (auto simp: blocks_apart_def)
  then have "unat (of_nat i :: u64) = i" using Cons.prems(3) by (simp add: unat_of_nat_small)
  then have u: "unat (d + of_nat i) = unat d + i" using lt Cons.prems(3) by (simp add: unat_add_small)
  show ?case
  proof (cases "(d, b) = x")
    case True
    then show ?thesis using u Cons.prems(3) by (simp add: x)
  next
    case False
    then have m: "(d, b) \<in> set m" using Cons.prems(2) by auto
    then have "unat d0 + length b0 \<le> unat d" using Cons.prems(1) x by (auto simp: blocks_apart_def)
    then show ?thesis using Cons.IH [OF apart m Cons.prems(3)] u by (simp add: x)
  qed
qed simp

lemma dma_ld64_block:
  "blocks_apart m \<Longrightarrow> (d, b) \<in> set m \<Longrightarrow> ld64 b i = Some v \<Longrightarrow> dma_ld64 m (d + of_nat i) = Some v"
  using dma_at_block [of m d b i] by (auto simp: dma_ld64_def ld64_iff)

lemma dma_rd8_block:
  "blocks_apart m \<Longrightarrow> (d, b) \<in> set m \<Longrightarrow> i < length b \<Longrightarrow> dma_rd8 m (d + of_nat i) = Some (b ! i)"
  using dma_at_block [of m d b i] by (simp add: dma_rd8_def)

section \<open>The walks\<close>

text \<open>Byte \<open>i\<close> of the firmware image, from the WPR2 description through the three levels of the radix table.\<close>

definition booter_image :: "dma_mem \<Rightarrow> u64 \<Rightarrow> nat \<Rightarrow> u8 option" where
  "booter_image m wmeta i =
     do { l0 \<leftarrow> dma_ld64 m (wmeta + 16);
          l1 \<leftarrow> dma_ld64 m l0;
          l2 \<leftarrow> dma_ld64 m (l1 + of_nat (i div 4096 div 512 * 8));
          pg \<leftarrow> dma_ld64 m (l2 + of_nat (i div 4096 mod 512 * 8));
          dma_rd8 m (pg + of_nat (i mod 4096)) }"

text \<open>Byte \<open>i\<close> of what the pointer at \<open>p\<close> points to.\<close>

definition dma_field :: "dma_mem \<Rightarrow> u64 \<Rightarrow> nat \<Rightarrow> u8 option" where
  "dma_field m p i = do { d \<leftarrow> dma_ld64 m p; dma_rd8 m (d + of_nat i) }"

text \<open>Byte \<open>i\<close> of the shared region, from the boot arguments through \<open>RMARGS\<close> and the page table of the region.\<close>

definition gsp_shared :: "dma_mem \<Rightarrow> u64 \<Rightarrow> nat \<Rightarrow> u8 option" where
  "gsp_shared m libos i =
     do { args \<leftarrow> dma_ld64 m (libos + 104);
          shm \<leftarrow> dma_ld64 m args;
          pg \<leftarrow> dma_ld64 m (shm + of_nat (i div 4096 * 8));
          dma_rd8 m (pg + of_nat (i mod 4096)) }"

definition staged_memory :: "gsp_blocks \<Rightarrow> gsp_stage \<Rightarrow> dma_mem" where
  "staged_memory bk st =
     [(bk_fwimg bk, sg_fwimg st), (bk_lvl2 bk, sg_lvl2 st), (bk_lvl1 bk, sg_lvl1 st), (bk_lvl0 bk, sg_lvl0 st),
      (bk_bl bk, sg_bl st), (bk_sig bk, sg_sig st), (bk_meta bk, sg_meta st), (bk_libos bk, sg_libos st),
      (bk_loginit bk, sg_loginit st), (bk_logintr bk, sg_logintr st), (bk_logrm bk, sg_logrm st),
      (bk_rmargs bk, sg_rmargs st), (bk_shm bk, sg_shm st)]"

section \<open>Blocks of the arena\<close>

lemma alloc_all_spec:
  assumes "arena_inv ar" "unat (ar_dma_addr ar) + unat (ar_cap ar) < 2 ^ 63" "\<forall>n \<in> set ns. unat n < 2 ^ 63 - 2 ^ 12"
    "alloc_all ar ns = (Some ds, ar')"
  shows "length ds = length ns \<and> (\<forall>(d, n) \<in> set (zip ds ns). unat (ar_dma_addr ar) + unat (ar_off ar) \<le> unat d
      \<and> unat d + unat n < 2 ^ 63)
    \<and> sorted_wrt (\<lambda>(d, n) (d', n'). unat d + unat n \<le> unat d') (zip ds ns)"
  using assms
proof (induction ns arbitrary: ar ds)
  case (Cons n ns)
  let ?r = "roundup 4096 (unat (ar_off ar) + unat n)"
  have off: "unat (ar_off ar) \<le> unat (ar_cap ar)" using Cons.prems(1) by (simp add: arena_inv_def)
  have sz: "unat n < 2 ^ 63 - 2 ^ 12" using Cons.prems(3) by simp
  have "unat (ar_off ar) + unat n + 0xFFF < 2 ^ 64" using off sz Cons.prems(2) by simp
  note al = dma_alloc_spec [OF Cons.prems(1) this]
  have fit: "?r \<le> unat (ar_cap ar)" using Cons.prems(4) by (auto simp: al split: if_splits)
  let ?a = "ar\<lparr>ar_off := of_nat ?r\<rparr>" and ?d = "ar_dma_addr ar + ar_off ar"
  obtain ds0 where ds: "alloc_all ?a ns = (Some ds0, ar')" "ds = ?d # ds0"
    using Cons.prems(4) fit by (auto simp: al split: prod.splits)
  have ge: "unat (ar_off ar) + unat n \<le> ?r" by (rule roundup_ge) simp
  have un: "unat (of_nat ?r :: u64) = ?r" using fit Cons.prems(2) by (simp add: unat_of_nat)
  have inv: "arena_inv ?a" using Cons.prems(1) fit un by (simp add: arena_inv_def)
  have ud: "unat ?d = unat (ar_dma_addr ar) + unat (ar_off ar)" using off Cons.prems(2) by (simp add: unat_add_small)
  from Cons.IH [OF inv _ _ ds(1)] Cons.prems(2,3)
  have IH: "length ds0 = length ns" "\<forall>(d, n) \<in> set (zip ds0 ns). unat (ar_dma_addr ar) + ?r \<le> unat d \<and> unat d + unat n < 2 ^ 63"
    "sorted_wrt (\<lambda>(d, n) (d', n'). unat d + unat n \<le> unat d') (zip ds0 ns)" by (simp_all add: un)
  then show ?case using ud ge fit Cons.prems(2) by (fastforce simp: ds(2))
qed simp

lemma blocks_apart_zip:
  assumes "sorted_wrt (\<lambda>(d, n) (d', n'). unat d + unat n \<le> unat d') (zip ds ns)"
    and "\<forall>(d, n) \<in> set (zip ds ns). unat d + unat n < 2 ^ 63" and len: "map length bs = map unat ns" "length ds = length ns"
  shows "blocks_apart (zip ds bs)"
proof -
  have lb: "length bs = length ns" using map_eq_imp_length_eq [OF len(1)] .
  have n: "length (bs ! i) = unat (ns ! i)" if "i < length ns" for i
    using arg_cong [OF len(1), of "\<lambda>xs. xs ! i"] that lb by simp
  show ?thesis unfolding blocks_apart_def
  proof
    show "sorted_wrt (\<lambda>(d, b) (d', b'). unat d + length b \<le> unat d') (zip ds bs)"
      using assms(1) lb len(2) n by (simp add: sorted_wrt_iff_nth_less)
    show "\<forall>(d, b) \<in> set (zip ds bs). unat d + length b < 2 ^ 64"
      unfolding all_set_conv_all_nth
    proof (intro allI impI)
      fix i assume "i < length (zip ds bs)"
      then have i: "i < length ns" using lb len(2) by simp
      then have "unat (ds ! i) + unat (ns ! i) < 2 ^ 63" using assms(2) len(2) by (auto simp: all_set_conv_all_nth)
      then show "case zip ds bs ! i of (d, b) \<Rightarrow> unat d + length b < 2 ^ 64" using i n [OF i] lb len(2) by simp
    qed
  qed
qed

section \<open>The firmware files\<close>

definition firmware_ok :: "firmware \<Rightarrow> bool" where
  "firmware_ok fw \<longleftrightarrow> (let sec = fw_sec fw; bl = fw_bl fw in
     unat (sn_fwimage_off sec) + unat (sn_fwimage_size sec) \<le> length (fw_gsp fw)
     \<and> unat (sn_sig_off sec) + unat (sn_sig_size sec) \<le> length (fw_gsp fw)
     \<and> unat (bl_data_abs bl) + unat (bl_data_size bl) \<le> length (fw_blb fw)
     \<and> 0 < unat (sn_fwimage_size sec) \<and> unat (sn_fwimage_size sec) \<le> 2 ^ 30
     \<and> unat (fw_l2p fw) = ((unat (sn_fwimage_size sec) + 4095) div 4096 + 511) div 512)"

lemma elf64_inside: "nv_elf64_section b nm = Some (Inr (o', n)) \<Longrightarrow> unat o' + unat n \<le> length b"
  using elf64_section_spec [of b nm] by (auto simp: returns_def section_result_def)

lemma sections_inside:
  assumes "nv_gsp_rm_sections b sig = Some (Inr sec)"
  shows "unat (sn_fwimage_off sec) + unat (sn_fwimage_size sec) \<le> length b \<and> unat (sn_sig_off sec) + unat (sn_sig_size sec) \<le> length b"
  using assms by (auto simp: nv_gsp_rm_sections_def elf64_inside split: bind_splits sum.splits prod.splits)

lemma bootloader_inside: "nv_gsp_bootloader_parse b = Some (Inr bl) \<Longrightarrow> unat (bl_data_abs bl) + unat (bl_data_size bl) \<le> length b"
  by (auto simp: nv_gsp_bootloader_parse_def Let_def fits_iff split: bind_splits if_splits)

lemma load_firmware_spec:
  assumes "load_firmware blobs = Some (Some fw)" "length (fw_gsp fw) < 2 ^ 62"
  shows "blobs ''gsp'' = Some (fw_gsp fw) \<and> blobs ''bootloader'' = Some (fw_blb fw) \<and> firmware_ok fw"
proof -
  obtain gsp sec blb bl n2 l2p where g: "blobs ''gsp'' = Some gsp" "nv_gsp_rm_sections gsp sig_section = Some (Inr sec)"
    "blobs ''bootloader'' = Some blb" "nv_gsp_bootloader_parse blb = Some (Inr bl)"
    "nv_gsp_radix3_levels (sn_fwimage_size sec) = Inr (n2, l2p)"
    and fw: "fw = \<lparr>fw_gsp = gsp, fw_sec = sec, fw_blb = blb, fw_bl = bl, fw_l2p = l2p\<rparr>"
    using assms(1) by (auto simp: load_firmware_def split: option.splits bind_splits sum.splits)
  have s: "unat (sn_fwimage_size sec) < 2 ^ 63" using sections_inside [OF g(2)] assms(2) fw by simp
  have p: "0 < unat (sn_fwimage_size sec)"
  proof (rule ccontr)
    assume "\<not> 0 < unat (sn_fwimage_size sec)"
    then have "sn_fwimage_size sec = 0" by (simp add: unat_eq_zero)
    then show False using g(5) by (simp add: nv_gsp_radix3_levels_def)
  qed
  let ?q = "((unat (sn_fwimage_size sec) + 4095) div 4096 + 511) div 512"
  have le: "unat (sn_fwimage_size sec) \<le> 2 ^ 30" and l2: "l2p = of_nat ?q"
    using g(5) radix3_levels_spec [OF p s] by (auto split: if_splits)
  have "?q < 2 ^ 32" using le by simp
  then have "unat l2p = ?q" unfolding l2 by (simp add: unat_of_nat_small)
  then show ?thesis using sections_inside [OF g(2)] bootloader_inside [OF g(4)] g(1,3) p le
    by (simp add: firmware_ok_def fw)
qed


section \<open>The contents of the blocks\<close>

definition meta_ok :: "firmware \<Rightarrow> gsp_blocks \<Rightarrow> u64 \<Rightarrow> u64 \<Rightarrow> gsp_stage \<Rightarrow> bool" where
  "meta_ok fw bk frts_addr frts_size st \<longleftrightarrow>
     fields_at (sg_meta st) 0 (wpr_meta_cells (sg_lay st) (wpr_src fw bk frts_addr frts_size))"

definition tables_ok :: "firmware \<Rightarrow> gsp_blocks \<Rightarrow> gsp_stage \<Rightarrow> bool" where
  "tables_ok fw bk st \<longleftrightarrow> (let n = (unat (sn_fwimage_size (fw_sec fw)) + 4095) div 4096 in
     ld64 (sg_lvl0 st) 0 = Some (bk_lvl1 bk) \<and> page_list (sg_lvl1 st) 0 (bk_lvl2 bk) ((n + 511) div 512)
     \<and> page_list (sg_lvl2 st) 0 (bk_fwimg bk) n)"

definition args_ok :: "gsp_blocks \<Rightarrow> gsp_stage \<Rightarrow> bool" where
  "args_ok bk st \<longleftrightarrow> (\<forall>i < 4. fields_at (sg_libos st) (i * 32) (libos_cells (libos_regions bk ! i)))
     \<and> ld64 (sg_rmargs st) 0 = Some (bk_shm bk) \<and> ld64 (sg_rmargs st) 16 = Some 0x1000 \<and> ld64 (sg_rmargs st) 24 = Some 0x41000
     \<and> (\<forall>i < 129. ld64 (sg_shm st) (8 * i) = Some (bk_shm bk + of_nat i * 4096))
     \<and> page_list (sg_loginit st) 8 (bk_loginit bk) 16 \<and> page_list (sg_logintr st) 8 (bk_logintr bk) 16
     \<and> page_list (sg_logrm st) 8 (bk_logrm bk) 16"

definition files_ok :: "firmware \<Rightarrow> gsp_stage \<Rightarrow> bool" where
  "files_ok fw st \<longleftrightarrow> (let sec = fw_sec fw; bl = fw_bl fw in
     sg_fwimg st = fld (fw_gsp fw) (unat (sn_fwimage_off sec)) (unat (sn_fwimage_size sec))
     \<and> sg_sig st = fld (fw_gsp fw) (unat (sn_sig_off sec)) (unat (sn_sig_size sec))
     \<and> sg_bl st = fld (fw_blb fw) (unat (bl_data_abs bl)) (unat (bl_data_size bl)))"

text \<open>The lengths of the blocks, in the order of \<open>staged_memory\<close>.\<close>

definition stage_lengths :: "firmware \<Rightarrow> gsp_stage \<Rightarrow> bool" where
  "stage_lengths fw st \<longleftrightarrow>
     map length [sg_fwimg st, sg_lvl2 st, sg_lvl1 st, sg_lvl0 st, sg_bl st, sg_sig st, sg_meta st, sg_libos st, sg_loginit st,
       sg_logintr st, sg_logrm st, sg_rmargs st, sg_shm st]
     = map unat (take 13 (drop 2 (block_sizes fw)))"

lemma queue_hdr_kept:
  assumes "queue_hdr b q c" "\<And>j n. q \<le> j \<Longrightarrow> j + n \<le> q + 36 \<Longrightarrow> fld b' j n = fld b j n" "length b' = length b"
  shows "queue_hdr b' q c"
  using queue_hdr_frame [OF assms(1) assms(2) assms(3)] by simp

text \<open>When the cut of VRAM is refused.\<close>

definition wpr_heap :: "u64 \<Rightarrow> nat" where
  "wpr_heap vram = 130023424 + roundup (2 ^ 20) (98304 * ((unat vram + (2 ^ 30 - 1)) div 2 ^ 30))"

definition layout_refused :: "firmware \<Rightarrow> u64 \<Rightarrow> u64 \<Rightarrow> u64 \<Rightarrow> bool" where
  "layout_refused fw vram frts_addr frts_size \<longleftrightarrow> bl_data_size (fw_bl fw) = 0 \<or> unat vram < unat frts_addr + unat frts_size
     \<or> unat frts_addr < unat (bl_data_size (fw_bl fw)) + unat (sn_fwimage_size (fw_sec fw)) + wpr_heap vram + 2 ^ 22"

definition layout_ok :: "firmware \<Rightarrow> u64 \<Rightarrow> u64 \<Rightarrow> u64 \<Rightarrow> nv_gsp_fb_layout_t \<Rightarrow> bool" where
  "layout_ok fw vram frts_addr frts_size l \<longleftrightarrow> wpr_layout_ok (wpr_heap vram) l \<and> fl_fb_size l = vram \<and> fl_frts_addr l = frts_addr
     \<and> fl_frts_size l = frts_size \<and> unat (fl_boot_size l) = unat (bl_data_size (fw_bl fw))
     \<and> fl_elf_size l = sn_fwimage_size (fw_sec fw)"

definition stage_ok ::
  "firmware \<Rightarrow> gsp_blocks \<Rightarrow> u64 \<Rightarrow> u64 \<Rightarrow> u64 \<Rightarrow> nv_gsp_pci_info option \<Rightarrow> gsp_stage \<Rightarrow> bool" where
  "stage_ok fw bk vram frts_addr frts_size pci st \<longleftrightarrow> files_ok fw st \<and> tables_ok fw bk st \<and> meta_ok fw bk frts_addr frts_size st
     \<and> args_ok bk st \<and> preboot_ok pci (sg_shm st) \<and> queue_hdr (sg_shm st) 0x41000 63 \<and> sg_wptr st = 2
     \<and> layout_ok fw vram frts_addr frts_size (sg_lay st) \<and> stage_lengths fw st"

lemma stage_gsp_spec:
  assumes fw: "firmware_ok fw" and len: "length shm0 = 0x81000" "length sys0 = 664" "length reg0 = 256"
    and small: "unat vram < 2 ^ 62" "unat A < 2 ^ 62" "unat S < 2 ^ 62" "vram \<noteq> 0" "S \<noteq> 0"
  shows "returns (stage_gsp fw bk vram A S pci sys0 reg0 shm0)
    (\<lambda>r. case r of None \<Rightarrow> layout_refused fw vram A S | Some st \<Rightarrow> stage_ok fw bk vram A S pci st)"
proof -
  let ?sec = "fw_sec fw" and ?bl = "fw_bl fw"
  let ?sz = "sn_fwimage_size ?sec" and ?ds = "bl_data_size ?bl"
  let ?n = "(unat ?sz + 4095) div 4096"
  note f = fw [unfolded firmware_ok_def Let_def]
  have rd: "rd_bytes (fw_gsp fw) (unat (sn_fwimage_off ?sec)) (unat ?sz) = Some (fld (fw_gsp fw) (unat (sn_fwimage_off ?sec)) (unat ?sz))"
    "rd_bytes (fw_gsp fw) (unat (sn_sig_off ?sec)) (unat (sn_sig_size ?sec)) = Some (fld (fw_gsp fw) (unat (sn_sig_off ?sec)) (unat (sn_sig_size ?sec)))"
    "rd_bytes (fw_blb fw) (unat (bl_data_abs ?bl)) (unat ?ds) = Some (fld (fw_blb fw) (unat (bl_data_abs ?bl)) (unat ?ds))"
    using f by (simp_all add: rd_bytes_fld)
  have n8: "?n * 8 \<le> length (zeros (unat (fw_l2p fw) * 0x1000))" using f by (simp add: zeros_def)
  have z: "length (zeros k) = k" for k by (simp add: zeros_def)
  obtain l0 l1 l2 where rx: "nv_gsp_radix3_fill ?sz (zeros 0x1000) (zeros 0x1000) (zeros (unat (fw_l2p fw) * 0x1000))
      (bk_fwimg bk) (bk_lvl2 bk) (bk_lvl1 bk) = Some (NV_GSP_OK, l0, l1, l2)"
    "length l0 = 0x1000" "length l1 = 0x1000" "length l2 = unat (fw_l2p fw) * 0x1000"
    "ld64 l0 0 = Some (bk_lvl1 bk)" "page_list l1 0 (bk_lvl2 bk) ((?n + 511) div 512)" "page_list l2 0 (bk_fwimg bk) ?n"
    using radix3_fill_spec [of ?sz ?n "zeros 0x1000" "zeros 0x1000" "zeros (unat (fw_l2p fw) * 0x1000)" "bk_fwimg bk" "bk_lvl2 bk" "bk_lvl1 bk"]
      f n8 by (auto simp: returns_def z)
  show ?thesis
  proof (cases "nv_gsp_fb_layout vram A S (ucast ?ds) ?sz")
    case (Inl e)
    then have "stage_gsp fw bk vram A S pci sys0 reg0 shm0 = Some None" by (simp add: stage_gsp_def Let_def rd rx(1))
    moreover have "layout_refused fw vram A S"
    proof (cases "?ds = 0")
      case False
      have u: "unat (ucast ?ds :: u64) = unat ?ds" by (rule unat_widen)
      have "(ucast ?ds :: u64) \<noteq> 0" using False u by (metis unat_eq_zero unat_0)
      moreover have "?sz \<noteq> 0" using f by auto
      ultimately show ?thesis
        using fb_layout_spec [of vram A S "ucast ?ds" ?sz] Inl small f u u32_less [of ?ds]
        by (auto simp: layout_refused_def wpr_heap_def)
    qed (simp add: layout_refused_def)
    ultimately show ?thesis by (simp add: returns_def)
  next
    case (Inr lay)
    have "?ds \<noteq> 0" using Inr by (auto simp: nv_gsp_fb_layout_def)
    moreover have u: "unat (ucast ?ds :: u64) = unat ?ds" by (rule unat_widen)
    ultimately have "(ucast ?ds :: u64) \<noteq> 0" by (metis unat_eq_zero unat_0)
    moreover have "?sz \<noteq> 0" using f by auto
    ultimately have lok: "layout_ok fw vram A S lay"
      using fb_layout_spec [of vram A S "ucast ?ds" ?sz] Inr small f u u32_less [of ?ds]
      by (auto simp: layout_ok_def wpr_heap_def)
    obtain wm where wm: "nv_gsp_wpr_meta_build (zeros 0x1000) lay (wpr_src fw bk A S) = Some (NV_GSP_OK, wm)"
      "length wm = 0x1000" "fields_at wm 0 (wpr_meta_cells lay (wpr_src fw bk A S))"
      using wpr_meta_spec [of "zeros 0x1000" lay "wpr_src fw bk A S"] by (auto simp: returns_def z)
    have l4: "length (libos_regions bk) = 4" by (simp add: libos_regions_def)
    obtain lb k where lb: "nv_gsp_libos_build_args (zeros 0x1000) (libos_regions bk) 4 = Some (NV_GSP_OK, lb, k)"
      "length lb = 0x1000" "\<forall>i < 4. fields_at lb (i * 32) (libos_cells (libos_regions bk ! i))"
      using libos_args_spec [of 4 "libos_regions bk" "zeros 0x1000"] l4 by (auto simp: returns_def z)
    obtain g1 g2 g3 where g: "log_block (bk_loginit bk) = Some g1" "log_block (bk_logintr bk) = Some g2" "log_block (bk_logrm bk) = Some g3"
      "length g1 = 0x10000" "length g2 = 0x10000" "length g3 = 0x10000"
      "page_list g1 8 (bk_loginit bk) 16" "page_list g2 8 (bk_logintr bk) 16" "page_list g3 8 (bk_logrm bk) 16"
      using log_block_spec [of "bk_loginit bk"] log_block_spec [of "bk_logintr bk"] log_block_spec [of "bk_logrm bk"]
      by (auto simp: returns_def)
    obtain s1 where s1: "nv_gsp_shm_init shm0 (bk_shm bk) = Some (NV_GSP_RPC_OK, nv_gsp_shm_compute, s1)" "length s1 = 0x81000"
      "\<And>i. i < 129 \<Longrightarrow> ld64 s1 (8 * i) = Some (bk_shm bk + of_nat i * 4096)" "queue_hdr s1 0x41000 63"
      using shm_init_spec [of shm0 "bk_shm bk"] len(1) by (metis order_refl)
    obtain rm where rm: "nv_gsp_rmargs_build (zeros 0x1000) (bk_shm bk) nv_gsp_shm_compute = Some (NV_GSP_RPC_OK, rm)" "length rm = 0x1000"
      "ld64 rm 0 = Some (bk_shm bk)" "ld64 rm 16 = Some 0x1000" "ld64 rm 24 = Some 0x41000"
      using rmargs_spec [of "zeros 0x1000" "bk_shm bk" nv_gsp_shm_compute] by (auto simp: returns_def z shm_layout)
    obtain s2 where s2: "preboot_commands pci sys0 reg0 s1 = Some (2, s2)" "length s2 = 0x81000" "preboot_ok pci s2"
      "\<And>j n. j + n \<le> 0x1010 \<or> 0x1014 \<le> j \<and> j + n \<le> 0x2000 \<or> 0x4000 \<le> j \<Longrightarrow> fld s2 j n = fld s1 j n"
      using preboot_spec [OF len(2,3) s1(2), of pci] by (auto simp: returns_def)
    let ?st = "\<lparr>sg_fwimg = fld (fw_gsp fw) (unat (sn_fwimage_off ?sec)) (unat ?sz),
      sg_sig = fld (fw_gsp fw) (unat (sn_sig_off ?sec)) (unat (sn_sig_size ?sec)), sg_bl = fld (fw_blb fw) (unat (bl_data_abs ?bl)) (unat ?ds),
      sg_lvl0 = l0, sg_lvl1 = l1, sg_lvl2 = l2, sg_meta = wm, sg_libos = lb, sg_loginit = g1, sg_logintr = g2, sg_logrm = g3,
      sg_rmargs = rm, sg_shm = s2, sg_lay = lay, sg_wptr = 2\<rparr>"
    have run: "stage_gsp fw bk vram A S pci sys0 reg0 shm0 = Some (Some ?st)"
      by (simp add: stage_gsp_def Let_def rd rx(1) Inr wm(1) lb(1) g(1-3) s1(1) rm(1) s2(1))
    have pte: "ld64 s2 (8 * i) = Some (bk_shm bk + of_nat i * 4096)" if "i < 129" for i
      using s1(3) [OF that] s2(4) [of "8 * i" 8] that s1(2) s2(2) by (simp add: ld64_iff)
    have q: "queue_hdr s2 0x41000 63" using s1(2) s2(2) by (intro queue_hdr_kept [OF s1(4)] s2(4)) simp_all
    have "unat (ucast (fw_l2p fw) * 0x1000 :: u64) = unat (fw_l2p fw) * 0x1000"
    proof -
      have "unat (fw_l2p fw) * 0x1000 < 2 ^ 64" using u32_less [of "fw_l2p fw"] by simp
      then show ?thesis by (simp add: unat_word_ariths unat_widen)
    qed
    moreover have "unat (sl_total_size nv_gsp_shm_compute) = 0x81000" by (simp add: shm_layout)
    ultimately have "stage_lengths fw ?st" using f rx(2-4) wm(2) lb(2) g(4-6) rm(2) s2(2) u
      by (simp add: stage_lengths_def block_sizes_def)
    moreover have "files_ok fw ?st" by (simp add: files_ok_def Let_def)
    moreover have "tables_ok fw bk ?st" using rx(5-7) by (simp add: tables_ok_def Let_def)
    moreover have "args_ok bk ?st" using lb(3) rm(3-5) pte g(7-9) by (simp add: args_ok_def)
    ultimately have "stage_ok fw bk vram A S pci ?st" using wm(3) s2(3) q lok by (simp add: stage_ok_def meta_ok_def)
    then show ?thesis using run by (simp add: returns_def)
  qed
qed


section \<open>The walks meet the contents\<close>

text \<open>What the Booter and GSP-RM find from the two addresses they are given.\<close>

definition boots_from :: "firmware \<Rightarrow> gsp_blocks \<Rightarrow> gsp_stage \<Rightarrow> bool" where
  "boots_from fw bk st \<longleftrightarrow> (let m = staged_memory bk st; sec = fw_sec fw; bl = fw_bl fw in
     (\<forall>i < unat (sn_fwimage_size sec). booter_image m (bk_meta bk) i = Some (fw_gsp fw ! (unat (sn_fwimage_off sec) + i)))
     \<and> (\<forall>i < unat (bl_data_size bl). dma_field m (bk_meta bk + 32) i = Some (fw_blb fw ! (unat (bl_data_abs bl) + i)))
     \<and> (\<forall>i < unat (sn_sig_size sec). dma_field m (bk_meta bk + 72) i = Some (fw_gsp fw ! (unat (sn_sig_off sec) + i)))
     \<and> (\<forall>i < 0x81000. gsp_shared m (bk_libos bk) i = Some (sg_shm st ! i)))"

lemma page_entry_at: "page_list b 0 d n \<Longrightarrow> i < n \<Longrightarrow> ld64 b (i * 8) = Some (d + of_nat (i * 4096))"
  by (simp add: page_list_def)

lemma booter_image_walk:
  assumes apart: "blocks_apart (staged_memory bk st)" and ok: "meta_ok fw bk a s st" "tables_ok fw bk st" "files_ok fw st" "firmware_ok fw"
    and i: "i < unat (sn_fwimage_size (fw_sec fw))"
  shows "booter_image (staged_memory bk st) (bk_meta bk) i = Some (fw_gsp fw ! (unat (sn_fwimage_off (fw_sec fw)) + i))"
proof -
  let ?m = "staged_memory bk st" and ?n = "(unat (sn_fwimage_size (fw_sec fw)) + 4095) div 4096" and ?p = "i div 4096"
  have mem: "(bk_meta bk, sg_meta st) \<in> set ?m" "(bk_lvl0 bk, sg_lvl0 st) \<in> set ?m" "(bk_lvl1 bk, sg_lvl1 st) \<in> set ?m"
    "(bk_lvl2 bk, sg_lvl2 st) \<in> set ?m" "(bk_fwimg bk, sg_fwimg st) \<in> set ?m" by (simp_all add: staged_memory_def)
  note at = dma_ld64_block [OF apart]
  have p: "?p < ?n" using i by (simp add: less_eq_div_iff_mult_less_eq Suc_le_eq [symmetric] div_less_iff_less_mult)
  then have q: "?p div 512 < (?n + 511) div 512"
    by (simp add: less_eq_div_iff_mult_less_eq Suc_le_eq [symmetric] div_less_iff_less_mult)
  have "ld64 (sg_meta st) 16 = Some (bk_lvl0 bk)" using ok(1) by (simp add: meta_ok_def fields_at_def wpr_meta_cells_def wpr_src_def)
  from at [OF mem(1) this] have e0: "dma_ld64 ?m (bk_meta bk + 16) = Some (bk_lvl0 bk)" by simp
  note t = ok(2) [unfolded tables_ok_def Let_def]
  have e1: "dma_ld64 ?m (bk_lvl0 bk) = Some (bk_lvl1 bk)" using at [OF mem(2), of 0 "bk_lvl1 bk"] t by simp
  have "ld64 (sg_lvl1 st) (?p div 512 * 8) = Some (bk_lvl2 bk + of_nat (?p div 512 * 4096))"
    using t q by (intro page_entry_at) auto
  note e2 = at [OF mem(3) this]
  have "ld64 (sg_lvl2 st) (?p * 8) = Some (bk_fwimg bk + of_nat (?p * 4096))" using t p by (intro page_entry_at) auto
  from at [OF mem(4) this] have "dma_ld64 ?m (bk_lvl2 bk + of_nat (?p * 8)) = Some (bk_fwimg bk + of_nat (?p * 4096))" .
  moreover have "?p * 8 = ?p div 512 * 4096 + ?p mod 512 * 8" using mult_div_mod_eq [of 512 ?p] by linarith
  ultimately have e3: "dma_ld64 ?m (bk_lvl2 bk + of_nat (?p div 512 * 4096) + of_nat (?p mod 512 * 8)) = Some (bk_fwimg bk + of_nat (?p * 4096))"
    by (simp only: of_nat_add add.assoc)
  have l: "length (sg_fwimg st) = unat (sn_fwimage_size (fw_sec fw))" "sg_fwimg st ! i = fw_gsp fw ! (unat (sn_fwimage_off (fw_sec fw)) + i)"
    using ok(3,4) i by (simp_all add: files_ok_def firmware_ok_def Let_def nth_fld)
  have "dma_rd8 ?m (bk_fwimg bk + of_nat i) = Some (sg_fwimg st ! i)" using dma_rd8_block [OF apart mem(5)] i l(1) by simp
  moreover have "of_nat i = (of_nat (?p * 4096) + of_nat (i mod 4096) :: u64)" using div_mult_mod_eq [of i 4096] by (metis of_nat_add)
  ultimately have e4: "dma_rd8 ?m (bk_fwimg bk + of_nat (?p * 4096) + of_nat (i mod 4096)) = Some (sg_fwimg st ! i)"
    by (simp only: add.assoc)
  show ?thesis unfolding booter_image_def using e0 e1 e2 e3 e4 l(2) by (simp del: of_nat_mult)
qed

lemma dma_field_block:
  assumes apart: "blocks_apart m" and "(p, b) \<in> set m" "(d, c) \<in> set m" "ld64 b k = Some d" "i < length c"
  shows "dma_field m (p + of_nat k) i = Some (c ! i)"
  using dma_ld64_block [OF apart assms(2,4)] dma_rd8_block [OF apart assms(3,5)] by (simp add: dma_field_def)

lemma gsp_shared_walk:
  assumes apart: "blocks_apart (staged_memory bk st)" and ok: "args_ok bk st" and l: "length (sg_shm st) = 0x81000" and i: "i < 0x81000"
  shows "gsp_shared (staged_memory bk st) (bk_libos bk) i = Some (sg_shm st ! i)"
proof -
  let ?m = "staged_memory bk st" and ?p = "i div 4096"
  have mem: "(bk_libos bk, sg_libos st) \<in> set ?m" "(bk_rmargs bk, sg_rmargs st) \<in> set ?m" "(bk_shm bk, sg_shm st) \<in> set ?m"
    by (simp_all add: staged_memory_def)
  note at = dma_ld64_block [OF apart]
  have "fields_at (sg_libos st) (3 * 32) (libos_cells (libos_regions bk ! 3))" using ok [unfolded args_ok_def, THEN conjunct1, rule_format, of 3] by simp
  then have "ld64 (sg_libos st) 104 = Some (bk_rmargs bk)" by (simp add: fields_at_def libos_cells_def libos_regions_def)
  from at [OF mem(1) this] have e0: "dma_ld64 ?m (bk_libos bk + 104) = Some (bk_rmargs bk)" by simp
  have e1: "dma_ld64 ?m (bk_rmargs bk) = Some (bk_shm bk)" using at [OF mem(2), of 0 "bk_shm bk"] ok by (simp add: args_ok_def)
  have p: "?p < 129" using i by simp
  then have "ld64 (sg_shm st) (8 * ?p) = Some (bk_shm bk + of_nat ?p * 4096)" using ok unfolding args_ok_def by blast
  then have "ld64 (sg_shm st) (?p * 8) = Some (bk_shm bk + of_nat (?p * 4096))" by (simp add: mult.commute)
  note e2 = at [OF mem(3) this]
  have "dma_rd8 ?m (bk_shm bk + of_nat i) = Some (sg_shm st ! i)" using dma_rd8_block [OF apart mem(3)] i l by simp
  moreover have "of_nat i = (of_nat (?p * 4096) + of_nat (i mod 4096) :: u64)" using div_mult_mod_eq [of i 4096] by (metis of_nat_add)
  ultimately have e3: "dma_rd8 ?m (bk_shm bk + of_nat (?p * 4096) + of_nat (i mod 4096)) = Some (sg_shm st ! i)"
    by (simp only: add.assoc)
  show ?thesis unfolding gsp_shared_def using e0 e1 e2 e3 by (simp del: of_nat_mult)
qed

lemma staged_boots:
  assumes apart: "blocks_apart (staged_memory bk st)" and ok: "stage_ok fw bk vram a s pci st" and fw: "firmware_ok fw"
  shows "boots_from fw bk st"
proof -
  let ?m = "staged_memory bk st"
  note k = ok [unfolded stage_ok_def]
  have mem: "(bk_meta bk, sg_meta st) \<in> set ?m" "(bk_bl bk, sg_bl st) \<in> set ?m" "(bk_sig bk, sg_sig st) \<in> set ?m"
    by (simp_all add: staged_memory_def)
  have f: "length (sg_bl st) = unat (bl_data_size (fw_bl fw))" "length (sg_sig st) = unat (sn_sig_size (fw_sec fw))"
    "\<And>i. i < unat (bl_data_size (fw_bl fw)) \<Longrightarrow> sg_bl st ! i = fw_blb fw ! (unat (bl_data_abs (fw_bl fw)) + i)"
    "\<And>i. i < unat (sn_sig_size (fw_sec fw)) \<Longrightarrow> sg_sig st ! i = fw_gsp fw ! (unat (sn_sig_off (fw_sec fw)) + i)"
    using k fw by (simp_all add: files_ok_def firmware_ok_def Let_def nth_fld)
  have m: "ld64 (sg_meta st) 32 = Some (bk_bl bk)" "ld64 (sg_meta st) 72 = Some (bk_sig bk)"
    using k by (simp_all add: meta_ok_def fields_at_def wpr_meta_cells_def wpr_src_def)
  have shm: "length (sg_shm st) = 0x81000" using k by (simp add: stage_lengths_def block_sizes_def shm_layout)
  show ?thesis unfolding boots_from_def Let_def
    using booter_image_walk [OF apart _ _ _ fw] dma_field_block [OF apart mem(1,2) m(1)] dma_field_block [OF apart mem(1,3) m(2)]
      gsp_shared_walk [OF apart _ shm] k f by auto
qed

lemma staged_apart:
  assumes "arena_inv ar" "unat (ar_dma_addr ar) + unat (ar_cap ar) < 2 ^ 63" "alloc_all ar (block_sizes fw) = (Some ds, ar')"
    and fw: "firmware_ok fw" "length (fw_gsp fw) < 2 ^ 62" and st: "stage_lengths fw st"
  shows "blocks_apart (staged_memory (blocks_of ds) st)"
proof -
  let ?n = "block_sizes fw"
  let ?bs = "[sg_fwimg st, sg_lvl2 st, sg_lvl1 st, sg_lvl0 st, sg_bl st, sg_sig st, sg_meta st, sg_libos st, sg_loginit st,
       sg_logintr st, sg_logrm st, sg_rmargs st, sg_shm st]"
  have l2: "unat (fw_l2p fw) * 0x1000 < 2 ^ 44" using u32_less [of "fw_l2p fw"] by simp
  then have "unat (ucast (fw_l2p fw) * 0x1000 :: u64) = unat (fw_l2p fw) * 0x1000" by (simp add: unat_word_ariths unat_widen)
  then have "\<forall>n \<in> set ?n. unat n < 2 ^ 63 - 2 ^ 12"
    using fw l2 u32_less [of "bl_data_size (fw_bl fw)"] by (simp add: block_sizes_def firmware_ok_def Let_def shm_layout unat_widen)
  from alloc_all_spec [OF assms(1,2) this assms(3)]
  have d: "length ds = 16" "\<forall>(d, n) \<in> set (zip ds ?n). unat d + unat n < 2 ^ 63"
    "sorted_wrt (\<lambda>(d, n) (d', n'). unat d + unat n \<le> unat d') (zip ds ?n)"
    by (auto simp: block_sizes_def)
  let ?c = "\<lambda>xs. take 13 (drop 2 xs)"
  have z: "zip (?c ds) (?c ?n) = ?c (zip ds ?n)" by (simp add: take_zip drop_zip)
  have "sorted_wrt (\<lambda>(d, n) (d', n'). unat d + unat n \<le> unat d') (zip (?c ds) (?c ?n))"
    unfolding z by (intro sorted_wrt_take sorted_wrt_drop d(3))
  moreover have "\<forall>(d, n) \<in> set (zip (?c ds) (?c ?n)). unat d + unat n < 2 ^ 63"
    unfolding z using d(2) by (meson in_set_takeD in_set_dropD)
  moreover have "length (?c ds) = length (?c ?n)" using d(1) by (simp add: block_sizes_def)
  ultimately have "blocks_apart (zip (?c ds) ?bs)" using blocks_apart_zip st unfolding stage_lengths_def by blast
  moreover obtain a0 a1 a2 a3 a4 a5 a6 a7 a8 a9 a10 a11 a12 a13 a14 a15 where
    "ds = [a0, a1, a2, a3, a4, a5, a6, a7, a8, a9, a10, a11, a12, a13, a14, a15]"
    using d(1) by (auto simp: length_Suc_conv numeral_eq_Suc)
  ultimately show ?thesis by (simp add: staged_memory_def blocks_of_def numeral_eq_Suc)
qed

section \<open>Property\<close>

text \<open>
  C10. The staged memory boots.  For firmware files the loader accepts and blocks cut from a well-formed arena, the
  staging half of \<open>nv_gsp_bringup\<close> never leaves a block and fails only when the VRAM cannot hold the layout.
  Otherwise, starting from the two addresses handed to the hardware and following DMA pointers, the Booter
  reads every byte of the firmware image through the radix table, the boot loader and the signature as they
  are in the files, under a correct WPR2 description; and GSP-RM reaches every byte of the shared region through its
  arguments, with \<open>SET_SYSTEM_INFO\<close> and \<open>SET_REGISTRY\<close> complete in the first two slots and the write pointer at 2.
\<close>

theorem staged_memory_boots:
  assumes "load_firmware blobs = Some (Some fw)" "length (fw_gsp fw) < 2 ^ 62"
    and "arena_inv ar" "unat (ar_dma_addr ar) + unat (ar_cap ar) < 2 ^ 63" "alloc_all ar (block_sizes fw) = (Some ds, ar')"
    and "length shm0 = 0x81000" "length sys0 = 664" "length reg0 = 256"
    and "unat vram < 2 ^ 62" "unat A < 2 ^ 62" "unat S < 2 ^ 62" "vram \<noteq> 0" "S \<noteq> 0"
  shows "\<exists>r. stage_gsp fw (blocks_of ds) vram A S pci sys0 reg0 shm0 = Some r
    \<and> (case r of None \<Rightarrow> layout_refused fw vram A S
       | Some st \<Rightarrow> stage_ok fw (blocks_of ds) vram A S pci st \<and> boots_from fw (blocks_of ds) st)"
proof -
  have fw: "firmware_ok fw" using load_firmware_spec [OF assms(1,2)] by blast
  obtain r where r: "stage_gsp fw (blocks_of ds) vram A S pci sys0 reg0 shm0 = Some r"
    "case r of None \<Rightarrow> layout_refused fw vram A S | Some st \<Rightarrow> stage_ok fw (blocks_of ds) vram A S pci st"
    using returnsD [OF stage_gsp_spec [OF fw assms(6-13)]] by blast
  show ?thesis
  proof (cases r)
    case None
    then show ?thesis using r by simp
  next
    case (Some st)
    then have ok: "stage_ok fw (blocks_of ds) vram A S pci st" using r(2) by simp
    then have "stage_lengths fw st" by (simp add: stage_ok_def)
    from staged_apart [OF assms(3,4,5) fw assms(2) this] have "boots_from fw (blocks_of ds) st"
      by (rule staged_boots [OF _ ok fw])
    then show ?thesis using r Some by simp
  qed
qed


text \<open>A small pair of files: an image of eight bytes with a signature of four, and a boot loader of 16 bytes.\<close>

definition demo_section :: "u8 \<Rightarrow> u8 \<Rightarrow> u8 \<Rightarrow> u8 \<Rightarrow> u8 list" where
  "demo_section nm hi lo n = [nm, 0, 0, 0] @ replicate 20 0 @ [lo, hi, 0, 0, 0, 0, 0, 0, n, 0, 0, 0, 0, 0, 0, 0] @ replicate 24 0"

definition demo_gsp :: "u8 list" where
  "demo_gsp = [0x7f, 69, 76, 70, 2, 1] @ replicate 34 0 @ [64, 0, 0, 0, 0, 0, 0, 0] @ replicate 10 0 @ [64, 0, 3, 0, 0, 0]
     @ demo_section 0 1 0 29 @ demo_section 1 0 0 8 @ demo_section 10 0 40 4
     @ [0] @ fwimage_name @ [0] @ sig_section @ [0]"

definition demo_bootloader :: "u8 list" where
  "demo_bootloader = [0xde, 0x10, 0, 0] @ replicate 8 0 @ [24, 0, 0, 0, 0, 0, 0, 0, 16, 0, 0, 0] @ replicate 84 7"

definition demo_blobs :: fw_blobs where
  "demo_blobs s = (if s = ''gsp'' then Some demo_gsp else if s = ''bootloader'' then Some demo_bootloader else None)"

definition demo_fw :: firmware where
  "demo_fw = \<lparr>fw_gsp = demo_gsp, fw_sec = \<lparr>sn_fwimage_off = 0, sn_fwimage_size = 8, sn_sig_off = 40, sn_sig_size = 4\<rparr>,
     fw_blb = demo_bootloader, fw_bl = \<lparr>bl_data_abs = 0, bl_data_size = 16, bl_app_version = 0x07070707, bl_code_offset = 0x07070707,
       bl_data_offset = 0x07070707, bl_manifest_offset = 0x07070707, bl_manifest_size = 0x07070707\<rparr>, fw_l2p = 1\<rparr>"

lemma demo_load: "load_firmware demo_blobs = Some (Some demo_fw)"
  by code_simp

lemma demo_blocks_alloc: "fst (alloc_all (nv_dma_arena_init 0x10000000 0x200000000 0x4000000) (block_sizes demo_fw)) \<noteq> None"
  by code_simp

theorem staged_memory_boots_witness:
  "\<exists>ds st. fst (alloc_all (nv_dma_arena_init 0x10000000 0x200000000 0x4000000) (block_sizes demo_fw)) = Some ds
     \<and> stage_gsp demo_fw (blocks_of ds) 0x300000000 0x2FFE00000 0x100000 None (replicate 664 1) (replicate 256 1) (replicate 0x81000 1)
       = Some (Some st)
     \<and> booter_image (staged_memory (blocks_of ds) st) (bk_meta (blocks_of ds)) 5 = Some 1"
proof -
  let ?ar = "nv_dma_arena_init 0x10000000 0x200000000 0x4000000"
  obtain ds ar' where al: "alloc_all ?ar (block_sizes demo_fw) = (Some ds, ar')"
    using demo_blocks_alloc by (cases "alloc_all ?ar (block_sizes demo_fw)") auto
  have "length (fw_gsp demo_fw) = 285" by code_simp
  then have lg: "length (fw_gsp demo_fw) < 2 ^ 62" by simp
  have inv: "arena_inv ?ar" "unat (ar_dma_addr ?ar) + unat (ar_cap ?ar) < 2 ^ 63"
    by (simp_all add: arena_inv_def nv_dma_arena_init_def)
  have l: "length (replicate 0x81000 (1 :: u8)) = 0x81000" "length (replicate 664 (1 :: u8)) = 664" "length (replicate 256 (1 :: u8)) = 256"
    by (simp_all only: length_replicate)
  have sm: "unat (0x300000000 :: u64) < 2 ^ 62" "unat (0x2FFE00000 :: u64) < 2 ^ 62" "unat (0x100000 :: u64) < 2 ^ 62"
    "(0x300000000 :: u64) \<noteq> 0" "(0x100000 :: u64) \<noteq> 0" by simp_all
  obtain r where r: "stage_gsp demo_fw (blocks_of ds) 0x300000000 0x2FFE00000 0x100000 None (replicate 664 1) (replicate 256 1) (replicate 0x81000 1) = Some r"
    "case r of None \<Rightarrow> layout_refused demo_fw 0x300000000 0x2FFE00000 0x100000
       | Some st \<Rightarrow> stage_ok demo_fw (blocks_of ds) 0x300000000 0x2FFE00000 0x100000 None st \<and> boots_from demo_fw (blocks_of ds) st"
    using staged_memory_boots [OF demo_load lg inv al l sm, of None] by blast
  have "\<not> layout_refused demo_fw 0x300000000 0x2FFE00000 0x100000"
    by (simp add: layout_refused_def demo_fw_def wpr_heap_def roundup_def)
  then obtain st where st: "r = Some st" "boots_from demo_fw (blocks_of ds) st" using r(2) by (cases r) auto
  have "5 < unat (sn_fwimage_size (fw_sec demo_fw))" by (simp add: demo_fw_def)
  then have "booter_image (staged_memory (blocks_of ds) st) (bk_meta (blocks_of ds)) 5
      = Some (fw_gsp demo_fw ! (unat (sn_fwimage_off (fw_sec demo_fw)) + 5))"
    using st(2) unfolding boots_from_def Let_def by blast
  moreover have "fw_gsp demo_fw ! (unat (sn_fwimage_off (fw_sec demo_fw)) + 5) = 1" by code_simp
  ultimately show ?thesis using al r(1) st(1) by auto
qed

end
