(* ===== verification/GspBringup.thy ===== *)
theory GspBringup
  imports GspStaged GspInit GspScanout
begin

text \<open>
  \<open>nv_gsp_bringup\<close> as a whole (\<open>driver/gsp/gsp_bringup.c\<close>): staging, start, the wait for \<open>GSP_INIT_DONE\<close>, the layers
  behind it, and the result.  From the start on, the shared region is a part of the world.
\<close>

section \<open>The code\<close>

text \<open>The parts after \<open>GSP_INIT_DONE\<close>; \<open>rptr\<close> is the read pointer the wait has left.\<close>

definition rpc_layers ::
  "'g shared mmio \<Rightarrow> bool \<Rightarrow> nv_gsp_options option \<Rightarrow> 'g nv_gsp_fb_provider option \<Rightarrow> nv_gsp_static_info \<Rightarrow> u32 \<Rightarrow>
   nv_gsp_gpu_ctx option \<Rightarrow> nv_gsp_scanout option \<Rightarrow> 'g shared \<Rightarrow>
   (nv_gsp_gpu_ctx option \<times> nv_gsp_scanout option \<times> 'g shared) option" where
  "rpc_layers io dbg options fbp si0 rptr gpu scan w =
     do { ch \<leftarrow> open_channel rptr w;
          (_, si, ch) \<leftarrow> static_info (rpc_agent io) si0 ch;
          (chain_ok, ob, ch) \<leftarrow> rm_chain (rpc_agent io) ch;
          if \<not> chain_ok then Some (gpu, scan, ch_shm ch, ch_gsp ch)
          else do { (gpu, ch) \<leftarrow> gpu_layers io options si ob gpu ch;
                    (scan, ch) \<leftarrow> display_layers io dbg fbp si ob scan ch;
                    Some (gpu, scan, ch_shm ch, ch_gsp ch) } }"

text \<open>The pointers of the queues and the mailboxes are read for the log; the diagnostic run waits two seconds.\<close>

definition final_diag :: "'g shared mmio \<Rightarrow> bool \<Rightarrow> 'g shared \<Rightarrow> 'g shared option" where
  "final_diag io dbg w =
     (let lay = nv_gsp_shm_compute in
      do { _ \<leftarrow> ld32 (fst w) (unat (sl_cmdq_off lay) + NV_GSP_MSGQ_RXHDROFF);
           _ \<leftarrow> ld32 (fst w) (unat (sl_msgq_off lay) + NV_MSGQ_TX_WRITEPTR_OFF);
           let (_, w) = nv_falcon_read_mailbox0 io NV_PGSP_FALCON_BASE w;
               (_, w) = nv_falcon_read_mailbox1 io NV_PGSP_FALCON_BASE w in
           Some (if dbg then io_udelay io 2000000 w else w) })"

definition bringup_result :: "int \<Rightarrow> u32 \<Rightarrow> bool \<Rightarrow> bool \<Rightarrow> u32 \<Rightarrow> int" where
  "bringup_result brc mb0 active got sig =
     (let rpc_ok = (got \<and> sig = NV_GSP_RPC_SIGNATURE) in
      if brc = NV_OK \<and> mb0 = 0 \<and> active \<and> rpc_ok then 0
      else if brc = NV_OK \<and> mb0 = 0 \<and> active then 1
      else -1)"

text \<open>From the doorbell to the end; \<open>brc\<close>, \<open>mb0\<close> and \<open>active\<close> are what the start has seen.\<close>

definition gsp_session ::
  "'g shared mmio \<Rightarrow> bool \<Rightarrow> nv_gsp_options option \<Rightarrow> 'g nv_gsp_fb_provider option \<Rightarrow> nv_gsp_static_info \<Rightarrow> seq_ctx \<Rightarrow>
   int \<Rightarrow> u32 \<Rightarrow> bool \<Rightarrow> nv_gsp_gpu_ctx option \<Rightarrow> nv_gsp_scanout option \<Rightarrow> 'g shared \<Rightarrow>
   (int \<times> nv_gsp_gpu_ctx option \<times> nv_gsp_scanout option \<times> 'g shared) option" where
  "gsp_session io dbg options fbp si0 c brc mb0 active gpu scan w =
     do { (got, rptr, lst, msgs, w) \<leftarrow> wait_init_done io c active w;
          (gpu, scan, w) \<leftarrow> (if got then rpc_layers io dbg options fbp si0 rptr gpu scan w else Some (gpu, scan, w));
          w \<leftarrow> final_diag io dbg w;
          Some (bringup_result brc mb0 active got (snd lst), gpu, scan, w) }"

text \<open>The reset of the out-parameters at the entry; the EDID stays.\<close>

definition reset_scanout :: "nv_gsp_scanout \<Rightarrow> nv_gsp_scanout" where
  "reset_scanout so = so\<lparr>so_fb_phys := 0, so_width := 0, so_height := 0, so_pitch := 0, so_ok := False,
     so_fb_target := 0, so_edid_ok := False\<rparr>"

text \<open>
  All of it.  The first component of the world is the block of the shared region: the staging initialises it, and the
  GSP, which learns of it only from the staged arguments, has left it alone till then.
\<close>

definition nv_gsp_bringup ::
  "'g shared mmio \<Rightarrow> nv_dma_arena_t \<Rightarrow> fw_blobs \<Rightarrow> nv_gsp_pci_info option \<Rightarrow> old_memory \<Rightarrow> nv_gsp_static_info \<Rightarrow> bool \<Rightarrow>
   nv_gsp_scanout option \<Rightarrow> 'g nv_gsp_fb_provider option \<Rightarrow> nv_gsp_gpu_ctx option \<Rightarrow> nv_gsp_options option \<Rightarrow> 'g shared \<Rightarrow>
   (int \<times> nv_gsp_gpu_ctx option \<times> nv_gsp_scanout option \<times> nv_dma_arena_t \<times> 'g shared) option" where
  "nv_gsp_bringup io ar blobs pci om si0 dbg scan fbp gpu options w =
     (let scan = map_option reset_scanout scan; gpu = map_option (\<lambda>_. no_ctx) gpu in
      do { (s, ar, w) \<leftarrow> bringup_stage io ar blobs pci om w;
           case s of None \<Rightarrow> Some (-1, gpu, scan, ar, w)
           | Some (boot0, fw, bk, st) \<Rightarrow>
               do { (r, w) \<leftarrow> boot_gsp io blobs (bl_app_version (fw_bl fw)) bk boot0 (sg_shm st, snd w);
                    case r of None \<Rightarrow> Some (-1, gpu, scan, ar, w)
                    | Some (bd, _, brc, mb0, active) \<Rightarrow>
                        let c = \<lparr>sq_boot0 = boot0, sq_libos_io = bk_libos bk, sq_meta_io = bk_meta bk,
                                 sq_booter_io = bk_booter bk, sq_app_version = bl_app_version (fw_bl fw), sq_bd = bd\<rparr> in
                        do { (rc, gpu, scan, w) \<leftarrow> gsp_session io dbg options fbp si0 c brc mb0 active gpu scan w;
                             Some (rc, gpu, scan, ar, w) } } })"

section \<open>The bus of a GSP that delivers\<close>

lemma later_appends:
  fixes f :: "'g shared \<Rightarrow> 'g shared"
  assumes l: "\<And>w. later log due w (f w)"
  shows "appends f"
  unfolding appends_def
proof (intro allI impI; elim conjE)
  fix b and g :: 'g and r w ms
  assume b: "length b = 0x81000" "readptr_is b r" "writeptr_is b w" "queue_holds b r w ms"
  then have "queue_box (b, g) r ms" by (auto simp: queue_box_def)
  then obtain new where "queue_box (f (b, g)) r (ms @ new)" using l [of "(b, g)"] unfolding later_def by blast
  then show "case f (b, g) of (b', g') \<Rightarrow> length b' = 0x81000 \<and> readptr_is b' r
      \<and> (\<exists>w' new. writeptr_is b' w' \<and> queue_holds b' r w' (ms @ new))"
    by (auto simp: queue_box_def split_def)
qed

lemma delivers_appends:
  assumes "gsp_delivers io log due"
  shows "appends (\<lambda>w. snd (io_rd io r w))" "appends (io_wr io r v)" "appends (io_udelay io d)"
  using assms unfolding gsp_delivers_def by (intro later_appends [of log due]; blast)+

text \<open>The channel takes over what the wait has left.\<close>

lemma open_channel_ok:
  assumes "gsp_delivers io log due" "inbox w r ms" "cmd_ptr w = Some n" "unat n < 63"
  shows "\<exists>ch. open_channel r w = Some ch \<and> bus_ok io g (\<lambda>_. True) ch"
proof -
  have "open_channel r w = Some \<lparr>ch_shm = fst w, ch_lay = nv_gsp_shm_compute, ch_cmdq_wptr = n, ch_seq = n, ch_msgq_rptr = r,
      ch_gsp = snd w\<rparr>" (is "_ = Some ?ch")
    using assms(3) by (simp add: open_channel_def Let_def cmd_ptr_def shm_layout del: ld32_Some)
  moreover have "chan_ok ?ch ms" using assms(2,4) by (auto simp: chan_ok_def inbox_def queue_box_def)
  ultimately show ?thesis using delivers_appends [OF assms(1)] by (auto simp: bus_ok_def)
qed

section \<open>The layers and the result\<close>

lemma rpc_layers_step:
  assumes d: "gsp_delivers io log due" and box: "inbox w r ms" "cmd_ptr w = Some n" "unat n < 63"
    and si: "info_ok si0" and gpu: "fresh gpu" and fbp: "provider_ok (\<lambda>_. True) fbp"
  shows "returns (rpc_layers io dbg options fbp si0 r gpu scan w) (\<lambda>(gpu', scan', w'). length (fst w') = 0x81000
     \<and> (\<exists>si. given si (external_vmm options) gpu gpu') \<and> shown (dark (chan_io io) (bus_ok io False (\<lambda>_. True))) fbp scan scan')"
proof -
  let ?Q = "bus_ok io False (\<lambda>_. True)"
  obtain ch where ch: "open_channel r w = Some ch" "?Q ch" using open_channel_ok [OF d box] by blast
  have len: "length (ch_shm ch) = 0x81000" if "?Q ch" for ch using that by (auto simp: bus_ok_def chan_ok_def)
  have same: "\<exists>si. given si (external_vmm options) gpu gpu" using given_refl [OF gpu] by blast
  note pf = bus_platform [OF fbp, where io = io and g = False]
  note disp = bu.display_layers_step [OF _ pf]
  show ?thesis
    unfolding rpc_layers_def ch(1) bind.bind_lunit
    apply (rule ret_bind [OF bu.static_info_step [OF ch(2) si]])
    apply (simp only: split_paired_all prod.case, erule conjE)
    apply (rule ret_bind [OF bu.rm_chain_step], assumption)
    apply (simp only: split_paired_all prod.case)
    apply (rule ret_if)
     apply (rule ret_Some, simp add: len same shown_refl)
    apply (rule ret_bind [OF bu.gpu_layers_step [OF _ _ gpu]], assumption, assumption)
    apply (simp only: split_paired_all prod.case, erule conjE)
    apply (rule ret_bind [OF disp], assumption, simp)
    apply (auto simp: len intro!: ret_Some)
    done
qed

lemma final_diag_ok: "length (fst w) = 0x81000 \<Longrightarrow> \<exists>w'. final_diag io dbg w = Some w'"
  by (simp add: final_diag_def Let_def split_def shm_layout)

lemma wait_ok:
  assumes "gsp_delivers io log due" "inbox w 0 (log (snd w))"
  shows "\<exists>got r lst msgs w'. wait_init_done io c active w = Some (got, r, lst, msgs, w') \<and> cmd_ptr w' = cmd_ptr w
    \<and> (\<exists>ms. inbox w' r ms) \<and> (got \<longrightarrow> active \<and> (\<exists>m \<in> set (log (snd w')). init_done m)) \<and> (active \<and> due (snd w) < 8000 \<longrightarrow> got)"
proof (cases active)
  case True
  have "\<exists>got r lst msgs w'. init_wait io c 8000 0 (0, 0) 0 w = Some (got, r, lst, msgs, w')
      \<and> wait_outcome log got r lst msgs w' \<and> cmd_ptr w' = cmd_ptr w \<and> (due (snd w) < 8000 \<longrightarrow> got)"
    by (rule init_wait_ok [OF assms, of "[]"]) simp_all
  then obtain got r lst msgs w' where w: "init_wait io c 8000 0 (0, 0) 0 w = Some (got, r, lst, msgs, w')"
    "wait_outcome log got r lst msgs w'" "cmd_ptr w' = cmd_ptr w" "due (snd w) < 8000 \<longrightarrow> got" by blast
  have "\<exists>ms. inbox w' r ms" "got \<longrightarrow> (\<exists>m \<in> set (log (snd w')). init_done m)"
    using w(2) by (auto simp: wait_outcome_def split: if_splits)
  then show ?thesis using w True unfolding wait_init_done_def by (simp del: init_wait.simps)
next
  case False
  then show ?thesis using assms(2) by (auto simp: wait_init_done_def)
qed

text \<open>What the staging leaves is where the session begins: an empty queue of messages and two commands posted.\<close>

lemma staged_region:
  assumes "stage_ok fw bk vram A S pci st" "log g = []"
  shows "inbox (sg_shm st, g) 0 (log g)" "cmd_ptr (sg_shm st, g) = Some 2"
proof -
  have q: "map (\<lambda>i. ld32 (sg_shm st) (0x41000 + 4 * i)) [0..<9] = map Some [0, NV_GSP_QUEUE_SIZE, NV_GSP_QUEUE_MSGSIZE, 63, 0, 1, 32, NV_GSP_QUEUE_ENTRYOFF, 0]"
    using assms(1) unfolding stage_ok_def queue_hdr_def by blast
  have p: "ld32 (sg_shm st) 0x41010 = Some 0" "ld32 (sg_shm st) 0x41020 = Some 0"
    using arg_cong [OF q, of "\<lambda>xs. xs ! 4"] arg_cong [OF q, of "\<lambda>xs. xs ! 8"] by (simp_all del: upt.simps ld32_Some)
  have "stage_lengths fw st" using assms(1) by (simp add: stage_ok_def)
  then have "length (sg_shm st) = 0x81000" by (simp add: stage_lengths_def block_sizes_def Let_def shm_layout)
  then show "inbox (sg_shm st, g) 0 (log g)"
    using p assms(2) by (auto simp: inbox_def queue_box_def readptr_is_def writeptr_is_def simp del: ld32_Some)
  show "cmd_ptr (sg_shm st, g) = Some 2" using assms(1) unfolding stage_ok_def preboot_ok_def cmd_ptr_def fst_conv by blast
qed

section \<open>Property\<close>



end
