(* ===== verification/Spec2Isabelle.thy ===== *)
theory Spec2Isabelle
  imports Prelude Mmio Bytes Vram Gmmu GmmuBranch FbRegion GspMemory Dma Regs Falcon GspRpc GspChan GspRm Booter Elf64 FbLayout FwsecLocate FwsecPatch GspFw
    GspFifo GspGr GspQuery GspExec DispPush GspDisp CpuSeq
    ClientContract GspContext GspScanout GspBringup
begin

text \<open>
  \<^bold>\<open>RTXmacOC: the core of the driver\<close>

  The repository brings an NVIDIA GPU of the Ada generation up from a macOS kernel extension.  The GPU is run by its
  own system processor, the GSP: the driver prepares firmware and a block of memory both sides share, starts the GSP
  through two signed programs (FWSEC and the Booter), and from then on asks the resource manager on the GSP (GSP-RM)
  for everything else by messages.  With its help it sets up page tables, one channel of the copy engine and the
  display; a user process reaches the copy engine through a user client.

  \<^bold>\<open>Conventions\<close>

  C integers are words of their width (\<open>u8\<close> to \<open>u64\<close>, in \<open>Prelude\<close>), so arithmetic wraps as in C.  Buffers are byte
  lists; \<open>ld8\<close> to \<open>ld64\<close>, \<open>st8\<close> to \<open>st64\<close> and their relatives are \<open>None\<close> outside of the buffer, so a function
  result \<open>None\<close> is an access the C code must not make, and a statement that a function returns \<open>Some\<close> says that it
  makes none and ends.  Error codes of the source are values of type \<open>int\<close>, or the left summand of a result.
  Device registers are reached through callbacks in the source (\<open>nv_mmio_t\<close>); here these are the record \<open>mmio\<close> over
  an arbitrary device state, threaded through every function.  The memory shared with the GSP is a pair of its bytes
  and a state of the GSP; a \<open>gsp_agent\<close> is what the GSP does when the driver rings its doorbell or waits.  Loops with
  a bound are \<open>for_upto\<close> and \<open>find_upto\<close> (\<open>Prelude\<close>); loops that wait on a device or follow data are
  \<open>partial_function (option)\<close>, and their termination is a theorem of its own.  No fuel is used anywhere.

  \<^bold>\<open>Theories\<close>

  Foundations:
  \<^item> \<open>Prelude\<close>: types, buffers, loops, the predicate \<open>returns f Q\<close> (the computation ends and its result meets \<open>Q\<close>)
    with its rules \<open>ret_rules\<close>.  \<open>Bytes\<close>: reading what was stored.  \<open>Mmio\<close>: the register port and the trace of
    accesses a port makes (locale \<open>logged_port\<close>).  \<open>Regs\<close>: \<open>ada_regs.h\<close> and \<open>falcon_regs.h\<close>.

  Memory of the GPU:
  \<^item> \<open>Vram\<close> (\<open>vram.c\<close>): search for a free range (locale \<open>gap_search\<close>, used for the regions and for the pool) and the
    pool of handles.  \<open>nv_vram_alloc\<close>, \<open>nv_vram_free\<close> and \<open>nv_vram_resolve\<close> meet their contracts in every history.
  \<^item> \<open>Gmmu\<close>, \<open>GmmuBranch\<close> (\<open>gmmu.c\<close>): the PRAMIN window (locale \<open>pramin_port\<close>) and the page tables.  The walk of the
    hardware is an abstract translation, and the builders implement it.
  \<^item> \<open>FbRegion\<close>, \<open>GspMemory\<close> (\<open>gsp_memory.c\<close>): cutting one block of VRAM into reserve, page tables, channel and data;
    composed with \<open>Gmmu\<close>: the planned tables translate the block exactly.
  \<^item> \<open>Dma\<close> (\<open>nv_dma.h\<close>): the arena of memory that is shared with the GPU.

  Preparing and starting the GSP:
  \<^item> \<open>Falcon\<close> (\<open>falcon.c\<close>), \<open>Booter\<close> (\<open>booter.c\<close>), \<open>Elf64\<close> (\<open>elf64.c\<close>), \<open>FbLayout\<close> (\<open>fb_layout.c\<close>), \<open>FwsecLocate\<close>
    (\<open>fwsec_locate.c\<close>), \<open>FwsecPatch\<close> (\<open>fwsec_patch.c\<close>), \<open>GspFw\<close> (\<open>gsp_fw.c\<close>): one theory per file, with the parsers
    proved to stay inside their input and to state what it holds, and the tables proved to describe what they should.
  \<^item> \<open>FwsecRun\<close>, \<open>GspStage\<close>, \<open>GspStaged\<close>, \<open>GspBoot\<close>, \<open>CpuSeq\<close>, \<open>GspInit\<close> (\<open>gsp_bringup.c\<close>): the first half of
    \<open>nv_gsp_bringup\<close> in its order.  FWSEC is run (\<open>do_fwsec_frts\<close>); firmware, tables, queues and the first two
    commands are staged (\<open>bringup_stage\<close>, with \<open>GspStaged\<close> reading the result as the Booter and GSP-RM do); the GSP is
    started (\<open>boot_gsp\<close>); and messages are drained until \<open>GSP_INIT_DONE\<close> (\<open>wait_init_done\<close>, locale \<open>port_order\<close>), the
    register lists GSP-RM sends being executed on the way (\<open>exec_cpu_sequencer\<close>).

  Talking to GSP-RM:
  \<^item> \<open>GspRpc\<close> (\<open>gsp_rpc.c\<close>): the two rings in the shared region and the elements put into them.
  \<^item> \<open>GspChan\<close>, \<open>GspRm\<close> (\<open>gsp_rm.c\<close>): the call and what is made of calls.  \<open>appends\<close> is the queue protocol of the GSP:
    it only appends well-formed messages.  Under it every call ends, whatever the messages say.
  \<^item> \<open>GspService\<close>: the interface between the call and its clients, locale \<open>rpc_service\<close>; all clients are proved against
    its one law, and \<open>sv\<close> interprets it on \<open>nv_gsp_rpc_call\<close>.
  \<^item> \<open>GspFifo\<close> (\<open>gsp_fifo.c\<close>), \<open>GspGr\<close> (\<open>gsp_gr.c\<close>), \<open>GspQuery\<close>: channel, engine tables, buffer sizes, interrupts, and
    the command words of a copy, which decode to the copy asked for.
  \<^item> \<open>DispPush\<close>, \<open>GspDisp\<close> (\<open>gsp_disp.c\<close>): EDID and mode set streams; display objects and queries.

  The second half of \<open>nv_gsp_bringup\<close>, after \<open>GSP_INIT_DONE\<close>:
  \<^item> \<open>GspPort\<close>: locale \<open>register_port\<close>, the interface to the registers: what the accesses of a driver keep, every
    function built from them keeps, and it returns.
  \<^item> \<open>GspLayer4\<close>, \<open>GspContext\<close>: the channel to GSP-RM, the RM objects, placing and mapping VRAM, the channel of the copy
    engine, its tests, and the context that is handed out (\<open>gpu_layers\<close>).  Locale \<open>bring_up\<close> joins \<open>rpc_service\<close> and
    \<open>register_port\<close>; \<open>bu\<close> interprets it on the call-backs of the bring-up and the predicate \<open>bus_ok\<close>.
  \<^item> \<open>GspLayer5\<close>, \<open>GspScanout\<close>: the display (\<open>display_layers\<close>): outputs, EDID, channels, the surface of the platform, the
    submissions that set the mode, and the evidence that is asked for before a surface is handed out.  A surface is
    marked as good only where the hardware scans, and a platform that refuses keeps its output.
  \<^item> \<open>GspBringup\<close>: \<open>nv_gsp_bringup\<close> as the composition of all of these.  \<open>staged_region\<close> shows that the session begins
    where the staging ends; the property of \<open>gsp_session\<close> covers everything from the doorbell to the result.

  Work for user processes:
  \<^item> \<open>GspExec\<close> (\<open>gsp_exec.c\<close>): submission of a copy over the live channel and the self test of the pool.
  \<^item> \<open>MilcorixGpu\<close>, \<open>MilcorixCopy\<close> (\<open>MilcorixFB.cpp\<close>, the operations a user client reaches), \<open>UserClient\<close>
    (\<open>MilcorixUserClient.cpp\<close>, every external method).
  \<^item> \<open>ClientSession\<close>, \<open>ClientStore\<close>, \<open>ClientContract\<close>: sessions are sequences of opens, calls and closes; the handle
    interface implements an abstract store of byte buffers; every call stays inside the scratch area.

  \<^bold>\<open>What is assumed of the outside\<close>

  Each assumption is a named predicate of a theorem, and a theorem with one has a concrete instance beside it:
  \<open>appends\<close>, \<open>gsp_delivers\<close>, \<open>served\<close> and \<open>bus_ok\<close> (the GSP follows the queue protocol), \<open>provider_ok\<close> (the call-backs of the
  platform do too), \<open>engine_copies\<close> and its relatives in
  \<open>MilcorixCopy\<close> (the copy engine executes what the channel holds), and the memory behaviour of VRAM behind the PRAMIN
  window.  No assumption is made on the contents of firmware files, of the VBIOS or of GSP answers unless the theorem
  names one.

  \<^bold>\<open>Not modelled\<close>

  \<^item> Of \<open>nv_gsp_bringup\<close>: the dump of logs and queues to the debugging call-back, and the reads of VRAM, registers and
    logs whose values are only printed where the source has them as arguments of \<open>nv_log\<close>; the model runs without a
    log.  The static buffers of the source start cleared.  No theorem runs through staging, start and session at once:
    the first two have their own, and \<open>staged_region\<close> is the link.
  \<^item> The IOKit side of \<open>MilcorixFB.cpp\<close> (life cycle, PCI matching, call-backs of \<open>IOFramebuffer\<close>), the log
    (\<open>mfb_klog.cpp\<close>), the providers of firmware files, the probe kexts, and the Linux tools and tests: input and output
    around the code modelled here.
  \<^item> Log output, and the time a delay takes.
\<close>

end
